(* ===== verification/Pok_Prelude.thy ===== *)
theory Pok_Prelude
  imports Main "HOL-Library.Word" "HOL-Library.Monad_Syntax"
begin

text \<open>
  The shared vocabulary of the development: the C integer types as words, the fact collections the
  component theories fill, the control structures the kernel repeats in many places (assertions,
  bounded \<open>for\<close> loops, the circular scans over the threads of a partition) and the generic lemmas
  about them.

  Every kernel operation that can fail to return is a function into \<open>option\<close>. \<open>None\<close> stands for a
  call that never returns to its caller: a loop that never ends, a failed kernel assertion (the
  kernel prints a message and shuts the machine down) or a step C leaves undefined. A theorem that
  an operation returns is always stated as an equation with \<open>Some\<close>.
\<close>

subsection \<open>Machine integers\<close>

type_synonym u8 = "8 word"
type_synonym u16 = "16 word"
type_synonym u32 = "32 word"
type_synonym u64 = "64 word"

named_theorems kernel_simps "frame and evaluation rules of the kernel operations"
named_theorems kernel_defs "definitions of the kernel operations, for unfolding"

subsection \<open>Assertions\<close>

text \<open>\<open>assert(b)\<close> of a kernel built with \<open>POK_NEEDS_ASSERT\<close>: a failure shuts the machine down.\<close>

definition kassert :: "bool \<Rightarrow> unit option" where
  "kassert b = (if b then Some () else None)"

lemma kassert_simps [simp]:
  "kassert True = Some ()"
  "kassert False = None"
  "(kassert b = Some u) = b"
  "(kassert b = None) = (\<not> b)"
  by (simp_all add: kassert_def)

lemma kassert_bind [simp]: "b \<Longrightarrow> Option.bind (kassert b) f = f ()"
  by simp

subsection \<open>Counting loops\<close>

text \<open>
  \<open>for (i = lo; i < hi; i++) body\<close>, over a state. The body may fail to return.
\<close>

fun for_loop :: "nat list \<Rightarrow> (nat \<Rightarrow> 's \<Rightarrow> 's option) \<Rightarrow> 's \<Rightarrow> 's option" where
  "for_loop [] body s = Some s"
| "for_loop (i # is) body s = Option.bind (body i s) (for_loop is body)"

lemma for_loop_append:
  "for_loop (xs @ ys) body s = Option.bind (for_loop xs body s) (for_loop ys body)"
  by (induction xs arbitrary: s) (auto split: Option.bind_splits)

lemma for_loop_invariant:
  assumes "for_loop is body s = Some t" and "P s"
    and "\<And>i s t. i \<in> set is \<Longrightarrow> P s \<Longrightarrow> body i s = Some t \<Longrightarrow> P t"
  shows "P t"
  using assms
proof (induction "is" arbitrary: s)
  case Nil
  then show ?case by simp
next
  case (Cons i "is")
  from Cons.prems(1) obtain s' where s': "body i s = Some s'" "for_loop is body s' = Some t"
    by (auto split: Option.bind_splits)
  have "P s'" using Cons.prems(3) [OF _ Cons.prems(2) s'(1)] by simp
  then show ?case using Cons.IH [OF s'(2)] Cons.prems(3) by (meson list.set_intros(2))
qed

lemma for_loop_total:
  assumes "\<And>i s. i \<in> set is \<Longrightarrow> P s \<Longrightarrow> \<exists>t. body i s = Some t \<and> P t" and "P s"
  shows "\<exists>t. for_loop is body s = Some t \<and> P t"
  using assms
proof (induction "is" arbitrary: s)
  case Nil
  then show ?case by simp
next
  case (Cons i "is")
  then obtain s' where "body i s = Some s'" "P s'" by (metis list.set_intros(1))
  then show ?case using Cons by simp
qed

lemma for_loop_Some [simp]: "for_loop is (\<lambda>i s. Some (f i s)) s = Some (fold f is s)"
  by (induction "is" arbitrary: s) simp_all

lemma find_SomeD: "find P xs = Some x \<Longrightarrow> x \<in> set xs" "find P xs = Some x \<Longrightarrow> P x"
  by (auto simp: find_Some_iff)

lemma find_NoneD: "find P xs = None \<Longrightarrow> x \<in> set xs \<Longrightarrow> \<not> P x"
  by (auto simp: find_None_iff)

lemma upt_split: "a \<le> m \<Longrightarrow> m \<le> b \<Longrightarrow> [a..<b] = [a..<m] @ [m..<b]"
  using upt_add_eq_append [of a m "b - m"] by simp

subsection \<open>Circular scans\<close>

text \<open>
  The thread schedulers walk the slice \<open>[low, high)\<close> of the thread table as a ring: every loop of
  theirs advances with \<open>i++; if (i >= index_high) i = index_low;\<close>. The four loop shapes they use are
  written once here, with the starting index \<open>from\<close> as the loop's stop condition. None of them ends
  when \<open>from\<close> lies outside the slice and no early exit is taken, which is why their result is an
  \<open>option\<close>.
\<close>

definition circ_next :: "nat \<Rightarrow> nat \<Rightarrow> nat \<Rightarrow> nat" where
  "circ_next low high i = (if Suc i \<ge> high then low else Suc i)"

text \<open>\<open>do { body(i); advance } while (i != from)\<close>\<close>

partial_function (option) circ_loop ::
  "nat \<Rightarrow> nat \<Rightarrow> nat \<Rightarrow> (nat \<Rightarrow> 's \<Rightarrow> 's) \<Rightarrow> nat \<Rightarrow> 's \<Rightarrow> 's option" where
  "circ_loop low high from body i s =
     (let s' = body i s; i' = circ_next low high i
      in if i' = from then Some s' else circ_loop low high from body i' s')"

text \<open>\<open>do { if (ok(i)) return i; advance } while (i != from)\<close>; \<open>Some None\<close> is falling through.\<close>

partial_function (option) circ_first ::
  "nat \<Rightarrow> nat \<Rightarrow> nat \<Rightarrow> (nat \<Rightarrow> bool) \<Rightarrow> nat \<Rightarrow> nat option option" where
  "circ_first low high from ok i =
     (if ok i then Some (Some i)
      else let i' = circ_next low high i
           in if i' = from then Some None else circ_first low high from ok i')"

text \<open>\<open>while (i != from) { if (ok(i)) return i; advance }\<close>\<close>

partial_function (option) circ_while ::
  "nat \<Rightarrow> nat \<Rightarrow> nat \<Rightarrow> (nat \<Rightarrow> bool) \<Rightarrow> nat \<Rightarrow> nat option option" where
  "circ_while low high from ok i =
     (if i = from then Some None
      else if ok i then Some (Some i)
      else circ_while low high from ok (circ_next low high i))"

text \<open>\<open>do { advance } while (i != from && !ok(i))\<close>; the result is the final \<open>i\<close>.\<close>

partial_function (option) circ_seek ::
  "nat \<Rightarrow> nat \<Rightarrow> nat \<Rightarrow> (nat \<Rightarrow> bool) \<Rightarrow> nat \<Rightarrow> nat option" where
  "circ_seek low high from ok i =
     (let i' = circ_next low high i
      in if i' \<noteq> from \<and> \<not> ok i' then circ_seek low high from ok i' else Some i')"

text \<open>
  The indices a walk that stands at \<open>i\<close> has still to visit before it meets \<open>from\<close> again; the whole
  round trip from \<open>from\<close>, and the round trip without its start.
\<close>

definition circ_path :: "nat \<Rightarrow> nat \<Rightarrow> nat \<Rightarrow> nat \<Rightarrow> nat list" where
  "circ_path low high from i = (if i < from then [i..<from] else [i..<high] @ [low..<from])"

abbreviation circ_order :: "nat \<Rightarrow> nat \<Rightarrow> nat \<Rightarrow> nat list" where
  "circ_order low high from \<equiv> circ_path low high from from"

definition circ_rest :: "nat \<Rightarrow> nat \<Rightarrow> nat \<Rightarrow> nat list" where
  "circ_rest low high from = [Suc from..<high] @ [low..<from]"

lemma circ_next_range: "low < high \<Longrightarrow> low \<le> i \<Longrightarrow> low \<le> circ_next low high i \<and> circ_next low high i < high"
  by (auto simp: circ_next_def)

lemma set_circ_order: "low \<le> from \<Longrightarrow> from < high \<Longrightarrow> set (circ_order low high from) = {low..<high}"
  by (auto simp: circ_path_def)

lemma set_circ_rest:
  "low \<le> from \<Longrightarrow> from < high \<Longrightarrow> set (circ_rest low high from) = {low..<high} - {from}"
  by (auto simp: circ_rest_def)

lemma distinct_circ_order: "distinct (circ_order low high from)"
  by (auto simp: circ_path_def)

lemma circ_order_rest:
  "from < high \<Longrightarrow> circ_order low high from = from # circ_rest low high from"
  by (simp add: circ_path_def circ_rest_def upt_rec)

lemma circ_path_step:
  assumes "low \<le> from" "from < high" "low \<le> i" "i < high"
  shows "circ_path low high from i =
    i # (if circ_next low high i = from then [] else circ_path low high from (circ_next low high i))"
proof (cases "i < from")
  case True
  then show ?thesis
    using assms by (auto simp: circ_path_def circ_next_def upt_rec [of i])
next
  case False
  then show ?thesis
    using assms by (auto simp: circ_path_def circ_next_def upt_rec [of i] upt_rec [of low])
qed

text \<open>Inside the slice every scan ends, and its result is that of the list operation on the path.\<close>

lemma circ_path_induct [consumes 4, case_names step]:
  assumes "low \<le> from" "from < high" "low \<le> i" "i < high"
    and "\<And>i. low \<le> i \<Longrightarrow> i < high \<Longrightarrow>
      (circ_next low high i \<noteq> from \<Longrightarrow> P (circ_next low high i)) \<Longrightarrow> P i"
  shows "P i"
  using assms(3,4)
proof (induction "length (circ_path low high from i)" arbitrary: i rule: less_induct)
  case less
  show ?case
  proof (rule assms(5) [OF less.prems])
    assume ne: "circ_next low high i \<noteq> from"
    have "low < high" using assms by simp
    with less.prems have r: "low \<le> circ_next low high i" "circ_next low high i < high"
      using circ_next_range by auto
    have "length (circ_path low high from (circ_next low high i)) < length (circ_path low high from i)"
      using ne circ_path_step [OF assms(1,2) less.prems] by simp
    then show "P (circ_next low high i)" using less.hyps r by blast
  qed
qed

lemma circ_loop_path:
  assumes "low \<le> from" "from < high" "low \<le> i" "i < high"
  shows "circ_loop low high from body i s = Some (fold body (circ_path low high from i) s)"
  using assms
proof (induction i arbitrary: s rule: circ_path_induct)
  case (step i)
  then show ?case
    using circ_path_step [OF assms(1,2) step(1,2)]
    by (subst circ_loop.simps) (simp add: Let_def)
qed

lemma circ_loop_order:
  "low \<le> from \<Longrightarrow> from < high \<Longrightarrow>
   circ_loop low high from body from s = Some (fold body (circ_order low high from) s)"
  by (simp add: circ_loop_path)

lemma circ_first_path:
  assumes "low \<le> from" "from < high" "low \<le> i" "i < high"
  shows "circ_first low high from ok i = Some (find ok (circ_path low high from i))"
  using assms
proof (induction i rule: circ_path_induct)
  case (step i)
  then show ?case
    using circ_path_step [OF assms(1,2) step(1,2)]
    by (subst circ_first.simps) (simp add: Let_def)
qed

lemma circ_next_path:
  assumes "low \<le> from" "from < high"
  shows "circ_path low high from (circ_next low high from) =
    (if high = Suc low then [from] else circ_rest low high from)"
  using assms by (auto simp: circ_path_def circ_next_def circ_rest_def upt_rec [of "from"])

lemma circ_first_next:
  assumes "low \<le> from" "from < high"
  shows "circ_first low high from ok (circ_next low high from) =
    Some (find ok (if high = Suc low then [from] else circ_rest low high from))"
  using circ_first_path [OF assms, of "circ_next low high from" ok] circ_next_range [of low high "from"]
    circ_next_path [OF assms] assms by simp

lemma circ_while_path:
  assumes "low \<le> from" "from < high" "low \<le> i" "i < high"
  shows "i \<noteq> from \<longrightarrow> circ_while low high from ok i = Some (find ok (circ_path low high from i))"
  using assms
proof (induction i rule: circ_path_induct)
  case (step i)
  show ?case
  proof (cases "circ_next low high i = from")
    case True
    then show ?thesis
      using circ_path_step [OF assms(1,2) step(1,2)]
      by (subst circ_while.simps) (simp add: circ_while.simps [of low high "from" ok "from"])
  next
    case False
    then show ?thesis
      using circ_path_step [OF assms(1,2) step(1,2)] step(3)
      by (subst circ_while.simps) simp
  qed
qed

lemma circ_while_next:
  assumes "low \<le> from" "from < high"
  shows "circ_while low high from ok (circ_next low high from) = Some (find ok (circ_rest low high from))"
proof (cases "circ_next low high from = from")
  case True
  then have "circ_rest low high from = []" using assms by (auto simp: circ_next_def circ_rest_def split: if_splits)
  with True show ?thesis by (simp add: circ_while.simps)
next
  case False
  then have "high \<noteq> Suc low" using assms by (auto simp: circ_next_def)
  with False show ?thesis
    using circ_while_path [OF assms, of "circ_next low high from" ok] circ_next_range [of low high "from"]
      circ_next_path [OF assms] assms by simp
qed

lemma circ_seek_path:
  assumes "low \<le> from" "from < high" "low \<le> i" "i < high"
  shows "circ_seek low high from ok i =
    Some (case find ok (tl (circ_path low high from i)) of Some e \<Rightarrow> e | None \<Rightarrow> from)"
  using assms
proof (induction i rule: circ_path_induct)
  case (step i)
  have r: "low \<le> circ_next low high i" "circ_next low high i < high"
    using assms circ_next_range step by auto
  show ?case
    using circ_path_step [OF assms(1,2) step(1,2)] circ_path_step [OF assms(1,2) r] step(3)
    by (subst circ_seek.simps) (auto simp: Let_def split: option.splits)
qed

lemma circ_seek_order:
  assumes "low \<le> from" "from < high"
  shows "circ_seek low high from ok from =
    Some (case find ok (circ_rest low high from) of Some e \<Rightarrow> e | None \<Rightarrow> from)"
  using circ_seek_path [OF assms assms] circ_order_rest [OF assms(2), of low] by simp

text \<open>A scan that starts inside the slice but waits for an index outside it never ends.\<close>

lemma circ_first_diverges:
  assumes "low < high" "low \<le> i" "i < high" "from < low \<or> high \<le> from"
    and "\<And>j. low \<le> j \<Longrightarrow> j < high \<Longrightarrow> \<not> ok j"
  shows "circ_first low high from ok i = None"
proof (rule ccontr)
  assume "circ_first low high from ok i \<noteq> None"
  then obtain r where ret: "circ_first low high from ok i = Some r" by auto
  have "low < high \<longrightarrow> low \<le> i \<longrightarrow> i < high \<longrightarrow> (from < low \<or> high \<le> from) \<longrightarrow>
      (\<forall>j. low \<le> j \<longrightarrow> j < high \<longrightarrow> \<not> ok j) \<longrightarrow> False"
  proof (rule circ_first.raw_induct [where P = "\<lambda>low high from ok i r. low < high \<longrightarrow> low \<le> i \<longrightarrow>
      i < high \<longrightarrow> (from < low \<or> high \<le> from) \<longrightarrow> (\<forall>j. low \<le> j \<longrightarrow> j < high \<longrightarrow> \<not> ok j) \<longrightarrow> False",
      OF _ ret])
    fix f low high "from" ok i and r :: "nat option"
    assume IH: "\<And>low high from ok i (r :: nat option). f low high from ok i = Some r \<Longrightarrow>
        low < high \<longrightarrow> low \<le> i \<longrightarrow> i < high \<longrightarrow> (from < low \<or> high \<le> from) \<longrightarrow>
        (\<forall>j. low \<le> j \<longrightarrow> j < high \<longrightarrow> \<not> ok j) \<longrightarrow> False"
      and eq: "(if ok i then Some (Some i) else let i' = circ_next low high i
         in if i' = from then Some None else f low high from ok i') = Some r"
    show "low < high \<longrightarrow> low \<le> i \<longrightarrow> i < high \<longrightarrow> (from < low \<or> high \<le> from) \<longrightarrow>
        (\<forall>j. low \<le> j \<longrightarrow> j < high \<longrightarrow> \<not> ok j) \<longrightarrow> False"
    proof (intro impI)
      assume h: "low < high" "low \<le> i" "i < high" "from < low \<or> high \<le> from"
        "\<forall>j. low \<le> j \<longrightarrow> j < high \<longrightarrow> \<not> ok j"
      have n: "low \<le> circ_next low high i" "circ_next low high i < high"
        using circ_next_range h by auto
      with h eq have "f low high from ok (circ_next low high i) = Some r"
        by (auto simp: Let_def split: if_splits)
      from IH [OF this] h n show False by blast
    qed
  qed
  with assms show False by blast
qed

subsection \<open>Elections as folds\<close>

text \<open>
  \<open>argmax\<close>-style scans: the running best is replaced when a candidate is strictly better, so the
  first of the best candidates in scan order wins.
\<close>

definition best_first :: "('a \<Rightarrow> bool) \<Rightarrow> ('a \<Rightarrow> nat) \<Rightarrow> 'a list \<Rightarrow> 'a \<Rightarrow> bool" where
  "best_first ok key xs x \<longleftrightarrow>
     (\<exists>ys zs. xs = ys @ x # zs \<and> ok x \<and> (\<forall>y \<in> set ys. ok y \<longrightarrow> key y < key x) \<and>
        (\<forall>z \<in> set zs. ok z \<longrightarrow> key z \<le> key x))"

lemma best_first_in: "best_first ok key xs x \<Longrightarrow> x \<in> set xs \<and> ok x"
  by (auto simp: best_first_def)

lemma best_first_max: "best_first ok key xs x \<Longrightarrow> y \<in> set xs \<Longrightarrow> ok y \<Longrightarrow> key y \<le> key x"
  by (fastforce simp: best_first_def)

end
