(* ===== verification/Pok_Types.thy ===== *)
theory Pok_Types
  imports Pok_Prelude
begin

text \<open>
  The data model of the kernel: the error codes and enumerations of \<open>errno.h\<close>, \<open>sched.h\<close>,
  \<open>schedvalues.h\<close>, \<open>partition.h\<close>, \<open>lockobj.h\<close> and \<open>port.h\<close>; the structures of the threads, partitions,
  lock objects, ports and of the port queue; the deployment (every \<open>POK_CONFIG\<close> macro and generated
  table, together with the assembly primitives of the architecture) as one record, the first argument
  of the operations; and the state of the kernel, one field per C global.

  Identifiers and table indices are natural numbers. Times, periods and capacities are 64-bit words;
  the signed ones (\<open>int64_t\<close>) hold the same bits and are compared with \<open>sint\<close>. Arrays of the kernel are
  functions from the index, so that a theorem about an access has to say that the index is in range
  where it matters. A C enumeration whose value comes from outside keeps the values outside the
  enumeration in a constructor \<open>_OTHER\<close>.
\<close>

subsection \<open>Error codes\<close>

datatype pok_ret_t =
    POK_ERRNO_OK | POK_ERRNO_EINVAL | POK_ERRNO_UNAVAILABLE | POK_ERRNO_PARAM | POK_ERRNO_TOOMANY
  | POK_ERRNO_EPERM | POK_ERRNO_EXISTS | POK_ERRNO_ERANGE | POK_ERRNO_EDOM | POK_ERRNO_HUGE_VAL
  | POK_ERRNO_EFAULT | POK_ERRNO_THREAD | POK_ERRNO_THREADATTR | POK_ERRNO_TIME
  | POK_ERRNO_PARTITION_ATTR | POK_ERRNO_PORT | POK_ERRNO_NOTFOUND | POK_ERRNO_DIRECTION
  | POK_ERRNO_SIZE | POK_ERRNO_DISCIPLINE | POK_ERRNO_PORTPART | POK_ERRNO_EMPTY | POK_ERRNO_KIND
  | POK_ERRNO_FULL | POK_ERRNO_READY | POK_ERRNO_TIMEOUT | POK_ERRNO_MODE
  | POK_ERRNO_LOCKOBJ_UNAVAILABLE | POK_ERRNO_LOCKOBJ_NOTREADY | POK_ERRNO_LOCKOBJ_KIND
  | POK_ERRNO_LOCKOBJ_POLICY | POK_ERRNO_PARTITION_MODE | POK_ERRNO_PARTITION

primrec errno_value :: "pok_ret_t \<Rightarrow> nat" where
  "errno_value POK_ERRNO_OK = 0"
| "errno_value POK_ERRNO_EINVAL = 1"
| "errno_value POK_ERRNO_UNAVAILABLE = 2"
| "errno_value POK_ERRNO_PARAM = 3"
| "errno_value POK_ERRNO_TOOMANY = 5"
| "errno_value POK_ERRNO_EPERM = 6"
| "errno_value POK_ERRNO_EXISTS = 7"
| "errno_value POK_ERRNO_ERANGE = 8"
| "errno_value POK_ERRNO_EDOM = 9"
| "errno_value POK_ERRNO_HUGE_VAL = 10"
| "errno_value POK_ERRNO_EFAULT = 11"
| "errno_value POK_ERRNO_THREAD = 49"
| "errno_value POK_ERRNO_THREADATTR = 50"
| "errno_value POK_ERRNO_TIME = 100"
| "errno_value POK_ERRNO_PARTITION_ATTR = 200"
| "errno_value POK_ERRNO_PORT = 301"
| "errno_value POK_ERRNO_NOTFOUND = 302"
| "errno_value POK_ERRNO_DIRECTION = 303"
| "errno_value POK_ERRNO_SIZE = 304"
| "errno_value POK_ERRNO_DISCIPLINE = 305"
| "errno_value POK_ERRNO_PORTPART = 307"
| "errno_value POK_ERRNO_EMPTY = 308"
| "errno_value POK_ERRNO_KIND = 309"
| "errno_value POK_ERRNO_FULL = 311"
| "errno_value POK_ERRNO_READY = 310"
| "errno_value POK_ERRNO_TIMEOUT = 250"
| "errno_value POK_ERRNO_MODE = 251"
| "errno_value POK_ERRNO_LOCKOBJ_UNAVAILABLE = 500"
| "errno_value POK_ERRNO_LOCKOBJ_NOTREADY = 501"
| "errno_value POK_ERRNO_LOCKOBJ_KIND = 502"
| "errno_value POK_ERRNO_LOCKOBJ_POLICY = 503"
| "errno_value POK_ERRNO_PARTITION_MODE = 601"
| "errno_value POK_ERRNO_PARTITION = 401"

text \<open>Error codes are ordered by their value, which is how C compares them.\<close>

lemma errno_value_inject: "errno_value x = errno_value y \<Longrightarrow> x = y"
  by (cases x; cases y) simp_all

instantiation pok_ret_t :: linorder
begin

definition less_eq_pok_ret_t :: "pok_ret_t \<Rightarrow> pok_ret_t \<Rightarrow> bool" where
  "less_eq_pok_ret_t x y = (errno_value x \<le> errno_value y)"

definition less_pok_ret_t :: "pok_ret_t \<Rightarrow> pok_ret_t \<Rightarrow> bool" where
  "less_pok_ret_t x y = (errno_value x < errno_value y)"

instance
  by standard (auto simp: less_eq_pok_ret_t_def less_pok_ret_t_def intro: errno_value_inject)

end

subsection \<open>Enumerations\<close>

datatype pok_state_t =
    POK_STATE_STOPPED | POK_STATE_RUNNABLE | POK_STATE_WAITING | POK_STATE_LOCK
  | POK_STATE_WAIT_NEXT_ACTIVATION | POK_STATE_DELAYED_START

datatype pok_sched_t =
    POK_SCHED_FIFO | POK_SCHED_RR | POK_SCHED_GLOBAL_TIMESLICE | POK_SCHED_RMS | POK_SCHED_EDF
  | POK_SCHED_LLF | POK_SCHED_STATIC | POK_SCHED_PPS | POK_SCHED_PEDF | POK_SCHED_WRR
  | POK_SCHED_PWRR | POK_SCHED_GLOBAL_PPS | POK_SCHED_GLOBAL_PEDF | POK_SCHED_MLFQ

datatype pok_partition_mode_t =
    POK_PARTITION_MODE_INIT_COLD | POK_PARTITION_MODE_INIT_WARM | POK_PARTITION_MODE_NORMAL
  | POK_PARTITION_MODE_IDLE | POK_PARTITION_MODE_RESTART | POK_PARTITION_MODE_STOPPED
  | POK_PARTITION_MODE_OTHER u32

datatype pok_start_condition_t =
    NORMAL_START | PARTITION_RESTART | HM_MODULE_RESTART | HM_PARTITION_RESTART

datatype pok_lockobj_kind_t =
    POK_LOCKOBJ_KIND_MUTEX | POK_LOCKOBJ_KIND_SEMAPHORE | POK_LOCKOBJ_KIND_EVENT
  | POK_LOCKOBJ_KIND_OTHER

datatype pok_queueing_discipline_t =
    POK_QUEUEING_DISCIPLINE_FIFO | POK_QUEUEING_DISCIPLINE_PRIORITY
  | POK_QUEUEING_DISCIPLINE_OTHER

datatype pok_locking_policy_t =
    POK_LOCKOBJ_POLICY_STANDARD | POK_LOCKOBJ_POLICY_PIP | POK_LOCKOBJ_POLICY_PCP
  | POK_LOCKOBJ_POLICY_OTHER

datatype pok_lockobj_operation_t =
    LOCKOBJ_OPERATION_LOCK | LOCKOBJ_OPERATION_UNLOCK | LOCKOBJ_OPERATION_WAIT
  | LOCKOBJ_OPERATION_SIGNAL | LOCKOBJ_OPERATION_BROADCAST | LOCKOBJ_OPERATION_OTHER

datatype pok_lockobj_lock_kind_t = LOCKOBK_LOCK_REGULAR | LOCKOBJ_LOCK_TIMED | LOCKOBJ_LOCK_OTHER

text \<open>
  The two scheduling function pointers, as the name of the function they hold: the pointer
  \<open>sched_func\<close> of a partition and the global \<open>sched_partiton_func\<close>.
\<close>

datatype sched_func_t =
    Sched_part_rms | Sched_part_static | Sched_part_pps | Sched_part_pedf | Sched_part_wrr
  | Sched_part_pwrr | Sched_part_mlfq | Sched_part_rr

datatype sched_partition_func_t =
    Sched_global_timeslice | Sched_global_pps | Sched_global_pedf

subsection \<open>Structures\<close>

text \<open>\<open>pok_thread_t\<close>. The entry point is an address; \<open>period\<close> and the two capacities are \<open>int64_t\<close>.\<close>

record pok_thread_t =
  t_priority :: u8
  t_period :: u64
  t_deadline :: u64
  t_time_capacity :: u64
  t_remaining_time_capacity :: u64
  t_next_activation :: u64
  t_state :: pok_state_t
  t_end_time :: u64
  t_wakeup_time :: u64
  t_entry :: u32
  t_partition :: nat
  t_sp :: u32
  t_init_stack_addr :: u32
  t_base_priority :: u8
  t_processor_affinity :: nat
  t_ddl :: u64
  t_weight :: u32
  t_remaining_timeslice :: u32
  t_mlfq_level :: u8

record pok_thread_attr_t =
  a_priority :: u8
  a_processor_affinity :: nat
  a_entry :: u32
  a_period :: u64
  a_deadline :: u64
  a_time_capacity :: u64
  a_stack_size :: u32
  a_state :: pok_state_t
  a_is_dynamic :: bool
  a_weight :: u32

record pok_error_status_t =
  e_error_kind :: u8
  e_failed_thread :: u32
  e_failed_addr :: u32
  e_msg :: "nat \<Rightarrow> u8"
  e_msg_size :: u32

text \<open>\<open>pok_partition_t\<close> (its \<open>name\<close> is never read or written by the kernel and is left out).\<close>

record pok_partition_t =
  p_base_addr :: u32
  p_base_vaddr :: u32
  p_size :: u32
  p_nthreads :: nat
  p_period :: u32
  p_sched :: pok_sched_t
  p_sched_func :: sched_func_t
  p_activation :: u64
  p_prev_thread :: "nat \<Rightarrow> nat"
  p_current_thread :: "nat \<Rightarrow> nat"
  p_thread_index_low :: nat
  p_thread_index_high :: nat
  p_thread_index :: nat
  p_lockobj_index_low :: nat
  p_lockobj_index_high :: nat
  p_nlockobjs :: nat
  p_thread_error :: nat
  p_error_status :: pok_error_status_t
  p_thread_main :: nat
  p_thread_main_entry :: u32
  p_thread_main_proc :: nat
  p_mode :: pok_partition_mode_t
  p_priority :: u8
  p_deadline :: u64
  p_io_min :: u16
  p_io_max :: u16
  p_lock_level :: u32
  p_start_condition :: pok_start_condition_t

record pok_lockobj_fifo_t =
  f_head :: nat
  f_last :: nat
  f_is_empty :: bool
  f_buffer :: "nat \<Rightarrow> nat"

record pok_lockobj_attr_t =
  la_kind :: pok_lockobj_kind_t
  la_locking_policy :: pok_locking_policy_t
  la_queueing_policy :: pok_queueing_discipline_t
  la_initial_value :: u16
  la_max_value :: u16

record pok_lockobj_t =
  l_spin :: bool
  l_eventspin :: bool
  l_fifo :: pok_lockobj_fifo_t
  l_event_fifo :: pok_lockobj_fifo_t
  l_locking_policy :: pok_locking_policy_t
  l_queueing_policy :: pok_queueing_discipline_t
  l_kind :: pok_lockobj_kind_t
  l_initialized :: bool
  l_current_value :: u16
  l_max_value :: u16

record pok_lockobj_lockattr_t =
  lk_operation :: pok_lockobj_operation_t
  lk_obj_kind :: pok_lockobj_kind_t
  lk_lock_kind :: pok_lockobj_lock_kind_t
  lk_timeout :: u64

text \<open>
  \<open>pok_port_t\<close>. The direction and the kind are bytes (1 IN, 2 OUT; 1 queueing, 2 sampling, 10 invalid).
\<close>

record pok_port_t =
  po_identifier :: nat
  po_partition :: nat
  po_index :: u32
  po_full :: bool
  po_size :: u32
  po_off_b :: u32
  po_off_e :: u32
  po_direction :: u8
  po_discipline :: pok_queueing_discipline_t
  po_ready :: bool
  po_empty :: bool
  po_kind :: u8
  po_refresh :: u64
  po_last_receive :: u64
  po_lock :: pok_lockobj_t
  po_must_be_flushed :: bool

record pok_queue_t =
  q_data :: "nat \<Rightarrow> u8"
  q_size :: u32
  q_available_size :: u32

subsection \<open>The state of the kernel\<close>

text \<open>
  What the kernel does to the machine outside its own memory is recorded, in order, in a trace: the
  calls of the architecture layer that switch stacks and address spaces and that synchronise the
  processors.
\<close>

datatype arch_event =
    Ev_context_switch nat u32
  | Ev_space_switch nat nat
  | Ev_end_ipi
  | Ev_send_schedule_thread nat
  | Ev_send_schedule_thread_other_processors
  | Ev_send_global_schedule_thread
  | Ev_start_fence | Ev_wait_fence | Ev_unblock_fence | Ev_join_fence
  | Ev_start_barr | Ev_wait_barr | Ev_unblock_barr | Ev_join_barr
  | Ev_create_space nat u32 u32
  | Ev_context_reset u32 u32
  | Ev_cons_write u32 u32
  | Ev_outb u16 u8
  | Ev_space_context u32 nat u32 nat u32
  | Ev_start_context u32 nat u32

record kstate =
  pok_threads :: "nat \<Rightarrow> pok_thread_t"
  pok_partitions :: "nat \<Rightarrow> pok_partition_t"
  pok_current_partition :: nat
  current_threads :: "nat \<Rightarrow> nat"
  proc_id :: nat
  pok_tick_counter :: u64
  pok_sched_slots :: "nat \<Rightarrow> u64"
  pok_sched_slots_allocation :: "nat \<Rightarrow> nat"
  pok_sched_major_frame :: u64
  pok_sched_next_deadline :: u64
  pok_sched_next_major_frame :: u64
  pok_sched_next_flush :: u64
  pok_sched_current_slot :: nat
  sched_partiton_func :: sched_partition_func_t
  new_partition :: bool
  urgent_task_flag :: bool
  pok_partitions_lockobjs :: "nat \<Rightarrow> pok_lockobj_t"
  spinlocks :: "nat \<Rightarrow> nat"
  pok_ports :: "nat \<Rightarrow> pok_port_t"
  pok_queue :: pok_queue_t
  pok_buffer_flush :: "nat \<Rightarrow> u8"
  quantum_counter :: u32
  pok_x86_pm_brk :: u32
  ks_mem :: "u32 \<Rightarrow> u8"
  ks_trace :: "arch_event list"

subsection \<open>The deployment\<close>

datatype flush_policy = Flush_none | Flush_period u64 | Flush_on_windows | Flush_major_frame

text \<open>
  The configuration macros, the tables the code generator puts in \<open>deployment.c\<close>, and the primitives
  that are assembly or board code. \<open>arch_context_switch t s\<close> is the state in which thread \<open>t\<close>, switched
  out in state \<open>s\<close>, runs again; \<open>junk_attr\<close> holds the indeterminate contents of a thread attribute
  structure the kernel puts on its stack without initialising it; \<open>syscall_enabled\<close> tells which system calls
  the \<open>#if\<close> lines of the dispatcher compile in.
\<close>

record pok_config =
  NB_THREADS :: nat
  NB_PARTITIONS :: nat
  NB_PROCESSORS :: nat
  NB_LOCKOBJECTS :: nat
  NB_PORTS :: nat
  NBSLOTS :: nat
  SCHEDULING_SLOTS :: "nat \<Rightarrow> u64"
  SCHEDULING_SLOTS_ALLOCATION :: "nat \<Rightarrow> nat"
  SCHEDULING_MAJOR_FRAME :: u64
  BASE_SLOT_LENGTH :: u64
  GLOBAL_SCHEDULER :: "pok_sched_t option"
  PARTITIONS_SCHEDULER :: "(nat \<Rightarrow> pok_sched_t) option"
  PARTITIONS_NTHREADS :: "nat \<Rightarrow> nat"
  PARTITIONS_SIZE :: "nat \<Rightarrow> u32"
  PARTITIONS_NLOCKOBJECTS :: "nat \<Rightarrow> nat"
  PARTITIONS_PORTS :: "nat \<Rightarrow> nat"
  partition_processor_affinity :: "nat \<Rightarrow> u64"
  multiprocessing_system :: nat
  FLUSH_POLICY :: flush_policy
  NEEDS_DDL_PUNISH :: bool
  NEEDS_SCHED_MLFQ :: bool
  NEEDS_SCHED_RMS :: bool
  NEEDS_DEBUG :: bool
  pok_ports_names :: "nat \<Rightarrow> u8 list"
  pok_ports_kind :: "nat \<Rightarrow> u8"
  pok_ports_nb_destinations :: "nat \<Rightarrow> nat"
  pok_ports_destinations :: "nat \<Rightarrow> nat \<Rightarrow> nat"
  pok_ports_nb_ports_by_partition :: "nat \<Rightarrow> nat"
  pok_ports_by_partition :: "nat \<Rightarrow> nat \<Rightarrow> nat"
  pok_global_ports_to_local_ports :: "nat \<Rightarrow> nat"
  pok_local_ports_to_global_ports :: "nat \<Rightarrow> nat"
  pok_ports_nodes :: "nat \<Rightarrow> nat"
  pok_nodes_addr :: "nat \<Rightarrow> nat \<Rightarrow> u8"
  pok_ports_names_max_len :: u32
  part_sizes :: "nat \<Rightarrow> u32"
  archive2_begin :: u32
  arch_context_switch :: "nat \<Rightarrow> kstate \<Rightarrow> kstate"
  SPACE_CONTEXT_SIZE :: u32
  START_CONTEXT_SIZE :: u32
  arch_idle :: u32
  arch_inb :: "u16 \<Rightarrow> u8"
  urgent_task :: u32
  junk_attr :: pok_thread_attr_t
  junk_lock_attr :: pok_lockobj_attr_t
  USER_STACK_SIZE :: u32
  PROGRAM_LOADADDR :: "(nat \<Rightarrow> u32) option"
  NEEDS_SCHED_STATIC :: bool
  NEEDS_SCHED_PPS :: bool
  NEEDS_SCHED_PEDF :: bool
  NEEDS_SCHED_WRR :: bool
  NEEDS_SCHED_PWRR :: bool
  syscall_enabled :: "nat \<Rightarrow> bool"

subsection \<open>Macros\<close>

definition INFINITE_TIME_VALUE :: u64 where
  "INFINITE_TIME_VALUE = - 1"

definition POK_THREAD_MLFQ_MAX_LEVEL :: u8 where
  "POK_THREAD_MLFQ_MAX_LEVEL = 7"

definition POK_THREAD_MAX_PRIORITY :: u8 where
  "POK_THREAD_MAX_PRIORITY = 200"

definition KERNEL_THREAD :: "pok_config \<Rightarrow> nat" where
  "KERNEL_THREAD c = NB_THREADS c - 1"

definition IDLE_THREAD :: "pok_config \<Rightarrow> kstate \<Rightarrow> nat" where
  "IDLE_THREAD c s = NB_THREADS c - 2 - proc_id s"

definition POK_SCHED_CURRENT_THREAD :: "kstate \<Rightarrow> nat" where
  "POK_SCHED_CURRENT_THREAD s = current_threads s (proc_id s)"

definition POK_CURRENT_THREAD :: "kstate \<Rightarrow> pok_thread_t" where
  "POK_CURRENT_THREAD s = pok_threads s (POK_SCHED_CURRENT_THREAD s)"

definition POK_CURRENT_PARTITION :: "kstate \<Rightarrow> pok_partition_t" where
  "POK_CURRENT_PARTITION s = pok_partitions s (pok_current_partition s)"

definition CURRENT_THREAD :: "kstate \<Rightarrow> nat \<Rightarrow> nat" where
  "CURRENT_THREAD s pid = p_current_thread (pok_partitions s pid) (proc_id s)"

definition PREV_THREAD :: "kstate \<Rightarrow> nat \<Rightarrow> nat" where
  "PREV_THREAD s pid = p_prev_thread (pok_partitions s pid) (proc_id s)"

lemmas macro_defs = KERNEL_THREAD_def IDLE_THREAD_def POK_SCHED_CURRENT_THREAD_def
  POK_CURRENT_THREAD_def POK_CURRENT_PARTITION_def CURRENT_THREAD_def PREV_THREAD_def

text \<open>\<open>x > 0\<close> on an \<open>int64_t\<close>.\<close>

definition pos64 :: "u64 \<Rightarrow> bool" where
  "pos64 x = (0 < sint x)"

lemma pos64_simps [simp]: "\<not> pos64 0" "pos64 1" "\<not> pos64 (- 1)"
  by (simp_all add: pos64_def)

subsection \<open>Updates of one table entry\<close>

definition upd_thread :: "nat \<Rightarrow> (pok_thread_t \<Rightarrow> pok_thread_t) \<Rightarrow> kstate \<Rightarrow> kstate" where
  "upd_thread tid f s = s\<lparr>pok_threads := (pok_threads s)(tid := f (pok_threads s tid))\<rparr>"

definition upd_partition :: "nat \<Rightarrow> (pok_partition_t \<Rightarrow> pok_partition_t) \<Rightarrow> kstate \<Rightarrow> kstate" where
  "upd_partition pid f s = s\<lparr>pok_partitions := (pok_partitions s)(pid := f (pok_partitions s pid))\<rparr>"

definition upd_port :: "nat \<Rightarrow> (pok_port_t \<Rightarrow> pok_port_t) \<Rightarrow> kstate \<Rightarrow> kstate" where
  "upd_port i f s = s\<lparr>pok_ports := (pok_ports s)(i := f (pok_ports s i))\<rparr>"

definition emit :: "arch_event \<Rightarrow> kstate \<Rightarrow> kstate" where
  "emit e s = s\<lparr>ks_trace := ks_trace s @ [e]\<rparr>"

end
