(* ===== verification/Pok_Demo.thy ===== *)
theory Pok_Demo
  imports Pok_Types
begin

text \<open>
  One small concrete deployment and one state of it, on which the theorems of the other theories are
  exercised: one processor, two partitions of three threads each (0 to 2 and 3 to 5, the first of each
  its main thread), the idle thread 6 and the kernel thread 7, two lock objects, two ports, and a
  major frame of two slots of 100 ticks. The context switch of this deployment resumes the thread that
  was switched out at once.
\<close>

definition demo_attr :: pok_thread_attr_t where
  "demo_attr = \<lparr>a_priority = 5, a_processor_affinity = 0, a_entry = 4096, a_period = 50, a_deadline = 40,
     a_time_capacity = 10, a_stack_size = 8192, a_state = POK_STATE_STOPPED, a_is_dynamic = False,
     a_weight = 3\<rparr>"

definition demo_lock_attr :: pok_lockobj_attr_t where
  "demo_lock_attr = \<lparr>la_kind = POK_LOCKOBJ_KIND_SEMAPHORE, la_locking_policy = POK_LOCKOBJ_POLICY_STANDARD,
     la_queueing_policy = POK_QUEUEING_DISCIPLINE_FIFO, la_initial_value = 1, la_max_value = 3\<rparr>"

definition demo_config :: pok_config where
  "demo_config = \<lparr>
     NB_THREADS = 8, NB_PARTITIONS = 2, NB_PROCESSORS = 1, NB_LOCKOBJECTS = 2, NB_PORTS = 2,
     NBSLOTS = 2, SCHEDULING_SLOTS = (\<lambda>_. 100), SCHEDULING_SLOTS_ALLOCATION = (\<lambda>i. i),
     SCHEDULING_MAJOR_FRAME = 200, BASE_SLOT_LENGTH = 100, GLOBAL_SCHEDULER = None,
     PARTITIONS_SCHEDULER = None, PARTITIONS_NTHREADS = (\<lambda>_. 3), PARTITIONS_SIZE = (\<lambda>_. 131072),
     PARTITIONS_NLOCKOBJECTS = (\<lambda>_. 1), PARTITIONS_PORTS = (\<lambda>i. i), partition_processor_affinity = (\<lambda>_. 1),
     multiprocessing_system = 0, FLUSH_POLICY = Flush_major_frame, NEEDS_DDL_PUNISH = False,
     NEEDS_SCHED_MLFQ = False, NEEDS_SCHED_RMS = True, NEEDS_DEBUG = False,
     pok_ports_names = (\<lambda>i. if i = 0 then [112, 48, 0] else [112, 49, 0]), pok_ports_kind = (\<lambda>_. 1),
     pok_ports_nb_destinations = (\<lambda>i. if i = 0 then 1 else 0), pok_ports_destinations = (\<lambda>_ _. 1),
     pok_ports_nb_ports_by_partition = (\<lambda>_. 1), pok_ports_by_partition = (\<lambda>p _. p),
     pok_global_ports_to_local_ports = (\<lambda>i. i), pok_local_ports_to_global_ports = (\<lambda>i. i),
     pok_ports_nodes = (\<lambda>_. 0), pok_nodes_addr = (\<lambda>_ i. of_nat i), pok_ports_names_max_len = 2,
     part_sizes = (\<lambda>_. 1024), archive2_begin = 65536,
     arch_context_switch = (\<lambda>t s. s\<lparr>current_threads := (current_threads s)(proc_id s := t)\<rparr>),
     SPACE_CONTEXT_SIZE = 92, START_CONTEXT_SIZE = 68, arch_idle = 256, arch_inb = (\<lambda>_. 0),
     urgent_task = 512, junk_attr = demo_attr, junk_lock_attr = demo_lock_attr, USER_STACK_SIZE = 8192,
     PROGRAM_LOADADDR = None, NEEDS_SCHED_STATIC = True,
     NEEDS_SCHED_PPS = True, NEEDS_SCHED_PEDF = True, NEEDS_SCHED_WRR = True, NEEDS_SCHED_PWRR = True,
     syscall_enabled = (\<lambda>_. True)\<rparr>"

definition demo_thread :: "nat \<Rightarrow> pok_thread_t" where
  "demo_thread i = \<lparr>t_priority = (if i < 6 then of_nat i + 1 else 0), t_period = 50,
     t_deadline = 40, t_time_capacity = (if i < 6 then 10 else - 1),
     t_remaining_time_capacity = (if i < 6 then 10 else - 1), t_next_activation = 150,
     t_state = (if i = 0 \<or> i = 3 \<or> i = 7 then POK_STATE_STOPPED else POK_STATE_RUNNABLE), t_end_time = 0,
     t_wakeup_time = 0, t_entry = 4096, t_partition = (if i < 3 then 0 else 1), t_sp = 2048,
     t_init_stack_addr = 2048, t_base_priority = (if i < 6 then of_nat i + 1 else 0),
     t_processor_affinity = 0, t_ddl = 400 - of_nat i, t_weight = 3, t_remaining_timeslice = 2,
     t_mlfq_level = 7\<rparr>"

definition demo_partition :: "nat \<Rightarrow> pok_partition_t" where
  "demo_partition p = \<lparr>p_base_addr = of_nat p * 131072 + 1048576, p_base_vaddr = 0, p_size = 131072,
     p_nthreads = 3, p_period = 0, p_sched = POK_SCHED_RR, p_sched_func = Sched_part_rr, p_activation = 0,
     p_prev_thread = (\<lambda>_. 6), p_current_thread = (\<lambda>_. 3 * p + 1), p_thread_index_low = 3 * p,
     p_thread_index_high = 3 * p + 3, p_thread_index = 2, p_lockobj_index_low = p,
     p_lockobj_index_high = p + 1, p_nlockobjs = 1, p_thread_error = 0,
     p_error_status = \<lparr>e_error_kind = 9, e_failed_thread = 0, e_failed_addr = 0, e_msg = (\<lambda>_. 0), e_msg_size = 0\<rparr>,
     p_thread_main = 3 * p, p_thread_main_entry = 128, p_thread_main_proc = 0,
     p_mode = POK_PARTITION_MODE_NORMAL, p_priority = 0, p_deadline = 0, p_io_min = 0, p_io_max = 0,
     p_lock_level = 0, p_start_condition = NORMAL_START\<rparr>"

definition demo_fifo :: pok_lockobj_fifo_t where
  "demo_fifo = \<lparr>f_head = 0, f_last = 0, f_is_empty = True, f_buffer = (\<lambda>_. 0)\<rparr>"

definition demo_lockobj :: pok_lockobj_t where
  "demo_lockobj = \<lparr>l_spin = False, l_eventspin = False, l_fifo = demo_fifo, l_event_fifo = demo_fifo,
     l_locking_policy = POK_LOCKOBJ_POLICY_STANDARD, l_queueing_policy = POK_QUEUEING_DISCIPLINE_FIFO,
     l_kind = POK_LOCKOBJ_KIND_SEMAPHORE, l_initialized = True, l_current_value = 1, l_max_value = 3\<rparr>"

definition demo_port :: "nat \<Rightarrow> pok_port_t" where
  "demo_port i = \<lparr>po_identifier = i, po_partition = i, po_index = of_nat i * 8, po_full = False, po_size = 8,
     po_off_b = 0, po_off_e = 0, po_direction = (if i = 0 then 2 else 1),
     po_discipline = POK_QUEUEING_DISCIPLINE_FIFO, po_ready = True, po_empty = True, po_kind = 1,
     po_refresh = 100, po_last_receive = 0, po_lock = demo_lockobj\<lparr>l_kind := POK_LOCKOBJ_KIND_EVENT\<rparr>,
     po_must_be_flushed = False\<rparr>"

definition demo_state :: kstate where
  "demo_state = \<lparr>pok_threads = demo_thread, pok_partitions = demo_partition, pok_current_partition = 0,
     current_threads = (\<lambda>_. 1), proc_id = 0, pok_tick_counter = 100, pok_sched_slots = (\<lambda>_. 100),
     pok_sched_slots_allocation = (\<lambda>i. i), pok_sched_major_frame = 200, pok_sched_next_deadline = 100,
     pok_sched_next_major_frame = 200, pok_sched_next_flush = 0, pok_sched_current_slot = 0,
     sched_partiton_func = Sched_global_timeslice, new_partition = False, urgent_task_flag = True,
     pok_partitions_lockobjs = (\<lambda>_. demo_lockobj), spinlocks = (\<lambda>_. 0), pok_ports = demo_port,
     pok_queue = \<lparr>q_data = (\<lambda>_. 0), q_size = 1024, q_available_size = 1008\<rparr>,
     pok_buffer_flush = (\<lambda>_. 0), quantum_counter = 0, pok_x86_pm_brk = 4194304,
     ks_mem = (\<lambda>_. 0), ks_trace = []\<rparr>"

lemmas demo_defs = demo_config_def demo_state_def demo_thread_def demo_partition_def demo_fifo_def
  demo_lockobj_def demo_port_def demo_attr_def demo_lock_attr_def

text \<open>Selections from the demonstration deployment and state evaluate by these equations.\<close>

lemma demo_config_simps [simp]:
  "NB_THREADS demo_config = 8" "NB_PARTITIONS demo_config = 2" "NB_PROCESSORS demo_config = 1"
  "NB_PORTS demo_config = 2" "NBSLOTS demo_config = 2" "multiprocessing_system demo_config = 0"
  "NEEDS_DDL_PUNISH demo_config = False" "NEEDS_SCHED_MLFQ demo_config = False"
  "NEEDS_SCHED_RMS demo_config = True" "NEEDS_DEBUG demo_config = False"
  "partition_processor_affinity demo_config p = 1" "NB_LOCKOBJECTS demo_config = 2"
  "arch_context_switch demo_config t s = s\<lparr>current_threads := (current_threads s)(proc_id s := t)\<rparr>"
  "FLUSH_POLICY demo_config = Flush_major_frame"
  by (simp_all add: demo_config_def)

lemma demo_state_simps [simp]:
  "pok_threads demo_state = demo_thread" "pok_partitions demo_state = demo_partition"
  "pok_current_partition demo_state = 0" "current_threads demo_state = (\<lambda>_. 1)" "proc_id demo_state = 0"
  "pok_tick_counter demo_state = 100" "spinlocks demo_state = (\<lambda>_. 0)" "pok_ports demo_state = demo_port"
  "pok_partitions_lockobjs demo_state = (\<lambda>_. demo_lockobj)"
  "pok_sched_next_deadline demo_state = 100" "pok_sched_current_slot demo_state = 0"
  by (simp_all add: demo_state_def)

lemma demo_idle [simp]: "IDLE_THREAD demo_config demo_state = 6" "KERNEL_THREAD demo_config = 7"
  by (simp_all add: IDLE_THREAD_def KERNEL_THREAD_def)

lemma demo_current [simp]: "POK_SCHED_CURRENT_THREAD demo_state = 1"
  by (simp add: POK_SCHED_CURRENT_THREAD_def)

end
