(* ===== verification/Pok_Sched_Part.thy ===== *)
theory Pok_Sched_Part
  imports Pok_Demo
begin

text \<open>
  The thread schedulers of \<open>kernel/core/sched.c\<close>: the functions a partition's \<open>sched_func\<close> pointer
  can hold. Each takes the slice \<open>[low, high)\<close> of the thread table that belongs to the partition, the
  thread that ran before and the one that runs now, and returns the elected thread; the weighted and
  multi-level schedulers also update time slices. The first part is the code, the second the contract
  all of them are held to (the elected thread is a runnable thread of the slice for this processor, or
  the idle thread when there is none), stated as a locale and interpreted for each scheduler; the third
  part says which of the runnable threads each scheduler picks.
\<close>

subsection \<open>The code\<close>

definition runnable_on :: "kstate \<Rightarrow> nat \<Rightarrow> bool" where
  "runnable_on s i = (t_state (pok_threads s i) = POK_STATE_RUNNABLE \<and>
     t_processor_affinity (pok_threads s i) = proc_id s)"

text \<open>The start of the scans: the running thread, or the previous one when idle, or the slice's start.\<close>

definition scan_from :: "pok_config \<Rightarrow> nat \<Rightarrow> nat \<Rightarrow> nat \<Rightarrow> kstate \<Rightarrow> nat" where
  "scan_from c index_low prev_thread current_thread s =
     (if prev_thread = IDLE_THREAD c s then index_low
      else if current_thread \<noteq> IDLE_THREAD c s then current_thread else prev_thread)"

text \<open>The body of the loops that keep a strict maximum of \<open>key\<close> over the eligible threads.\<close>

definition max_step :: "(nat \<Rightarrow> bool) \<Rightarrow> (nat \<Rightarrow> nat) \<Rightarrow> nat \<Rightarrow> int \<times> nat \<Rightarrow> int \<times> nat" where
  "max_step ok key i acc = (case acc of (max_prio, max_thread) \<Rightarrow>
     if ok i \<and> int (key i) > max_prio then (int (key i), i) else (max_prio, max_thread))"

definition prio_of :: "kstate \<Rightarrow> nat \<Rightarrow> nat" where
  "prio_of s i = unat (t_priority (pok_threads s i))"

definition level_of :: "kstate \<Rightarrow> nat \<Rightarrow> nat" where
  "level_of s i = unat (t_mlfq_level (pok_threads s i))"

definition pok_sched_part_rms ::
  "pok_config \<Rightarrow> nat \<Rightarrow> nat \<Rightarrow> nat \<Rightarrow> nat \<Rightarrow> kstate \<Rightarrow> (nat \<times> kstate) option" where
  "pok_sched_part_rms c index_low index_high prev_thread current_thread s = do {
     res \<leftarrow> circ_seek index_low index_high index_low (runnable_on s) index_low;
     Some (if res = index_low \<and> \<not> runnable_on s res then IDLE_THREAD c s else res, s)
   }"

definition pok_sched_part_static ::
  "pok_config \<Rightarrow> nat \<Rightarrow> nat \<Rightarrow> nat \<Rightarrow> nat \<Rightarrow> kstate \<Rightarrow> (nat \<times> kstate) option" where
  "pok_sched_part_static c index_low index_high prev_thread current_thread s = do {
     let from = scan_from c index_low prev_thread current_thread s;
     (max_prio, max_thread) \<leftarrow> circ_loop index_low index_high from
        (max_step (runnable_on s) (prio_of s)) from (- 1, current_thread);
     Some (if max_prio \<ge> 0 then max_thread else IDLE_THREAD c s, s)
   }"

definition pok_sched_part_pps ::
  "pok_config \<Rightarrow> nat \<Rightarrow> nat \<Rightarrow> nat \<Rightarrow> nat \<Rightarrow> kstate \<Rightarrow> (nat \<times> kstate) option" where
  "pok_sched_part_pps c index_low index_high prev_thread current_thread s = do {
     let from = scan_from c index_low prev_thread current_thread s;
     (max_prio, max_thread) \<leftarrow> circ_loop index_low index_high from
        (max_step (runnable_on s) (prio_of s)) from (- 1, current_thread);
     Some (if max_prio \<ge> 0 then max_thread else IDLE_THREAD c s, s)
   }"

definition pedf_step :: "kstate \<Rightarrow> nat \<Rightarrow> u64 \<times> nat \<Rightarrow> u64 \<times> nat" where
  "pedf_step s i acc = (case acc of (earliest_ddl, max_thread) \<Rightarrow>
     if runnable_on s i \<and> (t_ddl (pok_threads s i) < earliest_ddl \<or> earliest_ddl \<le> 0)
     then (t_ddl (pok_threads s i), i) else (earliest_ddl, max_thread))"

definition pok_sched_part_pedf ::
  "pok_config \<Rightarrow> nat \<Rightarrow> nat \<Rightarrow> nat \<Rightarrow> nat \<Rightarrow> kstate \<Rightarrow> (nat \<times> kstate) option" where
  "pok_sched_part_pedf c index_low index_high prev_thread current_thread s = do {
     let from = scan_from c index_low prev_thread current_thread s;
     (earliest_ddl, max_thread) \<leftarrow> circ_loop index_low index_high from
        (pedf_step s) from (0, IDLE_THREAD c s);
     Some (if earliest_ddl > 0 then max_thread else IDLE_THREAD c s, s)
   }"

text \<open>The two statements on the running thread's time slice: count it down, refill it.\<close>

definition tick_timeslice :: "nat \<Rightarrow> kstate \<Rightarrow> kstate" where
  "tick_timeslice t s =
     (if t_remaining_timeslice (pok_threads s t) > 0
      then upd_thread t (\<lambda>th. th\<lparr>t_remaining_timeslice := t_remaining_timeslice th - 1\<rparr>) s else s)"

definition refill_timeslice :: "nat \<Rightarrow> kstate \<Rightarrow> kstate" where
  "refill_timeslice t s = upd_thread t (\<lambda>th. th\<lparr>t_remaining_timeslice := t_weight th\<rparr>) s"

definition refill_unless_idle :: "pok_config \<Rightarrow> nat \<Rightarrow> kstate \<Rightarrow> kstate" where
  "refill_unless_idle c t s = (if t \<noteq> IDLE_THREAD c s then refill_timeslice t s else s)"

definition may_continue :: "kstate \<Rightarrow> nat \<Rightarrow> bool" where
  "may_continue s t = (t_state (pok_threads s t) = POK_STATE_RUNNABLE \<and>
     pos64 (t_remaining_time_capacity (pok_threads s t)) \<and>
     t_remaining_timeslice (pok_threads s t) > 0)"

text \<open>The index after \<open>from\<close>: \<open>if (i == IDLE_THREAD) i = index_low; else { i++; wrap }\<close>.\<close>

definition scan_after :: "pok_config \<Rightarrow> nat \<Rightarrow> nat \<Rightarrow> nat \<Rightarrow> kstate \<Rightarrow> nat" where
  "scan_after c index_low index_high from s =
     (if from = IDLE_THREAD c s then index_low else circ_next index_low index_high from)"

definition pok_sched_part_wrr ::
  "pok_config \<Rightarrow> nat \<Rightarrow> nat \<Rightarrow> nat \<Rightarrow> nat \<Rightarrow> kstate \<Rightarrow> (nat \<times> kstate) option" where
  "pok_sched_part_wrr c index_low index_high prev_thread current_thread s0 = do {
     let from = (if current_thread \<noteq> IDLE_THREAD c s0 then current_thread else prev_thread);
     let s = tick_timeslice current_thread s0;
     if may_continue s current_thread then Some (current_thread, s)
     else do {
       found \<leftarrow> circ_first index_low index_high from
          (\<lambda>i. runnable_on s i \<and> i \<noteq> IDLE_THREAD c s) (scan_after c index_low index_high from s);
       (case found of
          Some i \<Rightarrow> Some (i, refill_unless_idle c current_thread s)
        | None \<Rightarrow>
            if runnable_on s current_thread \<and> current_thread \<noteq> IDLE_THREAD c s
            then Some (current_thread, refill_timeslice current_thread s)
            else Some (IDLE_THREAD c s, refill_unless_idle c current_thread s))
     }
   }"

text \<open>
  \<open>pok_sched_part_pwrr\<close>, in its four stages: a strictly higher priority preempts; the running thread
  keeps its slice; the next thread of the same priority; then the best of the others.
\<close>

definition prio_scan :: "pok_config \<Rightarrow> nat \<Rightarrow> nat \<Rightarrow> nat \<Rightarrow> nat \<Rightarrow> kstate \<Rightarrow> nat option" where
  "prio_scan c index_low index_high from current_thread s = do {
     (max_prio, max_thread) \<leftarrow> circ_loop index_low index_high from
        (max_step (runnable_on s) (prio_of s)) from (- 1, current_thread);
     Some (if max_prio \<ge> 0 then max_thread else IDLE_THREAD c s)
   }"

definition pok_sched_part_pwrr ::
  "pok_config \<Rightarrow> nat \<Rightarrow> nat \<Rightarrow> nat \<Rightarrow> nat \<Rightarrow> kstate \<Rightarrow> (nat \<times> kstate) option" where
  "pok_sched_part_pwrr c index_low index_high prev_thread current_thread s0 = do {
     let current_prio = prio_of s0 current_thread;
     let s = tick_timeslice current_thread s0;
     let from = scan_from c index_low prev_thread current_thread s;
     elected \<leftarrow> prio_scan c index_low index_high from current_thread s;
     if prio_of s elected > current_prio
     then Some (elected, refill_unless_idle c current_thread s)
     else if may_continue s current_thread then Some (current_thread, s)
     else do {
       let s1 = refill_unless_idle c current_thread s;
       same \<leftarrow> circ_while index_low index_high from
          (\<lambda>i. runnable_on s1 i \<and> prio_of s1 i = current_prio)
          (scan_after c index_low index_high from s1);
       (case same of
          Some i \<Rightarrow> Some (i, s1)
        | None \<Rightarrow>
            if runnable_on s1 current_thread \<and> current_thread \<noteq> IDLE_THREAD c s1
            then Some (current_thread, refill_timeslice current_thread s1)
            else do {
              elected2 \<leftarrow> prio_scan c index_low index_high from current_thread s1;
              if prio_of s1 elected2 > 0
              then Some (elected2, refill_unless_idle c current_thread s1)
              else Some (IDLE_THREAD c s1, s1)
            })
     }
   }"

text \<open>
  Demotion in the multi-level scheduler: \<open>mlfq_level--\<close> on a byte, the test \<open>mlfq_level < 0\<close> that a byte
  never passes, and the new slice \<open>1 << 7 >> mlfq_level\<close>. C leaves a shift by 32 or more undefined.
\<close>

definition mlfq_demote :: "nat \<Rightarrow> kstate \<Rightarrow> kstate option" where
  "mlfq_demote t s =
     (let level = t_mlfq_level (pok_threads s t) - 1
      in if unat level \<ge> 32 then None
         else Some (upd_thread t (\<lambda>th. th\<lparr>
                t_remaining_timeslice := drop_bit (unat level) (push_bit 7 1),
                t_mlfq_level := level\<rparr>) s))"

definition pok_sched_part_mlfq ::
  "pok_config \<Rightarrow> nat \<Rightarrow> nat \<Rightarrow> nat \<Rightarrow> nat \<Rightarrow> kstate \<Rightarrow> (nat \<times> kstate) option" where
  "pok_sched_part_mlfq c index_low index_high prev_thread current_thread s0 = do {
     let s = tick_timeslice current_thread s0;
     if may_continue s current_thread then Some (current_thread, s)
     else do {
       s1 \<leftarrow> (if current_thread \<noteq> IDLE_THREAD c s \<and>
                t_remaining_timeslice (pok_threads s current_thread) = 0
             then mlfq_demote current_thread s else Some s);
       let from = scan_from c index_low prev_thread current_thread s1;
       (max_prio, max_thread) \<leftarrow> circ_loop index_low index_high from
          (max_step (runnable_on s1) (level_of s1)) from (- 1, current_thread);
       Some (if max_prio \<ge> 0 then max_thread else IDLE_THREAD c s1, s1)
     }
   }"

definition pok_sched_part_rr ::
  "pok_config \<Rightarrow> nat \<Rightarrow> nat \<Rightarrow> nat \<Rightarrow> nat \<Rightarrow> kstate \<Rightarrow> (nat \<times> kstate) option" where
  "pok_sched_part_rr c index_low index_high prev_thread current_thread s = do {
     let from = (if current_thread = IDLE_THREAD c s
                 then (if prev_thread \<noteq> IDLE_THREAD c s then prev_thread else index_low)
                 else current_thread);
     let th = pok_threads s current_thread;
     if (pos64 (t_remaining_time_capacity th) \<or> t_time_capacity th = INFINITE_TIME_VALUE) \<and>
        runnable_on s current_thread \<and> current_thread \<noteq> IDLE_THREAD c s
     then Some (current_thread, s)
     else do {
       elected \<leftarrow> circ_seek index_low index_high from (runnable_on s) from;
       Some (if elected = from \<and> \<not> runnable_on s elected then IDLE_THREAD c s else elected, s)
     }
   }"

text \<open>The call through a partition's \<open>sched_func\<close> pointer.\<close>

definition call_sched_func :: "pok_config \<Rightarrow> sched_func_t \<Rightarrow>
    nat \<Rightarrow> nat \<Rightarrow> nat \<Rightarrow> nat \<Rightarrow> kstate \<Rightarrow> (nat \<times> kstate) option" where
  "call_sched_func c f = (case f of
     Sched_part_rms \<Rightarrow> pok_sched_part_rms c
   | Sched_part_static \<Rightarrow> pok_sched_part_static c
   | Sched_part_pps \<Rightarrow> pok_sched_part_pps c
   | Sched_part_pedf \<Rightarrow> pok_sched_part_pedf c
   | Sched_part_wrr \<Rightarrow> pok_sched_part_wrr c
   | Sched_part_pwrr \<Rightarrow> pok_sched_part_pwrr c
   | Sched_part_mlfq \<Rightarrow> pok_sched_part_mlfq c
   | Sched_part_rr \<Rightarrow> pok_sched_part_rr c)"


lemmas sched_part_defs = pok_sched_part_rms_def pok_sched_part_static_def pok_sched_part_pps_def
  pok_sched_part_pedf_def pok_sched_part_wrr_def pok_sched_part_pwrr_def pok_sched_part_mlfq_def
  pok_sched_part_rr_def

subsection \<open>What the scans compute\<close>

lemma max_step_best:
  "fold (max_step ok key) xs (- 1, d) = (m, t) \<Longrightarrow>
   (if \<exists>x \<in> set xs. ok x then best_first ok key xs t \<and> m = int (key t) else m = - 1 \<and> t = d)"
proof (induction xs arbitrary: m t rule: rev_induct)
  case Nil
  then show ?case by simp
next
  case (snoc x xs)
  obtain m' t' where f: "fold (max_step ok key) xs (- 1, d) = (m', t')" by fastforce
  have step: "(m, t) = max_step ok key x (m', t')" using snoc.prems f by simp
  note IH = snoc.IH [OF f]
  show ?case
  proof (cases "\<exists>y \<in> set xs. ok y")
    case True
    with IH have b: "best_first ok key xs t'" "m' = int (key t')" by auto
    show ?thesis
    proof (cases "ok x \<and> key t' < key x")
      case new: True
      have "\<forall>y \<in> set xs. ok y \<longrightarrow> key y < key x"
        using best_first_max [OF b(1)] new by (meson le_less_trans)
      with new have "best_first ok key (xs @ [x]) x"
        unfolding best_first_def by (intro exI [of _ xs] exI [of _ "[]"]) simp
      with new b step show ?thesis by (auto simp: max_step_def)
    next
      case old: False
      with b step have "t = t'" "m = m'" by (auto simp: max_step_def split: if_splits)
      moreover have "best_first ok key (xs @ [x]) t'"
        using b(1) old by (force simp: best_first_def)
      ultimately show ?thesis using b True by auto
    qed
  next
    case False
    with IH have n: "m' = - 1" "t' = d" by auto
    have "ok x \<Longrightarrow> best_first ok key (xs @ [x]) x" using False
      unfolding best_first_def by (intro exI [of _ xs] exI [of _ "[]"]) simp
    with False n step show ?thesis by (auto simp: max_step_def)
  qed
qed

text \<open>The slice a scheduler is called on: not empty, idle thread outside, both threads in it or idle.\<close>

definition slice_ok :: "pok_config \<Rightarrow> nat \<Rightarrow> nat \<Rightarrow> nat \<Rightarrow> nat \<Rightarrow> kstate \<Rightarrow> bool" where
  "slice_ok c low high prev cur s =
     (low < high \<and> \<not> (low \<le> IDLE_THREAD c s \<and> IDLE_THREAD c s < high) \<and>
      (cur = IDLE_THREAD c s \<or> low \<le> cur \<and> cur < high) \<and>
      (prev = IDLE_THREAD c s \<or> low \<le> prev \<and> prev < high))"

lemma scan_from_range:
  "slice_ok c low high prev cur s \<Longrightarrow>
   low \<le> scan_from c low prev cur s \<and> scan_from c low prev cur s < high"
  by (auto simp: slice_ok_def scan_from_def)

text \<open>The contract: the elected thread.\<close>

definition elects :: "pok_config \<Rightarrow> nat \<Rightarrow> nat \<Rightarrow> kstate \<Rightarrow> nat \<Rightarrow> bool" where
  "elects c low high s e =
     (if \<exists>i \<in> {low..<high}. runnable_on s i then e \<in> {low..<high} \<and> runnable_on s e
      else e = IDLE_THREAD c s)"

text \<open>The only thing a scheduler changes: the slice and the level of the running thread.\<close>

definition slices_only :: "nat \<Rightarrow> kstate \<Rightarrow> kstate \<Rightarrow> bool" where
  "slices_only t s s' = (\<exists>ts lv. s' = upd_thread t (\<lambda>th. th\<lparr>t_remaining_timeslice := ts, t_mlfq_level := lv\<rparr>) s)"

lemma slices_onlyI:
  "s' = s\<lparr>pok_threads := (pok_threads s)(t := pok_threads s t\<lparr>t_remaining_timeslice := ts, t_mlfq_level := lv\<rparr>)\<rparr>
   \<Longrightarrow> slices_only t s s'"
  by (auto simp: slices_only_def upd_thread_def)

lemma slices_only_refl [simp]: "slices_only t s s"
  by (rule slices_onlyI [where ts = "t_remaining_timeslice (pok_threads s t)" and
        lv = "t_mlfq_level (pok_threads s t)"]) simp

lemma slices_only_trans:
  assumes "slices_only t s s'" "slices_only t s' s''"
  shows "slices_only t s s''"
  using assms unfolding slices_only_def upd_thread_def by fastforce

lemma slices_only_tick [simp]: "slices_only t s (tick_timeslice t s)"
proof (cases "t_remaining_timeslice (pok_threads s t) > 0")
  case True
  then show ?thesis
    by (intro slices_onlyI [where ts = "t_remaining_timeslice (pok_threads s t) - 1" and
          lv = "t_mlfq_level (pok_threads s t)"]) (simp add: tick_timeslice_def upd_thread_def)
qed (simp add: tick_timeslice_def)

lemma slices_only_refill [simp]: "slices_only t s (refill_timeslice t s)"
  by (rule slices_onlyI [where ts = "t_weight (pok_threads s t)" and lv = "t_mlfq_level (pok_threads s t)"])
    (simp add: refill_timeslice_def upd_thread_def)

lemma slices_only_refill_idle [simp]: "slices_only t s (refill_unless_idle c t s)"
  by (simp add: refill_unless_idle_def)

lemma slices_only_then [simp]:
  assumes "slices_only t s s'"
  shows "slices_only t s (tick_timeslice t s')" "slices_only t s (refill_timeslice t s')"
    "slices_only t s (refill_unless_idle c t s')"
  by (rule slices_only_trans [OF assms], simp)+

lemma slices_only_demote: "mlfq_demote t s = Some s' \<Longrightarrow> slices_only t s s'"
  by (rule slices_onlyI [where ts = "drop_bit (unat (t_mlfq_level (pok_threads s t) - 1)) (push_bit 7 1)" and
        lv = "t_mlfq_level (pok_threads s t) - 1"])
    (auto simp: mlfq_demote_def Let_def upd_thread_def split: if_splits)

lemma slices_only_thread:
  assumes "slices_only t s s'"
  shows "t_state (pok_threads s' i) = t_state (pok_threads s i)"
    "t_processor_affinity (pok_threads s' i) = t_processor_affinity (pok_threads s i)"
    "t_priority (pok_threads s' i) = t_priority (pok_threads s i)"
    "t_remaining_time_capacity (pok_threads s' i) = t_remaining_time_capacity (pok_threads s i)"
    "t_weight (pok_threads s' i) = t_weight (pok_threads s i)"
    "t_ddl (pok_threads s' i) = t_ddl (pok_threads s i)"
    "proc_id s' = proc_id s" "pok_partitions s' = pok_partitions s"
    "current_threads s' = current_threads s" "pok_current_partition s' = pok_current_partition s"
proof -
  from assms obtain ts lv where s': "s' = upd_thread t (\<lambda>th. th\<lparr>t_remaining_timeslice := ts, t_mlfq_level := lv\<rparr>) s"
    unfolding slices_only_def by blast
  show "t_state (pok_threads s' i) = t_state (pok_threads s i)"
    "t_processor_affinity (pok_threads s' i) = t_processor_affinity (pok_threads s i)"
    "t_priority (pok_threads s' i) = t_priority (pok_threads s i)"
    "t_remaining_time_capacity (pok_threads s' i) = t_remaining_time_capacity (pok_threads s i)"
    "t_weight (pok_threads s' i) = t_weight (pok_threads s i)"
    "t_ddl (pok_threads s' i) = t_ddl (pok_threads s i)"
    "proc_id s' = proc_id s" "pok_partitions s' = pok_partitions s"
    "current_threads s' = current_threads s" "pok_current_partition s' = pok_current_partition s"
    unfolding s' upd_thread_def by simp_all
qed

lemma slices_onlyD:
  assumes "slices_only t s s'"
  shows "runnable_on s' = runnable_on s" "prio_of s' = prio_of s" "IDLE_THREAD c s' = IDLE_THREAD c s"
    "elects c low high s' = elects c low high s" "slice_ok c low high prev cur s' = slice_ok c low high prev cur s"
    "scan_from c low prev cur s' = scan_from c low prev cur s"
proof -
  note th = slices_only_thread [OF assms]
  show r: "runnable_on s' = runnable_on s" by (rule ext) (simp add: runnable_on_def th)
  show "prio_of s' = prio_of s" by (rule ext) (simp add: prio_of_def th)
  show i: "IDLE_THREAD c s' = IDLE_THREAD c s" by (simp add: IDLE_THREAD_def th)
  show "elects c low high s' = elects c low high s" by (rule ext) (simp add: elects_def r i)
  show "slice_ok c low high prev cur s' = slice_ok c low high prev cur s" by (simp add: slice_ok_def i)
  show "scan_from c low prev cur s' = scan_from c low prev cur s" by (simp add: scan_from_def i)
qed

lemmas slices_simps [simp] = slices_onlyD [OF slices_only_tick] slices_onlyD [OF slices_only_refill]
  slices_onlyD [OF slices_only_refill_idle]
  slices_only_thread [OF slices_only_tick] slices_only_thread [OF slices_only_refill]
  slices_only_thread [OF slices_only_refill_idle]

lemma electsI:
  "low \<le> e \<Longrightarrow> e < high \<Longrightarrow> runnable_on s e \<Longrightarrow> elects c low high s e"
  by (auto simp: elects_def)

lemma elects_idle:
  "(\<And>i. low \<le> i \<Longrightarrow> i < high \<Longrightarrow> \<not> runnable_on s i) \<Longrightarrow> elects c low high s (IDLE_THREAD c s)"
  by (auto simp: elects_def)

text \<open>The two scans every scheduler is built on.\<close>

lemma max_scan_elects:
  assumes "low \<le> from" "from < high"
  shows "\<exists>m t. circ_loop low high from (max_step (runnable_on s) key) from (- 1, d) = Some (m, t) \<and>
    elects c low high s (if m \<ge> 0 then t else IDLE_THREAD c s) \<and>
    (m \<ge> 0 \<longrightarrow> best_first (runnable_on s) key (circ_order low high from) t)"
proof -
  obtain m t where f: "fold (max_step (runnable_on s) key) (circ_order low high from) (- 1, d) = (m, t)"
    by fastforce
  note b = max_step_best [OF f] and set = set_circ_order [OF assms]
  have "circ_loop low high from (max_step (runnable_on s) key) from (- 1, d) = Some (m, t)"
    by (simp add: circ_loop_order [OF assms] f)
  moreover have "elects c low high s (if m \<ge> 0 then t else IDLE_THREAD c s)"
    using b best_first_in set by (fastforce simp: elects_def split: if_splits)
  moreover have "m \<ge> 0 \<longrightarrow> best_first (runnable_on s) key (circ_order low high from) t"
    using b by (auto split: if_splits)
  ultimately show ?thesis by blast
qed

lemma seek_elects:
  assumes "low \<le> from" "from < high"
  shows "\<exists>e. circ_seek low high from (runnable_on s) from = Some e \<and>
    elects c low high s (if e = from \<and> \<not> runnable_on s e then IDLE_THREAD c s else e) \<and>
    (e = from \<and> (\<forall>i \<in> set (circ_rest low high from). \<not> runnable_on s i) \<or>
     find (runnable_on s) (circ_rest low high from) = Some e)"
proof (cases "find (runnable_on s) (circ_rest low high from)")
  case None
  then have n: "\<forall>i \<in> {low..<high} - {from}. \<not> runnable_on s i"
    unfolding find_None_iff set_circ_rest [OF assms] by blast
  then have "elects c low high s (if \<not> runnable_on s from then IDLE_THREAD c s else from)"
    using assms by (auto intro!: electsI elects_idle)
  then show ?thesis using circ_seek_order [OF assms] None n set_circ_rest [OF assms] by auto
next
  case (Some e)
  then have "e \<in> set (circ_rest low high from)" "runnable_on s e"
    by (rule find_SomeD)+
  then have "e \<noteq> from" "elects c low high s e"
    using set_circ_rest [OF assms] by (auto intro: electsI)
  then show ?thesis using circ_seek_order [OF assms] Some by simp
qed


subsection \<open>The contract of a scheduler\<close>

text \<open>
  What \<open>pok_elect_thread\<close> relies on: on a well-formed slice, and under the conditions \<open>pre\<close> the
  particular scheduler needs, the call returns, elects, and changes nothing but the running thread's
  slice and level.
\<close>

locale thread_scheduler =
  fixes c :: pok_config
    and sched :: "nat \<Rightarrow> nat \<Rightarrow> nat \<Rightarrow> nat \<Rightarrow> kstate \<Rightarrow> (nat \<times> kstate) option"
    and pre :: "nat \<Rightarrow> nat \<Rightarrow> nat \<Rightarrow> nat \<Rightarrow> kstate \<Rightarrow> bool"
  assumes contract: "slice_ok c low high prev cur s \<Longrightarrow> pre low high prev cur s \<Longrightarrow>
    \<exists>e s'. sched low high prev cur s = Some (e, s') \<and> elects c low high s e \<and> slices_only cur s s'"
begin

lemma returns:
  assumes "slice_ok c low high prev cur s" "pre low high prev cur s"
  obtains e s' where "sched low high prev cur s = Some (e, s')" "elects c low high s e"
    "slices_only cur s s'"
  using contract [OF assms] by blast

lemma result_elects:
  assumes "slice_ok c low high prev cur s" "pre low high prev cur s"
    and "sched low high prev cur s = Some (e, s')"
  shows "elects c low high s e" "slices_only cur s s'"
  using contract [OF assms(1,2)] assms(3) by auto

text \<open>A scheduler never runs a thread of another partition.\<close>

lemma in_slice_or_idle:
  assumes "slice_ok c low high prev cur s" "pre low high prev cur s"
    and "sched low high prev cur s = Some (e, s')"
  shows "low \<le> e \<and> e < high \<and> runnable_on s' e \<or> e = IDLE_THREAD c s'"
  using result_elects [OF assms] by (auto simp: elects_def slices_onlyD split: if_splits)

text \<open>It does not idle while one of its threads could run, and idles otherwise.\<close>

lemma idle_iff:
  assumes "slice_ok c low high prev cur s" "pre low high prev cur s"
    and "sched low high prev cur s = Some (e, s')"
  shows "e = IDLE_THREAD c s \<longleftrightarrow> (\<forall>i. low \<le> i \<longrightarrow> i < high \<longrightarrow> \<not> runnable_on s i)"
  using result_elects [OF assms] assms(1) by (auto simp: elects_def slice_ok_def split: if_splits)

end

text \<open>
  The conditions of the schedulers. \<open>cur_local\<close>: the running thread belongs to this processor, and the
  idle thread has no budget, so that the idle thread is never kept running by its time slice.
\<close>

definition cur_local :: "pok_config \<Rightarrow> nat \<Rightarrow> kstate \<Rightarrow> bool" where
  "cur_local c cur s =
     (if cur = IDLE_THREAD c s then \<not> pos64 (t_remaining_time_capacity (pok_threads s cur))
      else t_processor_affinity (pok_threads s cur) = proc_id s)"

definition pedf_pre :: "nat \<Rightarrow> nat \<Rightarrow> nat \<Rightarrow> nat \<Rightarrow> kstate \<Rightarrow> bool" where
  "pedf_pre low high prev cur s = (\<forall>i \<in> {low..<high}. runnable_on s i \<longrightarrow> t_ddl (pok_threads s i) \<noteq> 0)"

definition wrr_pre :: "pok_config \<Rightarrow> nat \<Rightarrow> nat \<Rightarrow> nat \<Rightarrow> nat \<Rightarrow> kstate \<Rightarrow> bool" where
  "wrr_pre c low high prev cur s = (cur_local c cur s \<and>
     (cur = IDLE_THREAD c s \<longrightarrow>
        (\<exists>i \<in> {low..<high}. runnable_on s i \<and> i \<noteq> prev) \<or>
        prev \<noteq> IDLE_THREAD c s \<and> \<not> runnable_on s prev))"

definition pwrr_pre :: "pok_config \<Rightarrow> nat \<Rightarrow> nat \<Rightarrow> nat \<Rightarrow> nat \<Rightarrow> kstate \<Rightarrow> bool" where
  "pwrr_pre c low high prev cur s = (cur_local c cur s \<and>
     (\<forall>i \<in> {low..<high}. runnable_on s i \<longrightarrow> t_priority (pok_threads s i) \<noteq> 0))"

definition mlfq_pre :: "pok_config \<Rightarrow> nat \<Rightarrow> nat \<Rightarrow> nat \<Rightarrow> nat \<Rightarrow> kstate \<Rightarrow> bool" where
  "mlfq_pre c low high prev cur s = (cur_local c cur s \<and>
     (cur \<noteq> IDLE_THREAD c s \<and> t_remaining_timeslice (pok_threads s cur) \<le> 1 \<longrightarrow>
      1 \<le> t_mlfq_level (pok_threads s cur) \<and> t_mlfq_level (pok_threads s cur) \<le> 32))"

definition sched_pre :: "pok_config \<Rightarrow> sched_func_t \<Rightarrow> nat \<Rightarrow> nat \<Rightarrow> nat \<Rightarrow> nat \<Rightarrow> kstate \<Rightarrow> bool" where
  "sched_pre c f = (case f of
     Sched_part_pedf \<Rightarrow> pedf_pre
   | Sched_part_wrr \<Rightarrow> wrr_pre c
   | Sched_part_pwrr \<Rightarrow> pwrr_pre c
   | Sched_part_mlfq \<Rightarrow> mlfq_pre c
   | _ \<Rightarrow> (\<lambda>_ _ _ _ _. True))"

lemma slice_ok_low: "slice_ok c low high prev cur s \<Longrightarrow> low \<le> low \<and> low < high"
  by (simp add: slice_ok_def)

interpretation rms: thread_scheduler c "pok_sched_part_rms c" "\<lambda>_ _ _ _ _. True" for c
proof
  fix low high prev cur s
  assume "slice_ok c low high prev cur s"
  then have "low \<le> low" "low < high" by (simp_all add: slice_ok_def)
  from seek_elects [OF this, of s c]
  show "\<exists>e s'. pok_sched_part_rms c low high prev cur s = Some (e, s') \<and> elects c low high s e \<and>
      slices_only cur s s'"
    by (auto simp: pok_sched_part_rms_def)
qed

interpretation static: thread_scheduler c "pok_sched_part_static c" "\<lambda>_ _ _ _ _. True" for c
proof
  fix low high prev cur s
  assume ok: "slice_ok c low high prev cur s"
  show "\<exists>e s'. pok_sched_part_static c low high prev cur s = Some (e, s') \<and> elects c low high s e \<and>
      slices_only cur s s'"
    using max_scan_elects [of low "scan_from c low prev cur s" high s "prio_of s" cur c]
      scan_from_range [OF ok] by (auto simp: pok_sched_part_static_def Let_def)
qed

interpretation pps: thread_scheduler c "pok_sched_part_pps c" "\<lambda>_ _ _ _ _. True" for c
proof
  fix low high prev cur s
  assume ok: "slice_ok c low high prev cur s"
  show "\<exists>e s'. pok_sched_part_pps c low high prev cur s = Some (e, s') \<and> elects c low high s e \<and>
      slices_only cur s s'"
    using max_scan_elects [of low "scan_from c low prev cur s" high s "prio_of s" cur c]
      scan_from_range [OF ok] by (auto simp: pok_sched_part_pps_def Let_def)
qed

text \<open>The earliest-deadline scan, on threads that all have a deadline.\<close>

lemma pedf_scan:
  "\<forall>i \<in> set xs. runnable_on s i \<longrightarrow> t_ddl (pok_threads s i) \<noteq> 0 \<Longrightarrow>
   fold (pedf_step s) xs (0, d) = (m, t) \<Longrightarrow>
   (if \<exists>i \<in> set xs. runnable_on s i
    then t \<in> set xs \<and> runnable_on s t \<and> m = t_ddl (pok_threads s t) \<and> m \<noteq> 0 \<and>
      (\<forall>i \<in> set xs. runnable_on s i \<longrightarrow> m \<le> t_ddl (pok_threads s i))
    else m = 0 \<and> t = d)"
proof (induction xs arbitrary: m t rule: rev_induct)
  case Nil
  then show ?case by simp
next
  case (snoc x xs)
  obtain m' t' where f: "fold (pedf_step s) xs (0, d) = (m', t')" by fastforce
  have step: "(m, t) = pedf_step s x (m', t')" using snoc.prems(2) f by simp
  have "\<forall>i \<in> set xs. runnable_on s i \<longrightarrow> t_ddl (pok_threads s i) \<noteq> 0" using snoc.prems(1) by simp
  note IH = snoc.IH [OF this f]
  show ?case
  proof (cases "\<exists>i \<in> set xs. runnable_on s i")
    case True
    with IH have b: "t' \<in> set xs" "runnable_on s t'" "m' = t_ddl (pok_threads s t')" "m' \<noteq> 0"
      "\<forall>i \<in> set xs. runnable_on s i \<longrightarrow> m' \<le> t_ddl (pok_threads s i)" by auto
    show ?thesis
    proof (cases "runnable_on s x \<and> t_ddl (pok_threads s x) < m'")
      case new: True
      then have "m = t_ddl (pok_threads s x)" "t = x" using step by (auto simp: pedf_step_def)
      then show ?thesis using new b(5) snoc.prems(1) by (auto intro: order.trans less_imp_le)
    next
      case False
      then have "m = m'" "t = t'" using step b(4) by (auto simp: pedf_step_def split: if_splits)
      then show ?thesis using False b True by auto
    qed
  next
    case False
    with IH have "m' = 0" "t' = d" by auto
    then show ?thesis using False step snoc.prems(1) by (auto simp: pedf_step_def split: if_splits)
  qed
qed

interpretation pedf: thread_scheduler c "pok_sched_part_pedf c" pedf_pre for c
proof
  fix low high prev cur s
  assume ok: "slice_ok c low high prev cur s" and pre: "pedf_pre low high prev cur s"
  let ?from = "scan_from c low prev cur s"
  have r: "low \<le> ?from" "?from < high" using scan_from_range [OF ok] by auto
  obtain m t where f: "fold (pedf_step s) (circ_order low high ?from) (0, IDLE_THREAD c s) = (m, t)"
    by fastforce
  have "\<forall>i \<in> set (circ_order low high ?from). runnable_on s i \<longrightarrow> t_ddl (pok_threads s i) \<noteq> 0"
    using pre set_circ_order [OF r] by (simp add: pedf_pre_def)
  note sc = pedf_scan [OF this f, unfolded set_circ_order [OF r]]
  have "elects c low high s (if m > 0 then t else IDLE_THREAD c s)"
    using sc by (auto simp: elects_def word_neq_0_conv split: if_splits)
  then show "\<exists>e s'. pok_sched_part_pedf c low high prev cur s = Some (e, s') \<and> elects c low high s e \<and>
      slices_only cur s s'"
    by (simp add: pok_sched_part_pedf_def Let_def circ_loop_order [OF r] f)
qed


interpretation rr: thread_scheduler c "pok_sched_part_rr c" "\<lambda>_ _ _ _ _. True" for c
proof
  fix low high prev cur s
  assume ok: "slice_ok c low high prev cur s"
  let ?from = "if cur = IDLE_THREAD c s then (if prev \<noteq> IDLE_THREAD c s then prev else low) else cur"
  have "low \<le> ?from" "?from < high" using ok by (auto simp: slice_ok_def)
  from seek_elects [OF this, of s c] obtain e where
    e: "circ_seek low high ?from (runnable_on s) ?from = Some e"
      "elects c low high s (if e = ?from \<and> \<not> runnable_on s e then IDLE_THREAD c s else e)" by blast
  have "runnable_on s cur \<Longrightarrow> cur \<noteq> IDLE_THREAD c s \<Longrightarrow> elects c low high s cur"
    using ok by (auto simp: slice_ok_def intro: electsI)
  then show "\<exists>e s'. pok_sched_part_rr c low high prev cur s = Some (e, s') \<and> elects c low high s e \<and>
      slices_only cur s s'"
    using e by (simp add: pok_sched_part_rr_def Let_def)
qed

lemma cur_continue:
  assumes "slice_ok c low high prev cur s" "cur_local c cur s" "may_continue (tick_timeslice cur s) cur"
  shows "cur \<noteq> IDLE_THREAD c s" "runnable_on s cur" "elects c low high s cur"
proof -
  show "cur \<noteq> IDLE_THREAD c s" "runnable_on s cur"
    using assms(2,3) by (auto simp: cur_local_def may_continue_def runnable_on_def split: if_splits)
  then show "elects c low high s cur" using assms(1) by (auto simp: slice_ok_def intro: electsI)
qed

lemma pre_slices:
  assumes "slices_only t s s'"
  shows "cur_local c cur s' = cur_local c cur s" "wrr_pre c low high prev cur s' = wrr_pre c low high prev cur s"
proof -
  show cl: "cur_local c cur s' = cur_local c cur s"
    unfolding cur_local_def slices_onlyD [OF assms] slices_only_thread [OF assms] ..
  show "wrr_pre c low high prev cur s' = wrr_pre c low high prev cur s"
    unfolding wrr_pre_def cl slices_onlyD [OF assms] ..
qed

text \<open>A scan whose stop condition lies outside the slice still ends when it meets a candidate.\<close>

lemma circ_first_outside:
  assumes "\<not> (low \<le> from \<and> from < high)" "low \<le> i" "i \<le> j" "j < high" "ok j"
  shows "circ_first low high from ok i = Some (find ok [i..<high])"
  using assms(2,3)
proof (induction "high - i" arbitrary: i)
  case 0
  then show ?case using assms(4) by simp
next
  case (Suc n)
  show ?case
  proof (cases "ok i")
    case True
    then show ?thesis using Suc.prems assms(4) by (subst circ_first.simps) (simp add: upt_rec [of i])
  next
    case False
    then have "i < j" using Suc.prems(2) assms(5) by (metis le_neq_implies_less)
    then have "circ_next low high i = Suc i" using assms(4) by (simp add: circ_next_def)
    moreover have "Suc i \<noteq> from" using assms(1,4) Suc.prems(1) \<open>i < j\<close> by auto
    moreover have "circ_first low high from ok (Suc i) = Some (find ok [Suc i..<high])"
      using Suc.hyps(1) [of "Suc i"] Suc.hyps(2) Suc.prems \<open>i < j\<close> by simp
    ultimately show ?thesis using False \<open>i < j\<close> assms(4)
      by (subst circ_first.simps) (simp add: upt_rec [of i])
  qed
qed

text \<open>The scans that start after \<open>from\<close> see every other thread of the slice.\<close>

lemma wrr_scan:
  assumes "slice_ok c low high prev cur s" "wrr_pre c low high prev cur s"
    and "from = (if cur \<noteq> IDLE_THREAD c s then cur else prev)"
  shows "\<exists>found. circ_first low high from (\<lambda>i. runnable_on s i \<and> i \<noteq> IDLE_THREAD c s)
      (scan_after c low high from s) = Some found \<and>
    (case found of Some e \<Rightarrow> low \<le> e \<and> e < high \<and> runnable_on s e
     | None \<Rightarrow> low \<le> from \<and> from < high \<and>
         (\<forall>i. low \<le> i \<longrightarrow> i < high \<longrightarrow> i \<noteq> from \<longrightarrow> \<not> runnable_on s i))"
proof (cases "from = IDLE_THREAD c s")
  case True
  then have "cur = IDLE_THREAD c s" "prev = IDLE_THREAD c s" using assms(3) by (auto split: if_splits)
  then obtain j where j: "low \<le> j" "j < high" "runnable_on s j"
    using assms(2) by (auto simp: wrr_pre_def)
  have n: "\<not> (low \<le> from \<and> from < high)" using assms(1) True by (simp add: slice_ok_def)
  let ?ok = "\<lambda>i. runnable_on s i \<and> i \<noteq> IDLE_THREAD c s"
  have "?ok j" using j n True by auto
  from circ_first_outside [where ok = ?ok, OF n order.refl j(1,2) this]
  have f: "circ_first low high from ?ok low = Some (find ?ok [low..<high])" .
  have "find ?ok [low..<high] \<noteq> None" using j \<open>?ok j\<close> by (auto simp: find_None_iff)
  then obtain e where e: "find ?ok [low..<high] = Some e" by auto
  then have "e \<in> set [low..<high]" "?ok e" by (rule find_SomeD)+
  then show ?thesis using f e True by (auto simp: scan_after_def)
next
  case False
  then have r: "low \<le> from" "from < high" using assms(1,3) by (auto simp: slice_ok_def split: if_splits)
  let ?ok = "\<lambda>i. runnable_on s i \<and> i \<noteq> IDLE_THREAD c s"
  let ?xs = "if high = Suc low then [from] else circ_rest low high from"
  have f: "circ_first low high from ?ok (scan_after c low high from s) = Some (find ?ok ?xs)"
    using circ_first_next [OF r] False by (simp add: scan_after_def)
  have xs: "set ?xs \<subseteq> {low..<high}" "{low..<high} - {from} \<subseteq> set ?xs"
    using set_circ_rest [OF r] r by auto
  have idle: "\<And>i. low \<le> i \<Longrightarrow> i < high \<Longrightarrow> i \<noteq> IDLE_THREAD c s" using assms(1) by (auto simp: slice_ok_def)
  show ?thesis
  proof (cases "find ?ok ?xs")
    case None
    then have no: "\<And>i. i \<in> set ?xs \<Longrightarrow> \<not> ?ok i" using find_NoneD [OF None] by blast
    have "\<not> runnable_on s i" if "low \<le> i" "i < high" "i \<noteq> from" for i
      using no [of i] xs(2) idle [of i] that by (meson DiffI atLeastLessThan_iff singletonD subsetD)
    then show ?thesis using f None r by simp
  next
    case (Some e)
    then have "e \<in> set ?xs" "?ok e" by (rule find_SomeD)+
    then have "low \<le> e \<and> e < high \<and> runnable_on s e" using xs(1) by (meson atLeastLessThan_iff subsetD)
    then show ?thesis using f Some by simp
  qed
qed

interpretation wrr: thread_scheduler c "pok_sched_part_wrr c" "wrr_pre c" for c
proof
  fix low high prev cur s0
  assume ok: "slice_ok c low high prev cur s0" and pre: "wrr_pre c low high prev cur s0"
  let ?s = "tick_timeslice cur s0" and ?from = "if cur \<noteq> IDLE_THREAD c s0 then cur else prev"
  show "\<exists>e s'. pok_sched_part_wrr c low high prev cur s0 = Some (e, s') \<and> elects c low high s0 e \<and>
      slices_only cur s0 s'"
  proof (cases "may_continue ?s cur")
    case True
    have "cur_local c cur s0" using pre by (simp only: wrr_pre_def)
    from cur_continue [OF ok this True] True show ?thesis
      by (simp add: pok_sched_part_wrr_def Let_def)
  next
    case False
    have "wrr_pre c low high prev cur ?s" using pre by (simp only: pre_slices [OF slices_only_tick])
    from wrr_scan [OF _ this, of ?from] ok obtain found where
      f: "circ_first low high ?from (\<lambda>i. runnable_on ?s i \<and> i \<noteq> IDLE_THREAD c ?s)
            (scan_after c low high ?from ?s) = Some found" and
      g: "case found of Some e \<Rightarrow> low \<le> e \<and> e < high \<and> runnable_on ?s e
          | None \<Rightarrow> low \<le> ?from \<and> ?from < high \<and>
              (\<forall>i. low \<le> i \<longrightarrow> i < high \<longrightarrow> i \<noteq> ?from \<longrightarrow> \<not> runnable_on ?s i)"
      by auto
    have fr: "slices_only cur s0 (refill_unless_idle c cur ?s)" "slices_only cur s0 (refill_timeslice cur ?s)"
      by simp_all
    show ?thesis
    proof (cases found)
      case (Some e)
      then show ?thesis using f g fr False
        by (auto simp: pok_sched_part_wrr_def Let_def intro: electsI)
    next
      case None
      then have n: "low \<le> ?from" "?from < high" "\<And>i. low \<le> i \<Longrightarrow> i < high \<Longrightarrow> i \<noteq> ?from \<Longrightarrow> \<not> runnable_on s0 i"
        using g by auto
      have el: "elects c low high s0 (if runnable_on s0 cur \<and> cur \<noteq> IDLE_THREAD c s0 then cur else IDLE_THREAD c s0)"
      proof (cases "cur = IDLE_THREAD c s0")
        case True
        then have "\<not> runnable_on s0 prev" using pre n by (auto simp: wrr_pre_def)
        then show ?thesis using True n by (auto intro!: elects_idle)
      next
        case c: False
        then show ?thesis using n by (auto intro!: electsI elects_idle)
      qed
      then show ?thesis using f fr None False by (auto simp: pok_sched_part_wrr_def Let_def)
    qed
  qed
qed


lemma prio_scan_elects:
  assumes "slice_ok c low high prev cur s"
  shows "\<exists>e. prio_scan c low high (scan_from c low prev cur s) cur s = Some e \<and> elects c low high s e"
proof -
  have "low \<le> scan_from c low prev cur s" "scan_from c low prev cur s < high"
    using scan_from_range [OF assms] by auto
  from max_scan_elects [OF this, of s "prio_of s" cur c] show ?thesis
    by (auto simp: prio_scan_def)
qed

text \<open>The search for a thread of the running thread's priority.\<close>

lemma same_prio_scan:
  assumes "slice_ok c low high prev cur s"
  shows "\<exists>found. circ_while low high (scan_from c low prev cur s) ok
      (scan_after c low high (scan_from c low prev cur s) s) = Some found \<and>
    (\<forall>e. found = Some e \<longrightarrow> low \<le> e \<and> e < high \<and> ok e)"
proof -
  let ?f = "scan_from c low prev cur s"
  have r: "low \<le> ?f" "?f < high" using scan_from_range [OF assms] by auto
  then have "scan_after c low high ?f s = circ_next low high ?f"
    using assms by (auto simp: scan_after_def slice_ok_def)
  then have "circ_while low high ?f ok (scan_after c low high ?f s) = Some (find ok (circ_rest low high ?f))"
    using circ_while_next [OF r] by simp
  moreover have "low \<le> e \<and> e < high \<and> ok e" if "find ok (circ_rest low high ?f) = Some e" for e
    using find_SomeD [OF that] set_circ_rest [OF r] by auto
  ultimately show ?thesis by blast
qed

interpretation pwrr: thread_scheduler c "pok_sched_part_pwrr c" "pwrr_pre c" for c
proof
  fix low high prev cur s0
  assume ok: "slice_ok c low high prev cur s0" and pre: "pwrr_pre c low high prev cur s0"
  let ?s = "tick_timeslice cur s0" let ?s1 = "refill_unless_idle c cur ?s"
  let ?from = "scan_from c low prev cur s0"
  have fr: "slices_only cur s0 ?s" "slices_only cur s0 ?s1" "slices_only cur s0 (refill_timeslice cur ?s1)"
    "slices_only cur s0 (refill_unless_idle c cur ?s1)"
    by simp_all
  have local: "cur_local c cur s0" and pos: "\<And>i. low \<le> i \<Longrightarrow> i < high \<Longrightarrow> runnable_on s0 i \<Longrightarrow> prio_of s0 i \<noteq> 0"
    using pre by (auto simp: pwrr_pre_def prio_of_def unat_eq_0)
  obtain e1 where e1: "prio_scan c low high ?from cur ?s = Some e1" "elects c low high s0 e1"
    using prio_scan_elects [of c low high prev cur ?s] ok by auto
  obtain e2 where e2: "prio_scan c low high ?from cur ?s1 = Some e2" "elects c low high s0 e2"
    using prio_scan_elects [of c low high prev cur ?s1] ok by auto
  obtain found where w: "circ_while low high ?from (\<lambda>i. runnable_on ?s1 i \<and> prio_of ?s1 i = prio_of s0 cur)
      (scan_after c low high ?from ?s1) = Some found"
    and wr: "\<And>e. found = Some e \<Longrightarrow> low \<le> e \<and> e < high \<and> runnable_on s0 e"
    using same_prio_scan [of c low high prev cur ?s1 "\<lambda>i. runnable_on ?s1 i \<and> prio_of ?s1 i = prio_of s0 cur"] ok
    by auto
  have idle: "elects c low high s0 (IDLE_THREAD c s0)" if "\<not> 0 < prio_of s0 e2"
  proof -
    have "\<not> (low \<le> e2 \<and> e2 < high \<and> runnable_on s0 e2)" using that pos [of e2] by auto
    then have "e2 = IDLE_THREAD c s0" using e2(2) by (auto simp: elects_def split: if_splits)
    then show ?thesis using e2(2) by simp
  qed
  have self: "elects c low high s0 cur" if "runnable_on s0 cur" "cur \<noteq> IDLE_THREAD c s0"
    using ok that by (auto simp: slice_ok_def intro: electsI)
  note cont = cur_continue [OF ok local]
  show "\<exists>e s'. pok_sched_part_pwrr c low high prev cur s0 = Some (e, s') \<and> elects c low high s0 e \<and>
      slices_only cur s0 s'"
  proof (cases "prio_of s0 e1 > prio_of s0 cur \<or> may_continue ?s cur")
    case True
    then show ?thesis using e1 fr cont(3) by (auto simp: pok_sched_part_pwrr_def Let_def)
  next
    case False
    then have eq: "pok_sched_part_pwrr c low high prev cur s0 =
       (case found of Some i \<Rightarrow> Some (i, ?s1)
        | None \<Rightarrow> if runnable_on s0 cur \<and> cur \<noteq> IDLE_THREAD c s0 then Some (cur, refill_timeslice cur ?s1)
            else if prio_of s0 e2 > 0 then Some (e2, refill_unless_idle c cur ?s1)
            else Some (IDLE_THREAD c s0, ?s1))"
      using e1(1) e2(1) w by (cases found) (auto simp: pok_sched_part_pwrr_def Let_def)
    show ?thesis
      unfolding eq using wr idle self e2(2) fr by (cases found) (auto intro: electsI)
  qed
qed

lemma mlfq_demote_level:
  "1 \<le> t_mlfq_level (pok_threads s t) \<Longrightarrow> t_mlfq_level (pok_threads s t) \<le> 32 \<Longrightarrow>
   \<exists>s'. mlfq_demote t s = Some s'"
  by (simp add: mlfq_demote_def Let_def unat_sub word_le_nat_alt)

interpretation mlfq: thread_scheduler c "pok_sched_part_mlfq c" "mlfq_pre c" for c
proof
  fix low high prev cur s0
  assume ok: "slice_ok c low high prev cur s0" and pre: "mlfq_pre c low high prev cur s0"
  let ?s = "tick_timeslice cur s0"
  let ?d = "if cur \<noteq> IDLE_THREAD c s0 \<and> t_remaining_timeslice (pok_threads ?s cur) = 0
    then mlfq_demote cur ?s else Some ?s"
  have local: "cur_local c cur s0" using pre by (simp add: mlfq_pre_def)
  have "\<exists>s1. ?d = Some s1 \<and> slices_only cur s0 s1"
  proof (cases "cur \<noteq> IDLE_THREAD c s0 \<and> t_remaining_timeslice (pok_threads ?s cur) = 0")
    case True
    then have "t_remaining_timeslice (pok_threads s0 cur) \<le> 1"
      by (auto simp: tick_timeslice_def upd_thread_def split: if_splits)
    then have "1 \<le> t_mlfq_level (pok_threads s0 cur)" "t_mlfq_level (pok_threads s0 cur) \<le> 32"
      using pre True by (auto simp: mlfq_pre_def)
    moreover have "t_mlfq_level (pok_threads ?s cur) = t_mlfq_level (pok_threads s0 cur)"
      by (simp add: tick_timeslice_def upd_thread_def)
    ultimately obtain s1 where "mlfq_demote cur ?s = Some s1" using mlfq_demote_level by metis
    then show ?thesis using True slices_only_trans [OF slices_only_tick slices_only_demote] by auto
  next
    case False
    then show ?thesis by auto
  qed
  then obtain s1 where d: "?d = Some s1" and fr: "slices_only cur s0 s1" by blast
  have r: "low \<le> scan_from c low prev cur s1" "scan_from c low prev cur s1 < high"
    using scan_from_range [of c low high prev cur s1] ok slices_onlyD [OF fr] by auto
  obtain m t where m: "circ_loop low high (scan_from c low prev cur s1) (max_step (runnable_on s1) (level_of s1))
      (scan_from c low prev cur s1) (- 1, cur) = Some (m, t)"
    "elects c low high s1 (if m \<ge> 0 then t else IDLE_THREAD c s1)"
    using max_scan_elects [OF r, of s1 "level_of s1" cur c] by blast
  show "\<exists>e s'. pok_sched_part_mlfq c low high prev cur s0 = Some (e, s') \<and> elects c low high s0 e \<and>
      slices_only cur s0 s'"
  proof (cases "may_continue ?s cur")
    case True
    then show ?thesis using cur_continue [OF ok local True] by (simp add: pok_sched_part_mlfq_def Let_def)
  next
    case False
    then show ?thesis using d m fr slices_onlyD [OF fr]
      by (auto simp: pok_sched_part_mlfq_def Let_def split: if_splits)
  qed
qed

text \<open>The call through the pointer obeys the contract, whatever scheduler it reaches.\<close>

interpretation dispatch: thread_scheduler c "call_sched_func c f" "sched_pre c f" for c f
proof
  fix low high prev cur s
  assume "slice_ok c low high prev cur s" "sched_pre c f low high prev cur s"
  then show "\<exists>e s'. call_sched_func c f low high prev cur s = Some (e, s') \<and> elects c low high s e \<and>
      slices_only cur s s'"
    by (cases f) (simp_all add: call_sched_func_def sched_pre_def rms.contract static.contract pps.contract
        pedf.contract wrr.contract pwrr.contract mlfq.contract rr.contract)
qed


subsection \<open>Which thread each scheduler elects\<close>

lemma best_first_order_max:
  assumes "low \<le> from" "from < high" "best_first (runnable_on s) key (circ_order low high from) e"
    and "low \<le> i" "i < high" "runnable_on s i"
  shows "key i \<le> key e"
  using best_first_max [OF assms(3)] set_circ_order [OF assms(1,2)] assms(4-6) by auto

lemma prio_scan_max:
  assumes "slice_ok c low high prev cur s"
    and "prio_scan c low high (scan_from c low prev cur s) cur s = Some e"
    and "low \<le> i" "i < high" "runnable_on s i"
  shows "prio_of s i \<le> prio_of s e"
proof -
  have r: "low \<le> scan_from c low prev cur s" "scan_from c low prev cur s < high"
    using scan_from_range [OF assms(1)] by auto
  obtain m t where m: "circ_loop low high (scan_from c low prev cur s) (max_step (runnable_on s) (prio_of s))
      (scan_from c low prev cur s) (- 1, cur) = Some (m, t)"
    "elects c low high s (if m \<ge> 0 then t else IDLE_THREAD c s)"
    "m \<ge> 0 \<longrightarrow> best_first (runnable_on s) (prio_of s) (circ_order low high (scan_from c low prev cur s)) t"
    using max_scan_elects [OF r, of s "prio_of s" cur c] by blast
  have "m \<ge> 0" using m(2) assms(1,3-5) by (auto simp: elects_def slice_ok_def split: if_splits)
  then have "e = t" using m(1) assms(2) by (auto simp: prio_scan_def)
  then show ?thesis using best_first_order_max [OF r _ assms(3-5)] m(3) \<open>m \<ge> 0\<close> by blast
qed

lemma wrr_only_prev_runnable:
  assumes "slice_ok c low high prev cur s" "cur = IDLE_THREAD c s" "prev \<noteq> IDLE_THREAD c s"
    and "Suc low < high" "\<not> may_continue (tick_timeslice cur s) cur"
    and "\<And>i. low \<le> i \<Longrightarrow> i < high \<Longrightarrow> i \<noteq> prev \<Longrightarrow> \<not> runnable_on s i"
  shows "pok_sched_part_wrr c low high prev cur s = Some (IDLE_THREAD c s, tick_timeslice cur s)"
proof -
  have r: "low \<le> prev" "prev < high" using assms(1,3) by (auto simp: slice_ok_def)
  let ?ok = "\<lambda>i. runnable_on s i \<and> i \<noteq> IDLE_THREAD c s"
  have "find ?ok (circ_rest low high prev) = None"
    using set_circ_rest [OF r] assms(6) by (auto simp: find_None_iff)
  then have "circ_first low high prev ?ok (circ_next low high prev) = Some None"
    using circ_first_next [OF r, of ?ok] assms(4) by simp
  then show ?thesis using assms(2,3,5)
    by (simp add: pok_sched_part_wrr_def Let_def scan_after_def refill_unless_idle_def)
qed

lemma wrr_waits_for_nobody:
  assumes "low < high" "IDLE_THREAD c s < low \<or> high \<le> IDLE_THREAD c s"
    and "\<not> pos64 (t_remaining_time_capacity (pok_threads s (IDLE_THREAD c s)))"
    and "\<And>i. low \<le> i \<Longrightarrow> i < high \<Longrightarrow> \<not> runnable_on s i"
  shows "pok_sched_part_wrr c low high (IDLE_THREAD c s) (IDLE_THREAD c s) s = None"
proof -
  let ?ok = "\<lambda>i. runnable_on s i \<and> i \<noteq> IDLE_THREAD c s"
  have "circ_first low high (IDLE_THREAD c s) ?ok low = None"
    using assms by (intro circ_first_diverges) auto
  moreover have "\<not> may_continue (tick_timeslice (IDLE_THREAD c s) s) (IDLE_THREAD c s)"
    using assms(3) by (simp add: may_continue_def)
  ultimately show ?thesis by (simp add: pok_sched_part_wrr_def Let_def scan_after_def)
qed

lemma mlfq_level_zero:
  assumes "t_remaining_timeslice (pok_threads s cur) = 1" "cur \<noteq> IDLE_THREAD c s" "t_mlfq_level (pok_threads s cur) = 0"
  shows "pok_sched_part_mlfq c low high prev cur s = None"
proof -
  have t: "t_mlfq_level (pok_threads (tick_timeslice cur s) cur) = 0" "t_remaining_timeslice (pok_threads (tick_timeslice cur s) cur) = 0"
    using assms(1,3) by (simp_all add: tick_timeslice_def upd_thread_def)
  then have "mlfq_demote cur (tick_timeslice cur s) = None"
    by (simp add: mlfq_demote_def Let_def unsigned_minus_1_eq_mask mask_eq_exp_minus_1)
  moreover have "\<not> may_continue (tick_timeslice cur s) cur" using t by (simp add: may_continue_def)
  ultimately show ?thesis using t assms(2) by (simp add: pok_sched_part_mlfq_def Let_def)
qed

lemma pedf_zero_deadlines:
  assumes "slice_ok c low high prev cur s" "\<And>i. low \<le> i \<Longrightarrow> i < high \<Longrightarrow> runnable_on s i \<Longrightarrow> t_ddl (pok_threads s i) = 0"
  shows "pok_sched_part_pedf c low high prev cur s = Some (IDLE_THREAD c s, s)"
proof -
  let ?from = "scan_from c low prev cur s"
  have r: "low \<le> ?from" "?from < high" using scan_from_range [OF assms(1)] by auto
  have "\<forall>x \<in> set xs. runnable_on s x \<longrightarrow> t_ddl (pok_threads s x) = 0 \<Longrightarrow> fst a = 0 \<Longrightarrow> fst (fold (pedf_step s) xs a) = 0" for xs a
    by (induction xs arbitrary: a) (auto simp: pedf_step_def split: prod.splits)
  then have "fst (fold (pedf_step s) (circ_order low high ?from) (0, IDLE_THREAD c s)) = 0"
    using assms(2) set_circ_order [OF r] by simp
  then show ?thesis by (auto simp: pok_sched_part_pedf_def Let_def circ_loop_order [OF r] split: prod.splits)
qed


lemma demo_runnable [simp]: "runnable_on demo_state i = (i \<notin> {0, 3, 7})"
  by (simp add: runnable_on_def demo_thread_def)

lemma demo_slice: "slice_ok demo_config 0 3 6 1 demo_state"
  by (simp add: slice_ok_def)

lemma demo_wrr_pre: "sched_pre demo_config Sched_part_wrr 0 3 6 1 demo_state"
  by (simp add: sched_pre_def wrr_pre_def cur_local_def demo_thread_def)


text \<open>The static and the preemptive priority scheduler elect, among the runnable threads, one of the highest
  priority, and among those the first in circular order from the thread that ran last.\<close>

theorem priority_election:
  assumes "slice_ok c low high prev cur s" "i \<in> {low..<high}" "runnable_on s i"
  shows "\<exists>e. pok_sched_part_static c low high prev cur s = Some (e, s) \<and>
    pok_sched_part_pps c low high prev cur s = Some (e, s) \<and>
    best_first (runnable_on s) (prio_of s) (circ_order low high (scan_from c low prev cur s)) e \<and>
    t_priority (pok_threads s i) \<le> t_priority (pok_threads s e)"
proof -
  have r: "low \<le> scan_from c low prev cur s" "scan_from c low prev cur s < high"
    using scan_from_range [OF assms(1)] by auto
  obtain m t where m: "circ_loop low high (scan_from c low prev cur s) (max_step (runnable_on s) (prio_of s))
      (scan_from c low prev cur s) (- 1, cur) = Some (m, t)"
    "elects c low high s (if m \<ge> 0 then t else IDLE_THREAD c s)"
    "m \<ge> 0 \<longrightarrow> best_first (runnable_on s) (prio_of s) (circ_order low high (scan_from c low prev cur s)) t"
    using max_scan_elects [OF r, of s "prio_of s" cur c] by blast
  have "m \<ge> 0" using m(2) assms by (auto simp: elects_def slice_ok_def split: if_splits)
  moreover have "prio_of s i \<le> prio_of s t"
    using best_first_order_max [OF r] m(3) \<open>m \<ge> 0\<close> assms by auto
  ultimately show ?thesis using m
    by (simp add: pok_sched_part_static_def pok_sched_part_pps_def Let_def prio_of_def word_le_nat_alt)
qed

lemma priority_election_witness:
  "\<exists>e. pok_sched_part_pps demo_config 0 3 6 1 demo_state = Some (e, demo_state) \<and>
     t_priority (demo_thread 2) \<le> t_priority (demo_thread e)"
  using priority_election [OF demo_slice, of 2] by fastforce

text \<open>The earliest-deadline scheduler, on threads that all have a deadline, elects a runnable thread whose
  absolute deadline is the earliest of the partition.\<close>

theorem pedf_earliest_deadline:
  assumes "slice_ok c low high prev cur s" "pedf_pre low high prev cur s"
    and "i \<in> {low..<high}" "runnable_on s i"
  shows "\<exists>e. pok_sched_part_pedf c low high prev cur s = Some (e, s) \<and> e \<in> {low..<high} \<and>
    runnable_on s e \<and> t_ddl (pok_threads s e) \<le> t_ddl (pok_threads s i)"
proof -
  let ?from = "scan_from c low prev cur s"
  have r: "low \<le> ?from" "?from < high" using scan_from_range [OF assms(1)] by auto
  obtain m t where f: "fold (pedf_step s) (circ_order low high ?from) (0, IDLE_THREAD c s) = (m, t)"
    by fastforce
  have "\<forall>i \<in> set (circ_order low high ?from). runnable_on s i \<longrightarrow> t_ddl (pok_threads s i) \<noteq> 0"
    using assms(2) set_circ_order [OF r] by (simp add: pedf_pre_def)
  note sc = pedf_scan [OF this f, unfolded set_circ_order [OF r]]
  have "t \<in> {low..<high} \<and> runnable_on s t \<and> m = t_ddl (pok_threads s t) \<and> m \<noteq> 0 \<and> m \<le> t_ddl (pok_threads s i)"
  proof -
    have "\<exists>i \<in> {low..<high}. runnable_on s i" using assms(3,4) by blast
    with sc have "t \<in> {low..<high}" "runnable_on s t" "m = t_ddl (pok_threads s t)" "m \<noteq> 0"
      "\<forall>i \<in> {low..<high}. runnable_on s i \<longrightarrow> m \<le> t_ddl (pok_threads s i)" by auto
    then show ?thesis using assms(3,4) by blast
  qed
  then have "pok_sched_part_pedf c low high prev cur s = Some (t, s)"
    "t \<in> {low..<high} \<and> runnable_on s t \<and> t_ddl (pok_threads s t) \<le> t_ddl (pok_threads s i)"
    by (auto simp: pok_sched_part_pedf_def Let_def circ_loop_order [OF r] f word_neq_0_conv)
  then show ?thesis by blast
qed

lemma pedf_earliest_deadline_witness:
  "\<exists>e. pok_sched_part_pedf demo_config 0 3 6 1 demo_state = Some (e, demo_state) \<and>
     t_ddl (demo_thread e) \<le> t_ddl (demo_thread 2)"
proof -
  have "pedf_pre 0 3 6 1 demo_state" unfolding pedf_pre_def
    by (simp add: demo_thread_def numeral_3_eq_3 atLeastLessThanSuc)
  from pedf_earliest_deadline [OF demo_slice this, of 2] show ?thesis by fastforce
qed


text \<open>The priority scheduler with weighted rounds elects, when priorities are not zero, a thread of the highest
  priority among the runnable ones: neither the rest of a time slice nor a round lets a lower priority
  pass.\<close>

theorem pwrr_highest_priority:
  assumes "slice_ok c low high prev cur s" "pwrr_pre c low high prev cur s"
    and "i \<in> {low..<high}" "runnable_on s i"
  shows "\<exists>e s'. pok_sched_part_pwrr c low high prev cur s = Some (e, s') \<and> e \<in> {low..<high} \<and>
    runnable_on s e \<and> t_priority (pok_threads s i) \<le> t_priority (pok_threads s e)"
proof -
  let ?s = "tick_timeslice cur s" let ?s1 = "refill_unless_idle c cur ?s"
  let ?from = "scan_from c low prev cur s"
  obtain e s' where e: "pok_sched_part_pwrr c low high prev cur s = Some (e, s')" "elects c low high s e"
    using pwrr.contract [OF assms(1,2)] by blast
  have el: "e \<in> {low..<high}" "runnable_on s e"
    using e(2) assms(3,4) unfolding elects_def by (metis (full_types))+
  obtain e1 where e1: "prio_scan c low high ?from cur ?s = Some e1"
    using prio_scan_elects [of c low high prev cur ?s] assms(1) by auto
  obtain e2 where e2: "prio_scan c low high ?from cur ?s1 = Some e2"
    using prio_scan_elects [of c low high prev cur ?s1] assms(1) by auto
  have max1: "prio_of s i \<le> prio_of s e1"
    using prio_scan_max [of c low high prev cur ?s e1 i] e1 assms(1,3,4) by simp
  have max2: "prio_of s i \<le> prio_of s e2"
    using prio_scan_max [of c low high prev cur ?s1 e2 i] e2 assms(1,3,4) by simp
  obtain found where w: "circ_while low high ?from (\<lambda>i. runnable_on ?s1 i \<and> prio_of ?s1 i = prio_of s cur)
      (scan_after c low high ?from ?s1) = Some found"
    and wr: "\<And>e. found = Some e \<Longrightarrow> prio_of s e = prio_of s cur"
    using same_prio_scan [of c low high prev cur ?s1 "\<lambda>i. runnable_on ?s1 i \<and> prio_of ?s1 i = prio_of s cur"]
      assms(1) by auto
  have idle: "e \<noteq> IDLE_THREAD c s" using el assms(1) by (auto simp: slice_ok_def)
  have "prio_of s i \<le> prio_of s e"
  proof (cases "prio_of s e1 > prio_of s cur")
    case True
    then show ?thesis using e(1) e1 max1 by (simp add: pok_sched_part_pwrr_def Let_def)
  next
    case False
    then have "prio_of s i \<le> prio_of s cur" using max1 by simp
    moreover have "e = cur \<or> prio_of s e = prio_of s cur \<or> e = e2"
      using e(1) e1 e2 w wr False idle
      by (cases found) (auto simp: pok_sched_part_pwrr_def Let_def split: if_splits)
    ultimately show ?thesis using max2 by auto
  qed
  then show ?thesis using e(1) el by (auto simp: prio_of_def word_le_nat_alt)
qed

lemma pwrr_highest_priority_witness:
  "\<exists>e s'. pok_sched_part_pwrr demo_config 0 3 6 1 demo_state = Some (e, s') \<and>
     t_priority (demo_thread 2) \<le> t_priority (demo_thread e)"
proof -
  have "pwrr_pre demo_config 0 3 6 1 demo_state" unfolding pwrr_pre_def cur_local_def
    by (simp add: demo_thread_def numeral_3_eq_3 atLeastLessThanSuc)
  from pwrr_highest_priority [OF demo_slice this, of 2] show ?thesis by fastforce
qed

text \<open>Round robin keeps the running thread while it may run and has budget; otherwise it elects the next
  runnable thread in circular order after the thread it starts from, that thread itself only when it
  is the only one, and the idle thread when there is none.\<close>

theorem rr_next_in_order:
  fixes cur prev low s c
  defines "start \<equiv> (if cur = IDLE_THREAD c s then (if prev \<noteq> IDLE_THREAD c s then prev else low) else cur)"
  assumes "slice_ok c low high prev cur s"
  shows "pok_sched_part_rr c low high prev cur s = Some
    (if (pos64 (t_remaining_time_capacity (pok_threads s cur)) \<or>
         t_time_capacity (pok_threads s cur) = INFINITE_TIME_VALUE) \<and>
        runnable_on s cur \<and> cur \<noteq> IDLE_THREAD c s
     then cur
     else case find (runnable_on s) (circ_rest low high start) of
            Some e \<Rightarrow> e
          | None \<Rightarrow> if runnable_on s start then start else IDLE_THREAD c s, s)"
proof -
  have r: "low \<le> start" "start < high" using assms by (auto simp: slice_ok_def)
  have "e \<noteq> start \<or> runnable_on s e" if "find (runnable_on s) (circ_rest low high start) = Some e" for e
    using find_SomeD [OF that] by simp
  then show ?thesis using circ_seek_order [OF r, of "runnable_on s"]
    by (auto simp: pok_sched_part_rr_def Let_def start_def [symmetric] split: option.splits)
qed

lemma rr_next_in_order_witness:
  "pok_sched_part_rr demo_config 0 3 6 1 demo_state = Some (1, demo_state)"
  by (subst rr_next_in_order [OF demo_slice]) (simp add: demo_thread_def pos64_def)

text \<open>The weighted round robin starves a thread that is alone: when the idle thread runs, the only runnable
  thread of the partition is the one that ran last, and the partition has more than one thread, the
  scheduler elects the idle thread, because its scan stops before it looks at the thread it starts
  from.\<close>

theorem wrr_starves_last_thread:
  assumes "slice_ok c low high prev (IDLE_THREAD c s) s" "prev \<noteq> IDLE_THREAD c s" "Suc low < high"
    and "\<not> pos64 (t_remaining_time_capacity (pok_threads s (IDLE_THREAD c s)))"
    and "\<And>i. low \<le> i \<Longrightarrow> i < high \<Longrightarrow> i \<noteq> prev \<Longrightarrow> \<not> runnable_on s i"
  shows "\<exists>s'. pok_sched_part_wrr c low high prev (IDLE_THREAD c s) s = Some (IDLE_THREAD c s, s')"
proof -
  have "\<not> may_continue (tick_timeslice (IDLE_THREAD c s) s) (IDLE_THREAD c s)"
    using assms(4) by (simp add: may_continue_def)
  then show ?thesis using wrr_only_prev_runnable [OF assms(1) refl assms(2,3) _ assms(5)] by blast
qed

lemma wrr_starves_last_thread_witness:
  "\<exists>s s'. runnable_on s 2 \<and> pok_sched_part_wrr demo_config 0 3 2 6 s = Some (6, s')"
proof -
  define s where "s = upd_thread 1 (\<lambda>th. th\<lparr>t_state := POK_STATE_WAITING\<rparr>) demo_state"
  have id: "IDLE_THREAD demo_config s = 6" by (simp add: s_def upd_thread_def IDLE_THREAD_def)
  have run: "runnable_on s i = (i \<notin> {0, 1, 3, 7})" for i
    by (simp add: s_def runnable_on_def upd_thread_def demo_thread_def)
  have ok: "slice_ok demo_config 0 3 2 (IDLE_THREAD demo_config s) s" by (simp add: slice_ok_def id)
  have b: "\<not> pos64 (t_remaining_time_capacity (pok_threads s (IDLE_THREAD demo_config s)))"
    by (simp add: s_def upd_thread_def demo_thread_def IDLE_THREAD_def)
  have "\<exists>s'. pok_sched_part_wrr demo_config 0 3 2 (IDLE_THREAD demo_config s) s = Some (IDLE_THREAD demo_config s, s')"
    by (rule wrr_starves_last_thread [OF ok _ _ b]) (auto simp: run id)
  moreover have "runnable_on s 2" by (simp add: run)
  ultimately show ?thesis unfolding id by blast
qed

text \<open>In the multi-level scheduler a thread that exhausts its slice above the lowest level loses one level and
  gets a slice of 128 shifted right by the new level; at level zero the byte wraps to 255 and the shift
  by it is undefined, so the call does not return a result.\<close>

theorem mlfq_exhausted_slice:
  assumes "t_remaining_timeslice (pok_threads s cur) = 1" "cur \<noteq> IDLE_THREAD c s"
    and "t_mlfq_level (pok_threads s cur) \<le> 7"
  shows "if t_mlfq_level (pok_threads s cur) = 0
    then pok_sched_part_mlfq c low high prev cur s = None
    else \<exists>s1. mlfq_demote cur (tick_timeslice cur s) = Some s1 \<and>
      t_mlfq_level (pok_threads s1 cur) = t_mlfq_level (pok_threads s cur) - 1 \<and>
      t_remaining_timeslice (pok_threads s1 cur) =
        drop_bit (unat (t_mlfq_level (pok_threads s cur)) - 1) 128 \<and>
      (\<forall>e s'. pok_sched_part_mlfq c low high prev cur s = Some (e, s') \<longrightarrow> s' = s1)"
proof -
  have t: "t_mlfq_level (pok_threads (tick_timeslice cur s) cur) = t_mlfq_level (pok_threads s cur)"
    "t_remaining_timeslice (pok_threads (tick_timeslice cur s) cur) = 0"
    using assms(1) by (simp_all add: tick_timeslice_def upd_thread_def)
  have nc: "\<not> may_continue (tick_timeslice cur s) cur" using t by (simp add: may_continue_def)
  show ?thesis
  proof (cases "t_mlfq_level (pok_threads s cur) = 0")
    case True
    then have "mlfq_demote cur (tick_timeslice cur s) = None"
      by (simp add: mlfq_demote_def t Let_def unsigned_minus_1_eq_mask mask_eq_exp_minus_1)
    then show ?thesis using True nc t assms(2) by (simp add: pok_sched_part_mlfq_def Let_def)
  next
    case False
    then have u: "unat (t_mlfq_level (pok_threads s cur) - 1) = unat (t_mlfq_level (pok_threads s cur)) - 1"
      by (simp add: unat_minus_one)
    have "unat (t_mlfq_level (pok_threads s cur)) \<le> 7"
      using assms(3) by (simp add: word_le_nat_alt)
    with u have lt: "\<not> 32 \<le> unat (t_mlfq_level (pok_threads s cur) - 1)" by simp
    define s1 where "s1 = upd_thread cur (\<lambda>th. th\<lparr>t_remaining_timeslice :=
        drop_bit (unat (t_mlfq_level (pok_threads s cur) - 1)) (push_bit 7 1),
        t_mlfq_level := t_mlfq_level (pok_threads s cur) - 1\<rparr>) (tick_timeslice cur s)"
    have d: "mlfq_demote cur (tick_timeslice cur s) = Some s1"
      using lt by (simp add: mlfq_demote_def t Let_def s1_def)
    have s1: "t_mlfq_level (pok_threads s1 cur) = t_mlfq_level (pok_threads s cur) - 1"
      "t_remaining_timeslice (pok_threads s1 cur) = drop_bit (unat (t_mlfq_level (pok_threads s cur)) - 1) 128"
      by (simp_all add: s1_def upd_thread_def u)
    have "s' = s1" if "pok_sched_part_mlfq c low high prev cur s = Some (e, s')" for e s'
      using that nc t assms(2) d
      by (auto simp: pok_sched_part_mlfq_def Let_def split: Option.bind_splits if_splits)
    then show ?thesis using False d s1 by auto
  qed
qed

lemma mlfq_exhausted_slice_witness:
  "pok_sched_part_mlfq demo_config 0 3 6 1
     (upd_thread 1 (\<lambda>th. th\<lparr>t_remaining_timeslice := 1, t_mlfq_level := 0\<rparr>) demo_state) = None"
  using mlfq_exhausted_slice [of "upd_thread 1 (\<lambda>th. th\<lparr>t_remaining_timeslice := 1, t_mlfq_level := 0\<rparr>) demo_state" 1
    demo_config 0 3 6]
  by (simp add: upd_thread_def IDLE_THREAD_def)

end
