(* ===== verification/Pok_Multiproc.thy ===== *)
theory Pok_Multiproc
  imports Pok_Demo
begin

text \<open>
  \<open>kernel/core/multiprocessing.c\<close>: the translation between a processor's number inside a partition and
  its number in the machine, over the partition's affinity mask. The assertions of the code are part
  of the model: a number the mask does not hold gives \<open>None\<close>.
\<close>

subsection \<open>Processor numbers\<close>

function proc_real_id_loop :: "u64 \<Rightarrow> nat \<Rightarrow> nat \<Rightarrow> nat \<Rightarrow> nat option" where
  "proc_real_id_loop tmp partition_proc_id proc counter =
     (if counter \<le> partition_proc_id
      then (if proc + 1 \<le> 64
            then proc_real_id_loop tmp partition_proc_id (proc + 1) (counter + of_bool (bit tmp proc))
            else None)
      else Some (proc - 1))"
  by auto
termination by (relation "measure (\<lambda>(tmp, k, proc, counter). 64 - proc)") auto

declare proc_real_id_loop.simps [simp del]

definition get_proc_real_id :: "pok_config \<Rightarrow> nat \<Rightarrow> nat \<Rightarrow> nat option" where
  "get_proc_real_id c pid partition_proc_id =
     proc_real_id_loop (partition_processor_affinity c pid) partition_proc_id 0 0"

definition get_default_proc_real_id :: "pok_config \<Rightarrow> nat \<Rightarrow> nat option" where
  "get_default_proc_real_id c pid = get_proc_real_id c pid 0"

definition get_proc_partition_id :: "pok_config \<Rightarrow> nat \<Rightarrow> nat \<Rightarrow> nat option" where
  "get_proc_partition_id c pid proc_real_id = do {
     let tmp = partition_processor_affinity c pid;
     kassert (bit tmp proc_real_id);
     Some (fold (\<lambda>i proc. proc + of_bool (bit tmp i)) [0..<proc_real_id] 0)
   }"

text \<open>The number of processors of the mask below \<open>p\<close>.\<close>

definition procs_below :: "u64 \<Rightarrow> nat \<Rightarrow> nat" where
  "procs_below tmp p = length (filter (bit tmp) [0..<p])"

lemma procs_below_simps [simp]:
  "procs_below tmp 0 = 0"
  "procs_below tmp (Suc p) = procs_below tmp p + of_bool (bit tmp p)"
  by (simp_all add: procs_below_def)

lemma procs_below_mono: "p \<le> q \<Longrightarrow> procs_below tmp p \<le> procs_below tmp q"
  by (induction q) (auto simp: le_Suc_eq)

lemma procs_below_strict: "p < q \<Longrightarrow> bit tmp p \<Longrightarrow> procs_below tmp p < procs_below tmp q"
  using procs_below_mono [of "Suc p" q tmp] by simp

lemma fold_procs_below: "fold (\<lambda>i proc. proc + of_bool (bit tmp i)) [0..<p] 0 = procs_below tmp p"
  by (induction p) simp_all

lemma get_proc_partition_id_eq:
  "get_proc_partition_id c pid p =
     (if bit (partition_processor_affinity c pid) p
      then Some (procs_below (partition_processor_affinity c pid) p) else None)"
  by (simp add: get_proc_partition_id_def fold_procs_below Let_def)

lemma proc_real_id_loop_finds:
  assumes "bit tmp p" "procs_below tmp p = k" "proc \<le> p"
  shows "proc_real_id_loop tmp k proc (procs_below tmp proc) = Some p"
  using assms(3)
proof (induction "p - proc" arbitrary: proc)
  case 0
  then have "proc = p" by simp
  moreover have "p < 64" using bit_imp_le_length [OF assms(1)] by simp
  ultimately show ?case using assms(1,2)
    by (simp add: proc_real_id_loop.simps [of tmp k p] proc_real_id_loop.simps [of tmp k "Suc p"])
next
  case (Suc n)
  then have lt: "proc < p" by simp
  have "p < 64" using bit_imp_le_length [OF assms(1)] by simp
  have "procs_below tmp proc \<le> k" using procs_below_mono [of proc p tmp] lt assms(2) by simp
  moreover have "proc_real_id_loop tmp k (Suc proc) (procs_below tmp (Suc proc)) = Some p"
    using Suc.hyps(1) [of "Suc proc"] Suc.hyps(2) lt by simp
  ultimately show ?case using lt \<open>p < 64\<close> by (simp add: proc_real_id_loop.simps [of tmp k proc])
qed

lemma proc_real_id_loop_result:
  assumes "proc_real_id_loop tmp k proc counter = Some p" "counter = procs_below tmp proc"
    and "counter \<le> k \<or> proc > 0 \<and> bit tmp (proc - 1) \<and> procs_below tmp (proc - 1) = k"
  shows "bit tmp p \<and> procs_below tmp p = k"
  using assms
proof (induction tmp k proc counter rule: proc_real_id_loop.induct)
  case (1 tmp k proc counter)
  show ?case
  proof (cases "counter \<le> k")
    case True
    then have "proc + 1 \<le> 64" and r: "proc_real_id_loop tmp k (proc + 1) (counter + of_bool (bit tmp proc)) = Some p"
      using "1.prems"(1) by (auto simp: proc_real_id_loop.simps [of tmp k proc counter] split: if_splits)
    show ?thesis
      by (rule "1.IH" [OF True \<open>proc + 1 \<le> 64\<close> r]) (use True "1.prems"(2) in auto)
  next
    case False
    then have "p = proc - 1" using "1.prems"(1) by (simp add: proc_real_id_loop.simps [of tmp k proc counter])
    then show ?thesis using "1.prems"(3) False by auto
  qed
qed

text \<open>The two processor numberings are inverse to each other: the machine number of a partition's k-th
  processor is set in its affinity mask and is translated back to k, and the number a partition gives
  to one of its processors leads back to that processor.\<close>

theorem proc_id_roundtrip:
  "(get_proc_real_id c pid k = Some p) =
     (bit (partition_processor_affinity c pid) p \<and> get_proc_partition_id c pid p = Some k)"
proof
  assume "get_proc_real_id c pid k = Some p"
  then show "bit (partition_processor_affinity c pid) p \<and> get_proc_partition_id c pid p = Some k"
    using proc_real_id_loop_result [of "partition_processor_affinity c pid" k 0 0 p]
    by (simp add: get_proc_real_id_def get_proc_partition_id_eq)
next
  assume "bit (partition_processor_affinity c pid) p \<and> get_proc_partition_id c pid p = Some k"
  then have "bit (partition_processor_affinity c pid) p" "procs_below (partition_processor_affinity c pid) p = k"
    by (auto simp: get_proc_partition_id_eq)
  from proc_real_id_loop_finds [OF this, of 0] show "get_proc_real_id c pid k = Some p"
    by (simp add: get_proc_real_id_def)
qed

lemma get_proc_real_id_first:
  "bit (partition_processor_affinity c pid) 0 \<Longrightarrow> get_proc_real_id c pid 0 = Some 0"
  using proc_real_id_loop_finds [of _ 0 0 0] by (simp add: get_proc_real_id_def)

end
