(* ===== verification/Pok_Libc.thy ===== *)
theory Pok_Libc
  imports Pok_Demo
begin

text \<open>
  \<open>kernel/libc\<close>: the 64-bit division the compiler calls on a 32-bit machine, and the string and memory
  routines. Memory seen through a pointer is a function from the offset to the byte, as the routines
  read and write through pointers they advance; \<open>char\<close> is signed.
\<close>

subsection \<open>Division\<close>

text \<open>The first loop shifts the divisor up until its top bit is set, the second subtracts downwards.\<close>

partial_function (option) udiv_shift_up :: "u64 \<Rightarrow> u64 \<Rightarrow> (u64 \<times> u64) option" where
  "udiv_shift_up den qbit =
     (if sint den \<ge> 0 then udiv_shift_up (push_bit 1 den) (push_bit 1 qbit) else Some (den, qbit))"

partial_function (option) udiv_subtract :: "u64 \<Rightarrow> u64 \<Rightarrow> u64 \<Rightarrow> u64 \<Rightarrow> u64 option" where
  "udiv_subtract num den qbit quot =
     (if qbit \<noteq> 0
      then (if den \<le> num
            then udiv_subtract (num - den) (drop_bit 1 den) (drop_bit 1 qbit) (quot + qbit)
            else udiv_subtract num (drop_bit 1 den) (drop_bit 1 qbit) quot)
      else Some quot)"

text \<open>On a zero divisor \<open>pok_division_by_zero_error\<close> raises the processor's divide error and is not left.\<close>

definition udivdi3 :: "u64 \<Rightarrow> u64 \<Rightarrow> u64 option" where
  "udivdi3 num den = (if den = 0 then None else do {
     (den', qbit) \<leftarrow> udiv_shift_up den 1;
     udiv_subtract num den' qbit 0
   })"

definition umoddi3 :: "u64 \<Rightarrow> u64 \<Rightarrow> u64 option" where
  "umoddi3 num den = do { q \<leftarrow> udivdi3 num den; Some (num - q * den) }"

lemma unat_lt_64: "unat (w :: u64) < 2 ^ 64"
proof -
  have "unat w < 2 ^ LENGTH(64)" by (rule unsigned_less)
  then show ?thesis by simp
qed

lemma sint_nonneg_iff: "(0 \<le> sint (w :: u64)) = (unat w < 2 ^ 63)"
proof -
  have "(sint w < 0) = bit w 63" using bit_last_iff [of w] by simp
  also have "\<dots> = bit (unat w) 63" by (simp add: bit_unsigned_iff)
  also have "\<dots> = odd (unat w div 2 ^ 63)" by (rule bit_iff_odd)
  also have "\<dots> = (2 ^ 63 \<le> unat w)"
  proof -
    have "unat w < 2 ^ 64" using unat_lt_64 [of w] by simp
    then have "unat w div 2 ^ 63 < 2" by (simp add: less_mult_imp_div_less)
    then have "unat w div 2 ^ 63 = 0 \<or> unat w div 2 ^ 63 = 1" by linarith
    then show ?thesis by (auto simp: div_eq_0_iff)
  qed
  finally show ?thesis by linarith
qed

lemma unat_double: "unat (w :: u64) < 2 ^ 63 \<Longrightarrow> unat (push_bit 1 w) = 2 * unat w"
  by (simp add: push_bit_eq_mult unat_word_ariths)

lemma udiv_shift_up_spec:
  assumes "unat den = d * 2 ^ k" "unat qbit = 2 ^ k" "d > 0" "k < 64"
  shows "\<exists>den' qbit' k'. udiv_shift_up den qbit = Some (den', qbit') \<and> k' < 64 \<and> unat den' = d * 2 ^ k' \<and>
    unat qbit' = 2 ^ k' \<and> 2 ^ 64 \<le> d * 2 ^ Suc k'"
  using assms
proof (induction "64 - k" arbitrary: k den qbit)
  case 0
  then show ?case by simp
next
  case (Suc n)
  show ?case
  proof (cases "unat den < 2 ^ 63")
    case False
    then have "udiv_shift_up den qbit = Some (den, qbit)"
      by (subst udiv_shift_up.simps) (simp add: sint_nonneg_iff)
    moreover have "2 ^ 64 \<le> d * 2 ^ Suc k" using False Suc.prems(1) by simp
    ultimately show ?thesis using Suc.prems by blast
  next
    case True
    have "2 ^ k \<le> d * 2 ^ k" using Suc.prems(3) by simp
    then have "2 ^ k < (2 :: nat) ^ 63" using True Suc.prems(1) by linarith
    then have k: "k < 63" by (rule power_less_imp_less_exp [rotated]) simp
    have "unat (push_bit 1 den) = d * 2 ^ Suc k" "unat (push_bit 1 qbit) = 2 ^ Suc k"
      using True unat_double Suc.prems(1,2) \<open>2 ^ k < 2 ^ 63\<close> by simp_all
    from Suc.hyps(1) [OF _ this Suc.prems(3)] k Suc.hyps(2)
    have "\<exists>den' qbit' k'. udiv_shift_up (push_bit 1 den) (push_bit 1 qbit) = Some (den', qbit') \<and> k' < 64 \<and>
      unat den' = d * 2 ^ k' \<and> unat qbit' = 2 ^ k' \<and> 2 ^ 64 \<le> d * 2 ^ Suc k'" by simp
    then show ?thesis using True by (subst udiv_shift_up.simps) (simp add: sint_nonneg_iff)
  qed
qed

lemma unat_half: "unat (drop_bit 1 (w :: u64)) = unat w div 2"
  by (simp add: drop_bit_eq_div unat_div)

lemma udiv_subtract_done: "udiv_subtract num den 0 quot = Some quot"
  by (subst udiv_subtract.simps) simp

lemma udiv_subtract_spec:
  assumes "unat den = d * 2 ^ k" "unat qbit = 2 ^ k" "unat num < d * 2 ^ Suc k" "d > 0"
  shows "udiv_subtract num den qbit quot = Some (quot + of_nat (unat num div d))"
  using assms
proof (induction k arbitrary: num den qbit quot)
  case 0
  have q: "qbit \<noteq> 0" "drop_bit 1 qbit = 0"
    using 0(2) unat_half [of qbit] by (auto simp: unat_eq_0 [symmetric])
  have q1: "qbit = 1" using 0(2) by (metis power_0 unat_1 word_unat_eq_iff)
  show ?case
  proof (cases "den \<le> num")
    case True
    then have le: "d \<le> unat num" using 0(1) by (simp add: word_le_nat_alt)
    then have "unat num div d = 1" using 0(3) by (simp add: div_nat_eqI)
    then show ?thesis using True q by (subst udiv_subtract.simps) (simp add: udiv_subtract_done q1)
  next
    case False
    then have "unat num div d = 0" using 0(1) by (simp add: word_le_nat_alt)
    then show ?thesis using False q by (subst udiv_subtract.simps) (simp add: udiv_subtract_done)
  qed
next
  case (Suc k)
  have q: "qbit \<noteq> 0" using Suc.prems(2) by (metis power_not_zero unat_0 zero_neq_numeral)
  have h: "unat (drop_bit 1 den) = d * 2 ^ k" "unat (drop_bit 1 qbit) = 2 ^ k"
    using Suc.prems(1,2) unat_half by simp_all
  show ?case
  proof (cases "den \<le> num")
    case True
    then have le: "d * 2 ^ Suc k \<le> unat num" using Suc.prems(1) by (simp add: word_le_nat_alt)
    have n: "unat (num - den) = unat num - d * 2 ^ Suc k"
      using True Suc.prems(1) by (simp add: unat_sub word_le_nat_alt)
    have "unat num div d = unat (num - den) div d + 2 ^ Suc k"
      using n le Suc.prems(4) by (metis add.commute div_mult_self2 le_add_diff_inverse2 not_gr_zero)
    moreover have "unat (num - den) < d * 2 ^ Suc k" using n Suc.prems(3) by simp
    note Suc.IH [OF h this Suc.prems(4), of "quot + qbit"]
    moreover have "qbit = 2 ^ Suc k" 
    proof -
      have "qbit = of_nat (unat qbit)" by simp
      then show ?thesis unfolding Suc.prems(2) by simp
    qed
    ultimately show ?thesis using True q
      by (subst udiv_subtract.simps) (simp add: algebra_simps)
  next
    case False
    then have "unat num < d * 2 ^ Suc k" using Suc.prems(1) by (simp add: word_le_nat_alt)
    from Suc.IH [OF h this Suc.prems(4), of quot] False q show ?thesis
      by (subst udiv_subtract.simps) simp
  qed
qed

lemma udivdi3_div: "den \<noteq> 0 \<Longrightarrow> udivdi3 num den = Some (num div den)"
proof -
  assume ne: "den \<noteq> 0"
  obtain den' qbit k where k: "udiv_shift_up den 1 = Some (den', qbit)" "unat den' = unat den * 2 ^ k"
    "unat qbit = 2 ^ k" "2 ^ 64 \<le> unat den * 2 ^ Suc k"
    using udiv_shift_up_spec [of den "unat den" 0 1] ne by (auto simp: unat_gt_0)
  have "unat num < unat den * 2 ^ Suc k" using k(4) unat_lt_64 [of num] by simp
  from udiv_subtract_spec [OF k(2,3) this, of 0] ne
  have "udiv_subtract num den' qbit 0 = Some (of_nat (unat num div unat den))" by (simp add: unat_gt_0)
  then show "udivdi3 num den = Some (num div den)"
    using ne k(1) by (simp add: udivdi3_def unat_div [symmetric])
qed

text \<open>C37: The shift-and-subtract division of the kernel's C library returns the quotient and the remainder of the
  64-bit unsigned division for every dividend and every divisor but zero, on which it never returns.\<close>

theorem udivdi3_umoddi3_correct:
  "udivdi3 num den = (if den = 0 then None else Some (num div den)) \<and>
   umoddi3 num den = (if den = 0 then None else Some (num mod den))"
proof
  show u: "udivdi3 num den = (if den = 0 then None else Some (num div den))"
    using udivdi3_div by (simp add: udivdi3_def)
  show "umoddi3 num den = (if den = 0 then None else Some (num mod den))"
    by (simp add: umoddi3_def u minus_div_mult_eq_mod)
qed


subsection \<open>Strings and memory\<close>

text \<open>The comparison loops, from index \<open>i\<close>; a string that is not terminated is scanned forever.\<close>

partial_function (option) strcmp_loop :: "(nat \<Rightarrow> u8) \<Rightarrow> (nat \<Rightarrow> u8) \<Rightarrow> nat \<Rightarrow> int option" where
  "strcmp_loop s1 s2 i =
     (if s1 i = 0 \<and> s2 i = 0 then Some 0
      else if sint (s1 i) < sint (s2 i) then Some (- 1)
      else if sint (s1 i) > sint (s2 i) then Some 1
      else strcmp_loop s1 s2 (i + 1))"

definition pok_strcmp :: "(nat \<Rightarrow> u8) \<Rightarrow> (nat \<Rightarrow> u8) \<Rightarrow> int option" where
  "pok_strcmp s1 s2 = strcmp_loop s1 s2 0"

fun strncmp_loop :: "(nat \<Rightarrow> u8) \<Rightarrow> (nat \<Rightarrow> u8) \<Rightarrow> nat list \<Rightarrow> int" where
  "strncmp_loop s1 s2 [] = 0"
| "strncmp_loop s1 s2 (i # is) =
     (if s1 i = 0 \<and> s2 i = 0 then 0
      else if sint (s1 i) < sint (s2 i) then - 1
      else if sint (s1 i) > sint (s2 i) then 1
      else strncmp_loop s1 s2 is)"

definition pok_strncmp :: "(nat \<Rightarrow> u8) \<Rightarrow> (nat \<Rightarrow> u8) \<Rightarrow> nat \<Rightarrow> int" where
  "pok_strncmp s1 s2 n = strncmp_loop s1 s2 [0..<n]"

partial_function (option) strlen_loop :: "(nat \<Rightarrow> u8) \<Rightarrow> nat \<Rightarrow> nat option" where
  "strlen_loop str i = (if str i \<noteq> 0 then strlen_loop str (i + 1) else Some i)"

definition pok_strlen :: "(nat \<Rightarrow> u8) \<Rightarrow> nat option" where
  "pok_strlen str = strlen_loop str 0"

text \<open>\<open>memcpy\<close> and \<open>memset\<close> on a memory, at an offset of the destination and of the source.\<close>

definition memcpy :: "(nat \<Rightarrow> u8) \<Rightarrow> nat \<Rightarrow> (nat \<Rightarrow> u8) \<Rightarrow> nat \<Rightarrow> nat \<Rightarrow> (nat \<Rightarrow> u8)" where
  "memcpy dst doff src soff n =
     fst (fold (\<lambda>_ (mem, k). (mem(doff + k := src (soff + k)), k + 1)) [0..<n] (dst, 0))"

definition memset :: "(nat \<Rightarrow> u8) \<Rightarrow> nat \<Rightarrow> u8 \<Rightarrow> nat \<Rightarrow> (nat \<Rightarrow> u8)" where
  "memset dst doff v n = fst (fold (\<lambda>_ (mem, k). (mem(doff + k := v), k + 1)) [0..<n] (dst, 0))"

lemma memcpy_apply [simp]:
  "memcpy dst doff src soff n i = (if doff \<le> i \<and> i < doff + n then src (soff + (i - doff)) else dst i)"
proof -
  have "fold (\<lambda>_ (mem, k). (mem(doff + k := src (soff + k)), k + 1)) [0..<n] (dst, 0) =
      (\<lambda>i. if doff \<le> i \<and> i < doff + n then src (soff + (i - doff)) else dst i, n)"
    by (induction n) (auto simp: fun_eq_iff)
  then show ?thesis by (simp add: memcpy_def)
qed

lemma memset_apply [simp]:
  "memset dst doff v n i = (if doff \<le> i \<and> i < doff + n then v else dst i)"
proof -
  have "fold (\<lambda>_ (mem, k). (mem(doff + k := v), k + 1)) [0..<n] (dst, 0) =
      (\<lambda>i. if doff \<le> i \<and> i < doff + n then v else dst i, n)"
    by (induction n) (auto simp: fun_eq_iff)
  then show ?thesis by (simp add: memset_def)
qed

text \<open>\<open>str\<close> is a string of length \<open>n\<close>: its first zero byte is at \<open>n\<close>.\<close>

definition cstring :: "(nat \<Rightarrow> u8) \<Rightarrow> nat \<Rightarrow> bool" where
  "cstring str n = (str n = 0 \<and> (\<forall>i<n. str i \<noteq> 0))"

lemma strlen_loop_length: "cstring str n \<Longrightarrow> i \<le> n \<Longrightarrow> strlen_loop str i = Some n"
proof (induction "n - i" arbitrary: i)
  case 0
  then show ?case by (subst strlen_loop.simps) (simp add: cstring_def)
next
  case (Suc m)
  then have "strlen_loop str (i + 1) = Some n" "i < n" by simp_all
  then show ?case using Suc.prems(1) by (subst strlen_loop.simps) (simp add: cstring_def)
qed

text \<open>The comparison of the bytes up to the first difference or the common end.\<close>

lemma strcmp_loop_equal:
  assumes "cstring s1 n" "\<forall>j\<le>n. s1 j = s2 j" "i \<le> n"
  shows "strcmp_loop s1 s2 i = Some 0"
  using assms(3)
proof (induction "n - i" arbitrary: i)
  case 0
  then show ?case using assms(1,2) by (subst strcmp_loop.simps) (simp add: cstring_def)
next
  case (Suc m)
  then have "strcmp_loop s1 s2 (i + 1) = Some 0" "s1 i = s2 i" using assms(2) by simp_all
  then show ?case by (subst strcmp_loop.simps) simp
qed

lemma strcmp_loop_differ:
  assumes "s1 d \<noteq> s2 d" "\<forall>j<d. s1 j = s2 j \<and> s1 j \<noteq> 0" "i \<le> d"
  shows "strcmp_loop s1 s2 i = Some (if sint (s1 d) < sint (s2 d) then - 1 else 1)"
  using assms(3)
proof (induction "d - i" arbitrary: i)
  case 0
  then have "sint (s1 i) \<noteq> sint (s2 i)" "i = d" using assms(1) by (auto dest: signed_word_eqI)
  then show ?case using assms(1) by (subst strcmp_loop.simps) auto
next
  case (Suc m)
  then have "i < d" by simp
  then have "strcmp_loop s1 s2 (i + 1) = Some (if sint (s1 d) < sint (s2 d) then - 1 else 1)"
    "s1 i = s2 i \<and> s1 i \<noteq> 0" using assms(2) Suc.hyps by auto
  then show ?case by (subst strcmp_loop.simps) auto
qed

lemma first_difference:
  fixes s1 s2 :: "nat \<Rightarrow> u8"
  assumes "cstring s1 n" "cstring s2 m" "\<not> (n = m \<and> (\<forall>j<n. s1 j = s2 j))"
  obtains d where "s1 d \<noteq> s2 d" "\<forall>j<d. s1 j = s2 j \<and> s1 j \<noteq> 0" "d \<le> n" "d \<le> m"
proof -
  have ex: "\<exists>d. s1 d \<noteq> s2 d \<and> d \<le> n \<and> d \<le> m"
  proof (rule ccontr)
    assume "\<not> ?thesis"
    then have eq: "s1 d = s2 d" if "d \<le> n" "d \<le> m" for d using that by blast
    have "n = m" using assms(1,2) eq [of n] eq [of m] by (metis cstring_def le_eq_less_or_eq nat_le_linear)
    then show False using assms(3) eq by simp
  qed
  define d where "d = (LEAST d. s1 d \<noteq> s2 d \<and> d \<le> n \<and> d \<le> m)"
  have d: "s1 d \<noteq> s2 d" "d \<le> n" "d \<le> m" using LeastI_ex [OF ex] by (simp_all add: d_def)
  have "s1 j = s2 j \<and> s1 j \<noteq> 0" if "j < d" for j
    using that not_less_Least [of j "\<lambda>d. s1 d \<noteq> s2 d \<and> d \<le> n \<and> d \<le> m"] d assms(1)
    by (auto simp: d_def [symmetric] cstring_def)
  then show thesis using that d by blast
qed

text \<open>\<open>strcmp\<close> on two terminated strings returns, its result is zero exactly when the strings are equal, and
  \<open>strlen\<close> returns the number of bytes before the terminator.\<close>

theorem strcmp_strlen_correct:
  assumes "cstring s1 n" "cstring s2 m"
  shows "(\<exists>r. pok_strcmp s1 s2 = Some r \<and> (r = 0 \<longleftrightarrow> n = m \<and> (\<forall>j<n. s1 j = s2 j))) \<and>
    pok_strlen s1 = Some n"
proof
  show "pok_strlen s1 = Some n" using strlen_loop_length [OF assms(1)] by (simp add: pok_strlen_def)
  show "\<exists>r. pok_strcmp s1 s2 = Some r \<and> (r = 0 \<longleftrightarrow> n = m \<and> (\<forall>j<n. s1 j = s2 j))"
  proof (cases "n = m \<and> (\<forall>j<n. s1 j = s2 j)")
    case True
    then have "\<forall>j\<le>n. s1 j = s2 j" using assms by (auto simp: cstring_def le_less)
    from strcmp_loop_equal [OF assms(1) this] True show ?thesis by (simp add: pok_strcmp_def)
  next
    case False
    from first_difference [OF assms False] obtain d where
      d: "s1 d \<noteq> s2 d" "\<forall>j<d. s1 j = s2 j \<and> s1 j \<noteq> 0" by blast
    from strcmp_loop_differ [OF this, of 0] False show ?thesis by (auto simp: pok_strcmp_def)
  qed
qed

lemma strcmp_strlen_correct_witness:
  "\<exists>r. pok_strcmp (\<lambda>i. if i = 0 then 80 else 0) (\<lambda>_. 0) = Some r \<and> r \<noteq> 0"
  using strcmp_strlen_correct [of "\<lambda>i. if i = 0 then 80 else 0" 1 "\<lambda>_. 0" 0]
  by (fastforce simp: cstring_def)

end
