(* ===== verification/Pok_Fifo.thy ===== *)
theory Pok_Fifo
  imports Pok_Demo "HOL-Library.Multiset"
begin

text \<open>
  The queues of waiting threads of \<open>kernel/core/lockobj.c\<close>: a ring buffer of \<open>NB_THREADS\<close> slots with its
  head, the index after its last element and a flag for emptiness. The operations are the code's; they
  are shown to refine operations on the list of the waiting threads, which is what the lock objects
  rely on (the locale \<open>wait_queue\<close>).
\<close>

subsection \<open>The code\<close>

definition pok_lockobj_fifo_init :: "pok_lockobj_fifo_t \<Rightarrow> pok_lockobj_fifo_t" where
  "pok_lockobj_fifo_init f = f\<lparr>f_head := 0, f_last := 0, f_is_empty := True\<rparr>"

definition pok_lockobj_get_head :: "pok_lockobj_fifo_t \<Rightarrow> nat" where
  "pok_lockobj_get_head f = f_buffer f (f_head f)"

definition pok_lockobj_fifo_is_empty :: "pok_lockobj_fifo_t \<Rightarrow> bool" where
  "pok_lockobj_fifo_is_empty f = f_is_empty f"

text \<open>\<open>while (i != last && priority[thread] <= priority[buffer[i]]) i = (i + 1) % N\<close>\<close>

partial_function (option) fifo_seek :: "nat \<Rightarrow> nat \<Rightarrow> (nat \<Rightarrow> bool) \<Rightarrow> nat \<Rightarrow> nat option" where
  "fifo_seek N end_i skip i =
     (if i \<noteq> end_i \<and> skip i then fifo_seek N end_i skip ((i + 1) mod N) else Some i)"

text \<open>\<open>for (j = last; j != i; j = j ? j - 1 : N - 1) buffer[j] = buffer[j ? j - 1 : N - 1]\<close>\<close>

definition ring_prev :: "nat \<Rightarrow> nat \<Rightarrow> nat" where
  "ring_prev N j = (if j \<noteq> 0 then j - 1 else N - 1)"

partial_function (option) fifo_shift_up :: "nat \<Rightarrow> nat \<Rightarrow> nat \<Rightarrow> (nat \<Rightarrow> nat) \<Rightarrow> (nat \<Rightarrow> nat) option" where
  "fifo_shift_up N i j buf =
     (if j \<noteq> i then fifo_shift_up N i (ring_prev N j) (buf(j := buf (ring_prev N j))) else Some buf)"

definition pok_lockobj_enqueue :: "pok_config \<Rightarrow> kstate \<Rightarrow> pok_lockobj_fifo_t \<Rightarrow> nat \<Rightarrow>
    pok_queueing_discipline_t \<Rightarrow> (pok_ret_t \<times> pok_lockobj_fifo_t) option" where
  "pok_lockobj_enqueue c s f thread queueing_discipline =
     (case queueing_discipline of
        POK_QUEUEING_DISCIPLINE_FIFO \<Rightarrow>
          if \<not> f_is_empty f \<and> f_last f = f_head f then Some (POK_ERRNO_FULL, f)
          else Some (POK_ERRNO_OK,
            f\<lparr>f_buffer := (f_buffer f)(f_last f := thread),
              f_last := (f_last f + 1) mod NB_THREADS c, f_is_empty := False\<rparr>)
      | POK_QUEUEING_DISCIPLINE_PRIORITY \<Rightarrow> do {
          i \<leftarrow> fifo_seek (NB_THREADS c) (f_last f)
                (\<lambda>i. t_priority (pok_threads s thread) \<le> t_priority (pok_threads s (f_buffer f i))) (f_head f);
          buf \<leftarrow> fifo_shift_up (NB_THREADS c) i (f_last f) (f_buffer f);
          Some (POK_ERRNO_OK,
            f\<lparr>f_buffer := buf(i := thread), f_last := (f_last f + 1) mod NB_THREADS c, f_is_empty := False\<rparr>)
        }
      | POK_QUEUEING_DISCIPLINE_OTHER \<Rightarrow> Some (POK_ERRNO_PARAM, f))"

definition pok_lockobj_dequeue ::
  "pok_config \<Rightarrow> pok_lockobj_fifo_t \<Rightarrow> pok_ret_t \<times> pok_lockobj_fifo_t" where
  "pok_lockobj_dequeue c f =
     (if f_is_empty f then (POK_ERRNO_EMPTY, f)
      else let head = (f_head f + 1) mod NB_THREADS c
           in (POK_ERRNO_OK, f\<lparr>f_head := head, f_is_empty := (f_last f = head \<or> f_is_empty f)\<rparr>))"

text \<open>\<open>do { if (buffer[i] == thread) { tmp = i; break; } i = (i + 1) % N; } while (i != last)\<close>\<close>

partial_function (option) fifo_find :: "nat \<Rightarrow> nat \<Rightarrow> (nat \<Rightarrow> bool) \<Rightarrow> nat \<Rightarrow> nat option option" where
  "fifo_find N end_i ok i =
     (if ok i then Some (Some i)
      else let i' = (i + 1) mod N in if i' \<noteq> end_i then fifo_find N end_i ok i' else Some None)"

text \<open>\<open>while (tmp != last) { buffer[tmp] = buffer[(tmp + 1) % N]; tmp = (tmp + 1) % N; }\<close>\<close>

partial_function (option) fifo_shift_down :: "nat \<Rightarrow> nat \<Rightarrow> nat \<Rightarrow> (nat \<Rightarrow> nat) \<Rightarrow> (nat \<Rightarrow> nat) option" where
  "fifo_shift_down N end_i tmp buf =
     (if tmp \<noteq> end_i
      then fifo_shift_down N end_i ((tmp + 1) mod N) (buf(tmp := buf ((tmp + 1) mod N)))
      else Some buf)"

definition pok_lockobj_remove_thread ::
  "pok_config \<Rightarrow> pok_lockobj_fifo_t \<Rightarrow> nat \<Rightarrow> (pok_ret_t \<times> pok_lockobj_fifo_t) option" where
  "pok_lockobj_remove_thread c f thread =
     (if f_is_empty f then Some (POK_ERRNO_NOTFOUND, f)
      else do {
        found \<leftarrow> fifo_find (NB_THREADS c) (f_last f) (\<lambda>i. f_buffer f i = thread) (f_head f);
        (case found of
           None \<Rightarrow> Some (POK_ERRNO_NOTFOUND, f)
         | Some tmp \<Rightarrow> do {
             let last = ring_prev (NB_THREADS c) (f_last f);
             buf \<leftarrow> fifo_shift_down (NB_THREADS c) last tmp (f_buffer f);
             Some (POK_ERRNO_OK, f\<lparr>f_buffer := buf, f_last := last,
               f_is_empty := (last = f_head f \<or> f_is_empty f)\<rparr>)
           })
      })"

subsection \<open>The list of the waiting threads\<close>

definition fifo_len :: "nat \<Rightarrow> pok_lockobj_fifo_t \<Rightarrow> nat" where
  "fifo_len N f = (if f_is_empty f then 0
     else if f_head f < f_last f then f_last f - f_head f else N - f_head f + f_last f)"

definition ring_at :: "nat \<Rightarrow> nat \<Rightarrow> nat \<Rightarrow> nat" where
  "ring_at N h k = (h + k) mod N"

definition fifo_list :: "nat \<Rightarrow> pok_lockobj_fifo_t \<Rightarrow> nat list" where
  "fifo_list N f = map (\<lambda>k. f_buffer f (ring_at N (f_head f) k)) [0..<fifo_len N f]"

definition fifo_ok :: "nat \<Rightarrow> pok_lockobj_fifo_t \<Rightarrow> bool" where
  "fifo_ok N f = (f_head f < N \<and> f_last f < N \<and> (f_is_empty f \<longrightarrow> f_head f = f_last f))"

lemma ring_at_less: "h < N \<Longrightarrow> ring_at N h k < N"
  by (simp add: ring_at_def)

lemma ring_at_0 [simp]: "h < N \<Longrightarrow> ring_at N h 0 = h"
  by (simp add: ring_at_def)

lemma ring_at_Suc: "(ring_at N h k + 1) mod N = ring_at N h (Suc k)"
  by (simp add: ring_at_def mod_Suc_eq)

lemma ring_at_inj: "h < N \<Longrightarrow> j < N \<Longrightarrow> k < N \<Longrightarrow> (ring_at N h j = ring_at N h k) = (j = k)"
  by (auto simp: ring_at_def mod_if split: if_splits)

lemma ring_at_full: "h < N \<Longrightarrow> ring_at N h N = h"
  by (simp add: ring_at_def)

lemma ring_prev_at: "h < N \<Longrightarrow> k < N \<Longrightarrow> ring_prev N (ring_at N h (Suc k)) = ring_at N h k"
  by (auto simp: ring_prev_def ring_at_def mod_if split: if_splits)

lemma fifo_len_le: "fifo_ok N f \<Longrightarrow> fifo_len N f \<le> N"
  by (auto simp: fifo_ok_def fifo_len_def)

lemma fifo_len_0: "fifo_ok N f \<Longrightarrow> (fifo_len N f = 0) = f_is_empty f"
  by (auto simp: fifo_ok_def fifo_len_def)

lemma fifo_last: "fifo_ok N f \<Longrightarrow> f_last f = ring_at N (f_head f) (fifo_len N f)"
  by (auto simp: fifo_ok_def fifo_len_def ring_at_def mod_if)

lemma fifo_len_full: "fifo_ok N f \<Longrightarrow> (fifo_len N f = N) = (\<not> f_is_empty f \<and> f_last f = f_head f)"
  unfolding fifo_ok_def fifo_len_def by (cases "f_is_empty f"; cases "f_head f < f_last f"; simp; linarith)

lemma fifo_lenI:
  assumes "f_head f < N" "f_last f = ring_at N (f_head f) n" "n \<le> N" "f_is_empty f = (n = 0)"
  shows "fifo_ok N f" "fifo_len N f = n"
  using assms by (auto simp: fifo_ok_def fifo_len_def ring_at_def mod_if split: if_splits)

lemma fifo_listI:
  assumes "fifo_len N f = length xs" "\<And>k. k < length xs \<Longrightarrow> f_buffer f (ring_at N (f_head f) k) = xs ! k"
  shows "fifo_list N f = xs"
  by (rule nth_equalityI) (simp_all add: fifo_list_def assms)

lemma length_fifo_list [simp]: "length (fifo_list N f) = fifo_len N f"
  by (simp add: fifo_list_def)

lemma fifo_list_nth: "k < fifo_len N f \<Longrightarrow> fifo_list N f ! k = f_buffer f (ring_at N (f_head f) k)"
  by (simp add: fifo_list_def)

lemma fifo_list_Nil: "fifo_ok N f \<Longrightarrow> (fifo_list N f = []) = f_is_empty f"
  using fifo_len_0 by (metis length_0_conv length_fifo_list)

subsection \<open>The loops on the ring\<close>

lemma fifo_seek_spec:
  assumes "h < N" "n < N" "k \<le> n"
  shows "\<exists>m. fifo_seek N (ring_at N h n) skip (ring_at N h k) = Some (ring_at N h m) \<and> k \<le> m \<and> m \<le> n \<and>
    (\<forall>j. k \<le> j \<longrightarrow> j < m \<longrightarrow> skip (ring_at N h j)) \<and> (m < n \<longrightarrow> \<not> skip (ring_at N h m))"
  using assms(3)
proof (induction "n - k" arbitrary: k)
  case 0
  then show ?case by (subst fifo_seek.simps) auto
next
  case (Suc d)
  then have lt: "k < n" and dd: "d = n - Suc k" by simp_all
  show ?case
  proof (cases "skip (ring_at N h k)")
    case False
    then show ?thesis using lt by (subst fifo_seek.simps) auto
  next
    case True
    have "ring_at N h k \<noteq> ring_at N h n" using ring_at_inj assms(1,2) lt by simp
    then have eq: "fifo_seek N (ring_at N h n) skip (ring_at N h k) =
        fifo_seek N (ring_at N h n) skip (ring_at N h (Suc k))"
      using True ring_at_Suc by (subst fifo_seek.simps) simp
    obtain m where m: "fifo_seek N (ring_at N h n) skip (ring_at N h (Suc k)) = Some (ring_at N h m)"
      "Suc k \<le> m" "m \<le> n" "\<forall>j. Suc k \<le> j \<longrightarrow> j < m \<longrightarrow> skip (ring_at N h j)"
      "m < n \<longrightarrow> \<not> skip (ring_at N h m)"
      using Suc.hyps(1) [OF dd] lt by auto
    have "\<forall>j. k \<le> j \<longrightarrow> j < m \<longrightarrow> skip (ring_at N h j)" using m(4) True by (metis le_antisym not_less_eq_eq)
    then show ?thesis using eq m by (intro exI [of _ m]) simp
  qed
qed

lemma fifo_shift_up_spec:
  assumes "h < N" "n < N" "k \<le> n"
  shows "\<exists>buf'. fifo_shift_up N (ring_at N h k) (ring_at N h n) buf = Some buf' \<and>
    (\<forall>x<N. buf' (ring_at N h x) = (if k < x \<and> x \<le> n then buf (ring_at N h (x - 1)) else buf (ring_at N h x)))"
  using assms(2,3)
proof (induction "n - k" arbitrary: n buf)
  case 0
  then show ?case by (subst fifo_shift_up.simps) auto
next
  case (Suc d)
  then obtain m where m: "n = Suc m" "k \<le> m" by (cases n) auto
  have dd: "d = m - k" using Suc.hyps(2) m by simp
  let ?b = "buf(ring_at N h n := buf (ring_at N h m))"
  have "ring_at N h n \<noteq> ring_at N h k" using ring_at_inj assms(1) Suc.prems m by simp
  moreover have "ring_prev N (ring_at N h n) = ring_at N h m" using ring_prev_at assms(1) Suc.prems m by simp
  ultimately have eq: "fifo_shift_up N (ring_at N h k) (ring_at N h n) buf =
      fifo_shift_up N (ring_at N h k) (ring_at N h m) ?b"
    by (subst fifo_shift_up.simps) simp
  obtain buf' where b: "fifo_shift_up N (ring_at N h k) (ring_at N h m) ?b = Some buf'"
    "\<forall>x<N. buf' (ring_at N h x) = (if k < x \<and> x \<le> m then ?b (ring_at N h (x - 1)) else ?b (ring_at N h x))"
    using Suc.hyps(1) [OF dd, of ?b] Suc.prems m by auto
  have "buf' (ring_at N h x) = (if k < x \<and> x \<le> n then buf (ring_at N h (x - 1)) else buf (ring_at N h x))"
    if "x < N" for x
    using b(2) that m Suc.prems ring_at_inj [OF assms(1)] by (auto simp: le_Suc_eq)
  then show ?case using eq b(1) by auto
qed

lemma fifo_shift_down_spec:
  assumes "h < N" "n < N" "k \<le> n"
  shows "\<exists>buf'. fifo_shift_down N (ring_at N h n) (ring_at N h k) buf = Some buf' \<and>
    (\<forall>x<N. buf' (ring_at N h x) = (if k \<le> x \<and> x < n then buf (ring_at N h (Suc x)) else buf (ring_at N h x)))"
  using assms(3)
proof (induction "n - k" arbitrary: k buf)
  case 0
  then show ?case by (subst fifo_shift_down.simps) auto
next
  case (Suc d)
  then have lt: "k < n" and dd: "d = n - Suc k" by simp_all
  let ?b = "buf(ring_at N h k := buf (ring_at N h (Suc k)))"
  have "ring_at N h k \<noteq> ring_at N h n" using ring_at_inj assms(1,2) lt by simp
  then have eq: "fifo_shift_down N (ring_at N h n) (ring_at N h k) buf =
      fifo_shift_down N (ring_at N h n) (ring_at N h (Suc k)) ?b"
    using ring_at_Suc by (subst fifo_shift_down.simps) simp
  obtain buf' where b: "fifo_shift_down N (ring_at N h n) (ring_at N h (Suc k)) ?b = Some buf'"
    "\<forall>x<N. buf' (ring_at N h x) = (if Suc k \<le> x \<and> x < n then ?b (ring_at N h (Suc x)) else ?b (ring_at N h x))"
    using Suc.hyps(1) [OF dd, of ?b] lt by auto
  have "buf' (ring_at N h x) = (if k \<le> x \<and> x < n then buf (ring_at N h (Suc x)) else buf (ring_at N h x))"
    if "x < N" for x
    using b(2) that lt assms(2) ring_at_inj [OF assms(1)] by (auto simp: le_eq_less_or_eq)
  then show ?case using eq b(1) by auto
qed

lemma fifo_find_spec:
  assumes "h < N" "n \<le> N" "k < n"
  shows "\<exists>r. fifo_find N (ring_at N h n) ok (ring_at N h k) = Some r \<and>
    (case r of None \<Rightarrow> \<forall>j. k \<le> j \<longrightarrow> j < n \<longrightarrow> \<not> ok (ring_at N h j)
     | Some i \<Rightarrow> \<exists>m. i = ring_at N h m \<and> k \<le> m \<and> m < n \<and> ok i \<and>
         (\<forall>j. k \<le> j \<longrightarrow> j < m \<longrightarrow> \<not> ok (ring_at N h j)))"
  using assms(3)
proof (induction "n - k" arbitrary: k)
  case 0
  then show ?case by simp
next
  case (Suc d)
  show ?case
  proof (cases "ok (ring_at N h k)")
    case True
    then show ?thesis using Suc.prems by (subst fifo_find.simps) (auto intro!: exI [of _ k])
  next
    case False
    show ?thesis
    proof (cases "Suc k = n")
      case True
      then have "fifo_find N (ring_at N h n) ok (ring_at N h k) = Some None"
        using False ring_at_Suc [of N h k] by (subst fifo_find.simps) (simp add: Let_def)
      moreover have "\<not> ok (ring_at N h j)" if "k \<le> j" "j < n" for j
        using that False True by (metis le_antisym less_Suc_eq_le)
      ultimately show ?thesis by auto
    next
      case ne: False
      then have lt: "Suc k < n" and dd: "d = n - Suc k" using Suc.prems Suc.hyps(2) by simp_all
      have "ring_at N h (Suc k) \<noteq> ring_at N h n"
      proof (cases "n = N")
        case True
        then show ?thesis using ring_at_full [OF assms(1)] ring_at_inj [OF assms(1), of "Suc k" 0] lt assms(1) by simp
      next
        case False
        then show ?thesis using ring_at_inj [OF assms(1)] lt assms(2) by simp
      qed
      then have eq: "fifo_find N (ring_at N h n) ok (ring_at N h k) =
          fifo_find N (ring_at N h n) ok (ring_at N h (Suc k))"
        using False ring_at_Suc [of N h k] by (subst fifo_find.simps) (simp add: Let_def)
      obtain r where r: "fifo_find N (ring_at N h n) ok (ring_at N h (Suc k)) = Some r"
        "case r of None \<Rightarrow> \<forall>j. Suc k \<le> j \<longrightarrow> j < n \<longrightarrow> \<not> ok (ring_at N h j)
         | Some i \<Rightarrow> \<exists>m. i = ring_at N h m \<and> Suc k \<le> m \<and> m < n \<and> ok i \<and>
             (\<forall>j. Suc k \<le> j \<longrightarrow> j < m \<longrightarrow> \<not> ok (ring_at N h j))"
        using Suc.hyps(1) [OF dd lt] by blast
      have "case r of None \<Rightarrow> \<forall>j. k \<le> j \<longrightarrow> j < n \<longrightarrow> \<not> ok (ring_at N h j)
         | Some i \<Rightarrow> \<exists>m. i = ring_at N h m \<and> k \<le> m \<and> m < n \<and> ok i \<and>
             (\<forall>j. k \<le> j \<longrightarrow> j < m \<longrightarrow> \<not> ok (ring_at N h j))"
        using r(2) False by (cases r) (simp, metis not_less_eq_eq le_antisym,
          simp, metis Suc_leD not_less_eq_eq le_antisym)
      then show ?thesis using eq r(1) by auto
    qed
  qed
qed


subsection \<open>The operations refine list operations\<close>

text \<open>Insertion by priority: behind every waiting thread of the same or a higher priority.\<close>

definition prio_insert :: "(nat \<Rightarrow> u8) \<Rightarrow> nat \<Rightarrow> nat list \<Rightarrow> nat list" where
  "prio_insert p t xs = takeWhile (\<lambda>x. p t \<le> p x) xs @ t # dropWhile (\<lambda>x. p t \<le> p x) xs"

lemma takeWhile_index:
  assumes "m \<le> length xs" "\<forall>j<m. P (xs ! j)" "m < length xs \<longrightarrow> \<not> P (xs ! m)"
  shows "takeWhile P xs = take m xs" "dropWhile P xs = drop m xs"
proof -
  show t: "takeWhile P xs = take m xs"
    using assms by (intro takeWhile_eq_take_P_nth) auto
  have "length (takeWhile P xs) = m" using t assms(1) by simp
  then show "dropWhile P xs = drop m xs" by (simp add: dropWhile_eq_drop)
qed

lemma fifo_init_list:
  "0 < N \<Longrightarrow> fifo_ok N (pok_lockobj_fifo_init f) \<and> fifo_list N (pok_lockobj_fifo_init f) = []"
  by (simp add: fifo_ok_def fifo_list_def fifo_len_def pok_lockobj_fifo_init_def)

lemma fifo_head_hd:
  assumes "fifo_ok N f" "fifo_list N f \<noteq> []"
  shows "pok_lockobj_get_head f = hd (fifo_list N f)"
proof -
  have "0 < fifo_len N f" using assms by (metis length_fifo_list length_greater_0_conv)
  then show ?thesis using assms fifo_list_nth [of 0 N f]
    by (simp add: pok_lockobj_get_head_def hd_conv_nth fifo_ok_def)
qed

lemma fifo_dequeue_tl:
  assumes "fifo_ok (NB_THREADS c) f" "fifo_list (NB_THREADS c) f \<noteq> []"
  shows "\<exists>f'. pok_lockobj_dequeue c f = (POK_ERRNO_OK, f') \<and> fifo_ok (NB_THREADS c) f' \<and>
    fifo_list (NB_THREADS c) f' = tl (fifo_list (NB_THREADS c) f)"
proof -
  let ?N = "NB_THREADS c" let ?h = "f_head f" let ?n = "fifo_len ?N f"
  have h: "?h < ?N" using assms(1) by (simp add: fifo_ok_def)
  have n: "0 < ?n" "?n \<le> ?N" using assms fifo_len_le by (metis length_fifo_list length_greater_0_conv, blast)
  have ne: "\<not> f_is_empty f" using assms fifo_list_Nil by blast
  let ?f = "f\<lparr>f_head := ring_at ?N ?h 1, f_is_empty := (f_last f = ring_at ?N ?h 1)\<rparr>"
  have sh: "ring_at ?N (ring_at ?N ?h 1) k = ring_at ?N ?h (Suc k)" for k
    by (simp add: ring_at_def mod_add_left_eq)
  have last: "f_last f = ring_at ?N ?h ?n" using fifo_last [OF assms(1)] .
  have e: "(f_last f = ring_at ?N ?h 1) = (?n = 1)"
  proof (cases "?n = ?N")
    case True
    then show ?thesis using last ring_at_full [OF h] ring_at_inj [OF h, of 0 1] h n
      by (cases "?N = 1") (auto simp: ring_at_def)
  next
    case False
    then show ?thesis using last ring_at_inj [OF h, of ?n 1] n
      by (cases "?N = 1") auto
  qed
  have ok: "fifo_ok ?N ?f" "fifo_len ?N ?f = ?n - 1"
    using fifo_lenI [of ?f ?N "?n - 1"] sh [of "?n - 1"] last n e ring_at_less [OF h] by auto
  have "fifo_list ?N ?f = tl (fifo_list ?N f)"
    by (rule fifo_listI) (use ok n in \<open>auto simp: sh [simplified] nth_tl fifo_list_nth\<close>)
  then show ?thesis using ok ne by (simp add: pok_lockobj_dequeue_def Let_def ring_at_def)
qed

lemma fifo_enqueue_snoc:
  assumes "fifo_ok (NB_THREADS c) f" "fifo_len (NB_THREADS c) f < NB_THREADS c"
  shows "\<exists>f'. pok_lockobj_enqueue c s f t POK_QUEUEING_DISCIPLINE_FIFO = Some (POK_ERRNO_OK, f') \<and>
    fifo_ok (NB_THREADS c) f' \<and> fifo_list (NB_THREADS c) f' = fifo_list (NB_THREADS c) f @ [t]"
proof -
  let ?N = "NB_THREADS c" let ?h = "f_head f" let ?n = "fifo_len ?N f"
  have h: "?h < ?N" using assms(1) by (simp add: fifo_ok_def)
  have last: "f_last f = ring_at ?N ?h ?n" using fifo_last [OF assms(1)] .
  let ?f = "f\<lparr>f_buffer := (f_buffer f)(f_last f := t), f_last := (f_last f + 1) mod ?N, f_is_empty := False\<rparr>"
  have ok: "fifo_ok ?N ?f" "fifo_len ?N ?f = Suc ?n"
    using fifo_lenI [of ?f ?N "Suc ?n"] h assms(2) last ring_at_Suc [of ?N ?h ?n] by auto
  have "fifo_list ?N ?f = fifo_list ?N f @ [t]"
    by (rule fifo_listI)
      (use ok last ring_at_inj [OF h] assms(2) in \<open>auto simp: nth_append fifo_list_nth less_Suc_eq\<close>)
  moreover have "f_is_empty f \<or> f_last f \<noteq> ?h" using fifo_len_full [OF assms(1)] assms(2) by auto
  ultimately show ?thesis using ok by (auto simp: pok_lockobj_enqueue_def)
qed

lemma fifo_enqueue_full:
  "fifo_ok (NB_THREADS c) f \<Longrightarrow> fifo_len (NB_THREADS c) f = NB_THREADS c \<Longrightarrow>
   pok_lockobj_enqueue c s f t POK_QUEUEING_DISCIPLINE_FIFO = Some (POK_ERRNO_FULL, f)"
  using fifo_len_full by (simp add: pok_lockobj_enqueue_def)

lemma fifo_enqueue_prio:
  assumes "fifo_ok (NB_THREADS c) f" "fifo_len (NB_THREADS c) f < NB_THREADS c"
  shows "\<exists>f'. pok_lockobj_enqueue c s f t POK_QUEUEING_DISCIPLINE_PRIORITY = Some (POK_ERRNO_OK, f') \<and>
    fifo_ok (NB_THREADS c) f' \<and> fifo_list (NB_THREADS c) f' =
      prio_insert (\<lambda>i. t_priority (pok_threads s i)) t (fifo_list (NB_THREADS c) f)"
proof -
  let ?N = "NB_THREADS c" let ?h = "f_head f" let ?n = "fifo_len ?N f" let ?xs = "fifo_list ?N f"
  let ?skip = "\<lambda>i. t_priority (pok_threads s t) \<le> t_priority (pok_threads s (f_buffer f i))"
  let ?P = "\<lambda>x. t_priority (pok_threads s t) \<le> t_priority (pok_threads s x)"
  have h: "?h < ?N" using assms(1) by (simp add: fifo_ok_def)
  have last: "f_last f = ring_at ?N ?h ?n" using fifo_last [OF assms(1)] .
  obtain m where m: "fifo_seek ?N (f_last f) ?skip ?h = Some (ring_at ?N ?h m)" "m \<le> ?n"
    "\<forall>j. j < m \<longrightarrow> ?skip (ring_at ?N ?h j)" "m < ?n \<longrightarrow> \<not> ?skip (ring_at ?N ?h m)"
    using fifo_seek_spec [OF h assms(2), of 0 ?skip] h last by auto
  obtain buf where b: "fifo_shift_up ?N (ring_at ?N ?h m) (f_last f) (f_buffer f) = Some buf"
    "\<And>x. x < ?N \<Longrightarrow> buf (ring_at ?N ?h x) = (if m < x \<and> x \<le> ?n then f_buffer f (ring_at ?N ?h (x - 1))
       else f_buffer f (ring_at ?N ?h x))"
    using fifo_shift_up_spec [OF h assms(2) m(2), of "f_buffer f"] last by auto
  have tw: "takeWhile ?P ?xs = take m ?xs" "dropWhile ?P ?xs = drop m ?xs"
    using takeWhile_index [of m ?xs ?P] m by (simp_all add: fifo_list_nth)
  let ?f = "f\<lparr>f_buffer := buf(ring_at ?N ?h m := t), f_last := (f_last f + 1) mod ?N, f_is_empty := False\<rparr>"
  have ok: "fifo_ok ?N ?f" "fifo_len ?N ?f = Suc ?n"
    using fifo_lenI [of ?f ?N "Suc ?n"] h assms(2) last ring_at_Suc [of ?N ?h ?n] by auto
  have "fifo_list ?N ?f = take m ?xs @ t # drop m ?xs"
  proof (rule fifo_listI)
    show "fifo_len ?N ?f = length (take m ?xs @ t # drop m ?xs)" using ok m(2) by simp
    fix k assume "k < length (take m ?xs @ t # drop m ?xs)"
    then have k: "k \<le> ?n" "k < ?N" using m(2) assms(2) by auto
    show "f_buffer ?f (ring_at ?N (f_head ?f) k) = (take m ?xs @ t # drop m ?xs) ! k"
      using b(2) [OF k(2)] k m(2) ring_at_inj [OF h, of k m] assms(2)
      by (auto simp: nth_append fifo_list_nth nth_Cons' not_less_eq)
  qed
  then show ?thesis using ok m(1) b(1) tw by (auto simp: pok_lockobj_enqueue_def prio_insert_def)
qed

lemma remove1_index:
  assumes "m < length xs" "xs ! m = t" "\<forall>j<m. xs ! j \<noteq> t"
  shows "remove1 t xs = take m xs @ drop (Suc m) xs"
proof -
  have "t \<notin> set (take m xs)" using assms(1,3) by (auto simp: in_set_conv_nth)
  moreover have "xs = take m xs @ t # drop (Suc m) xs" using assms(1,2) id_take_nth_drop by metis
  ultimately show ?thesis by (metis remove1.simps(2) remove1_append)
qed

lemma fifo_remove:
  assumes "fifo_ok (NB_THREADS c) f"
  shows "if t \<in> set (fifo_list (NB_THREADS c) f)
    then \<exists>f'. pok_lockobj_remove_thread c f t = Some (POK_ERRNO_OK, f') \<and> fifo_ok (NB_THREADS c) f' \<and>
      fifo_list (NB_THREADS c) f' = remove1 t (fifo_list (NB_THREADS c) f)
    else pok_lockobj_remove_thread c f t = Some (POK_ERRNO_NOTFOUND, f)"
proof (cases "f_is_empty f")
  case True
  then have "fifo_list (NB_THREADS c) f = []" using fifo_list_Nil [OF assms] by simp
  then show ?thesis using True by (simp add: pok_lockobj_remove_thread_def)
next
  case False
  let ?N = "NB_THREADS c" let ?h = "f_head f" let ?n = "fifo_len ?N f" let ?xs = "fifo_list ?N f"
  let ?ok = "\<lambda>i. f_buffer f i = t"
  have h: "?h < ?N" using assms by (simp add: fifo_ok_def)
  have last: "f_last f = ring_at ?N ?h ?n" using fifo_last [OF assms] .
  have n: "0 < ?n" "?n \<le> ?N" using fifo_len_0 [OF assms] fifo_len_le [OF assms] False by auto
  obtain r where r: "fifo_find ?N (f_last f) ?ok ?h = Some r"
    "case r of None \<Rightarrow> \<forall>j. 0 \<le> j \<longrightarrow> j < ?n \<longrightarrow> \<not> ?ok (ring_at ?N ?h j)
     | Some i \<Rightarrow> \<exists>m. i = ring_at ?N ?h m \<and> 0 \<le> m \<and> m < ?n \<and> ?ok i \<and>
         (\<forall>j. 0 \<le> j \<longrightarrow> j < m \<longrightarrow> \<not> ?ok (ring_at ?N ?h j))"
    using fifo_find_spec [OF h n(2,1), of ?ok] last h by auto
  show ?thesis
  proof (cases r)
    case None
    then have "t \<notin> set ?xs" using r(2) by (auto simp: fifo_list_def)
    then show ?thesis using None r(1) False by (simp add: pok_lockobj_remove_thread_def)
  next
    case (Some i)
    then obtain m where m: "i = ring_at ?N ?h m" "m < ?n" "?xs ! m = t" "\<forall>j<m. ?xs ! j \<noteq> t"
      using r(2) by (auto simp: fifo_list_nth)
    have mem: "t \<in> set ?xs" using m(2,3) by (metis length_fifo_list nth_mem)
    obtain n' where n': "?n = Suc n'" using n by (cases ?n) auto
    have pl: "ring_prev ?N (f_last f) = ring_at ?N ?h n'"
      using ring_prev_at [OF h, of n'] last n' n(2) by simp
    obtain buf where b: "fifo_shift_down ?N (ring_at ?N ?h n') (ring_at ?N ?h m) (f_buffer f) = Some buf"
      "\<And>x. x < ?N \<Longrightarrow> buf (ring_at ?N ?h x) = (if m \<le> x \<and> x < n' then f_buffer f (ring_at ?N ?h (Suc x))
         else f_buffer f (ring_at ?N ?h x))"
      using fifo_shift_down_spec [OF h, of n' m "f_buffer f"] n' n(2) m(2) by auto
    let ?f = "f\<lparr>f_buffer := buf, f_last := ring_at ?N ?h n', f_is_empty := (ring_at ?N ?h n' = ?h)\<rparr>"
    have "(ring_at ?N ?h n' = ?h) = (n' = 0)" using ring_at_inj [OF h, of n' 0] h n' n(2) by simp
    then have ok: "fifo_ok ?N ?f" "fifo_len ?N ?f = n'"
      using fifo_lenI [of ?f ?N n'] h n' n(2) by auto
    have "fifo_list ?N ?f = take m ?xs @ drop (Suc m) ?xs"
    proof (rule fifo_listI)
      show "fifo_len ?N ?f = length (take m ?xs @ drop (Suc m) ?xs)" using ok m(2) n' by simp
      fix k assume "k < length (take m ?xs @ drop (Suc m) ?xs)"
      then have k: "k < n'" "k < ?N" using m(2) n' n(2) by auto
      show "f_buffer ?f (ring_at ?N (f_head ?f) k) = (take m ?xs @ drop (Suc m) ?xs) ! k"
        using b(2) [OF k(2)] k m(2) n' by (auto simp: nth_append fifo_list_nth)
    qed
    also have "\<dots> = remove1 t ?xs" using remove1_index [of m ?xs t] m by simp
    finally have "fifo_list ?N ?f = remove1 t ?xs" .
    then show ?thesis using mem ok r(1) Some m(1) b(1) False pl
      by (simp add: pok_lockobj_remove_thread_def Let_def)
  qed
qed


subsection \<open>The interface of a waiting queue\<close>

text \<open>
  What the lock objects rely on, for one queueing discipline: \<open>ins\<close> says where a thread is put. The
  locale's lemmas are the client's view: a thread that is not waiting can always be put in, because the
  queue has a slot for every thread of the system, it is then waiting once, and taking it out again
  restores the queue.
\<close>

locale wait_queue =
  fixes room :: nat and ok :: "'q \<Rightarrow> bool" and contents :: "'q \<Rightarrow> nat list"
    and empty_q :: "'q \<Rightarrow> bool" and head_q :: "'q \<Rightarrow> nat"
    and enq :: "'q \<Rightarrow> nat \<Rightarrow> (pok_ret_t \<times> 'q) option" and deq :: "'q \<Rightarrow> pok_ret_t \<times> 'q"
    and remove_q :: "'q \<Rightarrow> nat \<Rightarrow> (pok_ret_t \<times> 'q) option"
    and ins :: "nat \<Rightarrow> nat list \<Rightarrow> nat list"
  assumes empty_law: "ok q \<Longrightarrow> empty_q q = (contents q = [])"
    and head_law: "ok q \<Longrightarrow> contents q \<noteq> [] \<Longrightarrow> head_q q = hd (contents q)"
    and enq_law: "ok q \<Longrightarrow> length (contents q) < room \<Longrightarrow>
      \<exists>q'. enq q t = Some (POK_ERRNO_OK, q') \<and> ok q' \<and> contents q' = ins t (contents q)"
    and deq_law: "ok q \<Longrightarrow> contents q \<noteq> [] \<Longrightarrow>
      \<exists>q'. deq q = (POK_ERRNO_OK, q') \<and> ok q' \<and> contents q' = tl (contents q)"
    and remove_law: "ok q \<Longrightarrow> t \<in> set (contents q) \<Longrightarrow>
      \<exists>q'. remove_q q t = Some (POK_ERRNO_OK, q') \<and> ok q' \<and> contents q' = remove1 t (contents q)"
    and remove_absent_law: "ok q \<Longrightarrow> t \<notin> set (contents q) \<Longrightarrow> remove_q q t = Some (POK_ERRNO_NOTFOUND, q)"
    and ins_law: "\<exists>ys zs. xs = ys @ zs \<and> ins t xs = ys @ t # zs"
begin

text \<open>A queue in which every thread waits at most once.\<close>

definition waiting_ok :: "'q \<Rightarrow> bool" where
  "waiting_ok q = (ok q \<and> distinct (contents q) \<and> set (contents q) \<subseteq> {..<room})"

lemma set_ins: "set (ins t xs) = insert t (set xs)"
proof -
  obtain ys zs where "xs = ys @ zs" "ins t xs = ys @ t # zs" using ins_law by blast
  then show ?thesis by simp
qed

lemma distinct_ins: "distinct (ins t xs) = (distinct xs \<and> t \<notin> set xs)"
proof -
  obtain ys zs where "xs = ys @ zs" "ins t xs = ys @ t # zs" using ins_law by blast
  then show ?thesis by auto
qed

lemma remove1_ins:
  assumes "t \<notin> set xs"
  shows "remove1 t (ins t xs) = xs"
proof -
  obtain ys zs where "xs = ys @ zs" "ins t xs = ys @ t # zs" using ins_law by blast
  then show ?thesis using assms by (simp add: remove1_append)
qed

lemma room_left:
  assumes "waiting_ok q" "t \<notin> set (contents q)" "t < room"
  shows "length (contents q) < room"
proof -
  have "set (contents q) \<subset> {..<room}" using assms by (auto simp: waiting_ok_def)
  then have "card (set (contents q)) < room" using psubset_card_mono [of "{..<room}"] by simp
  then show ?thesis using assms(1) by (simp add: waiting_ok_def distinct_card)
qed

lemma enq_waiting:
  assumes "waiting_ok q" "t \<notin> set (contents q)" "t < room"
  obtains q' where "enq q t = Some (POK_ERRNO_OK, q')" "waiting_ok q'" "contents q' = ins t (contents q)"
proof -
  obtain q' where "enq q t = Some (POK_ERRNO_OK, q')" "ok q'" "contents q' = ins t (contents q)"
    using enq_law [of q t] room_left [OF assms] assms(1) by (auto simp: waiting_ok_def)
  then show thesis using that assms by (auto simp: waiting_ok_def set_ins distinct_ins)
qed

lemma deq_waiting:
  assumes "waiting_ok q" "contents q \<noteq> []"
  obtains q' where "deq q = (POK_ERRNO_OK, q')" "waiting_ok q'" "contents q' = tl (contents q)"
    "head_q q = hd (contents q)" "head_q q < room" "head_q q \<notin> set (contents q')"
proof -
  obtain q' where "deq q = (POK_ERRNO_OK, q')" "ok q'" "contents q' = tl (contents q)"
    using deq_law [of q] assms by (auto simp: waiting_ok_def)
  then show thesis using that assms head_law [of q]
    by (cases "contents q") (auto simp: waiting_ok_def)
qed

lemma remove_waiting:
  assumes "waiting_ok q"
  obtains r q' where "remove_q q t = Some (r, q')" "waiting_ok q'" "contents q' = remove1 t (contents q)"
proof (cases "t \<in> set (contents q)")
  case True
  obtain q' where "remove_q q t = Some (POK_ERRNO_OK, q')" "ok q'" "contents q' = remove1 t (contents q)"
    using remove_law [of q t] True assms by (auto simp: waiting_ok_def)
  then show thesis using that assms by (auto simp: waiting_ok_def)
next
  case False
  then show thesis using that [of POK_ERRNO_NOTFOUND q] remove_absent_law assms
    by (simp add: waiting_ok_def remove1_idem)
qed

lemma enq_then_remove:
  assumes "waiting_ok q" "t \<notin> set (contents q)" "t < room"
  shows "\<exists>q' q''. enq q t = Some (POK_ERRNO_OK, q') \<and> remove_q q' t = Some (POK_ERRNO_OK, q'') \<and>
    contents q'' = contents q \<and> ok q''"
proof -
  obtain q' where q': "enq q t = Some (POK_ERRNO_OK, q')" "waiting_ok q'" "contents q' = ins t (contents q)"
    using enq_waiting [OF assms] .
  then have "t \<in> set (contents q')" "ok q'" by (simp_all add: set_ins waiting_ok_def)
  then show ?thesis using remove_law [of q' t] q' remove1_ins [OF assms(2)] by fastforce
qed

end

interpretation fifo_queue: wait_queue "NB_THREADS c" "fifo_ok (NB_THREADS c)" "fifo_list (NB_THREADS c)"
  pok_lockobj_fifo_is_empty pok_lockobj_get_head
  "\<lambda>f t. pok_lockobj_enqueue c s f t POK_QUEUEING_DISCIPLINE_FIFO" "pok_lockobj_dequeue c"
  "pok_lockobj_remove_thread c" "\<lambda>t xs. xs @ [t]"
  for c s
proof
  show "\<exists>ys zs. xs = ys @ zs \<and> xs @ [t] = ys @ t # zs" for xs :: "nat list" and t
    by (rule exI [of _ xs], rule exI [of _ "[]"]) simp
qed (use fifo_remove in \<open>auto simp: pok_lockobj_fifo_is_empty_def fifo_list_Nil fifo_head_hd fifo_enqueue_snoc
      fifo_dequeue_tl split: if_splits\<close>)

interpretation prio_queue: wait_queue "NB_THREADS c" "fifo_ok (NB_THREADS c)" "fifo_list (NB_THREADS c)"
  pok_lockobj_fifo_is_empty pok_lockobj_get_head
  "\<lambda>f t. pok_lockobj_enqueue c s f t POK_QUEUEING_DISCIPLINE_PRIORITY" "pok_lockobj_dequeue c"
  "pok_lockobj_remove_thread c" "prio_insert (\<lambda>i. t_priority (pok_threads s i))"
  for c s
proof
  show "\<exists>ys zs. xs = ys @ zs \<and> prio_insert (\<lambda>i. t_priority (pok_threads s i)) t xs = ys @ t # zs"
    for xs :: "nat list" and t
    unfolding prio_insert_def
    by (rule exI [of _ "takeWhile (\<lambda>x. t_priority (pok_threads s t) \<le> t_priority (pok_threads s x)) xs"],
      rule exI [of _ "dropWhile (\<lambda>x. t_priority (pok_threads s t) \<le> t_priority (pok_threads s x)) xs"]) simp
qed (use fifo_remove in \<open>auto simp: pok_lockobj_fifo_is_empty_def fifo_list_Nil fifo_head_hd fifo_enqueue_prio
      fifo_dequeue_tl split: if_splits\<close>)

subsection \<open>Properties of the queues\<close>

text \<open>C10: The ring buffer of waiting threads refines a list: initialising empties it, the head is the list's first
  element, dequeueing drops it, enqueueing appends (first in, first out) or inserts behind every thread
  of the same or a higher priority, and removing a thread removes its first occurrence.\<close>

theorem fifo_refines_list:
  fixes c :: pok_config and s :: kstate and f :: pok_lockobj_fifo_t and t :: nat
  assumes "fifo_ok (NB_THREADS c) f" "fifo_len (NB_THREADS c) f < NB_THREADS c"
  defines "N \<equiv> NB_THREADS c" and "prio \<equiv> \<lambda>i. t_priority (pok_threads s i)"
  shows "fifo_list N (pok_lockobj_fifo_init f) = [] \<and>
    (\<exists>f'. pok_lockobj_enqueue c s f t POK_QUEUEING_DISCIPLINE_FIFO = Some (POK_ERRNO_OK, f') \<and>
       fifo_ok N f' \<and> fifo_list N f' = fifo_list N f @ [t]) \<and>
    (\<exists>f'. pok_lockobj_enqueue c s f t POK_QUEUEING_DISCIPLINE_PRIORITY = Some (POK_ERRNO_OK, f') \<and>
       fifo_ok N f' \<and> fifo_list N f' = prio_insert prio t (fifo_list N f)) \<and>
    (if fifo_list N f = [] then pok_lockobj_dequeue c f = (POK_ERRNO_EMPTY, f)
     else pok_lockobj_get_head f = hd (fifo_list N f) \<and>
       (\<exists>f'. pok_lockobj_dequeue c f = (POK_ERRNO_OK, f') \<and> fifo_ok N f' \<and> fifo_list N f' = tl (fifo_list N f))) \<and>
    (if t \<in> set (fifo_list N f)
     then \<exists>f'. pok_lockobj_remove_thread c f t = Some (POK_ERRNO_OK, f') \<and> fifo_ok N f' \<and>
       fifo_list N f' = remove1 t (fifo_list N f)
     else pok_lockobj_remove_thread c f t = Some (POK_ERRNO_NOTFOUND, f))"
proof -
  have "fifo_list N f = [] \<Longrightarrow> pok_lockobj_dequeue c f = (POK_ERRNO_EMPTY, f)"
    using fifo_list_Nil [OF assms(1)] by (simp add: N_def pok_lockobj_dequeue_def)
  then show ?thesis
    using fifo_init_list [of N f] fifo_enqueue_snoc [OF assms(1,2)] fifo_enqueue_prio [OF assms(1,2)]
      fifo_head_hd [OF assms(1)] fifo_dequeue_tl [OF assms(1)] fifo_remove [OF assms(1)] assms(2)
    unfolding N_def prio_def by simp
qed

lemma demo_fifo_ok: "fifo_ok 8 demo_fifo" "fifo_len 8 demo_fifo = 0" "fifo_list 8 demo_fifo = []"
  by (simp_all add: fifo_ok_def fifo_len_def fifo_list_def demo_fifo_def)

lemma fifo_refines_list_witness:
  "\<exists>f'. pok_lockobj_enqueue demo_config demo_state demo_fifo 2 POK_QUEUEING_DISCIPLINE_FIFO =
     Some (POK_ERRNO_OK, f') \<and> fifo_list 8 f' = [2]"
  using fifo_refines_list [of demo_config demo_fifo demo_state 2] by (auto simp: demo_fifo_ok)

text \<open>A waiting queue in which every thread waits at most once never overflows: the thread that blocks is
  put in whatever the discipline, and leaving the queue on a timeout restores what it was.\<close>

theorem fifo_never_overflows:
  assumes "fifo_ok (NB_THREADS c) f" "distinct (fifo_list (NB_THREADS c) f)"
    and "set (fifo_list (NB_THREADS c) f) \<subseteq> {..<NB_THREADS c}"
    and "t < NB_THREADS c" "t \<notin> set (fifo_list (NB_THREADS c) f)" "d \<noteq> POK_QUEUEING_DISCIPLINE_OTHER"
  shows "\<exists>f' f''. pok_lockobj_enqueue c s f t d = Some (POK_ERRNO_OK, f') \<and>
    pok_lockobj_remove_thread c f' t = Some (POK_ERRNO_OK, f'') \<and>
    fifo_list (NB_THREADS c) f'' = fifo_list (NB_THREADS c) f"
proof (cases d)
  case POK_QUEUEING_DISCIPLINE_FIFO
  then show ?thesis using fifo_queue.enq_then_remove [of c f t s] assms fifo_queue.waiting_ok_def by fastforce
next
  case POK_QUEUEING_DISCIPLINE_PRIORITY
  then show ?thesis using prio_queue.enq_then_remove [of c f t s] assms prio_queue.waiting_ok_def by fastforce
qed (use assms(6) in simp)

lemma fifo_never_overflows_witness:
  "\<exists>f' f''. pok_lockobj_enqueue demo_config demo_state demo_fifo 2 POK_QUEUEING_DISCIPLINE_PRIORITY =
     Some (POK_ERRNO_OK, f') \<and> pok_lockobj_remove_thread demo_config f' 2 = Some (POK_ERRNO_OK, f'') \<and>
     fifo_list 8 f'' = []"
  using fifo_never_overflows [of demo_config demo_fifo 2 POK_QUEUEING_DISCIPLINE_PRIORITY demo_state]
  by (auto simp: demo_fifo_ok)

end
