(* ===== verification/Pok_Thread_Create.thy ===== *)
theory Pok_Thread_Create
  imports Pok_Sched_Part Pok_Multiproc "HOL-Library.Multiset"
begin

text \<open>
  The thread table of \<open>kernel/core/thread.c\<close>: its initialisation, the creation of a thread in a
  partition and the insertion sort that keeps the threads of a rate-monotonic partition in order of
  their periods; with the error reports of \<open>kernel/core/error.c\<close> and the parts of the architecture layer
  a creation needs (the memory allocator of \<open>x86-qemu/pm.c\<close>, stacks and contexts). The contents of a
  new context frame are recorded in the trace.
\<close>

subsection \<open>Architecture layer\<close>

definition pok_pm_sbrk :: "u32 \<Rightarrow> kstate \<Rightarrow> u32 \<times> kstate" where
  "pok_pm_sbrk increment s =
     (let addr = pok_x86_pm_brk s in (addr, s\<lparr>pok_x86_pm_brk := pok_x86_pm_brk s + increment\<rparr>))"

definition pok_bsp_mem_alloc :: "u32 \<Rightarrow> kstate \<Rightarrow> u32 \<times> kstate" where
  "pok_bsp_mem_alloc sz s = pok_pm_sbrk sz s"

definition pok_thread_stack_addr :: "pok_config \<Rightarrow> kstate \<Rightarrow> nat \<Rightarrow> nat \<Rightarrow> u32" where
  "pok_thread_stack_addr c s partition_id local_thread_id =
     p_size (pok_partitions s partition_id) - 4 - of_nat local_thread_id * USER_STACK_SIZE c"

definition KERNEL_STACK_SIZE :: u32 where
  "KERNEL_STACK_SIZE = 8192"

definition IDLE_STACK_SIZE :: u32 where
  "IDLE_STACK_SIZE = 8192"

definition pok_space_context_create ::
  "pok_config \<Rightarrow> nat \<Rightarrow> u32 \<Rightarrow> nat \<Rightarrow> u32 \<Rightarrow> u32 \<Rightarrow> u32 \<Rightarrow> kstate \<Rightarrow> u32 \<times> kstate" where
  "pok_space_context_create c partition_id entry_rel processor_affinity stack_rel arg1 arg2 s =
     (case pok_bsp_mem_alloc KERNEL_STACK_SIZE s of (stack_addr, s1) \<Rightarrow>
        let sp = stack_addr + KERNEL_STACK_SIZE - 4 - SPACE_CONTEXT_SIZE c
        in (sp, emit (Ev_space_context sp partition_id entry_rel processor_affinity stack_rel) s1))"

definition pok_context_create :: "pok_config \<Rightarrow> nat \<Rightarrow> u32 \<Rightarrow> u32 \<Rightarrow> kstate \<Rightarrow> u32 \<times> kstate" where
  "pok_context_create c thread_id stack_size entry s =
     (case pok_bsp_mem_alloc stack_size s of (stack_addr, s1) \<Rightarrow>
        let sp = stack_addr + stack_size - 4 - START_CONTEXT_SIZE c
        in (sp, emit (Ev_start_context sp thread_id entry) s1))"

subsection \<open>Errors\<close>

text \<open>
  \<open>pok_partition_error\<close> does nothing in a kernel without debugging support; with it, \<open>pok_fatal\<close> stops
  the machine. \<open>pok_kernel_error\<close> only prints.
\<close>

definition pok_partition_error :: "pok_config \<Rightarrow> nat \<Rightarrow> u32 \<Rightarrow> kstate \<Rightarrow> kstate option" where
  "pok_partition_error c pid error s = (if NEEDS_DEBUG c then None else Some s)"

definition pok_kernel_error :: "u32 \<Rightarrow> kstate \<Rightarrow> kstate" where
  "pok_kernel_error error s = s"

definition POK_ERROR_KIND_PARTITION_CONFIGURATION :: u32 where
  "POK_ERROR_KIND_PARTITION_CONFIGURATION = 30"

definition POK_ERROR_KIND_KERNEL_CONFIG :: u32 where
  "POK_ERROR_KIND_KERNEL_CONFIG = 52"

subsection \<open>Initialisation\<close>

definition pok_sched_get_priority_min :: "pok_sched_t \<Rightarrow> u8" where
  "pok_sched_get_priority_min sched_type = 0"

definition pok_sched_get_priority_max :: "pok_sched_t \<Rightarrow> u8" where
  "pok_sched_get_priority_max sched_type = 255"

text \<open>The body of the loop of \<open>pok_idle_thread_init\<close>; three of its assignments go to \<open>pok_threads[i]\<close>.\<close>

definition idle_thread_init_step :: "pok_config \<Rightarrow> nat \<Rightarrow> kstate \<Rightarrow> kstate" where
  "idle_thread_init_step c i s =
     (let idle = IDLE_THREAD c s - i;
          s1 = upd_thread idle (\<lambda>th. th\<lparr>t_period := INFINITE_TIME_VALUE, t_deadline := 0, t_ddl := 0\<rparr>) s;
          s2 = upd_thread i (\<lambda>th. th\<lparr>t_weight := 0, t_remaining_timeslice := 0, t_mlfq_level := 0\<rparr>) s1;
          s3 = upd_thread idle (\<lambda>th. th\<lparr>t_time_capacity := INFINITE_TIME_VALUE, t_next_activation := 0,
                 t_remaining_time_capacity := INFINITE_TIME_VALUE, t_wakeup_time := 0,
                 t_entry := arch_idle c, t_processor_affinity := i,
                 t_base_priority := pok_sched_get_priority_min POK_SCHED_FIFO, t_state := POK_STATE_RUNNABLE\<rparr>) s2
      in case pok_context_create c idle IDLE_STACK_SIZE (arch_idle c) s3 of (sp, s4) \<Rightarrow>
           upd_thread idle (\<lambda>th. th\<lparr>t_sp := sp\<rparr>) s4)"

definition pok_idle_thread_init :: "pok_config \<Rightarrow> kstate \<Rightarrow> kstate" where
  "pok_idle_thread_init c s = fold (idle_thread_init_step c) [0..<NB_PROCESSORS c] s"

definition thread_default :: "pok_thread_t \<Rightarrow> pok_thread_t" where
  "thread_default th = th\<lparr>t_period := INFINITE_TIME_VALUE, t_deadline := 0, t_ddl := 0, t_weight := 0,
     t_remaining_timeslice := 0, t_mlfq_level := 0, t_time_capacity := INFINITE_TIME_VALUE,
     t_remaining_time_capacity := INFINITE_TIME_VALUE, t_next_activation := 0, t_wakeup_time := 0,
     t_state := POK_STATE_STOPPED, t_processor_affinity := 0\<rparr>"

definition pok_thread_init :: "pok_config \<Rightarrow> kstate \<Rightarrow> kstate" where
  "pok_thread_init c s =
     (let total_threads = sum_list (map (\<lambda>j. p_nthreads (pok_partitions s j)) [0..<NB_PARTITIONS c]);
          s1 = (if total_threads \<noteq> NB_THREADS c - 1 - NB_PROCESSORS c
                then pok_kernel_error POK_ERROR_KIND_KERNEL_CONFIG s else s)
      in pok_idle_thread_init c (fold (\<lambda>i. upd_thread i thread_default) [0..<NB_THREADS c] s1))"

subsection \<open>The insertion sort of rate-monotonic partitions\<close>

text \<open>
  \<open>while (j >= index_low && period[j] > val.period) { threads[j + 1] = threads[j]; j--; }\<close> and the final
  store, with \<open>k = j + 1\<close>. The unsigned \<open>j\<close> wraps when \<open>index_low\<close> is zero: the next access is outside
  the table.
\<close>

fun insert_sort_loop :: "nat \<Rightarrow> pok_thread_t \<Rightarrow> nat \<Rightarrow> kstate \<Rightarrow> kstate option" where
  "insert_sort_loop index_low val 0 s = (if index_low = 0 then None else Some (upd_thread 0 (\<lambda>_. val) s))"
| "insert_sort_loop index_low val (Suc j) s =
     (if j \<ge> index_low \<and> sint (t_period (pok_threads s j)) > sint (t_period val)
      then insert_sort_loop index_low val j (upd_thread (Suc j) (\<lambda>_. pok_threads s j) s)
      else Some (upd_thread (Suc j) (\<lambda>_. val) s))"

definition pok_thread_insert_sort :: "nat \<Rightarrow> nat \<Rightarrow> kstate \<Rightarrow> kstate option" where
  "pok_thread_insert_sort index_low index_high s =
     (let val = pok_threads s index_high in insert_sort_loop index_low val index_high s)"

subsection \<open>Creating a thread\<close>

text \<open>The assignments from the attributes, in the order of the code; each guard is the code's.\<close>

definition thread_from_attr ::
  "pok_config \<Rightarrow> u64 \<Rightarrow> pok_sched_t \<Rightarrow> pok_thread_attr_t \<Rightarrow> pok_thread_t \<Rightarrow> pok_thread_t" where
  "thread_from_attr c tick sched attr th0 =
     (let th1 = (if a_priority attr \<le> pok_sched_get_priority_max sched \<and>
                    a_priority attr \<ge> pok_sched_get_priority_min sched
                 then th0\<lparr>t_priority := a_priority attr, t_base_priority := a_priority attr\<rparr> else th0);
          th2 = (if a_period attr > 0
                 then th1\<lparr>t_period := a_period attr, t_next_activation := tick + a_period attr\<rparr> else th1);
          th3 = (if a_deadline attr > 0
                 then th2\<lparr>t_deadline := a_deadline attr, t_ddl := a_deadline attr + tick\<rparr> else th2);
          th4 = (if a_weight attr > 0
                 then th3\<lparr>t_weight := a_weight attr, t_remaining_timeslice := a_weight attr\<rparr> else th3);
          th5 = (if a_time_capacity attr > 0
                 then th4\<lparr>t_time_capacity := a_time_capacity attr, t_remaining_time_capacity := a_time_capacity attr\<rparr>
                 else th4\<lparr>t_remaining_time_capacity := INFINITE_TIME_VALUE, t_time_capacity := INFINITE_TIME_VALUE\<rparr>)
      in if NEEDS_SCHED_MLFQ c
         then th5\<lparr>t_mlfq_level := POK_THREAD_MLFQ_MAX_LEVEL, t_remaining_timeslice := 1\<rparr> else th5)"

definition init_mode :: "pok_partition_mode_t \<Rightarrow> bool" where
  "init_mode m = (m = POK_PARTITION_MODE_INIT_COLD \<or> m = POK_PARTITION_MODE_INIT_WARM)"

definition pok_partition_thread_create ::
  "pok_config \<Rightarrow> pok_thread_attr_t \<Rightarrow> nat \<Rightarrow> kstate \<Rightarrow> (pok_ret_t \<times> nat option \<times> kstate) option" where
  "pok_partition_thread_create c attr partition_id s0 =
     (let p = pok_partitions s0 partition_id;
          id = p_thread_index_low p + p_thread_index p
      in if \<not> init_mode (p_mode p) \<and> \<not> a_is_dynamic attr then Some (POK_ERRNO_MODE, None, s0)
         else if id \<ge> p_thread_index_high p
         then do {
           s1 \<leftarrow> pok_partition_error c (pok_current_partition s0) POK_ERROR_KIND_PARTITION_CONFIGURATION s0;
           Some (POK_ERRNO_TOOMANY, None, s1)
         }
         else do {
           let s1 = upd_partition partition_id (\<lambda>p. p\<lparr>p_thread_index := p_thread_index p + 1\<rparr>) s0;
           kassert (id \<ge> p_thread_index_low p);
           kassert (id < p_thread_index_high p);
           let s2 = upd_thread id (thread_from_attr c (pok_tick_counter s0) (p_sched p) attr) s1;
           affinity \<leftarrow> get_proc_real_id c partition_id (a_processor_affinity attr);
           let s3 = upd_thread id (\<lambda>th. th\<lparr>t_processor_affinity := affinity\<rparr>) s2;
           kassert (if multiprocessing_system c \<noteq> 0 then affinity < multiprocessing_system c else affinity = 0);
           kassert (affinity < 31 \<and> bit (partition_processor_affinity c partition_id) affinity);
           kassert (p_thread_main_entry p = a_entry attr \<longrightarrow> affinity = p_thread_main_proc p);
           let stack_vaddr = pok_thread_stack_addr c s3 partition_id (p_thread_index p + 1);
           let s4 = upd_thread id (\<lambda>th. th\<lparr>t_state := POK_STATE_RUNNABLE, t_wakeup_time := pok_tick_counter s3\<rparr>) s3;
           let (sp, s5) = pok_space_context_create c partition_id (a_entry attr) affinity stack_vaddr 0xdead 0xbeaf s4;
           let s6 = upd_thread id (\<lambda>th. th\<lparr>t_sp := sp, t_partition := partition_id, t_entry := a_entry attr,
                      t_init_stack_addr := stack_vaddr\<rparr>) s5;
           s7 \<leftarrow> (if NEEDS_SCHED_RMS c \<and> p_sched p = POK_SCHED_RMS \<and> id > p_thread_index_low p
                 then pok_thread_insert_sort ((p_thread_index_low p + 1) mod 65536) (id mod 65536) s6 else Some s6);
           Some (POK_ERRNO_OK, Some id, s7)
         })"


subsection \<open>The sort\<close>

definition period_at :: "kstate \<Rightarrow> nat \<Rightarrow> int" where
  "period_at s i = sint (t_period (pok_threads s i))"

definition periods_sorted :: "kstate \<Rightarrow> nat \<Rightarrow> nat \<Rightarrow> bool" where
  "periods_sorted s low high = sorted (map (period_at s) [low..<high])"

text \<open>The table after the loop: \<open>val\<close> at some \<open>m\<close>, the entries between \<open>m\<close> and \<open>k\<close> moved up by one.\<close>

definition inserted :: "(nat \<Rightarrow> pok_thread_t) \<Rightarrow> pok_thread_t \<Rightarrow> nat \<Rightarrow> nat \<Rightarrow> nat \<Rightarrow> pok_thread_t" where
  "inserted th val m k i = (if i = m then val else if m < i \<and> i \<le> k then th (i - 1) else th i)"

lemma insert_sort_loop_spec:
  assumes "1 \<le> low" "low \<le> k"
  shows "\<exists>m. insert_sort_loop low val k s = Some (s\<lparr>pok_threads := inserted (pok_threads s) val m k\<rparr>) \<and>
    low \<le> m \<and> m \<le> k \<and> (\<forall>i. m \<le> i \<longrightarrow> i < k \<longrightarrow> sint (t_period val) < period_at s i) \<and>
    (low < m \<longrightarrow> period_at s (m - 1) \<le> sint (t_period val))"
  using assms(2)
proof (induction k arbitrary: s)
  case 0
  then show ?case using assms(1) by simp
next
  case (Suc j)
  show ?case
  proof (cases "low \<le> j \<and> sint (t_period val) < period_at s j")
    case False
    have "inserted (pok_threads s) val (Suc j) (Suc j) = (pok_threads s)(Suc j := val)"
      by (auto simp: inserted_def fun_eq_iff)
    then have "insert_sort_loop low val (Suc j) s = Some (s\<lparr>pok_threads := inserted (pok_threads s) val (Suc j) (Suc j)\<rparr>)"
      using False by (auto simp: period_at_def upd_thread_def)
    then show ?thesis using False Suc.prems by (intro exI [of _ "Suc j"]) auto
  next
    case True
    let ?s = "upd_thread (Suc j) (\<lambda>_. pok_threads s j) s"
    obtain m where m: "insert_sort_loop low val j ?s = Some (?s\<lparr>pok_threads := inserted (pok_threads ?s) val m j\<rparr>)"
      "low \<le> m" "m \<le> j" "\<forall>i. m \<le> i \<longrightarrow> i < j \<longrightarrow> sint (t_period val) < period_at ?s i"
      "low < m \<longrightarrow> period_at ?s (m - 1) \<le> sint (t_period val)"
      using Suc.IH [of ?s] True by auto
    have p: "period_at ?s i = period_at s i" if "i \<le> j" for i
      using that by (simp add: period_at_def upd_thread_def)
    have "inserted (pok_threads ?s) val m j = inserted (pok_threads s) val m (Suc j)"
      using m(3) by (auto simp: inserted_def upd_thread_def fun_eq_iff le_Suc_eq)
    then have "insert_sort_loop low val (Suc j) s = Some (s\<lparr>pok_threads := inserted (pok_threads s) val m (Suc j)\<rparr>)"
      using True m(1) by (simp add: period_at_def upd_thread_def)
    moreover have "sint (t_period val) < period_at s i" if "m \<le> i" "i < Suc j" for i
      using that True m(4) p by (cases "i = j") auto
    moreover have "low < m \<longrightarrow> period_at s (m - 1) \<le> sint (t_period val)" using m(3,5) p by auto
    ultimately show ?thesis using m(2,3) by (intro exI [of _ m]) auto
  qed
qed

text \<open>The insertion sort of a rate-monotonic partition ends, keeps the table outside the sorted range, leaves in
  the range the same threads, and extends the order of the periods by the thread that was added at its
  end.\<close>

theorem insert_sort_correct:
  assumes "1 \<le> low" "low \<le> high" "periods_sorted s low high"
  shows "\<exists>s'. pok_thread_insert_sort low high s = Some s' \<and> periods_sorted s' low (Suc high) \<and>
    mset (map (pok_threads s') [low..<Suc high]) = mset (map (pok_threads s) [low..<Suc high]) \<and>
    (\<forall>i. i < low \<or> high < i \<longrightarrow> pok_threads s' i = pok_threads s i)"
proof -
  let ?val = "pok_threads s high" let ?p = "period_at s"
  obtain m where m: "insert_sort_loop low ?val high s = Some (s\<lparr>pok_threads := inserted (pok_threads s) ?val m high\<rparr>)"
    "low \<le> m" "m \<le> high" "\<forall>i. m \<le> i \<longrightarrow> i < high \<longrightarrow> ?p high < ?p i" "low < m \<longrightarrow> ?p (m - 1) \<le> ?p high"
    using insert_sort_loop_spec [OF assms(1,2), of ?val s] by (auto simp: period_at_def)
  let ?s = "s\<lparr>pok_threads := inserted (pok_threads s) ?val m high\<rparr>"
  have range: "[low..<Suc high] = [low..<m] @ m # [Suc m..<Suc high]"
    using m(2,3) upt_split [of low m "Suc high"] upt_conv_Cons [of m "Suc high"] by simp
  have range2: "[low..<Suc high] = [low..<m] @ [m..<high] @ [high]"
    using m(2,3) upt_split [of low m high] assms(2) by simp
  have up: "map f [Suc m..<Suc high] = map (\<lambda>i. f (Suc i)) [m..<high]" for f :: "nat \<Rightarrow> 'a"
    by (simp add: map_Suc_upt [symmetric] del: map_Suc_upt upt_Suc)
  have th: "map (pok_threads ?s) [low..<Suc high] =
      map (pok_threads s) [low..<m] @ ?val # map (pok_threads s) [m..<high]"
    unfolding range map_append list.map up by (auto simp: inserted_def)
  have "map (period_at ?s) [low..<Suc high] = map ?p [low..<m] @ ?p high # map ?p [m..<high]"
    unfolding range map_append list.map up by (auto simp: inserted_def period_at_def)
  moreover have "sorted (map ?p [low..<m] @ ?p high # map ?p [m..<high])"
  proof -
    have s: "sorted (map ?p [low..<m] @ map ?p [m..<high])"
      using assms(3) m(2,3) upt_split [of low m high] by (simp add: periods_sorted_def)
    have "?p i \<le> ?p high" if "low \<le> i" "i < m" for i
    proof -
      have "sorted (map ?p [low..<m])" using s by (simp add: sorted_append)
      from sorted_nth_mono [OF this, of "i - low" "m - 1 - low"] that
      have "?p i \<le> ?p (m - 1)" by simp
      then show ?thesis using m(5) that by auto
    qed
    then show ?thesis using s m(4) by (fastforce simp: sorted_append less_imp_le)
  qed
  ultimately have "periods_sorted ?s low (Suc high)" by (simp add: periods_sorted_def)
  moreover have "mset (map (pok_threads ?s) [low..<Suc high]) = mset (map (pok_threads s) [low..<Suc high])"
    unfolding th unfolding range2 by simp
  moreover have "\<forall>i. i < low \<or> high < i \<longrightarrow> pok_threads ?s i = pok_threads s i"
    using m(2,3) by (auto simp: inserted_def)
  ultimately show ?thesis using m(1) by (auto simp: pok_thread_insert_sort_def Let_def)
qed


lemma insert_sort_correct_witness:
  "\<exists>s'. pok_thread_insert_sort 1 2 demo_state = Some s' \<and> periods_sorted s' 1 3"
  using insert_sort_correct [of 1 2 demo_state] by (auto simp: periods_sorted_def eval_nat_numeral)

text \<open>On a slice whose threads after the main one are in order of their periods, the rate-monotonic scheduler
  elects a runnable thread with the shortest period, the main thread (the first of the slice) only when
  no other can run.\<close>

theorem rms_shortest_period:
  assumes "slice_ok c low high prev cur s" "periods_sorted s (Suc low) high"
    and "low < i" "i < high" "runnable_on s i"
  shows "\<exists>e. pok_sched_part_rms c low high prev cur s = Some (e, s) \<and> low < e \<and> e < high \<and>
    runnable_on s e \<and> sint (t_period (pok_threads s e)) \<le> sint (t_period (pok_threads s i))"
proof -
  have r: "low \<le> low" "low < high" using assms(1) by (simp_all add: slice_ok_def)
  have rest: "circ_rest low high low = [Suc low..<high]" by (simp add: circ_rest_def)
  have "find (runnable_on s) [Suc low..<high] \<noteq> None" using assms(3-5) by (auto simp: find_None_iff)
  then obtain e where e: "find (runnable_on s) [Suc low..<high] = Some e" by auto
  then obtain k where k: "k < high - Suc low" "e = Suc low + k" "runnable_on s e"
    "\<forall>j<k. \<not> runnable_on s (Suc low + j)" by (auto simp: find_Some_iff)
  have "k \<le> i - Suc low" using k(4) assms(3,5) by (metis le_add_diff_inverse not_less_eq_eq not_le Suc_leI)
  then have "map (period_at s) [Suc low..<high] ! k \<le> map (period_at s) [Suc low..<high] ! (i - Suc low)"
    using assms(2-4) by (intro sorted_nth_mono) (auto simp: periods_sorted_def)
  then have "period_at s e \<le> period_at s i" using k(1,2) assms(3,4) by simp
  moreover have "pok_sched_part_rms c low high prev cur s = Some (e, s)"
    using circ_seek_order [OF r, of "runnable_on s"] rest e k by (simp add: pok_sched_part_rms_def)
  ultimately show ?thesis using k by (auto simp: period_at_def)
qed

lemma rms_shortest_period_witness:
  "\<exists>e. pok_sched_part_rms demo_config 0 3 6 1 demo_state = Some (e, demo_state) \<and> 0 < e"
  using rms_shortest_period [OF demo_slice, of 2] by (fastforce simp: periods_sorted_def demo_thread_def period_at_def eval_nat_numeral)

subsection \<open>Creation\<close>

lemma space_context_create_frame:
  assumes "pok_space_context_create c pid e a st x y s = (sp, s')"
  shows "s' = s\<lparr>pok_x86_pm_brk := pok_x86_pm_brk s + KERNEL_STACK_SIZE, ks_trace := ks_trace s @
     [Ev_space_context sp pid e a st]\<rparr>" "sp = pok_x86_pm_brk s + KERNEL_STACK_SIZE - 4 - SPACE_CONTEXT_SIZE c"
  using assms by (auto simp: pok_space_context_create_def pok_bsp_mem_alloc_def pok_pm_sbrk_def Let_def emit_def)

text \<open>The processor a creation asks for is one of the partition's, and the assertions of the code hold.\<close>

definition create_affinity_ok :: "pok_config \<Rightarrow> kstate \<Rightarrow> nat \<Rightarrow> pok_thread_attr_t \<Rightarrow> nat \<Rightarrow> bool" where
  "create_affinity_ok c s pid attr a =
     (get_proc_real_id c pid (a_processor_affinity attr) = Some a \<and> a < 31 \<and>
      (if multiprocessing_system c \<noteq> 0 then a < multiprocessing_system c else a = 0) \<and>
      (p_thread_main_entry (pok_partitions s pid) = a_entry attr \<longrightarrow> a = p_thread_main_proc (pok_partitions s pid)))"

text \<open>The record of the created thread.\<close>

definition created_thread :: "pok_config \<Rightarrow> kstate \<Rightarrow> nat \<Rightarrow> pok_thread_attr_t \<Rightarrow> nat \<Rightarrow> pok_thread_t" where
  "created_thread c s pid attr a =
     (let p = pok_partitions s pid; id = p_thread_index_low p + p_thread_index p;
          stack = p_size p - 4 - of_nat (p_thread_index p + 1) * USER_STACK_SIZE c
      in (thread_from_attr c (pok_tick_counter s) (p_sched p) attr (pok_threads s id))
           \<lparr>t_processor_affinity := a, t_state := POK_STATE_RUNNABLE, t_wakeup_time := pok_tick_counter s,
            t_sp := pok_x86_pm_brk s + KERNEL_STACK_SIZE - 4 - SPACE_CONTEXT_SIZE c, t_partition := pid,
            t_entry := a_entry attr, t_init_stack_addr := stack\<rparr>)"

definition create_unsorted :: "pok_config \<Rightarrow> kstate \<Rightarrow> nat \<Rightarrow> pok_thread_attr_t \<Rightarrow> nat \<Rightarrow> kstate" where
  "create_unsorted c s pid attr a =
     (let p = pok_partitions s pid; id = p_thread_index_low p + p_thread_index p
      in s\<lparr>pok_partitions := (pok_partitions s)(pid := p\<lparr>p_thread_index := p_thread_index p + 1\<rparr>),
           pok_x86_pm_brk := pok_x86_pm_brk s + KERNEL_STACK_SIZE,
           ks_trace := ks_trace s @ [Ev_space_context (t_sp (created_thread c s pid attr a)) pid (a_entry attr) a
             (t_init_stack_addr (created_thread c s pid attr a))],
           pok_threads := (pok_threads s)(id := created_thread c s pid attr a)\<rparr>)"

lemma thread_create_success:
  assumes "init_mode (p_mode (pok_partitions s pid)) \<or> a_is_dynamic attr"
    and "p_thread_index_low (pok_partitions s pid) + p_thread_index (pok_partitions s pid) <
      p_thread_index_high (pok_partitions s pid)"
    and "create_affinity_ok c s pid attr a"
  shows "pok_partition_thread_create c attr pid s =
    (let p = pok_partitions s pid; id = p_thread_index_low p + p_thread_index p; s' = create_unsorted c s pid attr a
     in do {
       s'' \<leftarrow> (if NEEDS_SCHED_RMS c \<and> p_sched p = POK_SCHED_RMS \<and> id > p_thread_index_low p
             then pok_thread_insert_sort ((p_thread_index_low p + 1) mod 65536) (id mod 65536) s' else Some s');
       Some (POK_ERRNO_OK, Some id, s'')
     })"
proof -
  have bit: "bit (partition_processor_affinity c pid) a"
    using assms(3) proc_id_roundtrip [of c pid "a_processor_affinity attr" a] by (simp add: create_affinity_ok_def)
  have g: "(\<not> init_mode (p_mode (pok_partitions s pid)) \<and> \<not> a_is_dynamic attr) = False"
    "(p_thread_index_high (pok_partitions s pid) \<le>
      p_thread_index_low (pok_partitions s pid) + p_thread_index (pok_partitions s pid)) = False"
    using assms(1,2) by auto
  have k: "get_proc_real_id c pid (a_processor_affinity attr) = Some a"
    "(if multiprocessing_system c \<noteq> 0 then a < multiprocessing_system c else a = 0) = True"
    "(a < 31 \<and> bit (partition_processor_affinity c pid) a) = True"
    "(p_thread_main_entry (pok_partitions s pid) = a_entry attr \<longrightarrow> a = p_thread_main_proc (pok_partitions s pid)) = True"
    using assms(3) bit unfolding create_affinity_ok_def eq_True by blast+
  show ?thesis
    unfolding pok_partition_thread_create_def Let_def g k if_False le_add1 eqTrueI [OF assms(2)]
      kassert_simps bind.simps
    by (simp add: create_unsorted_def created_thread_def pok_space_context_create_def pok_bsp_mem_alloc_def
        pok_pm_sbrk_def emit_def upd_thread_def upd_partition_def pok_thread_stack_addr_def Let_def)
qed


lemma u8_le_255: "(x :: u8) \<le> 255"
proof -
  have "(255 :: u8) = - 1" by simp
  then show ?thesis using word_order.extremum by metis
qed

text \<open>Without an affinity that the assertions accept, the creation stops at one of them.\<close>

lemma thread_create_asserts:
  assumes "init_mode (p_mode (pok_partitions s pid)) \<or> a_is_dynamic attr"
    and "p_thread_index_low (pok_partitions s pid) + p_thread_index (pok_partitions s pid) <
      p_thread_index_high (pok_partitions s pid)"
    and "\<nexists>a. create_affinity_ok c s pid attr a"
  shows "pok_partition_thread_create c attr pid s = None"
proof (cases "get_proc_real_id c pid (a_processor_affinity attr)")
  case None
  then show ?thesis using assms(1,2) by (auto simp: pok_partition_thread_create_def Let_def)
next
  case (Some a)
  then have "\<not> create_affinity_ok c s pid attr a" using assms(3) by blast
  then have "\<not> (if multiprocessing_system c \<noteq> 0 then a < multiprocessing_system c else a = 0) \<or> \<not> a < 31 \<or>
      \<not> (p_thread_main_entry (pok_partitions s pid) = a_entry attr \<longrightarrow> a = p_thread_main_proc (pok_partitions s pid))"
    using Some by (auto simp: create_affinity_ok_def)
  then show ?thesis using Some assms(1,2)
    by (auto simp: pok_partition_thread_create_def Let_def kassert_def split: if_splits)
qed

text \<open>C30: Creating a thread in a partition returns an error and changes nothing when the partition is past its
  initialisation and the thread is not dynamic, or when the partition is full (which stops a kernel built for debugging);
  otherwise it stops at an assertion, in a kernel built with them, unless the processor asked for is one of the partition, and the one of the main thread
  for the entry point of the main thread; and otherwise it takes the next slot of the partition, for a runnable thread of that
  partition on that processor with the period, deadline and budget of the attributes, counted from the current tick. The
  thread is put at this slot and no other changes, except in a rate-monotonic partition: there it is put behind the threads
  of the partition whose periods are not longer, and those with longer periods move up by one; the number that is
  returned is the one of the slot in any case.\<close>

theorem thread_create_correct:
  fixes c :: pok_config and s :: kstate and pid :: nat and attr :: pok_thread_attr_t
  defines "p \<equiv> pok_partitions s pid"
  defines "tid \<equiv> p_thread_index_low p + p_thread_index p"
  assumes "p_thread_index_high p < 65536"
  shows "if \<not> init_mode (p_mode p) \<and> \<not> a_is_dynamic attr
    then pok_partition_thread_create c attr pid s = Some (POK_ERRNO_MODE, None, s)
    else if p_thread_index_high p \<le> tid
    then pok_partition_thread_create c attr pid s = (if NEEDS_DEBUG c then None else Some (POK_ERRNO_TOOMANY, None, s))
    else if \<nexists>a. create_affinity_ok c s pid attr a then pok_partition_thread_create c attr pid s = None
    else \<exists>a m th s'. create_affinity_ok c s pid attr a \<and>
      pok_partition_thread_create c attr pid s = Some (POK_ERRNO_OK, Some tid, s') \<and>
      p_thread_index (pok_partitions s' pid) = p_thread_index p + 1 \<and>
      pok_threads s' = inserted (pok_threads s) th m tid \<and> m \<le> tid \<and>
      (m = tid \<or> NEEDS_SCHED_RMS c \<and> p_sched p = POK_SCHED_RMS \<and> p_thread_index_low p < m) \<and>
      (\<forall>i. m \<le> i \<longrightarrow> i < tid \<longrightarrow> sint (t_period th) < period_at s i) \<and>
      (NEEDS_SCHED_RMS c \<and> p_sched p = POK_SCHED_RMS \<and> p_thread_index_low p + 1 < m \<longrightarrow> period_at s (m - 1) \<le> sint (t_period th)) \<and>
      t_state th = POK_STATE_RUNNABLE \<and> t_partition th = pid \<and> t_entry th = a_entry attr \<and>
      t_priority th = a_priority attr \<and> t_processor_affinity th = a \<and>
      bit (partition_processor_affinity c pid) a \<and>
      (a_period attr > 0 \<longrightarrow> t_period th = a_period attr \<and>
         t_next_activation th = pok_tick_counter s + a_period attr) \<and>
      (a_deadline attr > 0 \<longrightarrow> t_deadline th = a_deadline attr \<and>
         t_ddl th = a_deadline attr + pok_tick_counter s) \<and>
      t_remaining_time_capacity th = t_time_capacity th \<and>
      t_time_capacity th = (if a_time_capacity attr > 0 then a_time_capacity attr else INFINITE_TIME_VALUE)"
proof -
  consider (mode) "\<not> init_mode (p_mode p) \<and> \<not> a_is_dynamic attr"
    | (full) "init_mode (p_mode p) \<or> a_is_dynamic attr" "p_thread_index_high p \<le> tid"
    | (stop) "init_mode (p_mode p) \<or> a_is_dynamic attr" "tid < p_thread_index_high p" "\<nexists>a. create_affinity_ok c s pid attr a"
    | (ok) a where "init_mode (p_mode p) \<or> a_is_dynamic attr" "tid < p_thread_index_high p" "create_affinity_ok c s pid attr a"
    by fastforce
  then show ?thesis
  proof cases
    case mode
    then show ?thesis by (simp add: pok_partition_thread_create_def p_def Let_def)
  next
    case full
    then show ?thesis by (auto simp: pok_partition_thread_create_def p_def tid_def Let_def pok_partition_error_def)
  next
    case stop
    then show ?thesis using thread_create_asserts [of s pid attr c] by (simp add: p_def tid_def)
  next
    case ok
    let ?s = "create_unsorted c s pid attr a" and ?th = "created_thread c s pid attr a" and ?low = "p_thread_index_low p + 1"
    have at: "pok_threads ?s = (pok_threads s)(tid := ?th)" by (simp add: create_unsorted_def p_def tid_def Let_def)
    have put: "inserted (pok_threads ?s) ?th m tid = inserted (pok_threads s) ?th m tid" if "m \<le> tid" for m
      using that by (auto simp: at inserted_def fun_eq_iff)
    have bit: "bit (partition_processor_affinity c pid) a"
      using ok(3) proc_id_roundtrip [of c pid "a_processor_affinity attr" a] by (simp add: create_affinity_ok_def)
    have prio: "t_priority ?th = a_priority attr"
      by (simp add: created_thread_def thread_from_attr_def Let_def pok_sched_get_priority_max_def
          pok_sched_get_priority_min_def u8_le_255)
    obtain m where c: "pok_partition_thread_create c attr pid s =
        Some (POK_ERRNO_OK, Some tid, ?s\<lparr>pok_threads := inserted (pok_threads s) ?th m tid\<rparr>)" and m: "m \<le> tid"
        "m = tid \<or> NEEDS_SCHED_RMS c \<and> p_sched p = POK_SCHED_RMS \<and> p_thread_index_low p < m"
        "\<forall>i. m \<le> i \<longrightarrow> i < tid \<longrightarrow> sint (t_period ?th) < period_at s i"
        "NEEDS_SCHED_RMS c \<and> p_sched p = POK_SCHED_RMS \<and> p_thread_index_low p + 1 < m \<longrightarrow> period_at s (m - 1) \<le> sint (t_period ?th)"
    proof (cases "NEEDS_SCHED_RMS c \<and> p_sched p = POK_SCHED_RMS \<and> tid > p_thread_index_low p")
      case False
      have "inserted (pok_threads s) ?th tid tid = pok_threads ?s" by (auto simp: at inserted_def fun_eq_iff)
      then have "pok_partition_thread_create c attr pid s =
          Some (POK_ERRNO_OK, Some tid, ?s\<lparr>pok_threads := inserted (pok_threads s) ?th tid tid\<rparr>)"
        using thread_create_success [of s pid attr c a] ok False by (auto simp: p_def tid_def Let_def)
      moreover have "\<not> (NEEDS_SCHED_RMS c \<and> p_sched p = POK_SCHED_RMS \<and> p_thread_index_low p + 1 < tid)" using False by auto
      ultimately show ?thesis by (intro that [of tid]) auto
    next
      case True
      have low: "1 \<le> ?low" "?low \<le> tid" using True by simp_all
      obtain m where m: "insert_sort_loop ?low ?th tid ?s = Some (?s\<lparr>pok_threads := inserted (pok_threads ?s) ?th m tid\<rparr>)"
        "?low \<le> m" "m \<le> tid" "\<forall>i. m \<le> i \<longrightarrow> i < tid \<longrightarrow> sint (t_period ?th) < period_at ?s i"
        "?low < m \<longrightarrow> period_at ?s (m - 1) \<le> sint (t_period ?th)"
        using insert_sort_loop_spec [OF low, of ?th ?s] by blast
      have "?low mod 65536 = ?low" "tid mod 65536 = tid" "pok_threads ?s tid = ?th" using assms(3) ok(2) low by (simp_all add: at)
      then have "pok_partition_thread_create c attr pid s =
          Some (POK_ERRNO_OK, Some tid, ?s\<lparr>pok_threads := inserted (pok_threads s) ?th m tid\<rparr>)"
        using thread_create_success [of s pid attr c a] ok True m(1) put [OF m(3)]
        by (simp add: p_def tid_def Let_def pok_thread_insert_sort_def)
      moreover have "period_at ?s i = period_at s i" if "i < tid" for i using that by (simp add: period_at_def at)
      ultimately show ?thesis using m(2-5) True by (intro that [of m]) auto
    qed
    have "\<exists>a m th s'. create_affinity_ok c s pid attr a \<and>
      pok_partition_thread_create c attr pid s = Some (POK_ERRNO_OK, Some tid, s') \<and>
      p_thread_index (pok_partitions s' pid) = p_thread_index p + 1 \<and>
      pok_threads s' = inserted (pok_threads s) th m tid \<and> m \<le> tid \<and>
      (m = tid \<or> NEEDS_SCHED_RMS c \<and> p_sched p = POK_SCHED_RMS \<and> p_thread_index_low p < m) \<and>
      (\<forall>i. m \<le> i \<longrightarrow> i < tid \<longrightarrow> sint (t_period th) < period_at s i) \<and>
      (NEEDS_SCHED_RMS c \<and> p_sched p = POK_SCHED_RMS \<and> p_thread_index_low p + 1 < m \<longrightarrow> period_at s (m - 1) \<le> sint (t_period th)) \<and>
      t_state th = POK_STATE_RUNNABLE \<and> t_partition th = pid \<and> t_entry th = a_entry attr \<and>
      t_priority th = a_priority attr \<and> t_processor_affinity th = a \<and>
      bit (partition_processor_affinity c pid) a \<and>
      (a_period attr > 0 \<longrightarrow> t_period th = a_period attr \<and>
         t_next_activation th = pok_tick_counter s + a_period attr) \<and>
      (a_deadline attr > 0 \<longrightarrow> t_deadline th = a_deadline attr \<and>
         t_ddl th = a_deadline attr + pok_tick_counter s) \<and>
      t_remaining_time_capacity th = t_time_capacity th \<and>
      t_time_capacity th = (if a_time_capacity attr > 0 then a_time_capacity attr else INFINITE_TIME_VALUE)"
      by (intro exI [of _ a] exI [of _ m] exI [of _ ?th] exI [of _ "?s\<lparr>pok_threads := inserted (pok_threads s) ?th m tid\<rparr>"] conjI)
        (fact ok c m bit prio | simp add: create_unsorted_def created_thread_def thread_from_attr_def p_def Let_def)+
    moreover have "\<not> (\<not> init_mode (p_mode p) \<and> \<not> a_is_dynamic attr)" "\<not> p_thread_index_high p \<le> tid"
      "\<not> (\<nexists>a. create_affinity_ok c s pid attr a)" using ok by auto
    ultimately show ?thesis by (simp only: if_False)
  qed
qed


definition demo_init_state :: kstate where
  "demo_init_state = upd_partition 0 (\<lambda>p. p\<lparr>p_mode := POK_PARTITION_MODE_INIT_WARM\<rparr>) demo_state"

lemma demo_create_affinity: "create_affinity_ok demo_config demo_init_state 0 demo_attr 0"
  by (simp add: create_affinity_ok_def get_proc_real_id_first demo_attr_def demo_init_state_def upd_partition_def
      demo_partition_def)

lemma thread_create_correct_witness:
  "\<exists>s'. pok_partition_thread_create demo_config demo_attr 0 demo_init_state = Some (POK_ERRNO_OK, Some 2, s') \<and>
     p_thread_index (pok_partitions s' 0) = 3"
proof -
  have p: "pok_partitions demo_init_state 0 = (demo_partition 0)\<lparr>p_mode := POK_PARTITION_MODE_INIT_WARM\<rparr>"
    by (simp add: demo_init_state_def upd_partition_def)
  have "\<exists>a. create_affinity_ok demo_config demo_init_state 0 demo_attr a" using demo_create_affinity by blast
  then have "\<exists>s'. pok_partition_thread_create demo_config demo_attr 0 demo_init_state = Some (POK_ERRNO_OK, Some 2, s') \<and>
      p_thread_index (pok_partitions s' 0) = 2 + 1"
    using thread_create_correct [of demo_init_state 0 demo_attr demo_config] by (auto simp: p demo_partition_def init_mode_def)
  then show ?thesis by simp
qed

text \<open>In a rate-monotonic partition the identifier a creation returns is not always that of the created
  thread: when the thread in the slot before has a longer period, the sort moves that thread into the
  slot whose number is returned.\<close>

theorem rms_create_returns_moved_id:
  fixes c :: pok_config and s :: kstate and pid :: nat and attr :: pok_thread_attr_t
  defines "p \<equiv> pok_partitions s pid"
  defines "tid \<equiv> p_thread_index_low p + p_thread_index p"
  assumes "create_affinity_ok c s pid attr a" "init_mode (p_mode p)" "NEEDS_SCHED_RMS c" "p_sched p = POK_SCHED_RMS"
    and "1 < p_thread_index p" "tid < p_thread_index_high p" "p_thread_index_high p < 65536"
    and "a_period attr > 0" "sint (t_period (pok_threads s (tid - 1))) > sint (a_period attr)"
  shows "\<exists>s'. pok_partition_thread_create c attr pid s = Some (POK_ERRNO_OK, Some tid, s') \<and>
    pok_threads s' tid = pok_threads s (tid - 1) \<and> t_period (pok_threads s' tid) \<noteq> a_period attr"
proof -
  let ?s = "create_unsorted c s pid attr a" let ?low = "p_thread_index_low p + 1"
  have th: "pok_threads ?s tid = created_thread c s pid attr a" "pok_threads ?s (tid - 1) = pok_threads s (tid - 1)"
    using assms(7) by (simp_all add: create_unsorted_def p_def tid_def Let_def)
  have per: "t_period (created_thread c s pid attr a) = a_period attr"
    using assms(10) by (simp add: created_thread_def thread_from_attr_def Let_def)
  have low: "1 \<le> ?low" "?low \<le> tid" using assms(7) by (simp_all add: tid_def)
  obtain m where m: "insert_sort_loop ?low (pok_threads ?s tid) tid ?s =
      Some (?s\<lparr>pok_threads := inserted (pok_threads ?s) (pok_threads ?s tid) m tid\<rparr>)"
    "m \<le> tid" "?low < m \<longrightarrow> period_at ?s (m - 1) \<le> sint (t_period (pok_threads ?s tid))"
    using insert_sort_loop_spec [OF low, of "pok_threads ?s tid" ?s] by blast
  have "m \<noteq> tid"
  proof
    assume "m = tid"
    moreover have "?low < tid" using assms(7) by (simp add: tid_def)
    ultimately show False using m(3) th per assms(11) by (simp add: period_at_def)
  qed
  then have "inserted (pok_threads ?s) (pok_threads ?s tid) m tid tid = pok_threads s (tid - 1)"
    using m(2) th by (auto simp: inserted_def)
  moreover have "?low mod 65536 = ?low" "tid mod 65536 = tid"
    using assms(7-9) by (simp_all add: tid_def)
  then have "pok_partition_thread_create c attr pid s = Some (POK_ERRNO_OK, Some tid,
      ?s\<lparr>pok_threads := inserted (pok_threads ?s) (pok_threads ?s tid) m tid\<rparr>)"
    using thread_create_success [of s pid attr c a] assms(3-8) m(1)
    by (simp add: p_def tid_def Let_def pok_thread_insert_sort_def)
  ultimately show ?thesis using assms(11) by auto
qed

lemma rms_create_returns_moved_id_witness:
  "\<exists>s s'. t_period (pok_threads s 1) = 50 \<and>
     pok_partition_thread_create demo_config (demo_attr\<lparr>a_period := 20\<rparr>) 0 s = Some (POK_ERRNO_OK, Some 2, s') \<and>
     t_period (pok_threads s' 2) \<noteq> 20"
proof -
  define s where "s = upd_partition 0 (\<lambda>p. p\<lparr>p_sched := POK_SCHED_RMS\<rparr>) demo_init_state"
  have p: "pok_partitions s 0 = (demo_partition 0)\<lparr>p_mode := POK_PARTITION_MODE_INIT_WARM, p_sched := POK_SCHED_RMS\<rparr>"
    "pok_threads s = demo_thread"
    by (simp_all add: s_def demo_init_state_def upd_partition_def)
  have "create_affinity_ok demo_config s 0 (demo_attr\<lparr>a_period := 20\<rparr>) 0"
    by (simp add: create_affinity_ok_def get_proc_real_id_first demo_attr_def p demo_partition_def)
  from rms_create_returns_moved_id [OF this]
  have "\<exists>s'. pok_partition_thread_create demo_config (demo_attr\<lparr>a_period := 20\<rparr>) 0 s = Some (POK_ERRNO_OK, Some 2, s') \<and>
     t_period (pok_threads s' 2) \<noteq> 20"
    by (simp add: p demo_partition_def init_mode_def demo_thread_def) (fastforce simp: eval_nat_numeral)
  moreover have "t_period (pok_threads s 1) = 50" by (simp add: p demo_thread_def)
  ultimately show ?thesis by blast
qed

subsection \<open>The initial thread table\<close>

lemma idle_thread_init_step_frame:
  "proc_id (idle_thread_init_step c i s) = proc_id s"
  "pok_partitions (idle_thread_init_step c i s) = pok_partitions s"
  by (simp_all add: idle_thread_init_step_def Let_def pok_context_create_def pok_bsp_mem_alloc_def
      pok_pm_sbrk_def upd_thread_def emit_def)

lemma idle_thread_init_step_other:
  assumes "j \<noteq> IDLE_THREAD c s - i" "j \<noteq> i"
  shows "pok_threads (idle_thread_init_step c i s) j = pok_threads s j"
  using assms by (simp add: idle_thread_init_step_def Let_def pok_context_create_def pok_bsp_mem_alloc_def
      pok_pm_sbrk_def upd_thread_def emit_def)

text \<open>The facts the kernel needs of a thread it has not created.\<close>

definition idle_ready :: "pok_thread_t \<Rightarrow> nat \<Rightarrow> bool" where
  "idle_ready th i = (t_state th = POK_STATE_RUNNABLE \<and> t_processor_affinity th = i \<and>
     \<not> pos64 (t_remaining_time_capacity th) \<and> t_period th = INFINITE_TIME_VALUE)"

definition thread_unused :: "pok_thread_t \<Rightarrow> bool" where
  "thread_unused th = (t_state th = POK_STATE_STOPPED \<and> t_processor_affinity th = 0 \<and>
     t_time_capacity th = INFINITE_TIME_VALUE)"

lemma idle_thread_init_step_idle:
  assumes "i \<noteq> IDLE_THREAD c s - i"
  shows "idle_ready (pok_threads (idle_thread_init_step c i s) (IDLE_THREAD c s - i)) i"
    and "thread_unused (pok_threads s i) \<Longrightarrow> thread_unused (pok_threads (idle_thread_init_step c i s) i)"
  using assms by (simp_all add: idle_thread_init_step_def Let_def pok_context_create_def pok_bsp_mem_alloc_def
      pok_pm_sbrk_def upd_thread_def emit_def idle_ready_def thread_unused_def INFINITE_TIME_VALUE_def)

lemma idle_thread_init_fold:
  assumes "2 * n \<le> NB_THREADS c - 1 - proc_id s" "\<forall>j<NB_THREADS c. thread_unused (pok_threads s j)"
  shows "let s' = fold (idle_thread_init_step c) [0..<n] s
    in proc_id s' = proc_id s \<and> (\<forall>i<n. idle_ready (pok_threads s' (IDLE_THREAD c s - i)) i) \<and>
      (\<forall>j<NB_THREADS c. (\<forall>i<n. j \<noteq> IDLE_THREAD c s - i) \<longrightarrow> thread_unused (pok_threads s' j))"
  using assms(1)
proof (induction n)
  case 0
  then show ?case using assms(2) by simp
next
  case (Suc n)
  let ?s = "fold (idle_thread_init_step c) [0..<n] s"
  have IH: "proc_id ?s = proc_id s" "\<And>i. i < n \<Longrightarrow> idle_ready (pok_threads ?s (IDLE_THREAD c s - i)) i"
    "\<And>j. j < NB_THREADS c \<Longrightarrow> (\<forall>i<n. j \<noteq> IDLE_THREAD c s - i) \<Longrightarrow> thread_unused (pok_threads ?s j)"
    using Suc by (auto simp: Let_def)
  have id: "IDLE_THREAD c ?s = IDLE_THREAD c s" using IH(1) by (simp add: IDLE_THREAD_def)
  have lt: "n < IDLE_THREAD c s - n" "IDLE_THREAD c s < NB_THREADS c"
    using Suc.prems by (simp_all add: IDLE_THREAD_def)
  let ?s' = "idle_thread_init_step c n ?s"
  have "idle_ready (pok_threads ?s' (IDLE_THREAD c s - i)) i" if "i < Suc n" for i
  proof (cases "i = n")
    case True
    then show ?thesis using idle_thread_init_step_idle(1) [of n c ?s] lt id by simp
  next
    case False
    then have "pok_threads ?s' (IDLE_THREAD c s - i) = pok_threads ?s (IDLE_THREAD c s - i)"
      using idle_thread_init_step_other [of "IDLE_THREAD c s - i" c ?s n] id lt that by auto
    then show ?thesis using IH(2) False that by simp
  qed
  moreover have "thread_unused (pok_threads ?s' j)" if "j < NB_THREADS c" "\<forall>i<Suc n. j \<noteq> IDLE_THREAD c s - i" for j
  proof -
    have u: "thread_unused (pok_threads ?s j)" using IH(3) that by auto
    show ?thesis
    proof (cases "j = n")
      case True
      then show ?thesis using idle_thread_init_step_idle(2) [of n c ?s] lt id u by simp
    next
      case False
      then show ?thesis using idle_thread_init_step_other [of j c ?s n] id that(2) u by simp
    qed
  qed
  ultimately show ?case using idle_thread_init_step_frame IH(1) by (simp add: Let_def)
qed

lemma fold_thread_default:
  "pok_threads (fold (\<lambda>i. upd_thread i thread_default) [0..<n] s) j =
     (if j < n then thread_default (pok_threads s j) else pok_threads s j) \<and>
   proc_id (fold (\<lambda>i. upd_thread i thread_default) [0..<n] s) = proc_id s"
  by (induction n) (auto simp: upd_thread_def)

text \<open>After \<open>pok_thread_init\<close> the idle thread of every processor is runnable on its processor and has no
  budget, and every other thread of the table is stopped with an infinite capacity.\<close>

theorem thread_init_correct:
  assumes "proc_id s = 0" "2 * NB_PROCESSORS c \<le> NB_THREADS c - 1"
  shows "let s' = pok_thread_init c s
    in (\<forall>i<NB_PROCESSORS c. idle_ready (pok_threads s' (NB_THREADS c - 2 - i)) i) \<and>
      (\<forall>j<NB_THREADS c. (\<forall>i<NB_PROCESSORS c. j \<noteq> NB_THREADS c - 2 - i) \<longrightarrow> thread_unused (pok_threads s' j))"
proof -
  let ?s = "fold (\<lambda>i. upd_thread i thread_default) [0..<NB_THREADS c] s"
  have "\<forall>j<NB_THREADS c. thread_unused (pok_threads ?s j)"
    by (simp add: fold_thread_default thread_default_def thread_unused_def)
  from idle_thread_init_fold [OF _ this, of "NB_PROCESSORS c"] assms
  show ?thesis
    by (simp add: fold_thread_default pok_thread_init_def pok_idle_thread_init_def pok_kernel_error_def Let_def
        IDLE_THREAD_def)
qed

lemma thread_init_correct_witness:
  "idle_ready (pok_threads (pok_thread_init demo_config demo_state) 6) 0 \<and>
   t_state (pok_threads (pok_thread_init demo_config demo_state) 5) = POK_STATE_STOPPED"
  using thread_init_correct [of demo_state demo_config] by (simp add: Let_def thread_unused_def)

end
