(* ===== verification/Pok_Sched.thy ===== *)
theory Pok_Sched
  imports Pok_Thread_Create
begin

text \<open>
  The local scheduler of \<open>kernel/core/sched.c\<close>: the election of the next thread of a partition
  (\<open>pok_elect_thread\<close>, in its stages), the switch to it (\<open>pok_sched_thread\<close>, \<open>pok_sched_context_switch\<close>)
  and the operations that block, stop, wake and activate threads.

  \<open>pok_context_switch\<close> saves the stack of the running thread and resumes another one; the code after it
  runs when the thread is resumed in turn. The model continues, at that point, in the state
  \<open>arch_context_switch c t s\<close> of the deployment, an arbitrary function, so that a theorem about a blocking
  operation holds whatever the rest of the system does in between. \<open>resume_ok\<close> states the one fact about
  it the code relies on: the thread that resumes is the current thread of its processor again.
\<close>

subsection \<open>Election\<close>

text \<open>The creation of the urgent task after a missed deadline (\<open>POK_NEEDS_DDL_PUNISH\<close>).\<close>

definition ddl_punish :: "pok_config \<Rightarrow> kstate \<Rightarrow> kstate option" where
  "ddl_punish c s =
     (if NEEDS_DDL_PUNISH c \<and> t_deadline (POK_CURRENT_THREAD s) > 0 \<and>
         t_ddl (POK_CURRENT_THREAD s) < pok_tick_counter s \<and> urgent_task_flag s
      then do {
        let tattr = (junk_attr c)\<lparr>a_priority := 255, a_entry := urgent_task c, a_processor_affinity := 0,
                      a_time_capacity := 100, a_deadline := 200000000, a_weight := 1000000000\<rparr>;
        (ret, tid, s') \<leftarrow> pok_partition_thread_create c tattr (pok_current_partition s)
                           (s\<lparr>urgent_task_flag := False\<rparr>);
        Some s'
      }
      else Some s)"

text \<open>The body of the activation loop, on one thread record.\<close>

definition wake_waiting :: "u64 \<Rightarrow> pok_thread_t \<Rightarrow> pok_thread_t" where
  "wake_waiting now th =
     (if t_state th = POK_STATE_WAITING \<and> t_wakeup_time th \<le> now then th\<lparr>t_state := POK_STATE_RUNNABLE\<rparr> else th)"

definition release_period :: "u64 \<Rightarrow> pok_thread_t \<Rightarrow> pok_thread_t option" where
  "release_period now th =
     (if t_state th = POK_STATE_WAIT_NEXT_ACTIVATION \<and> t_next_activation th \<le> now
      then do {
        let th1 = th\<lparr>t_ddl := t_next_activation th + t_deadline th\<rparr>;
        kassert (t_time_capacity th1 \<noteq> 0);
        Some (th1\<lparr>t_state := POK_STATE_RUNNABLE, t_remaining_time_capacity := t_time_capacity th1,
                t_next_activation := t_next_activation th1 + t_period th1\<rparr>)
      }
      else Some th)"

definition activate_thread :: "pok_config \<Rightarrow> nat \<Rightarrow> kstate \<Rightarrow> kstate option" where
  "activate_thread c t s =
     (let th = pok_threads s t
      in if t_processor_affinity th = proc_id s
         then do {
           th' \<leftarrow> release_period (pok_tick_counter s) (wake_waiting (pok_tick_counter s) th);
           Some (upd_thread t (\<lambda>_. th') s)
         }
         else Some s)"

text \<open>The loop counter is a byte: with more than 255 threads it never reaches the bound.\<close>

definition activate_threads :: "pok_config \<Rightarrow> nat \<Rightarrow> kstate \<Rightarrow> kstate option" where
  "activate_threads c pid s =
     (let p = pok_partitions s pid
      in if p_nthreads p > 255 then None
         else for_loop [0..<p_nthreads p] (\<lambda>i. activate_thread c (p_thread_index_low p + i)) s)"

text \<open>The accounting of the running thread's budget.\<close>

definition account_budget :: "pok_config \<Rightarrow> kstate \<Rightarrow> kstate" where
  "account_budget c s =
     (let cur = POK_SCHED_CURRENT_THREAD s
      in if cur \<noteq> IDLE_THREAD c s \<and> cur \<noteq> p_thread_main (POK_CURRENT_PARTITION s) \<and>
            cur \<noteq> p_thread_error (POK_CURRENT_PARTITION s)
         then let s1 = (if pos64 (t_time_capacity (pok_threads s cur))
                        then upd_thread cur (\<lambda>th. th\<lparr>t_remaining_time_capacity := t_remaining_time_capacity th - 1\<rparr>) s
                        else s)
              in if pos64 (t_time_capacity (pok_threads s1 cur)) \<and>
                    \<not> pos64 (t_remaining_time_capacity (pok_threads s1 cur))
                 then upd_thread cur (\<lambda>th. th\<lparr>t_state := POK_STATE_WAIT_NEXT_ACTIVATION\<rparr>) s1
                 else s1
         else s)"

text \<open>The switch on the mode of the partition. The election of the error thread in the
  initialisation modes is overwritten by the statement after it.\<close>

definition elect_by_mode :: "pok_config \<Rightarrow> nat \<Rightarrow> kstate \<Rightarrow> (nat \<times> kstate) option" where
  "elect_by_mode c pid s =
     (let p = pok_partitions s pid
      in if init_mode (p_mode p)
         then Some (if proc_id s = p_thread_main_proc p then p_thread_main p else IDLE_THREAD c s, s)
         else if p_mode p = POK_PARTITION_MODE_NORMAL
         then if CURRENT_THREAD s pid = p_thread_error p \<and>
                 t_state (pok_threads s (CURRENT_THREAD s pid)) = POK_STATE_RUNNABLE
              then Some (p_thread_error p, s)
              else let s1 = account_budget c s
                   in call_sched_func c (p_sched_func p) (p_thread_index_low p) (p_thread_index_high p)
                        (PREV_THREAD s1 pid) (CURRENT_THREAD s1 pid) s1
         else Some (IDLE_THREAD c s, s))"

definition set_end_time :: "u64 \<Rightarrow> nat \<Rightarrow> kstate \<Rightarrow> kstate" where
  "set_end_time now elected s =
     (if pos64 (t_time_capacity (pok_threads s (POK_SCHED_CURRENT_THREAD s)))
      then upd_thread elected (\<lambda>th. th\<lparr>t_end_time := now + t_remaining_time_capacity th\<rparr>) s else s)"

definition pok_elect_thread :: "pok_config \<Rightarrow> nat \<Rightarrow> kstate \<Rightarrow> (nat \<times> kstate) option" where
  "pok_elect_thread c new_partition_id s = do {
     let now = pok_tick_counter s;
     s1 \<leftarrow> ddl_punish c s;
     s2 \<leftarrow> activate_threads c new_partition_id s1;
     (elected, s3) \<leftarrow> elect_by_mode c new_partition_id s2;
     Some (elected, set_end_time now elected s3)
   }"

subsection \<open>Switching\<close>

definition pok_end_ipi :: "kstate \<Rightarrow> kstate" where
  "pok_end_ipi s = emit Ev_end_ipi s"

definition pok_sched_context_switch :: "pok_config \<Rightarrow> nat \<Rightarrow> bool \<Rightarrow> kstate \<Rightarrow> kstate option" where
  "pok_sched_context_switch c elected_id is_source_processor s =
     (if POK_SCHED_CURRENT_THREAD s = elected_id
      then Some (if \<not> is_source_processor then pok_end_ipi s else s)
      else do {
        kassert (spinlocks s (proc_id s) = 0);
        let current = POK_SCHED_CURRENT_THREAD s;
        let new_sp = t_sp (pok_threads s elected_id);
        let s1 = s\<lparr>current_threads := (current_threads s)(proc_id s := elected_id)\<rparr>;
        let s2 = (if \<not> is_source_processor then pok_end_ipi s1 else s1);
        let s3 = emit (Ev_context_switch current new_sp) s2;
        Some (arch_context_switch c current s3)
      })"

text \<open>The record, in the partition, of the thread that runs and of the one that ran before.\<close>

definition set_partition_current :: "pok_config \<Rightarrow> nat \<Rightarrow> nat \<Rightarrow> kstate \<Rightarrow> kstate" where
  "set_partition_current c pid elected s =
     (if CURRENT_THREAD s pid \<noteq> elected
      then let s1 = (if CURRENT_THREAD s pid \<noteq> IDLE_THREAD c s
                     then upd_partition pid (\<lambda>p. p\<lparr>p_prev_thread := (p_prev_thread p)(proc_id s := CURRENT_THREAD s pid)\<rparr>) s
                     else s)
           in upd_partition pid (\<lambda>p. p\<lparr>p_current_thread := (p_current_thread p)(proc_id s := elected)\<rparr>) s1
      else s)"

text \<open>\<open>pok_sched_thread\<close>; the elected thread is held in a byte.\<close>

definition pok_sched_thread :: "pok_config \<Rightarrow> bool \<Rightarrow> kstate \<Rightarrow> kstate option" where
  "pok_sched_thread c is_source_processor s = do {
     (e, s1) \<leftarrow> pok_elect_thread c (pok_current_partition s) s;
     let elected_thread = e mod 256;
     let s2 = set_partition_current c (pok_current_partition s1) elected_thread s1;
     pok_sched_context_switch c elected_thread is_source_processor s2
   }"

definition pok_threads_schedule_one_proc :: "pok_config \<Rightarrow> nat \<Rightarrow> kstate \<Rightarrow> kstate option" where
  "pok_threads_schedule_one_proc c dest s =
     (if multiprocessing_system c \<noteq> 0
      then if dest = proc_id s then pok_sched_thread c True s else Some (emit (Ev_send_schedule_thread dest) s)
      else do { kassert (dest = 0); pok_sched_thread c True s })"

definition pok_threads_schedule_every_proc :: "pok_config \<Rightarrow> kstate \<Rightarrow> kstate option" where
  "pok_threads_schedule_every_proc c s =
     pok_sched_thread c True
       (if multiprocessing_system c \<noteq> 0 then emit Ev_send_schedule_thread_other_processors s else s)"

subsection \<open>Blocking, stopping and waking threads\<close>

definition pok_sched_unlock_thread :: "nat \<Rightarrow> kstate \<Rightarrow> kstate" where
  "pok_sched_unlock_thread thread_id s = upd_thread thread_id (\<lambda>th. th\<lparr>t_state := POK_STATE_RUNNABLE\<rparr>) s"

definition pok_sched_lock_current_thread :: "kstate \<Rightarrow> kstate" where
  "pok_sched_lock_current_thread s =
     upd_thread (POK_SCHED_CURRENT_THREAD s) (\<lambda>th. th\<lparr>t_state := POK_STATE_LOCK\<rparr>) s"

definition pok_sched_lock_current_thread_timed :: "u64 \<Rightarrow> kstate \<Rightarrow> kstate" where
  "pok_sched_lock_current_thread_timed time s =
     upd_thread (POK_SCHED_CURRENT_THREAD s) (\<lambda>th. th\<lparr>t_state := POK_STATE_WAITING, t_wakeup_time := time\<rparr>) s"

definition pok_sched_stop_self :: "pok_config \<Rightarrow> kstate \<Rightarrow> kstate option" where
  "pok_sched_stop_self c s =
     pok_sched_thread c True (upd_thread (POK_SCHED_CURRENT_THREAD s) (\<lambda>th. th\<lparr>t_state := POK_STATE_STOPPED\<rparr>) s)"

definition pok_sched_stop_thread :: "nat \<Rightarrow> kstate \<Rightarrow> kstate" where
  "pok_sched_stop_thread tid s = upd_thread tid (\<lambda>th. th\<lparr>t_state := POK_STATE_STOPPED\<rparr>) s"

definition pok_sched_lock_thread :: "nat \<Rightarrow> kstate \<Rightarrow> kstate" where
  "pok_sched_lock_thread thread_id s = upd_thread thread_id (\<lambda>th. th\<lparr>t_state := POK_STATE_LOCK\<rparr>) s"

definition pok_sched_end_period :: "pok_config \<Rightarrow> kstate \<Rightarrow> (pok_ret_t \<times> kstate) option" where
  "pok_sched_end_period c s = do {
     s1 \<leftarrow> pok_sched_thread c True (upd_thread (POK_SCHED_CURRENT_THREAD s)
             (\<lambda>th. th\<lparr>t_state := POK_STATE_WAIT_NEXT_ACTIVATION, t_remaining_time_capacity := 0\<rparr>) s);
     Some (POK_ERRNO_OK, s1)
   }"

definition pok_sched_activate_error_thread :: "pok_config \<Rightarrow> kstate \<Rightarrow> kstate option" where
  "pok_sched_activate_error_thread c s =
     (let error_thread = p_thread_error (POK_CURRENT_PARTITION s)
      in if error_thread \<noteq> 0
         then pok_sched_context_switch c error_thread True
                (upd_thread error_thread (\<lambda>th. th\<lparr>t_priority := pok_sched_get_priority_max POK_SCHED_FIFO,
                   t_remaining_time_capacity := 1000, t_period := 100, t_next_activation := 0,
                   t_state := POK_STATE_RUNNABLE\<rparr>) s)
         else Some s)"

definition pok_sched_get_current :: "pok_config \<Rightarrow> kstate \<Rightarrow> pok_ret_t \<times> nat option" where
  "pok_sched_get_current c s =
     (if p_thread_error (POK_CURRENT_PARTITION s) = 0 then (POK_ERRNO_THREAD, None)
      else if KERNEL_THREAD c = POK_SCHED_CURRENT_THREAD s \<or> IDLE_THREAD c s = POK_SCHED_CURRENT_THREAD s
      then (POK_ERRNO_THREAD, None)
      else (POK_ERRNO_OK, Some (POK_SCHED_CURRENT_THREAD s)))"

subsection \<open>The environment of a switched-out thread\<close>

definition resume_ok :: "pok_config \<Rightarrow> bool" where
  "resume_ok c = (\<forall>t s. proc_id (arch_context_switch c t s) = proc_id s \<and>
     POK_SCHED_CURRENT_THREAD (arch_context_switch c t s) = t)"

lemma demo_resume_ok: "resume_ok demo_config"
  by (simp add: resume_ok_def POK_SCHED_CURRENT_THREAD_def)


subsection \<open>Activation\<close>

definition wake_thread :: "u64 \<Rightarrow> pok_thread_t \<Rightarrow> pok_thread_t option" where
  "wake_thread now th = release_period now (wake_waiting now th)"

text \<open>A periodic thread that waits for its next activation has a budget.\<close>

definition releasable :: "pok_thread_t \<Rightarrow> bool" where
  "releasable th = (t_state th = POK_STATE_WAIT_NEXT_ACTIVATION \<longrightarrow> t_time_capacity th \<noteq> 0)"

lemma wake_thread_Some: "releasable th \<Longrightarrow> \<exists>th'. wake_thread now th = Some th'"
  by (auto simp: wake_thread_def release_period_def wake_waiting_def releasable_def Let_def)

lemma wake_thread_affinity: "wake_thread now th = Some th' \<Longrightarrow> t_processor_affinity th' = t_processor_affinity th"
  by (auto simp: wake_thread_def release_period_def wake_waiting_def Let_def split: if_splits Option.bind_splits)

lemma activate_threads_spec:
  assumes "n \<le> 255" "p_nthreads (pok_partitions s pid) = n"
    and "\<And>t. p_thread_index_low (pok_partitions s pid) \<le> t \<Longrightarrow> t < p_thread_index_low (pok_partitions s pid) + n \<Longrightarrow>
      t_processor_affinity (pok_threads s t) = proc_id s \<Longrightarrow> releasable (pok_threads s t)"
  shows "activate_threads c pid s = Some (s\<lparr>pok_threads := (\<lambda>t.
    if p_thread_index_low (pok_partitions s pid) \<le> t \<and> t < p_thread_index_low (pok_partitions s pid) + n \<and>
       t_processor_affinity (pok_threads s t) = proc_id s
    then the (wake_thread (pok_tick_counter s) (pok_threads s t)) else pok_threads s t)\<rparr>)"
proof -
  let ?low = "p_thread_index_low (pok_partitions s pid)" let ?now = "pok_tick_counter s"
  let ?f = "\<lambda>n t. if ?low \<le> t \<and> t < ?low + n \<and> t_processor_affinity (pok_threads s t) = proc_id s
      then the (wake_thread ?now (pok_threads s t)) else pok_threads s t"
  have "m \<le> n \<Longrightarrow> for_loop [0..<m] (\<lambda>i. activate_thread c (?low + i)) s = Some (s\<lparr>pok_threads := ?f m\<rparr>)" for m
  proof (induction m)
    case 0
    have "?f 0 = pok_threads s" by (auto simp: fun_eq_iff)
    then show ?case by simp
  next
    case (Suc m)
    let ?s = "s\<lparr>pok_threads := ?f m\<rparr>"
    have "activate_thread c (?low + m) ?s = Some (s\<lparr>pok_threads := ?f (Suc m)\<rparr>)"
    proof (cases "t_processor_affinity (pok_threads s (?low + m)) = proc_id s")
      case True
      then have "releasable (pok_threads s (?low + m))" using assms(3) Suc.prems by simp
      then obtain th where th: "wake_thread ?now (pok_threads s (?low + m)) = Some th" using wake_thread_Some by blast
      have "?f (Suc m) = (?f m)(?low + m := th)" using th True by (auto simp: fun_eq_iff)
      then show ?thesis using th True by (simp add: activate_thread_def wake_thread_def upd_thread_def Let_def)
    next
      case False
      then have "?f (Suc m) = ?f m" by (auto simp: fun_eq_iff less_Suc_eq)
      then show ?thesis using False by (simp add: activate_thread_def Let_def)
    qed
    then show ?case using Suc by (simp add: for_loop_append)
  qed
  from this [of n] show ?thesis using assms(1,2) by (simp add: activate_threads_def Let_def)
qed

text \<open>C33: The activation loop of an election ends and makes every thread of the partition, on this processor, runnable
  whose time has come: a waiting thread whose wake-up time has passed, and a periodic thread whose
  activation has passed, which gets its full budget back, its deadline counted from that activation and
  its next activation one period later; no other thread of the table changes.\<close>

theorem activate_threads_correct:
  fixes s :: kstate and pid :: nat
  defines "p \<equiv> pok_partitions s pid"
  assumes "p_nthreads p \<le> 255"
    and "\<forall>t \<in> {p_thread_index_low p..<p_thread_index_low p + p_nthreads p}. releasable (pok_threads s t)"
  shows "\<exists>s'. activate_threads c pid s = Some s' \<and> s' = s\<lparr>pok_threads := pok_threads s'\<rparr> \<and>
    (\<forall>t. let th = pok_threads s t; th' = pok_threads s' t in
       if t \<in> {p_thread_index_low p..<p_thread_index_low p + p_nthreads p} \<and> t_processor_affinity th = proc_id s
       then if t_state th = POK_STATE_WAITING \<and> t_wakeup_time th \<le> pok_tick_counter s
            then th' = th\<lparr>t_state := POK_STATE_RUNNABLE\<rparr>
            else if t_state th = POK_STATE_WAIT_NEXT_ACTIVATION \<and> t_next_activation th \<le> pok_tick_counter s
            then th' = th\<lparr>t_state := POK_STATE_RUNNABLE, t_remaining_time_capacity := t_time_capacity th,
                         t_next_activation := t_next_activation th + t_period th,
                         t_ddl := t_next_activation th + t_deadline th\<rparr>
            else th' = th
       else th' = th)"
proof -
  have eq: "the (wake_thread now th) =
      (if t_state th = POK_STATE_WAITING \<and> t_wakeup_time th \<le> now then th\<lparr>t_state := POK_STATE_RUNNABLE\<rparr>
       else if t_state th = POK_STATE_WAIT_NEXT_ACTIVATION \<and> t_next_activation th \<le> now
       then th\<lparr>t_state := POK_STATE_RUNNABLE, t_remaining_time_capacity := t_time_capacity th,
               t_next_activation := t_next_activation th + t_period th,
               t_ddl := t_next_activation th + t_deadline th\<rparr>
       else th)" if "releasable th" for th now
    using that by (cases th) (simp add: wake_thread_def wake_waiting_def release_period_def releasable_def Let_def)
  have a: "activate_threads c pid s = Some (s\<lparr>pok_threads := (\<lambda>t.
    if p_thread_index_low p \<le> t \<and> t < p_thread_index_low p + p_nthreads p \<and>
       t_processor_affinity (pok_threads s t) = proc_id s
    then the (wake_thread (pok_tick_counter s) (pok_threads s t)) else pok_threads s t)\<rparr>)"
    unfolding p_def by (rule activate_threads_spec) (use assms in \<open>auto simp: p_def\<close>)
  show ?thesis
    by (rule exI, rule conjI [OF a]) (use eq assms(3) in \<open>auto simp: Let_def\<close>)
qed

lemma activate_threads_correct_witness:
  "\<exists>s'. activate_threads demo_config 0 (upd_thread 2 (\<lambda>th. th\<lparr>t_state := POK_STATE_WAITING\<rparr>) demo_state) = Some s' \<and>
     t_state (pok_threads s' 2) = POK_STATE_RUNNABLE"
proof -
  define s where "s = upd_thread 2 (\<lambda>th. th\<lparr>t_state := POK_STATE_WAITING\<rparr>) demo_state"
  have f: "pok_partitions s 0 = demo_partition 0" "proc_id s = 0" "pok_tick_counter s = 100"
    "pok_threads s = demo_thread(2 := (demo_thread 2)\<lparr>t_state := POK_STATE_WAITING\<rparr>)"
    by (simp_all add: s_def upd_thread_def)
  have p: "p_nthreads (pok_partitions s 0) = 3" "p_thread_index_low (pok_partitions s 0) = 0"
    by (simp_all add: f demo_partition_def)
  have "p_nthreads (pok_partitions s 0) \<le> 255" "\<forall>t \<in> {p_thread_index_low (pok_partitions s 0)..<
      p_thread_index_low (pok_partitions s 0) + p_nthreads (pok_partitions s 0)}. releasable (pok_threads s t)"
    unfolding p by (simp_all add: f releasable_def demo_thread_def)
  from activate_threads_correct [OF this, of demo_config, unfolded p Let_def]
  obtain s' where s': "activate_threads demo_config 0 s = Some s'" "t_state (pok_threads s' 2) = POK_STATE_RUNNABLE"
    by (fastforce simp: f demo_thread_def dest: spec [of _ 2])
  then show ?thesis unfolding s_def by blast
qed


subsection \<open>What an election leaves alone\<close>

text \<open>An election changes the thread table and the partition records, may allocate a stack and extend the
  trace (the urgent task), and nothing else.\<close>

definition sched_frame :: "kstate \<Rightarrow> kstate \<Rightarrow> bool" where
  "sched_frame s s' = (s'\<lparr>pok_threads := pok_threads s, pok_partitions := pok_partitions s,
     pok_x86_pm_brk := pok_x86_pm_brk s, ks_trace := ks_trace s, urgent_task_flag := urgent_task_flag s\<rparr> = s)"

lemma sched_frame_refl [simp]: "sched_frame s s"
  by (simp add: sched_frame_def)

lemma sched_frame_trans [trans]: "sched_frame s s' \<Longrightarrow> sched_frame s' s'' \<Longrightarrow> sched_frame s s''"
  unfolding sched_frame_def by (cases s; cases s'; cases s'') simp

lemma sched_frame_updates [simp]:
  "sched_frame s (upd_thread t f s') = sched_frame s s'"
  "sched_frame s (upd_partition pid g s') = sched_frame s s'"
  "sched_frame s (emit ev s') = sched_frame s s'"
  "sched_frame s (s'\<lparr>urgent_task_flag := b\<rparr>) = sched_frame s s'"
  "sched_frame s (s'\<lparr>pok_x86_pm_brk := x\<rparr>) = sched_frame s s'"
  "sched_frame s (s'\<lparr>pok_threads := th\<rparr>) = sched_frame s s'"
  unfolding sched_frame_def upd_thread_def upd_partition_def emit_def by (cases s; cases s'; simp)+

lemma sched_frameD:
  assumes "sched_frame s s'"
  shows "pok_current_partition s' = pok_current_partition s" "current_threads s' = current_threads s"
    "proc_id s' = proc_id s" "pok_tick_counter s' = pok_tick_counter s" "spinlocks s' = spinlocks s"
    "pok_partitions_lockobjs s' = pok_partitions_lockobjs s" "pok_ports s' = pok_ports s" "pok_queue s' = pok_queue s"
    "POK_SCHED_CURRENT_THREAD s' = POK_SCHED_CURRENT_THREAD s" "IDLE_THREAD c s' = IDLE_THREAD c s"
  using assms unfolding sched_frame_def POK_SCHED_CURRENT_THREAD_def IDLE_THREAD_def
  by (cases s; cases s'; simp)+

lemma call_sched_func_slices:
  assumes "call_sched_func c f low high prev cur s = Some (e, s')"
  shows "slices_only cur s s'"
proof (cases f)
  case Sched_part_mlfq
  with assms have "pok_sched_part_mlfq c low high prev cur s = Some (e, s')" by (simp add: call_sched_func_def)
  then show ?thesis
    by (auto simp: pok_sched_part_mlfq_def Let_def split: Option.bind_splits if_splits
        intro: slices_only_trans [OF slices_only_tick slices_only_demote])
next
  case Sched_part_pwrr
  with assms have "pok_sched_part_pwrr c low high prev cur s = Some (e, s')" by (simp add: call_sched_func_def)
  then show ?thesis
    by (auto simp: pok_sched_part_pwrr_def Let_def split: Option.bind_splits if_splits option.splits)
next
  case Sched_part_wrr
  with assms have "pok_sched_part_wrr c low high prev cur s = Some (e, s')" by (simp add: call_sched_func_def)
  then show ?thesis
    by (auto simp: pok_sched_part_wrr_def Let_def split: Option.bind_splits if_splits option.splits)
qed (use assms in \<open>auto simp: call_sched_func_def pok_sched_part_rms_def pok_sched_part_static_def
      pok_sched_part_pps_def pok_sched_part_pedf_def pok_sched_part_rr_def Let_def
      split: Option.bind_splits if_splits prod.splits\<close>)

lemma slices_only_frame: "slices_only t s s' \<Longrightarrow> sched_frame s s'"
  by (auto simp: slices_only_def)

lemma insert_sort_loop_frame: "insert_sort_loop low val k s = Some s' \<Longrightarrow> sched_frame s0 s \<Longrightarrow> sched_frame s0 s'"
  by (induction low val k s rule: insert_sort_loop.induct) (auto split: if_splits)

lemma thread_create_frame:
  "pok_partition_thread_create c attr pid s = Some (r, tid, s') \<Longrightarrow> sched_frame s0 s \<Longrightarrow> sched_frame s0 s'"
  unfolding pok_partition_thread_create_def Let_def pok_space_context_create_def pok_bsp_mem_alloc_def pok_pm_sbrk_def
    pok_thread_insert_sort_def pok_partition_error_def
  by (auto split: if_splits Option.bind_splits elim!: insert_sort_loop_frame)

lemma ddl_punish_frame: "ddl_punish c s = Some s' \<Longrightarrow> sched_frame s s'"
  unfolding ddl_punish_def Let_def
  by (auto split: if_splits Option.bind_splits elim!: thread_create_frame)

lemma activate_thread_frame: "activate_thread c t s = Some s' \<Longrightarrow> sched_frame s0 s \<Longrightarrow> sched_frame s0 s'"
  by (auto simp: activate_thread_def Let_def split: if_splits Option.bind_splits)

lemma activate_threads_frame: "activate_threads c pid s = Some s' \<Longrightarrow> sched_frame s s'"
  unfolding activate_threads_def Let_def
  by (auto split: if_splits elim: for_loop_invariant [where P = "sched_frame s"] activate_thread_frame)

lemma account_budget_frame [simp]: "sched_frame s (account_budget c s')  = sched_frame s s'"
  by (simp add: account_budget_def Let_def)

lemma elect_by_mode_frame: "elect_by_mode c pid s = Some (e, s') \<Longrightarrow> sched_frame s s'"
  unfolding elect_by_mode_def Let_def
  by (auto split: if_splits dest!: call_sched_func_slices slices_only_frame elim: sched_frame_trans [rotated])

lemma elect_thread_frame: "pok_elect_thread c pid s = Some (e, s') \<Longrightarrow> sched_frame s s'"
  unfolding pok_elect_thread_def Let_def set_end_time_def
  by (auto split: if_splits Option.bind_splits dest!: ddl_punish_frame activate_threads_frame elect_by_mode_frame
      intro: sched_frame_trans)


subsection \<open>The elected thread\<close>

text \<open>The state an election of a partition in normal mode hands to the partition's scheduler.\<close>

definition election_prep :: "pok_config \<Rightarrow> nat \<Rightarrow> kstate \<Rightarrow> kstate option" where
  "election_prep c pid s = do { s1 \<leftarrow> ddl_punish c s; activate_threads c pid s1 }"

definition normal_election_ok :: "pok_config \<Rightarrow> nat \<Rightarrow> kstate \<Rightarrow> bool" where
  "normal_election_ok c pid s =
     (let p = pok_partitions s pid in
        p_mode p = POK_PARTITION_MODE_NORMAL \<and> p_thread_error p \<noteq> CURRENT_THREAD s pid \<and>
        slice_ok c (p_thread_index_low p) (p_thread_index_high p) (PREV_THREAD s pid) (CURRENT_THREAD s pid) s \<and>
        sched_pre c (p_sched_func p) (p_thread_index_low p) (p_thread_index_high p)
          (PREV_THREAD s pid) (CURRENT_THREAD s pid) s)"

lemma account_budget_fields [simp]:
  "pok_partitions (account_budget c s) = pok_partitions s" "proc_id (account_budget c s) = proc_id s"
  "PREV_THREAD (account_budget c s) pid = PREV_THREAD s pid"
  "CURRENT_THREAD (account_budget c s) pid = CURRENT_THREAD s pid"
  "IDLE_THREAD c (account_budget c s) = IDLE_THREAD c s"
  by (simp_all add: account_budget_def Let_def upd_thread_def PREV_THREAD_def CURRENT_THREAD_def IDLE_THREAD_def)

lemma set_end_time_fields [simp]:
  "t_state (pok_threads (set_end_time now e s) t) = t_state (pok_threads s t)"
  "runnable_on (set_end_time now e s) = runnable_on s"
  by (auto simp: set_end_time_def upd_thread_def runnable_on_def fun_eq_iff)

lemma elect_thread_prep:
  "election_prep c pid s = Some s2 \<Longrightarrow> pok_elect_thread c pid s =
    Option.bind (elect_by_mode c pid s2) (\<lambda>(e, s3). Some (e, set_end_time (pok_tick_counter s) e s3))"
  by (auto simp: pok_elect_thread_def election_prep_def split: Option.bind_splits)

lemma elect_normal:
  assumes "election_prep c pid s = Some s2" "normal_election_ok c pid (account_budget c s2)"
  defines "p \<equiv> pok_partitions s2 pid" and "s3 \<equiv> account_budget c s2"
  obtains e s4 where "pok_elect_thread c pid s = Some (e, set_end_time (pok_tick_counter s) e s4)"
    "elects c (p_thread_index_low p) (p_thread_index_high p) s3 e" "slices_only (CURRENT_THREAD s2 pid) s3 s4"
proof -
  have ok: "p_mode p = POK_PARTITION_MODE_NORMAL" "p_thread_error p \<noteq> CURRENT_THREAD s2 pid"
    "slice_ok c (p_thread_index_low p) (p_thread_index_high p) (PREV_THREAD s2 pid) (CURRENT_THREAD s2 pid) s3"
    "sched_pre c (p_sched_func p) (p_thread_index_low p) (p_thread_index_high p)
       (PREV_THREAD s2 pid) (CURRENT_THREAD s2 pid) s3"
    using assms(2) by (simp_all add: normal_election_ok_def p_def s3_def Let_def)
  obtain e s4 where e: "call_sched_func c (p_sched_func p) (p_thread_index_low p) (p_thread_index_high p)
      (PREV_THREAD s2 pid) (CURRENT_THREAD s2 pid) s3 = Some (e, s4)"
    "elects c (p_thread_index_low p) (p_thread_index_high p) s3 e" "slices_only (CURRENT_THREAD s2 pid) s3 s4"
    using dispatch.returns [OF ok(3,4)] by blast
  have "elect_by_mode c pid s2 = Some (e, s4)"
    using e(1) ok(1,2) by (simp add: elect_by_mode_def p_def [symmetric] s3_def [symmetric] init_mode_def)
      (simp add: s3_def)
  then show thesis using that e elect_thread_prep [OF assms(1)] by simp
qed

lemma error_thread_elected:
  assumes "p_mode (pok_partitions s pid) = POK_PARTITION_MODE_NORMAL" "CURRENT_THREAD s pid = p_thread_error (pok_partitions s pid)"
    and "t_state (pok_threads s (CURRENT_THREAD s pid)) = POK_STATE_RUNNABLE"
  shows "elect_by_mode c pid s = Some (CURRENT_THREAD s pid, s)"
  using assms by (simp add: elect_by_mode_def Let_def init_mode_def)


lemma activate_threads_idle:
  assumes "p_nthreads (pok_partitions s pid) \<le> 255" "\<And>t. wake_thread (pok_tick_counter s) (pok_threads s t) = Some (pok_threads s t)"
  shows "activate_threads c pid s = Some s"
proof -
  have a: "activate_thread c t s = Some s" for t
    using assms(2) [of t] by (simp add: activate_thread_def wake_thread_def upd_thread_def Let_def)
  have "for_loop is (\<lambda>i. activate_thread c (low + i)) s = Some s" for "is" low
    by (induction "is") (simp_all add: a)
  then show ?thesis using assms(1) by (simp add: activate_threads_def Let_def)
qed

lemma demo_thread_asleep: "wake_thread 100 (demo_thread t) = Some (demo_thread t)"
  by (simp add: wake_thread_def wake_waiting_def release_period_def demo_thread_def)

lemma demo_prep: "election_prep demo_config 0 demo_state = Some demo_state"
  using activate_threads_idle [of demo_state 0 demo_config]
  by (simp add: election_prep_def ddl_punish_def demo_thread_asleep) (simp add: demo_partition_def)

lemma demo_account: "account_budget demo_config demo_state =
    upd_thread 1 (\<lambda>th. th\<lparr>t_remaining_time_capacity := 9\<rparr>) demo_state"
  by (simp add: account_budget_def Let_def POK_CURRENT_PARTITION_def demo_partition_def upd_thread_def demo_thread_def
      pos64_def)

lemma demo_normal: "normal_election_ok demo_config 0 (account_budget demo_config demo_state)"
proof -
  have "slice_ok demo_config 0 3 6 1 (account_budget demo_config demo_state)" by (simp add: slice_ok_def)
  then show ?thesis
    by (simp add: normal_election_ok_def demo_partition_def CURRENT_THREAD_def PREV_THREAD_def sched_pre_def)
qed


text \<open>A thread that uses up its budget is stopped until its next activation: when the running thread of the
  partition has no budget left after the tick is charged, the election leaves it waiting for its next
  activation and elects another thread or the idle thread.\<close>

theorem budget_exhausted_not_elected:
  assumes "election_prep c pid s = Some s2" "normal_election_ok c pid (account_budget c s2)"
  defines "p \<equiv> pok_partitions s2 pid" and "cur \<equiv> POK_SCHED_CURRENT_THREAD s2"
  assumes "p_thread_index_low p \<le> cur" "cur < p_thread_index_high p" "pok_current_partition s2 = pid"
    and "cur \<noteq> p_thread_main p" "cur \<noteq> p_thread_error p"
    and "pos64 (t_time_capacity (pok_threads s2 cur))"
    and "\<not> pos64 (t_remaining_time_capacity (pok_threads s2 cur) - 1)"
  shows "\<exists>e s'. pok_elect_thread c pid s = Some (e, s') \<and> e \<noteq> cur \<and>
    t_state (pok_threads s' cur) = POK_STATE_WAIT_NEXT_ACTIVATION"
proof -
  let ?s3 = "account_budget c s2"
  obtain e s4 where e: "pok_elect_thread c pid s = Some (e, set_end_time (pok_tick_counter s) e s4)"
    "elects c (p_thread_index_low p) (p_thread_index_high p) ?s3 e" "slices_only (CURRENT_THREAD s2 pid) ?s3 s4"
    using elect_normal [OF assms(1,2)] unfolding p_def .
  have sl: "\<not> (p_thread_index_low p \<le> IDLE_THREAD c s2 \<and> IDLE_THREAD c s2 < p_thread_index_high p)"
    using assms(2) by (simp add: normal_election_ok_def Let_def slice_ok_def p_def)
  then have idle: "cur \<noteq> IDLE_THREAD c s2" using assms(5,6) by auto
  have st: "t_state (pok_threads ?s3 cur) = POK_STATE_WAIT_NEXT_ACTIVATION"
    using idle assms(7-11)
    by (simp add: account_budget_def Let_def cur_def [symmetric] POK_CURRENT_PARTITION_def p_def [symmetric] upd_thread_def)
  then have "t_state (pok_threads (set_end_time (pok_tick_counter s) e s4) cur) = POK_STATE_WAIT_NEXT_ACTIVATION"
    using slices_only_thread(1) [OF e(3)] by simp
  moreover have "e \<noteq> cur"
  proof
    assume "e = cur"
    then have "runnable_on ?s3 cur" using e(2) idle by (auto simp: elects_def split: if_splits)
    then show False using st by (simp add: runnable_on_def)
  qed
  ultimately show ?thesis using e(1) by auto
qed

lemma budget_exhausted_not_elected_witness:
  "\<exists>s e s'. t_remaining_time_capacity (pok_threads s 1) = 1 \<and> POK_SCHED_CURRENT_THREAD s = 1 \<and>
     pok_elect_thread demo_config 0 s = Some (e, s') \<and> e \<noteq> 1"
proof -
  define s where "s = upd_thread 1 (\<lambda>th. th\<lparr>t_remaining_time_capacity := 1\<rparr>) demo_state"
  have f: "pok_partitions s = demo_partition" "proc_id s = 0" "pok_tick_counter s = 100" "pok_current_partition s = 0"
    "current_threads s = (\<lambda>_. 1)" "POK_SCHED_CURRENT_THREAD s = 1"
    "pok_threads s = demo_thread(1 := (demo_thread 1)\<lparr>t_remaining_time_capacity := 1\<rparr>)"
    by (simp_all add: s_def upd_thread_def POK_SCHED_CURRENT_THREAD_def)
  have "wake_thread 100 (pok_threads s t) = Some (pok_threads s t)" for t
    by (simp add: f wake_thread_def wake_waiting_def release_period_def demo_thread_def)
  then have "activate_threads demo_config 0 s = Some s"
    using activate_threads_idle [of s 0 demo_config] by (simp add: f) (simp add: demo_partition_def)
  then have prep: "election_prep demo_config 0 s = Some s" by (simp add: election_prep_def ddl_punish_def)
  have "slice_ok demo_config 0 3 6 1 (account_budget demo_config s)" by (simp add: slice_ok_def f IDLE_THREAD_def)
  then have n: "normal_election_ok demo_config 0 (account_budget demo_config s)"
    by (simp add: normal_election_ok_def f CURRENT_THREAD_def PREV_THREAD_def sched_pre_def)
      (simp add: demo_partition_def)
  have "\<exists>e s'. pok_elect_thread demo_config 0 s = Some (e, s') \<and> e \<noteq> 1"
    using budget_exhausted_not_elected [OF prep n] by (simp add: f) (auto simp: demo_partition_def demo_thread_def pos64_def)
  moreover have "t_remaining_time_capacity (pok_threads s 1) = 1" by (simp add: f)
  ultimately show ?thesis using f by blast
qed

text \<open>While a partition initialises, its main thread runs on the processor the partition chose for it and the
  idle thread on every other one, in both initialisation modes and whatever its error thread does: the
  choice of the error thread just above is overwritten.\<close>

theorem elect_during_init:
  assumes "election_prep c pid s = Some s2" "init_mode (p_mode (pok_partitions s2 pid))"
  shows "\<exists>e s'. pok_elect_thread c pid s = Some (e, s') \<and>
    e = (if proc_id s2 = p_thread_main_proc (pok_partitions s2 pid) then p_thread_main (pok_partitions s2 pid)
         else IDLE_THREAD c s2) \<and> runnable_on s' = runnable_on s2"
  using assms by (simp add: elect_thread_prep elect_by_mode_def)

lemma demo_prep_partitions:
  "election_prep demo_config 0 (upd_partition 0 f demo_state) = Some (upd_partition 0 f demo_state)"
  if "p_nthreads (f (demo_partition 0)) \<le> 255"
  using activate_threads_idle [of "upd_partition 0 f demo_state" 0 demo_config] that
  by (simp add: election_prep_def ddl_punish_def demo_thread_asleep upd_partition_def)

lemma elect_during_init_witness:
  "\<exists>s e s'. p_thread_error (pok_partitions s 0) = 2 \<and> t_state (pok_threads s 2) = POK_STATE_RUNNABLE \<and>
     p_mode (pok_partitions s 0) = POK_PARTITION_MODE_INIT_WARM \<and>
     pok_elect_thread demo_config 0 s = Some (e, s') \<and> e = 0"
proof -
  let ?f = "\<lambda>p. p\<lparr>p_thread_error := 2, p_mode := POK_PARTITION_MODE_INIT_WARM\<rparr>"
  define s where "s = upd_partition 0 ?f demo_state"
  have f: "pok_partitions s 0 = ?f (demo_partition 0)" "pok_threads s = demo_thread" "proc_id s = 0"
    by (simp_all add: s_def upd_partition_def)
  have prep: "election_prep demo_config 0 s = Some s"
    unfolding s_def by (rule demo_prep_partitions) (simp add: demo_partition_def)
  have m: "init_mode (p_mode (pok_partitions s 0))" by (simp add: f init_mode_def)
  have p: "p_thread_main_proc (pok_partitions s 0) = 0" "p_thread_main (pok_partitions s 0) = 0"
    "p_thread_error (pok_partitions s 0) = 2" "p_mode (pok_partitions s 0) = POK_PARTITION_MODE_INIT_WARM"
    "t_state (pok_threads s 2) = POK_STATE_RUNNABLE"
    by (simp_all add: f) (simp_all add: demo_partition_def demo_thread_def)
  obtain e s' where "pok_elect_thread demo_config 0 s = Some (e, s')" "e = 0"
    using elect_during_init [OF prep m] p f by auto
  with p show ?thesis by blast
qed

subsection \<open>The switch\<close>

lemma set_partition_current_fields [simp]:
  "current_threads (set_partition_current c pid e s) = current_threads s"
  "proc_id (set_partition_current c pid e s) = proc_id s"
  "spinlocks (set_partition_current c pid e s) = spinlocks s"
  "pok_threads (set_partition_current c pid e s) = pok_threads s"
  "pok_current_partition (set_partition_current c pid e s) = pok_current_partition s"
  "POK_SCHED_CURRENT_THREAD (set_partition_current c pid e s) = POK_SCHED_CURRENT_THREAD s"
  by (simp_all add: set_partition_current_def Let_def upd_partition_def POK_SCHED_CURRENT_THREAD_def)

text \<open>What the partition record holds after the bookkeeping of a switch to thread \<open>e\<close>.\<close>

lemma set_partition_current_records:
  "CURRENT_THREAD (set_partition_current c pid e s) pid = e"
  "PREV_THREAD (set_partition_current c pid e s) pid =
     (if CURRENT_THREAD s pid \<noteq> e \<and> CURRENT_THREAD s pid \<noteq> IDLE_THREAD c s then CURRENT_THREAD s pid
      else PREV_THREAD s pid)"
  by (auto simp: set_partition_current_def Let_def upd_partition_def CURRENT_THREAD_def PREV_THREAD_def IDLE_THREAD_def)

text \<open>Scheduling switches to the elected thread exactly when it is not the running one: then the processor's
  current thread and the partition's record name the elected thread, one context switch from the old
  thread to its saved stack happens, and the old thread goes on later, as the processor's current
  thread again. A switch with a spin lock held is refused by the assertion, so no spin lock is ever kept
  across a switch.\<close>

theorem sched_thread_switches:
  assumes "pok_elect_thread c (pok_current_partition s) s = Some (e, s1)" "e < 256" "resume_ok c"
  defines "cur \<equiv> POK_SCHED_CURRENT_THREAD s" and "pid \<equiv> pok_current_partition s"
  shows "(if e = cur then \<exists>s2. pok_sched_thread c True s = Some s2 \<and> CURRENT_THREAD s2 pid = e \<and>
            ks_trace s2 = ks_trace s1 \<and> POK_SCHED_CURRENT_THREAD s2 = cur
          else if spinlocks s (proc_id s) \<noteq> 0 then pok_sched_thread c True s = None
          else \<exists>s2. pok_sched_thread c True s = Some (arch_context_switch c cur s2) \<and>
            POK_SCHED_CURRENT_THREAD s2 = e \<and> CURRENT_THREAD s2 pid = e \<and>
            ks_trace s2 = ks_trace s1 @ [Ev_context_switch cur (t_sp (pok_threads s1 e))] \<and>
            POK_SCHED_CURRENT_THREAD (arch_context_switch c cur s2) = cur)"
proof -
  note fr = sched_frameD [OF elect_thread_frame [OF assms(1)]]
  have e: "e mod 256 = e" using assms(2) by simp
  let ?s = "set_partition_current c pid e s1"
  have t: "pok_sched_thread c True s = pok_sched_context_switch c e True ?s"
    using assms(1) e by (simp add: pok_sched_thread_def pid_def fr)
  have tr: "ks_trace ?s = ks_trace s1" by (simp add: set_partition_current_def Let_def upd_partition_def)
  let ?s2 = "emit (Ev_context_switch cur (t_sp (pok_threads s1 e)))
      (?s\<lparr>current_threads := (current_threads ?s)(proc_id ?s := e)\<rparr>)"
  have sw: "e \<noteq> cur \<Longrightarrow> spinlocks s (proc_id s) = 0 \<Longrightarrow>
      pok_sched_thread c True s = Some (arch_context_switch c cur ?s2)"
    by (simp add: t pok_sched_context_switch_def cur_def Let_def fr(3,5,9))
  have cu: "CURRENT_THREAD ?s2 pid = e"
    using set_partition_current_records(1) [of c pid e s1] by (simp add: CURRENT_THREAD_def emit_def)
  have po: "POK_SCHED_CURRENT_THREAD ?s2 = e" by (simp add: POK_SCHED_CURRENT_THREAD_def emit_def)
  have tr2: "ks_trace ?s2 = ks_trace s1 @ [Ev_context_switch cur (t_sp (pok_threads s1 e))]"
    by (simp add: emit_def tr)
  have re: "POK_SCHED_CURRENT_THREAD (arch_context_switch c cur ?s2) = cur"
    using assms(3) by (simp add: resume_ok_def)
  have stay: "e = cur \<Longrightarrow> pok_sched_thread c True s = Some ?s"
    by (simp add: t pok_sched_context_switch_def cur_def fr(9))
  have spin: "e \<noteq> cur \<Longrightarrow> spinlocks s (proc_id s) \<noteq> 0 \<Longrightarrow> pok_sched_thread c True s = None"
    by (simp add: t pok_sched_context_switch_def cur_def Let_def fr(3,5,9))
  show ?thesis
  proof (cases "e = cur")
    case True
    with stay tr set_partition_current_records(1) [of c pid e s1] show ?thesis by (simp add: cur_def fr(9))
  next
    case False
    then show ?thesis using sw spin cu po tr2 re by metis
  qed
qed

lemma sched_thread_switches_witness:
  "\<exists>s s1. pok_elect_thread demo_config 0 s = Some (0, s1) \<and> spinlocks s 0 = 1 \<and> pok_sched_thread demo_config True s = None"
proof -
  let ?f = "\<lambda>p. p\<lparr>p_mode := POK_PARTITION_MODE_INIT_WARM\<rparr>"
  define s where "s = (upd_partition 0 ?f demo_state)\<lparr>spinlocks := (\<lambda>_. 1)\<rparr>"
  have f: "pok_partitions s 0 = ?f (demo_partition 0)" "pok_threads s = demo_thread" "proc_id s = 0"
    "spinlocks s 0 = 1" "pok_current_partition s = 0" "pok_tick_counter s = 100" "POK_SCHED_CURRENT_THREAD s = 1"
    by (simp_all add: s_def upd_partition_def POK_SCHED_CURRENT_THREAD_def)
  have "activate_threads demo_config 0 s = Some s"
    by (rule activate_threads_idle) (simp_all add: f demo_thread_asleep, simp add: demo_partition_def)
  then have prep: "election_prep demo_config 0 s = Some s" by (simp add: election_prep_def ddl_punish_def)
  have p: "p_thread_main_proc (pok_partitions s 0) = 0" "p_thread_main (pok_partitions s 0) = 0"
    by (simp_all add: f) (simp_all add: demo_partition_def)
  have e: "elect_by_mode demo_config 0 s = Some (0, s)" using p by (simp add: elect_by_mode_def f init_mode_def)
  obtain s1 where s1: "pok_elect_thread demo_config 0 s = Some (0, s1)"
    using elect_thread_prep [OF prep] e by simp
  then have "pok_sched_thread demo_config True s = None"
    using sched_thread_switches [of demo_config s 0 s1, OF _ _ demo_resume_ok] f by simp
  then show ?thesis using s1 f by blast
qed

end
