(* ===== verification/Pok_Error.thy ===== *)
theory Pok_Error
  imports Pok_Sched Pok_Libc
begin

text \<open>
  Health monitoring, \<open>kernel/core/error.c\<close>: the error thread of a partition, the record of the last error
  (\<open>error_status\<close>), its declaration by the kernel or by the application, and its retrieval.
\<close>

definition POK_ERROR_KIND_INVALID :: u8 where
  "POK_ERROR_KIND_INVALID = 9"

definition POK_ERROR_KIND_APPLICATION_ERROR :: u8 where
  "POK_ERROR_KIND_APPLICATION_ERROR = 11"

definition POK_ERROR_MAX_MSG_SIZE :: u32 where
  "POK_ERROR_MAX_MSG_SIZE = 250"

text \<open>The attributes the function does not set hold whatever was on the stack. When the creation fails, the
  identifier that is stored afterwards was never written.\<close>

definition pok_error_thread_create :: "pok_config \<Rightarrow> u32 \<Rightarrow> u32 \<Rightarrow> kstate \<Rightarrow> (pok_ret_t \<times> kstate) option" where
  "pok_error_thread_create c stack_size entry s = do {
     let attr = (junk_attr c)\<lparr>a_priority := POK_THREAD_MAX_PRIORITY, a_entry := entry, a_time_capacity := 10000\<rparr>;
     (ret, tid_opt, s1) \<leftarrow> pok_partition_thread_create c attr (pok_current_partition s) s;
     tid \<leftarrow> tid_opt;
     s2 \<leftarrow> pok_sched_activate_error_thread c
             (upd_partition (pok_current_partition s1) (\<lambda>p. p\<lparr>p_thread_error := tid\<rparr>) s1);
     Some (ret, s2)
   }"

definition failed_thread_index :: "kstate \<Rightarrow> u32" where
  "failed_thread_index s =
     of_nat (POK_SCHED_CURRENT_THREAD s) - of_nat (p_thread_index_low (POK_CURRENT_PARTITION s))"

definition pok_error_declare :: "pok_config \<Rightarrow> u8 \<Rightarrow> kstate \<Rightarrow> kstate option" where
  "pok_error_declare c error s =
     (if p_thread_error (POK_CURRENT_PARTITION s) \<noteq> 0
      then Some (upd_partition (pok_current_partition s) (\<lambda>p. p\<lparr>p_error_status := (p_error_status p)
             \<lparr>e_error_kind := error, e_failed_thread := failed_thread_index s, e_msg_size := 0\<rparr>\<rparr>) s)
      else pok_partition_error c (pok_current_partition s) (ucast error) s)"

definition pok_error_ignore :: "kstate \<Rightarrow> kstate" where
  "pok_error_ignore s = s"

definition set_application_error :: "(nat \<Rightarrow> u8) \<Rightarrow> u32 \<Rightarrow> kstate \<Rightarrow> kstate" where
  "set_application_error msg msg_size s =
     upd_partition (pok_current_partition s) (\<lambda>p. p\<lparr>p_error_status := (p_error_status p)
       \<lparr>e_error_kind := POK_ERROR_KIND_APPLICATION_ERROR, e_failed_thread := failed_thread_index s,
        e_msg_size := msg_size, e_msg := memcpy (e_msg (p_error_status p)) 0 msg 0 (unat msg_size)\<rparr>\<rparr>) s"

definition pok_error_raise_application_error :: "pok_config \<Rightarrow> (nat \<Rightarrow> u8) \<Rightarrow> u32 \<Rightarrow> kstate \<Rightarrow> kstate option" where
  "pok_error_raise_application_error c msg msg_size0 s =
     (let msg_size = (if msg_size0 > POK_ERROR_MAX_MSG_SIZE then POK_ERROR_MAX_MSG_SIZE else msg_size0)
      in pok_sched_activate_error_thread c (set_application_error msg msg_size s))"

definition pok_error_get :: "pok_error_status_t \<Rightarrow> kstate \<Rightarrow> pok_ret_t \<times> pok_error_status_t" where
  "pok_error_get status s =
     (let st = p_error_status (POK_CURRENT_PARTITION s)
      in if e_error_kind st \<noteq> POK_ERROR_KIND_INVALID
         then (POK_ERRNO_OK, status\<lparr>e_error_kind := e_error_kind st, e_failed_thread := e_failed_thread st,
                e_failed_addr := e_failed_addr st, e_msg_size := e_msg_size st,
                e_msg := memcpy (e_msg status) 0 (e_msg st) 0 (unat (e_msg_size st))\<rparr>)
         else (POK_ERRNO_UNAVAILABLE, status))"

definition pok_error_message :: "u8 \<Rightarrow> string" where
  "pok_error_message error =
     (if error = 9 then ''invalid''
      else if error = 10 then ''deadline missed''
      else if error = 11 then ''application error''
      else if error = 12 then ''numeric error''
      else if error = 13 then ''illegal request''
      else if error = 14 then ''stack overflow''
      else if error = 15 then ''memory violation''
      else if error = 16 then ''hardware fault''
      else if error = 17 then ''power failure''
      else if error = 30 then ''partition configuration error''
      else if error = 31 then ''partition initialization error''
      else if error = 32 then ''partition scheduling error''
      else if error = 33 then ''partition handler''
      else if error = 34 then ''partition process''
      else if error = 50 then ''kernel initialization error''
      else if error = 51 then ''kernel scheduling error''
      else if error = 52 then ''kernel configuration error''
      else ''unknown error'')"

subsection \<open>Reports\<close>

text \<open>A record of an error fits its message buffer.\<close>

definition error_status_ok :: "pok_error_status_t \<Rightarrow> bool" where
  "error_status_ok st = (e_msg_size st \<le> POK_ERROR_MAX_MSG_SIZE)"

lemma declare_status_ok:
  "pok_error_declare c error s = Some s' \<Longrightarrow> \<forall>p. error_status_ok (p_error_status (pok_partitions s p)) \<Longrightarrow>
   error_status_ok (p_error_status (pok_partitions s' p))"
  by (auto simp: pok_error_declare_def pok_partition_error_def upd_partition_def error_status_ok_def
      POK_ERROR_MAX_MSG_SIZE_def split: if_splits)

lemma set_application_error_fields [simp]:
  "pok_current_partition (set_application_error msg n s) = pok_current_partition s"
  "POK_SCHED_CURRENT_THREAD (set_application_error msg n s) = POK_SCHED_CURRENT_THREAD s"
  "spinlocks (set_application_error msg n s) = spinlocks s" "proc_id (set_application_error msg n s) = proc_id s"
  "pok_threads (set_application_error msg n s) = pok_threads s" "ks_trace (set_application_error msg n s) = ks_trace s"
  "p_thread_error (POK_CURRENT_PARTITION (set_application_error msg n s)) = p_thread_error (POK_CURRENT_PARTITION s)"
  by (simp_all add: set_application_error_def upd_partition_def POK_SCHED_CURRENT_THREAD_def POK_CURRENT_PARTITION_def)

lemma set_application_error_status:
  "p_error_status (POK_CURRENT_PARTITION (set_application_error msg n s)) =
     (p_error_status (POK_CURRENT_PARTITION s))\<lparr>e_error_kind := POK_ERROR_KIND_APPLICATION_ERROR,
       e_failed_thread := failed_thread_index s, e_msg_size := n,
       e_msg := memcpy (e_msg (p_error_status (POK_CURRENT_PARTITION s))) 0 msg 0 (unat n)\<rparr>"
  by (simp add: set_application_error_def upd_partition_def POK_CURRENT_PARTITION_def)

text \<open>The thread the error thread interrupts, and what the error thread runs with.\<close>

lemma activate_error_thread_switch:
  fixes s :: kstate
  defines "err \<equiv> p_thread_error (POK_CURRENT_PARTITION s)" and "cur \<equiv> POK_SCHED_CURRENT_THREAD s"
  assumes "err \<noteq> 0" "err \<noteq> cur" "spinlocks s (proc_id s) = 0"
  shows "\<exists>s2. pok_sched_activate_error_thread c s = Some (arch_context_switch c cur s2) \<and>
    POK_SCHED_CURRENT_THREAD s2 = err \<and> t_state (pok_threads s2 err) = POK_STATE_RUNNABLE \<and>
    t_priority (pok_threads s2 err) = 255 \<and> t_remaining_time_capacity (pok_threads s2 err) = 1000 \<and>
    pok_partitions s2 = pok_partitions s \<and> pok_current_partition s2 = pok_current_partition s \<and>
    ks_trace s2 = ks_trace s @ [Ev_context_switch cur (t_sp (pok_threads s err))]"
proof -
  let ?s = "upd_thread err (\<lambda>th. th\<lparr>t_priority := 255, t_remaining_time_capacity := 1000, t_period := 100,
      t_next_activation := 0, t_state := POK_STATE_RUNNABLE\<rparr>) s"
  let ?s2 = "emit (Ev_context_switch cur (t_sp (pok_threads s err)))
    (?s\<lparr>current_threads := (current_threads s)(proc_id s := err)\<rparr>)"
  have c: "POK_SCHED_CURRENT_THREAD ?s = cur" by (simp add: cur_def POK_SCHED_CURRENT_THREAD_def upd_thread_def)
  have "pok_sched_activate_error_thread c s = pok_sched_context_switch c err True ?s"
    using assms(3) by (simp add: pok_sched_activate_error_thread_def Let_def err_def [symmetric]
        pok_sched_get_priority_max_def)
  also have "\<dots> = Some (arch_context_switch c cur ?s2)"
    unfolding pok_sched_context_switch_def c using assms(4,5) by (simp add: Let_def) (simp add: upd_thread_def)
  finally show ?thesis
    by (intro exI [of _ ?s2]) (simp add: emit_def upd_thread_def POK_SCHED_CURRENT_THREAD_def)
qed

text \<open>An application error reaches the error handler of its partition: raising it switches to the partition's
  error thread, runnable at the highest priority, and what that thread reads back with \<open>pok_error_get\<close>
  is the kind, the failed thread's index in the partition and the message, cut to its first 250 bytes;
  the reader's buffer is written nowhere else.\<close>

theorem application_error_reaches_handler:
  fixes s :: kstate
  defines "err \<equiv> p_thread_error (POK_CURRENT_PARTITION s)" and "cur \<equiv> POK_SCHED_CURRENT_THREAD s"
  assumes "err \<noteq> 0" "err \<noteq> cur" "spinlocks s (proc_id s) = 0"
  shows "\<exists>s2 st'. pok_error_raise_application_error c msg n s = Some (arch_context_switch c cur s2) \<and>
    POK_SCHED_CURRENT_THREAD s2 = err \<and> t_state (pok_threads s2 err) = POK_STATE_RUNNABLE \<and>
    t_priority (pok_threads s2 err) = 255 \<and> pok_error_get st s2 = (POK_ERRNO_OK, st') \<and>
    e_error_kind st' = 11 \<and> e_failed_thread st' = of_nat cur - of_nat (p_thread_index_low (POK_CURRENT_PARTITION s)) \<and>
    unat (e_msg_size st') = min (unat n) 250 \<and>
    (\<forall>i. e_msg st' i = (if i < min (unat n) 250 then msg i else e_msg st i))"
proof -
  let ?m = "if n > POK_ERROR_MAX_MSG_SIZE then POK_ERROR_MAX_MSG_SIZE else n"
  have m: "unat ?m = min (unat n) 250" by (auto simp: POK_ERROR_MAX_MSG_SIZE_def word_less_nat_alt min_def)
  let ?s = "set_application_error msg ?m s"
  have "\<exists>s2. pok_sched_activate_error_thread c ?s = Some (arch_context_switch c cur s2) \<and>
    POK_SCHED_CURRENT_THREAD s2 = err \<and> t_state (pok_threads s2 err) = POK_STATE_RUNNABLE \<and>
    t_priority (pok_threads s2 err) = 255 \<and>
    pok_partitions s2 = pok_partitions ?s \<and> pok_current_partition s2 = pok_current_partition ?s"
    using activate_error_thread_switch [of ?s c] assms by auto
  then obtain s2 where s2: "pok_sched_activate_error_thread c ?s = Some (arch_context_switch c cur s2)"
    "POK_SCHED_CURRENT_THREAD s2 = err" "t_state (pok_threads s2 err) = POK_STATE_RUNNABLE"
    "t_priority (pok_threads s2 err) = 255"
    "pok_partitions s2 = pok_partitions ?s" "pok_current_partition s2 = pok_current_partition ?s" by blast
  have "p_error_status (POK_CURRENT_PARTITION s2) = p_error_status (POK_CURRENT_PARTITION ?s)"
    using s2(5,6) by (simp add: POK_CURRENT_PARTITION_def)
  note st = this [unfolded set_application_error_status]
  show ?thesis
    by (rule exI [of _ s2], rule exI [of _ "snd (pok_error_get st s2)"])
      (use s2(1-4) m in \<open>simp add: pok_error_raise_application_error_def pok_error_get_def st Let_def
        POK_ERROR_KIND_APPLICATION_ERROR_def POK_ERROR_KIND_INVALID_def failed_thread_index_def cur_def\<close>)
qed

lemma application_error_reaches_handler_witness:
  "\<exists>s s2 (st' :: pok_error_status_t). pok_error_raise_application_error demo_config (\<lambda>_. 65) 300 s = Some s2 \<and>
     unat (e_msg_size st') = 250 \<and> e_msg st' 249 = 65"
proof -
  define s where "s = upd_partition 0 (\<lambda>p. p\<lparr>p_thread_error := 2\<rparr>) demo_state"
  have f: "p_thread_error (POK_CURRENT_PARTITION s) = 2" "POK_SCHED_CURRENT_THREAD s = 1" "spinlocks s (proc_id s) = 0"
    by (simp_all add: s_def upd_partition_def POK_CURRENT_PARTITION_def POK_SCHED_CURRENT_THREAD_def)
  have "p_thread_error (POK_CURRENT_PARTITION s) \<noteq> 0"
    "p_thread_error (POK_CURRENT_PARTITION s) \<noteq> POK_SCHED_CURRENT_THREAD s" using f by simp_all
  from application_error_reaches_handler [OF this f(3), of demo_config "\<lambda>_. 65" 300 "p_error_status (demo_partition 0)"]
  obtain s2 and st' :: pok_error_status_t where r: "pok_error_raise_application_error demo_config (\<lambda>_. 65) 300 s =
      Some (arch_context_switch demo_config (POK_SCHED_CURRENT_THREAD s) s2)"
    "unat (e_msg_size st') = min (unat (300 :: u32)) 250"
    "\<forall>i. e_msg st' i = (if i < min (unat (300 :: u32)) 250 then 65 else e_msg (p_error_status (demo_partition 0)) i)"
    by blast
  have "unat (e_msg_size st') = 250" "e_msg st' 249 = 65" using r(2,3) by simp_all
  with r(1) show ?thesis by blast
qed

text \<open>Creating the error thread of a partition takes the next slot of the partition, records it as the
  partition's error thread and switches to it with the full budget and highest priority, but the period,
  deadline, weight and processor it was created with are the values an uninitialised local
  structure happened to hold.\<close>

theorem error_thread_create_uninitialised:
  fixes c :: pok_config and s :: kstate and "entry" :: u32
  defines "pid \<equiv> pok_current_partition s" and "attr \<equiv> (junk_attr c)\<lparr>a_priority := POK_THREAD_MAX_PRIORITY,
    a_entry := entry, a_time_capacity := 10000\<rparr>"
  defines "p \<equiv> pok_partitions s pid"
  defines "tid \<equiv> p_thread_index_low p + p_thread_index p"
  assumes "create_affinity_ok c s pid attr a" "init_mode (p_mode p)" "p_sched p \<noteq> POK_SCHED_RMS"
    and "tid < p_thread_index_high p" "tid \<noteq> 0" "tid \<noteq> POK_SCHED_CURRENT_THREAD s" "spinlocks s (proc_id s) = 0"
    and "a_deadline (junk_attr c) > 0"
  shows "\<exists>s2. pok_error_thread_create c sz entry s =
      Some (POK_ERRNO_OK, arch_context_switch c (POK_SCHED_CURRENT_THREAD s) s2) \<and>
    POK_SCHED_CURRENT_THREAD s2 = tid \<and> p_thread_error (pok_partitions s2 pid) = tid \<and>
    t_priority (pok_threads s2 tid) = 255 \<and> t_entry (pok_threads s2 tid) = entry \<and>
    t_deadline (pok_threads s2 tid) = a_deadline (junk_attr c) \<and> t_processor_affinity (pok_threads s2 tid) = a"
proof -
  let ?s1 = "create_unsorted c s pid attr a"
  let ?s = "upd_partition pid (\<lambda>p. p\<lparr>p_thread_error := tid\<rparr>) ?s1"
  have cr: "pok_partition_thread_create c attr pid s = Some (POK_ERRNO_OK, Some tid, ?s1)"
    using thread_create_success [of s pid attr c a] assms(5-8) by (simp add: p_def tid_def Let_def)
  have f: "pok_current_partition ?s1 = pid" "p_thread_error (POK_CURRENT_PARTITION ?s) = tid"
    "POK_SCHED_CURRENT_THREAD ?s = POK_SCHED_CURRENT_THREAD s" "spinlocks ?s (proc_id ?s) = 0"
    "pok_threads ?s tid = created_thread c s pid attr a" "p_thread_error (pok_partitions ?s pid) = tid"
    using assms(11) by (simp_all add: create_unsorted_def Let_def pid_def upd_partition_def POK_CURRENT_PARTITION_def
        POK_SCHED_CURRENT_THREAD_def p_def tid_def)
  have d: "t_deadline (created_thread c s pid attr a) = a_deadline (junk_attr c)"
    "t_entry (created_thread c s pid attr a) = entry" "t_processor_affinity (created_thread c s pid attr a) = a"
    using assms(12) by (simp_all add: created_thread_def thread_from_attr_def Let_def attr_def)
  let ?e = "upd_thread tid (\<lambda>th. th\<lparr>t_priority := 255, t_remaining_time_capacity := 1000, t_period := 100,
      t_next_activation := 0, t_state := POK_STATE_RUNNABLE\<rparr>) ?s"
  let ?s2 = "emit (Ev_context_switch (POK_SCHED_CURRENT_THREAD s) (t_sp (pok_threads ?e tid)))
    (?e\<lparr>current_threads := (current_threads ?e)(proc_id ?e := tid)\<rparr>)"
  have c: "POK_SCHED_CURRENT_THREAD ?e = POK_SCHED_CURRENT_THREAD s" "spinlocks ?e (proc_id ?e) = 0"
    using f(3,4) by (simp_all add: POK_SCHED_CURRENT_THREAD_def upd_thread_def)
  have "pok_sched_activate_error_thread c ?s = pok_sched_context_switch c tid True ?e"
    using assms(9) f(2) by (simp add: pok_sched_activate_error_thread_def Let_def pok_sched_get_priority_max_def)
  also have "\<dots> = Some (arch_context_switch c (POK_SCHED_CURRENT_THREAD s) ?s2)"
    unfolding pok_sched_context_switch_def c using assms(10) c(2) by (simp add: Let_def)
  finally have "pok_error_thread_create c sz entry s =
      Some (POK_ERRNO_OK, arch_context_switch c (POK_SCHED_CURRENT_THREAD s) ?s2)"
    using cr f(1) by (simp add: pok_error_thread_create_def attr_def [symmetric] pid_def [symmetric])
  then show ?thesis
    by (rule_tac exI [of _ ?s2]) (use f d in \<open>simp add: emit_def upd_thread_def POK_SCHED_CURRENT_THREAD_def\<close>)
qed

lemma error_thread_create_uninitialised_witness:
  "\<exists>s s2. pok_error_thread_create demo_config 0 4096 s = Some (POK_ERRNO_OK, s2)"
proof -
  have "create_affinity_ok demo_config demo_init_state 0 (demo_attr\<lparr>a_priority := POK_THREAD_MAX_PRIORITY,
    a_entry := 4096, a_time_capacity := 10000\<rparr>) 0"
    by (simp add: create_affinity_ok_def get_proc_real_id_first demo_attr_def demo_init_state_def upd_partition_def
      demo_partition_def)
  moreover have "junk_attr demo_config = demo_attr" by (simp add: demo_config_def)
  moreover have "pok_current_partition demo_init_state = 0" "POK_SCHED_CURRENT_THREAD demo_init_state = 1"
    "spinlocks demo_init_state (proc_id demo_init_state) = 0"
    by (simp_all add: demo_init_state_def upd_partition_def POK_SCHED_CURRENT_THREAD_def)
  moreover have "p_mode (pok_partitions demo_init_state 0) = POK_PARTITION_MODE_INIT_WARM"
    "p_sched (pok_partitions demo_init_state 0) = POK_SCHED_RR" "p_thread_index_low (pok_partitions demo_init_state 0) = 0"
    "p_thread_index (pok_partitions demo_init_state 0) = 2" "p_thread_index_high (pok_partitions demo_init_state 0) = 3"
    by (simp_all add: demo_init_state_def upd_partition_def demo_partition_def)
  moreover have "a_deadline demo_attr > 0" by (simp add: demo_attr_def)
  ultimately show ?thesis
    using error_thread_create_uninitialised [of demo_config demo_init_state 4096 0 0] by (fastforce simp: init_mode_def)
qed

end
