(* ===== verification/Pok_Lockobj.thy ===== *)
theory Pok_Lockobj
  imports Pok_Sched Pok_Fifo
begin

text \<open>
  The lock objects of \<open>kernel/core/lockobj.c\<close>: mutexes, counting semaphores and events. A lock object is
  addressed by a reference, because the kernel keeps such objects in two places, the table of the
  partitions' lock objects and the ports. The operations are the code's, with the part before a thread
  blocks and the part after it runs again as definitions of their own.

  A spin lock that is taken is never released by the thread that waits for it, so \<open>SPIN_LOCK\<close> on a taken
  lock does not return here; every operation is shown to leave its spin locks free, so that between two
  operations none is taken.
\<close>

subsection \<open>References and spin locks\<close>

datatype lockref = LockObj nat | PortLock nat

definition lock_at :: "lockref \<Rightarrow> kstate \<Rightarrow> pok_lockobj_t" where
  "lock_at r s = (case r of LockObj i \<Rightarrow> pok_partitions_lockobjs s i | PortLock i \<Rightarrow> po_lock (pok_ports s i))"

definition upd_lock :: "lockref \<Rightarrow> (pok_lockobj_t \<Rightarrow> pok_lockobj_t) \<Rightarrow> kstate \<Rightarrow> kstate" where
  "upd_lock r f s = (case r of
      LockObj i \<Rightarrow> s\<lparr>pok_partitions_lockobjs := (pok_partitions_lockobjs s)(i := f (pok_partitions_lockobjs s i))\<rparr>
    | PortLock i \<Rightarrow> s\<lparr>pok_ports := (pok_ports s)(i := (pok_ports s i)\<lparr>po_lock := f (po_lock (pok_ports s i))\<rparr>)\<rparr>)"

definition spin_count_up :: "kstate \<Rightarrow> kstate" where
  "spin_count_up s = s\<lparr>spinlocks := (spinlocks s)(proc_id s := spinlocks s (proc_id s) + 1)\<rparr>"

definition spin_count_down :: "kstate \<Rightarrow> kstate" where
  "spin_count_down s = s\<lparr>spinlocks := (spinlocks s)(proc_id s := spinlocks s (proc_id s) - 1)\<rparr>"

definition SPIN_LOCK :: "lockref \<Rightarrow> kstate \<Rightarrow> kstate option" where
  "SPIN_LOCK r s = (if l_spin (lock_at r s) then None
     else Some (spin_count_up (upd_lock r (\<lambda>l. l\<lparr>l_spin := True\<rparr>) s)))"

definition SPIN_UNLOCK :: "lockref \<Rightarrow> kstate \<Rightarrow> kstate option" where
  "SPIN_UNLOCK r s = do {
     kassert (l_spin (lock_at r s));
     kassert (spinlocks s (proc_id s) \<noteq> 0);
     Some (upd_lock r (\<lambda>l. l\<lparr>l_spin := False\<rparr>) (spin_count_down s))
   }"

definition EVENT_SPIN_LOCK :: "lockref \<Rightarrow> kstate \<Rightarrow> kstate option" where
  "EVENT_SPIN_LOCK r s = (if l_eventspin (lock_at r s) then None
     else Some (spin_count_up (upd_lock r (\<lambda>l. l\<lparr>l_eventspin := True\<rparr>) s)))"

definition EVENT_SPIN_UNLOCK :: "lockref \<Rightarrow> kstate \<Rightarrow> kstate option" where
  "EVENT_SPIN_UNLOCK r s = do {
     kassert (l_eventspin (lock_at r s));
     kassert (spinlocks s (proc_id s) \<noteq> 0);
     Some (upd_lock r (\<lambda>l. l\<lparr>l_eventspin := False\<rparr>) (spin_count_down s))
   }"

subsection \<open>Initialisation and creation\<close>

text \<open>The loop counter is a byte; the count of the objects is only compared to report an error.\<close>

definition pok_lockobj_init :: "pok_config \<Rightarrow> kstate \<Rightarrow> (pok_ret_t \<times> kstate) option" where
  "pok_lockobj_init c s =
     (if NB_LOCKOBJECTS c > 0
      then if NB_PARTITIONS c > 255 \<or> NB_LOCKOBJECTS c > 255 then None
           else let total_lockobjects = sum_list (map (\<lambda>i. p_nlockobjs (pok_partitions s i)) [0..<NB_PARTITIONS c]);
                    s1 = (if total_lockobjects \<noteq> NB_LOCKOBJECTS c
                          then pok_kernel_error POK_ERROR_KIND_KERNEL_CONFIG s else s)
                in Some (POK_ERRNO_OK, fold (\<lambda>i. upd_lock (LockObj i)
                     (\<lambda>l. l\<lparr>l_spin := False, l_current_value := 1, l_initialized := False\<rparr>)) [0..<NB_LOCKOBJECTS c] s1)
      else Some (POK_ERRNO_OK, s))"

definition lockobj_from_attr :: "pok_lockobj_attr_t \<Rightarrow> pok_lockobj_t \<Rightarrow> pok_lockobj_t" where
  "lockobj_from_attr attr obj =
     (let o1 = obj\<lparr>l_fifo := pok_lockobj_fifo_init (l_fifo obj), l_event_fifo := pok_lockobj_fifo_init (l_event_fifo obj),
                l_queueing_policy := (if la_kind attr = POK_LOCKOBJ_KIND_EVENT then POK_QUEUEING_DISCIPLINE_PRIORITY
                                      else la_queueing_policy attr),
                l_locking_policy := la_locking_policy attr, l_kind := la_kind attr, l_initialized := True\<rparr>
      in if la_kind attr = POK_LOCKOBJ_KIND_SEMAPHORE
         then o1\<lparr>l_current_value := la_initial_value attr, l_max_value := la_max_value attr\<rparr>
         else o1\<lparr>l_current_value := 1\<rparr>)"

definition pok_lockobj_create :: "lockref \<Rightarrow> pok_lockobj_attr_t \<Rightarrow> kstate \<Rightarrow> pok_ret_t \<times> kstate" where
  "pok_lockobj_create r attr s =
     (if la_locking_policy attr = POK_LOCKOBJ_POLICY_OTHER then (POK_ERRNO_LOCKOBJ_POLICY, s)
      else if la_kind attr = POK_LOCKOBJ_KIND_OTHER then (POK_ERRNO_LOCKOBJ_KIND, s)
      else (POK_ERRNO_OK, upd_lock r (lockobj_from_attr attr) s))"

text \<open>The bounds and the index are bytes. The identifier is stored before the attributes are checked.\<close>

definition pok_lockobj_partition_create ::
  "pok_lockobj_attr_t \<Rightarrow> kstate \<Rightarrow> pok_ret_t \<times> nat option \<times> kstate" where
  "pok_lockobj_partition_create attr s =
     (if \<not> init_mode (p_mode (POK_CURRENT_PARTITION s)) then (POK_ERRNO_MODE, None, s)
      else let lower_bound = p_lockobj_index_low (pok_partitions s (pok_current_partition s)) mod 256;
               upper_bound = p_lockobj_index_high (pok_partitions s (pok_current_partition s)) mod 256
           in case find (\<lambda>mid. \<not> l_initialized (pok_partitions_lockobjs s mid)) [lower_bound..<upper_bound] of
                None \<Rightarrow> (POK_ERRNO_LOCKOBJ_UNAVAILABLE, None, s)
              | Some mid \<Rightarrow> (case pok_lockobj_create (LockObj mid) attr s of (ret, s') \<Rightarrow> (ret, Some mid, s')))"

subsection \<open>Locking\<close>

definition lock_current_until :: "u64 \<Rightarrow> kstate \<Rightarrow> kstate" where
  "lock_current_until deadline s =
     (if deadline > 0 then pok_sched_lock_current_thread_timed deadline s else pok_sched_lock_current_thread s)"

text \<open>The slow path up to the switch, and after it.\<close>

definition lock_block :: "pok_config \<Rightarrow> lockref \<Rightarrow> u64 \<Rightarrow> kstate \<Rightarrow> kstate option" where
  "lock_block c r deadline s = do {
     (ret, f) \<leftarrow> pok_lockobj_enqueue c s (l_fifo (lock_at r s)) (POK_SCHED_CURRENT_THREAD s)
                   (l_queueing_policy (lock_at r s));
     SPIN_UNLOCK r (lock_current_until deadline (upd_lock r (\<lambda>l. l\<lparr>l_fifo := f\<rparr>) s))
   }"

definition lock_resume :: "pok_config \<Rightarrow> lockref \<Rightarrow> u64 \<Rightarrow> kstate \<Rightarrow> (pok_ret_t \<times> kstate) option" where
  "lock_resume c r deadline s = do {
     s1 \<leftarrow> SPIN_LOCK r s;
     if deadline \<noteq> 0 \<and> pok_tick_counter s1 \<ge> deadline
     then do {
       (ret, f) \<leftarrow> pok_lockobj_remove_thread c (l_fifo (lock_at r s1)) (POK_SCHED_CURRENT_THREAD s1);
       s2 \<leftarrow> SPIN_UNLOCK r (upd_lock r (\<lambda>l. l\<lparr>l_fifo := f\<rparr>) s1);
       Some (POK_ERRNO_TIMEOUT, s2)
     }
     else do { s2 \<leftarrow> SPIN_UNLOCK r s1; Some (POK_ERRNO_OK, s2) }
   }"

definition lock_deadline :: "pok_lockobj_lockattr_t option \<Rightarrow> kstate \<Rightarrow> u64" where
  "lock_deadline attr s =
     (case attr of None \<Rightarrow> 0 | Some a \<Rightarrow> if lk_timeout a > 0 then lk_timeout a + pok_tick_counter s else 0)"

definition pok_lockobj_lock ::
  "pok_config \<Rightarrow> lockref \<Rightarrow> pok_lockobj_lockattr_t option \<Rightarrow> kstate \<Rightarrow> (pok_ret_t \<times> kstate) option" where
  "pok_lockobj_lock c r attr s =
     (if \<not> l_initialized (lock_at r s) then Some (POK_ERRNO_LOCKOBJ_NOTREADY, s)
      else do {
        s1 \<leftarrow> SPIN_LOCK r s;
        if l_current_value (lock_at r s1) > 0
        then do {
          kassert (pok_lockobj_fifo_is_empty (l_fifo (lock_at r s1)));
          s2 \<leftarrow> SPIN_UNLOCK r (upd_lock r (\<lambda>l. l\<lparr>l_current_value := l_current_value l - 1\<rparr>) s1);
          Some (POK_ERRNO_OK, s2)
        }
        else do {
          let deadline = lock_deadline attr s1;
          s2 \<leftarrow> lock_block c r deadline s1;
          s3 \<leftarrow> pok_sched_thread c True s2;
          lock_resume c r deadline s3
        }
      })"

subsection \<open>Unlocking\<close>

text \<open>The three scenarios of the code, up to the release of the spin lock; the result names the thread that
  was unblocked.\<close>

definition unlock_object :: "pok_config \<Rightarrow> lockref \<Rightarrow> kstate \<Rightarrow> (nat option \<times> kstate) option" where
  "unlock_object c r s =
     (let obj = lock_at r s in
      if l_current_value obj \<noteq> 0
      then do {
        kassert (pok_lockobj_fifo_is_empty (l_fifo obj));
        let s1 = (if l_kind obj = POK_LOCKOBJ_KIND_SEMAPHORE
                  then if l_current_value obj < l_max_value obj
                       then upd_lock r (\<lambda>l. l\<lparr>l_current_value := l_current_value l + 1\<rparr>) s else s
                  else upd_lock r (\<lambda>l. l\<lparr>l_current_value := 1\<rparr>) s);
        s2 \<leftarrow> SPIN_UNLOCK r s1;
        Some (None, s2)
      }
      else if pok_lockobj_fifo_is_empty (l_fifo obj)
      then do {
        s2 \<leftarrow> SPIN_UNLOCK r (upd_lock r (\<lambda>l. l\<lparr>l_current_value := 1\<rparr>) s);
        Some (None, s2)
      }
      else do {
        let to_unblock = pok_lockobj_get_head (l_fifo obj);
        let s1 = upd_lock r (\<lambda>l. l\<lparr>l_fifo := snd (pok_lockobj_dequeue c (l_fifo l))\<rparr>) s;
        s2 \<leftarrow> SPIN_UNLOCK r (pok_sched_unlock_thread to_unblock s1);
        Some (Some to_unblock, s2)
      })"

definition pok_lockobj_unlock :: "pok_config \<Rightarrow> lockref \<Rightarrow> kstate \<Rightarrow> (pok_ret_t \<times> kstate) option" where
  "pok_lockobj_unlock c r s =
     (if \<not> l_initialized (lock_at r s) then Some (POK_ERRNO_LOCKOBJ_NOTREADY, s)
      else do {
        s1 \<leftarrow> SPIN_LOCK r s;
        (woken, s2) \<leftarrow> unlock_object c r s1;
        (case woken of
           Some to_unblock \<Rightarrow>
             if \<not> l_eventspin (lock_at r s2)
             then do {
               s3 \<leftarrow> pok_threads_schedule_one_proc c (t_processor_affinity (pok_threads s2 to_unblock)) s2;
               Some (POK_ERRNO_OK, s3)
             }
             else Some (POK_ERRNO_OK, s2)
         | None \<Rightarrow> Some (POK_ERRNO_OK, s2))
      })"

subsection \<open>Events\<close>

text \<open>The wait up to the switch: the error code of the early returns, or the deadline and the state.\<close>

definition eventwait_block ::
  "pok_config \<Rightarrow> lockref \<Rightarrow> u64 \<Rightarrow> kstate \<Rightarrow> (pok_ret_t option \<times> u64 \<times> kstate) option" where
  "eventwait_block c r timeout s = do {
     s1 \<leftarrow> EVENT_SPIN_LOCK r s;
     if \<not> l_initialized (lock_at r s1)
     then do { s2 \<leftarrow> EVENT_SPIN_UNLOCK r s1; Some (Some POK_ERRNO_LOCKOBJ_NOTREADY, 0, s2) }
     else if l_kind (lock_at r s1) \<noteq> POK_LOCKOBJ_KIND_EVENT
     then do { s2 \<leftarrow> EVENT_SPIN_UNLOCK r s1; Some (Some POK_ERRNO_EINVAL, 0, s2) }
     else do {
       (ret, s2) \<leftarrow> pok_lockobj_unlock c r s1;
       if ret \<noteq> POK_ERRNO_OK
       then do { s3 \<leftarrow> EVENT_SPIN_UNLOCK r s2; Some (Some POK_ERRNO_UNAVAILABLE, 0, s3) }
       else do {
         (ret, f) \<leftarrow> pok_lockobj_enqueue c s2 (l_event_fifo (lock_at r s2)) (POK_SCHED_CURRENT_THREAD s2)
                       POK_QUEUEING_DISCIPLINE_PRIORITY;
         kassert (ret = POK_ERRNO_OK);
         let s3 = upd_lock r (\<lambda>l. l\<lparr>l_event_fifo := f\<rparr>) s2;
         let deadline = (if timeout \<noteq> 0 then timeout + pok_tick_counter s3 else 0);
         s4 \<leftarrow> EVENT_SPIN_UNLOCK r (lock_current_until deadline s3);
         Some (None, deadline, s4)
       }
     }
   }"

definition eventwait_resume :: "pok_config \<Rightarrow> lockref \<Rightarrow> u64 \<Rightarrow> kstate \<Rightarrow> (pok_ret_t \<times> kstate) option" where
  "eventwait_resume c r deadline s = do {
     (ret_wait, s1) \<leftarrow>
       (if deadline \<noteq> 0 \<and> pok_tick_counter s \<ge> deadline
        then do {
          s1 \<leftarrow> EVENT_SPIN_LOCK r s;
          (ret, f) \<leftarrow> pok_lockobj_remove_thread c (l_event_fifo (lock_at r s1)) (POK_SCHED_CURRENT_THREAD s1);
          s2 \<leftarrow> EVENT_SPIN_UNLOCK r (upd_lock r (\<lambda>l. l\<lparr>l_event_fifo := f\<rparr>) s1);
          Some (POK_ERRNO_TIMEOUT, s2)
        }
        else Some (POK_ERRNO_OK, s));
     (ret_lock, s2) \<leftarrow> pok_lockobj_lock c r None s1;
     Some (if ret_lock \<noteq> POK_ERRNO_OK then ret_lock else ret_wait, s2)
   }"

definition pok_lockobj_eventwait ::
  "pok_config \<Rightarrow> lockref \<Rightarrow> u64 \<Rightarrow> kstate \<Rightarrow> (pok_ret_t \<times> kstate) option" where
  "pok_lockobj_eventwait c r timeout s = do {
     (early, deadline, s1) \<leftarrow> eventwait_block c r timeout s;
     (case early of
        Some ret \<Rightarrow> Some (ret, s1)
      | None \<Rightarrow> do { s2 \<leftarrow> pok_sched_thread c True s1; eventwait_resume c r deadline s2 })
   }"

text \<open>Waking the head of the event queue.\<close>

definition event_wake_head :: "pok_config \<Rightarrow> lockref \<Rightarrow> kstate \<Rightarrow> kstate" where
  "event_wake_head c r s =
     (let tmp = pok_lockobj_get_head (l_event_fifo (lock_at r s))
      in upd_lock r (\<lambda>l. l\<lparr>l_event_fifo := snd (pok_lockobj_dequeue c (l_event_fifo l))\<rparr>) (pok_sched_unlock_thread tmp s))"

definition pok_lockobj_eventsignal :: "pok_config \<Rightarrow> lockref \<Rightarrow> kstate \<Rightarrow> (pok_ret_t \<times> kstate) option" where
  "pok_lockobj_eventsignal c r s = do {
     s1 \<leftarrow> EVENT_SPIN_LOCK r s;
     if pok_lockobj_fifo_is_empty (l_event_fifo (lock_at r s1))
     then do { s2 \<leftarrow> EVENT_SPIN_UNLOCK r s1; Some (POK_ERRNO_NOTFOUND, s2) }
     else do {
       let tmp = pok_lockobj_get_head (l_event_fifo (lock_at r s1));
       s2 \<leftarrow> EVENT_SPIN_UNLOCK r (event_wake_head c r s1);
       s3 \<leftarrow> pok_threads_schedule_one_proc c (t_processor_affinity (pok_threads s2 tmp)) s2;
       Some (POK_ERRNO_OK, s3)
     }
   }"

partial_function (option) event_wake_all :: "pok_config \<Rightarrow> lockref \<Rightarrow> bool \<Rightarrow> kstate \<Rightarrow> (bool \<times> kstate) option" where
  "event_wake_all c r resched s =
     (if \<not> pok_lockobj_fifo_is_empty (l_event_fifo (lock_at r s))
      then event_wake_all c r True (event_wake_head c r s)
      else Some (resched, s))"

definition pok_lockobj_eventbroadcast :: "pok_config \<Rightarrow> lockref \<Rightarrow> kstate \<Rightarrow> (pok_ret_t \<times> kstate) option" where
  "pok_lockobj_eventbroadcast c r s = do {
     s1 \<leftarrow> EVENT_SPIN_LOCK r s;
     (resched, s2) \<leftarrow> event_wake_all c r False s1;
     s3 \<leftarrow> EVENT_SPIN_UNLOCK r s2;
     s4 \<leftarrow> (if resched then pok_threads_schedule_every_proc c s3 else Some s3);
     Some (POK_ERRNO_OK, s4)
   }"

subsection \<open>The partition's view\<close>

definition pok_lockobj_partition_wrapper ::
  "pok_config \<Rightarrow> nat \<Rightarrow> pok_lockobj_lockattr_t \<Rightarrow> kstate \<Rightarrow> (pok_ret_t \<times> kstate) option" where
  "pok_lockobj_partition_wrapper c oid attr s =
     (let p = pok_partitions s (pok_current_partition s) in
      if oid < p_lockobj_index_low p then Some (POK_ERRNO_EINVAL, s)
      else if oid \<ge> p_lockobj_index_high p then Some (POK_ERRNO_EINVAL, s)
      else if l_kind (pok_partitions_lockobjs s oid) \<noteq> lk_obj_kind attr then Some (POK_ERRNO_EINVAL, s)
      else case lk_operation attr of
          LOCKOBJ_OPERATION_LOCK \<Rightarrow> pok_lockobj_lock c (LockObj oid) (Some attr) s
        | LOCKOBJ_OPERATION_UNLOCK \<Rightarrow> pok_lockobj_unlock c (LockObj oid) s
        | LOCKOBJ_OPERATION_WAIT \<Rightarrow> pok_lockobj_eventwait c (LockObj oid) (lk_timeout attr) s
        | LOCKOBJ_OPERATION_SIGNAL \<Rightarrow> pok_lockobj_eventsignal c (LockObj oid) s
        | LOCKOBJ_OPERATION_BROADCAST \<Rightarrow> pok_lockobj_eventbroadcast c (LockObj oid) s
        | LOCKOBJ_OPERATION_OTHER \<Rightarrow> Some (POK_ERRNO_EINVAL, s))"

subsection \<open>Frames\<close>

lemma lock_at_updates [simp]:
  "lock_at r (upd_lock r f s) = f (lock_at r s)"
  "lock_at r (upd_thread t g s) = lock_at r s"
  "lock_at r (spin_count_up s) = lock_at r s" "lock_at r (spin_count_down s) = lock_at r s"
  "lock_at r (s\<lparr>pok_threads := th\<rparr>) = lock_at r s"
  "lock_at r (emit ev s) = lock_at r s"
  by (simp_all add: lock_at_def upd_lock_def upd_thread_def spin_count_up_def spin_count_down_def emit_def
      split: lockref.splits)

lemma lock_at_other [simp]: "r \<noteq> r' \<Longrightarrow> lock_at r (upd_lock r' f s) = lock_at r s"
  by (auto simp: lock_at_def upd_lock_def split: lockref.splits)

lemma upd_lock_fields [simp]:
  "pok_threads (upd_lock r f s) = pok_threads s" "pok_partitions (upd_lock r f s) = pok_partitions s"
  "pok_current_partition (upd_lock r f s) = pok_current_partition s" "current_threads (upd_lock r f s) = current_threads s"
  "proc_id (upd_lock r f s) = proc_id s" "pok_tick_counter (upd_lock r f s) = pok_tick_counter s"
  "spinlocks (upd_lock r f s) = spinlocks s" "ks_trace (upd_lock r f s) = ks_trace s"
  "POK_SCHED_CURRENT_THREAD (upd_lock r f s) = POK_SCHED_CURRENT_THREAD s"
  by (simp_all add: upd_lock_def POK_SCHED_CURRENT_THREAD_def split: lockref.splits)

lemma spin_count_fields [simp]:
  "pok_threads (spin_count_up s) = pok_threads s" "pok_threads (spin_count_down s) = pok_threads s"
  "proc_id (spin_count_up s) = proc_id s" "proc_id (spin_count_down s) = proc_id s"
  "pok_tick_counter (spin_count_up s) = pok_tick_counter s" "pok_tick_counter (spin_count_down s) = pok_tick_counter s"
  "POK_SCHED_CURRENT_THREAD (spin_count_up s) = POK_SCHED_CURRENT_THREAD s"
  "POK_SCHED_CURRENT_THREAD (spin_count_down s) = POK_SCHED_CURRENT_THREAD s"
  "spinlocks (spin_count_up s) (proc_id s) \<noteq> 0"
  "ks_trace (spin_count_up s) = ks_trace s" "ks_trace (spin_count_down s) = ks_trace s"
  "pok_partitions (spin_count_up s) = pok_partitions s" "pok_partitions (spin_count_down s) = pok_partitions s"
  "pok_current_partition (spin_count_up s) = pok_current_partition s"
  "pok_current_partition (spin_count_down s) = pok_current_partition s"
  by (simp_all add: spin_count_up_def spin_count_down_def POK_SCHED_CURRENT_THREAD_def)

text \<open>Updates of the lock object, of the threads and of the count of the spin locks commute, and a count
  that goes up and down again is as before.\<close>

lemma upd_lock_commute [simp]:
  "upd_lock r f (upd_thread t g s) = upd_thread t g (upd_lock r f s)"
  "spin_count_down (upd_lock r f s) = upd_lock r f (spin_count_down s)"
  "spin_count_down (upd_thread t g s) = upd_thread t g (spin_count_down s)"
  "spin_count_up (upd_lock r f s) = upd_lock r f (spin_count_up s)"
  "spin_count_up (upd_thread t g s) = upd_thread t g (spin_count_up s)"
  "spin_count_down (spin_count_up s) = s"
  by (cases s; simp add: upd_lock_def upd_thread_def spin_count_up_def spin_count_down_def split: lockref.splits)+

lemma upd_lock_twice [simp]: "upd_lock r f (upd_lock r g s) = upd_lock r (\<lambda>l. f (g l)) s"
  by (simp add: upd_lock_def split: lockref.splits)

lemma upd_lock_cong: "f (lock_at r s) = g (lock_at r s) \<Longrightarrow> upd_lock r f s = upd_lock r g s"
  by (simp add: upd_lock_def lock_at_def split: lockref.splits)

lemma upd_lock_same: "f (lock_at r s) = lock_at r s \<Longrightarrow> upd_lock r f s = s"
  by (cases s; cases r) (auto simp: upd_lock_def lock_at_def fun_upd_idem)

lemma thread_ops_fields [simp]:
  "lock_at r (pok_sched_unlock_thread t s) = lock_at r s" "lock_at r (lock_current_until d s) = lock_at r s"
  "spinlocks (pok_sched_unlock_thread t s) = spinlocks s" "spinlocks (lock_current_until d s) = spinlocks s"
  "proc_id (pok_sched_unlock_thread t s) = proc_id s" "proc_id (lock_current_until d s) = proc_id s"
  by (simp_all add: pok_sched_unlock_thread_def lock_current_until_def pok_sched_lock_current_thread_def
      pok_sched_lock_current_thread_timed_def) (simp_all add: upd_thread_def)

lemma thread_ops_commute [simp]:
  "pok_sched_unlock_thread t (upd_lock r f s) = upd_lock r f (pok_sched_unlock_thread t s)"
  "lock_current_until d (upd_lock r f s) = upd_lock r f (lock_current_until d s)"
  "spin_count_down (pok_sched_unlock_thread t s) = pok_sched_unlock_thread t (spin_count_down s)"
  "spin_count_down (lock_current_until d s) = lock_current_until d (spin_count_down s)"
  "pok_sched_unlock_thread t (spin_count_up s) = spin_count_up (pok_sched_unlock_thread t s)"
  "lock_current_until d (spin_count_up s) = spin_count_up (lock_current_until d s)"
  by (simp_all add: pok_sched_unlock_thread_def lock_current_until_def pok_sched_lock_current_thread_def
      pok_sched_lock_current_thread_timed_def)

text \<open>Taking and releasing the spin lock around an update of the object.\<close>

lemma spin_lock_unfold:
  "\<not> l_spin (lock_at r s) \<Longrightarrow> SPIN_LOCK r s = Some (upd_lock r (\<lambda>l. l\<lparr>l_spin := True\<rparr>) (spin_count_up s))"
  by (simp add: SPIN_LOCK_def)

lemma event_spin_lock_unfold:
  "\<not> l_eventspin (lock_at r s) \<Longrightarrow>
     EVENT_SPIN_LOCK r s = Some (upd_lock r (\<lambda>l. l\<lparr>l_eventspin := True\<rparr>) (spin_count_up s))"
  by (simp add: EVENT_SPIN_LOCK_def)

lemma spin_unlock_unfold:
  "l_spin (f (lock_at r s)) \<Longrightarrow>
     SPIN_UNLOCK r (upd_lock r f (spin_count_up s)) = Some (upd_lock r (\<lambda>l. (f l)\<lparr>l_spin := False\<rparr>) s)"
  by (simp add: SPIN_UNLOCK_def)

lemma event_spin_unlock_unfold:
  "l_eventspin (f (lock_at r s)) \<Longrightarrow>
     EVENT_SPIN_UNLOCK r (upd_lock r f (spin_count_up s)) = Some (upd_lock r (\<lambda>l. (f l)\<lparr>l_eventspin := False\<rparr>) s)"
  by (simp add: EVENT_SPIN_UNLOCK_def)

lemmas spin_simps = spin_lock_unfold event_spin_lock_unfold spin_unlock_unfold event_spin_unlock_unfold

subsection \<open>The invariant of a lock object\<close>

abbreviation waiters :: "pok_config \<Rightarrow> pok_lockobj_t \<Rightarrow> nat list" where
  "waiters c l \<equiv> fifo_list (NB_THREADS c) (l_fifo l)"

abbreviation event_waiters :: "pok_config \<Rightarrow> pok_lockobj_t \<Rightarrow> nat list" where
  "event_waiters c l \<equiv> fifo_list (NB_THREADS c) (l_event_fifo l)"

definition queue_ok :: "pok_config \<Rightarrow> pok_lockobj_fifo_t \<Rightarrow> bool" where
  "queue_ok c f = (fifo_ok (NB_THREADS c) f \<and> distinct (fifo_list (NB_THREADS c) f) \<and>
     set (fifo_list (NB_THREADS c) f) \<subseteq> {..<NB_THREADS c})"

lemma queue_ok_waiting: "queue_ok c f = fifo_queue.waiting_ok c f"
  by (simp add: queue_ok_def fifo_queue.waiting_ok_def)

text \<open>An initialised object has two good queues and a known discipline, nobody waits for it while it is
  available, and it is available at most once unless it is a semaphore.\<close>

definition lock_inv :: "pok_config \<Rightarrow> pok_lockobj_t \<Rightarrow> bool" where
  "lock_inv c l = (l_initialized l \<and> queue_ok c (l_fifo l) \<and> queue_ok c (l_event_fifo l) \<and>
     l_queueing_policy l \<noteq> POK_QUEUEING_DISCIPLINE_OTHER \<and>
     (l_current_value l \<noteq> 0 \<longrightarrow> waiters c l = []) \<and>
     (l_kind l \<noteq> POK_LOCKOBJ_KIND_SEMAPHORE \<longrightarrow> l_current_value l \<le> 1))"

text \<open>No spin lock of the object is taken: the state between two operations.\<close>

definition spins_free :: "pok_lockobj_t \<Rightarrow> bool" where
  "spins_free l = (\<not> l_spin l \<and> \<not> l_eventspin l)"

definition policy_insert :: "kstate \<Rightarrow> pok_queueing_discipline_t \<Rightarrow> nat \<Rightarrow> nat list \<Rightarrow> nat list" where
  "policy_insert s d t xs =
     (if d = POK_QUEUEING_DISCIPLINE_FIFO then xs @ [t] else prio_insert (\<lambda>i. t_priority (pok_threads s i)) t xs)"

lemma enqueue_threads_cong:
  "pok_threads s' = pok_threads s \<Longrightarrow> pok_lockobj_enqueue c s' f t d = pok_lockobj_enqueue c s f t d"
  by (cases d) (simp_all add: pok_lockobj_enqueue_def)

lemma set_policy_insert: "set (policy_insert s d t xs) = insert t (set xs)"
proof -
  have "set (takeWhile P xs) \<union> set (dropWhile P xs) = set xs" for P by (metis set_append takeWhile_dropWhile_id)
  then show ?thesis by (auto simp: policy_insert_def prio_insert_def)
qed

lemma queue_enqueue:
  assumes "queue_ok c f" "t < NB_THREADS c" "t \<notin> set (fifo_list (NB_THREADS c) f)" "d \<noteq> POK_QUEUEING_DISCIPLINE_OTHER"
  obtains f' where "pok_lockobj_enqueue c s f t d = Some (POK_ERRNO_OK, f')" "queue_ok c f'"
    "fifo_list (NB_THREADS c) f' = policy_insert s d t (fifo_list (NB_THREADS c) f)"
proof (cases d)
  case POK_QUEUEING_DISCIPLINE_FIFO
  then show thesis using fifo_queue.enq_waiting [of c f t s] assms that
    by (auto simp: queue_ok_waiting policy_insert_def)
next
  case POK_QUEUEING_DISCIPLINE_PRIORITY
  then show thesis using prio_queue.enq_waiting [of c f t s] assms that
    by (auto simp: queue_ok_waiting policy_insert_def)
qed (use assms(4) in simp)

lemma queue_dequeue:
  assumes "queue_ok c f" "fifo_list (NB_THREADS c) f \<noteq> []"
  shows "queue_ok c (snd (pok_lockobj_dequeue c f))"
    "fifo_list (NB_THREADS c) (snd (pok_lockobj_dequeue c f)) = tl (fifo_list (NB_THREADS c) f)"
    "pok_lockobj_get_head f = hd (fifo_list (NB_THREADS c) f)"
proof -
  obtain f' where "pok_lockobj_dequeue c f = (POK_ERRNO_OK, f')" "queue_ok c f'"
    "fifo_list (NB_THREADS c) f' = tl (fifo_list (NB_THREADS c) f)"
    using fifo_queue.deq_waiting [of c f] assms by (auto simp: queue_ok_waiting)
  then show "queue_ok c (snd (pok_lockobj_dequeue c f))"
    "fifo_list (NB_THREADS c) (snd (pok_lockobj_dequeue c f)) = tl (fifo_list (NB_THREADS c) f)" by simp_all
  show "pok_lockobj_get_head f = hd (fifo_list (NB_THREADS c) f)"
    using fifo_head_hd assms by (simp add: queue_ok_def)
qed

lemma queue_remove:
  assumes "queue_ok c f"
  obtains ret f' where "pok_lockobj_remove_thread c f t = Some (ret, f')" "queue_ok c f'"
    "fifo_list (NB_THREADS c) f' = remove1 t (fifo_list (NB_THREADS c) f)"
  using fifo_queue.remove_waiting [of c f t] assms by (auto simp: queue_ok_waiting)

lemma queue_empty: "queue_ok c f \<Longrightarrow> pok_lockobj_fifo_is_empty f = (fifo_list (NB_THREADS c) f = [])"
  using fifo_list_Nil by (simp add: queue_ok_def pok_lockobj_fifo_is_empty_def)

lemma spin_false_same: "\<not> l_spin l \<Longrightarrow> l\<lparr>l_spin := False\<rparr> = l" "\<not> l_eventspin l \<Longrightarrow> l\<lparr>l_eventspin := False\<rparr> = l"
  by (cases l; simp)+

subsection \<open>What the operations do\<close>

lemma lock_fast:
  assumes "l_initialized (lock_at r s)" "\<not> l_spin (lock_at r s)" "0 < l_current_value (lock_at r s)"
    and "pok_lockobj_fifo_is_empty (l_fifo (lock_at r s))"
  shows "pok_lockobj_lock c r attr s = Some (POK_ERRNO_OK, upd_lock r (\<lambda>l. l\<lparr>l_current_value := l_current_value l - 1\<rparr>) s)"
proof -
  have "upd_lock r (\<lambda>l. l\<lparr>l_current_value := l_current_value l - 1, l_spin := False\<rparr>) s =
      upd_lock r (\<lambda>l. l\<lparr>l_current_value := l_current_value l - 1\<rparr>) s"
    by (rule upd_lock_cong) (use assms(2) in \<open>cases "lock_at r s", simp\<close>)
  then show ?thesis using assms by (simp add: pok_lockobj_lock_def spin_simps)
qed

text \<open>The state in which the scheduler is called when the object is not available.\<close>

lemma lock_slow:
  assumes "l_initialized (lock_at r s)" "\<not> l_spin (lock_at r s)" "l_current_value (lock_at r s) = 0"
    and "pok_lockobj_enqueue c s (l_fifo (lock_at r s)) (POK_SCHED_CURRENT_THREAD s)
      (l_queueing_policy (lock_at r s)) = Some (ret, f)"
  shows "pok_lockobj_lock c r attr s =
    do { s3 \<leftarrow> pok_sched_thread c True (lock_current_until (lock_deadline attr s) (upd_lock r (\<lambda>l. l\<lparr>l_fifo := f\<rparr>) s));
         lock_resume c r (lock_deadline attr s) s3 }"
proof -
  have d: "lock_deadline attr (upd_lock r g (spin_count_up s)) = lock_deadline attr s" for g
    by (simp add: lock_deadline_def split: option.splits)
  have e: "pok_lockobj_enqueue c (upd_lock r g (spin_count_up s)) = pok_lockobj_enqueue c s" for g
    by (intro ext enqueue_threads_cong) simp
  have "upd_lock r (\<lambda>l. l\<lparr>l_fifo := f, l_spin := False\<rparr>) s' = upd_lock r (\<lambda>l. l\<lparr>l_fifo := f\<rparr>) s'"
    if "lock_at r s' = lock_at r s" for s'
    by (rule upd_lock_cong) (use assms(2) that in \<open>cases "lock_at r s", simp\<close>)
  then show ?thesis using assms by (simp add: pok_lockobj_lock_def lock_block_def spin_simps d e Let_def)
qed

text \<open>After the switch: a thread that comes back after its deadline leaves the queue.\<close>

lemma lock_resume_spec:
  assumes "\<not> l_spin (lock_at r s)" "queue_ok c (l_fifo (lock_at r s))"
  shows "if deadline \<noteq> 0 \<and> deadline \<le> pok_tick_counter s
    then \<exists>f. lock_resume c r deadline s = Some (POK_ERRNO_TIMEOUT, upd_lock r (\<lambda>l. l\<lparr>l_fifo := f\<rparr>) s) \<and> queue_ok c f \<and>
      fifo_list (NB_THREADS c) f = remove1 (POK_SCHED_CURRENT_THREAD s) (waiters c (lock_at r s))
    else lock_resume c r deadline s = Some (POK_ERRNO_OK, s)"
proof (cases "deadline \<noteq> 0 \<and> deadline \<le> pok_tick_counter s")
  case True
  obtain ret f where f: "pok_lockobj_remove_thread c (l_fifo (lock_at r s)) (POK_SCHED_CURRENT_THREAD s) = Some (ret, f)"
    "queue_ok c f" "fifo_list (NB_THREADS c) f = remove1 (POK_SCHED_CURRENT_THREAD s) (waiters c (lock_at r s))"
    using queue_remove [OF assms(2)] .
  have "upd_lock r (\<lambda>l. l\<lparr>l_fifo := f, l_spin := False\<rparr>) s = upd_lock r (\<lambda>l. l\<lparr>l_fifo := f\<rparr>) s"
    by (rule upd_lock_cong) (use assms(1) in \<open>cases "lock_at r s", simp\<close>)
  then have "lock_resume c r deadline s = Some (POK_ERRNO_TIMEOUT, upd_lock r (\<lambda>l. l\<lparr>l_fifo := f\<rparr>) s)"
    using True assms(1) f by (simp add: lock_resume_def spin_simps)
  then show ?thesis using True f by auto
next
  case False
  have "upd_lock r (\<lambda>l. l\<lparr>l_spin := False\<rparr>) s = s" by (rule upd_lock_same) (use assms(1) spin_false_same in blast)
  then show ?thesis using False assms(1) by (auto simp: lock_resume_def spin_simps)
qed

text \<open>The value a release leaves, when nobody waits.\<close>

definition released_value :: "pok_lockobj_t \<Rightarrow> u16" where
  "released_value l =
     (if l_current_value l = 0 then 1
      else if l_kind l = POK_LOCKOBJ_KIND_SEMAPHORE
      then if l_current_value l < l_max_value l then l_current_value l + 1 else l_current_value l
      else 1)"

lemma unlock_free:
  assumes "lock_inv c (lock_at r s)" "\<not> l_spin (lock_at r s)" "waiters c (lock_at r s) = []"
  shows "Option.bind (SPIN_LOCK r s) (unlock_object c r) =
    Some (None, upd_lock r (\<lambda>l. l\<lparr>l_current_value := released_value l\<rparr>) s)"
proof -
  have e: "pok_lockobj_fifo_is_empty (l_fifo (lock_at r s))"
    using queue_empty [of c "l_fifo (lock_at r s)"] assms(1,3) by (simp add: lock_inv_def)
  have u: "upd_lock r (\<lambda>l. (g l)\<lparr>l_spin := False\<rparr>) s = upd_lock r (\<lambda>l. l\<lparr>l_current_value := released_value l\<rparr>) s"
    if "(g (lock_at r s))\<lparr>l_spin := False\<rparr> = (lock_at r s)\<lparr>l_current_value := released_value (lock_at r s)\<rparr>" for g
    by (rule upd_lock_cong) (use that in simp)
  have n: "\<not> l_spin (lock_at r s)" by (rule assms(2))
  show ?thesis
    unfolding spin_lock_unfold [OF n] bind.simps unlock_object_def Let_def
    using e n by (cases "lock_at r s") (auto simp: spin_simps released_value_def intro!: upd_lock_cong)
qed

lemma unlock_handover:
  assumes "lock_inv c (lock_at r s)" "\<not> l_spin (lock_at r s)" "waiters c (lock_at r s) \<noteq> []"
  shows "Option.bind (SPIN_LOCK r s) (unlock_object c r) =
    Some (Some (hd (waiters c (lock_at r s))), pok_sched_unlock_thread (hd (waiters c (lock_at r s)))
      (upd_lock r (\<lambda>l. l\<lparr>l_fifo := snd (pok_lockobj_dequeue c (l_fifo l))\<rparr>) s))"
proof -
  have q: "queue_ok c (l_fifo (lock_at r s))" "l_current_value (lock_at r s) = 0"
    using assms(1,3) by (auto simp: lock_inv_def)
  have e: "\<not> pok_lockobj_fifo_is_empty (l_fifo (lock_at r s))"
    "pok_lockobj_get_head (l_fifo (lock_at r s)) = hd (waiters c (lock_at r s))"
    using queue_empty [OF q(1)] queue_dequeue(3) [OF q(1) assms(3)] assms(3) by simp_all
  have u: "upd_lock r (\<lambda>l. l\<lparr>l_fifo := snd (pok_lockobj_dequeue c (l_fifo l)), l_spin := False\<rparr>) s' =
      upd_lock r (\<lambda>l. l\<lparr>l_fifo := snd (pok_lockobj_dequeue c (l_fifo l))\<rparr>) s'" if "lock_at r s' = lock_at r s" for s'
    by (rule upd_lock_cong) (use assms(2) that in \<open>cases "lock_at r s", simp\<close>)
  show ?thesis
    using assms(2) q(2) e by (simp add: spin_simps unlock_object_def Let_def u)
qed

subsection \<open>A lock object is a semaphore with a queue\<close>

text \<open>The specification: the number of available resources and the waiting threads, in order.\<close>

type_synonym sem = "nat \<times> nat list"

definition sem_acquire :: "(nat \<Rightarrow> nat list \<Rightarrow> nat list) \<Rightarrow> nat \<Rightarrow> sem \<Rightarrow> bool \<times> sem" where
  "sem_acquire enq t q = (case q of (v, ws) \<Rightarrow> if v > 0 then (True, (v - 1, ws)) else (False, (v, enq t ws)))"

definition sem_release :: "nat \<Rightarrow> sem \<Rightarrow> nat option \<times> sem" where
  "sem_release cap q = (case q of (v, ws) \<Rightarrow>
     if v > 0 then (None, (if v < cap then v + 1 else v, ws))
     else case ws of [] \<Rightarrow> (None, (1, [])) | w # ws' \<Rightarrow> (Some w, (0, ws')))"

definition sem_of :: "pok_config \<Rightarrow> pok_lockobj_t \<Rightarrow> sem" where
  "sem_of c l = (unat (l_current_value l), waiters c l)"

definition sem_cap :: "pok_lockobj_t \<Rightarrow> nat" where
  "sem_cap l = (if l_kind l = POK_LOCKOBJ_KIND_SEMAPHORE then unat (l_max_value l) else 1)"

lemma unat_lt_16: "unat (w :: u16) < 65536"
proof -
  have "unat w < 2 ^ LENGTH(16)" by (rule unsigned_less)
  then show ?thesis by simp
qed

lemma unat_pred: "0 < (v :: u16) \<Longrightarrow> unat (v - 1) = unat v - 1"
  by (metis unat_minus_one word_neq_0_conv)

lemma unat_released: "lock_inv c l \<Longrightarrow> l_current_value l \<noteq> 0 \<Longrightarrow>
  unat (released_value l) = (if unat (l_current_value l) < sem_cap l then unat (l_current_value l) + 1 else unat (l_current_value l))"
proof -
  assume a: "lock_inv c l" "l_current_value l \<noteq> 0"
  have one: "l_kind l \<noteq> POK_LOCKOBJ_KIND_SEMAPHORE \<Longrightarrow> l_current_value l = 1"
  proof -
    assume "l_kind l \<noteq> POK_LOCKOBJ_KIND_SEMAPHORE"
    then have "unat (l_current_value l) \<le> 1" using a(1) by (simp add: lock_inv_def word_le_nat_alt)
    moreover have "0 < unat (l_current_value l)" using a(2) unat_gt_0 by blast
    ultimately have "unat (l_current_value l) = unat (1 :: u16)" by simp
    then show ?thesis by (simp only: word_unat_eq_iff)
  qed
  have "l_current_value l < l_max_value l \<Longrightarrow> unat (l_current_value l + 1) = unat (l_current_value l) + 1"
    using unat_lt_16 [of "l_max_value l"] by (simp add: word_less_nat_alt unat_word_ariths)
  then show ?thesis using a(2) one by (auto simp: released_value_def sem_cap_def word_less_nat_alt)
qed

lemma lock_inv_fifo: "lock_inv c l \<Longrightarrow> queue_ok c f \<Longrightarrow> l_current_value l = 0 \<Longrightarrow> lock_inv c (l\<lparr>l_fifo := f\<rparr>)"
  by (simp add: lock_inv_def)

lemma lock_inv_released: "lock_inv c l \<Longrightarrow> waiters c l = [] \<Longrightarrow> lock_inv c (l\<lparr>l_current_value := released_value l\<rparr>)"
  by (auto simp: lock_inv_def released_value_def)

lemma lock_inv_acquired: "lock_inv c l \<Longrightarrow> 0 < l_current_value l \<Longrightarrow> lock_inv c (l\<lparr>l_current_value := l_current_value l - 1\<rparr>)"
  by (auto simp: lock_inv_def word_le_nat_alt unat_pred)


subsection \<open>Conservation of resources\<close>

text \<open>
  The life of a lock object after its creation: threads lock it, block on it, come back, unlock it, and in between the rest of the
  system does anything that leaves the object alone. Anyone may unlock, as in the code. The ledger counts what the calls answer:
  lock calls that answered with success, unlocks, the threads that an unlock took out of the queue and that have not come
  back yet, the deadlines of the calls that wait, the calls that answered an error although their thread had been given the object,
  and the unlocks of an object that had all its resources.
\<close>

record ledger =
  lg_oks :: nat
  lg_unlocks :: nat
  lg_given :: "nat set"
  lg_calls :: "nat \<Rightarrow> u64 option"
  lg_lost :: nat
  lg_full :: nat

definition new_ledger :: ledger where
  "new_ledger = \<lparr>lg_oks = 0, lg_unlocks = 0, lg_given = {}, lg_calls = (\<lambda>_. None), lg_lost = 0, lg_full = 0\<rparr>"

definition answered :: "nat \<Rightarrow> pok_ret_t \<Rightarrow> ledger \<Rightarrow> ledger" where
  "answered t ret L = L\<lparr>lg_oks := lg_oks L + of_bool (ret = POK_ERRNO_OK), lg_lost := lg_lost L + of_bool (t \<in> lg_given L \<and> ret \<noteq> POK_ERRNO_OK),
     lg_given := lg_given L - {t}, lg_calls := (lg_calls L)(t := None)\<rparr>"

definition unlocked :: "pok_lockobj_t \<Rightarrow> nat option \<Rightarrow> ledger \<Rightarrow> ledger" where
  "unlocked l woken L = L\<lparr>lg_unlocks := lg_unlocks L + 1, lg_given := lg_given L \<union> set_option woken,
     lg_full := lg_full L + of_bool (l_current_value l \<noteq> 0 \<and> sem_cap l \<le> unat (l_current_value l))\<rparr>"

text \<open>A thread whose call waits runs again only when it was given the object or when its deadline has passed.\<close>

inductive lock_run :: "pok_config \<Rightarrow> lockref \<Rightarrow> kstate \<Rightarrow> kstate \<Rightarrow> ledger \<Rightarrow> bool" for c r s0 where
  start: "lock_run c r s0 s0 new_ledger"
| acquire: "lock_run c r s0 s L \<Longrightarrow> 0 < l_current_value (lock_at r s) \<Longrightarrow> POK_SCHED_CURRENT_THREAD s \<notin> dom (lg_calls L) \<Longrightarrow>
    pok_lockobj_lock c r attr s = Some (ret, s') \<Longrightarrow> lock_run c r s0 s' (answered (POK_SCHED_CURRENT_THREAD s) ret L)"
| block: "lock_run c r s0 s L \<Longrightarrow> l_current_value (lock_at r s) = 0 \<Longrightarrow>
    POK_SCHED_CURRENT_THREAD s < NB_THREADS c \<Longrightarrow> POK_SCHED_CURRENT_THREAD s \<notin> dom (lg_calls L) \<Longrightarrow>
    Option.bind (SPIN_LOCK r s) (lock_block c r d) = Some s' \<Longrightarrow>
    lock_run c r s0 s' (L\<lparr>lg_calls := (lg_calls L)(POK_SCHED_CURRENT_THREAD s \<mapsto> d)\<rparr>)"
| resume: "lock_run c r s0 s L \<Longrightarrow> lg_calls L (POK_SCHED_CURRENT_THREAD s) = Some d \<Longrightarrow>
    POK_SCHED_CURRENT_THREAD s \<in> lg_given L \<or> d \<noteq> 0 \<and> d \<le> pok_tick_counter s \<Longrightarrow>
    lock_resume c r d s = Some (ret, s') \<Longrightarrow> lock_run c r s0 s' (answered (POK_SCHED_CURRENT_THREAD s) ret L)"
| release: "lock_run c r s0 s L \<Longrightarrow> Option.bind (SPIN_LOCK r s) (unlock_object c r) = Some (woken, s') \<Longrightarrow>
    lock_run c r s0 s' (unlocked (lock_at r s) woken L)"
| other: "lock_run c r s0 s L \<Longrightarrow> lock_at r s' = lock_at r s \<Longrightarrow> lock_run c r s0 s' L"

text \<open>The books: the calls that wait and were not given the object are those in the queue.\<close>

definition balanced :: "pok_config \<Rightarrow> nat \<Rightarrow> nat \<Rightarrow> pok_lockobj_t \<Rightarrow> ledger \<Rightarrow> bool" where
  "balanced c cap tot l L = (lock_inv c l \<and> \<not> l_spin l \<and> sem_cap l = cap \<and> finite (lg_given L) \<and> lg_given L \<subseteq> dom (lg_calls L) \<and>
     set (waiters c l) = dom (lg_calls L) - lg_given L \<and>
     lg_oks L + card (lg_given L) + lg_lost L + unat (l_current_value l) + lg_full L = tot + lg_unlocks L)"

lemma sem_cap_updates [simp]:
  "sem_cap (l\<lparr>l_current_value := v\<rparr>) = sem_cap l" "sem_cap (l\<lparr>l_fifo := f\<rparr>) = sem_cap l"
  by (simp_all add: sem_cap_def)

lemma lock_block_spec:
  assumes "lock_inv c (lock_at r s)" "\<not> l_spin (lock_at r s)" "POK_SCHED_CURRENT_THREAD s < NB_THREADS c"
    and "POK_SCHED_CURRENT_THREAD s \<notin> set (waiters c (lock_at r s))"
  shows "\<exists>f. Option.bind (SPIN_LOCK r s) (lock_block c r d) =
    Some (lock_current_until d (upd_lock r (\<lambda>l. l\<lparr>l_fifo := f\<rparr>) s)) \<and> queue_ok c f \<and>
    set (fifo_list (NB_THREADS c) f) = insert (POK_SCHED_CURRENT_THREAD s) (set (waiters c (lock_at r s)))"
proof -
  have q: "queue_ok c (l_fifo (lock_at r s))" "l_queueing_policy (lock_at r s) \<noteq> POK_QUEUEING_DISCIPLINE_OTHER"
    using assms(1) by (auto simp: lock_inv_def)
  obtain f where f: "pok_lockobj_enqueue c s (l_fifo (lock_at r s)) (POK_SCHED_CURRENT_THREAD s)
      (l_queueing_policy (lock_at r s)) = Some (POK_ERRNO_OK, f)" "queue_ok c f"
    "fifo_list (NB_THREADS c) f = policy_insert s (l_queueing_policy (lock_at r s)) (POK_SCHED_CURRENT_THREAD s) (waiters c (lock_at r s))"
    using queue_enqueue [OF q(1) assms(3,4) q(2)] .
  have e: "pok_lockobj_enqueue c (upd_lock r g (spin_count_up s)) = pok_lockobj_enqueue c s" for g
    by (intro ext enqueue_threads_cong) simp
  have "upd_lock r (\<lambda>l. l\<lparr>l_fifo := f, l_spin := False\<rparr>) s' = upd_lock r (\<lambda>l. l\<lparr>l_fifo := f\<rparr>) s'"
    if "lock_at r s' = lock_at r s" for s'
    by (rule upd_lock_cong) (use assms(2) that in \<open>cases "lock_at r s", simp\<close>)
  then have "Option.bind (SPIN_LOCK r s) (lock_block c r d) =
      Some (lock_current_until d (upd_lock r (\<lambda>l. l\<lparr>l_fifo := f\<rparr>) s))"
    using assms(2) f(1) by (simp add: lock_block_def spin_simps e)
  then show ?thesis using f(2,3) by (auto simp: set_policy_insert)
qed

text \<open>A call that waited answers, and with success only when it was given the object.\<close>

lemma balanced_answered:
  assumes b: "balanced c cap tot l L" and new: "lock_inv c l'" "\<not> l_spin l'" "sem_cap l' = sem_cap l" "l_current_value l' = l_current_value l"
    and w: "set (waiters c l') = set (waiters c l) - {t}" and ok: "ret = POK_ERRNO_OK \<Longrightarrow> t \<in> lg_given L"
  shows "balanced c cap tot l' (answered t ret L)"
proof -
  have "card (lg_given L) = card (lg_given L - {t}) + of_bool (t \<in> lg_given L)"
    using b card.remove [of "lg_given L" t] by (cases "t \<in> lg_given L") (simp_all add: balanced_def)
  moreover have "of_bool (ret = POK_ERRNO_OK) + of_bool (t \<in> lg_given L \<and> ret \<noteq> POK_ERRNO_OK) = (of_bool (t \<in> lg_given L) :: nat)"
    using ok by auto
  moreover have "dom ((lg_calls L)(t := None)) = dom (lg_calls L) - {t}" by auto
  ultimately show ?thesis using b new w unfolding balanced_def answered_def by simp blast
qed

lemma lock_run_balanced:
  assumes "lock_run c r s0 s L" "balanced c cap tot (lock_at r s0) new_ledger"
  shows "balanced c cap tot (lock_at r s) L"
  using assms(1)
proof (induction rule: lock_run.induct)
  case start
  then show ?case using assms(2) .
next
  case (acquire s L attr ret s')
  let ?l = "lock_at r s"
  have i: "lock_inv c ?l" "\<not> l_spin ?l" using acquire.IH by (simp_all add: balanced_def)
  have "pok_lockobj_fifo_is_empty (l_fifo ?l)"
    using queue_empty [of c "l_fifo ?l"] i(1) acquire.hyps(2) by (auto simp: lock_inv_def)
  then have r: "ret = POK_ERRNO_OK" "s' = upd_lock r (\<lambda>l. l\<lparr>l_current_value := l_current_value l - 1\<rparr>) s"
    using lock_fast [of r s c attr] acquire.hyps(2,4) i by (simp_all add: lock_inv_def)
  have out: "POK_SCHED_CURRENT_THREAD s \<notin> lg_given L" using acquire.IH acquire.hyps(3) by (auto simp: balanced_def)
  have "0 < unat (l_current_value ?l)" using acquire.hyps(2) by (simp add: word_less_nat_alt)
  then show ?case using r out acquire.IH acquire.hyps(3) lock_inv_acquired [OF i(1) acquire.hyps(2)] acquire.hyps(2)
    by (auto simp: balanced_def answered_def unat_pred)
next
  case (block s L d s')
  have i: "lock_inv c (lock_at r s)" "\<not> l_spin (lock_at r s)" using block.IH by (simp_all add: balanced_def)
  have n: "POK_SCHED_CURRENT_THREAD s \<notin> set (waiters c (lock_at r s))" "POK_SCHED_CURRENT_THREAD s \<notin> lg_given L"
    using block.IH block.hyps(4) by (auto simp: balanced_def)
  from lock_block_spec [OF i block.hyps(3) n(1), of d] block.hyps(5)
  obtain f where "s' = lock_current_until d (upd_lock r (\<lambda>l. l\<lparr>l_fifo := f\<rparr>) s)" "queue_ok c f"
    "set (fifo_list (NB_THREADS c) f) = insert (POK_SCHED_CURRENT_THREAD s) (set (waiters c (lock_at r s)))" by auto
  then show ?case using block.IH lock_inv_fifo [OF i(1) _ block.hyps(2)] n by (auto simp: balanced_def)
next
  case (resume s L d ret s')
  let ?t = "POK_SCHED_CURRENT_THREAD s" and ?l = "lock_at r s"
  have i: "lock_inv c ?l" "\<not> l_spin ?l" using resume.IH by (simp_all add: balanced_def)
  then have q: "queue_ok c (l_fifo ?l)" by (simp add: lock_inv_def)
  show ?case
  proof (cases "d \<noteq> 0 \<and> d \<le> pok_tick_counter s")
    case True
    then obtain f where f: "ret = POK_ERRNO_TIMEOUT" "s' = upd_lock r (\<lambda>l. l\<lparr>l_fifo := f\<rparr>) s" "queue_ok c f"
      "fifo_list (NB_THREADS c) f = remove1 ?t (waiters c ?l)"
      using lock_resume_spec [OF i(2) q, of d] resume.hyps(4) by auto
    have l: "lock_at r s' = ?l\<lparr>l_fifo := f\<rparr>" using f(2) by simp
    have "lock_inv c (?l\<lparr>l_fifo := f\<rparr>)" using i(1) f(3,4) by (auto simp: lock_inv_def)
    moreover have "set (remove1 ?t (waiters c ?l)) = set (waiters c ?l) - {?t}"
      by (rule set_remove1_eq) (use q in \<open>simp add: queue_ok_def\<close>)
    ultimately show ?thesis unfolding l by (intro balanced_answered [OF resume.IH]) (use f(1,4) i(2) in simp_all)
  next
    case False
    then have "ret = POK_ERRNO_OK" "s' = s" using lock_resume_spec [OF i(2) q, of d] resume.hyps(4) by (auto split: if_splits)
    moreover have g: "?t \<in> lg_given L" using False resume.hyps(3) by blast
    moreover have "?t \<notin> set (waiters c ?l)" using g resume.IH by (simp add: balanced_def)
    ultimately show ?thesis using i by (auto intro!: balanced_answered [OF resume.IH])
  qed
next
  case (release s L woken s')
  let ?l = "lock_at r s"
  have i: "lock_inv c ?l" "\<not> l_spin ?l" using release.IH by (simp_all add: balanced_def)
  show ?case
  proof (cases "waiters c ?l = []")
    case True
    then have s': "woken = None" "s' = upd_lock r (\<lambda>l. l\<lparr>l_current_value := released_value l\<rparr>) s"
      using unlock_free [OF i True] release.hyps(2) by simp_all
    have "unat (released_value ?l) + of_bool (l_current_value ?l \<noteq> 0 \<and> sem_cap ?l \<le> unat (l_current_value ?l)) = unat (l_current_value ?l) + 1"
      using unat_released [OF i(1)] by (cases "l_current_value ?l = 0") (auto simp: released_value_def)
    then show ?thesis using s' release.IH lock_inv_released [OF i(1) True] by (auto simp: balanced_def unlocked_def)
  next
    case False
    then have z: "l_current_value ?l = 0" and q: "queue_ok c (l_fifo ?l)" using i(1) by (auto simp: lock_inv_def)
    let ?w = "hd (waiters c ?l)"
    have w: "woken = Some ?w" "lock_at r s' = ?l\<lparr>l_fifo := snd (pok_lockobj_dequeue c (l_fifo ?l))\<rparr>"
      using unlock_handover [OF i False] release.hyps(2) by auto
    have "distinct (waiters c ?l)" using q by (simp add: queue_ok_def)
    then have "?w \<in> set (waiters c ?l)" "set (tl (waiters c ?l)) = set (waiters c ?l) - {?w}"
      using False by (cases "waiters c ?l"; auto)+
    then show ?thesis using w z release.IH lock_inv_fifo [OF i(1) queue_dequeue(1) [OF q False] z] queue_dequeue(2) [OF q False]
      by (auto simp: balanced_def unlocked_def)
  qed
next
  case (other s L s')
  then show ?case by simp
qed

lemma lock_create_inv:
  assumes "pok_lockobj_create r attr s = (POK_ERRNO_OK, s')" "0 < NB_THREADS c"
    and "la_queueing_policy attr \<noteq> POK_QUEUEING_DISCIPLINE_OTHER"
  shows "lock_inv c (lock_at r s')" "l_spin (lock_at r s') = l_spin (lock_at r s)"
    "unat (l_current_value (lock_at r s')) = (if la_kind attr = POK_LOCKOBJ_KIND_SEMAPHORE then unat (la_initial_value attr) else 1)"
    "sem_cap (lock_at r s') = (if la_kind attr = POK_LOCKOBJ_KIND_SEMAPHORE then unat (la_max_value attr) else 1)"
    "waiters c (lock_at r s') = []" "event_waiters c (lock_at r s') = []" "l_kind (lock_at r s') = la_kind attr"
proof -
  have s': "s' = upd_lock r (lockobj_from_attr attr) s" using assms(1) by (auto simp: pok_lockobj_create_def split: if_splits)
  note fi = fifo_init_list [OF assms(2)]
  show "lock_inv c (lock_at r s')"
    using assms(3) fi by (auto simp: s' lockobj_from_attr_def Let_def lock_inv_def queue_ok_def)
  show "l_spin (lock_at r s') = l_spin (lock_at r s)"
    "unat (l_current_value (lock_at r s')) = (if la_kind attr = POK_LOCKOBJ_KIND_SEMAPHORE then unat (la_initial_value attr) else 1)"
    "sem_cap (lock_at r s') = (if la_kind attr = POK_LOCKOBJ_KIND_SEMAPHORE then unat (la_max_value attr) else 1)"
    "waiters c (lock_at r s') = []" "event_waiters c (lock_at r s') = []" "l_kind (lock_at r s') = la_kind attr"
    using fi by (simp_all add: s' lockobj_from_attr_def Let_def sem_cap_def)
qed



text \<open>A resource can be lost: when an unlock hands the resource to the only waiting thread and that thread
  runs again only after its deadline, its lock call returns a timeout. The object then is not available,
  nobody waits for it and nobody holds it.\<close>

theorem timeout_loses_resource:
  assumes "lock_inv c (lock_at r s)" "\<not> l_spin (lock_at r s)" "waiters c (lock_at r s) = [t]"
    and "Option.bind (SPIN_LOCK r s) (unlock_object c r) = Some (woken, s1)"
    and "lock_at r s2 = lock_at r s1" "POK_SCHED_CURRENT_THREAD s2 = t"
    and "deadline \<noteq> 0" "deadline \<le> pok_tick_counter s2"
  shows "woken = Some t \<and> t_state (pok_threads s1 t) = POK_STATE_RUNNABLE \<and>
    (\<exists>s3. lock_resume c r deadline s2 = Some (POK_ERRNO_TIMEOUT, s3) \<and> sem_of c (lock_at r s3) = (0, []))"
proof -
  let ?l = "lock_at r s"
  have ne: "waiters c ?l \<noteq> []" and z: "l_current_value ?l = 0" and q: "queue_ok c (l_fifo ?l)"
    using assms(1,3) by (auto simp: lock_inv_def)
  have s1: "woken = Some t" "lock_at r s1 = ?l\<lparr>l_fifo := snd (pok_lockobj_dequeue c (l_fifo ?l))\<rparr>"
    "t_state (pok_threads s1 t) = POK_STATE_RUNNABLE"
    using unlock_handover [OF assms(1,2) ne] assms(3,4)
    by (auto simp: pok_sched_unlock_thread_def upd_thread_def)
  have w: "waiters c (lock_at r s1) = []" using queue_dequeue(2) [OF q ne] s1(2) assms(3) by simp
  have i: "\<not> l_spin (lock_at r s2)" "queue_ok c (l_fifo (lock_at r s2))"
    using assms(2,5) s1(2) queue_dequeue(1) [OF q ne] by simp_all
  obtain f where "lock_resume c r deadline s2 = Some (POK_ERRNO_TIMEOUT, upd_lock r (\<lambda>l. l\<lparr>l_fifo := f\<rparr>) s2)"
    "fifo_list (NB_THREADS c) f = remove1 t (waiters c (lock_at r s2))"
    using lock_resume_spec [OF i, of deadline] assms(6-8) by auto
  then show ?thesis using s1 w z assms(5) by (simp add: sem_of_def)
qed

lemma demo_lock_ok: "lock_inv demo_config demo_lockobj" "spins_free demo_lockobj" "waiters demo_config demo_lockobj = []"
    "event_waiters demo_config demo_lockobj = []" "lock_at (LockObj i) demo_state = demo_lockobj"
  by (simp_all add: lock_inv_def queue_ok_def spins_free_def lock_at_def)
    (simp_all add: demo_lockobj_def demo_fifo_ok)

text \<open>A lock object that thread 2 waits for.\<close>

definition demo_contended :: kstate where
  "demo_contended = upd_lock (LockObj 0) (\<lambda>l. l\<lparr>l_current_value := 0, l_fifo := demo_fifo\<lparr>f_last := 1,
     f_is_empty := False, f_buffer := (\<lambda>_. 2)\<rparr>\<rparr>) demo_state"

lemma demo_contended_ok:
  "waiters demo_config (lock_at (LockObj 0) demo_contended) = [2]"
  "lock_inv demo_config (lock_at (LockObj 0) demo_contended)" "\<not> l_spin (lock_at (LockObj 0) demo_contended)"
  using demo_lock_ok(1,2)
  by (simp_all add: demo_contended_def demo_lock_ok(5) lock_inv_def queue_ok_def spins_free_def fifo_list_def fifo_len_def
      ring_at_def fifo_ok_def) (simp_all add: demo_fifo_def)

lemma timeout_loses_resource_witness:
  "\<exists>s1 s2 s3. Option.bind (SPIN_LOCK (LockObj 0) demo_contended) (unlock_object demo_config (LockObj 0)) = Some (Some 2, s1) \<and>
     lock_resume demo_config (LockObj 0) 90 s2 = Some (POK_ERRNO_TIMEOUT, s3) \<and>
     sem_of demo_config (lock_at (LockObj 0) s3) = (0, [])"
proof -
  let ?r = "LockObj 0"
  obtain w s1 where s1: "Option.bind (SPIN_LOCK ?r demo_contended) (unlock_object demo_config ?r) = Some (w, s1)"
    using unlock_handover [OF demo_contended_ok(2,3)] demo_contended_ok(1) by auto
  define s2 where "s2 = s1\<lparr>current_threads := (\<lambda>_. 2), pok_tick_counter := 100\<rparr>"
  have f: "lock_at ?r s2 = lock_at ?r s1" "POK_SCHED_CURRENT_THREAD s2 = 2" "90 \<le> pok_tick_counter s2"
    by (simp_all add: s2_def lock_at_def POK_SCHED_CURRENT_THREAD_def)
  have "(90 :: u64) \<noteq> 0" by simp
  from timeout_loses_resource [OF demo_contended_ok(2,3,1) s1 f(1,2) this f(3)] s1
  show ?thesis by blast
qed


subsection \<open>Events\<close>

text \<open>An unlock while the event spin lock is taken wakes the next thread but does not schedule.\<close>

definition unlock_wake :: "pok_config \<Rightarrow> lockref \<Rightarrow> kstate \<Rightarrow> kstate" where
  "unlock_wake c r s =
     (if waiters c (lock_at r s) = [] then s else pok_sched_unlock_thread (hd (waiters c (lock_at r s))) s)"

definition unlock_new :: "pok_config \<Rightarrow> pok_lockobj_t \<Rightarrow> pok_lockobj_t" where
  "unlock_new c l =
     (if waiters c l = [] then l\<lparr>l_current_value := released_value l\<rparr>
      else l\<lparr>l_fifo := snd (pok_lockobj_dequeue c (l_fifo l))\<rparr>)"

lemma unlock_under_eventspin:
  assumes "lock_inv c (lock_at r s)" "\<not> l_spin (lock_at r s)" "l_eventspin (lock_at r s)"
  shows "pok_lockobj_unlock c r s = Some (POK_ERRNO_OK, upd_lock r (unlock_new c) (unlock_wake c r s))"
proof (cases "waiters c (lock_at r s) = []")
  case True
  have "upd_lock r (unlock_new c) s = upd_lock r (\<lambda>l. l\<lparr>l_current_value := released_value l\<rparr>) s"
    by (rule upd_lock_cong) (simp add: unlock_new_def True)
  moreover obtain s1 where "SPIN_LOCK r s = Some s1" using assms(2) by (simp add: spin_simps)
  ultimately show ?thesis
    using unlock_free [OF assms(1,2) True] assms(1) by (simp add: pok_lockobj_unlock_def lock_inv_def unlock_wake_def True)
next
  case False
  let ?w = "hd (waiters c (lock_at r s))"
  have "upd_lock r (unlock_new c) (pok_sched_unlock_thread ?w s) =
      upd_lock r (\<lambda>l. l\<lparr>l_fifo := snd (pok_lockobj_dequeue c (l_fifo l))\<rparr>) (pok_sched_unlock_thread ?w s)"
    by (rule upd_lock_cong) (simp add: unlock_new_def False)
  moreover obtain s1 where "SPIN_LOCK r s = Some s1" using assms(2) by (simp add: spin_simps)
  ultimately show ?thesis
    using unlock_handover [OF assms(1,2) False] assms(1,3)
    by (simp add: pok_lockobj_unlock_def lock_inv_def unlock_wake_def False)
qed

lemma unlock_new_fields [simp]:
  "l_event_fifo (unlock_new c l) = l_event_fifo l" "l_eventspin (unlock_new c l) = l_eventspin l"
  "l_spin (unlock_new c l) = l_spin l" "l_kind (unlock_new c l) = l_kind l"
  by (simp_all add: unlock_new_def)

lemma unlock_new_inv: "lock_inv c l \<Longrightarrow> lock_inv c (unlock_new c l)"
proof (cases "waiters c l = []")
  case True
  assume "lock_inv c l"
  then show ?thesis using lock_inv_released [of c l] True by (simp add: unlock_new_def)
next
  case False
  assume i: "lock_inv c l"
  then have "l_current_value l = 0" "queue_ok c (l_fifo l)" using False by (auto simp: lock_inv_def)
  then show ?thesis using lock_inv_fifo [OF i queue_dequeue(1) [OF _ False]] False by (simp add: unlock_new_def)
qed

lemma unlock_new_sem:
  assumes "lock_inv c l"
  shows "sem_of c (unlock_new c l) = snd (sem_release (sem_cap l) (sem_of c l))"
proof (cases "waiters c l = []")
  case True
  show ?thesis
  proof (cases "l_current_value l = 0")
    case False
    then have "0 < unat (l_current_value l)" using unat_gt_0 by blast
    then show ?thesis using unat_released [OF assms False] True by (simp add: unlock_new_def sem_of_def sem_release_def)
  qed (use True in \<open>simp add: unlock_new_def sem_of_def sem_release_def released_value_def\<close>)
next
  case False
  then have "l_current_value l = 0" "queue_ok c (l_fifo l)" using assms by (auto simp: lock_inv_def)
  then show ?thesis using queue_dequeue(2) [of c "l_fifo l"] False
    by (cases "waiters c l") (simp_all add: unlock_new_def sem_of_def sem_release_def)
qed

lemma lock_inv_spins [simp]:
  "lock_inv c (l\<lparr>l_eventspin := b\<rparr>) = lock_inv c l" "lock_inv c (l\<lparr>l_spin := b\<rparr>) = lock_inv c l"
  "sem_of c (l\<lparr>l_eventspin := b\<rparr>) = sem_of c l" "sem_of c (l\<lparr>l_event_fifo := f\<rparr>) = sem_of c l"
  "unlock_new c (l\<lparr>l_eventspin := b\<rparr>) = (unlock_new c l)\<lparr>l_eventspin := b\<rparr>"
  by (simp_all add: lock_inv_def sem_of_def unlock_new_def released_value_def)

lemma enqueue_prio_cong:
  "(\<And>i. t_priority (pok_threads s' i) = t_priority (pok_threads s i)) \<Longrightarrow>
    pok_lockobj_enqueue c s' f t d = pok_lockobj_enqueue c s f t d"
  by (cases d) (simp_all add: pok_lockobj_enqueue_def)

lemma unlock_wake_fields [simp]:
  "t_priority (pok_threads (unlock_wake c r s) i) = t_priority (pok_threads s i)"
  "POK_SCHED_CURRENT_THREAD (unlock_wake c r s) = POK_SCHED_CURRENT_THREAD s"
  "pok_tick_counter (unlock_wake c r s) = pok_tick_counter s" "lock_at r' (unlock_wake c r s) = lock_at r' s"
  "spinlocks (unlock_wake c r s) = spinlocks s" "ks_trace (unlock_wake c r s) = ks_trace s"
  by (simp_all add: unlock_wake_def) (simp_all add: pok_sched_unlock_thread_def upd_thread_def POK_SCHED_CURRENT_THREAD_def)

lemma unlock_wake_commute:
  "unlock_wake c r (upd_lock r (\<lambda>l. l\<lparr>l_eventspin := b\<rparr>) (spin_count_up s)) =
     upd_lock r (\<lambda>l. l\<lparr>l_eventspin := b\<rparr>) (spin_count_up (unlock_wake c r s))"
  by (simp add: unlock_wake_def)

lemma lock_current_until_fields [simp]:
  "ks_trace (lock_current_until d s) = ks_trace s" "POK_SCHED_CURRENT_THREAD (lock_current_until d s) = POK_SCHED_CURRENT_THREAD s"
  by (simp_all add: lock_current_until_def pok_sched_lock_current_thread_def pok_sched_lock_current_thread_timed_def)
    (simp_all add: upd_thread_def POK_SCHED_CURRENT_THREAD_def)

lemma lock_current_until_state:
  "t_state (pok_threads (lock_current_until d s) (POK_SCHED_CURRENT_THREAD s)) = (if d > 0 then POK_STATE_WAITING else POK_STATE_LOCK)"
  "d > 0 \<Longrightarrow> t_wakeup_time (pok_threads (lock_current_until d s) (POK_SCHED_CURRENT_THREAD s)) = d"
  by (simp_all add: lock_current_until_def pok_sched_lock_current_thread_def pok_sched_lock_current_thread_timed_def)
    (simp_all add: upd_thread_def)

lemma eventwait_block_spec:
  fixes c :: pok_config and s :: kstate and r :: lockref
  defines "l \<equiv> lock_at r s" and "cur \<equiv> POK_SCHED_CURRENT_THREAD s"
  assumes "lock_inv c l" "spins_free l" "l_kind l = POK_LOCKOBJ_KIND_EVENT"
    and "cur < NB_THREADS c" "cur \<notin> set (event_waiters c l)"
  shows "\<exists>d s'. d = (if timeout \<noteq> 0 then timeout + pok_tick_counter s else 0) \<and>
    eventwait_block c r timeout s = Some (None, d, s') \<and>
    (d > 0 \<longrightarrow> t_wakeup_time (pok_threads s' cur) = d) \<and>
    event_waiters c (lock_at r s') = prio_insert (\<lambda>i. t_priority (pok_threads s i)) cur (event_waiters c l) \<and>
    sem_of c (lock_at r s') = snd (sem_release 1 (sem_of c l)) \<and> lock_inv c (lock_at r s') \<and> spins_free (lock_at r s') \<and>
    t_state (pok_threads s' cur) = (if d > 0 then POK_STATE_WAITING else POK_STATE_LOCK) \<and>
    spinlocks s' = spinlocks s \<and> ks_trace s' = ks_trace s"
proof -
  let ?s1 = "upd_lock r (\<lambda>l. l\<lparr>l_eventspin := True\<rparr>) (spin_count_up s)"
  let ?d = "if timeout \<noteq> 0 then timeout + pok_tick_counter s else 0"
  have sp: "\<not> l_spin l" "\<not> l_eventspin l" using assms(4) by (simp_all add: spins_free_def)
  have i: "l_initialized l" "queue_ok c (l_event_fifo l)" using assms(3) by (simp_all add: lock_inv_def)
  obtain f where f: "pok_lockobj_enqueue c s (l_event_fifo l) cur POK_QUEUEING_DISCIPLINE_PRIORITY = Some (POK_ERRNO_OK, f)"
    "queue_ok c f" "fifo_list (NB_THREADS c) f = policy_insert s POK_QUEUEING_DISCIPLINE_PRIORITY cur (event_waiters c l)"
    using queue_enqueue [OF i(2) assms(6,7)] by blast
  have e: "pok_lockobj_enqueue c (upd_lock r g (spin_count_up (unlock_wake c r s))) = pok_lockobj_enqueue c s" for g
    by (intro ext enqueue_prio_cong) simp
  have u: "pok_lockobj_unlock c r ?s1 = Some (POK_ERRNO_OK, upd_lock r (\<lambda>l. (unlock_new c l)\<lparr>l_eventspin := True\<rparr>)
      (spin_count_up (unlock_wake c r s)))"
    using unlock_under_eventspin [of c r ?s1] assms(3) sp by (simp add: l_def [symmetric] unlock_wake_commute)
  let ?g = "\<lambda>l. (unlock_new c l)\<lparr>l_eventspin := True, l_event_fifo := f, l_eventspin := False\<rparr>"
  let ?s' = "lock_current_until ?d (upd_lock r ?g (unlock_wake c r s))"
  have b: "eventwait_block c r timeout s = Some (None, ?d, ?s')"
    using sp i(1) assms(5) u f(1)
    by (simp add: eventwait_block_def spin_simps l_def [symmetric] cur_def [symmetric] e Let_def)
  have la: "lock_at r ?s' = (unlock_new c l)\<lparr>l_event_fifo := f\<rparr>"
    using sp(2) by (simp add: l_def [symmetric])
  have "lock_inv c (lock_at r ?s')"
    using unlock_new_inv [OF assms(3)] f(2) unfolding la by (simp add: lock_inv_def)
  moreover have "event_waiters c (lock_at r ?s') = prio_insert (\<lambda>i. t_priority (pok_threads s i)) cur (event_waiters c l)"
    using f(3) unfolding la by (simp add: policy_insert_def)
  moreover have "sem_of c (lock_at r ?s') = snd (sem_release 1 (sem_of c l))"
    using unlock_new_sem [OF assms(3)] assms(5) unfolding la by (simp add: sem_cap_def)
  moreover have "spins_free (lock_at r ?s')" using sp unfolding la by (simp add: spins_free_def)
  moreover have "t_state (pok_threads ?s' cur) = (if ?d > 0 then POK_STATE_WAITING else POK_STATE_LOCK)"
    using lock_current_until_state(1) [of ?d "upd_lock r ?g (unlock_wake c r s)"] by (simp add: cur_def)
  moreover have "?d > 0 \<longrightarrow> t_wakeup_time (pok_threads ?s' cur) = ?d"
    using lock_current_until_state(2) [of ?d "upd_lock r ?g (unlock_wake c r s)"] by (simp add: cur_def)
  ultimately show ?thesis
    by (intro exI [of _ ?d] exI [of _ ?s']) (simp add: b)
qed

text \<open>A thread that waits for an event releases the object and goes to sleep in one step: the object becomes
  available or passes to the thread that waited for it, the caller enters the event queue by priority,
  blocked until its deadline or for ever, and no context switch happens in between, so that a signal
  cannot be missed; afterwards no spin lock is held.\<close>

theorem eventwait_releases_and_sleeps:
  fixes c :: pok_config and s :: kstate and r :: lockref
  defines "l \<equiv> lock_at r s" and "cur \<equiv> POK_SCHED_CURRENT_THREAD s"
  assumes "lock_inv c l" "spins_free l" "l_kind l = POK_LOCKOBJ_KIND_EVENT"
    and "cur < NB_THREADS c" "cur \<notin> set (event_waiters c l)"
  shows "\<exists>d s'. d = (if timeout \<noteq> 0 then timeout + pok_tick_counter s else 0) \<and>
    pok_lockobj_eventwait c r timeout s = Option.bind (pok_sched_thread c True s') (eventwait_resume c r d) \<and>
    event_waiters c (lock_at r s') = prio_insert (\<lambda>i. t_priority (pok_threads s i)) cur (event_waiters c l) \<and>
    sem_of c (lock_at r s') = snd (sem_release 1 (sem_of c l)) \<and> lock_inv c (lock_at r s') \<and> spins_free (lock_at r s') \<and>
    t_state (pok_threads s' cur) = (if d > 0 then POK_STATE_WAITING else POK_STATE_LOCK) \<and>
    spinlocks s' = spinlocks s \<and> ks_trace s' = ks_trace s"
proof -
  have "pok_lockobj_eventwait c r timeout s = Option.bind (pok_sched_thread c True s') (eventwait_resume c r d)"
    if "eventwait_block c r timeout s = Some (None, d, s')" for d s'
    using that by (simp add: pok_lockobj_eventwait_def)
  then show ?thesis
    using eventwait_block_spec [of c r s timeout] assms(3-7) unfolding l_def cur_def by blast
qed

lemma eventwait_releases_and_sleeps_witness:
  "\<exists>s s'. l_current_value (lock_at (LockObj 0) s) = 0 \<and>
     pok_lockobj_eventwait demo_config (LockObj 0) 5 s =
       Option.bind (pok_sched_thread demo_config True s') (eventwait_resume demo_config (LockObj 0) 105) \<and>
     event_waiters demo_config (lock_at (LockObj 0) s') = [1] \<and> sem_of demo_config (lock_at (LockObj 0) s') = (1, [])"
proof -
  define s where "s = upd_lock (LockObj 0) (\<lambda>l. l\<lparr>l_kind := POK_LOCKOBJ_KIND_EVENT, l_current_value := 0\<rparr>) demo_state"
  have l: "lock_at (LockObj 0) s = demo_lockobj\<lparr>l_kind := POK_LOCKOBJ_KIND_EVENT, l_current_value := 0\<rparr>"
    "POK_SCHED_CURRENT_THREAD s = 1" "pok_tick_counter s = 100"
    by (simp_all add: s_def demo_lock_ok)
  have a: "lock_inv demo_config (lock_at (LockObj 0) s)" "spins_free (lock_at (LockObj 0) s)"
    "l_kind (lock_at (LockObj 0) s) = POK_LOCKOBJ_KIND_EVENT" "POK_SCHED_CURRENT_THREAD s < NB_THREADS demo_config"
    "POK_SCHED_CURRENT_THREAD s \<notin> set (event_waiters demo_config (lock_at (LockObj 0) s))"
    "event_waiters demo_config (lock_at (LockObj 0) s) = []" "sem_of demo_config (lock_at (LockObj 0) s) = (0, [])"
    using demo_lock_ok by (simp_all add: l lock_inv_def spins_free_def sem_of_def)
  from eventwait_releases_and_sleeps [OF a(1-5), of 5]
  obtain s' where s': "pok_lockobj_eventwait demo_config (LockObj 0) 5 s =
      Option.bind (pok_sched_thread demo_config True s') (eventwait_resume demo_config (LockObj 0) 105)"
    "event_waiters demo_config (lock_at (LockObj 0) s') = prio_insert (\<lambda>i. t_priority (pok_threads s i)) 1 []"
    "sem_of demo_config (lock_at (LockObj 0) s') = snd (sem_release 1 (0, []))"
    unfolding l(2,3) a(6,7) by auto
  then show ?thesis using l(1) by (intro exI [of _ s] exI [of _ s']) (simp add: prio_insert_def sem_release_def)
qed

lemma event_wake_head_spec:
  assumes "queue_ok c (l_event_fifo (lock_at r s))" "event_waiters c (lock_at r s) \<noteq> []"
  shows "\<exists>f. event_wake_head c r s = pok_sched_unlock_thread (hd (event_waiters c (lock_at r s)))
      (upd_lock r (\<lambda>l. l\<lparr>l_event_fifo := f\<rparr>) s) \<and>
    queue_ok c f \<and> fifo_list (NB_THREADS c) f = tl (event_waiters c (lock_at r s))"
proof -
  let ?f = "snd (pok_lockobj_dequeue c (l_event_fifo (lock_at r s)))"
  note dq = queue_dequeue [OF assms]
  have "upd_lock r (\<lambda>l. l\<lparr>l_event_fifo := snd (pok_lockobj_dequeue c (l_event_fifo l))\<rparr>) s' =
      upd_lock r (\<lambda>l. l\<lparr>l_event_fifo := ?f\<rparr>) s'" if "lock_at r s' = lock_at r s" for s'
    by (rule upd_lock_cong) (simp add: that)
  then show ?thesis using dq by (intro exI [of _ ?f]) (simp add: event_wake_head_def Let_def)
qed

lemma upd_event_fifo_nest:
  "upd_lock r (\<lambda>l. l\<lparr>l_event_fifo := f\<rparr>) (pok_sched_unlock_thread t (upd_lock r (\<lambda>l. l\<lparr>l_event_fifo := g\<rparr>) s)) =
    upd_lock r (\<lambda>l. l\<lparr>l_event_fifo := f\<rparr>) (pok_sched_unlock_thread t s)"
  by simp

lemma event_wake_all_spec:
  assumes "queue_ok c (l_event_fifo (lock_at r s))" "event_waiters c (lock_at r s) = ws"
  shows "\<exists>f. event_wake_all c r b s = Some (b \<or> ws \<noteq> [], upd_lock r (\<lambda>l. l\<lparr>l_event_fifo := f\<rparr>) (fold pok_sched_unlock_thread ws s)) \<and>
    queue_ok c f \<and> fifo_list (NB_THREADS c) f = []"
  using assms
proof (induction ws arbitrary: b s)
  case Nil
  have "pok_lockobj_fifo_is_empty (l_event_fifo (lock_at r s))" using queue_empty Nil by simp
  moreover have "upd_lock r (\<lambda>l. l\<lparr>l_event_fifo := l_event_fifo (lock_at r s)\<rparr>) s = s" by (rule upd_lock_same) simp
  ultimately show ?case using Nil by (subst event_wake_all.simps) (auto intro!: exI [of _ "l_event_fifo (lock_at r s)"])
next
  case (Cons w ws)
  have ne: "event_waiters c (lock_at r s) \<noteq> []" using Cons.prems(2) by simp
  obtain g where g: "event_wake_head c r s = pok_sched_unlock_thread w (upd_lock r (\<lambda>l. l\<lparr>l_event_fifo := g\<rparr>) s)"
    "queue_ok c g" "fifo_list (NB_THREADS c) g = ws"
    using event_wake_head_spec [OF Cons.prems(1) ne] Cons.prems(2) by auto
  let ?s = "event_wake_head c r s"
  have "lock_at r ?s = (lock_at r s)\<lparr>l_event_fifo := g\<rparr>" by (simp add: g(1))
  then obtain f where f: "event_wake_all c r True ?s = Some (True, upd_lock r (\<lambda>l. l\<lparr>l_event_fifo := f\<rparr>)
      (fold pok_sched_unlock_thread ws ?s))" "queue_ok c f" "fifo_list (NB_THREADS c) f = []"
    using Cons.IH [of ?s True] g(2,3) by auto
  have fo: "fold pok_sched_unlock_thread ts (upd_lock r h s0) = upd_lock r h (fold pok_sched_unlock_thread ts s0)" for ts h s0
    by (induction ts arbitrary: s0) simp_all
  have "\<not> pok_lockobj_fifo_is_empty (l_event_fifo (lock_at r s))" using queue_empty [OF Cons.prems(1)] ne by simp
  then have "event_wake_all c r b s = event_wake_all c r True ?s" by (subst event_wake_all.simps) simp
  then show ?case using f by (intro exI [of _ f]) (simp add: g(1) fo)
qed

lemma fold_unlock_threads:
  "pok_threads (fold pok_sched_unlock_thread ws s) t =
     (if t \<in> set ws then (pok_threads s t)\<lparr>t_state := POK_STATE_RUNNABLE\<rparr> else pok_threads s t)"
  by (induction ws arbitrary: s) (auto simp: pok_sched_unlock_thread_def upd_thread_def)

lemma fold_unlock_fields [simp]:
  "lock_at r (fold pok_sched_unlock_thread ws s) = lock_at r s"
  "spinlocks (fold pok_sched_unlock_thread ws s) = spinlocks s"
  "fold pok_sched_unlock_thread ws (upd_lock r f s) = upd_lock r f (fold pok_sched_unlock_thread ws s)"
  "fold pok_sched_unlock_thread ws (spin_count_up s) = spin_count_up (fold pok_sched_unlock_thread ws s)"
  by (induction ws arbitrary: s) simp_all

text \<open>A broadcast wakes every thread that waits for the event, and only those: the event queue is empty
  afterwards, each thread that was in it is runnable, no other thread and nothing else of the object
  changes, and the processors are told to reschedule when there was one. A signal wakes the first
  thread of the queue only and reports when there is none.\<close>

theorem event_signal_broadcast_wake:
  fixes c :: pok_config and s :: kstate and r :: lockref
  defines "ws \<equiv> event_waiters c (lock_at r s)"
  assumes "queue_ok c (l_event_fifo (lock_at r s))" "\<not> l_eventspin (lock_at r s)"
  shows "(\<exists>s' f. lock_at r s' = (lock_at r s)\<lparr>l_event_fifo := f\<rparr> \<and> fifo_list (NB_THREADS c) f = [] \<and>
      (\<forall>t. pok_threads s' t = (if t \<in> set ws then (pok_threads s t)\<lparr>t_state := POK_STATE_RUNNABLE\<rparr> else pok_threads s t)) \<and>
      spinlocks s' = spinlocks s \<and>
      pok_lockobj_eventbroadcast c r s =
        (if ws = [] then Some (POK_ERRNO_OK, s')
         else do { s4 \<leftarrow> pok_threads_schedule_every_proc c s'; Some (POK_ERRNO_OK, s4) })) \<and>
    (if ws = [] then pok_lockobj_eventsignal c r s = Some (POK_ERRNO_NOTFOUND, s)
     else \<exists>s' f. lock_at r s' = (lock_at r s)\<lparr>l_event_fifo := f\<rparr> \<and> fifo_list (NB_THREADS c) f = tl ws \<and>
       (\<forall>t. pok_threads s' t = (if t = hd ws then (pok_threads s t)\<lparr>t_state := POK_STATE_RUNNABLE\<rparr> else pok_threads s t)) \<and>
       spinlocks s' = spinlocks s \<and>
       pok_lockobj_eventsignal c r s =
         do { s4 \<leftarrow> pok_threads_schedule_one_proc c (t_processor_affinity (pok_threads s (hd ws))) s'; Some (POK_ERRNO_OK, s4) })"
    (is "?broadcast \<and> ?signal")
proof
  let ?s1 = "upd_lock r (\<lambda>l. l\<lparr>l_eventspin := True\<rparr>) (spin_count_up s)"
  have q: "queue_ok c (l_event_fifo (lock_at r ?s1))" "event_waiters c (lock_at r ?s1) = ws"
    using assms(2) by (simp_all add: ws_def)
  have drop: "upd_lock r (\<lambda>l. l\<lparr>l_event_fifo := f, l_eventspin := False\<rparr>) s' = upd_lock r (\<lambda>l. l\<lparr>l_event_fifo := f\<rparr>) s'"
    if "lock_at r s' = lock_at r s" for f s'
    by (rule upd_lock_cong) (use assms(3) that in \<open>cases "lock_at r s", simp\<close>)
  show ?broadcast
  proof -
    obtain f where f: "event_wake_all c r False ?s1 = Some (ws \<noteq> [], upd_lock r (\<lambda>l. l\<lparr>l_event_fifo := f\<rparr>)
        (fold pok_sched_unlock_thread ws ?s1))" "fifo_list (NB_THREADS c) f = []"
      using event_wake_all_spec [OF q, of False] by auto
    let ?s' = "upd_lock r (\<lambda>l. l\<lparr>l_event_fifo := f\<rparr>) (fold pok_sched_unlock_thread ws s)"
    have "pok_lockobj_eventbroadcast c r s =
        (if ws = [] then Some (POK_ERRNO_OK, ?s')
         else do { s4 \<leftarrow> pok_threads_schedule_every_proc c ?s'; Some (POK_ERRNO_OK, s4) })"
      using assms(3) f(1) by (simp add: pok_lockobj_eventbroadcast_def spin_simps drop)
    then show ?thesis using f(2) by (intro exI [of _ ?s'] exI [of _ f]) (simp add: fold_unlock_threads)
  qed
  show ?signal
  proof (cases "ws = []")
    case True
    have "pok_lockobj_fifo_is_empty (l_event_fifo (lock_at r s))"
      using queue_empty [OF assms(2)] True by (simp add: ws_def)
    moreover have "upd_lock r (\<lambda>l. l\<lparr>l_eventspin := False\<rparr>) s = s"
      by (rule upd_lock_same) (use assms(3) spin_false_same in blast)
    ultimately show ?thesis using True assms(3) by (simp add: pok_lockobj_eventsignal_def spin_simps)
  next
    case False
    then have ne: "event_waiters c (lock_at r ?s1) \<noteq> []" using q(2) by simp
    obtain f where f: "event_wake_head c r ?s1 = pok_sched_unlock_thread (hd ws) (upd_lock r (\<lambda>l. l\<lparr>l_event_fifo := f\<rparr>) ?s1)"
      "fifo_list (NB_THREADS c) f = tl ws"
      using event_wake_head_spec [OF q(1) ne] q(2) by auto
    have "\<not> pok_lockobj_fifo_is_empty (l_event_fifo (lock_at r s))"
      "pok_lockobj_get_head (l_event_fifo (lock_at r s)) = hd ws"
      using queue_empty [OF assms(2)] queue_dequeue(3) [OF assms(2)] False by (simp_all add: ws_def)
    moreover let ?s' = "upd_lock r (\<lambda>l. l\<lparr>l_event_fifo := f\<rparr>) (pok_sched_unlock_thread (hd ws) s)"
    have th: "pok_threads ?s' t = (if t = hd ws then (pok_threads s t)\<lparr>t_state := POK_STATE_RUNNABLE\<rparr> else pok_threads s t)" for t
      by (simp add: pok_sched_unlock_thread_def upd_thread_def)
    have "t_processor_affinity (pok_threads (pok_sched_unlock_thread (hd ws) s) (hd ws)) =
        t_processor_affinity (pok_threads s (hd ws))"
      by (simp add: pok_sched_unlock_thread_def upd_thread_def)
    ultimately have "pok_lockobj_eventsignal c r s =
         do { s4 \<leftarrow> pok_threads_schedule_one_proc c (t_processor_affinity (pok_threads s (hd ws))) ?s'; Some (POK_ERRNO_OK, s4) }"
      using assms(3) by (simp add: pok_lockobj_eventsignal_def spin_simps f(1) drop Let_def)
    then show ?thesis using False f(2) th by (simp, intro exI [of _ ?s'] conjI) (auto simp del: thread_ops_commute)
  qed
qed

lemma event_signal_broadcast_wake_witness:
  "\<exists>s s'. event_waiters demo_config (lock_at (LockObj 0) s) = [2] \<and> event_waiters demo_config (lock_at (LockObj 0) s') = [] \<and>
     t_state (pok_threads s' 2) = POK_STATE_RUNNABLE \<and>
     pok_lockobj_eventbroadcast demo_config (LockObj 0) s =
       do { s4 \<leftarrow> pok_threads_schedule_every_proc demo_config s'; Some (POK_ERRNO_OK, s4) }"
proof -
  define s where "s = upd_lock (LockObj 0) (\<lambda>l. l\<lparr>l_event_fifo := demo_fifo\<lparr>f_last := 1,
     f_is_empty := False, f_buffer := (\<lambda>_. 2)\<rparr>\<rparr>) demo_state"
  have a: "queue_ok demo_config (l_event_fifo (lock_at (LockObj 0) s))" "event_waiters demo_config (lock_at (LockObj 0) s) = [2]"
    by (simp_all add: s_def demo_lock_ok(5) queue_ok_def fifo_list_def fifo_len_def ring_at_def fifo_ok_def)
      (simp_all add: demo_fifo_def)
  have b: "\<not> l_eventspin (lock_at (LockObj 0) s)" using demo_lock_ok(2) by (simp add: s_def demo_lock_ok(5) spins_free_def)
  from conjunct1 [OF event_signal_broadcast_wake [OF a(1) b], unfolded a(2)]
  obtain s' f where "lock_at (LockObj 0) s' = (lock_at (LockObj 0) s)\<lparr>l_event_fifo := f\<rparr>" "fifo_list 8 f = []"
    "\<forall>t. pok_threads s' t = (if t \<in> set [2] then (pok_threads s t)\<lparr>t_state := POK_STATE_RUNNABLE\<rparr> else pok_threads s t)"
    "pok_lockobj_eventbroadcast demo_config (LockObj 0) s =
       do { s4 \<leftarrow> pok_threads_schedule_every_proc demo_config s'; Some (POK_ERRNO_OK, s4) }" by auto
  then show ?thesis using a(2) by (intro exI [of _ s] exI [of _ s']) simp
qed

subsection \<open>Isolation of the partitions' objects\<close>

text \<open>A partition only reaches its own lock objects: an operation on an identifier outside its range, or of
  another kind than the caller expects, returns an error and changes nothing; a creation takes the first
  object of the range that is not initialised, only while the partition initialises, and leaves every
  other object alone.\<close>

theorem lockobj_isolation:
  fixes c :: pok_config and s :: kstate
  defines "p \<equiv> pok_partitions s (pok_current_partition s)"
  assumes "p_lockobj_index_high p < 256" "p_lockobj_index_low p < 256"
  shows "((oid < p_lockobj_index_low p \<or> p_lockobj_index_high p \<le> oid \<or>
       l_kind (pok_partitions_lockobjs s oid) \<noteq> lk_obj_kind la) \<longrightarrow>
      pok_lockobj_partition_wrapper c oid la s = Some (POK_ERRNO_EINVAL, s)) \<and>
    (case pok_lockobj_partition_create attr s of (ret, None, s') \<Rightarrow> s' = s \<and>
         ret = (if init_mode (p_mode p) then POK_ERRNO_LOCKOBJ_UNAVAILABLE else POK_ERRNO_MODE)
     | (ret, Some m, s') \<Rightarrow> init_mode (p_mode p) \<and> p_lockobj_index_low p \<le> m \<and> m < p_lockobj_index_high p \<and>
         \<not> l_initialized (pok_partitions_lockobjs s m) \<and>
         (\<forall>i. p_lockobj_index_low p \<le> i \<longrightarrow> i < m \<longrightarrow> l_initialized (pok_partitions_lockobjs s i)) \<and>
         (ret = POK_ERRNO_OK \<longrightarrow> l_initialized (pok_partitions_lockobjs s' m)) \<and>
         (ret \<noteq> POK_ERRNO_OK \<longrightarrow> s' = s) \<and>
         (\<forall>r. r \<noteq> LockObj m \<longrightarrow> lock_at r s' = lock_at r s))"
proof
  show "(oid < p_lockobj_index_low p \<or> p_lockobj_index_high p \<le> oid \<or>
       l_kind (pok_partitions_lockobjs s oid) \<noteq> lk_obj_kind la) \<longrightarrow>
      pok_lockobj_partition_wrapper c oid la s = Some (POK_ERRNO_EINVAL, s)"
    by (auto simp: pok_lockobj_partition_wrapper_def p_def Let_def)
  let ?range = "[p_lockobj_index_low p..<p_lockobj_index_high p]"
  let ?free = "\<lambda>i. \<not> l_initialized (pok_partitions_lockobjs s i)"
  have m: "p_lockobj_index_low p mod 256 = p_lockobj_index_low p" "p_lockobj_index_high p mod 256 = p_lockobj_index_high p"
    using assms(2,3) by simp_all
  show "case pok_lockobj_partition_create attr s of (ret, None, s') \<Rightarrow> s' = s \<and>
         ret = (if init_mode (p_mode p) then POK_ERRNO_LOCKOBJ_UNAVAILABLE else POK_ERRNO_MODE)
     | (ret, Some m, s') \<Rightarrow> init_mode (p_mode p) \<and> p_lockobj_index_low p \<le> m \<and> m < p_lockobj_index_high p \<and>
         \<not> l_initialized (pok_partitions_lockobjs s m) \<and>
         (\<forall>i. p_lockobj_index_low p \<le> i \<longrightarrow> i < m \<longrightarrow> l_initialized (pok_partitions_lockobjs s i)) \<and>
         (ret = POK_ERRNO_OK \<longrightarrow> l_initialized (pok_partitions_lockobjs s' m)) \<and>
         (ret \<noteq> POK_ERRNO_OK \<longrightarrow> s' = s) \<and>
         (\<forall>r. r \<noteq> LockObj m \<longrightarrow> lock_at r s' = lock_at r s)"
  proof (cases "init_mode (p_mode p)")
    case False
    then show ?thesis by (simp add: pok_lockobj_partition_create_def p_def POK_CURRENT_PARTITION_def)
  next
    case init: True
    show ?thesis
    proof (cases "find ?free ?range")
      case None
      then show ?thesis using init m
        by (simp add: pok_lockobj_partition_create_def p_def POK_CURRENT_PARTITION_def)
    next
      case (Some i)
      then obtain k where k: "k < length ?range" "i = ?range ! k" "?free i" "\<forall>j<k. \<not> ?free (?range ! j)"
        by (auto simp: find_Some_iff)
      have first: "l_initialized (pok_partitions_lockobjs s j)" if "p_lockobj_index_low p \<le> j" "j < i" for j
      proof -
        have "?range ! (j - p_lockobj_index_low p) = j" "j - p_lockobj_index_low p < k" using that k(1,2) by auto
        then show ?thesis using k(4) by metis
      qed
      have la: "l_initialized (lockobj_from_attr attr l)" for l by (simp add: lockobj_from_attr_def Let_def)
      have at: "pok_partitions_lockobjs s' i = lock_at (LockObj i) s'" for s' by (simp add: lock_at_def)
      have range: "p_lockobj_index_low p \<le> i" "i < p_lockobj_index_high p" using k(1,2) by auto
      have "pok_lockobj_partition_create attr s =
          (fst (pok_lockobj_create (LockObj i) attr s), Some i, snd (pok_lockobj_create (LockObj i) attr s))"
        using init m Some
        by (simp add: pok_lockobj_partition_create_def p_def POK_CURRENT_PARTITION_def split: prod.splits)
      then show ?thesis using init range first k(3) la
        by (simp add: pok_lockobj_create_def at)
    qed
  qed
qed

lemma lockobj_isolation_witness:
  "pok_lockobj_partition_wrapper demo_config 1 \<lparr>lk_operation = LOCKOBJ_OPERATION_LOCK, lk_obj_kind = POK_LOCKOBJ_KIND_SEMAPHORE,
     lk_lock_kind = LOCKOBK_LOCK_REGULAR, lk_timeout = 0\<rparr> demo_state = Some (POK_ERRNO_EINVAL, demo_state)"
  by (rule mp [OF conjunct1 [OF lockobj_isolation]]) (simp_all add: demo_partition_def)

end
