(* ===== verification/Pok_Port.thy ===== *)
theory Pok_Port
  imports Pok_Lockobj Pok_Libc
begin

text \<open>
  The ports' buffers: \<open>kernel/middleware/portutils.c\<close>, \<open>queueinit.c\<close> and \<open>portinit.c\<close>. Every port owns a slice of
  the bytes of \<open>pok_queue\<close>; a queueing port uses it as a ring between two offsets, a sampling port as one
  message. The ring is shown to be a queue of bytes as long as no more is written than is free, and the
  functions that say how much is free are shown to be wrong in two cases.

  The address space the kernel copies from and to is \<open>ks_mem\<close>; \<open>mem_view\<close> and \<open>mem_put\<close> read and write a
  buffer of it. A division by a port size of zero is a step C leaves undefined.
\<close>

subsection \<open>Constants and memory\<close>

definition POK_PORT_KIND_QUEUEING :: u8 where "POK_PORT_KIND_QUEUEING = 1"

definition POK_PORT_KIND_SAMPLING :: u8 where "POK_PORT_KIND_SAMPLING = 2"

definition POK_PORT_KIND_VIRTUAL :: u8 where "POK_PORT_KIND_VIRTUAL = 2"

definition POK_PORT_KIND_INVALID :: u8 where "POK_PORT_KIND_INVALID = 10"

definition POK_PORT_DIRECTION_IN :: u8 where "POK_PORT_DIRECTION_IN = 1"

definition POK_PORT_DIRECTION_OUT :: u8 where "POK_PORT_DIRECTION_OUT = 2"

definition POK_PORT_MAX_SIZE :: u32 where "POK_PORT_MAX_SIZE = 512"

lemmas port_consts [simp] = POK_PORT_KIND_QUEUEING_def POK_PORT_KIND_SAMPLING_def POK_PORT_KIND_VIRTUAL_def
  POK_PORT_KIND_INVALID_def POK_PORT_DIRECTION_IN_def POK_PORT_DIRECTION_OUT_def

definition mem_view :: "kstate \<Rightarrow> u32 \<Rightarrow> nat \<Rightarrow> u8" where
  "mem_view s a = (\<lambda>i. ks_mem s (a + of_nat i))"

definition mem_put :: "u32 \<Rightarrow> (nat \<Rightarrow> u8) \<Rightarrow> nat \<Rightarrow> kstate \<Rightarrow> kstate" where
  "mem_put a f n s = s\<lparr>ks_mem := (\<lambda>x. if unat (x - a) < n then f (unat (x - a)) else ks_mem s x)\<rparr>"

definition queue_put :: "(nat \<Rightarrow> u8) \<Rightarrow> kstate \<Rightarrow> kstate" where
  "queue_put d s = s\<lparr>pok_queue := (pok_queue s)\<lparr>q_data := d\<rparr>\<rparr>"

subsection \<open>Initialisation\<close>

definition pok_queue_init :: "kstate \<Rightarrow> kstate" where
  "pok_queue_init s = s\<lparr>pok_queue := (pok_queue s)\<lparr>q_size := 1024, q_available_size := 1024\<rparr>\<rparr>"

definition port_reset :: "pok_port_t \<Rightarrow> pok_port_t" where
  "port_reset p = p\<lparr>po_size := 0, po_off_b := 0, po_off_e := 0, po_empty := True, po_full := False, po_index := 0,
     po_ready := False, po_kind := POK_PORT_KIND_INVALID, po_last_receive := 0, po_must_be_flushed := False\<rparr>"

definition pok_port_init :: "pok_config \<Rightarrow> kstate \<Rightarrow> kstate option" where
  "pok_port_init c s =
     (if NB_PORTS c > 255 then None
      else let s1 = fold (\<lambda>i s. if PARTITIONS_PORTS c i \<ge> NB_PARTITIONS c
                           then pok_kernel_error POK_ERROR_KIND_KERNEL_CONFIG s else s) [0..<NB_PORTS c] s
           in Some (fold (\<lambda>i. upd_port i port_reset) [0..<NB_PORTS c] s1))"

subsection \<open>The buffer of a port\<close>

definition pok_port_available_size :: "nat \<Rightarrow> kstate \<Rightarrow> u32" where
  "pok_port_available_size pid s =
     (let p = pok_ports s pid in
      if po_full p then 0
      else if po_off_b p < po_off_e p then po_off_b p - po_off_e p
      else po_size p - po_off_e p + po_off_b p)"

definition pok_port_consumed_size :: "nat \<Rightarrow> kstate \<Rightarrow> u32" where
  "pok_port_consumed_size pid s =
     (let p = pok_ports s pid in
      if po_empty p then 0
      else if po_off_b p < po_off_e p then po_off_e p - po_off_b p
      else po_size p - po_off_b p + po_off_e p)"

definition pok_port_get ::
  "nat \<Rightarrow> (nat \<Rightarrow> u8) \<Rightarrow> u32 \<Rightarrow> kstate \<Rightarrow> (pok_ret_t \<times> (nat \<Rightarrow> u8) \<times> kstate) option" where
  "pok_port_get pid data sz s =
     (let p = pok_ports s pid; q = q_data (pok_queue s) in
      if po_kind p = POK_PORT_KIND_QUEUEING
      then if po_empty p then Some (POK_ERRNO_EINVAL, data, s)
           else if po_size p < sz then Some (POK_ERRNO_SIZE, data, s)
           else do {
             let data' = (if po_off_b p + sz > po_size p
                          then let tmp_size = po_size p - po_off_b p;
                                   d1 = memcpy data 0 q (unat (po_index p + po_off_b p)) (unat tmp_size);
                                   tmp_size2 = sz - tmp_size
                               in memcpy d1 (unat tmp_size) q (unat (po_index p)) (unat tmp_size2)
                          else memcpy data 0 q (unat (po_index p + po_off_b p)) (unat sz));
             kassert (po_size p \<noteq> 0);
             let off = (po_off_b p + sz) mod po_size p;
             let s1 = upd_port pid (\<lambda>p. p\<lparr>po_off_b := off\<rparr>) s;
             Some (POK_ERRNO_OK, data',
               if off = po_off_e p then upd_port pid (\<lambda>p. p\<lparr>po_empty := True, po_full := False\<rparr>) s1 else s1)
           }
      else if po_kind p = POK_PORT_KIND_SAMPLING
      then if po_empty p then Some (POK_ERRNO_EMPTY, data, s)
           else if sz > po_size p then Some (POK_ERRNO_SIZE, data, s)
           else Some (POK_ERRNO_OK, memcpy data 0 q (unat (po_index p + po_off_b p)) (unat sz), s)
      else Some (POK_ERRNO_EINVAL, data, s))"

definition pok_port_write :: "nat \<Rightarrow> (nat \<Rightarrow> u8) \<Rightarrow> u32 \<Rightarrow> kstate \<Rightarrow> (pok_ret_t \<times> kstate) option" where
  "pok_port_write pid data sz s =
     (let p = pok_ports s pid; q = q_data (pok_queue s) in
      if po_kind p = POK_PORT_KIND_QUEUEING
      then if po_full p then Some (POK_ERRNO_SIZE, s)
           else if sz > po_size p then Some (POK_ERRNO_SIZE, s)
           else do {
             let q' = (if po_off_e p + sz > po_size p
                       then let tmp_size = po_size p - po_off_e p;
                                q1 = memcpy q (unat (po_index p + po_off_e p)) data 0 (unat tmp_size);
                                tmp_size2 = sz - tmp_size
                            in memcpy q1 (unat (po_index p)) data (unat tmp_size) (unat tmp_size2)
                       else memcpy q (unat (po_index p + po_off_e p)) data 0 (unat sz));
             kassert (po_size p \<noteq> 0);
             let off = (po_off_e p + sz) mod po_size p;
             let s1 = upd_port pid (\<lambda>p. p\<lparr>po_off_e := off\<rparr>) (queue_put q' s);
             let s2 = (if off = po_off_b p then upd_port pid (\<lambda>p. p\<lparr>po_full := True\<rparr>) s1 else s1);
             Some (POK_ERRNO_OK, upd_port pid (\<lambda>p. p\<lparr>po_empty := False\<rparr>) s2)
           }
      else if po_kind p = POK_PORT_KIND_SAMPLING
      then if sz > po_size p then Some (POK_ERRNO_SIZE, s)
           else Some (POK_ERRNO_OK,
             upd_port pid (\<lambda>p. p\<lparr>po_empty := False, po_last_receive := pok_tick_counter s\<rparr>)
               (queue_put (memcpy q (unat (po_index p + po_off_e p)) data 0 (unat sz)) s))
      else Some (POK_ERRNO_EINVAL, s))"

definition pok_port_transfer :: "nat \<Rightarrow> nat \<Rightarrow> kstate \<Rightarrow> (pok_ret_t \<times> kstate) option" where
  "pok_port_transfer pid_dst pid_src s =
     (let src = pok_ports s pid_src; dst = pok_ports s pid_dst;
          queueing = (po_kind src = POK_PORT_KIND_QUEUEING);
          src_len_consumed = pok_port_consumed_size pid_src s;
          len0 = (if queueing then pok_port_available_size pid_dst s else po_size src);
          len = (if queueing \<and> len0 > src_len_consumed then src_len_consumed else len0)
      in if po_empty src then Some (POK_ERRNO_EMPTY, s)
         else if \<not> queueing \<and> po_size src \<noteq> po_size dst then Some (POK_ERRNO_SIZE, s)
         else if queueing \<and> src_len_consumed = 0 then Some (POK_ERRNO_SIZE, s)
         else if len = 0 then Some (POK_ERRNO_SIZE, s)
         else do {
           let q = q_data (pok_queue s);
           let s1 = queue_put (memcpy q (unat (po_index dst + po_off_e dst)) q (unat (po_index src + po_off_b src)) (unat len)) s;
           s2 \<leftarrow> (if queueing
                 then do {
                   kassert (po_size dst \<noteq> 0 \<and> po_size src \<noteq> 0);
                   let s3 = upd_port pid_dst (\<lambda>p. p\<lparr>po_off_e := (po_off_e p + len) mod po_size p\<rparr>) s1;
                   let s4 = upd_port pid_src (\<lambda>p. p\<lparr>po_off_b := (po_off_b p + len) mod po_size p\<rparr>) s3;
                   Some (if po_off_b (pok_ports s4 pid_src) = po_off_e (pok_ports s4 pid_src)
                         then upd_port pid_src (\<lambda>p. p\<lparr>po_empty := True, po_full := False\<rparr>) s4 else s4)
                 }
                 else Some (upd_port pid_src (\<lambda>p. p\<lparr>po_empty := True\<rparr>) s1));
           Some (POK_ERRNO_OK, upd_port pid_dst (\<lambda>p. p\<lparr>po_empty := False\<rparr>)
             (upd_port pid_src (\<lambda>p. p\<lparr>po_full := False\<rparr>) s2))
         })"

definition pok_own_port :: "pok_config \<Rightarrow> nat \<Rightarrow> nat \<Rightarrow> bool" where
  "pok_own_port c part port = (if port > NB_PORTS c then False else PARTITIONS_PORTS c port = part)"

subsection \<open>A ring as a list of bytes\<close>

text \<open>Copies into and out of a ring of \<open>n\<close> bytes at \<open>i\<close>, cut at its end.\<close>

definition ring_in :: "nat \<Rightarrow> nat \<Rightarrow> nat \<Rightarrow> (nat \<Rightarrow> u8) \<Rightarrow> nat \<Rightarrow> (nat \<Rightarrow> u8) \<Rightarrow> (nat \<Rightarrow> u8)" where
  "ring_in i n e data len q =
     (if e + len > n then memcpy (memcpy q (i + e) data 0 (n - e)) i data (n - e) (len - (n - e))
      else memcpy q (i + e) data 0 len)"

definition ring_out :: "nat \<Rightarrow> nat \<Rightarrow> nat \<Rightarrow> (nat \<Rightarrow> u8) \<Rightarrow> nat \<Rightarrow> (nat \<Rightarrow> u8) \<Rightarrow> (nat \<Rightarrow> u8)" where
  "ring_out i n b data len q =
     (if b + len > n then memcpy (memcpy data 0 q (i + b) (n - b)) (n - b) q i (len - (n - b))
      else memcpy data 0 q (i + b) len)"

lemma ring_at_cases: "e < n \<Longrightarrow> k < n \<Longrightarrow> ring_at n e k = (if e + k < n then e + k else e + k - n)"
  by (simp add: ring_at_def mod_if)

lemma ring_in_at:
  assumes "e < n" "len \<le> n" "k < n"
  shows "ring_in i n e data len q (i + ring_at n e k) = (if k < len then data k else q (i + ring_at n e k))"
  using assms by (auto simp: ring_in_def ring_at_cases)

lemma ring_in_outside: "len \<le> n \<Longrightarrow> e < n \<Longrightarrow> x < i \<or> i + n \<le> x \<Longrightarrow> ring_in i n e data len q x = q x"
  by (auto simp: ring_in_def)

lemma ring_out_at:
  assumes "b < n" "len \<le> n"
  shows "ring_out i n b data len q k = (if k < len then q (i + ring_at n b k) else data k)"
  using assms by (auto simp: ring_out_def ring_at_cases add.assoc add.commute [of k b])

subsection \<open>A port as a queue of bytes\<close>

definition port_count :: "pok_port_t \<Rightarrow> nat" where
  "port_count p = (if po_empty p then 0
     else if unat (po_off_b p) < unat (po_off_e p) then unat (po_off_e p) - unat (po_off_b p)
     else unat (po_size p) - unat (po_off_b p) + unat (po_off_e p))"

text \<open>The offsets are in range and an empty port is not full. A port whose offsets meet is full unless it is
  empty; the flag may be set in other states too.\<close>

definition port_ok :: "pok_port_t \<Rightarrow> bool" where
  "port_ok p = (unat (po_off_b p) < unat (po_size p) \<and> unat (po_off_e p) < unat (po_size p) \<and>
     unat (po_index p) + unat (po_size p) \<le> 1024 \<and> po_kind p = POK_PORT_KIND_QUEUEING \<and>
     (po_empty p \<longrightarrow> po_off_b p = po_off_e p \<and> \<not> po_full p) \<and>
     (po_off_b p = po_off_e p \<and> \<not> po_empty p \<longrightarrow> po_full p))"

definition port_bytes :: "pok_port_t \<Rightarrow> (nat \<Rightarrow> u8) \<Rightarrow> u8 list" where
  "port_bytes p q = map (\<lambda>k. q (unat (po_index p) + ring_at (unat (po_size p)) (unat (po_off_b p)) k)) [0..<port_count p]"

lemma length_port_bytes [simp]: "length (port_bytes p q) = port_count p"
  by (simp add: port_bytes_def)

lemma port_count_le: "port_ok p \<Longrightarrow> port_count p \<le> unat (po_size p)"
  by (auto simp: port_ok_def port_count_def)

lemma port_count_0: "port_ok p \<Longrightarrow> (port_count p = 0) = po_empty p"
  by (auto simp: port_ok_def port_count_def)

lemma port_off_e: "port_ok p \<Longrightarrow> unat (po_off_e p) = ring_at (unat (po_size p)) (unat (po_off_b p)) (port_count p)"
  by (auto simp: port_ok_def port_count_def ring_at_def mod_if)

lemma port_countI:
  assumes "unat (po_off_b p) < unat (po_size p)" "unat (po_off_e p) = ring_at (unat (po_size p)) (unat (po_off_b p)) n"
    and "n \<le> unat (po_size p)" "po_empty p = (n = 0)"
  shows "port_count p = n"
  using assms by (auto simp: port_count_def ring_at_def mod_if split: if_splits)

lemma port_bytesI:
  assumes "port_count p = length xs"
    and "\<And>k. k < length xs \<Longrightarrow> q (unat (po_index p) + ring_at (unat (po_size p)) (unat (po_off_b p)) k) = xs ! k"
  shows "port_bytes p q = xs"
  by (rule nth_equalityI) (simp_all add: port_bytes_def assms)

lemma port_bytes_nth: "k < port_count p \<Longrightarrow>
    port_bytes p q ! k = q (unat (po_index p) + ring_at (unat (po_size p)) (unat (po_off_b p)) k)"
  by (simp add: port_bytes_def)

lemma unat_add_small: "unat (a :: u32) + unat b < 4294967296 \<Longrightarrow> unat (a + b) = unat a + unat b"
  by (simp add: unat_word_ariths)

lemma unat_sub_le: "unat (b :: u32) \<le> unat a \<Longrightarrow> unat (a - b) = unat a - unat b"
  by (simp add: unat_sub word_le_nat_alt)

lemma port_ok_sums:
  assumes "port_ok p" "unat sz \<le> unat (po_size p)"
  shows "unat (po_off_b p + sz) = unat (po_off_b p) + unat sz" "unat (po_off_e p + sz) = unat (po_off_e p) + unat sz"
    "unat (po_index p + po_off_b p) = unat (po_index p) + unat (po_off_b p)"
    "unat (po_index p + po_off_e p) = unat (po_index p) + unat (po_off_e p)"
    "unat (po_size p - po_off_b p) = unat (po_size p) - unat (po_off_b p)"
    "unat (po_size p - po_off_e p) = unat (po_size p) - unat (po_off_e p)"
  using assms by (auto simp: port_ok_def unat_add_small unat_sub_le)

lemma ring_at_mod: "unat x = b + n \<Longrightarrow> unat (x mod m) = ring_at (unat m) b n"
  by (simp add: unat_mod_distrib ring_at_def)

lemma port_nonzero: "port_ok p \<Longrightarrow> po_size p \<noteq> 0"
  by (auto simp: port_ok_def)

lemma upd_port_twice: "upd_port i f (upd_port i g s) = upd_port i (\<lambda>p. f (g p)) s"
  by (simp add: upd_port_def)

lemma upd_port_cong: "f (pok_ports s i) = g (pok_ports s i) \<Longrightarrow> upd_port i f s = upd_port i g s"
  by (simp add: upd_port_def)

lemma queue_put_ports [simp]: "pok_ports (queue_put d s) = pok_ports s"
  by (simp add: queue_put_def)

text \<open>What a write and a read do to the port and to the bytes of the queue.\<close>

lemma port_write_eq:
  assumes "port_ok (pok_ports s pid)" "\<not> po_full (pok_ports s pid)" "unat sz \<le> unat (po_size (pok_ports s pid))"
  defines "p \<equiv> pok_ports s pid"
  defines "off \<equiv> (po_off_e p + sz) mod po_size p"
  shows "pok_port_write pid data sz s = Some (POK_ERRNO_OK,
    upd_port pid (\<lambda>p. p\<lparr>po_off_e := off, po_full := (off = po_off_b p), po_empty := False\<rparr>)
      (queue_put (ring_in (unat (po_index p)) (unat (po_size p)) (unat (po_off_e p)) data (unat sz) (q_data (pok_queue s))) s))"
proof -
  note su = port_ok_sums [OF assms(1,3)]
  have k: "po_kind p = 1" and nz: "po_size p \<noteq> 0"
    using assms(1) port_nonzero [OF assms(1)] by (simp_all add: port_ok_def p_def)
  have gt: "(po_off_e p + sz > po_size p) = (unat (po_off_e p) + unat sz > unat (po_size p))"
    using su(2) by (simp add: word_less_nat_alt p_def)
  have t2: "unat (po_off_e p) + unat sz > unat (po_size p) \<Longrightarrow>
      unat (sz - (po_size p - po_off_e p)) = unat sz - (unat (po_size p) - unat (po_off_e p))"
    using su(6) by (simp add: unat_sub_le p_def)
  have "sz \<le> po_size p" using assms(3) by (simp add: word_le_nat_alt p_def)
  then have "pok_port_write pid data sz s = Some (POK_ERRNO_OK, upd_port pid (\<lambda>p. p\<lparr>po_empty := False\<rparr>)
      (let s1 = upd_port pid (\<lambda>p. p\<lparr>po_off_e := off\<rparr>) (queue_put (ring_in (unat (po_index p)) (unat (po_size p))
         (unat (po_off_e p)) data (unat sz) (q_data (pok_queue s))) s)
       in if off = po_off_b p then upd_port pid (\<lambda>p. p\<lparr>po_full := True\<rparr>) s1 else s1))"
    using assms(2) k nz su t2
    by (simp add: pok_port_write_def Let_def p_def [symmetric] gt off_def [symmetric] ring_in_def)
  also have "\<dots> = Some (POK_ERRNO_OK, upd_port pid (\<lambda>p. p\<lparr>po_off_e := off, po_full := (off = po_off_b p), po_empty := False\<rparr>)
      (queue_put (ring_in (unat (po_index p)) (unat (po_size p)) (unat (po_off_e p)) data (unat sz) (q_data (pok_queue s))) s))"
    using assms(2) by (auto simp: Let_def upd_port_twice p_def intro!: upd_port_cong)
  finally show ?thesis .
qed

lemma port_get_eq:
  assumes "port_ok (pok_ports s pid)" "\<not> po_empty (pok_ports s pid)" "unat sz \<le> unat (po_size (pok_ports s pid))"
  defines "p \<equiv> pok_ports s pid"
  defines "off \<equiv> (po_off_b p + sz) mod po_size p"
  shows "pok_port_get pid data sz s = Some (POK_ERRNO_OK,
    ring_out (unat (po_index p)) (unat (po_size p)) (unat (po_off_b p)) data (unat sz) (q_data (pok_queue s)),
    upd_port pid (\<lambda>p. p\<lparr>po_off_b := off, po_full := (po_full p \<and> off \<noteq> po_off_e p), po_empty := (off = po_off_e p)\<rparr>) s)"
proof -
  note su = port_ok_sums [OF assms(1,3)]
  have k: "po_kind p = 1" and nz: "po_size p \<noteq> 0"
    using assms(1) port_nonzero [OF assms(1)] by (simp_all add: port_ok_def p_def)
  have gt: "(po_off_b p + sz > po_size p) = (unat (po_off_b p) + unat sz > unat (po_size p))"
    using su(1) by (simp add: word_less_nat_alt p_def)
  have t2: "unat (po_off_b p) + unat sz > unat (po_size p) \<Longrightarrow>
      unat (sz - (po_size p - po_off_b p)) = unat sz - (unat (po_size p) - unat (po_off_b p))"
    using su(5) by (simp add: unat_sub_le p_def)
  have "\<not> po_size p < sz" using assms(3) by (simp add: word_less_nat_alt p_def)
  then have "pok_port_get pid data sz s = Some (POK_ERRNO_OK,
    ring_out (unat (po_index p)) (unat (po_size p)) (unat (po_off_b p)) data (unat sz) (q_data (pok_queue s)),
    let s1 = upd_port pid (\<lambda>p. p\<lparr>po_off_b := off\<rparr>) s
    in if off = po_off_e p then upd_port pid (\<lambda>p. p\<lparr>po_empty := True, po_full := False\<rparr>) s1 else s1)"
    using assms(2) k nz su t2
    by (simp add: pok_port_get_def Let_def p_def [symmetric] gt off_def [symmetric] ring_out_def)
  moreover have "(let s1 = upd_port pid (\<lambda>p. p\<lparr>po_off_b := off\<rparr>) s
      in if off = po_off_e p then upd_port pid (\<lambda>p. p\<lparr>po_empty := True, po_full := False\<rparr>) s1 else s1) =
    upd_port pid (\<lambda>p. p\<lparr>po_off_b := off, po_full := (po_full p \<and> off \<noteq> po_off_e p), po_empty := (off = po_off_e p)\<rparr>) s"
    using assms(2) unfolding Let_def upd_port_twice p_def
    by (auto intro!: upd_port_cong)
  ultimately show ?thesis by simp
qed

lemma ring_at_add: "ring_at n (ring_at n b j) k = ring_at n b (j + k)"
  by (simp add: ring_at_def mod_add_left_eq add.assoc)

lemma upd_port_same [simp]: "pok_ports (upd_port i f s) i = f (pok_ports s i)"
  by (simp add: upd_port_def)

lemma upd_port_fields [simp]:
  "j \<noteq> i \<Longrightarrow> pok_ports (upd_port i f s) j = pok_ports s j" "pok_queue (upd_port i f s) = pok_queue s"
  "pok_queue (queue_put d s) = (pok_queue s)\<lparr>q_data := d\<rparr>"
  by (simp_all add: upd_port_def queue_put_def)

abbreviation port_contents :: "nat \<Rightarrow> kstate \<Rightarrow> u8 list" where
  "port_contents pid s \<equiv> port_bytes (pok_ports s pid) (q_data (pok_queue s))"

abbreviation port_room :: "nat \<Rightarrow> kstate \<Rightarrow> nat" where
  "port_room pid s \<equiv> unat (po_size (pok_ports s pid)) - port_count (pok_ports s pid)"

text \<open>The offset after the bytes of a write, and the count it means.\<close>

lemma port_off_write:
  assumes "port_ok p" "unat sz \<le> unat (po_size p)"
  shows "unat ((po_off_e p + sz) mod po_size p) = ring_at (unat (po_size p)) (unat (po_off_b p)) (port_count p + unat sz)"
  using ring_at_mod [OF port_ok_sums(2) [OF assms], of "po_size p"] port_off_e [OF assms(1)] ring_at_add by simp

lemma port_write_appends:
  assumes "port_ok (pok_ports s pid)" "\<not> po_full (pok_ports s pid)" "0 < unat sz" "unat sz \<le> port_room pid s"
  shows "\<exists>s'. pok_port_write pid data sz s = Some (POK_ERRNO_OK, s') \<and> port_ok (pok_ports s' pid) \<and>
    po_size (pok_ports s' pid) = po_size (pok_ports s pid) \<and>
    port_contents pid s' = port_contents pid s @ map data [0..<unat sz]"
proof -
  let ?p = "pok_ports s pid" let ?n = "unat (po_size ?p)" let ?b = "unat (po_off_b ?p)" let ?q = "q_data (pok_queue s)"
  let ?off = "(po_off_e ?p + sz) mod po_size ?p" let ?c = "port_count ?p"
  have le: "?c + unat sz \<le> ?n" "unat sz \<le> ?n" using assms(3,4) port_count_le [OF assms(1)] by auto
  have b: "?b < ?n" "unat (po_off_e ?p) < ?n" using assms(1) by (auto simp: port_ok_def)
  let ?q' = "ring_in (unat (po_index ?p)) ?n (unat (po_off_e ?p)) data (unat sz) ?q"
  let ?p' = "?p\<lparr>po_off_e := ?off, po_full := (?off = po_off_b ?p), po_empty := False\<rparr>"
  let ?s' = "upd_port pid (\<lambda>p. p\<lparr>po_off_e := ?off, po_full := (?off = po_off_b p), po_empty := False\<rparr>) (queue_put ?q' s)"
  have w: "pok_port_write pid data sz s = Some (POK_ERRNO_OK, ?s')"
    using port_write_eq [OF assms(1,2) le(2), of data] by simp
  have off: "unat ?off = ring_at ?n ?b (?c + unat sz)" using port_off_write [OF assms(1) le(2)] .
  have cnt: "port_count ?p' = ?c + unat sz" using port_countI [of ?p' "?c + unat sz"] b off le assms(3) by simp
  have "unat ?off < ?n" using off ring_at_less [OF b(1)] by simp
  then have ok: "port_ok ?p'" using assms(1) by (simp add: port_ok_def)
  have at: "?q' (unat (po_index ?p) + ring_at ?n ?b (?c + k)) =
      (if k < unat sz then data k else ?q (unat (po_index ?p) + ring_at ?n ?b (?c + k)))" if "k < ?n" for k
    using ring_in_at [OF b(2) le(2) that, of "unat (po_index ?p)" data ?q] port_off_e [OF assms(1)] ring_at_add by simp
  have old: "?q' (unat (po_index ?p) + ring_at ?n ?b j) = ?q (unat (po_index ?p) + ring_at ?n ?b j)" if "j < ?c" for j
  proof -
    have r: "ring_at ?n ?b (?c + (?n - ?c + j)) = ring_at ?n ?b j"
    proof -
      have "?b + (?c + (?n - ?c + j)) = (?b + j) + ?n" using le by simp
      then show ?thesis unfolding ring_at_def by (simp only: mod_add_self2)
    qed
    have "?n - ?c + j < ?n" "\<not> ?n - ?c + j < unat sz" using that le by simp_all
    then show ?thesis using at [of "?n - ?c + j"] unfolding r by simp
  qed
  have "port_bytes ?p' ?q' = port_bytes ?p ?q @ map data [0..<unat sz]"
  proof (rule port_bytesI)
    show "port_count ?p' = length (port_bytes ?p ?q @ map data [0..<unat sz])" using cnt by simp
    fix k assume "k < length (port_bytes ?p ?q @ map data [0..<unat sz])"
    then have k: "k < ?c + unat sz" by simp
    show "?q' (unat (po_index ?p') + ring_at (unat (po_size ?p')) (unat (po_off_b ?p')) k) =
        (port_bytes ?p ?q @ map data [0..<unat sz]) ! k"
    proof (cases "k < ?c")
      case True
      then show ?thesis using old [OF True] by (simp add: nth_append port_bytes_nth)
    next
      case False
      then have "k - ?c < ?n" "k - ?c < unat sz" "?c + (k - ?c) = k" using k le by simp_all
      then show ?thesis using at [of "k - ?c"] False by (simp add: nth_append)
    qed
  qed
  then show ?thesis using w ok by (intro exI [of _ ?s']) simp
qed

lemma port_get_takes:
  assumes "port_ok (pok_ports s pid)" "0 < unat sz" "unat sz \<le> port_count (pok_ports s pid)"
  shows "\<exists>d s'. pok_port_get pid data sz s = Some (POK_ERRNO_OK, d, s') \<and> port_ok (pok_ports s' pid) \<and>
    po_size (pok_ports s' pid) = po_size (pok_ports s pid) \<and>
    port_contents pid s' = drop (unat sz) (port_contents pid s) \<and>
    (\<forall>k. d k = (if k < unat sz then port_contents pid s ! k else data k)) \<and>
    po_full (pok_ports s' pid) = (po_full (pok_ports s pid) \<and> unat sz < port_count (pok_ports s pid)) \<and>
    s' = upd_port pid (\<lambda>_. pok_ports s' pid) s"
proof -
  let ?p = "pok_ports s pid" let ?n = "unat (po_size ?p)" let ?b = "unat (po_off_b ?p)" let ?q = "q_data (pok_queue s)"
  let ?off = "(po_off_b ?p + sz) mod po_size ?p" let ?c = "port_count ?p"
  have ne: "\<not> po_empty ?p" using port_count_0 [OF assms(1)] assms(2,3) by auto
  have le: "?c \<le> ?n" "unat sz \<le> ?n" using assms(3) port_count_le [OF assms(1)] by auto
  have b: "?b < ?n" using assms(1) by (auto simp: port_ok_def)
  let ?p' = "?p\<lparr>po_off_b := ?off, po_full := (po_full ?p \<and> ?off \<noteq> po_off_e ?p), po_empty := (?off = po_off_e ?p)\<rparr>"
  let ?s' = "upd_port pid (\<lambda>p. p\<lparr>po_off_b := ?off, po_full := (po_full p \<and> ?off \<noteq> po_off_e p), po_empty := (?off = po_off_e p)\<rparr>) s"
  let ?d = "ring_out (unat (po_index ?p)) ?n ?b data (unat sz) ?q"
  have g: "pok_port_get pid data sz s = Some (POK_ERRNO_OK, ?d, ?s')"
    using port_get_eq [OF assms(1) ne le(2), of data] .
  have off: "unat ?off = ring_at ?n ?b (unat sz)" using ring_at_mod [OF port_ok_sums(1) [OF assms(1) le(2)]] by simp
  have e: "unat (po_off_e ?p) = ring_at ?n (unat ?off) (?c - unat sz)"
    using port_off_e [OF assms(1)] off ring_at_add assms(3) by simp
  have offl: "unat ?off < ?n" using off ring_at_less [OF b] by simp
  have em: "(?off = po_off_e ?p) = (?c - unat sz = 0)"
  proof -
    have "(?off = po_off_e ?p) = (ring_at ?n (unat ?off) (?c - unat sz) = ring_at ?n (unat ?off) 0)"
      using e offl by (auto simp: word_unat_eq_iff)
    also have "\<dots> = (?c - unat sz = 0)" using ring_at_inj [OF offl, of "?c - unat sz" 0] le assms(2,3) offl by simp
    finally show ?thesis .
  qed
  have cnt: "port_count ?p' = ?c - unat sz" using port_countI [of ?p' "?c - unat sz"] offl e em le by simp
  have ok: "port_ok ?p'" using assms(1) offl by (auto simp: port_ok_def)
  have "port_bytes ?p' ?q = drop (unat sz) (port_bytes ?p ?q)"
    by (rule port_bytesI) (use cnt off assms(3) in \<open>simp_all add: port_bytes_nth ring_at_add\<close>)
  moreover have "?d k = (if k < unat sz then port_bytes ?p ?q ! k else data k)" for k
    using ring_out_at [OF b le(2), of "unat (po_index ?p)" data ?q k] assms(3) by (simp add: port_bytes_nth)
  moreover have "?s' = upd_port pid (\<lambda>_. pok_ports ?s' pid) s" by (simp add: upd_port_def)
  moreover have "po_full ?p' = (po_full ?p \<and> unat sz < ?c)" using em assms(3) by auto
  ultimately show ?thesis using g ok by (intro exI [of _ ?d] exI [of _ ?s']) simp
qed

subsection \<open>The interface of a byte queue\<close>

text \<open>
  What the two ends of a queueing port rely on: a reader gets the bytes in the order in which they were
  written. \<open>accepts q n\<close> says when \<open>n\<close> bytes may be put.
\<close>

locale byte_queue =
  fixes ok :: "'q \<Rightarrow> bool" and contents :: "'q \<Rightarrow> u8 list" and accepts :: "'q \<Rightarrow> nat \<Rightarrow> bool"
    and put :: "(nat \<Rightarrow> u8) \<Rightarrow> u32 \<Rightarrow> 'q \<Rightarrow> (pok_ret_t \<times> 'q) option"
    and get :: "(nat \<Rightarrow> u8) \<Rightarrow> u32 \<Rightarrow> 'q \<Rightarrow> (pok_ret_t \<times> (nat \<Rightarrow> u8) \<times> 'q) option"
  assumes put_law: "ok q \<Longrightarrow> accepts q (unat n) \<Longrightarrow> 0 < unat n \<Longrightarrow>
      \<exists>q'. put d n q = Some (POK_ERRNO_OK, q') \<and> ok q' \<and> contents q' = contents q @ map d [0..<unat n]"
    and get_law: "ok q \<Longrightarrow> 0 < unat n \<Longrightarrow> unat n \<le> length (contents q) \<Longrightarrow>
      \<exists>d' q'. get d n q = Some (POK_ERRNO_OK, d', q') \<and> ok q' \<and> contents q' = drop (unat n) (contents q) \<and>
        (\<forall>k. d' k = (if k < unat n then contents q ! k else d k))"
begin

lemma get_prefix:
  assumes "ok q" "0 < unat n" "unat n \<le> length (contents q)"
  obtains d' q' where "get d n q = Some (POK_ERRNO_OK, d', q')" "ok q'" "contents q' = drop (unat n) (contents q)"
    "map d' [0..<unat n] = take (unat n) (contents q)"
proof -
  obtain d' q' where g: "get d n q = Some (POK_ERRNO_OK, d', q')" "ok q'" "contents q' = drop (unat n) (contents q)"
    "\<forall>k. d' k = (if k < unat n then contents q ! k else d k)"
    using get_law [OF assms] by blast
  have "map d' [0..<unat n] = take (unat n) (contents q)"
    by (rule nth_equalityI) (use g(4) assms(3) in simp_all)
  then show thesis using g that by blast
qed

text \<open>A message put into a queue comes out, whole, behind what was there before.\<close>

lemma put_then_drain:
  assumes "ok q" "accepts q (unat n)" "0 < unat n" "length (contents q) = unat m" "0 < unat m"
  shows "\<exists>q1 d2 q2 d3 q3. put d n q = Some (POK_ERRNO_OK, q1) \<and> get e m q1 = Some (POK_ERRNO_OK, d2, q2) \<and>
    get e n q2 = Some (POK_ERRNO_OK, d3, q3) \<and> map d2 [0..<unat m] = contents q \<and>
    map d3 [0..<unat n] = map d [0..<unat n] \<and> contents q3 = []"
proof -
  obtain q1 where q1: "put d n q = Some (POK_ERRNO_OK, q1)" "ok q1" "contents q1 = contents q @ map d [0..<unat n]"
    using put_law [OF assms(1-3)] by blast
  have "unat m \<le> length (contents q1)" using q1(3) assms(4) by simp
  then obtain d2 q2 where q2: "get e m q1 = Some (POK_ERRNO_OK, d2, q2)" "ok q2"
    "contents q2 = drop (unat m) (contents q1)" "map d2 [0..<unat m] = take (unat m) (contents q1)"
    using get_prefix [OF q1(2) assms(5)] by metis
  have c2: "contents q2 = map d [0..<unat n]" "map d2 [0..<unat m] = contents q"
    using q2(3,4) q1(3) assms(4) by simp_all
  then have "unat n \<le> length (contents q2)" by simp
  then obtain d3 q3 where "get e n q2 = Some (POK_ERRNO_OK, d3, q3)"
    "contents q3 = drop (unat n) (contents q2)" "map d3 [0..<unat n] = take (unat n) (contents q2)"
    using get_prefix [OF q2(2) assms(3)] by metis
  with q1(1) q2(1) c2 show ?thesis by auto
qed

lemma put_then_get:
  assumes "ok q" "accepts q (unat n)" "0 < unat n" "contents q = []"
  shows "\<exists>q1 d2 q2. put d n q = Some (POK_ERRNO_OK, q1) \<and> get e n q1 = Some (POK_ERRNO_OK, d2, q2) \<and>
    map d2 [0..<unat n] = map d [0..<unat n] \<and> contents q2 = []"
proof -
  obtain q1 where q1: "put d n q = Some (POK_ERRNO_OK, q1)" "ok q1" "contents q1 = map d [0..<unat n]"
    using put_law [OF assms(1-3)] assms(4) by auto
  then have "unat n \<le> length (contents q1)" by simp
  then show ?thesis using get_prefix [OF q1(2) assms(3)] q1 by (metis drop_all le_refl length_map length_upt minus_nat.diff_0 take_all)
qed

end

interpretation port_queue: byte_queue "\<lambda>s. port_ok (pok_ports s pid)" "port_contents pid"
  "\<lambda>s n. \<not> po_full (pok_ports s pid) \<and> n \<le> port_room pid s" "pok_port_write pid" "pok_port_get pid"
  for pid
proof
  fix s :: kstate and n :: u32 and d :: "nat \<Rightarrow> u8"
  show "port_ok (pok_ports s pid) \<Longrightarrow> \<not> po_full (pok_ports s pid) \<and> unat n \<le> port_room pid s \<Longrightarrow> 0 < unat n \<Longrightarrow>
    \<exists>q'. pok_port_write pid d n s = Some (POK_ERRNO_OK, q') \<and> port_ok (pok_ports q' pid) \<and>
      port_contents pid q' = port_contents pid s @ map d [0..<unat n]"
    using port_write_appends [of s pid n d] by blast
  show "port_ok (pok_ports s pid) \<Longrightarrow> 0 < unat n \<Longrightarrow> unat n \<le> length (port_contents pid s) \<Longrightarrow>
    \<exists>d' q'. pok_port_get pid d n s = Some (POK_ERRNO_OK, d', q') \<and> port_ok (pok_ports q' pid) \<and>
      port_contents pid q' = drop (unat n) (port_contents pid s) \<and>
      (\<forall>k. d' k = (if k < unat n then port_contents pid s ! k else d k))"
    using port_get_takes [of s pid n d] unfolding length_port_bytes by blast
qed

text \<open>C8: A queueing port is a first-in-first-out channel: when a message that fits is written to a port that
  holds other bytes, a reader first gets those bytes and then the message, unchanged and in order, also
  when the message wraps around the end of the port's buffer; the port is then empty.\<close>

theorem port_fifo_roundtrip:
  assumes "port_ok (pok_ports s pid)" "\<not> po_full (pok_ports s pid)"
    and "0 < unat n" "unat n \<le> port_room pid s" "port_count (pok_ports s pid) = unat m" "0 < unat m"
  shows "\<exists>s1 d2 s2 d3 s3. pok_port_write pid data n s = Some (POK_ERRNO_OK, s1) \<and>
    pok_port_get pid buf m s1 = Some (POK_ERRNO_OK, d2, s2) \<and> pok_port_get pid buf n s2 = Some (POK_ERRNO_OK, d3, s3) \<and>
    map d2 [0..<unat m] = port_bytes (pok_ports s pid) (q_data (pok_queue s)) \<and>
    map d3 [0..<unat n] = map data [0..<unat n] \<and> port_bytes (pok_ports s3 pid) (q_data (pok_queue s3)) = []"
  using port_queue.put_then_drain [of s pid n m data buf] assms by simp

text \<open>A demonstration port: 8 bytes, with 4 of them in use, at the end of the buffer.\<close>

definition demo_filled :: kstate where
  "demo_filled = upd_port 1 (\<lambda>p. p\<lparr>po_off_b := 3, po_off_e := 7, po_empty := False\<rparr>)
     (queue_put (\<lambda>i. of_nat i) demo_state)"

lemma demo_filled_ok:
  "port_ok (pok_ports demo_filled 1)" "\<not> po_full (pok_ports demo_filled 1)" "port_count (pok_ports demo_filled 1) = 4"
  "po_size (pok_ports demo_filled 1) = 8" "po_off_b (pok_ports demo_filled 1) = 3" "po_off_e (pok_ports demo_filled 1) = 7"
  by (simp_all add: demo_filled_def port_ok_def port_count_def) (simp_all add: demo_port_def)

lemma port_fifo_roundtrip_witness:
  "\<exists>s1 d2 s2 d3 s3. pok_port_write 1 (\<lambda>_. 65) 4 demo_filled = Some (POK_ERRNO_OK, s1) \<and>
    pok_port_get 1 (\<lambda>_. 0) 4 s1 = Some (POK_ERRNO_OK, d2, s2) \<and> pok_port_get 1 (\<lambda>_. 0) 4 s2 = Some (POK_ERRNO_OK, d3, s3) \<and>
    map d3 [0..<4] = [65, 65, 65, 65]"
proof -
  have "unat (4 :: u32) = 4" by simp
  moreover have "map (\<lambda>_. 65 :: u8) [0..<4] = [65, 65, 65, 65]" by (simp add: eval_nat_numeral)
  ultimately show ?thesis
    using port_fifo_roundtrip [OF demo_filled_ok(1,2), of 4 4 "\<lambda>_. 65" "\<lambda>_. 0"] demo_filled_ok(3,4) by auto
qed

subsection \<open>The free space a port reports\<close>

lemma available_size_value:
  assumes "port_ok (pok_ports s pid)" "\<not> po_full (pok_ports s pid)"
  shows "if po_empty (pok_ports s pid)
    then unat (pok_port_available_size pid s) = unat (po_size (pok_ports s pid)) - port_count (pok_ports s pid)
    else unat (po_size (pok_ports s pid)) < unat (pok_port_available_size pid s) \<and>
      unat (pok_port_available_size pid s) =
        (if po_off_b (pok_ports s pid) < po_off_e (pok_ports s pid) then 2 ^ 32 - port_count (pok_ports s pid)
         else unat (po_size (pok_ports s pid)) + (unat (po_size (pok_ports s pid)) - port_count (pok_ports s pid)))"
proof -
  let ?p = "pok_ports s pid"
  have p: "unat (po_off_b ?p) < unat (po_size ?p)" "unat (po_off_e ?p) < unat (po_size ?p)" "unat (po_size ?p) \<le> 1024"
    using assms(1) by (auto simp: port_ok_def)
  have emp: "po_empty ?p \<Longrightarrow> unat (po_off_b ?p) = unat (po_off_e ?p)" using assms(1) by (simp add: port_ok_def)
  show ?thesis
  proof (cases "po_off_b ?p < po_off_e ?p")
    case True
    then have lt: "unat (po_off_b ?p) < unat (po_off_e ?p)" by (simp add: word_less_nat_alt)
    then have ne: "\<not> po_empty ?p" using emp by auto
    have "unat (po_off_b ?p - po_off_e ?p) = 2 ^ 32 - (unat (po_off_e ?p) - unat (po_off_b ?p))"
      using lt p unat_sub_if' [of "po_off_b ?p" "po_off_e ?p"] by simp
    then show ?thesis using True assms(2) ne lt p by (simp add: pok_port_available_size_def Let_def port_count_def)
  next
    case False
    then have ge: "unat (po_off_e ?p) \<le> unat (po_off_b ?p)" by (simp add: word_less_nat_alt)
    have a: "unat (pok_port_available_size pid s) = unat (po_size ?p) - unat (po_off_e ?p) + unat (po_off_b ?p)"
      using False assms(2) p by (simp add: pok_port_available_size_def Let_def unat_add_small unat_sub_le)
    show ?thesis
    proof (cases "po_empty ?p")
      case True
      then show ?thesis using a emp p by (simp add: port_count_def)
    next
      case ne: False
      then have "unat (po_off_b ?p) \<noteq> unat (po_off_e ?p)" using assms by (auto simp: port_ok_def word_unat_eq_iff)
      then show ?thesis using a ne False ge p by (auto simp: port_count_def word_less_nat_alt)
    qed
  qed
qed

lemma available_at_least:
  assumes "port_ok (pok_ports s pid)" "\<not> po_full (pok_ports s pid)"
  shows "port_room pid s \<le> unat (pok_port_available_size pid s)"
proof -
  have "unat (po_size (pok_ports s pid)) < unat (pok_port_available_size pid s) \<or>
      unat (pok_port_available_size pid s) = port_room pid s"
    using available_size_value [OF assms] by meson
  then show ?thesis by linarith
qed

text \<open>The free space \<open>pok_port_available_size\<close> reports is right for an empty and for a full port only. When
  the data lies in one piece the subtraction is the wrong way round and the result is \<open>2 ^ 32\<close> minus the
  number of bytes in use; when it wraps around the end of the buffer, the result is the free space plus
  the size of the port. In both cases it is more than the port can hold.\<close>

theorem available_size_overstated:
  assumes "port_ok (pok_ports s pid)" "\<not> po_full (pok_ports s pid)"
  shows "if po_empty (pok_ports s pid)
    then unat (pok_port_available_size pid s) = unat (po_size (pok_ports s pid)) - port_count (pok_ports s pid)
    else unat (po_size (pok_ports s pid)) < unat (pok_port_available_size pid s) \<and>
      unat (pok_port_available_size pid s) =
        (if po_off_b (pok_ports s pid) < po_off_e (pok_ports s pid) then 2 ^ 32 - port_count (pok_ports s pid)
         else unat (po_size (pok_ports s pid)) + (unat (po_size (pok_ports s pid)) - port_count (pok_ports s pid)))"
  using available_size_value [OF assms] .

lemma available_size_overstated_witness:
  "unat (pok_port_available_size 1 demo_filled) = 4294967292"
proof -
  have "\<not> po_empty (pok_ports demo_filled 1)" by (simp add: demo_filled_def)
  then show ?thesis using available_size_overstated [OF demo_filled_ok(1,2)] demo_filled_ok by simp
qed

text \<open>A write that is larger than the free space is accepted as long as the port is not full, and destroys
  what was in the port: afterwards it holds only as many bytes as there were in excess.\<close>

theorem port_write_overruns:
  assumes "port_ok (pok_ports s pid)" "\<not> po_full (pok_ports s pid)" "\<not> po_empty (pok_ports s pid)"
    and "unat sz \<le> unat (po_size (pok_ports s pid))" "port_room pid s < unat sz"
  shows "\<exists>s'. pok_port_write pid data sz s = Some (POK_ERRNO_OK, s') \<and>
    port_count (pok_ports s' pid) = unat sz - port_room pid s \<and>
    port_count (pok_ports s' pid) \<le> port_count (pok_ports s pid)"
proof -
  let ?p = "pok_ports s pid" let ?n = "unat (po_size ?p)" let ?b = "unat (po_off_b ?p)"
  let ?off = "(po_off_e ?p + sz) mod po_size ?p" let ?c = "port_count ?p"
  let ?p' = "?p\<lparr>po_off_e := ?off, po_full := (?off = po_off_b ?p), po_empty := False\<rparr>"
  have b: "?b < ?n" using assms(1) by (auto simp: port_ok_def)
  have c: "?c \<le> ?n" using port_count_le [OF assms(1)] .
  have "po_off_b ?p \<noteq> po_off_e ?p" using assms(1-3) by (auto simp: port_ok_def)
  then have lt: "?c < ?n" using assms(1,3) c unfolding port_count_def port_ok_def by (auto simp: word_unat_eq_iff)
  have "unat ?off = ring_at ?n ?b (?c + unat sz)" using port_off_write [OF assms(1,4)] .
  also have "?b + (?c + unat sz) = (?b + (unat sz - (?n - ?c))) + ?n" using assms(5) c by simp
  then have "ring_at ?n ?b (?c + unat sz) = ring_at ?n ?b (unat sz - (?n - ?c))"
    unfolding ring_at_def by (simp only: mod_add_self2)
  finally have off: "unat ?off = ring_at ?n ?b (unat sz - (?n - ?c))" .
  have "port_count ?p' = unat sz - (?n - ?c)" using port_countI [of ?p' "unat sz - (?n - ?c)"] off b assms(4,5) by simp
  then show ?thesis using port_write_eq [OF assms(1,2,4), of data] assms(4) c by auto
qed

lemma port_write_overruns_witness:
  "\<exists>s'. pok_port_write 1 (\<lambda>_. 65) 6 demo_filled = Some (POK_ERRNO_OK, s') \<and> port_count (pok_ports s' 1) = 2"
proof -
  have "\<not> po_empty (pok_ports demo_filled 1)" by (simp add: demo_filled_def)
  from port_write_overruns [OF demo_filled_ok(1,2) this, of 6 "\<lambda>_. 65"] show ?thesis using demo_filled_ok by auto
qed

text \<open>A port that was full and is read in part keeps refusing data: the reader makes room, but the port still
  reports no free space and rejects every write until it is empty.\<close>

theorem partly_read_port_stays_full:
  assumes "port_ok (pok_ports s pid)" "po_full (pok_ports s pid)" "0 < unat sz" "unat sz < port_count (pok_ports s pid)"
  shows "\<exists>d s'. pok_port_get pid buf sz s = Some (POK_ERRNO_OK, d, s') \<and>
    port_count (pok_ports s' pid) = port_count (pok_ports s pid) - unat sz \<and>
    pok_port_available_size pid s' = 0 \<and> pok_port_write pid data n s' = Some (POK_ERRNO_SIZE, s')"
proof -
  obtain d s' where g: "pok_port_get pid buf sz s = Some (POK_ERRNO_OK, d, s')" "port_ok (pok_ports s' pid)"
    "port_contents pid s' = drop (unat sz) (port_contents pid s)" "po_full (pok_ports s' pid)"
    using port_get_takes [OF assms(1,3), of buf] assms(2,4) by auto
  have "port_count (pok_ports s' pid) = port_count (pok_ports s pid) - unat sz"
    using arg_cong [OF g(3), of length] by simp
  moreover have "po_kind (pok_ports s' pid) = POK_PORT_KIND_QUEUEING" using g(2) by (simp add: port_ok_def)
  ultimately show ?thesis using g by (simp add: pok_port_available_size_def pok_port_write_def Let_def)
qed

lemma partly_read_port_stays_full_witness:
  "\<exists>s d s'. port_count (pok_ports s 1) = 8 \<and> pok_port_get 1 (\<lambda>_. 0) 6 s = Some (POK_ERRNO_OK, d, s') \<and>
     port_count (pok_ports s' 1) = 2 \<and> pok_port_write 1 (\<lambda>_. 65) 1 s' = Some (POK_ERRNO_SIZE, s')"
proof -
  define s where "s = upd_port 1 (\<lambda>p. p\<lparr>po_empty := False, po_full := True\<rparr>) demo_state"
  have "port_ok (pok_ports s 1)" "po_full (pok_ports s 1)" "port_count (pok_ports s 1) = 8"
    by (simp_all add: s_def port_ok_def port_count_def) (simp_all add: demo_port_def)
  then show ?thesis using partly_read_port_stays_full [of s 1 6 "\<lambda>_. 0" "\<lambda>_. 65" 1] by fastforce
qed

end
