(* ===== verification/Pok_Port_Ops.thy ===== *)
theory Pok_Port_Ops
  imports Pok_Port
begin

text \<open>
  The operations on ports in \<open>kernel/middleware/\<close>: creation, lookup by name, sending and receiving on queueing
  ports, reading and writing sampling ports, the status calls, the virtual ports, and the transfer of the
  output ports of a partition to their destinations (\<open>portflushall.c\<close>). Data moves between the port
  buffers and the address space of the caller, given by its address.
\<close>

subsection \<open>Lookup by name\<close>

definition port_name :: "pok_config \<Rightarrow> nat \<Rightarrow> nat \<Rightarrow> u8" where
  "port_name c i k = (let n = pok_ports_names c i in if k < length n then n ! k else 0)"

fun port_id_loop :: "pok_config \<Rightarrow> u8 \<Rightarrow> (nat \<Rightarrow> u8) \<Rightarrow> nat \<Rightarrow> nat list \<Rightarrow> (pok_ret_t \<times> nat option) option" where
  "port_id_loop c kind name part [] = Some (POK_ERRNO_NOTFOUND, None)"
| "port_id_loop c kind name part (i # is) = do {
     r \<leftarrow> pok_strcmp name (port_name c i);
     if r = 0 \<and> pok_ports_kind c i = kind
     then if \<not> pok_own_port c part i then Some (POK_ERRNO_PORT, None) else Some (POK_ERRNO_OK, Some i)
     else port_id_loop c kind name part is
   }"

definition pok_port_queueing_id :: "pok_config \<Rightarrow> (nat \<Rightarrow> u8) \<Rightarrow> kstate \<Rightarrow> (pok_ret_t \<times> nat option) option" where
  "pok_port_queueing_id c name s =
     port_id_loop c POK_PORT_KIND_QUEUEING name (pok_current_partition s) [0..<NB_PORTS c]"

definition pok_port_sampling_id :: "pok_config \<Rightarrow> (nat \<Rightarrow> u8) \<Rightarrow> kstate \<Rightarrow> (pok_ret_t \<times> nat option) option" where
  "pok_port_sampling_id c name s =
     port_id_loop c POK_PORT_KIND_SAMPLING name (pok_current_partition s) [0..<NB_PORTS c]"

definition pok_port_virtual_id :: "pok_config \<Rightarrow> (nat \<Rightarrow> u8) \<Rightarrow> kstate \<Rightarrow> (pok_ret_t \<times> nat option) option" where
  "pok_port_virtual_id c name s =
     port_id_loop c POK_PORT_KIND_VIRTUAL name (pok_current_partition s) [0..<NB_PORTS c]"

subsection \<open>Creation\<close>

definition POK_ERROR_KIND_PARTITION_INIT :: u32 where
  "POK_ERROR_KIND_PARTITION_INIT = 31"

definition port_setup :: "u32 \<Rightarrow> u32 \<Rightarrow> nat \<Rightarrow> u8 \<Rightarrow> u8 \<Rightarrow> pok_port_t \<Rightarrow> pok_port_t" where
  "port_setup idx sz part direction kind p = p\<lparr>po_index := idx, po_off_b := 0, po_off_e := 0, po_size := sz,
     po_full := False, po_partition := part, po_direction := direction, po_ready := True, po_kind := kind\<rparr>"

definition pok_port_create :: "pok_config \<Rightarrow> (nat \<Rightarrow> u8) \<Rightarrow> u32 \<Rightarrow> u8 \<Rightarrow> u8 \<Rightarrow> kstate \<Rightarrow>
    (pok_ret_t \<times> nat option \<times> kstate) option" where
  "pok_port_create c name sz direction kind s =
     (let config_error = do {
            s1 \<leftarrow> pok_partition_error c (pok_current_partition s) POK_ERROR_KIND_PARTITION_CONFIGURATION s;
            Some (POK_ERRNO_PORT, None, s1)
          }
      in if sz > POK_PORT_MAX_SIZE then config_error
         else if sz > q_available_size (pok_queue s) then config_error
         else if direction \<noteq> POK_PORT_DIRECTION_IN \<and> direction \<noteq> POK_PORT_DIRECTION_OUT then config_error
         else if kind \<noteq> POK_PORT_KIND_SAMPLING \<and> kind \<noteq> POK_PORT_KIND_QUEUEING then Some (POK_ERRNO_EINVAL, None, s)
         else do {
           (ret, gid_opt) \<leftarrow> (if kind = POK_PORT_KIND_SAMPLING then pok_port_sampling_id c name s
                            else pok_port_queueing_id c name s);
           if ret \<noteq> POK_ERRNO_OK
           then do {
             s1 \<leftarrow> pok_partition_error c (pok_current_partition s) POK_ERROR_KIND_PARTITION_INIT s;
             Some (ret, None, s1)
           }
           else do {
             gid \<leftarrow> gid_opt;
             if \<not> pok_own_port c (pok_current_partition s) gid then Some (POK_ERRNO_PORT, None, s)
             else if po_ready (pok_ports s gid) then Some (POK_ERRNO_EXISTS, Some gid, s)
             else let q = pok_queue s;
                      s1 = upd_port gid (port_setup (q_size q - q_available_size q) sz (pok_current_partition s) direction kind) s
                  in Some (POK_ERRNO_OK, Some gid, s1\<lparr>pok_queue := q\<lparr>q_available_size := q_available_size q - sz\<rparr>\<rparr>)
           }
         })"

definition port_lock_attr :: "pok_config \<Rightarrow> pok_lockobj_attr_t" where
  "port_lock_attr c = (junk_lock_attr c)\<lparr>la_kind := POK_LOCKOBJ_KIND_EVENT, la_locking_policy := POK_LOCKOBJ_POLICY_STANDARD\<rparr>"

definition pok_port_queueing_create :: "pok_config \<Rightarrow> (nat \<Rightarrow> u8) \<Rightarrow> u32 \<Rightarrow> u8 \<Rightarrow> pok_queueing_discipline_t \<Rightarrow>
    kstate \<Rightarrow> (pok_ret_t \<times> nat option \<times> kstate) option" where
  "pok_port_queueing_create c name sz direction discipline s =
     (if discipline \<noteq> POK_QUEUEING_DISCIPLINE_FIFO then Some (POK_ERRNO_DISCIPLINE, None, s)
      else do {
        (ret, id_opt, s1) \<leftarrow> pok_port_create c name sz direction POK_PORT_KIND_QUEUEING s;
        if ret = POK_ERRNO_EXISTS then Some (POK_ERRNO_OK, id_opt, s1)
        else if ret \<noteq> POK_ERRNO_OK then Some (ret, id_opt, s1)
        else do {
          gid \<leftarrow> id_opt;
          let s2 = upd_port gid (\<lambda>p. p\<lparr>po_discipline := discipline\<rparr>) s1;
          let (ret, s3) = pok_lockobj_create (PortLock gid) (port_lock_attr c) s2;
          Some (ret, Some gid, s3)
        }
      })"

definition pok_port_sampling_create :: "pok_config \<Rightarrow> (nat \<Rightarrow> u8) \<Rightarrow> u32 \<Rightarrow> u8 \<Rightarrow> u64 \<Rightarrow>
    kstate \<Rightarrow> (pok_ret_t \<times> nat option \<times> kstate) option" where
  "pok_port_sampling_create c name sz direction refresh s = do {
     (ret, id_opt, s1) \<leftarrow> pok_port_create c name sz direction POK_PORT_KIND_SAMPLING s;
     if ret \<noteq> POK_ERRNO_OK then Some (ret, id_opt, s1)
     else do {
       gid \<leftarrow> id_opt;
       let s2 = upd_port gid (\<lambda>p. p\<lparr>po_refresh := refresh, po_last_receive := 0\<rparr>) s1;
       let (ret, s3) = pok_lockobj_create (PortLock gid) (port_lock_attr c) s2;
       Some (ret, Some gid, s3)
     }
   }"

subsection \<open>Queueing ports\<close>

text \<open>The loop that waits for free space, and the one that waits for data; a result names the error with
  which the call returns.\<close>

partial_function (option) send_wait ::
  "pok_config \<Rightarrow> nat \<Rightarrow> u32 \<Rightarrow> u64 \<Rightarrow> kstate \<Rightarrow> (pok_ret_t option \<times> kstate) option" where
  "send_wait c pid len timeout s =
     (if len > pok_port_available_size pid s
      then if timeout = 0
           then do { (r, s1) \<leftarrow> pok_lockobj_unlock c (PortLock pid) s; Some (Some POK_ERRNO_FULL, s1) }
           else do {
             (ret, s1) \<leftarrow> pok_lockobj_eventwait c (PortLock pid) timeout s;
             if ret \<noteq> POK_ERRNO_OK
             then do { (r, s2) \<leftarrow> pok_lockobj_unlock c (PortLock pid) s1; Some (Some ret, s2) }
             else send_wait c pid len timeout s1
           }
      else Some (None, s))"

definition pok_port_queueing_send ::
  "pok_config \<Rightarrow> nat \<Rightarrow> u32 \<Rightarrow> u32 \<Rightarrow> u64 \<Rightarrow> kstate \<Rightarrow> (pok_ret_t \<times> kstate) option" where
  "pok_port_queueing_send c pid data len timeout s =
     (let p = pok_ports s pid; part = pok_current_partition s in
      if pid > NB_PORTS c then Some (POK_ERRNO_EINVAL, s)
      else if len \<le> 0 then Some (POK_ERRNO_SIZE, s)
      else if data = 0 then Some (POK_ERRNO_EINVAL, s)
      else if \<not> pok_own_port c part pid then Some (POK_ERRNO_PORT, s)
      else if \<not> po_ready p then Some (POK_ERRNO_PORT, s)
      else if len > po_size p then Some (POK_ERRNO_SIZE, s)
      else if po_direction p \<noteq> POK_PORT_DIRECTION_OUT then Some (POK_ERRNO_DIRECTION, s)
      else if po_partition p \<noteq> part then Some (POK_ERRNO_EPERM, s)
      else if po_kind p \<noteq> POK_PORT_KIND_QUEUEING then Some (POK_ERRNO_KIND, s)
      else do {
        (ret, s1) \<leftarrow> pok_lockobj_lock c (PortLock pid) None s;
        if ret \<noteq> POK_ERRNO_OK then Some (ret, s1)
        else do {
          (early, s2) \<leftarrow> send_wait c pid len (if timeout \<noteq> 0 then timeout + pok_tick_counter s1 else timeout) s1;
          (case early of
             Some ret \<Rightarrow> Some (ret, s2)
           | None \<Rightarrow> do {
               (r, s3) \<leftarrow> pok_port_write pid (mem_view s2 data) len s2;
               (ret, s4) \<leftarrow> pok_lockobj_unlock c (PortLock pid) (upd_port pid (\<lambda>p. p\<lparr>po_must_be_flushed := True\<rparr>) s3);
               Some (ret, s4)
             })
        }
      })"

partial_function (option) receive_wait ::
  "pok_config \<Rightarrow> nat \<Rightarrow> u64 \<Rightarrow> kstate \<Rightarrow> (pok_ret_t option \<times> kstate) option" where
  "receive_wait c pid timeout s =
     (if po_empty (pok_ports s pid)
      then if timeout = 0
           then do { (r, s1) \<leftarrow> pok_lockobj_unlock c (PortLock pid) s; Some (Some POK_ERRNO_EMPTY, s1) }
           else do {
             (ret, s1) \<leftarrow> pok_lockobj_eventwait c (PortLock pid) timeout s;
             if ret \<noteq> POK_ERRNO_OK
             then do { (r, s2) \<leftarrow> pok_lockobj_unlock c (PortLock pid) s1; Some (Some ret, s2) }
             else receive_wait c pid timeout s1
           }
      else Some (None, s))"

text \<open>The call's result is the error code and the number of bytes stored in \<open>*len\<close>.\<close>

definition pok_port_queueing_receive ::
  "pok_config \<Rightarrow> nat \<Rightarrow> u64 \<Rightarrow> u32 \<Rightarrow> u32 \<Rightarrow> kstate \<Rightarrow> (pok_ret_t \<times> u32 \<times> kstate) option" where
  "pok_port_queueing_receive c pid timeout maxlen data s =
     (let p = pok_ports s pid; part = pok_current_partition s in
      if maxlen \<le> 0 then Some (POK_ERRNO_EINVAL, 0, s)
      else if pid > NB_PORTS c then Some (POK_ERRNO_EINVAL, 0, s)
      else if \<not> pok_own_port c part pid then Some (POK_ERRNO_PORT, 0, s)
      else if \<not> po_ready p then Some (POK_ERRNO_PORT, 0, s)
      else if po_kind p \<noteq> POK_PORT_KIND_QUEUEING then Some (POK_ERRNO_KIND, 0, s)
      else if po_direction p \<noteq> POK_PORT_DIRECTION_IN then Some (POK_ERRNO_DIRECTION, 0, s)
      else do {
        let toclean = (if maxlen > po_size p then po_size p else maxlen);
        let s0 = mem_put data (memset (mem_view s data) 0 0 (unat toclean)) (unat toclean) s;
        (ret, s1) \<leftarrow> pok_lockobj_lock c (PortLock pid) None s0;
        if ret \<noteq> POK_ERRNO_OK then Some (ret, 0, s1)
        else do {
          (early, s2) \<leftarrow> receive_wait c pid (if timeout > 0 then timeout + pok_tick_counter s0 else timeout) s1;
          (case early of
             Some ret \<Rightarrow> Some (ret, 0, s2)
           | None \<Rightarrow> do {
               let clen = pok_port_consumed_size pid s2;
               let rlen = (if maxlen > clen then clen else maxlen);
               (ret, buf, s3) \<leftarrow> pok_port_get pid (mem_view s2 data) rlen s2;
               let (len, s4) = (if ret = POK_ERRNO_OK then (rlen, mem_put data buf (unat rlen) s3) else (0, s3));
               (r, s5) \<leftarrow> pok_lockobj_unlock c (PortLock pid) s4;
               Some (POK_ERRNO_OK, len, s5)
             })
        }
      })"

text \<open>A status is the size, the direction and the number of waiting processes.\<close>

definition pok_port_queueing_status ::
  "pok_config \<Rightarrow> nat \<Rightarrow> kstate \<Rightarrow> pok_ret_t \<times> (u32 \<times> u8 \<times> u8) option" where
  "pok_port_queueing_status c pid s =
     (let p = pok_ports s pid in
      if pid > NB_PORTS c then (POK_ERRNO_EINVAL, None)
      else if \<not> pok_own_port c (pok_current_partition s) pid then (POK_ERRNO_PORT, None)
      else if \<not> po_ready p then (POK_ERRNO_EINVAL, None)
      else if po_kind p \<noteq> POK_PORT_KIND_QUEUEING then (POK_ERRNO_EINVAL, None)
      else if po_partition p \<noteq> pok_current_partition s then (POK_ERRNO_EINVAL, None)
      else (POK_ERRNO_OK, Some (po_size p, po_direction p, 0)))"

subsection \<open>Sampling ports\<close>

definition pok_check_ptr_in_partition :: "pok_config \<Rightarrow> nat \<Rightarrow> u32 \<Rightarrow> u32 \<Rightarrow> kstate \<Rightarrow> bool" where
  "pok_check_ptr_in_partition c pid ptr sz s =
     (if pid \<ge> NB_PARTITIONS c then False
      else let psize = p_size (pok_partitions s pid)
           in if sz > psize then False else if ptr \<le> psize - sz then True else False)"

definition sample_valid :: "pok_port_t \<Rightarrow> u64 \<Rightarrow> bool" where
  "sample_valid p now = (\<not> (po_last_receive p + po_refresh p < now))"

text \<open>The result of the lock operations is not looked at. The outputs are the length and the validity. The
  size the buffer is checked for is that of the port whose number is the partition's.\<close>

definition pok_port_sampling_read ::
  "pok_config \<Rightarrow> nat \<Rightarrow> u32 \<Rightarrow> kstate \<Rightarrow> (pok_ret_t \<times> (u32 \<times> bool) option \<times> kstate) option" where
  "pok_port_sampling_read c pid data s =
     (let p = pok_ports s pid in
      if data = 0 then Some (POK_ERRNO_EINVAL, None, s)
      else if pid > NB_PORTS c then Some (POK_ERRNO_EINVAL, None, s)
      else if \<not> pok_own_port c (pok_current_partition s) pid then Some (POK_ERRNO_PORT, None, s)
      else if \<not> po_ready p then Some (POK_ERRNO_PORT, None, s)
      else if po_kind p \<noteq> POK_PORT_KIND_SAMPLING then Some (POK_ERRNO_EINVAL, None, s)
      else if po_direction p \<noteq> POK_PORT_DIRECTION_IN then Some (POK_ERRNO_MODE, None, s)
      else do {
        (r, s1) \<leftarrow> pok_lockobj_lock c (PortLock pid) None s;
        let part = pok_current_partition s1;
        let ptr = data - p_base_addr (pok_partitions s1 part);
        let sz = po_size (pok_ports s1 part);
        if \<not> pok_check_ptr_in_partition c part ptr sz s1 then Some (POK_ERRNO_EINVAL, None, s1)
        else do {
          (ret, buf, s2) \<leftarrow> pok_port_get (pid mod 256) (mem_view s1 data) (po_size (pok_ports s1 pid)) s1;
          if ret = POK_ERRNO_EMPTY
          then do {
            (r, s3) \<leftarrow> pok_lockobj_unlock c (PortLock pid) s2;
            Some (POK_ERRNO_EMPTY, Some (0, False), s3)
          }
          else do {
            let s3 = mem_put data buf (unat (po_size (pok_ports s1 pid))) s2;
            let valid = sample_valid (pok_ports s3 pid) (pok_tick_counter s3);
            let len = po_size (pok_ports s3 pid);
            (r, s4) \<leftarrow> pok_lockobj_unlock c (PortLock pid) s3;
            Some (POK_ERRNO_OK, Some (len, valid), s4)
          }
        }
      })"

definition pok_port_sampling_write ::
  "pok_config \<Rightarrow> nat \<Rightarrow> u32 \<Rightarrow> u32 \<Rightarrow> kstate \<Rightarrow> (pok_ret_t \<times> kstate) option" where
  "pok_port_sampling_write c pid data len s =
     (let p = pok_ports s pid in
      if data = 0 then Some (POK_ERRNO_EINVAL, s)
      else if pid > NB_PORTS c then Some (POK_ERRNO_EINVAL, s)
      else if \<not> pok_own_port c (pok_current_partition s) pid then Some (POK_ERRNO_PORT, s)
      else if \<not> po_ready p then Some (POK_ERRNO_EINVAL, s)
      else if len > po_size p then Some (POK_ERRNO_EINVAL, s)
      else if po_direction p \<noteq> POK_PORT_DIRECTION_OUT then Some (POK_ERRNO_DIRECTION, s)
      else do {
        (r, s1) \<leftarrow> pok_lockobj_lock c (PortLock pid) None s;
        (r, s2) \<leftarrow> pok_port_write pid (mem_view s1 data) len s1;
        (r, s3) \<leftarrow> pok_lockobj_unlock c (PortLock pid) s2;
        Some (POK_ERRNO_OK, upd_port pid (\<lambda>p. p\<lparr>po_must_be_flushed := True\<rparr>) s3)
      })"

definition pok_port_sampling_status ::
  "pok_config \<Rightarrow> nat \<Rightarrow> kstate \<Rightarrow> pok_ret_t \<times> (u32 \<times> u8 \<times> u64 \<times> bool) option" where
  "pok_port_sampling_status c pid s =
     (let p = pok_ports s pid in
      if pid > NB_PORTS c then (POK_ERRNO_EINVAL, None)
      else if \<not> pok_own_port c (pok_current_partition s) pid then (POK_ERRNO_PORT, None)
      else if \<not> po_ready p then (POK_ERRNO_EINVAL, None)
      else if po_kind p \<noteq> POK_PORT_KIND_SAMPLING then (POK_ERRNO_EINVAL, None)
      else if po_partition p \<noteq> pok_current_partition s then (POK_ERRNO_EINVAL, None)
      else (POK_ERRNO_OK, Some (po_size p, po_direction p, po_refresh p, sample_valid p (pok_tick_counter s))))"

subsection \<open>Virtual ports\<close>

definition virtual_port_ok :: "pok_config \<Rightarrow> nat \<Rightarrow> kstate \<Rightarrow> bool" where
  "virtual_port_ok c pid s = (\<not> pid \<ge> NB_PORTS c \<and> pok_own_port c (pok_current_partition s) pid \<and>
     pok_ports_kind c pid = POK_PORT_KIND_VIRTUAL)"

definition pok_port_virtual_nb_destinations :: "pok_config \<Rightarrow> nat \<Rightarrow> kstate \<Rightarrow> pok_ret_t \<times> u32 option" where
  "pok_port_virtual_nb_destinations c pid s =
     (if virtual_port_ok c pid s then (POK_ERRNO_OK, Some (of_nat (pok_ports_nb_destinations c pid))) else (POK_ERRNO_PORT, None))"

definition pok_port_virtual_destination :: "pok_config \<Rightarrow> nat \<Rightarrow> u32 \<Rightarrow> kstate \<Rightarrow> pok_ret_t \<times> u32 option" where
  "pok_port_virtual_destination c pid n s =
     (if \<not> virtual_port_ok c pid s then (POK_ERRNO_PORT, None)
      else if unat n > pok_ports_nb_destinations c pid then (POK_ERRNO_PORT, None)
      else (POK_ERRNO_OK, Some (of_nat (pok_ports_destinations c pid (unat n)))))"

definition pok_port_virtual_get_global :: "pok_config \<Rightarrow> nat \<Rightarrow> kstate \<Rightarrow> pok_ret_t \<times> nat option" where
  "pok_port_virtual_get_global c local s =
     (if virtual_port_ok c local s then (POK_ERRNO_OK, Some (pok_local_ports_to_global_ports c local)) else (POK_ERRNO_PORT, None))"

definition pok_port_virtual_node :: "pok_config \<Rightarrow> nat \<Rightarrow> pok_ret_t \<times> nat" where
  "pok_port_virtual_node c port = (POK_ERRNO_OK, pok_ports_nodes c port)"

definition pok_node_mac_addr :: "pok_config \<Rightarrow> nat \<Rightarrow> (nat \<Rightarrow> u8) \<Rightarrow> pok_ret_t \<times> (nat \<Rightarrow> u8)" where
  "pok_node_mac_addr c node_id addr =
     (POK_ERRNO_OK, fold (\<lambda>i a. a(i := pok_nodes_addr c node_id i)) [0..<6] addr)"

subsection \<open>Transfer to the destinations\<close>

definition flush_destination :: "pok_config \<Rightarrow> nat \<Rightarrow> u32 \<Rightarrow> nat \<Rightarrow> kstate \<Rightarrow> kstate option" where
  "flush_destination c local len j s =
     (let global_dest = pok_ports_destinations c local j;
          local_dest = pok_global_ports_to_local_ports c global_dest
      in if \<not> po_ready (pok_ports s local_dest) then Some s
         else if po_direction (pok_ports s local_dest) \<noteq> POK_PORT_DIRECTION_IN then Some s
         else do {
           (r, s1) \<leftarrow> pok_port_write local_dest (pok_buffer_flush s) len s;
           (r, s2) \<leftarrow> pok_lockobj_eventbroadcast c (PortLock local_dest) s1;
           Some s2
         })"

definition flush_port :: "pok_config \<Rightarrow> nat \<Rightarrow> kstate \<Rightarrow> kstate option" where
  "flush_port c local s =
     (let p = pok_ports s local in
      if po_direction p \<noteq> POK_PORT_DIRECTION_OUT then Some s
      else if po_empty p then Some s
      else if \<not> po_must_be_flushed p then Some s
      else do {
        let len = pok_port_consumed_size local s;
        (ret, buf, s1) \<leftarrow> pok_port_get local (pok_buffer_flush s) len s;
        if ret \<noteq> POK_ERRNO_OK then Some s1
        else do {
          s2 \<leftarrow> for_loop [0..<pok_ports_nb_destinations c local] (flush_destination c local len) (s1\<lparr>pok_buffer_flush := buf\<rparr>);
          (r, s3) \<leftarrow> pok_lockobj_eventbroadcast c (PortLock local) s2;
          Some (upd_port local (\<lambda>p. p\<lparr>po_must_be_flushed := False\<rparr>) s3)
        }
      })"

definition pok_port_flush_partition :: "pok_config \<Rightarrow> nat \<Rightarrow> kstate \<Rightarrow> kstate option" where
  "pok_port_flush_partition c pid s =
     for_loop [0..<pok_ports_nb_ports_by_partition c pid] (\<lambda>i. flush_port c (pok_ports_by_partition c pid i)) s"

definition pok_port_flushall :: "pok_config \<Rightarrow> kstate \<Rightarrow> kstate option" where
  "pok_port_flushall c s = for_loop [0..<NB_PARTITIONS c] (\<lambda>p s.
     if p_mode (pok_partitions s p) = POK_PARTITION_MODE_NORMAL \<or> p_mode (pok_partitions s p) = POK_PARTITION_MODE_IDLE
     then pok_port_flush_partition c p s else Some s) s"

subsection \<open>The lock of a port\<close>

lemma upd_port_lock [simp]:
  "pok_ports (upd_lock (PortLock i) f s) j =
     (if j = i then (pok_ports s i)\<lparr>po_lock := f (po_lock (pok_ports s i))\<rparr> else pok_ports s j)"
  "pok_queue (upd_lock r f s) = pok_queue s" "ks_mem (upd_lock r f s) = ks_mem s"
  "pok_buffer_flush (upd_lock r f s) = pok_buffer_flush s"
  by (simp_all add: upd_lock_def split: lockref.splits)

lemma port_lock_at: "lock_at (PortLock i) s = po_lock (pok_ports s i)"
  by (simp add: lock_at_def)

lemma port_lock_irrelevant [simp]:
  "port_ok (p\<lparr>po_lock := l\<rparr>) = port_ok p" "port_bytes (p\<lparr>po_lock := l\<rparr>) q = port_bytes p q"
  "port_count (p\<lparr>po_lock := l\<rparr>) = port_count p"
  "port_ok (p\<lparr>po_must_be_flushed := b\<rparr>) = port_ok p" "port_bytes (p\<lparr>po_must_be_flushed := b\<rparr>) q = port_bytes p q"
  "port_count (p\<lparr>po_must_be_flushed := b\<rparr>) = port_count p"
  by (simp_all add: port_ok_def port_bytes_def port_count_def)

text \<open>A port lock that is available and that nobody uses.\<close>

definition port_lock_free :: "pok_config \<Rightarrow> nat \<Rightarrow> kstate \<Rightarrow> bool" where
  "port_lock_free c i s =
     (let l = po_lock (pok_ports s i) in
        lock_inv c l \<and> spins_free l \<and> l_kind l = POK_LOCKOBJ_KIND_EVENT \<and> l_current_value l = 1 \<and> event_waiters c l = [])"

lemma port_lock_take:
  assumes "port_lock_free c i s"
  shows "pok_lockobj_lock c (PortLock i) None s =
    Some (POK_ERRNO_OK, upd_lock (PortLock i) (\<lambda>l. l\<lparr>l_current_value := 0\<rparr>) s)"
proof -
  let ?l = "lock_at (PortLock i) s"
  have l: "lock_inv c ?l" "\<not> l_spin ?l" "l_current_value ?l = 1"
    using assms by (simp_all add: port_lock_free_def port_lock_at Let_def spins_free_def)
  have "pok_lockobj_fifo_is_empty (l_fifo ?l)" using queue_empty [of c "l_fifo ?l"] l by (simp add: lock_inv_def)
  then have "pok_lockobj_lock c (PortLock i) None s =
      Some (POK_ERRNO_OK, upd_lock (PortLock i) (\<lambda>l. l\<lparr>l_current_value := l_current_value l - 1\<rparr>) s)"
    using lock_fast [of "PortLock i" s c None] l by (simp add: lock_inv_def)
  also have "upd_lock (PortLock i) (\<lambda>l. l\<lparr>l_current_value := l_current_value l - 1\<rparr>) s =
      upd_lock (PortLock i) (\<lambda>l. l\<lparr>l_current_value := 0\<rparr>) s"
    by (rule upd_lock_cong) (use l(3) in simp)
  finally show ?thesis .
qed

lemma unlock_nobody:
  assumes "lock_inv c (lock_at r s)" "\<not> l_spin (lock_at r s)" "waiters c (lock_at r s) = []"
  shows "pok_lockobj_unlock c r s = Some (POK_ERRNO_OK, upd_lock r (\<lambda>l. l\<lparr>l_current_value := released_value l\<rparr>) s)"
proof -
  obtain s1 where "SPIN_LOCK r s = Some s1" using assms(2) by (simp add: spin_simps)
  then show ?thesis using unlock_free [OF assms] assms(1) by (simp add: pok_lockobj_unlock_def lock_inv_def)
qed

lemma port_lock_release:
  assumes "port_lock_free c i s" "po_lock (pok_ports s' i) = (po_lock (pok_ports s i))\<lparr>l_current_value := 0\<rparr>"
  shows "pok_lockobj_unlock c (PortLock i) s' = Some (POK_ERRNO_OK, upd_lock (PortLock i) (\<lambda>_. po_lock (pok_ports s i)) s')"
proof -
  let ?l = "po_lock (pok_ports s i)"
  have l: "lock_inv c ?l" "\<not> l_spin ?l" "l_current_value ?l = 1"
    using assms(1) by (simp_all add: port_lock_free_def Let_def spins_free_def)
  then have w: "waiters c ?l = []" by (simp add: lock_inv_def)
  have "lock_inv c (lock_at (PortLock i) s')" "\<not> l_spin (lock_at (PortLock i) s')" "waiters c (lock_at (PortLock i) s') = []"
    using l w by (simp_all add: port_lock_at assms(2) lock_inv_def)
  from unlock_nobody [OF this]
  have "pok_lockobj_unlock c (PortLock i) s' =
      Some (POK_ERRNO_OK, upd_lock (PortLock i) (\<lambda>l. l\<lparr>l_current_value := released_value l\<rparr>) s')" .
  also have "upd_lock (PortLock i) (\<lambda>l. l\<lparr>l_current_value := released_value l\<rparr>) s' = upd_lock (PortLock i) (\<lambda>_. ?l) s'"
    by (rule upd_lock_cong) (use l(3) in \<open>cases ?l, simp add: port_lock_at assms(2) released_value_def\<close>)
  finally show ?thesis .
qed

lemma broadcast_nobody:
  assumes "port_lock_free c i s"
  shows "pok_lockobj_eventbroadcast c (PortLock i) s = Some (POK_ERRNO_OK, s)"
proof -
  let ?r = "PortLock i"
  have l: "queue_ok c (l_event_fifo (lock_at ?r s))" "event_waiters c (lock_at ?r s) = []" "\<not> l_eventspin (lock_at ?r s)"
    using assms by (simp_all add: port_lock_free_def Let_def port_lock_at lock_inv_def spins_free_def)
  let ?s1 = "upd_lock ?r (\<lambda>l. l\<lparr>l_eventspin := True\<rparr>) (spin_count_up s)"
  have "pok_lockobj_fifo_is_empty (l_event_fifo (lock_at ?r ?s1))" using queue_empty [OF l(1)] l(2) by simp
  then have "event_wake_all c ?r False ?s1 = Some (False, ?s1)" by (subst event_wake_all.simps) simp
  moreover have "upd_lock ?r (\<lambda>l. l\<lparr>l_eventspin := False\<rparr>) s = s"
    by (rule upd_lock_same) (use l(3) spin_false_same in blast)
  ultimately show ?thesis using l(3) by (simp add: pok_lockobj_eventbroadcast_def spin_simps)
qed

lemma port_lock_free_cong:
  "po_lock (pok_ports s' i) = po_lock (pok_ports s i) \<Longrightarrow> port_lock_free c i s' = port_lock_free c i s"
  by (simp add: port_lock_free_def)

subsection \<open>What a port operation changes\<close>

text \<open>The state differs in the record of port \<open>i\<close> and in the bytes of its slice of the queue at most.\<close>

definition port_area :: "pok_port_t \<Rightarrow> nat set" where
  "port_area p = {unat (po_index p)..<unat (po_index p) + unat (po_size p)}"

definition port_frame :: "nat \<Rightarrow> kstate \<Rightarrow> kstate \<Rightarrow> bool" where
  "port_frame i s s' =
     (\<exists>p q. s' = s\<lparr>pok_ports := (pok_ports s)(i := p), pok_queue := (pok_queue s)\<lparr>q_data := q\<rparr>\<rparr> \<and>
        po_lock p = po_lock (pok_ports s i) \<and> po_index p = po_index (pok_ports s i) \<and> po_size p = po_size (pok_ports s i) \<and>
        po_kind p = po_kind (pok_ports s i) \<and> po_direction p = po_direction (pok_ports s i) \<and>
        po_ready p = po_ready (pok_ports s i) \<and> po_partition p = po_partition (pok_ports s i) \<and>
        (\<forall>x. x \<notin> port_area (pok_ports s i) \<longrightarrow> q x = q_data (pok_queue s) x))"

lemma port_frameI:
  assumes "s' = upd_port i f (queue_put q s)"
    and "po_lock (f (pok_ports s i)) = po_lock (pok_ports s i)" "po_index (f (pok_ports s i)) = po_index (pok_ports s i)"
    "po_size (f (pok_ports s i)) = po_size (pok_ports s i)" "po_kind (f (pok_ports s i)) = po_kind (pok_ports s i)"
    "po_direction (f (pok_ports s i)) = po_direction (pok_ports s i)" "po_ready (f (pok_ports s i)) = po_ready (pok_ports s i)"
    "po_partition (f (pok_ports s i)) = po_partition (pok_ports s i)"
    and "\<And>x. x \<notin> port_area (pok_ports s i) \<Longrightarrow> q x = q_data (pok_queue s) x"
  shows "port_frame i s s'"
  unfolding port_frame_def
  by (rule exI [of _ "f (pok_ports s i)"], rule exI [of _ q]) (use assms in \<open>simp add: upd_port_def queue_put_def\<close>)

text \<open>A write that fits, with its frame.\<close>

lemma port_write_frame:
  assumes "port_ok (pok_ports s pid)" "\<not> po_full (pok_ports s pid)" "0 < unat sz" "unat sz \<le> port_room pid s"
  shows "\<exists>s'. pok_port_write pid data sz s = Some (POK_ERRNO_OK, s') \<and> port_ok (pok_ports s' pid) \<and>
    \<not> po_empty (pok_ports s' pid) \<and> po_must_be_flushed (pok_ports s' pid) = po_must_be_flushed (pok_ports s pid) \<and>
    port_contents pid s' = port_contents pid s @ map data [0..<unat sz] \<and> port_frame pid s s'"
proof -
  let ?p = "pok_ports s pid"
  have le: "unat sz \<le> unat (po_size ?p)" using assms(4) by simp
  obtain s' where s': "pok_port_write pid data sz s = Some (POK_ERRNO_OK, s')" "port_ok (pok_ports s' pid)"
    "port_contents pid s' = port_contents pid s @ map data [0..<unat sz]"
    using port_write_appends [OF assms, of data] by blast
  note eq = port_write_eq [OF assms(1,2) le, of data]
  have e: "unat (po_off_e ?p) < unat (po_size ?p)" using assms(1) by (simp add: port_ok_def)
  have out: "x \<notin> port_area ?p \<Longrightarrow> ring_in (unat (po_index ?p)) (unat (po_size ?p)) (unat (po_off_e ?p)) data (unat sz)
      (q_data (pok_queue s)) x = q_data (pok_queue s) x" for x
    using ring_in_outside [OF le e, of x "unat (po_index ?p)"] by (auto simp: port_area_def)
  have "port_frame pid s s'"
    by (rule port_frameI [where q = "ring_in (unat (po_index ?p)) (unat (po_size ?p)) (unat (po_off_e ?p)) data (unat sz)
          (q_data (pok_queue s))" and f = "\<lambda>p. p\<lparr>po_off_e := (po_off_e ?p + sz) mod po_size ?p,
        po_full := ((po_off_e ?p + sz) mod po_size ?p = po_off_b p), po_empty := False\<rparr>"])
      (use s'(1) eq in simp, simp_all add: out)
  moreover have "\<not> po_empty (pok_ports s' pid)" "po_must_be_flushed (pok_ports s' pid) = po_must_be_flushed ?p"
    using s'(1) eq by auto
  ultimately show ?thesis using s' by blast
qed

lemma port_get_frame:
  assumes "port_ok (pok_ports s pid)" "0 < unat sz" "unat sz \<le> port_count (pok_ports s pid)"
  shows "\<exists>d s'. pok_port_get pid data sz s = Some (POK_ERRNO_OK, d, s') \<and> port_ok (pok_ports s' pid) \<and>
    port_contents pid s' = drop (unat sz) (port_contents pid s) \<and>
    (\<forall>k. d k = (if k < unat sz then port_contents pid s ! k else data k)) \<and>
    po_must_be_flushed (pok_ports s' pid) = po_must_be_flushed (pok_ports s pid) \<and> port_frame pid s s'"
proof -
  let ?p = "pok_ports s pid"
  have ne: "\<not> po_empty ?p" using port_count_0 [OF assms(1)] assms(2,3) by auto
  have le: "unat sz \<le> unat (po_size ?p)" using assms(3) port_count_le [OF assms(1)] by simp
  obtain d s' where s': "pok_port_get pid data sz s = Some (POK_ERRNO_OK, d, s')" "port_ok (pok_ports s' pid)"
    "port_contents pid s' = drop (unat sz) (port_contents pid s)"
    "\<forall>k. d k = (if k < unat sz then port_contents pid s ! k else data k)"
    using port_get_takes [OF assms, of data] by blast
  note eq = port_get_eq [OF assms(1) ne le, of data]
  have "queue_put (q_data (pok_queue s)) s = s" by (simp add: queue_put_def)
  then have "port_frame pid s s'"
    by (intro port_frameI [where q = "q_data (pok_queue s)" and f = "\<lambda>p. p\<lparr>po_off_b := (po_off_b ?p + sz) mod po_size ?p,
        po_full := (po_full p \<and> (po_off_b ?p + sz) mod po_size ?p \<noteq> po_off_e p),
        po_empty := ((po_off_b ?p + sz) mod po_size ?p = po_off_e p)\<rparr>"])
      (use s'(1) eq in simp, simp_all)
  moreover have "po_must_be_flushed (pok_ports s' pid) = po_must_be_flushed ?p" using s'(1) eq by auto
  ultimately show ?thesis using s' by blast
qed

lemma port_frameD:
  assumes "port_frame i s s'"
  shows "j \<noteq> i \<Longrightarrow> pok_ports s' j = pok_ports s j" "po_lock (pok_ports s' j) = po_lock (pok_ports s j)"
    "po_index (pok_ports s' j) = po_index (pok_ports s j)" "po_size (pok_ports s' j) = po_size (pok_ports s j)"
    "po_kind (pok_ports s' j) = po_kind (pok_ports s j)" "po_direction (pok_ports s' j) = po_direction (pok_ports s j)"
    "po_ready (pok_ports s' j) = po_ready (pok_ports s j)" "po_partition (pok_ports s' j) = po_partition (pok_ports s j)"
    "pok_threads s' = pok_threads s" "pok_partitions s' = pok_partitions s" "ks_mem s' = ks_mem s"
    "pok_current_partition s' = pok_current_partition s" "pok_tick_counter s' = pok_tick_counter s"
    "pok_buffer_flush s' = pok_buffer_flush s" "current_threads s' = current_threads s" "proc_id s' = proc_id s"
    "spinlocks s' = spinlocks s"
    "x \<notin> port_area (pok_ports s i) \<Longrightarrow> q_data (pok_queue s') x = q_data (pok_queue s) x"
  using assms by (auto simp: port_frame_def fun_upd_apply split: if_splits)

text \<open>Ports with disjoint slices do not see each other's operations.\<close>

lemma port_frame_other:
  assumes "port_frame i s s'" "j \<noteq> i" "port_area (pok_ports s i) \<inter> port_area (pok_ports s j) = {}" "port_ok (pok_ports s j)"
  shows "port_contents j s' = port_contents j s"
proof -
  let ?p = "pok_ports s j"
  have p: "pok_ports s' j = ?p" using port_frameD(1) [OF assms(1,2)] .
  have b: "unat (po_off_b ?p) < unat (po_size ?p)" using assms(4) by (simp add: port_ok_def)
  have "unat (po_index ?p) + ring_at (unat (po_size ?p)) (unat (po_off_b ?p)) k \<in> port_area ?p" for k
    using ring_at_less [OF b] by (simp add: port_area_def)
  then have "q_data (pok_queue s') (unat (po_index ?p) + ring_at (unat (po_size ?p)) (unat (po_off_b ?p)) k) =
      q_data (pok_queue s) (unat (po_index ?p) + ring_at (unat (po_size ?p)) (unat (po_off_b ?p)) k)" for k
    using port_frameD(18) [OF assms(1)] assms(3) by blast
  then show ?thesis by (simp add: p port_bytes_def)
qed

subsection \<open>Sending, transferring, receiving\<close>

lemma consumed_size_count: "port_ok (pok_ports s pid) \<Longrightarrow> unat (pok_port_consumed_size pid s) = port_count (pok_ports s pid)"
proof -
  let ?p = "pok_ports s pid"
  assume a: "port_ok ?p"
  then have "unat (po_off_b ?p) < unat (po_size ?p)" "unat (po_off_e ?p) < unat (po_size ?p)" "unat (po_size ?p) \<le> 1024"
    by (auto simp: port_ok_def)
  then show ?thesis
    by (simp add: pok_port_consumed_size_def Let_def port_count_def unat_sub_le unat_add_small word_less_nat_alt)
qed

lemma consumed_size_upd [simp]:
  "pok_port_consumed_size pid (upd_lock (PortLock i) f s) = pok_port_consumed_size pid s"
  "pok_port_available_size pid (upd_lock (PortLock i) f s) = pok_port_available_size pid s"
  by (simp_all add: pok_port_consumed_size_def pok_port_available_size_def Let_def)

lemma mem_view_put: "n \<le> 4294967296 \<Longrightarrow> i < n \<Longrightarrow> mem_view (mem_put a f n s) a i = f i"
  by (simp add: mem_view_def mem_put_def unsigned_of_nat take_bit_nat_eq_self)

lemma mem_put_fields [simp]:
  "pok_ports (mem_put a f n s) = pok_ports s" "pok_queue (mem_put a f n s) = pok_queue s"
  "pok_current_partition (mem_put a f n s) = pok_current_partition s" "pok_tick_counter (mem_put a f n s) = pok_tick_counter s"
  "lock_at r (mem_put a f n s) = lock_at r s" "POK_SCHED_CURRENT_THREAD (mem_put a f n s) = POK_SCHED_CURRENT_THREAD s"
  "pok_threads (mem_put a f n s) = pok_threads s" "pok_partitions (mem_put a f n s) = pok_partitions s"
  by (simp_all add: mem_put_def lock_at_def POK_SCHED_CURRENT_THREAD_def split: lockref.splits)

text \<open>An operation between the taking and the release of the port's lock.\<close>

lemma port_frame_locked:
  assumes "port_frame i (upd_lock (PortLock i) f s) s'"
    and "\<And>p. po_lock (g p) = po_lock p" "\<And>p. po_index (g p) = po_index p" "\<And>p. po_size (g p) = po_size p"
    "\<And>p. po_kind (g p) = po_kind p" "\<And>p. po_direction (g p) = po_direction p" "\<And>p. po_ready (g p) = po_ready p"
    "\<And>p. po_partition (g p) = po_partition p"
  shows "port_frame i s (upd_lock (PortLock i) (\<lambda>_. po_lock (pok_ports s i)) (upd_port i g s'))"
proof -
  let ?s1 = "upd_lock (PortLock i) f s"
  obtain p q where s': "s' = ?s1\<lparr>pok_ports := (pok_ports ?s1)(i := p), pok_queue := (pok_queue ?s1)\<lparr>q_data := q\<rparr>\<rparr>"
    "po_index p = po_index (pok_ports s i)" "po_size p = po_size (pok_ports s i)"
    "po_kind p = po_kind (pok_ports s i)" "po_direction p = po_direction (pok_ports s i)"
    "po_ready p = po_ready (pok_ports s i)" "po_partition p = po_partition (pok_ports s i)"
    "\<forall>x. x \<notin> port_area (pok_ports s i) \<longrightarrow> q x = q_data (pok_queue s) x"
    using assms(1) by (auto simp: port_frame_def port_area_def)
  have "upd_lock (PortLock i) (\<lambda>_. po_lock (pok_ports s i)) (upd_port i g s') =
      s\<lparr>pok_ports := (pok_ports s)(i := (g p)\<lparr>po_lock := po_lock (pok_ports s i)\<rparr>), pok_queue := (pok_queue s)\<lparr>q_data := q\<rparr>\<rparr>"
    by (simp add: s'(1) upd_lock_def upd_port_def)
  then show ?thesis unfolding port_frame_def
    by (intro exI [of _ "(g p)\<lparr>po_lock := po_lock (pok_ports s i)\<rparr>"] exI [of _ q]) (use s' assms(2-) in simp)
qed

definition send_allowed :: "pok_config \<Rightarrow> nat \<Rightarrow> u32 \<Rightarrow> kstate \<Rightarrow> bool" where
  "send_allowed c pid data s =
     (let p = pok_ports s pid in pid \<le> NB_PORTS c \<and> data \<noteq> 0 \<and> pok_own_port c (pok_current_partition s) pid \<and> po_ready p \<and>
        po_direction p = POK_PORT_DIRECTION_OUT \<and> po_partition p = pok_current_partition s)"

definition receive_allowed :: "pok_config \<Rightarrow> nat \<Rightarrow> kstate \<Rightarrow> bool" where
  "receive_allowed c pid s =
     (let p = pok_ports s pid in pid \<le> NB_PORTS c \<and> pok_own_port c (pok_current_partition s) pid \<and> po_ready p \<and>
        po_direction p = POK_PORT_DIRECTION_IN \<and> po_kind p = POK_PORT_KIND_QUEUEING)"

lemma send_now:
  assumes "send_allowed c pid data s" "port_lock_free c pid s" "port_ok (pok_ports s pid)" "\<not> po_full (pok_ports s pid)"
    and "0 < unat len" "unat len \<le> port_room pid s"
  shows "\<exists>s'. pok_port_queueing_send c pid data len 0 s = Some (POK_ERRNO_OK, s') \<and> port_ok (pok_ports s' pid) \<and>
    \<not> po_empty (pok_ports s' pid) \<and> po_must_be_flushed (pok_ports s' pid) \<and>
    port_contents pid s' = port_contents pid s @ map (mem_view s data) [0..<unat len] \<and> port_frame pid s s'"
proof -
  let ?r = "PortLock pid" let ?p = "pok_ports s pid"
  let ?s1 = "upd_lock ?r (\<lambda>l. l\<lparr>l_current_value := 0\<rparr>) s"
  have "unat len \<le> unat (pok_port_available_size pid s)" using available_at_least [OF assms(3,4)] assms(6) by simp
  then have w: "send_wait c pid len 0 ?s1 = Some (None, ?s1)"
    by (subst send_wait.simps) (simp add: word_less_nat_alt)
  have p1: "pok_ports ?s1 pid = ?p\<lparr>po_lock := (po_lock ?p)\<lparr>l_current_value := 0\<rparr>\<rparr>" by simp
  obtain s3 where s3: "pok_port_write pid (mem_view ?s1 data) len ?s1 = Some (POK_ERRNO_OK, s3)" "port_ok (pok_ports s3 pid)"
    "\<not> po_empty (pok_ports s3 pid)" "port_contents pid s3 = port_contents pid s @ map (mem_view ?s1 data) [0..<unat len]"
    "port_frame pid ?s1 s3"
    using port_write_frame [of ?s1 pid len "mem_view ?s1 data"] assms(3-6) by auto
  let ?s4 = "upd_port pid (\<lambda>p. p\<lparr>po_must_be_flushed := True\<rparr>) s3"
  have l4: "po_lock (pok_ports ?s4 pid) = (po_lock ?p)\<lparr>l_current_value := 0\<rparr>" using port_frameD(2) [OF s3(5), of pid] by simp
  let ?s5 = "upd_lock ?r (\<lambda>_. po_lock ?p) ?s4"
  have "len \<noteq> 0" "\<not> po_size ?p < len" using assms(5,6) by (auto simp: word_less_nat_alt)
  then have s5: "pok_port_queueing_send c pid data len 0 s = Some (POK_ERRNO_OK, ?s5)"
    using assms(1,3) port_lock_take [OF assms(2)] w s3(1) port_lock_release [OF assms(2) l4]
    by (simp add: pok_port_queueing_send_def send_allowed_def Let_def port_ok_def)
  have "port_frame pid s ?s5" by (rule port_frame_locked [OF s3(5)]) simp_all
  moreover have "mem_view ?s1 data = mem_view s data" by (simp add: mem_view_def)
  ultimately show ?thesis using s5 s3(2-4) by (intro exI [of _ ?s5]) simp
qed

lemma send_full:
  assumes "send_allowed c pid data s" "port_lock_free c pid s" "port_ok (pok_ports s pid)" "po_full (pok_ports s pid)"
    and "0 < unat len" "unat len \<le> unat (po_size (pok_ports s pid))"
  shows "pok_port_queueing_send c pid data len 0 s = Some (POK_ERRNO_FULL, s)"
proof -
  let ?r = "PortLock pid" let ?p = "pok_ports s pid"
  let ?s1 = "upd_lock ?r (\<lambda>l. l\<lparr>l_current_value := 0\<rparr>) s"
  have nz: "len \<noteq> 0" "\<not> po_size ?p < len" using assms(5,6) by (auto simp: word_less_nat_alt)
  have "pok_port_available_size pid ?s1 = 0" using assms(4) by (simp add: pok_port_available_size_def)
  moreover have pos: "0 < len" using nz(1) word_neq_0_conv by blast
  have restored: "upd_lock ?r (\<lambda>_. po_lock ?p) ?s1 = s" by (simp, rule upd_lock_same) (simp add: port_lock_at)
  have "pok_lockobj_unlock c ?r ?s1 = Some (POK_ERRNO_OK, s)"
    using port_lock_release [OF assms(2), of ?s1] unfolding restored by simp
  ultimately have "send_wait c pid len 0 ?s1 = Some (Some POK_ERRNO_FULL, s)"
    using pos by (subst send_wait.simps) simp
  then show ?thesis using assms(1,3) port_lock_take [OF assms(2)] nz
    by (simp add: pok_port_queueing_send_def send_allowed_def Let_def port_ok_def)
qed

lemma receive_now:
  assumes "receive_allowed c pid s" "port_lock_free c pid s" "port_ok (pok_ports s pid)"
    and "\<not> po_empty (pok_ports s pid)" "0 < unat maxlen"
  shows "\<exists>s' n. pok_port_queueing_receive c pid 0 maxlen data s = Some (POK_ERRNO_OK, n, s') \<and>
    unat n = min (unat maxlen) (port_count (pok_ports s pid)) \<and>
    map (mem_view s' data) [0..<unat n] = take (unat n) (port_contents pid s) \<and>
    port_contents pid s' = drop (unat n) (port_contents pid s) \<and> port_ok (pok_ports s' pid)"
proof -
  let ?r = "PortLock pid" let ?p = "pok_ports s pid"
  let ?tc = "if po_size ?p < maxlen then po_size ?p else maxlen"
  define s0 where "s0 = mem_put data (memset (mem_view s data) 0 0 (unat ?tc)) (unat ?tc) s"
  have e0: "pok_ports s0 = pok_ports s" "pok_queue s0 = pok_queue s" by (simp_all add: s0_def)
  let ?s1 = "upd_lock ?r (\<lambda>l. l\<lparr>l_current_value := 0\<rparr>) s0"
  let ?clen = "pok_port_consumed_size pid s"
  define n where "n = (if maxlen > ?clen then ?clen else maxlen)"
  have lf: "port_lock_free c pid s0" using assms(2) port_lock_free_cong [of s0 pid s c] e0 by simp
  have w: "receive_wait c pid 0 ?s1 = Some (None, ?s1)"
    using assms(4) by (subst receive_wait.simps) (simp add: e0)
  have n: "unat n = min (unat maxlen) (port_count ?p)"
    using consumed_size_count [OF assms(3)] unfolding n_def by (auto simp: word_less_nat_alt min_def)
  have cl: "pok_port_consumed_size pid ?s1 = ?clen" by (simp add: pok_port_consumed_size_def Let_def e0)
  have pos: "0 < unat n" "unat n \<le> port_count ?p" using n assms(4,5) port_count_0 [OF assms(3)] by auto
  obtain d s3 where s3: "pok_port_get pid (mem_view ?s1 data) n ?s1 = Some (POK_ERRNO_OK, d, s3)" "port_ok (pok_ports s3 pid)"
    "port_contents pid s3 = drop (unat n) (port_contents pid s)"
    "\<forall>k. d k = (if k < unat n then port_contents pid s ! k else mem_view ?s1 data k)" "port_frame pid ?s1 s3"
    using port_get_frame [of ?s1 pid n "mem_view ?s1 data"] assms(3) pos by (auto simp: e0)
  let ?s4 = "mem_put data d (unat n) s3"
  have l4: "po_lock (pok_ports ?s4 pid) = (po_lock (pok_ports s0 pid))\<lparr>l_current_value := 0\<rparr>"
    using port_frameD(2) [OF s3(5), of pid] by simp
  let ?s5 = "upd_lock ?r (\<lambda>_. po_lock (pok_ports s0 pid)) ?s4"
  have "maxlen \<noteq> 0" using assms(5) by auto
  then have r: "pok_port_queueing_receive c pid 0 maxlen data s = Some (POK_ERRNO_OK, n, ?s5)"
    using assms(1) port_lock_take [OF lf] w s3(1) port_lock_release [OF lf l4] cl
    unfolding pok_port_queueing_receive_def Let_def s0_def [symmetric]
    by (simp add: receive_allowed_def Let_def n_def [symmetric] split del: if_split cong: if_cong)
  have "unat n \<le> 4294967296"
  proof -
    have "unat n < 2 ^ LENGTH(32)" by (rule unsigned_less)
    then show ?thesis by simp
  qed
  then have "mem_view ?s5 data k = d k" if "k < unat n" for k
    using mem_view_put [of "unat n" k data d s3] that by (simp add: mem_view_def)
  then have "map (mem_view ?s5 data) [0..<unat n] = take (unat n) (port_contents pid s)"
    by (intro nth_equalityI) (use s3(4) pos(2) in simp_all)
  then show ?thesis using r n s3(2,3) by (intro exI [of _ ?s5] exI [of _ n]) simp
qed

text \<open>Two ports that are connected: the slices of their buffers do not overlap and their locks are free.\<close>

definition linked :: "pok_config \<Rightarrow> nat \<Rightarrow> nat \<Rightarrow> kstate \<Rightarrow> bool" where
  "linked c src dst s = (src \<noteq> dst \<and> pok_ports_nb_destinations c src = 1 \<and>
     pok_global_ports_to_local_ports c (pok_ports_destinations c src 0) = dst \<and>
     port_area (pok_ports s src) \<inter> port_area (pok_ports s dst) = {} \<and>
     port_lock_free c src s \<and> port_lock_free c dst s \<and> port_ok (pok_ports s src) \<and> port_ok (pok_ports s dst) \<and>
     po_direction (pok_ports s src) = POK_PORT_DIRECTION_OUT \<and> po_direction (pok_ports s dst) = POK_PORT_DIRECTION_IN \<and>
     po_ready (pok_ports s dst))"

lemma port_frame_area: "port_frame i s s' \<Longrightarrow> port_area (pok_ports s' j) = port_area (pok_ports s j)"
  by (simp add: port_area_def port_frameD)

lemma linked_frame:
  assumes "linked c src dst s" "port_frame i s s'" "i = src \<or> i = dst" "port_ok (pok_ports s' i)"
  shows "linked c src dst s'"
proof -
  have "port_ok (pok_ports s' j)" if "j = src \<or> j = dst" for j
    using assms that port_frameD(1) [OF assms(2), of j] by (cases "j = i") (auto simp: linked_def)
  then show ?thesis
    using assms(1) port_frameD(2,6,7) [OF assms(2)] port_frame_area [OF assms(2)] port_lock_free_cong [of s' src s c]
      port_lock_free_cong [of s' dst s c] unfolding linked_def by metis
qed

lemma flush_port_single:
  assumes "linked c src dst s" "\<not> po_empty (pok_ports s src)" "po_must_be_flushed (pok_ports s src)"
    and "\<not> po_full (pok_ports s dst)" "port_count (pok_ports s src) \<le> port_room dst s"
  shows "\<exists>s'. flush_port c src s = Some s' \<and> port_contents dst s' = port_contents dst s @ port_contents src s \<and>
    port_contents src s' = [] \<and> \<not> po_must_be_flushed (pok_ports s' src) \<and> \<not> po_empty (pok_ports s' dst) \<and>
    linked c src dst s' \<and> (\<forall>j. po_kind (pok_ports s' j) = po_kind (pok_ports s j)) \<and> po_ready (pok_ports s' dst) \<and>
    pok_current_partition s' = pok_current_partition s"
proof -
  let ?p = "pok_ports s src" let ?n = "pok_port_consumed_size src s"
  have ok: "port_ok ?p" "port_ok (pok_ports s dst)" "src \<noteq> dst" using assms(1) by (simp_all add: linked_def)
  have n: "unat ?n = port_count ?p" using consumed_size_count [OF ok(1)] .
  have pos: "0 < unat ?n" using n port_count_0 [OF ok(1)] assms(2) by auto
  obtain d s1 where s1: "pok_port_get src (pok_buffer_flush s) ?n s = Some (POK_ERRNO_OK, d, s1)" "port_ok (pok_ports s1 src)"
    "port_contents src s1 = []" "\<forall>k. k < port_count ?p \<longrightarrow> d k = port_contents src s ! k" "port_frame src s s1"
    using port_get_frame [OF ok(1) pos, of "pok_buffer_flush s"] n by auto
  let ?s1 = "s1\<lparr>pok_buffer_flush := d\<rparr>"
  have l1: "linked c src dst s1" using linked_frame [OF assms(1) s1(5)] s1(2) by simp
  have d1: "pok_ports s1 dst = pok_ports s dst" using port_frameD(1) [OF s1(5)] ok(3) by simp
  have c1: "port_contents dst s1 = port_contents dst s"
    using port_frame_other [OF s1(5)] ok assms(1) by (simp add: linked_def)
  obtain s2 where s2: "pok_port_write dst d ?n ?s1 = Some (POK_ERRNO_OK, s2)" "port_ok (pok_ports s2 dst)"
    "\<not> po_empty (pok_ports s2 dst)" "port_contents dst s2 = port_contents dst s @ map d [0..<port_count ?p]" "port_frame dst ?s1 s2"
    using port_write_frame [of ?s1 dst ?n d] ok(2) assms(4,5) pos n c1 d1 by auto
  have "linked c src dst ?s1" using l1 by (simp add: linked_def port_lock_free_def)
  then have l2: "linked c src dst s2" using linked_frame [OF _ s2(5)] s2(2) by simp
  have b: "pok_lockobj_eventbroadcast c (PortLock dst) s2 = Some (POK_ERRNO_OK, s2)"
    "pok_lockobj_eventbroadcast c (PortLock src) s2 = Some (POK_ERRNO_OK, s2)"
    using broadcast_nobody l2 by (simp_all add: linked_def)
  let ?s = "upd_port src (\<lambda>p. p\<lparr>po_must_be_flushed := False\<rparr>) s2"
  have "flush_destination c src ?n 0 ?s1 = Some s2"
    using l1 s2(1) b(1) by (simp add: flush_destination_def linked_def Let_def)
  then have fl: "flush_port c src s = Some ?s"
    using assms(1-3) s1(1) b(2) by (simp add: flush_port_def linked_def Let_def)
  have "map d [0..<port_count ?p] = port_contents src s" by (rule nth_equalityI) (use s1(4) in simp_all)
  then have "port_contents dst ?s = port_contents dst s @ port_contents src s" using s2(4) ok(3) by simp
  moreover have "port_contents src ?s = []"
    using port_frame_other [OF s2(5)] l1 s1(3) ok(3) by (simp add: linked_def Int_commute)
  moreover have "linked c src dst ?s"
  proof -
    have "port_frame src s2 ?s" unfolding port_frame_def
      by (rule exI [of _ "(pok_ports s2 src)\<lparr>po_must_be_flushed := False\<rparr>"], rule exI [of _ "q_data (pok_queue s2)"])
        (simp add: upd_port_def)
    moreover have "port_ok (pok_ports ?s src)" using l2 by (simp add: linked_def)
    ultimately show ?thesis using linked_frame [OF l2] by blast
  qed
  moreover have "po_kind (pok_ports ?s j) = po_kind (pok_ports s j)" for j
    using port_frameD(5) [OF s2(5), of j] port_frameD(5) [OF s1(5), of j] by (cases "j = src") simp_all
  moreover have "po_ready (pok_ports ?s dst)" using l2 ok(3) by (simp add: linked_def)
  moreover have "pok_current_partition ?s = pok_current_partition s"
    using port_frameD(12) [OF s2(5)] port_frameD(12) [OF s1(5)] by (simp add: upd_port_def)
  ultimately show ?thesis using fl s2(3) ok(3) by (intro exI [of _ ?s]) simp
qed


text \<open>The demonstration deployment connects port 0, of partition 0, to port 1, of partition 1.\<close>

lemma demo_linked: "linked demo_config 0 1 demo_state" "send_allowed demo_config 0 4096 demo_state"
  "receive_allowed demo_config 1 (demo_state\<lparr>pok_current_partition := 1\<rparr>)"
proof -
  have lk: "port_lock_free demo_config i demo_state" for i
    using demo_lock_ok by (simp add: port_lock_free_def demo_port_def Let_def lock_inv_def spins_free_def)
      (simp add: demo_lockobj_def)
  have "port_ok (pok_ports demo_state 0)" "port_ok (pok_ports demo_state 1)"
    by (simp_all add: port_ok_def) (simp_all add: demo_port_def)
  with lk show "linked demo_config 0 1 demo_state"
    by (simp add: linked_def) (simp add: demo_port_def port_area_def demo_config_def)
  show "send_allowed demo_config 0 4096 demo_state" "receive_allowed demo_config 1 (demo_state\<lparr>pok_current_partition := 1\<rparr>)"
    by (simp_all add: send_allowed_def receive_allowed_def pok_own_port_def) (simp_all add: demo_port_def demo_config_def)
qed


subsection \<open>Errors of the port operations\<close>

text \<open>The timeout of a receive on an empty queueing port is counted from the clock twice: the call adds the
  current time to the timeout and \<open>pok_lockobj_eventwait\<close> adds it again, so the thread sleeps until the
  timeout plus twice the current time.\<close>

theorem receive_timeout_counted_twice:
  fixes c :: pok_config and s :: kstate
  defines "cur \<equiv> POK_SCHED_CURRENT_THREAD s" and "now \<equiv> pok_tick_counter s"
  assumes "port_lock_free c pid s" "po_empty (pok_ports s pid)" "cur < NB_THREADS c"
    and "timeout + now \<noteq> 0" "timeout + now + now > 0"
  shows "\<exists>s1 s2. pok_lockobj_lock c (PortLock pid) None s = Some (POK_ERRNO_OK, s1) \<and>
    receive_wait c pid (timeout + now) s1 = do {
      s3 \<leftarrow> pok_sched_thread c True s2;
      (ret, s4) \<leftarrow> eventwait_resume c (PortLock pid) (timeout + now + now) s3;
      if ret \<noteq> POK_ERRNO_OK
      then do { (r, s5) \<leftarrow> pok_lockobj_unlock c (PortLock pid) s4; Some (Some ret, s5) }
      else receive_wait c pid (timeout + now) s4
    } \<and>
    t_state (pok_threads s2 cur) = POK_STATE_WAITING \<and> t_wakeup_time (pok_threads s2 cur) = timeout + now + now"
proof -
  let ?r = "PortLock pid" let ?s1 = "upd_lock ?r (\<lambda>l. l\<lparr>l_current_value := 0\<rparr>) s"
  let ?l = "lock_at ?r ?s1"
  have l: "lock_inv c ?l" "spins_free ?l" "l_kind ?l = POK_LOCKOBJ_KIND_EVENT" "event_waiters c ?l = []"
    using assms(3) by (simp_all add: port_lock_free_def Let_def port_lock_at lock_inv_def spins_free_def)
  have cur: "POK_SCHED_CURRENT_THREAD ?s1 < NB_THREADS c" "POK_SCHED_CURRENT_THREAD ?s1 \<notin> set (event_waiters c ?l)"
    using assms(5) unfolding l(4) by (simp_all add: cur_def)
  obtain s2 where s2: "eventwait_block c ?r (timeout + now) ?s1 = Some (None, timeout + now + now, s2)"
    "t_wakeup_time (pok_threads s2 cur) = timeout + now + now" "t_state (pok_threads s2 cur) = POK_STATE_WAITING"
    using eventwait_block_spec [OF l(1-3) cur, of "timeout + now"] assms(6,7) by (auto simp: now_def cur_def)
  have "receive_wait c pid (timeout + now) ?s1 = do {
      s3 \<leftarrow> pok_sched_thread c True s2;
      (ret, s4) \<leftarrow> eventwait_resume c (PortLock pid) (timeout + now + now) s3;
      if ret \<noteq> POK_ERRNO_OK
      then do { (r, s5) \<leftarrow> pok_lockobj_unlock c (PortLock pid) s4; Some (Some ret, s5) }
      else receive_wait c pid (timeout + now) s4
    }"
    by (subst receive_wait.simps) (use assms(4,6) s2(1) in \<open>simp add: pok_lockobj_eventwait_def\<close>)
  then show ?thesis using port_lock_take [OF assms(3)] s2(2,3) by (intro exI [of _ ?s1] exI [of _ s2]) simp
qed

lemma receive_timeout_counted_twice_witness:
  "\<exists>s1 (s2 :: kstate). pok_lockobj_lock demo_config (PortLock 1) None demo_state = Some (POK_ERRNO_OK, s1) \<and>
     t_state (pok_threads s2 1) = POK_STATE_WAITING \<and> t_wakeup_time (pok_threads s2 1) = 205"
proof -
  have a: "port_lock_free demo_config 1 demo_state" "po_empty (pok_ports demo_state 1)"
    using demo_linked(1) by (simp_all add: linked_def) (simp_all add: demo_port_def)
  have b: "POK_SCHED_CURRENT_THREAD demo_state < NB_THREADS demo_config" "5 + pok_tick_counter demo_state \<noteq> 0"
    "5 + pok_tick_counter demo_state + pok_tick_counter demo_state > 0" by simp_all
  from receive_timeout_counted_twice [OF a b]
  obtain s1 and s2 :: kstate where "pok_lockobj_lock demo_config (PortLock 1) None demo_state = Some (POK_ERRNO_OK, s1)"
    "t_state (pok_threads s2 1) = POK_STATE_WAITING" "t_wakeup_time (pok_threads s2 1) = 205" by auto
  then show ?thesis by blast
qed

text \<open>Reading a sampling port into a buffer outside the partition is refused, but the lock of the port is kept:
  the call returns with the lock taken, and the next operation on the port blocks its caller.\<close>

theorem sampling_read_keeps_lock:
  assumes "port_lock_free c pid s" "data \<noteq> 0" "pid \<le> NB_PORTS c" "pok_own_port c (pok_current_partition s) pid"
    and "po_ready (pok_ports s pid)" "po_kind (pok_ports s pid) = POK_PORT_KIND_SAMPLING"
    and "po_direction (pok_ports s pid) = POK_PORT_DIRECTION_IN"
    and "\<not> pok_check_ptr_in_partition c (pok_current_partition s)
      (data - p_base_addr (pok_partitions s (pok_current_partition s))) (po_size (pok_ports s (pok_current_partition s))) s"
  shows "\<exists>s'. pok_port_sampling_read c pid data s = Some (POK_ERRNO_EINVAL, None, s') \<and>
    l_current_value (lock_at (PortLock pid) s') = 0 \<and> waiters c (lock_at (PortLock pid) s') = []"
proof -
  let ?s1 = "upd_lock (PortLock pid) (\<lambda>l. l\<lparr>l_current_value := 0\<rparr>) s"
  have "pok_check_ptr_in_partition c p x n ?s1 = pok_check_ptr_in_partition c p x n s" for p x n
    by (simp add: pok_check_ptr_in_partition_def)
  then have "\<not> pok_check_ptr_in_partition c (pok_current_partition s)
      (data - p_base_addr (pok_partitions s (pok_current_partition s))) (po_size (pok_ports s (pok_current_partition s))) ?s1"
    using assms(8) by blast
  moreover have "waiters c (po_lock (pok_ports s pid)) = []"
    using assms(1) by (auto simp: port_lock_free_def Let_def lock_inv_def)
  ultimately show ?thesis
    using assms(2-7) port_lock_take [OF assms(1)]
    by (intro exI [of _ ?s1], cases "pok_current_partition s = pid")
      (simp_all add: pok_port_sampling_read_def port_lock_at Let_def)
qed

lemma sampling_read_keeps_lock_witness:
  "\<exists>s s'. pok_port_sampling_read demo_config 0 16 s = Some (POK_ERRNO_EINVAL, None, s') \<and>
     l_current_value (lock_at (PortLock 0) s') = 0"
proof -
  define s where "s = upd_port 0 (\<lambda>p. p\<lparr>po_kind := 2, po_direction := 1\<rparr>) demo_state"
  have lf: "port_lock_free demo_config 0 s"
    using demo_linked(1) port_lock_free_cong [of s 0 demo_state demo_config] by (simp add: s_def linked_def)
  have f: "pok_ports s 0 = (demo_port 0)\<lparr>po_kind := 2, po_direction := 1\<rparr>" "pok_current_partition s = 0"
    "pok_partitions s = demo_partition" by (simp_all add: s_def) (simp_all add: upd_port_def)
  have "(0 :: nat) \<le> NB_PORTS demo_config" "pok_own_port demo_config (pok_current_partition s) 0" "(16 :: u32) \<noteq> 0"
    "po_ready (pok_ports s 0)" "po_kind (pok_ports s 0) = POK_PORT_KIND_SAMPLING"
    "po_direction (pok_ports s 0) = POK_PORT_DIRECTION_IN"
    by (simp_all add: f pok_own_port_def) (simp_all add: demo_port_def demo_config_def)
  moreover have "\<not> pok_check_ptr_in_partition demo_config (pok_current_partition s)
      (16 - p_base_addr (pok_partitions s (pok_current_partition s))) (po_size (pok_ports s (pok_current_partition s))) s"
    by (simp add: f pok_check_ptr_in_partition_def) (simp add: demo_partition_def demo_port_def)
  ultimately show ?thesis using sampling_read_keeps_lock [OF lf] by blast
qed

text \<open>The check of the reader's buffer looks at the wrong port: the size it uses is that of the port whose number
  is the partition's, not that of the port read. When that port was never created its size is zero, so a
  buffer that begins at the last byte of the partition, or behind it, is accepted and the kernel stores the
  message of the port in the memory of whatever lies there.\<close>

theorem sampling_read_overruns_partition:
  fixes c :: pok_config and s :: kstate and pid :: nat
  defines "part \<equiv> pok_current_partition s" and "p \<equiv> pok_ports s pid"
  defines "data \<equiv> p_base_addr (pok_partitions s part) + p_size (pok_partitions s part)"
  assumes "port_lock_free c pid s" "pid < 256" "pid \<le> NB_PORTS c" "pok_own_port c part pid" "part < NB_PARTITIONS c"
    and "po_ready p" "po_kind p = POK_PORT_KIND_SAMPLING" "po_direction p = POK_PORT_DIRECTION_IN" "\<not> po_empty p"
    and "po_size (pok_ports s part) = 0" "data \<noteq> 0"
  shows "\<exists>s' r. pok_port_sampling_read c pid data s = Some (POK_ERRNO_OK, r, s') \<and>
    (\<forall>k < unat (po_size p). mem_view s' data k = q_data (pok_queue s) (unat (po_index p + po_off_b p) + k))"
proof -
  let ?r = "PortLock pid" let ?s1 = "upd_lock ?r (\<lambda>l. l\<lparr>l_current_value := 0\<rparr>) s"
  let ?d = "memcpy (mem_view ?s1 data) 0 (q_data (pok_queue s)) (unat (po_index p + po_off_b p)) (unat (po_size p))"
  let ?s3 = "mem_put data ?d (unat (po_size p)) ?s1"
  let ?s4 = "upd_lock ?r (\<lambda>_. po_lock (pok_ports s pid)) ?s3"
  have ck: "pok_check_ptr_in_partition c part (data - p_base_addr (pok_partitions s part)) 0 ?s1"
    using assms(8) by (simp add: pok_check_ptr_in_partition_def data_def part_def)
  have g: "pok_port_get pid (mem_view ?s1 data) (po_size p) ?s1 = Some (POK_ERRNO_OK, ?d, ?s1)"
    using assms(10,12) by (simp add: pok_port_get_def Let_def p_def)
  have "pok_lockobj_unlock c ?r ?s3 = Some (POK_ERRNO_OK, ?s4)"
    by (rule port_lock_release [OF assms(4)]) simp
  moreover have "pok_partitions ?s1 = pok_partitions s" "pok_current_partition ?s1 = part" by (simp_all add: part_def)
  ultimately have "\<exists>r. pok_port_sampling_read c pid data s = Some (POK_ERRNO_OK, r, ?s4)"
    using assms(5-14) port_lock_take [OF assms(4)] ck g
    unfolding pok_port_sampling_read_def Let_def part_def [symmetric] p_def [symmetric]
    by (cases "part = pid") (simp_all add: p_def)
  moreover have "mem_view ?s4 data k = q_data (pok_queue s) (unat (po_index p + po_off_b p) + k)" if "k < unat (po_size p)" for k
  proof -
    have "unat (po_size p) < 2 ^ LENGTH(32)" by (rule unsigned_less)
    then have "mem_view ?s3 data k = ?d k" using mem_view_put [of "unat (po_size p)" k data ?d ?s1] that by simp
    then show ?thesis using that by (simp add: mem_view_def)
  qed
  ultimately show ?thesis by blast
qed

lemma port_lock_free_config: "NB_THREADS c' = NB_THREADS c \<Longrightarrow> port_lock_free c' i s = port_lock_free c i s"
  by (simp add: port_lock_free_def lock_inv_def queue_ok_def Let_def)

lemma sampling_read_overruns_partition_witness:
  "\<exists>s s' r. pok_port_sampling_read (demo_config\<lparr>PARTITIONS_PORTS := \<lambda>_. 1\<rparr>) 0 1310720 s = Some (POK_ERRNO_OK, r, s') \<and>
     mem_view s' 1310720 0 = q_data (pok_queue s) 8"
proof -
  let ?c = "demo_config\<lparr>PARTITIONS_PORTS := \<lambda>_. 1\<rparr>"
  define s where "s = demo_state\<lparr>pok_current_partition := 1,
    pok_ports := \<lambda>i. (demo_port 1)\<lparr>po_kind := 2, po_empty := False, po_size := (if i = 0 then 8 else 0)\<rparr>\<rparr>"
  have f: "pok_current_partition s = 1" "pok_partitions s = demo_partition" "pok_queue s = pok_queue demo_state"
    "pok_ports s = (\<lambda>i. (demo_port 1)\<lparr>po_kind := 2, po_empty := False, po_size := (if i = 0 then 8 else 0)\<rparr>)"
    by (simp_all add: s_def)
  have "po_lock (pok_ports s 0) = po_lock (pok_ports demo_state 0)" by (simp add: f) (simp add: demo_port_def)
  then have lf: "port_lock_free ?c 0 s"
    using demo_linked(1) port_lock_free_cong [of s 0 demo_state] port_lock_free_config [of ?c demo_config]
    by (simp add: linked_def)
  have b: "p_base_addr (demo_partition 1) = 1179648" "p_size (demo_partition 1) = 131072"
    by (simp_all add: demo_partition_def)
  have p: "po_ready (demo_port 1)" "po_direction (demo_port 1) = 1" "po_index (demo_port 1) = 8" "po_off_b (demo_port 1) = 0"
    by (simp_all add: demo_port_def)
  have d: "p_base_addr (demo_partition 1) + p_size (demo_partition 1) = 1310720"
    by (simp only: b) simp
  have "\<exists>s' r. pok_port_sampling_read ?c 0 (p_base_addr (pok_partitions s (pok_current_partition s)) +
      p_size (pok_partitions s (pok_current_partition s))) s = Some (POK_ERRNO_OK, r, s') \<and>
    (\<forall>k < unat (po_size (pok_ports s 0)). mem_view s' (p_base_addr (pok_partitions s (pok_current_partition s)) +
      p_size (pok_partitions s (pok_current_partition s))) k =
      q_data (pok_queue s) (unat (po_index (pok_ports s 0) + po_off_b (pok_ports s 0)) + k))"
    by (rule sampling_read_overruns_partition [OF lf]) (simp_all add: f p [unfolded One_nat_def] pok_own_port_def d [unfolded One_nat_def])
  then obtain s' r where "pok_port_sampling_read ?c 0 1310720 s = Some (POK_ERRNO_OK, r, s')"
    "\<forall>k < unat (po_size (pok_ports s 0)). mem_view s' 1310720 k =
      q_data (pok_queue s) (unat (po_index (pok_ports s 0) + po_off_b (pok_ports s 0)) + k)"
    unfolding f(1,2) d by blast
  moreover have "unat (po_size (pok_ports s 0)) = 8" "unat (po_index (pok_ports s 0) + po_off_b (pok_ports s 0)) + 0 = 8"
    by (simp_all add: f p [unfolded One_nat_def])
  ultimately show ?thesis by (metis zero_less_numeral)
qed

text \<open>A sampling port gives the last value written: reading it after a write of the port's size returns what
  was written, however often, and the value is valid until the refresh period after the write has
  passed.\<close>

theorem sampling_last_value:
  assumes "po_kind (pok_ports s pid) = POK_PORT_KIND_SAMPLING" "po_off_b (pok_ports s pid) = po_off_e (pok_ports s pid)"
    and "n = po_size (pok_ports s pid)"
  shows "\<exists>s1 d. pok_port_write pid data n s = Some (POK_ERRNO_OK, s1) \<and>
    pok_port_get pid buf n s1 = Some (POK_ERRNO_OK, d, s1) \<and> (\<forall>k < unat n. d k = data k) \<and>
    sample_valid (pok_ports s1 pid) now = (now \<le> pok_tick_counter s + po_refresh (pok_ports s pid))"
  using assms by (auto simp: pok_port_write_def pok_port_get_def Let_def sample_valid_def not_less)

lemma sampling_last_value_witness:
  "\<exists>s s1 d. pok_port_write 0 (\<lambda>_. 65) 8 s = Some (POK_ERRNO_OK, s1) \<and> pok_port_get 0 (\<lambda>_. 0) 8 s1 = Some (POK_ERRNO_OK, d, s1) \<and>
     d 7 = 65"
proof -
  define s where "s = upd_port 0 (\<lambda>p. p\<lparr>po_kind := 2\<rparr>) demo_state"
  have "po_kind (pok_ports s 0) = POK_PORT_KIND_SAMPLING" "po_off_b (pok_ports s 0) = po_off_e (pok_ports s 0)"
    "8 = po_size (pok_ports s 0)"
    by (simp_all add: s_def) (simp_all add: demo_port_def)
  from sampling_last_value [OF this, of "\<lambda>_. 65" "\<lambda>_. 0"]
  obtain s1 d where "pok_port_write 0 (\<lambda>_. 65) 8 s = Some (POK_ERRNO_OK, s1)"
    "pok_port_get 0 (\<lambda>_. 0) 8 s1 = Some (POK_ERRNO_OK, d, s1)" "\<forall>k < unat (8 :: u32). d k = 65" by blast
  moreover have "7 < unat (8 :: u32)" by simp
  ultimately show ?thesis by blast
qed

subsection \<open>Allocation of the buffers\<close>

text \<open>The buffers of the ports in use lie, one behind the other, in the used part of the queue.\<close>

definition ports_separate :: "kstate \<Rightarrow> bool" where
  "ports_separate s =
     (unat (q_size (pok_queue s)) \<le> 1024 \<and> unat (q_available_size (pok_queue s)) \<le> unat (q_size (pok_queue s)) \<and>
      (\<forall>i. po_ready (pok_ports s i) \<longrightarrow> port_area (pok_ports s i) \<subseteq>
         {..<unat (q_size (pok_queue s)) - unat (q_available_size (pok_queue s))}) \<and>
      (\<forall>i j. i \<noteq> j \<longrightarrow> po_ready (pok_ports s i) \<longrightarrow> po_ready (pok_ports s j) \<longrightarrow>
         port_area (pok_ports s i) \<inter> port_area (pok_ports s j) = {}))"

lemma port_id_loop_OK:
  "port_id_loop c kind name part is = Some (POK_ERRNO_OK, x) \<Longrightarrow>
   \<exists>i. x = Some i \<and> i \<in> set is \<and> pok_own_port c part i \<and> pok_ports_kind c i = kind \<and> pok_strcmp name (port_name c i) = Some 0"
  by (induction "is") (auto split: Option.bind_splits if_splits)

lemma pok_port_create_cases:
  assumes "pok_port_create c name sz direction kind s = Some (ret, x, s')" "\<not> NEEDS_DEBUG c"
  shows "if ret = POK_ERRNO_OK
    then \<exists>i. x = Some i \<and> \<not> po_ready (pok_ports s i) \<and> pok_own_port c (pok_current_partition s) i \<and>
      unat sz \<le> unat (q_available_size (pok_queue s)) \<and>
      s' = (upd_port i (port_setup (q_size (pok_queue s) - q_available_size (pok_queue s)) sz (pok_current_partition s)
              direction kind) s)\<lparr>pok_queue := (pok_queue s)\<lparr>q_available_size := q_available_size (pok_queue s) - sz\<rparr>\<rparr>
    else s' = s"
  using assms unfolding pok_port_create_def
  by (auto simp: pok_partition_error_def Let_def not_less word_le_nat_alt pok_port_sampling_id_def pok_port_queueing_id_def
      split: if_splits Option.bind_splits dest: port_id_loop_OK)

text \<open>Creating a port gives it a buffer of its own: a creation that succeeds marks a port of the calling
  partition, not used before, as ready, with a buffer of the requested size that overlaps no other
  port's and lies in the queue; one that fails changes nothing. The separation of the buffers is kept
  in every case.\<close>

theorem port_create_separates:
  assumes "pok_port_create c name sz direction kind s = Some (ret, x, s')" "ports_separate s" "\<not> NEEDS_DEBUG c"
  shows "ports_separate s' \<and>
    (if ret = POK_ERRNO_OK
     then \<exists>i. x = Some i \<and> pok_own_port c (pok_current_partition s) i \<and> \<not> po_ready (pok_ports s i) \<and>
       po_ready (pok_ports s' i) \<and> po_size (pok_ports s' i) = sz \<and> po_direction (pok_ports s' i) = direction \<and>
       po_partition (pok_ports s' i) = pok_current_partition s \<and>
       (\<forall>j. j \<noteq> i \<longrightarrow> pok_ports s' j = pok_ports s j)
     else s' = s)"
proof (cases "ret = POK_ERRNO_OK")
  case False
  then show ?thesis using pok_port_create_cases [OF assms(1,3)] assms(2) by simp
next
  case True
  let ?q = "pok_queue s" let ?idx = "q_size ?q - q_available_size ?q"
  obtain i where i: "x = Some i" "\<not> po_ready (pok_ports s i)" "pok_own_port c (pok_current_partition s) i"
    "unat sz \<le> unat (q_available_size ?q)"
    "s' = (upd_port i (port_setup ?idx sz (pok_current_partition s) direction kind) s)
       \<lparr>pok_queue := ?q\<lparr>q_available_size := q_available_size ?q - sz\<rparr>\<rparr>"
    using pok_port_create_cases [OF assms(1,3)] True by auto
  let ?used = "unat (q_size ?q) - unat (q_available_size ?q)"
  have q: "unat (q_size ?q) \<le> 1024" "unat (q_available_size ?q) \<le> unat (q_size ?q)"
    using assms(2) by (simp_all add: ports_separate_def)
  have idx: "unat ?idx = ?used" "unat (q_available_size ?q - sz) = unat (q_available_size ?q) - unat sz"
    using q(2) i(4) by (simp_all add: unat_sub_le)
  have pi: "pok_ports s' i = port_setup ?idx sz (pok_current_partition s) direction kind (pok_ports s i)"
    "\<And>j. j \<noteq> i \<Longrightarrow> pok_ports s' j = pok_ports s j" "pok_queue s' = ?q\<lparr>q_available_size := q_available_size ?q - sz\<rparr>"
    by (simp_all add: i(5))
  have ai: "port_area (pok_ports s' i) = {?used..<?used + unat sz}" by (simp add: pi(1) port_area_def port_setup_def idx)
  have old: "port_area (pok_ports s j) \<subseteq> {..<?used}" if "po_ready (pok_ports s j)" for j
    using assms(2) that by (simp add: ports_separate_def)
  have new: "unat (q_size (pok_queue s')) - unat (q_available_size (pok_queue s')) = ?used + unat sz"
    using idx(2) i(4) q(2) by (simp add: pi(3))
  have "port_area (pok_ports s' j) \<subseteq> {..<?used + unat sz}" if "po_ready (pok_ports s' j)" for j
    using ai old [of j] pi(2) [of j] that by (cases "j = i") fastforce+
  moreover have "port_area (pok_ports s' j) \<inter> port_area (pok_ports s' k) = {}"
    if "j \<noteq> k" "po_ready (pok_ports s' j)" "po_ready (pok_ports s' k)" for j k
  proof -
    have di: "port_area (pok_ports s' i) \<inter> port_area (pok_ports s m) = {}" if "m \<noteq> i" "po_ready (pok_ports s m)" for m
      using ai old [OF that(2)] by fastforce
    consider "j = i" | "k = i" | "j \<noteq> i" "k \<noteq> i" by blast
    then show ?thesis
    proof cases
      case 3
      then show ?thesis using assms(2) that pi(2) by (simp add: ports_separate_def)
    qed (use di pi(2) that in \<open>auto simp: Int_commute\<close>)
  qed
  ultimately have "ports_separate s'" unfolding ports_separate_def new using q idx(2) by (simp add: pi(3))
  then show ?thesis using True i(1-3) pi by (simp add: port_setup_def)
qed

lemma port_create_separates_witness:
  "\<exists>s s'. pok_port_create demo_config (\<lambda>k. if k = 0 then 112 else if k = 1 then 48 else 0) 8 2 1 s =
     Some (POK_ERRNO_OK, Some 0, s') \<and> ports_separate s' \<and> po_ready (pok_ports s' 0)"
proof -
  define s where "s = demo_state\<lparr>pok_ports := \<lambda>i. (demo_port i)\<lparr>po_ready := (i = 1)\<rparr>\<rparr>"
  let ?name = "\<lambda>k :: nat. if k = 0 then 112 else if k = 1 then 48 else 0 :: u8"
  have f: "pok_queue s = \<lparr>q_data = (\<lambda>_. 0), q_size = 1024, q_available_size = 1008\<rparr>" "pok_current_partition s = 0"
    "pok_ports s = (\<lambda>i. (demo_port i)\<lparr>po_ready := (i = 1)\<rparr>)" "po_ready (pok_ports s i) = (i = 1)" for i
    by (simp_all add: s_def demo_state_def)
  have sep: "ports_separate s" by (auto simp: ports_separate_def f port_area_def demo_port_def)
  have pn: "port_name demo_config 0 = ?name"
    by (rule ext) (auto simp: port_name_def demo_config_def nth_Cons split: nat.splits)
  have "pok_strcmp ?name ?name = Some 0"
    unfolding pok_strcmp_def by (rule strcmp_loop_equal [where n = 2]) (simp_all add: cstring_def less_2_cases_iff)
  moreover have "[0..<NB_PORTS demo_config] = [0, 1]" by (simp add: upt_rec numeral_2_eq_2)
  ultimately have "pok_port_queueing_id demo_config ?name s = Some (POK_ERRNO_OK, Some 0)"
    by (simp add: pok_port_queueing_id_def pn pok_own_port_def f) (simp add: demo_config_def)
  moreover have own: "pok_own_port demo_config 0 0" by (simp add: pok_own_port_def) (simp add: demo_config_def)
  ultimately obtain s' where e: "pok_port_create demo_config ?name 8 2 1 s = Some (POK_ERRNO_OK, Some 0, s')"
    using own by (simp add: pok_port_create_def f Let_def POK_PORT_MAX_SIZE_def POK_PORT_DIRECTION_OUT_def
      POK_PORT_KIND_SAMPLING_def POK_PORT_KIND_QUEUEING_def)
  have "\<not> NEEDS_DEBUG demo_config" by simp
  from port_create_separates [OF e sep this] e show ?thesis by auto
qed

end
