(* ===== verification/Pok_Global_Sched.thy ===== *)
theory Pok_Global_Sched
  imports Pok_Sched Pok_Port_Ops
begin

text \<open>
  The global scheduler of \<open>kernel/core/sched.c\<close>: the table of time slots and its initialisation, the election of
  the next partition at the end of a slot with the transfer of the ports, the three partition schedulers
  (time slots, partition priority, partition deadline), the switch of the address space and of the thread,
  and the timer interrupt of \<open>pit.c\<close> that drives all of it.

  A counter of type \<open>uint8_t\<close> that is compared with a bound above 255 never reaches it; a loop over such a
  counter is \<open>byte_loop\<close>, which does not return for such a bound. The rendezvous of the processors are
  recorded in the trace and taken to succeed.
\<close>

definition byte_loop :: "nat \<Rightarrow> (nat \<Rightarrow> 's \<Rightarrow> 's option) \<Rightarrow> 's \<Rightarrow> 's option" where
  "byte_loop n body s = (if n > 255 then None else for_loop [0..<n] body s)"

lemma byte_loop_total [simp]: "n \<le> 255 \<Longrightarrow> byte_loop n body s = for_loop [0..<n] body s"
  by (simp add: byte_loop_def)

subsection \<open>Time slots\<close>

definition pok_init_slots :: "pok_config \<Rightarrow> kstate \<Rightarrow> kstate option" where
  "pok_init_slots c s =
     (if GLOBAL_SCHEDULER c = Some POK_SCHED_GLOBAL_PPS \<or> GLOBAL_SCHEDULER c = Some POK_SCHED_GLOBAL_PEDF
      then do {
        s1 \<leftarrow> byte_loop (NBSLOTS c) (\<lambda>i s. Some (s\<lparr>pok_sched_slots := (pok_sched_slots s)(i := BASE_SLOT_LENGTH c),
                pok_sched_slots_allocation := (pok_sched_slots_allocation s)(i := i)\<rparr>)) s;
        Some (s1\<lparr>pok_sched_major_frame := of_nat (NBSLOTS c) * BASE_SLOT_LENGTH c\<rparr>)
      }
      else do {
        s1 \<leftarrow> for_loop [0..<NBSLOTS c] (\<lambda>i s. Some (s\<lparr>pok_sched_slots := (pok_sched_slots s)(i := SCHEDULING_SLOTS c i),
                pok_sched_slots_allocation := (pok_sched_slots_allocation s)(i := SCHEDULING_SLOTS_ALLOCATION c i)\<rparr>)) s;
        Some (s1\<lparr>pok_sched_major_frame := SCHEDULING_MAJOR_FRAME c\<rparr>)
      })"

definition pok_setup_scheduler_global :: "pok_config \<Rightarrow> kstate \<Rightarrow> kstate" where
  "pok_setup_scheduler_global c s = s\<lparr>sched_partiton_func :=
     (case GLOBAL_SCHEDULER c of
        Some POK_SCHED_GLOBAL_PPS \<Rightarrow> Sched_global_pps
      | Some POK_SCHED_GLOBAL_PEDF \<Rightarrow> Sched_global_pedf
      | _ \<Rightarrow> Sched_global_timeslice)\<rparr>"

text \<open>The sum of the slots, in a loop over a byte.\<close>

definition slots_total :: "pok_config \<Rightarrow> kstate \<Rightarrow> u64 option" where
  "slots_total c s = byte_loop (NBSLOTS c) (\<lambda>slot total_time. Some (total_time + pok_sched_slots s slot)) 0"

definition pok_sched_init :: "pok_config \<Rightarrow> kstate \<Rightarrow> kstate option" where
  "pok_sched_init c s = do {
     s1 \<leftarrow> pok_init_slots c s;
     total_time \<leftarrow> slots_total c s1;
     let s2 = (if total_time \<noteq> pok_sched_major_frame s1 then pok_kernel_error POK_ERROR_KIND_KERNEL_CONFIG s1 else s1);
     Some (pok_setup_scheduler_global c (s2\<lparr>pok_sched_current_slot := 0,
       pok_sched_next_major_frame := pok_sched_major_frame s2, pok_sched_next_deadline := pok_sched_slots s2 0,
       pok_sched_next_flush := 0, pok_current_partition := pok_sched_slots_allocation s2 0\<rparr>))
   }"

subsection \<open>The partition schedulers\<close>

definition pok_sched_part_global_timeslice :: "kstate \<Rightarrow> nat" where
  "pok_sched_part_global_timeslice s = pok_sched_slots_allocation s (pok_sched_current_slot s)"

text \<open>
  \<open>activate_waiting_threads\<close>: the inner loop runs over the same variable \<open>i\<close> as the outer one, so it looks at one
  thread of each partition only, and the outer loop goes on from where the inner one stopped. Reading the
  partition table at or behind its end is undefined.
\<close>

definition wake_periodic :: "u64 \<Rightarrow> pok_thread_t \<Rightarrow> pok_thread_t option" where
  "wake_periodic now th =
     (if t_state th = POK_STATE_WAIT_NEXT_ACTIVATION \<and> t_next_activation th \<le> now
      then do {
        kassert (t_time_capacity th \<noteq> 0);
        Some (th\<lparr>t_state := POK_STATE_RUNNABLE, t_remaining_time_capacity := t_time_capacity th,
                t_next_activation := t_next_activation th + t_period th\<rparr>)
      }
      else Some th)"

definition activate_waiting_thread :: "nat \<Rightarrow> kstate \<Rightarrow> kstate option" where
  "activate_waiting_thread t s =
     (let th = pok_threads s t
      in if t_processor_affinity th = proc_id s
         then do {
           th' \<leftarrow> wake_periodic (pok_tick_counter s) (wake_waiting (pok_tick_counter s) th);
           Some (upd_thread t (\<lambda>_. th') s)
         }
         else Some s)"

partial_function (option) activate_waiting_inner :: "pok_config \<Rightarrow> nat \<Rightarrow> kstate \<Rightarrow> (nat \<times> kstate) option" where
  "activate_waiting_inner c i s = do {
     kassert (i < NB_PARTITIONS c);
     if i < p_nthreads (pok_partitions s i)
     then do {
       s1 \<leftarrow> activate_waiting_thread (p_thread_index_low (pok_partitions s i) + i) s;
       activate_waiting_inner c ((i + 1) mod 256) s1
     }
     else Some (i, s)
   }"

partial_function (option) activate_waiting_outer :: "pok_config \<Rightarrow> nat \<Rightarrow> kstate \<Rightarrow> kstate option" where
  "activate_waiting_outer c i s =
     (if i < NB_PARTITIONS c
      then do {
        (j, s1) \<leftarrow> activate_waiting_inner c 0 s;
        activate_waiting_outer c ((j + 1) mod 256) s1
      }
      else Some s)"

definition activate_waiting_threads :: "pok_config \<Rightarrow> kstate \<Rightarrow> kstate option" where
  "activate_waiting_threads c s = activate_waiting_outer c 0 s"

definition partition_priority :: "kstate \<Rightarrow> pok_partition_t \<Rightarrow> u8" where
  "partition_priority s p = fold (\<lambda>j priority.
     if t_state (pok_threads s (p_thread_index_low p + j)) = POK_STATE_RUNNABLE
     then priority + t_priority (pok_threads s (p_thread_index_low p + j)) else priority) [0..<p_nthreads p] 0"

definition caculate_and_update_priority :: "pok_config \<Rightarrow> kstate \<Rightarrow> kstate option" where
  "caculate_and_update_priority c s =
     byte_loop (NB_PARTITIONS c) (\<lambda>i s. Some (upd_partition i (\<lambda>p. p\<lparr>p_priority := partition_priority s p\<rparr>) s)) s"

definition pps_step :: "kstate \<Rightarrow> nat \<Rightarrow> nat \<times> u8 \<Rightarrow> nat \<times> u8" where
  "pps_step s i = (\<lambda>(next_partition, max_priority).
     if p_priority (pok_partitions s i) > max_priority then (i, p_priority (pok_partitions s i))
     else (next_partition, max_priority))"

definition pok_sched_part_global_pps :: "pok_config \<Rightarrow> nat \<Rightarrow> kstate \<Rightarrow> (nat \<times> kstate) option" where
  "pok_sched_part_global_pps c current_partition s = do {
     s1 \<leftarrow> activate_waiting_threads c s;
     s2 \<leftarrow> caculate_and_update_priority c s1;
     (next_partition, max_priority) \<leftarrow> byte_loop (NB_PARTITIONS c) (\<lambda>i acc. Some (pps_step s2 i acc)) (current_partition, 0);
     Some (next_partition, s2)
   }"

definition partition_deadline :: "kstate \<Rightarrow> pok_partition_t \<Rightarrow> u64" where
  "partition_deadline s p = fold (\<lambda>j deadline.
     let thread = pok_threads s (p_thread_index_low p + j)
     in if t_state thread = POK_STATE_RUNNABLE \<and> t_ddl thread < deadline then t_ddl thread else deadline)
     [0..<p_nthreads p] (- 1)"

definition caculate_and_update_deadline :: "pok_config \<Rightarrow> kstate \<Rightarrow> kstate option" where
  "caculate_and_update_deadline c s =
     byte_loop (NB_PARTITIONS c) (\<lambda>i s. Some (upd_partition i (\<lambda>p. p\<lparr>p_deadline := partition_deadline s p\<rparr>) s)) s"

definition global_pedf_step :: "kstate \<Rightarrow> nat \<Rightarrow> nat \<times> u64 \<Rightarrow> nat \<times> u64" where
  "global_pedf_step s i = (\<lambda>(next_partition, min_deadline).
     if p_deadline (pok_partitions s i) < min_deadline then (i, p_deadline (pok_partitions s i))
     else (next_partition, min_deadline))"

definition pok_sched_part_global_pedf :: "pok_config \<Rightarrow> nat \<Rightarrow> kstate \<Rightarrow> (nat \<times> kstate) option" where
  "pok_sched_part_global_pedf c current_partition s = do {
     s1 \<leftarrow> activate_waiting_threads c s;
     s2 \<leftarrow> caculate_and_update_deadline c s1;
     (next_partition, min_deadline) \<leftarrow>
       byte_loop (NB_PARTITIONS c) (\<lambda>i acc. Some (global_pedf_step s2 i acc)) (current_partition, - 1);
     Some (next_partition, s2)
   }"

definition call_sched_partition_func :: "pok_config \<Rightarrow> nat \<Rightarrow> kstate \<Rightarrow> (nat \<times> kstate) option" where
  "call_sched_partition_func c current_partition s =
     (case sched_partiton_func s of
        Sched_global_timeslice \<Rightarrow> Some (pok_sched_part_global_timeslice s, s)
      | Sched_global_pps \<Rightarrow> pok_sched_part_global_pps c current_partition s
      | Sched_global_pedf \<Rightarrow> pok_sched_part_global_pedf c current_partition s)"

subsection \<open>Election of a partition\<close>

text \<open>The transfer of the ports at the end of a slot, under the configured policy.\<close>

definition flush_ports :: "pok_config \<Rightarrow> u64 \<Rightarrow> kstate \<Rightarrow> kstate option" where
  "flush_ports c now s =
     (case FLUSH_POLICY c of
        Flush_none \<Rightarrow> Some s
      | Flush_period period \<Rightarrow>
          if pok_sched_next_flush s \<le> now
          then pok_port_flushall c (s\<lparr>pok_sched_next_flush := pok_sched_next_flush s + period\<rparr>) else Some s
      | Flush_on_windows \<Rightarrow>
          if pok_sched_next_deadline s \<le> now then pok_port_flush_partition c (pok_current_partition s) s else Some s
      | Flush_major_frame \<Rightarrow>
          if pok_sched_next_major_frame s \<le> now
          then pok_port_flushall c
                 (s\<lparr>pok_sched_next_major_frame := pok_sched_next_major_frame s + pok_sched_major_frame s\<rparr>)
          else Some s)"

definition next_slot :: "pok_config \<Rightarrow> kstate \<Rightarrow> kstate" where
  "next_slot c s =
     (let slot = ((pok_sched_current_slot s + 1) mod NBSLOTS c) mod 256
      in s\<lparr>pok_sched_current_slot := slot, pok_sched_next_deadline := pok_sched_next_deadline s + pok_sched_slots s slot\<rparr>)"

definition pok_elect_partition :: "pok_config \<Rightarrow> kstate \<Rightarrow> (nat \<times> kstate) option" where
  "pok_elect_partition c s =
     (if NB_PARTITIONS c > 1 \<and> pok_sched_next_deadline s \<le> pok_tick_counter s
      then do {
        s1 \<leftarrow> flush_ports c (pok_tick_counter s) s;
        let s2 = next_slot c s1;
        let next_partition = pok_sched_slots_allocation s2 (pok_sched_current_slot s2);
        if init_mode (p_mode (pok_partitions s2 next_partition)) then Some (next_partition, s2)
        else call_sched_partition_func c (pok_current_partition s2) s2
      }
      else Some (pok_current_partition s, s))"

subsection \<open>The switch\<close>

definition switch_space :: "nat \<Rightarrow> kstate \<Rightarrow> kstate" where
  "switch_space elected_id s =
     (if new_partition s
      then emit (Ev_space_switch (t_partition (POK_CURRENT_THREAD s)) (t_partition (pok_threads s elected_id))) s else s)"

definition synchro_processors :: "pok_config \<Rightarrow> nat \<Rightarrow> bool \<Rightarrow> kstate \<Rightarrow> kstate" where
  "synchro_processors c elected_id is_source_processor s =
     (if \<not> is_source_processor then emit Ev_join_barr (emit Ev_join_fence s)
      else if multiprocessing_system c \<noteq> 0
      then emit Ev_unblock_barr (emit Ev_wait_barr (emit Ev_unblock_fence (emit Ev_start_barr
             (switch_space elected_id (emit Ev_wait_fence s)))))
      else switch_space elected_id s)"

definition pok_global_sched_context_switch :: "pok_config \<Rightarrow> nat \<Rightarrow> bool \<Rightarrow> kstate \<Rightarrow> kstate option" where
  "pok_global_sched_context_switch c elected_id is_source_processor s =
     (if POK_SCHED_CURRENT_THREAD s = elected_id
      then let s1 = synchro_processors c elected_id is_source_processor s
           in Some (if \<not> is_source_processor then pok_end_ipi s1 else s1)
      else do {
        kassert (spinlocks s (proc_id s) = 0);
        let current = POK_SCHED_CURRENT_THREAD s;
        let new_sp = t_sp (pok_threads s elected_id);
        let s1 = synchro_processors c elected_id is_source_processor s;
        let s2 = s1\<lparr>current_threads := (current_threads s1)(proc_id s1 := elected_id)\<rparr>;
        let s3 = (if \<not> is_source_processor then pok_end_ipi s2 else s2);
        Some (arch_context_switch c current (emit (Ev_context_switch current new_sp) s3))
      })"

definition pok_global_sched_thread :: "pok_config \<Rightarrow> bool \<Rightarrow> kstate \<Rightarrow> kstate option" where
  "pok_global_sched_thread c is_source_processor s = do {
     (e, s1) \<leftarrow> pok_elect_thread c (pok_current_partition s) s;
     let elected_thread = e mod 256;
     pok_global_sched_context_switch c elected_thread is_source_processor
       (set_partition_current c (pok_current_partition s1) elected_thread s1)
   }"

definition pok_global_sched :: "pok_config \<Rightarrow> kstate \<Rightarrow> kstate option" where
  "pok_global_sched c s = do {
     (elected_partition, s1) \<leftarrow> pok_elect_partition c s;
     let s2 = s1\<lparr>new_partition := (elected_partition \<noteq> pok_current_partition s1), pok_current_partition := elected_partition\<rparr>;
     pok_global_sched_thread c True
       (if multiprocessing_system c \<noteq> 0 then emit Ev_send_global_schedule_thread (emit Ev_start_fence s2) else s2)
   }"

subsection \<open>The timer interrupt\<close>

definition POK_TIMER_FREQUENCY :: nat where "POK_TIMER_FREQUENCY = 100000"

definition POK_TIMER_QUANTUM :: nat where "POK_TIMER_QUANTUM = 1000"

definition OSCILLATOR_DIVISOR :: nat where "OSCILLATOR_DIVISOR = 1193182 div POK_TIMER_FREQUENCY"

definition NS_INCREMENT :: nat where "NS_INCREMENT = OSCILLATOR_DIVISOR * 1000000000 div 1193182"

definition NS_QUANTUM :: nat where "NS_QUANTUM = 1000000000 div POK_TIMER_QUANTUM"

definition pok_pic_eoi :: "nat \<Rightarrow> kstate \<Rightarrow> kstate" where
  "pok_pic_eoi irq s = emit (Ev_outb 0x20 0x20) (if irq \<ge> 8 then emit (Ev_outb 0xa0 0x20) s else s)"

definition pit_interrupt :: "pok_config \<Rightarrow> kstate \<Rightarrow> kstate option" where
  "pit_interrupt c s =
     (let s1 = pok_pic_eoi 0 s;
          s2 = s1\<lparr>pok_tick_counter := pok_tick_counter s1 + of_nat NS_INCREMENT,
                 quantum_counter := quantum_counter s1 + of_nat NS_INCREMENT\<rparr>
      in if quantum_counter s2 \<ge> of_nat NS_QUANTUM
         then pok_global_sched c (s2\<lparr>quantum_counter := quantum_counter s2 - of_nat NS_QUANTUM\<rparr>)
         else Some s2)"

subsection \<open>The activation loop of the partition schedulers\<close>

text \<open>What the loop keeps: the partition records, and that a waiting periodic thread has a budget.\<close>

definition all_releasable :: "kstate \<Rightarrow> bool" where
  "all_releasable s = (\<forall>t. releasable (pok_threads s t))"

lemma activate_waiting_thread_Some:
  assumes "all_releasable s"
  shows "\<exists>s'. activate_waiting_thread t s = Some s' \<and> all_releasable s'"
proof -
  let ?th = "pok_threads s t"
  obtain th' where "wake_periodic (pok_tick_counter s) (wake_waiting (pok_tick_counter s) ?th) = Some th'" "releasable th'"
  proof -
    let ?w = "wake_waiting (pok_tick_counter s) ?th"
    have "releasable ?w" using assms by (simp add: all_releasable_def wake_waiting_def releasable_def)
    then have "\<exists>th'. wake_periodic now ?w = Some th' \<and> releasable th'" for now
      by (cases "t_state ?w = POK_STATE_WAIT_NEXT_ACTIVATION") (auto simp: wake_periodic_def releasable_def)
    then show thesis using that by blast
  qed
  then show ?thesis
    using assms by (cases "t_processor_affinity ?th = proc_id s")
      (simp_all add: activate_waiting_thread_def Let_def all_releasable_def upd_thread_def)
qed

lemma activate_waiting_thread_partitions:
  "activate_waiting_thread t s = Some s' \<Longrightarrow> pok_partitions s' = pok_partitions s"
  by (auto simp: activate_waiting_thread_def Let_def upd_thread_def split: if_splits Option.bind_splits)

lemma activate_waiting_inner_partitions:
  assumes "activate_waiting_inner c i s = Some (j, s')"
  shows "pok_partitions s' = pok_partitions s"
proof -
  have "pok_partitions (snd (j, s')) = pok_partitions s"
  proof (rule activate_waiting_inner.raw_induct [where P = "\<lambda>c i s r. pok_partitions (snd r) = pok_partitions s", OF _ assms])
    fix f c i and s :: kstate and r :: "nat \<times> kstate"
    assume IH: "\<And>c i s r. f c i s = Some r \<Longrightarrow> pok_partitions (snd r) = pok_partitions s"
      and eq: "do {
        kassert (i < NB_PARTITIONS c);
        if i < p_nthreads (pok_partitions s i)
        then do { s1 \<leftarrow> activate_waiting_thread (p_thread_index_low (pok_partitions s i) + i) s; f c ((i + 1) mod 256) s1 }
        else Some (i, s)
      } = Some r"
    show "pok_partitions (snd r) = pok_partitions s"
    proof (cases "i < p_nthreads (pok_partitions s i)")
      case True
      then obtain s1 where "activate_waiting_thread (p_thread_index_low (pok_partitions s i) + i) s = Some s1"
        "f c ((i + 1) mod 256) s1 = Some r" using eq by (auto split: Option.bind_splits)
      then show ?thesis using IH activate_waiting_thread_partitions by metis
    next
      case False
      then show ?thesis using eq by (auto split: Option.bind_splits)
    qed
  qed
  then show ?thesis by simp
qed

text \<open>The inner loop stops at the first partition whose number is not below its number of threads.\<close>

lemma activate_waiting_inner_stops:
  assumes "i \<le> k" "k < NB_PARTITIONS c" "NB_PARTITIONS c \<le> 255" "all_releasable s"
    and "\<And>j. i \<le> j \<Longrightarrow> j < k \<Longrightarrow> j < p_nthreads (pok_partitions s j)" "\<not> k < p_nthreads (pok_partitions s k)"
  shows "\<exists>s'. activate_waiting_inner c i s = Some (k, s') \<and> all_releasable s'"
  using assms
proof (induction "k - i" arbitrary: i s)
  case 0
  then show ?case by (subst activate_waiting_inner.simps) simp
next
  case (Suc m)
  then have i: "i < k" "i < p_nthreads (pok_partitions s i)" "i < NB_PARTITIONS c" "(i + 1) mod 256 = i + 1" by auto
  obtain s1 where s1: "activate_waiting_thread (p_thread_index_low (pok_partitions s i) + i) s = Some s1" "all_releasable s1"
    using activate_waiting_thread_Some [OF Suc.prems(4)] by blast
  have p: "pok_partitions s1 = pok_partitions s" using activate_waiting_thread_partitions [OF s1(1)] .
  have "\<exists>s'. activate_waiting_inner c (i + 1) s1 = Some (k, s') \<and> all_releasable s'"
    by (rule Suc.hyps(1)) (use Suc.hyps(2) Suc.prems i s1(2) in \<open>auto simp: p\<close>)
  then show ?case using i s1(1) by (subst activate_waiting_inner.simps) simp
qed

text \<open>If there is none it reads behind the end of the table.\<close>

lemma activate_waiting_inner_overruns:
  assumes "i \<le> NB_PARTITIONS c" "NB_PARTITIONS c \<le> 255"
    and "\<And>j. i \<le> j \<Longrightarrow> j < NB_PARTITIONS c \<Longrightarrow> j < p_nthreads (pok_partitions s j)"
  shows "activate_waiting_inner c i s = None"
  using assms
proof (induction "NB_PARTITIONS c - i" arbitrary: i s)
  case 0
  then show ?case by (subst activate_waiting_inner.simps) simp
next
  case (Suc m)
  then have i: "i < NB_PARTITIONS c" "i < p_nthreads (pok_partitions s i)" "(i + 1) mod 256 = i + 1" by auto
  have "activate_waiting_inner c (i + 1) s1 = None"
    if "activate_waiting_thread (p_thread_index_low (pok_partitions s i) + i) s = Some s1" for s1
    by (rule Suc.hyps(1)) (use Suc.hyps(2) Suc.prems i activate_waiting_thread_partitions [OF that] in auto)
  then show ?case using i by (subst activate_waiting_inner.simps) (auto split: Option.bind_splits)
qed

text \<open>If it always stops before the last partition, the outer loop never ends.\<close>

lemma activate_waiting_outer_diverges:
  assumes "i < NB_PARTITIONS c" "k + 1 < NB_PARTITIONS c" "NB_PARTITIONS c \<le> 255" "all_releasable s"
    and "\<And>j. j < k \<Longrightarrow> j < p_nthreads (pok_partitions s j)" "\<not> k < p_nthreads (pok_partitions s k)"
  shows "activate_waiting_outer c i s = None"
proof -
  let ?Q = "\<lambda>c i s. i < NB_PARTITIONS c \<and> k + 1 < NB_PARTITIONS c \<and> NB_PARTITIONS c \<le> 255 \<and> all_releasable s \<and>
      (\<forall>j < k. j < p_nthreads (pok_partitions s j)) \<and> \<not> k < p_nthreads (pok_partitions s k)"
  have "?Q c i s \<longrightarrow> False" if "activate_waiting_outer c i s = Some r" for r
    using that
  proof (rule activate_waiting_outer.raw_induct [where P = "\<lambda>c i s r. ?Q c i s \<longrightarrow> False", rotated])
    fix f c i and s r :: kstate
    assume IH: "\<And>c i s r. f c i s = Some r \<Longrightarrow> ?Q c i s \<longrightarrow> False"
      and eq: "(if i < NB_PARTITIONS c then activate_waiting_inner c 0 s \<bind> (\<lambda>(j, s1). f c ((j + 1) mod 256) s1)
        else Some s) = Some r"
    show "?Q c i s \<longrightarrow> False"
    proof
      assume q: "?Q c i s"
      have "\<exists>s'. activate_waiting_inner c 0 s = Some (k, s') \<and> all_releasable s'"
        by (rule activate_waiting_inner_stops) (use q in auto)
      then obtain s1 where s1: "activate_waiting_inner c 0 s = Some (k, s1)" "all_releasable s1" by blast
      have "?Q c ((k + 1) mod 256) s1" using q s1(2) activate_waiting_inner_partitions [OF s1(1)] by auto
      moreover have "f c ((k + 1) mod 256) s1 = Some r" using eq q s1(1) by simp
      ultimately show False using IH by blast
    qed
  qed
  then show ?thesis using assms by (cases "activate_waiting_outer c i s") auto
qed

text \<open>The loop by which the priority and deadline schedulers of partitions wake waiting threads uses one counter
  for partitions and for threads. It returns exactly when every partition but the last has more threads
  than its own number and the last has at most as many as its number; in any other system the kernel
  stays in the loop for ever or reads behind the partition table.\<close>

theorem activate_waiting_returns:
  assumes "0 < NB_PARTITIONS c" "NB_PARTITIONS c \<le> 255" "all_releasable s"
  shows "(\<exists>s'. activate_waiting_threads c s = Some s') \<longleftrightarrow>
    (\<forall>i < NB_PARTITIONS c - 1. i < p_nthreads (pok_partitions s i)) \<and>
    p_nthreads (pok_partitions s (NB_PARTITIONS c - 1)) \<le> NB_PARTITIONS c - 1"
proof (cases "\<exists>k < NB_PARTITIONS c. \<not> k < p_nthreads (pok_partitions s k)")
  case False
  then have "activate_waiting_inner c 0 s = None" by (intro activate_waiting_inner_overruns) (use assms in auto)
  then have "activate_waiting_threads c s = None"
    unfolding activate_waiting_threads_def by (subst activate_waiting_outer.simps) (use assms in simp)
  moreover have "NB_PARTITIONS c - 1 < p_nthreads (pok_partitions s (NB_PARTITIONS c - 1))" using False assms(1) by simp
  ultimately show ?thesis by simp
next
  case True
  define k where "k = (LEAST k. \<not> k < p_nthreads (pok_partitions s k))"
  have k: "\<not> k < p_nthreads (pok_partitions s k)" "\<And>j. j < k \<Longrightarrow> j < p_nthreads (pok_partitions s j)"
  proof -
    have "\<exists>k. \<not> k < p_nthreads (pok_partitions s k)" using True by blast
    then show "\<not> k < p_nthreads (pok_partitions s k)" unfolding k_def by (rule LeastI_ex)
    show "\<And>j. j < k \<Longrightarrow> j < p_nthreads (pok_partitions s j)" unfolding k_def by (drule not_less_Least) simp
  qed
  obtain m where m: "m < NB_PARTITIONS c" "\<not> m < p_nthreads (pok_partitions s m)" using True by blast
  have "\<not> m < k" using k(2) [of m] m(2) by blast
  then have "k < NB_PARTITIONS c" using m(1) by linarith
  then consider "k + 1 < NB_PARTITIONS c" | "k + 1 = NB_PARTITIONS c" by linarith
  then show ?thesis
  proof cases
    case 1
    then have "activate_waiting_threads c s = None" unfolding activate_waiting_threads_def
      by (intro activate_waiting_outer_diverges) (use assms k in auto)
    moreover have "k < NB_PARTITIONS c - 1" using 1 by linarith
    ultimately show ?thesis using k(1) by auto
  next
    case 2
    have "\<exists>s'. activate_waiting_inner c 0 s = Some (k, s') \<and> all_releasable s'"
      by (rule activate_waiting_inner_stops) (use assms 2 k in auto)
    then obtain s1 where "activate_waiting_inner c 0 s = Some (k, s1)" by blast
    then have "activate_waiting_threads c s = activate_waiting_outer c ((k + 1) mod 256) s1"
      unfolding activate_waiting_threads_def by (subst activate_waiting_outer.simps) (use assms(1) in simp)
    also have "\<dots> = Some s1" using 2 assms(2) by (subst activate_waiting_outer.simps) simp
    finally have ret: "activate_waiting_threads c s = Some s1" .
    have lk: "NB_PARTITIONS c - 1 = k" using 2 by linarith
    show ?thesis unfolding lk using ret k by (auto simp: not_less)
  qed
qed

lemma activate_waiting_returns_witness:
  "activate_waiting_threads demo_config demo_state = None"
proof -
  have "all_releasable demo_state" by (simp add: all_releasable_def releasable_def) (simp add: demo_thread_def)
  moreover have "p_nthreads (demo_partition p) = 3" for p by (simp add: demo_partition_def)
  ultimately have "\<not> (\<exists>s'. activate_waiting_threads demo_config demo_state = Some s')"
    by (subst activate_waiting_returns) simp_all
  then show ?thesis by (simp only: not_ex not_Some_eq)
qed

subsection \<open>The partition of greatest priority\<close>

text \<open>The priority of a partition is the sum of the priorities of its runnable threads, in eight bits.\<close>

lemma partition_priority_sum:
  "unat (partition_priority s p) = sum_list (map (\<lambda>j. unat (t_priority (pok_threads s (p_thread_index_low p + j))))
     (filter (\<lambda>j. t_state (pok_threads s (p_thread_index_low p + j)) = POK_STATE_RUNNABLE) [0..<p_nthreads p])) mod 256"
proof -
  let ?run = "\<lambda>j. t_state (pok_threads s (p_thread_index_low p + j)) = POK_STATE_RUNNABLE"
  let ?prio = "\<lambda>j. t_priority (pok_threads s (p_thread_index_low p + j))"
  have "unat (fold (\<lambda>j a. if ?run j then a + ?prio j else a) js 0) = sum_list (map (\<lambda>j. unat (?prio j)) (filter ?run js)) mod 256" for js
    by (induction js rule: rev_induct) (auto simp: unat_word_ariths mod_add_left_eq)
  then show ?thesis by (simp add: partition_priority_def)
qed

lemma partition_priority_irrelevant [simp]:
  "partition_priority (upd_partition i f s) p = partition_priority s p"
  "partition_priority s (p\<lparr>p_priority := x\<rparr>) = partition_priority s p"
  by (simp_all add: partition_priority_def upd_partition_def cong: if_cong)

lemma update_priorities:
  "pok_partitions (fold (\<lambda>i s. upd_partition i (\<lambda>p. p\<lparr>p_priority := partition_priority s p\<rparr>) s) [0..<n] s) =
   (\<lambda>i. if i < n then (pok_partitions s i)\<lparr>p_priority := partition_priority s (pok_partitions s i)\<rparr> else pok_partitions s i)"
proof (induction n)
  case (Suc n)
  let ?f = "\<lambda>i s. upd_partition i (\<lambda>p. p\<lparr>p_priority := partition_priority s p\<rparr>) s"
  have pr: "partition_priority (fold ?f is s) p = partition_priority s p" for "is" p
    by (induction "is" rule: rev_induct) simp_all
  show ?case by (simp add: Suc upd_partition_def [of n] pr) (simp add: fun_eq_iff less_Suc_eq)
qed simp

text \<open>The scan for the greatest priority is that of the thread schedulers.\<close>

lemma byte_above: "- 1 < uint (w :: u8)" "w \<noteq> 0 \<Longrightarrow> 0 < uint (w :: u8)"
proof -
  show "- 1 < uint w" by (rule less_le_trans [OF _ unsigned_greater_eq]) simp
  show "0 < uint w" if "w \<noteq> 0" using that word_gt_0 [of w] by (simp add: word_less_def)
qed

lemma pps_scan:
  "fold (pps_step s) is (d, x) = (t, m) \<Longrightarrow>
   fold (max_step (\<lambda>i. 0 < p_priority (pok_partitions s i)) (\<lambda>i. unat (p_priority (pok_partitions s i)))) is
     (if x = 0 then - 1 else int (unat x), d) = (if m = 0 then - 1 else int (unat m), t)"
proof (induction "is" arbitrary: d x)
  case (Cons i "is")
  obtain d' x' where a: "pps_step s i (d, x) = (d', x')" by fastforce
  have "max_step (\<lambda>i. 0 < p_priority (pok_partitions s i)) (\<lambda>i. unat (p_priority (pok_partitions s i))) i
      (if x = 0 then - 1 else int (unat x), d) = (if x' = 0 then - 1 else int (unat x'), d')"
    using a byte_above by (auto simp: pps_step_def max_step_def word_less_def split: if_splits)
  moreover have "fold (pps_step s) is (d', x') = (t, m)" using Cons.prems a by simp
  ultimately show ?case using Cons.IH by simp
qed simp

text \<open>The priority scheduler of partitions elects the first partition of greatest priority, where the priority of a
  partition is the sum of the priorities of its runnable threads modulo 256, and keeps the current
  partition when all the sums vanish. A partition whose runnable threads' priorities add up to a multiple
  of 256 is never elected.\<close>

theorem global_pps_elects:
  assumes "NB_PARTITIONS c \<le> 255" "activate_waiting_threads c s = Some s1"
  defines "prio \<equiv> \<lambda>i. let p = pok_partitions s1 i in
    sum_list (map (\<lambda>j. unat (t_priority (pok_threads s1 (p_thread_index_low p + j))))
      (filter (\<lambda>j. t_state (pok_threads s1 (p_thread_index_low p + j)) = POK_STATE_RUNNABLE) [0..<p_nthreads p])) mod 256"
  shows "\<exists>p s2. pok_sched_part_global_pps c cur s = Some (p, s2) \<and>
    (if \<exists>i < NB_PARTITIONS c. 0 < prio i then best_first (\<lambda>i. 0 < prio i) prio [0..<NB_PARTITIONS c] p else p = cur)"
proof -
  let ?n = "NB_PARTITIONS c"
  let ?s2 = "fold (\<lambda>i s. upd_partition i (\<lambda>p. p\<lparr>p_priority := partition_priority s p\<rparr>) s) [0..<?n] s1"
  have c2: "caculate_and_update_priority c s1 = Some ?s2" using assms(1) by (simp add: caculate_and_update_priority_def)
  obtain t m where tm: "fold (pps_step ?s2) [0..<?n] (cur, 0) = (t, m)" by fastforce
  have r: "pok_sched_part_global_pps c cur s = Some (t, ?s2)"
    using assms(1,2) c2 tm by (simp add: pok_sched_part_global_pps_def)
  have k: "unat (p_priority (pok_partitions ?s2 i)) = prio i" if "i < ?n" for i
    using that by (simp add: update_priorities partition_priority_sum prio_def Let_def)
  then have k0: "(0 < p_priority (pok_partitions ?s2 i)) = (0 < prio i)" if "i < ?n" for i
    using k [OF that] by (simp add: word_less_nat_alt)
  let ?ms = "max_step (\<lambda>i. 0 < p_priority (pok_partitions ?s2 i)) (\<lambda>i. unat (p_priority (pok_partitions ?s2 i)))"
  have "fold ?ms [0..<?n] (- 1, cur) = (if m = 0 then - 1 else int (unat m), t)" using pps_scan [OF tm] by simp
  also have "fold ?ms [0..<?n] (- 1, cur) = fold (max_step (\<lambda>i. 0 < prio i) prio) [0..<?n] (- 1, cur)"
    by (rule fold_cong) (use k k0 in \<open>auto simp: max_step_def fun_eq_iff\<close>)
  finally have "fold (max_step (\<lambda>i. 0 < prio i) prio) [0..<?n] (- 1, cur) = (if m = 0 then - 1 else int (unat m), t)" .
  from max_step_best [OF this] r show ?thesis by (auto simp: Bex_def split: if_splits)
qed

lemma activate_waiting_runnable:
  "t_state (pok_threads s t) = POK_STATE_RUNNABLE \<Longrightarrow> activate_waiting_thread t s = Some s"
  by (simp add: activate_waiting_thread_def Let_def wake_periodic_def wake_waiting_def upd_thread_def)

lemma global_pps_elects_witness:
  "\<exists>s s2. pok_sched_part_global_pps demo_config 0 s = Some (1, s2) \<and>
     t_priority (pok_threads s 0) = 128 \<and> t_priority (pok_threads s 1) = 128 \<and> t_priority (pok_threads s 3) = 1"
proof -
  define s where "s = demo_state\<lparr>pok_threads := (\<lambda>i. (demo_thread i)\<lparr>t_state := POK_STATE_RUNNABLE, t_priority := (if i < 2 then 128 else 1)\<rparr>),
    pok_partitions := (\<lambda>i. (demo_partition i)\<lparr>p_nthreads := (if i = 0 then 2 else 1)\<rparr>)\<rparr>"
  have f: "pok_threads s = (\<lambda>i. (demo_thread i)\<lparr>t_state := POK_STATE_RUNNABLE, t_priority := (if i < 2 then 128 else 1)\<rparr>)"
    "pok_partitions s = (\<lambda>i. (demo_partition i)\<lparr>p_nthreads := (if i = 0 then 2 else 1)\<rparr>)"
    "p_thread_index_low (demo_partition i) = 3 * i" "proc_id s = 0" for i
    by (simp_all add: s_def demo_partition_def)
  have st: "activate_waiting_thread t s = Some s" for t by (rule activate_waiting_runnable) (simp add: f)
  have "activate_waiting_inner demo_config 0 s = Some (1, s)"
    by (subst activate_waiting_inner.simps, simp add: f(2) st, subst activate_waiting_inner.simps, simp add: f(2) st)
  then have a: "activate_waiting_threads demo_config s = Some s"
    by (simp add: activate_waiting_threads_def activate_waiting_outer.simps)
  have "NB_PARTITIONS demo_config \<le> 255" by simp
  let ?prio = "\<lambda>i. let p = pok_partitions s i in
    sum_list (map (\<lambda>j. unat (t_priority (pok_threads s (p_thread_index_low p + j))))
      (filter (\<lambda>j. t_state (pok_threads s (p_thread_index_low p + j)) = POK_STATE_RUNNABLE) [0..<p_nthreads p])) mod 256"
  have u: "[0..<2] = [0, 1 :: nat]" "[0..<Suc 0] = [0]" by (simp_all add: upt_rec numeral_2_eq_2)
  have pr: "?prio 0 = 0" "?prio 1 = 1" by (simp_all add: f u)
  have nb: "[0..<NB_PARTITIONS demo_config] = [0, 1]" "(1 :: nat) < NB_PARTITIONS demo_config" by (simp_all add: upt_rec numeral_2_eq_2)
  obtain p s2 where p: "pok_sched_part_global_pps demo_config 0 s = Some (p, s2)"
    "if \<exists>i < NB_PARTITIONS demo_config. 0 < ?prio i then best_first (\<lambda>i. 0 < ?prio i) ?prio [0..<NB_PARTITIONS demo_config] p else p = 0"
    using global_pps_elects [OF \<open>NB_PARTITIONS demo_config \<le> 255\<close> a, of 0] by blast
  have "\<exists>i < NB_PARTITIONS demo_config. 0 < ?prio i" using nb(2) pr(2) by (intro exI [of _ 1]) linarith
  then have "best_first (\<lambda>i. 0 < ?prio i) ?prio [0, 1] p" using p(2) nb(1) by (simp only: if_True)
  from best_first_in [OF this] have "p \<in> {0, 1}" "0 < ?prio p" by simp_all
  then have "p = 1" using pr(1) by fastforce
  then show ?thesis using p(1) f(1) by (intro exI [of _ s] exI [of _ s2]) simp
qed

end
