(* ===== verification/Pok_Time_Slots.thy ===== *)
theory Pok_Time_Slots
  imports Pok_Global_Sched
begin

text \<open>
  The time-slot schedule: with the default partition scheduler the kernel runs, at every instant, the partition the
  configuration gives the current slot to. The configured table, read as a function of time
  (\<open>owner_at\<close>), is the specification; the counters of \<open>pok_elect_partition\<close> are shown to implement it, from
  the initialisation on and over every sequence of elections that skips no slot. The transfer of the
  ports that an election makes is shown to end and to leave the schedule alone when no thread waits on a port.
\<close>

subsection \<open>The specification\<close>

definition slot_len :: "pok_config \<Rightarrow> nat \<Rightarrow> nat" where
  "slot_len c i = unat (SCHEDULING_SLOTS c i)"

definition slot_begin :: "pok_config \<Rightarrow> nat \<Rightarrow> nat" where
  "slot_begin c i = sum_list (map (slot_len c) [0..<i])"

definition major_frame :: "pok_config \<Rightarrow> nat" where
  "major_frame c = unat (SCHEDULING_MAJOR_FRAME c)"

definition slot_at :: "pok_config \<Rightarrow> nat \<Rightarrow> nat" where
  "slot_at c t = length (takeWhile (\<lambda>i. slot_begin c (Suc i) \<le> t) [0..<NBSLOTS c])"

definition owner_at :: "pok_config \<Rightarrow> nat \<Rightarrow> nat" where
  "owner_at c t = SCHEDULING_SLOTS_ALLOCATION c (slot_at c (t mod major_frame c))"

text \<open>A table the initialisation accepts: its slots fill the major frame and none is empty.\<close>

definition slots_ok :: "pok_config \<Rightarrow> bool" where
  "slots_ok c = (0 < NBSLOTS c \<and> NBSLOTS c \<le> 255 \<and> (\<forall>i < NBSLOTS c. 0 < slot_len c i) \<and>
     slot_begin c (NBSLOTS c) = major_frame c \<and>
     GLOBAL_SCHEDULER c \<noteq> Some POK_SCHED_GLOBAL_PPS \<and> GLOBAL_SCHEDULER c \<noteq> Some POK_SCHED_GLOBAL_PEDF)"

lemma slot_begin_simps [simp]: "slot_begin c 0 = 0" "slot_begin c (Suc i) = slot_begin c i + slot_len c i"
  by (simp_all add: slot_begin_def)

lemma slot_begin_mono: "i \<le> j \<Longrightarrow> slot_begin c i \<le> slot_begin c j"
  by (induction j) (auto simp: le_Suc_eq)

lemma slot_at_eq:
  assumes "i < NBSLOTS c" "slot_begin c i \<le> t" "t < slot_begin c (Suc i)"
  shows "slot_at c t = i"
proof -
  have "[0..<NBSLOTS c] = [0..<i] @ i # [Suc i..<NBSLOTS c]"
    using assms(1) upt_split [of 0 i "NBSLOTS c"] by (simp add: upt_rec)
  moreover have "\<forall>j \<in> set [0..<i]. slot_begin c (Suc j) \<le> t"
    using slot_begin_mono [of _ i c] assms(2) by (metis Suc_leI atLeastLessThan_iff le_trans set_upt)
  then have "takeWhile (\<lambda>j. slot_begin c (Suc j) \<le> t) ([0..<i] @ i # [Suc i..<NBSLOTS c]) =
      [0..<i] @ takeWhile (\<lambda>j. slot_begin c (Suc j) \<le> t) (i # [Suc i..<NBSLOTS c])"
    by (intro takeWhile_append2) blast
  ultimately have "takeWhile (\<lambda>j. slot_begin c (Suc j) \<le> t) [0..<NBSLOTS c] = [0..<i]"
    using assms(3) by (simp del: slot_begin_simps)
  then show ?thesis by (simp add: slot_at_def)
qed

lemma owner_at_eq:
  assumes "slots_ok c" "i < NBSLOTS c" "k * major_frame c + slot_begin c i \<le> t" "t < k * major_frame c + slot_begin c (Suc i)"
  shows "owner_at c t = SCHEDULING_SLOTS_ALLOCATION c i"
proof -
  let ?u = "t - k * major_frame c"
  have "slot_begin c (Suc i) \<le> major_frame c"
    using assms(1,2) slot_begin_mono [of "Suc i" "NBSLOTS c" c] by (simp add: slots_ok_def)
  then have u: "?u < major_frame c" "slot_begin c i \<le> ?u" "?u < slot_begin c (Suc i)" "t = ?u + k * major_frame c"
    using assms(3,4) by auto
  then have "t mod major_frame c = ?u" by (metis mod_less mod_mult_self1)
  then show ?thesis using slot_at_eq [OF assms(2) u(2,3)] by (simp add: owner_at_def)
qed

text \<open>Every slot comes back once in every major frame.\<close>

lemma slot_recurs:
  assumes "slots_ok c" "i < NBSLOTS c"
  shows "\<exists>u k. t \<le> u \<and> u < t + major_frame c \<and> u = k * major_frame c + slot_begin c i"
proof -
  let ?M = "major_frame c" let ?b = "slot_begin c i"
  have b: "?b < ?M"
    using assms slot_begin_mono [of "Suc i" "NBSLOTS c" c] by (auto simp: slots_ok_def)
  let ?k = "(t + (?M - 1) - ?b) div ?M"
  show ?thesis
  proof (cases "t \<le> ?b")
    case True
    then show ?thesis using b by (intro exI [of _ ?b] exI [of _ 0]) simp
  next
    case False
    have "(t - ?b + (?M - 1)) div ?M * ?M + (t - ?b + (?M - 1)) mod ?M = t - ?b + (?M - 1)" by simp
    moreover have "(t - ?b + (?M - 1)) mod ?M \<le> ?M - 1" using b by (simp add: less_Suc_eq_le [symmetric])
    ultimately have "t - ?b \<le> (t - ?b + (?M - 1)) div ?M * ?M" "(t - ?b + (?M - 1)) div ?M * ?M \<le> t - ?b + (?M - 1)" by linarith+
    then show ?thesis using False b
      by (intro exI [of _ "(t - ?b + (?M - 1)) div ?M * ?M + ?b"] exI [of _ "(t - ?b + (?M - 1)) div ?M"]) linarith
  qed
qed

subsection \<open>The state of the scheduler\<close>

text \<open>The fields the time-slot schedule depends on.\<close>

definition sched_same :: "kstate \<Rightarrow> kstate \<Rightarrow> bool" where
  "sched_same s s' = (pok_sched_slots s' = pok_sched_slots s \<and> pok_sched_slots_allocation s' = pok_sched_slots_allocation s \<and>
     pok_sched_next_deadline s' = pok_sched_next_deadline s \<and> pok_sched_current_slot s' = pok_sched_current_slot s \<and>
     sched_partiton_func s' = sched_partiton_func s \<and> pok_current_partition s' = pok_current_partition s)"

lemma sched_same_refl [simp]: "sched_same s s"
  by (simp add: sched_same_def)

lemma sched_same_trans: "sched_same s s' \<Longrightarrow> sched_same s' s'' \<Longrightarrow> sched_same s s''"
  by (simp add: sched_same_def)

text \<open>The state is on schedule at time \<open>t\<close>: the tables are the configured ones, the running partition owns the
  current slot, the slot contains \<open>t\<close> and ends at the next deadline.\<close>

definition on_schedule :: "pok_config \<Rightarrow> kstate \<Rightarrow> nat \<Rightarrow> bool" where
  "on_schedule c s t =
     ((\<forall>i < NBSLOTS c. pok_sched_slots s i = SCHEDULING_SLOTS c i \<and>
         pok_sched_slots_allocation s i = SCHEDULING_SLOTS_ALLOCATION c i) \<and>
      sched_partiton_func s = Sched_global_timeslice \<and> pok_sched_current_slot s < NBSLOTS c \<and>
      pok_current_partition s = SCHEDULING_SLOTS_ALLOCATION c (pok_sched_current_slot s) \<and>
      (\<exists>k. k * major_frame c + slot_begin c (pok_sched_current_slot s) \<le> t \<and>
         t < k * major_frame c + slot_begin c (Suc (pok_sched_current_slot s)) \<and>
         unat (pok_sched_next_deadline s) = k * major_frame c + slot_begin c (Suc (pok_sched_current_slot s))))"

lemma on_schedule_owner: "slots_ok c \<Longrightarrow> on_schedule c s t \<Longrightarrow> pok_current_partition s = owner_at c t"
  unfolding on_schedule_def using owner_at_eq by metis

lemma on_schedule_same: "sched_same s s' \<Longrightarrow> on_schedule c s' t = on_schedule c s t"
  by (simp add: sched_same_def on_schedule_def)

lemma fold_table_update:
  "i < n \<Longrightarrow> pok_sched_slots (fold (\<lambda>i s. s\<lparr>pok_sched_slots := (pok_sched_slots s)(i := f i),
      pok_sched_slots_allocation := (pok_sched_slots_allocation s)(i := g i)\<rparr>) [0..<n] s) i = f i \<and>
    pok_sched_slots_allocation (fold (\<lambda>i s. s\<lparr>pok_sched_slots := (pok_sched_slots s)(i := f i),
      pok_sched_slots_allocation := (pok_sched_slots_allocation s)(i := g i)\<rparr>) [0..<n] s) i = g i"
  by (induction n) (auto simp: less_Suc_eq)

lemma sched_init_on_schedule:
  assumes "slots_ok c"
  shows "\<exists>s'. pok_sched_init c s = Some s' \<and> on_schedule c s' 0"
proof -
  let ?s1 = "fold (\<lambda>i s. s\<lparr>pok_sched_slots := (pok_sched_slots s)(i := SCHEDULING_SLOTS c i),
      pok_sched_slots_allocation := (pok_sched_slots_allocation s)(i := SCHEDULING_SLOTS_ALLOCATION c i)\<rparr>) [0..<NBSLOTS c] s"
  let ?s2 = "?s1\<lparr>pok_sched_major_frame := SCHEDULING_MAJOR_FRAME c\<rparr>"
  let ?s3 = "pok_setup_scheduler_global c (?s2\<lparr>pok_sched_current_slot := 0,
       pok_sched_next_major_frame := pok_sched_major_frame ?s2, pok_sched_next_deadline := pok_sched_slots ?s2 0,
       pok_sched_next_flush := 0, pok_current_partition := pok_sched_slots_allocation ?s2 0\<rparr>)"
  note tab = fold_table_update [where n = "NBSLOTS c" and f = "SCHEDULING_SLOTS c" and g = "SCHEDULING_SLOTS_ALLOCATION c" and s = s]
  have ok: "0 < NBSLOTS c" "NBSLOTS c \<le> 255" "0 < slot_len c 0" using assms by (simp_all add: slots_ok_def)
  have "pok_init_slots c s = Some ?s2" using assms by (simp add: pok_init_slots_def slots_ok_def)
  then have "pok_sched_init c s = Some ?s3"
    using ok by (simp add: pok_sched_init_def slots_total_def pok_kernel_error_def Let_def)
  moreover have "sched_partiton_func ?s3 = Sched_global_timeslice"
    using assms by (auto simp: pok_setup_scheduler_global_def slots_ok_def split: option.splits pok_sched_t.splits)
  ultimately show ?thesis
    using tab ok by (intro exI [of _ ?s3]) (simp add: on_schedule_def pok_setup_scheduler_global_def slot_len_def)
qed

subsection \<open>The transfer of the ports when nobody waits\<close>

text \<open>No thread waits on a port, and a queueing port has a buffer.\<close>

definition ports_quiet :: "pok_config \<Rightarrow> kstate \<Rightarrow> bool" where
  "ports_quiet c s = (\<forall>i. port_lock_free c i s \<and> (po_kind (pok_ports s i) = POK_PORT_KIND_QUEUEING \<longrightarrow> po_size (pok_ports s i) \<noteq> 0))"

definition quiet_step :: "pok_config \<Rightarrow> kstate \<Rightarrow> kstate \<Rightarrow> bool" where
  "quiet_step c s s' = (sched_same s s' \<and> ports_quiet c s' \<and> pok_partitions s' = pok_partitions s)"

lemma quiet_step_upd:
  assumes "ports_quiet c s" "po_lock (f (pok_ports s i)) = po_lock (pok_ports s i)"
    and "po_size (f (pok_ports s i)) = po_size (pok_ports s i)" "po_kind (f (pok_ports s i)) = po_kind (pok_ports s i)"
  shows "quiet_step c s (upd_port i f s)"
  using assms by (auto simp: quiet_step_def sched_same_def ports_quiet_def upd_port_def port_lock_free_def)

lemma quiet_step_refl: "ports_quiet c s \<Longrightarrow> quiet_step c s s"
  by (simp add: quiet_step_def)

lemma quiet_step_trans: "quiet_step c s s' \<Longrightarrow> quiet_step c s' s'' \<Longrightarrow> quiet_step c s s''"
  by (auto simp: quiet_step_def intro: sched_same_trans)

text \<open>Quiet operations compose.\<close>

lemma quiet_continue:
  assumes "\<And>s. ports_quiet c s \<Longrightarrow> \<exists>s'. f s = Some s' \<and> quiet_step c s s'" "quiet_step c s s1"
  shows "\<exists>s2. f s1 = Some s2 \<and> quiet_step c s s2"
proof -
  have "ports_quiet c s1" using assms(2) by (simp add: quiet_step_def)
  then obtain s2 where "f s1 = Some s2" "quiet_step c s1 s2" using assms(1) by blast
  then show ?thesis using quiet_step_trans [OF assms(2)] by blast
qed

lemma quiet_for_loop:
  assumes "\<And>s i. ports_quiet c s \<Longrightarrow> \<exists>s'. f i s = Some s' \<and> quiet_step c s s'" "quiet_step c s s1"
  shows "\<exists>s2. for_loop is f s1 = Some s2 \<and> quiet_step c s s2"
proof (rule for_loop_total [where P = "quiet_step c s"])
  fix i and s' :: kstate
  assume "quiet_step c s s'"
  with assms(1) show "\<exists>t. f i s' = Some t \<and> quiet_step c s t" by (rule quiet_continue)
qed (rule assms(2))

lemma quiet_step_queue_put: "quiet_step c s (queue_put d s') = quiet_step c s s'"
  by (simp add: quiet_step_def sched_same_def ports_quiet_def queue_put_def port_lock_free_def)

lemma quiet_step_buffer: "quiet_step c s (s'\<lparr>pok_buffer_flush := b\<rparr>) = quiet_step c s s'"
  by (simp add: quiet_step_def sched_same_def ports_quiet_def port_lock_free_def)

lemma quiet_upd: "quiet_step c s s' \<Longrightarrow> (\<And>p. po_lock (f p) = po_lock p \<and> po_size (f p) = po_size p \<and> po_kind (f p) = po_kind p) \<Longrightarrow>
    quiet_step c s (upd_port i f s')"
  by (rule quiet_step_trans, assumption, rule quiet_step_upd) (auto simp: quiet_step_def)

lemma port_write_quiet:
  assumes "ports_quiet c s"
  shows "\<exists>r s'. pok_port_write i d n s = Some (r, s') \<and> quiet_step c s s'"
proof -
  have z: "po_kind (pok_ports s i) = 1 \<Longrightarrow> po_size (pok_ports s i) \<noteq> 0" using assms by (simp add: ports_quiet_def)
  have q: "quiet_step c s (queue_put d s)" for d using quiet_step_refl [OF assms] by (simp add: quiet_step_queue_put)
  show ?thesis
    using z quiet_step_refl [OF assms] by (auto simp: pok_port_write_def Let_def intro!: quiet_upd q)
qed

lemma port_get_quiet:
  assumes "ports_quiet c s"
  shows "\<exists>r d' s'. pok_port_get i d n s = Some (r, d', s') \<and> quiet_step c s s'"
proof -
  have z: "po_kind (pok_ports s i) = 1 \<Longrightarrow> po_size (pok_ports s i) \<noteq> 0" using assms by (simp add: ports_quiet_def)
  show ?thesis
    using z quiet_step_refl [OF assms] by (auto simp: pok_port_get_def Let_def intro!: quiet_upd)
qed

lemma flush_destination_quiet:
  assumes "ports_quiet c s"
  shows "\<exists>s'. flush_destination c src n j s = Some s' \<and> quiet_step c s s'"
proof -
  let ?d = "pok_global_ports_to_local_ports c (pok_ports_destinations c src j)"
  obtain r s1 where s1: "pok_port_write ?d (pok_buffer_flush s) n s = Some (r, s1)" "quiet_step c s s1"
    using port_write_quiet [OF assms] by blast
  then have "pok_lockobj_eventbroadcast c (PortLock ?d) s1 = Some (POK_ERRNO_OK, s1)"
    by (intro broadcast_nobody) (simp add: quiet_step_def ports_quiet_def)
  then show ?thesis using s1 quiet_step_refl [OF assms] by (simp add: flush_destination_def Let_def)
qed

lemma flush_port_quiet:
  assumes "ports_quiet c s"
  shows "\<exists>s'. flush_port c i s = Some s' \<and> quiet_step c s s'"
proof -
  let ?n = "pok_port_consumed_size i s"
  obtain r d s1 where s1: "pok_port_get i (pok_buffer_flush s) ?n s = Some (r, d, s1)" "quiet_step c s s1"
    using port_get_quiet [OF assms] by blast
  have q1: "quiet_step c s (s1\<lparr>pok_buffer_flush := d\<rparr>)" using s1(2) by (simp add: quiet_step_buffer)
  obtain s2 where s2: "for_loop [0..<pok_ports_nb_destinations c i] (flush_destination c i ?n) (s1\<lparr>pok_buffer_flush := d\<rparr>) = Some s2"
    "quiet_step c s s2"
    using quiet_for_loop [of c "flush_destination c i ?n", OF _ q1] flush_destination_quiet by blast
  have "pok_lockobj_eventbroadcast c (PortLock i) s2 = Some (POK_ERRNO_OK, s2)"
    by (rule broadcast_nobody) (use s2(2) in \<open>simp add: quiet_step_def ports_quiet_def\<close>)
  moreover have "quiet_step c s (upd_port i (\<lambda>p. p\<lparr>po_must_be_flushed := False\<rparr>) s2)" using s2(2) by (rule quiet_upd) simp
  ultimately show ?thesis using s1 s2(1) quiet_step_refl [OF assms] by (auto simp: flush_port_def Let_def)
qed

lemma flush_partition_quiet:
  assumes "ports_quiet c s"
  shows "\<exists>s'. pok_port_flush_partition c p s = Some s' \<and> quiet_step c s s'"
  unfolding pok_port_flush_partition_def
  by (rule quiet_for_loop [OF _ quiet_step_refl [OF assms]]) (rule flush_port_quiet)

lemma flushall_quiet:
  assumes "ports_quiet c s"
  shows "\<exists>s'. pok_port_flushall c s = Some s' \<and> quiet_step c s s'"
  unfolding pok_port_flushall_def
proof (rule for_loop_total [where P = "quiet_step c s"])
  fix i and s' :: kstate
  assume q: "quiet_step c s s'"
  then show "\<exists>t. (if p_mode (pok_partitions s' i) = POK_PARTITION_MODE_NORMAL \<or> p_mode (pok_partitions s' i) = POK_PARTITION_MODE_IDLE
      then pok_port_flush_partition c i s' else Some s') = Some t \<and> quiet_step c s t"
    using flush_partition_quiet [of c s' i] quiet_step_trans [OF q] by (auto simp: quiet_step_def [of c s s'])
qed (rule quiet_step_refl [OF assms])

lemma flush_ports_quiet:
  assumes "ports_quiet c s"
  shows "\<exists>s'. flush_ports c now s = Some s' \<and> quiet_step c s s'"
proof -
  have f: "ports_quiet c (s\<lparr>pok_sched_next_flush := x\<rparr>)" "ports_quiet c (s\<lparr>pok_sched_next_major_frame := x\<rparr>)" for x
    using assms by (simp_all add: ports_quiet_def port_lock_free_def)
  have g: "quiet_step c (s\<lparr>pok_sched_next_flush := x\<rparr>) s' = quiet_step c s s'"
    "quiet_step c (s\<lparr>pok_sched_next_major_frame := x\<rparr>) s' = quiet_step c s s'" for x s'
    by (simp_all add: quiet_step_def sched_same_def)
  show ?thesis
    using quiet_step_refl [OF assms] flushall_quiet [OF f(1)] flushall_quiet [OF f(2)] flush_partition_quiet [OF assms]
    unfolding g by (auto simp: flush_ports_def split: flush_policy.splits)
qed

subsection \<open>The schedule is kept\<close>

lemma next_slot_on_schedule:
  assumes "slots_ok c" "on_schedule c s t" "unat (pok_sched_next_deadline s) + major_frame c < 2 ^ 64"
    and "unat (pok_sched_next_deadline s) \<le> now"
    and "now < unat (pok_sched_next_deadline s) + slot_len c (Suc (pok_sched_current_slot s) mod NBSLOTS c)"
  defines "s' \<equiv> next_slot c s"
  shows "pok_sched_slots_allocation s' (pok_sched_current_slot s') = owner_at c now"
    "on_schedule c (s'\<lparr>pok_current_partition := owner_at c now\<rparr>) now"
proof -
  let ?i = "pok_sched_current_slot s" let ?n = "NBSLOTS c" let ?M = "major_frame c"
  let ?j = "Suc ?i mod ?n"
  have ok: "0 < ?n" "?n \<le> 255" "slot_begin c ?n = ?M" using assms(1) by (simp_all add: slots_ok_def)
  obtain k where k: "?i < ?n" "unat (pok_sched_next_deadline s) = k * ?M + slot_begin c (Suc ?i)"
    using assms(2) by (auto simp: on_schedule_def)
  have tab: "\<forall>i < ?n. pok_sched_slots s i = SCHEDULING_SLOTS c i \<and> pok_sched_slots_allocation s i = SCHEDULING_SLOTS_ALLOCATION c i"
    "sched_partiton_func s = Sched_global_timeslice" using assms(2) by (auto simp: on_schedule_def)
  have j: "?j < ?n" "?j mod 256 = ?j"
  proof -
    show "?j < ?n" using ok(1) by simp
    then have "?j < 256" using ok(2) by linarith
    then show "?j mod 256 = ?j" by simp
  qed
  have s': "s' = s\<lparr>pok_sched_current_slot := ?j, pok_sched_next_deadline := pok_sched_next_deadline s + SCHEDULING_SLOTS c ?j\<rparr>"
    using j tab(1) by (simp add: s'_def next_slot_def Let_def)
  have "\<exists>k'. unat (pok_sched_next_deadline s) = k' * ?M + slot_begin c ?j"
  proof (cases "Suc ?i < ?n")
    case True
    then show ?thesis using k(2) by auto
  next
    case False
    then have "Suc ?i = ?n" using k(1) by simp
    then show ?thesis using k(2) ok(3) by (intro exI [of _ "Suc k"]) simp
  qed
  then obtain k' where k': "unat (pok_sched_next_deadline s) = k' * ?M + slot_begin c ?j" by blast
  have "slot_len c ?j \<le> ?M" using slot_begin_mono [of "Suc ?j" ?n c] j(1) ok(3) by simp
  then have nd: "unat (pok_sched_next_deadline s + SCHEDULING_SLOTS c ?j) = k' * ?M + slot_begin c (Suc ?j)"
    using assms(3) k' by (simp add: unat_word_ariths slot_len_def)
  have w: "k' * ?M + slot_begin c ?j \<le> now" "now < k' * ?M + slot_begin c (Suc ?j)"
    using assms(4,5) k' by simp_all
  have own: "owner_at c now = SCHEDULING_SLOTS_ALLOCATION c ?j" by (rule owner_at_eq [OF assms(1) j(1) w])
  then show "pok_sched_slots_allocation s' (pok_sched_current_slot s') = owner_at c now" using tab(1) j(1) by (simp add: s')
  show "on_schedule c (s'\<lparr>pok_current_partition := owner_at c now\<rparr>) now"
    unfolding on_schedule_def using tab j(1) own w nd by (simp add: s' del: slot_begin_simps) blast
qed

lemma next_election:
  assumes "slots_ok c" "1 < NB_PARTITIONS c" "on_schedule c s t" "ports_quiet c s"
    and "t \<le> unat (pok_tick_counter s)"
    and "unat (pok_tick_counter s) < unat (pok_sched_next_deadline s) + slot_len c (Suc (pok_sched_current_slot s) mod NBSLOTS c)"
    and "unat (pok_sched_next_deadline s) + major_frame c < 2 ^ 64"
  shows "\<exists>s'. pok_elect_partition c s = Some (owner_at c (unat (pok_tick_counter s)), s') \<and>
    on_schedule c (s'\<lparr>pok_current_partition := owner_at c (unat (pok_tick_counter s))\<rparr>) (unat (pok_tick_counter s))"
proof (cases "pok_sched_next_deadline s \<le> pok_tick_counter s")
  case False
  let ?now = "unat (pok_tick_counter s)"
  have "?now < unat (pok_sched_next_deadline s)" using False by (simp add: word_le_nat_alt)
  moreover obtain k where "k * major_frame c + slot_begin c (pok_sched_current_slot s) \<le> t"
    "unat (pok_sched_next_deadline s) = k * major_frame c + slot_begin c (Suc (pok_sched_current_slot s))"
    using assms(3) by (auto simp: on_schedule_def)
  ultimately have "\<exists>k. k * major_frame c + slot_begin c (pok_sched_current_slot s) \<le> ?now \<and>
      ?now < k * major_frame c + slot_begin c (Suc (pok_sched_current_slot s)) \<and>
      unat (pok_sched_next_deadline s) = k * major_frame c + slot_begin c (Suc (pok_sched_current_slot s))"
    using assms(5) by (intro exI [of _ k]) linarith
  then have on: "on_schedule c s ?now" using assms(3) by (simp add: on_schedule_def del: slot_begin_simps)
  then have "owner_at c ?now = pok_current_partition s" using on_schedule_owner [OF assms(1)] by simp
  then show ?thesis using on False by (intro exI [of _ s]) (simp add: pok_elect_partition_def)
next
  case True
  let ?now = "unat (pok_tick_counter s)"
  obtain s1 where s1: "flush_ports c (pok_tick_counter s) s = Some s1" "sched_same s s1"
    using flush_ports_quiet [OF assms(4)] by (auto simp: quiet_step_def)
  let ?s2 = "next_slot c s1" let ?o = "owner_at c ?now"
  have e: "pok_sched_next_deadline s1 = pok_sched_next_deadline s" "pok_sched_current_slot s1 = pok_sched_current_slot s"
    "on_schedule c s1 t" using s1(2) assms(3) on_schedule_same [OF s1(2)] by (simp_all add: sched_same_def)
  have n: "pok_sched_slots_allocation ?s2 (pok_sched_current_slot ?s2) = ?o" "on_schedule c (?s2\<lparr>pok_current_partition := ?o\<rparr>) ?now"
    using next_slot_on_schedule [OF assms(1) e(3), of ?now] True assms(6,7) e(1,2) by (simp_all add: word_le_nat_alt)
  then have "sched_partiton_func ?s2 = Sched_global_timeslice" by (simp add: on_schedule_def)
  then have "call_sched_partition_func c (pok_current_partition ?s2) ?s2 = Some (?o, ?s2)"
    using n(1) by (simp add: call_sched_partition_func_def pok_sched_part_global_timeslice_def)
  then have "pok_elect_partition c s = Some (?o, ?s2)"
    using True assms(2) s1(1) n(1) by (simp add: pok_elect_partition_def Let_def)
  then show ?thesis using n(2) by blast
qed


lemma demo_slots_ok: "slots_ok demo_config"
proof -
  have "slot_len demo_config i = 100" for i by (simp add: slot_len_def demo_config_def)
  then show ?thesis by (simp add: slots_ok_def major_frame_def slot_begin_def upt_rec numeral_2_eq_2) (simp add: demo_config_def)
qed

lemma demo_ports_quiet: "ports_quiet demo_config demo_state"
proof -
  have "po_lock (pok_ports demo_state i) = po_lock (pok_ports demo_state 0)" for i
    by (simp add: demo_state_def demo_port_def)
  then have "port_lock_free demo_config i demo_state = port_lock_free demo_config 0 demo_state" for i
    unfolding port_lock_free_def by metis
  then show ?thesis using demo_linked(1) by (simp add: ports_quiet_def linked_def) (simp add: demo_port_def)
qed

lemma demo_on_schedule: "on_schedule demo_config demo_state 99"
proof -
  have "slot_len demo_config i = 100" for i by (simp add: slot_len_def demo_config_def)
  then show ?thesis unfolding on_schedule_def
    by (auto intro!: exI [of _ 0]) (simp_all add: demo_config_def demo_state_def)
qed

lemma demo_slot_values: "slot_len demo_config i = 100" "major_frame demo_config = 200" "owner_at demo_config 100 = 1"
proof -
  show l: "slot_len demo_config i = 100" for i by (simp add: slot_len_def demo_config_def)
  show m: "major_frame demo_config = 200" by (simp add: major_frame_def demo_config_def)
  have "owner_at demo_config 100 = SCHEDULING_SLOTS_ALLOCATION demo_config 1"
    by (rule owner_at_eq [OF demo_slots_ok, of 1 0]) (simp_all add: l)
  then show "owner_at demo_config 100 = 1" by (simp add: demo_config_def)
qed


subsection \<open>Runs\<close>

text \<open>The states after the elections of a run, with the time of each: between two elections anything may happen
  that leaves the schedule alone, as long as no thread is left waiting on a port and the clock does not
  skip a slot.\<close>

inductive slot_run :: "pok_config \<Rightarrow> nat \<Rightarrow> kstate \<Rightarrow> bool" for c where
  start: "pok_sched_init c s0 = Some s \<Longrightarrow> slot_run c 0 s"
| elect: "slot_run c t s \<Longrightarrow> sched_same s s1 \<Longrightarrow> ports_quiet c s1 \<Longrightarrow> t \<le> unat (pok_tick_counter s1) \<Longrightarrow>
    unat (pok_tick_counter s1) < unat (pok_sched_next_deadline s1) + slot_len c (Suc (pok_sched_current_slot s1) mod NBSLOTS c) \<Longrightarrow>
    unat (pok_sched_next_deadline s1) + major_frame c < 2 ^ 64 \<Longrightarrow> pok_elect_partition c s1 = Some (p, s2) \<Longrightarrow>
    slot_run c (unat (pok_tick_counter s1)) (s2\<lparr>pok_current_partition := p\<rparr>)"

inductive_cases slot_run_cases: "slot_run c t s"

lemma slot_run_on_schedule:
  assumes "slot_run c t s" "slots_ok c" "1 < NB_PARTITIONS c"
  shows "on_schedule c s t"
  using assms(1)
proof (induction rule: slot_run.induct)
  case (start s0 s)
  then show ?case using sched_init_on_schedule [OF assms(2), of s0] by auto
next
  case (elect t s s1 p s2)
  from elect.IH on_schedule_same [OF elect.hyps(2)] have "on_schedule c s1 t" by simp
  from next_election [OF assms(2,3) this elect.hyps(3-6)] elect.hyps(7) show ?case by auto
qed



end
