(* ===== verification/Pok_Space.thy ===== *)
theory Pok_Space
  imports Pok_Global_Sched
begin

unbundle bit_operations_syntax

text \<open>
  The address spaces of the partitions on x86: the segment descriptors of \<open>kernel/arch/x86/gdt.c\<close> and the functions
  of \<open>space.c\<close> that create a partition's two segments and switch between partitions. The kernel records
  its calls of these functions in the trace; \<open>gdt_of\<close> replays them on the descriptor table.

  The theorems compare the memory a descriptor opens with the memory the partition was given, and the
  partition whose segments are enabled with the partition that runs. What a descriptor opens is the
  documented meaning of its fields: offsets up to the limit, counted in bytes or in pages of 4096 bytes.
\<close>

subsection \<open>Descriptors\<close>

record gdt_entry_t =
  g_limit_low :: "16 word"
  g_base_low :: "24 word"
  g_type :: "4 word"
  g_s :: "1 word"
  g_dpl :: "2 word"
  g_present :: "1 word"
  g_limit_high :: "4 word"
  g_available :: "2 word"
  g_op_size :: "1 word"
  g_granularity :: "1 word"
  g_base_high :: "8 word"

type_synonym gdt = "nat \<Rightarrow> gdt_entry_t"

definition GDTE_CODE :: u32 where "GDTE_CODE = 0xB"

definition GDTE_DATA :: u32 where "GDTE_DATA = 0x3"

definition GDTE_TSS :: u32 where "GDTE_TSS = 0x9"

definition GDT_CORE_CODE_SEGMENT :: nat where "GDT_CORE_CODE_SEGMENT = 1"

definition GDT_CORE_DATA_SEGMENT :: nat where "GDT_CORE_DATA_SEGMENT = 2"

definition GDT_TSS_SEGMENT :: "nat \<Rightarrow> nat" where "GDT_TSS_SEGMENT proc = 3 + proc"

definition GDT_PARTITION_CODE_SEGMENT :: "pok_config \<Rightarrow> nat \<Rightarrow> nat" where
  "GDT_PARTITION_CODE_SEGMENT c partition_id = 3 + NB_PROCESSORS c + 2 * partition_id"

definition GDT_PARTITION_DATA_SEGMENT :: "pok_config \<Rightarrow> nat \<Rightarrow> nat" where
  "GDT_PARTITION_DATA_SEGMENT c partition_id = 3 + NB_PROCESSORS c + 2 * partition_id + 1"

definition GDT_BUILD_SELECTOR :: "nat \<Rightarrow> u32 \<Rightarrow> u32 \<Rightarrow> u32" where
  "GDT_BUILD_SELECTOR seg local rpl = push_bit 3 (of_nat seg) OR push_bit 2 (local AND 0x1) OR (rpl AND 0x3)"

definition gdt_set_segment :: "nat \<Rightarrow> u32 \<Rightarrow> u32 \<Rightarrow> u32 \<Rightarrow> u32 \<Rightarrow> gdt \<Rightarrow> gdt" where
  "gdt_set_segment index base_address limit t dpl gdt =
     (let e = gdt index;
          e1 = (if limit > push_bit 20 1
                then e\<lparr>g_limit_low := ucast (drop_bit 12 limit AND 0xFFFF), g_limit_high := ucast (drop_bit 28 limit AND 0xF),
                      g_granularity := 1\<rparr>
                else e\<lparr>g_limit_low := ucast (limit AND 0xFFFF), g_limit_high := ucast (drop_bit 16 limit AND 0xFF),
                      g_granularity := 0\<rparr>)
      in gdt(index := e1\<lparr>g_base_low := ucast (base_address AND 0xFFFFFF), g_base_high := ucast (drop_bit 24 base_address AND 0xFF),
           g_type := ucast (t AND 0xF), g_dpl := ucast (dpl AND 0x3), g_s := 1, g_present := 1, g_available := 0, g_op_size := 1\<rparr>))"

definition gdt_set_system :: "nat \<Rightarrow> u32 \<Rightarrow> u32 \<Rightarrow> u32 \<Rightarrow> u32 \<Rightarrow> gdt \<Rightarrow> gdt" where
  "gdt_set_system index base_address limit t dpl gdt =
     gdt(index := (gdt index)\<lparr>g_limit_low := ucast (limit AND 0xFFFF), g_limit_high := ucast (drop_bit 16 limit AND 0xFF),
       g_base_low := ucast (base_address AND 0xFFFFFF), g_base_high := ucast (drop_bit 24 base_address AND 0xFF),
       g_type := ucast (t AND 0xF), g_dpl := ucast (dpl AND 0x3), g_s := 0, g_present := 1, g_available := 0, g_op_size := 0\<rparr>)"

definition gdt_enable :: "nat \<Rightarrow> gdt \<Rightarrow> gdt" where
  "gdt_enable index gdt = gdt(index := (gdt index)\<lparr>g_present := 1\<rparr>)"

definition gdt_disable :: "nat \<Rightarrow> gdt \<Rightarrow> gdt" where
  "gdt_disable index gdt = gdt(index := (gdt index)\<lparr>g_present := 0\<rparr>)"

definition gdt_null :: gdt_entry_t where
  "gdt_null = \<lparr>g_limit_low = 0, g_base_low = 0, g_type = 0, g_s = 0, g_dpl = 0, g_present = 0, g_limit_high = 0,
     g_available = 0, g_op_size = 0, g_granularity = 0, g_base_high = 0\<rparr>"

text \<open>The table part of \<open>pok_gdt_init\<close> and \<open>pok_tss_init\<close>, the task state segment of a processor lying at \<open>tss\<close>
  and taking 104 bytes; the contents of the task state segment and the loading of the registers, which is
  assembly, are left out.\<close>

definition pok_tss_init :: "nat \<Rightarrow> u32 \<Rightarrow> gdt \<Rightarrow> gdt" where
  "pok_tss_init proc tss gdt = gdt_set_system (GDT_TSS_SEGMENT proc) tss 104 GDTE_TSS 0 gdt"

definition pok_gdt_init :: "nat \<Rightarrow> u32 \<Rightarrow> gdt \<Rightarrow> gdt" where
  "pok_gdt_init proc tss gdt =
     pok_tss_init proc tss
       (if proc = 0
        then gdt_set_segment GDT_CORE_DATA_SEGMENT 0 (- 1) GDTE_DATA 0
               (gdt_set_segment GDT_CORE_CODE_SEGMENT 0 (- 1) GDTE_CODE 0
                 (\<lambda>i. if i < 256 then gdt_null else gdt i))
        else gdt)"

subsection \<open>Spaces of partitions\<close>

definition pok_create_space :: "pok_config \<Rightarrow> nat \<Rightarrow> u32 \<Rightarrow> u32 \<Rightarrow> gdt \<Rightarrow> gdt" where
  "pok_create_space c partition_id addr sz gdt =
     gdt_set_segment (GDT_PARTITION_DATA_SEGMENT c partition_id) addr sz GDTE_DATA 3
       (gdt_set_segment (GDT_PARTITION_CODE_SEGMENT c partition_id) addr sz GDTE_CODE 3 gdt)"

definition pok_space_switch :: "pok_config \<Rightarrow> nat \<Rightarrow> nat \<Rightarrow> gdt \<Rightarrow> gdt" where
  "pok_space_switch c old_partition_id new_partition_id gdt =
     gdt_enable (GDT_PARTITION_DATA_SEGMENT c new_partition_id)
       (gdt_enable (GDT_PARTITION_CODE_SEGMENT c new_partition_id)
         (gdt_disable (GDT_PARTITION_DATA_SEGMENT c old_partition_id)
           (gdt_disable (GDT_PARTITION_CODE_SEGMENT c old_partition_id) gdt)))"

text \<open>The calls recorded in a trace, replayed on a table.\<close>

fun space_event :: "pok_config \<Rightarrow> arch_event \<Rightarrow> gdt \<Rightarrow> gdt" where
  "space_event c (Ev_create_space p addr sz) g = pok_create_space c p addr sz g"
| "space_event c (Ev_space_switch old new) g = pok_space_switch c old new g"
| "space_event c _ g = g"

definition gdt_of :: "pok_config \<Rightarrow> gdt \<Rightarrow> arch_event list \<Rightarrow> gdt" where
  "gdt_of c g tr = fold (space_event c) tr g"

subsection \<open>What a descriptor opens\<close>

definition segment_base :: "gdt_entry_t \<Rightarrow> u32" where
  "segment_base e = push_bit 24 (ucast (g_base_high e)) OR ucast (g_base_low e)"

definition segment_limit :: "gdt_entry_t \<Rightarrow> nat" where
  "segment_limit e = (let l = unat (g_limit_high e) * 65536 + unat (g_limit_low e)
     in if g_granularity e = 1 then l * 4096 + 4095 else l)"

text \<open>The offsets a program may use through the descriptor.\<close>

definition segment_opens :: "gdt_entry_t \<Rightarrow> nat \<Rightarrow> bool" where
  "segment_opens e off = (g_present e = 1 \<and> off \<le> segment_limit e)"

definition space_enabled :: "pok_config \<Rightarrow> gdt \<Rightarrow> nat \<Rightarrow> bool" where
  "space_enabled c g p = (g_present (g (GDT_PARTITION_CODE_SEGMENT c p)) = 1 \<and> g_present (g (GDT_PARTITION_DATA_SEGMENT c p)) = 1)"

lemmas gdt_indices = GDT_PARTITION_CODE_SEGMENT_def GDT_PARTITION_DATA_SEGMENT_def GDT_TSS_SEGMENT_def
  GDT_CORE_CODE_SEGMENT_def GDT_CORE_DATA_SEGMENT_def

lemma segment_indices_distinct:
  "GDT_PARTITION_CODE_SEGMENT c p \<noteq> GDT_PARTITION_DATA_SEGMENT c q"
  "GDT_PARTITION_CODE_SEGMENT c p = GDT_PARTITION_CODE_SEGMENT c q \<longleftrightarrow> p = q"
  "GDT_PARTITION_DATA_SEGMENT c p = GDT_PARTITION_DATA_SEGMENT c q \<longleftrightarrow> p = q"
  "GDT_PARTITION_DATA_SEGMENT c p \<noteq> GDT_PARTITION_CODE_SEGMENT c q"
  unfolding gdt_indices by presburger+

lemma byte_masks: "(0xFFFFFF :: u32) = mask 24" "(0xFFFF :: u32) = mask 16" "(0xFF :: u32) = mask 8" "(0xF :: u32) = mask 4"
  by (simp_all add: mask_eq_exp_minus_1)

lemma set_segment_base: "segment_base (gdt_set_segment i a l t d g i) = a"
proof -
  have "push_bit 24 (ucast (ucast (drop_bit 24 a AND mask 8) :: 8 word)) OR ucast (ucast (a AND mask 24) :: 24 word) = a"
    by (rule bit_word_eqI) (auto simp: bit_simps)
  then show ?thesis by (simp add: segment_base_def gdt_set_segment_def Let_def byte_masks)
qed

lemma unat_drop: "unat (drop_bit n (w :: u32)) = unat w div 2 ^ n"
  using unsigned_less [of w, where 'a = nat]
  by (simp only: unsigned_drop_bit_eq) (simp add: drop_bit_eq_div take_bit_nat_eq_self)

lemma unat_low:
  "unat (ucast (w AND mask 16) :: 16 word) = unat (w :: u32) mod 65536"
  "unat (ucast (w AND mask 4) :: 4 word) = unat w mod 16"
  "unat (ucast (w AND mask 8) :: 4 word) = unat w mod 16"
  by (simp_all add: unsigned_ucast_eq unsigned_take_bit_eq take_bit_eq_mod unat_mod_distrib mod_mod_cancel flip: take_bit_eq_mask)

text \<open>The limit the processor reads, in bytes, for a segment made for \<open>l\<close> bytes.\<close>

lemma set_segment_limit:
  "segment_limit (gdt_set_segment i a l t d g i) =
     (if unat l > 1048576 then unat l div 4096 * 4096 + 4095 else if unat l = 1048576 then 0 else unat l)"
proof -
  let ?n = "unat l"
  have n: "?n < 4294967296" using unsigned_less [of l, where 'a = nat] by simp
  have "268435456 * (?n div 268435456) + ?n div 4096 mod 65536 * 4096 = ?n div 4096 * 4096"
  proof -
    have "?n div 268435456 = ?n div 4096 div 65536" by (simp add: div_mult2_eq [symmetric])
    then have "?n div 268435456 * 65536 + ?n div 4096 mod 65536 = ?n div 4096" by (simp only: div_mult_mod_eq)
    then show ?thesis by linarith
  qed
  moreover have "?n div 268435456 mod 16 = ?n div 268435456" using less_mult_imp_div_less [of ?n 16 268435456] n by simp
  moreover have "?n < 1048576 \<Longrightarrow> ?n div 65536 mod 16 * 65536 + ?n mod 65536 = ?n"
    using less_mult_imp_div_less [of ?n 16 65536] by (simp add: div_mult_mod_eq)
  moreover have "(push_bit 20 1 < l) = (1048576 < ?n)" by (simp add: word_less_nat_alt)
  ultimately show ?thesis
    by (auto simp: segment_limit_def gdt_set_segment_def Let_def byte_masks unat_low unat_drop not_less)
qed

subsection \<open>The extent of a partition's memory\<close>

lemma create_space_entry:
  assumes "i = GDT_PARTITION_CODE_SEGMENT c p \<or> i = GDT_PARTITION_DATA_SEGMENT c p"
  shows "\<exists>t. pok_create_space c p addr sz g i = gdt_set_segment i addr sz t 3 g i"
  using assms segment_indices_distinct(1,4) [of c p p]
  by (auto simp: pok_create_space_def gdt_set_segment_def Let_def)

text \<open>The segments of a partition begin at its memory and cover it, unless the memory is exactly one megabyte, when
  they open a single byte. They are too long: the limit is the last offset that may be used and the code
  stores the size in it, so a program of the partition also reads and writes the byte behind its memory,
  and, above one megabyte, up to 4096 bytes behind it, where the memory of the next partition lies.\<close>

theorem partition_segment_extent:
  fixes addr sz :: u32 and g :: gdt
  assumes "i = GDT_PARTITION_CODE_SEGMENT c p \<or> i = GDT_PARTITION_DATA_SEGMENT c p"
  defines "e \<equiv> pok_create_space c p addr sz g i"
  shows "segment_base e = addr \<and>
    (if unat sz = 1048576 then segment_opens e = (\<lambda>off. off = 0)
     else (\<forall>off \<le> unat sz. segment_opens e off) \<and>
       (if unat sz < 1048576 then \<not> segment_opens e (unat sz + 1)
        else \<forall>off < unat sz div 4096 * 4096 + 4096. segment_opens e off))"
proof -
  obtain t where t: "e = gdt_set_segment i addr sz t 3 g i" using create_space_entry [OF assms(1)] unfolding e_def by blast
  have "g_present e = 1" by (simp add: t gdt_set_segment_def Let_def)
  moreover have "unat sz div 4096 * 4096 + unat sz mod 4096 = unat sz" "unat sz mod 4096 < 4096" by simp_all
  then have "off \<le> unat sz \<Longrightarrow> off \<le> unat sz div 4096 * 4096 + 4095" for off by linarith
  ultimately show ?thesis
    using set_segment_base [of i addr sz t 3 g] set_segment_limit [of i addr sz t 3 g]
    by (auto simp: segment_opens_def t fun_eq_iff)
qed

lemma partition_segment_extent_witness:
  "segment_opens (pok_create_space demo_config 0 1048576 131072 (\<lambda>_. gdt_null) (GDT_PARTITION_DATA_SEGMENT demo_config 0)) 131072"
  using partition_segment_extent [of "GDT_PARTITION_DATA_SEGMENT demo_config 0" demo_config 0 1048576 131072 "\<lambda>_. gdt_null"]
  by simp

subsection \<open>The space of the running thread\<close>

lemma space_switch_enabled:
  "space_enabled c (pok_space_switch c old new g) p = (p = new \<or> (p \<noteq> old \<and> space_enabled c g p))"
  using segment_indices_distinct
  by (auto simp: space_enabled_def pok_space_switch_def gdt_enable_def gdt_disable_def)

lemma gdt_of_snoc [simp]: "gdt_of c g (tr @ [ev]) = space_event c ev (gdt_of c g tr)"
  by (simp add: gdt_of_def)

text \<open>The operation did not touch the descriptor table.\<close>

definition same_spaces :: "pok_config \<Rightarrow> kstate \<Rightarrow> kstate \<Rightarrow> bool" where
  "same_spaces c s s' = (\<forall>g. gdt_of c g (ks_trace s') = gdt_of c g (ks_trace s))"

lemma same_spaces_simps [simp]:
  "same_spaces c s s" "same_spaces c s (upd_thread t f s') = same_spaces c s s'"
  "same_spaces c s (upd_partition p h s') = same_spaces c s s'"
  "same_spaces c s (s'\<lparr>pok_threads := th\<rparr>) = same_spaces c s s'"
  "same_spaces c s (s'\<lparr>urgent_task_flag := b\<rparr>) = same_spaces c s s'"
  "same_spaces c s (s'\<lparr>pok_x86_pm_brk := x\<rparr>) = same_spaces c s s'"
  "same_spaces c s (emit (Ev_space_context a1 a2 a3 a4 a5) s') = same_spaces c s s'"
  "same_spaces c s (emit (Ev_context_switch t1 sp) s') = same_spaces c s s'"
  "same_spaces c s (emit Ev_end_ipi s') = same_spaces c s s'"
  by (simp_all add: same_spaces_def upd_thread_def upd_partition_def emit_def)

lemma same_spaces_trans: "same_spaces c s s' \<Longrightarrow> same_spaces c s' s'' \<Longrightarrow> same_spaces c s s''"
  by (simp add: same_spaces_def)

lemma insert_sort_loop_spaces: "insert_sort_loop low val k s = Some s' \<Longrightarrow> same_spaces c s0 s \<Longrightarrow> same_spaces c s0 s'"
  by (induction low val k s rule: insert_sort_loop.induct) (auto split: if_splits)

lemma thread_create_spaces:
  "pok_partition_thread_create c attr pid s = Some (r, tid, s') \<Longrightarrow> same_spaces c' s0 s \<Longrightarrow> same_spaces c' s0 s'"
  unfolding pok_partition_thread_create_def Let_def pok_space_context_create_def pok_bsp_mem_alloc_def pok_pm_sbrk_def
    pok_thread_insert_sort_def pok_partition_error_def
  by (auto split: if_splits Option.bind_splits elim!: insert_sort_loop_spaces)

lemma elect_thread_spaces:
  assumes "pok_elect_thread c pid s = Some (e, s')"
  shows "same_spaces c' s s'"
proof -
  have act: "activate_thread c t s = Some s' \<Longrightarrow> same_spaces c' s0 s \<Longrightarrow> same_spaces c' s0 s'" for t s s' s0
    by (auto simp: activate_thread_def Let_def split: if_splits Option.bind_splits)
  have acts: "activate_threads c pid s = Some s' \<Longrightarrow> same_spaces c' s s'" for s s'
    unfolding activate_threads_def Let_def
    by (auto split: if_splits elim: for_loop_invariant [where P = "same_spaces c' s"] act)
  have ddl: "ddl_punish c s = Some s' \<Longrightarrow> same_spaces c' s s'" for s s'
    unfolding ddl_punish_def Let_def by (auto split: if_splits Option.bind_splits elim!: thread_create_spaces)
  have acc: "same_spaces c' s (account_budget c s)" for s by (simp add: account_budget_def Let_def)
  have call: "call_sched_func c f low high prev cur s = Some (e, s') \<Longrightarrow> same_spaces c' s s'" for f low high prev cur s e s'
    by (drule call_sched_func_slices) (auto simp: slices_only_def)
  have mode: "elect_by_mode c pid s = Some (e, s') \<Longrightarrow> same_spaces c' s s'" for s e s'
    unfolding elect_by_mode_def Let_def using acc
    by (auto split: if_splits dest!: call intro: same_spaces_trans)
  show ?thesis
    using assms unfolding pok_elect_thread_def Let_def set_end_time_def
    by (auto split: if_splits Option.bind_splits dest!: ddl acts mode intro: same_spaces_trans)
qed

text \<open>A switch by the global scheduler on a single processor, in full.\<close>

lemma global_switch:
  assumes "pok_elect_partition c s = Some (p, s1)" "multiprocessing_system c = 0"
  defines "s2 \<equiv> s1\<lparr>new_partition := (p \<noteq> pok_current_partition s1), pok_current_partition := p\<rparr>"
  assumes "pok_elect_thread c p s2 = Some (e, s3)" "e < 256" "spinlocks s1 (proc_id s1) = 0"
    and "e \<noteq> POK_SCHED_CURRENT_THREAD s1"
  defines "cur \<equiv> POK_SCHED_CURRENT_THREAD s1"
  shows "\<exists>s4. pok_global_sched c s = Some (arch_context_switch c cur s4) \<and> POK_SCHED_CURRENT_THREAD s4 = e \<and>
    pok_current_partition s4 = p \<and> pok_threads s4 = pok_threads s3 \<and>
    gdt_of c g (ks_trace s4) =
      (if p \<noteq> pok_current_partition s1
       then pok_space_switch c (t_partition (pok_threads s3 cur)) (t_partition (pok_threads s3 e)) (gdt_of c g (ks_trace s1))
       else gdt_of c g (ks_trace s1))"
proof -
  note fr = elect_thread_frame [OF assms(4)]
  let ?s = "set_partition_current c p e s3"
  have f: "pok_current_partition s3 = p" "proc_id s3 = proc_id s1" "spinlocks s3 = spinlocks s1" "POK_SCHED_CURRENT_THREAD s3 = cur"
    using sched_frameD [OF fr] by (simp_all add: s2_def cur_def POK_SCHED_CURRENT_THREAD_def)
  have np: "new_partition s3 = (p \<noteq> pok_current_partition s1)"
    using arg_cong [OF fr [unfolded sched_frame_def], of new_partition] by (simp add: s2_def)
  have tr: "ks_trace (set_partition_current c q e s3) = ks_trace s3"
    "new_partition (set_partition_current c q e s3) = new_partition s3" for q
    by (simp_all add: set_partition_current_def Let_def upd_partition_def)
  have g3: "gdt_of c g (ks_trace s3) = gdt_of c g (ks_trace s1)"
    using elect_thread_spaces [OF assms(4), of c] by (simp add: same_spaces_def s2_def)
  let ?sy = "switch_space e ?s"
  let ?s4 = "emit (Ev_context_switch cur (t_sp (pok_threads s3 e))) (?sy\<lparr>current_threads := (current_threads ?sy)(proc_id ?sy := e)\<rparr>)"
  have sy: "proc_id ?sy = proc_id s1" "pok_threads ?sy = pok_threads s3" "pok_current_partition ?sy = p"
    using f by (simp_all add: switch_space_def emit_def)
  have "gdt_of c g (ks_trace ?sy) = (if p \<noteq> pok_current_partition s1
      then pok_space_switch c (t_partition (pok_threads s3 cur)) (t_partition (pok_threads s3 e)) (gdt_of c g (ks_trace s1))
      else gdt_of c g (ks_trace s1))"
    using tr np g3 f by (simp add: switch_space_def emit_def POK_CURRENT_THREAD_def)
  moreover have "pok_global_sched_context_switch c e True ?s = Some (arch_context_switch c cur ?s4)"
    using assms(2,6,7) f by (simp add: pok_global_sched_context_switch_def synchro_processors_def Let_def cur_def)
  then have "pok_global_sched c s = Some (arch_context_switch c cur ?s4)"
    using assms(1,2,4,5) f by (simp add: pok_global_sched_def pok_global_sched_thread_def s2_def [symmetric] Let_def)
  ultimately show ?thesis using sy
    by (intro exI [of _ ?s4]) (simp add: emit_def POK_SCHED_CURRENT_THREAD_def)
qed

text \<open>C36: When the global scheduler changes the partition, it opens the address space of the thread it switches to and
  closes that of the thread it leaves: after the switch the segments of the new thread's partition are
  enabled, those of the old one's are not, and all others are as they were.\<close>

theorem global_switch_opens_space:
  assumes "pok_elect_partition c s = Some (p, s1)" "multiprocessing_system c = 0" "p \<noteq> pok_current_partition s1"
    and "pok_elect_thread c p (s1\<lparr>new_partition := True, pok_current_partition := p\<rparr>) = Some (e, s3)" "e < 256"
    and "spinlocks s1 (proc_id s1) = 0" "e \<noteq> POK_SCHED_CURRENT_THREAD s1"
  shows "\<exists>s4. pok_global_sched c s = Some (arch_context_switch c (POK_SCHED_CURRENT_THREAD s1) s4) \<and>
    POK_SCHED_CURRENT_THREAD s4 = e \<and> pok_current_partition s4 = p \<and>
    (let old = t_partition (pok_threads s3 (POK_SCHED_CURRENT_THREAD s1)); new = t_partition (pok_threads s3 e) in
       \<forall>q. space_enabled c (gdt_of c g (ks_trace s4)) q =
         (q = new \<or> (q \<noteq> old \<and> space_enabled c (gdt_of c g (ks_trace s1)) q)))"
  using global_switch [OF assms(1,2), of e s3 g] assms(3-7) by (auto simp: space_switch_enabled Let_def)

text \<open>The demonstration deployment at the end of the first slot, with any thread records.\<close>

definition demo_slot_end :: "(nat \<Rightarrow> pok_thread_t) \<Rightarrow> kstate" where
  "demo_slot_end th = demo_state\<lparr>pok_threads := th\<rparr>"

definition demo_slot_next :: "(nat \<Rightarrow> pok_thread_t) \<Rightarrow> kstate" where
  "demo_slot_next th = demo_state\<lparr>pok_threads := th, pok_sched_current_slot := 1, pok_sched_next_deadline := 200\<rparr>"

lemma demo_elect_partition: "pok_elect_partition demo_config (demo_slot_end th) = Some (1, demo_slot_next th)"
proof -
  have m: "\<not> init_mode (p_mode (demo_partition p))" for p by (simp add: demo_partition_def init_mode_def)
  have s: "pok_sched_next_major_frame demo_state = 200" "pok_sched_slots demo_state i = 100"
    "pok_sched_slots_allocation demo_state i = i" "sched_partiton_func demo_state = Sched_global_timeslice" for i
    by (simp_all add: demo_state_def)
  show ?thesis
    by (simp add: pok_elect_partition_def demo_slot_end_def flush_ports_def next_slot_def Let_def s m
        call_sched_partition_func_def pok_sched_part_global_timeslice_def demo_slot_next_def)
qed

lemma demo_slot_elect:
  assumes "\<And>t. wake_thread 100 (th t) = Some (th t)"
  shows "\<exists>e s'. pok_elect_thread demo_config 1 ((demo_slot_next th)\<lparr>new_partition := True, pok_current_partition := 1\<rparr>) = Some (e, s') \<and>
    (if \<exists>i \<in> {3..<6}. t_state (th i) = POK_STATE_RUNNABLE \<and> t_processor_affinity (th i) = 0 then e \<in> {3..<6} else e = 6) \<and>
    (\<forall>t. t_partition (pok_threads s' t) = t_partition (th t))"
proof -
  define s where "s = (demo_slot_next th)\<lparr>new_partition := True, pok_current_partition := 1\<rparr>"
  have f: "pok_partitions s = demo_partition" "proc_id s = 0" "pok_tick_counter s = 100" "pok_current_partition s = 1"
    "current_threads s = (\<lambda>_. 1)" "POK_SCHED_CURRENT_THREAD s = 1" "pok_threads s = th" "IDLE_THREAD demo_config s = 6"
    by (simp_all add: s_def demo_slot_next_def POK_SCHED_CURRENT_THREAD_def IDLE_THREAD_def)
  have p: "p_nthreads (demo_partition 1) = 3" "p_thread_index_low (demo_partition 1) = 3" "p_thread_index_high (demo_partition 1) = 6"
    "p_mode (demo_partition 1) = POK_PARTITION_MODE_NORMAL" "p_thread_error (demo_partition 1) = 0" "p_sched_func (demo_partition 1) = Sched_part_rr"
    "p_prev_thread (demo_partition 1) 0 = 6" "p_current_thread (demo_partition 1) 0 = 4"
    by (simp_all add: demo_partition_def)
  have "activate_threads demo_config 1 s = Some s"
    by (rule activate_threads_idle) (use assms p(1) in \<open>simp_all add: f\<close>)
  then have prep: "election_prep demo_config 1 s = Some s" by (simp add: election_prep_def ddl_punish_def)
  let ?a = "account_budget demo_config s"
  have "slice_ok demo_config 3 6 6 4 ?a" by (simp add: slice_ok_def f)
  then have n: "normal_election_ok demo_config 1 ?a"
    using p by (simp add: normal_election_ok_def f CURRENT_THREAD_def PREV_THREAD_def sched_pre_def)
  have r: "i \<noteq> 1 \<Longrightarrow> runnable_on ?a i = (t_state (th i) = POK_STATE_RUNNABLE \<and> t_processor_affinity (th i) = 0)" for i
    by (simp add: runnable_on_def account_budget_def Let_def upd_thread_def f)
  obtain e s4 where e: "pok_elect_thread demo_config 1 s = Some (e, set_end_time (pok_tick_counter s) e s4)"
    "elects demo_config 3 6 ?a e" "slices_only (CURRENT_THREAD s 1) ?a s4"
    using elect_normal [OF prep n] p(2,3) f(1) by metis
  have "t_partition (pok_threads ?a t) = t_partition (th t)" for t
    by (simp add: account_budget_def Let_def upd_thread_def f)
  moreover have "t_partition (pok_threads (set_end_time now e s4) t) = t_partition (pok_threads ?a t)" for now t
    using e(3) by (auto simp: slices_only_def set_end_time_def upd_thread_def)
  moreover have "(\<exists>i \<in> {3..<6}. runnable_on ?a i) =
      (\<exists>i \<in> {3..<6}. t_state (th i) = POK_STATE_RUNNABLE \<and> t_processor_affinity (th i) = 0)"
    by (rule bex_cong) (use r in auto)
  ultimately show ?thesis using e(1,2) unfolding s_def [symmetric] elects_def
    by (intro exI [of _ e] exI [of _ "set_end_time (pok_tick_counter s) e s4"]) (auto simp: f split: if_splits)
qed

lemma global_switch_opens_space_witness:
  "\<exists>s4 e. pok_global_sched demo_config (demo_slot_end demo_thread) = Some (arch_context_switch demo_config 1 s4) \<and>
     e \<in> {3..<6} \<and> POK_SCHED_CURRENT_THREAD s4 = e \<and> space_enabled demo_config (gdt_of demo_config (\<lambda>_. gdt_null) (ks_trace s4)) 1"
proof -
  obtain e s' where e: "pok_elect_thread demo_config 1 ((demo_slot_next demo_thread)\<lparr>new_partition := True, pok_current_partition := 1\<rparr>) = Some (e, s')"
    "if \<exists>i \<in> {3..<6}. t_state (demo_thread i) = POK_STATE_RUNNABLE \<and> t_processor_affinity (demo_thread i) = 0 then e \<in> {3..<6} else e = 6"
    "t_partition (pok_threads s' e) = t_partition (demo_thread e)"
    using demo_slot_elect [of demo_thread, OF demo_thread_asleep] by blast
  have "t_state (demo_thread 4) = POK_STATE_RUNNABLE \<and> t_processor_affinity (demo_thread 4) = 0" by (simp add: demo_thread_def)
  then have r: "e \<in> {3..<6}" using e(2) by (auto split: if_splits)
  have f: "multiprocessing_system demo_config = 0" "1 \<noteq> pok_current_partition (demo_slot_next demo_thread)" "e < 256"
    "spinlocks (demo_slot_next demo_thread) (proc_id (demo_slot_next demo_thread)) = 0"
    "POK_SCHED_CURRENT_THREAD (demo_slot_next demo_thread) = 1"
    using r by (simp_all add: demo_slot_next_def POK_SCHED_CURRENT_THREAD_def)
  have "e \<noteq> POK_SCHED_CURRENT_THREAD (demo_slot_next demo_thread)" using r f(5) by auto
  from global_switch_opens_space [OF demo_elect_partition f(1,2) e(1) f(3,4) this, of "\<lambda>_. gdt_null"]
  obtain s4 where s4: "pok_global_sched demo_config (demo_slot_end demo_thread) = Some (arch_context_switch demo_config 1 s4)"
    "POK_SCHED_CURRENT_THREAD s4 = e"
    "space_enabled demo_config (gdt_of demo_config (\<lambda>_. gdt_null) (ks_trace s4)) (t_partition (pok_threads s' e))"
    unfolding f(5) Let_def by blast
  have "t_partition (pok_threads s' e) = 1" using r e(3) by (simp add: demo_thread_def)
  then show ?thesis using r s4 by auto
qed

text \<open>The idle thread belongs to no partition, its record names partition 0. When the slot of another partition
  begins while all of its threads wait, the scheduler switches to the idle thread and opens the space of
  partition 0; when a thread of the partition becomes ready later in the slot, the timer switches to it
  without opening its space: the thread runs with its segments disabled.\<close>

theorem idle_slot_start_closes_space:
  assumes "pok_elect_partition c s = Some (p, s1)" "multiprocessing_system c = 0" "p \<noteq> pok_current_partition s1"
    and "pok_elect_thread c p (s1\<lparr>new_partition := True, pok_current_partition := p\<rparr>) = Some (idle, s3)" "idle < 256"
    and "spinlocks s1 (proc_id s1) = 0" "idle \<noteq> POK_SCHED_CURRENT_THREAD s1"
    and "t_partition (pok_threads s3 idle) \<noteq> p" "\<not> space_enabled c (gdt_of c g (ks_trace s1)) p"
  shows "\<exists>s4. pok_global_sched c s = Some (arch_context_switch c (POK_SCHED_CURRENT_THREAD s1) s4) \<and>
    POK_SCHED_CURRENT_THREAD s4 = idle \<and> pok_current_partition s4 = p \<and>
    (\<forall>s5 s6 e s7. ks_trace s6 = ks_trace s4 \<and> pok_current_partition s6 = p \<and> POK_SCHED_CURRENT_THREAD s6 = idle \<and>
       spinlocks s6 (proc_id s6) = 0 \<and> pok_elect_partition c s5 = Some (p, s6) \<and>
       pok_elect_thread c p (s6\<lparr>new_partition := False\<rparr>) = Some (e, s7) \<and> e \<noteq> idle \<and> e < 256 \<longrightarrow>
       (\<exists>s8. pok_global_sched c s5 = Some (arch_context_switch c idle s8) \<and> POK_SCHED_CURRENT_THREAD s8 = e \<and>
         \<not> space_enabled c (gdt_of c g (ks_trace s8)) p))"
proof -
  obtain s4 where s4: "pok_global_sched c s = Some (arch_context_switch c (POK_SCHED_CURRENT_THREAD s1) s4)"
    "POK_SCHED_CURRENT_THREAD s4 = idle" "pok_current_partition s4 = p" "\<not> space_enabled c (gdt_of c g (ks_trace s4)) p"
    using global_switch [OF assms(1,2), of idle s3 g] assms(3-9) by (auto simp: space_switch_enabled)
  have "\<exists>s8. pok_global_sched c s5 = Some (arch_context_switch c idle s8) \<and> POK_SCHED_CURRENT_THREAD s8 = e \<and>
      \<not> space_enabled c (gdt_of c g (ks_trace s8)) p"
    if a: "ks_trace s6 = ks_trace s4" "pok_current_partition s6 = p" "POK_SCHED_CURRENT_THREAD s6 = idle"
      "spinlocks s6 (proc_id s6) = 0" "pok_elect_partition c s5 = Some (p, s6)"
      "pok_elect_thread c p (s6\<lparr>new_partition := False\<rparr>) = Some (e, s7)" "e \<noteq> idle" "e < 256" for s5 s6 e s7
  proof -
    have eq: "s6\<lparr>new_partition := (p \<noteq> pok_current_partition s6), pok_current_partition := p\<rparr> = s6\<lparr>new_partition := False\<rparr>"
      using a(2) by simp
    obtain s8 where "pok_global_sched c s5 = Some (arch_context_switch c (POK_SCHED_CURRENT_THREAD s6) s8)"
      "POK_SCHED_CURRENT_THREAD s8 = e" "gdt_of c g (ks_trace s8) = gdt_of c g (ks_trace s6)"
      using global_switch [OF a(5) assms(2), unfolded eq, OF a(6,8,4), of g] a(2,3,7) by auto
    then show ?thesis using a(1,3) s4(4) by auto
  qed
  with s4(1-3) show ?thesis by blast
qed

lemma idle_slot_start_closes_space_witness:
  "\<exists>s s4. pok_global_sched demo_config s = Some (arch_context_switch demo_config 1 s4) \<and>
     POK_SCHED_CURRENT_THREAD s4 = 6 \<and> pok_current_partition s4 = 1"
proof -
  define th where "th = (\<lambda>i. if i < 6 then (demo_thread i)\<lparr>t_state := (if i < 3 then POK_STATE_RUNNABLE else POK_STATE_STOPPED)\<rparr>
    else (demo_thread i)\<lparr>t_partition := 0\<rparr>)"
  have "wake_thread 100 (th t) = Some (th t)" for t
    by (simp add: th_def wake_thread_def wake_waiting_def release_period_def demo_thread_def)
  then obtain e s' where e: "pok_elect_thread demo_config 1 ((demo_slot_next th)\<lparr>new_partition := True, pok_current_partition := 1\<rparr>) = Some (e, s')"
    "if \<exists>i \<in> {3..<6}. t_state (th i) = POK_STATE_RUNNABLE \<and> t_processor_affinity (th i) = 0 then e \<in> {3..<6} else e = 6"
    "t_partition (pok_threads s' e) = t_partition (th e)"
    using demo_slot_elect by blast
  have "\<not> (\<exists>i \<in> {3..<6}. t_state (th i) = POK_STATE_RUNNABLE \<and> t_processor_affinity (th i) = 0)" by (auto simp: th_def)
  then have e6: "e = 6" using e(2) by simp
  have f: "multiprocessing_system demo_config = 0" "1 \<noteq> pok_current_partition (demo_slot_next th)" "(6 :: nat) < 256"
    "spinlocks (demo_slot_next th) (proc_id (demo_slot_next th)) = 0" "6 \<noteq> POK_SCHED_CURRENT_THREAD (demo_slot_next th)"
    "POK_SCHED_CURRENT_THREAD (demo_slot_next th) = 1"
    by (simp_all add: demo_slot_next_def POK_SCHED_CURRENT_THREAD_def)
  have "t_partition (pok_threads s' 6) \<noteq> 1" using e(3) by (simp add: e6 th_def)
  moreover have "\<not> space_enabled demo_config (gdt_of demo_config (\<lambda>_. gdt_null) (ks_trace (demo_slot_next th))) 1"
    by (simp add: demo_slot_next_def gdt_of_def space_enabled_def gdt_null_def) (simp add: demo_state_def gdt_null_def)
  ultimately show ?thesis
    using idle_slot_start_closes_space [OF demo_elect_partition f(1,2) e(1) [unfolded e6] f(3,4,5)] unfolding f(6) by blast
qed

end
