(* ===== verification/Pok_Thread.thy ===== *)
theory Pok_Thread
  imports Pok_Global_Sched
begin

text \<open>
  The operations on threads of \<open>kernel/core/thread.c\<close> that the system calls offer: sleeping, suspending, restarting,
  delayed start, status, priority and resumption. Most of them end with an election by the global
  scheduler, so the interesting state is the one they hand to \<open>pok_global_sched\<close>.

  The operations on another thread check its identifier against the slice of the calling partition, with
  the upper bound included (\<open>out_of_partition\<close>). The theorems say that no thread outside the slice and its
  upper bound is reached, and that the thread at the bound, the first one of the next partition, is.
\<close>

subsection \<open>The operations\<close>

text \<open>The test at the start of the operations on a given thread.\<close>

definition out_of_partition :: "nat \<Rightarrow> kstate \<Rightarrow> bool" where
  "out_of_partition tid s =
     (p_thread_index_low (POK_CURRENT_PARTITION s) > tid \<or> p_thread_index_high (POK_CURRENT_PARTITION s) < tid)"

definition pok_thread_sleep :: "pok_config \<Rightarrow> u32 \<Rightarrow> kstate \<Rightarrow> (pok_ret_t \<times> kstate) option" where
  "pok_thread_sleep c us s = do {
     let mytime = ucast us * 1000 + pok_tick_counter s;
     s1 \<leftarrow> pok_sched_thread c True (pok_sched_lock_current_thread_timed mytime s);
     Some (POK_ERRNO_OK, s1)
   }"

definition pok_thread_sleep_until :: "pok_config \<Rightarrow> u32 \<Rightarrow> kstate \<Rightarrow> (pok_ret_t \<times> kstate) option" where
  "pok_thread_sleep_until c us s = do {
     s1 \<leftarrow> pok_sched_thread c True (pok_sched_lock_current_thread_timed (ucast us * 1000) s);
     Some (POK_ERRNO_OK, s1)
   }"

definition pok_thread_suspend :: "pok_config \<Rightarrow> kstate \<Rightarrow> (pok_ret_t \<times> kstate) option" where
  "pok_thread_suspend c s = do { s1 \<leftarrow> pok_sched_stop_self c s; Some (POK_ERRNO_OK, s1) }"

definition pok_thread_restart :: "pok_config \<Rightarrow> nat \<Rightarrow> kstate \<Rightarrow> pok_ret_t \<times> kstate" where
  "pok_thread_restart c tid s =
     (let s1 = upd_thread tid (\<lambda>th. th\<lparr>t_remaining_time_capacity := t_time_capacity th,
                 t_state := POK_STATE_WAIT_NEXT_ACTIVATION, t_wakeup_time := 0\<rparr>) s;
          th = pok_threads s1 tid;
          (sp, s2) = pok_space_context_create c (t_partition th) (t_entry th) (t_processor_affinity th)
                       (t_init_stack_addr th) 0xdead 0xbeaf s1
      in (POK_ERRNO_OK, upd_thread tid (\<lambda>th. th\<lparr>t_sp := sp\<rparr>) s2))"

definition pok_thread_delayed_start :: "pok_config \<Rightarrow> nat \<Rightarrow> u32 \<Rightarrow> kstate \<Rightarrow> (pok_ret_t \<times> kstate) option" where
  "pok_thread_delayed_start c tid us s =
     (let ns = 1000 * ucast us in
      if out_of_partition tid s then Some (POK_ERRNO_THREADATTR, s)
      else let s1 = upd_thread tid (\<lambda>th. th\<lparr>t_priority := t_base_priority th\<rparr>) s;
               s2 = emit (Ev_context_reset (USER_STACK_SIZE c) (t_init_stack_addr (pok_threads s1 tid))) s1;
               normal = (p_mode (pok_partitions s2 (t_partition (pok_threads s2 tid))) = POK_PARTITION_MODE_NORMAL);
               now = pok_tick_counter s2
           in if t_period (pok_threads s2 tid) = INFINITE_TIME_VALUE
              then if normal
                   then do {
                     s3 \<leftarrow> pok_global_sched c
                       (if ns = 0
                        then upd_thread tid (\<lambda>th. if pos64 (t_time_capacity th)
                               then th\<lparr>t_state := POK_STATE_RUNNABLE, t_end_time := now + t_time_capacity th\<rparr>
                               else th\<lparr>t_state := POK_STATE_RUNNABLE\<rparr>) s2
                        else upd_thread tid (\<lambda>th. th\<lparr>t_state := POK_STATE_WAITING, t_wakeup_time := now + ns\<rparr>) s2);
                     Some (POK_ERRNO_OK, s3)
                   }
                   else Some (POK_ERRNO_OK, upd_thread tid (\<lambda>th. th\<lparr>t_state := POK_STATE_DELAYED_START, t_wakeup_time := ns\<rparr>) s2)
              else if normal
                   then Some (POK_ERRNO_OK, upd_thread tid (\<lambda>th. th\<lparr>t_next_activation := ns + now,
                          t_end_time := t_deadline th + (ns + now)\<rparr>) s2)
                   else Some (POK_ERRNO_OK, upd_thread tid (\<lambda>th. th\<lparr>t_state := POK_STATE_DELAYED_START, t_wakeup_time := ns\<rparr>) s2))"

text \<open>The status overwrites some fields of the caller's attribute record.\<close>

definition pok_thread_get_status ::
  "pok_config \<Rightarrow> nat \<Rightarrow> pok_thread_attr_t \<Rightarrow> kstate \<Rightarrow> (pok_ret_t \<times> pok_thread_attr_t) option" where
  "pok_thread_get_status c tid attr s =
     (if out_of_partition tid s then Some (POK_ERRNO_PARAM, attr)
      else do {
        let th = pok_threads s tid;
        affinity \<leftarrow> get_proc_partition_id c (pok_current_partition s) (t_processor_affinity th);
        Some (POK_ERRNO_OK, attr\<lparr>a_deadline := t_end_time th, a_state := t_state th, a_priority := t_priority th,
          a_entry := t_entry th, a_period := t_period th, a_time_capacity := t_time_capacity th,
          a_stack_size := USER_STACK_SIZE c, a_processor_affinity := affinity\<rparr>)
      })"

definition pok_thread_set_priority :: "pok_config \<Rightarrow> nat \<Rightarrow> u32 \<Rightarrow> kstate \<Rightarrow> (pok_ret_t \<times> kstate) option" where
  "pok_thread_set_priority c tid priority s =
     (if out_of_partition tid s then Some (POK_ERRNO_PARAM, s)
      else do {
        s1 \<leftarrow> pok_global_sched c (upd_thread tid (\<lambda>th. th\<lparr>t_priority := ucast priority\<rparr>) s);
        Some (POK_ERRNO_OK, s1)
      })"

definition pok_thread_resume :: "pok_config \<Rightarrow> nat \<Rightarrow> kstate \<Rightarrow> (pok_ret_t \<times> kstate) option" where
  "pok_thread_resume c tid s =
     (if out_of_partition tid s then Some (POK_ERRNO_THREADATTR, s)
      else do {
        s1 \<leftarrow> pok_global_sched c
               (upd_thread tid (\<lambda>th. th\<lparr>t_wakeup_time := pok_tick_counter s, t_state := POK_STATE_RUNNABLE\<rparr>) s);
        Some (POK_ERRNO_OK, s1)
      })"

definition pok_thread_suspend_target :: "nat \<Rightarrow> kstate \<Rightarrow> pok_ret_t \<times> kstate" where
  "pok_thread_suspend_target tid s =
     (if out_of_partition tid s \<or> tid = POK_SCHED_CURRENT_THREAD s then (POK_ERRNO_THREADATTR, s)
      else (POK_ERRNO_OK, upd_thread tid (\<lambda>th. th\<lparr>t_state := POK_STATE_STOPPED\<rparr>) s))"

subsection \<open>Which threads an operation reaches\<close>

text \<open>The states differ in the record of thread \<open>tid\<close> at most, and in the trace.\<close>

definition only_thread :: "nat \<Rightarrow> kstate \<Rightarrow> kstate \<Rightarrow> bool" where
  "only_thread tid s s' = (\<exists>th trace. s' = s\<lparr>pok_threads := (pok_threads s)(tid := th), ks_trace := trace\<rparr>)"

lemma only_thread_simps [simp]:
  "only_thread tid s s" "only_thread tid s s' \<Longrightarrow> only_thread tid s (upd_thread tid f s')"
  "only_thread tid s s' \<Longrightarrow> only_thread tid s (emit ev s')"
proof -
  show "only_thread tid s s"
    unfolding only_thread_def by (intro exI [of _ "pok_threads s tid"] exI [of _ "ks_trace s"]) simp
  {
    assume "only_thread tid s s'"
    then obtain th trace where s': "s' = s\<lparr>pok_threads := (pok_threads s)(tid := th), ks_trace := trace\<rparr>"
      by (auto simp: only_thread_def)
    have "upd_thread tid f s' = s\<lparr>pok_threads := (pok_threads s)(tid := f th), ks_trace := trace\<rparr>"
      and "emit ev s' = s\<lparr>pok_threads := (pok_threads s)(tid := th), ks_trace := trace @ [ev]\<rparr>"
      by (simp_all add: s' upd_thread_def emit_def)
    then show "only_thread tid s (upd_thread tid f s')" "only_thread tid s (emit ev s')"
      unfolding only_thread_def by blast+
  }
qed

text \<open>Every operation on a given thread either refuses it, or works on it alone and then elects.\<close>

definition reaches :: "pok_config \<Rightarrow> nat \<Rightarrow> kstate \<Rightarrow> (pok_ret_t \<times> kstate) option \<Rightarrow> bool" where
  "reaches c tid s r = (\<exists>s1. only_thread tid s s1 \<and>
     (r = Some (POK_ERRNO_OK, s1) \<or> r = Option.bind (pok_global_sched c s1) (\<lambda>s2. Some (POK_ERRNO_OK, s2))))"

lemma delayed_start_reaches:
  assumes "\<not> out_of_partition tid s"
  shows "reaches c tid s (pok_thread_delayed_start c tid us s)"
  using assms unfolding pok_thread_delayed_start_def Let_def reaches_def
  by (auto split: if_splits intro!: exI)

lemma set_priority_reaches: "\<not> out_of_partition tid s \<Longrightarrow> reaches c tid s (pok_thread_set_priority c tid pr s)"
  unfolding pok_thread_set_priority_def reaches_def by (auto intro!: exI)

lemma resume_reaches: "\<not> out_of_partition tid s \<Longrightarrow> reaches c tid s (pok_thread_resume c tid s)"
  unfolding pok_thread_resume_def reaches_def by (auto intro!: exI)

lemma suspend_target_reaches:
  "\<not> out_of_partition tid s \<Longrightarrow> tid \<noteq> POK_SCHED_CURRENT_THREAD s \<Longrightarrow> reaches c tid s (Some (pok_thread_suspend_target tid s))"
  unfolding pok_thread_suspend_target_def reaches_def by (auto intro!: exI)



text \<open>The upper bound of the slice is accepted, although it is the index of the first thread of the next
  partition: any partition can stop that thread, and give it a priority.\<close>

theorem suspend_reaches_next_partition:
  fixes s :: kstate
  defines "tid \<equiv> p_thread_index_high (POK_CURRENT_PARTITION s)"
  assumes "p_thread_index_low (POK_CURRENT_PARTITION s) \<le> tid"
    and "t_partition (pok_threads s tid) \<noteq> pok_current_partition s"
    and "t_partition (POK_CURRENT_THREAD s) = pok_current_partition s"
  shows "\<exists>s'. pok_thread_suspend_target tid s = (POK_ERRNO_OK, s') \<and> t_state (pok_threads s' tid) = POK_STATE_STOPPED \<and>
    t_partition (pok_threads s' tid) \<noteq> pok_current_partition s' \<and>
    pok_thread_set_priority c tid pr s =
      Option.bind (pok_global_sched c (upd_thread tid (\<lambda>th. th\<lparr>t_priority := ucast pr\<rparr>) s)) (\<lambda>s2. Some (POK_ERRNO_OK, s2))"
proof -
  from assms have "\<not> out_of_partition tid s" "tid \<noteq> POK_SCHED_CURRENT_THREAD s"
    by (auto simp: out_of_partition_def POK_CURRENT_THREAD_def)
  then show ?thesis
    using assms(3) by (intro exI [of _ "upd_thread tid (\<lambda>th. th\<lparr>t_state := POK_STATE_STOPPED\<rparr>) s"])
      (simp add: pok_thread_suspend_target_def pok_thread_set_priority_def upd_thread_def)
qed

lemma suspend_reaches_next_partition_witness:
  "\<exists>s'. pok_thread_suspend_target 3 demo_state = (POK_ERRNO_OK, s') \<and> t_state (pok_threads s' 3) = POK_STATE_STOPPED"
  using suspend_reaches_next_partition [of demo_state demo_config 0]
  by (auto simp: POK_CURRENT_PARTITION_def POK_CURRENT_THREAD_def demo_partition_def demo_thread_def)

end
