(* ===== verification/Pok_Loader.thy ===== *)
theory Pok_Loader
  imports Pok_Port
begin

text \<open>
  The loader of partition images, \<open>kernel/core/loader.c\<close> and \<open>kernel/include/elf.h\<close>. The images are ELF files
  that lie one behind the other in the archive the build puts at \<open>__archive2_begin\<close>; the headers are read
  from memory byte by byte in the little-endian order of the machine. A segment is copied to its virtual
  address plus the offset of the partition, and the rest of its size in memory is cleared.

  The main theorem says what the memory holds after a load. It needs the destinations to be disjoint from
  each other and from the image, which nothing in the loader checks; nor does it check that they lie in the
  memory of the partition. A copy between overlapping areas is undefined in C; here it copies the bytes as
  they were before it.
\<close>

subsection \<open>Headers\<close>

record elf32_ehdr =
  e_ident :: "nat \<Rightarrow> u8"
  e_type :: u16
  e_machine :: u16
  e_version :: u32
  e_entry :: u32
  e_phoff :: u32
  e_shoff :: u32
  e_flags :: u32
  e_ehsize :: u16
  e_phentsize :: u16
  e_phnum :: u16
  e_shentsize :: u16
  e_shnum :: u16
  e_shstrndx :: u16

record elf32_phdr =
  ph_type :: u32
  ph_offset :: u32
  ph_vaddr :: u32
  ph_paddr :: u32
  ph_filesz :: u32
  ph_memsz :: u32
  ph_flags :: u32
  ph_align :: u32

definition rd8 :: "(u32 \<Rightarrow> u8) \<Rightarrow> u32 \<Rightarrow> u8" where
  "rd8 m a = m a"

definition rd16 :: "(u32 \<Rightarrow> u8) \<Rightarrow> u32 \<Rightarrow> u16" where
  "rd16 m a = ucast (m a) + 256 * ucast (m (a + 1))"

definition rd32 :: "(u32 \<Rightarrow> u8) \<Rightarrow> u32 \<Rightarrow> u32" where
  "rd32 m a = ucast (m a) + 256 * ucast (m (a + 1)) + 65536 * ucast (m (a + 2)) + 16777216 * ucast (m (a + 3))"

definition rd64 :: "(u32 \<Rightarrow> u8) \<Rightarrow> u32 \<Rightarrow> u64" where
  "rd64 m a = ucast (rd32 m a) + 4294967296 * ucast (rd32 m (a + 4))"

definition wr8 :: "u32 \<Rightarrow> u8 \<Rightarrow> kstate \<Rightarrow> kstate" where
  "wr8 a w = mem_put a (\<lambda>_. w) 1"

definition wr32 :: "u32 \<Rightarrow> u32 \<Rightarrow> kstate \<Rightarrow> kstate" where
  "wr32 a w = mem_put a (\<lambda>i. ucast (drop_bit (8 * i) w)) 4"

definition wr64 :: "u32 \<Rightarrow> u64 \<Rightarrow> kstate \<Rightarrow> kstate" where
  "wr64 a w = mem_put a (\<lambda>i. ucast (drop_bit (8 * i) w)) 8"

definition read_ehdr :: "(u32 \<Rightarrow> u8) \<Rightarrow> u32 \<Rightarrow> elf32_ehdr" where
  "read_ehdr m a = \<lparr>e_ident = (\<lambda>i. rd8 m (a + of_nat i)), e_type = rd16 m (a + 16), e_machine = rd16 m (a + 18),
     e_version = rd32 m (a + 20), e_entry = rd32 m (a + 24), e_phoff = rd32 m (a + 28), e_shoff = rd32 m (a + 32),
     e_flags = rd32 m (a + 36), e_ehsize = rd16 m (a + 40), e_phentsize = rd16 m (a + 42), e_phnum = rd16 m (a + 44),
     e_shentsize = rd16 m (a + 46), e_shnum = rd16 m (a + 48), e_shstrndx = rd16 m (a + 50)\<rparr>"

definition read_phdr :: "(u32 \<Rightarrow> u8) \<Rightarrow> u32 \<Rightarrow> elf32_phdr" where
  "read_phdr m a = \<lparr>ph_type = rd32 m a, ph_offset = rd32 m (a + 4), ph_vaddr = rd32 m (a + 8),
     ph_paddr = rd32 m (a + 12), ph_filesz = rd32 m (a + 16), ph_memsz = rd32 m (a + 20), ph_flags = rd32 m (a + 24),
     ph_align = rd32 m (a + 28)\<rparr>"

subsection \<open>Loading\<close>

definition elf_magic :: "elf32_ehdr \<Rightarrow> bool" where
  "elf_magic h = (e_ident h 0 = 0x7f \<and> e_ident h 1 = 69 \<and> e_ident h 2 = 76 \<and> e_ident h 3 = 70)"

text \<open>The body of the loop over the segments, and the loop, which reads the number of segments from the image
  before every turn.\<close>

definition load_segment :: "u32 \<Rightarrow> u32 \<Rightarrow> elf32_phdr \<Rightarrow> kstate \<Rightarrow> kstate" where
  "load_segment elf offset ph s =
     (let dest = ph_vaddr ph + offset;
          s1 = mem_put dest (mem_view s (ph_offset ph + elf)) (unat (ph_filesz ph)) s
      in mem_put (dest + ph_filesz ph) (\<lambda>_. 0) (unat (ph_memsz ph - ph_filesz ph)) s1)"

function elf_load_loop :: "u32 \<Rightarrow> u32 \<Rightarrow> u32 \<Rightarrow> nat \<Rightarrow> kstate \<Rightarrow> kstate" where
  "elf_load_loop elf offset phdr i s =
     (if i < unat (e_phnum (read_ehdr (ks_mem s) elf))
      then elf_load_loop elf offset phdr (i + 1)
             (load_segment elf offset (read_phdr (ks_mem s) (phdr + 32 * of_nat i)) s)
      else s)"
  by pat_completeness auto

text \<open>The number of segments is a 16-bit value: the loop ends even when it overwrites the image.\<close>

termination elf_load_loop
proof (relation "measure (\<lambda>(elf, offset, phdr, i, s). 65536 - i)")
  fix elf offset phdr :: u32 and i :: nat and s :: kstate
  assume "i < unat (e_phnum (read_ehdr (ks_mem s) elf))"
  moreover have "unat (e_phnum (read_ehdr (ks_mem s) elf)) < 2 ^ LENGTH(16)" by (rule unsigned_less)
  ultimately have "i < 65536" by simp
  then show "((elf, offset, phdr, i + 1, load_segment elf offset (read_phdr (ks_mem s) (phdr + 32 * of_nat i)) s),
      elf, offset, phdr, i, s) \<in> measure (\<lambda>(elf, offset, phdr, i, s). 65536 - i)" by simp
qed simp

declare elf_load_loop.simps [simp del]

text \<open>The entry point is left as it was when the elf is not an ELF file.\<close>

definition pok_loader_elf_load :: "u32 \<Rightarrow> u32 \<Rightarrow> u32 \<Rightarrow> kstate \<Rightarrow> pok_ret_t \<times> u32 \<times> kstate" where
  "pok_loader_elf_load elf offset entry0 s =
     (let h = read_ehdr (ks_mem s) elf in
      if \<not> elf_magic h then (POK_ERRNO_NOTFOUND, entry0, s)
      else (POK_ERRNO_OK, e_entry h, elf_load_loop elf offset (elf + e_phoff h) 0 s))"

definition archive_offset :: "pok_config \<Rightarrow> nat \<Rightarrow> u32" where
  "archive_offset c part_id = fold (\<lambda>t sz. sz + part_sizes c t) [0..<part_id] 0"

definition pok_loader_load_partition :: "pok_config \<Rightarrow> nat \<Rightarrow> u32 \<Rightarrow> kstate \<Rightarrow> (u32 \<times> kstate) option" where
  "pok_loader_load_partition c part_id offset s = do {
     let sz = archive_offset c part_id;
     s1 \<leftarrow> (if p_size (pok_partitions s part_id) < part_sizes c part_id
            then pok_partition_error c part_id POK_ERROR_KIND_PARTITION_CONFIGURATION s else Some s);
     let (_, entry, s2) = pok_loader_elf_load (archive2_begin c + sz) offset 0 s1;
     Some (entry, s2)
   }"

subsection \<open>One segment\<close>

text \<open>The addresses a segment takes in memory, and what they hold afterwards.\<close>

definition segment_area :: "u32 \<Rightarrow> elf32_phdr \<Rightarrow> u32 set" where
  "segment_area offset ph = {a. unat (a - (ph_vaddr ph + offset)) < unat (ph_memsz ph)}"

definition segment_byte :: "(u32 \<Rightarrow> u8) \<Rightarrow> u32 \<Rightarrow> u32 \<Rightarrow> elf32_phdr \<Rightarrow> u32 \<Rightarrow> u8" where
  "segment_byte m elf offset ph a =
     (let k = a - (ph_vaddr ph + offset) in if k < ph_filesz ph then m (ph_offset ph + elf + k) else 0)"

lemma load_segment_mem:
  assumes "ph_filesz ph \<le> ph_memsz ph"
  shows "ks_mem (load_segment elf offset ph s) a =
    (if a \<in> segment_area offset ph then segment_byte (ks_mem s) elf offset ph a else ks_mem s a)"
proof -
  define x f m where "x = a - (ph_vaddr ph + offset)" and "f = ph_filesz ph" and "m = ph_memsz ph"
  have le: "unat f \<le> unat m" using assms by (simp add: f_def m_def word_le_nat_alt)
  have sub: "unat (m - f) = unat m - unat f" using le by (simp add: unat_sub word_le_nat_alt)
  have tail: "unat (x - f) < unat m - unat f \<longleftrightarrow> \<not> unat x < unat f \<and> unat x < unat m"
  proof (cases "unat x < unat f")
    case True
    have "unat m < 2 ^ 32" using unsigned_less [of m] by simp
    moreover have "unat (x - f) = 2 ^ 32 + unat x - unat f"
      using True by (simp add: unat_sub_if_size word_size)
    ultimately show ?thesis using True by linarith
  next
    case False
    then have "unat (x - f) = unat x - unat f" by (simp add: unat_sub word_le_nat_alt)
    with False show ?thesis by linarith
  qed
  have e: "a - (ph_vaddr ph + offset + f) = x - f" by (simp add: x_def f_def algebra_simps)
  have "ks_mem (load_segment elf offset ph s) a =
      (if unat (x - f) < unat m - unat f then 0
       else if unat x < unat f then ks_mem s (ph_offset ph + elf + x) else ks_mem s a)"
    by (simp add: load_segment_def mem_put_def mem_view_def Let_def f_def [symmetric] m_def [symmetric] e
        x_def [symmetric] sub)
  then show ?thesis
    using tail le by (auto simp: segment_area_def segment_byte_def Let_def x_def [symmetric] f_def [symmetric]
        m_def [symmetric] word_less_nat_alt)
qed

subsection \<open>The whole image\<close>

definition image_area :: "u32 \<Rightarrow> nat \<Rightarrow> u32 set" where
  "image_area elf len = {a. unat (a - elf) < len}"

definition nth_phdr :: "(u32 \<Rightarrow> u8) \<Rightarrow> u32 \<Rightarrow> nat \<Rightarrow> elf32_phdr" where
  "nth_phdr m elf i = read_phdr m (elf + e_phoff (read_ehdr m elf) + 32 * of_nat i)"

definition segment_count :: "(u32 \<Rightarrow> u8) \<Rightarrow> u32 \<Rightarrow> nat" where
  "segment_count m elf = unat (e_phnum (read_ehdr m elf))"

text \<open>The headers and the contents of the segments lie in the first \<open>len\<close> bytes of the image, no segment is
  larger in the file than in memory, and the destinations overlap neither each other nor the image.\<close>

definition image_ok :: "(u32 \<Rightarrow> u8) \<Rightarrow> u32 \<Rightarrow> nat \<Rightarrow> u32 \<Rightarrow> bool" where
  "image_ok m elf len offset \<longleftrightarrow> 52 \<le> len \<and>
     unat (e_phoff (read_ehdr m elf)) + 32 * segment_count m elf \<le> len \<and>
     (\<forall>i < segment_count m elf.
        ph_filesz (nth_phdr m elf i) \<le> ph_memsz (nth_phdr m elf i) \<and>
        unat (ph_offset (nth_phdr m elf i)) + unat (ph_filesz (nth_phdr m elf i)) \<le> len \<and>
        segment_area offset (nth_phdr m elf i) \<inter> image_area elf len = {} \<and>
        (\<forall>j < i. segment_area offset (nth_phdr m elf j) \<inter> segment_area offset (nth_phdr m elf i) = {}))"

definition same_image :: "u32 \<Rightarrow> nat \<Rightarrow> (u32 \<Rightarrow> u8) \<Rightarrow> (u32 \<Rightarrow> u8) \<Rightarrow> bool" where
  "same_image elf len m m' = (\<forall>a \<in> image_area elf len. m' a = m a)"

lemma image_address: "k < len \<Longrightarrow> elf + of_nat k \<in> image_area elf len"
  by (auto simp: image_area_def unsigned_of_nat take_bit_nat_eq_self_iff intro: le_less_trans [OF take_bit_nat_less_eq_self])

lemma same_image_byte:
  assumes "same_image elf len m m'" "unat w + k < len"
  shows "m' (elf + w + of_nat k) = m (elf + w + of_nat k)"
proof -
  have "elf + of_nat (unat w + k) \<in> image_area elf len" using assms(2) by (rule image_address)
  then show ?thesis using assms(1) by (simp add: same_image_def add.assoc)
qed

lemma same_image_words:
  assumes "same_image elf len m m'" "unat w + k + 4 \<le> len"
  shows "rd32 m' (elf + w + of_nat k) = rd32 m (elf + w + of_nat k)"
    and "rd16 m' (elf + w + of_nat k) = rd16 m (elf + w + of_nat k)"
proof -
  have b: "m' (elf + w + of_nat k + of_nat j) = m (elf + w + of_nat k + of_nat j)" if "j < 4" for j
    using same_image_byte [OF assms(1), of w "k + j"] assms(2) that by (simp add: add.assoc)
  show "rd32 m' (elf + w + of_nat k) = rd32 m (elf + w + of_nat k)"
    using b [of 0] b [of 1] b [of 2] b [of 3] by (simp add: rd32_def)
  show "rd16 m' (elf + w + of_nat k) = rd16 m (elf + w + of_nat k)"
    using b [of 0] b [of 1] by (simp add: rd16_def)
qed

text \<open>The parts of the header the loader reads.\<close>

lemma same_image_header:
  assumes "same_image elf len m m'" "52 \<le> len"
  shows "e_phnum (read_ehdr m' elf) = e_phnum (read_ehdr m elf)"
  using same_image_words(2) [OF assms(1), of 0 44] assms(2) by (simp add: read_ehdr_def)

lemma same_image_phdr:
  assumes "same_image elf len m m'" "unat w + 32 * i + 32 \<le> len"
  shows "read_phdr m' (elf + w + 32 * of_nat i) = read_phdr m (elf + w + 32 * of_nat i)"
proof -
  have "rd32 m' (elf + w + of_nat (32 * i + k)) = rd32 m (elf + w + of_nat (32 * i + k))" if "k \<le> 28" for k
    using same_image_words(1) [OF assms(1), of w "32 * i + k"] assms(2) that by simp
  from this [of 0] this [of 4] this [of 8] this [of 12] this [of 16] this [of 20] this [of 24] this [of 28]
  show ?thesis by (simp add: read_phdr_def add.assoc)
qed

lemma same_image_segment:
  assumes "same_image elf len m m'" "unat (ph_offset ph) + unat (ph_filesz ph) \<le> len"
  shows "segment_byte m' elf offset ph a = segment_byte m elf offset ph a"
proof (cases "a - (ph_vaddr ph + offset) < ph_filesz ph")
  case True
  define k where "k = unat (a - (ph_vaddr ph + offset))"
  have k: "a - (ph_vaddr ph + offset) = of_nat k" by (simp add: k_def)
  have "k < unat (ph_filesz ph)" using True by (simp add: k_def word_less_nat_alt)
  then have "m' (elf + ph_offset ph + of_nat k) = m (elf + ph_offset ph + of_nat k)"
    using same_image_byte [OF assms(1), of "ph_offset ph" k] assms(2) by simp
  then have "m' (ph_offset ph + elf + of_nat k) = m (ph_offset ph + elf + of_nat k)" by (simp add: add.commute)
  then show ?thesis unfolding segment_byte_def Let_def k by simp
qed (simp add: segment_byte_def Let_def)

lemma load_segment_image:
  assumes "same_image elf len m (ks_mem s)" "ph_filesz ph \<le> ph_memsz ph"
    "segment_area offset ph \<inter> image_area elf len = {}"
  shows "same_image elf len m (ks_mem (load_segment elf offset ph s))"
  using assms by (auto simp: same_image_def load_segment_mem)

lemma elf_load_loop_mem:
  fixes m :: "u32 \<Rightarrow> u8" and s :: kstate and i :: nat
  assumes "image_ok m elf len offset" "same_image elf len m (ks_mem s)"
  defines "n \<equiv> segment_count m elf" and "s' \<equiv> elf_load_loop elf offset (elf + e_phoff (read_ehdr m elf)) i s"
  shows "(\<forall>j a. i \<le> j \<longrightarrow> j < n \<longrightarrow> a \<in> segment_area offset (nth_phdr m elf j) \<longrightarrow>
            ks_mem s' a = segment_byte m elf offset (nth_phdr m elf j) a) \<and>
         (\<forall>a. (\<forall>j. i \<le> j \<longrightarrow> j < n \<longrightarrow> a \<notin> segment_area offset (nth_phdr m elf j)) \<longrightarrow> ks_mem s' a = ks_mem s a)"
  using assms(2) unfolding s'_def
proof (induction "n - i" arbitrary: i s)
  case 0
  have "52 \<le> len" using assms(1) by (simp add: image_ok_def)
  then have "elf_load_loop elf offset (elf + e_phoff (read_ehdr m elf)) i s = s"
    using 0 same_image_header [OF 0(2)] by (subst elf_load_loop.simps) (simp add: n_def segment_count_def)
  with 0 show ?case by simp
next
  case (Suc d)
  let ?ph = "nth_phdr m elf i" and ?p = "elf + e_phoff (read_ehdr m elf)"
  have i: "i < n" using Suc(2) by simp
  have ok: "52 \<le> len" "unat (e_phoff (read_ehdr m elf)) + 32 * n \<le> len" "ph_filesz ?ph \<le> ph_memsz ?ph"
    "unat (ph_offset ?ph) + unat (ph_filesz ?ph) \<le> len" "segment_area offset ?ph \<inter> image_area elf len = {}"
    using assms(1) i by (simp_all add: image_ok_def n_def)
  have dj: "segment_area offset ?ph \<inter> segment_area offset (nth_phdr m elf j) = {}" if "i < j" "j < n" for j
    using assms(1) that unfolding image_ok_def n_def by blast
  have ph: "read_phdr (ks_mem s) (?p + 32 * of_nat i) = ?ph"
    using same_image_phdr [OF Suc(3), of "e_phoff (read_ehdr m elf)" i] ok(2) i by (simp add: nth_phdr_def)
  let ?s = "load_segment elf offset ?ph s"
  have step: "elf_load_loop elf offset ?p i s = elf_load_loop elf offset ?p (i + 1) ?s"
    using i same_image_header [OF Suc(3) ok(1)] ph by (subst elf_load_loop.simps) (simp add: n_def segment_count_def)
  have "same_image elf len m (ks_mem ?s)" using Suc(3) ok(3,5) by (rule load_segment_image)
  note IH = Suc(1) [OF _ this, of "i + 1"]
  have later: "ks_mem (elf_load_loop elf offset ?p i s) a = segment_byte m elf offset (nth_phdr m elf j) a"
    if "i + 1 \<le> j" "j < n" "a \<in> segment_area offset (nth_phdr m elf j)" for j a
    using IH Suc(2) that unfolding step by simp
  have other: "ks_mem (elf_load_loop elf offset ?p i s) a = ks_mem ?s a"
    if "\<forall>j. i + 1 \<le> j \<longrightarrow> j < n \<longrightarrow> a \<notin> segment_area offset (nth_phdr m elf j)" for a
    using IH Suc(2) that unfolding step by simp
  have this_one: "ks_mem (elf_load_loop elf offset ?p i s) a = segment_byte m elf offset ?ph a"
    if "a \<in> segment_area offset ?ph" for a
  proof -
    have "\<forall>j. i + 1 \<le> j \<longrightarrow> j < n \<longrightarrow> a \<notin> segment_area offset (nth_phdr m elf j)"
    proof (intro allI impI)
      fix j
      assume "i + 1 \<le> j" "j < n"
      then have "segment_area offset ?ph \<inter> segment_area offset (nth_phdr m elf j) = {}" by (intro dj) simp_all
      with that show "a \<notin> segment_area offset (nth_phdr m elf j)" by blast
    qed
    from other [OF this] show ?thesis
      using that same_image_segment [OF Suc(3) ok(4)] by (simp add: load_segment_mem [OF ok(3)])
  qed
  show ?case
  proof (intro conjI allI impI)
    fix j a
    assume "i \<le> j" "j < n" "a \<in> segment_area offset (nth_phdr m elf j)"
    then show "ks_mem (elf_load_loop elf offset ?p i s) a = segment_byte m elf offset (nth_phdr m elf j) a"
      using later this_one by (cases "j = i") simp_all
  next
    fix a
    assume a: "\<forall>j. i \<le> j \<longrightarrow> j < n \<longrightarrow> a \<notin> segment_area offset (nth_phdr m elf j)"
    then have "a \<notin> segment_area offset ?ph" using i by simp
    with other [of a] a show "ks_mem (elf_load_loop elf offset ?p i s) a = ks_mem s a"
      by (simp add: load_segment_mem [OF ok(3)])
  qed
qed

subsection \<open>Loading a partition\<close>

lemma load_segment_only_memory: "load_segment elf offset ph s = s\<lparr>ks_mem := ks_mem (load_segment elf offset ph s)\<rparr>"
  by (simp add: load_segment_def mem_put_def Let_def)

lemma elf_load_loop_only_memory:
  "elf_load_loop elf offset phdr i s = s\<lparr>ks_mem := ks_mem (elf_load_loop elf offset phdr i s)\<rparr>"
proof (induction elf offset phdr i s rule: elf_load_loop.induct)
  case (1 elf offset phdr i s)
  show ?case
  proof (cases "i < unat (e_phnum (read_ehdr (ks_mem s) elf))")
    case True
    let ?s = "load_segment elf offset (read_phdr (ks_mem s) (phdr + 32 * of_nat i)) s"
    have "elf_load_loop elf offset phdr i s = elf_load_loop elf offset phdr (i + 1) ?s"
      using True by (subst elf_load_loop.simps) simp
    moreover have "elf_load_loop elf offset phdr (i + 1) ?s = ?s\<lparr>ks_mem := ks_mem (elf_load_loop elf offset phdr (i + 1) ?s)\<rparr>"
      using True by (rule 1)
    moreover have "?s\<lparr>ks_mem := v\<rparr> = s\<lparr>ks_mem := v\<rparr>" for v by (subst load_segment_only_memory) simp
    ultimately show ?thesis by simp
  next
    case False
    then have "elf_load_loop elf offset phdr i s = s" by (subst elf_load_loop.simps) simp
    then show ?thesis by simp
  qed
qed

definition partition_image :: "pok_config \<Rightarrow> nat \<Rightarrow> u32" where
  "partition_image c part_id = archive2_begin c + archive_offset c part_id"

lemma load_partition_cases:
  assumes "\<not> NEEDS_DEBUG c \<or> part_sizes c pid \<le> p_size (pok_partitions s pid)"
  shows "pok_loader_load_partition c pid offset s =
    (if elf_magic (read_ehdr (ks_mem s) (partition_image c pid))
     then Some (e_entry (read_ehdr (ks_mem s) (partition_image c pid)),
                elf_load_loop (partition_image c pid) offset
                  (partition_image c pid + e_phoff (read_ehdr (ks_mem s) (partition_image c pid))) 0 s)
     else Some (0, s))"
  using assms
  by (auto simp: pok_loader_load_partition_def pok_loader_elf_load_def partition_image_def pok_partition_error_def Let_def)

text \<open>C31: Loading a partition puts every segment of its image in place: each byte of the file part of a segment
  is at its address plus the offset of the partition, the rest of its memory size is zero, no other address
  changes, nothing but memory changes, and the entry point is that of the image.\<close>

theorem load_partition_image:
  fixes s :: kstate and c :: pok_config and pid :: nat
  defines "m \<equiv> ks_mem s" and "elf \<equiv> partition_image c pid"
  assumes "\<not> NEEDS_DEBUG c \<or> part_sizes c pid \<le> p_size (pok_partitions s pid)"
    and "elf_magic (read_ehdr m elf)" and "image_ok m elf len offset"
  shows "\<exists>m'. pok_loader_load_partition c pid offset s = Some (e_entry (read_ehdr m elf), s\<lparr>ks_mem := m'\<rparr>) \<and>
    (\<forall>i < segment_count m elf. let ph = nth_phdr m elf i; dest = ph_vaddr ph + offset in
       \<forall>k < unat (ph_memsz ph). m' (dest + of_nat k) =
         (if k < unat (ph_filesz ph) then m (elf + ph_offset ph + of_nat k) else 0)) \<and>
    (\<forall>a. (\<forall>i < segment_count m elf. a \<notin> segment_area offset (nth_phdr m elf i)) \<longrightarrow> m' a = m a)"
proof -
  let ?s = "elf_load_loop elf offset (elf + e_phoff (read_ehdr m elf)) 0 s"
  have r: "pok_loader_load_partition c pid offset s = Some (e_entry (read_ehdr m elf), s\<lparr>ks_mem := ks_mem ?s\<rparr>)"
    using load_partition_cases [OF assms(3)] assms(4) elf_load_loop_only_memory [of elf offset "elf + e_phoff (read_ehdr m elf)" 0 s]
    by (simp add: m_def elf_def)
  have "same_image elf len m (ks_mem s)" by (simp add: same_image_def m_def)
  note mem = elf_load_loop_mem [OF assms(5) this, of 0]
  have seg: "ks_mem ?s (ph_vaddr ph + offset + of_nat k) =
      (if k < unat (ph_filesz ph) then m (elf + ph_offset ph + of_nat k) else 0)"
    if "i < segment_count m elf" "ph = nth_phdr m elf i" "k < unat (ph_memsz ph)" for i k ph
  proof -
    have "unat (ph_memsz ph) < 2 ^ LENGTH(32)" by (rule unsigned_less)
    with that(3) have k: "unat (of_nat k :: u32) = k" by (simp add: unsigned_of_nat take_bit_nat_eq_self)
    then have "ph_vaddr ph + offset + of_nat k \<in> segment_area offset ph" using that(3) by (simp add: segment_area_def)
    with mem that(1,2) have "ks_mem ?s (ph_vaddr ph + offset + of_nat k) =
        segment_byte m elf offset ph (ph_vaddr ph + offset + of_nat k)" by blast
    then show ?thesis by (simp add: segment_byte_def word_less_nat_alt k add.commute)
  qed
  have other: "\<forall>a. (\<forall>i < segment_count m elf. a \<notin> segment_area offset (nth_phdr m elf i)) \<longrightarrow> ks_mem ?s a = m a"
    using mem by (simp add: m_def)
  show ?thesis using r seg other by (intro exI [of _ "ks_mem ?s"] conjI) (simp_all add: Let_def)
qed

text \<open>A small image: one segment of four bytes, to be extended to eight in memory.\<close>

definition demo_image :: "u8 list" where
  "demo_image = [127, 69, 76, 70, 0, 0, 0, 0, 0, 0, 0, 0, 0, 0, 0, 0, 2, 0, 3, 0, 1, 0, 0, 0, 128, 0, 0, 0, 52, 0, 0, 0,
     0, 0, 0, 0, 0, 0, 0, 0, 52, 0, 32, 0, 1, 0, 0, 0, 0, 0, 0, 0,
     1, 0, 0, 0, 84, 0, 0, 0, 128, 0, 0, 0, 128, 0, 0, 0, 4, 0, 0, 0, 8, 0, 0, 0, 7, 0, 0, 0, 0, 16, 0, 0,
     11, 22, 33, 44]"

definition demo_image_memory :: "u32 \<Rightarrow> u8" where
  "demo_image_memory a = (let k = unat (a - 65536) in if k < 88 then demo_image ! k else 99)"

lemma areas_disjoint:
  assumes "unat (x :: u32) + l \<le> unat y" "unat y + l' \<le> 2 ^ 32"
  shows "{a. unat (a - y) < l'} \<inter> {a. unat (a - x) < l} = {}"
proof -
  have "\<not> unat (a - x) < l" if "unat (a - y) < l'" for a
  proof -
    have "unat (a - y) + (unat y - unat x) < 2 ^ 32" using that assms by linarith
    moreover have "unat (y - x) = unat y - unat x" using assms(1) by (simp add: unat_sub word_le_nat_alt)
    ultimately have "unat ((a - y) + (y - x)) = unat (a - y) + (unat y - unat x)"
      using unat_add_lem [of "a - y" "y - x"] by simp
    then have "unat (a - x) = unat (a - y) + (unat y - unat x)" by simp
    then show ?thesis using assms(1) by linarith
  qed
  then show ?thesis by blast
qed

lemma demo_image_headers:
  "elf_magic (read_ehdr demo_image_memory 65536)" "e_phnum (read_ehdr demo_image_memory 65536) = 1"
  "e_phoff (read_ehdr demo_image_memory 65536) = 52" "e_entry (read_ehdr demo_image_memory 65536) = 128"
  "nth_phdr demo_image_memory 65536 0 = \<lparr>ph_type = 1, ph_offset = 84, ph_vaddr = 128, ph_paddr = 128, ph_filesz = 4,
     ph_memsz = 8, ph_flags = 7, ph_align = 4096\<rparr>"
  by (simp_all add: elf_magic_def read_ehdr_def rd8_def rd16_def rd32_def demo_image_memory_def demo_image_def
      nth_phdr_def read_phdr_def)

lemma demo_image_ok: "image_ok demo_image_memory 65536 88 1048576"
  using areas_disjoint [of 65536 88 1048704 8]
  by (simp add: image_ok_def segment_count_def demo_image_headers segment_area_def image_area_def)

lemma load_partition_image_witness:
  "\<exists>m'. pok_loader_load_partition demo_config 0 1048576 (demo_state\<lparr>ks_mem := demo_image_memory\<rparr>) =
      Some (128, demo_state\<lparr>ks_mem := m'\<rparr>) \<and> m' 1048706 = 33 \<and> m' 1048710 = 0"
proof -
  let ?s = "demo_state\<lparr>ks_mem := demo_image_memory\<rparr>"
  have i: "partition_image demo_config 0 = 65536" "ks_mem ?s = demo_image_memory"
    by (simp_all add: partition_image_def archive_offset_def demo_config_def)
  have n: "\<not> NEEDS_DEBUG demo_config \<or> part_sizes demo_config 0 \<le> p_size (pok_partitions ?s 0)" by simp
  from load_partition_image [of demo_config 0 ?s 88 1048576, unfolded i, OF n demo_image_headers(1) demo_image_ok]
  obtain m' where m': "pok_loader_load_partition demo_config 0 1048576 ?s = Some (128, demo_state\<lparr>ks_mem := m'\<rparr>)"
    "\<forall>k < 8. m' (1048704 + of_nat k) = (if k < 4 then demo_image_memory (65620 + of_nat k) else 0)"
    by (auto simp: segment_count_def demo_image_headers Let_def)
  have "m' 1048706 = demo_image_memory 65622" using m'(2) [rule_format, of 2] by simp
  moreover have "demo_image_memory 65622 = 33" by (simp add: demo_image_memory_def demo_image_def)
  moreover have "m' 1048710 = 0" using m'(2) [rule_format, of 6] by simp
  ultimately show ?thesis using m'(1) by auto
qed

text \<open>A file that is not an ELF image is not reported: the result of the loader is dropped, memory stays as it
  is, and the partition goes on with entry point 0. The same holds for a file larger than the partition when
  the kernel has no debugging support.\<close>

theorem load_partition_no_image:
  assumes "\<not> NEEDS_DEBUG c" "\<not> elf_magic (read_ehdr (ks_mem s) (partition_image c pid))"
  shows "pok_loader_load_partition c pid offset s = Some (0, s)"
  using assms load_partition_cases [of c pid s offset] by simp

lemma load_partition_no_image_witness:
  "pok_loader_load_partition demo_config 1 1048576 demo_state = Some (0, demo_state)"
  by (rule load_partition_no_image) (simp_all add: elf_magic_def read_ehdr_def rd8_def demo_state_def)

end
