(* ===== verification/Pok_Partition.thy ===== *)
theory Pok_Partition
  imports Pok_Thread Pok_Loader Pok_Error
begin

text \<open>
  Partitions, \<open>kernel/core/partition.c\<close>: their initialisation at boot, their restart, the change of their mode,
  what a partition can ask about itself, and the operations of its error thread on other threads.

  A local variable C leaves uninitialised is part of the model: the attributes of a main thread that are not
  set come from \<open>junk_attr\<close>, and storing the identifier of a thread whose creation failed has no result
  (\<open>None\<close>). The counters of lock objects are bytes.
\<close>

subsection \<open>Initialisation\<close>

definition partition_sched_func :: "pok_config \<Rightarrow> nat \<Rightarrow> sched_func_t" where
  "partition_sched_func c pid =
     (case PARTITIONS_SCHEDULER c of
        None \<Rightarrow> Sched_part_rr
      | Some sched \<Rightarrow>
          (case sched pid of
             POK_SCHED_RMS \<Rightarrow> if NEEDS_SCHED_RMS c then Sched_part_rms else Sched_part_rr
           | POK_SCHED_STATIC \<Rightarrow> if NEEDS_SCHED_STATIC c then Sched_part_static else Sched_part_rr
           | POK_SCHED_PPS \<Rightarrow> if NEEDS_SCHED_PPS c then Sched_part_pps else Sched_part_rr
           | POK_SCHED_PEDF \<Rightarrow> if NEEDS_SCHED_PEDF c then Sched_part_pedf else Sched_part_rr
           | POK_SCHED_WRR \<Rightarrow> if NEEDS_SCHED_WRR c then Sched_part_wrr else Sched_part_rr
           | POK_SCHED_PWRR \<Rightarrow> if NEEDS_SCHED_PWRR c then Sched_part_pwrr else Sched_part_rr
           | POK_SCHED_MLFQ \<Rightarrow> if NEEDS_SCHED_MLFQ c then Sched_part_mlfq else Sched_part_rr
           | _ \<Rightarrow> Sched_part_rr))"

definition pok_partition_setup_scheduler :: "pok_config \<Rightarrow> nat \<Rightarrow> kstate \<Rightarrow> kstate" where
  "pok_partition_setup_scheduler c pid s = upd_partition pid (\<lambda>p. p\<lparr>p_sched_func := partition_sched_func c pid\<rparr>) s"

definition main_thread_attr :: "pok_config \<Rightarrow> pok_partition_t \<Rightarrow> pok_thread_attr_t" where
  "main_thread_attr c p = (junk_attr c)\<lparr>a_entry := p_thread_main_entry p, a_priority := 1, a_deadline := 0,
     a_period := INFINITE_TIME_VALUE, a_time_capacity := INFINITE_TIME_VALUE, a_processor_affinity := 0\<rparr>"

definition pok_partition_setup_main_thread :: "pok_config \<Rightarrow> nat \<Rightarrow> kstate \<Rightarrow> kstate option" where
  "pok_partition_setup_main_thread c pid s = do {
     (_, main_thread, s1) \<leftarrow> pok_partition_thread_create c (main_thread_attr c (pok_partitions s pid)) pid s;
     tid \<leftarrow> main_thread;
     Some (upd_partition pid (\<lambda>p. p\<lparr>p_thread_main := tid\<rparr>) s1)
   }"

text \<open>The error record after a start.\<close>

definition error_reset :: "pok_partition_t \<Rightarrow> pok_partition_t" where
  "error_reset p = p\<lparr>p_thread_error := 0, p_error_status := (p_error_status p)
     \<lparr>e_failed_thread := 0, e_failed_addr := 0, e_error_kind := POK_ERROR_KIND_INVALID, e_msg_size := 0\<rparr>\<rparr>"

definition pok_partition_reinit :: "pok_config \<Rightarrow> nat \<Rightarrow> kstate \<Rightarrow> kstate option" where
  "pok_partition_reinit c pid s = do {
     let s1 = pok_partition_setup_scheduler c pid s;
     let s2 = upd_partition pid (\<lambda>p. p\<lparr>p_thread_index := 0,
                p_current_thread := (p_current_thread p)(proc_id s := p_thread_index_low p),
                p_prev_thread := (p_prev_thread p)(proc_id s := IDLE_THREAD c s)\<rparr>) s1;
     let s3 = upd_partition pid error_reset s2;
     let p = pok_partitions s3 pid;
     (tmp, s4) \<leftarrow> pok_loader_load_partition c pid (p_base_addr p - p_base_vaddr p) s3;
     pok_partition_setup_main_thread c pid (upd_partition pid (\<lambda>p. p\<lparr>p_thread_main_entry := tmp\<rparr>) s4)
   }"

definition pok_space_base_vaddr :: "u32 \<Rightarrow> u32" where
  "pok_space_base_vaddr addr = 0"

text \<open>The memory of partition \<open>i\<close>: allocated, or at the address the configuration gives.\<close>

definition partition_memory :: "pok_config \<Rightarrow> nat \<Rightarrow> kstate \<Rightarrow> u32 \<times> kstate" where
  "partition_memory c i s =
     (case PROGRAM_LOADADDR c of None \<Rightarrow> pok_bsp_mem_alloc (PARTITIONS_SIZE c i) s | Some addr \<Rightarrow> (addr i, s))"

text \<open>The thread slice and the scheduling data of partition \<open>i\<close>, the first free thread being \<open>threads_index\<close>.\<close>

definition partition_threads_setup :: "pok_config \<Rightarrow> nat \<Rightarrow> nat \<Rightarrow> nat \<Rightarrow> pok_partition_t \<Rightarrow> pok_partition_t" where
  "partition_threads_setup c i threads_index main_proc p = p\<lparr>
     p_sched := (case PARTITIONS_SCHEDULER c of None \<Rightarrow> POK_SCHED_RR | Some sched \<Rightarrow> sched i),
     p_thread_index_high := p_thread_index_low p + PARTITIONS_NTHREADS c i,
     p_activation := 0, p_period := 0, p_thread_index := 0, p_thread_main := 0, p_thread_main_proc := main_proc,
     p_current_thread := (\<lambda>j. if j < NB_PROCESSORS c then NB_THREADS c - 2 - j else p_current_thread p j),
     p_prev_thread := (\<lambda>j. if j < NB_PROCESSORS c then NB_THREADS c - 2 - j else p_prev_thread p j),
     p_mode := POK_PARTITION_MODE_INIT_WARM\<rparr>"

definition partition_lockobjs_setup :: "pok_config \<Rightarrow> nat \<Rightarrow> nat \<Rightarrow> pok_partition_t \<Rightarrow> pok_partition_t" where
  "partition_lockobjs_setup c i lockobj_index p = p\<lparr>p_lockobj_index_low := lockobj_index,
     p_lockobj_index_high := (lockobj_index + PARTITIONS_NLOCKOBJECTS c i mod 256) mod 256,
     p_nlockobjs := PARTITIONS_NLOCKOBJECTS c i mod 256\<rparr>"

text \<open>The body of the loop, over the state and the two counters.\<close>

definition partition_init_step :: "pok_config \<Rightarrow> nat \<Rightarrow> kstate \<times> nat \<times> nat \<Rightarrow> (kstate \<times> nat \<times> nat) option" where
  "partition_init_step c i = (\<lambda>(s0, threads_index, lockobj_index). do {
     let sz = PARTITIONS_SIZE c i;
     let (base_addr, s1) = partition_memory c i s0;
     let base_vaddr = pok_space_base_vaddr base_addr;
     let s2 = pok_partition_setup_scheduler c i
                (upd_partition i (\<lambda>p. p\<lparr>p_base_addr := base_addr, p_size := sz, p_sched := POK_SCHED_RR\<rparr>) s1);
     let s3 = emit (Ev_create_space i base_addr sz) s2;
     let s4 = upd_partition i (\<lambda>p. p\<lparr>p_base_vaddr := base_vaddr, p_thread_index_low := threads_index,
                p_nthreads := PARTITIONS_NTHREADS c i\<rparr>) s3;
     s5 \<leftarrow> (if PARTITIONS_NTHREADS c i < 1
            then pok_partition_error c i POK_ERROR_KIND_PARTITION_CONFIGURATION s4 else Some s4);
     main_proc \<leftarrow> get_default_proc_real_id c i;
     let s6 = upd_partition i (partition_threads_setup c i threads_index main_proc) s5;
     s7 \<leftarrow> byte_loop (NB_PROCESSORS c) (\<lambda>k s. Some (s\<lparr>current_threads := (current_threads s)(k := KERNEL_THREAD c)\<rparr>)) s6;
     let s8 = upd_partition i (\<lambda>p. error_reset (partition_lockobjs_setup c i lockobj_index p)) s7;
     (program_entry, s9) \<leftarrow> pok_loader_load_partition c i (base_addr - base_vaddr) s8;
     let s10 = upd_partition i (\<lambda>p. p\<lparr>p_thread_main_entry := program_entry, p_lock_level := 0,
                 p_start_condition := NORMAL_START\<rparr>) s9;
     s11 \<leftarrow> pok_partition_setup_main_thread c i s10;
     Some (s11, threads_index + PARTITIONS_NTHREADS c i,
           (lockobj_index + PARTITIONS_NLOCKOBJECTS c i mod 256) mod 256)
   })"

definition pok_partition_init :: "pok_config \<Rightarrow> kstate \<Rightarrow> (pok_ret_t \<times> kstate) option" where
  "pok_partition_init c s = do {
     (s1, _, _) \<leftarrow> byte_loop (NB_PARTITIONS c) (partition_init_step c) (s, 0, 0);
     Some (POK_ERRNO_OK, s1)
   }"

subsection \<open>The mode of a partition\<close>

text \<open>What the change to the normal mode does to a thread whose start was delayed before.\<close>

definition start_delayed :: "u64 \<Rightarrow> u64 \<Rightarrow> u64 \<Rightarrow> pok_thread_t \<Rightarrow> pok_thread_t" where
  "start_delayed now major_frame activation th =
     (let started = (\<lambda>st th. let th1 = th\<lparr>t_state := st, t_wakeup_time := t_wakeup_time th + now\<rparr>
                in if pos64 (t_time_capacity th1)
                   then th1\<lparr>t_end_time := t_wakeup_time th1 + t_time_capacity th1\<rparr> else th1)
      in if t_state th \<noteq> POK_STATE_DELAYED_START then th
         else if t_period th = INFINITE_TIME_VALUE
         then started (if t_wakeup_time th = 0 then POK_STATE_RUNNABLE else POK_STATE_WAITING) th
         else if t_wakeup_time th = 0 then started POK_STATE_RUNNABLE th
         else (let next = t_wakeup_time th + major_frame + activation
               in th\<lparr>t_next_activation := next, t_end_time := next + t_time_capacity th,
                     t_state := POK_STATE_WAIT_NEXT_ACTIVATION\<rparr>))"

definition start_delayed_threads :: "nat \<Rightarrow> kstate \<Rightarrow> kstate" where
  "start_delayed_threads pid s = fold (\<lambda>i s. upd_thread (p_thread_index_low (POK_CURRENT_PARTITION s) + i)
       (start_delayed (pok_tick_counter s) (pok_sched_major_frame s) (p_activation (POK_CURRENT_PARTITION s))) s)
     [0..<p_nthreads (pok_partitions s pid)] s"

definition error_thread_calls :: "kstate \<Rightarrow> bool" where
  "error_thread_calls s = (p_thread_error (POK_CURRENT_PARTITION s) \<noteq> 0 \<and>
     POK_SCHED_CURRENT_THREAD s = p_thread_error (POK_CURRENT_PARTITION s))"

definition set_partition_mode :: "nat \<Rightarrow> pok_partition_mode_t \<Rightarrow> kstate \<Rightarrow> kstate" where
  "set_partition_mode pid mode s = upd_partition pid (\<lambda>p. p\<lparr>p_mode := mode\<rparr>) s"

definition pok_partition_set_mode ::
  "pok_config \<Rightarrow> nat \<Rightarrow> pok_partition_mode_t \<Rightarrow> kstate \<Rightarrow> (pok_ret_t \<times> kstate) option" where
  "pok_partition_set_mode c pid mode s =
     (case mode of
        POK_PARTITION_MODE_NORMAL \<Rightarrow>
          if p_mode (pok_partitions s pid) = POK_PARTITION_MODE_IDLE then Some (POK_ERRNO_PARTITION_MODE, s)
          else if POK_SCHED_CURRENT_THREAD s \<noteq> p_thread_main (POK_CURRENT_PARTITION s)
          then Some (POK_ERRNO_PARTITION_MODE, s)
          else do {
            let s1 = start_delayed_threads pid (set_partition_mode pid mode s);
            s2 \<leftarrow> pok_global_sched c (pok_sched_stop_thread (p_thread_main (pok_partitions s1 pid)) s1);
            Some (POK_ERRNO_OK, s2)
          }
      | POK_PARTITION_MODE_STOPPED \<Rightarrow>
          if \<not> error_thread_calls s then Some (POK_ERRNO_PARTITION_MODE, s)
          else do {
            s1 \<leftarrow> pok_global_sched c (set_partition_mode pid mode s);
            Some (POK_ERRNO_OK, s1)
          }
      | _ \<Rightarrow>
          if mode \<noteq> POK_PARTITION_MODE_INIT_WARM \<and> mode \<noteq> POK_PARTITION_MODE_INIT_COLD
          then Some (POK_ERRNO_PARTITION_MODE, s)
          else if p_mode (pok_partitions s pid) = POK_PARTITION_MODE_INIT_COLD \<and> mode = POK_PARTITION_MODE_INIT_WARM
          then Some (POK_ERRNO_PARTITION_MODE, s)
          else if \<not> error_thread_calls s then Some (POK_ERRNO_PARTITION_MODE, s)
          else do {
            s1 \<leftarrow> pok_partition_reinit c pid (set_partition_mode pid mode s);
            s2 \<leftarrow> pok_global_sched c s1;
            Some (POK_ERRNO_OK, s2)
          })"

definition pok_partition_set_mode_current ::
  "pok_config \<Rightarrow> pok_partition_mode_t \<Rightarrow> kstate \<Rightarrow> (pok_ret_t \<times> kstate) option" where
  "pok_partition_set_mode_current c mode s =
     (if POK_SCHED_CURRENT_THREAD s \<noteq> p_thread_main (POK_CURRENT_PARTITION s) \<and>
         POK_SCHED_CURRENT_THREAD s \<noteq> p_thread_error (POK_CURRENT_PARTITION s)
      then Some (POK_ERRNO_THREAD, s)
      else pok_partition_set_mode c (pok_current_partition s) mode s)"

subsection \<open>What a partition can ask, and its error thread\<close>

definition pok_current_partition_get_id :: "kstate \<Rightarrow> pok_ret_t \<times> nat" where
  "pok_current_partition_get_id s = (POK_ERRNO_OK, pok_current_partition s)"

definition pok_current_partition_get_period :: "kstate \<Rightarrow> pok_ret_t \<times> u64" where
  "pok_current_partition_get_period s = (POK_ERRNO_OK, ucast (p_period (POK_CURRENT_PARTITION s)))"

definition pok_current_partition_get_duration :: "kstate \<Rightarrow> pok_ret_t \<times> u64" where
  "pok_current_partition_get_duration s = (POK_ERRNO_OK, pok_sched_slots s (pok_current_partition s))"

definition pok_current_partition_get_operating_mode :: "kstate \<Rightarrow> pok_ret_t \<times> pok_partition_mode_t" where
  "pok_current_partition_get_operating_mode s = (POK_ERRNO_OK, p_mode (POK_CURRENT_PARTITION s))"

definition pok_current_partition_get_lock_level :: "kstate \<Rightarrow> pok_ret_t \<times> u32" where
  "pok_current_partition_get_lock_level s = (POK_ERRNO_OK, p_lock_level (POK_CURRENT_PARTITION s))"

definition pok_current_partition_get_start_condition :: "kstate \<Rightarrow> pok_ret_t \<times> pok_start_condition_t" where
  "pok_current_partition_get_start_condition s = (POK_ERRNO_OK, p_start_condition (POK_CURRENT_PARTITION s))"

text \<open>The identifier relative to the partition is added in 32 bits.\<close>

definition partition_thread_id :: "u32 \<Rightarrow> kstate \<Rightarrow> nat" where
  "partition_thread_id tid s = unat (tid + of_nat (p_thread_index_low (POK_CURRENT_PARTITION s)))"

definition pok_partition_stop_thread :: "pok_config \<Rightarrow> u32 \<Rightarrow> kstate \<Rightarrow> (pok_ret_t \<times> kstate) option" where
  "pok_partition_stop_thread c tid s =
     (if POK_SCHED_CURRENT_THREAD s \<noteq> p_thread_error (POK_CURRENT_PARTITION s) then Some (POK_ERRNO_THREAD, s)
      else if out_of_partition (partition_thread_id tid s) s then Some (POK_ERRNO_THREADATTR, s)
      else do {
        s1 \<leftarrow> pok_global_sched c (pok_sched_stop_thread (partition_thread_id tid s) s);
        Some (POK_ERRNO_OK, s1)
      })"

definition pok_partition_restart_thread :: "pok_config \<Rightarrow> u32 \<Rightarrow> kstate \<Rightarrow> (pok_ret_t \<times> kstate) option" where
  "pok_partition_restart_thread c tid s =
     (if POK_SCHED_CURRENT_THREAD s \<noteq> p_thread_error (POK_CURRENT_PARTITION s) then Some (POK_ERRNO_THREAD, s)
      else if out_of_partition (partition_thread_id tid s) s then Some (POK_ERRNO_THREADATTR, s)
      else do {
        s1 \<leftarrow> pok_global_sched c (snd (pok_thread_restart c (partition_thread_id tid s) s));
        Some (POK_ERRNO_OK, s1)
      })"

subsection \<open>The layout after the initialisation\<close>

lemma load_partition_total:
  assumes "\<not> NEEDS_DEBUG c \<or> part_sizes c pid \<le> p_size (pok_partitions s pid)"
  shows "\<exists>e m. pok_loader_load_partition c pid offset s = Some (e, s\<lparr>ks_mem := m\<rparr>)"
proof (cases "elf_magic (read_ehdr (ks_mem s) (partition_image c pid))")
  case True
  then show ?thesis
    using load_partition_cases [OF assms] elf_load_loop_only_memory by (auto intro!: exI)
next
  case False
  then show ?thesis
    using load_partition_cases [OF assms, of offset] by (intro exI [of _ 0] exI [of _ "ks_mem s"]) simp
qed

text \<open>The first processor of every partition satisfies the assertions of a thread creation.\<close>

definition main_proc_ok :: "pok_config \<Rightarrow> nat \<Rightarrow> nat \<Rightarrow> bool" where
  "main_proc_ok c i a = (get_default_proc_real_id c i = Some a \<and> a < 31 \<and>
     (if multiprocessing_system c \<noteq> 0 then a < multiprocessing_system c else a = 0))"

lemma setup_main_thread_success:
  fixes s :: kstate and pid :: nat
  defines "p \<equiv> pok_partitions s pid"
  assumes "init_mode (p_mode p)" "p_thread_index p = 0" "p_thread_index_low p < p_thread_index_high p"
    and "main_proc_ok c pid a" "p_thread_main_proc p = a"
  shows "pok_partition_setup_main_thread c pid s =
    Some (upd_partition pid (\<lambda>p. p\<lparr>p_thread_main := p_thread_index_low p\<rparr>)
           (create_unsorted c s pid (main_thread_attr c p) a))"
proof -
  have "create_affinity_ok c s pid (main_thread_attr c p) a"
    using assms(5,6) by (simp add: create_affinity_ok_def main_proc_ok_def get_default_proc_real_id_def
        main_thread_attr_def p_def)
  then have "pok_partition_thread_create c (main_thread_attr c p) pid s =
      Some (POK_ERRNO_OK, Some (p_thread_index_low p), create_unsorted c s pid (main_thread_attr c p) a)"
    using thread_create_success [of s pid "main_thread_attr c p" c a] assms(2-4) by (simp add: p_def Let_def)
  then show ?thesis
    by (simp add: pok_partition_setup_main_thread_def p_def upd_partition_def create_unsorted_def Let_def)
qed

text \<open>What the initialisation of partition \<open>i\<close> leaves in its record and in the record of its main thread.\<close>

definition partition_ready :: "pok_config \<Rightarrow> nat \<Rightarrow> u32 \<Rightarrow> nat \<Rightarrow> kstate \<Rightarrow> bool" where
  "partition_ready c i base low s =
     (let p = pok_partitions s i; main = pok_threads s low
      in p_base_addr p = base \<and> p_base_vaddr p = 0 \<and> p_size p = PARTITIONS_SIZE c i \<and>
         p_thread_index_low p = low \<and> p_thread_index_high p = low + PARTITIONS_NTHREADS c i \<and>
         p_nthreads p = PARTITIONS_NTHREADS c i \<and> p_thread_main p = low \<and> p_thread_index p = 1 \<and>
         p_mode p = POK_PARTITION_MODE_INIT_WARM \<and> p_sched_func p = partition_sched_func c i \<and>
         p_thread_error p = 0 \<and> e_error_kind (p_error_status p) = POK_ERROR_KIND_INVALID \<and>
         get_default_proc_real_id c i = Some (p_thread_main_proc p) \<and>
         t_partition main = i \<and> t_entry main = p_thread_main_entry p \<and> t_state main = POK_STATE_RUNNABLE \<and>
         t_priority main = 1 \<and> t_processor_affinity main = p_thread_main_proc p \<and>
         t_init_stack_addr main = PARTITIONS_SIZE c i - 4 - USER_STACK_SIZE c)"

definition memory_taken :: "pok_config \<Rightarrow> nat \<Rightarrow> u32" where
  "memory_taken c i = (case PROGRAM_LOADADDR c of None \<Rightarrow> PARTITIONS_SIZE c i | Some _ \<Rightarrow> 0)"

definition partition_base :: "pok_config \<Rightarrow> nat \<Rightarrow> kstate \<Rightarrow> u32" where
  "partition_base c i s = (case PROGRAM_LOADADDR c of None \<Rightarrow> pok_x86_pm_brk s | Some addr \<Rightarrow> addr i)"

lemma partition_memory_eq:
  "partition_memory c i s = (partition_base c i s, s\<lparr>pok_x86_pm_brk := pok_x86_pm_brk s + memory_taken c i\<rparr>)"
  by (simp add: partition_memory_def partition_base_def memory_taken_def pok_bsp_mem_alloc_def pok_pm_sbrk_def Let_def
      split: option.split)

text \<open>The threads of the kernel are running on every processor from the first step on.\<close>

lemma kernel_threads_set:
  "fold (\<lambda>k s. s\<lparr>current_threads := (current_threads s)(k := v)\<rparr>) [0..<n] s =
     s\<lparr>current_threads := (\<lambda>k. if k < n then v else current_threads s k)\<rparr>"
  by (induction n) (auto simp: fun_eq_iff)

lemma partition_init_step_success:
  assumes "NB_PROCESSORS c \<le> 255" "0 < PARTITIONS_NTHREADS c i" "main_proc_ok c i a"
    and "\<not> NEEDS_DEBUG c \<or> part_sizes c i \<le> PARTITIONS_SIZE c i"
  shows "\<exists>s'. partition_init_step c i (s, low, lo) =
      Some (s', low + PARTITIONS_NTHREADS c i, (lo + PARTITIONS_NLOCKOBJECTS c i mod 256) mod 256) \<and>
    partition_ready c i (partition_base c i s) low s' \<and>
    (\<forall>j. j \<noteq> i \<longrightarrow> pok_partitions s' j = pok_partitions s j) \<and> (\<forall>t. t \<noteq> low \<longrightarrow> pok_threads s' t = pok_threads s t) \<and>
    pok_x86_pm_brk s' = pok_x86_pm_brk s + memory_taken c i + KERNEL_STACK_SIZE \<and>
    proc_id s' = proc_id s \<and> pok_tick_counter s' = pok_tick_counter s"
proof -
  have a: "get_default_proc_real_id c i = Some a" using assms(3) by (simp add: main_proc_ok_def)
  let ?base = "partition_base c i s"
  define s6 where "s6 = upd_partition i (partition_threads_setup c i low a)
      (upd_partition i (\<lambda>p. p\<lparr>p_base_vaddr := 0, p_thread_index_low := low, p_nthreads := PARTITIONS_NTHREADS c i\<rparr>)
        (emit (Ev_create_space i ?base (PARTITIONS_SIZE c i))
          (pok_partition_setup_scheduler c i
            (upd_partition i (\<lambda>p. p\<lparr>p_base_addr := ?base, p_size := PARTITIONS_SIZE c i, p_sched := POK_SCHED_RR\<rparr>)
              (s\<lparr>pok_x86_pm_brk := pok_x86_pm_brk s + memory_taken c i\<rparr>)))))"
  define s7 where "s7 = s6\<lparr>current_threads := (\<lambda>k. if k < NB_PROCESSORS c then KERNEL_THREAD c else current_threads s6 k)\<rparr>"
  define s8 where "s8 = upd_partition i (\<lambda>p. error_reset (partition_lockobjs_setup c i lo p)) s7"
  have loop: "byte_loop (NB_PROCESSORS c) (\<lambda>k s. Some (s\<lparr>current_threads := (current_threads s)(k := KERNEL_THREAD c)\<rparr>)) s6 =
      Some s7" using assms(1) by (simp add: kernel_threads_set s7_def)
  define p8 where "p8 = pok_partitions s8 i"
  have p8: "p_base_addr p8 = ?base" "p_base_vaddr p8 = 0" "p_size p8 = PARTITIONS_SIZE c i" "p_thread_index_low p8 = low"
    "p_thread_index_high p8 = low + PARTITIONS_NTHREADS c i" "p_nthreads p8 = PARTITIONS_NTHREADS c i"
    "p_mode p8 = POK_PARTITION_MODE_INIT_WARM" "p_thread_index p8 = 0" "p_thread_main_proc p8 = a"
    "p_sched_func p8 = partition_sched_func c i" "p_thread_error p8 = 0"
    "e_error_kind (p_error_status p8) = POK_ERROR_KIND_INVALID"
    by (simp_all add: p8_def s8_def s7_def s6_def upd_partition_def error_reset_def partition_lockobjs_setup_def
        partition_threads_setup_def emit_def pok_partition_setup_scheduler_def)
  have f8: "pok_threads s8 = pok_threads s" "j \<noteq> i \<Longrightarrow> pok_partitions s8 j = pok_partitions s j"
    "pok_x86_pm_brk s8 = pok_x86_pm_brk s + memory_taken c i" "proc_id s8 = proc_id s"
    "pok_tick_counter s8 = pok_tick_counter s" for j
    by (simp_all add: s8_def s7_def s6_def upd_partition_def emit_def pok_partition_setup_scheduler_def)
  obtain e m where load: "pok_loader_load_partition c i ?base s8 = Some (e, s8\<lparr>ks_mem := m\<rparr>)"
    using load_partition_total [of c i s8 ?base] assms(4) p8(3) by (auto simp: p8_def)
  define s10 where "s10 = upd_partition i (\<lambda>p. p\<lparr>p_thread_main_entry := e, p_lock_level := 0,
      p_start_condition := NORMAL_START\<rparr>) (s8\<lparr>ks_mem := m\<rparr>)"
  define p10 where "p10 = pok_partitions s10 i"
  have p10: "p10 = p8\<lparr>p_thread_main_entry := e, p_lock_level := 0, p_start_condition := NORMAL_START\<rparr>"
    by (simp add: p10_def s10_def p8_def upd_partition_def)
  have f10: "pok_threads s10 = pok_threads s" "j \<noteq> i \<Longrightarrow> pok_partitions s10 j = pok_partitions s j"
    "pok_x86_pm_brk s10 = pok_x86_pm_brk s + memory_taken c i" "proc_id s10 = proc_id s"
    "pok_tick_counter s10 = pok_tick_counter s" for j
    using f8 by (simp_all add: s10_def upd_partition_def)
  define s' where "s' = upd_partition i (\<lambda>p. p\<lparr>p_thread_main := p_thread_index_low p\<rparr>)
      (create_unsorted c s10 i (main_thread_attr c p10) a)"
  have "pok_partition_setup_main_thread c i s10 = Some s'"
    using setup_main_thread_success [of s10 i c a] assms(2,3) p8 by (simp add: s'_def p10_def [symmetric] p10 init_mode_def)
  then have run: "partition_init_step c i (s, low, lo) =
      Some (s', low + PARTITIONS_NTHREADS c i, (lo + PARTITIONS_NLOCKOBJECTS c i mod 256) mod 256)"
    using assms(2) by (simp add: partition_init_step_def partition_memory_eq pok_space_base_vaddr_def Let_def a
        s6_def [symmetric] loop s8_def [symmetric] load s10_def [symmetric])
  have th: "pok_threads s' low = created_thread c s10 i (main_thread_attr c p10) a"
    "\<forall>t. t \<noteq> low \<longrightarrow> pok_threads s' t = pok_threads s t" "\<forall>j. j \<noteq> i \<longrightarrow> pok_partitions s' j = pok_partitions s j"
    "pok_partitions s' i = p10\<lparr>p_thread_index := 1, p_thread_main := low\<rparr>"
    "pok_x86_pm_brk s' = pok_x86_pm_brk s + memory_taken c i + KERNEL_STACK_SIZE"
    "proc_id s' = proc_id s" "pok_tick_counter s' = pok_tick_counter s"
    using f10 p8 by (simp_all add: s'_def create_unsorted_def upd_partition_def Let_def p10_def [symmetric] p10)
  have "partition_ready c i ?base low s'"
    using p8 a by (simp add: partition_ready_def th Let_def p10 created_thread_def p10_def [symmetric] main_thread_attr_def
        thread_from_attr_def pok_sched_get_priority_max_def pok_sched_get_priority_min_def INFINITE_TIME_VALUE_def)
  then show ?thesis using run th by (intro exI [of _ s'] conjI) auto
qed

definition first_thread :: "pok_config \<Rightarrow> nat \<Rightarrow> nat" where
  "first_thread c i = (\<Sum>j<i. PARTITIONS_NTHREADS c j)"

definition heap_before :: "pok_config \<Rightarrow> u32 \<Rightarrow> nat \<Rightarrow> u32" where
  "heap_before c brk i = brk + (\<Sum>j<i. memory_taken c j + KERNEL_STACK_SIZE)"

definition base_of :: "pok_config \<Rightarrow> u32 \<Rightarrow> nat \<Rightarrow> u32" where
  "base_of c brk i = (case PROGRAM_LOADADDR c of None \<Rightarrow> heap_before c brk i | Some addr \<Rightarrow> addr i)"

lemma first_thread_less: "(\<And>k. k < n \<Longrightarrow> 0 < PARTITIONS_NTHREADS c k) \<Longrightarrow> i < n \<Longrightarrow> first_thread c i < first_thread c n"
proof (induction n)
  case (Suc n)
  have "first_thread c (Suc n) = first_thread c n + PARTITIONS_NTHREADS c n" by (simp add: first_thread_def)
  with Suc show ?case by (cases "i = n") (fastforce simp: less_Suc_eq)+
qed simp

lemma partition_ready_cong:
  "pok_partitions s' i = pok_partitions s i \<Longrightarrow> pok_threads s' low = pok_threads s low \<Longrightarrow>
   partition_ready c i base low s' = partition_ready c i base low s"
  by (simp add: partition_ready_def Let_def)

definition deployment_ok :: "pok_config \<Rightarrow> bool" where
  "deployment_ok c = (NB_PARTITIONS c \<le> 255 \<and> NB_PROCESSORS c \<le> 255 \<and>
     (\<forall>i<NB_PARTITIONS c. 0 < PARTITIONS_NTHREADS c i \<and> (\<exists>a. main_proc_ok c i a) \<and>
        (\<not> NEEDS_DEBUG c \<or> part_sizes c i \<le> PARTITIONS_SIZE c i)))"

lemma partition_init_loop:
  assumes "deployment_ok c" "n \<le> NB_PARTITIONS c"
  shows "\<exists>s' lo. for_loop [0..<n] (partition_init_step c) (s, 0, 0) = Some (s', first_thread c n, lo) \<and>
    (\<forall>i<n. partition_ready c i (base_of c (pok_x86_pm_brk s) i) (first_thread c i) s') \<and>
    pok_x86_pm_brk s' = heap_before c (pok_x86_pm_brk s) n \<and>
    proc_id s' = proc_id s \<and> pok_tick_counter s' = pok_tick_counter s"
  using assms(2)
proof (induction n)
  case 0
  then show ?case by (simp add: first_thread_def heap_before_def)
next
  case (Suc n)
  then obtain s1 lo where s1: "for_loop [0..<n] (partition_init_step c) (s, 0, 0) = Some (s1, first_thread c n, lo)"
    "\<forall>i<n. partition_ready c i (base_of c (pok_x86_pm_brk s) i) (first_thread c i) s1"
    "pok_x86_pm_brk s1 = heap_before c (pok_x86_pm_brk s) n" "proc_id s1 = proc_id s"
    "pok_tick_counter s1 = pok_tick_counter s" by auto
  have n: "n < NB_PARTITIONS c" using Suc.prems by simp
  with assms(1) obtain a where ok: "NB_PROCESSORS c \<le> 255" "0 < PARTITIONS_NTHREADS c n" "main_proc_ok c n a"
    "\<not> NEEDS_DEBUG c \<or> part_sizes c n \<le> PARTITIONS_SIZE c n" by (auto simp: deployment_ok_def)
  obtain s2 lo' where s2: "partition_init_step c n (s1, first_thread c n, lo) =
      Some (s2, first_thread c n + PARTITIONS_NTHREADS c n, lo')"
    "partition_ready c n (partition_base c n s1) (first_thread c n) s2"
    "\<forall>j. j \<noteq> n \<longrightarrow> pok_partitions s2 j = pok_partitions s1 j"
    "\<forall>t. t \<noteq> first_thread c n \<longrightarrow> pok_threads s2 t = pok_threads s1 t"
    "pok_x86_pm_brk s2 = pok_x86_pm_brk s1 + memory_taken c n + KERNEL_STACK_SIZE"
    "proc_id s2 = proc_id s1" "pok_tick_counter s2 = pok_tick_counter s1"
    using partition_init_step_success [OF ok, of s1 "first_thread c n" lo] by blast
  have base: "partition_base c n s1 = base_of c (pok_x86_pm_brk s) n"
    by (simp add: partition_base_def base_of_def s1(3) split: option.split)
  have "partition_ready c i (base_of c (pok_x86_pm_brk s) i) (first_thread c i) s2" if "i < Suc n" for i
  proof (cases "i = n")
    case True
    then show ?thesis using s2(2) base by simp
  next
    case False
    then have "i < n" using that by simp
    moreover from this have "first_thread c i < first_thread c n"
      using assms(1) n by (intro first_thread_less) (auto simp: deployment_ok_def)
    ultimately show ?thesis using s1(2) s2(3,4) partition_ready_cong [of s2 i s1 "first_thread c i"] by simp
  qed
  then show ?case using s1(1,3-5) s2(1,5-7)
    by (intro exI [of _ s2] exI [of _ lo']) (simp add: for_loop_append first_thread_def heap_before_def add.assoc)
qed

text \<open>The addresses do not wrap when the whole of the memory fits.\<close>

lemma heap_before_no_wrap:
  assumes "unat brk + (\<Sum>j<n. unat (memory_taken c j) + 8192) < 2 ^ 32" "i \<le> n"
  shows "unat (heap_before c brk i) = unat brk + (\<Sum>j<i. unat (memory_taken c j) + 8192)"
  using assms(2)
proof (induction i)
  case 0
  then show ?case by (simp add: heap_before_def)
next
  case (Suc i)
  have "(\<Sum>j<Suc i. unat (memory_taken c j) + 8192) \<le> (\<Sum>j<n. unat (memory_taken c j) + 8192)"
    using Suc.prems by (intro sum_mono2) auto
  then have lt: "unat (heap_before c brk i) + (unat (memory_taken c i) + 8192) < 2 ^ 32"
    using Suc assms(1) by simp
  then have "unat (memory_taken c i + KERNEL_STACK_SIZE) = unat (memory_taken c i) + 8192"
    using unat_add_lem [of "memory_taken c i" KERNEL_STACK_SIZE] by (simp add: KERNEL_STACK_SIZE_def)
  moreover from this lt have "unat (heap_before c brk i + (memory_taken c i + KERNEL_STACK_SIZE)) =
      unat (heap_before c brk i) + unat (memory_taken c i + KERNEL_STACK_SIZE)"
    using unat_add_lem [of "heap_before c brk i" "memory_taken c i + KERNEL_STACK_SIZE"] by simp
  ultimately show ?case using Suc by (simp add: heap_before_def add.assoc)
qed

lemma heap_before_disjoint:
  assumes "unat brk + (\<Sum>j<n. unat (memory_taken c j) + 8192) < 2 ^ 32" "i < j" "j < n"
  shows "unat (heap_before c brk i) + unat (memory_taken c i) \<le> unat (heap_before c brk j)"
proof -
  have "(\<Sum>k<Suc i. unat (memory_taken c k) + 8192) \<le> (\<Sum>k<j. unat (memory_taken c k) + 8192)"
    using assms(2) by (intro sum_mono2) auto
  then show ?thesis
    using heap_before_no_wrap [OF assms(1), of i] heap_before_no_wrap [OF assms(1), of j] assms(2,3) by simp
qed

text \<open>C7: In a deployment whose partitions all have a thread and a processor, the initialisation returns, and
  every partition is in its initialisation mode with a thread slice of its own, directly behind that of the
  partition before, whose first thread is its main thread, runnable at the partition's entry point on its first
  processor with the first stack; and when the memory is allocated and fits, the memories of different
  partitions do not overlap.\<close>

theorem partition_init_layout:
  assumes "deployment_ok c"
  shows "\<exists>s'. pok_partition_init c s = Some (POK_ERRNO_OK, s') \<and>
    (\<forall>i<NB_PARTITIONS c. partition_ready c i (base_of c (pok_x86_pm_brk s) i) (first_thread c i) s') \<and>
    (\<forall>i. i + 1 < NB_PARTITIONS c \<longrightarrow>
       p_thread_index_high (pok_partitions s' i) = p_thread_index_low (pok_partitions s' (i + 1)) \<and>
       p_thread_index_high (pok_partitions s' i) = p_thread_main (pok_partitions s' (i + 1))) \<and>
    (PROGRAM_LOADADDR c = None \<and>
       unat (pok_x86_pm_brk s) + (\<Sum>j<NB_PARTITIONS c. unat (PARTITIONS_SIZE c j) + 8192) < 2 ^ 32 \<longrightarrow>
     (\<forall>i j. i < j \<longrightarrow> j < NB_PARTITIONS c \<longrightarrow>
        unat (p_base_addr (pok_partitions s' i)) + unat (p_size (pok_partitions s' i)) \<le>
        unat (p_base_addr (pok_partitions s' j))))"
proof -
  obtain s' lo where s': "for_loop [0..<NB_PARTITIONS c] (partition_init_step c) (s, 0, 0) =
      Some (s', first_thread c (NB_PARTITIONS c), lo)"
    "\<forall>i<NB_PARTITIONS c. partition_ready c i (base_of c (pok_x86_pm_brk s) i) (first_thread c i) s'"
    using partition_init_loop [OF assms, of "NB_PARTITIONS c" s] by blast
  have run: "pok_partition_init c s = Some (POK_ERRNO_OK, s')"
    using s'(1) assms by (simp add: pok_partition_init_def deployment_ok_def)
  have rec: "p_thread_index_low (pok_partitions s' i) = first_thread c i"
    "p_thread_index_high (pok_partitions s' i) = first_thread c (i + 1)" "p_thread_main (pok_partitions s' i) = first_thread c i"
    "p_base_addr (pok_partitions s' i) = base_of c (pok_x86_pm_brk s) i" "p_size (pok_partitions s' i) = PARTITIONS_SIZE c i"
    if "i < NB_PARTITIONS c" for i
    using s'(2) that by (simp_all add: partition_ready_def Let_def first_thread_def)
  have mem: "unat (p_base_addr (pok_partitions s' i)) + unat (p_size (pok_partitions s' i)) \<le> unat (p_base_addr (pok_partitions s' j))"
    if "PROGRAM_LOADADDR c = None" "i < j" "j < NB_PARTITIONS c"
      "unat (pok_x86_pm_brk s) + (\<Sum>j<NB_PARTITIONS c. unat (PARTITIONS_SIZE c j) + 8192) < 2 ^ 32" for i j
    using heap_before_disjoint [of "pok_x86_pm_brk s" c "NB_PARTITIONS c" i j] that rec(4,5) [of i] rec(4) [of j]
    by (simp add: memory_taken_def base_of_def)
  show ?thesis using run s'(2) rec mem by (intro exI [of _ s'] conjI allI impI) auto
qed

lemma demo_deployment_ok: "deployment_ok demo_config"
proof -
  have "main_proc_ok demo_config i 0" for i
    by (simp add: main_proc_ok_def get_default_proc_real_id_def get_proc_real_id_first)
  moreover have "PARTITIONS_NTHREADS demo_config i = 3" for i by (simp add: demo_config_def)
  ultimately show ?thesis by (auto simp: deployment_ok_def)
qed

lemma partition_init_layout_witness:
  "\<exists>s'. pok_partition_init demo_config demo_state = Some (POK_ERRNO_OK, s') \<and>
     p_thread_main (pok_partitions s' 1) = p_thread_index_high (pok_partitions s' 0) \<and>
     unat (p_base_addr (pok_partitions s' 0)) + unat (p_size (pok_partitions s' 0)) \<le> unat (p_base_addr (pok_partitions s' 1))"
proof -
  have b: "PROGRAM_LOADADDR demo_config = None \<and> unat (pok_x86_pm_brk demo_state) +
      (\<Sum>j<NB_PARTITIONS demo_config. unat (PARTITIONS_SIZE demo_config j) + 8192) < 2 ^ 32"
  proof -
    have two: "{..<2 :: nat} = {0, 1}" by auto
    show ?thesis by (simp add: two) (simp add: demo_config_def demo_state_def)
  qed
  obtain s' where s': "pok_partition_init demo_config demo_state = Some (POK_ERRNO_OK, s')"
    "\<forall>i. i + 1 < NB_PARTITIONS demo_config \<longrightarrow>
       p_thread_index_high (pok_partitions s' i) = p_thread_index_low (pok_partitions s' (i + 1)) \<and>
       p_thread_index_high (pok_partitions s' i) = p_thread_main (pok_partitions s' (i + 1))"
    "\<forall>i j. i < j \<longrightarrow> j < NB_PARTITIONS demo_config \<longrightarrow>
       unat (p_base_addr (pok_partitions s' i)) + unat (p_size (pok_partitions s' i)) \<le>
       unat (p_base_addr (pok_partitions s' j))"
    using partition_init_layout [OF demo_deployment_ok, of demo_state] b by blast
  from s'(1) s'(2) [rule_format, of 0] s'(3) [rule_format, of 0 1] show ?thesis by auto
qed

subsection \<open>The change to the normal mode\<close>

text \<open>The result of an operation that hands its state to the global scheduler at the end.\<close>

definition handed_over :: "pok_config \<Rightarrow> kstate \<Rightarrow> (pok_ret_t \<times> kstate) option" where
  "handed_over c s1 = Option.bind (pok_global_sched c s1) (\<lambda>s2. Some (POK_ERRNO_OK, s2))"

lemma start_delayed_threads_eq:
  "start_delayed_threads pid s = s\<lparr>pok_threads := (\<lambda>t.
     if p_thread_index_low (POK_CURRENT_PARTITION s) \<le> t \<and>
        t < p_thread_index_low (POK_CURRENT_PARTITION s) + p_nthreads (pok_partitions s pid)
     then start_delayed (pok_tick_counter s) (pok_sched_major_frame s) (p_activation (POK_CURRENT_PARTITION s)) (pok_threads s t)
     else pok_threads s t)\<rparr>"
proof -
  let ?low = "p_thread_index_low (POK_CURRENT_PARTITION s)"
  let ?f = "start_delayed (pok_tick_counter s) (pok_sched_major_frame s) (p_activation (POK_CURRENT_PARTITION s))"
  let ?g = "\<lambda>n t. if ?low \<le> t \<and> t < ?low + n then ?f (pok_threads s t) else pok_threads s t"
  have step: "(?g n)(?low + n := ?f (?g n (?low + n))) = ?g (Suc n)" for n by (auto simp: fun_eq_iff)
  have "fold (\<lambda>i s. upd_thread (p_thread_index_low (POK_CURRENT_PARTITION s) + i)
       (start_delayed (pok_tick_counter s) (pok_sched_major_frame s) (p_activation (POK_CURRENT_PARTITION s))) s) [0..<n] s =
     s\<lparr>pok_threads := ?g n\<rparr>" for n
  proof (induction n)
    case 0
    have "?g 0 = pok_threads s" by (rule ext) auto
    then show ?case by (simp only: upt_0 fold_simps) simp
  next
    case (Suc n)
    then have "fold (\<lambda>i s. upd_thread (p_thread_index_low (POK_CURRENT_PARTITION s) + i)
       (start_delayed (pok_tick_counter s) (pok_sched_major_frame s) (p_activation (POK_CURRENT_PARTITION s))) s) [0..<Suc n] s =
       s\<lparr>pok_threads := (?g n)(?low + n := ?f (?g n (?low + n)))\<rparr>"
      by (simp add: upd_thread_def POK_CURRENT_PARTITION_def)
    then show ?case unfolding step .
  qed
  then show ?thesis by (simp add: start_delayed_threads_def)
qed

definition normal_state :: "kstate \<Rightarrow> kstate" where
  "normal_state s = pok_sched_stop_thread (p_thread_main (POK_CURRENT_PARTITION s))
     (start_delayed_threads (pok_current_partition s)
       (set_partition_mode (pok_current_partition s) POK_PARTITION_MODE_NORMAL s))"

lemma set_mode_normal:
  assumes "POK_SCHED_CURRENT_THREAD s = p_thread_main (POK_CURRENT_PARTITION s)"
    and "p_mode (POK_CURRENT_PARTITION s) \<noteq> POK_PARTITION_MODE_IDLE"
  shows "pok_partition_set_mode_current c POK_PARTITION_MODE_NORMAL s = handed_over c (normal_state s)"
proof -
  have "p_thread_main (pok_partitions (start_delayed_threads (pok_current_partition s)
      (set_partition_mode (pok_current_partition s) POK_PARTITION_MODE_NORMAL s)) (pok_current_partition s)) =
      p_thread_main (POK_CURRENT_PARTITION s)"
    by (simp add: start_delayed_threads_eq set_partition_mode_def upd_partition_def POK_CURRENT_PARTITION_def)
  then show ?thesis using assms
    by (simp add: pok_partition_set_mode_current_def pok_partition_set_mode_def handed_over_def normal_state_def
        POK_CURRENT_PARTITION_def Let_def)
qed

lemma normal_state_thread:
  assumes "t \<noteq> p_thread_main (POK_CURRENT_PARTITION s)"
  shows "pok_threads (normal_state s) t =
    (if p_thread_index_low (POK_CURRENT_PARTITION s) \<le> t \<and>
        t < p_thread_index_low (POK_CURRENT_PARTITION s) + p_nthreads (POK_CURRENT_PARTITION s)
     then start_delayed (pok_tick_counter s) (pok_sched_major_frame s) (p_activation (POK_CURRENT_PARTITION s)) (pok_threads s t)
     else pok_threads s t)"
  using assms by (simp add: normal_state_def start_delayed_threads_eq set_partition_mode_def pok_sched_stop_thread_def
      upd_thread_def upd_partition_def POK_CURRENT_PARTITION_def)

lemma normal_state_partitions:
  "pok_partitions (normal_state s) = (pok_partitions s)(pok_current_partition s :=
     (POK_CURRENT_PARTITION s)\<lparr>p_mode := POK_PARTITION_MODE_NORMAL\<rparr>)"
  "t_state (pok_threads (normal_state s) (p_thread_main (POK_CURRENT_PARTITION s))) = POK_STATE_STOPPED"
  by (simp_all add: normal_state_def start_delayed_threads_eq set_partition_mode_def pok_sched_stop_thread_def
      upd_thread_def upd_partition_def POK_CURRENT_PARTITION_def)

text \<open>The record of a thread after a delayed start in the initialisation mode.\<close>

lemma delayed_start_init:
  assumes "\<not> out_of_partition tid s" "p_mode (pok_partitions s (t_partition (pok_threads s tid))) \<noteq> POK_PARTITION_MODE_NORMAL"
  shows "\<exists>s1. pok_thread_delayed_start c tid us s = Some (POK_ERRNO_OK, s1) \<and>
    pok_threads s1 tid = (pok_threads s tid)\<lparr>t_priority := t_base_priority (pok_threads s tid),
      t_state := POK_STATE_DELAYED_START, t_wakeup_time := 1000 * ucast us\<rparr>"
  using assms by (simp add: pok_thread_delayed_start_def Let_def upd_thread_def emit_def)

text \<open>A delayed start in the initialisation mode takes effect when the partition becomes normal: an aperiodic
  thread that was started with a delay waits until that much time after the change of the mode, one without
  a delay is runnable at once; the main thread is stopped, and threads of other partitions are as before.\<close>

theorem delayed_start_takes_effect:
  assumes "\<not> out_of_partition tid s" "p_mode (pok_partitions s (t_partition (pok_threads s tid))) \<noteq> POK_PARTITION_MODE_NORMAL"
    and "pok_thread_delayed_start c tid us s = Some (r, s1)"
    and "pok_threads s2 tid = pok_threads s1 tid" "t_period (pok_threads s1 tid) = INFINITE_TIME_VALUE"
    and "POK_SCHED_CURRENT_THREAD s2 = p_thread_main (POK_CURRENT_PARTITION s2)"
    and "p_mode (POK_CURRENT_PARTITION s2) \<noteq> POK_PARTITION_MODE_IDLE"
    and "tid \<noteq> p_thread_main (POK_CURRENT_PARTITION s2)" "p_thread_index_low (POK_CURRENT_PARTITION s2) \<le> tid"
    and "tid < p_thread_index_low (POK_CURRENT_PARTITION s2) + p_nthreads (POK_CURRENT_PARTITION s2)"
  shows "\<exists>s3. pok_partition_set_mode_current c POK_PARTITION_MODE_NORMAL s2 = handed_over c s3 \<and>
    p_mode (POK_CURRENT_PARTITION s3) = POK_PARTITION_MODE_NORMAL \<and>
    t_state (pok_threads s3 (p_thread_main (POK_CURRENT_PARTITION s2))) = POK_STATE_STOPPED \<and>
    t_state (pok_threads s3 tid) = (if us = 0 then POK_STATE_RUNNABLE else POK_STATE_WAITING) \<and>
    t_wakeup_time (pok_threads s3 tid) = 1000 * ucast us + pok_tick_counter s2 \<and>
    (\<forall>t. t < p_thread_index_low (POK_CURRENT_PARTITION s2) \<or>
         p_thread_index_low (POK_CURRENT_PARTITION s2) + p_nthreads (POK_CURRENT_PARTITION s2) \<le> t \<longrightarrow>
         t \<noteq> p_thread_main (POK_CURRENT_PARTITION s2) \<longrightarrow> pok_threads s3 t = pok_threads s2 t)"
proof -
  have th: "t_state (pok_threads s2 tid) = POK_STATE_DELAYED_START" "t_wakeup_time (pok_threads s2 tid) = 1000 * ucast us"
    using delayed_start_init [OF assms(1,2), of c us] assms(3,4) by auto
  have nz: "(1000 * ucast us = (0 :: u64)) \<longleftrightarrow> us = 0"
  proof -
    have "unat us < 2 ^ LENGTH(32)" by (rule unsigned_less)
    then have "unat (1000 * ucast us :: u64) = 1000 * unat us"
      by (simp add: unat_mult_lem [THEN iffD1] unsigned_ucast_eq take_bit_nat_eq_self)
    then show ?thesis by (simp add: unat_eq_zero [symmetric] unat_eq_0 [symmetric] del: unat_eq_zero)
  qed
  let ?s3 = "normal_state s2"
  have cur: "POK_CURRENT_PARTITION ?s3 = (POK_CURRENT_PARTITION s2)\<lparr>p_mode := POK_PARTITION_MODE_NORMAL\<rparr>"
    by (simp add: POK_CURRENT_PARTITION_def [of ?s3] normal_state_partitions)
       (simp add: normal_state_def start_delayed_threads_eq set_partition_mode_def pok_sched_stop_thread_def
        upd_thread_def upd_partition_def)
  have "pok_threads ?s3 tid = start_delayed (pok_tick_counter s2) (pok_sched_major_frame s2)
      (p_activation (POK_CURRENT_PARTITION s2)) (pok_threads s2 tid)"
    using normal_state_thread [of tid s2] assms(8-10) by simp
  then have tid: "t_state (pok_threads ?s3 tid) = (if us = 0 then POK_STATE_RUNNABLE else POK_STATE_WAITING)"
    "t_wakeup_time (pok_threads ?s3 tid) = 1000 * ucast us + pok_tick_counter s2"
    using th assms(4,5) nz by (simp_all add: start_delayed_def Let_def)
  have other: "pok_threads ?s3 t = pok_threads s2 t"
    if "t < p_thread_index_low (POK_CURRENT_PARTITION s2) \<or>
         p_thread_index_low (POK_CURRENT_PARTITION s2) + p_nthreads (POK_CURRENT_PARTITION s2) \<le> t"
      "t \<noteq> p_thread_main (POK_CURRENT_PARTITION s2)" for t
    using normal_state_thread [OF that(2)] that(1) by auto
  show ?thesis
    using set_mode_normal [OF assms(6,7)] cur normal_state_partitions(2) [of s2] tid other
    by (intro exI [of _ ?s3] conjI allI impI) simp_all
qed

text \<open>The demonstration with partition 0 in its initialisation and its main thread running.\<close>

definition demo_main_state :: kstate where
  "demo_main_state = upd_thread 2 (\<lambda>th. th\<lparr>t_period := INFINITE_TIME_VALUE\<rparr>)
     (demo_init_state\<lparr>current_threads := (\<lambda>_. 0)\<rparr>)"

lemma demo_main_state_simps [simp]:
  "POK_CURRENT_PARTITION demo_main_state = (demo_partition 0)\<lparr>p_mode := POK_PARTITION_MODE_INIT_WARM\<rparr>"
  "POK_SCHED_CURRENT_THREAD demo_main_state = 0" "pok_current_partition demo_main_state = 0"
  "pok_partitions demo_main_state 0 = (demo_partition 0)\<lparr>p_mode := POK_PARTITION_MODE_INIT_WARM\<rparr>"
  "pok_threads demo_main_state = demo_thread(2 := (demo_thread 2)\<lparr>t_period := INFINITE_TIME_VALUE\<rparr>)"
  by (simp_all add: demo_main_state_def demo_init_state_def upd_thread_def upd_partition_def POK_CURRENT_PARTITION_def
      POK_SCHED_CURRENT_THREAD_def)

lemma demo_partition_bounds [simp]:
  "p_thread_index_low (demo_partition p) = 3 * p" "p_thread_index_high (demo_partition p) = 3 * p + 3"
  "p_nthreads (demo_partition p) = 3" "p_thread_main (demo_partition p) = 3 * p"
  by (simp_all add: demo_partition_def)

lemma delayed_start_takes_effect_witness:
  "\<exists>s1 s2 s3. pok_thread_delayed_start demo_config 2 5 demo_main_state = Some (POK_ERRNO_OK, s1) \<and>
     pok_partition_set_mode_current demo_config POK_PARTITION_MODE_NORMAL s2 = handed_over demo_config s3 \<and>
     pok_threads s2 2 = pok_threads s1 2 \<and> t_state (pok_threads s3 2) = POK_STATE_WAITING \<and>
     t_wakeup_time (pok_threads s3 2) = 5700"
proof -
  have out: "\<not> out_of_partition 2 demo_main_state" by (simp add: out_of_partition_def)
  have mode: "p_mode (pok_partitions demo_main_state (t_partition (pok_threads demo_main_state 2))) \<noteq> POK_PARTITION_MODE_NORMAL"
    by (simp add: demo_thread_def)
  obtain s1 where s1: "pok_thread_delayed_start demo_config 2 5 demo_main_state = Some (POK_ERRNO_OK, s1)"
    "pok_threads s1 2 = (pok_threads demo_main_state 2)\<lparr>t_priority := t_base_priority (pok_threads demo_main_state 2),
      t_state := POK_STATE_DELAYED_START, t_wakeup_time := 1000 * ucast (5 :: u32)\<rparr>"
    using delayed_start_init [OF out mode, of demo_config 5] by blast
  define s2 where "s2 = demo_main_state\<lparr>pok_threads := (pok_threads demo_main_state)(2 := pok_threads s1 2),
    pok_tick_counter := 700\<rparr>"
  have s2: "POK_CURRENT_PARTITION s2 = (demo_partition 0)\<lparr>p_mode := POK_PARTITION_MODE_INIT_WARM\<rparr>"
    "POK_SCHED_CURRENT_THREAD s2 = 0" "pok_threads s2 2 = pok_threads s1 2" "pok_tick_counter s2 = 700"
    using demo_main_state_simps(1,2)
    by (simp_all add: s2_def POK_CURRENT_PARTITION_def POK_SCHED_CURRENT_THREAD_def del: demo_main_state_simps(1,2))
  have "t_period (pok_threads s1 2) = INFINITE_TIME_VALUE" using s1(2) by simp
  from delayed_start_takes_effect [OF out mode s1(1) s2(3) this] s1 s2 show ?thesis by auto
qed

text \<open>The release of a periodic thread whose start was delayed does not count from the change of the mode: its
  first release is set to the delay plus the major frame, whatever the clock shows, so in a partition that
  becomes normal later than that the thread is released at its first examination, without any delay, and
  with a deadline that has passed when its budget is used.\<close>

theorem delayed_periodic_start_ignores_clock:
  fixes th :: pok_thread_t and now major act :: u64
  defines "first \<equiv> t_wakeup_time th + major + act" and "th1 \<equiv> start_delayed now major act th"
  assumes "t_state th = POK_STATE_DELAYED_START" "t_period th \<noteq> INFINITE_TIME_VALUE" "t_wakeup_time th \<noteq> 0"
    and "first \<le> now" "t_time_capacity th \<noteq> 0"
  shows "t_next_activation th1 = first \<and> t_end_time th1 = first + t_time_capacity th \<and>
    (\<exists>th2. release_period now th1 = Some th2 \<and> t_state th2 = POK_STATE_RUNNABLE)"
proof -
  have "t_state th1 = POK_STATE_WAIT_NEXT_ACTIVATION \<and> t_next_activation th1 = first \<and>
      t_end_time th1 = first + t_time_capacity th \<and> t_time_capacity th1 = t_time_capacity th"
    using assms(3-5) by (simp add: th1_def start_delayed_def Let_def first_def)
  then show ?thesis using assms(6,7) by (simp add: release_period_def)
qed

lemma delayed_periodic_start_ignores_clock_witness:
  "\<exists>th2. release_period 5000 (start_delayed 5000 200 0 ((demo_thread 1)\<lparr>t_state := POK_STATE_DELAYED_START,
     t_wakeup_time := 4000\<rparr>)) = Some th2 \<and> t_state th2 = POK_STATE_RUNNABLE"
  using delayed_periodic_start_ignores_clock [of "(demo_thread 1)\<lparr>t_state := POK_STATE_DELAYED_START,
     t_wakeup_time := 4000\<rparr>" 200 0 5000]
  by (simp add: demo_thread_def INFINITE_TIME_VALUE_def)

subsection \<open>The restart of a partition\<close>

text \<open>A partition that can be loaded and whose main thread can be created again.\<close>

definition restartable :: "pok_config \<Rightarrow> nat \<Rightarrow> kstate \<Rightarrow> bool" where
  "restartable c pid s =
     (let p = pok_partitions s pid
      in main_proc_ok c pid (p_thread_main_proc p) \<and> p_thread_index_low p < p_thread_index_high p \<and>
         (\<not> NEEDS_DEBUG c \<or> part_sizes c pid \<le> p_size p))"

definition restarted :: "nat \<Rightarrow> pok_partition_mode_t \<Rightarrow> kstate \<Rightarrow> kstate \<Rightarrow> bool" where
  "restarted pid mode s s' =
     (let p = pok_partitions s pid; p' = pok_partitions s' pid; low = p_thread_index_low p; main = pok_threads s' low
      in p_mode p' = mode \<and> p_thread_index p' = 1 \<and> p_thread_main p' = low \<and> p_thread_error p' = 0 \<and>
         e_error_kind (p_error_status p') = POK_ERROR_KIND_INVALID \<and> p_current_thread p' (proc_id s) = low \<and>
         t_state main = POK_STATE_RUNNABLE \<and> t_partition main = pid \<and> t_entry main = p_thread_main_entry p' \<and>
         t_priority main = 1 \<and>
         (\<forall>t. t \<noteq> low \<longrightarrow> pok_threads s' t = pok_threads s t) \<and>
         (\<forall>q. q \<noteq> pid \<longrightarrow> pok_partitions s' q = pok_partitions s q) \<and>
         pok_ports s' = pok_ports s \<and> pok_queue s' = pok_queue s \<and>
         pok_partitions_lockobjs s' = pok_partitions_lockobjs s \<and>
         pok_x86_pm_brk s' = pok_x86_pm_brk s + KERNEL_STACK_SIZE)"

lemma reinit_success:
  fixes s :: kstate
  assumes "restartable c pid s" "init_mode mode"
  shows "\<exists>s'. pok_partition_reinit c pid (set_partition_mode pid mode s) = Some s' \<and> restarted pid mode s s'"
proof -
  define p where "p = pok_partitions s pid"
  let ?a = "p_thread_main_proc p"
  have ok: "main_proc_ok c pid ?a" "p_thread_index_low p < p_thread_index_high p"
    "\<not> NEEDS_DEBUG c \<or> part_sizes c pid \<le> p_size p"
    using assms(1) by (simp_all add: restartable_def p_def Let_def)
  define s3 where "s3 = upd_partition pid error_reset (upd_partition pid (\<lambda>p. p\<lparr>p_thread_index := 0,
      p_current_thread := (p_current_thread p)(proc_id s := p_thread_index_low p),
      p_prev_thread := (p_prev_thread p)(proc_id s := IDLE_THREAD c s)\<rparr>)
      (pok_partition_setup_scheduler c pid (set_partition_mode pid mode s)))"
  have s3_eq: "upd_partition pid error_reset (upd_partition pid (\<lambda>p. p\<lparr>p_thread_index := 0,
      p_current_thread := (p_current_thread p)(proc_id (set_partition_mode pid mode s) := p_thread_index_low p),
      p_prev_thread := (p_prev_thread p)(proc_id (set_partition_mode pid mode s) := IDLE_THREAD c (set_partition_mode pid mode s))\<rparr>)
      (pok_partition_setup_scheduler c pid (set_partition_mode pid mode s))) = s3"
    by (simp add: s3_def set_partition_mode_def upd_partition_def IDLE_THREAD_def)
  define p3 where "p3 = pok_partitions s3 pid"
  have p3: "p_mode p3 = mode" "p_thread_index p3 = 0" "p_thread_index_low p3 = p_thread_index_low p"
    "p_thread_index_high p3 = p_thread_index_high p" "p_thread_main_proc p3 = ?a" "p_size p3 = p_size p"
    "p_thread_error p3 = 0" "e_error_kind (p_error_status p3) = POK_ERROR_KIND_INVALID"
    "p_current_thread p3 (proc_id s) = p_thread_index_low p"
    by (simp_all add: p3_def s3_def p_def upd_partition_def error_reset_def pok_partition_setup_scheduler_def
        set_partition_mode_def)
  have f3: "pok_threads s3 = pok_threads s" "q \<noteq> pid \<Longrightarrow> pok_partitions s3 q = pok_partitions s q"
    "pok_ports s3 = pok_ports s" "pok_queue s3 = pok_queue s" "pok_partitions_lockobjs s3 = pok_partitions_lockobjs s"
    "pok_x86_pm_brk s3 = pok_x86_pm_brk s" for q
    by (simp_all add: s3_def upd_partition_def pok_partition_setup_scheduler_def set_partition_mode_def)
  obtain e m where load: "pok_loader_load_partition c pid (p_base_addr p3 - p_base_vaddr p3) s3 = Some (e, s3\<lparr>ks_mem := m\<rparr>)"
    using load_partition_total [of c pid s3 "p_base_addr p3 - p_base_vaddr p3"] ok(3) p3(6) by (auto simp: p3_def)
  define s5 where "s5 = upd_partition pid (\<lambda>p. p\<lparr>p_thread_main_entry := e\<rparr>) (s3\<lparr>ks_mem := m\<rparr>)"
  define p5 where "p5 = pok_partitions s5 pid"
  have p5: "p5 = p3\<lparr>p_thread_main_entry := e\<rparr>" by (simp add: p5_def s5_def p3_def upd_partition_def)
  define s' where "s' = upd_partition pid (\<lambda>p. p\<lparr>p_thread_main := p_thread_index_low p\<rparr>)
      (create_unsorted c s5 pid (main_thread_attr c p5) ?a)"
  have "pok_partition_setup_main_thread c pid s5 = Some s'"
    using setup_main_thread_success [of s5 pid c ?a] ok assms(2) p3 by (simp add: s'_def p5_def [symmetric] p5)
  then have run: "pok_partition_reinit c pid (set_partition_mode pid mode s) = Some s'"
    by (simp add: pok_partition_reinit_def Let_def s3_eq p3_def [symmetric] load s5_def [symmetric])
  have th: "pok_threads s' (p_thread_index_low p) = created_thread c s5 pid (main_thread_attr c p5) ?a"
    "\<forall>t. t \<noteq> p_thread_index_low p \<longrightarrow> pok_threads s' t = pok_threads s t"
    "\<forall>q. q \<noteq> pid \<longrightarrow> pok_partitions s' q = pok_partitions s q"
    "pok_partitions s' pid = p5\<lparr>p_thread_index := 1, p_thread_main := p_thread_index_low p\<rparr>"
    "pok_ports s' = pok_ports s" "pok_queue s' = pok_queue s" "pok_partitions_lockobjs s' = pok_partitions_lockobjs s"
    "pok_x86_pm_brk s' = pok_x86_pm_brk s + KERNEL_STACK_SIZE"
    using f3 p3 by (simp_all add: s'_def create_unsorted_def upd_partition_def Let_def p5_def [symmetric] p5)
      (simp_all add: s5_def upd_partition_def)
  have "restarted pid mode s s'"
    unfolding restarted_def Let_def p_def [symmetric] th(1,4) using th(2,3,5-8) p3
    by (simp add: p5 created_thread_def p5_def [symmetric] main_thread_attr_def thread_from_attr_def Let_def
        pok_sched_get_priority_max_def pok_sched_get_priority_min_def)
  with run show ?thesis by blast
qed

text \<open>When the error thread of a partition asks for a restart, the partition is loaded again and starts with a
  new main thread, no error thread and no recorded error; but its other threads, its ports and its
  lock objects stay as they were: a thread that was runnable before the restart, or held a lock, still is and
  does, and every restart takes another stack from the heap.\<close>

theorem restart_keeps_threads:
  assumes "error_thread_calls s" "init_mode mode" "restartable c (pok_current_partition s) s"
    and "\<not> (p_mode (POK_CURRENT_PARTITION s) = POK_PARTITION_MODE_INIT_COLD \<and> mode = POK_PARTITION_MODE_INIT_WARM)"
  shows "\<exists>s1. pok_partition_set_mode_current c mode s = handed_over c s1 \<and>
    restarted (pok_current_partition s) mode s s1"
proof -
  obtain s1 where s1: "pok_partition_reinit c (pok_current_partition s) (set_partition_mode (pok_current_partition s) mode s) = Some s1"
    "restarted (pok_current_partition s) mode s s1" using reinit_success [OF assms(3,2)] by blast
  have "mode = POK_PARTITION_MODE_INIT_COLD \<or> mode = POK_PARTITION_MODE_INIT_WARM"
    using assms(2) by (auto simp: init_mode_def)
  then have "pok_partition_set_mode c (pok_current_partition s) mode s = handed_over c s1"
    using assms(1,4) s1(1) by (auto simp: pok_partition_set_mode_def handed_over_def POK_CURRENT_PARTITION_def)
  moreover have "POK_SCHED_CURRENT_THREAD s = p_thread_error (POK_CURRENT_PARTITION s)"
    using assms(1) by (simp add: error_thread_calls_def)
  ultimately show ?thesis using s1(2) by (auto simp: pok_partition_set_mode_current_def)
qed

lemma restart_keeps_threads_witness:
  "\<exists>s s1. pok_partition_set_mode_current demo_config POK_PARTITION_MODE_INIT_COLD s = handed_over demo_config s1 \<and>
     t_state (pok_threads s1 2) = POK_STATE_RUNNABLE \<and> p_mode (pok_partitions s1 0) = POK_PARTITION_MODE_INIT_COLD"
proof -
  define s where "s = upd_partition 0 (\<lambda>p. p\<lparr>p_thread_error := 1\<rparr>) demo_state"
  have p: "pok_partitions s 0 = (demo_partition 0)\<lparr>p_thread_error := 1\<rparr>" "POK_CURRENT_PARTITION s = pok_partitions s 0"
    "pok_current_partition s = 0" "POK_SCHED_CURRENT_THREAD s = 1" "pok_threads s = demo_thread"
    by (simp_all add: s_def upd_partition_def POK_CURRENT_PARTITION_def POK_SCHED_CURRENT_THREAD_def)
  have e: "error_thread_calls s" by (simp add: error_thread_calls_def p)
  have m: "p_thread_main_proc (demo_partition 0) = 0" "p_mode (demo_partition 0) = POK_PARTITION_MODE_NORMAL"
    by (simp_all add: demo_partition_def)
  then have r: "restartable demo_config (pok_current_partition s) s"
    by (simp add: restartable_def p Let_def main_proc_ok_def get_default_proc_real_id_def get_proc_real_id_first)
  have n: "\<not> (p_mode (POK_CURRENT_PARTITION s) = POK_PARTITION_MODE_INIT_COLD \<and>
      POK_PARTITION_MODE_INIT_COLD = POK_PARTITION_MODE_INIT_WARM)" by simp
  have i: "init_mode POK_PARTITION_MODE_INIT_COLD" by (simp add: init_mode_def)
  from restart_keeps_threads [OF e i r n] obtain s1 where
    "pok_partition_set_mode_current demo_config POK_PARTITION_MODE_INIT_COLD s = handed_over demo_config s1"
    "restarted 0 POK_PARTITION_MODE_INIT_COLD s s1" by (auto simp: p)
  then show ?thesis by (intro exI [of _ s] exI [of _ s1]) (simp add: restarted_def Let_def p demo_thread_def)
qed

subsection \<open>Who may change the mode\<close>

definition refused :: "kstate \<Rightarrow> (pok_ret_t \<times> kstate) option \<Rightarrow> bool" where
  "refused s r = (r = Some (POK_ERRNO_THREAD, s) \<or> r = Some (POK_ERRNO_PARTITION_MODE, s))"

text \<open>The other partitions and the threads outside the slice are as before.\<close>

definition own_partition_only :: "kstate \<Rightarrow> kstate \<Rightarrow> bool" where
  "own_partition_only s s' \<longleftrightarrow>
     (\<forall>q. q \<noteq> pok_current_partition s \<longrightarrow> pok_partitions s' q = pok_partitions s q) \<and>
     (\<forall>t. \<not> (p_thread_index_low (POK_CURRENT_PARTITION s) \<le> t \<and>
             t < p_thread_index_low (POK_CURRENT_PARTITION s) + p_nthreads (POK_CURRENT_PARTITION s)) \<longrightarrow>
          pok_threads s' t = pok_threads s t)"

lemma set_mode_refused:
  fixes s :: kstate
  defines "p \<equiv> POK_CURRENT_PARTITION s"
  assumes "\<not> (mode = POK_PARTITION_MODE_NORMAL \<and> POK_SCHED_CURRENT_THREAD s = p_thread_main p \<and>
      p_mode p \<noteq> POK_PARTITION_MODE_IDLE)"
    and "\<not> (mode = POK_PARTITION_MODE_STOPPED \<and> error_thread_calls s)"
    and "\<not> (init_mode mode \<and> error_thread_calls s \<and>
      \<not> (p_mode p = POK_PARTITION_MODE_INIT_COLD \<and> mode = POK_PARTITION_MODE_INIT_WARM))"
  shows "refused s (pok_partition_set_mode_current c mode s)"
proof (cases "POK_SCHED_CURRENT_THREAD s \<noteq> p_thread_main p \<and> POK_SCHED_CURRENT_THREAD s \<noteq> p_thread_error p")
  case True
  then show ?thesis by (simp add: refused_def pok_partition_set_mode_current_def p_def)
next
  case False
  then have "pok_partition_set_mode_current c mode s = pok_partition_set_mode c (pok_current_partition s) mode s"
    unfolding pok_partition_set_mode_current_def p_def by (simp only: if_False)
  moreover have "pok_partition_set_mode c (pok_current_partition s) mode s = Some (POK_ERRNO_PARTITION_MODE, s)"
    using assms unfolding pok_partition_set_mode_def POK_CURRENT_PARTITION_def [symmetric] init_mode_def
    by (cases mode) simp_all
  ultimately show ?thesis by (simp add: refused_def)
qed

text \<open>C12: A request to change the mode is either refused, with nothing changed, or reaches the scheduler in the
  mode it asked for, with no record of another partition or of a thread outside the slice of the partition
  touched. Only the main thread can ask for the normal mode, only the error thread for the others, and
  nobody for the idle mode or a mode that does not exist.\<close>

theorem mode_change_authority:
  fixes s :: kstate
  defines "p \<equiv> POK_CURRENT_PARTITION s" and "cur \<equiv> POK_SCHED_CURRENT_THREAD s"
  assumes "restartable c (pok_current_partition s) s" "p_thread_index_low p \<le> p_thread_main p"
    and "p_thread_main p < p_thread_index_low p + p_nthreads p"
  shows "refused s (pok_partition_set_mode_current c mode s) \<or>
    (\<exists>s1. pok_partition_set_mode_current c mode s = handed_over c s1 \<and> own_partition_only s s1 \<and>
      p_mode (pok_partitions s1 (pok_current_partition s)) = mode \<and>
      (mode = POK_PARTITION_MODE_NORMAL \<and> cur = p_thread_main p \<or>
       (init_mode mode \<or> mode = POK_PARTITION_MODE_STOPPED) \<and> cur = p_thread_error p \<and> cur \<noteq> 0))"
proof -
  let ?pid = "pok_current_partition s"
  have low: "p_thread_index_low p < p_thread_index_low p + p_nthreads p" using assms(4,5) by linarith
  consider (ref) "refused s (pok_partition_set_mode_current c mode s)"
    | (normal) "mode = POK_PARTITION_MODE_NORMAL" "cur = p_thread_main p" "p_mode p \<noteq> POK_PARTITION_MODE_IDLE"
    | (stopped) "mode = POK_PARTITION_MODE_STOPPED" "error_thread_calls s"
    | (init) "init_mode mode" "error_thread_calls s"
        "\<not> (p_mode p = POK_PARTITION_MODE_INIT_COLD \<and> mode = POK_PARTITION_MODE_INIT_WARM)"
    using set_mode_refused [of mode s c] unfolding p_def cur_def by blast
  then show ?thesis
  proof cases
    case ref
    then show ?thesis by blast
  next
    case normal
    have "own_partition_only s (normal_state s)"
      unfolding own_partition_only_def
      using normal_state_thread [of _ s] assms(4,5) by (auto simp: normal_state_partitions p_def)
    then show ?thesis using normal set_mode_normal [of s c] normal_state_partitions [of s]
      by (intro disjI2 exI [of _ "normal_state s"]) (simp add: p_def cur_def)
  next
    case stopped
    let ?s1 = "set_partition_mode ?pid mode s"
    have "pok_partition_set_mode_current c mode s = handed_over c ?s1"
      using stopped by (simp add: pok_partition_set_mode_current_def pok_partition_set_mode_def handed_over_def
          error_thread_calls_def)
    moreover have "own_partition_only s ?s1"
      by (simp add: own_partition_only_def set_partition_mode_def upd_partition_def)
    ultimately show ?thesis using stopped
      by (intro disjI2 exI [of _ ?s1]) (auto simp: set_partition_mode_def upd_partition_def error_thread_calls_def p_def cur_def)
  next
    case init
    obtain s1 where s1: "pok_partition_reinit c ?pid (set_partition_mode ?pid mode s) = Some s1" "restarted ?pid mode s s1"
      using reinit_success [OF assms(3) init(1)] by blast
    have "pok_partition_set_mode_current c mode s = handed_over c s1"
      using init s1(1) by (auto simp: pok_partition_set_mode_current_def pok_partition_set_mode_def handed_over_def
          error_thread_calls_def init_mode_def POK_CURRENT_PARTITION_def p_def)
    moreover have "own_partition_only s s1"
      using s1(2) low by (auto simp: own_partition_only_def restarted_def Let_def p_def POK_CURRENT_PARTITION_def)
    moreover have "p_mode (pok_partitions s1 ?pid) = mode" using s1(2) by (simp add: restarted_def Let_def)
    ultimately show ?thesis using init by (auto simp: error_thread_calls_def p_def cur_def)
  qed
qed

lemma mode_change_authority_witness:
  "refused demo_state (pok_partition_set_mode_current demo_config POK_PARTITION_MODE_STOPPED demo_state)"
proof -
  have r: "restartable demo_config (pok_current_partition demo_state) demo_state"
    by (simp add: restartable_def Let_def main_proc_ok_def get_default_proc_real_id_def get_proc_real_id_first
        demo_partition_def)
  have p: "POK_CURRENT_PARTITION demo_state = demo_partition 0" by (simp add: POK_CURRENT_PARTITION_def)
  have e: "p_thread_error (demo_partition 0) = 0" by (simp add: demo_partition_def)
  show ?thesis
    using mode_change_authority [OF r, of POK_PARTITION_MODE_STOPPED] by (auto simp: p e)
qed

end
