(* ===== verification/Pok_Interrupt.thy ===== *)
theory Pok_Interrupt
  imports Pok_Error Pok_Space
begin

text \<open>
  Interrupts and exceptions of the x86: the descriptor table of \<open>kernel/arch/x86/event.c\<close>, the exceptions of
  \<open>exceptions.c\<close> and the handlers that turn them into errors of the running partition, the interrupt
  controller of \<open>x86-qemu/pic.c\<close>, the registration of a handler (\<open>arch.c\<close>, \<open>bsp.c\<close>), the start of the timer
  (\<open>x86-qemu/pit.c\<close>), and the frame with which a thread enters its partition (\<open>space.c\<close>).

  Addresses of assembly stubs are given by a function of the vector. The theorems say that every exception
  reaches the error handler of the partition, and that the gate of the timer is open to the partitions.
\<close>

unbundle bit_operations_syntax

subsection \<open>The interrupt descriptor table\<close>

datatype e_idte_type = IDTE_TASK | IDTE_INTERRUPT | IDTE_TRAP

record idt_entry_t =
  i_offset :: u32
  i_segsel :: u16
  i_type :: e_idte_type
  i_d :: bool
  i_dpl :: nat
  i_present :: bool

type_synonym idt = "nat \<Rightarrow> idt_entry_t"

text \<open>The two halves of the offset are kept together; the address is not changed by splitting it.\<close>

definition pok_idt_set_gate :: "nat \<Rightarrow> u16 \<Rightarrow> u32 \<Rightarrow> e_idte_type \<Rightarrow> nat \<Rightarrow> idt \<Rightarrow> idt" where
  "pok_idt_set_gate index segsel offset t dpl idt =
     idt(index := \<lparr>i_offset = offset, i_segsel = segsel, i_type = t, i_d = True, i_dpl = dpl mod 4, i_present = True\<rparr>)"

definition idt_null :: idt_entry_t where
  "idt_null = \<lparr>i_offset = 0, i_segsel = 0, i_type = IDTE_TASK, i_d = False, i_dpl = 0, i_present = False\<rparr>"

text \<open>The table is cleared once, by the processor that starts.\<close>

definition pok_idt_init :: "bool \<Rightarrow> idt \<Rightarrow> idt" where
  "pok_idt_init bsp_init idt = (if \<not> bsp_init then (\<lambda>i. if i < 256 then idt_null else idt i) else idt)"

subsection \<open>Exceptions\<close>

datatype exception_t =
    EXCEPTION_DIVIDE_ERROR | EXCEPTION_DEBUG | EXCEPTION_NMI | EXCEPTION_BREAKPOINT | EXCEPTION_OVERFLOW
  | EXCEPTION_BOUNDRANGE | EXCEPTION_INVALIDOPCODE | EXCEPTION_NOMATH_COPROC | EXCEPTION_DOUBLEFAULT
  | EXCEPTION_COPSEG_OVERRUN | EXCEPTION_INVALID_TSS | EXCEPTION_SEGMENT_NOT_PRESENT | EXCEPTION_STACKSEG_FAULT
  | EXCEPTION_GENERAL_PROTECTION | EXCEPTION_PAGEFAULT | EXCEPTION_FPU_FAULT | EXCEPTION_ALIGNEMENT_CHECK
  | EXCEPTION_MACHINE_CHECK | EXCEPTION_SIMD_FAULT

primrec exception_vector :: "exception_t \<Rightarrow> nat" where
  "exception_vector EXCEPTION_DIVIDE_ERROR = 0"
| "exception_vector EXCEPTION_DEBUG = 1"
| "exception_vector EXCEPTION_NMI = 2"
| "exception_vector EXCEPTION_BREAKPOINT = 3"
| "exception_vector EXCEPTION_OVERFLOW = 4"
| "exception_vector EXCEPTION_BOUNDRANGE = 5"
| "exception_vector EXCEPTION_INVALIDOPCODE = 6"
| "exception_vector EXCEPTION_NOMATH_COPROC = 7"
| "exception_vector EXCEPTION_DOUBLEFAULT = 8"
| "exception_vector EXCEPTION_COPSEG_OVERRUN = 9"
| "exception_vector EXCEPTION_INVALID_TSS = 10"
| "exception_vector EXCEPTION_SEGMENT_NOT_PRESENT = 11"
| "exception_vector EXCEPTION_STACKSEG_FAULT = 12"
| "exception_vector EXCEPTION_GENERAL_PROTECTION = 13"
| "exception_vector EXCEPTION_PAGEFAULT = 14"
| "exception_vector EXCEPTION_FPU_FAULT = 16"
| "exception_vector EXCEPTION_ALIGNEMENT_CHECK = 17"
| "exception_vector EXCEPTION_MACHINE_CHECK = 18"
| "exception_vector EXCEPTION_SIMD_FAULT = 19"

definition exception_list :: "exception_t list" where
  "exception_list = [EXCEPTION_DIVIDE_ERROR, EXCEPTION_DEBUG, EXCEPTION_NMI, EXCEPTION_BREAKPOINT, EXCEPTION_OVERFLOW,
     EXCEPTION_BOUNDRANGE, EXCEPTION_INVALIDOPCODE, EXCEPTION_NOMATH_COPROC, EXCEPTION_DOUBLEFAULT,
     EXCEPTION_COPSEG_OVERRUN, EXCEPTION_INVALID_TSS, EXCEPTION_SEGMENT_NOT_PRESENT, EXCEPTION_STACKSEG_FAULT,
     EXCEPTION_GENERAL_PROTECTION, EXCEPTION_PAGEFAULT, EXCEPTION_FPU_FAULT, EXCEPTION_ALIGNEMENT_CHECK,
     EXCEPTION_MACHINE_CHECK, EXCEPTION_SIMD_FAULT]"

definition KERNEL_CODE_SELECTOR :: u16 where
  "KERNEL_CODE_SELECTOR = push_bit 3 (of_nat GDT_CORE_CODE_SEGMENT)"

definition pok_exception_init :: "(nat \<Rightarrow> u32) \<Rightarrow> idt \<Rightarrow> idt" where
  "pok_exception_init stub idt =
     fold (\<lambda>e. pok_idt_set_gate (exception_vector e) KERNEL_CODE_SELECTOR (stub (exception_vector e)) IDTE_INTERRUPT 3)
       exception_list idt"

definition POK_SYSCALL_INT_NUMBER :: nat where "POK_SYSCALL_INT_NUMBER = 42"

definition pok_syscall_init :: "(nat \<Rightarrow> u32) \<Rightarrow> idt \<Rightarrow> idt" where
  "pok_syscall_init stub =
     pok_idt_set_gate POK_SYSCALL_INT_NUMBER KERNEL_CODE_SELECTOR (stub POK_SYSCALL_INT_NUMBER) IDTE_INTERRUPT 3"

definition pok_event_init :: "bool \<Rightarrow> (nat \<Rightarrow> u32) \<Rightarrow> idt \<Rightarrow> idt" where
  "pok_event_init bsp_init stub idt = pok_syscall_init stub (pok_exception_init stub (pok_idt_init bsp_init idt))"

text \<open>The declaration of an error followed by the activation of the error thread.\<close>

definition declare_and_activate :: "pok_config \<Rightarrow> u8 \<Rightarrow> kstate \<Rightarrow> kstate option" where
  "declare_and_activate c error s = do { s1 \<leftarrow> pok_error_declare c error s; pok_sched_activate_error_thread c s1 }"

definition POK_ERROR_KIND_NUMERIC_ERROR :: u8 where "POK_ERROR_KIND_NUMERIC_ERROR = 12"

definition POK_ERROR_KIND_ILLEGAL_REQUEST :: u8 where "POK_ERROR_KIND_ILLEGAL_REQUEST = 13"

definition POK_ERROR_KIND_STACK_OVERFLOW :: u8 where "POK_ERROR_KIND_STACK_OVERFLOW = 14"

definition POK_ERROR_KIND_MEMORY_VIOLATION :: u8 where "POK_ERROR_KIND_MEMORY_VIOLATION = 15"

definition POK_ERROR_KIND_HARDWARE_FAULT :: u8 where "POK_ERROR_KIND_HARDWARE_FAULT = 16"

definition POK_ERROR_KIND_PARTITION_HANDLER :: u32 where "POK_ERROR_KIND_PARTITION_HANDLER = 33"

text \<open>The handlers, one case each; their printing is left out.\<close>

definition exception_handler :: "pok_config \<Rightarrow> exception_t \<Rightarrow> kstate \<Rightarrow> kstate option" where
  "exception_handler c e s =
     (case e of
        EXCEPTION_DIVIDE_ERROR \<Rightarrow> declare_and_activate c POK_ERROR_KIND_NUMERIC_ERROR s
      | EXCEPTION_DEBUG \<Rightarrow> declare_and_activate c POK_ERROR_KIND_ILLEGAL_REQUEST s
      | EXCEPTION_NMI \<Rightarrow> declare_and_activate c POK_ERROR_KIND_ILLEGAL_REQUEST s
      | EXCEPTION_BREAKPOINT \<Rightarrow> declare_and_activate c POK_ERROR_KIND_ILLEGAL_REQUEST s
      | EXCEPTION_OVERFLOW \<Rightarrow> declare_and_activate c POK_ERROR_KIND_STACK_OVERFLOW s
      | EXCEPTION_BOUNDRANGE \<Rightarrow> declare_and_activate c POK_ERROR_KIND_STACK_OVERFLOW s
      | EXCEPTION_INVALIDOPCODE \<Rightarrow> declare_and_activate c POK_ERROR_KIND_ILLEGAL_REQUEST s
      | EXCEPTION_NOMATH_COPROC \<Rightarrow> declare_and_activate c POK_ERROR_KIND_ILLEGAL_REQUEST s
      | EXCEPTION_DOUBLEFAULT \<Rightarrow> pok_partition_error c (pok_current_partition s) POK_ERROR_KIND_PARTITION_HANDLER s
      | EXCEPTION_COPSEG_OVERRUN \<Rightarrow> declare_and_activate c POK_ERROR_KIND_MEMORY_VIOLATION s
      | EXCEPTION_INVALID_TSS \<Rightarrow> declare_and_activate c POK_ERROR_KIND_MEMORY_VIOLATION s
      | EXCEPTION_SEGMENT_NOT_PRESENT \<Rightarrow> declare_and_activate c POK_ERROR_KIND_MEMORY_VIOLATION s
      | EXCEPTION_STACKSEG_FAULT \<Rightarrow> declare_and_activate c POK_ERROR_KIND_MEMORY_VIOLATION s
      | EXCEPTION_GENERAL_PROTECTION \<Rightarrow> declare_and_activate c POK_ERROR_KIND_ILLEGAL_REQUEST s
      | EXCEPTION_PAGEFAULT \<Rightarrow> declare_and_activate c POK_ERROR_KIND_MEMORY_VIOLATION s
      | EXCEPTION_FPU_FAULT \<Rightarrow> declare_and_activate c POK_ERROR_KIND_HARDWARE_FAULT s
      | EXCEPTION_ALIGNEMENT_CHECK \<Rightarrow> declare_and_activate c POK_ERROR_KIND_HARDWARE_FAULT s
      | EXCEPTION_MACHINE_CHECK \<Rightarrow> declare_and_activate c POK_ERROR_KIND_HARDWARE_FAULT s
      | EXCEPTION_SIMD_FAULT \<Rightarrow> declare_and_activate c POK_ERROR_KIND_HARDWARE_FAULT s)"

text \<open>The C library ends a division by zero with the interrupt of the exception.\<close>

definition pok_division_by_zero_error :: "pok_config \<Rightarrow> kstate \<Rightarrow> kstate option" where
  "pok_division_by_zero_error c s = exception_handler c EXCEPTION_DIVIDE_ERROR s"

subsection \<open>The interrupt controller\<close>

definition PIC_MASTER_BASE :: u16 where "PIC_MASTER_BASE = 0x20"

definition PIC_SLAVE_BASE :: u16 where "PIC_SLAVE_BASE = 0xa0"

definition outb :: "u16 \<Rightarrow> u8 \<Rightarrow> kstate \<Rightarrow> kstate" where
  "outb port v = emit (Ev_outb port v)"

definition pok_pic_init :: "kstate \<Rightarrow> kstate" where
  "pok_pic_init s = fold (\<lambda>(port, v). outb port v)
     [(PIC_MASTER_BASE, 0x11), (PIC_SLAVE_BASE, 0x11), (PIC_MASTER_BASE + 1, 0x20), (PIC_SLAVE_BASE + 1, 0x28),
      (PIC_MASTER_BASE + 1, 0x04), (PIC_SLAVE_BASE + 1, 0x02), (PIC_MASTER_BASE + 1, 0x01), (PIC_SLAVE_BASE + 1, 0x01),
      (PIC_MASTER_BASE + 1, 0xfb), (PIC_SLAVE_BASE + 1, 0xff)] s"

definition pok_pic_mask :: "pok_config \<Rightarrow> nat \<Rightarrow> kstate \<Rightarrow> pok_ret_t \<times> kstate" where
  "pok_pic_mask c irq s =
     (if irq > 15 then (POK_ERRNO_EINVAL, s)
      else if irq < 8 then (POK_ERRNO_OK, outb (PIC_MASTER_BASE + 1) (arch_inb c (PIC_MASTER_BASE + 1) OR push_bit irq 1) s)
      else (POK_ERRNO_OK, outb (PIC_SLAVE_BASE + 1) (arch_inb c (PIC_SLAVE_BASE + 1) OR push_bit (irq - 8) 1) s))"

definition pok_pic_unmask :: "pok_config \<Rightarrow> nat \<Rightarrow> kstate \<Rightarrow> pok_ret_t \<times> kstate" where
  "pok_pic_unmask c irq s =
     (if irq > 15 then (POK_ERRNO_EINVAL, s)
      else if irq < 8 then (POK_ERRNO_OK, outb (PIC_MASTER_BASE + 1) (arch_inb c (PIC_MASTER_BASE + 1) AND NOT (push_bit irq 1)) s)
      else (POK_ERRNO_OK, outb (PIC_SLAVE_BASE + 1) (arch_inb c (PIC_SLAVE_BASE + 1) AND NOT (push_bit (irq - 8) 1)) s))"

definition pok_arch_event_register :: "(nat \<Rightarrow> u32) \<Rightarrow> nat \<Rightarrow> idt \<Rightarrow> idt" where
  "pok_arch_event_register stub vector = pok_idt_set_gate vector KERNEL_CODE_SELECTOR (stub vector) IDTE_TRAP 3"

definition pok_bsp_irq_register :: "pok_config \<Rightarrow> (nat \<Rightarrow> u32) \<Rightarrow> nat \<Rightarrow> idt \<times> kstate \<Rightarrow> idt \<times> kstate" where
  "pok_bsp_irq_register c stub irq = (\<lambda>(idt, s). (pok_arch_event_register stub (32 + irq) idt, snd (pok_pic_unmask c irq s)))"

definition PIT_BASE :: u16 where "PIT_BASE = 0x40"

definition PIT_IRQ :: nat where "PIT_IRQ = 0"

definition pok_x86_qemu_timer_init :: "pok_config \<Rightarrow> (nat \<Rightarrow> u32) \<Rightarrow> idt \<times> kstate \<Rightarrow> (idt \<times> kstate) option" where
  "pok_x86_qemu_timer_init c stub = (\<lambda>(idt, s). do {
     kassert (OSCILLATOR_DIVISOR \<le> 65536);
     kassert (NS_QUANTUM \<ge> NS_INCREMENT);
     let s1 = outb (PIT_BASE + 3) 0x34 s;
     let s2 = outb PIT_BASE (of_nat (OSCILLATOR_DIVISOR mod 256)) s1;
     let s3 = outb PIT_BASE (of_nat (OSCILLATOR_DIVISOR div 256 mod 256)) s2;
     Some (pok_bsp_irq_register c stub PIT_IRQ (idt, s3))
   })"

definition pok_time_init :: "pok_config \<Rightarrow> (nat \<Rightarrow> u32) \<Rightarrow> idt \<times> kstate \<Rightarrow> (idt \<times> kstate) option" where
  "pok_time_init c stub = (\<lambda>(idt, s). pok_x86_qemu_timer_init c stub (idt, s\<lparr>pok_tick_counter := 0\<rparr>))"

subsection \<open>Entering a partition\<close>

text \<open>The frame from which the processor returns to user mode; the registers that stay zero are left out.\<close>

record interrupt_frame =
  if_es :: u32
  if_ds :: u32
  if_ebx :: u32
  if_eax :: u32
  if_eip :: u32
  if_cs :: u32
  if_eflags :: u32
  if_esp :: u32
  if_ss :: u32

definition pok_dispatch_space :: "pok_config \<Rightarrow> nat \<Rightarrow> u32 \<Rightarrow> u32 \<Rightarrow> u32 \<Rightarrow> u32 \<Rightarrow> interrupt_frame" where
  "pok_dispatch_space c partition_id user_pc user_sp arg1 arg2 =
     (let code_sel = GDT_BUILD_SELECTOR (GDT_PARTITION_CODE_SEGMENT c partition_id) 0 3;
          data_sel = GDT_BUILD_SELECTOR (GDT_PARTITION_DATA_SEGMENT c partition_id) 0 3
      in \<lparr>if_es = data_sel, if_ds = data_sel, if_ebx = arg2, if_eax = arg1, if_eip = user_pc, if_cs = code_sel,
          if_eflags = push_bit 9 1, if_esp = user_sp, if_ss = data_sel\<rparr>)"

subsection \<open>Errors reach the handler\<close>

text \<open>What the error thread finds when an error was declared for a partition that has one.\<close>

definition handler_runs :: "u8 \<Rightarrow> kstate \<Rightarrow> kstate \<Rightarrow> bool" where
  "handler_runs kind s s2 =
     (let err = p_thread_error (POK_CURRENT_PARTITION s); st = p_error_status (POK_CURRENT_PARTITION s2)
      in POK_SCHED_CURRENT_THREAD s2 = err \<and> t_state (pok_threads s2 err) = POK_STATE_RUNNABLE \<and>
         t_priority (pok_threads s2 err) = 255 \<and> e_error_kind st = kind \<and>
         e_failed_thread st = of_nat (POK_SCHED_CURRENT_THREAD s) - of_nat (p_thread_index_low (POK_CURRENT_PARTITION s)))"

lemma declared_error_reaches_handler:
  fixes s :: kstate
  defines "err \<equiv> p_thread_error (POK_CURRENT_PARTITION s)" and "cur \<equiv> POK_SCHED_CURRENT_THREAD s"
  assumes "err \<noteq> 0" "err \<noteq> cur" "spinlocks s (proc_id s) = 0"
  shows "\<exists>s2. declare_and_activate c kind s = Some (arch_context_switch c cur s2) \<and> handler_runs kind s s2"
proof -
  let ?s = "upd_partition (pok_current_partition s) (\<lambda>p. p\<lparr>p_error_status := (p_error_status p)
       \<lparr>e_error_kind := kind, e_failed_thread := failed_thread_index s, e_msg_size := 0\<rparr>\<rparr>) s"
  have d: "pok_error_declare c kind s = Some ?s"
    using assms(3) by (simp add: pok_error_declare_def err_def)
  have f: "p_thread_error (POK_CURRENT_PARTITION ?s) = err" "POK_SCHED_CURRENT_THREAD ?s = cur"
    "spinlocks ?s (proc_id ?s) = 0" "e_error_kind (p_error_status (POK_CURRENT_PARTITION ?s)) = kind"
    "e_failed_thread (p_error_status (POK_CURRENT_PARTITION ?s)) =
      of_nat cur - of_nat (p_thread_index_low (POK_CURRENT_PARTITION s))"
    using assms(5) by (simp_all add: upd_partition_def POK_CURRENT_PARTITION_def POK_SCHED_CURRENT_THREAD_def err_def
        cur_def failed_thread_index_def)
  obtain s2 where s2: "pok_sched_activate_error_thread c ?s = Some (arch_context_switch c cur s2)"
    "POK_SCHED_CURRENT_THREAD s2 = err" "t_state (pok_threads s2 err) = POK_STATE_RUNNABLE"
    "t_priority (pok_threads s2 err) = 255" "pok_partitions s2 = pok_partitions ?s"
    "pok_current_partition s2 = pok_current_partition ?s"
    using activate_error_thread_switch [of ?s c] f(1-3) assms(3,4) by auto
  then have "POK_CURRENT_PARTITION s2 = POK_CURRENT_PARTITION ?s" by (simp add: POK_CURRENT_PARTITION_def)
  then have "handler_runs kind s s2"
    using s2(2-4) f(4,5) by (simp add: handler_runs_def Let_def err_def [symmetric] cur_def)
  then show ?thesis using s2(1) d by (auto simp: declare_and_activate_def)
qed

lemma declared_error_no_handler:
  "p_thread_error (POK_CURRENT_PARTITION s) = 0 \<Longrightarrow> \<not> NEEDS_DEBUG c \<Longrightarrow> declare_and_activate c kind s = Some s"
  by (simp add: declare_and_activate_def pok_error_declare_def pok_partition_error_def pok_sched_activate_error_thread_def)

definition exception_kind :: "exception_t \<Rightarrow> u8" where
  "exception_kind e =
     (if e = EXCEPTION_DIVIDE_ERROR then 12
      else if e \<in> {EXCEPTION_OVERFLOW, EXCEPTION_BOUNDRANGE} then 14
      else if e \<in> {EXCEPTION_COPSEG_OVERRUN, EXCEPTION_INVALID_TSS, EXCEPTION_SEGMENT_NOT_PRESENT,
                   EXCEPTION_STACKSEG_FAULT, EXCEPTION_PAGEFAULT} then 15
      else if e \<in> {EXCEPTION_FPU_FAULT, EXCEPTION_ALIGNEMENT_CHECK, EXCEPTION_MACHINE_CHECK, EXCEPTION_SIMD_FAULT} then 16
      else 13)"

lemma exception_handler_kind:
  "e \<noteq> EXCEPTION_DOUBLEFAULT \<Longrightarrow> exception_handler c e s = declare_and_activate c (exception_kind e) s"
  by (cases e) (simp_all add: exception_handler_def exception_kind_def POK_ERROR_KIND_NUMERIC_ERROR_def
      POK_ERROR_KIND_ILLEGAL_REQUEST_def POK_ERROR_KIND_STACK_OVERFLOW_def POK_ERROR_KIND_MEMORY_VIOLATION_def
      POK_ERROR_KIND_HARDWARE_FAULT_def)

text \<open>An exception other than a double fault runs the error thread of the partition, at the highest priority,
  with the kind of the error and the thread that failed on record. In a partition without an error thread, and
  a kernel without debugging support, it changes nothing at all: the faulting instruction runs again.\<close>

theorem exception_reaches_handler:
  fixes s :: kstate
  defines "err \<equiv> p_thread_error (POK_CURRENT_PARTITION s)" and "cur \<equiv> POK_SCHED_CURRENT_THREAD s"
  assumes "e \<noteq> EXCEPTION_DOUBLEFAULT" "err \<noteq> cur" "spinlocks s (proc_id s) = 0" "\<not> NEEDS_DEBUG c"
  shows "if err = 0 then exception_handler c e s = Some s
    else \<exists>s2. exception_handler c e s = Some (arch_context_switch c cur s2) \<and> handler_runs (exception_kind e) s s2"
  using declared_error_reaches_handler [of s c "exception_kind e"] declared_error_no_handler [of s c] assms
  by (simp add: exception_handler_kind)

lemma exception_reaches_handler_witness:
  "exception_handler demo_config EXCEPTION_PAGEFAULT demo_state = Some demo_state"
proof -
  have e: "p_thread_error (POK_CURRENT_PARTITION demo_state) = 0"
    by (simp add: POK_CURRENT_PARTITION_def demo_partition_def)
  have "EXCEPTION_PAGEFAULT \<noteq> EXCEPTION_DOUBLEFAULT"
    "p_thread_error (POK_CURRENT_PARTITION demo_state) \<noteq> POK_SCHED_CURRENT_THREAD demo_state"
    "spinlocks demo_state (proc_id demo_state) = 0" "\<not> NEEDS_DEBUG demo_config" by (simp_all add: e)
  from exception_reaches_handler [OF this] show ?thesis by (simp add: e)
qed

subsection \<open>The gates\<close>

text \<open>A program at privilege level \<open>cpl\<close> may enter the handler of vector \<open>v\<close> by an instruction.\<close>

definition callable_at :: "nat \<Rightarrow> idt \<Rightarrow> nat \<Rightarrow> bool" where
  "callable_at cpl idt v = (i_present (idt v) \<and> cpl \<le> i_dpl (idt v))"

lemma callable_set_gate:
  "callable_at 3 (pok_idt_set_gate i sel off t 3 idt) v = (v = i \<or> callable_at 3 idt v)"
  by (simp add: callable_at_def pok_idt_set_gate_def)

lemma callable_gates:
  "callable_at 3 (fold (\<lambda>e. pok_idt_set_gate (vec e) sel (off e) t 3) es idt) v = (v \<in> vec ` set es \<or> callable_at 3 idt v)"
  by (induction es arbitrary: idt) (auto simp: callable_set_gate)

lemma exception_vectors: "exception_vector ` set exception_list = {0..14} \<union> {16..19}"
proof -
  have "{0..14 :: nat} \<union> {16..19} = set ([0..<15] @ [16..<20])" by auto
  moreover have "[0..<15] @ [16..<20] = [0 :: nat, 1, 2, 3, 4, 5, 6, 7, 8, 9, 10, 11, 12, 13, 14, 16, 17, 18, 19]"
    by code_simp
  ultimately show ?thesis by (simp only: exception_list_def) simp
qed

text \<open>After the start of the kernel a partition can enter the kernel through the exceptions, the system call and
  the timer interrupt, and through nothing else. The last is a gate the hardware alone should use: a partition
  that calls it moves the clock of the whole system on.\<close>

theorem gates_open_to_partitions:
  assumes "quantum_counter s2 + of_nat NS_INCREMENT < of_nat NS_QUANTUM"
  shows "\<exists>idt' s'. pok_time_init c stub (pok_event_init False stub idt, s) = Some (idt', s') \<and>
    (\<forall>v<256. callable_at 3 idt' v \<longleftrightarrow> v \<in> {0..14} \<union> {16..19} \<union> {32, 42}) \<and>
    (\<exists>s3. pit_interrupt c s2 = Some s3 \<and> pok_tick_counter s3 = pok_tick_counter s2 + 9219)"
proof -
  have inc: "NS_INCREMENT = 9219"
    by (simp add: NS_INCREMENT_def OSCILLATOR_DIVISOR_def POK_TIMER_FREQUENCY_def)
  have ok: "OSCILLATOR_DIVISOR \<le> 65536" "NS_INCREMENT \<le> NS_QUANTUM"
    by (simp_all add: inc OSCILLATOR_DIVISOR_def POK_TIMER_FREQUENCY_def NS_QUANTUM_def POK_TIMER_QUANTUM_def)
  obtain s' where run: "pok_time_init c stub (pok_event_init False stub idt, s) =
      Some (pok_arch_event_register stub 32 (pok_event_init False stub idt), s')"
    using ok by (simp add: pok_time_init_def pok_x86_qemu_timer_init_def Let_def pok_bsp_irq_register_def PIT_IRQ_def)
  have "callable_at 3 (pok_idt_init False idt) v = False" if "v < 256" for v
    using that by (simp add: callable_at_def pok_idt_init_def idt_null_def)
  then have gates: "callable_at 3 (pok_arch_event_register stub 32 (pok_event_init False stub idt)) v \<longleftrightarrow>
      v \<in> {0..14} \<union> {16..19} \<union> {32, 42}" if "v < 256" for v
    using that by (auto simp: pok_arch_event_register_def pok_event_init_def pok_syscall_init_def pok_exception_init_def
        callable_set_gate callable_gates exception_vectors POK_SYSCALL_INT_NUMBER_def)
  have "\<exists>s3. pit_interrupt c s2 = Some s3 \<and> pok_tick_counter s3 = pok_tick_counter s2 + 9219"
  proof -
    have "\<not> of_nat NS_QUANTUM \<le> quantum_counter s2 + 9219" using assms by (simp add: inc not_le)
    then show ?thesis by (simp add: pit_interrupt_def pok_pic_eoi_def emit_def Let_def inc)
  qed
  then show ?thesis using run gates by blast
qed

lemma gates_open_to_partitions_witness:
  "\<exists>s3. pit_interrupt demo_config demo_state = Some s3 \<and> pok_tick_counter s3 = 9319"
proof -
  have "quantum_counter demo_state + of_nat NS_INCREMENT < of_nat NS_QUANTUM"
    by (simp add: demo_state_def NS_INCREMENT_def OSCILLATOR_DIVISOR_def POK_TIMER_FREQUENCY_def NS_QUANTUM_def
        POK_TIMER_QUANTUM_def)
  from gates_open_to_partitions [OF this, of demo_config "\<lambda>_. 0" "\<lambda>_. idt_null" demo_state] show ?thesis by auto
qed

end
