(* ===== verification/Pok_Syscall.thy ===== *)
theory Pok_Syscall
  imports Pok_Partition Pok_Interrupt
begin

text \<open>
  The system calls: the gate of \<open>kernel/arch/x86/syscalls.c\<close> and the dispatcher of \<open>kernel/core/syscall.c\<close>. The
  arguments are five words in the memory of the caller; a pointer among them is an offset in the partition, is
  checked against its size, and has the base address of the partition added. Structures are read from and
  written to memory at the offsets of the 32-bit ABI. The result is the value the caller finds in its
  register.

  A call that blocks writes its outputs when it runs again. The cases of the network card and of the PCI bus
  are left out: the model is that of a kernel built without them. The shutdown does not return.
\<close>

unbundle bit_operations_syntax

subsection \<open>Memory of the caller\<close>

text \<open>An output that is stored only when the operation has one.\<close>

definition wr_opt :: "('a \<Rightarrow> kstate \<Rightarrow> kstate) \<Rightarrow> 'a option \<Rightarrow> kstate \<Rightarrow> kstate" where
  "wr_opt wr v s = (case v of None \<Rightarrow> s | Some x \<Rightarrow> wr x s)"

definition state_value :: "pok_state_t \<Rightarrow> u32" where
  "state_value st = (case st of POK_STATE_STOPPED \<Rightarrow> 0 | POK_STATE_RUNNABLE \<Rightarrow> 1 | POK_STATE_WAITING \<Rightarrow> 2
     | POK_STATE_LOCK \<Rightarrow> 3 | POK_STATE_WAIT_NEXT_ACTIVATION \<Rightarrow> 4 | POK_STATE_DELAYED_START \<Rightarrow> 5)"

definition mode_value :: "pok_partition_mode_t \<Rightarrow> u32" where
  "mode_value m = (case m of POK_PARTITION_MODE_INIT_COLD \<Rightarrow> 1 | POK_PARTITION_MODE_INIT_WARM \<Rightarrow> 2
     | POK_PARTITION_MODE_NORMAL \<Rightarrow> 3 | POK_PARTITION_MODE_IDLE \<Rightarrow> 4 | POK_PARTITION_MODE_RESTART \<Rightarrow> 5
     | POK_PARTITION_MODE_STOPPED \<Rightarrow> 6 | POK_PARTITION_MODE_OTHER w \<Rightarrow> w)"

definition mode_of :: "u32 \<Rightarrow> pok_partition_mode_t" where
  "mode_of w = (if w = 1 then POK_PARTITION_MODE_INIT_COLD else if w = 2 then POK_PARTITION_MODE_INIT_WARM
     else if w = 3 then POK_PARTITION_MODE_NORMAL else if w = 4 then POK_PARTITION_MODE_IDLE
     else if w = 5 then POK_PARTITION_MODE_RESTART else if w = 6 then POK_PARTITION_MODE_STOPPED
     else POK_PARTITION_MODE_OTHER w)"

definition start_condition_value :: "pok_start_condition_t \<Rightarrow> u32" where
  "start_condition_value sc = (case sc of NORMAL_START \<Rightarrow> 0 | PARTITION_RESTART \<Rightarrow> 1 | HM_MODULE_RESTART \<Rightarrow> 2
     | HM_PARTITION_RESTART \<Rightarrow> 3)"

definition lockobj_kind_of :: "u32 \<Rightarrow> pok_lockobj_kind_t" where
  "lockobj_kind_of w = (if w = 1 then POK_LOCKOBJ_KIND_MUTEX else if w = 2 then POK_LOCKOBJ_KIND_SEMAPHORE
     else if w = 3 then POK_LOCKOBJ_KIND_EVENT else POK_LOCKOBJ_KIND_OTHER)"

definition locking_policy_of :: "u32 \<Rightarrow> pok_locking_policy_t" where
  "locking_policy_of w = (if w = 0 then POK_LOCKOBJ_POLICY_STANDARD else if w = 1 then POK_LOCKOBJ_POLICY_PIP
     else if w = 2 then POK_LOCKOBJ_POLICY_PCP else POK_LOCKOBJ_POLICY_OTHER)"

definition discipline_of :: "u32 \<Rightarrow> pok_queueing_discipline_t" where
  "discipline_of w = (if w = 0 then POK_QUEUEING_DISCIPLINE_FIFO else if w = 1 then POK_QUEUEING_DISCIPLINE_PRIORITY
     else POK_QUEUEING_DISCIPLINE_OTHER)"

definition lock_operation_of :: "u32 \<Rightarrow> pok_lockobj_operation_t" where
  "lock_operation_of w = (if w = 1 then LOCKOBJ_OPERATION_LOCK else if w = 2 then LOCKOBJ_OPERATION_UNLOCK
     else if w = 3 then LOCKOBJ_OPERATION_WAIT else if w = 4 then LOCKOBJ_OPERATION_SIGNAL
     else if w = 5 then LOCKOBJ_OPERATION_BROADCAST else LOCKOBJ_OPERATION_OTHER)"

definition lock_kind_of :: "u32 \<Rightarrow> pok_lockobj_lock_kind_t" where
  "lock_kind_of w = (if w = 1 then LOCKOBK_LOCK_REGULAR else if w = 2 then LOCKOBJ_LOCK_TIMED else LOCKOBJ_LOCK_OTHER)"

text \<open>The structures. The state in the attributes of a thread is not read by the kernel.\<close>

definition SIZEOF_THREAD_ATTR :: u32 where "SIZEOF_THREAD_ATTR = 48"

definition read_thread_attr :: "(u32 \<Rightarrow> u8) \<Rightarrow> u32 \<Rightarrow> pok_thread_attr_t" where
  "read_thread_attr m a = \<lparr>a_priority = rd8 m a, a_processor_affinity = unat (rd8 m (a + 1)), a_entry = rd32 m (a + 4),
     a_period = rd64 m (a + 8), a_deadline = rd64 m (a + 16), a_time_capacity = rd64 m (a + 24),
     a_stack_size = rd32 m (a + 32), a_state = POK_STATE_STOPPED, a_is_dynamic = (rd32 m (a + 40) \<noteq> 0),
     a_weight = rd32 m (a + 44)\<rparr>"

text \<open>The fields \<open>pok_thread_get_status\<close> stores, in its order.\<close>

definition write_thread_status :: "u32 \<Rightarrow> pok_thread_attr_t \<Rightarrow> kstate \<Rightarrow> kstate" where
  "write_thread_status a attr s =
     wr8 (a + 1) (of_nat (a_processor_affinity attr)) (wr32 (a + 32) (a_stack_size attr) (wr64 (a + 24) (a_time_capacity attr)
       (wr64 (a + 8) (a_period attr) (wr32 (a + 4) (a_entry attr) (wr8 a (a_priority attr)
         (wr32 (a + 36) (state_value (a_state attr)) (wr64 (a + 16) (a_deadline attr) s)))))))"

definition SIZEOF_LOCKOBJ_ATTR :: u32 where "SIZEOF_LOCKOBJ_ATTR = 16"

definition read_lockobj_attr :: "(u32 \<Rightarrow> u8) \<Rightarrow> u32 \<Rightarrow> pok_lockobj_attr_t" where
  "read_lockobj_attr m a = \<lparr>la_kind = lockobj_kind_of (rd32 m a), la_locking_policy = locking_policy_of (rd32 m (a + 4)),
     la_queueing_policy = discipline_of (rd32 m (a + 8)), la_initial_value = rd16 m (a + 12), la_max_value = rd16 m (a + 14)\<rparr>"

definition SIZEOF_LOCKOBJ_LOCKATTR :: u32 where "SIZEOF_LOCKOBJ_LOCKATTR = 20"

definition read_lockattr :: "(u32 \<Rightarrow> u8) \<Rightarrow> u32 \<Rightarrow> pok_lockobj_lockattr_t" where
  "read_lockattr m a = \<lparr>lk_operation = lock_operation_of (rd32 m a), lk_obj_kind = lockobj_kind_of (rd32 m (a + 4)),
     lk_lock_kind = lock_kind_of (rd32 m (a + 8)), lk_timeout = rd64 m (a + 12)\<rparr>"

definition SIZEOF_ERROR_STATUS :: u32 where "SIZEOF_ERROR_STATUS = 268"

definition read_error_status :: "(u32 \<Rightarrow> u8) \<Rightarrow> u32 \<Rightarrow> pok_error_status_t" where
  "read_error_status m a = \<lparr>e_error_kind = rd8 m a, e_failed_thread = rd32 m (a + 4), e_failed_addr = rd32 m (a + 8),
     e_msg = (\<lambda>i. m (a + 12 + of_nat i)), e_msg_size = rd32 m (a + 264)\<rparr>"

definition write_error_status :: "u32 \<Rightarrow> pok_error_status_t \<Rightarrow> kstate \<Rightarrow> kstate" where
  "write_error_status a st s =
     wr32 (a + 264) (e_msg_size st) (mem_put (a + 12) (e_msg st) (unat (e_msg_size st))
       (wr32 (a + 8) (e_failed_addr st) (wr32 (a + 4) (e_failed_thread st) (wr8 a (e_error_kind st) s))))"

definition SIZEOF_QUEUEING_STATUS :: u32 where "SIZEOF_QUEUEING_STATUS = 8"

definition write_queueing_status :: "u32 \<Rightarrow> u32 \<times> u8 \<times> u8 \<Rightarrow> kstate \<Rightarrow> kstate" where
  "write_queueing_status a st s = (case st of (sz, direction, waiting) \<Rightarrow>
     wr8 (a + 5) waiting (wr8 (a + 4) direction (wr32 a sz s)))"

definition SIZEOF_SAMPLING_STATUS :: u32 where "SIZEOF_SAMPLING_STATUS = 20"

definition write_sampling_status :: "u32 \<Rightarrow> u32 \<times> u8 \<times> u64 \<times> bool \<Rightarrow> kstate \<Rightarrow> kstate" where
  "write_sampling_status a st s = (case st of (sz, direction, refresh, validity) \<Rightarrow>
     wr32 (a + 16) (of_bool validity) (wr64 (a + 8) refresh (wr8 (a + 4) direction (wr32 a sz s))))"

subsection \<open>Identifiers and arguments\<close>

datatype pok_syscall_id_t =
    POK_SYSCALL_CONSWRITE | POK_SYSCALL_GETCHAR | POK_SYSCALL_GETTICK
  | POK_SYSCALL_THREAD_CREATE | POK_SYSCALL_THREAD_SLEEP_UNTIL | POK_SYSCALL_THREAD_SLEEP
  | POK_SYSCALL_THREAD_SUSPEND | POK_SYSCALL_THREAD_RESTART | POK_SYSCALL_THREAD_STOP
  | POK_SYSCALL_THREAD_PERIOD | POK_SYSCALL_THREAD_STOPSELF | POK_SYSCALL_THREAD_ID
  | POK_SYSCALL_THREAD_STATUS | POK_SYSCALL_THREAD_SET_PRIORITY | POK_SYSCALL_THREAD_RESUME
  | POK_SYSCALL_THREAD_SUSPEND_TARGET | POK_SYSCALL_THREAD_DELAYED_START
  | POK_SYSCALL_MIDDLEWARE_SAMPLING_ID | POK_SYSCALL_MIDDLEWARE_SAMPLING_READ
  | POK_SYSCALL_MIDDLEWARE_SAMPLING_STATUS | POK_SYSCALL_MIDDLEWARE_SAMPLING_WRITE
  | POK_SYSCALL_MIDDLEWARE_SAMPLING_CREATE
  | POK_SYSCALL_MIDDLEWARE_QUEUEING_CREATE | POK_SYSCALL_MIDDLEWARE_QUEUEING_SEND
  | POK_SYSCALL_MIDDLEWARE_QUEUEING_RECEIVE | POK_SYSCALL_MIDDLEWARE_QUEUEING_ID
  | POK_SYSCALL_MIDDLEWARE_QUEUEING_STATUS
  | POK_SYSCALL_MIDDLEWARE_NODE_MAC_ADDR
  | POK_SYSCALL_MIDDLEWARE_VIRTUAL_CREATE | POK_SYSCALL_MIDDLEWARE_VIRTUAL_NB_DESTINATIONS
  | POK_SYSCALL_MIDDLEWARE_VIRTUAL_DESTINATION | POK_SYSCALL_MIDDLEWARE_VIRTUAL_GET_GLOBAL
  | POK_SYSCALL_MIDDLEWARE_VIRTUAL_NODE
  | POK_SYSCALL_LOCKOBJ_CREATE | POK_SYSCALL_LOCKOBJ_OPERATION
  | POK_SYSCALL_ERROR_HANDLER_CREATE | POK_SYSCALL_ERROR_RAISE_APPLICATION_ERROR | POK_SYSCALL_ERROR_GET
  | POK_SYSCALL_PARTITION_SET_MODE | POK_SYSCALL_PARTITION_GET_ID | POK_SYSCALL_PARTITION_GET_PERIOD
  | POK_SYSCALL_PARTITION_GET_DURATION | POK_SYSCALL_PARTITION_GET_LOCK_LEVEL
  | POK_SYSCALL_PARTITION_GET_OPERATING_MODE | POK_SYSCALL_PARTITION_GET_START_CONDITION
  | POK_SYSCALL_INB | POK_SYSCALL_OUTB | POK_SYSCALL_SHUTDOWN
  | POK_SYSCALL_OTHER

text \<open>The numbers of the calls.\<close>

definition syscall_numbers :: "(nat \<times> pok_syscall_id_t) list" where
  "syscall_numbers = [
     (10, POK_SYSCALL_CONSWRITE), (11, POK_SYSCALL_GETCHAR), (20, POK_SYSCALL_GETTICK),
     (50, POK_SYSCALL_THREAD_CREATE), (51, POK_SYSCALL_THREAD_SLEEP_UNTIL), (52, POK_SYSCALL_THREAD_SLEEP),
     (53, POK_SYSCALL_THREAD_SUSPEND), (54, POK_SYSCALL_THREAD_RESTART), (55, POK_SYSCALL_THREAD_STOP),
     (56, POK_SYSCALL_THREAD_PERIOD), (57, POK_SYSCALL_THREAD_STOPSELF), (58, POK_SYSCALL_THREAD_ID),
     (59, POK_SYSCALL_THREAD_STATUS), (60, POK_SYSCALL_THREAD_SET_PRIORITY), (61, POK_SYSCALL_THREAD_RESUME),
     (62, POK_SYSCALL_THREAD_SUSPEND_TARGET), (65, POK_SYSCALL_THREAD_DELAYED_START),
     (101, POK_SYSCALL_MIDDLEWARE_SAMPLING_ID), (102, POK_SYSCALL_MIDDLEWARE_SAMPLING_READ),
     (103, POK_SYSCALL_MIDDLEWARE_SAMPLING_STATUS), (104, POK_SYSCALL_MIDDLEWARE_SAMPLING_WRITE),
     (105, POK_SYSCALL_MIDDLEWARE_SAMPLING_CREATE), (110, POK_SYSCALL_MIDDLEWARE_QUEUEING_CREATE),
     (111, POK_SYSCALL_MIDDLEWARE_QUEUEING_SEND), (112, POK_SYSCALL_MIDDLEWARE_QUEUEING_RECEIVE),
     (113, POK_SYSCALL_MIDDLEWARE_QUEUEING_ID), (114, POK_SYSCALL_MIDDLEWARE_QUEUEING_STATUS),
     (120, POK_SYSCALL_MIDDLEWARE_NODE_MAC_ADDR), (150, POK_SYSCALL_MIDDLEWARE_VIRTUAL_CREATE),
     (151, POK_SYSCALL_MIDDLEWARE_VIRTUAL_NB_DESTINATIONS), (152, POK_SYSCALL_MIDDLEWARE_VIRTUAL_DESTINATION),
     (153, POK_SYSCALL_MIDDLEWARE_VIRTUAL_GET_GLOBAL), (154, POK_SYSCALL_MIDDLEWARE_VIRTUAL_NODE),
     (201, POK_SYSCALL_LOCKOBJ_CREATE), (202, POK_SYSCALL_LOCKOBJ_OPERATION),
     (301, POK_SYSCALL_ERROR_HANDLER_CREATE), (303, POK_SYSCALL_ERROR_RAISE_APPLICATION_ERROR),
     (304, POK_SYSCALL_ERROR_GET), (404, POK_SYSCALL_PARTITION_SET_MODE), (405, POK_SYSCALL_PARTITION_GET_ID),
     (406, POK_SYSCALL_PARTITION_GET_PERIOD), (407, POK_SYSCALL_PARTITION_GET_DURATION),
     (408, POK_SYSCALL_PARTITION_GET_LOCK_LEVEL), (409, POK_SYSCALL_PARTITION_GET_OPERATING_MODE),
     (410, POK_SYSCALL_PARTITION_GET_START_CONDITION), (501, POK_SYSCALL_INB), (502, POK_SYSCALL_OUTB),
     (707, POK_SYSCALL_SHUTDOWN)]"

definition syscall_of :: "pok_config \<Rightarrow> u32 \<Rightarrow> pok_syscall_id_t" where
  "syscall_of c n = (case map_of syscall_numbers (unat n) of
     None \<Rightarrow> POK_SYSCALL_OTHER
   | Some sid \<Rightarrow> if syscall_enabled c (unat n) then sid else POK_SYSCALL_OTHER)"

record pok_syscall_args_t =
  sa_nargs :: u32
  sa_arg1 :: u32
  sa_arg2 :: u32
  sa_arg3 :: u32
  sa_arg4 :: u32
  sa_arg5 :: u32

record pok_syscall_info_t =
  si_partition :: nat
  si_thread :: nat
  si_base_addr :: u32

definition SIZEOF_SYSCALL_ARGS :: u32 where "SIZEOF_SYSCALL_ARGS = 24"

definition read_syscall_args :: "(u32 \<Rightarrow> u8) \<Rightarrow> u32 \<Rightarrow> pok_syscall_args_t" where
  "read_syscall_args m a = \<lparr>sa_nargs = rd32 m a, sa_arg1 = rd32 m (a + 4), sa_arg2 = rd32 m (a + 8),
     sa_arg3 = rd32 m (a + 12), sa_arg4 = rd32 m (a + 16), sa_arg5 = rd32 m (a + 20)\<rparr>"

type_synonym sys_result = "(u32 \<times> kstate) option"

definition errno :: "pok_ret_t \<Rightarrow> u32" where
  "errno r = of_nat (errno_value r)"

text \<open>The results of an operation without and with an output.\<close>

definition sys_ret :: "(pok_ret_t \<times> kstate) option \<Rightarrow> sys_result" where
  "sys_ret r = map_option (\<lambda>(ret, s). (errno ret, s)) r"

definition sys_out :: "('a \<Rightarrow> kstate \<Rightarrow> kstate) \<Rightarrow> (pok_ret_t \<times> 'a option \<times> kstate) option \<Rightarrow> sys_result" where
  "sys_out wr r = map_option (\<lambda>(ret, v, s). (errno ret, wr_opt wr v s)) r"

definition CHECK_PTR :: "pok_config \<Rightarrow> pok_syscall_info_t \<Rightarrow> u32 \<Rightarrow> u32 \<Rightarrow> kstate \<Rightarrow> sys_result \<Rightarrow> sys_result" where
  "CHECK_PTR c infos ptr sz s k =
     (if pok_check_ptr_in_partition c (si_partition infos) ptr sz s then k else Some (errno POK_ERRNO_EINVAL, s))"

subsection \<open>Console and virtual ports\<close>

text \<open>The number of characters \<open>pok_cons_write\<close> prints: an escape code takes one or two more characters and
  prints none; the loop looks at the characters behind an escape without regard to the length.\<close>

function cons_printed :: "(nat \<Rightarrow> u8) \<Rightarrow> nat \<Rightarrow> nat \<Rightarrow> u32 \<Rightarrow> u32" where
  "cons_printed str len i res =
     (if i < len
      then if str i = 255
           then if str (i + 1) = 1 then cons_printed str len (i + 2) res
                else if str (i + 1) = 2 \<or> str (i + 1) = 3 \<or> str (i + 1) = 4 then cons_printed str len (i + 3) res
                else cons_printed str len (i + 2) (res + 1)
           else cons_printed str len (i + 1) (res + 1)
      else res)"
  by auto
termination by (relation "measure (\<lambda>(str, len, i, res). len - i)") auto

declare cons_printed.simps [simp del]

definition pok_cons_write :: "u32 \<Rightarrow> u32 \<Rightarrow> kstate \<Rightarrow> u32 \<times> kstate" where
  "pok_cons_write a len s = (cons_printed (mem_view s a) (unat len) 0 0, emit (Ev_cons_write a len) s)"

definition sys_conswrite :: "pok_config \<Rightarrow> pok_syscall_args_t \<Rightarrow> pok_syscall_info_t \<Rightarrow> kstate \<Rightarrow> sys_result" where
  "sys_conswrite c args infos s =
     CHECK_PTR c infos (sa_arg1 args) (sa_arg2 args) s
       (let (printed, s1) = pok_cons_write (sa_arg1 args + si_base_addr infos) (sa_arg2 args) s
        in Some (errno (if printed \<noteq> 0 then POK_ERRNO_OK else POK_ERRNO_EINVAL), s1))"

definition COM1 :: u16 where "COM1 = 0x3F8"

definition read_serial :: "pok_config \<Rightarrow> u32 \<Rightarrow> kstate \<Rightarrow> kstate" where
  "read_serial c a s = (if arch_inb c (COM1 + 5) AND 1 \<noteq> 0 then wr8 a (arch_inb c COM1) s else s)"

definition sys_getchar :: "pok_config \<Rightarrow> pok_syscall_args_t \<Rightarrow> pok_syscall_info_t \<Rightarrow> kstate \<Rightarrow> sys_result" where
  "sys_getchar c args infos s =
     CHECK_PTR c infos (sa_arg1 args) 0 s
       (Some (errno POK_ERRNO_OK, read_serial c (sa_arg1 args + si_base_addr infos) s))"

text \<open>Identifiers of ports are bytes.\<close>

definition port_arg :: "u32 \<Rightarrow> nat" where
  "port_arg w = unat (ucast w :: u8)"

definition port_name_arg :: "kstate \<Rightarrow> u32 \<Rightarrow> pok_syscall_info_t \<Rightarrow> nat \<Rightarrow> u8" where
  "port_name_arg s a infos = mem_view s (a + si_base_addr infos)"

definition wr_id :: "u32 \<Rightarrow> nat \<Rightarrow> kstate \<Rightarrow> kstate" where
  "wr_id a i = wr8 a (of_nat i)"

definition pure_out :: "(pok_ret_t \<times> 'a option) \<Rightarrow> kstate \<Rightarrow> (pok_ret_t \<times> 'a option \<times> kstate) option" where
  "pure_out r s = Some (fst r, snd r, s)"

definition sys_virtual_create :: "pok_config \<Rightarrow> pok_syscall_args_t \<Rightarrow> pok_syscall_info_t \<Rightarrow> kstate \<Rightarrow> sys_result" where
  "sys_virtual_create c args infos s =
     CHECK_PTR c infos (sa_arg1 args) (pok_ports_names_max_len c + 1) s
       (CHECK_PTR c infos (sa_arg2 args) 1 s
         (do {
            r \<leftarrow> pok_port_virtual_id c (port_name_arg s (sa_arg1 args) infos) s;
            sys_out (wr_id (sa_arg2 args + si_base_addr infos)) (pure_out r s)
          }))"

definition sys_virtual_nb_destinations :: "pok_config \<Rightarrow> pok_syscall_args_t \<Rightarrow> pok_syscall_info_t \<Rightarrow> kstate \<Rightarrow> sys_result" where
  "sys_virtual_nb_destinations c args infos s =
     CHECK_PTR c infos (sa_arg2 args) 4 s
       (sys_out (wr32 (sa_arg2 args + si_base_addr infos))
         (pure_out (pok_port_virtual_nb_destinations c (port_arg (sa_arg1 args)) s) s))"

definition sys_virtual_destination :: "pok_config \<Rightarrow> pok_syscall_args_t \<Rightarrow> pok_syscall_info_t \<Rightarrow> kstate \<Rightarrow> sys_result" where
  "sys_virtual_destination c args infos s =
     CHECK_PTR c infos (sa_arg3 args) 4 s
       (sys_out (wr32 (sa_arg3 args + si_base_addr infos))
         (pure_out (pok_port_virtual_destination c (port_arg (sa_arg1 args)) (sa_arg2 args) s) s))"

definition sys_virtual_get_global :: "pok_config \<Rightarrow> pok_syscall_args_t \<Rightarrow> pok_syscall_info_t \<Rightarrow> kstate \<Rightarrow> sys_result" where
  "sys_virtual_get_global c args infos s =
     CHECK_PTR c infos (sa_arg2 args) 1 s
       (sys_out (wr_id (sa_arg2 args + si_base_addr infos))
         (pure_out (pok_port_virtual_get_global c (port_arg (sa_arg1 args)) s) s))"

definition sys_virtual_node :: "pok_config \<Rightarrow> pok_syscall_args_t \<Rightarrow> pok_syscall_info_t \<Rightarrow> kstate \<Rightarrow> sys_result" where
  "sys_virtual_node c args infos s =
     CHECK_PTR c infos (sa_arg2 args) 4 s
       (let (ret, node) = pok_port_virtual_node c (unat (sa_arg1 args))
        in Some (errno ret, wr_id (sa_arg2 args + si_base_addr infos) node s))"

text \<open>The first pointer is that of the node's number, the second that of the six bytes of its address.\<close>

definition sys_node_mac_addr :: "pok_config \<Rightarrow> pok_syscall_args_t \<Rightarrow> pok_syscall_info_t \<Rightarrow> kstate \<Rightarrow> sys_result" where
  "sys_node_mac_addr c args infos s =
     CHECK_PTR c infos (sa_arg1 args) 6 s
       (CHECK_PTR c infos (sa_arg2 args) 4 s
         (let node_id = unat (rd8 (ks_mem s) (sa_arg1 args + si_base_addr infos));
              a = sa_arg2 args + si_base_addr infos;
              (ret, addr) = pok_node_mac_addr c node_id (mem_view s a)
          in Some (errno ret, mem_put a addr 6 s)))"

definition sys_gettick :: "pok_config \<Rightarrow> pok_syscall_args_t \<Rightarrow> pok_syscall_info_t \<Rightarrow> kstate \<Rightarrow> sys_result" where
  "sys_gettick c args infos s =
     CHECK_PTR c infos (sa_arg1 args) 8 s
       (Some (errno POK_ERRNO_OK, wr64 (sa_arg1 args + si_base_addr infos) (pok_tick_counter s) s))"

subsection \<open>Threads and partitions\<close>

definition sys_thread_create :: "pok_config \<Rightarrow> pok_syscall_args_t \<Rightarrow> pok_syscall_info_t \<Rightarrow> kstate \<Rightarrow> sys_result" where
  "sys_thread_create c args infos s =
     CHECK_PTR c infos (sa_arg1 args) 4 s
       (CHECK_PTR c infos (sa_arg2 args) SIZEOF_THREAD_ATTR s
         (sys_out (\<lambda>tid. wr32 (sa_arg1 args + si_base_addr infos) (of_nat tid))
           (pok_partition_thread_create c (read_thread_attr (ks_mem s) (sa_arg2 args + si_base_addr infos))
              (si_partition infos mod 256) s)))"

definition sys_thread_id :: "pok_config \<Rightarrow> pok_syscall_args_t \<Rightarrow> pok_syscall_info_t \<Rightarrow> kstate \<Rightarrow> sys_result" where
  "sys_thread_id c args infos s =
     CHECK_PTR c infos (sa_arg1 args) 4 s
       (sys_out (\<lambda>tid. wr32 (sa_arg1 args + si_base_addr infos) (of_nat tid)) (pure_out (pok_sched_get_current c s) s))"

definition sys_thread_status :: "pok_config \<Rightarrow> pok_syscall_args_t \<Rightarrow> pok_syscall_info_t \<Rightarrow> kstate \<Rightarrow> sys_result" where
  "sys_thread_status c args infos s =
     CHECK_PTR c infos (sa_arg2 args) SIZEOF_THREAD_ATTR s
       (do {
          let a = sa_arg2 args + si_base_addr infos;
          (ret, attr) \<leftarrow> pok_thread_get_status c (unat (sa_arg1 args)) (read_thread_attr (ks_mem s) a) s;
          Some (errno ret, if ret = POK_ERRNO_OK then write_thread_status a attr s else s)
        })"

text \<open>An information about the calling partition is stored at the first argument.\<close>

definition sys_partition_get ::
  "u32 \<Rightarrow> (u32 \<Rightarrow> 'a \<Rightarrow> kstate \<Rightarrow> kstate) \<Rightarrow> (kstate \<Rightarrow> pok_ret_t \<times> 'a) \<Rightarrow>
   pok_config \<Rightarrow> pok_syscall_args_t \<Rightarrow> pok_syscall_info_t \<Rightarrow> kstate \<Rightarrow> sys_result" where
  "sys_partition_get sz wr get c args infos s =
     CHECK_PTR c infos (sa_arg1 args) sz s
       (Some (errno (fst (get s)), wr (sa_arg1 args + si_base_addr infos) (snd (get s)) s))"

definition sys_raise_application_error :: "pok_config \<Rightarrow> pok_syscall_args_t \<Rightarrow> pok_syscall_info_t \<Rightarrow> kstate \<Rightarrow> sys_result" where
  "sys_raise_application_error c args infos s =
     CHECK_PTR c infos (sa_arg1 args) (sa_arg2 args) s
       (do {
          s1 \<leftarrow> pok_error_raise_application_error c (mem_view s (sa_arg1 args + si_base_addr infos)) (sa_arg2 args) s;
          Some (errno POK_ERRNO_OK, s1)
        })"

definition sys_error_get :: "pok_config \<Rightarrow> pok_syscall_args_t \<Rightarrow> pok_syscall_info_t \<Rightarrow> kstate \<Rightarrow> sys_result" where
  "sys_error_get c args infos s =
     CHECK_PTR c infos (sa_arg1 args) SIZEOF_ERROR_STATUS s
       (let a = sa_arg1 args + si_base_addr infos; (ret, st) = pok_error_get (read_error_status (ks_mem s) a) s
        in Some (errno ret, if ret = POK_ERRNO_OK then write_error_status a st s else s))"

subsection \<open>Sampling and queueing ports\<close>

definition sys_sampling_create :: "pok_config \<Rightarrow> pok_syscall_args_t \<Rightarrow> pok_syscall_info_t \<Rightarrow> kstate \<Rightarrow> sys_result" where
  "sys_sampling_create c args infos s =
     CHECK_PTR c infos (sa_arg1 args) (pok_ports_names_max_len c + 1) s
       (CHECK_PTR c infos (sa_arg5 args) 1 s
         (sys_out (wr_id (sa_arg5 args + si_base_addr infos))
           (pok_port_sampling_create c (port_name_arg s (sa_arg1 args) infos) (sa_arg2 args) (ucast (sa_arg3 args))
              (ucast (sa_arg4 args)) s)))"

text \<open>The length of a message is cut to a byte.\<close>

definition sys_sampling_write :: "pok_config \<Rightarrow> pok_syscall_args_t \<Rightarrow> pok_syscall_info_t \<Rightarrow> kstate \<Rightarrow> sys_result" where
  "sys_sampling_write c args infos s =
     CHECK_PTR c infos (sa_arg2 args) (sa_arg3 args) s
       (sys_ret (pok_port_sampling_write c (port_arg (sa_arg1 args)) (sa_arg2 args + si_base_addr infos)
          (ucast (ucast (sa_arg3 args) :: u8)) s))"

definition sys_sampling_read :: "pok_config \<Rightarrow> pok_syscall_args_t \<Rightarrow> pok_syscall_info_t \<Rightarrow> kstate \<Rightarrow> sys_result" where
  "sys_sampling_read c args infos s =
     CHECK_PTR c infos (sa_arg3 args) 4 s
       (CHECK_PTR c infos (sa_arg4 args) 4 s
         (sys_out (\<lambda>(len, valid) s. wr32 (sa_arg4 args + si_base_addr infos) (of_bool valid)
                      (wr32 (sa_arg3 args + si_base_addr infos) len s))
           (pok_port_sampling_read c (port_arg (sa_arg1 args)) (sa_arg2 args + si_base_addr infos) s)))"

definition sys_sampling_id :: "pok_config \<Rightarrow> pok_syscall_args_t \<Rightarrow> pok_syscall_info_t \<Rightarrow> kstate \<Rightarrow> sys_result" where
  "sys_sampling_id c args infos s =
     CHECK_PTR c infos (sa_arg1 args) (pok_ports_names_max_len c + 1) s
       (CHECK_PTR c infos (sa_arg2 args) 1 s
         (do {
            r \<leftarrow> pok_port_sampling_id c (port_name_arg s (sa_arg1 args) infos) s;
            sys_out (wr_id (sa_arg2 args + si_base_addr infos)) (pure_out r s)
          }))"

definition sys_sampling_status :: "pok_config \<Rightarrow> pok_syscall_args_t \<Rightarrow> pok_syscall_info_t \<Rightarrow> kstate \<Rightarrow> sys_result" where
  "sys_sampling_status c args infos s =
     CHECK_PTR c infos (sa_arg2 args) SIZEOF_SAMPLING_STATUS s
       (sys_out (write_sampling_status (sa_arg2 args + si_base_addr infos))
         (pure_out (pok_port_sampling_status c (port_arg (sa_arg1 args)) s) s))"

definition sys_queueing_create :: "pok_config \<Rightarrow> pok_syscall_args_t \<Rightarrow> pok_syscall_info_t \<Rightarrow> kstate \<Rightarrow> sys_result" where
  "sys_queueing_create c args infos s =
     CHECK_PTR c infos (sa_arg1 args) (pok_ports_names_max_len c + 1) s
       (CHECK_PTR c infos (sa_arg5 args) 1 s
         (sys_out (wr_id (sa_arg5 args + si_base_addr infos))
           (pok_port_queueing_create c (port_name_arg s (sa_arg1 args) infos) (sa_arg2 args) (ucast (sa_arg3 args))
              (discipline_of (sa_arg4 args)) s)))"

definition sys_queueing_send :: "pok_config \<Rightarrow> pok_syscall_args_t \<Rightarrow> pok_syscall_info_t \<Rightarrow> kstate \<Rightarrow> sys_result" where
  "sys_queueing_send c args infos s =
     CHECK_PTR c infos (sa_arg2 args) (sa_arg3 args) s
       (sys_ret (pok_port_queueing_send c (port_arg (sa_arg1 args)) (sa_arg2 args + si_base_addr infos)
          (ucast (ucast (sa_arg3 args) :: u8)) (ucast (sa_arg4 args)) s))"

definition sys_queueing_receive :: "pok_config \<Rightarrow> pok_syscall_args_t \<Rightarrow> pok_syscall_info_t \<Rightarrow> kstate \<Rightarrow> sys_result" where
  "sys_queueing_receive c args infos s =
     CHECK_PTR c infos (sa_arg4 args) (sa_arg3 args) s
       (CHECK_PTR c infos (sa_arg5 args) 4 s
         (do {
            (ret, len, s1) \<leftarrow> pok_port_queueing_receive c (port_arg (sa_arg1 args)) (ucast (sa_arg2 args)) (sa_arg3 args)
                               (sa_arg4 args + si_base_addr infos) s;
            Some (errno ret, wr32 (sa_arg5 args + si_base_addr infos) len s1)
          }))"

definition sys_queueing_id :: "pok_config \<Rightarrow> pok_syscall_args_t \<Rightarrow> pok_syscall_info_t \<Rightarrow> kstate \<Rightarrow> sys_result" where
  "sys_queueing_id c args infos s =
     CHECK_PTR c infos (sa_arg1 args) (pok_ports_names_max_len c + 1) s
       (CHECK_PTR c infos (sa_arg2 args) 1 s
         (do {
            r \<leftarrow> pok_port_queueing_id c (port_name_arg s (sa_arg1 args) infos) s;
            sys_out (wr_id (sa_arg2 args + si_base_addr infos)) (pure_out r s)
          }))"

definition sys_queueing_status :: "pok_config \<Rightarrow> pok_syscall_args_t \<Rightarrow> pok_syscall_info_t \<Rightarrow> kstate \<Rightarrow> sys_result" where
  "sys_queueing_status c args infos s =
     CHECK_PTR c infos (sa_arg2 args) SIZEOF_QUEUEING_STATUS s
       (sys_out (write_queueing_status (sa_arg2 args + si_base_addr infos))
         (pure_out (pok_port_queueing_status c (port_arg (sa_arg1 args)) s) s))"

subsection \<open>Lock objects and input-output\<close>

definition sys_lockobj_create :: "pok_config \<Rightarrow> pok_syscall_args_t \<Rightarrow> pok_syscall_info_t \<Rightarrow> kstate \<Rightarrow> sys_result" where
  "sys_lockobj_create c args infos s =
     CHECK_PTR c infos (sa_arg1 args) 1 s
       (CHECK_PTR c infos (sa_arg2 args) SIZEOF_LOCKOBJ_ATTR s
         (sys_out (wr_id (sa_arg1 args + si_base_addr infos))
           (Some (pok_lockobj_partition_create (read_lockobj_attr (ks_mem s) (sa_arg2 args + si_base_addr infos)) s))))"

text \<open>The checked size is that of the attributes of a creation. A null pointer is not checked and is followed
  all the same.\<close>

definition sys_lockobj_operation :: "pok_config \<Rightarrow> pok_syscall_args_t \<Rightarrow> pok_syscall_info_t \<Rightarrow> kstate \<Rightarrow> sys_result" where
  "sys_lockobj_operation c args infos s =
     (if sa_arg2 args = 0
      then sys_ret (pok_lockobj_partition_wrapper c (port_arg (sa_arg1 args)) (read_lockattr (ks_mem s) 0) s)
      else CHECK_PTR c infos (sa_arg2 args) SIZEOF_LOCKOBJ_ATTR s
        (sys_ret (pok_lockobj_partition_wrapper c (port_arg (sa_arg1 args))
           (read_lockattr (ks_mem s) (sa_arg2 args + si_base_addr infos)) s)))"

definition io_refused :: "pok_syscall_args_t \<Rightarrow> pok_syscall_info_t \<Rightarrow> kstate \<Rightarrow> bool" where
  "io_refused args infos s =
     (sa_arg1 args < ucast (p_io_min (pok_partitions s (si_partition infos))) \<or>
      sa_arg1 args > ucast (p_io_max (pok_partitions s (si_partition infos))))"

definition sys_inb :: "pok_config \<Rightarrow> pok_syscall_args_t \<Rightarrow> pok_syscall_info_t \<Rightarrow> kstate \<Rightarrow> sys_result" where
  "sys_inb c args infos s =
     (if io_refused args infos s then Some (- errno POK_ERRNO_EPERM, s)
      else Some (ucast (arch_inb c (ucast (sa_arg1 args))), s))"

definition sys_outb :: "pok_syscall_args_t \<Rightarrow> pok_syscall_info_t \<Rightarrow> kstate \<Rightarrow> sys_result" where
  "sys_outb args infos s =
     (if io_refused args infos s then Some (- errno POK_ERRNO_EPERM, s)
      else Some (errno POK_ERRNO_OK, emit (Ev_outb (ucast (sa_arg1 args)) (ucast (sa_arg2 args))) s))"

definition sys_illegal :: "pok_config \<Rightarrow> kstate \<Rightarrow> sys_result" where
  "sys_illegal c s = do {
     s1 \<leftarrow> declare_and_activate c POK_ERROR_KIND_ILLEGAL_REQUEST s;
     Some (errno POK_ERRNO_EINVAL, s1)
   }"

subsection \<open>The dispatcher and the gate\<close>

definition pok_core_syscall ::
  "pok_config \<Rightarrow> pok_syscall_id_t \<Rightarrow> pok_syscall_args_t \<Rightarrow> pok_syscall_info_t \<Rightarrow> kstate \<Rightarrow> sys_result" where
  "pok_core_syscall c syscall_id args infos s =
     (case syscall_id of
        POK_SYSCALL_CONSWRITE \<Rightarrow> sys_conswrite c args infos s
      | POK_SYSCALL_GETCHAR \<Rightarrow> sys_getchar c args infos s
      | POK_SYSCALL_MIDDLEWARE_VIRTUAL_CREATE \<Rightarrow> sys_virtual_create c args infos s
      | POK_SYSCALL_MIDDLEWARE_VIRTUAL_NB_DESTINATIONS \<Rightarrow> sys_virtual_nb_destinations c args infos s
      | POK_SYSCALL_MIDDLEWARE_VIRTUAL_DESTINATION \<Rightarrow> sys_virtual_destination c args infos s
      | POK_SYSCALL_MIDDLEWARE_VIRTUAL_GET_GLOBAL \<Rightarrow> sys_virtual_get_global c args infos s
      | POK_SYSCALL_MIDDLEWARE_VIRTUAL_NODE \<Rightarrow> sys_virtual_node c args infos s
      | POK_SYSCALL_MIDDLEWARE_NODE_MAC_ADDR \<Rightarrow> sys_node_mac_addr c args infos s
      | POK_SYSCALL_GETTICK \<Rightarrow> sys_gettick c args infos s
      | POK_SYSCALL_THREAD_CREATE \<Rightarrow> sys_thread_create c args infos s
      | POK_SYSCALL_THREAD_SLEEP \<Rightarrow> sys_ret (pok_thread_sleep c (sa_arg1 args) s)
      | POK_SYSCALL_THREAD_SLEEP_UNTIL \<Rightarrow> sys_ret (pok_thread_sleep_until c (sa_arg1 args) s)
      | POK_SYSCALL_THREAD_PERIOD \<Rightarrow> sys_ret (pok_sched_end_period c s)
      | POK_SYSCALL_THREAD_SUSPEND \<Rightarrow> sys_ret (pok_thread_suspend c s)
      | POK_SYSCALL_THREAD_ID \<Rightarrow> sys_thread_id c args infos s
      | POK_SYSCALL_THREAD_STATUS \<Rightarrow> sys_thread_status c args infos s
      | POK_SYSCALL_THREAD_DELAYED_START \<Rightarrow> sys_ret (pok_thread_delayed_start c (unat (sa_arg1 args)) (sa_arg2 args) s)
      | POK_SYSCALL_THREAD_SET_PRIORITY \<Rightarrow> sys_ret (pok_thread_set_priority c (unat (sa_arg1 args)) (sa_arg2 args) s)
      | POK_SYSCALL_THREAD_RESUME \<Rightarrow> sys_ret (pok_thread_resume c (unat (sa_arg1 args)) s)
      | POK_SYSCALL_THREAD_SUSPEND_TARGET \<Rightarrow> sys_ret (Some (pok_thread_suspend_target (unat (sa_arg1 args)) s))
      | POK_SYSCALL_THREAD_RESTART \<Rightarrow> sys_ret (pok_partition_restart_thread c (sa_arg1 args) s)
      | POK_SYSCALL_THREAD_STOP \<Rightarrow> sys_ret (pok_partition_stop_thread c (sa_arg1 args) s)
      | POK_SYSCALL_THREAD_STOPSELF \<Rightarrow>
          do { s1 \<leftarrow> pok_sched_stop_self c s; Some (errno POK_ERRNO_OK, s1) }
      | POK_SYSCALL_PARTITION_SET_MODE \<Rightarrow> sys_ret (pok_partition_set_mode_current c (mode_of (sa_arg1 args)) s)
      | POK_SYSCALL_PARTITION_GET_ID \<Rightarrow> sys_partition_get 1 wr_id pok_current_partition_get_id c args infos s
      | POK_SYSCALL_PARTITION_GET_PERIOD \<Rightarrow> sys_partition_get 8 wr64 pok_current_partition_get_period c args infos s
      | POK_SYSCALL_PARTITION_GET_DURATION \<Rightarrow> sys_partition_get 8 wr64 pok_current_partition_get_duration c args infos s
      | POK_SYSCALL_PARTITION_GET_LOCK_LEVEL \<Rightarrow> sys_partition_get 4 wr32 pok_current_partition_get_lock_level c args infos s
      | POK_SYSCALL_PARTITION_GET_OPERATING_MODE \<Rightarrow>
          sys_partition_get 4 (\<lambda>a m. wr32 a (mode_value m)) pok_current_partition_get_operating_mode c args infos s
      | POK_SYSCALL_PARTITION_GET_START_CONDITION \<Rightarrow>
          sys_partition_get 4 (\<lambda>a sc. wr32 a (start_condition_value sc)) pok_current_partition_get_start_condition c args infos s
      | POK_SYSCALL_ERROR_HANDLER_CREATE \<Rightarrow> sys_ret (pok_error_thread_create c (sa_arg1 args) (sa_arg2 args) s)
      | POK_SYSCALL_ERROR_RAISE_APPLICATION_ERROR \<Rightarrow> sys_raise_application_error c args infos s
      | POK_SYSCALL_ERROR_GET \<Rightarrow> sys_error_get c args infos s
      | POK_SYSCALL_MIDDLEWARE_SAMPLING_CREATE \<Rightarrow> sys_sampling_create c args infos s
      | POK_SYSCALL_MIDDLEWARE_SAMPLING_WRITE \<Rightarrow> sys_sampling_write c args infos s
      | POK_SYSCALL_MIDDLEWARE_SAMPLING_READ \<Rightarrow> sys_sampling_read c args infos s
      | POK_SYSCALL_MIDDLEWARE_SAMPLING_ID \<Rightarrow> sys_sampling_id c args infos s
      | POK_SYSCALL_MIDDLEWARE_SAMPLING_STATUS \<Rightarrow> sys_sampling_status c args infos s
      | POK_SYSCALL_MIDDLEWARE_QUEUEING_CREATE \<Rightarrow> sys_queueing_create c args infos s
      | POK_SYSCALL_MIDDLEWARE_QUEUEING_SEND \<Rightarrow> sys_queueing_send c args infos s
      | POK_SYSCALL_MIDDLEWARE_QUEUEING_RECEIVE \<Rightarrow> sys_queueing_receive c args infos s
      | POK_SYSCALL_MIDDLEWARE_QUEUEING_ID \<Rightarrow> sys_queueing_id c args infos s
      | POK_SYSCALL_MIDDLEWARE_QUEUEING_STATUS \<Rightarrow> sys_queueing_status c args infos s
      | POK_SYSCALL_LOCKOBJ_CREATE \<Rightarrow> sys_lockobj_create c args infos s
      | POK_SYSCALL_LOCKOBJ_OPERATION \<Rightarrow> sys_lockobj_operation c args infos s
      | POK_SYSCALL_INB \<Rightarrow> sys_inb c args infos s
      | POK_SYSCALL_OUTB \<Rightarrow> sys_outb args infos s
      | POK_SYSCALL_SHUTDOWN \<Rightarrow> if sa_nargs args \<noteq> 0 then Some (errno POK_ERRNO_EINVAL, s) else None
      | POK_SYSCALL_OTHER \<Rightarrow> sys_illegal c s)"

text \<open>The caller is found from the code segment it was running on.\<close>

definition PARTITION_ID :: "pok_config \<Rightarrow> u32 \<Rightarrow> nat" where
  "PARTITION_ID c cs = unat ((drop_bit 3 cs - 3 - of_nat (NB_PROCESSORS c)) div 2) mod 256"

definition syscall_gate :: "pok_config \<Rightarrow> u32 \<Rightarrow> u32 \<Rightarrow> u32 \<Rightarrow> kstate \<Rightarrow> sys_result" where
  "syscall_gate c cs eax ebx s =
     (let partition = PARTITION_ID c cs;
          infos = \<lparr>si_partition = partition, si_thread = POK_SCHED_CURRENT_THREAD s,
                   si_base_addr = p_base_addr (pok_partitions s partition)\<rparr>
      in if \<not> pok_check_ptr_in_partition c partition ebx SIZEOF_SYSCALL_ARGS s then Some (errno POK_ERRNO_EINVAL, s)
         else pok_core_syscall c (syscall_of c eax) (read_syscall_args (ks_mem s) (ebx + si_base_addr infos)) infos s)"

subsection \<open>Where results are stored\<close>

text \<open>The address is not in the memory of the caller.\<close>

definition outside_partition :: "pok_syscall_info_t \<Rightarrow> kstate \<Rightarrow> u32 \<Rightarrow> bool" where
  "outside_partition infos s x = (unat (p_size (pok_partitions s (si_partition infos))) \<le> unat (x - si_base_addr infos))"

lemma check_ptr_bound:
  "pok_check_ptr_in_partition c pid ptr sz s \<Longrightarrow> unat ptr + unat sz \<le> unat (p_size (pok_partitions s pid))"
  by (auto simp: pok_check_ptr_in_partition_def Let_def word_le_nat_alt unat_sub not_less split: if_splits)

lemma mem_put_outside:
  assumes "unat (ptr :: u32) + unat off + n \<le> sz" "sz \<le> unat (x - base)"
  shows "ks_mem (mem_put (ptr + base + off) f n s) x = ks_mem s x"
proof -
  have "unat (ptr + off) \<le> unat ptr + unat off" by (simp add: unat_word_ariths)
  then have le: "unat (ptr + off) + n \<le> unat (x - base)" using assms by linarith
  have "x - (ptr + base + off) = (x - base) - (ptr + off)" by simp
  then have "unat (x - (ptr + base + off)) = unat (x - base) - unat (ptr + off)"
    using le unat_sub [of "ptr + off" "x - base"] by (simp only: word_le_nat_alt)
  then have "\<not> unat (x - (ptr + base + off)) < n" using le by linarith
  then show ?thesis by (simp add: mem_put_def)
qed

lemmas mem_put_outside0 = mem_put_outside [of _ 0, simplified]

lemma wr_outside:
  "unat ptr + unat off + 1 \<le> sz \<Longrightarrow> sz \<le> unat (x - base) \<Longrightarrow> ks_mem (wr8 (ptr + base + off) b s) x = ks_mem s x"
  "unat ptr + unat off + 4 \<le> sz \<Longrightarrow> sz \<le> unat (x - base) \<Longrightarrow> ks_mem (wr32 (ptr + base + off) w s) x = ks_mem s x"
  "unat ptr + unat off + 8 \<le> sz \<Longrightarrow> sz \<le> unat (x - base) \<Longrightarrow> ks_mem (wr64 (ptr + base + off) v s) x = ks_mem s x"
  by (simp_all add: wr8_def wr32_def wr64_def mem_put_outside)

lemmas wr_outside0 = wr_outside [of _ 0, simplified]

text \<open>A call leaves the memory outside the caller's partition alone.\<close>

definition keeps_outside :: "pok_syscall_info_t \<Rightarrow> kstate \<Rightarrow> sys_result \<Rightarrow> bool" where
  "keeps_outside infos s r =
     (\<forall>x v s'. r = Some (v, s') \<longrightarrow> outside_partition infos s x \<longrightarrow> ks_mem s' x = ks_mem s x)"

lemma keeps_outside_CHECK_PTR [intro]:
  "(pok_check_ptr_in_partition c (si_partition infos) ptr sz s \<Longrightarrow> keeps_outside infos s k) \<Longrightarrow>
   keeps_outside infos s (CHECK_PTR c infos ptr sz s k)"
  by (simp add: CHECK_PTR_def keeps_outside_def)

lemma keeps_outside_sys_out:
  assumes "\<And>ret v s1. r = Some (ret, v, s1) \<Longrightarrow> ks_mem s1 = ks_mem s"
    and "\<And>v s1 x. outside_partition infos s x \<Longrightarrow> ks_mem (wr v s1) x = ks_mem s1 x"
  shows "keeps_outside infos s (sys_out wr r)"
  using assms by (auto simp: keeps_outside_def sys_out_def wr_opt_def split: option.splits)

lemma keeps_outside_pure_out:
  assumes "\<And>v s1 x. outside_partition infos s x \<Longrightarrow> ks_mem (wr v s1) x = ks_mem s1 x"
  shows "keeps_outside infos s (sys_out wr (pure_out r s))"
  by (rule keeps_outside_sys_out) (simp_all add: pure_out_def assms)

lemma keeps_outside_id_lookup:
  assumes "\<And>v s1 x. outside_partition infos s x \<Longrightarrow> ks_mem (wr v s1) x = ks_mem s1 x"
  shows "keeps_outside infos s (do { r \<leftarrow> lookup; sys_out wr (pure_out r s) })"
proof (cases lookup)
  case (Some r)
  then show ?thesis using keeps_outside_pure_out [of infos s wr r, OF assms] by simp
qed (simp add: keeps_outside_def)

lemma wr_id_outside:
  "unat ptr + 1 \<le> sz \<Longrightarrow> sz \<le> unat (x - base) \<Longrightarrow> ks_mem (wr_id (ptr + base) i s) x = ks_mem s x"
  by (simp add: wr_id_def wr_outside0)

subsection \<open>The memory is left alone by the operations themselves\<close>

lemma insert_sort_loop_mem: "insert_sort_loop low val k s = Some s' \<Longrightarrow> ks_mem s' = ks_mem s"
  by (induction low val k s rule: insert_sort_loop.induct) (auto simp: upd_thread_def split: if_splits)

lemma thread_create_mem:
  "pok_partition_thread_create c attr pid s = Some (ret, v, s') \<Longrightarrow> ks_mem s' = ks_mem s"
  by (auto simp: pok_partition_thread_create_def Let_def pok_partition_error_def pok_thread_insert_sort_def
      pok_space_context_create_def pok_bsp_mem_alloc_def pok_pm_sbrk_def emit_def upd_thread_def upd_partition_def
      split: if_splits Option.bind_splits dest!: insert_sort_loop_mem)

lemma upd_lock_mem [simp]: "ks_mem (upd_lock r f s) = ks_mem s"
  by (cases r) (simp_all add: upd_lock_def upd_port_def)

lemma lockobj_create_mem: "pok_lockobj_create r attr s = (ret, s') \<Longrightarrow> ks_mem s' = ks_mem s"
  by (auto simp: pok_lockobj_create_def split: if_splits)

lemma lockobj_partition_create_mem: "pok_lockobj_partition_create attr s = (ret, v, s') \<Longrightarrow> ks_mem s' = ks_mem s"
  by (auto simp: pok_lockobj_partition_create_def Let_def split: if_splits option.splits prod.splits dest: lockobj_create_mem)

lemma port_create_mem: "pok_port_create c name sz d k s = Some (ret, v, s') \<Longrightarrow> ks_mem s' = ks_mem s"
  by (auto simp: pok_port_create_def Let_def pok_partition_error_def upd_port_def
      split: if_splits Option.bind_splits)

lemma queueing_create_mem: "pok_port_queueing_create c name sz d disc s = Some (ret, v, s') \<Longrightarrow> ks_mem s' = ks_mem s"
  by (auto simp: pok_port_queueing_create_def Let_def upd_port_def
      split: if_splits Option.bind_splits prod.splits dest!: port_create_mem lockobj_create_mem)

lemma sampling_create_mem: "pok_port_sampling_create c name sz d refresh s = Some (ret, v, s') \<Longrightarrow> ks_mem s' = ks_mem s"
  by (auto simp: pok_port_sampling_create_def Let_def upd_port_def
      split: if_splits Option.bind_splits prod.splits dest!: port_create_mem lockobj_create_mem)

text \<open>A pointer that was checked, with the size it was checked for.\<close>

definition checked :: "pok_syscall_info_t \<Rightarrow> kstate \<Rightarrow> u32 \<Rightarrow> nat \<Rightarrow> bool" where
  "checked infos s ptr n = (unat ptr + n \<le> unat (p_size (pok_partitions s (si_partition infos))))"

lemma checkedI: "pok_check_ptr_in_partition c (si_partition infos) ptr sz s \<Longrightarrow> checked infos s ptr (unat sz)"
  unfolding checked_def by (rule check_ptr_bound)

lemma checked_stores:
  assumes "checked infos s ptr n" "outside_partition infos s x"
  shows "unat off + 1 \<le> n \<Longrightarrow> ks_mem (wr8 (ptr + si_base_addr infos + off) b s1) x = ks_mem s1 x"
    and "unat off + 4 \<le> n \<Longrightarrow> ks_mem (wr32 (ptr + si_base_addr infos + off) w s1) x = ks_mem s1 x"
    and "unat off + 8 \<le> n \<Longrightarrow> ks_mem (wr64 (ptr + si_base_addr infos + off) v s1) x = ks_mem s1 x"
    and "unat off + k \<le> n \<Longrightarrow> ks_mem (mem_put (ptr + si_base_addr infos + off) f k s1) x = ks_mem s1 x"
  using assms by (auto simp: checked_def outside_partition_def intro!: wr_outside mem_put_outside)

lemma checked_stores0:
  assumes "checked infos s ptr n" "outside_partition infos s x"
  shows "1 \<le> n \<Longrightarrow> ks_mem (wr8 (ptr + si_base_addr infos) b s1) x = ks_mem s1 x"
    and "1 \<le> n \<Longrightarrow> ks_mem (wr_id (ptr + si_base_addr infos) i s1) x = ks_mem s1 x"
    and "4 \<le> n \<Longrightarrow> ks_mem (wr32 (ptr + si_base_addr infos) w s1) x = ks_mem s1 x"
    and "8 \<le> n \<Longrightarrow> ks_mem (wr64 (ptr + si_base_addr infos) v s1) x = ks_mem s1 x"
  using checked_stores(1-3) [OF assms, of 0] by (simp_all add: wr_id_def)

lemma check_ptr_keeps:
  "(checked infos s ptr (unat sz) \<Longrightarrow> keeps_outside infos s k) \<Longrightarrow> keeps_outside infos s (CHECK_PTR c infos ptr sz s k)"
  by (auto dest: checkedI)

lemma virtual_calls_keep:
  "keeps_outside infos s (sys_virtual_create c args infos s)"
  "keeps_outside infos s (sys_virtual_nb_destinations c args infos s)"
  "keeps_outside infos s (sys_virtual_destination c args infos s)"
  "keeps_outside infos s (sys_virtual_get_global c args infos s)"
  unfolding sys_virtual_create_def sys_virtual_nb_destinations_def sys_virtual_destination_def
    sys_virtual_get_global_def
  by (intro check_ptr_keeps keeps_outside_id_lookup keeps_outside_pure_out; simp add: checked_stores0)+

lemma virtual_node_keeps: "keeps_outside infos s (sys_virtual_node c args infos s)"
  unfolding sys_virtual_node_def
  by (rule check_ptr_keeps) (simp add: keeps_outside_def pok_port_virtual_node_def checked_stores0)

lemma port_calls_keep:
  "keeps_outside infos s (sys_sampling_id c args infos s)" "keeps_outside infos s (sys_queueing_id c args infos s)"
  "keeps_outside infos s (sys_sampling_status c args infos s)" "keeps_outside infos s (sys_queueing_status c args infos s)"
  unfolding sys_sampling_id_def sys_queueing_id_def sys_sampling_status_def sys_queueing_status_def
  by (intro check_ptr_keeps keeps_outside_id_lookup keeps_outside_pure_out;
      simp add: checked_stores0 checked_stores write_sampling_status_def write_queueing_status_def
        SIZEOF_SAMPLING_STATUS_def SIZEOF_QUEUEING_STATUS_def split: prod.splits)+

lemma creation_calls_keep:
  "keeps_outside infos s (sys_sampling_create c args infos s)" "keeps_outside infos s (sys_queueing_create c args infos s)"
  "keeps_outside infos s (sys_lockobj_create c args infos s)" "keeps_outside infos s (sys_thread_create c args infos s)"
  unfolding sys_sampling_create_def sys_queueing_create_def sys_lockobj_create_def sys_thread_create_def
  by (intro check_ptr_keeps keeps_outside_sys_out;
      auto simp: checked_stores0 dest: sampling_create_mem queueing_create_mem lockobj_partition_create_mem thread_create_mem)+

lemma partition_get_keeps:
  assumes "\<And>ptr v s1 x. checked infos s ptr (unat sz) \<Longrightarrow> outside_partition infos s x \<Longrightarrow>
      ks_mem (wr (ptr + si_base_addr infos) v s1) x = ks_mem s1 x"
  shows "keeps_outside infos s (sys_partition_get sz wr get c args infos s)"
  unfolding sys_partition_get_def by (rule check_ptr_keeps) (simp add: keeps_outside_def assms)

lemma thread_calls_keep:
  "keeps_outside infos s (sys_gettick c args infos s)" "keeps_outside infos s (sys_thread_id c args infos s)"
  unfolding sys_gettick_def sys_thread_id_def
  by (rule check_ptr_keeps, simp add: keeps_outside_def checked_stores0)
     (intro check_ptr_keeps keeps_outside_pure_out; simp add: checked_stores0)

lemma thread_status_keeps: "keeps_outside infos s (sys_thread_status c args infos s)"
  unfolding sys_thread_status_def
  by (rule check_ptr_keeps)
    (auto simp: keeps_outside_def write_thread_status_def checked_stores checked_stores0 SIZEOF_THREAD_ATTR_def Let_def
      split: Option.bind_splits if_splits)

lemma error_get_keeps:
  assumes "error_status_ok (p_error_status (POK_CURRENT_PARTITION s))"
  shows "keeps_outside infos s (sys_error_get c args infos s)"
proof -
  have "unat (e_msg_size (p_error_status (POK_CURRENT_PARTITION s))) \<le> 250"
    using assms by (simp add: error_status_ok_def POK_ERROR_MAX_MSG_SIZE_def word_le_nat_alt)
  then show ?thesis
    unfolding sys_error_get_def pok_error_get_def Let_def
    by (intro check_ptr_keeps)
      (auto simp: keeps_outside_def write_error_status_def checked_stores checked_stores0 SIZEOF_ERROR_STATUS_def)
qed

lemma conswrite_keeps: "keeps_outside infos s (sys_conswrite c args infos s)"
  unfolding sys_conswrite_def by (rule check_ptr_keeps) (simp add: keeps_outside_def pok_cons_write_def emit_def)

lemma io_calls_keep: "keeps_outside infos s (sys_inb c args infos s)" "keeps_outside infos s (sys_outb args infos s)"
  by (auto simp: keeps_outside_def sys_inb_def sys_outb_def emit_def)

text \<open>The calls that answer without an election, apart from the two with a wrong check.\<close>

definition answering_call :: "pok_syscall_id_t \<Rightarrow> bool" where
  "answering_call sid = (sid \<in> {POK_SYSCALL_CONSWRITE, POK_SYSCALL_GETTICK, POK_SYSCALL_THREAD_CREATE,
     POK_SYSCALL_THREAD_ID, POK_SYSCALL_THREAD_STATUS, POK_SYSCALL_THREAD_SUSPEND_TARGET,
     POK_SYSCALL_MIDDLEWARE_VIRTUAL_CREATE, POK_SYSCALL_MIDDLEWARE_VIRTUAL_NB_DESTINATIONS,
     POK_SYSCALL_MIDDLEWARE_VIRTUAL_DESTINATION, POK_SYSCALL_MIDDLEWARE_VIRTUAL_GET_GLOBAL,
     POK_SYSCALL_MIDDLEWARE_VIRTUAL_NODE, POK_SYSCALL_PARTITION_GET_ID, POK_SYSCALL_PARTITION_GET_PERIOD,
     POK_SYSCALL_PARTITION_GET_DURATION, POK_SYSCALL_PARTITION_GET_LOCK_LEVEL,
     POK_SYSCALL_PARTITION_GET_OPERATING_MODE, POK_SYSCALL_PARTITION_GET_START_CONDITION, POK_SYSCALL_ERROR_GET,
     POK_SYSCALL_MIDDLEWARE_SAMPLING_CREATE, POK_SYSCALL_MIDDLEWARE_SAMPLING_ID,
     POK_SYSCALL_MIDDLEWARE_SAMPLING_STATUS, POK_SYSCALL_MIDDLEWARE_QUEUEING_CREATE,
     POK_SYSCALL_MIDDLEWARE_QUEUEING_ID, POK_SYSCALL_MIDDLEWARE_QUEUEING_STATUS, POK_SYSCALL_LOCKOBJ_CREATE,
     POK_SYSCALL_INB, POK_SYSCALL_OUTB})"

lemma core_syscall_keeps:
  assumes "answering_call sid" "error_status_ok (p_error_status (POK_CURRENT_PARTITION s))"
  shows "keeps_outside infos s (pok_core_syscall c sid args infos s)"
proof -
  have suspend: "keeps_outside infos s (sys_ret (Some (pok_thread_suspend_target t s)))" for t
    by (auto simp: keeps_outside_def sys_ret_def pok_thread_suspend_target_def upd_thread_def)
  have gets: "keeps_outside infos s (sys_partition_get 1 wr_id g1 c args infos s)"
    "keeps_outside infos s (sys_partition_get 8 wr64 g2 c args infos s)"
    "keeps_outside infos s (sys_partition_get 4 wr32 g3 c args infos s)"
    "keeps_outside infos s (sys_partition_get 4 (\<lambda>a m. wr32 a (mode_value m)) g4 c args infos s)"
    "keeps_outside infos s (sys_partition_get 4 (\<lambda>a sc. wr32 a (start_condition_value sc)) g5 c args infos s)"
    for g1 g2 g3 g4 g5
    by (rule partition_get_keeps; simp add: checked_stores0)+
  show ?thesis
    using assms(1) unfolding pok_core_syscall_def
    by (cases sid) (simp_all add: answering_call_def virtual_calls_keep virtual_node_keeps port_calls_keep creation_calls_keep
        thread_calls_keep thread_status_keeps error_get_keeps [OF assms(2)] conswrite_keeps io_calls_keep suspend gets)
qed

lemma answers_keep_outside:
  assumes "answering_call (syscall_of c eax)" "syscall_gate c cs eax ebx s = Some (v, s')"
    and "error_status_ok (p_error_status (POK_CURRENT_PARTITION s))"
    and "unat (p_size (pok_partitions s (PARTITION_ID c cs))) \<le>
      unat (x - p_base_addr (pok_partitions s (PARTITION_ID c cs)))"
  shows "ks_mem s' x = ks_mem s x"
proof -
  let ?infos = "\<lparr>si_partition = PARTITION_ID c cs, si_thread = POK_SCHED_CURRENT_THREAD s,
      si_base_addr = p_base_addr (pok_partitions s (PARTITION_ID c cs))\<rparr>"
  have "keeps_outside ?infos s (pok_core_syscall c (syscall_of c eax)
      (read_syscall_args (ks_mem s) (ebx + si_base_addr ?infos)) ?infos s)"
    using assms(1,3) by (rule core_syscall_keeps)
  then show ?thesis
    using assms(2,4) unfolding syscall_gate_def Let_def keeps_outside_def outside_partition_def
    by (auto split: if_splits)
qed

text \<open>A call of partition 0 of the demonstration: its code segment has index 4, the selector is 35.\<close>

definition demo_call :: "u32 \<Rightarrow> kstate" where
  "demo_call arg1 = wr32 1048580 arg1 demo_state"

lemma PARTITION_ID_demo: "PARTITION_ID demo_config 35 = 0"
  by (simp add: PARTITION_ID_def)

lemma mem_put_at: "unat (x - a) = k \<Longrightarrow> k < n \<Longrightarrow> ks_mem (mem_put a f n s) x = f k"
  by (simp add: mem_put_def)

text \<open>Two calls do store behind the memory of their partition: the address of a node takes six bytes, of which
  four are checked, so at the end of the partition its last two bytes go to the two bytes behind; and the
  input of a character is checked for no byte at all, so the byte behind the partition can be set.\<close>

theorem outputs_behind_partition:
  fixes s :: kstate and infos :: pok_syscall_info_t
  defines "sz \<equiv> p_size (pok_partitions s (si_partition infos))"
  assumes "si_partition infos < NB_PARTITIONS c" "6 \<le> unat sz"
    and "unat (sa_arg1 args) + 6 \<le> unat sz" "sa_arg2 args = sz - 4"
    and "sa_arg1 args' = sz" "arch_inb c (COM1 + 5) AND 1 \<noteq> 0"
  shows "\<exists>s1 s2. pok_core_syscall c POK_SYSCALL_MIDDLEWARE_NODE_MAC_ADDR args infos s = Some (errno POK_ERRNO_OK, s1) \<and>
    (let node = unat (ks_mem s (sa_arg1 args + si_base_addr infos)) in
       ks_mem s1 (si_base_addr infos + sz) = pok_nodes_addr c node 4 \<and>
       ks_mem s1 (si_base_addr infos + sz + 1) = pok_nodes_addr c node 5) \<and>
    pok_core_syscall c POK_SYSCALL_GETCHAR args' infos s = Some (errno POK_ERRNO_OK, s2) \<and>
    ks_mem s2 (si_base_addr infos + sz) = arch_inb c COM1"
proof -
  let ?node = "unat (ks_mem s (sa_arg1 args + si_base_addr infos))"
  have n: "\<not> NB_PARTITIONS c \<le> si_partition infos" using assms(2) by simp
  have le: "sa_arg1 args \<le> sz - 6"
    using assms(3,4) by (simp add: word_le_nat_alt unat_sub)
  have six: "6 \<le> sz" using assms(3) by (simp add: word_le_nat_alt)
  have four: "4 \<le> sz" using assms(3) by (simp add: word_le_nat_alt)
  have c1: "pok_check_ptr_in_partition c (si_partition infos) (sa_arg1 args) 6 s"
    using n le six by (simp add: pok_check_ptr_in_partition_def Let_def sz_def [symmetric] not_less [symmetric])
  have c2: "pok_check_ptr_in_partition c (si_partition infos) (sa_arg2 args) 4 s"
    using n four assms(5) by (simp add: pok_check_ptr_in_partition_def Let_def sz_def [symmetric] not_less [symmetric])
  have c3: "pok_check_ptr_in_partition c (si_partition infos) (sa_arg1 args') 0 s"
    using n assms(6) by (simp add: pok_check_ptr_in_partition_def Let_def sz_def [symmetric])
  have addr: "fold (\<lambda>i a. a(i := pok_nodes_addr c ?node i)) [0..<6] g k = pok_nodes_addr c ?node k" if "k < 6" for g k
  proof -
    have "fold (\<lambda>i a. a(i := pok_nodes_addr c ?node i)) [0..<m] g k = (if k < m then pok_nodes_addr c ?node k else g k)" for m
      by (induction m) auto
    then show ?thesis using that by simp
  qed
  let ?s1 = "mem_put (sa_arg2 args + si_base_addr infos)
      (snd (pok_node_mac_addr c ?node (mem_view s (sa_arg2 args + si_base_addr infos)))) 6 s"
  let ?s2 = "wr8 (sa_arg1 args' + si_base_addr infos) (arch_inb c COM1) s"
  have "pok_core_syscall c POK_SYSCALL_MIDDLEWARE_NODE_MAC_ADDR args infos s = Some (errno POK_ERRNO_OK, ?s1)"
    using c1 c2 by (simp add: pok_core_syscall_def sys_node_mac_addr_def CHECK_PTR_def pok_node_mac_addr_def rd8_def Let_def)
  moreover have "ks_mem ?s1 (si_base_addr infos + sz) = pok_nodes_addr c ?node 4"
    by (subst mem_put_at [of _ _ 4]) (simp_all add: assms(5) pok_node_mac_addr_def addr)
  moreover have "ks_mem ?s1 (si_base_addr infos + sz + 1) = pok_nodes_addr c ?node 5"
    by (subst mem_put_at [of _ _ 5]) (simp_all add: assms(5) pok_node_mac_addr_def addr)
  moreover have "pok_core_syscall c POK_SYSCALL_GETCHAR args' infos s = Some (errno POK_ERRNO_OK, ?s2)"
    using c3 assms(7) by (simp add: pok_core_syscall_def sys_getchar_def CHECK_PTR_def read_serial_def)
  moreover have "ks_mem ?s2 (si_base_addr infos + sz) = arch_inb c COM1"
    using assms(6) by (simp add: wr8_def mem_put_def)
  ultimately show ?thesis by (intro exI [of _ ?s1] exI [of _ ?s2]) (simp add: Let_def)
qed

definition demo_infos :: pok_syscall_info_t where
  "demo_infos = \<lparr>si_partition = 0, si_thread = 1, si_base_addr = 1048576\<rparr>"

definition demo_args :: "u32 \<Rightarrow> u32 \<Rightarrow> u32 \<Rightarrow> pok_syscall_args_t" where
  "demo_args a b d = \<lparr>sa_nargs = 3, sa_arg1 = a, sa_arg2 = b, sa_arg3 = d, sa_arg4 = 0, sa_arg5 = 0\<rparr>"

lemma outputs_behind_partition_witness:
  "\<exists>s1. pok_core_syscall (demo_config\<lparr>arch_inb := (\<lambda>_. 1)\<rparr>) POK_SYSCALL_MIDDLEWARE_NODE_MAC_ADDR
      (demo_args 0 131068 0) demo_infos demo_state = Some (0, s1) \<and> ks_mem s1 1179648 = 4 \<and> ks_mem s1 1179649 = 5"
proof -
  let ?c = "demo_config\<lparr>arch_inb := (\<lambda>_. 1)\<rparr>"
  have sz: "p_size (demo_partition 0) = 131072" by (simp add: demo_partition_def)
  have "si_partition demo_infos < NB_PARTITIONS ?c" by (simp add: demo_infos_def)
  from outputs_behind_partition [OF this, of demo_state "demo_args 0 131068 0" "demo_args 131072 0 0"]
  show ?thesis by (auto simp: demo_infos_def demo_args_def sz errno_def demo_config_def)
qed



lemma byte_cut: "unat (ucast (ucast (w :: u32) :: u8) :: u32) = unat w mod 256"
  by (simp add: unsigned_ucast_eq take_bit_eq_mod unat_mod_distrib)

text \<open>The lengths of the messages written to ports are cut to a byte: a call with any length is the call with
  its length modulo 256, once the pointer has been checked. A message of a multiple of 256 bytes is refused as
  empty, whatever the size of the port, and a longer one is sent in part, without an error.\<close>

theorem message_length_truncated:
  fixes args :: pok_syscall_args_t
  defines "short \<equiv> args\<lparr>sa_arg3 := ucast (ucast (sa_arg3 args) :: u8)\<rparr>"
  assumes "pok_check_ptr_in_partition c (si_partition infos) (sa_arg2 args) (sa_arg3 args) s"
  shows "pok_core_syscall c POK_SYSCALL_MIDDLEWARE_QUEUEING_SEND args infos s =
      pok_core_syscall c POK_SYSCALL_MIDDLEWARE_QUEUEING_SEND short infos s \<and>
    pok_core_syscall c POK_SYSCALL_MIDDLEWARE_SAMPLING_WRITE args infos s =
      pok_core_syscall c POK_SYSCALL_MIDDLEWARE_SAMPLING_WRITE short infos s \<and>
    unat (sa_arg3 short) = unat (sa_arg3 args) mod 256 \<and>
    (256 dvd unat (sa_arg3 args) \<and> port_arg (sa_arg1 args) \<le> NB_PORTS c \<longrightarrow>
      pok_core_syscall c POK_SYSCALL_MIDDLEWARE_QUEUEING_SEND args infos s = Some (errno POK_ERRNO_SIZE, s))"
proof -
  have len: "unat (sa_arg3 short) = unat (sa_arg3 args) mod 256"
    using byte_cut [of "sa_arg3 args"] by (simp add: short_def)
  have sh: "pok_check_ptr_in_partition c (si_partition infos) (sa_arg2 args) (sa_arg3 short) s"
  proof -
    have "unat (sa_arg3 short) \<le> unat (sa_arg3 args)" using len by simp
    moreover have "unat (sa_arg2 args) + unat (sa_arg3 args) \<le> unat (p_size (pok_partitions s (si_partition infos)))"
      using assms(2) by (rule check_ptr_bound)
    moreover have "si_partition infos < NB_PARTITIONS c"
      using assms(2) by (auto simp: pok_check_ptr_in_partition_def split: if_splits)
    ultimately show ?thesis
      by (simp add: pok_check_ptr_in_partition_def Let_def word_le_nat_alt word_less_nat_alt unat_sub)
  qed
  have zero: "ucast (ucast (sa_arg3 args) :: u8) = (0 :: u32)" if "256 dvd unat (sa_arg3 args)"
    using len that by (simp add: short_def unat_eq_zero [symmetric] dvd_eq_mod_eq_0)
  have same: "ucast (ucast (sa_arg3 short) :: u8) = (ucast (ucast (sa_arg3 args) :: u8) :: u32)"
    unfolding word_eq_iff_unsigned [where 'a = nat] byte_cut len by simp
  have fields: "sa_arg1 short = sa_arg1 args" "sa_arg2 short = sa_arg2 args" "sa_arg4 short = sa_arg4 args"
    by (simp_all add: short_def)
  have "sys_queueing_send c args infos s = sys_queueing_send c short infos s"
    "sys_sampling_write c args infos s = sys_sampling_write c short infos s"
    using assms(2) sh by (simp_all add: sys_queueing_send_def sys_sampling_write_def CHECK_PTR_def same fields)
  moreover have "sys_queueing_send c args infos s = Some (errno POK_ERRNO_SIZE, s)"
    if "256 dvd unat (sa_arg3 args) \<and> port_arg (sa_arg1 args) \<le> NB_PORTS c"
    using assms(2) zero that by (simp add: sys_queueing_send_def CHECK_PTR_def pok_port_queueing_send_def sys_ret_def)
  ultimately show ?thesis using len by (simp add: pok_core_syscall_def)
qed

lemma message_length_truncated_witness:
  "pok_core_syscall demo_config POK_SYSCALL_MIDDLEWARE_QUEUEING_SEND (demo_args 0 1024 512) demo_infos demo_state =
     Some (304, demo_state)"
proof -
  have "pok_check_ptr_in_partition demo_config (si_partition demo_infos) (sa_arg2 (demo_args 0 1024 512))
      (sa_arg3 (demo_args 0 1024 512)) demo_state"
    by (simp add: demo_args_def demo_infos_def pok_check_ptr_in_partition_def demo_partition_def)
  note r = message_length_truncated [OF this, THEN conjunct2, THEN conjunct2, THEN conjunct2, rule_format]
  have "256 dvd unat (sa_arg3 (demo_args 0 1024 512)) \<and> port_arg (sa_arg1 (demo_args 0 1024 512)) \<le> NB_PORTS demo_config"
    by (simp add: demo_args_def port_arg_def)
  from r [OF this] show ?thesis by (simp add: errno_def)
qed

subsection \<open>The caller\<close>

lemma selector_index:
  assumes "n < 2 ^ 29"
  shows "drop_bit 3 (GDT_BUILD_SELECTOR n l r) = (of_nat n :: u32)"
proof (rule bit_eqI)
  fix k
  assume "possible_bit TYPE(u32) k"
  have small: "k < 29" if "bit n k"
  proof (rule ccontr)
    assume "\<not> k < 29"
    then have "(2 :: nat) ^ 29 \<le> 2 ^ k" by (intro power_increasing) simp_all
    then show False using assms that by (simp add: bit_iff_odd)
  qed
  have "\<not> bit (1 :: u32) (Suc k)" "\<not> bit (3 :: u32) (3 + k)"
    by (simp_all add: bit_1_iff bit_numeral_rec numeral_3_eq_3)
  then show "bit (drop_bit 3 (GDT_BUILD_SELECTOR n l r)) k \<longleftrightarrow> bit (of_nat n :: u32) k"
    using small by (auto simp: GDT_BUILD_SELECTOR_def bit_simps)
qed

text \<open>The gate charges a call to the partition the caller runs in: the code segment with which the kernel lets
  a thread of a partition enter user mode is translated back to that partition.\<close>

theorem gate_knows_caller:
  assumes "p < 256" "3 + NB_PROCESSORS c + 2 * p < 2 ^ 29"
  shows "PARTITION_ID c (if_cs (pok_dispatch_space c p pc sp arg1 arg2)) = p"
proof -
  let ?cs = "if_cs (pok_dispatch_space c p pc sp arg1 arg2)"
  have "drop_bit 3 ?cs = (of_nat (3 + NB_PROCESSORS c + 2 * p) :: u32)"
    using selector_index [of "3 + NB_PROCESSORS c + 2 * p"] assms(2)
    by (simp add: GDT_PARTITION_CODE_SEGMENT_def pok_dispatch_space_def Let_def)
  then have "drop_bit 3 ?cs - 3 - of_nat (NB_PROCESSORS c) = (of_nat (2 * p) :: u32)" by simp
  moreover have "unat (of_nat (2 * p) div 2 :: u32) = p"
    using assms(1) by (simp add: unat_div_distrib unsigned_of_nat take_bit_nat_eq_self del: of_nat_mult)
  ultimately show ?thesis using assms(1) by (simp add: PARTITION_ID_def)
qed

lemma gate_knows_caller_witness:
  "PARTITION_ID demo_config (if_cs (pok_dispatch_space demo_config 1 128 131064 0 0)) = 1"
  by (rule gate_knows_caller) simp_all

text \<open>A call with a number the kernel does not know reaches the error handler of the partition: the error
  thread runs at the highest priority with an illegal request of the calling thread on record; a partition
  without a handler only gets an error code back, in a kernel without debugging support.\<close>

theorem illegal_call_reaches_handler:
  fixes s :: kstate
  defines "err \<equiv> p_thread_error (POK_CURRENT_PARTITION s)" and "cur \<equiv> POK_SCHED_CURRENT_THREAD s"
  assumes "syscall_of c eax = POK_SYSCALL_OTHER" "pok_check_ptr_in_partition c (PARTITION_ID c cs) ebx SIZEOF_SYSCALL_ARGS s"
    and "err \<noteq> cur" "spinlocks s (proc_id s) = 0" "\<not> NEEDS_DEBUG c"
  shows "if err = 0 then syscall_gate c cs eax ebx s = Some (errno POK_ERRNO_EINVAL, s)
    else \<exists>s2. syscall_gate c cs eax ebx s = Some (errno POK_ERRNO_EINVAL, arch_context_switch c cur s2) \<and>
      handler_runs 13 s s2"
proof -
  have gate: "syscall_gate c cs eax ebx s = sys_illegal c s"
    using assms(3,4) by (simp add: syscall_gate_def pok_core_syscall_def Let_def)
  show ?thesis
  proof (cases "err = 0")
    case True
    then show ?thesis using declared_error_no_handler [of s c 13] assms(7)
      by (simp add: gate sys_illegal_def POK_ERROR_KIND_ILLEGAL_REQUEST_def err_def)
  next
    case False
    then obtain s2 where "declare_and_activate c 13 s = Some (arch_context_switch c cur s2)" "handler_runs 13 s s2"
      using declared_error_reaches_handler [of s c 13] assms(5,6) unfolding err_def cur_def by blast
    then show ?thesis using False
      by (simp add: gate sys_illegal_def POK_ERROR_KIND_ILLEGAL_REQUEST_def) blast
  qed
qed

lemma illegal_call_reaches_handler_witness:
  "syscall_gate demo_config 35 99 0 demo_state = Some (1, demo_state)"
proof -
  have c1: "syscall_of demo_config 99 = POK_SYSCALL_OTHER" by (simp add: syscall_of_def syscall_numbers_def)
  have c2: "pok_check_ptr_in_partition demo_config (PARTITION_ID demo_config 35) 0 SIZEOF_SYSCALL_ARGS demo_state"
    by (simp add: PARTITION_ID_demo pok_check_ptr_in_partition_def SIZEOF_SYSCALL_ARGS_def demo_partition_def)
  have e: "p_thread_error (POK_CURRENT_PARTITION demo_state) = 0"
    by (simp add: POK_CURRENT_PARTITION_def demo_partition_def)
  have "p_thread_error (POK_CURRENT_PARTITION demo_state) \<noteq> POK_SCHED_CURRENT_THREAD demo_state"
    "spinlocks demo_state (proc_id demo_state) = 0" "\<not> NEEDS_DEBUG demo_config" by (simp_all add: e)
  from illegal_call_reaches_handler [OF c1 c2 this] show ?thesis by (simp add: e errno_def)
qed

end
