(* ===== verification/Pok_Processors.thy ===== *)
theory Pok_Processors
  imports Pok_Interrupt Pok_Loader
begin

text \<open>
  The start of the other processors, \<open>kernel/arch/x86/multiprocessing.c\<close>, \<open>ap.c\<close> and \<open>ipi.c\<close>: the search for the
  tables of the firmware, the count of the processors in them, the interrupts between processors, and the
  code with which a started processor takes its number.

  The processors run \<open>main_ap\<close> under a spin lock, so their start is a sequence of these calls in the order in
  which they get the lock; the theorem on their numbers is for every order. The registers of the local
  interrupt controllers are memory, the model-specific register is a parameter, and a port reads as the same
  value at every look.
\<close>

unbundle bit_operations_syntax

subsection \<open>The machine\<close>

text \<open>The state of the kernel with the descriptor tables and the variables of the start.\<close>

record machine =
  m_k :: kstate
  m_gdt :: gdt
  m_idt :: idt
  bsp_init :: bool
  mp_system :: nat
  lapic_address :: u32
  incr_var :: nat
  proc_index :: "nat \<Rightarrow> nat"
  start_spinlock :: bool

text \<open>What the hardware and the linker provide: the local interrupt controller's number of the processor that
  starts and of the others in the order in which they get the lock, the base register, the addresses of the
  interrupt stubs and of the task segments, and the real-mode code.\<close>

record hardware =
  hw_lapic_id :: nat
  hw_aps :: "nat list"
  hw_apic_msr :: u32
  hw_stub :: "nat \<Rightarrow> u32"
  hw_tss :: "nat \<Rightarrow> u32"
  realmode_lma_start :: u32
  realmode_lma_end :: u32
  REAL_BASE :: u32
  pok_end :: u32

definition upd_k :: "(kstate \<Rightarrow> kstate) \<Rightarrow> machine \<Rightarrow> machine" where
  "upd_k f m = m\<lparr>m_k := f (m_k m)\<rparr>"

definition pok_get_proc_id :: "nat \<Rightarrow> machine \<Rightarrow> nat" where
  "pok_get_proc_id lapic m = (if mp_system m \<noteq> 0 then proc_index m lapic else 0)"

subsection \<open>Interrupts between processors\<close>

definition POK_IPI_TEST_INT_NUMBER :: nat where "POK_IPI_TEST_INT_NUMBER = 33"

definition POK_IPI_GLOBAL_SCHED_INT_NUMBER :: nat where "POK_IPI_GLOBAL_SCHED_INT_NUMBER = 34"

definition POK_IPI_SCHED_THREAD_INT_NUMBER :: nat where "POK_IPI_SCHED_THREAD_INT_NUMBER = 35"

definition pok_ipi_init :: "(nat \<Rightarrow> u32) \<Rightarrow> idt \<Rightarrow> idt" where
  "pok_ipi_init stub idt =
     pok_arch_event_register stub POK_IPI_SCHED_THREAD_INT_NUMBER
       (pok_arch_event_register stub POK_IPI_GLOBAL_SCHED_INT_NUMBER
         (pok_arch_event_register stub POK_IPI_TEST_INT_NUMBER idt))"

definition pok_send_ipi :: "u32 \<Rightarrow> u8 \<Rightarrow> u8 \<Rightarrow> u8 \<Rightarrow> kstate \<Rightarrow> kstate" where
  "pok_send_ipi lapic dest_group dest_apic INT_number s =
     wr32 (lapic + 0x300) (0x4000 + ucast INT_number + push_bit 18 (ucast dest_group))
       (wr32 (lapic + 0x310) (push_bit 24 (ucast dest_apic)) s)"

text \<open>The events of the schedulers with these names are these calls.\<close>

definition pok_send_global_schedule_thread :: "u32 \<Rightarrow> kstate \<Rightarrow> kstate" where
  "pok_send_global_schedule_thread lapic = pok_send_ipi lapic 3 0 (of_nat POK_IPI_GLOBAL_SCHED_INT_NUMBER)"

definition pok_send_schedule_thread :: "u32 \<Rightarrow> u8 \<Rightarrow> kstate \<Rightarrow> kstate" where
  "pok_send_schedule_thread lapic dest = pok_send_ipi lapic 0 dest (of_nat POK_IPI_SCHED_THREAD_INT_NUMBER)"

definition pok_send_schedule_thread_other_processors :: "u32 \<Rightarrow> kstate \<Rightarrow> kstate" where
  "pok_send_schedule_thread_other_processors lapic = pok_send_ipi lapic 3 0 (of_nat POK_IPI_SCHED_THREAD_INT_NUMBER)"

definition check_apic :: "hardware \<Rightarrow> kstate \<Rightarrow> bool" where
  "check_apic hw s = (bit (hw_apic_msr hw) 11 \<and> bit (rd32 (ks_mem s) 0xfee000F0) 8)"

definition enable_apic :: "kstate \<Rightarrow> kstate" where
  "enable_apic s = wr32 0xfee000F0 (rd32 (ks_mem s) 0xfee000F0 OR push_bit 8 1) s"

subsection \<open>The tables of the firmware\<close>

definition mp_signature :: "(u32 \<Rightarrow> u8) \<Rightarrow> u32 \<Rightarrow> bool" where
  "mp_signature m a = (m a = 0x5F \<and> m (a + 1) = 0x4D \<and> m (a + 2) = 0x50 \<and> m (a + 3) = 0x5F)"

definition ebda_address :: "(u32 \<Rightarrow> u8) \<Rightarrow> u32" where
  "ebda_address m = (let a = push_bit 8 (ucast (m 0x40F)) OR ucast (m 0x40E) in if a < 0x80000 then push_bit 4 a else a)"

text \<open>The index of the signature in the area is returned, not its address.\<close>

definition search_mp_ebda :: "(u32 \<Rightarrow> u8) \<Rightarrow> u32" where
  "search_mp_ebda m =
     (if ebda_address m = 0 then 0
      else case find (\<lambda>i. mp_signature m (ebda_address m + of_nat i)) [0..<1021] of None \<Rightarrow> 0 | Some i \<Rightarrow> of_nat i)"

definition search_mp_bios :: "(u32 \<Rightarrow> u8) \<Rightarrow> u32" where
  "search_mp_bios m =
     (case find (\<lambda>i. mp_signature m (0xF0000 + of_nat i)) [0..<65532] of None \<Rightarrow> 0 | Some i \<Rightarrow> 0xF0000 + of_nat i)"

definition search_mp :: "(u32 \<Rightarrow> u8) \<Rightarrow> u32" where
  "search_mp m = (if search_mp_ebda m = 0 then search_mp_bios m else search_mp_ebda m)"

text \<open>The register window of the controller is taken to start at the entry itself.\<close>

definition io_apic_entry_handler :: "pok_config \<Rightarrow> u32 \<Rightarrow> kstate \<Rightarrow> kstate" where
  "io_apic_entry_handler c a s =
     (if ks_mem s (a + 3) \<noteq> 0 then wr32 a (if NEEDS_DEBUG c then 0x15 else 0x14) (wr32 a 0x14 s) else s)"

definition SIZEOF_MP_HEADER :: u32 where "SIZEOF_MP_HEADER = 44"

text \<open>One entry of the configuration table: its address, the processors enabled and seen so far.\<close>

definition mp_entry_step :: "pok_config \<Rightarrow> nat \<Rightarrow> u32 \<times> nat \<times> nat \<times> kstate \<Rightarrow> (u32 \<times> nat \<times> nat \<times> kstate) option" where
  "mp_entry_step c i = (\<lambda>(a, enabled, procs, s).
     if ks_mem s a = 0 then Some (a + 20, enabled + of_bool (bit (ks_mem s (a + 3)) 0), procs + 1, s)
     else if ks_mem s a = 1 then Some (a + 8, enabled, procs, s)
     else if ks_mem s a = 2 then Some (a + 8, enabled, procs, io_apic_entry_handler c a s)
     else if ks_mem s a = 3 \<or> ks_mem s a = 4 then Some (a + 8, enabled, procs, s)
     else None)"

definition mp_conf_entries :: "pok_config \<Rightarrow> u32 \<Rightarrow> kstate \<Rightarrow> (u32 \<times> nat \<times> nat \<times> kstate) option" where
  "mp_conf_entries c conf s =
     for_loop [0..<unat (rd16 (ks_mem s) (conf + 34))] (mp_entry_step c) (conf + SIZEOF_MP_HEADER, 0, 0, s)"

subsection \<open>Starting the processors\<close>

text \<open>The wait ends when the output of the counter is high; the value of the port does not change.\<close>

definition pok_x86_wait_mp :: "pok_config \<Rightarrow> u16 \<Rightarrow> kstate \<Rightarrow> kstate option" where
  "pok_x86_wait_mp c counter_init s = do {
     let s1 = outb (PIT_BASE + 3) 0xE2 (outb PIT_BASE (ucast (drop_bit 8 counter_init))
                (outb PIT_BASE (ucast counter_init) (outb (PIT_BASE + 3) 0x30 s)));
     kassert (bit (arch_inb c PIT_BASE) 7);
     Some s1
   }"

definition pok_start_ap :: "pok_config \<Rightarrow> u32 \<Rightarrow> kstate \<Rightarrow> kstate option" where
  "pok_start_ap c lapic s = do {
     let s1 = wr32 (lapic + 0x300) 0xC85FF (wr32 (lapic + 0x300) 0xCC5FF s);
     s2 \<leftarrow> pok_x86_wait_mp c 0x2e9b s1;
     s3 \<leftarrow> pok_x86_wait_mp c 0x4AE (wr32 (lapic + 0x300) 0x000C4601 s2);
     for_loop [0..<19] (\<lambda>_. pok_x86_wait_mp c 0xffff) (wr32 (lapic + 0x300) 0x000C4601 s3)
   }"

definition realmode_setup :: "hardware \<Rightarrow> kstate \<Rightarrow> kstate" where
  "realmode_setup hw s =
     fold (\<lambda>k s. wr32 (REAL_BASE hw + 4 * of_nat k) (rd32 (ks_mem s) (realmode_lma_start hw + 4 * of_nat k)) s)
       [0..<(unat (realmode_lma_end hw) - unat (realmode_lma_start hw) + 3) div 4] s"

text \<open>A started processor counts the lock at the number all processors have at first, takes its own number, moves
  the count there and gives the lock back. The counts are of type \<open>int\<close> in the code and stay above zero here.\<close>

definition take_number :: "nat \<Rightarrow> machine \<Rightarrow> machine option" where
  "take_number lapic m = do {
     kassert (\<not> start_spinlock m);
     let p0 = pok_get_proc_id lapic m;
     let m1 = upd_k (\<lambda>s. s\<lparr>spinlocks := (spinlocks s)(p0 := spinlocks s p0 + 1)\<rparr>) m;
     let m2 = m1\<lparr>start_spinlock := True, proc_index := (proc_index m1)(lapic := incr_var m1), incr_var := (incr_var m1 + 1) mod 256\<rparr>;
     let m3 = upd_k (\<lambda>s. s\<lparr>spinlocks := (spinlocks s)(0 := spinlocks s 0 - 1)\<rparr>) m2;
     let p1 = pok_get_proc_id lapic m3;
     let m4 = upd_k (\<lambda>s. s\<lparr>spinlocks := (spinlocks s)(p1 := spinlocks s p1 + 1)\<rparr>) m3;
     kassert (spinlocks (m_k m4) p1 \<noteq> 0);
     Some (upd_k (\<lambda>s. s\<lparr>spinlocks := (spinlocks s)(p1 := spinlocks s p1 - 1)\<rparr>) (m4\<lparr>start_spinlock := False\<rparr>))
   }"

definition machine_event_init :: "hardware \<Rightarrow> machine \<Rightarrow> machine" where
  "machine_event_init hw m = m\<lparr>m_idt := pok_event_init (bsp_init m) (hw_stub hw) (m_idt m), bsp_init := True\<rparr>"

definition main_ap :: "hardware \<Rightarrow> nat \<Rightarrow> machine \<Rightarrow> machine option" where
  "main_ap hw lapic m = do {
     m1 \<leftarrow> take_number lapic m;
     let p = pok_get_proc_id lapic m1;
     let m2 = machine_event_init hw (m1\<lparr>m_gdt := pok_gdt_init p (hw_tss hw p) (m_gdt m1)\<rparr>);
     Some (upd_k enable_apic m2)
   }"

text \<open>What the first processor prepares before it starts the others.\<close>

definition prepare_start :: "pok_config \<Rightarrow> hardware \<Rightarrow> machine \<Rightarrow> machine" where
  "prepare_start c hw m =
     (let m1 = (if check_apic hw (m_k m) then m else upd_k enable_apic m);
          m2 = (upd_k (realmode_setup hw) m1)\<lparr>incr_var := 1\<rparr>;
          m3 = m2\<lparr>m_idt := pok_ipi_init (hw_stub hw) (m_idt m2), proc_index := (proc_index m2)(hw_lapic_id hw := 0),
                 start_spinlock := False\<rparr>
      in upd_k (\<lambda>s. s\<lparr>spinlocks := (\<lambda>i. if i < NB_PROCESSORS c then 0 else spinlocks s i)\<rparr>) m3)"

text \<open>Without tables nothing is done. The last assertion of the code is that every processor came.\<close>

definition start_processors :: "pok_config \<Rightarrow> hardware \<Rightarrow> nat \<Rightarrow> machine \<Rightarrow> machine option" where
  "start_processors c hw enabled m = do {
     let m4 = prepare_start c hw m;
     s5 \<leftarrow> pok_start_ap c (lapic_address m4) (m_k m4);
     m6 \<leftarrow> for_loop (hw_aps hw) (main_ap hw) (m4\<lparr>m_k := s5\<rparr>);
     s7 \<leftarrow> pok_x86_wait_mp c 0xffff (m_k m6);
     kassert (incr_var m6 = enabled);
     Some (m6\<lparr>m_k := s7\<rparr>)
   }"

definition pok_multiprocessing_init :: "pok_config \<Rightarrow> hardware \<Rightarrow> machine \<Rightarrow> machine option" where
  "pok_multiprocessing_init c hw m =
     (let mp = search_mp (ks_mem (m_k m)) in
      if mp = 0 then Some m
      else do {
        let conf = rd32 (ks_mem (m_k m)) (mp + 4);
        (a, enabled, procs, s1) \<leftarrow> mp_conf_entries c conf (m_k m);
        kassert (procs \<le> NB_PROCESSORS c);
        let m1 = m\<lparr>m_k := s1, lapic_address := rd32 (ks_mem s1) (conf + 36), mp_system := enabled mod 256\<rparr>;
        kassert (mp_system m1 = NB_PROCESSORS c);
        start_processors c hw enabled m1
      })"

subsection \<open>Every processor gets its own number\<close>

lemma take_number_effect:
  assumes "\<not> start_spinlock m" "mp_system m \<noteq> 0" "proc_index m lapic = 0" "incr_var m < 255"
  shows "take_number lapic m =
    Some (m\<lparr>proc_index := (proc_index m)(lapic := incr_var m), incr_var := incr_var m + 1, start_spinlock := False\<rparr>)"
  using assms by (simp add: take_number_def upd_k_def pok_get_proc_id_def Let_def fun_upd_idem)

lemma wr_spinlocks [simp]:
  "spinlocks (wr32 a w s) = spinlocks s" "spinlocks (outb p v s) = spinlocks s" "proc_id (wr32 a w s) = proc_id s"
  by (simp_all add: wr32_def mem_put_def outb_def emit_def)

lemma main_ap_effect:
  assumes "\<not> start_spinlock m" "mp_system m \<noteq> 0" "proc_index m lapic = 0" "incr_var m < 255"
  shows "\<exists>m'. main_ap hw lapic m = Some m' \<and> \<not> start_spinlock m' \<and> mp_system m' = mp_system m \<and>
    proc_index m' = (proc_index m)(lapic := incr_var m) \<and> incr_var m' = incr_var m + 1 \<and>
    spinlocks (m_k m') = spinlocks (m_k m)"
  using assms by (simp add: main_ap_def take_number_effect upd_k_def machine_event_init_def enable_apic_def Let_def)

lemma main_ap_loop:
  assumes "\<not> start_spinlock m" "mp_system m \<noteq> 0" "\<forall>l \<in> set ps. proc_index m l = 0" "distinct ps"
    and "incr_var m + length ps < 256"
  shows "\<exists>m'. for_loop ps (main_ap hw) m = Some m' \<and> \<not> start_spinlock m' \<and> mp_system m' = mp_system m \<and>
    (\<forall>k < length ps. proc_index m' (ps ! k) = incr_var m + k) \<and> (\<forall>l. l \<notin> set ps \<longrightarrow> proc_index m' l = proc_index m l) \<and>
    incr_var m' = incr_var m + length ps \<and> spinlocks (m_k m') = spinlocks (m_k m)"
  using assms
proof (induction ps arbitrary: m)
  case (Cons l ps)
  from main_ap_effect [of m l hw] Cons.prems obtain m1 where m1: "main_ap hw l m = Some m1" "\<not> start_spinlock m1"
    "mp_system m1 = mp_system m" "proc_index m1 = (proc_index m)(l := incr_var m)" "incr_var m1 = incr_var m + 1"
    "spinlocks (m_k m1) = spinlocks (m_k m)" by auto
  have "\<forall>l' \<in> set ps. proc_index m1 l' = 0" using Cons.prems(3,4) by (auto simp: m1)
  from Cons.IH [OF m1(2) _ this] Cons.prems obtain m' where m': "for_loop ps (main_ap hw) m1 = Some m'"
    "\<not> start_spinlock m'" "mp_system m' = mp_system m" "\<forall>k < length ps. proc_index m' (ps ! k) = incr_var m1 + k"
    "\<forall>l. l \<notin> set ps \<longrightarrow> proc_index m' l = proc_index m1 l" "incr_var m' = incr_var m1 + length ps"
    "spinlocks (m_k m') = spinlocks (m_k m1)"
    by (auto simp: m1)
  have "proc_index m' l = incr_var m" using m'(5) Cons.prems(4) by (simp add: m1)
  then have "proc_index m' ((l # ps) ! k) = incr_var m + k" if "k < length (l # ps)" for k
    using that m'(4) by (cases k) (auto simp: m1)
  then show ?case using m1(1) m' by (auto simp: m1)
qed simp

text \<open>The wait leaves the counts of the locks alone.\<close>

lemma wait_mp_high:
  assumes "bit (arch_inb c PIT_BASE) 7"
  shows "\<exists>s'. pok_x86_wait_mp c n s = Some s' \<and> spinlocks s' = spinlocks s"
  using assms by (simp add: pok_x86_wait_mp_def Let_def)

lemma start_ap_high:
  assumes "bit (arch_inb c PIT_BASE) 7"
  shows "\<exists>s'. pok_start_ap c lapic s = Some s' \<and> spinlocks s' = spinlocks s"
proof -
  have step: "\<exists>s'. pok_x86_wait_mp c 0xffff s1 = Some s' \<and> spinlocks s' = spinlocks s" if "spinlocks s1 = spinlocks s" for s1 :: kstate
    using wait_mp_high [OF assms, of "0xffff" s1] that by auto
  obtain s2 where s2: "pok_x86_wait_mp c 0x2e9b (wr32 (lapic + 0x300) 0xC85FF (wr32 (lapic + 0x300) 0xCC5FF s)) = Some s2"
    "spinlocks s2 = spinlocks s" using wait_mp_high [OF assms] by (metis wr_spinlocks(1))
  obtain s3 where s3: "pok_x86_wait_mp c 0x4AE (wr32 (lapic + 0x300) 0x000C4601 s2) = Some s3" "spinlocks s3 = spinlocks s"
    using wait_mp_high [OF assms] s2(2) by (metis wr_spinlocks(1))
  have "\<exists>s'. for_loop [0..<19] (\<lambda>_. pok_x86_wait_mp c 0xffff) (wr32 (lapic + 0x300) 0x000C4601 s3) = Some s' \<and>
      spinlocks s' = spinlocks s"
    by (rule for_loop_total) (use s3(2) step in auto)
  then show ?thesis using s2(1) s3(1) by (simp add: pok_start_ap_def Let_def)
qed

lemma numbering_bij:
  assumes "\<And>k. k < length xs \<Longrightarrow> f (xs ! k) = k"
  shows "bij_betw f (set xs) {..<length xs}"
proof (rule bij_betw_byWitness [where f' = "\<lambda>k. xs ! k"])
  show "\<forall>x \<in> set xs. xs ! f x = x" using assms by (auto simp: set_conv_nth)
  show "f ` set xs \<subseteq> {..<length xs}" using assms by (auto simp: set_conv_nth)
qed (use assms in auto)

text \<open>The start succeeds when as many processors came as the tables name.\<close>

lemma start_processors_result:
  assumes "distinct (hw_lapic_id hw # hw_aps hw)" "length (hw_aps hw) < 255" "\<forall>l. proc_index m l = 0"
    and "mp_system m \<noteq> 0" "bit (arch_inb c PIT_BASE) 7"
  shows "if enabled = length (hw_aps hw) + 1
    then \<exists>m'. start_processors c hw enabled m = Some m' \<and>
      bij_betw (\<lambda>l. pok_get_proc_id l m') (set (hw_lapic_id hw # hw_aps hw)) {..<enabled} \<and>
      (\<forall>k<enabled. pok_get_proc_id ((hw_lapic_id hw # hw_aps hw) ! k) m' = k) \<and>
      \<not> start_spinlock m' \<and> (\<forall>i < NB_PROCESSORS c. spinlocks (m_k m') i = 0)
    else start_processors c hw enabled m = None"
proof -
  let ?ids = "hw_lapic_id hw # hw_aps hw"
  define m4 where "m4 = prepare_start c hw m"
  have m4: "mp_system m4 = mp_system m" "proc_index m4 = proc_index m" "incr_var m4 = 1" "\<not> start_spinlock m4"
    "\<forall>i < NB_PROCESSORS c. spinlocks (m_k m4) i = 0"
    using assms(3) by (simp_all add: m4_def prepare_start_def upd_k_def Let_def fun_upd_idem)
  obtain s5 where s5: "pok_start_ap c (lapic_address m4) (m_k m4) = Some s5" "spinlocks s5 = spinlocks (m_k m4)"
    using start_ap_high [OF assms(5)] by blast
  obtain m6 where m6: "for_loop (hw_aps hw) (main_ap hw) (m4\<lparr>m_k := s5\<rparr>) = Some m6" "\<not> start_spinlock m6"
    "mp_system m6 = mp_system m" "\<forall>k < length (hw_aps hw). proc_index m6 (hw_aps hw ! k) = 1 + k"
    "\<forall>l. l \<notin> set (hw_aps hw) \<longrightarrow> proc_index m6 l = 0"
    "incr_var m6 = 1 + length (hw_aps hw)" "spinlocks (m_k m6) = spinlocks s5"
    using main_ap_loop [of "m4\<lparr>m_k := s5\<rparr>" "hw_aps hw" hw] assms(1-4) m4 by auto
  obtain s7 where s7: "pok_x86_wait_mp c 0xffff (m_k m6) = Some s7" "spinlocks s7 = spinlocks (m_k m6)"
    using wait_mp_high [OF assms(5)] by blast
  have run: "start_processors c hw enabled m =
      (if enabled = length (hw_aps hw) + 1 then Some (m6\<lparr>m_k := s7\<rparr>) else None)"
    using s5(1) m6(1,6) s7(1)
    by (auto simp: start_processors_def m4_def [symmetric] Let_def)
  have num: "pok_get_proc_id (?ids ! k) (m6\<lparr>m_k := s7\<rparr>) = k" if "k < length ?ids" for k
    using that assms(1,4) m6(3-5) by (cases k) (auto simp: pok_get_proc_id_def)
  have "bij_betw (\<lambda>l. pok_get_proc_id l (m6\<lparr>m_k := s7\<rparr>)) (set ?ids) {..<length ?ids}"
    by (rule numbering_bij) (use num in simp)
  then show ?thesis using run num m4(5) m6(2,7) s5(2) s7(2) by auto
qed

text \<open>Whatever the order in which the other processors get the lock, the start ends with every processor under
  a number of its own, the one that started as 0 and the others as 1, 2 and so on in that order, with the lock
  free and no lock counted anywhere; and when a processor does not come, or one too many, the start stops at its
  last assertion.\<close>

theorem processors_numbered:
  assumes "distinct (hw_lapic_id hw # hw_aps hw)" "length (hw_aps hw) < 255" "\<forall>l. proc_index m l = 0"
    and "mp_system m \<noteq> 0" "bit (arch_inb c PIT_BASE) 7"
  shows "if enabled = length (hw_aps hw) + 1
    then \<exists>m'. start_processors c hw enabled m = Some m' \<and>
      bij_betw (\<lambda>l. pok_get_proc_id l m') (set (hw_lapic_id hw # hw_aps hw)) {..<enabled} \<and>
      (\<forall>k<enabled. pok_get_proc_id ((hw_lapic_id hw # hw_aps hw) ! k) m' = k) \<and>
      \<not> start_spinlock m' \<and> (\<forall>i < NB_PROCESSORS c. spinlocks (m_k m') i = 0)
    else start_processors c hw enabled m = None"
  by (rule start_processors_result [OF assms])

definition demo_hardware :: hardware where
  "demo_hardware = \<lparr>hw_lapic_id = 0, hw_aps = [2, 1], hw_apic_msr = 2048, hw_stub = (\<lambda>v. of_nat v), hw_tss = (\<lambda>_. 512),
     realmode_lma_start = 0x100000, realmode_lma_end = 0x100010, REAL_BASE = 0x1000, pok_end = 0x200001\<rparr>"

definition demo_machine :: machine where
  "demo_machine = \<lparr>m_k = demo_state, m_gdt = (\<lambda>_. gdt_null), m_idt = (\<lambda>_. idt_null), bsp_init = True, mp_system = 3,
     lapic_address = 0xfee00000, incr_var = 0, proc_index = (\<lambda>_. 0), start_spinlock = False\<rparr>"

theorem processors_numbered_witness:
  "(\<exists>m'. start_processors (demo_config\<lparr>NB_PROCESSORS := 3, arch_inb := (\<lambda>_. 0x80)\<rparr>) demo_hardware 3 demo_machine = Some m' \<and>
     pok_get_proc_id 2 m' = 1 \<and> pok_get_proc_id 1 m' = 2) \<and>
   start_processors (demo_config\<lparr>NB_PROCESSORS := 3, arch_inb := (\<lambda>_. 0x80)\<rparr>) demo_hardware 4 demo_machine = None"
proof -
  let ?c = "demo_config\<lparr>NB_PROCESSORS := 3, arch_inb := (\<lambda>_. 0x80)\<rparr>"
  have h: "distinct (hw_lapic_id demo_hardware # hw_aps demo_hardware)" "length (hw_aps demo_hardware) < 255"
    "\<forall>l. proc_index demo_machine l = 0" "mp_system demo_machine \<noteq> 0" "bit (arch_inb ?c PIT_BASE) 7"
    by (simp_all add: demo_hardware_def demo_machine_def)
  from processors_numbered [OF h, of 3] obtain m' where
    m': "start_processors ?c demo_hardware 3 demo_machine = Some m'"
    "\<forall>k<3. pok_get_proc_id ([0, 2, 1] ! k) m' = k"
    by (auto simp: demo_hardware_def)
  have "pok_get_proc_id 2 m' = 1" "pok_get_proc_id 1 m' = 2"
    using m'(2) [rule_format, of 1] m'(2) [rule_format, of 2] by simp_all
  moreover have "start_processors ?c demo_hardware 4 demo_machine = None"
    using processors_numbered [OF h, of 4] by (simp add: demo_hardware_def)
  ultimately show ?thesis using m'(1) by blast
qed

subsection \<open>Interrupts go to controllers\<close>

text \<open>The controller an interrupt was sent to is in the upper byte of the destination register.\<close>

definition ipi_target :: "u32 \<Rightarrow> kstate \<Rightarrow> nat" where
  "ipi_target lapic s = unat (ks_mem s (lapic + 0x313))"

lemma top_byte: "ucast (drop_bit 24 (push_bit 24 (ucast (w :: u8) :: u32))) = w"
  by (rule bit_word_eqI) (auto simp: bit_simps)

lemma send_schedule_thread_target: "dest < 256 \<Longrightarrow> ipi_target lapic (pok_send_schedule_thread lapic (of_nat dest) s) = dest"
  by (simp add: ipi_target_def pok_send_schedule_thread_def pok_send_ipi_def wr32_def mem_put_def unat_of_nat top_byte)

text \<open>The request to schedule is sent to the controller whose number is the number of the processor, but the
  processors are numbered in the order in which they came: the request for a processor reaches it only when
  the processor that came at that place has that controller.\<close>

theorem schedule_request_target:
  assumes "distinct (hw_lapic_id hw # hw_aps hw)" "length (hw_aps hw) < 255" "\<forall>l. proc_index m l = 0"
    and "mp_system m \<noteq> 0" "bit (arch_inb c PIT_BASE) 7" "dest \<le> length (hw_aps hw)" "dest \<in> set (hw_lapic_id hw # hw_aps hw)"
  shows "\<exists>m'. start_processors c hw (length (hw_aps hw) + 1) m = Some m' \<and>
    (pok_get_proc_id (ipi_target lapic (pok_send_schedule_thread lapic (of_nat dest) s)) m' = dest \<longleftrightarrow>
     (hw_lapic_id hw # hw_aps hw) ! dest = dest)"
proof -
  let ?ids = "hw_lapic_id hw # hw_aps hw"
  from start_processors_result [OF assms(1-5), of "length (hw_aps hw) + 1"] obtain m' where
    m': "start_processors c hw (length (hw_aps hw) + 1) m = Some m'"
    "\<forall>k < length ?ids. pok_get_proc_id (?ids ! k) m' = k" by auto
  obtain j where j: "j < length ?ids" "?ids ! j = dest" using assms(7) unfolding in_set_conv_nth by auto
  have "pok_get_proc_id dest m' = dest \<longleftrightarrow> ?ids ! dest = dest"
    using m'(2) [rule_format, OF j(1)] m'(2) [rule_format, of dest] j assms(6) by auto
  then show ?thesis using m'(1) assms(2,6) by (simp add: send_schedule_thread_target)
qed

theorem schedule_request_target_witness:
  "\<exists>m'. start_processors (demo_config\<lparr>NB_PROCESSORS := 3, arch_inb := (\<lambda>_. 0x80)\<rparr>) demo_hardware 3 demo_machine = Some m' \<and>
     pok_get_proc_id (ipi_target 0xfee00000 (pok_send_schedule_thread 0xfee00000 1 demo_state)) m' \<noteq> 1"
  using schedule_request_target [of demo_hardware demo_machine "demo_config\<lparr>NB_PROCESSORS := 3, arch_inb := (\<lambda>_. 0x80)\<rparr>" 1
      "0xfee00000" demo_state]
  by (auto simp: demo_hardware_def demo_machine_def numeral_3_eq_3)

subsection \<open>The configuration table\<close>

text \<open>The entries of a table, as the firmware writes them: a processor and whether it is enabled, an I/O controller
  and whether it is enabled, and the three kinds that are passed over.\<close>

datatype mp_entry = Mp_processor bool | Mp_io_apic bool | Mp_skipped u8

primrec entry_size :: "mp_entry \<Rightarrow> nat" where
  "entry_size (Mp_processor _) = 20"
| "entry_size (Mp_io_apic _) = 8"
| "entry_size (Mp_skipped _) = 8"

primrec entry_at :: "(u32 \<Rightarrow> u8) \<Rightarrow> u32 \<Rightarrow> mp_entry \<Rightarrow> bool" where
  "entry_at m a (Mp_processor e) = (m a = 0 \<and> bit (m (a + 3)) 0 = e)"
| "entry_at m a (Mp_io_apic e) = (m a = 2 \<and> (m (a + 3) \<noteq> 0) = e)"
| "entry_at m a (Mp_skipped k) = (m a = k \<and> k \<in> {1, 3, 4})"

fun table_at :: "(u32 \<Rightarrow> u8) \<Rightarrow> u32 \<Rightarrow> mp_entry list \<Rightarrow> bool" where
  "table_at m a [] = True"
| "table_at m a (e # es) = (entry_at m a e \<and> table_at m (a + of_nat (entry_size e)) es)"

abbreviation table_size :: "mp_entry list \<Rightarrow> nat" where
  "table_size es \<equiv> sum_list (map entry_size es)"

lemma entry_size_bounds: "8 \<le> entry_size e" "entry_size e \<le> 20"
  by (cases e; simp)+

lemma table_size_le: "table_size es \<le> 20 * length es"
  by (induction es) (use entry_size_bounds(2) in \<open>auto intro: add_mono\<close>)

text \<open>The table depends on its own bytes only.\<close>

lemma entry_at_cong:
  assumes "\<forall>k < entry_size e. m' (a + of_nat k) = m (a + of_nat k)"
  shows "entry_at m' a e = entry_at m a e"
proof -
  have "m' a = m a" "m' (a + 3) = m (a + 3)"
    using assms [rule_format, of 0] assms [rule_format, of 3] entry_size_bounds(1) [of e] by simp_all
  then show ?thesis by (cases e) auto
qed

lemma table_at_cong:
  "\<forall>k < table_size es. m' (a + of_nat k) = m (a + of_nat k) \<Longrightarrow> table_at m' a es = table_at m a es"
proof (induction es arbitrary: a)
  case (Cons e es)
  have "entry_at m' a e = entry_at m a e" using Cons.prems by (intro entry_at_cong) simp
  moreover have "table_at m' (a + of_nat (entry_size e)) es = table_at m (a + of_nat (entry_size e)) es"
  proof (rule Cons.IH, intro allI impI)
    fix k assume "k < table_size es"
    then show "m' (a + of_nat (entry_size e) + of_nat k) = m (a + of_nat (entry_size e) + of_nat k)"
      using Cons.prems [rule_format, of "entry_size e + k"] by (simp add: add.assoc)
  qed
  ultimately show ?case by simp
qed simp

text \<open>What the scan stores is in the first four bytes of an entry.\<close>

lemma io_apic_handler_mem:
  "4 \<le> unat (x - a) \<Longrightarrow> ks_mem (io_apic_entry_handler c a s) x = ks_mem s x"
  by (simp add: io_apic_entry_handler_def wr32_def mem_put_def)

lemma offset_ge:
  assumes "n + k < 2 ^ 32" shows "unat (a + of_nat n + of_nat k - (a :: u32)) = n + k"
proof -
  have "a + of_nat n + of_nat k - a = of_nat (n + k)" by simp
  moreover have "unat (of_nat (n + k) :: u32) = n + k" using assms by (simp add: unat_of_nat del: of_nat_add)
  ultimately show ?thesis by simp
qed

lemma mp_entry_effect:
  assumes "entry_at (ks_mem s) a e" "entry_size e + table_size es < 2 ^ 32"
    and "table_at (ks_mem s) (a + of_nat (entry_size e)) es"
  shows "\<exists>s'. mp_entry_step c i (a, en, n, s) =
      Some (a + of_nat (entry_size e), en + of_bool (e = Mp_processor True), n + of_bool (\<exists>b. e = Mp_processor b), s') \<and>
    table_at (ks_mem s') (a + of_nat (entry_size e)) es \<and> (\<forall>x. entry_size e \<le> unat (x - a) \<longrightarrow> ks_mem s' x = ks_mem s x) \<and>
    (e = Mp_io_apic True \<longrightarrow> ks_mem s' a \<in> {0x14, 0x15})"
proof -
  have keep: "table_at (ks_mem (io_apic_entry_handler c a s)) (a + 8) es = table_at (ks_mem s) (a + 8) es"
    if "e = Mp_io_apic b" for b
  proof (rule table_at_cong, intro allI impI io_apic_handler_mem)
    fix k assume "k < table_size es"
    then show "4 \<le> unat (a + 8 + of_nat k - a)" using offset_ge [of 8 k a] assms(2) that by simp
  qed
  show ?thesis
  proof (cases e)
    case (Mp_io_apic b)
    then show ?thesis
      using assms keep [of b] by (auto simp: mp_entry_step_def io_apic_handler_mem)
        (auto simp: io_apic_entry_handler_def wr32_def mem_put_def)
  qed (use assms in \<open>auto simp: mp_entry_step_def\<close>)
qed

lemma mp_entries_loop:
  assumes "table_at (ks_mem s) a es" "table_size es < 2 ^ 32" "length is = length es"
  shows "\<exists>s'. for_loop is (mp_entry_step c) (a, en, n, s) =
      Some (a + of_nat (table_size es), en + count_list es (Mp_processor True),
            n + length (filter (\<lambda>e. \<exists>b. e = Mp_processor b) es), s') \<and>
    (\<forall>x. table_size es \<le> unat (x - a) \<longrightarrow> ks_mem s' x = ks_mem s x)"
  using assms
proof (induction es arbitrary: a en n s "is")
  case (Cons e es)
  then obtain j js where "is": "is = j # js" "length js = length es" by (cases "is") auto
  let ?a = "a + of_nat (entry_size e)" and ?en = "en + of_bool (e = Mp_processor True)"
    and ?n = "n + of_bool (\<exists>b. e = Mp_processor b)"
  from Cons.prems mp_entry_effect [of s a e es c j en n] obtain s1 where s1: "mp_entry_step c j (a, en, n, s) = Some (?a, ?en, ?n, s1)"
    "table_at (ks_mem s1) ?a es" "\<forall>x. entry_size e \<le> unat (x - a) \<longrightarrow> ks_mem s1 x = ks_mem s x"
    by auto
  from Cons.IH [of s1 ?a js ?en ?n] s1(2) Cons.prems(2) "is" obtain s' where
    s': "for_loop js (mp_entry_step c) (?a, ?en, ?n, s1) = Some (?a + of_nat (table_size es),
      ?en + count_list es (Mp_processor True), ?n + length (filter (\<lambda>e. \<exists>b. e = Mp_processor b) es), s')"
    "\<forall>x. table_size es \<le> unat (x - ?a) \<longrightarrow> ks_mem s' x = ks_mem s1 x" by auto
  have "ks_mem s' x = ks_mem s x" if x: "entry_size e + table_size es \<le> unat (x - a)" for x
  proof -
    have eq: "x - ?a = (x - a) - of_nat (entry_size e)" by (simp add: algebra_simps)
    have "unat (of_nat (entry_size e) :: u32) = entry_size e" using Cons.prems(2) by (simp add: unat_of_nat)
    then have "unat ((x - a) - of_nat (entry_size e)) = unat (x - a) - entry_size e"
      using x unat_sub [of "of_nat (entry_size e)" "x - a"] by (simp add: word_le_nat_alt)
    then have "unat (x - ?a) = unat (x - a) - entry_size e" by (simp only: eq)
    then show ?thesis using s'(2) s1(3) x by simp
  qed
  then show ?case using s'(1) s1(1) "is" by (cases e) (auto simp: add.assoc)
qed simp

lemma before_table:
  assumes "k < n" "n + t \<le> 2 ^ 32"
  shows "t \<le> unat (a + of_nat k - (a + of_nat n :: u32))"
proof -
  define d where "d = 2 ^ 32 - (n - k)"
  have "(of_nat (2 ^ 32) :: u32) = 0" by simp
  then have "(of_nat d :: u32) = - of_nat (n - k)" using assms by (simp add: d_def of_nat_diff)
  then have "a + of_nat k - (a + of_nat n :: u32) = of_nat d" using assms(1) by (simp add: of_nat_diff)
  moreover have "d < 2 ^ 32" using assms by (simp add: d_def)
  then have "unat (of_nat d :: u32) = d" by (simp add: unat_of_nat)
  moreover have "t \<le> d" using assms by (simp add: d_def)
  ultimately show ?thesis by simp
qed

text \<open>A second look at the table finds the first I/O controller overwritten.\<close>

lemma mp_entries_again:
  assumes "table_at (ks_mem s) a es" "table_size es < 2 ^ 32" "length is = length es" "Mp_io_apic True \<in> set es"
    and "for_loop is (mp_entry_step c) (a, en, n, s) = Some r"
    and "\<forall>k < table_size es. ks_mem t (a + of_nat k) = ks_mem (snd (snd (snd r))) (a + of_nat k)"
  shows "for_loop is (mp_entry_step c) (a, en', n', t) = None"
  using assms
proof (induction es arbitrary: a en n s "is" en' n' t)
  case (Cons e es)
  then obtain j js where "is": "is = j # js" "length js = length es" by (cases "is") auto
  let ?a = "a + of_nat (entry_size e)" and ?en = "en + of_bool (e = Mp_processor True)"
    and ?n = "n + of_bool (\<exists>b. e = Mp_processor b)"
  from Cons.prems mp_entry_effect [of s a e es c j en n] obtain s1 where s1: "mp_entry_step c j (a, en, n, s) = Some (?a, ?en, ?n, s1)"
    "table_at (ks_mem s1) ?a es" "e = Mp_io_apic True \<longrightarrow> ks_mem s1 a \<in> {0x14, 0x15}" by auto
  from mp_entries_loop [OF s1(2), of js c ?en ?n] Cons.prems(2) "is" obtain s' where
    s': "for_loop js (mp_entry_step c) (?a, ?en, ?n, s1) = Some r" "snd (snd (snd r)) = s'"
    "\<forall>x. table_size es \<le> unat (x - ?a) \<longrightarrow> ks_mem s' x = ks_mem s1 x"
    using Cons.prems(5) s1(1) by fastforce
  have t: "ks_mem t (a + of_nat k) = ks_mem s1 (a + of_nat k)" if "k < entry_size e" for k
    using Cons.prems(2,6) that s'(2,3) before_table [OF that, of "table_size es" a] by simp
  show ?case
  proof (cases "e = Mp_io_apic True")
    case True
    then have "ks_mem t a \<in> {0x14, 0x15}" using s1(3) t [of 0] by simp
    then show ?thesis by (auto simp: "is" mp_entry_step_def)
  next
    case False
    have same: "s1 = s" using s1(1) False Cons.prems(1) by (cases e) (auto simp: mp_entry_step_def io_apic_entry_handler_def)
    have "entry_at (ks_mem t) a e"
      using entry_at_cong [of e "ks_mem t" a "ks_mem s"] t Cons.prems(1) by (simp add: same)
    then obtain en1 n1 where t1: "mp_entry_step c j (a, en', n', t) = Some (?a, en1, n1, t)"
      using False by (cases e) (auto simp: mp_entry_step_def io_apic_entry_handler_def)
    have "\<forall>k < table_size es. ks_mem t (?a + of_nat k) = ks_mem (snd (snd (snd r))) (?a + of_nat k)"
    proof (intro allI impI)
      fix k assume "k < table_size es"
      then show "ks_mem t (?a + of_nat k) = ks_mem (snd (snd (snd r))) (?a + of_nat k)"
        using Cons.prems(6) [rule_format, of "entry_size e + k"] by (simp add: add.assoc)
    qed
    then have "for_loop js (mp_entry_step c) (?a, en1, n1, t) = None"
      using Cons.IH [of s1 ?a js ?en ?n t en1 n1] Cons.prems(2,4) s1(2) s'(1) "is"(2) False by auto
    then show ?thesis by (simp add: "is" t1)
  qed
qed simp

text \<open>In a well-formed configuration table the scan counts the processors and the enabled ones among them,
  and stops behind the last entry; nothing outside the table changes. But an enabled I/O controller in the
  table loses its entry, as its registers are written there: a second scan of the table stops at an
  assertion.\<close>

theorem processors_counted:
  fixes s :: kstate and conf :: u32
  defines "a \<equiv> conf + SIZEOF_MP_HEADER"
  assumes "table_at (ks_mem s) a es" "length es = unat (rd16 (ks_mem s) (conf + 34))"
  shows "\<exists>s'. mp_conf_entries c conf s = Some (a + of_nat (table_size es), count_list es (Mp_processor True),
      count_list es (Mp_processor True) + count_list es (Mp_processor False), s') \<and>
    (\<forall>x. table_size es \<le> unat (x - a) \<longrightarrow> ks_mem s' x = ks_mem s x) \<and>
    (Mp_io_apic True \<in> set es \<longrightarrow> mp_conf_entries c conf s' = None)"
proof -
  have le: "44 + table_size es \<le> 2 ^ 32"
    using table_size_le [of es] assms(3) unsigned_less [where 'a = nat, of "rd16 (ks_mem s) (conf + 34)"] by simp
  then have small: "table_size es < 2 ^ 32" by simp
  from mp_entries_loop [OF assms(2) small, of "[0..<length es]" c 0 0] obtain s' where
    s': "for_loop [0..<length es] (mp_entry_step c) (a, 0, 0, s) = Some (a + of_nat (table_size es),
      count_list es (Mp_processor True), length (filter (\<lambda>e. \<exists>b. e = Mp_processor b) es), s')"
    "\<forall>x. table_size es \<le> unat (x - a) \<longrightarrow> ks_mem s' x = ks_mem s x" by auto
  have "rd16 (ks_mem s') (conf + 34) = rd16 (ks_mem s) (conf + 34)"
    using s'(2) before_table [of 34, OF _ le, of conf] before_table [of 35, OF _ le, of conf]
    by (simp add: rd16_def add.assoc a_def SIZEOF_MP_HEADER_def)
  moreover have "for_loop [0..<length es] (mp_entry_step c) (a, 0, 0, s') = None" if "Mp_io_apic True \<in> set es"
    using mp_entries_again [OF assms(2) small _ that s'(1), of s'] by simp
  moreover have "length (filter (\<lambda>e. \<exists>b. e = Mp_processor b) es) =
      count_list es (Mp_processor True) + count_list es (Mp_processor False)"
    by (induction es) (auto split: if_splits)
  ultimately show ?thesis using s' assms(3) by (simp add: mp_conf_entries_def a_def)
qed

text \<open>A table of two processors, a bus and an I/O controller, behind a header with their number.\<close>

definition demo_table :: "u8 list" where
  "demo_table = replicate 34 0 @ [4, 0] @ replicate 8 0 @ [0, 0, 16, 3] @ replicate 16 0 @ [0, 1, 16, 1] @ replicate 16 0 @
     [1, 0, 0, 0, 0, 0, 0, 0] @ [2, 1, 16, 1, 0, 0, 0, 0]"

definition demo_table_memory :: "u32 \<Rightarrow> u8" where
  "demo_table_memory a = (let i = unat a - 4096 in if 4096 \<le> unat a \<and> i < 100 then demo_table ! i else 0)"

theorem processors_counted_witness:
  "\<exists>s'. mp_conf_entries demo_config 4096 (demo_state\<lparr>ks_mem := demo_table_memory\<rparr>) = Some (4196, 2, 2, s') \<and>
     ks_mem s' 4196 = 0 \<and> mp_conf_entries demo_config 4096 s' = None"
proof -
  let ?s = "demo_state\<lparr>ks_mem := demo_table_memory\<rparr>"
    and ?es = "[Mp_processor True, Mp_processor True, Mp_skipped 1, Mp_io_apic True]"
  have mem: "demo_table_memory 4140 = 0" "demo_table_memory 4143 = 3" "demo_table_memory 4160 = 0" "demo_table_memory 4163 = 1"
    "demo_table_memory 4180 = 1" "demo_table_memory 4188 = 2" "demo_table_memory 4191 = 1" "demo_table_memory 4196 = 0"
    "demo_table_memory 4130 = 4" "demo_table_memory 4131 = 0"
    by (simp_all add: demo_table_memory_def demo_table_def Let_def nth_append)
  have "table_at (ks_mem ?s) (4096 + SIZEOF_MP_HEADER) ?es" by (simp add: SIZEOF_MP_HEADER_def mem)
  moreover have "length ?es = unat (rd16 (ks_mem ?s) (4096 + 34))" by (simp add: rd16_def mem)
  ultimately obtain s' where "mp_conf_entries demo_config 4096 ?s = Some (4196, 2, 2, s')"
    "\<forall>x. 56 \<le> unat (x - 4140) \<longrightarrow> ks_mem s' x = demo_table_memory x" "mp_conf_entries demo_config 4096 s' = None"
    using processors_counted [of ?s 4096 ?es demo_config] by (auto simp: SIZEOF_MP_HEADER_def)
  then show ?thesis using mem by auto
qed

subsection \<open>The search for the tables\<close>

text \<open>A structure that is found in the area of the firmware's read-only memory is at the address returned. One found
  in the extended data area is not: the result is its distance from the start of the area, and a structure at
  the very start is not seen.\<close>

theorem search_result:
  assumes "search_mp m \<noteq> 0"
  shows "if search_mp_ebda m = 0 then mp_signature m (search_mp m) \<and> search_mp m \<in> {0xF0000..<0x100000}
    else mp_signature m (ebda_address m + search_mp m) \<and> search_mp m \<in> {1..<1021}"
proof (cases "search_mp_ebda m = 0")
  case True
  then obtain i where i: "find (\<lambda>i. mp_signature m (0xF0000 + of_nat i)) [0..<65532] = Some i"
    "search_mp m = 0xF0000 + of_nat i"
    using assms by (auto simp: search_mp_def search_mp_bios_def split: option.splits)
  from i(1) have "mp_signature m (0xF0000 + of_nat i)" "i < 65532" by (auto simp: find_Some_iff)
  moreover from \<open>i < 65532\<close> have "unat (of_nat i :: u32) = i" by (simp add: unat_of_nat)
  ultimately show ?thesis using True i(2)
    by (simp add: word_le_nat_alt word_less_nat_alt unat_word_ariths)
next
  case False
  then obtain i where i: "find (\<lambda>i. mp_signature m (ebda_address m + of_nat i)) [0..<1021] = Some i"
    "search_mp_ebda m = of_nat i"
    by (auto simp: search_mp_ebda_def split: option.splits if_splits)
  from i(1) have "mp_signature m (ebda_address m + of_nat i)" "i < 1021" by (auto simp: find_Some_iff)
  moreover from \<open>i < 1021\<close> have "unat (of_nat i :: u32) = i" by (simp add: unat_of_nat)
  moreover have "0 < i" using False i(2) by (cases i) simp_all
  ultimately show ?thesis using False i(2)
    by (simp add: search_mp_def word_le_nat_alt word_less_nat_alt)
qed

end
