(* ===== verification/Pok_Boot.thy ===== *)
theory Pok_Boot
  imports Pok_Processors Pok_Partition Pok_Time_Slots
begin

text \<open>
  The start of the kernel, \<open>kernel/core/boot.c\<close>, composed of the initialisations of the other theories in the
  order of the code, with \<open>pok_arch_init\<close> of \<open>arch.c\<close>, \<open>pok_bsp_init\<close> of \<open>x86-qemu/bsp.c\<close> and \<open>pok_pm_init\<close> of
  \<open>x86-qemu/pm.c\<close>. The kernel is one built with lock objects and ports, without console and debugging output, and
  without instrumentation. The theorem says in which state the first partition is started.
\<close>

unbundle bit_operations_syntax

subsection \<open>The initialisations\<close>

definition ALIGN_UP :: "u32 \<Rightarrow> u32 \<Rightarrow> u32" where
  "ALIGN_UP boundary val = (val + (boundary - 1)) AND NOT (boundary - 1)"

text \<open>The start of the heap is not used later, and neither is its end: see \<open>pok_pm_sbrk\<close>.\<close>

definition pok_pm_init :: "hardware \<Rightarrow> kstate \<Rightarrow> kstate" where
  "pok_pm_init hw s = s\<lparr>pok_x86_pm_brk := ALIGN_UP 4096 (pok_end hw)\<rparr>"

definition pok_arch_init :: "pok_config \<Rightarrow> hardware \<Rightarrow> machine \<Rightarrow> machine option" where
  "pok_arch_init c hw m =
     pok_multiprocessing_init c hw (machine_event_init hw (m\<lparr>m_gdt := pok_gdt_init 0 (hw_tss hw 0) (m_gdt m)\<rparr>))"

definition pok_bsp_init :: "hardware \<Rightarrow> kstate \<Rightarrow> kstate" where
  "pok_bsp_init hw s = pok_pic_init (pok_pm_init hw s)"

text \<open>The initialisations of the core of the kernel.\<close>

definition core_init :: "pok_config \<Rightarrow> kstate \<Rightarrow> kstate option" where
  "core_init c s = do {
     (_, s1) \<leftarrow> pok_partition_init c s;
     s2 \<leftarrow> pok_sched_init c (pok_thread_init c s1);
     (_, s3) \<leftarrow> pok_lockobj_init c s2;
     s4 \<leftarrow> pok_port_init c s3;
     Some (pok_queue_init s4)
   }"

text \<open>The number of processors that was found is the one the kernel works with. The spaces that were created are
  entered in the descriptor table.\<close>

definition pok_boot :: "pok_config \<Rightarrow> hardware \<Rightarrow> machine \<Rightarrow> machine option" where
  "pok_boot c hw m = do {
     m1 \<leftarrow> pok_arch_init c hw m;
     let c1 = c\<lparr>multiprocessing_system := mp_system m1\<rparr>;
     (idt, s2) \<leftarrow> pok_time_init c1 (hw_stub hw) (m_idt m1, pok_bsp_init hw (m_k m1));
     s3 \<leftarrow> core_init c1 s2;
     Some (m1\<lparr>m_k := s3, m_idt := idt, m_gdt := gdt_of c1 (m_gdt m1) (drop (length (ks_trace s2)) (ks_trace s3))\<rparr>)
   }"

subsection \<open>What the later initialisations leave alone\<close>

text \<open>The parts of the state that are set up by the earlier initialisations.\<close>

definition boot_same :: "kstate \<Rightarrow> kstate \<Rightarrow> bool" where
  "boot_same s s' = (pok_partitions s' = pok_partitions s \<and> pok_threads s' = pok_threads s \<and> proc_id s' = proc_id s \<and>
     pok_tick_counter s' = pok_tick_counter s \<and> current_threads s' = current_threads s)"

lemma boot_same_trans: "boot_same s s' \<Longrightarrow> boot_same s' s'' \<Longrightarrow> boot_same s s''"
  by (simp add: boot_same_def)

lemma idle_init_frame:
  "pok_partitions (idle_thread_init_step c i s) = pok_partitions s \<and> proc_id (idle_thread_init_step c i s) = proc_id s \<and>
   pok_tick_counter (idle_thread_init_step c i s) = pok_tick_counter s \<and>
   current_threads (idle_thread_init_step c i s) = current_threads s"
  by (simp add: idle_thread_init_step_def Let_def pok_context_create_def pok_bsp_mem_alloc_def pok_pm_sbrk_def
      upd_thread_def emit_def)

lemma thread_init_frame:
  "pok_partitions (pok_thread_init c s) = pok_partitions s \<and> proc_id (pok_thread_init c s) = proc_id s \<and>
   pok_tick_counter (pok_thread_init c s) = pok_tick_counter s \<and> current_threads (pok_thread_init c s) = current_threads s"
proof -
  have "pok_partitions (fold (\<lambda>i. upd_thread i thread_default) xs s) = pok_partitions s \<and>
      proc_id (fold (\<lambda>i. upd_thread i thread_default) xs s) = proc_id s \<and>
      pok_tick_counter (fold (\<lambda>i. upd_thread i thread_default) xs s) = pok_tick_counter s \<and>
      current_threads (fold (\<lambda>i. upd_thread i thread_default) xs s) = current_threads s" for xs s
    by (induction xs arbitrary: s) (simp_all add: upd_thread_def)
  moreover have "pok_partitions (fold (idle_thread_init_step c) xs s) = pok_partitions s \<and>
      proc_id (fold (idle_thread_init_step c) xs s) = proc_id s \<and>
      pok_tick_counter (fold (idle_thread_init_step c) xs s) = pok_tick_counter s \<and>
      current_threads (fold (idle_thread_init_step c) xs s) = current_threads s" for xs s
    by (induction xs arbitrary: s) (simp_all add: idle_init_frame)
  ultimately show ?thesis
    by (simp add: pok_thread_init_def pok_idle_thread_init_def pok_kernel_error_def Let_def)
qed

lemma sched_init_frame:
  assumes "pok_sched_init c s = Some s'" "NBSLOTS c \<le> 255"
  shows "boot_same s s'"
proof -
  have step: "boot_same s1 (fold (\<lambda>i s. s\<lparr>pok_sched_slots := (pok_sched_slots s)(i := f i),
      pok_sched_slots_allocation := (pok_sched_slots_allocation s)(i := g i)\<rparr>) xs s1)" for f g xs s1
    by (induction xs arbitrary: s1) (auto simp: boot_same_def)
  obtain s1 where "pok_init_slots c s = Some s1" using assms(1) by (auto simp: pok_sched_init_def split: bind_splits)
  moreover from this have "boot_same s s1"
    using step [where f = "\<lambda>_. BASE_SLOT_LENGTH c" and g = "\<lambda>i. i" and xs = "[0..<NBSLOTS c]" and ?s1.0 = s]
      step [where f = "SCHEDULING_SLOTS c" and g = "SCHEDULING_SLOTS_ALLOCATION c" and xs = "[0..<NBSLOTS c]" and ?s1.0 = s] assms(2)
    by (auto simp: pok_init_slots_def boot_same_def split: if_splits)
  ultimately show ?thesis using assms(1)
    by (auto simp: pok_sched_init_def pok_kernel_error_def Let_def pok_setup_scheduler_global_def boot_same_def
        split: bind_splits)
qed

text \<open>The tables of lock objects and ports are apart from the scheduler.\<close>

lemma lockobj_init_frame:
  assumes "NB_PARTITIONS c \<le> 255" "NB_LOCKOBJECTS c \<le> 255"
  shows "\<exists>r s'. pok_lockobj_init c s = Some (r, s') \<and> boot_same s s' \<and> sched_same s s'"
proof -
  have "boot_same s (fold (\<lambda>i. upd_lock (LockObj i) f) xs s) \<and> sched_same s (fold (\<lambda>i. upd_lock (LockObj i) f) xs s)" for f xs s
    by (induction xs arbitrary: s) (auto simp: boot_same_def sched_same_def upd_lock_def)
  then show ?thesis using assms by (simp add: pok_lockobj_init_def pok_kernel_error_def Let_def boot_same_def)
qed

lemma port_init_frame:
  assumes "NB_PORTS c \<le> 255"
  shows "\<exists>s'. pok_port_init c s = Some s' \<and> boot_same s s' \<and> sched_same s s'"
proof -
  have a: "fold (\<lambda>i s. if PARTITIONS_PORTS c i \<ge> NB_PARTITIONS c then pok_kernel_error POK_ERROR_KIND_KERNEL_CONFIG s else s) xs s = s" for xs s
    by (induction xs arbitrary: s) (simp_all add: pok_kernel_error_def)
  have "boot_same s (fold (\<lambda>i. upd_port i f) xs s) \<and> sched_same s (fold (\<lambda>i. upd_port i f) xs s)" for f xs s
    by (induction xs arbitrary: s) (auto simp: boot_same_def sched_same_def upd_port_def)
  then show ?thesis using assms by (simp add: pok_port_init_def Let_def a)
qed

text \<open>Threads that are all stopped stay as they are, and the main thread is elected although it is stopped.\<close>

lemma elect_stopped_main:
  fixes s :: kstate and pid :: nat
  defines "p \<equiv> pok_partitions s pid"
  assumes "\<not> NEEDS_DDL_PUNISH c" "init_mode (p_mode p)" "p_nthreads p \<le> 255"
    and "\<forall>t. p_thread_index_low p \<le> t \<and> t < p_thread_index_low p + p_nthreads p \<longrightarrow> t_state (pok_threads s t) = POK_STATE_STOPPED"
    and "proc_id s = p_thread_main_proc p"
  shows "\<exists>s'. pok_elect_thread c pid s = Some (p_thread_main p, s')"
proof -
  have "for_loop [0..<k] (\<lambda>i. activate_thread c (p_thread_index_low p + i)) s = Some s" if "k \<le> p_nthreads p" for k
    using that
  proof (induction k)
    case (Suc k)
    then have "t_state (pok_threads s (p_thread_index_low p + k)) = POK_STATE_STOPPED" using assms(5) by simp
    then have "activate_thread c (p_thread_index_low p + k) s = Some s"
      by (simp add: activate_thread_def wake_waiting_def release_period_def upd_thread_def Let_def)
    then show ?case using Suc by (simp add: for_loop_append)
  qed simp
  from this [of "p_nthreads p"] have "activate_threads c pid s = Some s"
    using assms(4) by (simp add: activate_threads_def p_def Let_def)
  then show ?thesis using assms(2,3,6)
    by (simp add: pok_elect_thread_def ddl_punish_def elect_by_mode_def p_def Let_def)
qed

subsection \<open>The state the kernel starts in\<close>

text \<open>A deployment on one processor whose tables fit.\<close>

definition boot_ok :: "pok_config \<Rightarrow> bool" where
  "boot_ok c = (deployment_ok c \<and> slots_ok c \<and> NB_PROCESSORS c = 1 \<and> multiprocessing_system c = 0 \<and>
     NB_LOCKOBJECTS c \<le> 255 \<and> NB_PORTS c \<le> 255 \<and> 3 \<le> NB_THREADS c \<and> first_thread c (NB_PARTITIONS c) + 2 \<le> NB_THREADS c \<and>
     \<not> NEEDS_DDL_PUNISH c \<and> (\<forall>i<NB_PARTITIONS c. PARTITIONS_NTHREADS c i \<le> 255) \<and>
     (\<forall>i<NBSLOTS c. SCHEDULING_SLOTS_ALLOCATION c i < NB_PARTITIONS c))"

definition partition_started :: "pok_config \<Rightarrow> nat \<Rightarrow> kstate \<Rightarrow> bool" where
  "partition_started c i s =
     (let p = pok_partitions s i
      in p_mode p = POK_PARTITION_MODE_INIT_WARM \<and> p_thread_index_low p = first_thread c i \<and>
         p_thread_index_high p = first_thread c (Suc i) \<and> p_nthreads p = PARTITIONS_NTHREADS c i \<and>
         p_thread_main p = first_thread c i \<and> p_thread_main_proc p = 0 \<and> p_thread_error p = 0)"

text \<open>The threads are initialised after the partitions: this stops the main threads again.\<close>

definition threads_started :: "pok_config \<Rightarrow> kstate \<Rightarrow> bool" where
  "threads_started c s = (\<forall>t<NB_THREADS c.
     if t = NB_THREADS c - 2 then idle_ready (pok_threads s t) 0 else thread_unused (pok_threads s t))"

lemma core_init_started:
  assumes "boot_ok c" "proc_id s = 0"
  shows "\<exists>s'. core_init c s = Some s' \<and> on_schedule c s' 0 \<and> threads_started c s' \<and>
    (\<forall>i<NB_PARTITIONS c. partition_started c i s') \<and> proc_id s' = 0 \<and> pok_tick_counter s' = pok_tick_counter s"
proof -
  have c: "deployment_ok c" "slots_ok c" "NBSLOTS c \<le> 255" "NB_PARTITIONS c \<le> 255"
    using assms(1) by (auto simp: boot_ok_def slots_ok_def deployment_ok_def)
  from partition_init_loop [OF c(1) order_refl, of s] obtain s1 where
    s1: "pok_partition_init c s = Some (POK_ERRNO_OK, s1)" "proc_id s1 = 0" "pok_tick_counter s1 = pok_tick_counter s"
    "\<forall>i<NB_PARTITIONS c. partition_ready c i (base_of c (pok_x86_pm_brk s) i) (first_thread c i) s1"
    using c(4) assms(2) by (auto simp: pok_partition_init_def)
  have started: "partition_started c i s1" if "i < NB_PARTITIONS c" for i
  proof -
    have "\<exists>a. main_proc_ok c i a" "0 < PARTITIONS_NTHREADS c i" using c(1) that by (simp_all add: deployment_ok_def)
    then have "get_default_proc_real_id c i = Some 0"
      using assms(1) by (auto simp: main_proc_ok_def boot_ok_def)
    then show ?thesis using s1(4) that
      by (simp add: partition_ready_def partition_started_def Let_def first_thread_def)
  qed
  let ?s2 = "pok_thread_init c s1"
  obtain s3 where s3: "pok_sched_init c ?s2 = Some s3" "on_schedule c s3 0" "boot_same ?s2 s3"
    using sched_init_on_schedule [OF c(2), of ?s2] sched_init_frame [of c ?s2] c(3) by blast
  obtain r s4 where s4: "pok_lockobj_init c s3 = Some (r, s4)" "boot_same s3 s4" "sched_same s3 s4"
    using lockobj_init_frame [OF c(4), of s3] assms(1) unfolding boot_ok_def by blast
  obtain s5 where s5: "pok_port_init c s4 = Some s5" "boot_same s4 s5" "sched_same s4 s5"
    using port_init_frame [of c s4] assms(1) unfolding boot_ok_def by blast
  have same: "boot_same ?s2 (pok_queue_init s5)" "sched_same s3 (pok_queue_init s5)"
    using s3(3) s4(2,3) s5(2,3) by (auto simp: boot_same_def sched_same_def pok_queue_init_def)
  have n: "NB_PROCESSORS c = 1" "2 * NB_PROCESSORS c \<le> NB_THREADS c - 1"
    using assms(1) by (auto simp: boot_ok_def)
  have "threads_started c ?s2"
    using thread_init_correct [OF s1(2) n(2)] n(1) by (auto simp: threads_started_def Let_def numeral_2_eq_2)
  then show ?thesis
    using s1 s3(1,2) s4(1) s5(1) same started thread_init_frame [of c s1] on_schedule_same [of s3 "pok_queue_init s5" c 0]
    by (simp add: core_init_def boot_same_def threads_started_def partition_started_def Let_def)
qed

text \<open>The timer is started before the partitions, with the clock at zero.\<close>

lemma time_init_state:
  "\<exists>idt' s'. pok_time_init c stub (idt, s) = Some (idt', s') \<and> proc_id s' = proc_id s \<and> pok_tick_counter s' = 0"
proof -
  have "OSCILLATOR_DIVISOR \<le> 65536" "NS_INCREMENT \<le> NS_QUANTUM"
    by (simp_all add: NS_INCREMENT_def OSCILLATOR_DIVISOR_def POK_TIMER_FREQUENCY_def NS_QUANTUM_def POK_TIMER_QUANTUM_def)
  then show ?thesis
    by (simp add: pok_time_init_def pok_x86_qemu_timer_init_def Let_def pok_bsp_irq_register_def pok_pic_unmask_def
        PIT_IRQ_def outb_def emit_def)
qed

lemma bsp_init_proc [simp]: "proc_id (pok_bsp_init hw s) = proc_id s"
  by (simp add: pok_bsp_init_def pok_pic_init_def pok_pm_init_def outb_def emit_def)

text \<open>C6: The start of the kernel on one processor ends with the clock at zero and the first slot of the schedule
  running, every partition in its initialisation mode with its own slice of the threads, and the idle
  thread ready. All other threads are stopped, the main threads among them, as the threads are initialised
  after the partitions; but the first election yields the main thread of the partition that owns the first
  slot, whose state is not looked at.\<close>

theorem boot_ready:
  assumes "boot_ok c" "mp_system m = 0" "proc_id (m_k m) = 0" "search_mp (ks_mem (m_k m)) = 0"
  shows "\<exists>m'. pok_boot c hw m = Some m' \<and> on_schedule c (m_k m') 0 \<and> pok_tick_counter (m_k m') = 0 \<and>
    (\<forall>i<NB_PARTITIONS c. partition_started c i (m_k m')) \<and> threads_started c (m_k m') \<and>
    (let pid = pok_current_partition (m_k m'); main = first_thread c pid
     in pid = SCHEDULING_SLOTS_ALLOCATION c 0 \<and> t_state (pok_threads (m_k m') main) = POK_STATE_STOPPED \<and>
        (\<exists>s2. pok_elect_thread c pid (m_k m') = Some (main, s2)))"
proof -
  have c: "c\<lparr>multiprocessing_system := 0\<rparr> = c" using assms(1) by (simp add: boot_ok_def)
  obtain m1 where m1: "pok_arch_init c hw m = Some m1" "mp_system m1 = 0" "m_k m1 = m_k m"
    using assms(2,4) by (simp add: pok_arch_init_def pok_multiprocessing_init_def machine_event_init_def Let_def)
  obtain idt s2 where s2: "pok_time_init c (hw_stub hw) (m_idt m1, pok_bsp_init hw (m_k m1)) = Some (idt, s2)"
    "proc_id s2 = 0" "pok_tick_counter s2 = 0"
    using time_init_state [of c "hw_stub hw" "m_idt m1" "pok_bsp_init hw (m_k m1)"] assms(3) by (auto simp: m1(3))
  from core_init_started [OF assms(1) s2(2)] obtain s3 where
    s3: "core_init c s2 = Some s3" "on_schedule c s3 0" "threads_started c s3"
    "\<forall>i<NB_PARTITIONS c. partition_started c i s3" "proc_id s3 = 0" "pok_tick_counter s3 = 0"
    using s2(3) by auto
  let ?pid = "pok_current_partition s3"
  have len: "slot_len c i \<noteq> 0" if "i < NBSLOTS c" for i
    using that assms(1) by (auto simp: boot_ok_def slots_ok_def)
  have "pok_sched_current_slot s3 = 0"
    using s3(2) len [of "pok_sched_current_slot s3 - 1"]
    by (cases "pok_sched_current_slot s3") (auto simp: on_schedule_def)
  then have pid: "?pid = SCHEDULING_SLOTS_ALLOCATION c 0" "?pid < NB_PARTITIONS c"
    using s3(2) assms(1) by (auto simp: on_schedule_def boot_ok_def slots_ok_def)
  then have st: "partition_started c ?pid s3" using s3(4) by blast
  have stopped: "t_state (pok_threads s3 t) = POK_STATE_STOPPED"
    if "t < first_thread c (Suc ?pid)" for t
  proof -
    have "first_thread c (Suc ?pid) \<le> first_thread c (NB_PARTITIONS c)"
      unfolding first_thread_def using pid(2) by (intro sum_mono2) auto
    then have "t < NB_THREADS c" "t \<noteq> NB_THREADS c - 2" using that assms(1) by (auto simp: boot_ok_def)
    then have "thread_unused (pok_threads s3 t)" using s3(3) unfolding threads_started_def by metis
    then show ?thesis by (simp add: thread_unused_def)
  qed
  have "\<exists>s4. pok_elect_thread c ?pid s3 = Some (p_thread_main (pok_partitions s3 ?pid), s4)"
    using st assms(1) stopped pid(2) s3(5)
    by (intro elect_stopped_main) (auto simp: partition_started_def boot_ok_def init_mode_def Let_def first_thread_def)
  moreover have "t_state (pok_threads s3 (first_thread c ?pid)) = POK_STATE_STOPPED"
    using assms(1) pid(2) by (intro stopped) (auto simp: first_thread_def boot_ok_def deployment_ok_def)
  ultimately show ?thesis
    using m1 s2(1) s3 pid(1) st by (simp add: pok_boot_def c partition_started_def Let_def)
qed

lemma demo_boot_ok: "boot_ok demo_config"
proof -
  have "PARTITIONS_NTHREADS demo_config i = 3" "SCHEDULING_SLOTS_ALLOCATION demo_config i = i" for i
    by (simp_all add: demo_config_def)
  moreover have "first_thread demo_config 2 = 6" by (simp add: first_thread_def calculation(1))
  ultimately show ?thesis using demo_deployment_ok demo_slots_ok by (simp add: boot_ok_def)
qed

theorem boot_ready_witness:
  "\<exists>m'. pok_boot demo_config demo_hardware (demo_machine\<lparr>mp_system := 0\<rparr>) = Some m' \<and>
     pok_current_partition (m_k m') = 0 \<and> t_state (pok_threads (m_k m') 0) = POK_STATE_STOPPED \<and>
     (\<exists>s2. pok_elect_thread demo_config 0 (m_k m') = Some (0, s2))"
proof -
  let ?m = "demo_machine\<lparr>mp_system := 0\<rparr>"
  have none: "find (\<lambda>i. False) xs = None" for xs :: "nat list" by (simp add: find_None_iff)
  have "search_mp (\<lambda>_. 0) = 0"
    by (simp add: search_mp_def search_mp_ebda_def search_mp_bios_def mp_signature_def none)
  then have "search_mp (ks_mem (m_k ?m)) = 0" by (simp add: demo_machine_def demo_state_def)
  with boot_ready [OF demo_boot_ok, of ?m demo_hardware] show ?thesis
    by (auto simp: demo_machine_def first_thread_def demo_config_def Let_def)
qed

end
