(* ===== verification/Pok_Console.thy ===== *)
theory Pok_Console
  imports Pok_Syscall "HOL-Library.Signed_Division"
begin

text \<open>
  The console: the screen and the serial line of \<open>kernel/arch/x86/x86-qemu/cons.c\<close>, and the output functions of
  \<open>kernel/core/cons.c\<close>. The screen is memory seen from its base address, two bytes for each of its 80 times 25
  places; \<open>char\<close> is signed. What is sent to the serial line and to the ports is recorded in its order. \<open>None\<close> stands
  for a wait that does not end: for a transmitter that is not ready, or for the lock of the line.
\<close>

unbundle bit_operations_syntax

subsection \<open>The screen\<close>

record s_cons =
  cons_row :: u8
  cons_col :: u8
  cur_attr :: u8

record console =
  g_cons :: s_cons
  vga :: "int \<Rightarrow> u8"
  serial_out :: "u8 list"
  port_out :: "(u16 \<times> u8) list"
  serial_spinlock :: bool

text \<open>How the kernel is built, and the input from the ports.\<close>

record cons_config =
  CONS_NEEDS_CONSOLE :: bool
  CONS_NEEDS_DEBUG :: bool
  cons_inb :: "u16 \<Rightarrow> u8"

definition screen_w :: int where "screen_w = 80"
definition screen_h :: int where "screen_h = 25"

definition is_transmitter_holding_register :: "cons_config \<Rightarrow> bool" where
  "is_transmitter_holding_register cc = (cons_inb cc (COM1 + 5) AND 0x20 \<noteq> 0)"

definition write_serial :: "cons_config \<Rightarrow> u8 \<Rightarrow> console \<Rightarrow> console option" where
  "write_serial cc a st =
     (if is_transmitter_holding_register cc then Some (st\<lparr>serial_out := serial_out st @ [a], port_out := port_out st @ [(COM1, a)]\<rparr>)
      else None)"

definition cons_outb :: "u16 \<Rightarrow> u8 \<Rightarrow> console \<Rightarrow> console" where
  "cons_outb port v st = st\<lparr>port_out := port_out st @ [(port, v)]\<rparr>"

text \<open>The last line moves up and is cleared.\<close>

definition cons_scroll :: "s_cons \<Rightarrow> (int \<Rightarrow> u8) \<Rightarrow> int \<Rightarrow> u8" where
  "cons_scroll curs mem =
     (let moved = (\<lambda>k. if 0 \<le> k \<and> k < (screen_h - 1) * screen_w * 2 then mem (k + 2 * screen_w) else mem k)
      in fold (\<lambda>i m. m(2 * screen_w * (screen_h - 1) + 2 * int i := 0,
                       2 * screen_w * (screen_h - 1) + 2 * int i + 1 := cur_attr curs)) [0..<80] moved)"

text \<open>Carriage return, line feed, tabulator, or a character that is shown; then the ends of the line and of the screen.\<close>

definition place_char :: "u8 \<Rightarrow> s_cons \<Rightarrow> (int \<Rightarrow> u8) \<Rightarrow> s_cons \<times> (int \<Rightarrow> u8)" where
  "place_char ch curs mem =
     (let c1 = (if ch = 13 then curs\<lparr>cons_col := 0\<rparr> else curs);
          c2 = (if ch = 10 then c1\<lparr>cons_col := 0, cons_row := cons_row c1 + 1\<rparr> else c1);
          c3 = (if ch = 9 then c2\<lparr>cons_col := word_of_int (sint (cons_col c2) + (8 - sint (cons_col c2) smod 8))\<rparr> else c2)
      in if ch \<noteq> 13 \<and> ch \<noteq> 10 \<and> ch \<noteq> 9
         then (c3\<lparr>cons_col := cons_col c3 + 1\<rparr>,
               let ptr = 2 * screen_w * sint (cons_row c3) + 2 * sint (cons_col c3)
               in mem(ptr := ch, ptr + 1 := cur_attr c3))
         else (c3, mem))"

definition wrap_cursor :: "s_cons \<Rightarrow> (int \<Rightarrow> u8) \<Rightarrow> s_cons \<times> (int \<Rightarrow> u8)" where
  "wrap_cursor curs mem =
     (let c1 = (if sint (cons_col curs) \<ge> screen_w then curs\<lparr>cons_col := 0, cons_row := cons_row curs + 1\<rparr> else curs)
      in if sint (cons_row c1) \<ge> screen_h
         then (c1\<lparr>cons_row := word_of_int (screen_h - 1)\<rparr>, cons_scroll c1 mem)
         else (c1, mem))"

definition pok_cons_print_char :: "cons_config \<Rightarrow> u8 \<Rightarrow> console \<Rightarrow> console option" where
  "pok_cons_print_char cc ch st = do {
     st1 \<leftarrow> (if CONS_NEEDS_DEBUG cc then write_serial cc ch st else Some st);
     Some (if CONS_NEEDS_CONSOLE cc
           then let (c1, m1) = place_char ch (g_cons st1) (vga st1); (c2, m2) = wrap_cursor c1 m1
                in st1\<lparr>g_cons := c2, vga := m2\<rparr>
           else st1)
   }"

definition pok_cons_attr :: "u8 \<Rightarrow> console \<Rightarrow> console" where
  "pok_cons_attr attr st = st\<lparr>g_cons := (g_cons st)\<lparr>cur_attr := attr\<rparr>\<rparr>"

definition pok_cons_clear :: "console \<Rightarrow> console" where
  "pok_cons_clear st =
     st\<lparr>vga := fold (\<lambda>n m. m(2 * int n := 0, 2 * int n + 1 := cur_attr (g_cons st))) [0..<2000] (vga st),
        g_cons := (g_cons st)\<lparr>cons_row := 0, cons_col := 0\<rparr>\<rparr>"

subsection \<open>Writing\<close>

text \<open>From index \<open>i\<close>: an escape is followed by its code and, for three of the codes, by an operand.\<close>

definition CONS_ESCAPE :: u8 where "CONS_ESCAPE = 255"

definition set_row :: "u8 \<Rightarrow> console \<Rightarrow> console" where
  "set_row v st = st\<lparr>g_cons := (g_cons st)\<lparr>cons_row := word_of_int (int (unat v) smod screen_h)\<rparr>\<rparr>"

definition set_col :: "u8 \<Rightarrow> console \<Rightarrow> console" where
  "set_col v st = st\<lparr>g_cons := (g_cons st)\<lparr>cons_col := word_of_int (int (unat v) smod screen_w)\<rparr>\<rparr>"

function cons_write_loop :: "cons_config \<Rightarrow> (nat \<Rightarrow> u8) \<Rightarrow> nat \<Rightarrow> nat \<Rightarrow> u32 \<Rightarrow> console \<Rightarrow> (u32 \<times> console) option" where
  "cons_write_loop cc s len i res st =
     (if i < len
      then if s i = CONS_ESCAPE
           then if s (i + 1) = 1 then cons_write_loop cc s len (i + 2) res (pok_cons_clear st)
                else if s (i + 1) = 2 then cons_write_loop cc s len (i + 3) res (pok_cons_attr (s (i + 2)) st)
                else if s (i + 1) = 4 then cons_write_loop cc s len (i + 3) res (set_row (s (i + 2)) st)
                else if s (i + 1) = 3 then cons_write_loop cc s len (i + 3) res (set_col (s (i + 2)) st)
                else Option.bind (pok_cons_print_char cc (s (i + 1)) st) (cons_write_loop cc s len (i + 2) (res + 1))
           else Option.bind (pok_cons_print_char cc (s i) st) (cons_write_loop cc s len (i + 1) (res + 1))
      else Some (res, st))"
  by auto
termination by (relation "measure (\<lambda>(cc, s, len, i, res, st). len - i)") auto

declare cons_write_loop.simps [simp del]

definition cons_write :: "cons_config \<Rightarrow> (nat \<Rightarrow> u8) \<Rightarrow> nat \<Rightarrow> console \<Rightarrow> (u32 \<times> console) option" where
  "cons_write cc s len st =
     (if serial_spinlock st then None
      else map_option (\<lambda>(res, st'). (res, st'\<lparr>serial_spinlock := False\<rparr>))
             (cons_write_loop cc s len 0 0 (st\<lparr>serial_spinlock := True\<rparr>)))"

subsection \<open>Initialisation\<close>

definition pok_cons_disable_cursor :: "cons_config \<Rightarrow> console \<Rightarrow> console" where
  "pok_cons_disable_cursor cc st =
     (let base_port = (if cons_inb cc 0x3cc AND 1 \<noteq> 0 then 0x3d4 else 0x3b4); tmp = cons_inb cc base_port
      in cons_outb base_port tmp (cons_outb (base_port + 1) (cons_inb cc (base_port + 1) OR 0x20)
           (cons_outb base_port 0x0a st)))"

definition serial_setup :: "(u16 \<times> u8) list" where
  "serial_setup = [(COM1 + 1, 0), (COM1 + 3, 0x80), (COM1, 3), (COM1 + 1, 0), (COM1 + 3, 3), (COM1 + 4, 0x0D),
     (COM1 + 2, 0xC7), (COM1 + 4, 0x0B)]"

definition pok_cons_init :: "cons_config \<Rightarrow> console \<Rightarrow> console" where
  "pok_cons_init cc st =
     (let st1 = (if CONS_NEEDS_CONSOLE cc
                 then pok_cons_disable_cursor cc (pok_cons_clear (pok_cons_attr 7 st)) else st)
      in if CONS_NEEDS_CONSOLE cc \<or> CONS_NEEDS_DEBUG cc
         then fold (\<lambda>(port, v). cons_outb port v) serial_setup st1 else st1)"

text \<open>The output functions of the kernel call the one that was registered, if one was.\<close>

definition pok_print_char :: "(u8 \<Rightarrow> 's \<Rightarrow> 's option) option \<Rightarrow> u8 \<Rightarrow> 's \<Rightarrow> 's option" where
  "pok_print_char print_char_fn ch st = (case print_char_fn of None \<Rightarrow> Some st | Some f \<Rightarrow> f ch st)"

definition pok_write :: "(u8 \<Rightarrow> 's \<Rightarrow> 's option) option \<Rightarrow> (nat \<Rightarrow> u8) \<Rightarrow> nat \<Rightarrow> 's \<Rightarrow> (nat \<times> 's) option" where
  "pok_write print_char_fn s len st =
     map_option (Pair len) (for_loop [0..<len] (\<lambda>i. pok_print_char print_char_fn (s i)) st)"

subsection \<open>The cursor stays on the screen\<close>

definition on_screen :: "s_cons \<Rightarrow> bool" where
  "on_screen curs = (0 \<le> sint (cons_row curs) \<and> sint (cons_row curs) < screen_h \<and>
     0 \<le> sint (cons_col curs) \<and> sint (cons_col curs) < screen_w)"

text \<open>The memory behind and before the screen is left alone.\<close>

definition same_around :: "(int \<Rightarrow> u8) \<Rightarrow> (int \<Rightarrow> u8) \<Rightarrow> bool" where
  "same_around m m' = (\<forall>k. k < 0 \<or> 4000 \<le> k \<longrightarrow> m' k = m k)"

lemma same_around_refl [simp]: "same_around m m"
  by (simp add: same_around_def)

lemma same_around_trans: "same_around m m1 \<Longrightarrow> same_around m1 m2 \<Longrightarrow> same_around m m2"
  by (simp add: same_around_def)

lemma sint_small: "0 \<le> x \<Longrightarrow> x < 128 \<Longrightarrow> sint (word_of_int x :: u8) = x"
  by (simp add: sint_sbintrunc' signed_take_bit_int_eq_self)

lemma sint_add_small: "0 \<le> sint (w :: u8) \<Longrightarrow> sint w + 1 < 128 \<Longrightarrow> sint (w + 1) = sint w + 1"
proof -
  assume w: "0 \<le> sint w" "sint w + 1 < 128"
  have "sint (word_of_int (sint w + 1) :: u8) = sint w + 1" using w by (intro sint_small) linarith+
  then show ?thesis by simp
qed

lemma smod_8: "0 \<le> x \<Longrightarrow> 0 \<le> x smod (8 :: int) \<and> x smod 8 < 8"
  by (simp add: signed_modulo_int_def signed_divide_int_def) (auto simp: sgn_if minus_div_mult_eq_mod)

lemma fold_pair_around:
  "\<forall>i \<in> set is. 0 \<le> a i \<and> a i + 1 < 4000 \<Longrightarrow> same_around m (fold (\<lambda>i m. m(a i := x, a i + 1 := y)) is m)"
proof (induction "is" arbitrary: m)
  case (Cons i "is")
  have "same_around m (m(a i := x, a i + 1 := y))" using Cons.prems by (auto simp: same_around_def)
  moreover have "same_around (m(a i := x, a i + 1 := y)) (fold (\<lambda>i m. m(a i := x, a i + 1 := y)) is (m(a i := x, a i + 1 := y)))"
    using Cons.prems by (intro Cons.IH) simp
  ultimately show ?case unfolding fold_Cons o_apply by (rule same_around_trans)
qed simp

lemma scroll_around: "same_around m (cons_scroll curs m)"
proof -
  let ?m = "\<lambda>k. if 0 \<le> k \<and> k < (screen_h - 1) * screen_w * 2 then m (k + 2 * screen_w) else m k"
  have "same_around m ?m" by (auto simp: same_around_def screen_h_def screen_w_def)
  moreover have "same_around ?m (cons_scroll curs m)"
    unfolding cons_scroll_def Let_def
    using fold_pair_around [of "[0..<80]" "\<lambda>i. 2 * screen_w * (screen_h - 1) + 2 * int i"]
    by (simp add: screen_h_def screen_w_def)
  ultimately show ?thesis by (rule same_around_trans)
qed

text \<open>After a character the column can be at most 87 and the row 25; both are brought back.\<close>

lemma place_char_near:
  assumes "on_screen curs" "place_char ch curs m = (c', m')"
  shows "0 \<le> sint (cons_row c') \<and> sint (cons_row c') \<le> 25 \<and> 0 \<le> sint (cons_col c') \<and> sint (cons_col c') < 88 \<and>
    (80 \<le> sint (cons_col c') \<longrightarrow> sint (cons_row c') \<le> 24) \<and> same_around m m'"
proof -
  have r: "0 \<le> sint (cons_row curs)" "sint (cons_row curs) \<le> 24" "0 \<le> sint (cons_col curs)" "sint (cons_col curs) \<le> 79"
    using assms(1) by (simp_all add: on_screen_def screen_h_def screen_w_def)
  have row: "sint (cons_row curs + 1) = sint (cons_row curs) + 1" "sint (cons_col curs + 1) = sint (cons_col curs) + 1"
    using r by (simp_all add: sint_add_small)
  have tab: "sint (word_of_int (sint (cons_col curs) + (8 - sint (cons_col curs) smod 8)) :: u8) =
      sint (cons_col curs) + (8 - sint (cons_col curs) smod 8)"
    using r smod_8 [OF r(3)] by (intro sint_small) linarith+
  consider "ch = 13" | "ch = 10" | "ch = 9" | "ch \<noteq> 13" "ch \<noteq> 10" "ch \<noteq> 9" by blast
  then show ?thesis
  proof cases
    case 4
    then have "c' = curs\<lparr>cons_col := cons_col curs + 1\<rparr>"
      "m' = (let ptr = 2 * screen_w * sint (cons_row curs) + 2 * sint (cons_col curs)
             in m(ptr := ch, ptr + 1 := cur_attr curs))"
      using assms(2) by (simp_all add: place_char_def Let_def)
    moreover have "2 * screen_w * sint (cons_row curs) + 2 * sint (cons_col curs) + 1 < 4000"
      using r by (simp add: screen_w_def)
    moreover have "0 \<le> 2 * screen_w * sint (cons_row curs) + 2 * sint (cons_col curs)"
      using r by (simp add: screen_w_def)
    ultimately show ?thesis using r row by (simp add: same_around_def Let_def)
  qed (use assms(2) r row tab smod_8 [OF r(3)] in \<open>auto simp: place_char_def Let_def\<close>)
qed

lemma wrap_cursor_back:
  assumes "0 \<le> sint (cons_row c1)" "sint (cons_row c1) \<le> 25" "0 \<le> sint (cons_col c1)"
    and "80 \<le> sint (cons_col c1) \<longrightarrow> sint (cons_row c1) \<le> 24" "wrap_cursor c1 m = (c2, m2)"
  shows "on_screen c2 \<and> same_around m m2"
proof -
  have s: "sint (24 :: u8) = 24" "sint (0 :: u8) = 0" by simp_all
  have row: "sint (cons_row c1 + 1) = sint (cons_row c1) + 1"
    using assms(1,2) by (simp add: sint_add_small)
  show ?thesis
    using assms row s
    by (auto simp: wrap_cursor_def on_screen_def screen_h_def screen_w_def scroll_around Let_def split: if_splits)
qed

definition console_ok :: "console \<Rightarrow> bool" where
  "console_ok st = on_screen (g_cons st)"

lemma print_char_on_screen:
  assumes "console_ok st" "pok_cons_print_char cc ch st = Some st'"
  shows "console_ok st' \<and> same_around (vga st) (vga st') \<and> serial_spinlock st' = serial_spinlock st"
proof -
  obtain st1 where st1: "(if CONS_NEEDS_DEBUG cc then write_serial cc ch st else Some st) = Some st1"
    using assms(2) by (auto simp: pok_cons_print_char_def split: Option.bind_splits)
  then have f: "g_cons st1 = g_cons st" "vga st1 = vga st" "serial_spinlock st1 = serial_spinlock st"
    by (auto simp: write_serial_def split: if_splits)
  show ?thesis
  proof (cases "CONS_NEEDS_CONSOLE cc")
    case False
    then show ?thesis using assms st1 f by (simp add: pok_cons_print_char_def console_ok_def)
  next
    case True
    obtain c1 m1 where c1: "place_char ch (g_cons st) (vga st) = (c1, m1)" by fastforce
    obtain c2 m2 where c2: "wrap_cursor c1 m1 = (c2, m2)" by fastforce
    have p: "0 \<le> sint (cons_row c1) \<and> sint (cons_row c1) \<le> 25 \<and> 0 \<le> sint (cons_col c1) \<and> sint (cons_col c1) < 88 \<and>
      (80 \<le> sint (cons_col c1) \<longrightarrow> sint (cons_row c1) \<le> 24) \<and> same_around (vga st) m1"
      using assms(1) c1 by (intro place_char_near) (simp_all add: console_ok_def)
    have "on_screen c2 \<and> same_around m1 m2" using p by (intro wrap_cursor_back [OF _ _ _ _ c2]) blast+
    moreover have "st' = st1\<lparr>g_cons := c2, vga := m2\<rparr>"
      using assms(2) st1 True f c1 c2 by (simp add: pok_cons_print_char_def)
    ultimately show ?thesis using p f by (auto simp: console_ok_def intro: same_around_trans)
  qed
qed

lemma clear_on_screen: "console_ok (pok_cons_clear st) \<and> same_around (vga st) (vga (pok_cons_clear st)) \<and>
    serial_spinlock (pok_cons_clear st) = serial_spinlock st"
proof -
  have "same_around (vga st) (fold (\<lambda>n m. m(2 * int n := 0, 2 * int n + 1 := cur_attr (g_cons st))) [0..<2000] (vga st))"
    by (rule fold_pair_around) auto
  then show ?thesis by (simp add: pok_cons_clear_def console_ok_def on_screen_def screen_h_def screen_w_def)
qed

lemma smod_range: "0 \<le> x \<Longrightarrow> 0 < n \<Longrightarrow> 0 \<le> x smod (n :: int) \<and> x smod n < n"
  by (simp add: signed_modulo_int_def signed_divide_int_def) (auto simp: sgn_if minus_div_mult_eq_mod)

lemma set_cursor_on_screen:
  assumes "console_ok st"
  shows "console_ok (set_row v st)" "console_ok (set_col v st)" "console_ok (pok_cons_attr a st)"
    "vga (set_row v st) = vga st" "vga (set_col v st) = vga st" "vga (pok_cons_attr a st) = vga st"
    "serial_spinlock (set_row v st) = serial_spinlock st" "serial_spinlock (set_col v st) = serial_spinlock st"
    "serial_spinlock (pok_cons_attr a st) = serial_spinlock st"
proof -
  have "sint (word_of_int (int (unat v) smod 25) :: u8) = int (unat v) smod 25"
    "sint (word_of_int (int (unat v) smod 80) :: u8) = int (unat v) smod 80"
    using smod_range [of "int (unat v)" 25] smod_range [of "int (unat v)" 80] by (intro sint_small; linarith)+
  then show "console_ok (set_row v st)" "console_ok (set_col v st)" "console_ok (pok_cons_attr a st)"
    using assms smod_range [of "int (unat v)" 25] smod_range [of "int (unat v)" 80]
    by (simp_all add: console_ok_def on_screen_def set_row_def set_col_def pok_cons_attr_def screen_h_def screen_w_def)
qed (simp_all add: set_row_def set_col_def pok_cons_attr_def)

text \<open>Printing returns when nothing is sent to the serial line or the transmitter is ready.\<close>

definition cons_ready :: "cons_config \<Rightarrow> bool" where
  "cons_ready cc = (CONS_NEEDS_DEBUG cc \<longrightarrow> is_transmitter_holding_register cc)"

lemma print_char_returns: "cons_ready cc \<Longrightarrow> \<exists>st'. pok_cons_print_char cc ch st = Some st'"
  by (simp add: pok_cons_print_char_def cons_ready_def write_serial_def)

definition write_effect :: "console \<Rightarrow> console \<Rightarrow> bool" where
  "write_effect st st' = (console_ok st' \<and> same_around (vga st) (vga st') \<and> serial_spinlock st' = serial_spinlock st)"

lemma write_effect_trans: "write_effect st st1 \<Longrightarrow> write_effect st1 st2 \<Longrightarrow> write_effect st st2"
  by (auto simp: write_effect_def intro: same_around_trans)

lemma write_effects:
  "console_ok st \<Longrightarrow> pok_cons_print_char cc ch st = Some st' \<Longrightarrow> write_effect st st'"
  "write_effect st (pok_cons_clear st)"
  "console_ok st \<Longrightarrow> write_effect st (set_row v st)" "console_ok st \<Longrightarrow> write_effect st (set_col v st)"
  "console_ok st \<Longrightarrow> write_effect st (pok_cons_attr v st)"
  using print_char_on_screen clear_on_screen set_cursor_on_screen by (simp_all add: write_effect_def)

lemma cons_write_loop_effect:
  assumes "console_ok st" "cons_ready cc"
  shows "\<exists>st'. cons_write_loop cc s len i res st = Some (cons_printed s len i res, st') \<and> write_effect st st'"
  using assms
proof (induction "len - i" arbitrary: i res st rule: less_induct)
  case less
  have go: ?case
    if step: "cons_write_loop cc s len i res st = cons_write_loop cc s len j res' st1"
      "cons_printed s len i res = cons_printed s len j res'" and j: "i < len" "i < j" and e: "write_effect st st1" for j res' st1
  proof -
    have "console_ok st1" using e by (simp add: write_effect_def)
    then have "\<exists>st'. cons_write_loop cc s len j res' st1 = Some (cons_printed s len j res', st') \<and> write_effect st1 st'"
      using less.hyps [of j st1 res'] less.prems(2) j by simp
    then show ?thesis using step e write_effect_trans by metis
  qed
  note unfold_loop = cons_write_loop.simps [of cc s len i res st] cons_printed.simps [of s len i res]
  show ?case
  proof (cases "i < len")
    case False
    then show ?thesis using less.prems(1) unfold_loop by (simp add: write_effect_def)
  next
    case i: True
    obtain p1 where p1: "pok_cons_print_char cc (s i) st = Some p1" using print_char_returns [OF less.prems(2)] by blast
    obtain p2 where p2: "pok_cons_print_char cc (s (i + 1)) st = Some p2" using print_char_returns [OF less.prems(2)] by blast
    note e = write_effects(1) [OF less.prems(1) p1] write_effects(1) [OF less.prems(1) p2] write_effects(2)
      write_effects(3-5) [OF less.prems(1)]
    consider "s i \<noteq> 255" | "s i = 255" "s (i + 1) = 1" | "s i = 255" "s (i + 1) = 2" | "s i = 255" "s (i + 1) = 3"
      | "s i = 255" "s (i + 1) = 4"
      | "s i = 255" "s (i + 1) \<noteq> 1" "s (i + 1) \<noteq> 2" "s (i + 1) \<noteq> 3" "s (i + 1) \<noteq> 4" by blast
    then show ?thesis
    proof cases
      case 1
      show ?thesis by (rule go [of "i + 1" "res + 1" p1]) (use 1 i e p1 unfold_loop in \<open>simp_all add: CONS_ESCAPE_def\<close>)
    next
      case 2
      show ?thesis by (rule go [of "i + 2" res "pok_cons_clear st"])
        (use 2 i e unfold_loop in \<open>simp_all add: CONS_ESCAPE_def\<close>)
    next
      case 3
      show ?thesis by (rule go [of "i + 3" res "pok_cons_attr (s (i + 2)) st"])
        (use 3 i e unfold_loop in \<open>simp_all add: CONS_ESCAPE_def\<close>)
    next
      case 4
      show ?thesis by (rule go [of "i + 3" res "set_col (s (i + 2)) st"])
        (use 4 i e unfold_loop in \<open>simp_all add: CONS_ESCAPE_def\<close>)
    next
      case 5
      show ?thesis by (rule go [of "i + 3" res "set_row (s (i + 2)) st"])
        (use 5 i e unfold_loop in \<open>simp_all add: CONS_ESCAPE_def\<close>)
    next
      case 6
      show ?thesis by (rule go [of "i + 2" "res + 1" p2]) (use 6 i e p2 unfold_loop in \<open>simp_all add: CONS_ESCAPE_def\<close>)
    qed
  qed
qed

text \<open>C35: Whatever a partition writes to the console, escape codes included, the cursor stays on the screen and no
  byte outside the four thousand of the screen is written, the write ends with the lock of the line free again, and
  its result is the number of characters that the system call reports.\<close>

theorem cons_write_on_screen:
  assumes "console_ok st" "cons_ready cc" "\<not> serial_spinlock st"
  shows "\<exists>st'. cons_write cc s len st = Some (cons_printed s len 0 0, st') \<and> console_ok st' \<and> \<not> serial_spinlock st' \<and>
    0 \<le> sint (cons_row (g_cons st')) \<and> sint (cons_row (g_cons st')) < 25 \<and>
    0 \<le> sint (cons_col (g_cons st')) \<and> sint (cons_col (g_cons st')) < 80 \<and>
    (\<forall>k. k < 0 \<or> 4000 \<le> k \<longrightarrow> vga st' k = vga st k)"
proof -
  obtain st' where "cons_write_loop cc s len 0 0 (st\<lparr>serial_spinlock := True\<rparr>) = Some (cons_printed s len 0 0, st')"
    "write_effect (st\<lparr>serial_spinlock := True\<rparr>) st'"
    using cons_write_loop_effect [of "st\<lparr>serial_spinlock := True\<rparr>" cc s len 0 0] assms by (auto simp: console_ok_def)
  then show ?thesis using assms(3)
    by (auto simp: cons_write_def write_effect_def console_ok_def on_screen_def screen_h_def screen_w_def same_around_def)
qed

definition demo_console :: console where
  "demo_console = \<lparr>g_cons = \<lparr>cons_row = 24, cons_col = 79, cur_attr = 7\<rparr>, vga = (\<lambda>_. 0), serial_out = [], port_out = [],
     serial_spinlock = False\<rparr>"

definition demo_cons_config :: cons_config where
  "demo_cons_config = \<lparr>CONS_NEEDS_CONSOLE = True, CONS_NEEDS_DEBUG = True, cons_inb = (\<lambda>_. 0x20)\<rparr>"

text \<open>A character in the last place of the screen, which scrolls.\<close>

lemma cons_write_on_screen_witness:
  "\<exists>st'. cons_write demo_cons_config (\<lambda>_. 80) 1 demo_console = Some (1, st') \<and> vga st' 4000 = 0"
proof -
  have ok: "console_ok demo_console" "cons_ready demo_cons_config" "\<not> serial_spinlock demo_console"
    by (simp_all add: console_ok_def on_screen_def demo_console_def screen_h_def screen_w_def cons_ready_def
        demo_cons_config_def is_transmitter_holding_register_def)
  have "cons_printed (\<lambda>_. 80) 1 0 0 = 1" by (simp add: cons_printed.simps)
  moreover have "vga demo_console 4000 = 0" by (simp add: demo_console_def)
  ultimately show ?thesis using cons_write_on_screen [OF ok, of "\<lambda>_. 80" 1] by (metis order_refl)
qed

end
