(* ===== verification/Pok_User_Libc.thy ===== *)
theory Pok_User_Libc
  imports Pok_Libc
begin

text \<open>
  The C library of the partitions (\<open>libpok/libc\<close>): conversions between numbers and strings, the string
  functions that the kernel's library does not have, the comparison of memory and the random numbers.
  \<open>memcpy\<close>, \<open>memset\<close>, \<open>strlen\<close>, \<open>strcmp\<close>, \<open>strncmp\<close> and the 64-bit division are the code of the kernel's
  library once more. Memory seen through a pointer is a function from the offset to the byte; source and
  destination of a copy do not overlap. \<open>None\<close> stands for a scan that never ends and for what C leaves
  undefined: an overflow of an \<open>int\<close> and a store behind a local array.
\<close>

subsection \<open>Strings\<close>

partial_function (option) strcpy_loop :: "(nat \<Rightarrow> u8) \<Rightarrow> (nat \<Rightarrow> u8) \<Rightarrow> nat \<Rightarrow> (nat \<Rightarrow> u8) option" where
  "strcpy_loop dest str i =
     (if str i \<noteq> 0 then strcpy_loop (dest(i := str i)) str (i + 1) else Some (dest(i := 0)))"

definition user_strcpy :: "(nat \<Rightarrow> u8) \<Rightarrow> (nat \<Rightarrow> u8) \<Rightarrow> (nat \<Rightarrow> u8) option" where
  "user_strcpy dest str = strcpy_loop dest str 0"

fun strncpy_loop :: "(nat \<Rightarrow> u8) \<Rightarrow> (nat \<Rightarrow> u8) \<Rightarrow> nat list \<Rightarrow> (nat \<Rightarrow> u8)" where
  "strncpy_loop dest str [] = dest"
| "strncpy_loop dest str (i # is) =
     (let dest' = dest(i := str i) in if str i = 0 then dest' else strncpy_loop dest' str is)"

definition user_strncpy :: "(nat \<Rightarrow> u8) \<Rightarrow> (nat \<Rightarrow> u8) \<Rightarrow> u32 \<Rightarrow> (nat \<Rightarrow> u8)" where
  "user_strncpy dest str n = strncpy_loop dest str [0..<unat n]"

text \<open>The equality of two strings, on the first bytes that both have. The number of bytes is kept in a byte.\<close>

fun streq_loop :: "(nat \<Rightarrow> u8) \<Rightarrow> (nat \<Rightarrow> u8) \<Rightarrow> nat \<Rightarrow> nat \<Rightarrow> bool" where
  "streq_loop s1 s2 i 0 = True"
| "streq_loop s1 s2 i (Suc minlen) = (if s1 i \<noteq> s2 i then False else streq_loop s1 s2 (i + 1) minlen)"

definition streq :: "(nat \<Rightarrow> u8) \<Rightarrow> (nat \<Rightarrow> u8) \<Rightarrow> bool option" where
  "streq s1 s2 = do {
     l1 \<leftarrow> pok_strlen s1;
     l2 \<leftarrow> pok_strlen s2;
     let minlen = (of_nat (if l1 < l2 then l1 else l2) :: u8);
     Some (streq_loop s1 s2 0 (unat minlen))
   }"

subsection \<open>Memory\<close>

text \<open>The comparison reads words of four bytes, as many as the count says.\<close>

definition word_at :: "(nat \<Rightarrow> u8) \<Rightarrow> nat \<Rightarrow> u32" where
  "word_at s i = ucast (s (4 * i)) + 256 * ucast (s (4 * i + 1)) + 65536 * ucast (s (4 * i + 2)) +
     16777216 * ucast (s (4 * i + 3))"

fun memcmp_loop :: "(nat \<Rightarrow> u8) \<Rightarrow> (nat \<Rightarrow> u8) \<Rightarrow> nat list \<Rightarrow> int" where
  "memcmp_loop v1 v2 [] = 0"
| "memcmp_loop v1 v2 (i # is) =
     (if word_at v1 i \<noteq> word_at v2 i then if word_at v1 i > word_at v2 i then 1 else - 1
      else memcmp_loop v1 v2 is)"

definition user_memcmp :: "(nat \<Rightarrow> u8) \<Rightarrow> (nat \<Rightarrow> u8) \<Rightarrow> u32 \<Rightarrow> int" where
  "user_memcmp v1 v2 n = memcmp_loop v1 v2 [0..<unat n]"

subsection \<open>Numbers\<close>

definition in_int :: "int \<Rightarrow> bool" where
  "in_int x = (- (2 ^ 31) \<le> x \<and> x < 2 ^ 31)"

partial_function (option) atoi_loop :: "(nat \<Rightarrow> u8) \<Rightarrow> int \<Rightarrow> nat \<Rightarrow> int option" where
  "atoi_loop str res i =
     (if str i \<noteq> 0
      then let c = sint (str i)
           in if c < 48 \<or> c > 57 then Some 0
              else if in_int (10 * res) \<and> in_int (10 * res + c) then atoi_loop str (10 * res + c - 48) (i + 1)
              else None
      else Some res)"

definition atoi :: "(nat \<Rightarrow> u8) \<Rightarrow> int option" where
  "atoi str = atoi_loop str 0 0"

text \<open>The first loop stores the digits in an array of sixteen, the last digit first; \<open>room\<close> is what is left of it.\<close>

definition digit_char :: "u32 \<Rightarrow> u8" where
  "digit_char digit = (if digit < 10 then ucast (48 + digit) else ucast (97 + (digit - 10)))"

fun itoa_digits :: "nat \<Rightarrow> u32 \<Rightarrow> u32 \<Rightarrow> u8 list \<Rightarrow> u8 list option" where
  "itoa_digits 0 radix uvalue temp = None"
| "itoa_digits (Suc room) radix uvalue temp =
     (let digit = uvalue mod radix; uvalue' = (uvalue - digit) div radix; temp' = temp @ [digit_char digit]
      in if uvalue' \<noteq> 0 then itoa_digits room radix uvalue' temp' else Some temp')"

definition store_list :: "(nat \<Rightarrow> u8) \<Rightarrow> nat \<Rightarrow> u8 list \<Rightarrow> (nat \<Rightarrow> u8)" where
  "store_list buff j xs = (\<lambda>i. if j \<le> i \<and> i < j + length xs then xs ! (i - j) else buff i)"

definition itoa :: "int \<Rightarrow> (nat \<Rightarrow> u8) \<Rightarrow> int \<Rightarrow> (nat \<Rightarrow> u8) option" where
  "itoa val buff radix =
     (if radix = 0 then None
      else if radix = 10 \<and> val < 0 \<and> \<not> in_int (- val) then None
      else do {
        let (uvalue, buff', j) = (if radix = 10 \<and> val < 0 then (word_of_int (- val), buff(0 := 45), 1)
                                  else (word_of_int val :: u32, buff, 0 :: nat));
        temp \<leftarrow> itoa_digits 16 (word_of_int radix) uvalue [];
        Some (store_list buff' j (rev temp @ [0]))
      })"

definition RAND_MAX :: u32 where "RAND_MAX = 256"

text \<open>The state of the generator is the second component.\<close>

definition rand :: "u32 \<Rightarrow> int \<times> u32" where
  "rand next_value = (let n = next_value * 1103515245 + 12345 in (sint (n mod (RAND_MAX + 1)), n))"

subsection \<open>Copies and comparisons\<close>

lemma strcpy_loop_copies:
  "cstring str n \<Longrightarrow> i \<le> n \<Longrightarrow>
   strcpy_loop dest str i = Some (\<lambda>k. if i \<le> k \<and> k \<le> n then str k else dest k)"
proof (induction "n - i" arbitrary: i dest)
  case 0
  then show ?case by (subst strcpy_loop.simps) (auto simp: cstring_def fun_eq_iff)
next
  case (Suc d)
  then have i: "i < n" "str i \<noteq> 0" by (simp_all add: cstring_def)
  have "strcpy_loop (dest(i := str i)) str (i + 1) =
      Some (\<lambda>k. if i + 1 \<le> k \<and> k \<le> n then str k else (dest(i := str i)) k)"
    using Suc.hyps Suc.prems(1) i by simp
  then show ?case using i by (subst strcpy_loop.simps) (auto simp: fun_eq_iff)
qed

lemma strncpy_loop_copies:
  "strncpy_loop dest str [i..<m] =
     (\<lambda>k. if i \<le> k \<and> k < m \<and> (\<forall>j. i \<le> j \<and> j < k \<longrightarrow> str j \<noteq> 0) then str k else dest k)"
proof (induction "m - i" arbitrary: i dest)
  case (Suc d)
  then have i: "i < m" by simp
  have IH: "strncpy_loop (dest(i := str i)) str [Suc i..<m] =
      (\<lambda>k. if Suc i \<le> k \<and> k < m \<and> (\<forall>j. Suc i \<le> j \<and> j < k \<longrightarrow> str j \<noteq> 0) then str k else (dest(i := str i)) k)"
    using Suc.hyps by simp
  show ?case
  proof (cases "str i = 0")
    case True
    then show ?thesis using i by (auto simp: upt_conv_Cons fun_eq_iff)
  next
    case False
    have "(\<forall>j. i \<le> j \<and> j < k \<longrightarrow> str j \<noteq> 0) = (\<forall>j. Suc i \<le> j \<and> j < k \<longrightarrow> str j \<noteq> 0)" for k
      using False by (metis Suc_leD le_eq_less_or_eq Suc_leI)
    then show ?thesis using i False by (simp add: upt_conv_Cons Let_def IH) (auto simp: fun_eq_iff)
  qed
qed (auto simp: fun_eq_iff)

text \<open>Both copies of a terminated string store its bytes and the terminator and nothing else; the bounded one stops
  after its bound and leaves the copy unterminated when the string does not fit.\<close>

theorem string_copies:
  assumes "cstring str n"
  shows "user_strcpy dest str = Some (\<lambda>k. if k \<le> n then str k else dest k) \<and>
    user_strncpy dest str m = (\<lambda>k. if k \<le> n \<and> k < unat m then str k else dest k)"
proof -
  have "(\<forall>j. j < k \<longrightarrow> str j \<noteq> 0) = (k \<le> n)" for k
    using assms by (auto simp: cstring_def) (metis not_less)
  then show ?thesis
    using strcpy_loop_copies [OF assms, of 0 dest]
    by (auto simp: user_strcpy_def user_strncpy_def strncpy_loop_copies fun_eq_iff)
qed

lemma streq_loop_iff: "streq_loop s1 s2 i n = (\<forall>k < n. s1 (i + k) = s2 (i + k))"
proof (induction n arbitrary: i)
  case (Suc n)
  have "(\<forall>k < Suc n. s1 (i + k) = s2 (i + k)) = (s1 i = s2 i \<and> (\<forall>k < n. s1 (i + 1 + k) = s2 (i + 1 + k)))"
    by (auto simp: less_Suc_eq_0_disj)
  then show ?case using Suc by simp
qed simp

lemma strlen_cstring: "cstring s n \<Longrightarrow> pok_strlen s = Some n"
  using strlen_loop_length [of s n 0] by (simp add: pok_strlen_def)

text \<open>The equality that the library uses for names compares a prefix only: two strings count as equal when they agree
  on the first bytes, as many as the shorter one has, modulo 256. So every name equals each of its
  prefixes, and the empty string equals every string.\<close>

theorem streq_compares_prefix:
  assumes "cstring s1 n" "cstring s2 m"
  shows "streq s1 s2 = Some (\<forall>k < min n m mod 256. s1 k = s2 k)"
  using strlen_cstring [OF assms(1)] strlen_cstring [OF assms(2)]
  by (auto simp: streq_def streq_loop_iff min_def unat_of_nat simp del: of_nat_numeral)

lemma memcmp_loop_cases:
  "(memcmp_loop v1 v2 is = 0) = (\<forall>i \<in> set is. word_at v1 i = word_at v2 i)"
  by (induction "is") auto

lemma digits_unique:
  fixes x y :: nat
  assumes "x < n" "x' < n" "x + n * y = x' + n * y'"
  shows "x = x' \<and> y = y'"
proof -
  have "x = (x + n * y) mod n" "x' = (x' + n * y') mod n" using assms(1,2) by simp_all
  then show ?thesis using assms by simp
qed

lemma byte_split:
  "ucast (a :: u8) + 256 * ucast (b :: u8) + 65536 * ucast (c :: u8) + 16777216 * (ucast (d :: u8) :: u32) =
   ucast (a' :: u8) + 256 * ucast (b' :: u8) + 65536 * ucast (c' :: u8) + 16777216 * ucast (d' :: u8) \<longleftrightarrow>
   a = a' \<and> b = b' \<and> c = c' \<and> d = d'"
proof -
  have u: "unat (ucast (a :: u8) + 256 * ucast (b :: u8) + 65536 * ucast (c :: u8) + 16777216 * (ucast (d :: u8) :: u32)) =
      unat a + 256 * unat b + 65536 * unat c + 16777216 * unat d" for a b c d :: u8
    using unsigned_less [where 'a = nat, of a] unsigned_less [where 'a = nat, of b]
      unsigned_less [where 'a = nat, of c] unsigned_less [where 'a = nat, of d]
    by (simp add: unat_word_ariths unsigned_ucast_eq take_bit_nat_eq_self)
  show ?thesis (is "?l = ?r \<longleftrightarrow> _")
  proof
    assume "?l = ?r"
    then have e: "unat a + 256 * unat b + 65536 * unat c + 16777216 * unat d =
        unat a' + 256 * unat b' + 65536 * unat c' + 16777216 * unat d'" using u by metis
    have lt: "unat w < 256" for w :: u8 using unsigned_less [where 'a = nat, of w] by simp
    have "unat a + 256 * (unat b + 256 * (unat c + 256 * unat d)) = unat a' + 256 * (unat b' + 256 * (unat c' + 256 * unat d'))"
      using e by simp
    from digits_unique [OF lt lt this]
    have a: "unat a = unat a'" and r1: "unat b + 256 * (unat c + 256 * unat d) = unat b' + 256 * (unat c' + 256 * unat d')"
      by blast+
    from digits_unique [OF lt lt r1] have b: "unat b = unat b'" and r2: "unat c + 256 * unat d = unat c' + 256 * unat d'" by blast+
    from digits_unique [OF lt lt r2] a b have "unat a = unat a'" "unat b = unat b'" "unat c = unat c'" "unat d = unat d'" by blast+
    then show "a = a' \<and> b = b' \<and> c = c' \<and> d = d'" by (simp add: word_unat_eq_iff)
  qed simp
qed

text \<open>The comparison of memory looks at four times as many bytes as it is asked to: the result is zero exactly when
  all of them are equal, so it reads behind the two areas and can differ on equal ones.\<close>

theorem memcmp_compares_words:
  "(user_memcmp v1 v2 n = 0) = (\<forall>k < 4 * unat n. v1 k = v2 k)"
proof -
  have "(\<forall>i < unat n. word_at v1 i = word_at v2 i) = (\<forall>k < 4 * unat n. v1 k = v2 k)"
  proof (intro iffI allI impI)
    fix k
    assume w: "\<forall>i < unat n. word_at v1 i = word_at v2 i" and k: "k < 4 * unat n"
    have "k div 4 < unat n" using k by (simp add: less_mult_imp_div_less mult.commute)
    then have e: "word_at v1 (k div 4) = word_at v2 (k div 4)" using w by blast
    have "k = 4 * (k div 4) \<or> k = 4 * (k div 4) + 1 \<or> k = 4 * (k div 4) + 2 \<or> k = 4 * (k div 4) + 3" by arith
    then show "v1 k = v2 k" using e unfolding word_at_def byte_split by metis
  next
    fix i
    assume k: "\<forall>k < 4 * unat n. v1 k = v2 k" and i: "i < unat n"
    then show "word_at v1 i = word_at v2 i" by (simp add: word_at_def)
  qed
  then show ?thesis by (simp add: user_memcmp_def memcmp_loop_cases Ball_def)
qed

subsection \<open>Numbers and their digits\<close>

text \<open>The value of a list of digits, the least significant first.\<close>

fun digits_value :: "nat \<Rightarrow> nat list \<Rightarrow> nat" where
  "digits_value radix [] = 0"
| "digits_value radix (d # ds) = d + radix * digits_value radix ds"

text \<open>The digits of a number that fit the room, and whether there are more.\<close>

lemma itoa_digits_Suc:
  assumes "2 \<le> unat radix"
  shows "itoa_digits (Suc room) radix u temp =
    (if u div radix \<noteq> 0 then itoa_digits room radix (u div radix) (temp @ [digit_char (u mod radix)])
     else Some (temp @ [digit_char (u mod radix)]))"
proof -
  have "(u - u mod radix) div radix = u div radix"
  proof -
    have "unat ((u - u mod radix) div radix) = (unat u - unat u mod unat radix) div unat radix"
      by (simp add: unat_div unat_sub word_le_nat_alt unat_mod)
    also have "\<dots> = unat u div unat radix" using assms by (simp add: minus_mod_eq_mult_div)
    finally show ?thesis by (simp add: word_unat_eq_iff unat_div)
  qed
  then show ?thesis by (simp add: Let_def)
qed

lemma itoa_digits_spec:
  assumes "2 \<le> unat radix" "unat u < unat radix ^ room" "0 < room"
  shows "\<exists>ds. itoa_digits room radix u temp = Some (temp @ map (\<lambda>d. digit_char (of_nat d)) ds) \<and> ds \<noteq> [] \<and>
    (\<forall>d \<in> set ds. d < unat radix) \<and> digits_value (unat radix) ds = unat u \<and> length ds \<le> room"
  using assms(2,3)
proof (induction room arbitrary: u temp)
  case (Suc room)
  let ?r = "unat radix"
  have d: "unat (u mod radix) < ?r" using assms(1) by (simp add: unat_mod)
  have sum: "unat (u mod radix) + ?r * unat (u div radix) = unat u" by (simp add: unat_mod unat_div)
  show ?case
  proof (cases "u div radix = 0")
    case True
    moreover have "u mod radix = u" using div_mult_mod_eq [of u radix] True by simp
    ultimately show ?thesis using d sum assms(1)
      by (intro exI [of _ "[unat (u mod radix)]"]) (simp add: itoa_digits_Suc del: itoa_digits.simps)
  next
    case False
    have "unat (u div radix) < ?r ^ room"
      using Suc.prems(1) assms(1) by (simp add: unat_div less_mult_imp_div_less mult.commute)
    moreover have "0 < room"
    proof (rule ccontr)
      assume "\<not> 0 < room"
      then have "unat (u div radix) = 0" using calculation by simp
      then show False using False by (simp add: unat_eq_0)
    qed
    ultimately obtain ds where ds: "itoa_digits room radix (u div radix) (temp @ [digit_char (u mod radix)]) =
        Some ((temp @ [digit_char (u mod radix)]) @ map (\<lambda>d. digit_char (of_nat d)) ds)" "ds \<noteq> []"
      "\<forall>d \<in> set ds. d < ?r" "digits_value ?r ds = unat (u div radix)" "length ds \<le> room"
      using Suc.IH by blast
    then show ?thesis using False d sum assms(1)
      by (intro exI [of _ "unat (u mod radix) # ds"]) (simp add: itoa_digits_Suc del: itoa_digits.simps)
  qed
qed simp

text \<open>A number with more digits than the array has elements overruns it.\<close>

lemma itoa_digits_overflow:
  assumes "2 \<le> unat radix" "unat radix ^ room \<le> unat u"
  shows "itoa_digits room radix u temp = None"
  using assms(2)
proof (induction room arbitrary: u temp)
  case (Suc room)
  have le: "unat radix ^ room \<le> unat (u div radix)"
    using Suc.prems assms(1) by (simp add: unat_div less_eq_div_iff_mult_less_eq mult.commute)
  then have "0 < unat (u div radix)" using assms(1) by (metis gr_zeroI le_zero_eq power_not_zero not_numeral_le_zero)
  then have "u div radix \<noteq> 0" by auto
  then show ?case using Suc.IH [OF le] unfolding itoa_digits_Suc [OF assms(1)] by simp
qed simp

lemma itoa_digits_more: "itoa_digits room radix u temp = Some r \<Longrightarrow> itoa_digits (room + extra) radix u temp = Some r"
  by (induction room arbitrary: u temp) (auto simp: Let_def split: if_splits)

lemma digit_char_10: "d < 10 \<Longrightarrow> sint (digit_char (of_nat d)) = 48 + int d"
proof -
  assume d: "d < 10"
  then have "d = 0 \<or> d = 1 \<or> d = 2 \<or> d = 3 \<or> d = 4 \<or> d = 5 \<or> d = 6 \<or> d = 7 \<or> d = 8 \<or> d = 9" by arith
  then show ?thesis by (elim disjE) (simp_all add: digit_char_def)
qed

lemma digits_value_snoc: "digits_value r (ds @ [d]) = digits_value r ds + r ^ length ds * d"
  by (induction ds) (simp_all add: algebra_simps)

lemma digit_char_nonzero: "d < 10 \<Longrightarrow> digit_char (of_nat d) \<noteq> 0"
  using digit_char_10 [of d] by auto

text \<open>Reading back a list of digits, the most significant first in memory.\<close>

lemma atoi_loop_digits:
  assumes "\<forall>d \<in> set ds. d < 10" "\<forall>k < length ds. str (i + k) = digit_char (of_nat (rev ds ! k))" "str (i + length ds) = 0"
    and "10 ^ length ds * res + digits_value 10 ds + 48 < 2 ^ 31"
  shows "atoi_loop str (int res) i = Some (int (10 ^ length ds * res + digits_value 10 ds))"
  using assms
proof (induction ds arbitrary: res i rule: rev_induct)
  case Nil
  then show ?case by (subst atoi_loop.simps) simp
next
  case (snoc d ds)
  have d: "d < 10" using snoc.prems(1) by simp
  have "str i = digit_char (of_nat d)" using snoc.prems(2) by (auto dest: spec [of _ 0])
  then have c: "sint (str i) = 48 + int d" "str i \<noteq> 0" using digit_char_10 [OF d] digit_char_nonzero [OF d] by simp_all
  have total: "10 ^ length (ds @ [d]) * res + digits_value 10 (ds @ [d]) =
      10 ^ length ds * (10 * res + d) + digits_value 10 ds"
    by (simp add: digits_value_snoc algebra_simps)
  have "10 * res + d \<le> 10 ^ length ds * (10 * res + d)" by simp
  then have small: "10 * res + d + 48 < 2 ^ 31" using snoc.prems(4) total by linarith
  have "atoi_loop str (int (10 * res + d)) (i + 1) = Some (int (10 ^ length ds * (10 * res + d) + digits_value 10 ds))"
  proof (rule snoc.IH)
    show "\<forall>k < length ds. str (i + 1 + k) = digit_char (of_nat (rev ds ! k))"
      using snoc.prems(2) by (auto dest: spec [of _ "Suc k" for k])
    show "10 ^ length ds * (10 * res + d) + digits_value 10 ds + 48 < 2 ^ 31" using snoc.prems(4) total by simp
  qed (use snoc.prems(1,3) in \<open>simp_all add: add.assoc\<close>)
  moreover have "in_int (10 * int res)" "in_int (10 * int res + sint (str i))"
    using small d by (simp_all add: in_int_def c)
  moreover have "10 * int res + sint (str i) - 48 = int (10 * res + d)" by (simp add: c)
  ultimately show ?case using c d unfolding total by (subst atoi_loop.simps) (simp add: Let_def)
qed

text \<open>Printing a number in base ten and reading it back gives the number, when it is not negative and at least
  48 below the largest one; the text is terminated and has at most ten digits. Closer to the largest number the
  reading overflows, and the sign of a negative number, which the printing puts in front, is not understood: the result
  is zero.\<close>

theorem atoi_itoa:
  assumes "- (2 ^ 31) < v" "v < 2 ^ 31"
  shows "\<exists>str n. itoa v buff 10 = Some str \<and> cstring str n \<and> n \<le> 11 \<and>
    (0 \<le> v \<and> v + 48 < 2 ^ 31 \<longrightarrow> atoi str = Some v) \<and> (v < 0 \<longrightarrow> atoi str = Some 0)"
proof -
  let ?w = "nat \<bar>v\<bar>" and ?j = "if v < 0 then 1 else (0 :: nat)"
  let ?buff = "if v < 0 then buff(0 := 45) else buff"
  have w: "?w < 2 ^ 31" using assms by simp
  have u: "unat (word_of_int \<bar>v\<bar> :: u32) = ?w"
    using assms by (simp add: unat_eq_nat_uint uint_word_of_int)
  have "unat (word_of_int \<bar>v\<bar> :: u32) < unat (10 :: u32) ^ 10" using w unfolding u by simp
  then obtain ds where ds: "itoa_digits 10 10 (word_of_int \<bar>v\<bar>) [] = Some (map (\<lambda>d. digit_char (of_nat d)) ds)" "ds \<noteq> []"
    "\<forall>d \<in> set ds. d < 10" "digits_value 10 ds = ?w" "length ds \<le> 10"
    using itoa_digits_spec [of 10 "word_of_int \<bar>v\<bar>" 10 "[]"] u by auto
  note more = itoa_digits_more [of _ _ _ _ _ 6]
  let ?xs = "map (\<lambda>d. digit_char (of_nat d)) ds"
  let ?str = "store_list ?buff ?j (rev ?xs @ [0])"
  have it: "itoa v buff 10 = Some ?str"
    using more [OF ds(1)] assms by (cases "v < 0") (simp_all add: itoa_def in_int_def)
  have at: "?str (?j + k) = digit_char (of_nat (rev ds ! k))" if "k < length ds" for k
    using that by (simp add: store_list_def nth_append rev_map)
  have fin: "?str (?j + length ds) = 0" by (simp add: store_list_def nth_append)
  have sign: "?str 0 = 45" if "v < 0" using that by (simp add: store_list_def)
  have nz: "?str k \<noteq> 0" if "k < ?j + length ds" for k
  proof (cases "k < ?j")
    case True
    then have "v < 0" "k = 0" by (simp_all split: if_splits)
    then show ?thesis using sign by simp
  next
    case False
    then have k: "k - ?j < length ds" "?j + (k - ?j) = k" using that by simp_all
    have "rev ds ! (k - ?j) \<in> set ds" using k(1) by (metis length_rev nth_mem set_rev)
    then show ?thesis using at [OF k(1)] ds(3) digit_char_nonzero unfolding k(2) by metis
  qed
  have "cstring ?str (?j + length ds)" using fin nz by (simp add: cstring_def)
  moreover have "atoi ?str = Some v" if "0 \<le> v" "v + 48 < 2 ^ 31"
  proof -
    have "atoi_loop ?str (int 0) 0 = Some (int (10 ^ length ds * 0 + digits_value 10 ds))"
      using ds(3,4) at fin that by (intro atoi_loop_digits) simp_all
    then show ?thesis using that ds(4) by (simp add: atoi_def)
  qed
  moreover have "atoi ?str = Some 0" if "v < 0"
    unfolding atoi_def using sign [OF that] by (subst atoi_loop.simps) simp
  moreover have "?j + length ds \<le> 11" using ds(5) by simp
  ultimately show ?thesis using it by blast
qed

lemma atoi_itoa_witness:
  "\<exists>str. itoa 4711 (\<lambda>_. 0) 10 = Some str \<and> atoi str = Some 4711"
  using atoi_itoa [of 4711 "\<lambda>_. 0"] by auto

text \<open>In base two a number of more than sixteen bits overruns the array of digits.\<close>

lemma itoa_overruns: "0 \<le> v \<Longrightarrow> 2 ^ 16 \<le> v \<Longrightarrow> v < 2 ^ 31 \<Longrightarrow> itoa v buff 2 = None"
proof -
  assume v: "0 \<le> v" "2 ^ 16 \<le> v" "v < 2 ^ 31"
  then have "unat (word_of_int v :: u32) = nat v" by (simp add: unat_eq_nat_uint uint_word_of_int)
  moreover have "2 ^ 16 \<le> nat v" using v by simp
  ultimately have "itoa_digits 16 2 (word_of_int v) [] = None"
    by (intro itoa_digits_overflow) simp_all
  then show ?thesis by (simp add: itoa_def)
qed

end
