(* ===== verification/Pok_Printf.thy ===== *)
theory Pok_Printf
  imports Pok_User_Libc
begin

text \<open>
  Formatted output (\<open>kernel/libc/printf.c\<close>, and \<open>libpok/libc/stdio/printf.c\<close>, which is the same code with the
  conversion of floating-point numbers added). Characters are collected in a buffer that is written to the
  console when it is full and at the end; the writes are kept as a list. The arguments are those of a
  32-bit machine: \<open>int\<close> and \<open>long\<close> have four bytes. \<open>None\<close> stands for a failed assertion and for what C
  leaves undefined: an argument of another type than the format says, or the overflow of a negation.
\<close>

subsection \<open>Buffered output\<close>

definition MY_BUF_SIZE :: nat where "MY_BUF_SIZE = 128"

record s_file =
  f_buff :: "nat \<Rightarrow> u8"
  f_pos :: nat
  f_written :: "u8 list list"

definition my_fflush :: "s_file \<Rightarrow> s_file" where
  "my_fflush f = f\<lparr>f_written := f_written f @ [map (f_buff f) [0..<f_pos f]], f_pos := 0\<rparr>"

definition my_putc :: "u8 \<Rightarrow> s_file \<Rightarrow> s_file" where
  "my_putc ch f =
     (let f' = f\<lparr>f_buff := (f_buff f)(f_pos f := ch), f_pos := f_pos f + 1\<rparr>
      in if f_pos f' = MY_BUF_SIZE then my_fflush f' else f')"

definition close_buffered_output :: "s_file \<Rightarrow> s_file" where
  "close_buffered_output f = my_fflush f"

subsection \<open>Numbers\<close>

definition digit_chars :: "nat \<Rightarrow> u8" where
  "digit_chars d = (if d < 10 then of_nat (48 + d) else of_nat (97 + (d - 10)))"

text \<open>The digits of a number, the least significant first. In base one the loop does not end.\<close>

partial_function (option) conv :: "u64 \<Rightarrow> u64 \<Rightarrow> nat list option" where
  "conv n base =
     (if n = 0 then Some []
      else do { ds \<leftarrow> conv (n div base) base; Some (unat (n mod base) # ds) })"

text \<open>The result is the index of the last digit, not the number of digits, unless the number is zero.\<close>

definition my_printnbr_base :: "u64 \<Rightarrow> u64 \<Rightarrow> s_file \<Rightarrow> (int \<times> s_file) option" where
  "my_printnbr_base n base f =
     (if n = 0 then Some (1, my_putc 48 f)
      else do {
        ds \<leftarrow> conv n base;
        Some (int (length ds) - 1, fold (\<lambda>d. my_putc (digit_chars d)) (rev ds) f)
      })"

definition print_int :: "u64 \<Rightarrow> bool \<Rightarrow> s_file \<Rightarrow> (int \<times> s_file) option" where
  "print_int v is_signed f =
     (if v = 0 then Some (1, my_putc 48 f)
      else if is_signed \<and> sint v < 0
      then if sint v = - (2 ^ 63) then None
           else map_option (\<lambda>(n, f'). (n + 1, f')) (my_printnbr_base (- v) 10 (my_putc 45 f))
      else my_printnbr_base v 10 f)"

partial_function (option) print_str_loop :: "(nat \<Rightarrow> u8) \<Rightarrow> nat \<Rightarrow> s_file \<Rightarrow> (int \<times> s_file) option" where
  "print_str_loop s i f = (if s i \<noteq> 0 then print_str_loop s (i + 1) (my_putc (s i) f) else Some (int i, f))"

definition print_str :: "(nat \<Rightarrow> u8) \<Rightarrow> s_file \<Rightarrow> (int \<times> s_file) option" where
  "print_str s f = print_str_loop s 0 f"

definition print_char :: "u64 \<Rightarrow> s_file \<Rightarrow> (int \<times> s_file) option" where
  "print_char v f = Some (1, my_putc (ucast v) f)"

definition print_base :: "u64 \<Rightarrow> u64 \<Rightarrow> s_file \<Rightarrow> (int \<times> s_file) option" where
  "print_base v base f = my_printnbr_base v base f"

subsection \<open>Conversions\<close>

text \<open>The value of an argument: a number, or a string it points to.\<close>

datatype u_arg = Num u64 | Ptr "nat \<Rightarrow> u8"

definition num_of :: "u_arg \<Rightarrow> u64 option" where
  "num_of a = (case a of Num v \<Rightarrow> Some v | Ptr s \<Rightarrow> None)"

text \<open>\<open>d\<close>, \<open>i\<close>, \<open>u\<close>, \<open>s\<close>, \<open>c\<close>, \<open>o\<close> and \<open>x\<close>; another character is printed with its percent sign.\<close>

definition special_char :: "u8 \<Rightarrow> u_arg \<Rightarrow> s_file \<Rightarrow> (int \<times> s_file) option" where
  "special_char fmt arg f =
     (if fmt = 100 \<or> fmt = 105 then do { v \<leftarrow> num_of arg; print_int v True f }
      else if fmt = 117 then do { v \<leftarrow> num_of arg; print_int v False f }
      else if fmt = 115 then (case arg of Ptr s \<Rightarrow> print_str s f | Num v \<Rightarrow> None)
      else if fmt = 99 then do { v \<leftarrow> num_of arg; print_char v f }
      else if fmt = 111 then do { v \<leftarrow> num_of arg; print_base v 8 f }
      else if fmt = 120 then do { v \<leftarrow> num_of arg; print_base v 16 f }
      else let f' = (if fmt \<noteq> 37 then my_putc 37 f else f)
           in Some (1 + of_bool (fmt \<noteq> 37), my_putc fmt f'))"

datatype integer_size_t = SIZE_INT | SIZE_LONG | SIZE_LONG_LONG | SIZE_SHORT | SIZE_CHAR

text \<open>The modifier at an index of the format, and the index behind it.\<close>

definition check_size_modifier :: "(nat \<Rightarrow> u8) \<Rightarrow> nat \<Rightarrow> integer_size_t \<times> nat" where
  "check_size_modifier fmt i =
     (if fmt i = 104 then if fmt (i + 1) = 104 then (SIZE_CHAR, i + 2) else (SIZE_SHORT, i + 1)
      else if fmt i = 108 then if fmt (i + 1) = 108 then (SIZE_LONG_LONG, i + 2) else (SIZE_LONG, i + 1)
      else (SIZE_INT, i))"

text \<open>What the caller passed: a word, two words, or a pointer.\<close>

datatype va_arg = VA_int u32 | VA_llong u64 | VA_ptr "nat \<Rightarrow> u8"

definition va_int :: "va_arg list \<Rightarrow> (u32 \<times> va_arg list) option" where
  "va_int args = (case args of VA_int w # rest \<Rightarrow> Some (w, rest) | _ \<Rightarrow> None)"

definition va_llong :: "va_arg list \<Rightarrow> (u64 \<times> va_arg list) option" where
  "va_llong args = (case args of VA_llong w # rest \<Rightarrow> Some (w, rest) | _ \<Rightarrow> None)"

definition va_ptr :: "va_arg list \<Rightarrow> ((nat \<Rightarrow> u8) \<times> va_arg list) option" where
  "va_ptr args = (case args of VA_ptr p # rest \<Rightarrow> Some (p, rest) | _ \<Rightarrow> None)"

definition signed_arg :: "integer_size_t \<Rightarrow> va_arg list \<Rightarrow> (u_arg \<times> va_arg list) option" where
  "signed_arg sz args =
     (case sz of
        SIZE_LONG_LONG \<Rightarrow> map_option (\<lambda>(w, r). (Num w, r)) (va_llong args)
      | SIZE_LONG \<Rightarrow> map_option (\<lambda>(w, r). (Num (scast w), r)) (va_int args)
      | SIZE_INT \<Rightarrow> map_option (\<lambda>(w, r). (Num (scast w), r)) (va_int args)
      | SIZE_SHORT \<Rightarrow> map_option (\<lambda>(w, r). (Num (scast (ucast w :: u16)), r)) (va_int args)
      | SIZE_CHAR \<Rightarrow> map_option (\<lambda>(w, r). (Num (scast (ucast w :: u8)), r)) (va_int args))"

definition unsigned_arg :: "integer_size_t \<Rightarrow> va_arg list \<Rightarrow> (u_arg \<times> va_arg list) option" where
  "unsigned_arg sz args =
     (case sz of
        SIZE_LONG_LONG \<Rightarrow> map_option (\<lambda>(w, r). (Num w, r)) (va_llong args)
      | SIZE_LONG \<Rightarrow> map_option (\<lambda>(w, r). (Num (ucast w), r)) (va_int args)
      | SIZE_INT \<Rightarrow> map_option (\<lambda>(w, r). (Num (ucast w), r)) (va_int args)
      | SIZE_SHORT \<Rightarrow> map_option (\<lambda>(w, r). (Num (ucast (ucast w :: u16)), r)) (va_int args)
      | SIZE_CHAR \<Rightarrow> map_option (\<lambda>(w, r). (Num (ucast (ucast w :: u8)), r)) (va_int args))"

definition known_conversion :: "u8 \<Rightarrow> bool" where
  "known_conversion ch = (ch = 100 \<or> ch = 105 \<or> ch = 111 \<or> ch = 117 \<or> ch = 120 \<or> ch = 99 \<or> ch = 115)"

definition conversion_arg :: "u8 \<Rightarrow> integer_size_t \<Rightarrow> va_arg list \<Rightarrow> (u_arg \<times> va_arg list) option" where
  "conversion_arg ch sz args =
     (if ch = 100 \<or> ch = 105 then signed_arg sz args
      else if ch = 111 \<or> ch = 117 \<or> ch = 120 then unsigned_arg sz args
      else if ch = 99 then map_option (\<lambda>(w, r). (Num (scast w), r)) (va_int args)
      else map_option (\<lambda>(p, r). (Ptr p, r)) (va_ptr args))"

subsection \<open>The loop over the format\<close>

text \<open>The format is read at index \<open>i\<close>; behind its end when a modifier is its last character.\<close>

partial_function (option) vprintf_loop ::
  "bool \<Rightarrow> (nat \<Rightarrow> u8) \<Rightarrow> nat \<Rightarrow> va_arg list \<Rightarrow> int \<Rightarrow> s_file \<Rightarrow> (int \<times> s_file) option" where
  "vprintf_loop asserts fmt i args count f =
     (if fmt i = 0 then Some (count, f)
      else if fmt i = 37
      then if fmt (i + 1) = 0 then Some (count, f)
           else if fmt (i + 1) \<noteq> 37
           then let (sz, j) = check_size_modifier fmt (i + 1)
                in if known_conversion (fmt j)
                   then do {
                     (arg, args') \<leftarrow> conversion_arg (fmt j) sz args;
                     (n, f') \<leftarrow> special_char (fmt j) arg f;
                     vprintf_loop asserts fmt (j + 1) args' (count + n) f'
                   }
                   else if asserts then None
                   else vprintf_loop asserts fmt (j + 1) args (count + 1) (my_putc (fmt j) f)
           else vprintf_loop asserts fmt (i + 2) args (count + 1) (my_putc (fmt (i + 1)) f)
      else vprintf_loop asserts fmt (i + 1) args (count + 1) (my_putc (fmt i) f))"

definition vprintf :: "bool \<Rightarrow> (nat \<Rightarrow> u8) \<Rightarrow> va_arg list \<Rightarrow> (int \<times> u8 list list) option" where
  "vprintf asserts fmt args = do {
     (count, f) \<leftarrow> vprintf_loop asserts fmt 0 args 0 \<lparr>f_buff = (\<lambda>_. 0), f_pos = 0, f_written = []\<rparr>;
     Some (count, f_written (close_buffered_output f))
   }"

subsection \<open>The text that is printed\<close>

text \<open>What was printed so far, and the state of a file between two characters: its buffer is not full, and what
  was written are full buffers.\<close>

definition file_text :: "s_file \<Rightarrow> u8 list" where
  "file_text f = concat (f_written f) @ map (f_buff f) [0..<f_pos f]"

definition file_ok :: "s_file \<Rightarrow> bool" where
  "file_ok f = (f_pos f < MY_BUF_SIZE \<and> (\<forall>w \<in> set (f_written f). length w = MY_BUF_SIZE))"

lemma my_putc_text [simp]:
  assumes "file_ok f"
  shows "file_text (my_putc ch f) = file_text f @ [ch]" "file_ok (my_putc ch f)"
proof -
  have "map ((f_buff f)(f_pos f := ch)) [0..<Suc (f_pos f)] = map (f_buff f) [0..<f_pos f] @ [ch]" by simp
  then show "file_text (my_putc ch f) = file_text f @ [ch]"
    by (auto simp: my_putc_def my_fflush_def file_text_def Let_def simp del: upt_Suc)
  show "file_ok (my_putc ch f)"
    using assms by (auto simp: my_putc_def my_fflush_def file_ok_def Let_def simp del: upt_Suc)
qed

lemma fold_putc_text:
  "file_ok f \<Longrightarrow> file_text (fold (\<lambda>d. my_putc (g d)) ds f) = file_text f @ map g ds \<and>
     file_ok (fold (\<lambda>d. my_putc (g d)) ds f)"
  by (induction ds arbitrary: f) simp_all

text \<open>The reference text of a number: its digits without a leading zero.\<close>

function digits_of :: "nat \<Rightarrow> nat \<Rightarrow> nat list" where
  "digits_of base n = (if n = 0 \<or> base < 2 then [] else n mod base # digits_of base (n div base))"
  by auto
termination by (relation "measure snd") (auto intro: div_less_dividend)

declare digits_of.simps [simp del]

definition number_text :: "nat \<Rightarrow> nat \<Rightarrow> u8 list" where
  "number_text base n = (if n = 0 then [48] else map digit_chars (rev (digits_of base n)))"

lemma conv_digits: "2 \<le> unat base \<Longrightarrow> conv n base = Some (digits_of (unat base) (unat n))"
proof (induction "unat n" arbitrary: n rule: less_induct)
  case less
  show ?case
  proof (cases "n = 0")
    case True
    then show ?thesis by (subst conv.simps) (simp add: digits_of.simps)
  next
    case False
    then have "0 < unat n" by (simp add: unat_gt_0)
    then have "unat (n div base) < unat n" using less.prems by (simp add: unat_div)
    then have "conv (n div base) base = Some (digits_of (unat base) (unat (n div base)))"
      using less.hyps less.prems by blast
    then show ?thesis using False less.prems \<open>0 < unat n\<close>
      by (subst conv.simps, subst digits_of.simps) (simp add: unat_div unat_mod)
  qed
qed

lemma digits_of_value: "2 \<le> base \<Longrightarrow> digits_value base (digits_of base n) = n \<and> (\<forall>d \<in> set (digits_of base n). d < base)"
proof (induction base n rule: digits_of.induct)
  case (1 base n)
  then show ?case by (subst (1 2) digits_of.simps) auto
qed

lemma digits_of_last: "2 \<le> base \<Longrightarrow> 0 < n \<Longrightarrow> digits_of base n \<noteq> [] \<and> last (digits_of base n) \<noteq> 0"
proof (induction base n rule: digits_of.induct)
  case (1 base n)
  show ?case
  proof (cases "n div base = 0")
    case True
    then show ?thesis using "1.prems"
      by (subst (1 2) digits_of.simps) (simp add: digits_of.simps mod_less div_eq_0_iff)
  next
    case False
    then show ?thesis using 1 by (subst (1 2) digits_of.simps) (auto simp: not_less)
  qed
qed

text \<open>The text of a number is printed, and the result is one less than its length unless the number is zero.\<close>

lemma printnbr_text:
  assumes "file_ok f" "2 \<le> unat base"
  shows "\<exists>f'. my_printnbr_base n base f = Some (int (length (number_text (unat base) (unat n))) - of_bool (n \<noteq> 0), f') \<and>
    file_ok f' \<and> file_text f' = file_text f @ number_text (unat base) (unat n)"
proof (cases "n = 0")
  case True
  then show ?thesis using assms by (simp add: my_printnbr_base_def number_text_def)
next
  case False
  then have "unat n \<noteq> 0" by (simp add: unat_eq_0)
  then show ?thesis
    using False fold_putc_text [OF assms(1), of digit_chars "rev (digits_of (unat base) (unat n))"]
    by (simp add: my_printnbr_base_def conv_digits [OF assms(2)] number_text_def)
qed

subsection \<open>The reference formatter\<close>

definition conversion_text :: "u8 \<Rightarrow> u_arg \<Rightarrow> u8 list option" where
  "conversion_text ch arg =
     (case arg of
        Ptr s \<Rightarrow> if ch = 115 then map_option (\<lambda>n. map s [0..<n]) (pok_strlen s) else None
      | Num v \<Rightarrow>
          if ch = 100 \<or> ch = 105
          then if sint v = - (2 ^ 63) then None
               else if sint v < 0 then Some (45 # number_text 10 (nat (- sint v)))
               else Some (number_text 10 (unat v))
          else if ch = 117 then Some (number_text 10 (unat v))
          else if ch = 111 then Some (number_text 8 (unat v))
          else if ch = 120 then Some (number_text 16 (unat v))
          else if ch = 99 then Some [ucast v] else None)"

definition size_modifier :: "u8 list \<Rightarrow> integer_size_t \<times> u8 list" where
  "size_modifier cs =
     (case cs of [] \<Rightarrow> (SIZE_INT, [])
      | c # r \<Rightarrow>
          if c = 104 then (case r of d # r' \<Rightarrow> if d = 104 then (SIZE_CHAR, r') else (SIZE_SHORT, r) | [] \<Rightarrow> (SIZE_SHORT, []))
          else if c = 108
          then (case r of d # r' \<Rightarrow> if d = 108 then (SIZE_LONG_LONG, r') else (SIZE_LONG, r) | [] \<Rightarrow> (SIZE_LONG, []))
          else (SIZE_INT, cs))"

lemma size_modifier_less: "size_modifier cs = (sz, ch # rest) \<Longrightarrow> length rest < length cs"
  by (auto simp: size_modifier_def split: list.splits if_splits)

text \<open>The text of a format and its arguments; \<open>None\<close> when the format ends in a modifier or an argument does not fit.\<close>

function render :: "bool \<Rightarrow> u8 list \<Rightarrow> va_arg list \<Rightarrow> u8 list option" where
  "render asserts cs args =
     (case cs of [] \<Rightarrow> Some []
      | c # r \<Rightarrow>
          if c \<noteq> 37 then map_option ((#) c) (render asserts r args)
          else (case r of [] \<Rightarrow> Some []
            | d # r' \<Rightarrow>
                if d = 37 then map_option ((#) 37) (render asserts r' args)
                else (case size_modifier r of
                   (sz, []) \<Rightarrow> None
                 | (sz, ch # rest) \<Rightarrow>
                     if known_conversion ch
                     then do {
                       (arg, args') \<leftarrow> conversion_arg ch sz args;
                       out \<leftarrow> conversion_text ch arg;
                       map_option ((@) out) (render asserts rest args')
                     }
                     else if asserts then None
                     else map_option ((#) ch) (render asserts rest args))))"
  by pat_completeness auto
termination
  by (relation "measure (\<lambda>(asserts, cs, args). length cs)") (auto dest!: size_modifier_less [OF sym])

declare render.simps [simp del]

subsection \<open>The printed text is that of the reference formatter\<close>

lemma print_str_text:
  assumes "cstring s n" "i \<le> n" "file_ok f"
  shows "\<exists>f'. print_str_loop s i f = Some (int n, f') \<and> file_ok f' \<and> file_text f' = file_text f @ map s [i..<n]"
  using assms(2,3)
proof (induction "n - i" arbitrary: i f)
  case 0
  then show ?case using assms(1) by (subst print_str_loop.simps) (simp add: cstring_def)
next
  case (Suc d)
  then have i: "i < n" "s i \<noteq> 0" "d = n - (i + 1)" "i + 1 \<le> n" using assms(1) by (simp_all add: cstring_def)
  then obtain f' where "print_str_loop s (i + 1) (my_putc (s i) f) = Some (int n, f')" "file_ok f'"
    "file_text f' = file_text (my_putc (s i) f) @ map s [i + 1..<n]"
    using Suc.hyps(1) [OF i(3,4) my_putc_text(2) [OF Suc.prems(2)]] by blast
  then show ?case using i Suc.prems(2) by (subst print_str_loop.simps) (simp add: upt_conv_Cons)
qed

lemma strlen_loop_cstring:
  assumes "strlen_loop s i = Some n"
  shows "i \<le> n \<and> s n = 0 \<and> (\<forall>k. i \<le> k \<and> k < n \<longrightarrow> s k \<noteq> 0)"
proof (rule strlen_loop.raw_induct [OF _ assms])
  fix strlen :: "(nat \<Rightarrow> u8) \<Rightarrow> nat \<Rightarrow> nat option" and str i y
  assume IH: "\<And>str i y. strlen str i = Some y \<Longrightarrow> i \<le> y \<and> str y = 0 \<and> (\<forall>k. i \<le> k \<and> k < y \<longrightarrow> str k \<noteq> (0 :: u8))"
    and step: "(if str i \<noteq> 0 then strlen str (i + 1) else Some i) = Some y"
  show "i \<le> y \<and> str y = 0 \<and> (\<forall>k. i \<le> k \<and> k < y \<longrightarrow> str k \<noteq> 0)"
  proof (cases "str i = 0")
    case True
    then show ?thesis using step by auto
  next
    case False
    then have "i + 1 \<le> y \<and> str y = 0 \<and> (\<forall>k. i + 1 \<le> k \<and> k < y \<longrightarrow> str k \<noteq> 0)" using IH step by simp
    then show ?thesis using False by (metis Suc_eq_plus1 Suc_leD le_eq_less_or_eq Suc_leI)
  qed
qed

lemma strlen_is_cstring: "pok_strlen s = Some n \<Longrightarrow> cstring s n"
  using strlen_loop_cstring [of s 0 n] by (simp add: pok_strlen_def cstring_def)

lemma unat_negative: "sint (v :: u64) < 0 \<Longrightarrow> sint v \<noteq> - (2 ^ 63) \<Longrightarrow> unat (- v) = nat (- sint v)"
proof -
  assume v: "sint v < 0" "sint v \<noteq> - (2 ^ 63)"
  have ge: "- (2 ^ 63) \<le> sint v" using sint_ge [of v] by simp
  have "- v = word_of_int (- sint v)" by simp
  then have "uint (- v) = uint (word_of_int (- sint v) :: u64)" by metis
  also have "\<dots> = take_bit 64 (- sint v)" by (simp only: uint_word_of_int_eq) simp
  also have "\<dots> = - sint v" using v ge by (intro take_bit_int_eq_self) simp_all
  finally show ?thesis by (simp add: unat_eq_nat_uint)
qed

lemma special_char_text:
  assumes "known_conversion ch" "conversion_text ch arg = Some out" "file_ok f"
  shows "\<exists>n f'. special_char ch arg f = Some (n, f') \<and> file_ok f' \<and> file_text f' = file_text f @ out"
proof (cases arg)
  case (Ptr s)
  then have ch: "ch = 115" and "\<exists>n. pok_strlen s = Some n \<and> out = map s [0..<n]"
    using assms(2) by (auto simp: conversion_text_def split: if_splits)
  then obtain n where n: "cstring s n" "out = map s [0..<n]" using strlen_is_cstring by blast
  from print_str_text [OF n(1) _ assms(3), of 0] show ?thesis
    using Ptr n(2) by (auto simp: special_char_def ch print_str_def)
next
  case (Num v)
  have pn: "\<exists>r f'. my_printnbr_base w base g = Some (r, f') \<and> file_ok f' \<and>
      file_text f' = file_text g @ number_text (unat base) (unat w)" if "2 \<le> unat base" "file_ok g" for w base g
    using printnbr_text [OF that(2,1), of w] by blast
  have zero: "number_text b (unat v) = [48]" if "v = 0" for b using that by (simp add: number_text_def)
  consider "ch = 100 \<or> ch = 105" | "ch = 117" | "ch = 111" | "ch = 120" | "ch = 99"
    using assms(1,2) Num by (auto simp: known_conversion_def conversion_text_def split: if_splits)
  then show ?thesis
  proof cases
    case 1
    have sc: "special_char ch arg f = print_int v True f" using 1 Num by (auto simp: special_char_def num_of_def)
    show ?thesis
    proof (cases "sint v < 0")
      case True
      then have v: "v \<noteq> 0" "sint v \<noteq> - (2 ^ 63)" "out = 45 # number_text 10 (nat (- sint v))"
        using assms(2) 1 Num by (auto simp: conversion_text_def split: if_splits)
      obtain r f' where "my_printnbr_base (- v) 10 (my_putc 45 f) = Some (r, f')" "file_ok f'"
        "file_text f' = file_text (my_putc 45 f) @ number_text 10 (unat (- v))"
        using pn [of 10 "my_putc 45 f" "- v"] assms(3) by auto
      then show ?thesis
        using True v unat_negative [OF True v(2)] assms(3) by (simp add: sc print_int_def)
    next
      case False
      then have "out = number_text 10 (unat v)"
        using assms(2) 1 Num by (auto simp: conversion_text_def split: if_splits)
      then show ?thesis
        using False pn [of 10 f v] zero assms(3) by (cases "v = 0") (auto simp: sc print_int_def)
    qed
  next
    case 2
    then show ?thesis using Num assms(2,3) pn [of 10 f v] zero
      by (cases "v = 0") (auto simp: special_char_def num_of_def print_int_def conversion_text_def)
  next
    case 3
    then show ?thesis using Num assms(2,3) pn [of 8 f v]
      by (auto simp: special_char_def num_of_def print_base_def conversion_text_def)
  next
    case 4
    then show ?thesis using Num assms(2,3) pn [of 16 f v]
      by (auto simp: special_char_def num_of_def print_base_def conversion_text_def)
  next
    case 5
    then show ?thesis using Num assms(2,3)
      by (auto simp: special_char_def num_of_def print_char_def conversion_text_def)
  qed
qed

lemma modifier_list:
  assumes "cstring fmt n" "i < n"
  shows "\<exists>sz j. check_size_modifier fmt i = (sz, j) \<and> i \<le> j \<and> j \<le> n \<and>
    size_modifier (map fmt [i..<n]) = (sz, map fmt [j..<n])"
proof -
  have c: "map fmt [i..<n] = fmt i # map fmt [i + 1..<n]" using assms(2) by (simp add: upt_conv_Cons)
  show ?thesis
  proof (cases "i + 1 = n")
    case True
    then have "fmt (i + 1) = 0" using assms(1) by (simp add: cstring_def)
    then show ?thesis using True by (simp add: c check_size_modifier_def size_modifier_def)
  next
    case False
    then have "map fmt [i + 1..<n] = fmt (i + 1) # map fmt [i + 2..<n]" using assms(2) by (simp add: upt_conv_Cons)
    then show ?thesis using c False assms(2) by (simp add: check_size_modifier_def size_modifier_def)
  qed
qed

definition loop_prints :: "bool \<Rightarrow> (nat \<Rightarrow> u8) \<Rightarrow> nat \<Rightarrow> va_arg list \<Rightarrow> int \<Rightarrow> s_file \<Rightarrow> u8 list \<Rightarrow> bool" where
  "loop_prints asserts fmt i args count f out =
     (\<exists>count' f'. vprintf_loop asserts fmt i args count f = Some (count', f') \<and> file_ok f' \<and> file_text f' = file_text f @ out)"

lemma loop_printsI:
  assumes "loop_prints asserts fmt j args' count' g out'" "file_text g @ out' = file_text f @ out"
    and "vprintf_loop asserts fmt i args count f = vprintf_loop asserts fmt j args' count' g"
  shows "loop_prints asserts fmt i args count f out"
  using assms by (simp add: loop_prints_def)

lemma vprintf_loop_text:
  assumes "cstring fmt n" "i \<le> n" "render asserts (map fmt [i..<n]) args = Some out" "file_ok f"
  shows "loop_prints asserts fmt i args count f out"
  using assms(2-4)
proof (induction "n - i" arbitrary: i args count f out rule: less_induct)
  case less
  note IH = less.hyps
  show ?case
  proof (cases "i = n")
    case True
    then show ?thesis using less.prems assms(1)
      unfolding loop_prints_def by (subst vprintf_loop.simps) (simp add: cstring_def render.simps)
  next
    case False
    then have i: "i < n" "fmt i \<noteq> 0" and cs: "map fmt [i..<n] = fmt i # map fmt [i + 1..<n]"
      using less.prems(1) assms(1) by (simp_all add: cstring_def upt_conv_Cons)
    show ?thesis
    proof (cases "fmt i = 37")
      case False
      then obtain t where t: "render asserts (map fmt [i + 1..<n]) args = Some t" "out = fmt i # t"
        using less.prems(2) unfolding cs by (subst (asm) render.simps) auto
      have "loop_prints asserts fmt (i + 1) args (count + 1) (my_putc (fmt i) f) t"
        using i less.prems(3) t(1) by (intro IH) simp_all
      then show ?thesis
        by (rule loop_printsI) (use i False less.prems(3) t(2) in \<open>(simp, subst vprintf_loop.simps, simp)\<close>)
    next
      case pct: True
      show ?thesis
      proof (cases "i + 1 = n")
        case True
        then have "fmt (i + 1) = 0" "out = []"
          using assms(1) less.prems(2) pct unfolding cs by (simp_all add: cstring_def render.simps)
        then show ?thesis using i pct less.prems(3)
          unfolding loop_prints_def by (subst vprintf_loop.simps) simp
      next
        case False
        then have i1: "i + 1 < n" "fmt (i + 1) \<noteq> 0" and r: "map fmt [i + 1..<n] = fmt (i + 1) # map fmt [i + 2..<n]"
          using i assms(1) by (simp_all add: cstring_def upt_conv_Cons)
        show ?thesis
        proof (cases "fmt (i + 1) = 37")
          case True
          then obtain t where t: "render asserts (map fmt [i + 2..<n]) args = Some t" "out = 37 # t"
            using less.prems(2) pct unfolding cs r by (subst (asm) render.simps) auto
          have "loop_prints asserts fmt (i + 2) args (count + 1) (my_putc (fmt (i + 1)) f) t"
            using i1 less.prems(3) t(1) by (intro IH) simp_all
          then show ?thesis
            by (rule loop_printsI) (use i i1 True pct less.prems(3) t(2) in \<open>(simp, subst vprintf_loop.simps, simp)\<close>)
        next
          case spec: False
          obtain sz j where j: "check_size_modifier fmt (i + 1) = (sz, j)" "i + 1 \<le> j" "j \<le> n"
            "size_modifier (map fmt [i + 1..<n]) = (sz, map fmt [j..<n])"
            using modifier_list [OF assms(1) i1(1)] by blast
          have rend: "render asserts (map fmt [i..<n]) args = (case map fmt [j..<n] of [] \<Rightarrow> None | ch # rest \<Rightarrow>
              if known_conversion ch
              then do {
                (arg, args') \<leftarrow> conversion_arg ch sz args;
                out \<leftarrow> conversion_text ch arg;
                map_option ((@) out) (render asserts rest args')
              }
              else if asserts then None else map_option ((#) ch) (render asserts rest args))"
            using pct spec j(4) unfolding cs r by (subst render.simps) (simp split: list.splits)
          then have "j \<noteq> n" using less.prems(2) by auto
          then have jn: "j < n" "map fmt [j..<n] = fmt j # map fmt [j + 1..<n]" using j(3) by (simp_all add: upt_conv_Cons)
          show ?thesis
          proof (cases "known_conversion (fmt j)")
            case True
            then obtain arg args' tx t where c: "conversion_arg (fmt j) sz args = Some (arg, args')"
              "conversion_text (fmt j) arg = Some tx" "render asserts (map fmt [j + 1..<n]) args' = Some t" "out = tx @ t"
              using less.prems(2) unfolding rend jn(2) by (auto split: Option.bind_splits)
            obtain k g where g: "special_char (fmt j) arg f = Some (k, g)" "file_ok g" "file_text g = file_text f @ tx"
              using special_char_text [OF True c(2) less.prems(3)] by blast
            have "loop_prints asserts fmt (j + 1) args' (count + k) g t"
              using j(2) jn(1) g(2) c(3) by (intro IH) simp_all
            then show ?thesis
              by (rule loop_printsI)
                (use i i1 spec pct g c True j(1) in \<open>(simp, subst vprintf_loop.simps, simp)\<close>)
          next
            case False
            then obtain t where t: "\<not> asserts" "render asserts (map fmt [j + 1..<n]) args = Some t" "out = fmt j # t"
              using less.prems(2) unfolding rend jn(2) by (auto split: if_splits)
            have "loop_prints asserts fmt (j + 1) args (count + 1) (my_putc (fmt j) f) t"
              using j(2) jn(1) less.prems(3) t(2) by (intro IH) simp_all
            then show ?thesis
              by (rule loop_printsI)
                (use i i1 spec pct t False j(1) less.prems(3) in \<open>(simp, subst vprintf_loop.simps, simp)\<close>)
          qed
        qed
      qed
    qed
  qed
qed

text \<open>C17: What \<open>printf\<close> writes is the text of its format and arguments as the reference formatter gives it,
  whatever its length: the blocks it hands to the console are full buffers but for the last one, and put together they are
  that text.\<close>

theorem vprintf_renders:
  assumes "cstring fmt n" "render asserts (map fmt [0..<n]) args = Some out"
  shows "\<exists>count blocks. vprintf asserts fmt args = Some (count, blocks) \<and> concat blocks = out \<and> blocks \<noteq> [] \<and>
    (\<forall>b \<in> set (butlast blocks). length b = MY_BUF_SIZE) \<and> length (last blocks) < MY_BUF_SIZE"
proof -
  let ?f = "\<lparr>f_buff = (\<lambda>_. 0), f_pos = 0, f_written = []\<rparr>"
  have f: "file_ok ?f" "file_text ?f = []" by (simp_all add: file_ok_def file_text_def MY_BUF_SIZE_def)
  obtain count f' where "vprintf_loop asserts fmt 0 args 0 ?f = Some (count, f')" "file_ok f'" "file_text f' = out"
    using vprintf_loop_text [OF assms(1) _ assms(2) f(1), of 0] f(2) by (auto simp: loop_prints_def)
  then show ?thesis
    by (auto simp: vprintf_def close_buffered_output_def my_fflush_def file_ok_def file_text_def)
qed

text \<open>\<open>%d\<close> followed by \<open>!\<close>.\<close>

definition demo_format :: "nat \<Rightarrow> u8" where
  "demo_format i = (if i = 0 then 37 else if i = 1 then 100 else if i = 2 then 33 else 0)"

lemma vprintf_renders_witness:
  "\<exists>count blocks. vprintf True demo_format [VA_int (- 42)] = Some (count, blocks) \<and> concat blocks = [45, 52, 50, 33]"
proof -
  have c: "cstring demo_format 3" by (auto simp: cstring_def demo_format_def)
  have m: "map demo_format [0..<3] = [37, 100, 33]" by (simp add: demo_format_def upt_rec)
  have "render True (map demo_format [0..<3]) [VA_int (- 42)] = Some [45, 52, 50, 33]"
    unfolding m
    by (simp add: render.simps size_modifier_def known_conversion_def conversion_arg_def signed_arg_def va_int_def
        conversion_text_def number_text_def digits_of.simps digit_chars_def)
  from vprintf_renders [OF c this] show ?thesis by blast
qed

text \<open>The result of \<open>printf\<close> is not the number of characters: a number counts one less than its digits, unless it is zero.\<close>

lemma print_number_count:
  assumes "file_ok f" "v \<noteq> 0"
  shows "\<exists>f'. print_int v False f = Some (int (length (number_text 10 (unat v))) - 1, f') \<and>
    file_text f' = file_text f @ number_text 10 (unat v)"
  using printnbr_text [OF assms(1), of 10 v] assms(2) by (auto simp: print_int_def)

end
