(* ===== verification/Pok_Allocator.thy ===== *)
theory Pok_Allocator
  imports Pok_Prelude
begin

text \<open>
  The memory allocator of a partition (\<open>libpok/core/allocator.c\<close>) and the functions of
  \<open>libpok/libc/stdlib\<close> on top of it. The allocator cuts one array of bytes into spaces, kept in a table
  of fixed length: the first \<open>used_spaces\<close> entries are in use. An address is the offset in the array,
  a null pointer is \<open>None\<close>.

  The table is moved up by one entry when a space is deleted, and the last step reads the entry behind its
  end: what the machine finds there is a parameter.
\<close>

subsection \<open>The table of spaces\<close>

record pok_allocator_space_t =
  sp_start :: u32
  sp_size :: u32
  sp_allocated :: u32

record alloc_config =
  ALLOCATOR_MEMORY_SIZE :: u32
  ALLOCATOR_NB_SPACES :: nat
  behind_spaces :: pok_allocator_space_t

record allocator =
  al_spaces :: "pok_allocator_space_t list"
  al_used :: u32
  al_initialized :: bool

definition empty_space :: pok_allocator_space_t where
  "empty_space = \<lparr>sp_start = 0, sp_size = 0, sp_allocated = 0\<rparr>"

definition POK_ALLOCATOR_CHECK_INIT :: "alloc_config \<Rightarrow> allocator \<Rightarrow> allocator" where
  "POK_ALLOCATOR_CHECK_INIT c a =
     (if al_initialized a then a
      else let cleared = fold (\<lambda>toto sp. sp[toto := empty_space]) [0..<ALLOCATOR_NB_SPACES c] (al_spaces a)
           in \<lparr>al_spaces = cleared[0 := \<lparr>sp_start = 0, sp_size = ALLOCATOR_MEMORY_SIZE c, sp_allocated = 0\<rparr>],
               al_used = 1, al_initialized = True\<rparr>)"

subsection \<open>Allocation\<close>

definition suits :: "u32 \<Rightarrow> pok_allocator_space_t \<Rightarrow> bool" where
  "suits needed_size sp = (sp_allocated sp = 0 \<and> needed_size \<le> sp_size sp)"

text \<open>A space of exactly the size that is asked for is taken as it is, a larger one is cut in two.\<close>

definition take_space :: "u32 \<Rightarrow> nat \<Rightarrow> allocator \<Rightarrow> allocator" where
  "take_space needed_size space a =
     (let sp = al_spaces a ! space; new_space = unat (al_used a)
      in if sp_size sp = needed_size
         then a\<lparr>al_spaces := (al_spaces a)[space := sp\<lparr>sp_allocated := 1\<rparr>]\<rparr>
         else a\<lparr>al_used := al_used a + 1,
                al_spaces := (al_spaces a)[space := sp\<lparr>sp_allocated := 1, sp_size := needed_size\<rparr>,
                  new_space := \<lparr>sp_start = sp_start sp + needed_size, sp_size = sp_size sp - needed_size,
                                sp_allocated = 0\<rparr>]\<rparr>)"

definition pok_allocator_allocate :: "alloc_config \<Rightarrow> u32 \<Rightarrow> allocator \<Rightarrow> u32 option \<times> allocator" where
  "pok_allocator_allocate c needed_size a0 =
     (let a = POK_ALLOCATOR_CHECK_INIT c a0
      in if unat (al_used a) \<ge> ALLOCATOR_NB_SPACES c - 1 then (None, a)
         else case find (\<lambda>space. suits needed_size (al_spaces a ! space)) [0..<unat (al_used a)] of
                None \<Rightarrow> (None, a)
              | Some space \<Rightarrow> (Some (sp_start (al_spaces a ! space)), take_space needed_size space a))"

subsection \<open>Release\<close>

definition pok_allocator_delete_space :: "alloc_config \<Rightarrow> nat \<Rightarrow> allocator \<Rightarrow> allocator" where
  "pok_allocator_delete_space c space a =
     a\<lparr>al_spaces := fold (\<lambda>tmp sp. sp[tmp := (sp @ [behind_spaces c]) ! Suc tmp]) [space..<ALLOCATOR_NB_SPACES c] (al_spaces a),
       al_used := al_used a - 1\<rparr>"

text \<open>The two ways in which a space can be the neighbour of a free one: behind it, or in front of it.\<close>

definition behind_other :: "nat \<Rightarrow> pok_allocator_space_t list \<Rightarrow> nat \<Rightarrow> bool" where
  "behind_other space sps space2 = (sp_start (sps ! space) = sp_start (sps ! space2) + sp_size (sps ! space2))"

definition before_other :: "nat \<Rightarrow> pok_allocator_space_t list \<Rightarrow> nat \<Rightarrow> bool" where
  "before_other space sps space2 = (sp_start (sps ! space2) = sp_start (sps ! space) + sp_size (sps ! space))"

definition mergeable :: "nat \<Rightarrow> pok_allocator_space_t list \<Rightarrow> nat \<Rightarrow> bool" where
  "mergeable space sps space2 =
     (space2 \<noteq> space \<and> sp_allocated (sps ! space2) \<noteq> 1 \<and> (behind_other space sps space2 \<or> before_other space sps space2))"

definition grow_space :: "nat \<Rightarrow> nat \<Rightarrow> allocator \<Rightarrow> allocator" where
  "grow_space k by a =
     a\<lparr>al_spaces := (al_spaces a)[k := (al_spaces a ! k)\<lparr>sp_size := sp_size (al_spaces a ! k) + sp_size (al_spaces a ! by)\<rparr>]\<rparr>"

definition merge_step :: "alloc_config \<Rightarrow> nat \<Rightarrow> nat \<Rightarrow> allocator \<Rightarrow> allocator" where
  "merge_step c space space2 a =
     (if behind_other space (al_spaces a) space2
      then pok_allocator_delete_space c space (grow_space space2 space a)
      else pok_allocator_delete_space c space2 (grow_space space space2 a))"

lemma merge_step_used [simp]: "al_used (merge_step c space space2 a) = al_used a - 1"
  by (simp add: merge_step_def pok_allocator_delete_space_def grow_space_def)

text \<open>After a merge the function goes on with the index of the other space, whichever of the two was kept.\<close>

function pok_allocator_merge_space :: "alloc_config \<Rightarrow> nat \<Rightarrow> allocator \<Rightarrow> allocator" where
  "pok_allocator_merge_space c space a =
     (if al_used a = 1 then a
      else case find (mergeable space (al_spaces a)) [0..<unat (al_used a)] of
             None \<Rightarrow> a
           | Some space2 \<Rightarrow> pok_allocator_merge_space c space2 (merge_step c space space2 a))"
  by auto
termination
proof (relation "measure (\<lambda>(c, space, a). unat (al_used a))", goal_cases)
  case (2 c space a space2)
  then have "unat (al_used a) \<noteq> 0" by (auto dest: find_SomeD(1))
  then have "unat (al_used a - 1) < unat (al_used a)" by (simp add: unat_minus_one unat_gt_0 [symmetric])
  then show ?case by simp
qed simp

declare pok_allocator_merge_space.simps [simp del]

definition pok_allocator_free :: "alloc_config \<Rightarrow> u32 option \<Rightarrow> allocator \<Rightarrow> allocator" where
  "pok_allocator_free c ptr a0 =
     (let a = POK_ALLOCATOR_CHECK_INIT c a0
      in case find (\<lambda>space. ptr = Some (sp_start (al_spaces a ! space))) [0..<unat (al_used a)] of
           None \<Rightarrow> a
         | Some space \<Rightarrow> pok_allocator_merge_space c space
             (a\<lparr>al_spaces := (al_spaces a)[space := (al_spaces a ! space)\<lparr>sp_allocated := 0\<rparr>]\<rparr>))"

subsection \<open>The functions of the C library\<close>

definition user_malloc :: "alloc_config \<Rightarrow> u32 \<Rightarrow> allocator \<Rightarrow> u32 option \<times> allocator" where
  "user_malloc c sz = pok_allocator_allocate c sz"

definition user_calloc :: "alloc_config \<Rightarrow> u32 \<Rightarrow> u32 \<Rightarrow> allocator \<Rightarrow> u32 option \<times> allocator" where
  "user_calloc c count sz = pok_allocator_allocate c (count * sz)"

definition user_free :: "alloc_config \<Rightarrow> u32 option \<Rightarrow> allocator \<Rightarrow> allocator" where
  "user_free c ptr = pok_allocator_free c ptr"

subsection \<open>Addresses and spaces\<close>

text \<open>How many spaces of a list contain an address.\<close>

definition covers :: "nat \<Rightarrow> pok_allocator_space_t \<Rightarrow> bool" where
  "covers x sp = (unat (sp_start sp) \<le> x \<and> x < unat (sp_start sp) + unat (sp_size sp))"

definition cover_count :: "nat \<Rightarrow> pok_allocator_space_t list \<Rightarrow> nat" where
  "cover_count x sps = length (filter (covers x) sps)"

definition in_memory :: "alloc_config \<Rightarrow> pok_allocator_space_t \<Rightarrow> bool" where
  "in_memory c sp = (unat (sp_start sp) + unat (sp_size sp) \<le> unat (ALLOCATOR_MEMORY_SIZE c))"

text \<open>
  The invariant: the table has its length, some entry is in use and the last is not, every space lies in
  the array, and no address is in two spaces, those behind the last used one included.
\<close>

definition alloc_ok :: "alloc_config \<Rightarrow> allocator \<Rightarrow> bool" where
  "alloc_ok c a = (length (al_spaces a) = ALLOCATOR_NB_SPACES c \<and> 0 < unat (al_used a) \<and>
     unat (al_used a) < ALLOCATOR_NB_SPACES c \<and> (\<forall>sp \<in> set (al_spaces a). in_memory c sp) \<and>
     (\<forall>x. cover_count x (al_spaces a) \<le> 1))"

text \<open>What is behind the table reads as an empty space.\<close>

definition quiet_behind :: "alloc_config \<Rightarrow> bool" where
  "quiet_behind c = (sp_size (behind_spaces c) = 0 \<and> sp_start (behind_spaces c) \<le> ALLOCATOR_MEMORY_SIZE c)"

lemma cover_count_Cons [simp]:
  "cover_count x [] = 0" "cover_count x (sp # sps) = of_bool (covers x sp) + cover_count x sps"
  by (simp_all add: cover_count_def)

lemma cover_count_append [simp]: "cover_count x (xs @ ys) = cover_count x xs + cover_count x ys"
  by (simp add: cover_count_def)

lemma cover_count_split:
  "k < length sps \<Longrightarrow> cover_count x sps = cover_count x (take k sps) + of_bool (covers x (sps ! k)) + cover_count x (drop (Suc k) sps)"
  using cover_count_append [of x "take k sps" "sps ! k # drop (Suc k) sps"] by (simp add: id_take_nth_drop [symmetric])

lemma cover_count_update:
  "k < length sps \<Longrightarrow>
   cover_count x (sps[k := sp]) + of_bool (covers x (sps ! k)) = cover_count x sps + of_bool (covers x sp)"
  using cover_count_split [of k sps x] by (simp add: upd_conv_take_nth_drop)

lemma covers_empty [simp]: "sp_size sp = 0 \<Longrightarrow> \<not> covers x sp"
  by (simp add: covers_def)

text \<open>Two entries of a table in which no address is covered twice are disjoint.\<close>

lemma two_covers:
  assumes "i < length sps" "j < length sps" "i \<noteq> j" "covers x (sps ! i)" "covers x (sps ! j)"
  shows "2 \<le> cover_count x sps"
proof -
  have two: "2 \<le> cover_count x sps"
    if "i < j" "j < length sps" "covers x (sps ! i)" "covers x (sps ! j)" for i j
  proof -
    have "0 < cover_count x (drop (Suc i) sps)"
    proof -
      have "sps ! j = drop (Suc i) sps ! (j - Suc i)" using that(1,2) by simp
      then have "sps ! j \<in> set (drop (Suc i) sps)" using that(1,2) by (metis length_drop diff_less_mono nth_mem Suc_leI)
      then show ?thesis using that(4) by (auto simp: cover_count_def filter_empty_conv)
    qed
    then show ?thesis using cover_count_split [of i sps x] that by simp
  qed
  show ?thesis using two [of i j] two [of j i] assms by (metis linorder_neqE_nat)
qed

text \<open>The first address of a space that is not empty is in no other.\<close>

lemma spaces_apart:
  assumes "alloc_ok c a" "i < ALLOCATOR_NB_SPACES c" "j < ALLOCATOR_NB_SPACES c" "i \<noteq> j"
    and "covers x (al_spaces a ! i)"
  shows "\<not> covers x (al_spaces a ! j)"
proof
  assume j: "covers x (al_spaces a ! j)"
  have "2 \<le> cover_count x (al_spaces a)"
    using assms j by (intro two_covers [of i _ j]) (simp_all add: alloc_ok_def)
  then show False using assms(1) by (auto simp: alloc_ok_def dest: spec [of _ x])
qed

lemma covers_start: "0 < sp_size sp \<Longrightarrow> covers (unat (sp_start sp)) sp"
  by (simp add: covers_def unat_gt_0 [symmetric] word_neq_0_conv [symmetric])

lemma starts_differ:
  assumes "alloc_ok c a" "i < ALLOCATOR_NB_SPACES c" "j < ALLOCATOR_NB_SPACES c" "i \<noteq> j"
    and "0 < sp_size (al_spaces a ! i)" "0 < sp_size (al_spaces a ! j)"
  shows "sp_start (al_spaces a ! i) \<noteq> sp_start (al_spaces a ! j)"
  using spaces_apart [OF assms(1-4) covers_start [OF assms(5)]] covers_start [OF assms(6)] by auto

lemma in_memory_unat_add:
  "in_memory c sp \<Longrightarrow> unat (sp_start sp + sp_size sp) = unat (sp_start sp) + unat (sp_size sp)"
  using unsigned_less [where 'a = nat, of "ALLOCATOR_MEMORY_SIZE c"]
  by (simp add: in_memory_def unat_word_ariths)

subsection \<open>The first call\<close>

lemma fold_clear: "n \<le> length sps \<Longrightarrow> fold (\<lambda>i sp. sp[i := e]) [0..<n] sps = replicate n e @ drop n sps"
proof (induction n)
  case (Suc n)
  then have "drop n sps = sps ! n # drop (Suc n) sps" by (simp add: Cons_nth_drop_Suc)
  then show ?case using Suc by (simp add: list_update_append replicate_append_same [symmetric])
qed simp

lemma cleared_table:
  "length (al_spaces a) = ALLOCATOR_NB_SPACES c \<Longrightarrow> \<not> al_initialized a \<Longrightarrow> 0 < ALLOCATOR_NB_SPACES c \<Longrightarrow>
   POK_ALLOCATOR_CHECK_INIT c a =
     \<lparr>al_spaces = \<lparr>sp_start = 0, sp_size = ALLOCATOR_MEMORY_SIZE c, sp_allocated = 0\<rparr> #
        replicate (ALLOCATOR_NB_SPACES c - 1) empty_space, al_used = 1, al_initialized = True\<rparr>"
  by (cases "ALLOCATOR_NB_SPACES c") (simp_all add: POK_ALLOCATOR_CHECK_INIT_def Let_def fold_clear del: upt_Suc)

lemma cover_count_replicate [simp]: "cover_count x (replicate n empty_space) = 0"
  by (simp add: cover_count_def empty_space_def)

text \<open>A table that was not used yet, or one that satisfies the invariant.\<close>

definition alloc_ready :: "alloc_config \<Rightarrow> allocator \<Rightarrow> bool" where
  "alloc_ready c a = (if al_initialized a then alloc_ok c a
     else length (al_spaces a) = ALLOCATOR_NB_SPACES c \<and> 2 \<le> ALLOCATOR_NB_SPACES c)"

lemma check_init_ok:
  assumes "alloc_ready c a"
  shows "alloc_ok c (POK_ALLOCATOR_CHECK_INIT c a)" "al_initialized (POK_ALLOCATOR_CHECK_INIT c a)"
proof -
  have "alloc_ok c (POK_ALLOCATOR_CHECK_INIT c a) \<and> al_initialized (POK_ALLOCATOR_CHECK_INIT c a)"
  proof (cases "al_initialized a")
    case True
    then show ?thesis using assms by (simp add: alloc_ready_def POK_ALLOCATOR_CHECK_INIT_def)
  next
    case False
    then have n: "length (al_spaces a) = ALLOCATOR_NB_SPACES c" "2 \<le> ALLOCATOR_NB_SPACES c"
      using assms by (simp_all add: alloc_ready_def)
    then show ?thesis using False
      by (auto simp: cleared_table alloc_ok_def in_memory_def empty_space_def
          cover_count_replicate [unfolded empty_space_def])
  qed
  then show "alloc_ok c (POK_ALLOCATOR_CHECK_INIT c a)" "al_initialized (POK_ALLOCATOR_CHECK_INIT c a)"
    by simp_all
qed

subsection \<open>Allocation keeps the spaces apart\<close>

lemma alloc_okI:
  assumes "length (al_spaces a) = ALLOCATOR_NB_SPACES c" "0 < unat (al_used a)"
    and "unat (al_used a) < ALLOCATOR_NB_SPACES c" "\<forall>sp \<in> set (al_spaces a). in_memory c sp"
    and "\<And>x. cover_count x (al_spaces a) \<le> 1"
  shows "alloc_ok c a"
  using assms by (simp add: alloc_ok_def)

lemma in_memory_at: "alloc_ok c a \<Longrightarrow> k < ALLOCATOR_NB_SPACES c \<Longrightarrow> in_memory c (al_spaces a ! k)"
  by (simp add: alloc_ok_def)

lemma all_update: "\<forall>s \<in> set sps. P s \<Longrightarrow> P sp \<Longrightarrow> \<forall>s \<in> set (sps[k := sp]). P s"
  using set_update_subset_insert [of sps k sp] by auto

text \<open>Cutting a space in two covers the same addresses, each of them as often as before.\<close>

lemma covers_cut:
  assumes "in_memory c sp" "n \<le> sp_size sp"
  shows "of_bool (covers x (sp\<lparr>sp_allocated := v, sp_size := n\<rparr>)) +
      of_bool (covers x \<lparr>sp_start = sp_start sp + n, sp_size = sp_size sp - n, sp_allocated = w\<rparr>) =
    (of_bool (covers x sp) :: nat)"
    and "in_memory c (sp\<lparr>sp_allocated := v, sp_size := n\<rparr>)"
    and "in_memory c \<lparr>sp_start = sp_start sp + n, sp_size = sp_size sp - n, sp_allocated = w\<rparr>"
proof -
  have n: "unat n \<le> unat (sp_size sp)" using assms(2) by (simp add: word_le_nat_alt)
  have m: "unat (sp_size sp - n) = unat (sp_size sp) - unat n" using assms(2) by (simp add: unat_sub word_le_nat_alt)
  have "unat (sp_start sp) + unat n < 2 ^ LENGTH(32)"
    using assms(1) n unsigned_less [where 'a = nat, of "ALLOCATOR_MEMORY_SIZE c"] by (simp add: in_memory_def)
  then have s: "unat (sp_start sp + n) = unat (sp_start sp) + unat n" by (simp add: unat_word_ariths)
  show "of_bool (covers x (sp\<lparr>sp_allocated := v, sp_size := n\<rparr>)) +
      of_bool (covers x \<lparr>sp_start = sp_start sp + n, sp_size = sp_size sp - n, sp_allocated = w\<rparr>) =
    (of_bool (covers x sp) :: nat)"
    using n by (auto simp: covers_def s m)
  show "in_memory c (sp\<lparr>sp_allocated := v, sp_size := n\<rparr>)"
    "in_memory c \<lparr>sp_start = sp_start sp + n, sp_size = sp_size sp - n, sp_allocated = w\<rparr>"
    using assms(1) n by (simp_all add: in_memory_def s m)
qed

lemma covers_allocated [simp]: "covers x (sp\<lparr>sp_allocated := v\<rparr>) = covers x sp"
  by (simp add: covers_def)

lemma in_memory_allocated [simp]: "in_memory c (sp\<lparr>sp_allocated := v\<rparr>) = in_memory c sp"
  by (simp add: in_memory_def)

lemma mark_ok:
  assumes "alloc_ok c a" "k < ALLOCATOR_NB_SPACES c"
  shows "alloc_ok c (a\<lparr>al_spaces := (al_spaces a)[k := (al_spaces a ! k)\<lparr>sp_allocated := v\<rparr>]\<rparr>)"
proof (rule alloc_okI)
  fix x
  show "cover_count x (al_spaces (a\<lparr>al_spaces := (al_spaces a)[k := (al_spaces a ! k)\<lparr>sp_allocated := v\<rparr>]\<rparr>)) \<le> 1"
    using cover_count_update [of k "al_spaces a" x "(al_spaces a ! k)\<lparr>sp_allocated := v\<rparr>"] assms
    by (simp add: alloc_ok_def)
qed (use assms all_update [of "al_spaces a" "in_memory c" "(al_spaces a ! k)\<lparr>sp_allocated := v\<rparr>" k] in
    \<open>simp_all add: alloc_ok_def\<close>)

lemma used_Suc: "alloc_ok c a \<Longrightarrow> unat (al_used a) < ALLOCATOR_NB_SPACES c - 1 \<Longrightarrow> ALLOCATOR_NB_SPACES c < 2 ^ 32 \<Longrightarrow>
    unat (al_used a + 1) = Suc (unat (al_used a))"
  by (simp add: unat_word_ariths)

lemma take_space_ok:
  assumes "alloc_ok c a" "k < unat (al_used a)" "suits n (al_spaces a ! k)"
    and "unat (al_used a) < ALLOCATOR_NB_SPACES c - 1" "ALLOCATOR_NB_SPACES c < 2 ^ 32"
  shows "alloc_ok c (take_space n k a)"
proof -
  let ?sp = "al_spaces a ! k" and ?u = "unat (al_used a)"
  have k: "k < ALLOCATOR_NB_SPACES c" using assms(2,4) by simp
  show ?thesis
  proof (cases "sp_size ?sp = n")
    case True
    then show ?thesis using mark_ok [OF assms(1) k] by (simp add: take_space_def Let_def)
  next
    case False
    let ?low = "?sp\<lparr>sp_allocated := 1, sp_size := n\<rparr>"
    let ?high = "\<lparr>sp_start = sp_start ?sp + n, sp_size = sp_size ?sp - n, sp_allocated = 0\<rparr>"
    let ?t = "(al_spaces a)[k := ?low, ?u := ?high]"
    have t: "take_space n k a = a\<lparr>al_used := al_used a + 1, al_spaces := ?t\<rparr>"
      using False by (simp add: take_space_def Let_def)
    have len: "length (al_spaces a) = ALLOCATOR_NB_SPACES c" using assms(1) by (simp add: alloc_ok_def)
    note cut = covers_cut [OF in_memory_at [OF assms(1) k], of n]
    have le: "n \<le> sp_size ?sp" using assms(3) by (simp add: suits_def)
    have "\<forall>sp \<in> set ?t. in_memory c sp"
      using cut(2,3) [OF le] assms(1) by (intro all_update) (simp_all add: alloc_ok_def)
    moreover have "cover_count x ?t \<le> 1" for x
    proof -
      have "cover_count x ((al_spaces a)[k := ?low]) + of_bool (covers x ?sp) = cover_count x (al_spaces a) + of_bool (covers x ?low)"
        using k len by (intro cover_count_update) simp
      moreover have "cover_count x ?t + of_bool (covers x (al_spaces a ! ?u)) =
          cover_count x ((al_spaces a)[k := ?low]) + of_bool (covers x ?high)"
        using cover_count_update [of ?u "(al_spaces a)[k := ?low]" x ?high] assms(2,4) len by simp
      moreover have "of_bool (covers x ?low) + of_bool (covers x ?high) = (of_bool (covers x ?sp) :: nat)"
        by (rule cut(1) [OF le])
      moreover have "cover_count x (al_spaces a) \<le> 1" using assms(1) by (simp add: alloc_ok_def)
      ultimately show ?thesis by linarith
    qed
    ultimately show ?thesis
      unfolding t using assms(1,4) len used_Suc [OF assms(1,4,5)] by (intro alloc_okI) simp_all
  qed
qed

text \<open>What an allocation returns, on every branch.\<close>

lemma allocate_cases:
  assumes "alloc_ready c a0" "ALLOCATOR_NB_SPACES c < 2 ^ 32"
  defines "a \<equiv> POK_ALLOCATOR_CHECK_INIT c a0"
  obtains (none) "pok_allocator_allocate c n a0 = (None, a)"
      "ALLOCATOR_NB_SPACES c - 1 \<le> unat (al_used a) \<or> (\<forall>k < unat (al_used a). \<not> suits n (al_spaces a ! k))"
    | (some) k where "k < unat (al_used a)" "suits n (al_spaces a ! k)" "unat (al_used a) < ALLOCATOR_NB_SPACES c - 1"
      "pok_allocator_allocate c n a0 = (Some (sp_start (al_spaces a ! k)), take_space n k a)" "alloc_ok c (take_space n k a)"
      "\<forall>j < k. \<not> suits n (al_spaces a ! j)"
proof (cases "ALLOCATOR_NB_SPACES c - 1 \<le> unat (al_used a)")
  case True
  then show ?thesis using none by (simp add: pok_allocator_allocate_def a_def Let_def)
next
  case False
  let ?f = "find (\<lambda>k. suits n (al_spaces a ! k)) [0..<unat (al_used a)]"
  show ?thesis
  proof (cases ?f)
    case None
    then have "\<forall>k < unat (al_used a). \<not> suits n (al_spaces a ! k)" by (auto simp: find_None_iff)
    then show ?thesis using none False None by (simp add: pok_allocator_allocate_def a_def Let_def)
  next
    case (Some k)
    then have k: "k < unat (al_used a)" "suits n (al_spaces a ! k)" "\<forall>j < k. \<not> suits n (al_spaces a ! j)"
      by (auto simp: find_Some_iff)
    have "alloc_ok c (take_space n k a)"
      using check_init_ok(1) [OF assms(1)] k False assms(2) unfolding a_def by (intro take_space_ok) simp_all
    with k show ?thesis using some False Some by (simp add: pok_allocator_allocate_def a_def Let_def)
  qed
qed


subsection \<open>A release keeps the spaces apart\<close>

lemma fold_shift:
  assumes "length sps = n" "k \<le> n"
  shows "fold (\<lambda>tmp sp. sp[tmp := (sp @ [e]) ! Suc tmp]) [k..<n] sps =
    (if k < n then take k sps @ drop (Suc k) sps @ [e] else sps)"
  using assms
proof (induction "n - k" arbitrary: k sps)
  case (Suc d)
  then have k: "k < n" by simp
  let ?s1 = "sps[k := (sps @ [e]) ! Suc k]"
  have step: "fold (\<lambda>tmp sp. sp[tmp := (sp @ [e]) ! Suc tmp]) [k..<n] sps =
      fold (\<lambda>tmp sp. sp[tmp := (sp @ [e]) ! Suc tmp]) [Suc k..<n] ?s1"
    using k by (simp add: upt_conv_Cons)
  show ?case
  proof (cases "Suc k < n")
    case True
    have "drop (Suc k) sps = sps ! Suc k # drop (Suc (Suc k)) sps" using True Suc.prems(1) by (simp add: Cons_nth_drop_Suc)
    moreover have "take (Suc k) ?s1 = take k sps @ [sps ! Suc k]"
      using k True Suc.prems(1) by (simp add: take_Suc_conv_app_nth nth_append)
    ultimately show ?thesis
      using Suc.hyps(1) [of "Suc k" ?s1] Suc.hyps(2) Suc.prems k True unfolding step by simp
  next
    case False
    then have n: "n = Suc k" using k by simp
    then have "sps = take k sps @ [sps ! k]" using Suc.prems(1) by (simp add: take_Suc_conv_app_nth [symmetric])
    then show ?thesis using n Suc.prems(1) unfolding step
      by (simp add: upd_conv_take_nth_drop nth_append)
  qed
qed simp

lemma delete_space_spaces:
  "length (al_spaces a) = ALLOCATOR_NB_SPACES c \<Longrightarrow> k < ALLOCATOR_NB_SPACES c \<Longrightarrow>
   al_spaces (pok_allocator_delete_space c k a) = take k (al_spaces a) @ drop (Suc k) (al_spaces a) @ [behind_spaces c]"
  using fold_shift [of "al_spaces a" "ALLOCATOR_NB_SPACES c" k "behind_spaces c"]
  by (simp add: pok_allocator_delete_space_def)

text \<open>Two spaces, one directly behind the other, and the space they are merged into.\<close>

lemma covers_join:
  assumes "in_memory c s1" "in_memory c s2" "sp_start s2 = sp_start s1 + sp_size s1"
  shows "of_bool (covers x (s1\<lparr>sp_size := sp_size s1 + sp_size s2\<rparr>)) =
      of_bool (covers x s1) + (of_bool (covers x s2) :: nat)"
    and "in_memory c (s1\<lparr>sp_size := sp_size s1 + sp_size s2\<rparr>)"
proof -
  have b: "unat (sp_start s2) = unat (sp_start s1) + unat (sp_size s1)"
    using in_memory_unat_add [OF assms(1)] assms(3) by simp
  have "unat (sp_size s1) + unat (sp_size s2) < 2 ^ LENGTH(32)"
    using assms(2) b unsigned_less [where 'a = nat, of "ALLOCATOR_MEMORY_SIZE c"] by (simp add: in_memory_def)
  then have z: "unat (sp_size s1 + sp_size s2) = unat (sp_size s1) + unat (sp_size s2)" by (simp add: unat_word_ariths)
  show "of_bool (covers x (s1\<lparr>sp_size := sp_size s1 + sp_size s2\<rparr>)) =
      of_bool (covers x s1) + (of_bool (covers x s2) :: nat)"
    by (auto simp: covers_def b z)
  show "in_memory c (s1\<lparr>sp_size := sp_size s1 + sp_size s2\<rparr>)"
    using assms(2) by (simp add: in_memory_def b z)
qed

lemma absorb_ok:
  assumes "alloc_ok c a" "quiet_behind c" "1 < unat (al_used a)" "k < ALLOCATOR_NB_SPACES c" "d < ALLOCATOR_NB_SPACES c"
    and "k \<noteq> d" "sp_start (al_spaces a ! d) = sp_start (al_spaces a ! k) + sp_size (al_spaces a ! k)"
  shows "alloc_ok c (pok_allocator_delete_space c d (grow_space k d a))"
proof -
  let ?sps = "al_spaces a" and ?e = "behind_spaces c"
  let ?s = "(?sps ! k)\<lparr>sp_size := sp_size (?sps ! k) + sp_size (?sps ! d)\<rparr>"
  let ?g = "grow_space k d a"
  have len: "length ?sps = ALLOCATOR_NB_SPACES c" using assms(1) by (simp add: alloc_ok_def)
  have g: "al_spaces ?g = ?sps[k := ?s]" "al_used ?g = al_used a" by (simp_all add: grow_space_def)
  have del: "al_spaces (pok_allocator_delete_space c d ?g) = take d (?sps[k := ?s]) @ drop (Suc d) (?sps[k := ?s]) @ [?e]"
    using delete_space_spaces [of ?g c d] g len assms(5) by simp
  have mem: "in_memory c (?sps ! k)" "in_memory c (?sps ! d)" using in_memory_at [OF assms(1)] assms(4,5) by blast+
  note join = covers_join [OF mem assms(7)]
  have "in_memory c ?e" using assms(2) by (simp add: quiet_behind_def in_memory_def word_le_nat_alt)
  then have all: "\<forall>sp \<in> set (take d (?sps[k := ?s]) @ drop (Suc d) (?sps[k := ?s]) @ [?e]). in_memory c sp"
    using all_update [of ?sps "in_memory c" ?s k] join(2) assms(1)
    by (auto simp: alloc_ok_def dest: in_set_takeD in_set_dropD)
  have count: "cover_count x (take d (?sps[k := ?s]) @ drop (Suc d) (?sps[k := ?s]) @ [?e]) \<le> 1" for x
  proof -
    have "cover_count x (?sps[k := ?s]) = cover_count x (take d (?sps[k := ?s])) +
        of_bool (covers x (?sps ! d)) + cover_count x (drop (Suc d) (?sps[k := ?s]))"
      using cover_count_split [of d "?sps[k := ?s]" x] assms(4,5,6) len by simp
    moreover have "cover_count x (?sps[k := ?s]) + of_bool (covers x (?sps ! k)) = cover_count x ?sps + of_bool (covers x ?s)"
      using cover_count_update [of k ?sps x ?s] assms(4) len by simp
    moreover have "cover_count x ?sps \<le> 1" using assms(1) by (simp add: alloc_ok_def)
    moreover have "\<not> covers x ?e" using assms(2) by (simp add: quiet_behind_def)
    ultimately show ?thesis using join(1) [of x] by simp
  qed
  have "unat (al_used a - 1) = unat (al_used a) - 1"
    using assms(3) by (intro unat_minus_one) auto
  moreover have "unat (al_used a) - 1 < ALLOCATOR_NB_SPACES c" using assms(1) unfolding alloc_ok_def by linarith
  ultimately have used: "al_used (pok_allocator_delete_space c d ?g) = al_used a - 1"
    "0 < unat (al_used a - 1)" "unat (al_used a - 1) < ALLOCATOR_NB_SPACES c"
    using assms(3) by (simp_all add: pok_allocator_delete_space_def grow_space_def)
  show ?thesis
  proof (rule alloc_okI)
    show "length (al_spaces (pok_allocator_delete_space c d ?g)) = ALLOCATOR_NB_SPACES c"
      unfolding del using len assms(5) by simp
  qed (use used all count del in simp_all)
qed

lemma merge_step_ok:
  assumes "alloc_ok c a" "quiet_behind c" "al_used a \<noteq> 1" "k < ALLOCATOR_NB_SPACES c"
    and "k2 < unat (al_used a)" "mergeable k (al_spaces a) k2"
  shows "alloc_ok c (merge_step c k k2 a)"
proof -
  have "unat (al_used a) \<noteq> 1" using assms(3) by (metis unat_1 word_unat_eq_iff)
  then have u: "1 < unat (al_used a)" using assms(1) by (simp add: alloc_ok_def)
  have k2: "k2 < ALLOCATOR_NB_SPACES c" using assms(1,5) by (simp add: alloc_ok_def)
  show ?thesis
  proof (cases "behind_other k (al_spaces a) k2")
    case True
    then show ?thesis using absorb_ok [OF assms(1,2) u k2 assms(4)] assms(6)
      by (simp add: merge_step_def mergeable_def behind_other_def)
  next
    case False
    then show ?thesis using absorb_ok [OF assms(1,2) u assms(4) k2] assms(6)
      by (simp add: merge_step_def mergeable_def before_other_def)
  qed
qed

lemma merge_space_ok:
  "alloc_ok c a \<Longrightarrow> quiet_behind c \<Longrightarrow> k < ALLOCATOR_NB_SPACES c \<Longrightarrow> alloc_ok c (pok_allocator_merge_space c k a)"
proof (induction c k a rule: pok_allocator_merge_space.induct)
  case (1 c k a)
  show ?case
  proof (cases "al_used a = 1 \<or> find (mergeable k (al_spaces a)) [0..<unat (al_used a)] = None")
    case True
    then show ?thesis using "1.prems" by (subst pok_allocator_merge_space.simps) auto
  next
    case False
    then obtain k2 where k2: "find (mergeable k (al_spaces a)) [0..<unat (al_used a)] = Some k2" "al_used a \<noteq> 1" by auto
    then have m: "k2 < unat (al_used a)" "mergeable k (al_spaces a) k2" by (auto dest: find_SomeD)
    then have "k2 < ALLOCATOR_NB_SPACES c" using "1.prems"(1) by (simp add: alloc_ok_def)
    then have "alloc_ok c (pok_allocator_merge_space c k2 (merge_step c k k2 a))"
      using "1.IH" [OF k2(2,1) merge_step_ok [OF "1.prems"(1,2) k2(2) "1.prems"(3) m]] "1.prems"(2) by blast
    then show ?thesis using k2 by (subst pok_allocator_merge_space.simps) simp
  qed
qed

lemma free_ok:
  assumes "alloc_ready c a0" "quiet_behind c"
  shows "alloc_ok c (pok_allocator_free c ptr a0)"
proof -
  define a where "a = POK_ALLOCATOR_CHECK_INIT c a0"
  have ok: "alloc_ok c a" using check_init_ok(1) [OF assms(1)] by (simp add: a_def)
  show ?thesis
  proof (cases "find (\<lambda>k. ptr = Some (sp_start (al_spaces a ! k))) [0..<unat (al_used a)]")
    case None
    then show ?thesis using ok by (simp add: pok_allocator_free_def a_def [symmetric] Let_def)
  next
    case (Some k)
    then have "k < ALLOCATOR_NB_SPACES c" using ok by (auto simp: alloc_ok_def dest: find_SomeD(1))
    then show ?thesis using Some merge_space_ok [OF mark_ok [OF ok] assms(2)]
      by (simp add: pok_allocator_free_def a_def [symmetric] Let_def)
  qed
qed

lemma merge_space_initialized [simp]: "al_initialized (pok_allocator_merge_space c k a) = al_initialized a"
proof (induction c k a rule: pok_allocator_merge_space.induct)
  case (1 c k a)
  show ?case
    using "1.IH" by (subst pok_allocator_merge_space.simps)
      (auto simp: merge_step_def pok_allocator_delete_space_def grow_space_def split: option.splits)
qed

lemma take_space_initialized [simp]: "al_initialized (take_space n k a) = al_initialized a"
  by (simp add: take_space_def Let_def)

subsection \<open>Sequences of calls\<close>

datatype alloc_call = Call_malloc u32 | Call_calloc u32 u32 | Call_free "u32 option"

fun run_call :: "alloc_config \<Rightarrow> alloc_call \<Rightarrow> allocator \<Rightarrow> allocator" where
  "run_call c (Call_malloc n) a = snd (user_malloc c n a)"
| "run_call c (Call_calloc m n) a = snd (user_calloc c m n a)"
| "run_call c (Call_free p) a = user_free c p a"

text \<open>The static data a partition starts with.\<close>

definition alloc_start :: "alloc_config \<Rightarrow> allocator" where
  "alloc_start c = \<lparr>al_spaces = replicate (ALLOCATOR_NB_SPACES c) empty_space, al_used = 0, al_initialized = False\<rparr>"

lemma allocate_ready:
  assumes "alloc_ready c a" "ALLOCATOR_NB_SPACES c < 2 ^ 32"
  shows "alloc_ready c (snd (pok_allocator_allocate c n a))"
  using assms
proof (cases rule: allocate_cases [of c a n])
  case none
  then show ?thesis using check_init_ok [OF assms(1)] by (simp add: alloc_ready_def)
next
  case (some k)
  then show ?thesis using check_init_ok(2) [OF assms(1)] by (simp add: alloc_ready_def)
qed

lemma free_ready:
  assumes "alloc_ready c a" "quiet_behind c"
  shows "alloc_ready c (pok_allocator_free c p a)"
proof -
  have "al_initialized (pok_allocator_free c p a)"
    using check_init_ok(2) [OF assms(1)] by (simp add: pok_allocator_free_def Let_def split: option.splits)
  then show ?thesis using free_ok [OF assms] by (simp add: alloc_ready_def)
qed

lemma run_calls_ready:
  assumes "alloc_ready c a" "quiet_behind c" "ALLOCATOR_NB_SPACES c < 2 ^ 32"
  shows "alloc_ready c (fold (run_call c) calls a)"
  using assms(1)
proof (induction calls arbitrary: a)
  case (Cons call calls)
  have "alloc_ready c (run_call c call a)"
    using allocate_ready [OF Cons.prems assms(3)] free_ready [OF Cons.prems assms(2)]
    by (cases call) (simp_all add: user_malloc_def user_calloc_def user_free_def)
  then show ?case using Cons.IH by simp
qed simp

text \<open>What lies behind the table is moved into it, one entry further with each deletion, and each cut of a space brings the
  entries in use one nearer to it. Two allocators with different memory behind the table do the same as long as \<open>d\<close> entries
  that are not in use are the same, and there is one.\<close>

definition alike :: "nat \<Rightarrow> nat \<Rightarrow> allocator \<Rightarrow> allocator \<Rightarrow> bool" where
  "alike n d a b = (al_used b = al_used a \<and> al_initialized b = al_initialized a \<and> length (al_spaces a) = n \<and> length (al_spaces b) = n \<and>
     d < n \<and> unat (al_used a) + d \<le> n \<and> (\<forall>i < n. i < unat (al_used a) + d \<longrightarrow> al_spaces a ! i = al_spaces b ! i))"

lemma alike_mono: "alike n d a b \<Longrightarrow> e \<le> d \<Longrightarrow> alike n e a b"
  by (simp add: alike_def)

lemma alike_at: "alike n d a b \<Longrightarrow> i < unat (al_used a) + d \<Longrightarrow> i < n \<Longrightarrow> al_spaces a ! i = al_spaces b ! i"
  by (simp add: alike_def)

lemma update_same: "xs ! i = ys ! i \<Longrightarrow> length xs = length ys \<Longrightarrow> i < length ys \<Longrightarrow> xs[k := x] ! i = ys[k := x] ! i"
  by (cases "i = k") simp_all

lemma alike_update:
  "alike n d a b \<Longrightarrow> x = y \<Longrightarrow> alike n d (a\<lparr>al_spaces := (al_spaces a)[k := x]\<rparr>) (b\<lparr>al_spaces := (al_spaces b)[k := y]\<rparr>)"
  unfolding alike_def by (auto intro: update_same)

lemma alike_init:
  assumes "alike (ALLOCATOR_NB_SPACES c) d a b" "0 < ALLOCATOR_NB_SPACES c" "ALLOCATOR_NB_SPACES c' = ALLOCATOR_NB_SPACES c"
    "ALLOCATOR_MEMORY_SIZE c' = ALLOCATOR_MEMORY_SIZE c"
  shows "alike (ALLOCATOR_NB_SPACES c) d (POK_ALLOCATOR_CHECK_INIT c a) (POK_ALLOCATOR_CHECK_INIT c' b)"
proof (cases "al_initialized a")
  case True
  then show ?thesis using assms(1) by (simp add: alike_def POK_ALLOCATOR_CHECK_INIT_def)
next
  case False
  then have "POK_ALLOCATOR_CHECK_INIT c a = POK_ALLOCATOR_CHECK_INIT c' b" "length (al_spaces (POK_ALLOCATOR_CHECK_INIT c a)) = ALLOCATOR_NB_SPACES c"
    using assms cleared_table [of a c] cleared_table [of b c'] by (auto simp: alike_def)
  moreover have "al_used (POK_ALLOCATOR_CHECK_INIT c a) = 1" using False by (simp add: POK_ALLOCATOR_CHECK_INIT_def)
  ultimately show ?thesis using assms(1) by (simp add: alike_def)
qed

lemma find_same: "(\<And>k. k < n \<Longrightarrow> P k = Q k) \<Longrightarrow> find P [0..<n] = find Q [0..<n]"
  by (rule find_cong) simp_all

lemma alike_allocate:
  assumes "alike (ALLOCATOR_NB_SPACES c) d a0 b0" "0 < ALLOCATOR_NB_SPACES c" "ALLOCATOR_NB_SPACES c' = ALLOCATOR_NB_SPACES c"
    "ALLOCATOR_MEMORY_SIZE c' = ALLOCATOR_MEMORY_SIZE c" "ALLOCATOR_NB_SPACES c < 2 ^ 32"
  shows "alike (ALLOCATOR_NB_SPACES c) (d - 1) (snd (pok_allocator_allocate c n a0)) (snd (pok_allocator_allocate c' n b0))"
proof -
  define a b where "a = POK_ALLOCATOR_CHECK_INIT c a0" and "b = POK_ALLOCATOR_CHECK_INIT c' b0"
  have ab: "alike (ALLOCATOR_NB_SPACES c) d a b" unfolding a_def b_def by (rule alike_init [OF assms(1-4)])
  show ?thesis
  proof (cases "ALLOCATOR_NB_SPACES c - 1 \<le> unat (al_used a)")
    case True
    moreover have "al_used b = al_used a" using ab by (simp add: alike_def)
    ultimately show ?thesis using ab assms(3) by (simp add: pok_allocator_allocate_def a_def [symmetric] b_def [symmetric] alike_mono)
  next
    case False
    then have less: "Suc (unat (al_used a)) \<le> ALLOCATOR_NB_SPACES c" by simp
    have used: "al_used b = al_used a" using ab by (simp add: alike_def)
    have same: "al_spaces a ! k = al_spaces b ! k" if "k < unat (al_used a)" for k
      using alike_at [OF ab, of k] that False by simp
    then have f: "find (\<lambda>space. suits n (al_spaces b ! space)) [0..<unat (al_used a)] = find (\<lambda>space. suits n (al_spaces a ! space)) [0..<unat (al_used a)]"
      by (intro find_same) simp
    have u: "unat (al_used a + 1) = Suc (unat (al_used a))" using False assms(5) by (simp add: unat_word_ariths)
    have "alike (ALLOCATOR_NB_SPACES c) (d - 1) (take_space n k a) (take_space n k b)" if k: "k < unat (al_used a)" for k
    proof (cases "sp_size (al_spaces a ! k) = n")
      case True
      then show ?thesis using alike_update [OF alike_mono [OF ab diff_le_self]] same [OF k] by (simp add: take_space_def Let_def)
    next
      case False
      have "alike (ALLOCATOR_NB_SPACES c) (d - 1) (a\<lparr>al_used := al_used a + 1, al_spaces := (al_spaces a)[k := x, unat (al_used a) := y]\<rparr>)
          (b\<lparr>al_used := al_used a + 1, al_spaces := (al_spaces b)[k := x, unat (al_used a) := y]\<rparr>)" for x y
      proof -
        have "(al_spaces a)[k := x, unat (al_used a) := y] ! i = (al_spaces b)[k := x, unat (al_used a) := y] ! i"
          if "i < ALLOCATOR_NB_SPACES c" "i < Suc (unat (al_used a)) + (d - 1)" for i
        proof (cases "i = unat (al_used a)")
          case False
          have "i < unat (al_used a) + d \<or> d = 0 \<and> i = unat (al_used a)" using that(2) by linarith
          then have "al_spaces a ! i = al_spaces b ! i" using alike_at [OF ab] that(1) False by blast
          then show ?thesis using ab that(1) False update_same [of "al_spaces a" i "al_spaces b" k x] by (simp add: alike_def)
        qed (use ab that(1) in \<open>simp add: alike_def\<close>)
        moreover have "unat (al_used a) + d \<le> ALLOCATOR_NB_SPACES c" "d < ALLOCATOR_NB_SPACES c" using ab by (simp_all add: alike_def)
        then have "d - 1 < ALLOCATOR_NB_SPACES c" "Suc (unat (al_used a)) + (d - 1) \<le> ALLOCATOR_NB_SPACES c" using less by linarith+
        ultimately show ?thesis using ab by (simp add: alike_def u used)
      qed
      then show ?thesis using False same [OF k] by (simp add: take_space_def Let_def used)
    qed
    then show ?thesis using False used f assms(3) alike_mono [OF ab diff_le_self]
      by (auto simp: pok_allocator_allocate_def a_def [symmetric] b_def [symmetric] split: option.splits dest!: find_SomeD(1))
  qed
qed

lemma alike_delete:
  assumes "alike (ALLOCATOR_NB_SPACES c) d a b" "ALLOCATOR_NB_SPACES c' = ALLOCATOR_NB_SPACES c"
    "k < ALLOCATOR_NB_SPACES c" "0 < unat (al_used a)"
  shows "alike (ALLOCATOR_NB_SPACES c) d (pok_allocator_delete_space c k a) (pok_allocator_delete_space c' k b)"
proof -
  have len: "length (al_spaces a) = ALLOCATOR_NB_SPACES c" "length (al_spaces b) = ALLOCATOR_NB_SPACES c" using assms(1) by (simp_all add: alike_def)
  have u: "unat (al_used a - 1) = unat (al_used a) - 1" using assms(4) by (simp add: unat_minus_one unat_gt_0)
  have f: "al_used (pok_allocator_delete_space c k a) = al_used a - 1" "al_used (pok_allocator_delete_space c' k b) = al_used b - 1"
    "al_initialized (pok_allocator_delete_space c k a) = al_initialized a" "al_initialized (pok_allocator_delete_space c' k b) = al_initialized b"
    by (simp_all add: pok_allocator_delete_space_def)
  have nth: "(take k xs @ drop (Suc k) xs @ [e]) ! i = (if i < k then xs ! i else if Suc i < length xs then xs ! Suc i else e)"
    if "i < length xs" "k < length xs" for xs :: "pok_allocator_space_t list" and e i
    using that by (auto simp: nth_append less_diff_conv2 Suc_diff_Suc)
  have used: "al_used b = al_used a" using assms(1) by (simp add: alike_def)
  have bound: "unat (al_used a) + d \<le> ALLOCATOR_NB_SPACES c" using assms(1) by (simp add: alike_def)
  have at: "al_spaces a ! i = al_spaces b ! i" if "i < ALLOCATOR_NB_SPACES c" "i < unat (al_used a) + d" for i
    by (rule alike_at [OF assms(1) that(2,1)])
  have "al_spaces (pok_allocator_delete_space c k a) ! i = al_spaces (pok_allocator_delete_space c' k b) ! i"
    if i: "i < ALLOCATOR_NB_SPACES c" "i < unat (al_used a) - 1 + d" for i
  proof -
    have "Suc i < unat (al_used a) + d" "i < unat (al_used a) + d" "Suc i < ALLOCATOR_NB_SPACES c" using i assms(4) bound by simp_all
    then show ?thesis using i len assms(2,3) at [of i] at [of "Suc i"] by (simp add: delete_space_spaces nth)
  qed
  then show ?thesis using assms len bound by (simp add: alike_def f u used delete_space_spaces)
qed

lemma alike_merge:
  "alike (ALLOCATOR_NB_SPACES c) d a b \<Longrightarrow> 0 < d \<Longrightarrow> k \<le> unat (al_used a) \<Longrightarrow> unat (al_used a) < ALLOCATOR_NB_SPACES c \<Longrightarrow>
   ALLOCATOR_NB_SPACES c' = ALLOCATOR_NB_SPACES c \<Longrightarrow>
   alike (ALLOCATOR_NB_SPACES c) d (pok_allocator_merge_space c k a) (pok_allocator_merge_space c' k b)"
proof (induction c k a arbitrary: b rule: pok_allocator_merge_space.induct)
  case (1 c k a)
  note ab = "1.prems"(1)
  have used: "al_used b = al_used a" using ab by (simp add: alike_def)
  have same: "al_spaces a ! j = al_spaces b ! j" if "j \<le> unat (al_used a)" for j
    using alike_at [OF ab, of j] that "1.prems"(2,4) by simp
  have m: "mergeable k (al_spaces b) j = mergeable k (al_spaces a) j" "behind_other k (al_spaces b) j = behind_other k (al_spaces a) j"
    if "j < unat (al_used a)" for j
    using same [of j] same [OF "1.prems"(3)] that by (simp_all add: mergeable_def behind_other_def before_other_def)
  have f: "find (mergeable k (al_spaces b)) [0..<unat (al_used b)] = find (mergeable k (al_spaces a)) [0..<unat (al_used a)]"
    unfolding used by (rule find_same) (rule m)
  show ?case
  proof (cases "al_used a = 1 \<or> find (mergeable k (al_spaces a)) [0..<unat (al_used a)] = None")
    case True
    then show ?thesis using ab used f
      by (auto simp: pok_allocator_merge_space.simps [of c k a] pok_allocator_merge_space.simps [of c' k b])
  next
    case False
    then obtain k2 where k2: "find (mergeable k (al_spaces a)) [0..<unat (al_used a)] = Some k2" "al_used a \<noteq> 1" by auto
    have lt: "k2 < unat (al_used a)" using k2(1) by (auto dest: find_SomeD(1))
    have g: "alike (ALLOCATOR_NB_SPACES c) d (grow_space i l a) (grow_space i l b)" if "i \<le> unat (al_used a)" "l \<le> unat (al_used a)" for i l
      unfolding grow_space_def by (rule alike_update [OF ab]) (simp add: same that)
    have gu: "al_used (grow_space i l a) = al_used a" for i l by (simp add: grow_space_def)
    have step: "alike (ALLOCATOR_NB_SPACES c) d (merge_step c k k2 a) (merge_step c' k k2 b)"
      using alike_delete [OF g "1.prems"(5), of k2 k k] alike_delete [OF g "1.prems"(5), of k k2 k2] lt "1.prems"(3,4) m(2) [OF lt]
      by (simp add: merge_step_def gu)
    have u: "unat (al_used (merge_step c k k2 a)) = unat (al_used a) - 1" using lt by (simp add: unat_minus_one unat_gt_0 [symmetric])
    have "alike (ALLOCATOR_NB_SPACES c) d (pok_allocator_merge_space c k2 (merge_step c k k2 a)) (pok_allocator_merge_space c' k2 (merge_step c' k k2 b))"
      using "1.IH" [OF k2(2,1) step "1.prems"(2)] u lt "1.prems"(4,5) by simp
    then show ?thesis using k2 used f by (simp add: pok_allocator_merge_space.simps [of c k a] pok_allocator_merge_space.simps [of c' k b])
  qed
qed

lemma alike_free:
  assumes "alike (ALLOCATOR_NB_SPACES c) d a0 b0" "0 < d" "alloc_ready c' b0" "ALLOCATOR_NB_SPACES c' = ALLOCATOR_NB_SPACES c"
    "ALLOCATOR_MEMORY_SIZE c' = ALLOCATOR_MEMORY_SIZE c"
  shows "alike (ALLOCATOR_NB_SPACES c) d (pok_allocator_free c p a0) (pok_allocator_free c' p b0)"
proof -
  define a b where "a = POK_ALLOCATOR_CHECK_INIT c a0" and "b = POK_ALLOCATOR_CHECK_INIT c' b0"
  have ok: "alloc_ok c' b" unfolding b_def by (rule check_init_ok(1) [OF assms(3)])
  then have n: "0 < ALLOCATOR_NB_SPACES c" "unat (al_used b) < ALLOCATOR_NB_SPACES c" using assms(4) by (auto simp: alloc_ok_def)
  have ab: "alike (ALLOCATOR_NB_SPACES c) d a b" unfolding a_def b_def by (rule alike_init [OF assms(1) n(1) assms(4,5)])
  have used: "al_used b = al_used a" using ab by (simp add: alike_def)
  have same: "al_spaces a ! k = al_spaces b ! k" if "k < unat (al_used a)" for k
    using alike_at [OF ab, of k] that n(2) used by simp
  then have f: "find (\<lambda>k. p = Some (sp_start (al_spaces b ! k))) [0..<unat (al_used b)] = find (\<lambda>k. p = Some (sp_start (al_spaces a ! k))) [0..<unat (al_used a)]"
    unfolding used by (intro find_same) simp
  have "alike (ALLOCATOR_NB_SPACES c) d (pok_allocator_merge_space c k (a\<lparr>al_spaces := (al_spaces a)[k := (al_spaces a ! k)\<lparr>sp_allocated := 0\<rparr>]\<rparr>))
      (pok_allocator_merge_space c' k (b\<lparr>al_spaces := (al_spaces b)[k := (al_spaces b ! k)\<lparr>sp_allocated := 0\<rparr>]\<rparr>))" if "k < unat (al_used a)" for k
    by (rule alike_merge [OF alike_update [OF ab] assms(2)]) (use same [OF that] that n(2) used assms(4) in simp_all)
  then show ?thesis using ab f
    by (auto simp: pok_allocator_free_def a_def [symmetric] b_def [symmetric] Let_def split: option.splits dest!: find_SomeD(1))
qed

text \<open>The calls that can cut a space.\<close>

fun cuts :: "alloc_call \<Rightarrow> bool" where
  "cuts (Call_free p) = False"
| "cuts _ = True"

lemma alike_run:
  assumes "alike (ALLOCATOR_NB_SPACES c) d a b" "alloc_ready c' b" "quiet_behind c'" "ALLOCATOR_NB_SPACES c' = ALLOCATOR_NB_SPACES c"
    "ALLOCATOR_MEMORY_SIZE c' = ALLOCATOR_MEMORY_SIZE c" "ALLOCATOR_NB_SPACES c < 2 ^ 32" "0 < ALLOCATOR_NB_SPACES c"
    "length (filter cuts calls) < d"
  shows "alike (ALLOCATOR_NB_SPACES c) 0 (fold (run_call c) calls a) (fold (run_call c') calls b)"
  using assms(1,2,8)
proof (induction calls arbitrary: a b d)
  case (Cons call calls)
  have ready: "alloc_ready c' (run_call c' call b)"
    using run_calls_ready [OF Cons.prems(2) assms(3), of "[call]"] assms(4,6) by simp
  show ?case
  proof (cases "cuts call")
    case True
    then have "alike (ALLOCATOR_NB_SPACES c) (d - 1) (run_call c call a) (run_call c' call b)"
      using alike_allocate [OF Cons.prems(1) assms(7,4,5,6)] by (cases call) (simp_all add: user_malloc_def user_calloc_def)
    then show ?thesis using Cons.IH [OF _ ready] Cons.prems(3) True by simp
  next
    case False
    then obtain p where "call = Call_free p" by (cases call) simp_all
    moreover have "0 < d" using Cons.prems(3) by simp
    ultimately have "alike (ALLOCATOR_NB_SPACES c) d (run_call c call a) (run_call c' call b)"
      using alike_free [OF Cons.prems(1) _ Cons.prems(2) assms(4,5)] by (simp add: user_free_def)
    then show ?thesis using Cons.IH [OF _ ready] Cons.prems(3) False by simp
  qed
next
  case Nil
  then show ?case by (simp add: alike_mono)
qed

lemma run_ready_overlap:
  assumes "2 \<le> ALLOCATOR_NB_SPACES c" "ALLOCATOR_NB_SPACES c < 2 ^ 32" "quiet_behind c"
    and "a = fold (run_call c) calls (alloc_start c)" "al_initialized a"
  shows "alloc_ok c a"
proof -
  have "alloc_ready c (alloc_start c)" using assms(1) by (simp add: alloc_ready_def alloc_start_def)
  then show ?thesis using run_calls_ready [OF _ assms(3,2)] assms(4,5) by (auto simp: alloc_ready_def)
qed

text \<open>C13: Whatever a program allocates and releases, in whatever order and with whatever addresses, the spaces in use
  stay inside the memory of the allocator and no two of them overlap, as long as it has called \<open>malloc\<close> and \<open>calloc\<close> fewer times
  than the table has entries less one. After that many calls the code can come to read what lies behind the table, and for
  longer runs the same is shown when that reads as a space of no bytes in the memory.\<close>

theorem spaces_never_overlap:
  assumes "2 \<le> ALLOCATOR_NB_SPACES c" "ALLOCATOR_NB_SPACES c < 2 ^ 32"
    and "length (filter cuts calls) < ALLOCATOR_NB_SPACES c - 1 \<or> quiet_behind c"
    and "a = fold (run_call c) calls (alloc_start c)"
    and "i < unat (al_used a)" "covers x (al_spaces a ! i)"
  shows "length (al_spaces a) = ALLOCATOR_NB_SPACES c \<and> unat (al_used a) < ALLOCATOR_NB_SPACES c \<and> x < unat (ALLOCATOR_MEMORY_SIZE c) \<and>
    (\<forall>j < unat (al_used a). j \<noteq> i \<longrightarrow> \<not> covers x (al_spaces a ! j))"
proof -
  define c' where "c' = (if quiet_behind c then c else c\<lparr>behind_spaces := empty_space\<rparr>)"
  define b where "b = fold (run_call c') calls (alloc_start c')"
  have c': "ALLOCATOR_NB_SPACES c' = ALLOCATOR_NB_SPACES c" "ALLOCATOR_MEMORY_SIZE c' = ALLOCATOR_MEMORY_SIZE c" "quiet_behind c'"
    by (simp_all add: c'_def quiet_behind_def empty_space_def)
  have init: "al_initialized b"
  proof (rule ccontr)
    assume no: "\<not> al_initialized b"
    have "al_initialized (run_call c' call d)" for call d
      by (cases call) (auto simp: user_malloc_def user_calloc_def user_free_def pok_allocator_allocate_def
          pok_allocator_free_def POK_ALLOCATOR_CHECK_INIT_def Let_def split: option.splits)
    then have "al_initialized (fold (run_call c') calls d)" if "calls \<noteq> []" for d
      using that by (induction calls rule: rev_induct) simp_all
    then have "calls = []" using no by (auto simp: b_def)
    then show False using assms(4,5) by (simp add: alloc_start_def)
  qed
  have ok: "alloc_ok c' b" using run_ready_overlap [OF _ _ c'(3) b_def init] assms(1,2) c'(1) by simp
  have ab: "al_used b = al_used a \<and> length (al_spaces a) = ALLOCATOR_NB_SPACES c \<and>
    (\<forall>j < ALLOCATOR_NB_SPACES c. j < unat (al_used a) \<longrightarrow> al_spaces a ! j = al_spaces b ! j)"
  proof (cases "quiet_behind c")
    case True
    then have "a = b" "c' = c" using assms(4) by (simp_all add: b_def c'_def)
    then show ?thesis using ok by (simp add: alloc_ok_def)
  next
    case False
    have "alike (ALLOCATOR_NB_SPACES c) (ALLOCATOR_NB_SPACES c - 1) (alloc_start c) (alloc_start c')" using assms(1) by (simp add: alike_def alloc_start_def c')
    moreover have "alloc_ready c' (alloc_start c')" using assms(1) by (simp add: alloc_ready_def alloc_start_def c')
    ultimately have "alike (ALLOCATOR_NB_SPACES c) 0 a b" unfolding assms(4) b_def
      by (rule alike_run) (use assms(1-3) c' False in simp_all)
    then show ?thesis by (simp add: alike_def)
  qed
  have u: "unat (al_used a) < ALLOCATOR_NB_SPACES c" using ok ab c'(1) by (simp add: alloc_ok_def)
  have same: "al_spaces a ! j = al_spaces b ! j" if "j < unat (al_used a)" for j using ab that u by simp
  have i: "i < ALLOCATOR_NB_SPACES c'" "covers x (al_spaces b ! i)" using assms(5,6) u same c'(1) by simp_all
  have "x < unat (ALLOCATOR_MEMORY_SIZE c)" using in_memory_at [OF ok i(1)] i(2) c'(2) by (simp add: in_memory_def covers_def)
  moreover have "length (al_spaces a) = ALLOCATOR_NB_SPACES c" using ab by simp
  moreover have "\<not> covers x (al_spaces a ! j)" if "j < unat (al_used a)" "j \<noteq> i" for j
    using spaces_apart [OF ok i(1) _ _ i(2)] that u same c'(1) by auto
  ultimately show ?thesis using u by blast
qed

subsection \<open>Release of the last block\<close>

text \<open>
  A table in order: the spaces in use are not empty, no two free spaces are neighbours, the space at
  the first address is allocated, and the entries behind the last one are cleared.
\<close>

definition alloc_tidy :: "alloc_config \<Rightarrow> allocator \<Rightarrow> bool" where
  "alloc_tidy c a = (alloc_ok c a \<and> al_initialized a \<and> behind_spaces c = empty_space \<and>
     (\<forall>k < unat (al_used a). 0 < sp_size (al_spaces a ! k) \<and>
        (sp_allocated (al_spaces a ! k) = 0 \<longrightarrow> sp_start (al_spaces a ! k) \<noteq> 0) \<and>
        (sp_allocated (al_spaces a ! k) = 0 \<or> sp_allocated (al_spaces a ! k) = 1)) \<and>
     (\<forall>i < unat (al_used a). \<forall>j < unat (al_used a). i \<noteq> j \<and> sp_allocated (al_spaces a ! i) = 0 \<and>
        sp_allocated (al_spaces a ! j) = 0 \<longrightarrow> \<not> before_other i (al_spaces a) j) \<and>
     (\<forall>k < ALLOCATOR_NB_SPACES c. unat (al_used a) \<le> k \<longrightarrow> al_spaces a ! k = empty_space))"

lemma tidyD:
  assumes "alloc_tidy c a"
  shows "alloc_ok c a" "al_initialized a" "behind_spaces c = empty_space"
    "k < unat (al_used a) \<Longrightarrow> 0 < sp_size (al_spaces a ! k)"
    "k < unat (al_used a) \<Longrightarrow> sp_allocated (al_spaces a ! k) \<noteq> 1 \<Longrightarrow> sp_allocated (al_spaces a ! k) = 0"
    "k < unat (al_used a) \<Longrightarrow> sp_allocated (al_spaces a ! k) = 0 \<Longrightarrow> sp_start (al_spaces a ! k) \<noteq> 0"
    "i < unat (al_used a) \<Longrightarrow> j < unat (al_used a) \<Longrightarrow> i \<noteq> j \<Longrightarrow> sp_allocated (al_spaces a ! i) = 0 \<Longrightarrow>
       sp_allocated (al_spaces a ! j) = 0 \<Longrightarrow> sp_start (al_spaces a ! j) \<noteq> sp_start (al_spaces a ! i) + sp_size (al_spaces a ! i)"
    "k < ALLOCATOR_NB_SPACES c \<Longrightarrow> unat (al_used a) \<le> k \<Longrightarrow> al_spaces a ! k = empty_space"
  using assms by (auto simp: alloc_tidy_def before_other_def)

lemma find_none: "(\<And>k. k < n \<Longrightarrow> \<not> P k) \<Longrightarrow> find P [0..<n] = None"
  by (simp add: find_None_iff)

lemma find_first: "k < n \<Longrightarrow> P k \<Longrightarrow> (\<And>j. j < k \<Longrightarrow> \<not> P j) \<Longrightarrow> find P [0..<n] = Some k"
  by (auto simp: find_Some_iff)

text \<open>In such a table nothing is left to merge, neither for a free space nor for the entry behind the last one.\<close>

lemma tidy_merge_done:
  assumes "alloc_tidy c a" "k < unat (al_used a) \<and> sp_allocated (al_spaces a ! k) = 0 \<or> k = unat (al_used a)"
  shows "pok_allocator_merge_space c k a = a"
proof -
  note tidy = tidyD [OF assms(1)]
  have "\<not> mergeable k (al_spaces a) k2" if k2: "k2 < unat (al_used a)" for k2
  proof
    assume m: "mergeable k (al_spaces a) k2"
    then have free: "k2 \<noteq> k" "sp_allocated (al_spaces a ! k2) = 0" using tidy(5) [OF k2] by (simp_all add: mergeable_def)
    from assms(2) show False
    proof
      assume "k < unat (al_used a) \<and> sp_allocated (al_spaces a ! k) = 0"
      then show False using m tidy(7) [of k k2] tidy(7) [of k2 k] free k2
        by (auto simp: mergeable_def behind_other_def before_other_def)
    next
      assume k: "k = unat (al_used a)"
      then have e: "al_spaces a ! k = empty_space" using tidy(1,8) by (simp add: alloc_ok_def)
      have mem: "in_memory c (al_spaces a ! k2)" using tidy(1) k2 by (intro in_memory_at) (auto simp: alloc_ok_def)
      have "sp_start (al_spaces a ! k2) + sp_size (al_spaces a ! k2) \<noteq> 0"
      proof
        assume "sp_start (al_spaces a ! k2) + sp_size (al_spaces a ! k2) = 0"
        then have "unat (sp_size (al_spaces a ! k2)) = 0" using in_memory_unat_add [OF mem] by simp
        then show False using tidy(4) [OF k2] by (simp add: unat_eq_0)
      qed
      then show False using m e tidy(6) [OF k2 free(2)]
        by (auto simp: mergeable_def behind_other_def before_other_def empty_space_def)
    qed
  qed
  then have "find (mergeable k (al_spaces a)) [0..<unat (al_used a)] = None" by (rule find_none)
  then show ?thesis by (subst pok_allocator_merge_space.simps) simp
qed

lemma cut_not_mergeable:
  assumes tidy: "alloc_tidy c a" and k: "k < unat (al_used a)" "suits n (al_spaces a ! k)" "sp_size (al_spaces a ! k) \<noteq> n"
    and j: "j < unat (al_used a)"
    and sps: "sps ! k = \<lparr>sp_start = sp_start (al_spaces a ! k), sp_size = n, sp_allocated = 0\<rparr>"
      "j \<noteq> k \<Longrightarrow> sps ! j = al_spaces a ! j"
  shows "\<not> mergeable k sps j"
proof
  assume m: "mergeable k sps j"
  note t = tidyD [OF tidy]
  have lt: "k < ALLOCATOR_NB_SPACES c" "j < ALLOCATOR_NB_SPACES c" using k(1) j t(1) by (auto simp: alloc_ok_def)
  have jk: "j \<noteq> k" using m by (simp add: mergeable_def)
  then have free: "sp_allocated (al_spaces a ! j) = 0" using m t(5) [OF j] sps(2) by (simp add: mergeable_def)
  have "sp_start (al_spaces a ! k) \<noteq> sp_start (al_spaces a ! j) + sp_size (al_spaces a ! j)"
    using t(7) [OF j k(1) jk free] k(2) by (simp add: suits_def)
  then have start: "sp_start (al_spaces a ! j) = sp_start (al_spaces a ! k) + n"
    using m sps jk by (simp add: mergeable_def behind_other_def before_other_def)
  have "n < sp_size (al_spaces a ! k)" using k(2,3) by (auto simp: suits_def order.strict_iff_order)
  then have n: "unat n < unat (sp_size (al_spaces a ! k))" by (simp add: word_less_nat_alt)
  have "unat (sp_start (al_spaces a ! k)) + unat n < 2 ^ LENGTH(32)"
    using in_memory_at [OF t(1) lt(1)] n unsigned_less [where 'a = nat, of "ALLOCATOR_MEMORY_SIZE c"]
    by (simp add: in_memory_def)
  then have "unat (sp_start (al_spaces a ! j)) = unat (sp_start (al_spaces a ! k)) + unat n"
    by (simp add: start unat_word_ariths)
  then have "covers (unat (sp_start (al_spaces a ! j))) (al_spaces a ! k)" using n by (simp add: covers_def)
  then show False
    using spaces_apart [OF t(1) lt(2,1) jk covers_start [OF t(4) [OF j]]] by simp
qed

lemma free_taken_space:
  assumes tidy: "alloc_tidy c a" and k: "k < unat (al_used a)" "suits n (al_spaces a ! k)" "0 < n"
    and room: "unat (al_used a) < ALLOCATOR_NB_SPACES c - 1" "ALLOCATOR_NB_SPACES c < 2 ^ 32"
  shows "pok_allocator_free c (Some (sp_start (al_spaces a ! k))) (take_space n k a) = a"
proof -
  note t = tidyD [OF tidy]
  let ?sps = "al_spaces a" and ?u = "unat (al_used a)" and ?a1 = "take_space n k a"
  let ?sp = "?sps ! k"
  let ?a2 = "?a1\<lparr>al_spaces := (al_spaces ?a1)[k := (al_spaces ?a1 ! k)\<lparr>sp_allocated := 0\<rparr>]\<rparr>"
  have len: "length ?sps = ALLOCATOR_NB_SPACES c" using t(1) by (simp add: alloc_ok_def)
  have lt: "k < ALLOCATOR_NB_SPACES c" "?u < ALLOCATOR_NB_SPACES c" "k \<noteq> ?u" using k(1) room(1) by auto
  have u1: "unat (al_used a + 1) = Suc ?u" by (rule used_Suc [OF t(1) room])
  have free: "sp_allocated ?sp = 0" "?sp\<lparr>sp_allocated := 0\<rparr> = ?sp" using k(2) by (simp_all add: suits_def)
  have init: "POK_ALLOCATOR_CHECK_INIT c ?a1 = ?a1" using t(2) by (simp add: POK_ALLOCATOR_CHECK_INIT_def)
  have starts: "sp_start (?sps ! j) \<noteq> sp_start ?sp" if "j < k" for j
    using starts_differ [OF t(1) _ lt(1), of j] that k(1) t(4) [of j] t(4) [of k] lt(1) by simp
  have at: "sp_start (al_spaces ?a1 ! j) = sp_start (?sps ! j)" if "j \<le> k" for j
    using that k(1) len lt by (auto simp: take_space_def Let_def nth_list_update)
  have used: "k < unat (al_used ?a1)" using k(1) u1 by (simp add: take_space_def Let_def)
  have "find (\<lambda>j. Some (sp_start ?sp) = Some (sp_start (al_spaces ?a1 ! j))) [0..<unat (al_used ?a1)] = Some k"
    using used at starts by (intro find_first) (auto dest: sym)
  then have "pok_allocator_free c (Some (sp_start ?sp)) ?a1 = pok_allocator_merge_space c k ?a2"
    unfolding pok_allocator_free_def init Let_def by simp
  also have "pok_allocator_merge_space c k ?a2 = a"
  proof (cases "sp_size ?sp = n")
    case True
    then have "?a2 = a" using lt(1) len by (simp add: take_space_def Let_def free(2))
    then show ?thesis using tidy_merge_done [OF tidy] k(1) free(1) by simp
  next
    case False
    let ?low = "\<lparr>sp_start = sp_start ?sp, sp_size = n, sp_allocated = 0\<rparr> :: pok_allocator_space_t"
    let ?high = "\<lparr>sp_start = sp_start ?sp + n, sp_size = sp_size ?sp - n, sp_allocated = 0\<rparr>"
    let ?cut = "?sps[k := ?low, ?u := ?high]"
    have low: "?sp\<lparr>sp_size := n, sp_allocated := 0\<rparr> = ?low" by (cases ?sp) simp
    have a2: "?a2 = a\<lparr>al_used := al_used a + 1, al_spaces := ?cut\<rparr>"
      using False len lt by (simp add: take_space_def Let_def low list_update_swap)
    have "find (mergeable k ?cut) [0..<Suc ?u] = Some ?u"
    proof (rule find_first)
      show "mergeable k ?cut ?u" using lt len by (simp add: mergeable_def before_other_def)
    qed (use cut_not_mergeable [OF tidy k(1,2) False] lt len in auto)
    moreover have "al_used a + 1 \<noteq> 1" using u1 k(1) by auto
    ultimately have "pok_allocator_merge_space c k ?a2 = pok_allocator_merge_space c ?u (merge_step c k ?u ?a2)"
      using u1 unfolding a2 by (subst pok_allocator_merge_space.simps) simp
    also have "merge_step c k ?u ?a2 = a"
    proof -
      have "sp_size ?sp \<noteq> 0" using t(4) [OF k(1)] by simp
      then have "\<not> behind_other k ?cut ?u" using lt len by (simp add: behind_other_def)
      moreover have "?low\<lparr>sp_size := sp_size ?sp\<rparr> = ?sp" using free by (cases ?sp) simp
      then have "grow_space k ?u ?a2 = a\<lparr>al_used := al_used a + 1, al_spaces := ?sps[?u := ?high]\<rparr>"
        using lt len by (simp add: a2 grow_space_def list_update_swap)
      moreover have "take ?u ?sps @ drop (Suc ?u) ?sps @ [behind_spaces c] = ?sps"
      proof (rule nth_equalityI)
        fix i
        assume "i < length (take ?u ?sps @ drop (Suc ?u) ?sps @ [behind_spaces c])"
        then show "(take ?u ?sps @ drop (Suc ?u) ?sps @ [behind_spaces c]) ! i = ?sps ! i"
          using len lt(2) t(3) t(8) [of i] t(8) [of "Suc i"] by (auto simp: nth_append)
      qed (use len lt in simp)
      ultimately show ?thesis
        using delete_space_spaces [of "a\<lparr>al_used := al_used a + 1, al_spaces := ?sps[?u := ?high]\<rparr>" c ?u] lt len
        by (simp add: merge_step_def a2) (simp add: pok_allocator_delete_space_def)
    qed
    finally show ?thesis using tidy_merge_done [OF tidy, of ?u] by simp
  qed
  finally show ?thesis .
qed

text \<open>Releasing the block that was allocated last undoes the allocation: the whole table is as it
  was before, when it was in order and the space at the first address of the array is in use.\<close>

theorem free_undoes_allocate:
  assumes "alloc_tidy c a" "0 < n" "ALLOCATOR_NB_SPACES c < 2 ^ 32"
  shows "case user_malloc c n a of (None, a') \<Rightarrow> a' = a | (Some p, a') \<Rightarrow> user_free c (Some p) a' = a"
proof -
  note t = tidyD [OF assms(1)]
  have init: "POK_ALLOCATOR_CHECK_INIT c a = a" using t(2) by (simp add: POK_ALLOCATOR_CHECK_INIT_def)
  have "alloc_ready c a" using t(1,2) by (simp add: alloc_ready_def)
  then show ?thesis
    using assms(3)
  proof (cases rule: allocate_cases [of c a n])
    case none
    then show ?thesis by (simp add: user_malloc_def init)
  next
    case (some k)
    then show ?thesis using free_taken_space [OF assms(1) _ _ assms(2) _ assms(3), of k]
      by (simp add: user_malloc_def user_free_def init)
  qed
qed

subsection \<open>Release of a block that is not the last\<close>

definition three_blocks :: "alloc_config \<Rightarrow> u32 \<Rightarrow> u32 \<Rightarrow> u32 \<Rightarrow> allocator" where
  "three_blocks c x y z = snd (user_malloc c z (snd (user_malloc c y (snd (user_malloc c x (alloc_start c))))))"

text \<open>While nothing was released yet, the last space in use is the only free one.\<close>

lemma bump_allocate:
  assumes "al_initialized a" "al_spaces a = sps @ \<lparr>sp_start = s, sp_size = z, sp_allocated = 0\<rparr> # replicate (Suc r) empty_space"
    and "unat (al_used a) = Suc (length sps)" "ALLOCATOR_NB_SPACES c = length (al_spaces a)" "ALLOCATOR_NB_SPACES c < 2 ^ 32"
    and "\<forall>sp \<in> set sps. sp_allocated sp \<noteq> 0" "n < z" "0 < r"
  shows "user_malloc c n a = (Some s, a\<lparr>al_used := al_used a + 1,
      al_spaces := (sps @ [\<lparr>sp_start = s, sp_size = n, sp_allocated = 1\<rparr>]) @
        \<lparr>sp_start = s + n, sp_size = z - n, sp_allocated = 0\<rparr> # replicate r empty_space\<rparr>)"
proof -
  let ?k = "length sps"
  have at: "al_spaces a ! ?k = \<lparr>sp_start = s, sp_size = z, sp_allocated = 0\<rparr>" by (simp add: assms(2))
  have "find (\<lambda>k. suits n (al_spaces a ! k)) [0..<unat (al_used a)] = Some ?k"
  proof (rule find_first)
    show "suits n (al_spaces a ! ?k)" using assms(7) by (simp add: at suits_def)
    fix j
    assume "j < ?k"
    then show "\<not> suits n (al_spaces a ! j)" using assms(6) by (simp add: assms(2) nth_append suits_def)
  qed (simp add: assms(3))
  moreover have "\<not> ALLOCATOR_NB_SPACES c - 1 \<le> unat (al_used a)" using assms(2,3,4,8) by simp
  moreover have "take_space n ?k a = a\<lparr>al_used := al_used a + 1,
      al_spaces := (sps @ [\<lparr>sp_start = s, sp_size = n, sp_allocated = 1\<rparr>]) @
        \<lparr>sp_start = s + n, sp_size = z - n, sp_allocated = 0\<rparr> # replicate r empty_space\<rparr>"
    using assms(7) unfolding take_space_def at Let_def assms(3) by (auto simp: assms(2) list_update_append)
  ultimately show ?thesis
    using assms(1) at by (simp add: user_malloc_def pok_allocator_allocate_def POK_ALLOCATOR_CHECK_INIT_def Let_def)
qed

lemma three_blocks_table:
  assumes "ALLOCATOR_NB_SPACES c = r + 6" "ALLOCATOR_NB_SPACES c < 2 ^ 32" "0 < x" "0 < y" "0 < z"
    and "unat x + unat y + unat z < unat (ALLOCATOR_MEMORY_SIZE c)"
  shows "three_blocks c x y z = \<lparr>al_spaces = [\<lparr>sp_start = 0, sp_size = x, sp_allocated = 1\<rparr>,
      \<lparr>sp_start = x, sp_size = y, sp_allocated = 1\<rparr>, \<lparr>sp_start = x + y, sp_size = z, sp_allocated = 1\<rparr>,
      \<lparr>sp_start = x + y + z, sp_size = ALLOCATOR_MEMORY_SIZE c - x - y - z, sp_allocated = 0\<rparr>] @
        replicate (r + 2) empty_space, al_used = 4, al_initialized = True\<rparr>"
proof -
  let ?m = "ALLOCATOR_MEMORY_SIZE c"
  have lt: "x < ?m" "y < ?m - x" "z < ?m - x - y"
  proof -
    show x: "x < ?m" using assms(6) by (simp add: word_less_nat_alt)
    then have mx: "unat (?m - x) = unat ?m - unat x" by (simp add: unat_sub word_less_nat_alt word_le_nat_alt)
    then show y: "y < ?m - x" using assms(6) by (simp add: word_less_nat_alt)
    then have "unat (?m - x - y) = unat (?m - x) - unat y" by (simp add: unat_sub word_less_nat_alt word_le_nat_alt)
    then show "z < ?m - x - y" using assms(6) mx by (simp add: word_less_nat_alt)
  qed
  let ?a0 = "\<lparr>al_spaces = \<lparr>sp_start = 0, sp_size = ?m, sp_allocated = 0\<rparr> # replicate (r + 5) empty_space,
      al_used = 1, al_initialized = True\<rparr>"
  let ?a1 = "\<lparr>al_spaces = [\<lparr>sp_start = 0, sp_size = x, sp_allocated = 1\<rparr>] @
      \<lparr>sp_start = x, sp_size = ?m - x, sp_allocated = 0\<rparr> # replicate (r + 4) empty_space,
      al_used = 2, al_initialized = True\<rparr>"
  let ?a2 = "\<lparr>al_spaces = [\<lparr>sp_start = 0, sp_size = x, sp_allocated = 1\<rparr>, \<lparr>sp_start = x, sp_size = y, sp_allocated = 1\<rparr>] @
      \<lparr>sp_start = x + y, sp_size = ?m - x - y, sp_allocated = 0\<rparr> # replicate (r + 3) empty_space,
      al_used = 3, al_initialized = True\<rparr>"
  have "POK_ALLOCATOR_CHECK_INIT c (alloc_start c) = ?a0" "POK_ALLOCATOR_CHECK_INIT c ?a0 = ?a0"
    using cleared_table [of "alloc_start c" c] assms(1) by (simp_all add: alloc_start_def POK_ALLOCATOR_CHECK_INIT_def)
  then have "user_malloc c x (alloc_start c) = user_malloc c x ?a0"
    by (simp add: user_malloc_def pok_allocator_allocate_def)
  also have "\<dots> = (Some 0, ?a1)"
    using bump_allocate [of ?a0 "[]" 0 ?m "r + 4" c x] assms(1,2) lt by simp
  finally have m1: "snd (user_malloc c x (alloc_start c)) = ?a1" by simp
  have m2: "snd (user_malloc c y ?a1) = ?a2"
    using bump_allocate [of ?a1 "[\<lparr>sp_start = 0, sp_size = x, sp_allocated = 1\<rparr>]" x "?m - x" "r + 3" c y] assms(1,2) lt
    by simp
  have used: "unat (al_used ?a2) = Suc (length [\<lparr>sp_start = 0, sp_size = x, sp_allocated = 1\<rparr>,
      \<lparr>sp_start = x, sp_size = y, sp_allocated = 1\<rparr> :: pok_allocator_space_t])" by simp
  have "?a2 = \<lparr>al_spaces = [\<lparr>sp_start = 0, sp_size = x, sp_allocated = 1\<rparr>, \<lparr>sp_start = x, sp_size = y, sp_allocated = 1\<rparr>] @
      \<lparr>sp_start = x + y, sp_size = ?m - x - y, sp_allocated = 0\<rparr> # replicate (Suc (r + 2)) empty_space,
      al_used = 3, al_initialized = True\<rparr>" by (simp add: numeral_3_eq_3)
  then show ?thesis unfolding three_blocks_def m1 m2
    using bump_allocate [OF _ _ used, of "x + y" "?m - x - y" "r + 2" c z] assms(1,2) lt(3)
    by (simp del: replicate_Suc)
qed

lemma small_upts: "[0..<4] = [0, 1, 2, 3 :: nat]" "[0..<3] = [0, 1, 2 :: nat]" "[0..<2] = [0, 1 :: nat]"
  by (simp_all add: upt_rec)

lemmas merge_conditions = mergeable_def behind_other_def before_other_def

lemma absorb_table:
  "length (al_spaces a) = ALLOCATOR_NB_SPACES c \<Longrightarrow> d < ALLOCATOR_NB_SPACES c \<Longrightarrow> k \<noteq> d \<Longrightarrow>
   pok_allocator_delete_space c d (grow_space k d a) = a\<lparr>al_used := al_used a - 1,
     al_spaces := (let sps = (al_spaces a)[k := (al_spaces a ! k)\<lparr>sp_size := sp_size (al_spaces a ! k) + sp_size (al_spaces a ! d)\<rparr>]
                   in take d sps @ drop (Suc d) sps @ [behind_spaces c])\<rparr>"
  using delete_space_spaces [of "grow_space k d a" c d]
  by (simp add: grow_space_def pok_allocator_delete_space_def Let_def)

lemma merge_stops: "find (mergeable k (al_spaces a)) [0..<unat (al_used a)] = None \<Longrightarrow> pok_allocator_merge_space c k a = a"
  by (subst pok_allocator_merge_space.simps) simp

lemma merge_goes_on:
  "al_used a \<noteq> 1 \<Longrightarrow> find (mergeable k (al_spaces a)) [0..<unat (al_used a)] = Some k2 \<Longrightarrow>
   pok_allocator_merge_space c k a = pok_allocator_merge_space c k2 (merge_step c k k2 a)"
  by (subst pok_allocator_merge_space.simps) simp

text \<open>Releasing a block can release its neighbour: after the allocation of three blocks, the release of the second
  and then of the first gives up the third as well, which is still in use, and the table is that of an allocator
  from which nothing was taken. The next block that is allocated, of any size, starts at the first address, and one
  as large as the three overlaps the third.\<close>

theorem free_releases_neighbour:
  assumes "6 \<le> ALLOCATOR_NB_SPACES c" "ALLOCATOR_NB_SPACES c < 2 ^ 32" "behind_spaces c = empty_space"
    and "0 < x" "0 < y" "0 < z" "unat x + unat y + unat z < unat (ALLOCATOR_MEMORY_SIZE c)"
    and "a = user_free c (Some 0) (user_free c (Some x) (three_blocks c x y z))"
  shows "a = POK_ALLOCATOR_CHECK_INIT c (alloc_start c) \<and>
    al_spaces (three_blocks c x y z) ! 2 = \<lparr>sp_start = x + y, sp_size = z, sp_allocated = 1\<rparr> \<and>
    (n \<le> ALLOCATOR_MEMORY_SIZE c \<longrightarrow> fst (user_malloc c n a) = Some 0)"
proof -
  let ?m = "ALLOCATOR_MEMORY_SIZE c"
  obtain r where r: "ALLOCATOR_NB_SPACES c = r + 6" using assms(1) by (metis add.commute le_Suc_ex)
  let ?A = "\<lparr>sp_start = 0, sp_size = x, sp_allocated = 1\<rparr> :: pok_allocator_space_t"
  let ?B = "\<lparr>sp_start = x, sp_size = y, sp_allocated = 0\<rparr> :: pok_allocator_space_t"
  let ?C = "\<lparr>sp_start = x + y, sp_size = z, sp_allocated = 1\<rparr> :: pok_allocator_space_t"
  let ?D = "\<lparr>sp_start = x + y + z, sp_size = ?m - x - y - z, sp_allocated = 0\<rparr> :: pok_allocator_space_t"
  note t = three_blocks_table [OF r assms(2,4-7)]
  have xy: "unat (x + y) = unat x + unat y" "unat (x + y + z) = unat x + unat y + unat z"
    using assms(7) unsigned_less [where 'a = nat, of ?m] by (simp_all add: unat_word_ariths)
  have ne: "x \<noteq> 0" "y \<noteq> 0" "z \<noteq> 0" "x \<noteq> ?m" "?m \<noteq> 0" "x + y \<noteq> 0" "x + y \<noteq> ?m"
    using assms(4-7) xy by (auto simp: unat_gt_0 [symmetric] word_neq_0_conv [symmetric] simp flip: word_unat_eq_iff)
  have f1: "user_free c (Some x) (three_blocks c x y z) =
      \<lparr>al_spaces = [?A, ?B, ?C, ?D] @ replicate (r + 2) empty_space, al_used = 4, al_initialized = True\<rparr>"
    unfolding t using ne
    by (simp add: user_free_def pok_allocator_free_def POK_ALLOCATOR_CHECK_INIT_def Let_def small_upts)
      (subst merge_stops; simp add: merge_conditions small_upts)
  let ?P = "\<lparr>sp_start = 0, sp_size = x + y, sp_allocated = 0\<rparr> :: pok_allocator_space_t"
  let ?Q = "\<lparr>sp_start = 0, sp_size = x + y + z, sp_allocated = 0\<rparr> :: pok_allocator_space_t"
  let ?T = "\<lparr>al_spaces = [?A\<lparr>sp_allocated := 0\<rparr>, ?B, ?C, ?D] @ replicate (r + 2) empty_space, al_used = 4, al_initialized = True\<rparr>"
  let ?U = "\<lparr>al_spaces = [?P, ?C, ?D] @ replicate (r + 3) empty_space, al_used = 3, al_initialized = True\<rparr>"
  let ?V = "\<lparr>al_spaces = [?Q, ?D] @ replicate (r + 4) empty_space, al_used = 2, al_initialized = True\<rparr>"
  have f2: "user_free c (Some 0) (user_free c (Some x) (three_blocks c x y z)) = pok_allocator_merge_space c 0 ?T"
    unfolding f1 by (simp add: user_free_def pok_allocator_free_def POK_ALLOCATOR_CHECK_INIT_def Let_def small_upts)
  have "pok_allocator_merge_space c 0 ?T = pok_allocator_merge_space c 1 (merge_step c 0 1 ?T)"
    using ne by (intro merge_goes_on) (simp_all add: merge_conditions small_upts)
  also have "merge_step c 0 1 ?T = ?U"
    using ne absorb_table [of ?T c 1 0] r assms(3)
    by (simp add: merge_step_def merge_conditions numeral_3_eq_3 replicate_append_same)
  also have "pok_allocator_merge_space c 1 ?U = pok_allocator_merge_space c 0 (merge_step c 1 0 ?U)"
    using ne by (intro merge_goes_on) (simp_all add: merge_conditions small_upts)
  also have "merge_step c 1 0 ?U = ?V"
    using ne absorb_table [of ?U c 1 0] r assms(3)
    by (simp add: merge_step_def merge_conditions numeral_3_eq_3 eval_nat_numeral replicate_append_same)
  also have "pok_allocator_merge_space c 0 ?V = pok_allocator_merge_space c 1 (merge_step c 0 1 ?V)"
    using ne by (intro merge_goes_on) (simp_all add: merge_conditions small_upts)
  also have "merge_step c 0 1 ?V = POK_ALLOCATOR_CHECK_INIT c (alloc_start c)"
    using ne absorb_table [of ?V c 1 0] r assms(3) cleared_table [of "alloc_start c" c]
    by (simp add: merge_step_def merge_conditions eval_nat_numeral replicate_append_same alloc_start_def)
  also have "pok_allocator_merge_space c 1 (POK_ALLOCATOR_CHECK_INIT c (alloc_start c)) = POK_ALLOCATOR_CHECK_INIT c (alloc_start c)"
    using cleared_table [of "alloc_start c" c] r
    by (subst pok_allocator_merge_space.simps) (simp add: alloc_start_def)
  finally have a: "a = POK_ALLOCATOR_CHECK_INIT c (alloc_start c)" unfolding assms(8) f2 .
  have "fst (user_malloc c n a) = Some 0" if "n \<le> ?m"
  proof -
    have "POK_ALLOCATOR_CHECK_INIT c a = a" "al_used a = 1" "al_spaces a ! 0 = \<lparr>sp_start = 0, sp_size = ?m, sp_allocated = 0\<rparr>"
      unfolding a using cleared_table [of "alloc_start c" c] r
      by (simp_all add: alloc_start_def POK_ALLOCATOR_CHECK_INIT_def)
    then show ?thesis using that r by (simp add: user_malloc_def pok_allocator_allocate_def suits_def)
  qed
  then show ?thesis using a by (simp add: t)
qed

subsection \<open>Concrete allocators\<close>

definition demo_alloc :: alloc_config where
  "demo_alloc = \<lparr>ALLOCATOR_MEMORY_SIZE = 1000, ALLOCATOR_NB_SPACES = 7, behind_spaces = empty_space\<rparr>"

lemma demo_alloc_fields [simp]:
  "ALLOCATOR_MEMORY_SIZE demo_alloc = 1000" "ALLOCATOR_NB_SPACES demo_alloc = 7" "behind_spaces demo_alloc = empty_space"
  by (simp_all add: demo_alloc_def)

lemma demo_alloc_ready: "alloc_ready demo_alloc (alloc_start demo_alloc)" "quiet_behind demo_alloc"
  by (simp_all add: alloc_ready_def alloc_start_def quiet_behind_def empty_space_def)

lemma all_less_small:
  "(\<forall>k < 4. P k) = (P 0 \<and> P 1 \<and> P 2 \<and> P (3 :: nat))"
  "(\<forall>k < 7. P k) = (P 0 \<and> P 1 \<and> P 2 \<and> P 3 \<and> P 4 \<and> P 5 \<and> P (6 :: nat))"
proof -
  have "(k < 4) = (k = 0 \<or> k = 1 \<or> k = 2 \<or> k = (3 :: nat))" for k by arith
  then show "(\<forall>k < 4. P k) = (P 0 \<and> P 1 \<and> P 2 \<and> P (3 :: nat))" by metis
  have "(k < 7) = (k = 0 \<or> k = 1 \<or> k = 2 \<or> k = 3 \<or> k = 4 \<or> k = 5 \<or> k = (6 :: nat))" for k by arith
  then show "(\<forall>k < 7. P k) = (P 0 \<and> P 1 \<and> P 2 \<and> P 3 \<and> P 4 \<and> P 5 \<and> P (6 :: nat))" by metis
qed

lemma demo_three_blocks: "three_blocks demo_alloc 10 20 30 =
    \<lparr>al_spaces = [\<lparr>sp_start = 0, sp_size = 10, sp_allocated = 1\<rparr>, \<lparr>sp_start = 10, sp_size = 20, sp_allocated = 1\<rparr>,
      \<lparr>sp_start = 30, sp_size = 30, sp_allocated = 1\<rparr>, \<lparr>sp_start = 60, sp_size = 940, sp_allocated = 0\<rparr>,
      empty_space, empty_space, empty_space], al_used = 4, al_initialized = True\<rparr>"
  using three_blocks_table [of demo_alloc 1 10 20 30] by (simp add: numeral_3_eq_3)


lemma spaces_never_overlap_witness:
  "\<not> covers 0 (al_spaces (fold (run_call demo_alloc) [Call_malloc 10] (alloc_start demo_alloc)) ! 1)"
proof -
  let ?a = "fold (run_call demo_alloc) [Call_malloc 10] (alloc_start demo_alloc)"
  have i: "POK_ALLOCATOR_CHECK_INIT demo_alloc (alloc_start demo_alloc) =
      \<lparr>al_spaces = \<lparr>sp_start = 0, sp_size = 1000, sp_allocated = 0\<rparr> # replicate 6 empty_space, al_used = 1, al_initialized = True\<rparr>"
    using cleared_table [of "alloc_start demo_alloc" demo_alloc] by (simp add: alloc_start_def)
  have a: "al_spaces ?a ! 0 = \<lparr>sp_start = 0, sp_size = 10, sp_allocated = 1\<rparr>" "al_used ?a = 2"
    by (simp_all add: user_malloc_def pok_allocator_allocate_def i suits_def take_space_def Let_def)
  then have "covers 0 (al_spaces ?a ! 0)" by (simp add: covers_def)
  moreover have "length (filter cuts [Call_malloc 10]) < ALLOCATOR_NB_SPACES demo_alloc - 1 \<or> quiet_behind demo_alloc" by simp
  ultimately show ?thesis using spaces_never_overlap [of demo_alloc "[Call_malloc 10]" ?a 0 0] a(2) by simp
qed

lemma free_undoes_allocate_witness:
  "\<exists>a'. user_malloc demo_alloc 40 (three_blocks demo_alloc 10 20 30) = (Some 60, a') \<and>
    user_free demo_alloc (Some 60) a' = three_blocks demo_alloc 10 20 30"
proof -
  have c: "covers x \<lparr>sp_start = 0, sp_size = 10, sp_allocated = 1\<rparr> = (x < 10)"
    "covers x \<lparr>sp_start = 10, sp_size = 20, sp_allocated = 1\<rparr> = (10 \<le> x \<and> x < 30)"
    "covers x \<lparr>sp_start = 30, sp_size = 30, sp_allocated = 1\<rparr> = (30 \<le> x \<and> x < 60)"
    "covers x \<lparr>sp_start = 60, sp_size = 940, sp_allocated = 0\<rparr> = (60 \<le> x \<and> x < 1000)" for x
    by (simp_all add: covers_def)
  have "alloc_ok demo_alloc (three_blocks demo_alloc 10 20 30)"
    unfolding demo_three_blocks
    by (rule alloc_okI) (simp_all add: c in_memory_def empty_space_def covers_def)
  then have tidy: "alloc_tidy demo_alloc (three_blocks demo_alloc 10 20 30)"
    unfolding alloc_tidy_def
    by (simp add: demo_three_blocks before_other_def all_less_small)
  have "fst (user_malloc demo_alloc 40 (three_blocks demo_alloc 10 20 30)) = Some 60"
    by (simp add: demo_three_blocks user_malloc_def pok_allocator_allocate_def POK_ALLOCATOR_CHECK_INIT_def suits_def Let_def small_upts)
  moreover have "0 < (40 :: u32)" "ALLOCATOR_NB_SPACES demo_alloc < 2 ^ 32" by simp_all
  note free_undoes_allocate [OF tidy this]
  ultimately show ?thesis
    by (cases "user_malloc demo_alloc 40 (three_blocks demo_alloc 10 20 30)") auto
qed

lemma free_releases_neighbour_witness:
  "fst (user_malloc demo_alloc 60 (user_free demo_alloc (Some 0) (user_free demo_alloc (Some 10)
      (three_blocks demo_alloc 10 20 30)))) = Some 0 \<and>
   al_spaces (three_blocks demo_alloc 10 20 30) ! 2 = \<lparr>sp_start = 30, sp_size = 30, sp_allocated = 1\<rparr>"
  using free_releases_neighbour [of demo_alloc 10 20 30 _ 60, OF _ _ _ _ _ _ _ refl, THEN conjunct2] by simp

end
