(* ===== verification/Pok_User_Calls.thy ===== *)
theory Pok_User_Calls
  imports Pok_Syscall Pok_Libc
begin

text \<open>
  The system calls as the library of the partitions makes them (\<open>libpok/core\<close>, \<open>libpok/middleware/port*.c\<close> and
  \<open>libpok/arch/x86/syscall.c\<close>): a function puts its structures and the block of the arguments on the stack of the
  calling thread, and enters the gate of the kernel. Addresses are those of the program, offsets from the base of
  the partition's segment. The places the compiler gives to the argument block and to the local structure are
  parameters of a call. A field that a function does not set keeps what was in memory.
\<close>

unbundle bit_operations_syntax

subsection \<open>The gate, seen from the program\<close>

record ucall =
  uc_config :: pok_config
  uc_cs :: u32
  uc_args :: u32
  uc_local :: u32

definition ubase :: "ucall \<Rightarrow> kstate \<Rightarrow> u32" where
  "ubase u s = p_base_addr (pok_partitions s (PARTITION_ID (uc_config u) (uc_cs u)))"

definition sysno :: "pok_syscall_id_t \<Rightarrow> u32" where
  "sysno sid = (case sid of
      POK_SYSCALL_CONSWRITE \<Rightarrow> 10 | POK_SYSCALL_GETCHAR \<Rightarrow> 11 | POK_SYSCALL_GETTICK \<Rightarrow> 20
    | POK_SYSCALL_THREAD_CREATE \<Rightarrow> 50 | POK_SYSCALL_THREAD_SLEEP_UNTIL \<Rightarrow> 51 | POK_SYSCALL_THREAD_SLEEP \<Rightarrow> 52
    | POK_SYSCALL_THREAD_SUSPEND \<Rightarrow> 53 | POK_SYSCALL_THREAD_RESTART \<Rightarrow> 54 | POK_SYSCALL_THREAD_STOP \<Rightarrow> 55
    | POK_SYSCALL_THREAD_PERIOD \<Rightarrow> 56 | POK_SYSCALL_THREAD_STOPSELF \<Rightarrow> 57 | POK_SYSCALL_THREAD_ID \<Rightarrow> 58
    | POK_SYSCALL_THREAD_STATUS \<Rightarrow> 59 | POK_SYSCALL_THREAD_SET_PRIORITY \<Rightarrow> 60 | POK_SYSCALL_THREAD_RESUME \<Rightarrow> 61
    | POK_SYSCALL_THREAD_SUSPEND_TARGET \<Rightarrow> 62 | POK_SYSCALL_THREAD_DELAYED_START \<Rightarrow> 65
    | POK_SYSCALL_MIDDLEWARE_SAMPLING_ID \<Rightarrow> 101 | POK_SYSCALL_MIDDLEWARE_SAMPLING_READ \<Rightarrow> 102
    | POK_SYSCALL_MIDDLEWARE_SAMPLING_STATUS \<Rightarrow> 103 | POK_SYSCALL_MIDDLEWARE_SAMPLING_WRITE \<Rightarrow> 104
    | POK_SYSCALL_MIDDLEWARE_SAMPLING_CREATE \<Rightarrow> 105 | POK_SYSCALL_MIDDLEWARE_QUEUEING_CREATE \<Rightarrow> 110
    | POK_SYSCALL_MIDDLEWARE_QUEUEING_SEND \<Rightarrow> 111 | POK_SYSCALL_MIDDLEWARE_QUEUEING_RECEIVE \<Rightarrow> 112
    | POK_SYSCALL_MIDDLEWARE_QUEUEING_ID \<Rightarrow> 113 | POK_SYSCALL_MIDDLEWARE_QUEUEING_STATUS \<Rightarrow> 114
    | POK_SYSCALL_MIDDLEWARE_NODE_MAC_ADDR \<Rightarrow> 120 | POK_SYSCALL_MIDDLEWARE_VIRTUAL_CREATE \<Rightarrow> 150
    | POK_SYSCALL_MIDDLEWARE_VIRTUAL_NB_DESTINATIONS \<Rightarrow> 151 | POK_SYSCALL_MIDDLEWARE_VIRTUAL_DESTINATION \<Rightarrow> 152
    | POK_SYSCALL_MIDDLEWARE_VIRTUAL_GET_GLOBAL \<Rightarrow> 153 | POK_SYSCALL_MIDDLEWARE_VIRTUAL_NODE \<Rightarrow> 154
    | POK_SYSCALL_LOCKOBJ_CREATE \<Rightarrow> 201 | POK_SYSCALL_LOCKOBJ_OPERATION \<Rightarrow> 202
    | POK_SYSCALL_ERROR_HANDLER_CREATE \<Rightarrow> 301 | POK_SYSCALL_ERROR_RAISE_APPLICATION_ERROR \<Rightarrow> 303
    | POK_SYSCALL_ERROR_GET \<Rightarrow> 304 | POK_SYSCALL_PARTITION_SET_MODE \<Rightarrow> 404 | POK_SYSCALL_PARTITION_GET_ID \<Rightarrow> 405
    | POK_SYSCALL_PARTITION_GET_PERIOD \<Rightarrow> 406 | POK_SYSCALL_PARTITION_GET_DURATION \<Rightarrow> 407
    | POK_SYSCALL_PARTITION_GET_LOCK_LEVEL \<Rightarrow> 408 | POK_SYSCALL_PARTITION_GET_OPERATING_MODE \<Rightarrow> 409
    | POK_SYSCALL_PARTITION_GET_START_CONDITION \<Rightarrow> 410 | POK_SYSCALL_INB \<Rightarrow> 501 | POK_SYSCALL_OUTB \<Rightarrow> 502
    | POK_SYSCALL_SHUTDOWN \<Rightarrow> 707 | POK_SYSCALL_OTHER \<Rightarrow> 0)"

definition store_args :: "u32 \<Rightarrow> pok_syscall_args_t \<Rightarrow> kstate \<Rightarrow> kstate" where
  "store_args a args s =
     wr32 (a + 20) (sa_arg5 args) (wr32 (a + 16) (sa_arg4 args) (wr32 (a + 12) (sa_arg3 args)
       (wr32 (a + 8) (sa_arg2 args) (wr32 (a + 4) (sa_arg1 args) (wr32 a (sa_nargs args) s)))))"

definition pok_do_syscall :: "ucall \<Rightarrow> pok_syscall_id_t \<Rightarrow> pok_syscall_args_t \<Rightarrow> kstate \<Rightarrow> sys_result" where
  "pok_do_syscall u sid args s =
     syscall_gate (uc_config u) (uc_cs u) (sysno sid) (uc_args u) (store_args (uc_args u + ubase u s) args s)"

definition pok_syscall0 :: "ucall \<Rightarrow> pok_syscall_id_t \<Rightarrow> kstate \<Rightarrow> sys_result" where
  "pok_syscall0 u sid = pok_do_syscall u sid \<lparr>sa_nargs = 0, sa_arg1 = 0, sa_arg2 = 0, sa_arg3 = 0, sa_arg4 = 0, sa_arg5 = 0\<rparr>"

definition pok_syscall1 :: "ucall \<Rightarrow> pok_syscall_id_t \<Rightarrow> u32 \<Rightarrow> kstate \<Rightarrow> sys_result" where
  "pok_syscall1 u sid x1 = pok_do_syscall u sid \<lparr>sa_nargs = 1, sa_arg1 = x1, sa_arg2 = 0, sa_arg3 = 0, sa_arg4 = 0, sa_arg5 = 0\<rparr>"

definition pok_syscall2 :: "ucall \<Rightarrow> pok_syscall_id_t \<Rightarrow> u32 \<Rightarrow> u32 \<Rightarrow> kstate \<Rightarrow> sys_result" where
  "pok_syscall2 u sid x1 x2 = pok_do_syscall u sid \<lparr>sa_nargs = 2, sa_arg1 = x1, sa_arg2 = x2, sa_arg3 = 0, sa_arg4 = 0, sa_arg5 = 0\<rparr>"

definition pok_syscall3 :: "ucall \<Rightarrow> pok_syscall_id_t \<Rightarrow> u32 \<Rightarrow> u32 \<Rightarrow> u32 \<Rightarrow> kstate \<Rightarrow> sys_result" where
  "pok_syscall3 u sid x1 x2 x3 = pok_do_syscall u sid \<lparr>sa_nargs = 3, sa_arg1 = x1, sa_arg2 = x2, sa_arg3 = x3, sa_arg4 = 0, sa_arg5 = 0\<rparr>"

definition pok_syscall4 :: "ucall \<Rightarrow> pok_syscall_id_t \<Rightarrow> u32 \<Rightarrow> u32 \<Rightarrow> u32 \<Rightarrow> u32 \<Rightarrow> kstate \<Rightarrow> sys_result" where
  "pok_syscall4 u sid x1 x2 x3 x4 = pok_do_syscall u sid \<lparr>sa_nargs = 4, sa_arg1 = x1, sa_arg2 = x2, sa_arg3 = x3, sa_arg4 = x4, sa_arg5 = 0\<rparr>"

definition pok_syscall5 :: "ucall \<Rightarrow> pok_syscall_id_t \<Rightarrow> u32 \<Rightarrow> u32 \<Rightarrow> u32 \<Rightarrow> u32 \<Rightarrow> u32 \<Rightarrow> kstate \<Rightarrow> sys_result" where
  "pok_syscall5 u sid x1 x2 x3 x4 x5 = pok_do_syscall u sid \<lparr>sa_nargs = 5, sa_arg1 = x1, sa_arg2 = x2, sa_arg3 = x3, sa_arg4 = x4, sa_arg5 = x5\<rparr>"

subsection \<open>Lock objects\<close>

definition wr16 :: "u32 \<Rightarrow> u16 \<Rightarrow> kstate \<Rightarrow> kstate" where
  "wr16 a w = mem_put a (\<lambda>i. ucast (drop_bit (8 * i) w)) 2"

text \<open>The operation of a lock object: its code, the kind, and the time for those that set it.\<close>

definition lock_operation :: "ucall \<Rightarrow> u32 \<Rightarrow> u32 \<Rightarrow> u64 option \<Rightarrow> u32 \<Rightarrow> kstate \<Rightarrow> sys_result" where
  "lock_operation u operation obj_kind timeout oid s =
     (let a = uc_local u + ubase u s;
          s1 = wr32 a operation s;
          s2 = (case timeout of None \<Rightarrow> s1 | Some t \<Rightarrow> wr64 (a + 12) t s1);
          s3 = wr32 (a + 4) obj_kind s2
      in pok_syscall2 u POK_SYSCALL_LOCKOBJ_OPERATION oid (uc_local u) s3)"

text \<open>Identifiers of events have two bytes, those of mutexes and semaphores one.\<close>

definition user_event_lock :: "ucall \<Rightarrow> u16 \<Rightarrow> kstate \<Rightarrow> sys_result" where
  "user_event_lock u oid = lock_operation u 1 3 (Some 0) (ucast oid)"

definition user_event_unlock :: "ucall \<Rightarrow> u16 \<Rightarrow> kstate \<Rightarrow> sys_result" where
  "user_event_unlock u oid = lock_operation u 2 3 None (ucast oid)"

definition user_event_wait :: "ucall \<Rightarrow> u16 \<Rightarrow> u64 \<Rightarrow> kstate \<Rightarrow> sys_result" where
  "user_event_wait u oid timeout_us = lock_operation u 3 3 (Some (timeout_us * 1000)) (ucast oid)"

definition user_event_signal :: "ucall \<Rightarrow> u16 \<Rightarrow> kstate \<Rightarrow> sys_result" where
  "user_event_signal u oid = lock_operation u 4 3 None (ucast oid)"

definition user_event_broadcast :: "ucall \<Rightarrow> u16 \<Rightarrow> kstate \<Rightarrow> sys_result" where
  "user_event_broadcast u oid = lock_operation u 5 3 None (ucast oid)"

definition user_mutex_lock :: "ucall \<Rightarrow> u8 \<Rightarrow> kstate \<Rightarrow> sys_result" where
  "user_mutex_lock u oid = lock_operation u 1 1 (Some 0) (ucast oid)"

definition user_mutex_trylock :: "ucall \<Rightarrow> u8 \<Rightarrow> u64 \<Rightarrow> kstate \<Rightarrow> sys_result" where
  "user_mutex_trylock u oid timeout_us = lock_operation u 1 1 (Some (timeout_us * 1000)) (ucast oid)"

definition user_mutex_unlock :: "ucall \<Rightarrow> u8 \<Rightarrow> kstate \<Rightarrow> sys_result" where
  "user_mutex_unlock u oid = lock_operation u 2 1 None (ucast oid)"

definition user_sem_wait :: "ucall \<Rightarrow> u8 \<Rightarrow> u64 \<Rightarrow> kstate \<Rightarrow> sys_result" where
  "user_sem_wait u oid timeout_us = lock_operation u 1 2 (Some (timeout_us * 1000)) (ucast oid)"

definition user_sem_signal :: "ucall \<Rightarrow> u8 \<Rightarrow> kstate \<Rightarrow> sys_result" where
  "user_sem_signal u oid = lock_operation u 2 2 None (ucast oid)"

definition user_sem_status :: "kstate \<Rightarrow> sys_result" where
  "user_sem_status s = Some (errno POK_ERRNO_UNAVAILABLE, s)"

text \<open>The creation of an event sets neither the discipline nor the values of its attributes; that of a mutex not the
  values. \<open>id_ptr\<close> is the address of the identifier.\<close>

definition user_event_create :: "ucall \<Rightarrow> u32 \<Rightarrow> kstate \<Rightarrow> sys_result" where
  "user_event_create u id_ptr s =
     (let a = uc_local u + ubase u s
      in pok_syscall2 u POK_SYSCALL_LOCKOBJ_CREATE id_ptr (uc_local u) (wr32 (a + 4) 0 (wr32 a 3 s)))"

definition user_mutex_create :: "ucall \<Rightarrow> u32 \<Rightarrow> u32 \<Rightarrow> u32 \<Rightarrow> kstate \<Rightarrow> sys_result" where
  "user_mutex_create u id_ptr queueing_discipline locking_policy s =
     (let a = uc_local u + ubase u s
      in pok_syscall2 u POK_SYSCALL_LOCKOBJ_CREATE id_ptr (uc_local u)
           (wr32 (a + 4) locking_policy (wr32 (a + 8) queueing_discipline (wr32 a 1 s))))"

definition user_sem_create :: "ucall \<Rightarrow> u32 \<Rightarrow> u16 \<Rightarrow> u16 \<Rightarrow> u32 \<Rightarrow> kstate \<Rightarrow> sys_result" where
  "user_sem_create u id_ptr current_value max_value discipline s =
     (let a = uc_local u + ubase u s
      in pok_syscall2 u POK_SYSCALL_LOCKOBJ_CREATE id_ptr (uc_local u)
           (wr32 a 2 (wr32 (a + 4) 0 (wr32 (a + 8) discipline (wr16 (a + 14) max_value (wr16 (a + 12) current_value s))))))"

subsection \<open>Threads, time and partitions\<close>

definition POK_THREAD_DEFAULT_PRIORITY :: u8 where "POK_THREAD_DEFAULT_PRIORITY = 42"

definition user_thread_attr_init :: "ucall \<Rightarrow> u32 \<Rightarrow> kstate \<Rightarrow> sys_result" where
  "user_thread_attr_init u attr s =
     (if attr = 0 then Some (errno POK_ERRNO_EINVAL, s)
      else let a = attr + ubase u s
           in Some (errno POK_ERRNO_OK, wr64 (a + 24) 0 (wr64 (a + 16) 0 (wr64 (a + 8) 0 (wr32 (a + 4) 0
                (wr8 a POK_THREAD_DEFAULT_PRIORITY s))))))"

definition user_thread_create :: "ucall \<Rightarrow> u32 \<Rightarrow> u32 \<Rightarrow> kstate \<Rightarrow> sys_result" where
  "user_thread_create u thread_id attr = pok_syscall2 u POK_SYSCALL_THREAD_CREATE thread_id attr"

definition user_thread_delayed_start :: "ucall \<Rightarrow> u32 \<Rightarrow> u64 \<Rightarrow> kstate \<Rightarrow> sys_result" where
  "user_thread_delayed_start u thread_id us = pok_syscall2 u POK_SYSCALL_THREAD_DELAYED_START thread_id (ucast us)"

definition user_thread_id :: "ucall \<Rightarrow> u32 \<Rightarrow> kstate \<Rightarrow> sys_result" where
  "user_thread_id u thread_id = pok_syscall2 u POK_SYSCALL_THREAD_ID thread_id 0"

definition user_thread_period :: "ucall \<Rightarrow> kstate \<Rightarrow> sys_result" where
  "user_thread_period u = pok_syscall2 u POK_SYSCALL_THREAD_PERIOD 0 0"

definition user_thread_set_priority :: "ucall \<Rightarrow> u32 \<Rightarrow> u32 \<Rightarrow> kstate \<Rightarrow> sys_result" where
  "user_thread_set_priority u thread_id priority = pok_syscall2 u POK_SYSCALL_THREAD_SET_PRIORITY thread_id priority"

definition user_thread_resume :: "ucall \<Rightarrow> u32 \<Rightarrow> kstate \<Rightarrow> sys_result" where
  "user_thread_resume u thread_id = pok_syscall2 u POK_SYSCALL_THREAD_RESUME thread_id 0"

definition user_thread_sleep :: "ucall \<Rightarrow> u64 \<Rightarrow> kstate \<Rightarrow> sys_result" where
  "user_thread_sleep u us = pok_syscall2 u POK_SYSCALL_THREAD_SLEEP (ucast us) 0"

definition user_thread_status :: "ucall \<Rightarrow> u32 \<Rightarrow> u32 \<Rightarrow> kstate \<Rightarrow> sys_result" where
  "user_thread_status u thread_id attr = pok_syscall2 u POK_SYSCALL_THREAD_STATUS thread_id attr"

definition user_thread_sleep_until :: "ucall \<Rightarrow> u64 \<Rightarrow> kstate \<Rightarrow> sys_result" where
  "user_thread_sleep_until u time = pok_syscall2 u POK_SYSCALL_THREAD_SLEEP_UNTIL (ucast time) 0"

definition user_thread_suspend :: "ucall \<Rightarrow> kstate \<Rightarrow> sys_result" where
  "user_thread_suspend u = pok_syscall2 u POK_SYSCALL_THREAD_SUSPEND 0 0"

definition user_thread_suspend_target :: "ucall \<Rightarrow> u32 \<Rightarrow> kstate \<Rightarrow> sys_result" where
  "user_thread_suspend_target u thread_id = pok_syscall2 u POK_SYSCALL_THREAD_SUSPEND_TARGET thread_id 0"

definition user_thread_restart :: "ucall \<Rightarrow> u32 \<Rightarrow> kstate \<Rightarrow> sys_result" where
  "user_thread_restart u thread_id = pok_syscall2 u POK_SYSCALL_THREAD_RESTART thread_id 0"

definition user_thread_stop_self :: "ucall \<Rightarrow> kstate \<Rightarrow> sys_result" where
  "user_thread_stop_self u = pok_syscall2 u POK_SYSCALL_THREAD_STOPSELF 0 0"

definition user_thread_stop :: "ucall \<Rightarrow> u32 \<Rightarrow> kstate \<Rightarrow> sys_result" where
  "user_thread_stop u thread_id = pok_syscall2 u POK_SYSCALL_THREAD_STOP thread_id 0"

definition user_time_gettick :: "ucall \<Rightarrow> u32 \<Rightarrow> kstate \<Rightarrow> sys_result" where
  "user_time_gettick u p = pok_syscall2 u POK_SYSCALL_GETTICK p 0"

definition user_time_get :: "ucall \<Rightarrow> u32 \<Rightarrow> kstate \<Rightarrow> sys_result" where
  "user_time_get u ns = user_time_gettick u ns"

definition user_time_compute_deadline :: "ucall \<Rightarrow> u64 \<Rightarrow> u32 \<Rightarrow> kstate \<Rightarrow> sys_result" where
  "user_time_compute_deadline u relative absolute s = do {
     (ret, s1) \<leftarrow> user_time_gettick u absolute s;
     if ret \<noteq> errno POK_ERRNO_OK then Some (errno POK_ERRNO_TIME, s1)
     else let a = absolute + ubase u s1 in Some (errno POK_ERRNO_OK, wr64 a (rd64 (ks_mem s1) a + relative) s1)
   }"

definition user_partition_set_mode :: "ucall \<Rightarrow> u32 \<Rightarrow> kstate \<Rightarrow> sys_result" where
  "user_partition_set_mode u mode = pok_syscall2 u POK_SYSCALL_PARTITION_SET_MODE mode 0"

definition user_partition_get_id :: "ucall \<Rightarrow> u32 \<Rightarrow> kstate \<Rightarrow> sys_result" where
  "user_partition_get_id u p = pok_syscall2 u POK_SYSCALL_PARTITION_GET_ID p 0"

definition user_partition_get_period :: "ucall \<Rightarrow> u32 \<Rightarrow> kstate \<Rightarrow> sys_result" where
  "user_partition_get_period u p = pok_syscall2 u POK_SYSCALL_PARTITION_GET_PERIOD p 0"

definition user_partition_get_duration :: "ucall \<Rightarrow> u32 \<Rightarrow> kstate \<Rightarrow> sys_result" where
  "user_partition_get_duration u p = pok_syscall2 u POK_SYSCALL_PARTITION_GET_DURATION p 0"

definition user_partition_get_lock_level :: "ucall \<Rightarrow> u32 \<Rightarrow> kstate \<Rightarrow> sys_result" where
  "user_partition_get_lock_level u p = pok_syscall2 u POK_SYSCALL_PARTITION_GET_LOCK_LEVEL p 0"

definition user_partition_get_operating_mode :: "ucall \<Rightarrow> u32 \<Rightarrow> kstate \<Rightarrow> sys_result" where
  "user_partition_get_operating_mode u p = pok_syscall2 u POK_SYSCALL_PARTITION_GET_OPERATING_MODE p 0"

definition user_partition_get_start_condition :: "ucall \<Rightarrow> u32 \<Rightarrow> kstate \<Rightarrow> sys_result" where
  "user_partition_get_start_condition u p = pok_syscall2 u POK_SYSCALL_PARTITION_GET_START_CONDITION p 0"

subsection \<open>Errors and the end of the program\<close>

definition POK_DEFAULT_STACK_SIZE :: u32 where "POK_DEFAULT_STACK_SIZE = 2048"

definition user_error_get :: "ucall \<Rightarrow> u32 \<Rightarrow> kstate \<Rightarrow> sys_result" where
  "user_error_get u status = pok_syscall2 u POK_SYSCALL_ERROR_GET status 0"

text \<open>\<open>worker\<close> is the address of the error handler.\<close>

definition user_error_handler_create :: "ucall \<Rightarrow> u32 \<Rightarrow> kstate \<Rightarrow> sys_result" where
  "user_error_handler_create u worker = pok_syscall2 u POK_SYSCALL_ERROR_HANDLER_CREATE POK_DEFAULT_STACK_SIZE worker"

definition user_error_raise_application_error :: "ucall \<Rightarrow> u32 \<Rightarrow> u32 \<Rightarrow> kstate \<Rightarrow> kstate option" where
  "user_error_raise_application_error u msg msg_size s =
     map_option snd (pok_syscall2 u POK_SYSCALL_ERROR_RAISE_APPLICATION_ERROR msg msg_size s)"

text \<open>The error handler of a program without its own, without its messages.\<close>

definition user_error_handler_worker :: "ucall \<Rightarrow> kstate \<Rightarrow> kstate option" where
  "user_error_handler_worker u s = do {
     (ret, s1) \<leftarrow> user_error_get u (uc_local u) s;
     (ret2, s2) \<leftarrow> user_partition_set_mode u 6 s1;
     Some s2
   }"

text \<open>The log of errors is an array at an address of the program; the number of entries is returned, and is not
  compared with the length of the array.\<close>

definition user_error_log :: "ucall \<Rightarrow> u32 \<Rightarrow> u32 \<Rightarrow> u32 \<Rightarrow> u16 \<Rightarrow> kstate \<Rightarrow> (u16 \<times> kstate) option" where
  "user_error_log u reported error_id thread_id nb s =
     (let entry = reported + 16 * ucast nb; a = entry + ubase u s in do {
        (ret, s1) \<leftarrow> user_time_gettick u (entry + 8) (wr32 (a + 4) error_id (wr32 a thread_id s));
        Some (nb + 1, s1)
      })"

definition user_error_confirm :: "ucall \<Rightarrow> u32 \<Rightarrow> u32 \<Rightarrow> u32 \<Rightarrow> u16 \<Rightarrow> kstate \<Rightarrow> (u16 \<times> kstate) option" where
  "user_error_confirm = user_error_log"

definition user_error_ignore :: "ucall \<Rightarrow> u32 \<Rightarrow> u32 \<Rightarrow> u32 \<Rightarrow> u16 \<Rightarrow> kstate \<Rightarrow> (u16 \<times> kstate) option" where
  "user_error_ignore = user_error_log"

text \<open>If the call comes back, the program stays in a loop.\<close>

definition user_shutdown :: "ucall \<Rightarrow> kstate \<Rightarrow> kstate option" where
  "user_shutdown u s = do { (ret, s1) \<leftarrow> pok_syscall0 u POK_SYSCALL_SHUTDOWN s; None }"

definition user_getchar :: "ucall \<Rightarrow> kstate \<Rightarrow> (int \<times> kstate) option" where
  "user_getchar u s = do {
     (ret, s1) \<leftarrow> pok_syscall1 u POK_SYSCALL_GETCHAR (uc_local u) (wr8 (uc_local u + ubase u s) 255 s);
     Some (sint (rd8 (ks_mem s1) (uc_local u + ubase u s1)), s1)
   }"

text \<open>Input and output on ports, without the message that is printed when they are refused.\<close>

definition user_inb :: "ucall \<Rightarrow> u16 \<Rightarrow> kstate \<Rightarrow> sys_result" where
  "user_inb u port = pok_syscall2 u POK_SYSCALL_INB (ucast port) 0"

definition user_outb :: "ucall \<Rightarrow> u16 \<Rightarrow> u8 \<Rightarrow> kstate \<Rightarrow> sys_result" where
  "user_outb u port v = pok_syscall2 u POK_SYSCALL_OUTB (ucast port) (ucast v)"

subsection \<open>Ports\<close>

definition user_port_queueing_create :: "ucall \<Rightarrow> u32 \<Rightarrow> u32 \<Rightarrow> u8 \<Rightarrow> u32 \<Rightarrow> u32 \<Rightarrow> kstate \<Rightarrow> sys_result" where
  "user_port_queueing_create u name sz direction discipline id_ptr =
     pok_syscall5 u POK_SYSCALL_MIDDLEWARE_QUEUEING_CREATE name sz (ucast direction) discipline id_ptr"

definition user_port_queueing_receive :: "ucall \<Rightarrow> u8 \<Rightarrow> u64 \<Rightarrow> u32 \<Rightarrow> u32 \<Rightarrow> u32 \<Rightarrow> kstate \<Rightarrow> sys_result" where
  "user_port_queueing_receive u pid timeout maxlen data len =
     pok_syscall5 u POK_SYSCALL_MIDDLEWARE_QUEUEING_RECEIVE (ucast pid) (ucast timeout) maxlen data len"

definition user_port_queueing_send :: "ucall \<Rightarrow> u8 \<Rightarrow> u32 \<Rightarrow> u32 \<Rightarrow> u64 \<Rightarrow> kstate \<Rightarrow> sys_result" where
  "user_port_queueing_send u pid data len timeout =
     pok_syscall4 u POK_SYSCALL_MIDDLEWARE_QUEUEING_SEND (ucast pid) data len (ucast timeout)"

definition user_port_queueing_status :: "ucall \<Rightarrow> u32 \<Rightarrow> u32 \<Rightarrow> kstate \<Rightarrow> sys_result" where
  "user_port_queueing_status u pid status = pok_syscall2 u POK_SYSCALL_MIDDLEWARE_QUEUEING_STATUS pid status"

definition user_port_queueing_id :: "ucall \<Rightarrow> u32 \<Rightarrow> u32 \<Rightarrow> kstate \<Rightarrow> sys_result" where
  "user_port_queueing_id u name id_ptr = pok_syscall2 u POK_SYSCALL_MIDDLEWARE_QUEUEING_ID name id_ptr"

definition user_port_sampling_create :: "ucall \<Rightarrow> u32 \<Rightarrow> u32 \<Rightarrow> u8 \<Rightarrow> u64 \<Rightarrow> u32 \<Rightarrow> kstate \<Rightarrow> sys_result" where
  "user_port_sampling_create u name sz direction refresh id_ptr =
     pok_syscall5 u POK_SYSCALL_MIDDLEWARE_SAMPLING_CREATE name sz (ucast direction) (ucast refresh) id_ptr"

definition user_port_sampling_read :: "ucall \<Rightarrow> u8 \<Rightarrow> u32 \<Rightarrow> u32 \<Rightarrow> u32 \<Rightarrow> kstate \<Rightarrow> sys_result" where
  "user_port_sampling_read u pid data len valid =
     pok_syscall4 u POK_SYSCALL_MIDDLEWARE_SAMPLING_READ (ucast pid) data len valid"

definition user_port_sampling_write :: "ucall \<Rightarrow> u8 \<Rightarrow> u32 \<Rightarrow> u32 \<Rightarrow> kstate \<Rightarrow> sys_result" where
  "user_port_sampling_write u pid data len =
     pok_syscall3 u POK_SYSCALL_MIDDLEWARE_SAMPLING_WRITE (ucast pid) data len"

definition user_port_sampling_id :: "ucall \<Rightarrow> u32 \<Rightarrow> u32 \<Rightarrow> kstate \<Rightarrow> sys_result" where
  "user_port_sampling_id u name id_ptr = pok_syscall2 u POK_SYSCALL_MIDDLEWARE_SAMPLING_ID name id_ptr"

definition user_port_sampling_status :: "ucall \<Rightarrow> u32 \<Rightarrow> u32 \<Rightarrow> kstate \<Rightarrow> sys_result" where
  "user_port_sampling_status u pid status = pok_syscall2 u POK_SYSCALL_MIDDLEWARE_SAMPLING_STATUS pid status"

definition user_port_virtual_create :: "ucall \<Rightarrow> u32 \<Rightarrow> u32 \<Rightarrow> kstate \<Rightarrow> sys_result" where
  "user_port_virtual_create u name id_ptr = pok_syscall2 u POK_SYSCALL_MIDDLEWARE_VIRTUAL_CREATE name id_ptr"

definition user_port_virtual_destination :: "ucall \<Rightarrow> u8 \<Rightarrow> u32 \<Rightarrow> u32 \<Rightarrow> kstate \<Rightarrow> sys_result" where
  "user_port_virtual_destination u pid n result =
     pok_syscall3 u POK_SYSCALL_MIDDLEWARE_VIRTUAL_DESTINATION (ucast pid) n result"

definition user_port_virtual_get_global :: "ucall \<Rightarrow> u8 \<Rightarrow> u32 \<Rightarrow> kstate \<Rightarrow> sys_result" where
  "user_port_virtual_get_global u l g = pok_syscall2 u POK_SYSCALL_MIDDLEWARE_VIRTUAL_GET_GLOBAL (ucast l) g"

definition user_port_virtual_nb_destinations :: "ucall \<Rightarrow> u8 \<Rightarrow> u32 \<Rightarrow> kstate \<Rightarrow> sys_result" where
  "user_port_virtual_nb_destinations u pid result =
     pok_syscall2 u POK_SYSCALL_MIDDLEWARE_VIRTUAL_NB_DESTINATIONS (ucast pid) result"

definition user_port_virtual_node :: "ucall \<Rightarrow> u32 \<Rightarrow> u32 \<Rightarrow> kstate \<Rightarrow> sys_result" where
  "user_port_virtual_node u port node = pok_syscall2 u POK_SYSCALL_MIDDLEWARE_VIRTUAL_NODE port node"

definition user_node_mac_addr :: "ucall \<Rightarrow> u32 \<Rightarrow> u32 \<Rightarrow> kstate \<Rightarrow> sys_result" where
  "user_node_mac_addr u node_id addr = pok_syscall2 u POK_SYSCALL_MIDDLEWARE_NODE_MAC_ADDR node_id addr"

subsection \<open>Reading what was stored\<close>

named_theorems memory_simps "loads of stored values"

text \<open>A load of \<open>m\<close> bytes at a distance from a store of \<open>n\<close> bytes.\<close>

definition apart :: "nat \<Rightarrow> u32 \<Rightarrow> u32 \<Rightarrow> nat \<Rightarrow> bool" where
  "apart n a b m = (n \<le> unat (b - a) \<and> unat (b - a) + m \<le> 2 ^ 32)"

lemma mem_put_apart:
  assumes "apart n a b m" "k < m"
  shows "ks_mem (mem_put a f n s) (b + of_nat k) = ks_mem s (b + of_nat k)"
proof -
  have d: "n \<le> unat (b - a)" "unat (b - a) + k < 2 ^ 32" using assms by (auto simp: apart_def)
  have "unat (of_nat k :: u32) = k" using d(2) by (simp add: unat_of_nat)
  then have "unat ((b - a) + of_nat k) = unat (b - a) + k" using d(2) by (simp add: unat_word_ariths)
  moreover have "b + of_nat k - a = (b - a) + of_nat k" by simp
  ultimately have "unat (b + of_nat k - a) = unat (b - a) + k" by metis
  then show ?thesis using d(1) by (simp add: mem_put_def)
qed

lemma rd_apart [memory_simps]:
  "apart n a b 1 \<Longrightarrow> rd8 (ks_mem (mem_put a f n s)) b = rd8 (ks_mem s) b"
  "apart n a b 2 \<Longrightarrow> rd16 (ks_mem (mem_put a f n s)) b = rd16 (ks_mem s) b"
  "apart n a b 4 \<Longrightarrow> rd32 (ks_mem (mem_put a f n s)) b = rd32 (ks_mem s) b"
  using mem_put_apart [of n a b _ 0 f s] mem_put_apart [of n a b _ 1 f s]
    mem_put_apart [of n a b 4 2 f s] mem_put_apart [of n a b 4 3 f s]
  by (simp_all add: rd8_def rd16_def rd32_def)

lemma apart_shift: "apart n a b (m + k) \<Longrightarrow> k < 2 ^ 32 \<Longrightarrow> 0 < m \<Longrightarrow> apart n a (b + of_nat k) m"
proof -
  assume a: "apart n a b (m + k)" "k < 2 ^ 32" "0 < m"
  have "unat (of_nat k :: u32) = k" using a(2) by (simp add: unat_of_nat)
  moreover have "unat (b - a) + k < 2 ^ LENGTH(32)" using a by (simp add: apart_def)
  ultimately have "unat ((b - a) + of_nat k) = unat (b - a) + k" by (simp add: unat_word_ariths)
  moreover have "b + of_nat k - a = (b - a) + of_nat k" by simp
  ultimately have "unat (b + of_nat k - a) = unat (b - a) + k" by metis
  then show ?thesis using a by (simp add: apart_def)
qed

lemma rd64_apart [memory_simps]: "apart n a b 8 \<Longrightarrow> rd64 (ks_mem (mem_put a f n s)) b = rd64 (ks_mem s) b"
proof -
  assume a: "apart n a b 8"
  then have "apart n a b 4" "apart n a (b + 4) 4"
    using apart_shift [of n a b 4 4] by (simp_all add: apart_def)
  then show ?thesis by (simp add: rd64_def rd_apart)
qed

text \<open>The addresses from \<open>a\<close> on, \<open>n\<close> of them.\<close>

definition area :: "u32 \<Rightarrow> nat \<Rightarrow> u32 set" where
  "area a n = {x. unat (x - a) < n}"

lemma area_offset: "x \<in> area (a + of_nat k) m \<Longrightarrow> k + m \<le> 2 ^ 32 \<Longrightarrow> \<exists>i < m. unat (x - a) = k + i"
proof -
  assume a: "x \<in> area (a + of_nat k) m" "k + m \<le> 2 ^ 32"
  define y where "y = x - (a + of_nat k)"
  have y: "unat y < m" using a(1) by (simp add: area_def y_def)
  have "x - a = y + of_nat k" by (simp add: y_def)
  moreover have "unat (y + of_nat k) = unat y + k" using a(2) y by (simp add: unat_word_ariths unat_of_nat)
  ultimately show ?thesis using y by (metis add.commute)
qed

lemma area_sub: "k + m \<le> n \<Longrightarrow> n \<le> 2 ^ 32 \<Longrightarrow> area (a + of_nat k) m \<subseteq> area a n"
  using area_offset [of _ a k m] by (fastforce simp: area_def)

lemma area_mono: "m \<le> n \<Longrightarrow> area a m \<subseteq> area a n"
  by (auto simp: area_def)

lemma area_disjoint: "k + m \<le> j \<Longrightarrow> j + n \<le> 2 ^ 32 \<Longrightarrow> area (a + of_nat k) m \<inter> area (a + of_nat j) n = {}"
  using area_offset [of _ a k m] area_offset [of _ a j n] by fastforce

lemma area_nth: "k < n \<Longrightarrow> n \<le> 2 ^ 32 \<Longrightarrow> a + of_nat k \<in> area a n"
  by (simp add: area_def unat_of_nat)

lemma mem_put_outside_area: "x \<notin> area a n \<Longrightarrow> ks_mem (mem_put a f n s) x = ks_mem s x"
  by (simp add: area_def mem_put_def)

lemma mem_put_outside_sub:
  "x \<notin> area a n \<Longrightarrow> k + m \<le> n \<Longrightarrow> n \<le> 2 ^ 32 \<Longrightarrow> ks_mem (mem_put (a + of_nat k) f m s) x = ks_mem s x"
  using area_sub [of k m n a] mem_put_outside_area [of x "a + of_nat k" m f s] by blast

lemmas wr_as_put = wr8_def wr16_def wr32_def wr64_def

text \<open>A word is the sum of its bytes.\<close>

lemma bytes_of_word32:
  fixes w :: u32
  shows "ucast (ucast w :: u8) + 256 * ucast (ucast (drop_bit 8 w) :: u8) + 65536 * ucast (ucast (drop_bit 16 w) :: u8) +
    16777216 * ucast (ucast (drop_bit 24 w) :: u8) = w" (is "?l = w")
proof -
  have b: "unat (ucast (ucast (v :: u32) :: u8) :: u32) = unat v mod 256" for v
    by (simp add: unsigned_ucast_eq take_bit_eq_mod unat_mod_distrib)
  have d: "unat (drop_bit k w) = unat w div 2 ^ k" for k by (simp only: unat_drop_bit_eq) (simp add: drop_bit_eq_div)
  have lt: "unat w < 4294967296" using unsigned_less [where 'a = nat, of w] by simp
  have "unat w div 16777216 < 256" using lt by (simp add: less_mult_imp_div_less)
  then have sum: "unat w mod 256 + 256 * (unat w div 256 mod 256) + 65536 * (unat w div 65536 mod 256) +
      16777216 * (unat w div 16777216 mod 256) = unat w"
  proof -
    assume h: "unat w div 16777216 < 256"
    have "unat w = unat w mod 256 + 256 * (unat w div 256)" by simp
    also have "unat w div 256 = unat w div 256 mod 256 + 256 * (unat w div 65536)"
      using div_mult2_eq [of "unat w" 256 256] by simp
    also have "unat w div 65536 = unat w div 65536 mod 256 + 256 * (unat w div 16777216)"
      using div_mult2_eq [of "unat w" 65536 256] by simp
    finally show ?thesis using h by simp
  qed
  then have less: "unat w mod 256 + 256 * (unat w div 256 mod 256) + 65536 * (unat w div 65536 mod 256) +
      16777216 * (unat w div 16777216) < 4294967296" using lt by simp
  have "unat ?l = unat w mod 256 + 256 * (unat w div 256 mod 256) + 65536 * (unat w div 65536 mod 256) +
      16777216 * (unat w div 16777216 mod 256)"
    using lt by (simp add: unat_word_ariths b d mod_less [OF less])
  then show ?thesis by (simp only: word_unat_eq_iff sum)
qed

lemma mem_put_nth:
  assumes "k < n" "n \<le> 2 ^ 32"
  shows "ks_mem (mem_put a f n s) (a + of_nat k) = f k"
proof -
  have "unat (of_nat k :: u32) = k" using assms by (simp add: unat_of_nat)
  then show ?thesis using assms(1) by (simp add: mem_put_def)
qed

lemma put_bytes:
  "4 \<le> n \<Longrightarrow> n \<le> 2 ^ 32 \<Longrightarrow>
     rd32 (ks_mem (mem_put a f n s)) a = ucast (f 0) + 256 * ucast (f 1) + 65536 * ucast (f 2) + 16777216 * ucast (f 3)"
  "8 \<le> n \<Longrightarrow> n \<le> 2 ^ 32 \<Longrightarrow>
     rd32 (ks_mem (mem_put a f n s)) (a + 4) = ucast (f 4) + 256 * ucast (f 5) + 65536 * ucast (f 6) + 16777216 * ucast (f 7)"
  using mem_put_nth [of 0 n a f s] mem_put_nth [of 1 n a f s] mem_put_nth [of 2 n a f s] mem_put_nth [of 3 n a f s]
    mem_put_nth [of 4 n a f s] mem_put_nth [of 5 n a f s] mem_put_nth [of 6 n a f s] mem_put_nth [of 7 n a f s]
  by (simp_all add: rd32_def add.assoc)

lemma rd32_wr32 [memory_simps]: "rd32 (ks_mem (wr32 a w s)) a = w"
  using bytes_of_word32 [of w] put_bytes(1) [of 4 a _ s] by (simp add: wr32_def)

lemma rd8_wr8 [memory_simps]: "rd8 (ks_mem (wr8 a w s)) a = w"
  by (simp add: rd8_def wr8_def mem_put_def)

lemma rd16_wr16 [memory_simps]: "rd16 (ks_mem (wr16 a w s)) a = w"
proof -
  have b: "unat (ucast (ucast (v :: u16) :: u8) :: u16) = unat v mod 256" for v
    by (simp add: unsigned_ucast_eq take_bit_eq_mod unat_mod_distrib)
  have d: "unat (drop_bit k w) = unat w div 2 ^ k" for k by (simp only: unat_drop_bit_eq) (simp add: drop_bit_eq_div)
  have lt: "unat w < 65536" using unsigned_less [where 'a = nat, of w] by simp
  then have "unat w div 256 < 256" by (simp add: less_mult_imp_div_less)
  then have "unat (ucast (ucast w :: u8) + 256 * ucast (ucast (drop_bit 8 w) :: u8) :: u16) = unat w"
    using lt by (simp add: unat_word_ariths b d)
  then have "ucast (ucast w :: u8) + 256 * ucast (ucast (drop_bit 8 w) :: u8) = w" by (simp add: word_unat_eq_iff)
  then show ?thesis by (simp add: rd16_def wr16_def mem_put_def)
qed

lemma rd64_wr64 [memory_simps]: "rd64 (ks_mem (wr64 a w s)) a = w"
proof -
  let ?lo = "ucast w :: u32" and ?hi = "ucast (drop_bit 32 w) :: u32"
  have cut: "ucast (drop_bit k ?lo) = (ucast (drop_bit k w) :: u8)" if "k < 32 - 7" for k
    by (rule bit_word_eqI) (use that in \<open>auto simp: bit_simps\<close>)
  have cut2: "ucast (drop_bit k ?hi) = (ucast (drop_bit (32 + k) w) :: u8)" if "k < 32 - 7" for k
    by (rule bit_word_eqI) (use that in \<open>auto simp: bit_simps ac_simps\<close>)
  have lo: "rd32 (ks_mem (wr64 a w s)) a = ?lo"
    using bytes_of_word32 [of ?lo] cut [of 8] cut [of 16] cut [of 24] cut [of 0] put_bytes(1) [of 8 a _ s]
    by (simp add: wr64_def)
  have hi: "rd32 (ks_mem (wr64 a w s)) (a + 4) = ?hi"
    using bytes_of_word32 [of ?hi] cut2 [of 8] cut2 [of 16] cut2 [of 24] cut2 [of 0] put_bytes(2) [of 8 a _ s]
    by (simp add: wr64_def)
  have "ucast ?lo + 4294967296 * ucast ?hi = w"
  proof -
    have d: "unat (drop_bit k w) = unat w div 2 ^ k" for k by (simp only: unat_drop_bit_eq) (simp add: drop_bit_eq_div)
    have lt: "unat w < 18446744073709551616" using unsigned_less [where 'a = nat, of w] by simp
    then have q: "unat w div 4294967296 < 4294967296" by (simp add: less_mult_imp_div_less)
    have lo': "unat ?lo = unat w mod 4294967296" by (simp add: unsigned_ucast_eq take_bit_eq_mod)
    have hi': "unat ?hi = unat w div 4294967296" using q by (simp add: unsigned_ucast_eq take_bit_eq_mod d)
    have up: "unat (ucast (v :: u32) :: u64) = unat v" for v
      using unsigned_less [where 'a = nat, of v] by (simp add: unsigned_ucast_eq take_bit_eq_mod)
    have "unat (ucast ?lo + 4294967296 * ucast ?hi :: u64) = unat w"
      using lt q by (simp add: unat_word_ariths up lo' hi')
    then show ?thesis by (simp add: word_unat_eq_iff)
  qed
  then show ?thesis by (simp add: rd64_def lo hi)
qed

subsection \<open>What a call delivers\<close>

lemma syscall_of_sysno:
  "sid \<noteq> POK_SYSCALL_OTHER \<Longrightarrow> syscall_enabled c (unat (sysno sid)) \<Longrightarrow> syscall_of c (sysno sid) = sid"
  by (cases sid) (simp_all add: sysno_def syscall_of_def syscall_numbers_def)

lemma read_store_args: "read_syscall_args (ks_mem (store_args a args s)) a = args"
proof -
  have d: "apart 4 (a + 20) (a + 16) 4" "apart 4 (a + 20) (a + 12) 4" "apart 4 (a + 20) (a + 8) 4"
    "apart 4 (a + 20) (a + 4) 4" "apart 4 (a + 20) a 4" "apart 4 (a + 16) (a + 12) 4" "apart 4 (a + 16) (a + 8) 4"
    "apart 4 (a + 16) (a + 4) 4" "apart 4 (a + 16) a 4" "apart 4 (a + 12) (a + 8) 4" "apart 4 (a + 12) (a + 4) 4"
    "apart 4 (a + 12) a 4" "apart 4 (a + 8) (a + 4) 4" "apart 4 (a + 8) a 4" "apart 4 (a + 4) a 4"
    by (simp_all add: apart_def)
  have o: "rd32 (ks_mem (wr32 b w t)) x = rd32 (ks_mem t) x" if "apart 4 b x 4" for b x w t
    using rd_apart(3) [OF that] by (simp add: wr32_def)
  show ?thesis by (simp add: read_syscall_args_def store_args_def rd32_wr32 o d)
qed

text \<open>The identity the kernel gives to a call of the program.\<close>

definition call_infos :: "ucall \<Rightarrow> kstate \<Rightarrow> pok_syscall_info_t" where
  "call_infos u s = \<lparr>si_partition = PARTITION_ID (uc_config u) (uc_cs u), si_thread = POK_SCHED_CURRENT_THREAD s,
     si_base_addr = ubase u s\<rparr>"

definition in_program :: "ucall \<Rightarrow> u32 \<Rightarrow> u32 \<Rightarrow> kstate \<Rightarrow> bool" where
  "in_program u ptr sz s = pok_check_ptr_in_partition (uc_config u) (PARTITION_ID (uc_config u) (uc_cs u)) ptr sz s"

lemma in_program_memory [simp]:
  "in_program u ptr sz (mem_put a f n s) = in_program u ptr sz s"
  "ubase u (mem_put a f n s) = ubase u s"
  "call_infos u (mem_put a f n s) = call_infos u s"
  "POK_SCHED_CURRENT_THREAD (mem_put a f n s) = POK_SCHED_CURRENT_THREAD s"
  by (simp_all add: in_program_def pok_check_ptr_in_partition_def ubase_def call_infos_def POK_SCHED_CURRENT_THREAD_def mem_put_def)

lemma store_args_fields [simp]:
  "in_program u ptr sz (store_args a args s) = in_program u ptr sz s"
  "ubase u (store_args a args s) = ubase u s"
  "call_infos u (store_args a args s) = call_infos u s"
  "POK_SCHED_CURRENT_THREAD (store_args a args s) = POK_SCHED_CURRENT_THREAD s"
  by (simp_all add: store_args_def wr_as_put)

lemma do_syscall_read:
  assumes "sid \<noteq> POK_SYSCALL_OTHER" "syscall_enabled (uc_config u) (unat (sysno sid))"
    and "in_program u (uc_args u) SIZEOF_SYSCALL_ARGS s"
  shows "pok_do_syscall u sid args s =
     pok_core_syscall (uc_config u) sid args (call_infos u s) (store_args (uc_args u + ubase u s) args s)"
proof -
  let ?s = "store_args (uc_args u + ubase u s) args s"
  have "pok_check_ptr_in_partition (uc_config u) (PARTITION_ID (uc_config u) (uc_cs u)) (uc_args u) SIZEOF_SYSCALL_ARGS ?s"
    using assms(3) by (simp add: in_program_def [symmetric])
  moreover have "\<lparr>si_partition = PARTITION_ID (uc_config u) (uc_cs u), si_thread = POK_SCHED_CURRENT_THREAD ?s,
      si_base_addr = p_base_addr (pok_partitions ?s (PARTITION_ID (uc_config u) (uc_cs u)))\<rparr> = call_infos u ?s"
    by (simp add: call_infos_def ubase_def)
  ultimately show ?thesis
    using syscall_of_sysno [OF assms(1,2)] read_store_args [of "uc_args u + ubase u s" args s]
    by (simp add: pok_do_syscall_def syscall_gate_def Let_def ubase_def [symmetric] call_infos_def)
qed

text \<open>C18: A system call of the library reaches the kernel: the number it puts in the register is the one the kernel
  has for this call, the argument block it writes on its stack is read back as it was written, and the call runs with
  the identity of the calling partition and of the running thread.\<close>

theorem do_syscall_delivers:
  assumes "sid \<noteq> POK_SYSCALL_OTHER" "syscall_enabled (uc_config u) (unat (sysno sid))"
    and "in_program u (uc_args u) SIZEOF_SYSCALL_ARGS s"
  shows "pok_do_syscall u sid args s =
     pok_core_syscall (uc_config u) sid args (call_infos u s) (store_args (uc_args u + ubase u s) args s)"
  using assms by (rule do_syscall_read)

definition demo_ucall :: ucall where
  "demo_ucall = \<lparr>uc_config = demo_config, uc_cs = 35, uc_args = 256, uc_local = 512\<rparr>"

lemma demo_ucall_simps [simp]:
  "uc_config demo_ucall = demo_config" "uc_args demo_ucall = 256" "uc_local demo_ucall = 512" "uc_cs demo_ucall = 35"
  "ubase demo_ucall demo_state = 1048576"
  by (simp_all add: demo_ucall_def ubase_def PARTITION_ID_demo demo_partition_def)

lemma demo_in_program: "unat ptr + unat sz \<le> 131072 \<Longrightarrow> in_program demo_ucall ptr sz demo_state"
  by (auto simp: in_program_def PARTITION_ID_demo pok_check_ptr_in_partition_def demo_partition_def word_le_nat_alt
      word_less_nat_alt unat_sub Let_def)

theorem do_syscall_delivers_witness:
  "pok_do_syscall demo_ucall POK_SYSCALL_GETTICK (demo_args 700 0 0) demo_state =
     pok_core_syscall demo_config POK_SYSCALL_GETTICK (demo_args 700 0 0) (call_infos demo_ucall demo_state)
       (store_args 1048832 (demo_args 700 0 0) demo_state)"
  using do_syscall_delivers [of POK_SYSCALL_GETTICK demo_ucall demo_state "demo_args 700 0 0"]
    demo_in_program [of 256 SIZEOF_SYSCALL_ARGS]
  by (simp add: SIZEOF_SYSCALL_ARGS_def demo_config_def)

text \<open>The stack of a call of a lock object: the block of the arguments and the local structure are in the memory of
  the program and do not overlap.\<close>

definition lock_stack :: "ucall \<Rightarrow> kstate \<Rightarrow> bool" where
  "lock_stack u s = (uc_local u \<noteq> 0 \<and> in_program u (uc_args u) SIZEOF_SYSCALL_ARGS s \<and>
     in_program u (uc_local u) SIZEOF_LOCKOBJ_ATTR s \<and> apart 24 (uc_args u) (uc_local u) 20)"

text \<open>The call is the operation of the kernel on the object, in a state that differs in the stack of the caller only.\<close>

definition call_stack :: "ucall \<Rightarrow> kstate \<Rightarrow> u32 set" where
  "call_stack u s = area (uc_args u + ubase u s) 24 \<union> area (uc_local u + ubase u s) 20"

definition reaches_object ::
  "ucall \<Rightarrow> kstate \<Rightarrow> sys_result \<Rightarrow> pok_lockobj_operation_t \<Rightarrow> pok_lockobj_kind_t \<Rightarrow> u64 option \<Rightarrow> nat \<Rightarrow> bool" where
  "reaches_object u s r operation kind timeout oid =
     (\<exists>m la. lk_operation la = operation \<and> lk_obj_kind la = kind \<and> (\<forall>t. timeout = Some t \<longrightarrow> lk_timeout la = t) \<and>
        (\<forall>x. x \<notin> call_stack u s \<longrightarrow> m x = ks_mem s x) \<and>
        r = sys_ret (pok_lockobj_partition_wrapper (uc_config u) oid la (s\<lparr>ks_mem := m\<rparr>)))"

lemma mem_put_only_memory: "\<exists>m. mem_put a f n (s\<lparr>ks_mem := m0\<rparr>) = s\<lparr>ks_mem := m\<rparr>"
  by (auto simp: mem_put_def)

lemma store_args_only_memory: "store_args a args (s\<lparr>ks_mem := m0\<rparr>) = s\<lparr>ks_mem := ks_mem (store_args a args (s\<lparr>ks_mem := m0\<rparr>))\<rparr>"
  by (simp add: store_args_def wr_as_put mem_put_def)

lemma store_args_apart:
  assumes "apart 24 a b m" "k < m"
  shows "ks_mem (store_args a args s) (b + of_nat k) = ks_mem s (b + of_nat k)"
proof -
  have d: "24 \<le> unat (b - a)" "unat (b - a) + m \<le> 2 ^ 32" using assms(1) by (simp_all add: apart_def)
  have far: "apart 4 (a + of_nat j) b m" if "j \<le> 20" for j
  proof -
    have "unat (of_nat j :: u32) = j" using that by (simp add: unat_of_nat)
    moreover have "b - (a + of_nat j) = (b - a) - of_nat j" by simp
    ultimately have "unat (b - (a + of_nat j)) = unat (b - a) - j"
      using d(1) that unat_sub [of "of_nat j" "b - a"] by (simp add: word_le_nat_alt diff_diff_eq)
    then show ?thesis using d that unfolding apart_def by linarith
  qed
  show ?thesis
    using far [of 0] far [of 4] far [of 8] far [of 12] far [of 16] far [of 20] assms(2)
    by (simp add: store_args_def wr32_def mem_put_apart)
qed

lemma store_args_outside: "x \<notin> area a 24 \<Longrightarrow> ks_mem (store_args a args s) x = ks_mem s x"
  using mem_put_outside_sub [of x a 24 0 4] mem_put_outside_sub [of x a 24 4 4] mem_put_outside_sub [of x a 24 8 4]
    mem_put_outside_sub [of x a 24 12 4] mem_put_outside_sub [of x a 24 16 4] mem_put_outside_sub [of x a 24 20 4]
  by (simp add: store_args_def wr32_def)

lemma lockattr_kept:
  assumes "\<And>k. k < 20 \<Longrightarrow> m1 (a + of_nat k) = m2 (a + of_nat k)"
  shows "read_lockattr m1 a = read_lockattr m2 a"
  using assms [of 0] assms [of 1] assms [of 2] assms [of 3] assms [of 4] assms [of 5] assms [of 6] assms [of 7] assms [of 8]
    assms [of 9] assms [of 10] assms [of 11] assms [of 12] assms [of 13] assms [of 14] assms [of 15] assms [of 16]
    assms [of 17] assms [of 18] assms [of 19]
  by (simp add: read_lockattr_def rd32_def rd64_def add.assoc)

lemma lock_operation_reaches:
  assumes "lock_stack u s" "syscall_enabled (uc_config u) 202"
  shows "reaches_object u s (lock_operation u operation kind timeout oid s) (lock_operation_of operation)
     (lockobj_kind_of kind) timeout (port_arg oid)"
proof -
  let ?a = "uc_local u + ubase u s"
  let ?args = "\<lparr>sa_nargs = 2, sa_arg1 = oid, sa_arg2 = uc_local u, sa_arg3 = 0, sa_arg4 = 0, sa_arg5 = 0\<rparr>"
  define s3 where "s3 = wr32 (?a + 4) kind
    (case timeout of None \<Rightarrow> wr32 ?a operation s | Some t \<Rightarrow> wr64 (?a + 12) t (wr32 ?a operation s))"
  define s4 where "s4 = store_args (uc_args u + ubase u s) ?args s3"
  have s3: "s3 = s\<lparr>ks_mem := ks_mem s3\<rparr>" by (simp add: s3_def wr_as_put mem_put_def split: option.splits)
  have in3: "in_program u ptr sz s3 = in_program u ptr sz s" "ubase u s3 = ubase u s" for ptr sz
    by (simp_all add: s3_def wr_as_put split: option.splits)
  have s4: "s4 = s\<lparr>ks_mem := ks_mem s4\<rparr>"
    using store_args_only_memory [where s = s and ?m0.0 = "ks_mem s3"] s3 by (metis s4_def)
  have in4: "in_program u (uc_local u) SIZEOF_LOCKOBJ_ATTR s4" using assms(1) in3 by (simp add: s4_def lock_stack_def)
  have sid: "sysno POK_SYSCALL_LOCKOBJ_OPERATION = 202" by (simp add: sysno_def)
  have "lock_operation u operation kind timeout oid s = pok_do_syscall u POK_SYSCALL_LOCKOBJ_OPERATION ?args s3"
    by (simp add: lock_operation_def Let_def pok_syscall2_def s3_def split: option.splits)
  also have "\<dots> = pok_core_syscall (uc_config u) POK_SYSCALL_LOCKOBJ_OPERATION ?args (call_infos u s3) s4"
    using do_syscall_delivers [of POK_SYSCALL_LOCKOBJ_OPERATION u s3 ?args] assms in3 sid by (simp add: lock_stack_def s4_def)
  also have "\<dots> = sys_ret (pok_lockobj_partition_wrapper (uc_config u) (port_arg oid) (read_lockattr (ks_mem s4) ?a) s4)"
    using in4 assms(1) in3 
    by (simp add: pok_core_syscall_def sys_lockobj_operation_def CHECK_PTR_def lock_stack_def call_infos_def in_program_def)
  finally have r: "lock_operation u operation kind timeout oid s =
    sys_ret (pok_lockobj_partition_wrapper (uc_config u) (port_arg oid) (read_lockattr (ks_mem s4) ?a) s4)" .
  have "apart 24 (uc_args u + ubase u s) ?a 20" using assms(1) by (simp add: lock_stack_def apart_def)
  then have "read_lockattr (ks_mem s4) ?a = read_lockattr (ks_mem s3) ?a"
    by (intro lockattr_kept) (simp add: s4_def store_args_apart)
  moreover have "rd32 (ks_mem s3) ?a = operation" "rd32 (ks_mem s3) (?a + 4) = kind"
    "\<forall>t. timeout = Some t \<longrightarrow> rd64 (ks_mem s3) (?a + 12) = t"
  proof -
    have d: "apart 4 (?a + 4) ?a 4" "apart 8 (?a + 12) ?a 4" "apart 4 (?a + 4) (?a + 12) 8" by (simp_all add: apart_def)
    have o: "rd32 (ks_mem (wr32 b w t)) x = rd32 (ks_mem t) x" if "apart 4 b x 4" for b x w t
      using rd_apart(3) [OF that] by (simp add: wr32_def)
    have o8: "rd32 (ks_mem (wr64 b w t)) x = rd32 (ks_mem t) x" if "apart 8 b x 4" for b x w t
      using rd_apart(3) [OF that] by (simp add: wr64_def)
    have o64: "rd64 (ks_mem (wr32 b w t)) x = rd64 (ks_mem t) x" if "apart 4 b x 8" for b x w t
      using rd64_apart [OF that] by (simp add: wr32_def)
    show "rd32 (ks_mem s3) ?a = operation" "rd32 (ks_mem s3) (?a + 4) = kind"
      "\<forall>t. timeout = Some t \<longrightarrow> rd64 (ks_mem s3) (?a + 12) = t"
      by (auto simp: s3_def rd32_wr32 rd64_wr64 o [OF d(1)] o8 [OF d(2)] o64 [OF d(3)] split: option.splits)
  qed
  ultimately have "lk_operation (read_lockattr (ks_mem s4) ?a) = lock_operation_of operation \<and>
    lk_obj_kind (read_lockattr (ks_mem s4) ?a) = lockobj_kind_of kind \<and>
    (\<forall>t. timeout = Some t \<longrightarrow> lk_timeout (read_lockattr (ks_mem s4) ?a) = t)"
    by (simp add: read_lockattr_def)
  moreover have "\<forall>x. x \<notin> call_stack u s \<longrightarrow> ks_mem s4 x = ks_mem s x"
    using mem_put_outside_sub [of _ ?a 20 0 4] mem_put_outside_sub [of _ ?a 20 4 4] mem_put_outside_sub [of _ ?a 20 12 8]
    by (simp add: s4_def s3_def call_stack_def store_args_outside wr_as_put split: option.splits)
  ultimately show ?thesis using r s4 unfolding reaches_object_def by metis
qed

text \<open>C21: The operations of events, mutexes and semaphores in the library are those of the kernel's lock objects: the
  structure the kernel reads has the operation, the kind, and (where the operation may block) the time of the call in
  nanoseconds. Identifiers of events that need two bytes are cut by the kernel to their lower byte.\<close>

theorem lock_calls_reach_objects:
  assumes "lock_stack u s" "syscall_enabled (uc_config u) 202"
  shows "reaches_object u s (user_mutex_lock u m s) LOCKOBJ_OPERATION_LOCK POK_LOCKOBJ_KIND_MUTEX (Some 0) (unat m) \<and>
    reaches_object u s (user_mutex_trylock u m us s) LOCKOBJ_OPERATION_LOCK POK_LOCKOBJ_KIND_MUTEX (Some (us * 1000)) (unat m) \<and>
    reaches_object u s (user_mutex_unlock u m s) LOCKOBJ_OPERATION_UNLOCK POK_LOCKOBJ_KIND_MUTEX None (unat m) \<and>
    reaches_object u s (user_sem_wait u m us s) LOCKOBJ_OPERATION_LOCK POK_LOCKOBJ_KIND_SEMAPHORE (Some (us * 1000)) (unat m) \<and>
    reaches_object u s (user_sem_signal u m s) LOCKOBJ_OPERATION_UNLOCK POK_LOCKOBJ_KIND_SEMAPHORE None (unat m) \<and>
    reaches_object u s (user_event_lock u e s) LOCKOBJ_OPERATION_LOCK POK_LOCKOBJ_KIND_EVENT (Some 0) (unat e mod 256) \<and>
    reaches_object u s (user_event_unlock u e s) LOCKOBJ_OPERATION_UNLOCK POK_LOCKOBJ_KIND_EVENT None (unat e mod 256) \<and>
    reaches_object u s (user_event_wait u e us s) LOCKOBJ_OPERATION_WAIT POK_LOCKOBJ_KIND_EVENT (Some (us * 1000)) (unat e mod 256) \<and>
    reaches_object u s (user_event_signal u e s) LOCKOBJ_OPERATION_SIGNAL POK_LOCKOBJ_KIND_EVENT None (unat e mod 256) \<and>
    reaches_object u s (user_event_broadcast u e s) LOCKOBJ_OPERATION_BROADCAST POK_LOCKOBJ_KIND_EVENT None (unat e mod 256)"
proof -
  have i: "port_arg (ucast m) = unat m" "port_arg (ucast e) = unat e mod 256"
    by (simp_all add: port_arg_def unsigned_ucast_eq take_bit_eq_mod unat_mod_distrib)
  note r = lock_operation_reaches [OF assms]
  note defs = lock_operation_of_def lockobj_kind_of_def i
  show ?thesis
    using r [of 1 1 "Some 0" "ucast m"] r [of 1 1 "Some (us * 1000)" "ucast m"] r [of 2 1 None "ucast m"]
      r [of 1 2 "Some (us * 1000)" "ucast m"] r [of 2 2 None "ucast m"] r [of 1 3 "Some 0" "ucast e"]
      r [of 2 3 None "ucast e"] r [of 3 3 "Some (us * 1000)" "ucast e"] r [of 4 3 None "ucast e"] r [of 5 3 None "ucast e"]
    by (simp add: defs user_mutex_lock_def user_mutex_trylock_def user_mutex_unlock_def user_sem_wait_def
        user_sem_signal_def user_event_lock_def user_event_unlock_def user_event_wait_def user_event_signal_def
        user_event_broadcast_def)
qed

theorem lock_calls_reach_objects_witness:
  "reaches_object demo_ucall demo_state (user_event_wait demo_ucall 258 7 demo_state) LOCKOBJ_OPERATION_WAIT
     POK_LOCKOBJ_KIND_EVENT (Some 7000) 2"
proof -
  have l: "lock_stack demo_ucall demo_state"
    using demo_in_program [of 256 SIZEOF_SYSCALL_ARGS] demo_in_program [of 512 SIZEOF_LOCKOBJ_ATTR]
    by (simp add: lock_stack_def SIZEOF_SYSCALL_ARGS_def SIZEOF_LOCKOBJ_ATTR_def apart_def)
  have en: "syscall_enabled (uc_config demo_ucall) 202" by (simp add: demo_config_def)
  show ?thesis using lock_calls_reach_objects [OF l en, of 0 7 258] by simp
qed

subsection \<open>The status of an error\<close>

text \<open>The kernel stores the text of the message in the structure; the library's structure has a pointer to it, and is
  20 bytes long.\<close>

lemma write_error_status_layout:
  assumes "8 \<le> unat (e_msg_size st)" "unat (e_msg_size st) \<le> 252"
  shows "rd8 (ks_mem (write_error_status a st s)) a = e_error_kind st"
    and "rd32 (ks_mem (write_error_status a st s)) (a + 4) = e_failed_thread st"
    and "rd32 (ks_mem (write_error_status a st s)) (a + 8) = e_failed_addr st"
    and "rd32 (ks_mem (write_error_status a st s)) (a + 12) = ucast (e_msg st 0) + 256 * ucast (e_msg st 1) +
      65536 * ucast (e_msg st 2) + 16777216 * ucast (e_msg st 3)"
    and "rd32 (ks_mem (write_error_status a st s)) (a + 16) = ucast (e_msg st 4) + 256 * ucast (e_msg st 5) +
      65536 * ucast (e_msg st 6) + 16777216 * ucast (e_msg st 7)"
    and "rd32 (ks_mem (write_error_status a st s)) (a + 264) = e_msg_size st"
proof -
  let ?n = "unat (e_msg_size st)"
  have d: "apart 4 (a + 264) a 1" "apart ?n (a + 12) a 1" "apart 4 (a + 8) a 1" "apart 4 (a + 4) a 1"
    "apart 4 (a + 264) (a + 4) 4" "apart ?n (a + 12) (a + 4) 4" "apart 4 (a + 8) (a + 4) 4"
    "apart 4 (a + 264) (a + 8) 4" "apart ?n (a + 12) (a + 8) 4" "apart 4 (a + 264) (a + 12) 4" "apart 4 (a + 264) (a + 16) 4"
    using assms by (simp_all add: apart_def)
  have o: "rd32 (ks_mem (wr32 b w t)) x = rd32 (ks_mem t) x" if "apart 4 b x 4" for b x w t
    using rd_apart(3) [OF that] by (simp add: wr32_def)
  have o1: "rd8 (ks_mem (wr32 b w t)) x = rd8 (ks_mem t) x" if "apart 4 b x 1" for b x w t
    using rd_apart(1) [OF that] by (simp add: wr32_def)
  have p: "rd32 (ks_mem (mem_put (a + 12) f ?n t)) (a + 16) =
      ucast (f 4) + 256 * ucast (f 5) + 65536 * ucast (f 6) + 16777216 * ucast (f 7)" for f t
    using put_bytes(2) [of ?n "a + 12" f t] assms by (simp add: add.commute)
  note w = write_error_status_def
  show "rd8 (ks_mem (write_error_status a st s)) a = e_error_kind st"
    by (simp add: w rd8_wr8 o1 [OF d(1)] o1 [OF d(3)] o1 [OF d(4)] rd_apart(1) [OF d(2)])
  show "rd32 (ks_mem (write_error_status a st s)) (a + 4) = e_failed_thread st"
    by (simp add: w rd32_wr32 o d rd_apart)
  show "rd32 (ks_mem (write_error_status a st s)) (a + 8) = e_failed_addr st"
    by (simp add: w rd32_wr32 o d rd_apart)
  show "rd32 (ks_mem (write_error_status a st s)) (a + 12) = ucast (e_msg st 0) + 256 * ucast (e_msg st 1) +
      65536 * ucast (e_msg st 2) + 16777216 * ucast (e_msg st 3)"
    using put_bytes(1) [of ?n "a + 12"] assms by (simp add: w o d)
  show "rd32 (ks_mem (write_error_status a st s)) (a + 16) = ucast (e_msg st 4) + 256 * ucast (e_msg st 5) +
      65536 * ucast (e_msg st 6) + 16777216 * ucast (e_msg st 7)"
    by (simp add: w o d p)
  show "rd32 (ks_mem (write_error_status a st s)) (a + 264) = e_msg_size st" by (simp add: w rd32_wr32)
qed

text \<open>The status of an error does not arrive in the structure of the library: the kind, the thread and the address
  do, but the field for the pointer to the message has the first four characters of the message, the field for its
  length the next four, and the length is stored 244 bytes behind the end of the 20-byte structure.\<close>

theorem error_get_overruns_status:
  assumes "syscall_enabled (uc_config u) 304" "in_program u (uc_args u) SIZEOF_SYSCALL_ARGS s"
    and "in_program u status SIZEOF_ERROR_STATUS s"
    and "e_error_kind (p_error_status (POK_CURRENT_PARTITION s)) \<noteq> POK_ERROR_KIND_INVALID"
    and "8 \<le> e_msg_size (p_error_status (POK_CURRENT_PARTITION s))" "e_msg_size (p_error_status (POK_CURRENT_PARTITION s)) \<le> 250"
  shows "\<exists>s'. user_error_get u status s = Some (errno POK_ERRNO_OK, s') \<and>
    (let st = p_error_status (POK_CURRENT_PARTITION s); a = status + ubase u s; m = ks_mem s'
     in rd8 m a = e_error_kind st \<and> rd32 m (a + 4) = e_failed_thread st \<and> rd32 m (a + 8) = e_failed_addr st \<and>
        rd32 m (a + 12) = ucast (e_msg st 0) + 256 * ucast (e_msg st 1) + 65536 * ucast (e_msg st 2) +
          16777216 * ucast (e_msg st 3) \<and>
        rd32 m (a + 16) = ucast (e_msg st 4) + 256 * ucast (e_msg st 5) + 65536 * ucast (e_msg st 6) +
          16777216 * ucast (e_msg st 7) \<and>
        rd32 m (a + 264) = e_msg_size st)"
proof -
  let ?a = "status + ubase u s"
  let ?args = "\<lparr>sa_nargs = 2, sa_arg1 = status, sa_arg2 = 0, sa_arg3 = 0, sa_arg4 = 0, sa_arg5 = 0\<rparr>"
  define s1 where "s1 = store_args (uc_args u + ubase u s) ?args s"
  let ?st = "p_error_status (POK_CURRENT_PARTITION s)"
  define old where "old = read_error_status (ks_mem s1) ?a"
  define new where "new = old\<lparr>e_error_kind := e_error_kind ?st, e_failed_thread := e_failed_thread ?st,
     e_failed_addr := e_failed_addr ?st, e_msg_size := e_msg_size ?st,
     e_msg := memcpy (e_msg old) 0 (e_msg ?st) 0 (unat (e_msg_size ?st))\<rparr>"
  have sz: "8 \<le> unat (e_msg_size ?st)" "unat (e_msg_size ?st) \<le> 252" using assms(5,6) by (simp_all add: word_le_nat_alt)
  have cp: "POK_CURRENT_PARTITION s1 = POK_CURRENT_PARTITION s"
    by (simp add: s1_def store_args_def wr_as_put POK_CURRENT_PARTITION_def mem_put_def)
  have "in_program u status SIZEOF_ERROR_STATUS s1" using assms(3) by (simp add: s1_def)
  then have "user_error_get u status s = Some (errno POK_ERRNO_OK, write_error_status ?a new s1)"
    using do_syscall_read [of POK_SYSCALL_ERROR_GET u s ?args] assms(1,2,4) cp
    by (simp add: user_error_get_def pok_syscall2_def s1_def [symmetric] pok_core_syscall_def sys_error_get_def CHECK_PTR_def
        in_program_def call_infos_def Let_def pok_error_get_def old_def [symmetric] new_def [symmetric] sysno_def)
  moreover have "e_msg new i = e_msg ?st i" if "i < 8" for i using that sz by (simp add: new_def)
  moreover have "e_msg_size new = e_msg_size ?st" "e_error_kind new = e_error_kind ?st"
    "e_failed_thread new = e_failed_thread ?st" "e_failed_addr new = e_failed_addr ?st" by (simp_all add: new_def)
  ultimately show ?thesis using write_error_status_layout [of new ?a s1] sz by (simp add: Let_def)
qed

definition demo_failed :: kstate where
  "demo_failed = demo_state\<lparr>pok_partitions := (pok_partitions demo_state)(0 := (demo_partition 0)\<lparr>p_error_status :=
     \<lparr>e_error_kind = 11, e_failed_thread = 2, e_failed_addr = 64, e_msg = (\<lambda>i. 65 + of_nat i), e_msg_size = 9\<rparr>\<rparr>)\<rparr>"

theorem error_get_overruns_status_witness:
  "\<exists>s'. user_error_get demo_ucall 1024 demo_failed = Some (0, s') \<and> rd8 (ks_mem s') 1049600 = 11 \<and>
    rd32 (ks_mem s') 1049612 = 0x44434241 \<and> rd32 (ks_mem s') 1049616 = 0x48474645 \<and> rd32 (ks_mem s') 1049864 = 9"
proof -
  have p: "p_size (pok_partitions demo_failed 0) = 131072" "p_base_addr (pok_partitions demo_failed 0) = 1048576"
    "POK_CURRENT_PARTITION demo_failed = pok_partitions demo_failed 0"
    "p_error_status (pok_partitions demo_failed 0) =
       \<lparr>e_error_kind = 11, e_failed_thread = 2, e_failed_addr = 64, e_msg = (\<lambda>i. 65 + of_nat i), e_msg_size = 9\<rparr>"
    by (simp_all add: demo_failed_def demo_partition_def POK_CURRENT_PARTITION_def)
  have ins: "in_program demo_ucall 256 SIZEOF_SYSCALL_ARGS demo_failed" "in_program demo_ucall 1024 SIZEOF_ERROR_STATUS demo_failed"
    by (simp_all add: in_program_def PARTITION_ID_demo pok_check_ptr_in_partition_def p SIZEOF_SYSCALL_ARGS_def
        SIZEOF_ERROR_STATUS_def)
  have b: "ubase demo_ucall demo_failed = 1048576" by (simp add: ubase_def PARTITION_ID_demo p)
  have en: "syscall_enabled (uc_config demo_ucall) 304" by (simp add: demo_config_def)
  show ?thesis
    using error_get_overruns_status [OF en, of demo_failed 1024] ins
    by (auto simp: p b Let_def POK_ERROR_KIND_INVALID_def errno_def)
qed

end
