(* ===== verification/Pok_User_Events.thy ===== *)
theory Pok_User_Events
  imports Pok_User_Calls
begin

text \<open>
  Events as the library's buffers and blackboards use them. The locale \<open>event_service\<close> is the interface: an event that
  nobody holds is taken at once, is released again, and a broadcast that nobody waits for changes nothing; none of the
  calls stores outside the stack of the caller. It is interpreted on the system calls of the library, so that its laws
  are facts about the gate and the lock objects of the kernel.
\<close>

subsection \<open>The interface\<close>

locale event_service =
  fixes lock :: "kstate \<Rightarrow> sys_result" and unlock :: "kstate \<Rightarrow> sys_result" and broadcast :: "kstate \<Rightarrow> sys_result"
    and free :: "kstate \<Rightarrow> bool" and held :: "kstate \<Rightarrow> bool" and keeps :: "kstate \<Rightarrow> kstate \<Rightarrow> bool"
    and store :: "kstate \<Rightarrow> kstate \<Rightarrow> bool"
  assumes lock_free: "free s \<Longrightarrow> \<exists>s'. lock s = Some (0, s') \<and> held s' \<and> keeps s s'"
    and unlock_held: "held s \<Longrightarrow> \<exists>s'. unlock s = Some (0, s') \<and> free s' \<and> keeps s s'"
    and broadcast_free: "free s \<Longrightarrow> \<exists>s'. broadcast s = Some (0, s') \<and> free s' \<and> keeps s s'"
    and store_held: "store s s' \<Longrightarrow> held s \<Longrightarrow> held s'"
    and keeps_trans: "keeps s s' \<Longrightarrow> keeps s' s'' \<Longrightarrow> keeps s s''"
begin

text \<open>A section of code between the taking and the release of the event, and the broadcast behind it.\<close>

lemma critical_section:
  assumes "free s"
  shows "\<exists>s1. lock s = Some (0, s1) \<and> held s1 \<and> keeps s s1 \<and>
    (\<forall>s2. store s1 s2 \<longrightarrow> (\<exists>s3 s4. unlock s2 = Some (0, s3) \<and> keeps s2 s3 \<and> free s3 \<and>
       broadcast s3 = Some (0, s4) \<and> keeps s3 s4 \<and> keeps s2 s4 \<and> free s4))"
proof -
  obtain s1 where s1: "lock s = Some (0, s1)" "held s1" "keeps s s1" using lock_free [OF assms] by blast
  have "\<exists>s3 s4. unlock s2 = Some (0, s3) \<and> keeps s2 s3 \<and> free s3 \<and> broadcast s3 = Some (0, s4) \<and> keeps s3 s4 \<and>
      keeps s2 s4 \<and> free s4" if "store s1 s2" for s2
    using unlock_held [OF store_held [OF that s1(2)]] broadcast_free keeps_trans by meson
  then show ?thesis using s1 by blast
qed

end

subsection \<open>Events nobody waits for\<close>

definition quiet_event :: "u16 \<Rightarrow> pok_lockobj_t \<Rightarrow> bool" where
  "quiet_event v l = (l_initialized l \<and> \<not> l_spin l \<and> \<not> l_eventspin l \<and> l_kind l = POK_LOCKOBJ_KIND_EVENT \<and>
     l_current_value l = v \<and> pok_lockobj_fifo_is_empty (l_fifo l) \<and> pok_lockobj_fifo_is_empty (l_event_fifo l))"

lemma quiet_lock:
  "quiet_event 1 (lock_at r s) \<Longrightarrow>
     pok_lockobj_lock c r attr s = Some (POK_ERRNO_OK, upd_lock r (\<lambda>l. l\<lparr>l_current_value := l_current_value l - 1\<rparr>) s)"
  by (rule lock_fast) (simp_all add: quiet_event_def)

lemma quiet_unlock:
  assumes "quiet_event v (lock_at r s)"
  shows "pok_lockobj_unlock c r s = Some (POK_ERRNO_OK, upd_lock r (\<lambda>l. l\<lparr>l_current_value := 1\<rparr>) s)"
proof -
  have n: "\<not> l_spin (lock_at r s)" using assms by (simp add: quiet_event_def)
  have u: "upd_lock r (\<lambda>l. l\<lparr>l_current_value := 1, l_spin := False\<rparr>) s = upd_lock r (\<lambda>l. l\<lparr>l_current_value := 1\<rparr>) s"
    by (rule upd_lock_cong) (use n in \<open>cases "lock_at r s", simp\<close>)
  show ?thesis
    using assms u by (simp add: pok_lockobj_unlock_def unlock_object_def Let_def quiet_event_def spin_simps)
qed

lemma quiet_broadcast:
  assumes "quiet_event v (lock_at r s)"
  shows "pok_lockobj_eventbroadcast c r s = Some (POK_ERRNO_OK, s)"
proof -
  have u: "upd_lock r (\<lambda>l. l\<lparr>l_eventspin := False\<rparr>) s = s"
    using assms by (intro upd_lock_same) (simp add: quiet_event_def spin_false_same)
  show ?thesis
    using assms u
    by (simp add: pok_lockobj_eventbroadcast_def quiet_event_def spin_simps event_wake_all.simps)
qed

definition event_object :: "u16 \<Rightarrow> lockref" where
  "event_object e = LockObj (unat e mod 256)"

definition event_ready :: "u16 \<Rightarrow> ucall \<Rightarrow> u16 \<Rightarrow> kstate \<Rightarrow> bool" where
  "event_ready v u e s = (lock_stack u s \<and> syscall_enabled (uc_config u) 202 \<and>
     p_lockobj_index_low (pok_partitions s (pok_current_partition s)) \<le> unat e mod 256 \<and>
     unat e mod 256 < p_lockobj_index_high (pok_partitions s (pok_current_partition s)) \<and>
     quiet_event v (lock_at (event_object e) s))"

text \<open>The call leaves the memory outside the stack of the caller as it is.\<close>

definition call_keeps :: "ucall \<Rightarrow> kstate \<Rightarrow> kstate \<Rightarrow> bool" where
  "call_keeps u s s' = (ubase u s' = ubase u s \<and> (\<forall>x. x \<notin> call_stack u s \<longrightarrow> ks_mem s' x = ks_mem s x))"

lemma call_keeps_trans: "call_keeps u s s' \<Longrightarrow> call_keeps u s' s'' \<Longrightarrow> call_keeps u s s''"
  by (simp add: call_keeps_def call_stack_def)

lemma event_ready_updates:
  "in_program u ptr sz (upd_lock r f s) = in_program u ptr sz s" "in_program u ptr sz (s\<lparr>ks_mem := m\<rparr>) = in_program u ptr sz s"
  "lock_stack u (upd_lock r f s) = lock_stack u s" "lock_stack u (s\<lparr>ks_mem := m\<rparr>) = lock_stack u s"
  "ubase u (upd_lock r f s) = ubase u s" "ubase u (s\<lparr>ks_mem := m\<rparr>) = ubase u s"
  "lock_at r (s\<lparr>ks_mem := m\<rparr>) = lock_at r s"
  by (simp_all add: lock_stack_def in_program_def pok_check_ptr_in_partition_def ubase_def lock_at_def split: lockref.splits)

lemma event_ready_store: "event_ready v u e (s\<lparr>ks_mem := m\<rparr>) = event_ready v u e s"
  by (simp add: event_ready_def event_ready_updates)

lemma event_ready_upd:
  "event_ready v u e s \<Longrightarrow> quiet_event w (f (lock_at (event_object e) s)) \<Longrightarrow> event_ready w u e (upd_lock (event_object e) f s)"
  by (simp add: event_ready_def event_ready_updates)

text \<open>A call on an event that is ready comes to the operation of its object.\<close>

lemma event_operation:
  assumes "event_ready v u e s"
  obtains m la where "\<forall>x. x \<notin> call_stack u s \<longrightarrow> m x = ks_mem s x" "lk_operation la = lock_operation_of operation"
    "lk_obj_kind la = POK_LOCKOBJ_KIND_EVENT"
    "lock_operation u operation 3 timeout (ucast e) s =
       sys_ret (pok_lockobj_partition_wrapper (uc_config u) (unat e mod 256) la (s\<lparr>ks_mem := m\<rparr>))"
proof -
  have i: "port_arg (ucast e) = unat e mod 256"
    by (simp add: port_arg_def unsigned_ucast_eq take_bit_eq_mod unat_mod_distrib)
  have "reaches_object u s (lock_operation u operation 3 timeout (ucast e) s) (lock_operation_of operation)
      (lockobj_kind_of 3) timeout (port_arg (ucast e))"
    by (rule lock_operation_reaches) (use assms in \<open>simp_all add: event_ready_def\<close>)
  then show ?thesis using that by (auto simp: reaches_object_def i lockobj_kind_of_def)
qed

lemma event_lock_ready:
  assumes "event_ready 1 u e s"
  shows "\<exists>s'. user_event_lock u e s = Some (0, s') \<and> event_ready 0 u e s' \<and> call_keeps u s s'"
proof -
  obtain m la where m: "\<forall>x. x \<notin> call_stack u s \<longrightarrow> m x = ks_mem s x" "lk_operation la = lock_operation_of 1"
    "lk_obj_kind la = POK_LOCKOBJ_KIND_EVENT" "lock_operation u 1 3 (Some 0) (ucast e) s =
       sys_ret (pok_lockobj_partition_wrapper (uc_config u) (unat e mod 256) la (s\<lparr>ks_mem := m\<rparr>))"
    using event_operation [OF assms] by metis
  let ?s = "s\<lparr>ks_mem := m\<rparr>"
  let ?s' = "upd_lock (event_object e) (\<lambda>l. l\<lparr>l_current_value := l_current_value l - 1\<rparr>) ?s"
  have r: "event_ready 1 u e ?s" using assms by (simp add: event_ready_store)
  then have q: "quiet_event 1 (lock_at (event_object e) ?s)" by (simp add: event_ready_def)
  then have "l_kind (pok_partitions_lockobjs ?s (unat e mod 256)) = POK_LOCKOBJ_KIND_EVENT"
    by (simp add: quiet_event_def event_object_def lock_at_def)
  then have "user_event_lock u e s = Some (0, ?s')"
    using r m(2,3) quiet_lock [OF q, of "uc_config u" "Some la"]
    by (simp add: user_event_lock_def m(4) pok_lockobj_partition_wrapper_def event_ready_def Let_def lock_operation_of_def
        event_object_def sys_ret_def errno_def)
  moreover have "event_ready 0 u e ?s'"
    using r q by (intro event_ready_upd) (auto simp: quiet_event_def)
  moreover have "call_keeps u s ?s'" using m(1) by (simp add: call_keeps_def event_ready_updates)
  ultimately show ?thesis by blast
qed

lemma event_unlock_ready:
  assumes "event_ready v u e s"
  shows "\<exists>s'. user_event_unlock u e s = Some (0, s') \<and> event_ready 1 u e s' \<and> call_keeps u s s'"
proof -
  obtain m la where m: "\<forall>x. x \<notin> call_stack u s \<longrightarrow> m x = ks_mem s x" "lk_operation la = lock_operation_of 2"
    "lk_obj_kind la = POK_LOCKOBJ_KIND_EVENT" "lock_operation u 2 3 None (ucast e) s =
       sys_ret (pok_lockobj_partition_wrapper (uc_config u) (unat e mod 256) la (s\<lparr>ks_mem := m\<rparr>))"
    using event_operation [OF assms] by metis
  let ?s = "s\<lparr>ks_mem := m\<rparr>"
  let ?s' = "upd_lock (event_object e) (\<lambda>l. l\<lparr>l_current_value := 1\<rparr>) ?s"
  have r: "event_ready v u e ?s" using assms by (simp add: event_ready_store)
  then have q: "quiet_event v (lock_at (event_object e) ?s)" by (simp add: event_ready_def)
  then have "l_kind (pok_partitions_lockobjs ?s (unat e mod 256)) = POK_LOCKOBJ_KIND_EVENT"
    by (simp add: quiet_event_def event_object_def lock_at_def)
  then have "user_event_unlock u e s = Some (0, ?s')"
    using r m(2,3) quiet_unlock [OF q, of "uc_config u"]
    by (simp add: user_event_unlock_def m(4) pok_lockobj_partition_wrapper_def event_ready_def Let_def lock_operation_of_def
        event_object_def sys_ret_def errno_def)
  moreover have "event_ready 1 u e ?s'"
    using r q by (intro event_ready_upd) (auto simp: quiet_event_def)
  moreover have "call_keeps u s ?s'" using m(1) by (simp add: call_keeps_def event_ready_updates)
  ultimately show ?thesis by blast
qed

lemma event_broadcast_ready:
  assumes "event_ready v u e s"
  shows "\<exists>s'. user_event_broadcast u e s = Some (0, s') \<and> event_ready v u e s' \<and> call_keeps u s s'"
proof -
  obtain m la where m: "\<forall>x. x \<notin> call_stack u s \<longrightarrow> m x = ks_mem s x" "lk_operation la = lock_operation_of 5"
    "lk_obj_kind la = POK_LOCKOBJ_KIND_EVENT" "lock_operation u 5 3 None (ucast e) s =
       sys_ret (pok_lockobj_partition_wrapper (uc_config u) (unat e mod 256) la (s\<lparr>ks_mem := m\<rparr>))"
    using event_operation [OF assms] by metis
  let ?s = "s\<lparr>ks_mem := m\<rparr>"
  have r: "event_ready v u e ?s" using assms by (simp add: event_ready_store)
  then have q: "quiet_event v (lock_at (event_object e) ?s)" by (simp add: event_ready_def)
  then have "l_kind (pok_partitions_lockobjs ?s (unat e mod 256)) = POK_LOCKOBJ_KIND_EVENT"
    by (simp add: quiet_event_def event_object_def lock_at_def)
  then have "user_event_broadcast u e s = Some (0, ?s)"
    using r m(2,3) quiet_broadcast [OF q, of "uc_config u"]
    by (simp add: user_event_broadcast_def m(4) pok_lockobj_partition_wrapper_def event_ready_def Let_def lock_operation_of_def
        event_object_def sys_ret_def errno_def)
  moreover have "call_keeps u s ?s" using m(1) by (simp add: call_keeps_def event_ready_updates)
  ultimately show ?thesis using r by blast
qed

text \<open>A store of the program changes the memory only.\<close>

definition memory_change :: "kstate \<Rightarrow> kstate \<Rightarrow> bool" where
  "memory_change s s' = (\<exists>m. s' = s\<lparr>ks_mem := m\<rparr>)"

interpretation ev: event_service "user_event_lock u e" "user_event_unlock u e" "user_event_broadcast u e"
  "event_ready 1 u e" "event_ready 0 u e" "call_keeps u" memory_change for u e
proof (unfold_locales, goal_cases)
  case (4 s s')
  then show ?case by (auto simp: memory_change_def event_ready_store)
qed (auto intro: event_lock_ready event_unlock_ready event_broadcast_ready call_keeps_trans)

end
