(* ===== verification/Pok_User_Buffers.thy ===== *)
theory Pok_User_Buffers
  imports Pok_User_Events Pok_User_Libc
begin

text \<open>
  Buffers and blackboards, with which the threads of one partition exchange messages (\<open>libpok/middleware/buffer*.c\<close>,
  \<open>blackboard*.c\<close>), the queues nobody uses (\<open>queueinit.c\<close>) and the start of a program (\<open>libpok/core/main.c\<close>). Their
  tables are variables of the program: they are read and written in the memory of the partition, so that what other
  threads do while a call waits for an event of the kernel is part of the model. Addresses are those of the program.
  A structure has the layout of the x86.
\<close>

unbundle bit_operations_syntax

subsection \<open>The memory of the program\<close>

definition umem :: "ucall \<Rightarrow> kstate \<Rightarrow> u32 \<Rightarrow> u8" where
  "umem u s p = ks_mem s (p + ubase u s)"

definition uput :: "ucall \<Rightarrow> u32 \<Rightarrow> (nat \<Rightarrow> u8) \<Rightarrow> nat \<Rightarrow> kstate \<Rightarrow> kstate" where
  "uput u p f n s = mem_put (p + ubase u s) f n s"

definition ld8 :: "ucall \<Rightarrow> kstate \<Rightarrow> u32 \<Rightarrow> u8" where "ld8 u s p = rd8 (umem u s) p"
definition ld16 :: "ucall \<Rightarrow> kstate \<Rightarrow> u32 \<Rightarrow> u16" where "ld16 u s p = rd16 (umem u s) p"
definition ld32 :: "ucall \<Rightarrow> kstate \<Rightarrow> u32 \<Rightarrow> u32" where "ld32 u s p = rd32 (umem u s) p"

definition st8 :: "ucall \<Rightarrow> u32 \<Rightarrow> u8 \<Rightarrow> kstate \<Rightarrow> kstate" where
  "st8 u p w s = wr8 (p + ubase u s) w s"
definition st16 :: "ucall \<Rightarrow> u32 \<Rightarrow> u16 \<Rightarrow> kstate \<Rightarrow> kstate" where
  "st16 u p w s = wr16 (p + ubase u s) w s"
definition st32 :: "ucall \<Rightarrow> u32 \<Rightarrow> u32 \<Rightarrow> kstate \<Rightarrow> kstate" where
  "st32 u p w s = wr32 (p + ubase u s) w s"

definition umemcpy :: "ucall \<Rightarrow> u32 \<Rightarrow> u32 \<Rightarrow> u32 \<Rightarrow> kstate \<Rightarrow> kstate" where
  "umemcpy u dst src n s = uput u dst (\<lambda>i. umem u s (src + of_nat i)) (unat n) s"

definition ustring :: "ucall \<Rightarrow> kstate \<Rightarrow> u32 \<Rightarrow> nat \<Rightarrow> u8" where
  "ustring u s p i = umem u s (p + of_nat i)"

text \<open>Where the build puts the tables, and their lengths.\<close>

record libmem =
  pok_buffers :: u32
  pok_buffers_names :: u32
  pok_buffers_data :: u32
  pok_buffers_data_index :: u32
  POK_CONFIG_NB_BUFFERS :: nat
  pok_blackboards :: u32
  pok_blackboards_names :: u32
  pok_blackboards_data :: u32
  pok_blackboards_data_index :: u32
  POK_CONFIG_NB_BLACKBOARDS :: nat
  pok_queues :: u32
  pok_queues_data :: u32
  LIB_NB_PARTITIONS :: nat
  LIB_NEEDS_BUFFERS :: bool
  LIB_NEEDS_BLACKBOARDS :: bool

definition buf_at :: "libmem \<Rightarrow> nat \<Rightarrow> u32" where "buf_at lm n = pok_buffers lm + 44 * of_nat n"
definition bb_at :: "libmem \<Rightarrow> nat \<Rightarrow> u32" where "bb_at lm n = pok_blackboards lm + 24 * of_nat n"

text \<open>The fields of a buffer and of a blackboard.\<close>

definition b_ready :: "u32 \<Rightarrow> u32" where "b_ready b = b"
definition b_empty :: "u32 \<Rightarrow> u32" where "b_empty b = b + 4"
definition b_full :: "u32 \<Rightarrow> u32" where "b_full b = b + 8"
definition b_size :: "u32 \<Rightarrow> u32" where "b_size b = b + 12"
definition b_index :: "u32 \<Rightarrow> u32" where "b_index b = b + 16"
definition b_off_b :: "u32 \<Rightarrow> u32" where "b_off_b b = b + 20"
definition b_off_e :: "u32 \<Rightarrow> u32" where "b_off_e b = b + 24"
definition b_msgsize :: "u32 \<Rightarrow> u32" where "b_msgsize b = b + 28"
definition b_waiting :: "u32 \<Rightarrow> u32" where "b_waiting b = b + 32"
definition b_discipline :: "u32 \<Rightarrow> u32" where "b_discipline b = b + 36"
definition b_lock :: "u32 \<Rightarrow> u32" where "b_lock b = b + 40"

definition bb_size :: "u32 \<Rightarrow> u32" where "bb_size b = b"
definition bb_empty :: "u32 \<Rightarrow> u32" where "bb_empty b = b + 4"
definition bb_waiting :: "u32 \<Rightarrow> u32" where "bb_waiting b = b + 8"
definition bb_index :: "u32 \<Rightarrow> u32" where "bb_index b = b + 12"
definition bb_ready :: "u32 \<Rightarrow> u32" where "bb_ready b = b + 16"
definition bb_lock :: "u32 \<Rightarrow> u32" where "bb_lock b = b + 20"

text \<open>The first entry whose name equals the given one, as the library compares names.\<close>

fun find_name :: "ucall \<Rightarrow> u32 \<Rightarrow> u32 \<Rightarrow> nat list \<Rightarrow> kstate \<Rightarrow> nat option option" where
  "find_name u name names [] s = Some None"
| "find_name u name names (n # ns) s = do {
     eq \<leftarrow> streq (ustring u s name) (ustring u s (ld32 u s (names + 4 * of_nat n)));
     if eq then Some (Some n) else find_name u name names ns s
   }"

subsection \<open>Buffers\<close>

definition pok_buffer_init :: "ucall \<Rightarrow> libmem \<Rightarrow> kstate \<Rightarrow> kstate" where
  "pok_buffer_init u lm s =
     fold (\<lambda>n s. let b = buf_at lm n in st32 u (b_empty b) 1 (st32 u (b_full b) 0 (st32 u (b_ready b) 0 s)))
       [0..<POK_CONFIG_NB_BUFFERS lm] s"

definition buffer_setup :: "ucall \<Rightarrow> libmem \<Rightarrow> nat \<Rightarrow> u32 \<Rightarrow> u32 \<Rightarrow> u32 \<Rightarrow> u32 \<Rightarrow> kstate \<Rightarrow> kstate" where
  "buffer_setup u lm n bsize msg_size discipline id_ptr s =
     (let b = buf_at lm n;
          s1 = st32 u (b_index b) (ld32 u s (pok_buffers_data_index lm)) s;
          s2 = st32 u (b_ready b) 1 s1;
          s3 = st32 u (b_empty b) 1 s2;
          s4 = st32 u (b_size b) bsize s3;
          s5 = st32 u (b_msgsize b) msg_size s4;
          s6 = st8 u (b_waiting b) 0 s5;
          s7 = st32 u (b_off_e b) 0 s6;
          s8 = st32 u (b_off_b b) 0 s7;
          s9 = st32 u (b_discipline b) discipline s8;
          s10 = st32 u (pok_buffers_data_index lm) (ld32 u s9 (pok_buffers_data_index lm) + bsize) s9
      in st8 u id_ptr (of_nat n) s10)"

definition pok_buffer_create :: "ucall \<Rightarrow> libmem \<Rightarrow> u32 \<Rightarrow> u32 \<Rightarrow> u32 \<Rightarrow> u32 \<Rightarrow> u32 \<Rightarrow> kstate \<Rightarrow> sys_result" where
  "pok_buffer_create u lm name bsize msg_size discipline id_ptr s = do {
     found \<leftarrow> find_name u name (pok_buffers_names lm) [0..<POK_CONFIG_NB_BUFFERS lm] s;
     case found of
       None \<Rightarrow> Some (errno POK_ERRNO_EINVAL, s)
     | Some n \<Rightarrow>
         if ld32 u s (b_ready (buf_at lm n)) = 1 then Some (errno POK_ERRNO_READY, s)
         else do {
           (ret, s1) \<leftarrow> user_event_create u (b_lock (buf_at lm n)) s;
           if ret \<noteq> errno POK_ERRNO_OK then Some (ret, s1)
           else Some (errno POK_ERRNO_OK, buffer_setup u lm n bsize msg_size discipline id_ptr s1)
         }
   }"

definition pok_buffer_id :: "ucall \<Rightarrow> libmem \<Rightarrow> u32 \<Rightarrow> u32 \<Rightarrow> kstate \<Rightarrow> sys_result" where
  "pok_buffer_id u lm name id_ptr s = do {
     found \<leftarrow> find_name u name (pok_buffers_names lm) [0..<POK_CONFIG_NB_BUFFERS lm] s;
     case found of
       None \<Rightarrow> Some (errno POK_ERRNO_EINVAL, s)
     | Some n \<Rightarrow> Some (errno POK_ERRNO_OK, st8 u id_ptr (of_nat n) s)
   }"

text \<open>The wait for a free place: the call ends (left), or goes on (right).\<close>

partial_function (option) buffer_wait_space :: "ucall \<Rightarrow> u32 \<Rightarrow> u64 \<Rightarrow> kstate \<Rightarrow> ((u32 \<times> kstate) + kstate) option" where
  "buffer_wait_space u b timeout s =
     (if ld32 u s (b_full b) \<noteq> 0
      then if timeout = 0
        then do {
          (r, s1) \<leftarrow> user_event_unlock u (ld16 u s (b_lock b)) s;
          Some (Inl (errno POK_ERRNO_FULL, s1))
        }
        else do {
          (ret, s1) \<leftarrow> user_event_wait u (ld16 u s (b_lock b)) timeout s;
          if ret \<noteq> errno POK_ERRNO_OK
          then do { (r, s2) \<leftarrow> user_event_unlock u (ld16 u s1 (b_lock b)) s1; Some (Inl (ret, s2)) }
          else buffer_wait_space u b timeout s1
        }
      else Some (Inr s))"

definition buffer_put :: "ucall \<Rightarrow> libmem \<Rightarrow> u32 \<Rightarrow> u32 \<Rightarrow> u32 \<Rightarrow> kstate \<Rightarrow> kstate" where
  "buffer_put u lm b data len s =
     (let s1 = umemcpy u (pok_buffers_data lm + ld32 u s (b_index b) + ld32 u s (b_off_e b)) data len s;
          s2 = st32 u (b_off_e b) ((ld32 u s1 (b_off_e b) + len) mod ld32 u s1 (b_size b)) s1;
          s3 = (if ld32 u s2 (b_off_e b) = ld32 u s2 (b_off_b b) then st32 u (b_full b) 1 s2 else s2)
      in st32 u (b_empty b) 0 s3)"

text \<open>A size of zero passes the checks for no length; the division by it never happens.\<close>

definition pok_buffer_send :: "ucall \<Rightarrow> libmem \<Rightarrow> u8 \<Rightarrow> u32 \<Rightarrow> u32 \<Rightarrow> u64 \<Rightarrow> kstate \<Rightarrow> sys_result" where
  "pok_buffer_send u lm bid data len timeout s =
     (let b = buf_at lm (unat bid) in
      if unat bid > POK_CONFIG_NB_BUFFERS lm then Some (errno POK_ERRNO_EINVAL, s)
      else if ld32 u s (b_ready b) = 0 then Some (errno POK_ERRNO_EINVAL, s)
      else if data = 0 then Some (errno POK_ERRNO_EINVAL, s)
      else if len = 0 then Some (errno POK_ERRNO_EINVAL, s)
      else if len > ld32 u s (b_size b) * ld32 u s (b_msgsize b) then Some (errno POK_ERRNO_EINVAL, s)
      else do {
        (r, s1) \<leftarrow> user_event_lock u (ld16 u s (b_lock b)) s;
        w \<leftarrow> buffer_wait_space u b timeout s1;
        case w of
          Inl res \<Rightarrow> Some res
        | Inr s2 \<Rightarrow> do {
            kassert (ld32 u s2 (b_size b) \<noteq> 0);
            let s3 = buffer_put u lm b data len s2;
            (r1, s4) \<leftarrow> user_event_unlock u (ld16 u s3 (b_lock b)) s3;
            (r2, s5) \<leftarrow> user_event_broadcast u (ld16 u s4 (b_lock b)) s4;
            Some (errno POK_ERRNO_OK, s5)
          }
      })"

text \<open>The wait for a message. Without a timeout the event is unlocked and the loop goes on.\<close>

partial_function (option) buffer_wait_message :: "ucall \<Rightarrow> u32 \<Rightarrow> u64 \<Rightarrow> kstate \<Rightarrow> ((u32 \<times> kstate) + kstate) option" where
  "buffer_wait_message u b timeout s =
     (if ld32 u s (b_empty b) = 1
      then if timeout = 0
        then do {
          (r, s1) \<leftarrow> user_event_unlock u (ld16 u s (b_lock b)) s;
          buffer_wait_message u b timeout s1
        }
        else do {
          (ret, s1) \<leftarrow> user_event_wait u (ld16 u s (b_lock b)) timeout s;
          if ret \<noteq> errno POK_ERRNO_OK
          then do { (r, s2) \<leftarrow> user_event_unlock u (ld16 u s1 (b_lock b)) s1; Some (Inl (ret, s2)) }
          else buffer_wait_message u b timeout s1
        }
      else Some (Inr s))"

definition buffer_take :: "ucall \<Rightarrow> libmem \<Rightarrow> u32 \<Rightarrow> u32 \<Rightarrow> u32 \<Rightarrow> kstate \<Rightarrow> kstate" where
  "buffer_take u lm b data len_ptr s =
     (let s1 = umemcpy u data (pok_buffers_data lm + ld32 u s (b_index b) + ld32 u s (b_off_b b)) (ld32 u s (b_msgsize b)) s;
          s2 = st32 u (b_off_b b) ((ld32 u s1 (b_off_b b) + ld32 u s1 (b_msgsize b)) mod ld32 u s1 (b_size b)) s1;
          s3 = (if ld32 u s2 (b_off_b b) = ld32 u s2 (b_off_e b) then st32 u (b_empty b) 1 s2 else s2);
          s4 = st32 u (b_full b) 0 s3
      in st32 u len_ptr (ld32 u s4 (b_msgsize b)) s4)"

definition pok_buffer_receive :: "ucall \<Rightarrow> libmem \<Rightarrow> u8 \<Rightarrow> u64 \<Rightarrow> u32 \<Rightarrow> u32 \<Rightarrow> kstate \<Rightarrow> sys_result" where
  "pok_buffer_receive u lm bid timeout data len_ptr s =
     (let b = buf_at lm (unat bid) in
      if unat bid > POK_CONFIG_NB_BUFFERS lm then Some (errno POK_ERRNO_EINVAL, s)
      else if ld32 u s (b_ready b) = 0 then Some (errno POK_ERRNO_EINVAL, s)
      else if data = 0 then Some (errno POK_ERRNO_EINVAL, s)
      else do {
        (r, s1) \<leftarrow> user_event_lock u (ld16 u s (b_lock b)) s;
        w \<leftarrow> buffer_wait_message u b timeout s1;
        case w of
          Inl res \<Rightarrow> Some res
        | Inr s2 \<Rightarrow> do {
            kassert (ld32 u s2 (b_size b) \<noteq> 0);
            let s3 = buffer_take u lm b data len_ptr s2;
            (r1, s4) \<leftarrow> user_event_unlock u (ld16 u s3 (b_lock b)) s3;
            (r2, s5) \<leftarrow> user_event_broadcast u (ld16 u s4 (b_lock b)) s4;
            Some (errno POK_ERRNO_OK, s5)
          }
      })"

text \<open>The status has the number of places as a byte; a message size of zero is a division by zero.\<close>

definition pok_buffer_status :: "ucall \<Rightarrow> libmem \<Rightarrow> u8 \<Rightarrow> u32 \<Rightarrow> kstate \<Rightarrow> sys_result" where
  "pok_buffer_status u lm bid status s =
     (let b = buf_at lm (unat bid) in
      if unat bid > POK_CONFIG_NB_BUFFERS lm then Some (errno POK_ERRNO_EINVAL, s)
      else do {
        let s1 = st8 u status 0 s;
        kassert (ld32 u s1 (b_msgsize b) \<noteq> 0);
        let s2 = st8 u (status + 1) (ucast (ld32 u s1 (b_size b) div ld32 u s1 (b_msgsize b))) s1;
        let s3 = st32 u (status + 4) (ld32 u s2 (b_msgsize b)) s2;
        Some (errno POK_ERRNO_OK, st8 u (status + 8) 0 s3)
      })"

subsection \<open>Blackboards\<close>

definition pok_blackboard_init :: "ucall \<Rightarrow> libmem \<Rightarrow> kstate \<Rightarrow> kstate" where
  "pok_blackboard_init u lm s =
     fold (\<lambda>n s. st32 u (bb_ready (bb_at lm n)) 0 s) [0..<POK_CONFIG_NB_BLACKBOARDS lm] s"

definition blackboard_setup :: "ucall \<Rightarrow> libmem \<Rightarrow> nat \<Rightarrow> u32 \<Rightarrow> u32 \<Rightarrow> kstate \<Rightarrow> kstate" where
  "blackboard_setup u lm n msg_size id_ptr s =
     (let b = bb_at lm n;
          s1 = st32 u (bb_ready b) 1 s;
          s2 = st32 u (bb_empty b) 1 s1;
          s3 = st32 u (bb_index b) (ld32 u s2 (pok_blackboards_data_index lm)) s2;
          s4 = st8 u (bb_waiting b) 0 s3;
          s5 = st32 u (bb_size b) msg_size s4;
          s6 = st8 u id_ptr (of_nat n) s5
      in st32 u (pok_blackboards_data_index lm) (ld32 u s6 (pok_blackboards_data_index lm) + msg_size) s6)"

definition pok_blackboard_create :: "ucall \<Rightarrow> libmem \<Rightarrow> u32 \<Rightarrow> u32 \<Rightarrow> u32 \<Rightarrow> kstate \<Rightarrow> sys_result" where
  "pok_blackboard_create u lm name msg_size id_ptr s = do {
     found \<leftarrow> find_name u name (pok_blackboards_names lm) [0..<POK_CONFIG_NB_BLACKBOARDS lm] s;
     case found of
       None \<Rightarrow> Some (errno POK_ERRNO_EINVAL, s)
     | Some n \<Rightarrow>
         if ld32 u s (bb_ready (bb_at lm n)) = 1 then Some (errno POK_ERRNO_READY, s)
         else do {
           (ret, s1) \<leftarrow> user_event_create u (bb_lock (bb_at lm n)) s;
           if ret \<noteq> errno POK_ERRNO_OK then Some (ret, s1)
           else Some (errno POK_ERRNO_OK, blackboard_setup u lm n msg_size id_ptr s1)
         }
   }"

definition pok_blackboard_id :: "ucall \<Rightarrow> libmem \<Rightarrow> u32 \<Rightarrow> u32 \<Rightarrow> kstate \<Rightarrow> sys_result" where
  "pok_blackboard_id u lm name id_ptr s = do {
     found \<leftarrow> find_name u name (pok_blackboards_names lm) [0..<POK_CONFIG_NB_BLACKBOARDS lm] s;
     case found of
       None \<Rightarrow> Some (errno POK_ERRNO_EINVAL, s)
     | Some n \<Rightarrow> Some (errno POK_ERRNO_OK, st8 u id_ptr (of_nat n) s)
   }"

definition pok_blackboard_clear :: "ucall \<Rightarrow> libmem \<Rightarrow> u8 \<Rightarrow> kstate \<Rightarrow> sys_result" where
  "pok_blackboard_clear u lm bid s =
     (if unat bid > POK_CONFIG_NB_BLACKBOARDS lm then Some (errno POK_ERRNO_EINVAL, s)
      else Some (errno POK_ERRNO_OK, st32 u (bb_empty (bb_at lm (unat bid))) 1 s))"

definition pok_blackboard_display :: "ucall \<Rightarrow> libmem \<Rightarrow> u8 \<Rightarrow> u32 \<Rightarrow> u32 \<Rightarrow> kstate \<Rightarrow> sys_result" where
  "pok_blackboard_display u lm bid message len s =
     (let b = bb_at lm (unat bid) in
      if unat bid > POK_CONFIG_NB_BLACKBOARDS lm then Some (errno POK_ERRNO_EINVAL, s)
      else if message = 0 then Some (errno POK_ERRNO_EINVAL, s)
      else if len > ld32 u s (bb_size b) then Some (errno POK_ERRNO_SIZE, s)
      else if ld32 u s (bb_ready b) \<noteq> 1 then Some (errno POK_ERRNO_EINVAL, s)
      else do {
        (r, s1) \<leftarrow> user_event_lock u (ld16 u s (bb_lock b)) s;
        let s2 = umemcpy u (pok_blackboards_data lm + ld32 u s1 (bb_index b)) message len s1;
        (r1, s3) \<leftarrow> user_event_unlock u (ld16 u s2 (bb_lock b)) s2;
        Some (errno POK_ERRNO_OK, s3)
      })"

text \<open>The timeout is not used, and neither is the flag of an empty board.\<close>

definition pok_blackboard_read :: "ucall \<Rightarrow> libmem \<Rightarrow> u8 \<Rightarrow> u64 \<Rightarrow> u32 \<Rightarrow> u32 \<Rightarrow> kstate \<Rightarrow> sys_result" where
  "pok_blackboard_read u lm bid timeout data len_ptr s =
     (let b = bb_at lm (unat bid) in
      if unat bid > POK_CONFIG_NB_BLACKBOARDS lm then Some (errno POK_ERRNO_EINVAL, s)
      else if data = 0 then Some (errno POK_ERRNO_EINVAL, s)
      else if ld32 u s (bb_ready b) \<noteq> 1 then Some (errno POK_ERRNO_EINVAL, s)
      else do {
        (r, s1) \<leftarrow> user_event_lock u (ld16 u s (bb_lock b)) s;
        let s2 = umemcpy u data (pok_blackboards_data lm + ld32 u s1 (bb_index b)) (ld32 u s1 (bb_size b)) s1;
        (r1, s3) \<leftarrow> user_event_unlock u (ld16 u s2 (bb_lock b)) s2;
        Some (errno POK_ERRNO_OK, st32 u len_ptr (ld32 u s3 (bb_size b)) s3)
      })"

definition pok_blackboard_status :: "ucall \<Rightarrow> libmem \<Rightarrow> u8 \<Rightarrow> u32 \<Rightarrow> kstate \<Rightarrow> sys_result" where
  "pok_blackboard_status u lm bid status s =
     (let b = bb_at lm (unat bid) in
      if unat bid > POK_CONFIG_NB_BLACKBOARDS lm then Some (errno POK_ERRNO_EINVAL, s)
      else let s1 = st8 u (status + 8) (ld8 u s (bb_waiting b)) s;
               s2 = st32 u status (ld32 u s1 (bb_size b)) s1
           in Some (errno POK_ERRNO_OK, st32 u (status + 4) (ld32 u s2 (bb_empty b)) s2))"

subsection \<open>The start of a program\<close>

text \<open>The sizes of a queue are bytes, and 1024 is cut to zero.\<close>

definition pok_queue_init :: "ucall \<Rightarrow> libmem \<Rightarrow> kstate \<Rightarrow> kstate" where
  "pok_queue_init u lm s =
     fold (\<lambda>i s. let q = pok_queues lm + 8 * of_nat i
                 in st32 u q (pok_queues_data lm + 1024 * of_nat i)
                      (st8 u (q + 5) (ucast (1024 :: u32)) (st8 u (q + 4) (ucast (1024 :: u32)) s)))
       [0..<LIB_NB_PARTITIONS lm] s"

text \<open>\<open>main\<close> is the application.\<close>

definition pok_partition_start :: "ucall \<Rightarrow> libmem \<Rightarrow> (kstate \<Rightarrow> kstate option) \<Rightarrow> kstate \<Rightarrow> sys_result" where
  "pok_partition_start u lm main s = do {
     let s1 = (if LIB_NEEDS_BLACKBOARDS lm then pok_blackboard_init u lm s else s);
     let s2 = (if LIB_NEEDS_BUFFERS lm then pok_buffer_init u lm s1 else s1);
     s3 \<leftarrow> main s2;
     Some (0, s3)
   }"

subsection \<open>Loads and stores of the program\<close>

lemma umem_uput: "umem u (uput u p f n s) x = (if x \<in> area p n then f (unat (x - p)) else umem u s x)"
  by (simp add: umem_def uput_def mem_put_def area_def ubase_def)

lemma uput_fields [simp]: "ubase u (uput u p f n s) = ubase u s" "memory_change s (uput u p f n s)"
  by (auto simp: uput_def ubase_def memory_change_def mem_put_def)

lemma memory_change_trans: "memory_change s s' \<Longrightarrow> memory_change s' s'' \<Longrightarrow> memory_change s s''"
  by (auto simp: memory_change_def)

lemma st_as_uput:
  "st8 u p v s = uput u p (\<lambda>_. v) 1 s"
  "st16 u p v2 s = uput u p (\<lambda>i. ucast (drop_bit (8 * i) v2)) 2 s"
  "st32 u p v4 s = uput u p (\<lambda>i. ucast (drop_bit (8 * i) v4)) 4 s"
  by (simp_all add: st8_def st16_def st32_def wr_as_put wr16_def uput_def)

lemma ld_st [simp]: "ld8 u (st8 u p v s) p = v" "ld16 u (st16 u p v2 s) p = v2" "ld32 u (st32 u p v4 s) p = v4"
proof -
  have r: "rd8 (umem u t) p = rd8 (ks_mem t) (p + ubase u t)" "rd16 (umem u t) p = rd16 (ks_mem t) (p + ubase u t)"
    "rd32 (umem u t) p = rd32 (ks_mem t) (p + ubase u t)" for t
    by (simp_all add: rd8_def rd16_def rd32_def umem_def ac_simps)
  have b: "ubase u (wr8 a v s) = ubase u s" "ubase u (wr16 a v2 s) = ubase u s" "ubase u (wr32 a v4 s) = ubase u s" for a
    by (simp_all add: wr_as_put wr16_def)
  show "ld8 u (st8 u p v s) p = v" "ld16 u (st16 u p v2 s) p = v2" "ld32 u (st32 u p v4 s) p = v4"
    by (simp_all add: ld8_def ld16_def ld32_def st8_def st16_def st32_def r b rd8_wr8 rd16_wr16 rd32_wr32)
qed

text \<open>A load sees the bytes of its area only.\<close>

lemma ld_cong:
  assumes "\<And>x. x \<in> area p m \<Longrightarrow> umem u s' x = umem u s x"
  shows "1 \<le> m \<Longrightarrow> ld8 u s' p = ld8 u s p" "2 \<le> m \<Longrightarrow> ld16 u s' p = ld16 u s p" "4 \<le> m \<Longrightarrow> ld32 u s' p = ld32 u s p"
  using assms [of p] assms [of "p + 1"] assms [of "p + 2"] assms [of "p + 3"]
  by (simp_all add: ld8_def ld16_def ld32_def rd8_def rd16_def rd32_def area_def)

lemma distance_disjoint: "m \<le> unat (q - p) \<Longrightarrow> n \<le> unat (p - q) \<Longrightarrow> area p m \<inter> area q n = {}"
proof (rule equals0I)
  fix x assume d: "m \<le> unat (q - p)" "n \<le> unat (p - q)" and x: "x \<in> area p m \<inter> area q n"
  define i j where "i = x - p" and "j = x - q"
  have ij: "unat i < m" "unat j < n" using x by (simp_all add: area_def i_def j_def)
  have e: "q - p = i - j" "p - q = j - i" by (simp_all add: i_def j_def)
  show False
  proof (cases "j \<le> i")
    case True
    then have "unat (i - j) = unat i - unat j" by (rule unat_sub)
    then show False using d(1) ij(1) e(1) by simp
  next
    case False
    then have "unat (j - i) = unat j - unat i" by (intro unat_sub) simp
    then show False using d(2) ij(2) e(2) by simp
  qed
qed

lemma ld_uput:
  assumes "area p m \<inter> area q n = {}"
  shows "1 \<le> m \<Longrightarrow> ld8 u (uput u q f n s) p = ld8 u s p" "2 \<le> m \<Longrightarrow> ld16 u (uput u q f n s) p = ld16 u s p"
    "4 \<le> m \<Longrightarrow> ld32 u (uput u q f n s) p = ld32 u s p"
proof -
  have e: "umem u (uput u q f n s) x = umem u s x" if "x \<in> area p m" for x using assms that by (auto simp: umem_uput)
  show "1 \<le> m \<Longrightarrow> ld8 u (uput u q f n s) p = ld8 u s p" "2 \<le> m \<Longrightarrow> ld16 u (uput u q f n s) p = ld16 u s p"
    "4 \<le> m \<Longrightarrow> ld32 u (uput u q f n s) p = ld32 u s p"
    by (simp_all add: ld_cong [OF e])
qed

lemma ld_st_other [simp]:
  "4 \<le> unat (p - q) \<Longrightarrow> 4 \<le> unat (q - p) \<Longrightarrow> ld32 u (st32 u q w s) p = ld32 u s p"
  "4 \<le> unat (p - q) \<Longrightarrow> 4 \<le> unat (q - p) \<Longrightarrow> ld16 u (st32 u q w s) p = ld16 u s p"
  using distance_disjoint [of 4 q p 4] ld_uput(3) [of p 4 q 4] ld_uput(2) [of p 4 q 4] by (simp_all add: st_as_uput)

text \<open>The stack of the caller, in the addresses of the program.\<close>

definition user_stack :: "ucall \<Rightarrow> u32 set" where
  "user_stack u = area (uc_args u) 24 \<union> area (uc_local u) 20"

lemma keeps_umem: "call_keeps u s s' \<Longrightarrow> x \<notin> user_stack u \<Longrightarrow> umem u s' x = umem u s x"
  by (simp add: call_keeps_def umem_def user_stack_def call_stack_def area_def)

lemma keeps_ld:
  assumes "call_keeps u s s'" "area p m \<inter> user_stack u = {}"
  shows "1 \<le> m \<Longrightarrow> ld8 u s' p = ld8 u s p" "2 \<le> m \<Longrightarrow> ld16 u s' p = ld16 u s p" "4 \<le> m \<Longrightarrow> ld32 u s' p = ld32 u s p"
proof -
  have e: "umem u s' x = umem u s x" if "x \<in> area p m" for x
    using keeps_umem [OF assms(1), of x] assms(2) that by blast
  show "1 \<le> m \<Longrightarrow> ld8 u s' p = ld8 u s p" "2 \<le> m \<Longrightarrow> ld16 u s' p = ld16 u s p" "4 \<le> m \<Longrightarrow> ld32 u s' p = ld32 u s p"
    by (simp_all add: ld_cong [OF e])
qed

subsection \<open>A buffer as a queue of messages\<close>

text \<open>Where a buffer of \<open>N\<close> messages of \<open>n\<close> bytes is: its structure, its bytes from \<open>D\<close> on, and the stack of the caller
  do not overlap.\<close>

definition buffer_place :: "ucall \<Rightarrow> libmem \<Rightarrow> u8 \<Rightarrow> u32 \<Rightarrow> nat \<Rightarrow> nat \<Rightarrow> bool" where
  "buffer_place u lm bid D N n = (let b = buf_at lm (unat bid) in
     unat bid < POK_CONFIG_NB_BUFFERS lm \<and> 0 < n \<and> 0 < N \<and> n * N \<le> 1024 \<and>
     area b 44 \<inter> area D (n * N) = {} \<and> area b 44 \<inter> user_stack u = {} \<and> area D (n * N) \<inter> user_stack u = {})"

definition slot_at :: "u32 \<Rightarrow> nat \<Rightarrow> nat \<Rightarrow> nat \<Rightarrow> nat \<Rightarrow> u32" where
  "slot_at D N n h i = D + of_nat (n * ring_at N h i)"

definition buffer_queue :: "ucall \<Rightarrow> libmem \<Rightarrow> u8 \<Rightarrow> u32 \<Rightarrow> nat \<Rightarrow> nat \<Rightarrow> nat \<Rightarrow> u8 list list \<Rightarrow> kstate \<Rightarrow> bool" where
  "buffer_queue u lm bid D N n h ms s = (let b = buf_at lm (unat bid) in
     h < N \<and> length ms \<le> N \<and> (\<forall>m \<in> set ms. length m = n) \<and>
     ld32 u s (b_ready b) = 1 \<and> ld32 u s (b_empty b) = of_bool (ms = []) \<and> ld32 u s (b_full b) = of_bool (length ms = N) \<and>
     ld32 u s (b_size b) = of_nat (n * N) \<and> ld32 u s (b_msgsize b) = of_nat n \<and>
     pok_buffers_data lm + ld32 u s (b_index b) = D \<and>
     ld32 u s (b_off_b b) = of_nat (n * h) \<and> ld32 u s (b_off_e b) = of_nat (n * ring_at N h (length ms)) \<and>
     (\<forall>i < length ms. \<forall>k < n. umem u s (slot_at D N n h i + of_nat k) = ms ! i ! k))"

lemma small_word: "n * N \<le> 1024 \<Longrightarrow> j < N \<Longrightarrow> unat (of_nat (n * j) :: u32) = n * j"
proof -
  assume a: "n * N \<le> 1024" "j < N"
  have "n * j \<le> n * N" using a(2) by (intro mult_le_mono2) simp
  then have "n * j \<le> 1024" using a(1) by (rule le_trans)
  then show ?thesis unfolding unat_of_nat by (intro mod_less) (rule le_less_trans, assumption, simp)
qed

lemma next_offset:
  assumes "n * N \<le> 1024" "0 < n" "j < N"
  shows "(of_nat (n * j) + of_nat n) mod of_nat (n * N) = (of_nat (n * ((j + 1) mod N)) :: u32)"
proof -
  have "n * (j + 1) \<le> n * N" using assms(3) by (intro mult_le_mono2) simp
  then have s: "n * j + n \<le> 1024" using assms(1) by simp
  have "unat (of_nat (n * j) + of_nat n :: u32) = n * j + n"
    using s unat_of_nat [of "n * j + n", where 'a = 32] by simp
  moreover have "unat (of_nat (n * N) :: u32) = n * N" using assms(1) by (simp add: unat_of_nat del: of_nat_mult)
  ultimately have "(of_nat (n * j) + of_nat n) mod of_nat (n * N) = (of_nat ((n * j + n) mod (n * N)) :: u32)"
    by (simp only: word_arith_nat_mod)
  also have "(n * j + n) mod (n * N) = n * ((j + 1) mod N)" by (simp add: mult_mod_right add.commute)
  finally show ?thesis .
qed

lemma slot_sub: "n * N \<le> 1024 \<Longrightarrow> h < N \<Longrightarrow> area (slot_at D N n h i) n \<subseteq> area D (n * N)"
proof -
  assume a: "n * N \<le> 1024" "h < N"
  have "ring_at N h i < N" using a(2) by (rule ring_at_less)
  then have "n * (ring_at N h i + 1) \<le> n * N" by (intro mult_le_mono2) simp
  then show ?thesis using area_sub [of "n * ring_at N h i" n "n * N" D] a(1) by (simp add: slot_at_def)
qed

lemma slots_disjoint:
  assumes "n * N \<le> 1024" "h < N" "i < N" "j < N" "i \<noteq> j"
  shows "area (slot_at D N n h i) n \<inter> area (slot_at D N n h j) n = {}"
proof -
  have d: "area (D + of_nat (n * x)) n \<inter> area (D + of_nat (n * y)) n = {}" if "x < y" "y < N" for x y
  proof (rule area_disjoint)
    have "n * (x + 1) \<le> n * y" using that(1) by (intro mult_le_mono2) simp
    moreover have "n * (y + 1) \<le> n * N" using that(2) by (intro mult_le_mono2) simp
    ultimately show "n * x + n \<le> n * y" "n * y + n \<le> 2 ^ 32" using assms(1) by simp_all
  qed
  have "ring_at N h i < N" "ring_at N h j < N" "ring_at N h i \<noteq> ring_at N h j"
    using assms ring_at_inj by (simp_all add: ring_at_less)
  then show ?thesis unfolding slot_at_def using d by (metis Int_commute linorder_neqE_nat)
qed

text \<open>The fields of the structure are apart from the bytes of the buffer and from the stack.\<close>

lemma field_apart:
  assumes "buffer_place u lm bid D N n" "k + 4 \<le> 44"
  shows "area (buf_at lm (unat bid) + of_nat k) 4 \<inter> area D (n * N) = {}"
    "area (buf_at lm (unat bid) + of_nat k) 4 \<inter> user_stack u = {}"
  using assms area_sub [of k 4 44 "buf_at lm (unat bid)"] by (auto simp: buffer_place_def Let_def)

lemmas field_offsets = field_apart [of _ _ _ _ _ _ 0] field_apart [of _ _ _ _ _ _ 4] field_apart [of _ _ _ _ _ _ 8]
  field_apart [of _ _ _ _ _ _ 12] field_apart [of _ _ _ _ _ _ 16] field_apart [of _ _ _ _ _ _ 20] field_apart [of _ _ _ _ _ _ 24]
  field_apart [of _ _ _ _ _ _ 28] field_apart [of _ _ _ _ _ _ 40]

lemmas field_defs = b_ready_def b_empty_def b_full_def b_size_def b_index_def b_off_b_def b_off_e_def b_msgsize_def b_lock_def

lemma fields_kept:
  assumes "buffer_place u lm bid D N n" "\<And>x. x \<in> area (buf_at lm (unat bid)) 44 \<Longrightarrow> umem u s' x = umem u s x"
  shows "let b = buf_at lm (unat bid) in ld32 u s' (b_ready b) = ld32 u s (b_ready b) \<and> ld32 u s' (b_empty b) = ld32 u s (b_empty b) \<and>
    ld32 u s' (b_full b) = ld32 u s (b_full b) \<and> ld32 u s' (b_size b) = ld32 u s (b_size b) \<and>
    ld32 u s' (b_index b) = ld32 u s (b_index b) \<and> ld32 u s' (b_off_b b) = ld32 u s (b_off_b b) \<and>
    ld32 u s' (b_off_e b) = ld32 u s (b_off_e b) \<and> ld32 u s' (b_msgsize b) = ld32 u s (b_msgsize b) \<and>
    ld16 u s' (b_lock b) = ld16 u s (b_lock b)"
proof -
  let ?b = "buf_at lm (unat bid)"
  have e: "ld32 u s' (?b + of_nat k) = ld32 u s (?b + of_nat k)" "ld16 u s' (?b + of_nat k) = ld16 u s (?b + of_nat k)"
    if "k + 4 \<le> 44" for k
  proof -
    have "umem u s' x = umem u s x" if "x \<in> area (?b + of_nat k) 4" for x
      using assms(2) area_sub [of k 4 44 ?b] that \<open>k + 4 \<le> 44\<close> by auto
    then show "ld32 u s' (?b + of_nat k) = ld32 u s (?b + of_nat k)" "ld16 u s' (?b + of_nat k) = ld16 u s (?b + of_nat k)"
      by (simp_all add: ld_cong [of "?b + of_nat k" 4 u s' s])
  qed
  show ?thesis
    using e [of 0] e [of 4] e [of 8] e [of 12] e [of 16] e [of 20] e [of 24] e [of 28] e [of 40]
    by (simp add: field_defs Let_def)
qed

text \<open>A change that leaves the structure and the bytes as they are leaves the queue as it is.\<close>

lemma buffer_queue_kept:
  assumes "buffer_place u lm bid D N n" "buffer_queue u lm bid D N n h ms s"
    and "\<And>x. x \<in> area (buf_at lm (unat bid)) 44 \<union> area D (n * N) \<Longrightarrow> umem u s' x = umem u s x"
  shows "buffer_queue u lm bid D N n h ms s'" "ld16 u s' (b_lock (buf_at lm (unat bid))) = ld16 u s (b_lock (buf_at lm (unat bid)))"
proof -
  have p: "n * N \<le> 1024" "h < N" using assms(1,2) by (simp_all add: buffer_place_def buffer_queue_def Let_def)
  have f: "umem u s' x = umem u s x" if "x \<in> area (buf_at lm (unat bid)) 44" for x using assms(3) that by blast
  have "umem u s' (slot_at D N n h i + of_nat k) = umem u s (slot_at D N n h i + of_nat k)" if "k < n" for i k
  proof -
    have "n \<le> n * N" using p(2) by (cases N) simp_all
    then have "n \<le> 1024" using p(1) by (rule le_trans)
    then have "n \<le> 2 ^ 32" by simp
    then have "slot_at D N n h i + of_nat k \<in> area (slot_at D N n h i) n" using that by (intro area_nth)
    then show ?thesis using slot_sub [OF p] assms(3) by blast
  qed
  then show "buffer_queue u lm bid D N n h ms s'"
    using assms(2) fields_kept [OF assms(1) f] by (simp add: buffer_queue_def Let_def)
  show "ld16 u s' (b_lock (buf_at lm (unat bid))) = ld16 u s (b_lock (buf_at lm (unat bid)))"
    using fields_kept [OF assms(1) f] by (simp add: Let_def)
qed

lemma umem_st32_other: "x \<notin> area p 4 \<Longrightarrow> umem u (st32 u p w s) x = umem u s x"
  by (simp add: st_as_uput umem_uput)

lemma st32_memory [simp]: "memory_change s (st32 u p w s)" "ubase u (st32 u p w s) = ubase u s"
  by (simp_all add: st_as_uput)

lemma memory_change_st32: "memory_change s t \<Longrightarrow> memory_change s (st32 u p w t)"
  using memory_change_trans st32_memory(1) by blast

lemma ring_at_next: "j = ring_at N h c \<Longrightarrow> (j + 1) mod N = ring_at N h (c + 1)"
  using ring_at_Suc [of N h c] by simp

lemma ring_at_shift: "ring_at N (ring_at N h 1) i = ring_at N h (i + 1)"
proof -
  have "((h + 1) mod N + i) mod N = (h + 1 + i) mod N" by (rule mod_add_left_eq)
  then show ?thesis by (simp add: ring_at_def)
qed

lemma offset_eq_iff:
  assumes "n * N \<le> 1024" "0 < n" "i < N" "j < N"
  shows "(of_nat (n * i) = (of_nat (n * j) :: u32)) = (i = j)"
  using small_word [OF assms(1,3)] small_word [OF assms(1,4)] assms(2) by (metis mult_left_cancel less_numeral_extra(3))

lemma put_queue:
  assumes "buffer_place u lm bid D N n" "buffer_queue u lm bid D N n h ms s" "length ms < N"
  shows "buffer_queue u lm bid D N n h (ms @ [map (\<lambda>k. umem u s (data + of_nat k)) [0..<n]])
      (buffer_put u lm (buf_at lm (unat bid)) data (of_nat n) s)"
    and "ld16 u (buffer_put u lm (buf_at lm (unat bid)) data (of_nat n) s) (b_lock (buf_at lm (unat bid))) =
      ld16 u s (b_lock (buf_at lm (unat bid)))"
    and "memory_change s (buffer_put u lm (buf_at lm (unat bid)) data (of_nat n) s)"
proof -
  let ?b = "buf_at lm (unat bid)" and ?c = "length ms"
  let ?m = "map (\<lambda>k. umem u s (data + of_nat k)) [0..<n]"
  let ?e = "ring_at N h ?c"
  have p: "0 < n" "0 < N" "n * N \<le> 1024" "area ?b 44 \<inter> area D (n * N) = {}" using assms(1) by (simp_all add: buffer_place_def Let_def)
  have q: "h < N" "\<forall>m \<in> set ms. length m = n" "ld32 u s (b_ready ?b) = 1" "ld32 u s (b_full ?b) = 0"
    "ld32 u s (b_size ?b) = of_nat (n * N)" "ld32 u s (b_msgsize ?b) = of_nat n"
    "pok_buffers_data lm + ld32 u s (b_index ?b) = D" "ld32 u s (b_off_b ?b) = of_nat (n * h)"
    "ld32 u s (b_off_e ?b) = of_nat (n * ?e)"
    "\<forall>i < ?c. \<forall>k < n. umem u s (slot_at D N n h i + of_nat k) = ms ! i ! k"
    using assms(2,3) by (simp_all add: buffer_queue_def Let_def)
  have n32: "unat (of_nat n :: u32) = n" using small_word [of n N 1] p by (cases "N = 1") (simp_all add: unat_of_nat)
  define s1 where "s1 = umemcpy u (slot_at D N n h ?c) data (of_nat n) s"
  have m1: "umem u s1 x = (if x \<in> area (slot_at D N n h ?c) n then umem u s (data + of_nat (unat (x - slot_at D N n h ?c))) else umem u s x)" for x
    by (simp add: s1_def umemcpy_def n32 umem_uput)
  have "umem u s1 x = umem u s x" if "x \<in> area ?b 44" for x using that p(4) slot_sub [OF p(3) q(1)] m1 by fastforce
  note f1 = fields_kept [OF assms(1) this, unfolded Let_def]
  define s2 where "s2 = st32 u (b_off_e ?b) (of_nat (n * ring_at N h (?c + 1))) s1"
  have o: "(ld32 u s1 (b_off_e ?b) + of_nat n) mod ld32 u s1 (b_size ?b) = of_nat (n * ring_at N h (?c + 1))"
    using next_offset [OF p(3,1) ring_at_less [OF q(1), of ?c]] f1 q by (simp only: ring_at_next [OF refl])
  have f2: "ld32 u s2 (b_off_e ?b) = of_nat (n * ring_at N h (?c + 1))" "ld32 u s2 (b_off_b ?b) = of_nat (n * h)"
    "ld32 u s2 (b_ready ?b) = 1" "ld32 u s2 (b_full ?b) = 0" "ld32 u s2 (b_size ?b) = of_nat (n * N)"
    "ld32 u s2 (b_msgsize ?b) = of_nat n" "ld32 u s2 (b_index ?b) = ld32 u s (b_index ?b)" "ld16 u s2 (b_lock ?b) = ld16 u s (b_lock ?b)"
    using f1 q by (simp_all add: s2_def field_defs)
  have full: "(of_nat (n * ring_at N h (?c + 1)) = (of_nat (n * h) :: u32)) = (?c + 1 = N)"
  proof -
    have "ring_at N h (?c + 1) = h \<longleftrightarrow> ?c + 1 = N"
    proof (cases "?c + 1 = N")
      case True
      then show ?thesis using ring_at_full [OF q(1)] by simp
    next
      case False
      then show ?thesis using ring_at_inj [of h N "?c + 1" 0] q(1) assms(3) p(2) by simp
    qed
    then show ?thesis using offset_eq_iff [OF p(3,1) ring_at_less [OF q(1), of "?c + 1"] q(1)] by simp
  qed
  define s3 where "s3 = (if ?c + 1 = N then st32 u (b_full ?b) 1 s2 else s2)"
  define s4 where "s4 = st32 u (b_empty ?b) 0 s3"
  have put: "buffer_put u lm ?b data (of_nat n) s = s4"
    using o q(7,9) full f2(1,2) by (simp add: buffer_put_def Let_def s4_def s3_def s2_def s1_def slot_at_def)
  have f4: "ld32 u s4 (b_off_e ?b) = of_nat (n * ring_at N h (?c + 1))" "ld32 u s4 (b_off_b ?b) = of_nat (n * h)"
    "ld32 u s4 (b_ready ?b) = 1" "ld32 u s4 (b_full ?b) = of_bool (?c + 1 = N)" "ld32 u s4 (b_size ?b) = of_nat (n * N)"
    "ld32 u s4 (b_msgsize ?b) = of_nat n" "ld32 u s4 (b_index ?b) = ld32 u s (b_index ?b)" "ld32 u s4 (b_empty ?b) = 0"
    "ld16 u s4 (b_lock ?b) = ld16 u s (b_lock ?b)"
    using f2 by (simp_all add: s4_def s3_def field_defs)
  have m4: "umem u s4 x = umem u s1 x" if "x \<in> area D (n * N)" for x
  proof -
    have "x \<notin> area (?b + of_nat k) 4" if "k + 4 \<le> 44" for k using field_apart(1) [OF assms(1) that] \<open>x \<in> area D (n * N)\<close> by blast
    from this [of 4] this [of 8] this [of 24] show ?thesis
      by (simp add: s4_def s3_def s2_def field_defs umem_st32_other)
  qed
  have slots: "umem u s4 (slot_at D N n h i + of_nat k) = (ms @ [?m]) ! i ! k" if "i < ?c + 1" "k < n" for i k
  proof -
    have "n \<le> 2 ^ 32" using p(2,3) by (cases N) simp_all
    then have ins: "slot_at D N n h i + of_nat k \<in> area (slot_at D N n h i) n" using that(2) by (rule area_nth [rotated])
    then have m: "umem u s4 (slot_at D N n h i + of_nat k) = umem u s1 (slot_at D N n h i + of_nat k)"
      using slot_sub [OF p(3) q(1)] by (intro m4) blast
    show ?thesis
    proof (cases "i = ?c")
      case True
      have "unat (of_nat k :: u32) = k" using that(2) \<open>n \<le> 2 ^ 32\<close> by (simp add: unat_of_nat)
      then show ?thesis using True ins that(2) m by (simp add: m1)
    next
      case False
      then have "slot_at D N n h i + of_nat k \<notin> area (slot_at D N n h ?c) n"
        using slots_disjoint [OF p(3) q(1), of i ?c] ins that(1) assms(3) by fastforce
      then show ?thesis using False that q(10) by (simp add: m m1 nth_append)
    qed
  qed
  show "buffer_queue u lm bid D N n h (ms @ [?m]) (buffer_put u lm ?b data (of_nat n) s)"
    unfolding put buffer_queue_def Let_def using q(1,2,7) f4 slots assms(3) by simp
  show "ld16 u (buffer_put u lm ?b data (of_nat n) s) (b_lock ?b) = ld16 u s (b_lock ?b)" using put f4 by simp
  have "memory_change s s1" by (simp add: s1_def umemcpy_def)
  then show "memory_change s (buffer_put u lm ?b data (of_nat n) s)"
    unfolding put s4_def s3_def s2_def by (simp add: memory_change_st32)
qed

lemma take_queue:
  assumes "buffer_place u lm bid D N n" "buffer_queue u lm bid D N n h (m # ms) s"
    and "area data n \<inter> (area (buf_at lm (unat bid)) 44 \<union> area D (n * N)) = {}"
    and "area len_ptr 4 \<inter> (area (buf_at lm (unat bid)) 44 \<union> area D (n * N) \<union> area data n) = {}"
  defines "s' \<equiv> buffer_take u lm (buf_at lm (unat bid)) data len_ptr s"
  shows "buffer_queue u lm bid D N n ((h + 1) mod N) ms s'"
    and "ld16 u s' (b_lock (buf_at lm (unat bid))) = ld16 u s (b_lock (buf_at lm (unat bid)))"
    and "memory_change s s'" "\<forall>k < n. umem u s' (data + of_nat k) = m ! k" "ld32 u s' len_ptr = of_nat n"
proof -
  let ?b = "buf_at lm (unat bid)" and ?c = "length ms" and ?h = "ring_at N h 1"
  have p: "0 < n" "0 < N" "n * N \<le> 1024" "area ?b 44 \<inter> area D (n * N) = {}" using assms(1) by (simp_all add: buffer_place_def Let_def)
  have q: "h < N" "?c < N" "\<forall>m \<in> set ms. length m = n" "length m = n" "ld32 u s (b_ready ?b) = 1" "ld32 u s (b_empty ?b) = 0"
    "ld32 u s (b_size ?b) = of_nat (n * N)" "ld32 u s (b_msgsize ?b) = of_nat n"
    "pok_buffers_data lm + ld32 u s (b_index ?b) = D" "ld32 u s (b_off_b ?b) = of_nat (n * h)"
    "ld32 u s (b_off_e ?b) = of_nat (n * ring_at N h (?c + 1))"
    "\<forall>i < ?c + 1. \<forall>k < n. umem u s (slot_at D N n h i + of_nat k) = (m # ms) ! i ! k"
    using assms(2) by (simp_all add: buffer_queue_def Let_def)
  have n32: "unat (of_nat n :: u32) = n" using small_word [of n N 1] p by (cases "N = 1") (simp_all add: unat_of_nat)
  have le: "n \<le> 2 ^ 32" using p(2,3) by (cases N) simp_all
  have h1: "(h + 1) mod N = ?h" by (simp add: ring_at_def)
  define s1 where "s1 = umemcpy u data (slot_at D N n h 0) (of_nat n) s"
  have m1: "umem u s1 x = (if x \<in> area data n then umem u s (slot_at D N n h 0 + of_nat (unat (x - data))) else umem u s x)" for x
    by (simp add: s1_def umemcpy_def n32 umem_uput)
  have "umem u s1 x = umem u s x" if "x \<in> area ?b 44" for x using that assms(3) m1 by auto
  note f1 = fields_kept [OF assms(1) this, unfolded Let_def]
  have o: "(ld32 u s1 (b_off_b ?b) + ld32 u s1 (b_msgsize ?b)) mod ld32 u s1 (b_size ?b) = of_nat (n * ?h)"
    using next_offset [OF p(3,1) q(1)] f1 q by (simp only: h1)
  define s2 where "s2 = st32 u (b_off_b ?b) (of_nat (n * ?h)) s1"
  have f2: "ld32 u s2 (b_off_e ?b) = of_nat (n * ring_at N h (?c + 1))" "ld32 u s2 (b_off_b ?b) = of_nat (n * ?h)"
    "ld32 u s2 (b_ready ?b) = 1" "ld32 u s2 (b_empty ?b) = 0" "ld32 u s2 (b_size ?b) = of_nat (n * N)"
    "ld32 u s2 (b_msgsize ?b) = of_nat n" "ld32 u s2 (b_index ?b) = ld32 u s (b_index ?b)" "ld16 u s2 (b_lock ?b) = ld16 u s (b_lock ?b)"
    using f1 q by (simp_all add: s2_def field_defs)
  have empty: "(of_nat (n * ?h) = (of_nat (n * ring_at N h (?c + 1)) :: u32)) = (ms = [])"
  proof -
    have "?h = ring_at N h (?c + 1) \<longleftrightarrow> ms = []"
    proof (cases "?c + 1 = N")
      case True
      then show ?thesis
        using ring_at_full [OF q(1)] ring_at_inj [of h N 1 0] q(1) p(2) by (cases ms) auto
    next
      case False
      then show ?thesis using ring_at_inj [of h N 1 "?c + 1"] q(1,2) by auto
    qed
    then show ?thesis using offset_eq_iff [OF p(3,1) ring_at_less [OF q(1)] ring_at_less [OF q(1)]] by simp
  qed
  define s3 where "s3 = (if ms = [] then st32 u (b_empty ?b) 1 s2 else s2)"
  define s4 where "s4 = st32 u (b_full ?b) 0 s3"
  have f4: "ld32 u s4 (b_off_e ?b) = of_nat (n * ring_at N h (?c + 1))" "ld32 u s4 (b_off_b ?b) = of_nat (n * ?h)"
    "ld32 u s4 (b_ready ?b) = 1" "ld32 u s4 (b_full ?b) = 0" "ld32 u s4 (b_size ?b) = of_nat (n * N)"
    "ld32 u s4 (b_msgsize ?b) = of_nat n" "ld32 u s4 (b_index ?b) = ld32 u s (b_index ?b)" "ld32 u s4 (b_empty ?b) = of_bool (ms = [])"
    "ld16 u s4 (b_lock ?b) = ld16 u s (b_lock ?b)"
    using f2 by (simp_all add: s4_def s3_def field_defs)
  have "s' = st32 u len_ptr (ld32 u s4 (b_msgsize ?b)) s4"
    using o q(8-10) empty f2(1,2) ring_at_0 [OF q(1)]
    by (simp add: s'_def buffer_take_def Let_def s4_def s3_def s2_def s1_def slot_at_def)
  then have take: "s' = st32 u len_ptr (of_nat n) s4" by (simp only: f4(6))
  have m4: "umem u s4 x = umem u s1 x" if "x \<notin> area ?b 44" for x
  proof -
    have "x \<notin> area (?b + of_nat k) 4" if "k + 4 \<le> 44" for k using area_sub [OF that] \<open>x \<notin> area ?b 44\<close> by auto
    from this [of 4] this [of 8] this [of 20] show ?thesis
      by (simp add: s4_def s3_def s2_def field_defs umem_st32_other)
  qed
  have m': "umem u s' x = umem u s4 x" if "x \<notin> area len_ptr 4" for x using that by (simp add: take umem_st32_other)
  have slots: "umem u s' (slot_at D N n ?h i + of_nat k) = ms ! i ! k" if "i < ?c" "k < n" for i k
  proof -
    have e: "slot_at D N n ?h i = slot_at D N n h (i + 1)"
      unfolding slot_at_def ring_at_shift ..
    have "slot_at D N n h (i + 1) + of_nat k \<in> area (slot_at D N n h (i + 1)) n" using that(2) le by (rule area_nth)
    then have ins: "slot_at D N n h (i + 1) + of_nat k \<in> area D (n * N)" using slot_sub [OF p(3) q(1)] by blast
    then have "umem u s' (slot_at D N n h (i + 1) + of_nat k) = umem u s1 (slot_at D N n h (i + 1) + of_nat k)"
      using m' m4 p(4) assms(4) by (metis IntI UnI1 UnI2 empty_iff)
    also have "\<dots> = umem u s (slot_at D N n h (i + 1) + of_nat k)" using ins assms(3) m1 by auto
    finally show ?thesis using that q(12) e by simp
  qed
  have f': "umem u s' x = umem u s4 x" if "x \<in> area ?b 44" for x using that assms(4) by (intro m') blast
  have l': "length ms \<noteq> N" using q(2) by simp
  have r: "ring_at N ?h ?c = ring_at N h (?c + 1)" by (rule ring_at_shift)
  show "buffer_queue u lm bid D N n ((h + 1) mod N) ms s'"
    unfolding h1 buffer_queue_def Let_def
    using fields_kept [OF assms(1) f', unfolded Let_def] f4 q(1-3,9) slots l' r ring_at_less [OF q(1), of 1] by simp
  show "ld16 u s' (b_lock ?b) = ld16 u s (b_lock ?b)" using fields_kept [OF assms(1) f', unfolded Let_def] f4 by simp
  have "memory_change s s1" by (simp add: s1_def umemcpy_def)
  then show "memory_change s s'" unfolding take s4_def s3_def s2_def by (simp add: memory_change_st32)
  show "\<forall>k < n. umem u s' (data + of_nat k) = m ! k"
  proof (intro allI impI)
    fix k assume k: "k < n"
    have ins: "data + of_nat k \<in> area data n" using k le by (rule area_nth)
    have "unat (of_nat k :: u32) = k" using k le by (simp add: unat_of_nat)
    then have "umem u s1 (data + of_nat k) = umem u s (slot_at D N n h 0 + of_nat k)" using ins by (simp add: m1)
    moreover have "umem u s' (data + of_nat k) = umem u s1 (data + of_nat k)"
      using ins m' m4 assms(3,4) by (metis IntI UnI1 UnI2 empty_iff)
    ultimately show "umem u s' (data + of_nat k) = m ! k" using q(12) k by auto
  qed
  show "ld32 u s' len_ptr = of_nat n" by (simp add: take)
qed

text \<open>A buffer whose event nobody holds or waits for.\<close>

definition buffer_ready :: "ucall \<Rightarrow> libmem \<Rightarrow> u8 \<Rightarrow> u32 \<Rightarrow> nat \<Rightarrow> nat \<Rightarrow> nat \<Rightarrow> u8 list list \<Rightarrow> kstate \<Rightarrow> bool" where
  "buffer_ready u lm bid D N n h ms s = (buffer_queue u lm bid D N n h ms s \<and>
     event_ready 1 u (ld16 u s (b_lock (buf_at lm (unat bid)))) s)"

lemma keeps_queue:
  assumes "buffer_place u lm bid D N n" "buffer_queue u lm bid D N n h ms s" "call_keeps u s s'"
  shows "buffer_queue u lm bid D N n h ms s'"
    "ld16 u s' (b_lock (buf_at lm (unat bid))) = ld16 u s (b_lock (buf_at lm (unat bid)))"
  using buffer_queue_kept [OF assms(1,2), of s'] keeps_umem [OF assms(3)] assms(1)
  by (auto simp: buffer_place_def Let_def)

lemma buffer_sizes:
  assumes "0 < n" "0 < N" "n * N \<le> 1024"
  shows "n \<le> 1024" "\<not> of_nat n > (of_nat (n * N) * of_nat n :: u32)" "(of_nat n :: u32) \<noteq> 0" "(of_nat (n * N) :: u32) \<noteq> 0"
proof -
  have "n \<le> n * N" using assms(2) by simp
  then show n: "n \<le> 1024" using assms(3) by (rule le_trans)
  have un: "unat (of_nat n :: u32) = n" unfolding unat_of_nat using n by (intro mod_less) simp
  have "n * N * n \<le> 1024 * 1024" using assms(3) n by (intro mult_le_mono)
  then have "unat (of_nat (n * N * n) :: u32) = n * N * n" unfolding unat_of_nat by (intro mod_less) simp
  moreover have "n \<le> n * N * n" using assms(1,2) by simp
  moreover have "(of_nat (n * N) * of_nat n :: u32) = of_nat (n * N * n)" by simp
  ultimately show "\<not> of_nat n > (of_nat (n * N) * of_nat n :: u32)"
    using un by (simp only: word_less_nat_alt not_less)
  have "unat (of_nat (n * N) :: u32) = n * N" using assms(3) unfolding unat_of_nat by (intro mod_less) simp
  then show "(of_nat (n * N) :: u32) \<noteq> 0" using assms(1,2) by (metis unat_0 mult_is_0 less_numeral_extra(3))
  show "(of_nat n :: u32) \<noteq> 0" using un assms(1) by (metis unat_0 less_numeral_extra(3))
qed

lemma send_to_queue:
  assumes "buffer_place u lm bid D N n" "buffer_ready u lm bid D N n h ms s" "data \<noteq> 0" "length ms < N"
    and "area data n \<inter> user_stack u = {}"
  shows "\<exists>s'. pok_buffer_send u lm bid data (of_nat n) timeout s = Some (0, s') \<and>
    buffer_ready u lm bid D N n h (ms @ [map (\<lambda>k. umem u s (data + of_nat k)) [0..<n]]) s'"
proof -
  let ?b = "buf_at lm (unat bid)"
  let ?e = "ld16 u s (b_lock ?b)"
  have p: "unat bid < POK_CONFIG_NB_BUFFERS lm" "0 < n" "0 < N" "n * N \<le> 1024" using assms(1) by (simp_all add: buffer_place_def Let_def)
  have q: "buffer_queue u lm bid D N n h ms s" "event_ready 1 u ?e s" using assms(2) by (simp_all add: buffer_ready_def)
  have f: "ld32 u s (b_ready ?b) = 1" "ld32 u s (b_size ?b) = of_nat (n * N)" "ld32 u s (b_msgsize ?b) = of_nat n"
    using q(1) by (simp_all add: buffer_queue_def Let_def)
  note size = buffer_sizes [OF p(2-4)]
  obtain s1 where s1: "user_event_lock u ?e s = Some (0, s1)" "event_ready 0 u ?e s1" "call_keeps u s s1"
    and rest: "\<forall>s2. memory_change s1 s2 \<longrightarrow> (\<exists>s3 s4. user_event_unlock u ?e s2 = Some (0, s3) \<and> call_keeps u s2 s3 \<and>
       event_ready 1 u ?e s3 \<and> user_event_broadcast u ?e s3 = Some (0, s4) \<and> call_keeps u s3 s4 \<and> call_keeps u s2 s4 \<and>
       event_ready 1 u ?e s4)"
    using ev.critical_section [OF q(2)] by blast
  note k1 = keeps_queue [OF assms(1) q(1) s1(3)]
  define s2 where "s2 = buffer_put u lm ?b data (of_nat n) s1"
  note put = put_queue [OF assms(1) k1(1) assms(4), of data, folded s2_def]
  obtain s3 s4 where r: "user_event_unlock u ?e s2 = Some (0, s3)" "call_keeps u s2 s3"
    "user_event_broadcast u ?e s3 = Some (0, s4)" "call_keeps u s3 s4" "event_ready 1 u ?e s4"
    using rest put(3) by blast
  note k3 = keeps_queue [OF assms(1) put(1) r(2)]
  note k4 = keeps_queue [OF assms(1) k3(1) r(4)]
  have msg: "map (\<lambda>k. umem u s1 (data + of_nat k)) [0..<n] = map (\<lambda>k. umem u s (data + of_nat k)) [0..<n]"
  proof (rule map_cong [OF refl])
    fix k assume "k \<in> set [0..<n]"
    then have "data + of_nat k \<in> area data n" using size(1) by (intro area_nth) simp_all
    then show "umem u s1 (data + of_nat k) = umem u s (data + of_nat k)" using keeps_umem [OF s1(3)] assms(5) by blast
  qed
  have w: "buffer_wait_space u ?b timeout s1 = Some (Inr s1)"
    using k1(1) assms(4) by (simp add: buffer_wait_space.simps buffer_queue_def Let_def)
  have "ld32 u s1 (b_size ?b) \<noteq> 0" using k1(1) size(4) by (simp add: buffer_queue_def Let_def)
  then have "pok_buffer_send u lm bid data (of_nat n) timeout s = Some (0, s4)"
    using p(1) f size assms(3) s1(1) w r(1,3) put(2) k1(2) k3(2)
    by (simp add: pok_buffer_send_def Let_def s2_def [symmetric] errno_def)
  then show ?thesis using k4 k3(2) put(2) k1(2) r(5) msg by (simp add: buffer_ready_def)
qed

lemma send_to_full_queue:
  assumes "buffer_place u lm bid D N n" "buffer_ready u lm bid D N n h ms s" "length ms = N" "data \<noteq> 0"
  shows "\<exists>s'. pok_buffer_send u lm bid data (of_nat n) 0 s = Some (errno POK_ERRNO_FULL, s') \<and>
    buffer_ready u lm bid D N n h ms s'"
proof -
  let ?b = "buf_at lm (unat bid)"
  let ?e = "ld16 u s (b_lock ?b)"
  have p: "unat bid < POK_CONFIG_NB_BUFFERS lm" "0 < n" "0 < N" "n * N \<le> 1024" using assms(1) by (simp_all add: buffer_place_def Let_def)
  have q: "buffer_queue u lm bid D N n h ms s" "event_ready 1 u ?e s" using assms(2) by (simp_all add: buffer_ready_def)
  have f: "ld32 u s (b_ready ?b) = 1" "ld32 u s (b_size ?b) = of_nat (n * N)" "ld32 u s (b_msgsize ?b) = of_nat n"
    using q(1) by (simp_all add: buffer_queue_def Let_def)
  obtain s1 where s1: "user_event_lock u ?e s = Some (0, s1)" "event_ready 0 u ?e s1" "call_keeps u s s1"
    using ev.lock_free [OF q(2)] by blast
  note k1 = keeps_queue [OF assms(1) q(1) s1(3)]
  obtain s3 where r: "user_event_unlock u ?e s1 = Some (0, s3)" "event_ready 1 u ?e s3" "call_keeps u s1 s3"
    using ev.unlock_held [OF s1(2)] by blast
  note k3 = keeps_queue [OF assms(1) k1(1) r(3)]
  have w: "buffer_wait_space u ?b 0 s1 = Some (Inl (errno POK_ERRNO_FULL, s3))"
    using k1 r(1) assms(3) by (simp add: buffer_wait_space.simps buffer_queue_def Let_def)
  have "pok_buffer_send u lm bid data (of_nat n) 0 s = Some (errno POK_ERRNO_FULL, s3)"
    using p(1) f buffer_sizes [OF p(2-4)] assms(4) s1(1) w by (simp add: pok_buffer_send_def Let_def)
  then show ?thesis using k3 k1(2) r(2) by (simp add: buffer_ready_def)
qed

lemma receive_from_queue:
  assumes "buffer_place u lm bid D N n" "buffer_ready u lm bid D N n h (m # ms) s" "data \<noteq> 0"
    and "area data n \<inter> (area (buf_at lm (unat bid)) 44 \<union> area D (n * N) \<union> user_stack u) = {}"
    and "area len_ptr 4 \<inter> (area (buf_at lm (unat bid)) 44 \<union> area D (n * N) \<union> area data n \<union> user_stack u) = {}"
  shows "\<exists>s'. pok_buffer_receive u lm bid timeout data len_ptr s = Some (0, s') \<and>
    buffer_ready u lm bid D N n ((h + 1) mod N) ms s' \<and>
    (\<forall>k < n. umem u s' (data + of_nat k) = m ! k) \<and> ld32 u s' len_ptr = of_nat n"
proof -
  let ?b = "buf_at lm (unat bid)"
  let ?e = "ld16 u s (b_lock ?b)"
  have p: "unat bid < POK_CONFIG_NB_BUFFERS lm" "0 < n" "0 < N" "n * N \<le> 1024" using assms(1) by (simp_all add: buffer_place_def Let_def)
  note size = buffer_sizes [OF p(2-4)]
  have q: "buffer_queue u lm bid D N n h (m # ms) s" "event_ready 1 u ?e s" using assms(2) by (simp_all add: buffer_ready_def)
  have f: "ld32 u s (b_ready ?b) = 1" using q(1) by (simp add: buffer_queue_def Let_def)
  obtain s1 where s1: "user_event_lock u ?e s = Some (0, s1)" "event_ready 0 u ?e s1" "call_keeps u s s1"
    and rest: "\<forall>s2. memory_change s1 s2 \<longrightarrow> (\<exists>s3 s4. user_event_unlock u ?e s2 = Some (0, s3) \<and> call_keeps u s2 s3 \<and>
       event_ready 1 u ?e s3 \<and> user_event_broadcast u ?e s3 = Some (0, s4) \<and> call_keeps u s3 s4 \<and> call_keeps u s2 s4 \<and>
       event_ready 1 u ?e s4)"
    using ev.critical_section [OF q(2)] by blast
  note k1 = keeps_queue [OF assms(1) q(1) s1(3)]
  define s2 where "s2 = buffer_take u lm ?b data len_ptr s1"
  have a: "area data n \<inter> (area ?b 44 \<union> area D (n * N)) = {}"
    "area len_ptr 4 \<inter> (area ?b 44 \<union> area D (n * N) \<union> area data n) = {}" using assms(4,5) by blast+
  note take = take_queue [OF assms(1) k1(1) a, folded s2_def]
  obtain s3 s4 where r: "user_event_unlock u ?e s2 = Some (0, s3)" "call_keeps u s2 s3"
    "user_event_broadcast u ?e s3 = Some (0, s4)" "call_keeps u s3 s4" "call_keeps u s2 s4" "event_ready 1 u ?e s4"
    using rest take(3) by blast
  note k3 = keeps_queue [OF assms(1) take(1) r(2)]
  note k4 = keeps_queue [OF assms(1) k3(1) r(4)]
  have w: "buffer_wait_message u ?b timeout s1 = Some (Inr s1)"
    using k1(1) by (simp add: buffer_wait_message.simps buffer_queue_def Let_def)
  have "ld32 u s1 (b_size ?b) \<noteq> 0" using k1(1) size(4) by (simp add: buffer_queue_def Let_def)
  then have "pok_buffer_receive u lm bid timeout data len_ptr s = Some (0, s4)"
    using p(1) f assms(3) s1(1) w r(1,3) take(2) k1(2) k3(2)
    by (simp add: pok_buffer_receive_def Let_def s2_def [symmetric] errno_def)
  moreover have "umem u s4 (data + of_nat k) = m ! k" if "k < n" for k
  proof -
    have "data + of_nat k \<in> area data n" using that size(1) by (intro area_nth) simp_all
    then show ?thesis using keeps_umem [OF r(5)] assms(4) take(4) that by fastforce
  qed
  moreover have "ld32 u s4 len_ptr = of_nat n"
    using keeps_ld(3) [OF r(5), of len_ptr 4] assms(5) take(5) by (simp add: Int_Un_distrib)
  ultimately show ?thesis using k4 k3(2) take(2) k1(2) r(6) by (simp add: buffer_ready_def)
qed


text \<open>Waiting for a message without a timeout does not end while the buffer is empty.\<close>

lemma empty_wait_diverges:
  assumes "buffer_place u lm bid D N n" "buffer_queue u lm bid D N n h [] s"
    and "event_ready v u (ld16 u s (b_lock (buf_at lm (unat bid)))) s"
  shows "buffer_wait_message u (buf_at lm (unat bid)) 0 s = None"
proof -
  let ?b = "buf_at lm (unat bid)"
  let ?Q = "\<lambda>u' b t s. u' = u \<and> b = ?b \<and> t = 0 \<and> buffer_queue u lm bid D N n h [] s \<and>
    (\<exists>v. event_ready v u (ld16 u s (b_lock ?b)) s)"
  have stuck: "?Q u' b t s \<longrightarrow> False" if "buffer_wait_message u' b t s = Some r" for u' b t s r
  proof (rule buffer_wait_message.raw_induct [where P = "\<lambda>u' b t s r. ?Q u' b t s \<longrightarrow> False", rotated])
    show "buffer_wait_message u' b t s = Some r" by (rule that)
  next
    fix f u' b t s r
    assume IH: "\<And>u' b t s r. f u' b t s = Some r \<Longrightarrow> ?Q u' b t s \<longrightarrow> False"
      and body: "(if ld32 u' s (b_empty b) = 1
        then if t = 0 then do { (r, s1) \<leftarrow> user_event_unlock u' (ld16 u' s (b_lock b)) s; f u' b t s1 }
          else do { (ret, s1) \<leftarrow> user_event_wait u' (ld16 u' s (b_lock b)) t s;
            if ret \<noteq> errno POK_ERRNO_OK
            then do { (r, s2) \<leftarrow> user_event_unlock u' (ld16 u' s1 (b_lock b)) s1; Some (Inl (ret, s2)) }
            else f u' b t s1 }
        else Some (Inr s)) = Some r"
    show "?Q u' b t s \<longrightarrow> False"
    proof
      assume Q: "?Q u' b t s"
      then obtain v where v: "event_ready v u (ld16 u s (b_lock ?b)) s" by blast
      obtain s1 where s1: "user_event_unlock u (ld16 u s (b_lock ?b)) s = Some (0, s1)"
        "event_ready 1 u (ld16 u s (b_lock ?b)) s1" "call_keeps u s s1"
        using event_unlock_ready [OF v] by blast
      note k = keeps_queue [OF assms(1) _ s1(3), of h "[]"]
      have "f u ?b 0 s1 = Some r" using body Q s1(1) by (simp add: buffer_queue_def Let_def)
      moreover have "?Q u ?b 0 s1" using Q k s1(2) by auto
      ultimately show False using IH by blast
    qed
  qed
  show ?thesis
  proof (cases "buffer_wait_message u ?b 0 s")
    case (Some r)
    then show ?thesis using stuck [OF Some] assms(2,3) by blast
  qed
qed

text \<open>Receiving from an empty buffer without a timeout does not return as long as no other thread puts a message in:
  the answer that the buffer is empty is missing, and the call goes on releasing the event in a loop.\<close>

theorem receive_empty_never_returns:
  assumes "buffer_place u lm bid D N n" "buffer_ready u lm bid D N n h [] s" "data \<noteq> 0"
  shows "pok_buffer_receive u lm bid 0 data len_ptr s = None"
proof -
  let ?b = "buf_at lm (unat bid)"
  let ?e = "ld16 u s (b_lock ?b)"
  have q: "buffer_queue u lm bid D N n h [] s" "event_ready 1 u ?e s" using assms(2) by (simp_all add: buffer_ready_def)
  obtain s1 where s1: "user_event_lock u ?e s = Some (0, s1)" "event_ready 0 u ?e s1" "call_keeps u s s1"
    using ev.lock_free [OF q(2)] by blast
  note k1 = keeps_queue [OF assms(1) q(1) s1(3)]
  have "buffer_wait_message u ?b 0 s1 = None" using empty_wait_diverges [OF assms(1) k1(1)] k1(2) s1(2) by simp
  moreover have "ld32 u s (b_ready ?b) = 1" "unat bid < POK_CONFIG_NB_BUFFERS lm"
    using q(1) assms(1) by (simp_all add: buffer_queue_def buffer_place_def Let_def)
  ultimately show ?thesis using s1(1) assms(3) by (simp add: pok_buffer_receive_def Let_def)
qed

subsection \<open>A created buffer\<close>

lemma ld_st8_other:
  "1 \<le> unat (p - q) \<Longrightarrow> 4 \<le> unat (q - p) \<Longrightarrow> ld32 u (st8 u q w s) p = ld32 u s p"
  "1 \<le> unat (p - q) \<Longrightarrow> 4 \<le> unat (q - p) \<Longrightarrow> ld16 u (st8 u q w s) p = ld16 u s p"
  using distance_disjoint [of 4 q p 1] ld_uput(3) [of p 4 q 1] ld_uput(2) [of p 4 q 1] by (simp_all add: st_as_uput)

text \<open>The creation sets up an empty queue, when the flag of a full buffer is clear: it does not clear it itself.\<close>

lemma setup_queue:
  fixes discipline :: u32
  assumes "buffer_place u lm bid D N n" "D = pok_buffers_data lm + ld32 u s (pok_buffers_data_index lm)"
    and "ld32 u s (b_full (buf_at lm (unat bid))) = 0"
    and "area (buf_at lm (unat bid)) 44 \<inter> area (pok_buffers_data_index lm) 4 = {}" "area (buf_at lm (unat bid)) 44 \<inter> area id_ptr 1 = {}"
  defines "s' \<equiv> buffer_setup u lm (unat bid) (of_nat (n * N)) (of_nat n) discipline id_ptr s"
  shows "buffer_queue u lm bid D N n 0 [] s'"
    and "ld16 u s' (b_lock (buf_at lm (unat bid))) = ld16 u s (b_lock (buf_at lm (unat bid)))" "memory_change s s'"
proof -
  let ?b = "buf_at lm (unat bid)"
  let ?x = "ld32 u s (pok_buffers_data_index lm)"
  define s9 where "s9 = st32 u (b_discipline ?b) discipline (st32 u (b_off_b ?b) 0 (st32 u (b_off_e ?b) 0 (st8 u (b_waiting ?b) 0
    (st32 u (b_msgsize ?b) (of_nat n) (st32 u (b_size ?b) (of_nat (n * N)) (st32 u (b_empty ?b) 1 (st32 u (b_ready ?b) 1
      (st32 u (b_index ?b) ?x s))))))))"
  have s': "s' = st8 u id_ptr (of_nat (unat bid)) (st32 u (pok_buffers_data_index lm)
      (ld32 u s9 (pok_buffers_data_index lm) + of_nat (n * N)) s9)"
    by (simp add: s'_def buffer_setup_def Let_def s9_def)
  have f9: "ld32 u s9 (b_ready ?b) = 1" "ld32 u s9 (b_empty ?b) = 1" "ld32 u s9 (b_full ?b) = 0" "ld32 u s9 (b_size ?b) = of_nat (n * N)"
    "ld32 u s9 (b_msgsize ?b) = of_nat n" "ld32 u s9 (b_index ?b) = ?x" "ld32 u s9 (b_off_b ?b) = 0" "ld32 u s9 (b_off_e ?b) = 0"
    "ld16 u s9 (b_lock ?b) = ld16 u s (b_lock ?b)"
    using assms(3) by (simp_all add: s9_def field_defs b_waiting_def b_discipline_def ld_st8_other)
  have "umem u s' x = umem u s9 x" if "x \<in> area ?b 44" for x
  proof -
    have "x \<notin> area (pok_buffers_data_index lm) 4" "x \<notin> area id_ptr 1" using that assms(4,5) by blast+
    then show ?thesis unfolding s' by (simp only: st_as_uput umem_uput if_False)
  qed
  note f = fields_kept [OF assms(1) this, unfolded Let_def]
  have N: "0 < N" using assms(1) by (simp add: buffer_place_def Let_def)
  then show "buffer_queue u lm bid D N n 0 [] s'"
    using f f9 assms(2) by (simp add: buffer_queue_def Let_def)
  show "ld16 u s' (b_lock ?b) = ld16 u s (b_lock ?b)" using f f9(9) by simp
  have "memory_change s s" by (auto simp: memory_change_def intro: exI [of _ "ks_mem s"])
  moreover have "memory_change s (st8 u q w t)" if "memory_change s t" for t q w
    using memory_change_trans [OF that] by (simp add: st_as_uput)
  ultimately show "memory_change s s'"
    unfolding s' s9_def by (simp add: memory_change_st32)
qed

subsection \<open>A program with a buffer\<close>

definition demo_lib :: libmem where
  "demo_lib = \<lparr>pok_buffers = 4096, pok_buffers_names = 5120, pok_buffers_data = 8192, pok_buffers_data_index = 5632,
     POK_CONFIG_NB_BUFFERS = 1, pok_blackboards = 6144, pok_blackboards_names = 6656, pok_blackboards_data = 10240,
     pok_blackboards_data_index = 6912, POK_CONFIG_NB_BLACKBOARDS = 1, pok_queues = 7168, pok_queues_data = 12288,
     LIB_NB_PARTITIONS = 1, LIB_NEEDS_BUFFERS = True, LIB_NEEDS_BLACKBOARDS = True\<rparr>"

definition demo_event_state :: kstate where
  "demo_event_state = demo_state\<lparr>pok_partitions_lockobjs := (\<lambda>_. demo_lockobj\<lparr>l_kind := POK_LOCKOBJ_KIND_EVENT\<rparr>)\<rparr>"

lemma demo_lib_place: "buffer_place demo_ucall demo_lib 0 8192 2 4"
proof -
  have "area 4096 44 \<inter> area 8192 8 = {}" "area 4096 44 \<inter> area 256 24 = {}" "area 4096 44 \<inter> area 512 20 = {}"
    "area 8192 8 \<inter> area 256 24 = {}" "area 8192 8 \<inter> area 512 20 = {}"
    by (rule distance_disjoint; simp)+
  then show ?thesis by (simp add: buffer_place_def demo_lib_def buf_at_def user_stack_def Int_Un_distrib)
qed

lemma demo_umem: "umem demo_ucall demo_event_state = (\<lambda>_. 0)"
  by (rule ext) (simp add: umem_def demo_event_state_def demo_state_def)

lemma demo_event_ready: "event_ready 1 demo_ucall 0 demo_event_state"
proof -
  have "in_program demo_ucall 256 SIZEOF_SYSCALL_ARGS demo_event_state" "in_program demo_ucall 512 SIZEOF_LOCKOBJ_ATTR demo_event_state"
    by (simp_all add: in_program_def PARTITION_ID_demo pok_check_ptr_in_partition_def demo_event_state_def demo_partition_def
        SIZEOF_SYSCALL_ARGS_def SIZEOF_LOCKOBJ_ATTR_def)
  then show ?thesis
    by (simp add: event_ready_def lock_stack_def apart_def quiet_event_def event_object_def lock_at_def demo_event_state_def
        demo_partition_def demo_lockobj_def demo_fifo_def pok_lockobj_fifo_is_empty_def demo_config_def)
qed

definition demo_buffer_state :: kstate where
  "demo_buffer_state = buffer_setup demo_ucall demo_lib 0 8 4 0 7680 demo_event_state"

lemma demo_buffer_ready: "buffer_ready demo_ucall demo_lib 0 8192 2 4 0 [] demo_buffer_state"
proof -
  have z: "ld32 demo_ucall demo_event_state p = 0" "ld16 demo_ucall demo_event_state p = 0" for p
    by (simp_all add: ld32_def ld16_def rd32_def rd16_def demo_umem)
  have b: "buf_at demo_lib 0 = 4096" "pok_buffers_data demo_lib = 8192" "pok_buffers_data_index demo_lib = 5632"
    by (simp_all add: demo_lib_def buf_at_def)
  have a: "area 4096 44 \<inter> area 5632 4 = {}" "area 4096 44 \<inter> area 7680 1 = {}" by (rule distance_disjoint; simp)+
  note q = setup_queue [OF demo_lib_place, where s = demo_event_state and id_ptr = 7680 and discipline = 0]
  have "buffer_queue demo_ucall demo_lib 0 8192 2 4 0 [] demo_buffer_state"
    "ld16 demo_ucall demo_buffer_state (b_lock 4096) = 0" "memory_change demo_event_state demo_buffer_state"
    using q a by (simp_all add: z b demo_buffer_state_def)
  moreover from this(3) have "event_ready 1 demo_ucall 0 demo_buffer_state"
    unfolding memory_change_def using demo_event_ready by (metis event_ready_store)
  ultimately show ?thesis by (simp add: buffer_ready_def b)
qed

lemma demo_areas:
  "area 16384 4 \<inter> (area (buf_at demo_lib (unat (0 :: u8))) 44 \<union> area 8192 (4 * 2) \<union> user_stack demo_ucall) = {}"
  "area 16400 4 \<inter> (area (buf_at demo_lib (unat (0 :: u8))) 44 \<union> area 8192 (4 * 2) \<union> area 16384 4 \<union> user_stack demo_ucall) = {}"
proof -
  have a: "area p 4 \<inter> area 4096 44 = {}" "area p 4 \<inter> area 8192 8 = {}" "area p 4 \<inter> area 256 24 = {}" "area p 4 \<inter> area 512 20 = {}"
    if "p = 16384 \<or> p = 16400" for p using that by (auto intro!: distance_disjoint)
  have b: "area 16400 4 \<inter> area 16384 4 = {}" by (rule distance_disjoint; simp)
  show "area 16384 4 \<inter> (area (buf_at demo_lib (unat (0 :: u8))) 44 \<union> area 8192 (4 * 2) \<union> user_stack demo_ucall) = {}"
    "area 16400 4 \<inter> (area (buf_at demo_lib (unat (0 :: u8))) 44 \<union> area 8192 (4 * 2) \<union> area 16384 4 \<union> user_stack demo_ucall) = {}"
    using a [of 16384] a [of 16400] b by (simp_all add: demo_lib_def buf_at_def user_stack_def Int_Un_distrib)
qed


theorem receive_empty_never_returns_witness:
  "pok_buffer_receive demo_ucall demo_lib 0 0 16384 16400 demo_buffer_state = None"
  by (rule receive_empty_never_returns [OF demo_lib_place demo_buffer_ready]) simp

subsection \<open>A blackboard and its message\<close>

definition board_place :: "ucall \<Rightarrow> libmem \<Rightarrow> u8 \<Rightarrow> u32 \<Rightarrow> nat \<Rightarrow> bool" where
  "board_place u lm bid D n = (let b = bb_at lm (unat bid) in
     unat bid < POK_CONFIG_NB_BLACKBOARDS lm \<and> n \<le> 1024 \<and> area b 24 \<inter> area D n = {} \<and>
     area b 24 \<inter> user_stack u = {} \<and> area D n \<inter> user_stack u = {})"

text \<open>A created blackboard that has the message \<open>m\<close>, with an event that nobody holds.\<close>

definition board_ready :: "ucall \<Rightarrow> libmem \<Rightarrow> u8 \<Rightarrow> u32 \<Rightarrow> u8 list \<Rightarrow> kstate \<Rightarrow> bool" where
  "board_ready u lm bid D m s = (let b = bb_at lm (unat bid) in
     ld32 u s (bb_ready b) = 1 \<and> ld32 u s (bb_size b) = of_nat (length m) \<and>
     pok_blackboards_data lm + ld32 u s (bb_index b) = D \<and> (\<forall>k < length m. umem u s (D + of_nat k) = m ! k) \<and>
     event_ready 1 u (ld16 u s (bb_lock b)) s)"

lemmas board_field_defs = bb_size_def bb_empty_def bb_index_def bb_ready_def bb_lock_def

lemma board_fields_kept:
  assumes "\<forall>x \<in> area (bb_at lm (unat bid)) 24 - area (bb_empty (bb_at lm (unat bid))) 4. umem u s' x = umem u s x"
  shows "let b = bb_at lm (unat bid) in ld32 u s' (bb_ready b) = ld32 u s (bb_ready b) \<and> ld32 u s' (bb_size b) = ld32 u s (bb_size b) \<and>
    ld32 u s' (bb_index b) = ld32 u s (bb_index b) \<and> ld16 u s' (bb_lock b) = ld16 u s (bb_lock b)"
proof -
  let ?b = "bb_at lm (unat bid)"
  have e: "ld32 u s' (?b + of_nat k) = ld32 u s (?b + of_nat k)" "ld16 u s' (?b + of_nat k) = ld16 u s (?b + of_nat k)"
    if "k + 4 \<le> 24" "k + 4 \<le> 4 \<or> 8 \<le> k" for k
  proof -
    have "area (?b + of_nat k) 4 \<inter> area (?b + of_nat 4) 4 = {}"
    proof (cases "8 \<le> k")
      case True
      have "area (?b + of_nat 4) 4 \<inter> area (?b + of_nat k) 4 = {}" by (rule area_disjoint) (use that(1) True in simp_all)
      then show ?thesis by blast
    next
      case False
      show ?thesis by (rule area_disjoint) (use that(2) False in simp_all)
    qed
    then have "umem u s' x = umem u s x" if "x \<in> area (?b + of_nat k) 4" for x
      using assms area_sub [of k 4 24 ?b] that \<open>k + 4 \<le> 24\<close> by (auto simp: bb_empty_def)
    then show "ld32 u s' (?b + of_nat k) = ld32 u s (?b + of_nat k)" "ld16 u s' (?b + of_nat k) = ld16 u s (?b + of_nat k)"
      by (simp_all add: ld_cong [of "?b + of_nat k" 4 u s' s])
  qed
  show ?thesis using e [of 0] e [of 12] e [of 16] e [of 20] by (simp add: board_field_defs Let_def)
qed

lemma board_critical:
  assumes "event_ready 1 u e s"
  shows "\<exists>s1. user_event_lock u e s = Some (0, s1) \<and> call_keeps u s s1 \<and> (\<forall>s2. memory_change s1 s2 \<longrightarrow>
    (\<exists>s3. user_event_unlock u e s2 = Some (0, s3) \<and> call_keeps u s2 s3 \<and> event_ready 1 u e s3))"
  using ev.critical_section [OF assms] by blast

lemma board_display:
  assumes "board_place u lm bid D n" "board_ready u lm bid D m s" "length m = n" "data \<noteq> 0" "area data n \<inter> user_stack u = {}"
  shows "\<exists>s'. pok_blackboard_display u lm bid data (of_nat n) s = Some (0, s') \<and>
    board_ready u lm bid D (map (\<lambda>k. umem u s (data + of_nat k)) [0..<n]) s'"
proof -
  let ?b = "bb_at lm (unat bid)" and ?m = "map (\<lambda>k. umem u s (data + of_nat k)) [0..<n]"
  let ?e = "ld16 u s (bb_lock ?b)"
  have p: "unat bid < POK_CONFIG_NB_BLACKBOARDS lm" "n \<le> 1024" "area ?b 24 \<inter> area D n = {}" "area ?b 24 \<inter> user_stack u = {}"
    "area D n \<inter> user_stack u = {}" using assms(1) by (simp_all add: board_place_def Let_def)
  have q: "ld32 u s (bb_ready ?b) = 1" "ld32 u s (bb_size ?b) = of_nat n" "pok_blackboards_data lm + ld32 u s (bb_index ?b) = D"
    "event_ready 1 u ?e s" using assms(2,3) by (simp_all add: board_ready_def Let_def)
  have n: "unat (of_nat n :: u32) = n" using p(2) by (simp add: unat_of_nat)
  obtain s1 where s1: "user_event_lock u ?e s = Some (0, s1)" "call_keeps u s s1"
    and rest: "\<forall>s2. memory_change s1 s2 \<longrightarrow>
      (\<exists>s3. user_event_unlock u ?e s2 = Some (0, s3) \<and> call_keeps u s2 s3 \<and> event_ready 1 u ?e s3)"
    using board_critical [OF q(4)] by blast
  have k1: "\<forall>x \<in> area ?b 24 - area (bb_empty ?b) 4. umem u s1 x = umem u s x" using keeps_umem [OF s1(2)] p(4) by blast
  note f1 = board_fields_kept [OF k1, unfolded Let_def]
  define s2 where "s2 = umemcpy u D data (of_nat n) s1"
  have m2: "umem u s2 x = (if x \<in> area D n then umem u s1 (data + of_nat (unat (x - D))) else umem u s1 x)" for x
    by (simp add: s2_def umemcpy_def n umem_uput)
  have k2: "\<forall>x \<in> area ?b 24 - area (bb_empty ?b) 4. umem u s2 x = umem u s1 x" using m2 p(3) by auto
  note f2 = board_fields_kept [OF k2, unfolded Let_def]
  have "memory_change s1 s2" by (simp add: s2_def umemcpy_def)
  with rest obtain s3 where s3: "user_event_unlock u ?e s2 = Some (0, s3)" "call_keeps u s2 s3" "event_ready 1 u ?e s3" by blast
  have k3: "\<forall>x \<in> area ?b 24 - area (bb_empty ?b) 4. umem u s3 x = umem u s2 x" using keeps_umem [OF s3(2)] p(4) by blast
  note f3 = board_fields_kept [OF k3, unfolded Let_def]
  have "pok_blackboard_display u lm bid data (of_nat n) s = Some (0, s3)"
    using p(1) q assms(4) s1(1) s3(1) f1 f2 by (simp add: pok_blackboard_display_def Let_def s2_def [symmetric] errno_def)
  moreover have "umem u s3 (D + of_nat k) = ?m ! k" if "k < n" for k
  proof -
    have a: "D + of_nat k \<in> area D n" "data + of_nat k \<in> area data n" using that p(2) by (auto intro: area_nth)
    have "unat (of_nat k :: u32) = k" using that p(2) by (simp add: unat_of_nat)
    then show ?thesis using keeps_umem [OF s3(2)] keeps_umem [OF s1(2)] p(5) assms(5) a m2 that by fastforce
  qed
  ultimately show ?thesis using q f1 f2 f3 s3(3) by (simp add: board_ready_def Let_def)
qed

lemma board_read:
  assumes "board_place u lm bid D n" "board_ready u lm bid D m s" "length m = n" "data \<noteq> 0"
    and "area data n \<inter> (area (bb_at lm (unat bid)) 24 \<union> area D n \<union> user_stack u) = {}" "area len_ptr 4 \<inter> area data n = {}"
  shows "\<exists>s'. pok_blackboard_read u lm bid timeout data len_ptr s = Some (0, s') \<and>
    (\<forall>k < n. umem u s' (data + of_nat k) = m ! k) \<and> ld32 u s' len_ptr = of_nat n"
proof -
  let ?b = "bb_at lm (unat bid)"
  let ?e = "ld16 u s (bb_lock ?b)"
  have p: "unat bid < POK_CONFIG_NB_BLACKBOARDS lm" "n \<le> 1024" "area ?b 24 \<inter> area D n = {}" "area ?b 24 \<inter> user_stack u = {}"
    "area D n \<inter> user_stack u = {}" using assms(1) by (simp_all add: board_place_def Let_def)
  have q: "ld32 u s (bb_ready ?b) = 1" "ld32 u s (bb_size ?b) = of_nat n" "pok_blackboards_data lm + ld32 u s (bb_index ?b) = D"
    "event_ready 1 u ?e s" "\<forall>k < n. umem u s (D + of_nat k) = m ! k"
    using assms(2,3) by (simp_all add: board_ready_def Let_def)
  have n: "unat (of_nat n :: u32) = n" using p(2) by (simp add: unat_of_nat)
  obtain s1 where s1: "user_event_lock u ?e s = Some (0, s1)" "call_keeps u s s1"
    and rest: "\<forall>s2. memory_change s1 s2 \<longrightarrow>
      (\<exists>s3. user_event_unlock u ?e s2 = Some (0, s3) \<and> call_keeps u s2 s3 \<and> event_ready 1 u ?e s3)"
    using board_critical [OF q(4)] by blast
  have k1: "\<forall>x \<in> area ?b 24 - area (bb_empty ?b) 4. umem u s1 x = umem u s x" using keeps_umem [OF s1(2)] p(4) by blast
  note f1 = board_fields_kept [OF k1, unfolded Let_def]
  define s2 where "s2 = umemcpy u data D (of_nat n) s1"
  have m2: "umem u s2 x = (if x \<in> area data n then umem u s1 (D + of_nat (unat (x - data))) else umem u s1 x)" for x
    by (simp add: s2_def umemcpy_def n umem_uput)
  have k2: "\<forall>x \<in> area ?b 24 - area (bb_empty ?b) 4. umem u s2 x = umem u s1 x" using m2 assms(5) by auto
  note f2 = board_fields_kept [OF k2, unfolded Let_def]
  have "memory_change s1 s2" by (simp add: s2_def umemcpy_def)
  with rest obtain s3 where s3: "user_event_unlock u ?e s2 = Some (0, s3)" "call_keeps u s2 s3" by blast
  have k3: "\<forall>x \<in> area ?b 24 - area (bb_empty ?b) 4. umem u s3 x = umem u s2 x" using keeps_umem [OF s3(2)] p(4) by blast
  note f3 = board_fields_kept [OF k3, unfolded Let_def]
  let ?s' = "st32 u len_ptr (of_nat n) s3"
  have "pok_blackboard_read u lm bid timeout data len_ptr s = Some (0, ?s')"
    using p(1) q assms(4) s1(1) s3(1) f1 f2 f3 by (simp add: pok_blackboard_read_def Let_def s2_def [symmetric] errno_def)
  moreover have "umem u ?s' (data + of_nat k) = m ! k" if "k < n" for k
  proof -
    have a: "D + of_nat k \<in> area D n" "data + of_nat k \<in> area data n" using that p(2) by (auto intro: area_nth)
    have u: "unat (of_nat k :: u32) = k" using that p(2) by (simp add: unat_of_nat)
    have "umem u ?s' (data + of_nat k) = umem u s3 (data + of_nat k)"
      using a(2) assms(6) by (intro umem_st32_other) blast
    also have "\<dots> = umem u s2 (data + of_nat k)" using keeps_umem [OF s3(2)] a(2) assms(5) by blast
    also have "\<dots> = umem u s1 (D + of_nat k)" using m2 a(2) u by simp
    also have "\<dots> = umem u s (D + of_nat k)" using keeps_umem [OF s1(2)] a(1) p(5) by blast
    finally show ?thesis using q(5) that by simp
  qed
  ultimately show ?thesis by auto
qed

lemma board_clear:
  assumes "board_place u lm bid D n" "board_ready u lm bid D m s" "length m = n"
  shows "\<exists>s'. pok_blackboard_clear u lm bid s = Some (0, s') \<and> board_ready u lm bid D m s' \<and> ld32 u s' (bb_empty (bb_at lm (unat bid))) = 1"
proof -
  let ?b = "bb_at lm (unat bid)" and ?s' = "st32 u (bb_empty (bb_at lm (unat bid))) 1 s"
  have p: "unat bid < POK_CONFIG_NB_BLACKBOARDS lm" "n \<le> 1024" "area ?b 24 \<inter> area D n = {}"
    using assms(1) by (simp_all add: board_place_def Let_def)
  have sub: "area (bb_empty ?b) 4 \<subseteq> area ?b 24" using area_sub [of 4 4 24 ?b] by (simp add: bb_empty_def)
  have "\<forall>x \<in> area ?b 24 - area (bb_empty ?b) 4. umem u ?s' x = umem u s x" by (simp add: umem_st32_other)
  note f = board_fields_kept [OF this, unfolded Let_def]
  have "umem u ?s' (D + of_nat k) = umem u s (D + of_nat k)" if "k < n" for k
  proof -
    have "D + of_nat k \<in> area D n" using that p(2) by (auto intro: area_nth)
    then show ?thesis using sub p(3) by (intro umem_st32_other) blast
  qed
  moreover have "event_ready 1 u e ?s' = event_ready 1 u e s" for e
    using st32_memory(1) [of s u "bb_empty ?b" 1] by (auto simp: memory_change_def event_ready_store)
  ultimately have "board_ready u lm bid D m ?s'" using assms(2,3) f by (simp add: board_ready_def Let_def)
  then show ?thesis using p(1) by (auto simp: pok_blackboard_clear_def errno_def)
qed

text \<open>A blackboard shows the message that was displayed last, to every reader: a message of the full size is stored and
  read back through the event of the board. Clearing the board does not take the message away: a reader gets it still,
  where it should wait for the next one.\<close>

theorem blackboard_shows_message:
  assumes "board_place u lm bid D n" "board_ready u lm bid D m s" "length m = n" "src \<noteq> 0" "data \<noteq> 0"
    and "area src n \<inter> user_stack u = {}" "area data n \<inter> (area (bb_at lm (unat bid)) 24 \<union> area D n \<union> user_stack u) = {}"
    and "area len_ptr 4 \<inter> area data n = {}"
  shows "\<exists>s1. pok_blackboard_display u lm bid src (of_nat n) s = Some (errno POK_ERRNO_OK, s1) \<and>
    (\<exists>s2. pok_blackboard_read u lm bid timeout data len_ptr s1 = Some (errno POK_ERRNO_OK, s2) \<and>
       (\<forall>k < n. umem u s2 (data + of_nat k) = umem u s (src + of_nat k)) \<and> ld32 u s2 len_ptr = of_nat n) \<and>
    (\<exists>s2 s3. pok_blackboard_clear u lm bid s1 = Some (errno POK_ERRNO_OK, s2) \<and>
       ld32 u s2 (bb_empty (bb_at lm (unat bid))) = 1 \<and>
       pok_blackboard_read u lm bid timeout data len_ptr s2 = Some (errno POK_ERRNO_OK, s3) \<and>
       (\<forall>k < n. umem u s3 (data + of_nat k) = umem u s (src + of_nat k)) \<and> ld32 u s3 len_ptr = of_nat n)"
proof -
  let ?m = "map (\<lambda>k. umem u s (src + of_nat k)) [0..<n]"
  obtain s1 where s1: "pok_blackboard_display u lm bid src (of_nat n) s = Some (0, s1)" "board_ready u lm bid D ?m s1"
    using board_display [OF assms(1-4,6)] by blast
  obtain s2 where s2: "pok_blackboard_clear u lm bid s1 = Some (0, s2)" "board_ready u lm bid D ?m s2"
    "ld32 u s2 (bb_empty (bb_at lm (unat bid))) = 1" using board_clear [OF assms(1) s1(2)] by auto
  show ?thesis
    using s1 s2 board_read [OF assms(1) s1(2) _ assms(5,7,8), of timeout] board_read [OF assms(1) s2(2) _ assms(5,7,8), of timeout]
    by (auto simp: errno_def)
qed

definition demo_board_state :: kstate where
  "demo_board_state = blackboard_setup demo_ucall demo_lib 0 4 7680 demo_event_state"

lemma demo_board_ready: "board_ready demo_ucall demo_lib 0 10240 [0, 0, 0, 0] demo_board_state"
proof -
  have z: "ld32 demo_ucall demo_event_state p = 0" "ld16 demo_ucall demo_event_state p = 0" for p
    by (simp_all add: ld32_def ld16_def rd32_def rd16_def demo_umem)
  have b: "bb_at demo_lib 0 = 6144" "pok_blackboards_data demo_lib = 10240" "pok_blackboards_data_index demo_lib = 6912"
    by (simp_all add: demo_lib_def bb_at_def)
  have o: "umem u (st8 u q w t) x = (if x = q then w else umem u t x)" for u q w t x
    by (auto simp: st_as_uput umem_uput area_def unat_eq_0)
  have o4: "umem u (st32 u q w t) x = umem u t x" if "4 \<le> unat (x - q)" for u q w t x
    using that by (simp add: st_as_uput umem_uput area_def)
  note defs = demo_board_state_def blackboard_setup_def Let_def b board_field_defs bb_waiting_def
  have "umem demo_ucall demo_board_state x = 0" if "x = 10240 \<or> x = 10241 \<or> x = 10242 \<or> x = 10243" for x
    using that unfolding defs by (auto simp: o o4 demo_umem)
  then have "\<forall>k < 4. umem demo_ucall demo_board_state (10240 + of_nat k) = [0, 0, 0, 0] ! k"
    by (auto simp: less_Suc_eq numeral_eq_Suc)
  moreover have f: "ld32 demo_ucall demo_board_state 6160 = 1" "ld32 demo_ucall demo_board_state 6144 = 4"
    "ld32 demo_ucall demo_board_state 6156 = 0" "ld16 demo_ucall demo_board_state 6164 = 0"
    unfolding defs by (simp_all add: ld_st8_other z)
  moreover have "memory_change demo_event_state demo_board_state"
  proof -
    have "memory_change demo_event_state demo_event_state" by (auto simp: memory_change_def intro: exI [of _ "ks_mem demo_event_state"])
    moreover have "memory_change s (st8 u q w t)" if "memory_change s t" for s t u q w
      using memory_change_trans [OF that] by (simp add: st_as_uput)
    ultimately show ?thesis unfolding defs by (simp add: memory_change_st32)
  qed
  then have "event_ready 1 demo_ucall 0 demo_board_state"
    unfolding memory_change_def using demo_event_ready by (metis event_ready_store)
  ultimately show ?thesis by (simp add: board_ready_def b board_field_defs)
qed

theorem blackboard_shows_message_witness:
  "\<exists>s1. pok_blackboard_display demo_ucall demo_lib 0 12288 4 demo_board_state = Some (0, s1) \<and>
     (\<exists>s2. pok_blackboard_read demo_ucall demo_lib 0 7 16384 16400 s1 = Some (0, s2) \<and> ld32 demo_ucall s2 16400 = 4)"
proof -
  have b: "bb_at demo_lib 0 = 6144" by (simp add: demo_lib_def bb_at_def)
  have a: "area 6144 24 \<inter> area 10240 4 = {}" "area 6144 24 \<inter> area 256 24 = {}" "area 6144 24 \<inter> area 512 20 = {}"
    "area 10240 4 \<inter> area 256 24 = {}" "area 10240 4 \<inter> area 512 20 = {}" "area 12288 4 \<inter> area 256 24 = {}"
    "area 12288 4 \<inter> area 512 20 = {}" "area 16384 4 \<inter> area 6144 24 = {}" "area 16384 4 \<inter> area 10240 4 = {}"
    "area 16384 4 \<inter> area 256 24 = {}" "area 16384 4 \<inter> area 512 20 = {}" "area 16400 4 \<inter> area 16384 4 = {}"
    by (rule distance_disjoint; simp)+
  have p: "board_place demo_ucall demo_lib 0 10240 4"
    using a by (simp add: board_place_def b user_stack_def Int_Un_distrib) (simp add: demo_lib_def bb_at_def)
  have d: "(12288 :: u32) \<noteq> 0" "(16384 :: u32) \<noteq> 0" "area 12288 4 \<inter> user_stack demo_ucall = {}"
    "area 16384 4 \<inter> (area (bb_at demo_lib (unat (0 :: u8))) 24 \<union> area 10240 4 \<union> user_stack demo_ucall) = {}"
    using a by (simp_all add: b user_stack_def Int_Un_distrib)
  have l: "length [0, 0, 0, 0 :: u8] = 4" by simp
  show ?thesis
    using blackboard_shows_message [OF p demo_board_ready l d(1,2,3,4) a(12), of 7] by (auto simp: errno_def)
qed

end
