(* ===== verification/Pok_Apex.thy ===== *)
theory Pok_Apex
  imports Pok_User_Buffers
begin

text \<open>
  The ARINC 653 services of the user library (\<open>libpok/arinc653\<close>), each a translation into calls of the library below.
  Their tables (processes, semaphores, events) are variables of the program, read and written in the memory of the
  partition. The results are stored where the caller wants them, the last argument of a service is the address of the
  return code. The integers of ARINC have 32 bits and a sign, its times 64 bits and a sign.
\<close>

unbundle bit_operations_syntax

subsection \<open>Types, tables and local variables\<close>

datatype RETURN_CODE_TYPE =
  NO_ERROR | NO_ACTION | NOT_AVAILABLE | INVALID_PARAM | INVALID_CONFIG | INVALID_MODE | TIMED_OUT

primrec return_code :: "RETURN_CODE_TYPE \<Rightarrow> u32" where
  "return_code NO_ERROR = 0"
| "return_code NO_ACTION = 1"
| "return_code NOT_AVAILABLE = 2"
| "return_code INVALID_PARAM = 3"
| "return_code INVALID_CONFIG = 4"
| "return_code INVALID_MODE = 5"
| "return_code TIMED_OUT = 6"

definition INFINITE_TIME :: u64 where "INFINITE_TIME = - 1"

text \<open>The enumerations by their values: disciplines, directions, states of a process, modes of a partition.\<close>

definition ARINC_FIFO :: u32 where "ARINC_FIFO = 0"
definition ARINC_PRIORITY :: u32 where "ARINC_PRIORITY = 1"
definition ARINC_SOURCE :: u32 where "ARINC_SOURCE = 0"
definition ARINC_DESTINATION :: u32 where "ARINC_DESTINATION = 1"
definition ARINC_DORMANT :: u32 where "ARINC_DORMANT = 0"
definition ARINC_WAITING :: u32 where "ARINC_WAITING = 3"
definition ARINC_HARD :: u32 where "ARINC_HARD = 1"
definition ARINC_IDLE :: u32 where "ARINC_IDLE = 0"
definition ARINC_COLD_START :: u32 where "ARINC_COLD_START = 1"
definition ARINC_WARM_START :: u32 where "ARINC_WARM_START = 2"
definition ARINC_NORMAL :: u32 where "ARINC_NORMAL = 3"

definition MIN_PRIORITY_VALUE :: int where "MIN_PRIORITY_VALUE = 1"
definition MAX_PRIORITY_VALUE :: int where "MAX_PRIORITY_VALUE = 63"

text \<open>The addresses of the tables and their lengths, which fit the counters of the loops over them; and the places the
  compiler gives to the local variables of a service: a return code, an identifier, and a structure.\<close>

record apexmem =
  pok_arinc653_semaphores_initialized :: u32
  pok_arinc653_semaphores_names :: u32
  pok_arinc653_semaphores_layers :: u32
  POK_CONFIG_ARINC653_NB_SEMAPHORES :: nat
  pok_arinc653_events_initialized :: u32
  pok_arinc653_events_names :: u32
  pok_arinc653_events_layers :: u32
  POK_CONFIG_ARINC653_NB_EVENTS :: nat
  pok_arinc653_processes :: u32
  pok_arinc653_processes_nb :: u32
  arinc_process_attribute :: u32
  APEX_NB_THREADS :: nat
  ap_ret :: u32
  ap_id :: u32
  ap_struct :: u32

definition ld64 :: "ucall \<Rightarrow> kstate \<Rightarrow> u32 \<Rightarrow> u64" where "ld64 u s p = rd64 (umem u s) p"
definition st64 :: "ucall \<Rightarrow> u32 \<Rightarrow> u64 \<Rightarrow> kstate \<Rightarrow> kstate" where
  "st64 u p w s = wr64 (p + ubase u s) w s"

definition set_rc :: "ucall \<Rightarrow> u32 \<Rightarrow> RETURN_CODE_TYPE \<Rightarrow> kstate \<Rightarrow> kstate" where
  "set_rc u rcp c = st32 u rcp (return_code c)"

text \<open>\<open>strcpy\<close> in the memory of the program, a character at a time.\<close>

partial_function (option) ustrcpy :: "ucall \<Rightarrow> u32 \<Rightarrow> u32 \<Rightarrow> kstate \<Rightarrow> kstate option" where
  "ustrcpy u dst src s =
     (if ld8 u s src = 0 then Some (st8 u dst 0 s)
      else ustrcpy u (dst + 1) (src + 1) (st8 u dst (ld8 u s src) s))"

subsection \<open>Semaphores\<close>

definition sem_ready :: "apexmem \<Rightarrow> u32 \<Rightarrow> u32" where
  "sem_ready ax i = pok_arinc653_semaphores_layers ax + 8 * i"
definition sem_core_id :: "apexmem \<Rightarrow> u32 \<Rightarrow> u32" where
  "sem_core_id ax i = pok_arinc653_semaphores_layers ax + 8 * i + 4"

definition CHECK_SEM_INIT :: "ucall \<Rightarrow> apexmem \<Rightarrow> kstate \<Rightarrow> kstate" where
  "CHECK_SEM_INIT u ax s =
     st32 u (pok_arinc653_semaphores_initialized ax) 1
       (if ld32 u s (pok_arinc653_semaphores_initialized ax) = 0
        then fold (\<lambda>n s. st32 u (sem_ready ax (of_nat n)) 0 s) [0..<POK_CONFIG_ARINC653_NB_SEMAPHORES ax] s
        else s)"

text \<open>The names are compared up to the length of the given one, cut to 16 bits.\<close>

definition GET_SEMAPHORE_ID :: "ucall \<Rightarrow> apexmem \<Rightarrow> u32 \<Rightarrow> u32 \<Rightarrow> u32 \<Rightarrow> kstate \<Rightarrow> kstate option" where
  "GET_SEMAPHORE_ID u ax name id_ptr rcp s = do {
     let s1 = CHECK_SEM_INIT u ax s;
     n \<leftarrow> pok_strlen (ustring u s1 name);
     let s2 = set_rc u rcp INVALID_CONFIG s1;
     case find (\<lambda>i. pok_strncmp (ustring u s2 (ld32 u s2 (pok_arinc653_semaphores_names ax + 4 * of_nat i)))
                      (ustring u s2 name) (n mod 65536) = 0) [0..<POK_CONFIG_ARINC653_NB_SEMAPHORES ax] of
       None \<Rightarrow> Some s2
     | Some i \<Rightarrow> Some (set_rc u rcp NO_ERROR (st32 u id_ptr (of_nat i) s2))
   }"

text \<open>The values are cut to 16 bits for the kernel, and the discipline is given to it as it is.\<close>

definition CREATE_SEMAPHORE ::
  "ucall \<Rightarrow> apexmem \<Rightarrow> u32 \<Rightarrow> u32 \<Rightarrow> u32 \<Rightarrow> u32 \<Rightarrow> u32 \<Rightarrow> u32 \<Rightarrow> kstate \<Rightarrow> kstate option" where
  "CREATE_SEMAPHORE u ax name current_value maximum_value discipline id_ptr rcp s = do {
     s1 \<leftarrow> GET_SEMAPHORE_ID u ax name id_ptr (ap_ret ax) (set_rc u rcp INVALID_CONFIG (CHECK_SEM_INIT u ax s));
     if ld32 u s1 (ap_ret ax) = return_code INVALID_CONFIG then Some (set_rc u rcp INVALID_CONFIG s1)
     else if sint (ld32 u s1 id_ptr) > int (POK_CONFIG_ARINC653_NB_SEMAPHORES ax) then Some (set_rc u rcp INVALID_CONFIG s1)
     else if ld32 u s1 (sem_ready ax (ld32 u s1 id_ptr)) \<noteq> 0 then Some (set_rc u rcp NO_ACTION s1)
     else do {
       (core_ret, s2) \<leftarrow> user_sem_create u (ap_id ax) (ucast current_value) (ucast maximum_value) discipline s1;
       if core_ret \<noteq> errno POK_ERRNO_OK then Some (set_rc u rcp INVALID_PARAM s2)
       else let s3 = st32 u (sem_ready ax (ld32 u s2 id_ptr)) 1 s2;
                s4 = st8 u (sem_core_id ax (ld32 u s3 id_ptr)) (ld8 u s3 (ap_id ax)) s3
            in Some (set_rc u rcp NO_ERROR s4)
     }
   }"

text \<open>A time in nanoseconds becomes one in microseconds; no time at all means waiting for ever to the kernel.\<close>

definition sem_timeout :: "u64 \<Rightarrow> u64" where
  "sem_timeout t = (if t = INFINITE_TIME then 0 else t div 1000)"

definition WAIT_SEMAPHORE :: "ucall \<Rightarrow> apexmem \<Rightarrow> u32 \<Rightarrow> u64 \<Rightarrow> u32 \<Rightarrow> kstate \<Rightarrow> kstate option" where
  "WAIT_SEMAPHORE u ax sid timeout rcp s =
     (let s1 = CHECK_SEM_INIT u ax s in
      if sint sid > int (POK_CONFIG_ARINC653_NB_SEMAPHORES ax) then Some (set_rc u rcp INVALID_PARAM s1)
      else do {
        (core_ret, s2) \<leftarrow> user_sem_wait u (ld8 u s1 (sem_core_id ax sid)) (sem_timeout timeout) s1;
        let s3 = set_rc u rcp INVALID_PARAM s2;
        let s4 = (if core_ret = errno POK_ERRNO_OK then set_rc u rcp NO_ERROR s3 else s3);
        Some (if core_ret = errno POK_ERRNO_TIMEOUT then set_rc u rcp TIMED_OUT s4 else s4)
      })"

definition SIGNAL_SEMAPHORE :: "ucall \<Rightarrow> apexmem \<Rightarrow> u32 \<Rightarrow> u32 \<Rightarrow> kstate \<Rightarrow> kstate option" where
  "SIGNAL_SEMAPHORE u ax sid rcp s =
     (let s1 = CHECK_SEM_INIT u ax s in
      if sint sid > int (POK_CONFIG_ARINC653_NB_SEMAPHORES ax) then Some (set_rc u rcp INVALID_PARAM s1)
      else do {
        (core_ret, s2) \<leftarrow> user_sem_signal u (ld8 u s1 (sem_core_id ax sid)) s1;
        Some (if core_ret = errno POK_ERRNO_OK then set_rc u rcp NO_ERROR s2 else set_rc u rcp INVALID_PARAM s2)
      })"

definition GET_SEMAPHORE_STATUS :: "ucall \<Rightarrow> apexmem \<Rightarrow> u32 \<Rightarrow> kstate \<Rightarrow> kstate" where
  "GET_SEMAPHORE_STATUS u ax rcp s = set_rc u rcp NO_ERROR (CHECK_SEM_INIT u ax s)"

subsection \<open>Events\<close>

definition event_core_id :: "apexmem \<Rightarrow> u32 \<Rightarrow> u32" where
  "event_core_id ax i = pok_arinc653_events_layers ax + 8 * i"
definition event_layer_ready :: "apexmem \<Rightarrow> u32 \<Rightarrow> u32" where
  "event_layer_ready ax i = pok_arinc653_events_layers ax + 8 * i + 4"

definition CHECK_EVENTS_INIT :: "ucall \<Rightarrow> apexmem \<Rightarrow> kstate \<Rightarrow> kstate" where
  "CHECK_EVENTS_INIT u ax s =
     st32 u (pok_arinc653_events_initialized ax) 1
       (if ld32 u s (pok_arinc653_events_initialized ax) = 0
        then fold (\<lambda>n s. st32 u (event_layer_ready ax (of_nat n)) 0 s) [0..<POK_CONFIG_ARINC653_NB_EVENTS ax] s
        else s)"

definition GET_EVENT_ID :: "ucall \<Rightarrow> apexmem \<Rightarrow> u32 \<Rightarrow> u32 \<Rightarrow> u32 \<Rightarrow> kstate \<Rightarrow> kstate option" where
  "GET_EVENT_ID u ax name id_ptr rcp s = do {
     let s1 = set_rc u rcp INVALID_CONFIG s;
     n \<leftarrow> pok_strlen (ustring u s1 name);
     let s2 = CHECK_EVENTS_INIT u ax s1;
     case find (\<lambda>i. pok_strncmp (ustring u s2 name)
                      (ustring u s2 (ld32 u s2 (pok_arinc653_events_names ax + 4 * of_nat i))) (n mod 65536) = 0)
            [0..<POK_CONFIG_ARINC653_NB_EVENTS ax] of
       None \<Rightarrow> Some s2
     | Some i \<Rightarrow> Some (set_rc u rcp NO_ERROR (st32 u id_ptr (of_nat i) s2))
   }"

definition CREATE_EVENT :: "ucall \<Rightarrow> apexmem \<Rightarrow> u32 \<Rightarrow> u32 \<Rightarrow> u32 \<Rightarrow> kstate \<Rightarrow> kstate option" where
  "CREATE_EVENT u ax name id_ptr rcp s = do {
     s1 \<leftarrow> GET_EVENT_ID u ax name id_ptr (ap_ret ax) (CHECK_EVENTS_INIT u ax (set_rc u rcp INVALID_CONFIG s));
     if ld32 u s1 (ap_ret ax) = return_code INVALID_CONFIG then Some (set_rc u rcp INVALID_CONFIG s1)
     else if sint (ld32 u s1 id_ptr) \<ge> int (POK_CONFIG_ARINC653_NB_EVENTS ax) then Some (set_rc u rcp INVALID_CONFIG s1)
     else if ld32 u s1 (event_layer_ready ax (ld32 u s1 id_ptr)) \<noteq> 0 then Some (set_rc u rcp NO_ACTION s1)
     else do {
       (core_ret, s2) \<leftarrow> user_event_create u (ap_id ax) s1;
       if core_ret \<noteq> errno POK_ERRNO_OK then Some (set_rc u rcp INVALID_PARAM s2)
       else let s3 = st32 u (event_layer_ready ax (ld32 u s2 id_ptr)) 1 s2;
                s4 = st16 u (event_core_id ax (ld32 u s3 id_ptr)) (ld16 u s3 (ap_id ax)) s3
            in Some (set_rc u rcp NO_ERROR s4)
     }
   }"

definition SET_EVENT :: "ucall \<Rightarrow> apexmem \<Rightarrow> u32 \<Rightarrow> u32 \<Rightarrow> kstate \<Rightarrow> kstate option" where
  "SET_EVENT u ax eid rcp s =
     (let s1 = CHECK_EVENTS_INIT u ax (set_rc u rcp INVALID_PARAM s) in
      if sint eid \<ge> int (POK_CONFIG_ARINC653_NB_EVENTS ax) then Some (set_rc u rcp INVALID_CONFIG s1)
      else if ld32 u s1 (event_layer_ready ax eid) = 0 then Some (set_rc u rcp NOT_AVAILABLE s1)
      else do {
        (core_ret, s2) \<leftarrow> user_event_signal u (ld16 u s1 (event_core_id ax eid)) s1;
        Some (if core_ret = errno POK_ERRNO_OK then set_rc u rcp NO_ERROR s2 else set_rc u rcp INVALID_PARAM s2)
      })"

definition RESET_EVENT :: "u32 \<Rightarrow> u32 \<Rightarrow> kstate \<Rightarrow> kstate" where
  "RESET_EVENT eid rcp s = s"

text \<open>The time is given to the library as it is, in nanoseconds, where it expects microseconds.\<close>

definition WAIT_EVENT :: "ucall \<Rightarrow> apexmem \<Rightarrow> u32 \<Rightarrow> u64 \<Rightarrow> u32 \<Rightarrow> kstate \<Rightarrow> kstate option" where
  "WAIT_EVENT u ax eid timeout rcp s =
     (let s1 = CHECK_EVENTS_INIT u ax (set_rc u rcp INVALID_PARAM s) in
      if sint eid \<ge> int (POK_CONFIG_ARINC653_NB_EVENTS ax) then Some (set_rc u rcp INVALID_CONFIG s1)
      else if ld32 u s1 (event_layer_ready ax eid) = 0 then Some (set_rc u rcp NOT_AVAILABLE s1)
      else do {
        (core_ret, s2) \<leftarrow> user_event_wait u (ld16 u s1 (event_core_id ax eid)) timeout s1;
        Some (if core_ret = errno POK_ERRNO_OK then set_rc u rcp NO_ERROR s2
              else if core_ret = errno POK_ERRNO_TIMEOUT then set_rc u rcp TIMED_OUT s2
              else set_rc u rcp INVALID_PARAM s2)
      })"

definition GET_EVENT_STATUS :: "u32 \<Rightarrow> u32 \<Rightarrow> u32 \<Rightarrow> kstate \<Rightarrow> kstate" where
  "GET_EVENT_STATUS eid status rcp s = s"

subsection \<open>Processes\<close>

text \<open>The kernel's identifier of a process, and the attributes kept for it: the name, the base priority, the size of
  the stack.\<close>

definition process_at :: "apexmem \<Rightarrow> u32 \<Rightarrow> u32" where "process_at ax i = pok_arinc653_processes ax + 4 * i"
definition pa_name :: "apexmem \<Rightarrow> u32 \<Rightarrow> u32" where "pa_name ax i = arinc_process_attribute ax + 40 * i"
definition pa_base_priority :: "apexmem \<Rightarrow> u32 \<Rightarrow> u32" where "pa_base_priority ax i = arinc_process_attribute ax + 40 * i + 32"

text \<open>The fields of the kernel's attributes, in the local structure.\<close>

definition ta_priority :: "u32 \<Rightarrow> u32" where "ta_priority a = a"
definition ta_affinity :: "u32 \<Rightarrow> u32" where "ta_affinity a = a + 1"
definition ta_entry :: "u32 \<Rightarrow> u32" where "ta_entry a = a + 4"
definition ta_period :: "u32 \<Rightarrow> u32" where "ta_period a = a + 8"
definition ta_deadline :: "u32 \<Rightarrow> u32" where "ta_deadline a = a + 16"
definition ta_time_capacity :: "u32 \<Rightarrow> u32" where "ta_time_capacity a = a + 24"
definition ta_stack_size :: "u32 \<Rightarrow> u32" where "ta_stack_size a = a + 32"
definition ta_state :: "u32 \<Rightarrow> u32" where "ta_state a = a + 36"

text \<open>The attributes of a process as the caller gives them, and the status he gets.\<close>

definition at_period :: "u32 \<Rightarrow> u32" where "at_period p = p"
definition at_time_capacity :: "u32 \<Rightarrow> u32" where "at_time_capacity p = p + 8"
definition at_entry :: "u32 \<Rightarrow> u32" where "at_entry p = p + 16"
definition at_stack_size :: "u32 \<Rightarrow> u32" where "at_stack_size p = p + 20"
definition at_base_priority :: "u32 \<Rightarrow> u32" where "at_base_priority p = p + 24"
definition at_deadline :: "u32 \<Rightarrow> u32" where "at_deadline p = p + 28"
definition at_name :: "u32 \<Rightarrow> u32" where "at_name p = p + 32"

definition ps_deadline_time :: "u32 \<Rightarrow> u32" where "ps_deadline_time p = p"
definition ps_current_priority :: "u32 \<Rightarrow> u32" where "ps_current_priority p = p + 8"
definition ps_state :: "u32 \<Rightarrow> u32" where "ps_state p = p + 12"
definition ps_attributes :: "u32 \<Rightarrow> u32" where "ps_attributes p = p + 16"

fun process_name_loop :: "ucall \<Rightarrow> apexmem \<Rightarrow> u32 \<Rightarrow> nat list \<Rightarrow> kstate \<Rightarrow> u32 option" where
  "process_name_loop u ax name [] s = Some 0"
| "process_name_loop u ax name (i # is) s = do {
     r \<leftarrow> pok_strcmp (ustring u s name) (ustring u s (pa_name ax (of_nat i)));
     if r = 0 then Some (of_nat i) else process_name_loop u ax name is s
   }"

definition process_name_exist :: "ucall \<Rightarrow> apexmem \<Rightarrow> u32 \<Rightarrow> kstate \<Rightarrow> u32 option" where
  "process_name_exist u ax name s = process_name_loop u ax name [0..<APEX_NB_THREADS ax] s"

definition GET_PROCESS_ID :: "ucall \<Rightarrow> apexmem \<Rightarrow> u32 \<Rightarrow> u32 \<Rightarrow> u32 \<Rightarrow> kstate \<Rightarrow> kstate option" where
  "GET_PROCESS_ID u ax name id_ptr rcp s = do {
     i \<leftarrow> process_name_exist u ax name s;
     Some (set_rc u rcp (if i = 0 then INVALID_CONFIG else NO_ERROR) (st32 u id_ptr i s))
   }"

text \<open>The code of a failure is overwritten.\<close>

definition GET_MY_ID :: "ucall \<Rightarrow> apexmem \<Rightarrow> u32 \<Rightarrow> u32 \<Rightarrow> kstate \<Rightarrow> kstate option" where
  "GET_MY_ID u ax id_ptr rcp s = do {
     (core_ret, s1) \<leftarrow> user_thread_id u (ap_id ax) s;
     let s2 = (if core_ret \<noteq> 0 then set_rc u rcp INVALID_MODE s1 else s1);
     Some (set_rc u rcp NO_ERROR (st32 u id_ptr (ld32 u s2 (ap_id ax)) s2))
   }"

definition GET_PROCESS_STATUS :: "ucall \<Rightarrow> apexmem \<Rightarrow> u32 \<Rightarrow> u32 \<Rightarrow> u32 \<Rightarrow> kstate \<Rightarrow> kstate option" where
  "GET_PROCESS_STATUS u ax pid status rcp s = do {
     let core = ld32 u s (process_at ax pid);
     let a = ap_struct ax;
     (core_ret, s1) \<leftarrow> user_thread_status u core a s;
     if core_ret = errno POK_ERRNO_PARAM then Some (set_rc u rcp INVALID_PARAM s1)
     else do {
       let s2 = st64 u (ps_deadline_time status) (ld64 u s1 (ta_deadline a)) s1;
       let s3 = st32 u (ps_state status) (ld32 u s2 (ta_state a)) s2;
       s4 \<leftarrow> ustrcpy u (at_name (ps_attributes status)) (pa_name ax core) s3;
       let s5 = st32 u (at_base_priority (ps_attributes status)) (ld32 u s4 (pa_base_priority ax core)) s4;
       let s6 = st32 u (at_deadline (ps_attributes status)) ARINC_HARD s5;
       let s7 = st32 u (ps_current_priority status) (ucast (ld8 u s6 (ta_priority a))) s6;
       let s8 = st64 u (at_period (ps_attributes status)) (ld64 u s7 (ta_period a)) s7;
       let s9 = st64 u (at_time_capacity (ps_attributes status)) (ld64 u s8 (ta_time_capacity a)) s8;
       let s10 = st32 u (at_entry (ps_attributes status)) (ld32 u s9 (ta_entry a)) s9;
       let s11 = st32 u (at_stack_size (ps_attributes status)) (ld32 u s10 (ta_stack_size a)) s10;
       Some (set_rc u rcp NO_ERROR s11)
     }
   }"

text \<open>The attributes for the kernel; those that are not set keep what was in memory.\<close>

definition core_attributes :: "ucall \<Rightarrow> u32 \<Rightarrow> u32 \<Rightarrow> kstate \<Rightarrow> kstate" where
  "core_attributes u a attributes s =
     (let s1 = st8 u (ta_priority a) (ucast (ld32 u s (at_base_priority attributes))) s;
          s2 = st32 u (ta_entry a) (ld32 u s1 (at_entry attributes)) s1;
          s3 = st64 u (ta_period a) (ld64 u s2 (at_period attributes)) s2;
          s4 = st64 u (ta_deadline a) (ucast (ld32 u s3 (at_deadline attributes))) s3;
          s5 = st64 u (ta_time_capacity a) (ld64 u s4 (at_time_capacity attributes)) s4;
          s6 = st32 u (ta_stack_size a) (ld32 u s5 (at_stack_size attributes)) s5
      in st8 u (ta_affinity a) 0 s6)"

text \<open>The number of processes is advanced before it is used as an index: the first entry stays empty, and the table
  is one entry too short.\<close>

definition register_process :: "ucall \<Rightarrow> apexmem \<Rightarrow> u32 \<Rightarrow> u32 \<Rightarrow> kstate \<Rightarrow> kstate option" where
  "register_process u ax attributes id_ptr s = do {
     let s1 = st32 u (pok_arinc653_processes_nb ax) (ld32 u s (pok_arinc653_processes_nb ax) + 1) s;
     let s2 = st32 u (process_at ax (ld32 u s1 (pok_arinc653_processes_nb ax))) (ld32 u s1 (ap_id ax)) s1;
     let s3 = st32 u (pa_base_priority ax (ld32 u s2 (pok_arinc653_processes_nb ax))) (ld32 u s2 (at_base_priority attributes)) s2;
     s4 \<leftarrow> ustrcpy u (pa_name ax (ld32 u s3 (pok_arinc653_processes_nb ax))) (at_name attributes) s3;
     Some (st32 u id_ptr (ld32 u s4 (pok_arinc653_processes_nb ax)) s4)
   }"

definition CREATE_PROCESS :: "ucall \<Rightarrow> apexmem \<Rightarrow> u32 \<Rightarrow> u32 \<Rightarrow> u32 \<Rightarrow> kstate \<Rightarrow> kstate option" where
  "CREATE_PROCESS u ax attributes id_ptr rcp s = do {
     found \<leftarrow> process_name_exist u ax (at_name attributes) s;
     let priority = sint (ld32 u s (at_base_priority attributes));
     if found \<noteq> 0 then Some (set_rc u rcp NO_ACTION s)
     else if priority > MAX_PRIORITY_VALUE \<or> priority < MIN_PRIORITY_VALUE then Some (set_rc u rcp INVALID_PARAM s)
     else do {
       (core_ret, s1) \<leftarrow> user_thread_create u (ap_id ax) (ap_struct ax) (core_attributes u (ap_struct ax) attributes s);
       let s2 = st32 u rcp core_ret s1;
       if core_ret \<noteq> errno POK_ERRNO_OK then Some s2
       else do {
         s3 \<leftarrow> register_process u ax attributes id_ptr s2;
         (core_ret, s4) \<leftarrow> user_thread_suspend_target u (ld32 u s3 (ap_id ax)) s3;
         Some (st32 u rcp core_ret s4)
       }
     }
   }"

definition STOP_SELF :: "ucall \<Rightarrow> kstate \<Rightarrow> kstate option" where
  "STOP_SELF u s = map_option snd (user_thread_stop_self u s)"

definition SET_PRIORITY :: "ucall \<Rightarrow> apexmem \<Rightarrow> u32 \<Rightarrow> u32 \<Rightarrow> u32 \<Rightarrow> kstate \<Rightarrow> kstate option" where
  "SET_PRIORITY u ax pid priority rcp s = do {
     let core = ld32 u s (process_at ax pid);
     (core_ret, s1) \<leftarrow> user_thread_status u core (ap_struct ax) s;
     if core_ret \<noteq> errno POK_ERRNO_OK then Some (set_rc u rcp INVALID_PARAM s1)
     else if sint priority > MAX_PRIORITY_VALUE \<or> sint priority < MIN_PRIORITY_VALUE then Some (set_rc u rcp INVALID_PARAM s1)
     else if ld32 u s1 (ta_state (ap_struct ax)) = ARINC_DORMANT then Some (set_rc u rcp INVALID_MODE s1)
     else do {
       (core_ret, s2) \<leftarrow> user_thread_set_priority u core priority s1;
       Some (st32 u rcp core_ret s2)
     }
   }"

definition SUSPEND_SELF :: "ucall \<Rightarrow> u64 \<Rightarrow> u32 \<Rightarrow> kstate \<Rightarrow> kstate" where
  "SUSPEND_SELF u timeout rcp = set_rc u rcp NOT_AVAILABLE"

text \<open>The result of the status call is not looked at.\<close>

definition SUSPEND :: "ucall \<Rightarrow> apexmem \<Rightarrow> u32 \<Rightarrow> u32 \<Rightarrow> kstate \<Rightarrow> kstate option" where
  "SUSPEND u ax pid rcp s = do {
     let core = ld32 u s (process_at ax pid);
     (core_ret, s1) \<leftarrow> user_thread_status u core (ap_struct ax) s;
     if ld32 u s1 (ta_state (ap_struct ax)) = ARINC_DORMANT then Some (set_rc u rcp INVALID_MODE s1)
     else if ld64 u s1 (ta_period (ap_struct ax)) = INFINITE_TIME then Some (set_rc u rcp INVALID_MODE s1)
     else if ld32 u s1 (ta_state (ap_struct ax)) = ARINC_WAITING then Some (set_rc u rcp NO_ACTION s1)
     else do {
       (core_ret, s2) \<leftarrow> user_thread_suspend_target u core s1;
       Some (st32 u rcp core_ret s2)
     }
   }"

definition RESUME :: "ucall \<Rightarrow> apexmem \<Rightarrow> u32 \<Rightarrow> u32 \<Rightarrow> kstate \<Rightarrow> kstate option" where
  "RESUME u ax pid rcp s = do {
     let core = ld32 u s (process_at ax pid);
     (core_ret, s1) \<leftarrow> user_thread_status u core (ap_struct ax) s;
     if core_ret \<noteq> 0 then Some (set_rc u rcp INVALID_PARAM s1)
     else if ld32 u s1 (ta_state (ap_struct ax)) = ARINC_DORMANT then Some (set_rc u rcp INVALID_MODE s1)
     else if ld64 u s1 (ta_period (ap_struct ax)) = INFINITE_TIME then Some (set_rc u rcp INVALID_MODE s1)
     else if ld32 u s1 (ta_state (ap_struct ax)) \<noteq> ARINC_WAITING then Some (set_rc u rcp INVALID_MODE s1)
     else do {
       (core_ret, s2) \<leftarrow> user_thread_resume u core s1;
       Some (st32 u rcp core_ret s2)
     }
   }"

text \<open>The delay is given to the kernel as it is, and cut to 32 bits.\<close>

definition DELAYED_START :: "ucall \<Rightarrow> apexmem \<Rightarrow> u32 \<Rightarrow> u64 \<Rightarrow> u32 \<Rightarrow> kstate \<Rightarrow> kstate option" where
  "DELAYED_START u ax pid delay rcp s = do {
     let core = ld32 u s (process_at ax pid);
     (core_ret, s1) \<leftarrow> user_thread_status u core (ap_struct ax) s;
     if core_ret \<noteq> errno POK_ERRNO_OK then Some (set_rc u rcp INVALID_PARAM s1)
     else if ld32 u s1 (ta_state (ap_struct ax)) \<noteq> ARINC_DORMANT then Some (set_rc u rcp NO_ACTION s1)
     else if delay = INFINITE_TIME then Some (set_rc u rcp INVALID_PARAM s1)
     else do {
       (core_ret, s2) \<leftarrow> user_thread_delayed_start u core delay s1;
       Some (if core_ret = errno POK_ERRNO_OK then set_rc u rcp NO_ERROR s2 else set_rc u rcp INVALID_PARAM s2)
     }
   }"

definition START :: "ucall \<Rightarrow> apexmem \<Rightarrow> u32 \<Rightarrow> u32 \<Rightarrow> kstate \<Rightarrow> kstate option" where
  "START u ax pid rcp = DELAYED_START u ax pid 0 rcp"

definition STOP :: "ucall \<Rightarrow> apexmem \<Rightarrow> u32 \<Rightarrow> u32 \<Rightarrow> kstate \<Rightarrow> kstate option" where
  "STOP u ax pid rcp s = do {
     (core_ret, s1) \<leftarrow> user_thread_stop u (ld32 u s (process_at ax pid)) s;
     Some (st32 u rcp core_ret s1)
   }"

definition LOCK_PREEMPTION :: "ucall \<Rightarrow> u32 \<Rightarrow> u32 \<Rightarrow> kstate \<Rightarrow> kstate" where
  "LOCK_PREEMPTION u lock_level rcp = set_rc u rcp NOT_AVAILABLE"

definition UNLOCK_PREEMPTION :: "ucall \<Rightarrow> u32 \<Rightarrow> u32 \<Rightarrow> kstate \<Rightarrow> kstate" where
  "UNLOCK_PREEMPTION u lock_level rcp = set_rc u rcp NOT_AVAILABLE"

subsection \<open>Time and partitions\<close>

definition TIMED_WAIT :: "ucall \<Rightarrow> u64 \<Rightarrow> u32 \<Rightarrow> kstate \<Rightarrow> kstate option" where
  "TIMED_WAIT u delay rcp s = do { (r, s1) \<leftarrow> user_thread_sleep u (delay div 1000) s; Some (st32 u rcp r s1) }"

definition PERIODIC_WAIT :: "ucall \<Rightarrow> u32 \<Rightarrow> kstate \<Rightarrow> kstate option" where
  "PERIODIC_WAIT u rcp s = do { (core_ret, s1) \<leftarrow> user_thread_period u s; Some (st32 u rcp core_ret s1) }"

definition GET_TIME :: "ucall \<Rightarrow> u32 \<Rightarrow> u32 \<Rightarrow> kstate \<Rightarrow> kstate option" where
  "GET_TIME u system_time rcp s = do { (r, s1) \<leftarrow> user_time_get u system_time s; Some (st32 u rcp r s1) }"

definition REPLENISH :: "ucall \<Rightarrow> u64 \<Rightarrow> u32 \<Rightarrow> kstate \<Rightarrow> kstate" where
  "REPLENISH u budget rcp = set_rc u rcp NOT_AVAILABLE"

text \<open>The status of a partition: period, duration, identifier, lock level, mode and condition of the start, each stored
  by the kernel in its own width and with its own numbers.\<close>

definition GET_PARTITION_STATUS :: "ucall \<Rightarrow> u32 \<Rightarrow> u32 \<Rightarrow> kstate \<Rightarrow> kstate option" where
  "GET_PARTITION_STATUS u status rcp s = do {
     (r1, s1) \<leftarrow> user_partition_get_id u (status + 16) s;
     (r2, s2) \<leftarrow> user_partition_get_period u status s1;
     (r3, s3) \<leftarrow> user_partition_get_duration u (status + 8) s2;
     (r4, s4) \<leftarrow> user_partition_get_lock_level u (status + 20) s3;
     (r5, s5) \<leftarrow> user_partition_get_operating_mode u (status + 24) s4;
     (r6, s6) \<leftarrow> user_partition_get_start_condition u (status + 28) s5;
     Some (set_rc u rcp NO_ERROR s6)
   }"

text \<open>The mode of the kernel for a mode of ARINC, or the code with which the service ends.\<close>

definition core_mode_of :: "u32 \<Rightarrow> RETURN_CODE_TYPE + pok_partition_mode_t" where
  "core_mode_of mode =
     (if mode = ARINC_IDLE then Inr POK_PARTITION_MODE_IDLE
      else if mode = ARINC_NORMAL then Inr POK_PARTITION_MODE_NORMAL
      else if mode = ARINC_COLD_START then Inl NOT_AVAILABLE
      else if mode = ARINC_WARM_START then Inr POK_PARTITION_MODE_INIT_WARM
      else Inl INVALID_PARAM)"

definition SET_PARTITION_MODE :: "ucall \<Rightarrow> apexmem \<Rightarrow> u32 \<Rightarrow> u32 \<Rightarrow> kstate \<Rightarrow> kstate option" where
  "SET_PARTITION_MODE u ax mode rcp s = do {
     (r, s1) \<leftarrow> user_partition_get_operating_mode u (ap_id ax) s;
     let current = mode_of (ld32 u s1 (ap_id ax));
     case core_mode_of mode of
       Inl c \<Rightarrow> Some (set_rc u rcp c s1)
     | Inr core_mode \<Rightarrow>
         if current = core_mode then Some (set_rc u rcp NO_ACTION s1)
         else if current = POK_PARTITION_MODE_INIT_COLD \<and> core_mode = POK_PARTITION_MODE_INIT_WARM
         then Some (set_rc u rcp INVALID_MODE s1)
         else do {
           (core_ret, s2) \<leftarrow> user_partition_set_mode u (mode_value core_mode) s1;
           Some (st32 u rcp core_ret s2)
         }
   }"

subsection \<open>Errors\<close>

definition MAX_ERROR_MESSAGE_SIZE :: int where "MAX_ERROR_MESSAGE_SIZE = 64"

text \<open>A length is compared with its sign; the codes of ARINC start where those of the kernel do, at the missed deadline,
  and a code the kernel does not have leaves the answer as it was.\<close>

definition REPORT_APPLICATION_MESSAGE :: "ucall \<Rightarrow> u32 \<Rightarrow> u32 \<Rightarrow> u32 \<Rightarrow> kstate \<Rightarrow> kstate option" where
  "REPORT_APPLICATION_MESSAGE u message n rcp s =
     (if sint n > MAX_ERROR_MESSAGE_SIZE then Some (set_rc u rcp INVALID_PARAM s)
      else do { s1 \<leftarrow> user_error_raise_application_error u message n s; Some (set_rc u rcp NO_ERROR s1) })"

definition CREATE_ERROR_HANDLER :: "ucall \<Rightarrow> u32 \<Rightarrow> u32 \<Rightarrow> u32 \<Rightarrow> kstate \<Rightarrow> kstate option" where
  "CREATE_ERROR_HANDLER u entry stack_size rcp s = do {
     (core_ret, s1) \<leftarrow> pok_syscall2 u POK_SYSCALL_ERROR_HANDLER_CREATE stack_size entry s;
     Some (set_rc u rcp (if core_ret = errno POK_ERRNO_OK then NO_ERROR else INVALID_CONFIG) s1)
   }"

definition arinc_error_code :: "u8 \<Rightarrow> u32 option" where
  "arinc_error_code kind = (if 10 \<le> kind \<and> kind \<le> 17 then Some (ucast kind - 10) else None)"

text \<open>The message is copied from where the library's structure points to; outside the program this is an exception. No
  code of success is stored.\<close>

definition GET_ERROR_STATUS :: "ucall \<Rightarrow> apexmem \<Rightarrow> u32 \<Rightarrow> u32 \<Rightarrow> kstate \<Rightarrow> kstate option" where
  "GET_ERROR_STATUS u ax status rcp s = do {
     let a = ap_struct ax;
     (core_ret, s1) \<leftarrow> user_error_get u a s;
     if core_ret \<noteq> errno POK_ERRNO_OK then Some (set_rc u rcp NO_ACTION s1)
     else do {
       let s2 = (case arinc_error_code (ld8 u s1 a) of None \<Rightarrow> s1 | Some c \<Rightarrow> st32 u status c s1);
       let s3 = st32 u (status + 4) (ld32 u s2 (a + 16)) s2;
       let msg = ld32 u s3 (a + 12);
       kassert (in_program u msg 64 s3);
       let s4 = umemcpy u (status + 16) msg 64 s3;
       let s5 = st32 u (status + 8) (ld32 u s4 (a + 4)) s4;
       Some (st32 u (status + 12) (ld32 u s5 (a + 8)) s5)
     }
   }"

definition RAISE_APPLICATION_ERROR :: "ucall \<Rightarrow> u32 \<Rightarrow> u32 \<Rightarrow> u32 \<Rightarrow> u32 \<Rightarrow> kstate \<Rightarrow> kstate option" where
  "RAISE_APPLICATION_ERROR u code message n rcp s =
     (if sint n > MAX_ERROR_MESSAGE_SIZE then Some (set_rc u rcp INVALID_PARAM s)
      else if code \<noteq> 1 then Some (set_rc u rcp INVALID_PARAM s)
      else do { s1 \<leftarrow> user_error_raise_application_error u message n s; Some (set_rc u rcp NO_ERROR s1) })"

subsection \<open>Ports\<close>

definition core_discipline_of :: "u32 \<Rightarrow> u32 option" where
  "core_discipline_of d = (if d = ARINC_PRIORITY then Some 1 else if d = ARINC_FIFO then Some 0 else None)"

definition core_direction_of :: "u32 \<Rightarrow> u8 option" where
  "core_direction_of d = (if d = ARINC_SOURCE then Some 2 else if d = ARINC_DESTINATION then Some 1 else None)"

definition CREATE_QUEUING_PORT ::
  "ucall \<Rightarrow> apexmem \<Rightarrow> u32 \<Rightarrow> u32 \<Rightarrow> u32 \<Rightarrow> u32 \<Rightarrow> u32 \<Rightarrow> u32 \<Rightarrow> u32 \<Rightarrow> kstate \<Rightarrow> kstate option" where
  "CREATE_QUEUING_PORT u ax name max_size max_nb direction discipline id_ptr rcp s =
     (case core_discipline_of discipline of
        None \<Rightarrow> Some (set_rc u rcp INVALID_PARAM s)
      | Some core_discipline \<Rightarrow>
          (case core_direction_of direction of
             None \<Rightarrow> Some (set_rc u rcp INVALID_PARAM s)
           | Some core_direction \<Rightarrow> do {
               (core_ret, s1) \<leftarrow>
                 user_port_queueing_create u name (max_size * max_nb) core_direction core_discipline (ap_id ax) s;
               Some (st32 u rcp core_ret (st32 u id_ptr (ucast (ld8 u s1 (ap_id ax))) s1))
             }))"

definition SEND_QUEUING_MESSAGE :: "ucall \<Rightarrow> u32 \<Rightarrow> u32 \<Rightarrow> u32 \<Rightarrow> u64 \<Rightarrow> u32 \<Rightarrow> kstate \<Rightarrow> kstate option" where
  "SEND_QUEUING_MESSAGE u pid message n timeout rcp s = do {
     (core_ret, s1) \<leftarrow> user_port_queueing_send u (ucast pid) message n timeout s;
     Some (st32 u rcp core_ret s1)
   }"

definition RECEIVE_QUEUING_MESSAGE :: "ucall \<Rightarrow> u32 \<Rightarrow> u64 \<Rightarrow> u32 \<Rightarrow> u32 \<Rightarrow> u32 \<Rightarrow> kstate \<Rightarrow> kstate option" where
  "RECEIVE_QUEUING_MESSAGE u pid timeout message len_ptr rcp s = do {
     (core_ret, s1) \<leftarrow> user_port_queueing_receive u (ucast pid) (if timeout = INFINITE_TIME then 0 else timeout)
                        (ld32 u s len_ptr) message len_ptr s;
     Some (st32 u rcp (if core_ret = errno POK_ERRNO_EMPTY then return_code NOT_AVAILABLE else core_ret) s1)
   }"

text \<open>The identifier is given to the kernel where its address should be.\<close>

definition GET_QUEUING_PORT_ID :: "ucall \<Rightarrow> u32 \<Rightarrow> u32 \<Rightarrow> u32 \<Rightarrow> kstate \<Rightarrow> kstate option" where
  "GET_QUEUING_PORT_ID u name id_ptr rcp s = do {
     (core_ret, s1) \<leftarrow> user_port_queueing_id u name (ld32 u s id_ptr) s;
     Some (st32 u rcp core_ret s1)
   }"

text \<open>The kernel is asked for the identifier of a port, with the identifier as its name.\<close>

definition GET_QUEUING_PORT_STATUS :: "ucall \<Rightarrow> apexmem \<Rightarrow> u32 \<Rightarrow> u32 \<Rightarrow> u32 \<Rightarrow> kstate \<Rightarrow> kstate option" where
  "GET_QUEUING_PORT_STATUS u ax pid status rcp s = do {
     let a = ap_struct ax;
     (core_ret, s1) \<leftarrow> user_port_queueing_id u pid a s;
     let s2 = st32 u status (ucast (ld8 u s1 (a + 5))) s1;
     let s3 = st32 u (status + 8) (ld32 u s2 a) s2;
     let s4 = st32 u (status + 12) (ucast (ld8 u s3 (a + 4))) s3;
     let s5 = st32 u (status + 16) (ucast (ld8 u s4 (a + 6))) s4;
     Some (st32 u rcp core_ret s5)
   }"

definition CLEAR_QUEUING_PORT :: "ucall \<Rightarrow> u32 \<Rightarrow> u32 \<Rightarrow> kstate \<Rightarrow> kstate" where
  "CLEAR_QUEUING_PORT u pid rcp = set_rc u rcp NOT_AVAILABLE"

text \<open>The state of the calling thread is compared with a mode of the partition.\<close>

definition CREATE_SAMPLING_PORT ::
  "ucall \<Rightarrow> apexmem \<Rightarrow> u32 \<Rightarrow> u32 \<Rightarrow> u32 \<Rightarrow> u64 \<Rightarrow> u32 \<Rightarrow> u32 \<Rightarrow> kstate \<Rightarrow> kstate option" where
  "CREATE_SAMPLING_PORT u ax name max_size direction refresh id_ptr rcp s = do {
     (r, s1) \<leftarrow> user_thread_id u (ap_ret ax) s;
     (core_ret, s2) \<leftarrow> user_thread_status u (ld32 u s1 (ap_ret ax)) (ap_struct ax) s1;
     if ld32 u s2 (ta_state (ap_struct ax)) = ARINC_NORMAL then Some (set_rc u rcp INVALID_MODE s2)
     else if sint max_size \<le> 0 \<or> sint refresh < 0 then Some (set_rc u rcp INVALID_CONFIG s2)
     else case core_direction_of direction of
       None \<Rightarrow> Some (set_rc u rcp INVALID_PARAM s2)
     | Some core_direction \<Rightarrow> do {
         (core_ret, s3) \<leftarrow> user_port_sampling_create u name max_size core_direction refresh (ap_id ax) s2;
         Some (st32 u rcp core_ret (st32 u id_ptr (ucast (ld8 u s3 (ap_id ax))) s3))
       }
   }"

definition WRITE_SAMPLING_MESSAGE :: "ucall \<Rightarrow> u32 \<Rightarrow> u32 \<Rightarrow> u32 \<Rightarrow> u32 \<Rightarrow> kstate \<Rightarrow> kstate option" where
  "WRITE_SAMPLING_MESSAGE u pid message n rcp s =
     (if sint n \<le> 0 then Some (set_rc u rcp INVALID_PARAM s)
      else do {
        (core_ret, s1) \<leftarrow> user_port_sampling_write u (ucast pid) message n s;
        Some (st32 u rcp core_ret s1)
      })"

definition READ_SAMPLING_MESSAGE :: "ucall \<Rightarrow> u32 \<Rightarrow> u32 \<Rightarrow> u32 \<Rightarrow> u32 \<Rightarrow> u32 \<Rightarrow> kstate \<Rightarrow> kstate option" where
  "READ_SAMPLING_MESSAGE u pid message len_ptr validity rcp s = do {
     (core_ret, s1) \<leftarrow> user_port_sampling_read u (ucast pid) message len_ptr validity s;
     Some (st32 u rcp core_ret s1)
   }"

definition GET_SAMPLING_PORT_ID :: "ucall \<Rightarrow> apexmem \<Rightarrow> u32 \<Rightarrow> u32 \<Rightarrow> u32 \<Rightarrow> kstate \<Rightarrow> kstate option" where
  "GET_SAMPLING_PORT_ID u ax name id_ptr rcp s = do {
     (core_ret, s1) \<leftarrow> user_port_sampling_id u name (ap_id ax) s;
     Some (st32 u rcp core_ret (st32 u id_ptr (ucast (ld8 u s1 (ap_id ax))) s1))
   }"

definition GET_SAMPLING_PORT_STATUS :: "ucall \<Rightarrow> apexmem \<Rightarrow> u32 \<Rightarrow> u32 \<Rightarrow> u32 \<Rightarrow> kstate \<Rightarrow> kstate option" where
  "GET_SAMPLING_PORT_STATUS u ax pid status rcp s = do {
     let a = ap_struct ax;
     (core_ret, s1) \<leftarrow> user_port_sampling_status u pid a s;
     let s2 = st64 u status (ld64 u s1 (a + 8)) s1;
     let s3 = st32 u (status + 8) (ld32 u s2 a) s2;
     let s4 = st32 u (status + 12) (ucast (ld8 u s3 (a + 4))) s3;
     let s5 = st32 u (status + 16) (ld32 u s4 (a + 16)) s4;
     Some (st32 u rcp core_ret s5)
   }"

subsection \<open>Blackboards and buffers\<close>

text \<open>The identifier of a blackboard that was created is not given to the caller.\<close>

definition CREATE_BLACKBOARD :: "ucall \<Rightarrow> libmem \<Rightarrow> apexmem \<Rightarrow> u32 \<Rightarrow> u32 \<Rightarrow> u32 \<Rightarrow> u32 \<Rightarrow> kstate \<Rightarrow> kstate option" where
  "CREATE_BLACKBOARD u lm ax name max_size id_ptr rcp s = do {
     (core_ret, s1) \<leftarrow> pok_blackboard_create u lm name max_size (ap_id ax) s;
     Some (st32 u rcp core_ret s1)
   }"

definition DISPLAY_BLACKBOARD :: "ucall \<Rightarrow> libmem \<Rightarrow> u32 \<Rightarrow> u32 \<Rightarrow> u32 \<Rightarrow> u32 \<Rightarrow> kstate \<Rightarrow> kstate option" where
  "DISPLAY_BLACKBOARD u lm bid message n rcp s = do {
     (core_ret, s1) \<leftarrow> pok_blackboard_display u lm (ucast bid) message n s;
     Some (st32 u rcp core_ret s1)
   }"

definition READ_BLACKBOARD :: "ucall \<Rightarrow> libmem \<Rightarrow> u32 \<Rightarrow> u64 \<Rightarrow> u32 \<Rightarrow> u32 \<Rightarrow> u32 \<Rightarrow> kstate \<Rightarrow> kstate option" where
  "READ_BLACKBOARD u lm bid timeout message len_ptr rcp s = do {
     (core_ret, s1) \<leftarrow> pok_blackboard_read u lm (ucast bid) timeout message len_ptr s;
     Some (st32 u rcp core_ret s1)
   }"

definition CLEAR_BLACKBOARD :: "ucall \<Rightarrow> u32 \<Rightarrow> u32 \<Rightarrow> kstate \<Rightarrow> kstate" where
  "CLEAR_BLACKBOARD u bid rcp = set_rc u rcp NOT_AVAILABLE"

definition GET_BLACKBOARD_ID :: "ucall \<Rightarrow> u32 \<Rightarrow> u32 \<Rightarrow> u32 \<Rightarrow> kstate \<Rightarrow> kstate" where
  "GET_BLACKBOARD_ID u name id_ptr rcp = set_rc u rcp NOT_AVAILABLE"

definition GET_BLACKBOARD_STATUS :: "ucall \<Rightarrow> u32 \<Rightarrow> u32 \<Rightarrow> u32 \<Rightarrow> kstate \<Rightarrow> kstate" where
  "GET_BLACKBOARD_STATUS u bid status rcp = set_rc u rcp NOT_AVAILABLE"

definition CREATE_BUFFER ::
  "ucall \<Rightarrow> libmem \<Rightarrow> apexmem \<Rightarrow> u32 \<Rightarrow> u32 \<Rightarrow> u32 \<Rightarrow> u32 \<Rightarrow> u32 \<Rightarrow> u32 \<Rightarrow> kstate \<Rightarrow> kstate option" where
  "CREATE_BUFFER u lm ax name max_size max_nb discipline id_ptr rcp s =
     (case core_discipline_of discipline of
        None \<Rightarrow> Some (set_rc u rcp INVALID_PARAM s)
      | Some core_discipline \<Rightarrow> do {
          (core_ret, s1) \<leftarrow> pok_buffer_create u lm name (max_size * max_nb) max_size core_discipline (ap_id ax) s;
          Some (st32 u rcp core_ret (st32 u id_ptr (ucast (ld8 u s1 (ap_id ax))) s1))
        })"

definition SEND_BUFFER :: "ucall \<Rightarrow> libmem \<Rightarrow> u32 \<Rightarrow> u32 \<Rightarrow> u32 \<Rightarrow> u64 \<Rightarrow> u32 \<Rightarrow> kstate \<Rightarrow> kstate option" where
  "SEND_BUFFER u lm bid message n timeout rcp s = do {
     (core_ret, s1) \<leftarrow> pok_buffer_send u lm (ucast bid) message n timeout s;
     Some (st32 u rcp core_ret s1)
   }"

definition RECEIVE_BUFFER :: "ucall \<Rightarrow> libmem \<Rightarrow> apexmem \<Rightarrow> u32 \<Rightarrow> u64 \<Rightarrow> u32 \<Rightarrow> u32 \<Rightarrow> u32 \<Rightarrow> kstate \<Rightarrow> kstate option" where
  "RECEIVE_BUFFER u lm ax bid timeout message len_ptr rcp s = do {
     (core_ret, s1) \<leftarrow> pok_buffer_receive u lm (ucast bid) timeout message (ap_id ax) s;
     Some (st32 u rcp core_ret (st32 u len_ptr (ld32 u s1 (ap_id ax)) s1))
   }"

definition GET_BUFFER_ID :: "ucall \<Rightarrow> u32 \<Rightarrow> u32 \<Rightarrow> u32 \<Rightarrow> kstate \<Rightarrow> kstate" where
  "GET_BUFFER_ID u name id_ptr rcp = set_rc u rcp NOT_AVAILABLE"

definition GET_BUFFER_STATUS :: "ucall \<Rightarrow> u32 \<Rightarrow> u32 \<Rightarrow> u32 \<Rightarrow> kstate \<Rightarrow> kstate" where
  "GET_BUFFER_STATUS u bid status rcp = set_rc u rcp NOT_AVAILABLE"

end
