(* ===== verification/Pok_Apex_Sync.thy ===== *)
theory Pok_Apex_Sync
  imports Pok_Apex
begin

text \<open>
  Properties of the semaphores, events and processes of the ARINC 653 services (\<open>libpok/arinc653\<close>), down to the lock
  objects and threads of the kernel: what a sequence of waits and signals does, which times reach the kernel, and what
  becomes of a process that is suspended.
\<close>

subsection \<open>Counting semaphores as a contract\<close>

text \<open>What a thread does with a semaphore, and the abstract counter: a wait on an empty one has no result here.\<close>

datatype sem_op = Sem_Wait u64 | Sem_Signal

fun sem_count :: "nat \<Rightarrow> sem_op list \<Rightarrow> nat \<Rightarrow> nat option" where
  "sem_count mx [] v = Some v"
| "sem_count mx (Sem_Wait t # ops) v = (if v = 0 then None else sem_count mx ops (v - 1))"
| "sem_count mx (Sem_Signal # ops) v = sem_count mx ops (min mx (v + 1))"

text \<open>A sequence of operations with their results.\<close>

fun service_run :: "(u64 \<Rightarrow> 's \<Rightarrow> ('r \<times> 's) option) \<Rightarrow> ('s \<Rightarrow> ('r \<times> 's) option) \<Rightarrow> sem_op list \<Rightarrow> 's \<Rightarrow> ('r list \<times> 's) option" where
  "service_run wait signal [] s = Some ([], s)"
| "service_run wait signal (op # ops) s = do {
     (r, s1) \<leftarrow> (case op of Sem_Wait t \<Rightarrow> wait t s | Sem_Signal \<Rightarrow> signal s);
     (rs, s2) \<leftarrow> service_run wait signal ops s1;
     Some (r # rs, s2)
   }"

text \<open>A provider of semaphores: \<open>holds v\<close> are the states in which the semaphore has the value \<open>v\<close>.\<close>

locale semaphore_service =
  fixes wait :: "u64 \<Rightarrow> 's \<Rightarrow> ('r \<times> 's) option" and signal :: "'s \<Rightarrow> ('r \<times> 's) option"
    and ok :: 'r and holds :: "nat \<Rightarrow> 's \<Rightarrow> bool" and mx :: nat
  assumes wait_step: "holds v s \<Longrightarrow> 0 < v \<Longrightarrow> v \<le> mx \<Longrightarrow> \<exists>s'. wait t s = Some (ok, s') \<and> holds (v - 1) s'"
    and signal_step: "holds v s \<Longrightarrow> v \<le> mx \<Longrightarrow> \<exists>s'. signal s = Some (ok, s') \<and> holds (min mx (v + 1)) s'"
begin

lemma run_counts:
  "holds v s \<Longrightarrow> v \<le> mx \<Longrightarrow> sem_count mx ops v = Some w \<Longrightarrow>
     \<exists>s'. service_run wait signal ops s = Some (replicate (length ops) ok, s') \<and> holds w s' \<and> w \<le> mx"
proof (induction ops arbitrary: v s)
  case (Cons op ops)
  show ?case
  proof (cases op)
    case (Sem_Wait t)
    then have v: "0 < v" using Cons.prems(3) by (auto split: if_splits)
    obtain s1 where s1: "wait t s = Some (ok, s1)" "holds (v - 1) s1" using wait_step [OF Cons.prems(1) v Cons.prems(2)] by blast
    have "v - 1 \<le> mx" "sem_count mx ops (v - 1) = Some w" using Cons.prems(2,3) v Sem_Wait by simp_all
    then show ?thesis using Cons.IH [OF s1(2)] s1(1) Sem_Wait by fastforce
  next
    case Sem_Signal
    obtain s1 where s1: "signal s = Some (ok, s1)" "holds (min mx (v + 1)) s1" using signal_step [OF Cons.prems(1,2)] by blast
    have "min mx (v + 1) \<le> mx" "sem_count mx ops (min mx (v + 1)) = Some w" using Cons.prems(3) Sem_Signal by simp_all
    then show ?thesis using Cons.IH [OF s1(2)] s1(1) Sem_Signal by fastforce
  qed
qed simp

end

subsection \<open>The semaphores of the kernel\<close>

text \<open>A semaphore nobody waits for.\<close>

definition quiet_sem :: "u16 \<Rightarrow> u16 \<Rightarrow> pok_lockobj_t \<Rightarrow> bool" where
  "quiet_sem v mx l = (l_initialized l \<and> \<not> l_spin l \<and> \<not> l_eventspin l \<and> l_kind l = POK_LOCKOBJ_KIND_SEMAPHORE \<and>
     l_current_value l = v \<and> l_max_value l = mx \<and> pok_lockobj_fifo_is_empty (l_fifo l))"

lemma quiet_sem_lock:
  "quiet_sem v mx (lock_at r s) \<Longrightarrow> 0 < v \<Longrightarrow>
     pok_lockobj_lock c r attr s = Some (POK_ERRNO_OK, upd_lock r (\<lambda>l. l\<lparr>l_current_value := l_current_value l - 1\<rparr>) s)"
  by (rule lock_fast) (simp_all add: quiet_sem_def)

lemma quiet_sem_unlock:
  assumes "quiet_sem v mx (lock_at r s)" "0 < mx"
  shows "pok_lockobj_unlock c r s =
     Some (POK_ERRNO_OK, upd_lock r (\<lambda>l. l\<lparr>l_current_value := if v < mx then v + 1 else v\<rparr>) s)"
proof -
  have n: "\<not> l_spin (lock_at r s)" "l_current_value (lock_at r s) = v" using assms by (simp_all add: quiet_sem_def)
  have u: "upd_lock r (\<lambda>l. l\<lparr>l_current_value := w, l_spin := False\<rparr>) s = upd_lock r (\<lambda>l. l\<lparr>l_current_value := w\<rparr>) s" for w
    by (rule upd_lock_cong) (use n in \<open>cases "lock_at r s", simp\<close>)
  have u1: "upd_lock r (\<lambda>l. l\<lparr>l_current_value := l_current_value l + 1, l_spin := False\<rparr>) s =
      upd_lock r (\<lambda>l. l\<lparr>l_current_value := v + 1\<rparr>) s"
    by (rule upd_lock_cong) (use n in \<open>cases "lock_at r s", simp\<close>)
  have u2: "upd_lock r (\<lambda>l. l\<lparr>l_spin := False\<rparr>) s = upd_lock r (\<lambda>l. l\<lparr>l_current_value := v\<rparr>) s"
    by (rule upd_lock_cong) (use n in \<open>cases "lock_at r s", simp\<close>)
  show ?thesis
    using assms u [of 1] u1 u2
    by (cases "v = 0") (auto simp: pok_lockobj_unlock_def unlock_object_def Let_def quiet_sem_def spin_simps)
qed

definition sem_object :: "u16 \<Rightarrow> u16 \<Rightarrow> ucall \<Rightarrow> u8 \<Rightarrow> kstate \<Rightarrow> bool" where
  "sem_object v mx u k s = (lock_stack u s \<and> syscall_enabled (uc_config u) 202 \<and>
     p_lockobj_index_low (pok_partitions s (pok_current_partition s)) \<le> unat k \<and>
     unat k < p_lockobj_index_high (pok_partitions s (pok_current_partition s)) \<and>
     quiet_sem v mx (lock_at (LockObj (unat k)) s))"

lemma sem_object_store: "sem_object v mx u k (s\<lparr>ks_mem := m\<rparr>) = sem_object v mx u k s"
  by (simp add: sem_object_def event_ready_updates)

lemma sem_object_memory: "memory_change s s' \<Longrightarrow> sem_object v mx u k s' = sem_object v mx u k s"
  by (auto simp: memory_change_def sem_object_store)

lemma sem_object_upd:
  "sem_object v mx u k s \<Longrightarrow> quiet_sem w mx (f (lock_at (LockObj (unat k)) s)) \<Longrightarrow>
     sem_object w mx u k (upd_lock (LockObj (unat k)) f s)"
  by (simp add: sem_object_def event_ready_updates)

text \<open>A call on a semaphore is the operation of its object, in a memory that differs on the stack of the caller.\<close>

lemma sem_operation:
  assumes "lock_stack u s" "syscall_enabled (uc_config u) 202"
  obtains m la where "\<forall>x. x \<notin> call_stack u s \<longrightarrow> m x = ks_mem s x" "lk_operation la = lock_operation_of operation"
    "lk_obj_kind la = POK_LOCKOBJ_KIND_SEMAPHORE" "\<forall>t. timeout = Some t \<longrightarrow> lk_timeout la = t"
    "lock_operation u operation 2 timeout (ucast (k :: u8)) s =
       sys_ret (pok_lockobj_partition_wrapper (uc_config u) (unat k) la (s\<lparr>ks_mem := m\<rparr>))"
proof -
  have i: "port_arg (ucast k) = unat k" by (simp add: port_arg_def unsigned_ucast_eq take_bit_eq_mod unat_mod_distrib)
  have "reaches_object u s (lock_operation u operation 2 timeout (ucast k) s) (lock_operation_of operation)
      (lockobj_kind_of 2) timeout (port_arg (ucast k))"
    by (rule lock_operation_reaches) (use assms in simp_all)
  then show ?thesis using that by (auto simp: reaches_object_def i lockobj_kind_of_def)
qed

lemma sem_wait_object:
  assumes "sem_object v mx u k s" "0 < v"
  shows "\<exists>s'. user_sem_wait u k us s = Some (0, s') \<and> sem_object (v - 1) mx u k s' \<and> call_keeps u s s'"
proof -
  have st: "lock_stack u s" "syscall_enabled (uc_config u) 202" using assms(1) by (simp_all add: sem_object_def)
  obtain m la where m: "\<forall>x. x \<notin> call_stack u s \<longrightarrow> m x = ks_mem s x" "lk_operation la = lock_operation_of 1"
    "lk_obj_kind la = POK_LOCKOBJ_KIND_SEMAPHORE" "lock_operation u 1 2 (Some (us * 1000)) (ucast k) s =
       sys_ret (pok_lockobj_partition_wrapper (uc_config u) (unat k) la (s\<lparr>ks_mem := m\<rparr>))"
    using sem_operation [OF st, of 1 "Some (us * 1000)" k] by metis
  let ?s = "s\<lparr>ks_mem := m\<rparr>"
  let ?s' = "upd_lock (LockObj (unat k)) (\<lambda>l. l\<lparr>l_current_value := l_current_value l - 1\<rparr>) ?s"
  have r: "sem_object v mx u k ?s" using assms by (simp add: sem_object_store)
  then have q: "quiet_sem v mx (lock_at (LockObj (unat k)) ?s)" by (simp add: sem_object_def)
  then have "l_kind (pok_partitions_lockobjs ?s (unat k)) = POK_LOCKOBJ_KIND_SEMAPHORE" by (simp add: quiet_sem_def lock_at_def)
  then have "user_sem_wait u k us s = Some (0, ?s')"
    using r m(2,3) quiet_sem_lock [OF q assms(2), of "uc_config u" "Some la"]
    by (simp add: user_sem_wait_def m(4) pok_lockobj_partition_wrapper_def sem_object_def Let_def lock_operation_of_def
        sys_ret_def errno_def)
  moreover have "sem_object (v - 1) mx u k ?s'" using r q by (intro sem_object_upd) (auto simp: quiet_sem_def)
  moreover have "call_keeps u s ?s'" using m(1) by (simp add: call_keeps_def event_ready_updates)
  ultimately show ?thesis by blast
qed

lemma sem_signal_object:
  assumes "sem_object v mx u k s" "0 < mx"
  shows "\<exists>s'. user_sem_signal u k s = Some (0, s') \<and> sem_object (if v < mx then v + 1 else v) mx u k s' \<and> call_keeps u s s'"
proof -
  have st: "lock_stack u s" "syscall_enabled (uc_config u) 202" using assms(1) by (simp_all add: sem_object_def)
  obtain m la where m: "\<forall>x. x \<notin> call_stack u s \<longrightarrow> m x = ks_mem s x" "lk_operation la = lock_operation_of 2"
    "lk_obj_kind la = POK_LOCKOBJ_KIND_SEMAPHORE" "lock_operation u 2 2 None (ucast k) s =
       sys_ret (pok_lockobj_partition_wrapper (uc_config u) (unat k) la (s\<lparr>ks_mem := m\<rparr>))"
    using sem_operation [OF st, of 2 None k] by metis
  let ?s = "s\<lparr>ks_mem := m\<rparr>"
  let ?s' = "upd_lock (LockObj (unat k)) (\<lambda>l. l\<lparr>l_current_value := if v < mx then v + 1 else v\<rparr>) ?s"
  have r: "sem_object v mx u k ?s" using assms by (simp add: sem_object_store)
  then have q: "quiet_sem v mx (lock_at (LockObj (unat k)) ?s)" by (simp add: sem_object_def)
  then have "l_kind (pok_partitions_lockobjs ?s (unat k)) = POK_LOCKOBJ_KIND_SEMAPHORE" by (simp add: quiet_sem_def lock_at_def)
  then have "user_sem_signal u k s = Some (0, ?s')"
    using r m(2,3) quiet_sem_unlock [OF q assms(2), of "uc_config u"]
    by (simp add: user_sem_signal_def m(4) pok_lockobj_partition_wrapper_def sem_object_def Let_def lock_operation_of_def
        sys_ret_def errno_def)
  moreover have "sem_object (if v < mx then v + 1 else v) mx u k ?s'"
    using r q by (intro sem_object_upd) (auto simp: quiet_sem_def)
  moreover have "call_keeps u s ?s'" using m(1) by (simp add: call_keeps_def event_ready_updates)
  ultimately show ?thesis by blast
qed

subsection \<open>The services for semaphores\<close>

definition sem_place :: "ucall \<Rightarrow> apexmem \<Rightarrow> u32 \<Rightarrow> u32 \<Rightarrow> bool" where
  "sem_place u ax sid rcp =
     (let flag = area (pok_arinc653_semaphores_initialized ax) 4; core = area (sem_core_id ax sid) 1
      in sint sid \<le> int (POK_CONFIG_ARINC653_NB_SEMAPHORES ax) \<and> flag \<inter> user_stack u = {} \<and> core \<inter> user_stack u = {} \<and>
         core \<inter> flag = {} \<and> flag \<inter> area rcp 4 = {} \<and> core \<inter> area rcp 4 = {})"

definition arinc_semaphore :: "ucall \<Rightarrow> apexmem \<Rightarrow> u32 \<Rightarrow> nat \<Rightarrow> nat \<Rightarrow> kstate \<Rightarrow> bool" where
  "arinc_semaphore u ax sid mx v s = (ld32 u s (pok_arinc653_semaphores_initialized ax) = 1 \<and>
     sem_object (of_nat v) (of_nat mx) u (ld8 u s (sem_core_id ax sid)) s)"

text \<open>A service together with the code it leaves.\<close>

definition with_code :: "ucall \<Rightarrow> u32 \<Rightarrow> kstate option \<Rightarrow> sys_result" where
  "with_code u rcp r = map_option (\<lambda>s. (ld32 u s rcp, s)) r"

text \<open>Stores outside of the tables, and the calls, do not change them.\<close>

lemma ld_st32_apart:
  "area q 1 \<inter> area p 4 = {} \<Longrightarrow> ld8 u (st32 u p w s) q = ld8 u s q"
  "area q 4 \<inter> area p 4 = {} \<Longrightarrow> ld32 u (st32 u p w s) q = ld32 u s q"
  using ld_uput(1) [of q 1 p 4] ld_uput(3) [of q 4 p 4] by (simp_all add: st_as_uput(3))

lemma arinc_semaphore_st32:
  assumes "arinc_semaphore u ax sid mx v s" "area (sem_core_id ax sid) 1 \<inter> area p 4 = {}"
    and "area (pok_arinc653_semaphores_initialized ax) 4 \<inter> area p 4 = {} \<or> (p = pok_arinc653_semaphores_initialized ax \<and> w = 1)"
  shows "arinc_semaphore u ax sid mx v (st32 u p w s)"
proof -
  have "ld32 u (st32 u p w s) (pok_arinc653_semaphores_initialized ax) = 1"
    using assms(1,3) ld_st32_apart(2) [of "pok_arinc653_semaphores_initialized ax" p] by (auto simp: arinc_semaphore_def)
  moreover have "sem_object v' mx' u k (st32 u p w s) = sem_object v' mx' u k s" for v' mx' k
    by (rule sem_object_memory) simp
  ultimately show ?thesis
    using assms(1) ld_st32_apart(1) [OF assms(2), of u w s] by (simp add: arinc_semaphore_def)
qed

lemma arinc_semaphore_init:
  assumes "sem_place u ax sid rcp" "arinc_semaphore u ax sid mx v s"
  shows "arinc_semaphore u ax sid mx v (CHECK_SEM_INIT u ax s)"
    and "ld8 u (CHECK_SEM_INIT u ax s) (sem_core_id ax sid) = ld8 u s (sem_core_id ax sid)"
proof -
  have c: "CHECK_SEM_INIT u ax s = st32 u (pok_arinc653_semaphores_initialized ax) 1 s"
    using assms(2) by (simp add: CHECK_SEM_INIT_def arinc_semaphore_def)
  have d: "area (sem_core_id ax sid) 1 \<inter> area (pok_arinc653_semaphores_initialized ax) 4 = {}"
    using assms(1) by (simp add: sem_place_def Let_def)
  show "arinc_semaphore u ax sid mx v (CHECK_SEM_INIT u ax s)"
    using arinc_semaphore_st32 [OF assms(2) d] c by simp
  show "ld8 u (CHECK_SEM_INIT u ax s) (sem_core_id ax sid) = ld8 u s (sem_core_id ax sid)"
    using ld_st32_apart(1) [OF d] c by simp
qed

lemma arinc_semaphore_call:
  assumes "sem_place u ax sid rcp" "arinc_semaphore u ax sid mx v s" "call_keeps u s s'"
    and "sem_object (of_nat w) (of_nat mx) u (ld8 u s (sem_core_id ax sid)) s'"
  shows "arinc_semaphore u ax sid mx w s'"
proof -
  have "ld32 u s' (pok_arinc653_semaphores_initialized ax) = ld32 u s (pok_arinc653_semaphores_initialized ax)"
    "ld8 u s' (sem_core_id ax sid) = ld8 u s (sem_core_id ax sid)"
    using keeps_ld(3) [OF assms(3), of _ 4] keeps_ld(1) [OF assms(3), of _ 1] assms(1) by (simp_all add: sem_place_def Let_def)
  then show ?thesis using assms(2,4) by (simp add: arinc_semaphore_def)
qed

lemma wait_semaphore_step:
  assumes "sem_place u ax sid rcp" "arinc_semaphore u ax sid mx v s" "0 < v" "v \<le> mx" "mx < 65536"
  shows "\<exists>s'. with_code u rcp (WAIT_SEMAPHORE u ax sid t rcp s) = Some (return_code NO_ERROR, s') \<and>
     arinc_semaphore u ax sid mx (v - 1) s'"
proof -
  let ?s = "CHECK_SEM_INIT u ax s"
  let ?k = "ld8 u ?s (sem_core_id ax sid)"
  note i = arinc_semaphore_init [OF assms(1,2)]
  have o: "sem_object (of_nat v) (of_nat mx) u ?k ?s" using i(1) by (simp add: arinc_semaphore_def)
  have v: "0 < (of_nat v :: u16)" using assms(3-5) by (simp add: word_less_nat_alt unsigned_of_nat take_bit_nat_eq_self)
  obtain s1 where s1: "user_sem_wait u ?k (sem_timeout t) ?s = Some (0, s1)" "sem_object (of_nat v - 1) (of_nat mx) u ?k s1"
    "call_keeps u ?s s1" using sem_wait_object [OF o v] by blast
  have "arinc_semaphore u ax sid mx (v - 1) s1"
    using arinc_semaphore_call [OF assms(1) i(1) s1(3)] s1(2) assms(3) by (simp add: of_nat_diff)
  then have "arinc_semaphore u ax sid mx (v - 1) (set_rc u rcp NO_ERROR (set_rc u rcp INVALID_PARAM s1))"
    using assms(1) by (auto simp: set_rc_def sem_place_def Let_def intro!: arinc_semaphore_st32)
  moreover have "WAIT_SEMAPHORE u ax sid t rcp s = Some (set_rc u rcp NO_ERROR (set_rc u rcp INVALID_PARAM s1))"
    using assms(1) s1(1) by (simp add: WAIT_SEMAPHORE_def Let_def sem_place_def errno_def)
  ultimately show ?thesis by (simp add: with_code_def set_rc_def)
qed

lemma signal_semaphore_step:
  assumes "sem_place u ax sid rcp" "arinc_semaphore u ax sid mx v s" "v \<le> mx" "0 < mx" "mx < 65536"
  shows "\<exists>s'. with_code u rcp (SIGNAL_SEMAPHORE u ax sid rcp s) = Some (return_code NO_ERROR, s') \<and>
     arinc_semaphore u ax sid mx (min mx (v + 1)) s'"
proof -
  let ?s = "CHECK_SEM_INIT u ax s"
  let ?k = "ld8 u ?s (sem_core_id ax sid)"
  note i = arinc_semaphore_init [OF assms(1,2)]
  have o: "sem_object (of_nat v) (of_nat mx) u ?k ?s" using i(1) by (simp add: arinc_semaphore_def)
  have m: "0 < (of_nat mx :: u16)" "(of_nat v :: u16) < of_nat mx \<longleftrightarrow> v < mx"
    using assms(3-5) by (simp_all add: word_less_nat_alt unsigned_of_nat take_bit_nat_eq_self)
  obtain s1 where s1: "user_sem_signal u ?k ?s = Some (0, s1)"
    "sem_object (if v < mx then of_nat v + 1 else of_nat v) (of_nat mx) u ?k s1" "call_keeps u ?s s1"
    using sem_signal_object [OF o m(1)] by (auto simp: m(2))
  have "(if v < mx then of_nat v + 1 else of_nat v) = (of_nat (min mx (v + 1)) :: u16)" using assms(3) by auto
  then have "arinc_semaphore u ax sid mx (min mx (v + 1)) s1"
    using arinc_semaphore_call [OF assms(1) i(1) s1(3)] s1(2) by simp
  then have "arinc_semaphore u ax sid mx (min mx (v + 1)) (set_rc u rcp NO_ERROR s1)"
    using assms(1) by (auto simp: set_rc_def sem_place_def Let_def intro!: arinc_semaphore_st32)
  moreover have "SIGNAL_SEMAPHORE u ax sid rcp s = Some (set_rc u rcp NO_ERROR s1)"
    using assms(1) s1(1) by (simp add: SIGNAL_SEMAPHORE_def Let_def sem_place_def errno_def)
  ultimately show ?thesis by (simp add: with_code_def set_rc_def)
qed

interpretation sem: semaphore_service "\<lambda>t s. with_code u rcp (WAIT_SEMAPHORE u ax sid t rcp s)"
  "\<lambda>s. with_code u rcp (SIGNAL_SEMAPHORE u ax sid rcp s)" "return_code NO_ERROR"
  "\<lambda>v s. sem_place u ax sid rcp \<and> 0 < mx \<and> mx < 65536 \<and> arinc_semaphore u ax sid mx v s" mx for u ax sid rcp mx
  by unfold_locales (use wait_semaphore_step signal_semaphore_step in blast)+

text \<open>C20: A semaphore of ARINC counts: any sequence of waits and signals, with any times, that never finds the semaphore
  empty runs without an error, and leaves the value of the abstract counter, which the maximum of the semaphore bounds.
  The system calls, the gate and the lock object of the kernel are part of the statement.\<close>

theorem arinc_semaphore_counts:
  assumes "sem_place u ax sid rcp" "arinc_semaphore u ax sid mx v s" "v \<le> mx" "0 < mx" "mx < 65536"
    and "sem_count mx ops v = Some w"
  shows "\<exists>s'. service_run (\<lambda>t s. with_code u rcp (WAIT_SEMAPHORE u ax sid t rcp s))
      (\<lambda>s. with_code u rcp (SIGNAL_SEMAPHORE u ax sid rcp s)) ops s = Some (replicate (length ops) (return_code NO_ERROR), s') \<and>
    arinc_semaphore u ax sid mx w s' \<and> w \<le> mx"
  using sem.run_counts [of u ax sid rcp mx v s ops w] assms by auto

definition demo_apex :: apexmem where
  "demo_apex = \<lparr>pok_arinc653_semaphores_initialized = 20480, pok_arinc653_semaphores_names = 20488,
     pok_arinc653_semaphores_layers = 20544, POK_CONFIG_ARINC653_NB_SEMAPHORES = 2,
     pok_arinc653_events_initialized = 20736, pok_arinc653_events_names = 20744, pok_arinc653_events_layers = 20800,
     POK_CONFIG_ARINC653_NB_EVENTS = 2, pok_arinc653_processes = 20992, pok_arinc653_processes_nb = 21120,
     arinc_process_attribute = 21248, APEX_NB_THREADS = 4, ap_ret = 1024, ap_id = 1032, ap_struct = 1040\<rparr>"

definition demo_sem_state :: kstate where
  "demo_sem_state = st32 demo_ucall 20480 1 (demo_state\<lparr>pok_partitions_lockobjs :=
     (\<lambda>_. demo_lockobj\<lparr>l_kind := POK_LOCKOBJ_KIND_SEMAPHORE, l_current_value := 2, l_max_value := 3\<rparr>)\<rparr>)"

lemma demo_sem_place: "sem_place demo_ucall demo_apex 1 1024"
proof -
  have "area 20480 4 \<inter> area 256 24 = {}" "area 20480 4 \<inter> area 512 20 = {}" "area 20556 1 \<inter> area 256 24 = {}"
    "area 20556 1 \<inter> area 512 20 = {}" "area 20556 1 \<inter> area 20480 4 = {}" "area 20480 4 \<inter> area 1024 4 = {}"
    "area 20556 1 \<inter> area 1024 4 = {}"
    by (rule distance_disjoint; simp)+
  then show ?thesis by (simp add: sem_place_def demo_apex_def sem_core_id_def user_stack_def Int_Un_distrib Let_def)
qed

lemma demo_semaphore: "arinc_semaphore demo_ucall demo_apex 1 3 2 demo_sem_state"
proof -
  let ?t = "demo_state\<lparr>pok_partitions_lockobjs :=
     (\<lambda>_. demo_lockobj\<lparr>l_kind := POK_LOCKOBJ_KIND_SEMAPHORE, l_current_value := 2, l_max_value := 3\<rparr>)\<rparr>"
  have "in_program demo_ucall 256 SIZEOF_SYSCALL_ARGS ?t" "in_program demo_ucall 512 SIZEOF_LOCKOBJ_ATTR ?t"
    by (simp_all add: in_program_def PARTITION_ID_demo pok_check_ptr_in_partition_def demo_partition_def
        SIZEOF_SYSCALL_ARGS_def SIZEOF_LOCKOBJ_ATTR_def)
  then have "sem_object 2 3 demo_ucall 0 ?t"
    by (simp add: sem_object_def lock_stack_def apart_def quiet_sem_def lock_at_def demo_partition_def demo_lockobj_def
        demo_fifo_def pok_lockobj_fifo_is_empty_def demo_config_def)
  moreover have "sem_object 2 3 demo_ucall 0 demo_sem_state = sem_object 2 3 demo_ucall 0 ?t"
    unfolding demo_sem_state_def by (rule sem_object_memory) simp
  moreover have "ld8 demo_ucall demo_sem_state 20556 = 0"
  proof -
    have "area 20556 1 \<inter> area 20480 4 = {}" by (rule distance_disjoint) simp_all
    then have "ld8 demo_ucall demo_sem_state 20556 = ld8 demo_ucall ?t 20556"
      unfolding demo_sem_state_def by (rule ld_st32_apart(1))
    then show ?thesis by (simp add: ld8_def rd8_def umem_def demo_state_def)
  qed
  ultimately show ?thesis by (simp add: arinc_semaphore_def demo_apex_def sem_core_id_def demo_sem_state_def)
qed

theorem arinc_semaphore_counts_witness:
  "\<exists>s'. service_run (\<lambda>t s. with_code demo_ucall 1024 (WAIT_SEMAPHORE demo_ucall demo_apex 1 t 1024 s))
      (\<lambda>s. with_code demo_ucall 1024 (SIGNAL_SEMAPHORE demo_ucall demo_apex 1 1024 s))
      [Sem_Wait 0, Sem_Signal, Sem_Signal, Sem_Signal, Sem_Wait 5000] demo_sem_state = Some ([0, 0, 0, 0, 0], s') \<and>
    arinc_semaphore demo_ucall demo_apex 1 3 2 s'"
proof -
  have "sem_count 3 [Sem_Wait 0, Sem_Signal, Sem_Signal, Sem_Signal, Sem_Wait 5000] 2 = Some 2" by simp
  from arinc_semaphore_counts [OF demo_sem_place demo_semaphore _ _ _ this] show ?thesis by simp
qed

subsection \<open>The state of a process\<close>

text \<open>What the system call for the state of a thread leaves in the structure of the program.\<close>

lemma thread_status_written:
  defines "m \<equiv> \<lambda>s. ks_mem s"
  shows "rd32 (m (write_thread_status a attr s)) (a + 36) = state_value (a_state attr)"
    and "rd64 (m (write_thread_status a attr s)) (a + 8) = a_period attr"
    and "x \<notin> area a 48 \<Longrightarrow> m (write_thread_status a attr s) x = m s x"
proof -
  have p4: "apart 1 a (a + 36) 4" "apart 4 (a + 4) (a + 36) 4" "apart 8 (a + 8) (a + 36) 4" "apart 8 (a + 24) (a + 36) 4"
    "apart 4 (a + 32) (a + 36) 4" "apart 1 (a + 1) (a + 36) 4"
    by (simp_all add: apart_def)
  have p8: "apart 8 (a + 24) (a + 8) 8" "apart 4 (a + 32) (a + 8) 8" "apart 1 (a + 1) (a + 8) 8"
    by (simp_all add: apart_def)
  note w = write_thread_status_def m_def
  have o: "rd32 (ks_mem (wr8 b w t)) (a + 36) = rd32 (ks_mem t) (a + 36)" if "apart 1 b (a + 36) 4" for b w t
    using rd_apart(3) [OF that] by (simp add: wr8_def)
  have o4: "rd32 (ks_mem (wr32 b w t)) (a + 36) = rd32 (ks_mem t) (a + 36)" if "apart 4 b (a + 36) 4" for b w t
    using rd_apart(3) [OF that] by (simp add: wr32_def)
  have o8: "rd32 (ks_mem (wr64 b w t)) (a + 36) = rd32 (ks_mem t) (a + 36)" if "apart 8 b (a + 36) 4" for b w t
    using rd_apart(3) [OF that] by (simp add: wr64_def)
  show "rd32 (m (write_thread_status a attr s)) (a + 36) = state_value (a_state attr)"
    by (simp add: w o [OF p4(1)] o [OF p4(6)] o4 [OF p4(2)] o4 [OF p4(5)] o8 [OF p4(3)] o8 [OF p4(4)] rd32_wr32)
  have q: "rd64 (ks_mem (wr8 b w t)) (a + 8) = rd64 (ks_mem t) (a + 8)" if "apart 1 b (a + 8) 8" for b w t
    using rd64_apart [OF that] by (simp add: wr8_def)
  have q4: "rd64 (ks_mem (wr32 b w t)) (a + 8) = rd64 (ks_mem t) (a + 8)" if "apart 4 b (a + 8) 8" for b w t
    using rd64_apart [OF that] by (simp add: wr32_def)
  have q8: "rd64 (ks_mem (wr64 b w t)) (a + 8) = rd64 (ks_mem t) (a + 8)" if "apart 8 b (a + 8) 8" for b w t
    using rd64_apart [OF that] by (simp add: wr64_def)
  show "rd64 (m (write_thread_status a attr s)) (a + 8) = a_period attr"
    by (simp add: w q [OF p8(3)] q4 [OF p8(2)] q8 [OF p8(1)] rd64_wr64)
  assume x: "x \<notin> area a 48"
  note far = mem_put_outside_sub [OF x]
  show "m (write_thread_status a attr s) x = m s x"
    using far [of 0 1] far [of 1 1] far [of 4 4] far [of 8 8] far [of 16 8] far [of 24 8] far [of 32 4] far [of 36 4]
    by (simp add: w wr_as_put)
qed

lemma load_umem:
  "rd8 (umem u s) p = rd8 (ks_mem s) (p + ubase u s)" "rd32 (umem u s) p = rd32 (ks_mem s) (p + ubase u s)"
  "rd64 (umem u s) p = rd64 (ks_mem s) (p + ubase u s)"
  by (simp_all add: rd8_def rd32_def rd64_def umem_def ac_simps)

text \<open>The calls for the state of a process and for its suspension, from a program whose stack is in order.\<close>

definition process_calls :: "ucall \<Rightarrow> u32 \<Rightarrow> kstate \<Rightarrow> bool" where
  "process_calls u a s = (in_program u (uc_args u) SIZEOF_SYSCALL_ARGS s \<and> in_program u a SIZEOF_THREAD_ATTR s \<and>
     syscall_enabled (uc_config u) 59 \<and> syscall_enabled (uc_config u) 62)"

definition process_stack :: "ucall \<Rightarrow> u32 \<Rightarrow> u32 set" where
  "process_stack u a = area (uc_args u) 24 \<union> area a 48"

text \<open>A thread of the calling partition, on a processor of the partition.\<close>

definition own_thread :: "ucall \<Rightarrow> nat \<Rightarrow> kstate \<Rightarrow> bool" where
  "own_thread u tid s = (\<not> out_of_partition tid s \<and>
     get_proc_partition_id (uc_config u) (pok_current_partition s) (t_processor_affinity (pok_threads s tid)) \<noteq> None)"

lemma process_store [simp]:
  "process_calls u a (s\<lparr>ks_mem := m\<rparr>) = process_calls u a s" "own_thread u tid (s\<lparr>ks_mem := m\<rparr>) = own_thread u tid s"
  by (simp_all add: process_calls_def event_ready_updates own_thread_def out_of_partition_def POK_CURRENT_PARTITION_def)

lemma status_call:
  assumes "process_calls u a s" "own_thread u (unat core) s"
  shows "\<exists>s1. user_thread_status u core a s = Some (0, s1) \<and> memory_change s s1 \<and>
    ld32 u s1 (ta_state a) = state_value (t_state (pok_threads s (unat core))) \<and>
    ld64 u s1 (ta_period a) = t_period (pok_threads s (unat core)) \<and>
    (\<forall>x. x \<notin> process_stack u a \<longrightarrow> umem u s1 x = umem u s x)"
proof -
  let ?args = "\<lparr>sa_nargs = 2, sa_arg1 = core, sa_arg2 = a, sa_arg3 = 0, sa_arg4 = 0, sa_arg5 = 0\<rparr>"
  let ?b = "a + ubase u s" and ?th = "pok_threads s (unat core)"
  define s1 where "s1 = store_args (uc_args u + ubase u s) ?args s"
  obtain m where m: "s1 = s\<lparr>ks_mem := m\<rparr>" using store_args_only_memory [where s = s and ?m0.0 = "ks_mem s"] by (auto simp: s1_def)
  obtain aff where aff: "get_proc_partition_id (uc_config u) (pok_current_partition s) (t_processor_affinity ?th) = Some aff"
    using assms(2) by (auto simp: own_thread_def)
  obtain attr where attr: "pok_thread_get_status (uc_config u) (unat core) (read_thread_attr (ks_mem s1) ?b) s1 = Some (POK_ERRNO_OK, attr)"
    "a_state attr = t_state ?th" "a_period attr = t_period ?th"
    using assms(2) aff
    by (simp add: pok_thread_get_status_def own_thread_def m out_of_partition_def POK_CURRENT_PARTITION_def Let_def)
  let ?s2 = "write_thread_status ?b attr s1"
  have "in_program u a SIZEOF_THREAD_ATTR s1" using assms(1) by (simp add: process_calls_def s1_def)
  then have "user_thread_status u core a s = Some (0, ?s2)"
    using do_syscall_read [of POK_SYSCALL_THREAD_STATUS u s ?args] assms(1) attr(1)
    by (simp add: user_thread_status_def pok_syscall2_def s1_def [symmetric] pok_core_syscall_def sys_thread_status_def CHECK_PTR_def
        in_program_def call_infos_def Let_def sysno_def process_calls_def errno_def)
  moreover obtain m2 where m2: "?s2 = s\<lparr>ks_mem := m2\<rparr>" by (auto simp: write_thread_status_def wr_as_put mem_put_def m)
  then have b: "ubase u ?s2 = ubase u s" by (simp add: ubase_def)
  have "umem u ?s2 x = umem u s x" if "x \<notin> process_stack u a" for x
  proof -
    have "x + ubase u s \<notin> area ?b 48" "x + ubase u s \<notin> area (uc_args u + ubase u s) 24"
      using that by (simp_all add: process_stack_def area_def)
    then have "ks_mem ?s2 (x + ubase u s) = ks_mem s1 (x + ubase u s)" "ks_mem s1 (x + ubase u s) = ks_mem s (x + ubase u s)"
      using thread_status_written(3) [of "x + ubase u s" ?b attr s1] store_args_outside [of "x + ubase u s" "uc_args u + ubase u s" ?args s]
      by (simp_all add: s1_def [symmetric])
    then show ?thesis by (simp add: umem_def b)
  qed
  moreover have "ld32 u ?s2 (ta_state a) = state_value (t_state ?th)" "ld64 u ?s2 (ta_period a) = t_period ?th"
    using thread_status_written(1,2) [of ?b attr s1] attr(2,3)
    by (simp_all add: ld32_def ld64_def load_umem b ta_state_def ta_period_def ac_simps)
  ultimately show ?thesis using m2 by (auto simp: memory_change_def)
qed

lemma suspend_call:
  assumes "process_calls u a s" "own_thread u (unat core) s" "unat core \<noteq> POK_SCHED_CURRENT_THREAD s"
  shows "\<exists>m. user_thread_suspend_target u core s =
      Some (0, upd_thread (unat core) (\<lambda>th. th\<lparr>t_state := POK_STATE_STOPPED\<rparr>) (s\<lparr>ks_mem := m\<rparr>)) \<and>
    (\<forall>x. x \<notin> process_stack u a \<longrightarrow> m (x + ubase u s) = umem u s x)"
proof -
  let ?args = "\<lparr>sa_nargs = 2, sa_arg1 = core, sa_arg2 = 0, sa_arg3 = 0, sa_arg4 = 0, sa_arg5 = 0\<rparr>"
  define s1 where "s1 = store_args (uc_args u + ubase u s) ?args s"
  obtain m where m: "s1 = s\<lparr>ks_mem := m\<rparr>" using store_args_only_memory [where s = s and ?m0.0 = "ks_mem s"] by (auto simp: s1_def)
  have "user_thread_suspend_target u core s =
      Some (0, upd_thread (unat core) (\<lambda>th. th\<lparr>t_state := POK_STATE_STOPPED\<rparr>) s1)"
    using do_syscall_read [of POK_SYSCALL_THREAD_SUSPEND_TARGET u s ?args] assms
    by (simp add: user_thread_suspend_target_def pok_syscall2_def s1_def [symmetric] pok_core_syscall_def sys_ret_def
        sysno_def process_calls_def errno_def pok_thread_suspend_target_def own_thread_def m out_of_partition_def
        POK_CURRENT_PARTITION_def POK_SCHED_CURRENT_THREAD_def)
  moreover have "m (x + ubase u s) = umem u s x" if "x \<notin> process_stack u a" for x
  proof -
    have "x + ubase u s \<notin> area (uc_args u + ubase u s) 24" using that by (simp add: process_stack_def area_def)
    then have "ks_mem s1 (x + ubase u s) = ks_mem s (x + ubase u s)" using store_args_outside by (simp add: s1_def)
    then show ?thesis by (simp add: m umem_def)
  qed
  ultimately show ?thesis using m by auto
qed

text \<open>A process that may be asked about: its entry in the table, apart from the stack and the return code.\<close>

definition process_place :: "ucall \<Rightarrow> apexmem \<Rightarrow> u32 \<Rightarrow> u32 \<Rightarrow> bool" where
  "process_place u ax pid rcp = (area (process_at ax pid) 4 \<inter> (process_stack u (ap_struct ax) \<union> area rcp 4) = {})"

lemma resume_not_waiting:
  assumes "process_calls u (ap_struct ax) s" "own_thread u (unat (ld32 u s (process_at ax pid))) s"
    and "t_state (pok_threads s (unat (ld32 u s (process_at ax pid)))) \<noteq> POK_STATE_LOCK"
  shows "\<exists>s'. RESUME u ax pid rcp s = Some s' \<and> ld32 u s' rcp = return_code INVALID_MODE \<and> memory_change s s'"
proof -
  obtain s1 where s1: "user_thread_status u (ld32 u s (process_at ax pid)) (ap_struct ax) s = Some (0, s1)" "memory_change s s1"
    "ld32 u s1 (ta_state (ap_struct ax)) = state_value (t_state (pok_threads s (unat (ld32 u s (process_at ax pid)))))"
    using status_call [OF assms(1,2)] by blast
  have "state_value (t_state (pok_threads s (unat (ld32 u s (process_at ax pid))))) \<noteq> ARINC_WAITING"
    using assms(3) by (simp add: state_value_def ARINC_WAITING_def split: pok_state_t.splits)
  then have "RESUME u ax pid rcp s = Some (set_rc u rcp INVALID_MODE s1)"
    using s1(1,3) by (simp add: RESUME_def Let_def)
  moreover have "memory_change s (set_rc u rcp INVALID_MODE s1)" using memory_change_st32 [OF s1(2)] by (simp add: set_rc_def)
  ultimately show ?thesis by (simp add: set_rc_def)
qed

text \<open>A process that SUSPEND has suspended cannot be resumed: SUSPEND reports success and puts the thread of the process
  into the state of a stopped one, and every RESUME from then on answers that the mode is wrong and leaves the process
  stopped. RESUME looks for the value that ARINC gives to waiting processes, which the kernel gives to threads blocked on
  a lock object.\<close>

theorem suspended_process_stays_stopped:
  fixes u :: ucall and ax :: apexmem and s :: kstate and pid :: u32
  defines "tid \<equiv> unat (ld32 u s (process_at ax pid))"
  assumes "process_place u ax pid rcp" "process_calls u (ap_struct ax) s" "own_thread u tid s"
    and "tid \<noteq> POK_SCHED_CURRENT_THREAD s" "t_state (pok_threads s tid) \<in> {POK_STATE_RUNNABLE, POK_STATE_WAITING}"
    and "t_period (pok_threads s tid) \<noteq> INFINITE_TIME"
  shows "\<exists>s1. SUSPEND u ax pid rcp s = Some s1 \<and> ld32 u s1 rcp = return_code NO_ERROR \<and>
    t_state (pok_threads s1 tid) = POK_STATE_STOPPED \<and>
    (\<exists>s2. RESUME u ax pid rcp s1 = Some s2 \<and> ld32 u s2 rcp = return_code INVALID_MODE \<and>
       t_state (pok_threads s2 tid) = POK_STATE_STOPPED)"
proof -
  let ?core = "ld32 u s (process_at ax pid)" and ?a = "ap_struct ax"
  obtain s1 where s1: "user_thread_status u ?core ?a s = Some (0, s1)" "memory_change s s1"
    "ld32 u s1 (ta_state ?a) = state_value (t_state (pok_threads s tid))"
    "ld64 u s1 (ta_period ?a) = t_period (pok_threads s tid)"
    "\<forall>x. x \<notin> process_stack u ?a \<longrightarrow> umem u s1 x = umem u s x"
    using status_call [OF assms(3) assms(4) [unfolded tid_def]] by (auto simp: tid_def)
  obtain m1 where m1: "s1 = s\<lparr>ks_mem := m1\<rparr>" using s1(2) by (auto simp: memory_change_def)
  have c1: "process_calls u ?a s1" "own_thread u tid s1" "tid \<noteq> POK_SCHED_CURRENT_THREAD s1"
    using assms(3-5) by (simp_all add: m1 POK_SCHED_CURRENT_THREAD_def)
  obtain m where m: "user_thread_suspend_target u ?core s1 =
      Some (0, upd_thread tid (\<lambda>th. th\<lparr>t_state := POK_STATE_STOPPED\<rparr>) (s1\<lparr>ks_mem := m\<rparr>))"
    "\<forall>x. x \<notin> process_stack u ?a \<longrightarrow> m (x + ubase u s1) = umem u s1 x"
    using suspend_call [OF c1(1) c1(2,3) [unfolded tid_def]] by (auto simp: tid_def)
  define s2 where "s2 = upd_thread tid (\<lambda>th. th\<lparr>t_state := POK_STATE_STOPPED\<rparr>) (s1\<lparr>ks_mem := m\<rparr>)"
  define s3 where "s3 = st32 u rcp 0 s2"
  have "state_value (t_state (pok_threads s tid)) \<noteq> ARINC_WAITING \<and> state_value (t_state (pok_threads s tid)) \<noteq> ARINC_DORMANT"
    using assms(6) by (auto simp: state_value_def ARINC_WAITING_def ARINC_DORMANT_def)
  then have susp: "SUSPEND u ax pid rcp s = Some s3"
    using s1(1,3,4) m(1) assms(7) by (simp add: SUSPEND_def Let_def s2_def s3_def)
  have "memory_change s2 s3" by (simp add: s3_def)
  then obtain m3 where m3: "s3 = (upd_thread tid (\<lambda>th. th\<lparr>t_state := POK_STATE_STOPPED\<rparr>) (s\<lparr>ks_mem := m\<rparr>))\<lparr>ks_mem := m3\<rparr>"
    by (auto simp: memory_change_def s2_def m1)
  have "in_program u p z s3 = in_program u p z s" for p z
    by (simp add: in_program_def pok_check_ptr_in_partition_def m3 upd_thread_def)
  then have st: "t_state (pok_threads s3 tid) = POK_STATE_STOPPED" "process_calls u ?a s3" "own_thread u tid s3"
    using assms(3,4)
    by (simp_all add: m3 upd_thread_def process_calls_def own_thread_def out_of_partition_def POK_CURRENT_PARTITION_def)
  have "umem u s2 x = umem u s x" if "x \<in> area (process_at ax pid) 4" for x
  proof -
    have "x \<notin> process_stack u ?a" using that assms(2) by (auto simp: process_place_def)
    then show ?thesis using m(2) s1(5) by (simp add: s2_def umem_def ubase_def upd_thread_def)
  qed
  then have "ld32 u s2 (process_at ax pid) = ?core" by (intro ld_cong(3) [of _ 4]) simp_all
  moreover have "area (process_at ax pid) 4 \<inter> area rcp 4 = {}" using assms(2) by (auto simp: process_place_def)
  ultimately have core: "ld32 u s3 (process_at ax pid) = ?core" by (simp add: s3_def ld_st32_apart)
  obtain s4 where s4: "RESUME u ax pid rcp s3 = Some s4" "ld32 u s4 rcp = return_code INVALID_MODE" "memory_change s3 s4"
    using resume_not_waiting [OF st(2), of pid rcp] st(1,3) core by (auto simp: tid_def)
  then have "t_state (pok_threads s4 tid) = POK_STATE_STOPPED" using st(1) by (auto simp: memory_change_def)
  then show ?thesis using susp st(1) s4 by (auto simp: s3_def)
qed

definition demo_process_state :: kstate where
  "demo_process_state = st32 demo_ucall 20996 2 demo_state"

theorem suspended_process_stays_stopped_witness:
  "\<exists>s1. SUSPEND demo_ucall demo_apex 1 1024 demo_process_state = Some s1 \<and> ld32 demo_ucall s1 1024 = 0 \<and>
     (\<exists>s2. RESUME demo_ucall demo_apex 1 1024 s1 = Some s2 \<and> ld32 demo_ucall s2 1024 = 5 \<and>
        t_state (pok_threads s2 2) = POK_STATE_STOPPED)"
proof -
  have p: "process_at demo_apex 1 = 20996" "ap_struct demo_apex = 1040" by (simp_all add: process_at_def demo_apex_def)
  have core: "ld32 demo_ucall demo_process_state 20996 = 2" by (simp add: demo_process_state_def)
  have "memory_change demo_state demo_process_state" by (simp add: demo_process_state_def)
  then obtain m where m: "demo_process_state = demo_state\<lparr>ks_mem := m\<rparr>" by (auto simp: memory_change_def)
  have "area 20996 4 \<inter> area 256 24 = {}" "area 20996 4 \<inter> area 1040 48 = {}" "area 20996 4 \<inter> area 1024 4 = {}"
    by (rule distance_disjoint; simp)+
  then have place: "process_place demo_ucall demo_apex 1 1024"
    by (simp add: process_place_def process_stack_def p Int_Un_distrib)
  have "in_program demo_ucall 256 SIZEOF_SYSCALL_ARGS demo_state" "in_program demo_ucall 1040 SIZEOF_THREAD_ATTR demo_state"
    by (rule demo_in_program; simp add: SIZEOF_SYSCALL_ARGS_def SIZEOF_THREAD_ATTR_def)+
  then have calls: "process_calls demo_ucall (ap_struct demo_apex) demo_process_state"
    by (simp add: m p) (simp add: process_calls_def demo_config_def)
  have "own_thread demo_ucall 2 demo_state"
    by (simp add: own_thread_def out_of_partition_def POK_CURRENT_PARTITION_def demo_partition_def demo_thread_def
        get_proc_partition_id_def demo_config_def)
  then have own: "own_thread demo_ucall 2 demo_process_state" by (simp add: m)
  have st: "t_state (pok_threads demo_process_state 2) \<in> {POK_STATE_RUNNABLE, POK_STATE_WAITING}"
    "t_period (pok_threads demo_process_state 2) \<noteq> INFINITE_TIME" "2 \<noteq> POK_SCHED_CURRENT_THREAD demo_process_state"
    by (simp_all add: m demo_thread_def INFINITE_TIME_def POK_SCHED_CURRENT_THREAD_def)
  show ?thesis
    using suspended_process_stays_stopped [OF place calls] own st by (auto simp: p core)
qed

subsection \<open>The times that reach the kernel\<close>

lemma st32_twice: "st32 u p w (st32 u p v s) = st32 u p w s"
  by (simp add: st32_def wr32_def mem_put_def ubase_def fun_eq_iff cong: if_cong)

text \<open>What a wait does with the answer of the kernel.\<close>

definition wait_answer :: "ucall \<Rightarrow> u32 \<Rightarrow> sys_result \<Rightarrow> kstate option" where
  "wait_answer u rcp r = map_option (\<lambda>(core_ret, s). set_rc u rcp
     (if core_ret = errno POK_ERRNO_OK then NO_ERROR else if core_ret = errno POK_ERRNO_TIMEOUT then TIMED_OUT
      else INVALID_PARAM) s) r"

lemma wait_semaphore_answer:
  assumes "sint sid \<le> int (POK_CONFIG_ARINC653_NB_SEMAPHORES ax)"
  shows "WAIT_SEMAPHORE u ax sid t rcp s =
    wait_answer u rcp (user_sem_wait u (ld8 u (CHECK_SEM_INIT u ax s) (sem_core_id ax sid)) (sem_timeout t) (CHECK_SEM_INIT u ax s))"
proof -
  have "errno POK_ERRNO_TIMEOUT \<noteq> errno POK_ERRNO_OK" by (simp add: errno_def)
  then show ?thesis
    using assms
    by (auto simp: WAIT_SEMAPHORE_def Let_def wait_answer_def set_rc_def st32_twice split: bind_split)
qed

lemma wait_event_answer:
  assumes "sint eid < int (POK_CONFIG_ARINC653_NB_EVENTS ax)"
    and "ld32 u (CHECK_EVENTS_INIT u ax (set_rc u rcp INVALID_PARAM s)) (event_layer_ready ax eid) \<noteq> 0"
  shows "WAIT_EVENT u ax eid t rcp s =
    wait_answer u rcp (user_event_wait u (ld16 u (CHECK_EVENTS_INIT u ax (set_rc u rcp INVALID_PARAM s)) (event_core_id ax eid)) t
      (CHECK_EVENTS_INIT u ax (set_rc u rcp INVALID_PARAM s)))"
  using assms by (auto simp: WAIT_EVENT_def Let_def wait_answer_def split: bind_split)

lemma lock_stack_memory: "memory_change s s' \<Longrightarrow> lock_stack u s' = lock_stack u s"
  by (auto simp: memory_change_def event_ready_updates)

lemma init_memory: "memory_change s (CHECK_SEM_INIT u ax s)" "memory_change s (CHECK_EVENTS_INIT u ax s)"
proof -
  have f: "memory_change s t \<Longrightarrow> memory_change s (fold (\<lambda>n s. st32 u (p n) 0 s) ns t)" for p :: "nat \<Rightarrow> u32" and ns s t
    by (induction ns arbitrary: t) (simp_all add: memory_change_st32)
  have r: "memory_change s s" by (auto simp: memory_change_def intro: exI [of _ "ks_mem s"])
  show "memory_change s (CHECK_SEM_INIT u ax s)" "memory_change s (CHECK_EVENTS_INIT u ax s)"
    by (simp_all add: CHECK_SEM_INIT_def CHECK_EVENTS_INIT_def memory_change_st32 f r)
qed

text \<open>The waits of ARINC are operations of the kernel's lock objects, with the answer translated: success, timeout, or a
  wrong parameter for anything else. The time, given in nanoseconds, reaches the semaphore rounded down to
  microseconds, so that a request not to wait at all, like one of less than a microsecond, becomes the time zero that
  also stands for waiting without a bound; and it reaches the event a thousand times too long, as it is taken for
  microseconds.\<close>

theorem wait_times_reach_kernel:
  assumes "lock_stack u s" "syscall_enabled (uc_config u) 202"
    and "sint sid \<le> int (POK_CONFIG_ARINC653_NB_SEMAPHORES ax)" "sint eid < int (POK_CONFIG_ARINC653_NB_EVENTS ax)"
    and "ld32 u (CHECK_EVENTS_INIT u ax (set_rc u rcp INVALID_PARAM s)) (event_layer_ready ax eid) \<noteq> 0"
  shows "(\<exists>s1 r. memory_change s s1 \<and> WAIT_SEMAPHORE u ax sid t rcp s = wait_answer u rcp r \<and>
      reaches_object u s1 r LOCKOBJ_OPERATION_LOCK POK_LOCKOBJ_KIND_SEMAPHORE
        (Some (if t = INFINITE_TIME \<or> t < 1000 then 0 else t - t mod 1000)) (unat (ld8 u s1 (sem_core_id ax sid)))) \<and>
    (\<exists>s1 r. memory_change s s1 \<and> WAIT_EVENT u ax eid t rcp s = wait_answer u rcp r \<and>
      reaches_object u s1 r LOCKOBJ_OPERATION_WAIT POK_LOCKOBJ_KIND_EVENT (Some (t * 1000))
        (unat (ld16 u s1 (event_core_id ax eid)) mod 256))"
proof -
  let ?s1 = "CHECK_SEM_INIT u ax s" and ?s2 = "CHECK_EVENTS_INIT u ax (set_rc u rcp INVALID_PARAM s)"
  have m: "memory_change s ?s1" "memory_change s ?s2"
    using init_memory memory_change_trans [OF _ init_memory(2)] by (simp_all add: set_rc_def)
  have i: "port_arg (ucast k) = unat k" "port_arg (ucast e) = unat e mod 256" for k :: u8 and e :: u16
    by (simp_all add: port_arg_def unsigned_ucast_eq take_bit_eq_mod unat_mod_distrib)
  have "sem_timeout t * 1000 = (if t = INFINITE_TIME \<or> t < 1000 then 0 else t - t mod 1000)"
  proof -
    have "t div 1000 * 1000 = t - t mod 1000" by (metis add_diff_cancel_right' div_mult_mod_eq)
    moreover have "t div 1000 = 0" if "t < 1000" using that by (rule div_word_less)
    ultimately show ?thesis by (simp add: sem_timeout_def)
  qed
  then have "reaches_object u ?s1 (user_sem_wait u (ld8 u ?s1 (sem_core_id ax sid)) (sem_timeout t) ?s1) LOCKOBJ_OPERATION_LOCK
      POK_LOCKOBJ_KIND_SEMAPHORE (Some (if t = INFINITE_TIME \<or> t < 1000 then 0 else t - t mod 1000))
      (unat (ld8 u ?s1 (sem_core_id ax sid)))"
    using lock_operation_reaches [of u ?s1 1 2 "Some (sem_timeout t * 1000)" "ucast (ld8 u ?s1 (sem_core_id ax sid))"]
      assms(1,2) lock_stack_memory [OF m(1)]
    by (simp add: user_sem_wait_def lock_operation_of_def lockobj_kind_of_def i)
  moreover have "reaches_object u ?s2 (user_event_wait u (ld16 u ?s2 (event_core_id ax eid)) t ?s2) LOCKOBJ_OPERATION_WAIT
      POK_LOCKOBJ_KIND_EVENT (Some (t * 1000)) (unat (ld16 u ?s2 (event_core_id ax eid)) mod 256)"
    using lock_operation_reaches [of u ?s2 3 3 "Some (t * 1000)" "ucast (ld16 u ?s2 (event_core_id ax eid))"]
      assms(1,2) lock_stack_memory [OF m(2)]
    by (simp add: user_event_wait_def lock_operation_of_def lockobj_kind_of_def i)
  ultimately show ?thesis
    using m wait_semaphore_answer [OF assms(3)] wait_event_answer [OF assms(4,5)] by blast
qed

definition demo_event_layer :: kstate where
  "demo_event_layer = st32 demo_ucall 20812 1 (st32 demo_ucall 20736 1 demo_state)"

theorem wait_times_reach_kernel_witness:
  "(\<exists>s1 r. WAIT_SEMAPHORE demo_ucall demo_apex 1 999 1024 demo_event_layer = wait_answer demo_ucall 1024 r \<and>
      reaches_object demo_ucall s1 r LOCKOBJ_OPERATION_LOCK POK_LOCKOBJ_KIND_SEMAPHORE (Some 0)
        (unat (ld8 demo_ucall s1 20556))) \<and>
   (\<exists>s1 r. WAIT_EVENT demo_ucall demo_apex 1 999 1024 demo_event_layer = wait_answer demo_ucall 1024 r \<and>
      reaches_object demo_ucall s1 r LOCKOBJ_OPERATION_WAIT POK_LOCKOBJ_KIND_EVENT (Some 999000)
        (unat (ld16 demo_ucall s1 20808) mod 256))"
proof -
  have p: "sem_core_id demo_apex 1 = 20556" "event_core_id demo_apex 1 = 20808" "event_layer_ready demo_apex 1 = 20812"
    "pok_arinc653_events_initialized demo_apex = 20736"
    by (simp_all add: sem_core_id_def event_core_id_def event_layer_ready_def demo_apex_def)
  have d: "area 20736 4 \<inter> area 1024 4 = {}" "area 20812 4 \<inter> area 1024 4 = {}" "area 20812 4 \<inter> area 20736 4 = {}"
    "area 20736 4 \<inter> area 20812 4 = {}"
    by (rule distance_disjoint; simp)+
  let ?s = "set_rc demo_ucall 1024 INVALID_PARAM demo_event_layer"
  have "ld32 demo_ucall ?s 20736 = 1" "ld32 demo_ucall ?s 20812 = 1"
    by (simp_all add: set_rc_def ld_st32_apart(2) [OF d(1)] ld_st32_apart(2) [OF d(2)] ld_st32_apart(2) [OF d(4)] demo_event_layer_def)
  then have r: "ld32 demo_ucall (CHECK_EVENTS_INIT demo_ucall demo_apex ?s) (event_layer_ready demo_apex 1) \<noteq> 0"
    by (simp add: CHECK_EVENTS_INIT_def p ld_st32_apart(2) [OF d(3)])
  have "memory_change demo_state demo_event_layer" by (simp add: demo_event_layer_def memory_change_st32)
  moreover have "lock_stack demo_ucall demo_state"
    using demo_in_program [of 256 SIZEOF_SYSCALL_ARGS] demo_in_program [of 512 SIZEOF_LOCKOBJ_ATTR]
    by (simp add: lock_stack_def SIZEOF_SYSCALL_ARGS_def SIZEOF_LOCKOBJ_ATTR_def apart_def)
  ultimately have l: "lock_stack demo_ucall demo_event_layer" by (simp add: lock_stack_memory)
  have en: "syscall_enabled (uc_config demo_ucall) 202" by (simp add: demo_config_def)
  have b: "sint (1 :: u32) \<le> int (POK_CONFIG_ARINC653_NB_SEMAPHORES demo_apex)"
    "sint (1 :: u32) < int (POK_CONFIG_ARINC653_NB_EVENTS demo_apex)"
    by (simp_all add: demo_apex_def)
  show ?thesis using wait_times_reach_kernel [OF l en b r, of 999] unfolding p by auto
qed

end
