(* ===== verification/Pok_Words.thy ===== *)
theory Pok_Words
  imports Pok_Prelude
begin

text \<open>
  Words of fixed width as numbers: shifts as divisions, masks as remainders, and disjoint bits that are joined as a sum.
  Shared by the ports to other processors and the network driver.
\<close>

unbundle bit_operations_syntax

lemma unat_small32: "unat (w :: u32) < 4294967296"
  by (rule order_less_le_trans [OF unsigned_less]) simp

lemma unat_wide16 [simp]: "unat (ucast (w :: u16) :: u32) = unat w"
  by transfer (simp add: take_bit_take_bit min_def)

lemma or_low_bits:
  assumes "unat x mod 2 ^ k = 0" and "unat y < 2 ^ k"
  shows "unat (x OR y :: u32) = unat x + unat y"
proof -
  have x: "take_bit k (unat x) = 0" and y: "take_bit k (unat y) = unat y"
    using assms by (simp_all add: take_bit_eq_mod)
  have "\<not> bit (unat x) i \<or> \<not> bit (unat y) i" for i
    using arg_cong [OF x, of "\<lambda>z. bit z i"] arg_cong [OF y, of "\<lambda>z. bit z i"] by (auto simp: bit_take_bit_iff)
  then have "unat x OR unat y = unat x + unat y" by (simp add: disjunctive_add)
  then show ?thesis by (simp add: unsigned_or_eq)
qed

lemma unat_shift: "unat (drop_bit k x :: u32) = unat x div 2 ^ k"
proof -
  have "unat x < 2 ^ LENGTH(32)" by (rule unsigned_less)
  then have "take_bit LENGTH(32) (unat x) = unat x" by (rule take_bit_nat_eq_self)
  then show ?thesis by (simp only: unsigned_drop_bit_eq) (simp add: drop_bit_eq_div)
qed

lemma or_low_add:
  assumes "unat x mod 2 ^ k = 0" and "unat y < 2 ^ k"
  shows "x OR y = (x + y :: u32)"
proof -
  have u: "unat (x OR y) = unat x + unat y" using assms by (rule or_low_bits)
  then have "unat x + unat y < 4294967296" using unat_small32 [of "x OR y"] by simp
  then have "unat (x + y) = unat (x OR y)" using u by (simp add: unat_word_ariths)
  then have "x + y = x OR y" by (rule unsigned_word_eqI)
  then show ?thesis by simp
qed

lemma unat_and_mask: "unat (x AND mask n :: u32) = unat x mod 2 ^ n"
proof -
  have "unat (x AND mask n) = unat (take_bit n x)" by (simp only: take_bit_eq_mask)
  also have "\<dots> = take_bit n (unat x)" by (rule unsigned_take_bit_eq)
  finally show ?thesis by (simp only: take_bit_eq_mod)
qed

lemma unat_and_not_mask: "unat (x AND NOT (mask n) :: u32) = unat x - unat x mod 2 ^ n"
proof -
  have "(x AND NOT (mask n)) + (x AND mask n) = (x AND NOT (mask n)) OR (x AND mask n)"
    by (rule disjunctive_add) (simp add: bit_simps)
  also have "\<dots> = x" by (rule bit_eqI) (auto simp: bit_simps)
  finally have "x AND NOT (mask n) = x - (x AND mask n)" by (simp add: algebra_simps)
  moreover have "x AND mask n \<le> x" by (rule word_and_le2)
  ultimately show ?thesis by (simp add: unat_sub unat_and_mask)
qed

end
