(* ===== verification/Pok_Network.thy ===== *)
theory Pok_Network
  imports Pok_Syscall Pok_Words
begin

text \<open>
  The PCI bus (\<open>kernel/arch/x86/pci.c\<close>) and the network card (\<open>kernel/drivers/rtl8029.c\<close>), with the system calls that
  reach them. The hardware behind the ports is a parameter: a state of any type, and what reading and writing a port
  does to it. The data of the driver, its queue of bytes for each port and the number of waiting messages, are the
  record \<open>s_ne2000_dev\<close>; the data of the programs are in the memory of the kernel's state. The variable with the length
  of a frame, which the driver uses and does not declare, is taken for a \<open>size_t\<close>.
\<close>

unbundle bit_operations_syntax

subsection \<open>The hardware and the configuration\<close>

record 'd nic =
  hw_inb :: "u16 \<Rightarrow> 'd \<Rightarrow> u8 \<times> 'd"
  hw_outb :: "u16 \<Rightarrow> u8 \<Rightarrow> 'd \<Rightarrow> 'd"
  hw_inl :: "u16 \<Rightarrow> 'd \<Rightarrow> u32 \<times> 'd"
  hw_outl :: "u16 \<Rightarrow> u32 \<Rightarrow> 'd \<Rightarrow> 'd"
  RECV_BUF_SZ :: nat
  NB_INPUT_VIRTUALPORT :: nat
  NB_GLOBAL_PORTS :: nat
  invalid_local_port :: nat
  NIC_NEEDS_MAC_ADDR :: bool
  pci_handler :: u32
  nic_junk :: "nat \<Rightarrow> u8"

text \<open>Ports have 16 bits.\<close>

definition nic_in :: "'d nic \<Rightarrow> u32 \<Rightarrow> 'd \<Rightarrow> u8 \<times> 'd" where "nic_in hw p = hw_inb hw (ucast p)"
definition nic_out :: "'d nic \<Rightarrow> u32 \<Rightarrow> u8 \<Rightarrow> 'd \<Rightarrow> 'd" where "nic_out hw p = hw_outb hw (ucast p)"

subsection \<open>The PCI bus\<close>

record s_pci_device =
  pci_bus :: u16
  pci_dev :: u16
  pci_fun :: u16
  pci_vendorid :: u16
  pci_deviceid :: u16
  pci_irq_line :: u16
  pci_io_range :: u16
  pci_bar0 :: u32

definition PCI_CONFIG_ADDRESS :: u16 where "PCI_CONFIG_ADDRESS = 0xCF8"
definition PCI_CONFIG_DATA :: u16 where "PCI_CONFIG_DATA = 0xCFC"
definition PCI_REG_VENDORID :: u32 where "PCI_REG_VENDORID = 0x00"
definition PCI_REG_DEVICEID :: u32 where "PCI_REG_DEVICEID = 0x02"
definition PCI_REG_HEADERTYPE :: u32 where "PCI_REG_HEADERTYPE = 0x0E"
definition PCI_REG_BAR0 :: u32 where "PCI_REG_BAR0 = 0x10"
definition PCI_REG_IRQLINE :: u32 where "PCI_REG_IRQLINE = 0x3C"
definition PCI_BUS_MAX :: nat where "PCI_BUS_MAX = 8"
definition PCI_DEV_MAX :: nat where "PCI_DEV_MAX = 32"
definition PCI_FUN_MAX :: nat where "PCI_FUN_MAX = 8"

definition pci_address :: "u32 \<Rightarrow> u32 \<Rightarrow> u32 \<Rightarrow> u32 \<Rightarrow> u32" where
  "pci_address bus dev fn reg =
     push_bit 31 1 OR push_bit 16 bus OR push_bit 11 dev OR push_bit 8 fn OR (reg AND 0xfc)"

definition pci_read :: "'d nic \<Rightarrow> u32 \<Rightarrow> u32 \<Rightarrow> u32 \<Rightarrow> u32 \<Rightarrow> 'd \<Rightarrow> u32 \<times> 'd" where
  "pci_read hw bus dev fn reg d =
     (case hw_inl hw PCI_CONFIG_DATA (hw_outl hw PCI_CONFIG_ADDRESS (pci_address bus dev fn reg) d) of
        (val, d1) \<Rightarrow> (drop_bit (8 * unat (reg AND 3)) val, d1))"

definition pci_read_reg :: "'d nic \<Rightarrow> s_pci_device \<Rightarrow> u32 \<Rightarrow> 'd \<Rightarrow> u32 \<times> 'd" where
  "pci_read_reg hw p reg = pci_read hw (ucast (pci_bus p)) (ucast (pci_dev p)) (ucast (pci_fun p)) reg"

text \<open>The functions of the bus in the order of the search.\<close>

definition pci_functions :: "(nat \<times> nat \<times> nat) list" where
  "pci_functions = concat (map (\<lambda>b. concat (map (\<lambda>d. map (\<lambda>f. (b, d, f)) [0..<PCI_FUN_MAX]) [0..<PCI_DEV_MAX])) [0..<PCI_BUS_MAX])"

fun pci_open_loop :: "'d nic \<Rightarrow> s_pci_device \<Rightarrow> (nat \<times> nat \<times> nat) list \<Rightarrow> 'd \<Rightarrow> s_pci_device option \<times> 'd" where
  "pci_open_loop hw p [] d = (None, d)"
| "pci_open_loop hw p ((b, dv, f) # fs) d =
     (let bus = of_nat b; dev = of_nat dv; fn = of_nat f in
      case pci_read hw bus dev fn PCI_REG_VENDORID d of (v, d1) \<Rightarrow>
      if ucast v \<noteq> pci_vendorid p then pci_open_loop hw p fs d1
      else case pci_read hw bus dev fn PCI_REG_DEVICEID d1 of (i, d2) \<Rightarrow>
      if ucast i \<noteq> pci_deviceid p then pci_open_loop hw p fs d2
      else case pci_read hw bus dev fn PCI_REG_HEADERTYPE d2 of (h, d3) \<Rightarrow>
      if h \<noteq> 0 then pci_open_loop hw p fs d3
      else let p1 = p\<lparr>pci_bus := of_nat b, pci_dev := of_nat dv, pci_fun := of_nat f\<rparr> in
      case pci_read hw bus dev fn PCI_REG_BAR0 d3 of (bar, d4) \<Rightarrow>
      case pci_read_reg hw p1 PCI_REG_IRQLINE d4 of (irq, d5) \<Rightarrow>
      (Some (p1\<lparr>pci_bar0 := bar, pci_irq_line := ucast (ucast irq :: u8)\<rparr>), d5))"

definition pci_open :: "'d nic \<Rightarrow> s_pci_device \<Rightarrow> 'd \<Rightarrow> s_pci_device option \<times> 'd" where
  "pci_open hw p d = pci_open_loop hw p pci_functions d"

subsection \<open>The state of the driver\<close>

record pok_queue_t_net =
  nq_len :: u32
  nq_off :: u32
  nq_data :: "nat \<Rightarrow> u8"

record s_ne2000_dev =
  ne_pci :: s_pci_device
  ne_addr :: u32
  ne_mac :: "nat \<Rightarrow> u8"
  ne_recv_buf :: "nat \<Rightarrow> pok_queue_t_net"
  ne_msg_nb :: u32

text \<open>With the hardware, the kernel, the table of interrupts, and the flag of the initialisation.\<close>

record 'd netstate =
  ns_card :: 'd
  ns_dev :: s_ne2000_dev
  ns_kernel :: kstate
  ns_idt :: idt
  ns_init :: bool

text \<open>The selector of the gate is the index of the segment, where other gates have it shifted by three bits. A failure
  is the code \<open>-1\<close>.\<close>

definition pci_register :: "'d nic \<Rightarrow> s_pci_device \<Rightarrow> nat \<Rightarrow> 'd netstate \<Rightarrow> bool \<times> s_pci_device \<times> 'd netstate" where
  "pci_register hw p part_id s =
     (case pci_open hw p (ns_card s) of
        (None, d) \<Rightarrow> (False, p, s\<lparr>ns_card := d\<rparr>)
      | (Some p1, d) \<Rightarrow>
          let io = ucast (pci_bar0 p1 AND NOT 0x1F);
              part = pok_partitions (ns_kernel s) part_id
          in (True, p1, s\<lparr>ns_card := d,
                ns_kernel := (ns_kernel s)\<lparr>pok_partitions := (pok_partitions (ns_kernel s))(part_id :=
                  part\<lparr>p_io_min := io, p_io_max := io + pci_io_range p1\<rparr>)\<rparr>,
                ns_idt := pok_idt_set_gate (32 + unat (pci_irq_line p1)) (of_nat GDT_CORE_CODE_SEGMENT) (pci_handler hw)
                  IDTE_INTERRUPT 0 (ns_idt s)\<rparr>))"

subsection \<open>The registers of the card\<close>

definition NE2000_CR :: u32 where "NE2000_CR = 0x00"
definition NE2000_CR_STP :: u8 where "NE2000_CR_STP = 0x01"
definition NE2000_CR_STA :: u8 where "NE2000_CR_STA = 0x02"
definition NE2000_CR_TXP :: u8 where "NE2000_CR_TXP = 0x04"
definition NE2000_CR_RD0 :: u8 where "NE2000_CR_RD0 = 0x08"
definition NE2000_CR_RD1 :: u8 where "NE2000_CR_RD1 = 0x10"
definition NE2000_CR_RD2 :: u8 where "NE2000_CR_RD2 = 0x20"
definition NE2000_CR_PS0 :: u8 where "NE2000_CR_PS0 = 0x40"
definition NE2000_CR_PS1 :: u8 where "NE2000_CR_PS1 = 0x80"
definition NE2000_ISR :: u32 where "NE2000_ISR = 0x07"
definition NE2000_ISR_PRX :: u8 where "NE2000_ISR_PRX = 0x01"
definition NE2000_ISR_PTX :: u8 where "NE2000_ISR_PTX = 0x02"
definition NE2000_ISR_RXE :: u8 where "NE2000_ISR_RXE = 0x04"
definition NE2000_ISR_TXE :: u8 where "NE2000_ISR_TXE = 0x08"
definition NE2000_ISR_OVW :: u8 where "NE2000_ISR_OVW = 0x10"
definition NE2000_ISR_CNT :: u8 where "NE2000_ISR_CNT = 0x20"
definition NE2000_ISR_RDC :: u8 where "NE2000_ISR_RDC = 0x40"
definition NE2000_ISR_RST :: u8 where "NE2000_ISR_RST = 0x80"
definition NE2000_DCR :: u32 where "NE2000_DCR = 0x0E"
definition NE2000_DCR_LS :: u8 where "NE2000_DCR_LS = 0x08"
definition NE2000_DCR_FT1 :: u8 where "NE2000_DCR_FT1 = 0x40"
definition NE2000_RCR :: u32 where "NE2000_RCR = 0x0C"
definition NE2000_RCR_AB :: u8 where "NE2000_RCR_AB = 0x04"
definition NE2000_RSR :: u32 where "NE2000_RSR = 0x0C"
definition NE2000_IMR :: u32 where "NE2000_IMR = 0x0F"
definition NE2000_PSTART :: u32 where "NE2000_PSTART = 0x01"
definition NE2000_PSTOP :: u32 where "NE2000_PSTOP = 0x02"
definition NE2000_BNRY :: u32 where "NE2000_BNRY = 0x03"
definition NE2000_TPSR :: u32 where "NE2000_TPSR = 0x04"
definition NE2000_TCR :: u32 where "NE2000_TCR = 0x0D"
definition NE2000_CURR :: u32 where "NE2000_CURR = 0x07"
definition NE2000_TBCR0 :: u32 where "NE2000_TBCR0 = 0x05"
definition NE2000_TBCR1 :: u32 where "NE2000_TBCR1 = 0x06"
definition NE2000_RSAR0 :: u32 where "NE2000_RSAR0 = 0x08"
definition NE2000_RSAR1 :: u32 where "NE2000_RSAR1 = 0x09"
definition NE2000_RBCR0 :: u32 where "NE2000_RBCR0 = 0x0A"
definition NE2000_RBCR1 :: u32 where "NE2000_RBCR1 = 0x0B"
definition NE2000_PAR0 :: u32 where "NE2000_PAR0 = 0x01"
definition NE2000_DMA_PORT :: u32 where "NE2000_DMA_PORT = 0x10"
definition NE2000_MEMSZ :: u8 where "NE2000_MEMSZ = 128"
definition NE2000_TXBUF :: u8 where "NE2000_TXBUF = 64"
definition NE2000_RXBUF :: u8 where "NE2000_RXBUF = 72"

definition ETH_DATA_MAXLEN :: u32 where "ETH_DATA_MAXLEN = 1500"
definition ETH_DATA_MINLEN :: u32 where "ETH_DATA_MINLEN = 46"
definition SIZEOF_ETH_HDR :: u32 where "SIZEOF_ETH_HDR = 14"
definition SIZEOF_UDP_HDR :: u32 where "SIZEOF_UDP_HDR = 8"
definition NET_DATA_MAXLEN :: u32 where "NET_DATA_MAXLEN = ETH_DATA_MAXLEN - SIZEOF_UDP_HDR"
definition NET_DATA_MINLEN :: u32 where "NET_DATA_MINLEN = ETH_DATA_MINLEN - SIZEOF_UDP_HDR"
definition SIZEOF_PACKET :: nat where "SIZEOF_PACKET = 1514"

subsection \<open>Talking to the card\<close>

text \<open>The command register is read, some of its bits are cleared and others set.\<close>

definition cr_update :: "'d nic \<Rightarrow> s_ne2000_dev \<Rightarrow> u8 \<Rightarrow> u8 \<Rightarrow> 'd \<Rightarrow> 'd" where
  "cr_update hw dev cleared added d =
     (case nic_in hw (ne_addr dev + NE2000_CR) d of
        (cr, d1) \<Rightarrow> nic_out hw (ne_addr dev) ((cr AND NOT cleared) OR added) d1)"

definition NE2000_SELECT_PAGE :: "'d nic \<Rightarrow> s_ne2000_dev \<Rightarrow> u8 \<Rightarrow> 'd \<Rightarrow> 'd" where
  "NE2000_SELECT_PAGE hw dev page = cr_update hw dev (NE2000_CR_PS0 OR NE2000_CR_PS1) (push_bit 6 page)"

text \<open>The registers of a remote transfer: address and number of bytes.\<close>

definition remote_setup :: "'d nic \<Rightarrow> s_ne2000_dev \<Rightarrow> u16 \<Rightarrow> u16 \<Rightarrow> 'd \<Rightarrow> 'd" where
  "remote_setup hw dev cnt offset d =
     (let r = nic_out hw;
          d1 = cr_update hw dev (NE2000_CR_RD0 OR NE2000_CR_RD1) NE2000_CR_RD2 d;
          d2 = r (ne_addr dev + NE2000_RSAR0) (ucast offset) d1;
          d3 = r (ne_addr dev + NE2000_RSAR1) (ucast (drop_bit 8 offset)) d2;
          d4 = r (ne_addr dev + NE2000_RBCR0) (ucast cnt) d3
      in r (ne_addr dev + NE2000_RBCR1) (ucast (drop_bit 8 cnt)) d4)"

definition ne2000_write :: "'d nic \<Rightarrow> s_ne2000_dev \<Rightarrow> (nat \<Rightarrow> u8) \<Rightarrow> u16 \<Rightarrow> u16 \<Rightarrow> 'd \<Rightarrow> 'd" where
  "ne2000_write hw dev buf cnt offset d =
     fold (\<lambda>i. nic_out hw (ne_addr dev + NE2000_DMA_PORT) (buf i)) [0..<unat cnt]
       (cr_update hw dev (NE2000_CR_RD0 OR NE2000_CR_RD2) NE2000_CR_RD1 (remote_setup hw dev cnt offset d))"

fun ne2000_read_loop :: "'d nic \<Rightarrow> s_ne2000_dev \<Rightarrow> nat \<Rightarrow> 'd \<Rightarrow> u8 list \<times> 'd" where
  "ne2000_read_loop hw dev 0 d = ([], d)"
| "ne2000_read_loop hw dev (Suc n) d =
     (case nic_in hw (ne_addr dev + NE2000_DMA_PORT) d of (b, d1) \<Rightarrow>
      case ne2000_read_loop hw dev n d1 of (bs, d2) \<Rightarrow> (b # bs, d2))"

definition ne2000_read :: "'d nic \<Rightarrow> s_ne2000_dev \<Rightarrow> u16 \<Rightarrow> u16 \<Rightarrow> 'd \<Rightarrow> u8 list \<times> 'd" where
  "ne2000_read hw dev cnt offset d =
     ne2000_read_loop hw dev (unat cnt)
       (cr_update hw dev (NE2000_CR_RD1 OR NE2000_CR_RD2) NE2000_CR_RD0 (remote_setup hw dev cnt offset d))"

subsection \<open>The queues of the ports\<close>

text \<open>The fields of a packet: ports and length at 14, 16 and 18, data from 22 on.\<close>

definition packet16 :: "(nat \<Rightarrow> u8) \<Rightarrow> nat \<Rightarrow> u16" where
  "packet16 packet i = ucast (packet i) + 256 * ucast (packet (i + 1))"

definition udp_dst :: "(nat \<Rightarrow> u8) \<Rightarrow> u16" where "udp_dst packet = packet16 packet 16"
definition udp_len :: "(nat \<Rightarrow> u8) \<Rightarrow> u16" where "udp_len packet = packet16 packet 18"

definition enqueue_step :: "'d nic \<Rightarrow> (nat \<Rightarrow> u8) \<Rightarrow> nat \<Rightarrow> (nat \<Rightarrow> u8) \<times> nat \<Rightarrow> (nat \<Rightarrow> u8) \<times> nat" where
  "enqueue_step hw packet i st = (case st of (q, off) \<Rightarrow> (q(off := packet (22 + i)), (off + 1) mod RECV_BUF_SZ hw))"

definition queue_append :: "'d nic \<Rightarrow> (nat \<Rightarrow> u8) \<Rightarrow> pok_queue_t_net \<Rightarrow> pok_queue_t_net" where
  "queue_append hw packet q =
     (let off = unat (nq_off q + nq_len q) mod RECV_BUF_SZ hw
      in q\<lparr>nq_data := fst (fold (enqueue_step hw packet) [0..<unat (udp_len packet)] (nq_data q, off)),
           nq_len := nq_len q + ucast (udp_len packet)\<rparr>)"

text \<open>A destination without an entry in the table of ports, and a port without a queue, are accesses outside of them.\<close>

definition rtl8029_enqueue :: "pok_config \<Rightarrow> 'd nic \<Rightarrow> (nat \<Rightarrow> u8) \<Rightarrow> s_ne2000_dev \<Rightarrow> s_ne2000_dev option" where
  "rtl8029_enqueue c hw packet dev = do {
     kassert (unat (udp_dst packet) < NB_GLOBAL_PORTS hw);
     let port = pok_global_ports_to_local_ports c (unat (udp_dst packet));
     kassert (port < NB_INPUT_VIRTUALPORT hw);
     let q = ne_recv_buf dev port;
     if nq_len q + ucast (udp_len packet) > of_nat (RECV_BUF_SZ hw) then Some dev
     else Some (dev\<lparr>ne_recv_buf := (ne_recv_buf dev)(port := queue_append hw packet q), ne_msg_nb := ne_msg_nb dev + 1\<rparr>)
   }"

text \<open>The bytes are stored in the memory of the program, at the address it gave.\<close>

definition dequeue_step :: "'d nic \<Rightarrow> u32 \<Rightarrow> nat \<Rightarrow> kstate \<times> pok_queue_t_net \<Rightarrow> kstate \<times> pok_queue_t_net" where
  "dequeue_step hw dest copied st = (case st of (s, q) \<Rightarrow>
     (wr8 (dest + of_nat (copied mod RECV_BUF_SZ hw)) (nq_data q (unat (nq_off q))) s,
      q\<lparr>nq_off := (nq_off q + 1) mod of_nat (RECV_BUF_SZ hw)\<rparr>))"

definition queue_take :: "'d nic \<Rightarrow> u32 \<Rightarrow> u32 \<Rightarrow> kstate \<Rightarrow> pok_queue_t_net \<Rightarrow> kstate \<times> pok_queue_t_net" where
  "queue_take hw dest n s q =
     (case fold (dequeue_step hw dest) [0..<unat n] (s, q) of (s1, q1) \<Rightarrow> (s1, q1\<lparr>nq_len := nq_len q1 - n\<rparr>))"

definition rtl8029_read :: "'d nic \<Rightarrow> nat \<Rightarrow> u32 \<Rightarrow> u32 \<Rightarrow> 'd netstate \<Rightarrow> 'd netstate option" where
  "rtl8029_read hw port data n s = do {
     kassert (port < NB_INPUT_VIRTUALPORT hw);
     let q = ne_recv_buf (ns_dev s) port;
     if nq_len q = 0 then Some s
     else case queue_take hw data (if n < nq_len q then n else nq_len q) (ns_kernel s) q of (k, q1) \<Rightarrow>
       Some (s\<lparr>ns_kernel := k, ns_dev := (ns_dev s)\<lparr>ne_recv_buf := (ne_recv_buf (ns_dev s))(port := q1)\<rparr>\<rparr>)
   }"

subsection \<open>Receiving\<close>

text \<open>The first page to read, and the page the card writes to next.\<close>

definition ring_pages :: "'d nic \<Rightarrow> s_ne2000_dev \<Rightarrow> 'd \<Rightarrow> u8 \<times> u8 \<times> 'd" where
  "ring_pages hw dev d =
     (case nic_in hw (ne_addr dev + NE2000_BNRY) d of (bnry, d1) \<Rightarrow>
      case nic_in hw (ne_addr dev + NE2000_CURR) (NE2000_SELECT_PAGE hw dev 1 d1) of (page, d2) \<Rightarrow>
      (bnry + 1, page, NE2000_SELECT_PAGE hw dev 0 d2))"

definition ring_empty :: "u8 \<Rightarrow> u8 \<Rightarrow> bool" where
  "ring_empty start pend = (unat pend mod unat NE2000_MEMSZ = unat start mod unat NE2000_MEMSZ + 1)"

text \<open>The header of the card: status, next page, and size (with the header). A packet larger than the buffer on the
  kernel's stack is written behind it.\<close>

definition receive_packet ::
  "'d nic \<Rightarrow> s_ne2000_dev \<Rightarrow> u8 \<Rightarrow> (nat \<Rightarrow> u8) \<Rightarrow> 'd \<Rightarrow> (u8 \<times> (nat \<Rightarrow> u8) \<times> 'd) option" where
  "receive_packet hw dev start packet d =
     (let offset = push_bit 8 (ucast start :: u16) in
      case ne2000_read hw dev 4 offset d of (hdr, d1) \<Rightarrow>
      let n = ucast (hdr ! 2) + 256 * ucast (hdr ! 3) - 4 :: u16 in do {
        kassert (unat n \<le> SIZEOF_PACKET);
        case ne2000_read hw dev n (offset + 4) d1 of (bs, d2) \<Rightarrow>
          Some (hdr ! 1, (\<lambda>i. if i < length bs then bs ! i else packet i), d2)
      })"

definition next_boundary :: "u8 \<Rightarrow> u8" where
  "next_boundary nxt = (if nxt > NE2000_MEMSZ then NE2000_RXBUF - 1 else nxt - 1)"

partial_function (option) poll_loop ::
  "pok_config \<Rightarrow> 'd nic \<Rightarrow> (nat \<Rightarrow> u8) \<Rightarrow> s_ne2000_dev \<Rightarrow> 'd \<Rightarrow> (s_ne2000_dev \<times> 'd) option" where
  "poll_loop c hw packet dev d =
     (case ring_pages hw dev d of (start, pend, d1) \<Rightarrow>
      if ring_empty start pend then Some (dev, nic_out hw (ne_addr dev + NE2000_ISR) NE2000_ISR_PRX d1)
      else Option.bind (receive_packet hw dev start packet d1) (\<lambda>(nxt, packet1, d2).
           Option.bind (rtl8029_enqueue c hw packet1 dev) (\<lambda>dev1.
             poll_loop c hw packet1 dev1 (nic_out hw (ne_addr dev1 + NE2000_BNRY) (next_boundary nxt) d2))))"

definition rtl8029_poll :: "pok_config \<Rightarrow> 'd nic \<Rightarrow> 'd netstate \<Rightarrow> 'd netstate option" where
  "rtl8029_poll c hw s =
     (let dev = ns_dev s in
      case nic_in hw (ne_addr dev + NE2000_ISR) (NE2000_SELECT_PAGE hw dev 0 (ns_card s)) of (state, d1) \<Rightarrow>
      if (state AND NE2000_ISR_PRX) = 0 then Some (s\<lparr>ns_card := d1\<rparr>)
      else case nic_in hw (ne_addr dev + NE2000_RSR) d1 of (rsr, d2) \<Rightarrow> do {
        (dev1, d3) \<leftarrow> poll_loop c hw (nic_junk hw) dev d2;
        Some (s\<lparr>ns_dev := dev1, ns_card := nic_out hw (ne_addr dev1 + NE2000_ISR) NE2000_ISR_PRX d3\<rparr>)
      })"

text \<open>The other polling loop leaves at a packet for an unknown port, and does not clear the flag.\<close>

partial_function (option) poll_loop_valid ::
  "pok_config \<Rightarrow> 'd nic \<Rightarrow> (nat \<Rightarrow> u8) \<Rightarrow> s_ne2000_dev \<Rightarrow> 'd \<Rightarrow> (s_ne2000_dev \<times> 'd) option" where
  "poll_loop_valid c hw packet dev d =
     (case ring_pages hw dev d of (start, pend, d1) \<Rightarrow>
      if ring_empty start pend then Some (dev, d1)
      else Option.bind (receive_packet hw dev start packet d1) (\<lambda>(nxt, packet1, d2).
           if \<not> unat (udp_dst packet1) < NB_GLOBAL_PORTS hw then None
           else if pok_global_ports_to_local_ports c (unat (udp_dst packet1)) = invalid_local_port hw
           then Some (dev, nic_out hw (ne_addr dev + NE2000_BNRY) (next_boundary nxt) d2)
           else Option.bind (rtl8029_enqueue c hw packet1 dev) (\<lambda>dev1.
             poll_loop_valid c hw packet1 dev1 (nic_out hw (ne_addr dev1 + NE2000_BNRY) (next_boundary nxt) d2))))"

definition rtl8029_poll_and_read :: "pok_config \<Rightarrow> 'd nic \<Rightarrow> nat \<Rightarrow> u32 \<Rightarrow> u32 \<Rightarrow> 'd netstate \<Rightarrow> 'd netstate option" where
  "rtl8029_poll_and_read c hw port data n s =
     (let dev = ns_dev s in
      case nic_in hw (ne_addr dev + NE2000_ISR) (NE2000_SELECT_PAGE hw dev 0 (ns_card s)) of (state, d1) \<Rightarrow> do {
        (dev1, d2) \<leftarrow> (if (state AND NE2000_ISR_PRX) = 0 then Some (dev, d1)
          else case nic_in hw (ne_addr dev + NE2000_RSR) d1 of (rsr, d2) \<Rightarrow> poll_loop_valid c hw (nic_junk hw) dev d2);
        kassert (port < NB_INPUT_VIRTUALPORT hw);
        let q = ne_recv_buf dev1 port;
        let s1 = s\<lparr>ns_dev := dev1, ns_card := d2\<rparr>;
        let clear = (\<lambda>t. t\<lparr>ns_card := nic_out hw (ne_addr dev1 + NE2000_ISR) NE2000_ISR_PRX (ns_card t)\<rparr>);
        if ne_msg_nb dev1 = 0 then Some (clear s1)
        else if nq_len q = 0 then Some s1
        else case queue_take hw data (if n < nq_len q then n else nq_len q) (ns_kernel s) q of (k, q1) \<Rightarrow>
          let dev2 = dev1\<lparr>ne_recv_buf := (ne_recv_buf dev1)(port := q1), ne_msg_nb := ne_msg_nb dev1 - 1\<rparr>;
              s2 = s1\<lparr>ns_kernel := k, ns_dev := dev2\<rparr>
          in Some (if ne_msg_nb dev2 = 0 then clear s2 else s2)
      })"

subsection \<open>Sending\<close>

text \<open>How much of the rest of a message goes into a packet, and the length of the frame: short packets are padded, long
  messages are cut.\<close>

definition fragment :: "u32 \<Rightarrow> u32 \<times> u32" where
  "fragment msg_len =
     (if msg_len \<le> NET_DATA_MINLEN then (msg_len, ETH_DATA_MINLEN + SIZEOF_ETH_HDR)
      else if msg_len \<ge> NET_DATA_MAXLEN then (NET_DATA_MAXLEN, ETH_DATA_MAXLEN + SIZEOF_ETH_HDR)
      else (msg_len, SIZEOF_ETH_HDR + SIZEOF_UDP_HDR + msg_len))"

definition put16 :: "nat \<Rightarrow> u16 \<Rightarrow> (nat \<Rightarrow> u8) \<Rightarrow> (nat \<Rightarrow> u8)" where
  "put16 i w packet = packet(i := ucast w, i + 1 := ucast (drop_bit 8 w))"

text \<open>The card is asked until it has taken the packet.\<close>

partial_function (option) wait_remote :: "'d nic \<Rightarrow> s_ne2000_dev \<Rightarrow> 'd \<Rightarrow> 'd option" where
  "wait_remote hw dev d =
     (case nic_in hw (ne_addr dev + NE2000_ISR) d of (state, d1) \<Rightarrow>
      if (state AND NE2000_ISR_RDC) \<noteq> NE2000_ISR_RDC then wait_remote hw dev d1 else Some d1)"

definition transmit :: "'d nic \<Rightarrow> s_ne2000_dev \<Rightarrow> u32 \<Rightarrow> 'd \<Rightarrow> 'd" where
  "transmit hw dev sndlen d =
     (let r = (\<lambda>reg. nic_out hw (ne_addr dev + reg));
          d1 = r NE2000_TPSR NE2000_TXBUF d;
          d2 = r NE2000_TBCR0 (ucast sndlen) d1;
          d3 = r NE2000_TBCR1 (ucast (drop_bit 8 sndlen)) d2
      in case nic_in hw (ne_addr dev + NE2000_CR) d3 of (cr, d4) \<Rightarrow>
         r NE2000_ISR NE2000_ISR_RDC (r NE2000_CR (cr OR NE2000_CR_TXP) d4))"

definition send_packet :: "'d nic \<Rightarrow> s_ne2000_dev \<Rightarrow> (nat \<Rightarrow> u8) \<Rightarrow> u32 \<Rightarrow> 'd \<Rightarrow> 'd option" where
  "send_packet hw dev packet sndlen d = do {
     d1 \<leftarrow> wait_remote hw dev (ne2000_write hw dev packet (ucast sndlen) (256 * ucast NE2000_TXBUF) d);
     Some (transmit hw dev sndlen d1)
   }"

definition fill_packet :: "kstate \<Rightarrow> u32 \<Rightarrow> u32 \<Rightarrow> (nat \<Rightarrow> u8) \<Rightarrow> (nat \<Rightarrow> u8)" where
  "fill_packet k p cpylen packet = memcpy (put16 18 (ucast cpylen) packet) 22 (mem_view k p) 0 (unat cpylen)"

partial_function (option) send_loop ::
  "'d nic \<Rightarrow> s_ne2000_dev \<Rightarrow> kstate \<Rightarrow> u32 \<Rightarrow> u32 \<Rightarrow> (nat \<Rightarrow> u8) \<Rightarrow> 'd \<Rightarrow> ((nat \<Rightarrow> u8) \<times> 'd) option" where
  "send_loop hw dev k p msg_len packet d =
     (if msg_len = 0 then Some (packet, d)
      else case fragment msg_len of (cpylen, sndlen) \<Rightarrow>
        Option.bind (send_packet hw dev (fill_packet k p cpylen packet) sndlen d)
          (send_loop hw dev k (p + cpylen) (msg_len - cpylen) (fill_packet k p cpylen packet)))"

text \<open>The headers: the address of the destination, or of everybody in a build without addresses; the ports.\<close>

definition packet_headers :: "pok_config \<Rightarrow> 'd nic \<Rightarrow> s_ne2000_dev \<Rightarrow> nat \<Rightarrow> u32 \<Rightarrow> (nat \<Rightarrow> u8) \<Rightarrow> (nat \<Rightarrow> u8)" where
  "packet_headers c hw dev port dest packet =
     (let node2 = (if NIC_NEEDS_MAC_ADDR hw
                   then snd (pok_node_mac_addr c (snd (pok_port_virtual_node c (unat dest))) (\<lambda>_. 0xFF)) else (\<lambda>_. 0xFF));
          p1 = memcpy packet 6 (ne_mac dev) 0 6;
          p2 = memcpy p1 0 node2 0 6;
          p3 = put16 12 0x4242 p2;
          p4 = put16 14 (of_nat port) p3
      in put16 16 (ucast dest) p4)"

definition rtl8029_write :: "pok_config \<Rightarrow> 'd nic \<Rightarrow> nat \<Rightarrow> u32 \<Rightarrow> u32 \<Rightarrow> 'd netstate \<Rightarrow> 'd netstate option" where
  "rtl8029_write c hw port data n s =
     (case pok_port_virtual_nb_destinations c port (ns_kernel s) of
        (ret, nbdest) \<Rightarrow>
          if ret \<noteq> POK_ERRNO_OK then Some s
          else do {
            (packet, d) \<leftarrow> for_loop [0..<unat (the nbdest)]
              (\<lambda>i (packet, d). case pok_port_virtual_destination c port (of_nat i) (ns_kernel s) of
                 (POK_ERRNO_OK, Some dest) \<Rightarrow>
                   send_loop hw (ns_dev s) (ns_kernel s) data n (packet_headers c hw (ns_dev s) port dest packet) d
               | _ \<Rightarrow> Some (packet, d)) (nic_junk hw, ns_card s);
            Some (s\<lparr>ns_card := d\<rparr>)
          })"

subsection \<open>Clearing and starting the card\<close>

definition clear_flag :: "'d nic \<Rightarrow> s_ne2000_dev \<Rightarrow> u8 \<Rightarrow> u8 \<Rightarrow> 'd \<Rightarrow> 'd" where
  "clear_flag hw dev state flag d = (if (state AND flag) \<noteq> 0 then nic_out hw (ne_addr dev + NE2000_ISR) flag d else d)"

definition rtl8029_clear :: "'d nic \<Rightarrow> 'd netstate \<Rightarrow> 'd netstate" where
  "rtl8029_clear hw s =
     (let dev = ns_dev s in
      case nic_in hw (ne_addr dev + NE2000_ISR) (NE2000_SELECT_PAGE hw dev 0 (ns_card s)) of (state, d1) \<Rightarrow>
      s\<lparr>ns_card := (if state = 0 then d1
        else fold (clear_flag hw dev state)
          [NE2000_ISR_PTX, NE2000_ISR_RXE, NE2000_ISR_TXE, NE2000_ISR_OVW, NE2000_ISR_CNT, NE2000_ISR_RST] d1)\<rparr>)"

text \<open>The address of the card is read from its memory, where every byte of it is written twice.\<close>

definition card_setup :: "'d nic \<Rightarrow> s_ne2000_dev \<Rightarrow> 'd \<Rightarrow> (nat \<Rightarrow> u8) \<times> 'd" where
  "card_setup hw dev d =
     (let r = (\<lambda>reg. nic_out hw (ne_addr dev + reg));
          d1 = fold (\<lambda>(reg, v). r reg v)
            [(NE2000_CR, NE2000_CR_STP), (NE2000_TCR, 0), (NE2000_RCR, NE2000_RCR_AB),
             (NE2000_DCR, NE2000_DCR_LS OR NE2000_DCR_FT1), (NE2000_PSTART, NE2000_RXBUF), (NE2000_PSTOP, NE2000_MEMSZ),
             (NE2000_BNRY, NE2000_RXBUF), (NE2000_RBCR0, 0), (NE2000_RBCR1, 0)] (NE2000_SELECT_PAGE hw dev 0 d);
          d2 = r NE2000_CURR (NE2000_RXBUF + 1) (NE2000_SELECT_PAGE hw dev 1 d1)
      in case ne2000_read hw dev 12 0 d2 of (buf, d3) \<Rightarrow>
         let mac = (\<lambda>i. if i < 6 then buf ! (2 * i) else ne_mac dev i);
             d4 = fold (\<lambda>i. r (NE2000_PAR0 + of_nat i) (mac i)) [0..<6] d3;
             d5 = fold (\<lambda>(reg, v). r reg v) [(NE2000_CR, NE2000_CR_STA), (NE2000_ISR, 0xFF), (NE2000_IMR, 0)]
                    (NE2000_SELECT_PAGE hw dev 0 d4)
         in (mac, d5))"

text \<open>The card is registered for the first partition, whoever calls.\<close>

definition rtl8029_init :: "'d nic \<Rightarrow> 'd netstate \<Rightarrow> 'd netstate" where
  "rtl8029_init hw s =
     (if ns_init s then s
      else let pci = (ne_pci (ns_dev s))\<lparr>pci_vendorid := 0x10ec, pci_deviceid := 0x8029, pci_io_range := 0x10\<rparr> in
      case pci_register hw pci 0 (s\<lparr>ns_init := True\<rparr>) of (ok, pci1, s1) \<Rightarrow>
      let dev = (ns_dev s)\<lparr>ne_msg_nb := 0, ne_pci := pci1\<rparr> in
      if \<not> ok then s1\<lparr>ns_dev := dev\<rparr>
      else let dev1 = dev\<lparr>ne_addr := pci_bar0 pci1 AND NOT 0x1F\<rparr> in
        case card_setup hw dev1 (ns_card s1) of (mac, d) \<Rightarrow>
        s1\<lparr>ns_card := d, ns_dev := dev1\<lparr>ne_mac := mac, ne_recv_buf :=
          (\<lambda>i. if i < NB_INPUT_VIRTUALPORT hw then (ne_recv_buf dev1 i)\<lparr>nq_len := 0, nq_off := 0\<rparr> else ne_recv_buf dev1 i)\<rparr>\<rparr>)"

subsection \<open>The system calls\<close>

datatype net_syscall_id_t =
    POK_SYSCALL_PCI_REGISTER | POK_SYSCALL_RTL8929_READ | POK_SYSCALL_RTL8929_POLL_AND_READ | POK_SYSCALL_RTL8929_WRITE
  | POK_SYSCALL_RTL8929_POLL | POK_SYSCALL_RTL8929_CLEAR | POK_SYSCALL_RTL8929_INIT

definition SIZEOF_PCI_DEVICE :: u32 where "SIZEOF_PCI_DEVICE = 48"

text \<open>The description of a device in the memory of a program.\<close>

definition read_pci_device :: "(u32 \<Rightarrow> u8) \<Rightarrow> u32 \<Rightarrow> s_pci_device" where
  "read_pci_device m a = \<lparr>pci_bus = rd16 m a, pci_dev = rd16 m (a + 2), pci_fun = rd16 m (a + 4), pci_vendorid = rd16 m (a + 6),
     pci_deviceid = rd16 m (a + 8), pci_irq_line = rd16 m (a + 10), pci_io_range = rd16 m (a + 12), pci_bar0 = rd32 m (a + 16)\<rparr>"

definition store16 :: "u32 \<Rightarrow> u16 \<Rightarrow> kstate \<Rightarrow> kstate" where
  "store16 a w = wr8 (a + 1) (ucast (drop_bit 8 w)) \<circ> wr8 a (ucast w)"

definition write_pci_device :: "u32 \<Rightarrow> s_pci_device \<Rightarrow> kstate \<Rightarrow> kstate" where
  "write_pci_device a p s =
     store16 (a + 10) (pci_irq_line p) (wr32 (a + 16) (pci_bar0 p) (store16 (a + 4) (pci_fun p)
       (store16 (a + 2) (pci_dev p) (store16 a (pci_bus p) s))))"

text \<open>A buffer is checked for four bytes, whatever its length; the calls for the card end in the error code of an unknown
  call, also when they succeed.\<close>

definition net_check :: "pok_config \<Rightarrow> pok_syscall_info_t \<Rightarrow> u32 \<Rightarrow> u32 \<Rightarrow> 'd netstate \<Rightarrow> (u32 \<times> 'd netstate) option \<Rightarrow> (u32 \<times> 'd netstate) option" where
  "net_check c infos ptr sz s k =
     (if pok_check_ptr_in_partition c (si_partition infos) ptr sz (ns_kernel s) then k else Some (errno POK_ERRNO_EINVAL, s))"

definition pok_net_syscall ::
  "pok_config \<Rightarrow> 'd nic \<Rightarrow> net_syscall_id_t \<Rightarrow> pok_syscall_args_t \<Rightarrow> pok_syscall_info_t \<Rightarrow> 'd netstate \<Rightarrow> (u32 \<times> 'd netstate) option" where
  "pok_net_syscall c hw sid args infos s =
     (let port = unat (sa_arg1 args) mod 256;
          buf = sa_arg2 args + si_base_addr infos;
          done = map_option (\<lambda>s1. (errno POK_ERRNO_EINVAL, s1))
      in case sid of
        POK_SYSCALL_PCI_REGISTER \<Rightarrow>
          net_check c infos (sa_arg1 args) SIZEOF_PCI_DEVICE s
            (let a = sa_arg1 args + si_base_addr infos in
             case pci_register hw (read_pci_device (ks_mem (ns_kernel s)) a) (si_partition infos mod 256) s of (ok, p, s1) \<Rightarrow>
               if ok then Some (0, s1\<lparr>ns_kernel := write_pci_device a p (ns_kernel s1)\<rparr>) else Some (- 1, s1))
      | POK_SYSCALL_RTL8929_READ \<Rightarrow> net_check c infos (sa_arg2 args) 4 s (done (rtl8029_read hw port buf (sa_arg3 args) s))
      | POK_SYSCALL_RTL8929_POLL_AND_READ \<Rightarrow>
          net_check c infos (sa_arg2 args) 4 s (done (rtl8029_poll_and_read c hw port buf (sa_arg3 args) s))
      | POK_SYSCALL_RTL8929_WRITE \<Rightarrow> net_check c infos (sa_arg2 args) 4 s (done (rtl8029_write c hw port buf (sa_arg3 args) s))
      | POK_SYSCALL_RTL8929_POLL \<Rightarrow> done (rtl8029_poll c hw s)
      | POK_SYSCALL_RTL8929_CLEAR \<Rightarrow> done (Some (rtl8029_clear hw s))
      | POK_SYSCALL_RTL8929_INIT \<Rightarrow> done (Some (rtl8029_init hw s)))"

subsection \<open>The queue of a port is a list of bytes\<close>

definition rx_queue_ok :: "'d nic \<Rightarrow> pok_queue_t_net \<Rightarrow> bool" where
  "rx_queue_ok hw q \<longleftrightarrow> unat (nq_off q) < RECV_BUF_SZ hw \<and> unat (nq_len q) \<le> RECV_BUF_SZ hw \<and> RECV_BUF_SZ hw < 2147483648"

definition queue_bytes :: "'d nic \<Rightarrow> pok_queue_t_net \<Rightarrow> u8 list" where
  "queue_bytes hw q = map (\<lambda>i. nq_data q (ring_at (RECV_BUF_SZ hw) (unat (nq_off q)) i)) [0..<unat (nq_len q)]"

definition packet_bytes :: "(nat \<Rightarrow> u8) \<Rightarrow> u8 list" where
  "packet_bytes packet = map (\<lambda>i. packet (22 + i)) [0..<unat (udp_len packet)]"

lemma enqueue_step_apply: "enqueue_step hw packet i (q, off) = (q(off := packet (22 + i)), (off + 1) mod RECV_BUF_SZ hw)"
  by (simp add: enqueue_step_def)

lemma enqueue_loop:
  "n \<le> RECV_BUF_SZ hw \<Longrightarrow> h < RECV_BUF_SZ hw \<Longrightarrow>
   \<exists>q'. fold (enqueue_step hw packet) [0..<n] (q, h) = (q', ring_at (RECV_BUF_SZ hw) h n) \<and>
     (\<forall>i<n. q' (ring_at (RECV_BUF_SZ hw) h i) = packet (22 + i)) \<and>
     (\<forall>i. n \<le> i \<longrightarrow> i < RECV_BUF_SZ hw \<longrightarrow> q' (ring_at (RECV_BUF_SZ hw) h i) = q (ring_at (RECV_BUF_SZ hw) h i))"
proof (induction n)
  case (Suc n)
  then obtain q' where q': "fold (enqueue_step hw packet) [0..<n] (q, h) = (q', ring_at (RECV_BUF_SZ hw) h n)"
      "\<forall>i<n. q' (ring_at (RECV_BUF_SZ hw) h i) = packet (22 + i)"
      "\<forall>i. n \<le> i \<longrightarrow> i < RECV_BUF_SZ hw \<longrightarrow> q' (ring_at (RECV_BUF_SZ hw) h i) = q (ring_at (RECV_BUF_SZ hw) h i)"
    by auto
  with Suc.prems show ?case
    by (auto simp: enqueue_step_apply ring_at_Suc [simplified] ring_at_inj less_Suc_eq)
qed auto

lemma queue_append_bytes:
  assumes ok: "rx_queue_ok hw q" and fits: "unat (nq_len q) + unat (udp_len packet) \<le> RECV_BUF_SZ hw"
  shows "rx_queue_ok hw (queue_append hw packet q)"
    and "queue_bytes hw (queue_append hw packet q) = queue_bytes hw q @ packet_bytes packet"
proof -
  define N b l n where "N = RECV_BUF_SZ hw" and "b = unat (nq_off q)" and "l = unat (nq_len q)" and "n = unat (udp_len packet)"
  note d = N_def b_def l_def n_def
  have s: "b < N" "l \<le> N" "N < 2147483648" "l + n \<le> N" using ok fits by (auto simp: rx_queue_ok_def d)
  have off: "unat (nq_off q + nq_len q) mod N = ring_at N b l"
    using s by (simp add: unat_add_small ring_at_def d)
  have len: "unat (nq_len q + ucast (udp_len packet)) = l + n"
    using s by (simp add: unat_add_small d)
  have "ring_at N b l < N" using s by (simp add: ring_at_less)
  then obtain q' where q': "fold (enqueue_step hw packet) [0..<n] (nq_data q, ring_at N b l) = (q', ring_at N (ring_at N b l) n)"
      "\<forall>i<n. q' (ring_at N (ring_at N b l) i) = packet (22 + i)"
      "\<forall>i. n \<le> i \<longrightarrow> i < N \<longrightarrow> q' (ring_at N (ring_at N b l) i) = nq_data q (ring_at N (ring_at N b l) i)"
    using enqueue_loop [of n hw "ring_at N b l" packet "nq_data q"] s by (auto simp: N_def)
  have app: "queue_append hw packet q = q\<lparr>nq_data := q', nq_len := nq_len q + ucast (udp_len packet)\<rparr>"
    using q'(1) off by (simp add: queue_append_def Let_def d)
  show "rx_queue_ok hw (queue_append hw packet q)" using s len by (simp add: app rx_queue_ok_def d)
  have old: "q' (ring_at N b i) = nq_data q (ring_at N b i)" if "i < l" for i
  proof -
    have "l + (N - l + i) = N + i" using s that by simp
    then have "ring_at N b i = ring_at N b (l + (N - l + i))" by (simp add: ring_at_def mod_add_right_eq [of b "N + i", symmetric] del: mod_add_right_eq) (simp add: mod_add_right_eq)
    moreover have "n \<le> N - l + i" "N - l + i < N" using s that by auto
    ultimately show ?thesis using q'(3) by (simp add: ring_at_add)
  qed
  have new: "q' (ring_at N b i) = packet (22 + i - l)" if "l \<le> i" "i < l + n" for i
    using q'(2) [THEN spec, of "i - l"] that by (simp add: ring_at_add)
  show "queue_bytes hw (queue_append hw packet q) = queue_bytes hw q @ packet_bytes packet"
    unfolding app using old new
    by (auto simp: queue_bytes_def packet_bytes_def len N_def [symmetric] b_def [symmetric] l_def [symmetric] n_def [symmetric]
          intro!: nth_equalityI simp: nth_append)
qed

text \<open>Reading: the bytes go to the memory of the program, one after the other.\<close>

lemma dequeue_step_apply: "dequeue_step hw dest i (s, q) =
    (wr8 (dest + of_nat (i mod RECV_BUF_SZ hw)) (nq_data q (unat (nq_off q))) s, q\<lparr>nq_off := (nq_off q + 1) mod of_nat (RECV_BUF_SZ hw)\<rparr>)"
  by (simp add: dequeue_step_def)

lemma off_next: "unat w < N \<Longrightarrow> N < 2147483648 \<Longrightarrow> unat ((w + 1) mod of_nat N :: u32) = ring_at N (unat w) 1"
  by (simp add: unat_mod_distrib unat_of_nat take_bit_nat_eq_self unat_add_small ring_at_def)

lemma wr8_mem_put:
  assumes "n < 4294967296"
  shows "wr8 (a + of_nat n) (f n) (mem_put a f n s) = mem_put a f (Suc n) s"
proof -
  have "unat (x - (a + of_nat n)) = 0 \<longleftrightarrow> unat (x - a) = n" for x :: u32
  proof -
    have "unat (x - a) = n \<longleftrightarrow> x - a = of_nat n" using assms by (auto simp: unat_of_nat take_bit_nat_eq_self)
    then show ?thesis by (auto simp: unat_eq_0 algebra_simps)
  qed
  then show ?thesis by (auto simp: wr8_def mem_put_def less_Suc_eq fun_eq_iff)
qed

lemma dequeue_loop:
  assumes "unat (nq_off q) < RECV_BUF_SZ hw" and "RECV_BUF_SZ hw < 2147483648"
  shows "n \<le> RECV_BUF_SZ hw \<Longrightarrow> \<exists>off.
     fold (dequeue_step hw dest) [0..<n] (s, q) =
       (mem_put dest (\<lambda>i. nq_data q (ring_at (RECV_BUF_SZ hw) (unat (nq_off q)) i)) n s, q\<lparr>nq_off := off\<rparr>) \<and>
     unat off = ring_at (RECV_BUF_SZ hw) (unat (nq_off q)) n"
proof (induction n)
  case 0
  then show ?case using assms by (intro exI [of _ "nq_off q"]) (simp add: mem_put_def)
next
  case (Suc n)
  then obtain off where st: "fold (dequeue_step hw dest) [0..<n] (s, q) =
       (mem_put dest (\<lambda>i. nq_data q (ring_at (RECV_BUF_SZ hw) (unat (nq_off q)) i)) n s, q\<lparr>nq_off := off\<rparr>)"
     "unat off = ring_at (RECV_BUF_SZ hw) (unat (nq_off q)) n" by auto
  have "unat off < RECV_BUF_SZ hw" using st(2) assms by (simp add: ring_at_less)
  then have "unat ((off + 1) mod of_nat (RECV_BUF_SZ hw)) = ring_at (RECV_BUF_SZ hw) (unat (nq_off q)) (Suc n)"
    using st(2) assms(2) by (simp add: off_next ring_at_add)
  moreover have "wr8 (dest + of_nat n) (nq_data q (unat off)) (mem_put dest f n s) = mem_put dest f (Suc n) s"
    if "f n = nq_data q (unat off)" for f
    using wr8_mem_put [of n dest f s] that Suc.prems assms(2) by simp
  ultimately show ?case using st Suc.prems assms by (auto simp: dequeue_step_apply)
qed

lemma queue_take_bytes:
  assumes ok: "rx_queue_ok hw q" and n: "unat n \<le> unat (nq_len q)"
  obtains q' where "queue_take hw dest n s q = (mem_put dest (\<lambda>i. queue_bytes hw q ! i) (unat n) s, q')"
    and "rx_queue_ok hw q'" and "queue_bytes hw q' = drop (unat n) (queue_bytes hw q)"
proof -
  have s: "unat (nq_off q) < RECV_BUF_SZ hw" "unat (nq_len q) \<le> RECV_BUF_SZ hw" "RECV_BUF_SZ hw < 2147483648"
    using ok by (auto simp: rx_queue_ok_def)
  obtain off where st: "fold (dequeue_step hw dest) [0..<unat n] (s, q) =
       (mem_put dest (\<lambda>i. nq_data q (ring_at (RECV_BUF_SZ hw) (unat (nq_off q)) i)) (unat n) s, q\<lparr>nq_off := off\<rparr>)"
     "unat off = ring_at (RECV_BUF_SZ hw) (unat (nq_off q)) (unat n)"
    using dequeue_loop [OF s(1,3), of "unat n" dest s] n s(2) by auto
  have len: "unat (nq_len q - n) = unat (nq_len q) - unat n" using n by (simp add: unat_sub word_le_nat_alt)
  let ?q = "q\<lparr>nq_off := off, nq_len := nq_len q - n\<rparr>"
  have "mem_put dest (\<lambda>i. nq_data q (ring_at (RECV_BUF_SZ hw) (unat (nq_off q)) i)) (unat n) s =
      mem_put dest (\<lambda>i. queue_bytes hw q ! i) (unat n) s"
    using n by (auto simp: mem_put_def queue_bytes_def fun_eq_iff)
  then have "queue_take hw dest n s q = (mem_put dest (\<lambda>i. queue_bytes hw q ! i) (unat n) s, ?q)"
    using st(1) by (simp add: queue_take_def)
  moreover have "rx_queue_ok hw ?q" using s st(2) len by (simp add: rx_queue_ok_def ring_at_less)
  moreover have "queue_bytes hw ?q = drop (unat n) (queue_bytes hw q)"
    by (auto simp: queue_bytes_def len st(2) ring_at_add intro!: nth_equalityI)
  ultimately show ?thesis by (rule that)
qed

lemma length_queue_bytes [simp]: "length (queue_bytes hw q) = unat (nq_len q)"
  by (simp add: queue_bytes_def)

lemma length_packet_bytes [simp]: "length (packet_bytes packet) = unat (udp_len packet)"
  by (simp add: packet_bytes_def)

lemma fits_iff:
  assumes "rx_queue_ok hw q"
  shows "nq_len q + ucast (udp_len packet) > of_nat (RECV_BUF_SZ hw) \<longleftrightarrow>
    \<not> unat (nq_len q) + unat (udp_len packet) \<le> RECV_BUF_SZ hw"
proof -
  have "unat (udp_len packet) < 65536" using unsigned_less [of "udp_len packet"] by simp
  then have "unat (nq_len q + ucast (udp_len packet)) = unat (nq_len q) + unat (udp_len packet)"
    using assms by (simp add: rx_queue_ok_def unat_add_small)
  then show ?thesis using assms by (auto simp: word_less_nat_alt rx_queue_ok_def unat_of_nat take_bit_nat_eq_self)
qed

lemma enqueue_cases:
  assumes "unat (udp_dst packet) < NB_GLOBAL_PORTS hw" and "port = pok_global_ports_to_local_ports c (unat (udp_dst packet))"
    and "port < NB_INPUT_VIRTUALPORT hw" and "rx_queue_ok hw (ne_recv_buf dev port)"
  shows "rtl8029_enqueue c hw packet dev =
    (if length (queue_bytes hw (ne_recv_buf dev port) @ packet_bytes packet) \<le> RECV_BUF_SZ hw
     then Some (dev\<lparr>ne_recv_buf := (ne_recv_buf dev)(port := queue_append hw packet (ne_recv_buf dev port)), ne_msg_nb := ne_msg_nb dev + 1\<rparr>)
     else Some dev)"
  using assms fits_iff [OF assms(4), of packet] by (simp add: rtl8029_enqueue_def Let_def)

lemma read_cases:
  assumes "port < NB_INPUT_VIRTUALPORT hw" and ok: "rx_queue_ok hw (ne_recv_buf (ns_dev s) port)"
  obtains q' where "rtl8029_read hw port data n s = Some (s\<lparr>
      ns_kernel := mem_put data (\<lambda>i. queue_bytes hw (ne_recv_buf (ns_dev s) port) ! i)
        (min (unat n) (length (queue_bytes hw (ne_recv_buf (ns_dev s) port)))) (ns_kernel s),
      ns_dev := (ns_dev s)\<lparr>ne_recv_buf := (ne_recv_buf (ns_dev s))(port := q')\<rparr>\<rparr>)"
    and "rx_queue_ok hw q'" and "queue_bytes hw q' = drop (unat n) (queue_bytes hw (ne_recv_buf (ns_dev s) port))"
proof (cases "nq_len (ne_recv_buf (ns_dev s) port) = 0")
  case True
  then show ?thesis using assms
    by (intro that [of "ne_recv_buf (ns_dev s) port"]) (auto simp: rtl8029_read_def mem_put_def queue_bytes_def)
next
  case False
  let ?q = "ne_recv_buf (ns_dev s) port" let ?n = "if n < nq_len ?q then n else nq_len ?q"
  have n: "unat ?n = min (unat n) (unat (nq_len ?q))" by (auto simp: word_less_nat_alt)
  then obtain q' where "queue_take hw data ?n (ns_kernel s) ?q = (mem_put data (\<lambda>i. queue_bytes hw ?q ! i) (unat ?n) (ns_kernel s), q')"
     "rx_queue_ok hw q'" "queue_bytes hw q' = drop (unat ?n) (queue_bytes hw ?q)"
    using queue_take_bytes [OF ok, of ?n data "ns_kernel s"] by auto
  moreover have "drop (unat ?n) (queue_bytes hw ?q) = drop (unat n) (queue_bytes hw ?q)" unfolding n by (cases "unat n \<le> unat (nq_len ?q)") auto
  ultimately show ?thesis using assms False n by (intro that [of q']) (auto simp: rtl8029_read_def Let_def)
qed

text \<open>C22: The queue that the driver of the network card keeps for a port is a list of bytes: a packet for the port is
  appended if there is space for all of it and dropped if not, reading takes the oldest bytes, as many as there are or
  as were asked for, into the memory of the program; the queues of other ports are left as they are.\<close>

theorem net_queue_is_list:
  fixes hw :: "'d nic" and s :: "'d netstate" and n :: u32
  assumes "unat (udp_dst packet) < NB_GLOBAL_PORTS hw" and "port = pok_global_ports_to_local_ports c (unat (udp_dst packet))"
    and "port < NB_INPUT_VIRTUALPORT hw" and "rx_queue_ok hw (ne_recv_buf (ns_dev s) port)"
  defines "bytes \<equiv> queue_bytes hw (ne_recv_buf (ns_dev s) port)"
  shows "(\<exists>dev'. rtl8029_enqueue c hw packet (ns_dev s) = Some dev' \<and> rx_queue_ok hw (ne_recv_buf dev' port) \<and>
      queue_bytes hw (ne_recv_buf dev' port) =
        (if length (bytes @ packet_bytes packet) \<le> RECV_BUF_SZ hw then bytes @ packet_bytes packet else bytes) \<and>
      (\<forall>p. p = port \<or> ne_recv_buf dev' p = ne_recv_buf (ns_dev s) p)) \<and>
    (\<exists>s'. rtl8029_read hw port data n s = Some s' \<and> rx_queue_ok hw (ne_recv_buf (ns_dev s') port) \<and>
      queue_bytes hw (ne_recv_buf (ns_dev s') port) = drop (unat n) bytes \<and>
      ns_kernel s' = mem_put data (\<lambda>i. bytes ! i) (length (take (unat n) bytes)) (ns_kernel s) \<and>
      (\<forall>p. p = port \<or> ne_recv_buf (ns_dev s') p = ne_recv_buf (ns_dev s) p))"
proof
  let ?app = "queue_append hw packet (ne_recv_buf (ns_dev s) port)"
  show "\<exists>dev'. rtl8029_enqueue c hw packet (ns_dev s) = Some dev' \<and> rx_queue_ok hw (ne_recv_buf dev' port) \<and>
      queue_bytes hw (ne_recv_buf dev' port) =
        (if length (bytes @ packet_bytes packet) \<le> RECV_BUF_SZ hw then bytes @ packet_bytes packet else bytes) \<and>
      (\<forall>p. p = port \<or> ne_recv_buf dev' p = ne_recv_buf (ns_dev s) p)"
  proof (cases "length (bytes @ packet_bytes packet) \<le> RECV_BUF_SZ hw")
    case True
    then have "rx_queue_ok hw ?app" "queue_bytes hw ?app = bytes @ packet_bytes packet"
      using queue_append_bytes [OF assms(4), of packet] by (simp_all add: bytes_def)
    then show ?thesis using enqueue_cases [OF assms(1-4)] True unfolding bytes_def by simp
  next
    case False
    then show ?thesis using enqueue_cases [OF assms(1-4)] assms(4) unfolding bytes_def by simp
  qed
  obtain q' where "rtl8029_read hw port data n s = Some (s\<lparr>
      ns_kernel := mem_put data (\<lambda>i. bytes ! i) (min (unat n) (length bytes)) (ns_kernel s),
      ns_dev := (ns_dev s)\<lparr>ne_recv_buf := (ne_recv_buf (ns_dev s))(port := q')\<rparr>\<rparr>)"
    "rx_queue_ok hw q'" "queue_bytes hw q' = drop (unat n) bytes"
    using read_cases [OF assms(3,4), of data n thesis] unfolding bytes_def by blast
  then show "\<exists>s'. rtl8029_read hw port data n s = Some s' \<and> rx_queue_ok hw (ne_recv_buf (ns_dev s') port) \<and>
      queue_bytes hw (ne_recv_buf (ns_dev s') port) = drop (unat n) bytes \<and>
      ns_kernel s' = mem_put data (\<lambda>i. bytes ! i) (length (take (unat n) bytes)) (ns_kernel s) \<and>
      (\<forall>p. p = port \<or> ne_recv_buf (ns_dev s') p = ne_recv_buf (ns_dev s) p)"
    by (simp add: min.commute)
qed

text \<open>A card that does nothing, and the state of a driver whose first queue holds three bytes.\<close>

definition demo_nic :: "unit nic" where
  "demo_nic = \<lparr>hw_inb = (\<lambda>_ d. (0, d)), hw_outb = (\<lambda>_ _ d. d), hw_inl = (\<lambda>_ d. (0, d)), hw_outl = (\<lambda>_ _ d. d),
     RECV_BUF_SZ = 20, NB_INPUT_VIRTUALPORT = 2, NB_GLOBAL_PORTS = 2, invalid_local_port = 255,
     NIC_NEEDS_MAC_ADDR = False, pci_handler = 4096, nic_junk = (\<lambda>_. 0)\<rparr>"

definition demo_queue :: pok_queue_t_net where
  "demo_queue = \<lparr>nq_len = 3, nq_off = 18, nq_data = (\<lambda>i. of_nat i)\<rparr>"

definition demo_net :: "unit netstate" where
  "demo_net = \<lparr>ns_card = (), ns_dev = \<lparr>ne_pci = \<lparr>pci_bus = 0, pci_dev = 0, pci_fun = 0, pci_vendorid = 0, pci_deviceid = 0,
       pci_irq_line = 0, pci_io_range = 0, pci_bar0 = 0\<rparr>, ne_addr = 0, ne_mac = (\<lambda>_. 0), ne_recv_buf = (\<lambda>_. demo_queue), ne_msg_nb = 1\<rparr>,
     ns_kernel = demo_state, ns_idt = (\<lambda>_. idt_null), ns_init = True\<rparr>"

definition demo_packet :: "nat \<Rightarrow> u8" where
  "demo_packet = (\<lambda>_. 0)(18 := 2, 22 := 7, 23 := 8)"

lemma demo_net_simps [simp]: "RECV_BUF_SZ demo_nic = 20" "NB_INPUT_VIRTUALPORT demo_nic = 2" "NB_GLOBAL_PORTS demo_nic = 2"
  "ne_recv_buf (ns_dev demo_net) p = demo_queue" "ns_kernel demo_net = demo_state"
  by (simp_all add: demo_nic_def demo_net_def)

lemma demo_queue_ok: "rx_queue_ok demo_nic demo_queue"
  by (simp add: rx_queue_ok_def demo_queue_def)

lemma demo_queue_bytes: "queue_bytes demo_nic demo_queue = [18, 19, 0]"
  by (simp add: queue_bytes_def demo_queue_def ring_at_def upt_rec)

lemma demo_packet_fields: "udp_dst demo_packet = 0" "packet_bytes demo_packet = [7, 8]"
  by (simp_all add: udp_dst_def udp_len_def packet_bytes_def packet16_def demo_packet_def upt_rec)

lemma net_queue_is_list_witness:
  "(\<exists>dev'. rtl8029_enqueue demo_config demo_nic demo_packet (ns_dev demo_net) = Some dev' \<and>
      queue_bytes demo_nic (ne_recv_buf dev' 0) = [18, 19, 0, 7, 8]) \<and>
   (\<exists>s'. rtl8029_read demo_nic 0 1048576 2 demo_net = Some s' \<and> queue_bytes demo_nic (ne_recv_buf (ns_dev s') 0) = [0] \<and>
      ns_kernel s' = mem_put 1048576 (\<lambda>i. [18, 19, 0] ! i) 2 demo_state)"
proof -
  have p: "unat (udp_dst demo_packet) < NB_GLOBAL_PORTS demo_nic" "0 = pok_global_ports_to_local_ports demo_config (unat (udp_dst demo_packet))"
    "0 < NB_INPUT_VIRTUALPORT demo_nic" "rx_queue_ok demo_nic (ne_recv_buf (ns_dev demo_net) 0)"
    by (simp_all add: demo_packet_fields demo_config_def demo_queue_ok)
  show ?thesis
    using net_queue_is_list [OF p, where data = 1048576 and n = 2] by (auto simp: demo_queue_bytes demo_packet_fields numeral_2_eq_2 [symmetric])
qed

end
