(* ===== verification/Pok_Network_Frames.thy ===== *)
theory Pok_Network_Frames
  imports Pok_Network
begin

text \<open>
  What the driver of the network card does with whole messages: reading over the end of a partition, sending in frames,
  to a card that works as its documentation says; and the search of the PCI bus for a device.
\<close>

unbundle bit_operations_syntax

subsection \<open>Reading over the end of the partition\<close>

text \<open>C38: Reading from the network leaves the partition: only the first four bytes of the buffer are checked to be in
  it, so with a buffer whose end is the end of the partition the bytes from the network are stored behind it. The answer
  of the call is that of an unknown call, though the bytes have been delivered.\<close>

theorem net_read_leaves_partition:
  fixes s :: "'d netstate" and infos :: pok_syscall_info_t and args :: pok_syscall_args_t and hw :: "'d nic"
  defines "sz \<equiv> p_size (pok_partitions (ns_kernel s) (si_partition infos))"
    and "bytes \<equiv> queue_bytes hw (ne_recv_buf (ns_dev s) (unat (sa_arg1 args) mod 256))"
  assumes "si_partition infos < NB_PARTITIONS c" and "4 \<le> sz" and "sa_arg2 args = sz - 4"
    and "unat (sa_arg1 args) mod 256 < NB_INPUT_VIRTUALPORT hw"
    and "rx_queue_ok hw (ne_recv_buf (ns_dev s) (unat (sa_arg1 args) mod 256))"
  shows "\<exists>s'. pok_net_syscall c hw POK_SYSCALL_RTL8929_READ args infos s = Some (errno POK_ERRNO_EINVAL, s') \<and>
    (\<forall>i. i + 4 < length bytes \<longrightarrow> i + 4 < unat (sa_arg3 args) \<longrightarrow>
      ks_mem (ns_kernel s') (si_base_addr infos + sz + of_nat i) = bytes ! (i + 4))"
proof -
  let ?p = "unat (sa_arg1 args) mod 256" let ?a = "sa_arg2 args + si_base_addr infos"
  let ?k = "min (unat (sa_arg3 args)) (length bytes)"
  have "pok_check_ptr_in_partition c (si_partition infos) (sa_arg2 args) 4 (ns_kernel s)"
    using assms(3-5) by (simp add: pok_check_ptr_in_partition_def Let_def sz_def [symmetric] not_less [symmetric])
  moreover obtain s' where "rtl8029_read hw ?p ?a (sa_arg3 args) s = Some s'"
     and k: "ns_kernel s' = mem_put ?a (\<lambda>i. bytes ! i) ?k (ns_kernel s)"
    using read_cases [OF assms(6,7), of ?a "sa_arg3 args" thesis] unfolding bytes_def by simp
  moreover have "ks_mem (ns_kernel s') (si_base_addr infos + sz + of_nat i) = bytes ! (i + 4)"
    if "i + 4 < length bytes" "i + 4 < unat (sa_arg3 args)" for i
  proof -
    have "unat (of_nat (i + 4) :: u32) = i + 4"
      using that(2) unat_small32 [of "sa_arg3 args"] by (simp add: unat_of_nat take_bit_nat_eq_self del: of_nat_add)
    moreover have "si_base_addr infos + sz + of_nat i - ?a = of_nat (i + 4)" using assms(5) by simp
    ultimately have "unat (si_base_addr infos + sz + of_nat i - ?a) = i + 4" by (simp only:)
    then show ?thesis unfolding k using that by (intro mem_put_at) simp_all
  qed
  ultimately show ?thesis by (simp add: pok_net_syscall_def net_check_def Let_def)
qed

lemma net_read_leaves_partition_witness:
  "\<exists>s'. pok_net_syscall demo_config (demo_nic\<lparr>RECV_BUF_SZ := 20\<rparr>) POK_SYSCALL_RTL8929_READ (demo_args 0 131068 8) demo_infos
       (demo_net\<lparr>ns_dev := (ns_dev demo_net)\<lparr>ne_recv_buf := (\<lambda>_. demo_queue\<lparr>nq_len := 6\<rparr>)\<rparr>\<rparr>) = Some (1, s') \<and>
     ks_mem (ns_kernel s') 1179648 = 2 \<and> ks_mem (ns_kernel s') 1179649 = 3"
proof -
  let ?s = "demo_net\<lparr>ns_dev := (ns_dev demo_net)\<lparr>ne_recv_buf := (\<lambda>_. demo_queue\<lparr>nq_len := 6\<rparr>)\<rparr>\<rparr>"
  let ?hw = "demo_nic\<lparr>RECV_BUF_SZ := 20\<rparr>" let ?a = "demo_args 0 131068 8"
  have sz: "p_size (demo_partition 0) = 131072" by (simp add: demo_partition_def)
  have bytes: "queue_bytes ?hw (demo_queue\<lparr>nq_len := 6\<rparr>) = [18, 19, 0, 1, 2, 3]"
    by (simp add: queue_bytes_def demo_queue_def ring_at_def upt_rec)
  have p: "si_partition demo_infos < NB_PARTITIONS demo_config"
    "4 \<le> p_size (pok_partitions (ns_kernel ?s) (si_partition demo_infos))"
    "sa_arg2 ?a = p_size (pok_partitions (ns_kernel ?s) (si_partition demo_infos)) - 4"
    "unat (sa_arg1 ?a) mod 256 < NB_INPUT_VIRTUALPORT ?hw"
    "rx_queue_ok ?hw (ne_recv_buf (ns_dev ?s) (unat (sa_arg1 ?a) mod 256))"
    by (simp_all add: demo_infos_def demo_args_def sz demo_nic_def rx_queue_ok_def demo_queue_def)
  obtain s' where "pok_net_syscall demo_config ?hw POK_SYSCALL_RTL8929_READ ?a demo_infos ?s = Some (errno POK_ERRNO_EINVAL, s')"
    and b: "\<And>i. i + 4 < 6 \<Longrightarrow> i + 4 < unat (sa_arg3 ?a) \<Longrightarrow>
      ks_mem (ns_kernel s') (si_base_addr demo_infos + 131072 + of_nat i) = [18, 19, 0, 1, 2, 3] ! (i + 4)"
    using net_read_leaves_partition [OF p] by (auto simp: demo_infos_def sz bytes)
  then show ?thesis using b [of 0] b [of 1]
    by (auto simp: demo_infos_def demo_args_def errno_def)
qed

subsection \<open>What the card does\<close>

text \<open>
  The card as its documentation describes it (the comments of \<open>rtl8029.h\<close>), for the registers that sending uses, on page 0 of
  the registers and started: a remote write stores the bytes that come to the data port in the memory of the card, and
  sets a flag when all have come; the bit \<open>TXP\<close> sends the bytes of the transmit page as a frame. The driver does not
  wait for the end of a transmission, so the card has to send at once, as the emulated one does.
\<close>

record ne_card =
  nc_cr :: u8
  nc_rsar :: nat
  nc_rbcr :: nat
  nc_tpsr :: nat
  nc_tbcr :: nat
  nc_rdc :: bool
  nc_mem :: "nat \<Rightarrow> u8"
  nc_wire :: "u8 list list"

definition low_byte :: "nat \<Rightarrow> u8 \<Rightarrow> nat" where "low_byte w v = 256 * (w div 256) + unat v"
definition high_byte :: "nat \<Rightarrow> u8 \<Rightarrow> nat" where "high_byte w v = w mod 256 + 256 * unat v"

definition card_ready :: "ne_card \<Rightarrow> bool" where
  "card_ready c \<longleftrightarrow> \<not> bit (nc_cr c) 0 \<and> \<not> bit (nc_cr c) 2 \<and> \<not> bit (nc_cr c) 6 \<and> \<not> bit (nc_cr c) 7"

definition remote_write :: "ne_card \<Rightarrow> bool" where
  "remote_write c \<longleftrightarrow> \<not> bit (nc_cr c) 3 \<and> bit (nc_cr c) 4 \<and> \<not> bit (nc_cr c) 5"

definition card_command :: "u8 \<Rightarrow> ne_card \<Rightarrow> ne_card" where
  "card_command v c =
     (let c1 = c\<lparr>nc_cr := v AND NOT NE2000_CR_TXP\<rparr>
      in if bit v 2 then c1\<lparr>nc_wire := nc_wire c @ [map (\<lambda>i. nc_mem c (256 * nc_tpsr c + i)) [0..<nc_tbcr c]]\<rparr> else c1)"

definition card_data :: "u8 \<Rightarrow> ne_card \<Rightarrow> ne_card" where
  "card_data v c =
     (if remote_write c \<and> 0 < nc_rbcr c
      then c\<lparr>nc_mem := (nc_mem c)(nc_rsar c := v), nc_rsar := nc_rsar c + 1, nc_rbcr := nc_rbcr c - 1, nc_rdc := nc_rdc c \<or> nc_rbcr c = 1\<rparr>
      else c)"

text \<open>A card of which \<open>view\<close> is the state that the documentation speaks of. Reading the status may have to be repeated before
  it shows that a transfer is complete; \<open>busy\<close> is how often at most.\<close>

definition ne2000_card :: "'d nic \<Rightarrow> s_ne2000_dev \<Rightarrow> ('d \<Rightarrow> ne_card) \<Rightarrow> ('d \<Rightarrow> nat) \<Rightarrow> bool" where
  "ne2000_card hw dev view busy \<longleftrightarrow> (\<forall>d. card_ready (view d) \<longrightarrow>
     (\<forall>v. view (nic_out hw (ne_addr dev + NE2000_CR) v d) = card_command v (view d) \<and>
          view (nic_out hw (ne_addr dev + NE2000_RSAR0) v d) = (view d)\<lparr>nc_rsar := low_byte (nc_rsar (view d)) v\<rparr> \<and>
          view (nic_out hw (ne_addr dev + NE2000_RSAR1) v d) = (view d)\<lparr>nc_rsar := high_byte (nc_rsar (view d)) v\<rparr> \<and>
          view (nic_out hw (ne_addr dev + NE2000_RBCR0) v d) = (view d)\<lparr>nc_rbcr := low_byte (nc_rbcr (view d)) v\<rparr> \<and>
          view (nic_out hw (ne_addr dev + NE2000_RBCR1) v d) = (view d)\<lparr>nc_rbcr := high_byte (nc_rbcr (view d)) v\<rparr> \<and>
          view (nic_out hw (ne_addr dev + NE2000_TPSR) v d) = (view d)\<lparr>nc_tpsr := unat v\<rparr> \<and>
          view (nic_out hw (ne_addr dev + NE2000_TBCR0) v d) = (view d)\<lparr>nc_tbcr := low_byte (nc_tbcr (view d)) v\<rparr> \<and>
          view (nic_out hw (ne_addr dev + NE2000_TBCR1) v d) = (view d)\<lparr>nc_tbcr := high_byte (nc_tbcr (view d)) v\<rparr> \<and>
          view (nic_out hw (ne_addr dev + NE2000_ISR) v d) = (view d)\<lparr>nc_rdc := (nc_rdc (view d) \<and> \<not> bit v 6)\<rparr> \<and>
          view (nic_out hw (ne_addr dev + NE2000_DMA_PORT) v d) = card_data v (view d)) \<and>
     (\<exists>d1. nic_in hw (ne_addr dev + NE2000_CR) d = (nc_cr (view d), d1) \<and> view d1 = view d) \<and>
     (\<exists>state d1. nic_in hw (ne_addr dev + NE2000_ISR) d = (state, d1) \<and> view d1 = view d \<and>
        (nc_rdc (view d) \<longrightarrow> bit state 6 \<or> busy d1 < busy d)))"

lemma card_outs:
  assumes "ne2000_card hw dev view busy" "card_ready (view d)"
  shows "view (nic_out hw (ne_addr dev + NE2000_CR) v d) = card_command v (view d)"
    and "view (nic_out hw (ne_addr dev + NE2000_RSAR0) v d) = (view d)\<lparr>nc_rsar := low_byte (nc_rsar (view d)) v\<rparr>"
    and "view (nic_out hw (ne_addr dev + NE2000_RSAR1) v d) = (view d)\<lparr>nc_rsar := high_byte (nc_rsar (view d)) v\<rparr>"
    and "view (nic_out hw (ne_addr dev + NE2000_RBCR0) v d) = (view d)\<lparr>nc_rbcr := low_byte (nc_rbcr (view d)) v\<rparr>"
    and "view (nic_out hw (ne_addr dev + NE2000_RBCR1) v d) = (view d)\<lparr>nc_rbcr := high_byte (nc_rbcr (view d)) v\<rparr>"
    and "view (nic_out hw (ne_addr dev + NE2000_TPSR) v d) = (view d)\<lparr>nc_tpsr := unat v\<rparr>"
    and "view (nic_out hw (ne_addr dev + NE2000_TBCR0) v d) = (view d)\<lparr>nc_tbcr := low_byte (nc_tbcr (view d)) v\<rparr>"
    and "view (nic_out hw (ne_addr dev + NE2000_TBCR1) v d) = (view d)\<lparr>nc_tbcr := high_byte (nc_tbcr (view d)) v\<rparr>"
    and "view (nic_out hw (ne_addr dev + NE2000_ISR) v d) = (view d)\<lparr>nc_rdc := (nc_rdc (view d) \<and> \<not> bit v 6)\<rparr>"
    and "view (nic_out hw (ne_addr dev + NE2000_DMA_PORT) v d) = card_data v (view d)"
  using assms unfolding ne2000_card_def by blast+

lemma card_ready_simps [simp]:
  "card_ready (c\<lparr>nc_rsar := n\<rparr>) = card_ready c" "card_ready (c\<lparr>nc_rbcr := n\<rparr>) = card_ready c" "card_ready (c\<lparr>nc_tpsr := n\<rparr>) = card_ready c"
  "card_ready (c\<lparr>nc_tbcr := n\<rparr>) = card_ready c" "card_ready (c\<lparr>nc_rdc := r\<rparr>) = card_ready c" "card_ready (card_data v c) = card_ready c"
  "card_ready (c\<lparr>nc_wire := w\<rparr>) = card_ready c"
  by (simp_all add: card_ready_def card_data_def)

lemma low_then_high: "high_byte (low_byte x l) h = unat l + 256 * unat h"
proof -
  have "unat l < 256" by (rule order_less_le_trans [OF unsigned_less]) simp
  then show ?thesis by (simp add: low_byte_def high_byte_def)
qed

lemma bytes_of_word16: "high_byte (low_byte x (ucast w)) (ucast (drop_bit 8 w)) = unat (w :: u16)"
proof -
  have "unat w < 65536" by (rule order_less_le_trans [OF unsigned_less]) simp
  then show ?thesis
    by (simp add: low_then_high unsigned_ucast_eq take_bit_eq_mod drop_bit_eq_div unat_mod_distrib unat_div_distrib less_mult_imp_div_less)
qed

lemma frame_word_bytes:
  assumes "unat (w :: u32) < 65536"
  shows "high_byte (low_byte x (ucast w)) (ucast (drop_bit 8 w)) = unat w"
  using assms
  by (simp add: low_then_high unsigned_ucast_eq take_bit_eq_mod drop_bit_eq_div unat_mod_distrib unat_div_distrib less_mult_imp_div_less)

subsection \<open>A packet is sent\<close>

text \<open>The command register is changed without leaving page 0 or sending.\<close>

lemma card_cr_update:
  assumes "ne2000_card hw dev view busy" "card_ready (view d)" "added \<in> {NE2000_CR_RD1, NE2000_CR_RD2}"
  shows "view (cr_update hw dev cleared added d) = (view d)\<lparr>nc_cr := (nc_cr (view d) AND NOT cleared) OR added\<rparr>"
    and "card_ready (view (cr_update hw dev cleared added d))"
proof -
  let ?v = "(nc_cr (view d) AND NOT cleared) OR added"
  obtain d1 where d1: "nic_in hw (ne_addr dev + NE2000_CR) d = (nc_cr (view d), d1)" "view d1 = view d"
    using assms(1,2) unfolding ne2000_card_def by blast
  have bits: "\<not> bit ?v 0" "\<not> bit ?v 2" "\<not> bit ?v 6" "\<not> bit ?v 7"
    using assms(2,3) by (auto simp: card_ready_def bit_simps NE2000_CR_RD1_def NE2000_CR_RD2_def)
  have keep: "?v AND NOT NE2000_CR_TXP = ?v"
  proof (rule bit_word_eqI)
    fix n assume "n < LENGTH(8)"
    have "bit NE2000_CR_TXP n \<longleftrightarrow> n = 2"
      using \<open>n < LENGTH(8)\<close> bit_push_bit_iff [of 2 "1 :: u8" n] by (auto simp: NE2000_CR_TXP_def bit_1_iff)
    then show "bit (?v AND NOT NE2000_CR_TXP) n = bit ?v n" using bits(2) \<open>n < LENGTH(8)\<close> by (auto simp: bit_and_iff bit_not_iff)
  qed
  have "view (cr_update hw dev cleared added d) = card_command ?v (view d)"
    using card_outs(1) [OF assms(1), of d1] assms(2) d1 by (simp add: cr_update_def NE2000_CR_def)
  then show v: "view (cr_update hw dev cleared added d) = (view d)\<lparr>nc_cr := ?v\<rparr>"
    using bits(2) keep by (simp add: card_command_def Let_def)
  show "card_ready (view (cr_update hw dev cleared added d))" unfolding v using bits by (simp add: card_ready_def)
qed

text \<open>The bytes of a remote write come to the memory of the card, one after the other.\<close>

lemma card_bytes:
  assumes "ne2000_card hw dev view busy" "card_ready (view d)" "remote_write (view d)" "nc_rbcr (view d) = n" "0 < n" "m \<le> n"
  shows "view (fold (\<lambda>i. nic_out hw (ne_addr dev + NE2000_DMA_PORT) (buf i)) [0..<m] d) =
    (view d)\<lparr>nc_mem := (\<lambda>x. if nc_rsar (view d) \<le> x \<and> x < nc_rsar (view d) + m then buf (x - nc_rsar (view d)) else nc_mem (view d) x),
      nc_rsar := nc_rsar (view d) + m, nc_rbcr := n - m, nc_rdc := nc_rdc (view d) \<or> m = n\<rparr>"
  using assms(6)
proof (induction m)
  case 0
  then show ?case using assms(4,5) by (cases "view d") (auto simp: fun_eq_iff)
next
  case (Suc m)
  let ?f = "\<lambda>i. nic_out hw (ne_addr dev + NE2000_DMA_PORT) (buf i)" and ?a = "nc_rsar (view d)"
  note ih = Suc.IH [OF Suc_leD [OF Suc.prems]]
  have "card_ready (view (fold ?f [0..<m] d))" using ih assms(2) by (simp add: card_ready_def)
  then have "view (fold ?f [0..<Suc m] d) = card_data (buf m) (view (fold ?f [0..<m] d))"
    using card_outs(10) [OF assms(1)] by simp
  moreover have "(\<lambda>x. if ?a \<le> x \<and> x < ?a + m then buf (x - ?a) else nc_mem (view d) x)(?a + m := buf m) =
      (\<lambda>x. if ?a \<le> x \<and> x < ?a + Suc m then buf (x - ?a) else nc_mem (view d) x)" by (auto simp: fun_eq_iff)
  moreover have "0 < n - m" "n - m = 1 \<longleftrightarrow> Suc m = n" "m \<noteq> n" using Suc.prems by auto
  ultimately show ?case using ih assms(3) by (simp add: card_data_def remote_write_def)
qed

lemma bit6_iff: "(state AND NE2000_ISR_RDC) = NE2000_ISR_RDC \<longleftrightarrow> bit state 6"
proof -
  have b: "bit NE2000_ISR_RDC n \<longleftrightarrow> n = 6" if "n < LENGTH(8)" for n
    using that bit_push_bit_iff [of 6 "1 :: u8" n] by (auto simp: NE2000_ISR_RDC_def bit_1_iff)
  show ?thesis
  proof
    assume "(state AND NE2000_ISR_RDC) = NE2000_ISR_RDC"
    then have "bit (state AND NE2000_ISR_RDC) 6 = bit NE2000_ISR_RDC 6" by simp
    then show "bit state 6" using b [of 6] by (simp add: bit_and_iff)
  next
    assume "bit state 6"
    then show "(state AND NE2000_ISR_RDC) = NE2000_ISR_RDC" by (intro bit_word_eqI) (auto simp: bit_and_iff b)
  qed
qed

lemma card_waits:
  "ne2000_card hw dev view busy \<Longrightarrow> card_ready (view d) \<Longrightarrow> nc_rdc (view d) \<Longrightarrow>
   \<exists>d'. wait_remote hw dev d = Some d' \<and> view d' = view d"
proof (induction "busy d" arbitrary: d rule: less_induct)
  case less
  obtain state d1 where d1: "nic_in hw (ne_addr dev + NE2000_ISR) d = (state, d1)" "view d1 = view d" "bit state 6 \<or> busy d1 < busy d"
    using less.prems unfolding ne2000_card_def by blast
  have rdc: "(state AND NE2000_ISR_RDC) = NE2000_ISR_RDC \<longleftrightarrow> bit state 6"
    by (rule bit6_iff)
  show ?case
  proof (cases "bit state 6")
    case True
    then show ?thesis using d1 rdc by (subst wait_remote.simps) simp
  next
    case False
    then have "wait_remote hw dev d = wait_remote hw dev d1" using d1(1) rdc by (subst wait_remote.simps) simp
    then show ?thesis using less.hyps [of d1] less.prems d1 False by auto
  qed
qed

definition frame_of :: "(nat \<Rightarrow> u8) \<times> u32 \<Rightarrow> u8 list" where
  "frame_of = (\<lambda>(packet, n). map packet [0..<unat n])"

lemma send_packet_wire:
  assumes card: "ne2000_card hw dev view busy" and ready: "card_ready (view d)" and n: "0 < unat n" "unat n < 49152"
  shows "\<exists>d'. send_packet hw dev packet n d = Some d' \<and> card_ready (view d') \<and>
    nc_wire (view d') = nc_wire (view d) @ [frame_of (packet, n)]"
proof -
  let ?r = "nic_out hw" and ?a = "ne_addr dev" and ?cnt = "ucast n :: u16" and ?off = "256 * ucast NE2000_TXBUF :: u16"
  note o = card_outs [OF card]
  define d1 where "d1 = cr_update hw dev (NE2000_CR_RD0 OR NE2000_CR_RD1) NE2000_CR_RD2 d"
  have rd2: "NE2000_CR_RD2 \<in> {NE2000_CR_RD1, NE2000_CR_RD2}" by simp
  have d1: "card_ready (view d1)" "nc_wire (view d1) = nc_wire (view d)"
    unfolding d1_def by (rule card_cr_update(2) [OF card ready rd2]) (simp add: card_cr_update(1) [OF card ready rd2])
  define d2 where "d2 = remote_setup hw dev ?cnt ?off d"
  have cnt: "unat ?cnt = unat n" using n(2) by (simp add: unsigned_ucast_eq take_bit_nat_eq_self)
  have off: "unat ?off = 16384" by (simp add: NE2000_TXBUF_def)
  have d2: "view d2 = (view d1)\<lparr>nc_rsar := 16384, nc_rbcr := unat n\<rparr>"
    using d1(1) by (simp add: d2_def remote_setup_def Let_def d1_def [symmetric] o bytes_of_word16 cnt off del: ucast_id)
  have rd1: "NE2000_CR_RD1 \<in> {NE2000_CR_RD1, NE2000_CR_RD2}" and d2r: "card_ready (view d2)" using d1(1) d2 by simp_all
  define d3 where "d3 = cr_update hw dev (NE2000_CR_RD0 OR NE2000_CR_RD2) NE2000_CR_RD1 d2"
  have d3: "view d3 = (view d2)\<lparr>nc_cr := (nc_cr (view d2) AND NOT (NE2000_CR_RD0 OR NE2000_CR_RD2)) OR NE2000_CR_RD1\<rparr>" "card_ready (view d3)"
    unfolding d3_def by (rule card_cr_update [OF card d2r rd1])+
  have rw: "remote_write (view d3)"
    by (simp add: d3(1) remote_write_def bit_simps NE2000_CR_RD0_def NE2000_CR_RD1_def NE2000_CR_RD2_def)
  have r3: "nc_rsar (view d3) = 16384" "nc_rbcr (view d3) = unat n" by (simp_all add: d3(1) d2)
  define d4 where "d4 = ne2000_write hw dev packet ?cnt ?off d"
  have d4': "d4 = fold (\<lambda>i. nic_out hw (ne_addr dev + NE2000_DMA_PORT) (packet i)) [0..<unat n] d3"
    by (simp add: d4_def ne2000_write_def d3_def d2_def cnt)
  have d4: "view d4 = (view d3)\<lparr>nc_mem := (\<lambda>x. if 16384 \<le> x \<and> x < 16384 + unat n then packet (x - 16384) else nc_mem (view d3) x),
      nc_rsar := 16384 + unat n, nc_rbcr := 0, nc_rdc := True\<rparr>"
    unfolding d4' using card_bytes [OF card d3(2) rw r3(2) n(1) order_refl, where buf = packet, unfolded r3(1)] by simp
  have d4r: "card_ready (view d4)" "nc_rdc (view d4)" "nc_wire (view d4) = nc_wire (view d)"
    using d4 d3 d2 d1 by (simp_all add: card_ready_def)
  obtain d5 where d5: "wait_remote hw dev d4 = Some d5" "view d5 = view d4" using card_waits [OF card d4r(1,2)] by blast
  define d6 where "d6 = ?r (?a + NE2000_TBCR1) (ucast (drop_bit 8 n)) (?r (?a + NE2000_TBCR0) (ucast n) (?r (?a + NE2000_TPSR) NE2000_TXBUF d5))"
  have d6: "view d6 = (view d4)\<lparr>nc_tpsr := 64, nc_tbcr := unat n\<rparr>"
    using d4r(1) d5(2) n(2) by (simp add: d6_def o frame_word_bytes NE2000_TXBUF_def)
  obtain d7 where d7: "nic_in hw (?a + NE2000_CR) d6 = (nc_cr (view d6), d7)" "view d7 = view d6"
    using card d6 d4r(1) unfolding ne2000_card_def by (metis card_ready_simps(3,4))
  define d8 where "d8 = ?r (?a + NE2000_CR) (nc_cr (view d6) OR NE2000_CR_TXP) d7"
  have r6: "card_ready (view d6)" using d6 d4r(1) by simp
  have "bit (nc_cr (view d6) OR NE2000_CR_TXP) 2" by (simp add: bit_simps NE2000_CR_TXP_def)
  moreover have "map (\<lambda>i. nc_mem (view d6) (256 * nc_tpsr (view d6) + i)) [0..<nc_tbcr (view d6)] = frame_of (packet, n)"
    by (simp add: d6 d4 frame_of_def)
  ultimately have d8: "view d8 = (view d6)\<lparr>nc_cr := (nc_cr (view d6) OR NE2000_CR_TXP) AND NOT NE2000_CR_TXP,
      nc_wire := nc_wire (view d) @ [frame_of (packet, n)]\<rparr>"
    using o(1) [of d7] d7(2) r6 d6 d4r(3) by (simp add: d8_def card_command_def Let_def)
  have r8: "card_ready (view d8)" using r6 by (auto simp: d8 card_ready_def bit_simps NE2000_CR_TXP_def)
  have "send_packet hw dev packet n d = Some (?r (?a + NE2000_ISR) NE2000_ISR_RDC d8)"
    using d5(1) d7(1) by (simp add: send_packet_def d4_def [symmetric] transmit_def Let_def d6_def [symmetric] d8_def)
  then show ?thesis using o(9) [OF r8] r8 d8 by simp
qed

subsection \<open>A message is sent in pieces\<close>

lemmas frame_consts = NET_DATA_MINLEN_def NET_DATA_MAXLEN_def ETH_DATA_MINLEN_def ETH_DATA_MAXLEN_def SIZEOF_UDP_HDR_def SIZEOF_ETH_HDR_def

lemma fragment_bounds:
  assumes "fragment len = (cpylen, sndlen)" and "len \<noteq> 0"
  shows "unat cpylen = min (unat len) 1492" and "22 + unat cpylen \<le> unat sndlen" and "60 \<le> unat sndlen" and "unat sndlen \<le> 1514"
proof -
  have "unat len \<le> 38 \<and> cpylen = len \<and> sndlen = 60 \<or> 1492 \<le> unat len \<and> cpylen = 1492 \<and> sndlen = 1514 \<or>
      38 < unat len \<and> unat len < 1492 \<and> cpylen = len \<and> sndlen = 22 + len"
    using assms by (auto simp: fragment_def frame_consts word_le_nat_alt split: if_splits)
  then show "unat cpylen = min (unat len) 1492" and "22 + unat cpylen \<le> unat sndlen" and "60 \<le> unat sndlen" and "unat sndlen \<le> 1514"
    by (auto simp: unat_add_small)
qed

lemma join_bytes16: "ucast (ucast w :: u8) + 256 * ucast (ucast (drop_bit 8 w) :: u8) = (w :: u16)"
proof -
  have w: "unat w < 65536" by (rule order_less_le_trans [OF unsigned_less]) simp
  have "unat (ucast (ucast w :: u8) :: u16) = unat w mod 256"
    by (simp add: unsigned_ucast_eq take_bit_eq_mod unat_mod_distrib)
  moreover have "unat (ucast (ucast (drop_bit 8 w) :: u8) :: u16) = unat w div 256"
    using w by (simp add: unsigned_ucast_eq take_bit_eq_mod drop_bit_eq_div unat_mod_distrib unat_div_distrib mod_less less_mult_imp_div_less)
  ultimately have "unat (ucast (ucast w :: u8) + 256 * ucast (ucast (drop_bit 8 w) :: u8) :: u16) = unat w"
    using w by (simp add: unat_word_ariths take_bit_eq_mod)
  then show ?thesis by (simp add: unsigned_word_eqI)
qed

lemma unat_cut16: "unat (n :: u32) \<le> 1492 \<Longrightarrow> unat (ucast n :: u16) = unat n"
  by (simp add: unsigned_ucast_eq take_bit_nat_eq_self)

lemma fill_packet_fields:
  assumes "unat n \<le> 1492"
  shows "udp_len (fill_packet k p n packet) = ucast n"
    and "packet_bytes (fill_packet k p n packet) = map (mem_view k p) [0..<unat n]"
    and "i < 18 \<Longrightarrow> fill_packet k p n packet i = packet i"
proof -
  show len: "udp_len (fill_packet k p n packet) = ucast n"
    using join_bytes16 [of "ucast n"] by (simp add: udp_len_def packet16_def fill_packet_def put16_def)
  show "packet_bytes (fill_packet k p n packet) = map (mem_view k p) [0..<unat n]"
  proof -
    show ?thesis by (simp add: packet_bytes_def len unat_cut16 [OF assms]) (simp add: fill_packet_def put16_def)
  qed
  show "i < 18 \<Longrightarrow> fill_packet k p n packet i = packet i" by (simp add: fill_packet_def put16_def)
qed

lemma mem_view_add: "mem_view k (p + n) i = mem_view k p (unat n + i)"
  by (simp add: mem_view_def algebra_simps)

definition frames_bytes :: "((nat \<Rightarrow> u8) \<times> u32) list \<Rightarrow> u8 list" where
  "frames_bytes frames = concat (map (\<lambda>(packet, n). packet_bytes packet) frames)"

lemma frames_bytes_simps [simp]: "frames_bytes [] = []" "frames_bytes ((packet, n) # frames) = packet_bytes packet @ frames_bytes frames"
  by (simp_all add: frames_bytes_def)

text \<open>What a frame is: its headers, a length in bounds, and data within the frame.\<close>

definition frame_ok :: "(nat \<Rightarrow> u8) \<Rightarrow> (nat \<Rightarrow> u8) \<times> u32 \<Rightarrow> bool" where
  "frame_ok headers = (\<lambda>(packet, n). (\<forall>i<18. packet i = headers i) \<and> packet_bytes packet \<noteq> [] \<and> length (packet_bytes packet) \<le> 1492 \<and>
     22 + length (packet_bytes packet) \<le> unat n \<and> 60 \<le> unat n \<and> unat n \<le> 1514)"

lemma frame_ok_headers: "(\<And>i. i < 18 \<Longrightarrow> packet' i = packet i) \<Longrightarrow> frame_ok packet' = frame_ok packet"
  by (simp add: frame_ok_def)

lemma send_loop_step:
  assumes card: "ne2000_card hw dev view busy" and ready: "card_ready (view d)" and len: "len \<noteq> 0"
  obtains n sndlen d' where "unat n = min (unat len) 1492" and "frame_ok packet (fill_packet k p n packet, sndlen)"
    and "packet_bytes (fill_packet k p n packet) = map (mem_view k p) [0..<unat n]"
    and "card_ready (view d')" and "nc_wire (view d') = nc_wire (view d) @ [frame_of (fill_packet k p n packet, sndlen)]"
    and "send_loop hw dev k p len packet d = send_loop hw dev k (p + n) (len - n) (fill_packet k p n packet) d'"
proof -
  obtain n sndlen where f: "fragment len = (n, sndlen)" by (cases "fragment len")
  note b = fragment_bounds [OF f len]
  have n: "unat n \<le> 1492" "0 < unat n" using b(1) len by (auto simp: unat_gt_0)
  obtain d' where d': "send_packet hw dev (fill_packet k p n packet) sndlen d = Some d'" "card_ready (view d')"
      "nc_wire (view d') = nc_wire (view d) @ [frame_of (fill_packet k p n packet, sndlen)]"
    using send_packet_wire [OF card ready, of sndlen] b(3,4) by auto
  have "send_loop hw dev k p len packet d = send_loop hw dev k (p + n) (len - n) (fill_packet k p n packet) d'"
    using len d'(1) f by (subst send_loop.simps) simp
  moreover have "frame_ok packet (fill_packet k p n packet, sndlen)"
    using b n fill_packet_fields [OF n(1), where k = k and p = p and packet = packet] by (simp add: frame_ok_def upt_conv_Cons unat_cut16)
  ultimately show ?thesis using b(1) fill_packet_fields(2) [OF n(1), where k = k and p = p and packet = packet] d'(2,3) that by blast
qed

lemma pieces:
  assumes "0 < l"
  shows "(l + 1491) div 1492 = Suc ((l - min l 1492 + 1491) div (1492 :: nat))"
proof (cases "l \<le> 1492")
  case True
  then have "(l + 1491) div 1492 = 1" using assms by (intro div_nat_eqI) simp_all
  then show ?thesis using True by simp
next
  case False
  then have "l + 1491 = (l - 1492 + 1491) + 1492" by simp
  then have "(l + 1491) div 1492 = Suc ((l - 1492 + 1491) div 1492)" by simp
  then show ?thesis using False by simp
qed

lemma send_loop_frames:
  assumes card: "ne2000_card hw dev view busy"
  shows "card_ready (view d) \<Longrightarrow> \<exists>frames last d'. send_loop hw dev k p len packet d = Some (last, d') \<and>
    card_ready (view d') \<and> nc_wire (view d') = nc_wire (view d) @ map frame_of frames \<and>
    frames_bytes frames = map (mem_view k p) [0..<unat len] \<and>
    (\<forall>f \<in> set frames. frame_ok packet f) \<and> length frames = (unat len + 1491) div 1492"
proof (induction "unat len" arbitrary: len p packet d rule: less_induct)
  case less
  show ?case
  proof (cases "len = 0")
    case True
    then show ?thesis using less.prems by (subst send_loop.simps) (simp add: exI [of _ "[]"])
  next
    case False
    obtain n sndlen d' where n: "unat n = min (unat len) 1492" and ok: "frame_ok packet (fill_packet k p n packet, sndlen)"
      and data: "packet_bytes (fill_packet k p n packet) = map (mem_view k p) [0..<unat n]"
      and d': "card_ready (view d')" "nc_wire (view d') = nc_wire (view d) @ [frame_of (fill_packet k p n packet, sndlen)]"
      and step: "send_loop hw dev k p len packet d = send_loop hw dev k (p + n) (len - n) (fill_packet k p n packet) d'"
      by (rule send_loop_step [OF card less.prems False])
    have rest: "unat (len - n) = unat len - unat n" using n by (simp add: unat_sub word_le_nat_alt)
    have pos: "0 < unat len" using False by (simp add: unat_gt_0)
    then have "unat (len - n) < unat len" using n rest by simp
    from less.hyps [OF this d'(1)] obtain frames last d2 where ih:
      "send_loop hw dev k (p + n) (len - n) (fill_packet k p n packet) d' = Some (last, d2)"
      "card_ready (view d2)" "nc_wire (view d2) = nc_wire (view d') @ map frame_of frames"
      "frames_bytes frames = map (mem_view k (p + n)) [0..<unat (len - n)]"
      "\<forall>f \<in> set frames. frame_ok (fill_packet k p n packet) f" "length frames = (unat (len - n) + 1491) div 1492" by blast
    let ?fs = "(fill_packet k p n packet, sndlen) # frames"
    have "map (mem_view k p) [0..<unat n] @ map (mem_view k (p + n)) [0..<unat len - unat n] = map (mem_view k p) [0..<unat len]"
      using n by (intro nth_equalityI) (auto simp: nth_append mem_view_add)
    moreover have "frame_ok (fill_packet k p n packet) = frame_ok packet"
      using n by (intro frame_ok_headers fill_packet_fields(3)) simp_all
    moreover have "length ?fs = (unat len + 1491) div 1492" using ih(6) n rest pos by (simp only: pieces) simp
    ultimately show ?thesis using ih ok data step rest d'(2)
      by (intro exI [of _ ?fs] exI [of _ last] exI [of _ d2]) simp
  qed
qed

lemma packet_headers_any: "i < 18 \<Longrightarrow> packet_headers c hw dev port dest packet i = packet_headers c hw dev port dest (\<lambda>_. 0) i"
  by (auto simp: packet_headers_def Let_def put16_def)

lemma packet_headers_ports:
  "packet16 (packet_headers c hw dev port dest packet) 14 = of_nat port"
  "packet16 (packet_headers c hw dev port dest packet) 16 = ucast dest"
  using join_bytes16 [of "of_nat port"] join_bytes16 [of "ucast dest"] by (simp_all add: packet16_def packet_headers_def Let_def put16_def)

text \<open>The address of a destination: of its node, or of everybody in a build without addresses.\<close>

definition dest_mac :: "pok_config \<Rightarrow> 'd nic \<Rightarrow> u32 \<Rightarrow> nat \<Rightarrow> u8" where
  "dest_mac c hw dest =
     (if NIC_NEEDS_MAC_ADDR hw then snd (pok_node_mac_addr c (snd (pok_port_virtual_node c (unat dest))) (\<lambda>_. 0xFF)) else (\<lambda>_. 0xFF))"

lemma packet_headers_macs:
  "i < 6 \<Longrightarrow> packet_headers c hw dev port dest packet i = dest_mac c hw dest i"
  "i < 6 \<Longrightarrow> packet_headers c hw dev port dest packet (6 + i) = ne_mac dev i"
  "packet16 (packet_headers c hw dev port dest packet) 12 = 0x4242"
  by (simp_all add: packet_headers_def dest_mac_def Let_def put16_def packet16_def)

definition write_step where
  "write_step c hw port data n s = (\<lambda>i (packet, d). case pok_port_virtual_destination c port (of_nat i) (ns_kernel s) of
                 (POK_ERRNO_OK, Some dest) \<Rightarrow>
                   send_loop hw (ns_dev s) (ns_kernel s) data n (packet_headers c hw (ns_dev s) port dest packet) d
               | _ \<Rightarrow> Some (packet, d))"

lemma write_destinations:
  fixes s :: "'d netstate"
  assumes card: "ne2000_card hw (ns_dev s) view busy" and ready: "card_ready (view d)"
    and "\<And>i. i < m \<Longrightarrow> pok_port_virtual_destination c port (of_nat i) (ns_kernel s) = (POK_ERRNO_OK, Some (dest i))"
  shows "\<exists>fs pk d'. for_loop [0..<m] (write_step c hw port data n s) (packet, d) = Some (pk, d') \<and>
    card_ready (view d') \<and> nc_wire (view d') = nc_wire (view d) @ map frame_of (concat fs) \<and>
    length fs = m \<and> (\<forall>i<m. frames_bytes (fs ! i) = map (mem_view (ns_kernel s) data) [0..<unat n] \<and>
      length (fs ! i) = (unat n + 1491) div 1492 \<and>
      (\<forall>f \<in> set (fs ! i). frame_ok (packet_headers c hw (ns_dev s) port (dest i) (\<lambda>_. 0)) f))"
  using assms(3)
proof (induction m)
  case 0
  then show ?case using ready by (simp add: exI [of _ "[]"])
next
  case (Suc m)
  from Suc.IH [OF Suc.prems [OF less_SucI]] obtain fs pk d' where ih: "for_loop [0..<m] (write_step c hw port data n s) (packet, d) = Some (pk, d')"
      "card_ready (view d')" "nc_wire (view d') = nc_wire (view d) @ map frame_of (concat fs)"
      "length fs = m" "\<forall>i<m. frames_bytes (fs ! i) = map (mem_view (ns_kernel s) data) [0..<unat n] \<and>
      length (fs ! i) = (unat n + 1491) div 1492 \<and>
      (\<forall>f \<in> set (fs ! i). frame_ok (packet_headers c hw (ns_dev s) port (dest i) (\<lambda>_. 0)) f)" by blast
  let ?pk = "packet_headers c hw (ns_dev s) port (dest m) pk"
  obtain frames pk' d2 where f: "send_loop hw (ns_dev s) (ns_kernel s) data n ?pk d' = Some (pk', d2)"
      "card_ready (view d2)" "nc_wire (view d2) = nc_wire (view d') @ map frame_of frames"
      "frames_bytes frames = map (mem_view (ns_kernel s) data) [0..<unat n]"
      "\<forall>f \<in> set frames. frame_ok ?pk f" "length frames = (unat n + 1491) div 1492"
    using send_loop_frames [OF card ih(2), where k = "ns_kernel s" and p = data and len = n and packet = ?pk] by blast
  have "frame_ok ?pk = frame_ok (packet_headers c hw (ns_dev s) port (dest m) (\<lambda>_. 0))"
    by (intro frame_ok_headers packet_headers_any)
  moreover have "for_loop [0..<Suc m] (write_step c hw port data n s) (packet, d) = Some (pk', d2)"
    using ih(1) f(1) Suc.prems [of m] by (simp add: for_loop_append write_step_def)
  ultimately show ?case using ih f(2-6)
    by (intro exI [of _ "fs @ [frames]"] exI [of _ pk'] exI [of _ d2]) (auto simp: nth_append less_Suc_eq)
qed

text \<open>What a receiver finds in a frame.\<close>

definition frame_word :: "u8 list \<Rightarrow> nat \<Rightarrow> u16" where
  "frame_word f = packet16 (\<lambda>i. f ! i)"

definition frame_data :: "u8 list \<Rightarrow> u8 list" where
  "frame_data f = take (unat (frame_word f 18)) (drop 22 f)"

lemma frame_of_fields:
  assumes "frame_ok headers (packet, n)"
  shows "length (frame_of (packet, n)) = unat n" and "60 \<le> unat n" and "unat n \<le> 1514"
    and "frame_data (frame_of (packet, n)) = packet_bytes packet" and "packet_bytes packet \<noteq> []"
    and "i < 18 \<Longrightarrow> frame_of (packet, n) ! i = headers i"
    and "i < 17 \<Longrightarrow> frame_word (frame_of (packet, n)) i = packet16 headers i"
proof -
  have ok: "\<And>i. i < 18 \<Longrightarrow> packet i = headers i" "22 + length (packet_bytes packet) \<le> unat n" "60 \<le> unat n" "unat n \<le> 1514"
    using assms by (simp_all add: frame_ok_def)
  show "length (frame_of (packet, n)) = unat n" "60 \<le> unat n" "unat n \<le> 1514" using ok by (simp_all add: frame_of_def)
  show "packet_bytes packet \<noteq> []" using assms by (simp add: frame_ok_def)
  have at: "frame_of (packet, n) ! i = packet i" if "i < 60" for i using ok(3) that by (simp add: frame_of_def)
  show "i < 18 \<Longrightarrow> frame_of (packet, n) ! i = headers i" using at ok(1) by simp
  show "i < 17 \<Longrightarrow> frame_word (frame_of (packet, n)) i = packet16 headers i"
    using at ok(1) by (simp add: frame_word_def packet16_def)
  have "frame_word (frame_of (packet, n)) 18 = udp_len packet" using at by (simp add: frame_word_def packet16_def udp_len_def)
  then show "frame_data (frame_of (packet, n)) = packet_bytes packet"
    using ok(2) by (intro nth_equalityI) (simp_all add: frame_data_def packet_bytes_def frame_of_def)
qed

lemma frames_bytes_of:
  "(\<forall>f \<in> set frames. frame_ok headers f) \<Longrightarrow> concat (map frame_data (map frame_of frames)) = frames_bytes frames"
proof (induction frames)
  case (Cons f frames)
  then show ?case using frame_of_fields(4) [of headers] by (cases f) simp
qed simp


text \<open>A card as documented, on which a transfer shows at the second reading of the status.\<close>

definition demo_card :: "(ne_card \<times> nat) nic" where
  "demo_card = \<lparr>hw_inb = (\<lambda>p (c, b). if p = 0 then (nc_cr c, (c, b)) else if b = 0 then (if nc_rdc c then 0x40 else 0, (c, 1)) else (0, (c, b - 1))),
     hw_outb = (\<lambda>p v (c, b). (if p = 0 then card_command v c
       else if p = 4 then c\<lparr>nc_tpsr := unat v\<rparr> else if p = 5 then c\<lparr>nc_tbcr := low_byte (nc_tbcr c) v\<rparr>
       else if p = 6 then c\<lparr>nc_tbcr := high_byte (nc_tbcr c) v\<rparr> else if p = 7 then c\<lparr>nc_rdc := (nc_rdc c \<and> \<not> bit v 6)\<rparr>
       else if p = 8 then c\<lparr>nc_rsar := low_byte (nc_rsar c) v\<rparr> else if p = 9 then c\<lparr>nc_rsar := high_byte (nc_rsar c) v\<rparr>
       else if p = 10 then c\<lparr>nc_rbcr := low_byte (nc_rbcr c) v\<rparr> else if p = 11 then c\<lparr>nc_rbcr := high_byte (nc_rbcr c) v\<rparr>
       else if p = 16 then card_data v c else c, b)),
     hw_inl = (\<lambda>_ d. (0, d)), hw_outl = (\<lambda>_ _ d. d),
     RECV_BUF_SZ = 20, NB_INPUT_VIRTUALPORT = 2, NB_GLOBAL_PORTS = 2, invalid_local_port = 255,
     NIC_NEEDS_MAC_ADDR = False, pci_handler = 4096, nic_junk = (\<lambda>_. 0)\<rparr>"

definition demo_card_state :: "(ne_card \<times> nat) netstate" where
  "demo_card_state = \<lparr>ns_card = (\<lparr>nc_cr = 2, nc_rsar = 0, nc_rbcr = 0, nc_tpsr = 0, nc_tbcr = 0, nc_rdc = False,
     nc_mem = (\<lambda>_. 0), nc_wire = []\<rparr>, 1), ns_dev = (ns_dev demo_net)\<lparr>ne_addr := 0\<rparr>, ns_kernel = demo_state, ns_idt = (\<lambda>_. idt_null), ns_init = True\<rparr>"

lemma demo_card_works: "ne_addr dev = 0 \<Longrightarrow> ne2000_card demo_card dev fst snd"
  by (simp add: ne2000_card_def nic_in_def nic_out_def demo_card_def NE2000_CR_def NE2000_RSAR0_def NE2000_RSAR1_def NE2000_RBCR0_def
    NE2000_RBCR1_def NE2000_TPSR_def NE2000_TBCR0_def NE2000_TBCR1_def NE2000_ISR_def NE2000_DMA_PORT_def split: prod.splits)


subsection \<open>Finding a device on the bus\<close>

text \<open>Reading a register of the configuration space: the address is written, the data read.\<close>

definition answers_from :: "'d nic \<Rightarrow> (u32 \<Rightarrow> u32) \<Rightarrow> bool" where
  "answers_from hw cfg \<longleftrightarrow> (\<forall>a d. fst (hw_inl hw PCI_CONFIG_DATA (hw_outl hw PCI_CONFIG_ADDRESS a d)) = cfg a)"

definition pci_cfg :: "(u32 \<Rightarrow> u32) \<Rightarrow> nat \<times> nat \<times> nat \<Rightarrow> u32 \<Rightarrow> u32" where
  "pci_cfg cfg = (\<lambda>(b, dv, f) reg. drop_bit (8 * unat (reg AND 3)) (cfg (pci_address (of_nat b) (of_nat dv) (of_nat f) reg)))"

definition pci_matches :: "(u32 \<Rightarrow> u32) \<Rightarrow> s_pci_device \<Rightarrow> nat \<times> nat \<times> nat \<Rightarrow> bool" where
  "pci_matches cfg p fn \<longleftrightarrow> ucast (pci_cfg cfg fn PCI_REG_VENDORID) = pci_vendorid p \<and>
     ucast (pci_cfg cfg fn PCI_REG_DEVICEID) = pci_deviceid p \<and> pci_cfg cfg fn PCI_REG_HEADERTYPE = 0"

definition pci_found :: "(u32 \<Rightarrow> u32) \<Rightarrow> s_pci_device \<Rightarrow> nat \<times> nat \<times> nat \<Rightarrow> s_pci_device" where
  "pci_found cfg p = (\<lambda>(b, dv, f). p\<lparr>pci_bus := of_nat b, pci_dev := of_nat dv, pci_fun := of_nat f,
     pci_bar0 := pci_cfg cfg (b, dv, f) PCI_REG_BAR0, pci_irq_line := ucast (ucast (pci_cfg cfg (b, dv, f) PCI_REG_IRQLINE) :: u8)\<rparr>)"

lemma pci_read_answer:
  assumes "answers_from hw cfg"
  obtains d' where "pci_read hw (of_nat b) (of_nat dv) (of_nat f) reg d = (pci_cfg cfg (b, dv, f) reg, d')"
proof -
  let ?a = "pci_address (of_nat b) (of_nat dv) (of_nat f) reg"
  obtain v d' where r: "hw_inl hw PCI_CONFIG_DATA (hw_outl hw PCI_CONFIG_ADDRESS ?a d) = (v, d')" by (rule prod.exhaust)
  moreover have "v = cfg ?a" using assms r unfolding answers_from_def by (metis fst_conv)
  ultimately show ?thesis by (intro that [of d']) (simp add: pci_read_def pci_cfg_def)
qed

lemma pci_open_loop_find:
  assumes a: "answers_from hw cfg" and "\<forall>(b, dv, f) \<in> set fns. b < 65536 \<and> dv < 65536 \<and> f < 65536"
  shows "fst (pci_open_loop hw p fns d) = map_option (pci_found cfg p) (find (pci_matches cfg p) fns)"
  using assms(2)
proof (induction fns arbitrary: d)
  case (Cons fn fns)
  obtain b dv f where fn: "fn = (b, dv, f)" by (cases fn) auto
  note read = pci_read_answer [OF a, of b dv f]
  obtain d1 where r1: "pci_read hw (of_nat b) (of_nat dv) (of_nat f) PCI_REG_VENDORID d = (pci_cfg cfg fn PCI_REG_VENDORID, d1)"
    using read unfolding fn by blast
  obtain d2 where r2: "pci_read hw (of_nat b) (of_nat dv) (of_nat f) PCI_REG_DEVICEID d1 = (pci_cfg cfg fn PCI_REG_DEVICEID, d2)"
    using read unfolding fn by blast
  obtain d3 where r3: "pci_read hw (of_nat b) (of_nat dv) (of_nat f) PCI_REG_HEADERTYPE d2 = (pci_cfg cfg fn PCI_REG_HEADERTYPE, d3)"
    using read unfolding fn by blast
  obtain d4 where r4: "pci_read hw (of_nat b) (of_nat dv) (of_nat f) PCI_REG_BAR0 d3 = (pci_cfg cfg fn PCI_REG_BAR0, d4)"
    using read unfolding fn by blast
  obtain d5 where r5: "pci_read hw (of_nat b) (of_nat dv) (of_nat f) PCI_REG_IRQLINE d4 = (pci_cfg cfg fn PCI_REG_IRQLINE, d5)"
    using read unfolding fn by blast
  have w: "ucast (of_nat m :: u16) = (of_nat m :: u32)" if "m < 65536" for m
  proof -
    have "unat (ucast (of_nat m :: u16) :: u32) = unat (of_nat m :: u32)"
      using that by (simp add: unat_of_nat take_bit_nat_eq_self)
    then show ?thesis by (rule unsigned_word_eqI)
  qed
  have s: "b < 65536" "dv < 65536" "f < 65536" and rest: "\<forall>(b, dv, f) \<in> set fns. b < 65536 \<and> dv < 65536 \<and> f < 65536"
    using Cons.prems by (auto simp: fn)
  show ?case
    using Cons.IH [OF rest] r1 r2 r3 r4 r5 w [OF s(1)] w [OF s(2)] w [OF s(3)]
    by (simp add: fn pci_matches_def pci_found_def pci_read_reg_def Let_def)
qed simp

lemma pci_functions_small: "\<forall>(b, dv, f) \<in> set pci_functions. b < 65536 \<and> dv < 65536 \<and> f < 65536"
  by (auto simp: pci_functions_def PCI_BUS_MAX_def PCI_DEV_MAX_def PCI_FUN_MAX_def)

text \<open>A device is registered with the first function of the bus, in the order of bus, device and function, that has its
  numbers and a plain header. The partition gets the 16 bits of the address in the first base address register, and as
  many as the device declared, as its range of ports; nothing else of the kernel changes. Without such a function
  nothing changes at all. The gate of the interrupt of the device names the null segment, so the interrupt cannot be
  delivered.\<close>

theorem pci_register_first_match:
  fixes s :: "'d netstate" and p :: s_pci_device and cfg :: "u32 \<Rightarrow> u32"
  assumes "answers_from hw cfg"
  defines "found \<equiv> find (pci_matches cfg p) pci_functions"
  shows "\<exists>d. pci_register hw p part s = (case found of
      None \<Rightarrow> (False, p, s\<lparr>ns_card := d\<rparr>)
    | Some f \<Rightarrow> let p1 = pci_found cfg p f; io = ucast (pci_bar0 p1 AND NOT 0x1F) in
        (True, p1, s\<lparr>ns_card := d,
           ns_kernel := (ns_kernel s)\<lparr>pok_partitions := (pok_partitions (ns_kernel s))(part :=
             (pok_partitions (ns_kernel s) part)\<lparr>p_io_min := io, p_io_max := io + pci_io_range p\<rparr>)\<rparr>,
           ns_idt := (ns_idt s)(32 + unat (pci_irq_line p1) :=
             \<lparr>i_offset = pci_handler hw, i_segsel = 1, i_type = IDTE_INTERRUPT, i_d = True, i_dpl = 0, i_present = True\<rparr>)\<rparr>))"
proof -
  obtain r d where o: "pci_open hw p (ns_card s) = (r, d)" by (cases "pci_open hw p (ns_card s)")
  then have r: "r = map_option (pci_found cfg p) found"
    using pci_open_loop_find [OF assms(1) pci_functions_small, of p "ns_card s"] by (simp add: pci_open_def found_def)
  have "pci_io_range (pci_found cfg p f) = pci_io_range p" for f by (cases f) (simp add: pci_found_def)
  then show ?thesis using o r
    by (cases found) (auto simp: pci_register_def pok_idt_set_gate_def GDT_CORE_CODE_SEGMENT_def Let_def)
qed

text \<open>A bus whose only card is function 1 of the first device.\<close>

definition demo_bus :: "u32 \<Rightarrow> u32" where
  "demo_bus a = (if a = 0x80000100 then 0x802910EC else if a = 0x8000010C then 0x2000 else if a = 0x80000110 then 0xC101
     else if a = 0x8000013C then 0x10B else 0xFFFFFFFF)"

definition demo_pci_nic :: "u32 nic" where
  "demo_pci_nic = \<lparr>hw_inb = (\<lambda>_ d. (0, d)), hw_outb = (\<lambda>_ _ d. d), hw_inl = (\<lambda>_ d. (demo_bus d, d)), hw_outl = (\<lambda>_ a d. a),
     RECV_BUF_SZ = 20, NB_INPUT_VIRTUALPORT = 2, NB_GLOBAL_PORTS = 2, invalid_local_port = 255,
     NIC_NEEDS_MAC_ADDR = False, pci_handler = 4096, nic_junk = (\<lambda>_. 0)\<rparr>"

definition demo_device :: s_pci_device where
  "demo_device = \<lparr>pci_bus = 0, pci_dev = 0, pci_fun = 0, pci_vendorid = 0x10ec, pci_deviceid = 0x8029,
       pci_irq_line = 0, pci_io_range = 16, pci_bar0 = 0\<rparr>"

lemma demo_bus_find: "find (pci_matches demo_bus demo_device) pci_functions = Some (0, 0, 1)"
proof -
  obtain fns where f: "pci_functions = (0, 0, 0) # (0, 0, 1) # fns"
    by (simp add: pci_functions_def PCI_BUS_MAX_def PCI_DEV_MAX_def PCI_FUN_MAX_def upt_rec)
  show ?thesis unfolding f
    by (simp add: pci_matches_def pci_cfg_def pci_address_def demo_bus_def demo_device_def PCI_REG_VENDORID_def
        PCI_REG_DEVICEID_def PCI_REG_HEADERTYPE_def)
qed

lemma pci_register_first_match_witness:
  "\<exists>p1 s1. pci_register demo_pci_nic demo_device 1 \<lparr>ns_card = 0, ns_dev = ns_dev demo_net, ns_kernel = demo_state,
       ns_idt = (\<lambda>_. idt_null), ns_init = False\<rparr> = (True, p1, s1) \<and> pci_fun p1 = 1 \<and>
     p_io_min (pok_partitions (ns_kernel s1) 1) = 0xC100 \<and> p_io_max (pok_partitions (ns_kernel s1) 1) = 0xC110 \<and>
     i_segsel (ns_idt s1 43) = 1"
proof -
  have "answers_from demo_pci_nic demo_bus" by (simp add: answers_from_def demo_pci_nic_def)
  from pci_register_first_match [OF this, of demo_device 1 "\<lparr>ns_card = 0, ns_dev = ns_dev demo_net, ns_kernel = demo_state,
       ns_idt = (\<lambda>_. idt_null), ns_init = False\<rparr>", unfolded demo_bus_find option.case Let_def]
  obtain d where "pci_register demo_pci_nic demo_device 1 \<lparr>ns_card = 0, ns_dev = ns_dev demo_net, ns_kernel = demo_state,
       ns_idt = (\<lambda>_. idt_null), ns_init = False\<rparr> = (True, pci_found demo_bus demo_device (0, 0, 1), d)"
     "p_io_min (pok_partitions (ns_kernel d) 1) = ucast (pci_bar0 (pci_found demo_bus demo_device (0, 0, 1)) AND NOT 0x1F)"
     "p_io_max (pok_partitions (ns_kernel d) 1) = ucast (pci_bar0 (pci_found demo_bus demo_device (0, 0, 1)) AND NOT 0x1F) + 16"
     "i_segsel (ns_idt d (32 + unat (pci_irq_line (pci_found demo_bus demo_device (0, 0, 1))))) = 1"
    by (auto simp: demo_device_def)
  moreover have "pci_fun (pci_found demo_bus demo_device (0, 0, 1)) = 1" "pci_bar0 (pci_found demo_bus demo_device (0, 0, 1)) = 0xC101"
    "pci_irq_line (pci_found demo_bus demo_device (0, 0, 1)) = 11"
    by (simp_all add: pci_found_def pci_cfg_def pci_address_def demo_bus_def PCI_REG_BAR0_def PCI_REG_IRQLINE_def)
  ultimately show ?thesis by auto
qed

end
