(* ===== verification/Pok_Sparc.thy ===== *)
theory Pok_Sparc
  imports Pok_Syscall
begin

text \<open>
  The port to the SPARC (\<open>kernel/arch/sparc\<close>, board \<open>leon3\<close>): the tables of the memory management unit and how the
  unit reads them, traps, system calls, whose frames are loaded and stored through it, contexts of threads, the timer, and
  the memory for partitions. The memory that is reached without translation is a function from addresses to words, with
  the registers of the devices in it; the tables of the unit are arrays of their own, at the addresses the linker gave
  them. The rest of the kernel is a parameter: the system calls themselves and the scheduler.
\<close>

unbundle bit_operations_syntax

subsection \<open>The state\<close>

record pok_space =
  phys_base :: u32
  space_size :: u32

datatype sparc_traps_handler = H_pok_arch_sc_int | H_timer_isr

record sparc_state =
  spaces :: "nat \<Rightarrow> pok_space"
  mmu_contexts_tab :: "nat \<Rightarrow> u32"
  mmu_level1_tab :: "nat \<Rightarrow> nat \<Rightarrow> u32"
  mmu_level2_tab :: "nat \<Rightarrow> nat \<Rightarrow> u32"
  mmu_regs :: "u32 \<Rightarrow> u32"
  sparc_mem :: "u32 \<Rightarrow> u32"
  heap_end :: u32
  pok_arch_sp :: u32
  pok_sparc_isr :: "nat \<Rightarrow> sparc_traps_handler option"
  psr :: u32
  sparc_kernel :: kstate

record sparc_board =
  SPARC_NB_PARTITIONS :: nat
  contexts_addr :: u32
  level1_addr :: u32
  level2_addr :: u32
  sparc_idlestack :: u32
  SPARC_TIMER_FREQUENCY :: u32
  core_syscall :: "u32 \<Rightarrow> pok_syscall_args_t \<Rightarrow> pok_syscall_info_t \<Rightarrow> sparc_state \<Rightarrow> (u32 \<times> sparc_state) option"
  sparc_sched :: "sparc_state \<Rightarrow> sparc_state option"

subsection \<open>Constants\<close>

definition MM_ET_INVALID :: u32 where "MM_ET_INVALID = 0"
definition MM_ET_PTD :: u32 where "MM_ET_PTD = 1"
definition MM_ET_PTE :: u32 where "MM_ET_PTE = 2"
definition MM_ACC_RWE :: u32 where "MM_ACC_RWE = push_bit 2 3"
definition MM_ACC_S_RWE :: u32 where "MM_ACC_S_RWE = push_bit 2 7"
definition MM_CACHEABLE :: u32 where "MM_CACHEABLE = push_bit 7 1"
definition MM_LVL1_ENTRIES_NBR :: nat where "MM_LVL1_ENTRIES_NBR = 256"
definition MM_LVL2_ENTRIES_NBR :: nat where "MM_LVL2_ENTRIES_NBR = 64"
definition mm_index1 :: "u32 \<Rightarrow> nat" where "mm_index1 addr = unat (drop_bit 24 addr AND 0xFF)"
definition mm_index2 :: "u32 \<Rightarrow> nat" where "mm_index2 addr = unat (drop_bit 18 addr AND 0x3F)"
definition MMU_CTRL_REG :: u32 where "MMU_CTRL_REG = 0"
definition MMU_CTXTBL_PTR :: u32 where "MMU_CTXTBL_PTR = 0x100"
definition MMU_CTX_REG :: u32 where "MMU_CTX_REG = 0x200"
definition SPARC_RAM_ADDR :: u32 where "SPARC_RAM_ADDR = 0x40000000"
definition SPARC_PROC_FREQ :: u32 where "SPARC_PROC_FREQ = 50000000"
definition SPARC_PAGE_SIZE :: u32 where "SPARC_PAGE_SIZE = 262144"
definition SPARC_PARTITION_SIZE :: u32 where "SPARC_PARTITION_SIZE = SPARC_PAGE_SIZE"
definition SPARC_PARTITION_BASE_VADDR :: u32 where "SPARC_PARTITION_BASE_VADDR = 0"
definition SPARC_TRAP_IRQ_BASE :: nat where "SPARC_TRAP_IRQ_BASE = 0x10"
definition SPARC_TRAP_SYSCALL_BASE :: nat where "SPARC_TRAP_SYSCALL_BASE = 0x80"
definition I0_OFFSET :: u32 where "I0_OFFSET = 0x20"
definition I1_OFFSET :: u32 where "I1_OFFSET = 0x24"
definition I2_OFFSET :: u32 where "I2_OFFSET = 0x28"
definition I3_OFFSET :: u32 where "I3_OFFSET = 0x2c"
definition I4_OFFSET :: u32 where "I4_OFFSET = 0x30"
definition I5_OFFSET :: u32 where "I5_OFFSET = 0x34"
definition PC_OFFSET :: u32 where "PC_OFFSET = 0x4c"
definition NPC_OFFSET :: u32 where "NPC_OFFSET = 0x50"
definition RESTORE_CNT_OFFSET :: u32 where "RESTORE_CNT_OFFSET = 0x54"
definition PSR_ET :: u32 where "PSR_ET = 0x20"
definition PSR_PIL :: "u32 \<Rightarrow> u32" where "PSR_PIL pil = push_bit 8 (pil AND 0xF)"

lemmas sparc_consts = MM_ET_INVALID_def MM_ET_PTD_def MM_ET_PTE_def MM_ACC_RWE_def MM_ACC_S_RWE_def MM_CACHEABLE_def
  MM_LVL1_ENTRIES_NBR_def MM_LVL2_ENTRIES_NBR_def mm_index1_def mm_index2_def MMU_CTRL_REG_def MMU_CTXTBL_PTR_def MMU_CTX_REG_def
  SPARC_RAM_ADDR_def SPARC_PAGE_SIZE_def SPARC_PARTITION_SIZE_def SPARC_PARTITION_BASE_VADDR_def
lemmas sparc_offsets = I0_OFFSET_def I1_OFFSET_def I2_OFFSET_def I3_OFFSET_def I4_OFFSET_def I5_OFFSET_def
  PC_OFFSET_def NPC_OFFSET_def RESTORE_CNT_OFFSET_def

subsection \<open>Memory and devices\<close>

definition outw :: "u32 \<Rightarrow> u32 \<Rightarrow> sparc_state \<Rightarrow> sparc_state" where
  "outw a v s = s\<lparr>sparc_mem := (sparc_mem s)(a := v)\<rparr>"

definition inw :: "u32 \<Rightarrow> sparc_state \<Rightarrow> u32" where
  "inw a s = sparc_mem s a"

text \<open>A byte of a word; the first is the most significant one.\<close>

definition sparc_inb :: "u32 \<Rightarrow> sparc_state \<Rightarrow> u8" where
  "sparc_inb a s = ucast (drop_bit (8 * (3 - unat a mod 4)) (sparc_mem s (a AND NOT 3)))"

subsection \<open>Address spaces\<close>

definition sparc_create_space :: "sparc_board \<Rightarrow> nat \<Rightarrow> u32 \<Rightarrow> u32 \<Rightarrow> sparc_state \<Rightarrow> pok_ret_t \<times> sparc_state" where
  "sparc_create_space b partition_id addr sz s =
     (if sz > SPARC_PARTITION_SIZE then (POK_ERRNO_SIZE, s)
      else if addr AND (SPARC_PAGE_SIZE - 1) \<noteq> 0 then (POK_ERRNO_EFAULT, s)
      else let as_ptd = mm_index1 SPARC_PARTITION_BASE_VADDR; as_pte = mm_index2 SPARC_PARTITION_BASE_VADDR;
               l2 = level2_addr b + of_nat (4 * MM_LVL2_ENTRIES_NBR * partition_id)
      in (POK_ERRNO_OK, s\<lparr>
        spaces := (spaces s)(partition_id := \<lparr>phys_base = addr, space_size = sz\<rparr>),
        mmu_level1_tab := (mmu_level1_tab s)(partition_id := (mmu_level1_tab s partition_id)(as_ptd := drop_bit 4 l2 OR MM_ET_PTD)),
        mmu_level2_tab := (mmu_level2_tab s)(partition_id := (mmu_level2_tab s partition_id)(as_pte :=
          drop_bit 4 addr OR MM_ACC_RWE OR MM_ET_PTE OR MM_CACHEABLE))\<rparr>))"

definition sparc_space_switch :: "nat \<Rightarrow> nat \<Rightarrow> sparc_state \<Rightarrow> pok_ret_t \<times> sparc_state" where
  "sparc_space_switch old_partition_id new_partition_id s =
     (POK_ERRNO_OK, s\<lparr>mmu_regs := (mmu_regs s)(MMU_CTX_REG := of_nat new_partition_id)\<rparr>)"

definition sparc_space_base_vaddr :: "u32 \<Rightarrow> u32" where
  "sparc_space_base_vaddr addr = SPARC_PARTITION_BASE_VADDR"

definition sparc_space_context_create :: "nat \<Rightarrow> u32 \<Rightarrow> u32 \<Rightarrow> u32 \<Rightarrow> u32 \<Rightarrow> sparc_state \<Rightarrow> u32 \<times> sparc_state" where
  "sparc_space_context_create pid entry_rel stack_rel arg1 arg2 s =
     (let ctx = phys_base (spaces s pid) + stack_rel - 0x40
      in (SPARC_PARTITION_BASE_VADDR + stack_rel - 0x40,
          outw (ctx - I1_OFFSET) arg2 (outw (ctx - I0_OFFSET) arg1 (outw (ctx - NPC_OFFSET) (entry_rel + 4)
            (outw (ctx - PC_OFFSET) entry_rel (outw (ctx - RESTORE_CNT_OFFSET) 1 s))))))"

text \<open>The kernel is a page of the first level in every context, for the supervisor only.\<close>

definition sparc_tables_init :: "sparc_board \<Rightarrow> sparc_state \<Rightarrow> sparc_state" where
  "sparc_tables_init b s =
     (let n = SPARC_NB_PARTITIONS b; kernel_pte = mm_index1 SPARC_RAM_ADDR
      in s\<lparr>mmu_contexts_tab := (\<lambda>i. if i < n then drop_bit 4 (level1_addr b + of_nat (4 * MM_LVL1_ENTRIES_NBR * i)) OR MM_ET_PTD
                               else mmu_contexts_tab s i),
           mmu_level1_tab := (\<lambda>i j. if i < n \<and> j = kernel_pte
                               then drop_bit 4 SPARC_RAM_ADDR OR MM_ACC_S_RWE OR MM_ET_PTE OR MM_CACHEABLE
                               else if i < n \<and> j < MM_LVL1_ENTRIES_NBR then MM_ET_INVALID else mmu_level1_tab s i j),
           mmu_level2_tab := (\<lambda>i j. if i < n \<and> j < MM_LVL2_ENTRIES_NBR then MM_ET_INVALID else mmu_level2_tab s i j)\<rparr>)"

definition sparc_space_init :: "sparc_board \<Rightarrow> sparc_state \<Rightarrow> sparc_state" where
  "sparc_space_init b s =
     (let s1 = sparc_tables_init b s;
          s2 = s1\<lparr>mmu_regs := (mmu_regs s1)(MMU_CTXTBL_PTR := drop_bit 4 (contexts_addr b))\<rparr>;
          s3 = snd (sparc_space_switch 0 0 s2)
      in s3\<lparr>mmu_regs := (mmu_regs s3)(MMU_CTRL_REG := 1)\<rparr>)"

text \<open>Memory for partitions: the next page behind the end of what was given out, a whole page behind it when the end is
  the start of a page.\<close>

definition sparc_mem_alloc :: "u32 \<Rightarrow> sparc_state \<Rightarrow> u32 \<times> sparc_state" where
  "sparc_mem_alloc sz s =
     (let res = (heap_end s + SPARC_PAGE_SIZE) AND NOT (SPARC_PAGE_SIZE - 1) in (res, s\<lparr>heap_end := res + sz\<rparr>))"

subsection \<open>Traps, interrupts and the processor state\<close>

definition traps_init :: "sparc_state \<Rightarrow> sparc_state" where
  "traps_init s = s\<lparr>pok_sparc_isr := (\<lambda>i. if i < 256 then None else pok_sparc_isr s i)\<rparr>"

definition psr_enable_traps :: "sparc_state \<Rightarrow> sparc_state" where
  "psr_enable_traps s = s\<lparr>psr := psr s OR PSR_ET\<rparr>"

definition psr_disable_traps :: "sparc_state \<Rightarrow> sparc_state" where
  "psr_disable_traps s = s\<lparr>psr := psr s AND NOT PSR_ET\<rparr>"

definition psr_disable_interupt :: "sparc_state \<Rightarrow> sparc_state" where
  "psr_disable_interupt s = s\<lparr>psr := (psr s AND NOT (push_bit 8 0xF)) OR PSR_PIL 0xF\<rparr>"

definition psr_enable_interupt :: "sparc_state \<Rightarrow> sparc_state" where
  "psr_enable_interupt s = s\<lparr>psr := (psr s AND NOT (push_bit 8 0xF)) OR PSR_PIL 0\<rparr>"

definition sparc_event_register :: "nat \<Rightarrow> sparc_traps_handler \<Rightarrow> sparc_state \<Rightarrow> pok_ret_t \<times> sparc_state" where
  "sparc_event_register vector handler s =
     (if pok_sparc_isr s vector = None then (POK_ERRNO_OK, s\<lparr>pok_sparc_isr := (pok_sparc_isr s)(vector := Some handler)\<rparr>)
      else (POK_ERRNO_UNAVAILABLE, s))"

definition sparc_syscalls_init :: "sparc_state \<Rightarrow> sparc_state" where
  "sparc_syscalls_init s = snd (sparc_event_register (SPARC_TRAP_SYSCALL_BASE + 2) H_pok_arch_sc_int s)"

definition sparc_arch_init :: "sparc_board \<Rightarrow> sparc_state \<Rightarrow> pok_ret_t \<times> sparc_state" where
  "sparc_arch_init b s =
     (POK_ERRNO_OK, sparc_syscalls_init (sparc_space_init b (psr_enable_traps (psr_disable_interupt (traps_init s)))))"

definition sparc_preempt_disable :: "sparc_state \<Rightarrow> pok_ret_t \<times> sparc_state" where
  "sparc_preempt_disable s = (POK_ERRNO_OK, psr_disable_interupt s)"

definition sparc_preempt_enable :: "sparc_state \<Rightarrow> pok_ret_t \<times> sparc_state" where
  "sparc_preempt_enable s = (POK_ERRNO_OK, psr_enable_interupt s)"

definition sparc_thread_stack_addr :: "kstate \<Rightarrow> u32 \<Rightarrow> nat \<Rightarrow> u32 \<Rightarrow> u32" where
  "sparc_thread_stack_addr k stack_size partition_id local_thread_id =
     p_size (pok_partitions k partition_id) - local_thread_id * stack_size"

subsection \<open>Translated memory\<close>

text \<open>
  The kernel runs with the memory management unit on: what it loads and stores with a plain pointer is translated, with
  the tables of the current context. The walk over up to three levels is the one of the processor (SPARC V8, appendix H).
\<close>

text \<open>The type of an entry, the table it points to, its access bits.\<close>

definition entry_type :: "u32 \<Rightarrow> nat" where "entry_type e = unat e mod 4"
definition entry_table :: "u32 \<Rightarrow> nat" where "entry_table e = 64 * (unat e div 4)"
definition entry_acc :: "u32 \<Rightarrow> nat" where "entry_acc e = unat e div 4 mod 8"
definition entry_page :: "u32 \<Rightarrow> nat" where "entry_page e = 4096 * (unat e div 256)"

text \<open>An entry that ends the walk at a level maps all that is below it at this level.\<close>

fun mmu_walk :: "(nat \<Rightarrow> u32) \<Rightarrow> nat \<Rightarrow> nat \<Rightarrow> (nat \<times> nat) list \<Rightarrow> (nat \<times> nat) option" where
  "mmu_walk rd table va [] = None"
| "mmu_walk rd table va ((region, n) # levels) =
     (let e = rd (table + 4 * (va div region mod n)) in
      if entry_type e = 1 then mmu_walk rd (entry_table e) va levels
      else if entry_type e = 2 then Some (region * (entry_page e div region) + va mod region, entry_acc e)
      else None)"

definition mmu_levels :: "(nat \<times> nat) list" where
  "mmu_levels = [(16777216, 256), (262144, 64), (4096, 64)]"

text \<open>The words of the tables at their addresses.\<close>

definition table_word :: "sparc_board \<Rightarrow> sparc_state \<Rightarrow> nat \<Rightarrow> u32" where
  "table_word b s a =
     (let n = SPARC_NB_PARTITIONS b; c = unat (contexts_addr b); l1 = unat (level1_addr b); l2 = unat (level2_addr b) in
      if c \<le> a \<and> a < c + 4 * n then mmu_contexts_tab s ((a - c) div 4)
      else if l1 \<le> a \<and> a < l1 + 1024 * n then mmu_level1_tab s ((a - l1) div 1024) ((a - l1) mod 1024 div 4)
      else if l2 \<le> a \<and> a < l2 + 256 * n then mmu_level2_tab s ((a - l2) div 256) ((a - l2) mod 256 div 4)
      else 0)"

definition mmu_translate :: "sparc_board \<Rightarrow> sparc_state \<Rightarrow> u32 \<Rightarrow> (nat \<times> nat) option" where
  "mmu_translate b s va =
     (let root = table_word b s (64 * (unat (mmu_regs s MMU_CTXTBL_PTR) div 4) + 4 * unat (mmu_regs s MMU_CTX_REG)) in
      if entry_type root = 1 then mmu_walk (table_word b s) (entry_table root) (unat va) mmu_levels else None)"

text \<open>A load or a store of a word by the kernel. Access code 4 is for execution only, and the even ones are not for stores;
  where the unit refuses, or the address is not a multiple of four, there is a trap inside of the kernel, which is fatal.\<close>

definition mmu_access :: "sparc_board \<Rightarrow> bool \<Rightarrow> u32 \<Rightarrow> sparc_state \<Rightarrow> u32 option" where
  "mmu_access b store va s =
     (if unat va mod 4 \<noteq> 0 then None
      else if mmu_regs s MMU_CTRL_REG AND 1 = 0 then Some va
      else case mmu_translate b s va of
        Some (pa, acc) \<Rightarrow> if (if store then odd acc else acc \<noteq> 4) then Some (of_nat pa) else None
      | None \<Rightarrow> None)"

definition load_word :: "sparc_board \<Rightarrow> u32 \<Rightarrow> sparc_state \<Rightarrow> u32 option" where
  "load_word b va s = map_option (\<lambda>pa. inw pa s) (mmu_access b False va s)"

definition store_word :: "sparc_board \<Rightarrow> u32 \<Rightarrow> u32 \<Rightarrow> sparc_state \<Rightarrow> sparc_state option" where
  "store_word b va v s = map_option (\<lambda>pa. outw pa v s) (mmu_access b True va s)"

subsection \<open>System calls\<close>

text \<open>Number, arguments and answer are in the frame of the caller, at an address of the space that is current: the answer
  goes to the same address, in the space that is current after the call.\<close>

definition sparc_sc_int :: "sparc_board \<Rightarrow> sparc_state \<Rightarrow> sparc_state option" where
  "sparc_sc_int b s =
     (let ctx = pok_arch_sp s; k = sparc_kernel s; part_id = pok_current_partition k;
          info = \<lparr>si_partition = part_id, si_thread = POK_SCHED_CURRENT_THREAD k, si_base_addr = p_base_addr (pok_partitions k part_id)\<rparr>
      in do {
        num \<leftarrow> load_word b (ctx - I0_OFFSET) s;
        arg1 \<leftarrow> load_word b (ctx - I1_OFFSET) s;
        arg2 \<leftarrow> load_word b (ctx - I2_OFFSET) s;
        arg3 \<leftarrow> load_word b (ctx - I3_OFFSET) s;
        arg4 \<leftarrow> load_word b (ctx - I4_OFFSET) s;
        arg5 \<leftarrow> load_word b (ctx - I5_OFFSET) s;
        let args = \<lparr>sa_nargs = 5, sa_arg1 = arg1, sa_arg2 = arg2, sa_arg3 = arg3, sa_arg4 = arg4, sa_arg5 = arg5\<rparr>;
        (ret, s1) \<leftarrow> core_syscall b num args info s;
        s2 \<leftarrow> store_word b (ctx - I0_OFFSET) ret s1;
        pc \<leftarrow> load_word b (ctx - PC_OFFSET) s2;
        s3 \<leftarrow> store_word b (ctx - PC_OFFSET) (pc + 4) s2;
        npc \<leftarrow> load_word b (ctx - NPC_OFFSET) s3;
        store_word b (ctx - NPC_OFFSET) (npc + 4) s3
      })"

subsection \<open>The timer\<close>

definition IRQMP_CLEAR :: u32 where "IRQMP_CLEAR = 0x80000210"
definition IRQMP_MASK0 :: u32 where "IRQMP_MASK0 = 0x80000240"
definition TIMER1 :: u32 where "TIMER1 = 0x80000300"
definition TIMER_IRQ :: nat where "TIMER_IRQ = 8"

definition ack_irq :: "nat \<Rightarrow> sparc_state \<Rightarrow> sparc_state" where
  "ack_irq irq_nbr = outw IRQMP_CLEAR (push_bit irq_nbr 1)"

definition unmask_irq :: "nat \<Rightarrow> sparc_state \<Rightarrow> sparc_state" where
  "unmask_irq irq_nbr s = outw IRQMP_MASK0 (ucast (sparc_inb IRQMP_MASK0 s) OR push_bit irq_nbr 1) s"

definition timer_isr :: "sparc_board \<Rightarrow> sparc_state \<Rightarrow> sparc_state option" where
  "timer_isr b s =
     (let s1 = ack_irq TIMER_IRQ s; k = sparc_kernel s1
      in sparc_sched b (s1\<lparr>sparc_kernel := k\<lparr>pok_tick_counter := pok_tick_counter k + 10000\<rparr>\<rparr>))"

definition sparc_time_init :: "sparc_board \<Rightarrow> sparc_state \<Rightarrow> pok_ret_t \<times> sparc_state" where
  "sparc_time_init b s =
     (let s1 = outw (TIMER1 + 4) 1 (outw TIMER1 1 s);
          s2 = outw (TIMER1 + 0x14) (SPARC_PROC_FREQ div SPARC_TIMER_FREQUENCY b) (outw (TIMER1 + 0x10) 1 s1);
          s3 = outw (TIMER1 + 0x18) (push_bit 0 1 OR push_bit 1 1 OR push_bit 2 1 OR push_bit 3 1) s2;
          s4 = snd (sparc_event_register (SPARC_TRAP_IRQ_BASE + TIMER_IRQ) H_timer_isr s3)
      in (POK_ERRNO_OK, unmask_irq TIMER_IRQ s4))"

definition run_handler :: "sparc_board \<Rightarrow> sparc_traps_handler \<Rightarrow> sparc_state \<Rightarrow> sparc_state option" where
  "run_handler b h s = (case h of H_pok_arch_sc_int \<Rightarrow> sparc_sc_int b s | H_timer_isr \<Rightarrow> timer_isr b s)"

text \<open>The vector table of the processor: what the entry of a trap branches to. Only the entries that lead to
  \<open>trap_prehandler\<close> come to the dispatcher below; the handlers of the register windows are assembly, and the rest
  starts the kernel again.\<close>

datatype sparc_vector = trap_prehandler | window_overflow_trap_handler | window_underflow_trap_handler | reset_prehandler

definition trapvector :: "nat \<Rightarrow> sparc_vector" where
  "trapvector n =
     (if n = 0x05 then window_overflow_trap_handler
      else if n = 0x06 then window_underflow_trap_handler
      else if 0x01 \<le> n \<and> n \<le> 0x0B \<or> 0x11 \<le> n \<and> n \<le> 0x1E \<or> 0x20 \<le> n \<and> n \<le> 0x2C \<or> n = 0x3C \<or> n = 0x82 then trap_prehandler
      else reset_prehandler)"

text \<open>The dispatcher in C. A trap without a handler is fatal.\<close>

definition trap_handler :: "sparc_board \<Rightarrow> nat \<Rightarrow> u32 \<Rightarrow> sparc_state \<Rightarrow> sparc_state option" where
  "trap_handler b trap_nb stack_pointer s =
     (let s1 = s\<lparr>pok_arch_sp := stack_pointer\<rparr> in
      case pok_sparc_isr s1 trap_nb of Some h \<Rightarrow> run_handler b h s1 | None \<Rightarrow> None)"

subsection \<open>Contexts of threads of the kernel\<close>

definition idle_context :: "sparc_board \<Rightarrow> u32" where
  "idle_context b = sparc_idlestack b - 0x40"

definition sparc_context_create :: "sparc_board \<Rightarrow> u32 \<Rightarrow> u32 \<Rightarrow> u32 \<Rightarrow> sparc_state \<Rightarrow> u32 \<times> sparc_state" where
  "sparc_context_create b tid stack_size entry s =
     (let ctx = idle_context b
      in (ctx, outw (ctx - I1_OFFSET) tid (outw (ctx - NPC_OFFSET) (entry + 4) (outw (ctx - PC_OFFSET) entry
            (outw (ctx - RESTORE_CNT_OFFSET) 1 s)))))"

definition sparc_context_reset :: "sparc_board \<Rightarrow> u32 \<Rightarrow> u32 \<Rightarrow> sparc_state \<Rightarrow> sparc_state" where
  "sparc_context_reset b stack_size stack_addr s =
     (let ctx = idle_context b; tid = inw (ctx - PC_OFFSET) s; entry = inw (ctx - I1_OFFSET) s
      in outw (ctx - I1_OFFSET) tid (outw (ctx - NPC_OFFSET) (entry + 4) (outw (ctx - PC_OFFSET) entry
            (outw (ctx - RESTORE_CNT_OFFSET) 1 s))))"

text \<open>The stack pointer of the interrupted thread is left where the caller says, and the next one taken.\<close>

definition sparc_context_switch :: "u32 \<Rightarrow> sparc_state \<Rightarrow> u32 \<times> sparc_state" where
  "sparc_context_switch new_sp s = (pok_arch_sp s, s\<lparr>pok_arch_sp := new_sp\<rparr>)"

end
