(* ===== verification/Pok_Sparc_Mmu.thy ===== *)
theory Pok_Sparc_Mmu
  imports Pok_Sparc Pok_Words
begin

text \<open>
  The memory that a program of a partition reaches through the tables the kernel keeps for the memory management unit,
  and the kernel when it works for the partition. Then the way of a trap to its handler.
\<close>

unbundle bit_operations_syntax

subsection \<open>What a program reaches\<close>

text \<open>What a program may use: access codes 6 and 7 are for the supervisor.\<close>

definition user_reaches :: "sparc_board \<Rightarrow> sparc_state \<Rightarrow> u32 \<Rightarrow> nat option" where
  "user_reaches b s va = (case mmu_translate b s va of Some (pa, acc) \<Rightarrow> if acc < 6 then Some pa else None | None \<Rightarrow> None)"

text \<open>What the linker sees to: tables that do not overlap, aligned as the code asks for it.\<close>

definition tables_laid_out :: "sparc_board \<Rightarrow> bool" where
  "tables_laid_out b \<longleftrightarrow> (let n = SPARC_NB_PARTITIONS b; c = unat (contexts_addr b); l1 = unat (level1_addr b); l2 = unat (level2_addr b) in
     n \<le> 256 \<and> c mod (4 * n) = 0 \<and> l1 mod 1024 = 0 \<and> l2 mod 256 = 0 \<and>
     c + 4 * n < 4294967296 \<and> l1 + 1024 * n < 4294967296 \<and> l2 + 256 * n < 4294967296 \<and>
     (c + 4 * n \<le> l1 \<or> l1 + 1024 * n \<le> c) \<and> (c + 4 * n \<le> l2 \<or> l2 + 256 * n \<le> c) \<and> (l1 + 1024 * n \<le> l2 \<or> l2 + 256 * n \<le> l1))"

text \<open>The register that points to the table of contexts has no place for the bits of its address below 64. From sixteen
  partitions on the alignment of the table sees to them (\<open>aligned\<close> takes powers of two only); with fewer it is up to the
  linker.\<close>

definition contexts_found :: "sparc_board \<Rightarrow> bool" where
  "contexts_found b \<longleftrightarrow> unat (contexts_addr b) mod 64 = 0"

lemma sixteen_partitions_found:
  assumes "tables_laid_out b" "SPARC_NB_PARTITIONS b mod 16 = 0"
  shows "contexts_found b"
proof -
  obtain m where m: "SPARC_NB_PARTITIONS b = 16 * m" using assms(2) by (metis mod_0_imp_dvd dvdE)
  have "unat (contexts_addr b) mod (64 * m) = 0" using assms(1) by (simp add: tables_laid_out_def Let_def m mult.assoc [symmetric])
  then obtain k where "unat (contexts_addr b) = 64 * m * k" by (metis mod_0_imp_dvd dvdE)
  then show ?thesis by (simp add: contexts_found_def mult.assoc)
qed

text \<open>Entries written by the kernel, read by the unit.\<close>

lemma table_entry:
  assumes "unat a mod 64 = 0"
  shows "entry_type (drop_bit 4 a OR MM_ET_PTD) = 1" and "entry_table (drop_bit 4 a OR MM_ET_PTD) = unat a"
proof -
  obtain m where m: "unat a = 64 * m" using assms by (metis mod_0_imp_dvd dvdE)
  then have d: "unat (drop_bit 4 a) = 4 * m" by (simp add: unat_shift)
  then have e: "unat (drop_bit 4 a OR MM_ET_PTD) = 4 * m + 1"
    using or_low_bits [of "drop_bit 4 a" 2 MM_ET_PTD] by (simp add: MM_ET_PTD_def)
  show "entry_type (drop_bit 4 a OR MM_ET_PTD) = 1" "entry_table (drop_bit 4 a OR MM_ET_PTD) = unat a"
    unfolding entry_type_def entry_table_def e m by simp_all
qed

lemma page_entry:
  assumes "unat a mod 262144 = 0"
  shows "entry_type (drop_bit 4 a OR MM_ACC_RWE OR MM_ET_PTE OR MM_CACHEABLE) = 2"
    and "entry_acc (drop_bit 4 a OR MM_ACC_RWE OR MM_ET_PTE OR MM_CACHEABLE) = 3"
    and "entry_page (drop_bit 4 a OR MM_ACC_RWE OR MM_ET_PTE OR MM_CACHEABLE) = unat a"
proof -
  have f: "drop_bit 4 a OR MM_ACC_RWE OR MM_ET_PTE OR MM_CACHEABLE = drop_bit 4 a OR 0x8E"
    by (simp add: sparc_consts or.assoc)
  obtain m where m: "unat a = 262144 * m" using assms by (metis mod_0_imp_dvd dvdE)
  then have d: "unat (drop_bit 4 a) = 256 * (64 * m)" by (simp add: unat_shift)
  have e: "unat (drop_bit 4 a OR MM_ACC_RWE OR MM_ET_PTE OR MM_CACHEABLE) = 256 * (64 * m) + 142"
    unfolding f using or_low_bits [of "drop_bit 4 a" 8 "0x8E"] d by simp
  have q: "(256 * k + 142) mod 4 = 2" "(256 * k + 142) div 4 mod 8 = 3" "(256 * k + 142) div 256 = k" for k :: nat
    by presburger+
  show "entry_type (drop_bit 4 a OR MM_ACC_RWE OR MM_ET_PTE OR MM_CACHEABLE) = 2"
    "entry_acc (drop_bit 4 a OR MM_ACC_RWE OR MM_ET_PTE OR MM_CACHEABLE) = 3"
    "entry_page (drop_bit 4 a OR MM_ACC_RWE OR MM_ET_PTE OR MM_CACHEABLE) = unat a"
    unfolding entry_type_def entry_acc_def entry_page_def e q m by simp_all
qed

lemma unat_low18: "unat (x AND (SPARC_PAGE_SIZE - 1)) = unat x mod 262144"
  using unat_and_mask [of x 18] by (simp add: SPARC_PAGE_SIZE_def mask_eq_exp_minus_1)

lemma unat_page_down: "unat (x AND NOT (SPARC_PAGE_SIZE - 1)) = unat x - unat x mod 262144"
  using unat_and_not_mask [of x 18] by (simp add: SPARC_PAGE_SIZE_def mask_eq_exp_minus_1)

subsection \<open>The words of the tables at their addresses\<close>

lemma table_word_context:
  assumes "tables_laid_out b" "i < SPARC_NB_PARTITIONS b"
  shows "table_word b s (unat (contexts_addr b) + 4 * i) = mmu_contexts_tab s i"
  using assms by (simp add: table_word_def Let_def)

lemma table_word_level1:
  assumes "tables_laid_out b" "i < SPARC_NB_PARTITIONS b" "j < 256"
  shows "table_word b s (unat (level1_addr b) + 1024 * i + 4 * j) = mmu_level1_tab s i j"
proof -
  define a where "a = unat (level1_addr b) + 1024 * i + 4 * j"
  have "(1024 * i + 4 * j) div 1024 = i" "(1024 * i + 4 * j) mod 1024 div 4 = j" using assms(3) by simp_all
  then have e: "(a - unat (level1_addr b)) div 1024 = i" "(a - unat (level1_addr b)) mod 1024 div 4 = j" by (simp_all add: a_def)
  have "4 * j < 1024" "1024 * i + 1024 \<le> 1024 * SPARC_NB_PARTITIONS b" using assms(2,3) by simp_all
  then have r: "unat (level1_addr b) \<le> a" "a < unat (level1_addr b) + 1024 * SPARC_NB_PARTITIONS b" unfolding a_def by linarith+
  moreover have "unat (contexts_addr b) + 4 * SPARC_NB_PARTITIONS b \<le> unat (level1_addr b) \<or>
      unat (level1_addr b) + 1024 * SPARC_NB_PARTITIONS b \<le> unat (contexts_addr b)"
    using assms(1) by (simp add: tables_laid_out_def Let_def)
  ultimately have "\<not> (unat (contexts_addr b) \<le> a \<and> a < unat (contexts_addr b) + 4 * SPARC_NB_PARTITIONS b)" by linarith
  then show ?thesis unfolding a_def [symmetric] using r e by (auto simp: table_word_def Let_def)
qed

lemma table_word_level2:
  assumes "tables_laid_out b" "i < SPARC_NB_PARTITIONS b" "j < 64"
  shows "table_word b s (unat (level2_addr b) + 256 * i + 4 * j) = mmu_level2_tab s i j"
proof -
  define a where "a = unat (level2_addr b) + 256 * i + 4 * j"
  have "(256 * i + 4 * j) div 256 = i" "(256 * i + 4 * j) mod 256 div 4 = j" using assms(3) by simp_all
  then have e: "(a - unat (level2_addr b)) div 256 = i" "(a - unat (level2_addr b)) mod 256 div 4 = j" by (simp_all add: a_def)
  have "4 * j < 256" "256 * i + 256 \<le> 256 * SPARC_NB_PARTITIONS b" using assms(2,3) by simp_all
  then have r: "unat (level2_addr b) \<le> a" "a < unat (level2_addr b) + 256 * SPARC_NB_PARTITIONS b" unfolding a_def by linarith+
  moreover have "unat (contexts_addr b) + 4 * SPARC_NB_PARTITIONS b \<le> unat (level2_addr b) \<or>
      unat (level2_addr b) + 256 * SPARC_NB_PARTITIONS b \<le> unat (contexts_addr b)"
    and "unat (level1_addr b) + 1024 * SPARC_NB_PARTITIONS b \<le> unat (level2_addr b) \<or>
      unat (level2_addr b) + 256 * SPARC_NB_PARTITIONS b \<le> unat (level1_addr b)"
    using assms(1) by (simp_all add: tables_laid_out_def Let_def)
  ultimately have "\<not> (unat (contexts_addr b) \<le> a \<and> a < unat (contexts_addr b) + 4 * SPARC_NB_PARTITIONS b)"
    "\<not> (unat (level1_addr b) \<le> a \<and> a < unat (level1_addr b) + 1024 * SPARC_NB_PARTITIONS b)" by linarith+
  then show ?thesis unfolding a_def [symmetric] using r e by (auto simp: table_word_def Let_def)
qed

subsection \<open>What the kernel keeps in the tables\<close>

definition level1_entry :: "sparc_board \<Rightarrow> nat \<Rightarrow> u32" where
  "level1_entry b i = level1_addr b + of_nat (1024 * i)"

definition level2_entry :: "sparc_board \<Rightarrow> nat \<Rightarrow> u32" where
  "level2_entry b i = level2_addr b + of_nat (256 * i)"

definition has_space :: "sparc_board \<Rightarrow> sparc_state \<Rightarrow> nat \<Rightarrow> bool" where
  "has_space b s i \<longleftrightarrow> unat (phys_base (spaces s i)) mod 262144 = 0 \<and>
     mmu_level1_tab s i 0 = drop_bit 4 (level2_entry b i) OR MM_ET_PTD \<and>
     mmu_level2_tab s i 0 = drop_bit 4 (phys_base (spaces s i)) OR MM_ACC_RWE OR MM_ET_PTE OR MM_CACHEABLE"

definition tables_ok :: "sparc_board \<Rightarrow> sparc_state \<Rightarrow> bool" where
  "tables_ok b s \<longleftrightarrow> mmu_regs s MMU_CTXTBL_PTR = drop_bit 4 (contexts_addr b) \<and>
     (\<forall>i < SPARC_NB_PARTITIONS b. mmu_contexts_tab s i = drop_bit 4 (level1_entry b i) OR MM_ET_PTD \<and>
       mmu_level1_tab s i 64 = 0x0400009E \<and> (\<forall>j<256. j = 0 \<or> j = 64 \<or> mmu_level1_tab s i j = 0) \<and>
       (\<forall>j<64. j = 0 \<or> mmu_level2_tab s i j = 0))"

lemma level_entries:
  assumes "tables_laid_out b" "i < SPARC_NB_PARTITIONS b"
  shows "unat (level1_entry b i) = unat (level1_addr b) + 1024 * i" and "unat (level1_entry b i) mod 64 = 0"
    and "unat (level2_entry b i) = unat (level2_addr b) + 256 * i" and "unat (level2_entry b i) mod 64 = 0"
proof -
  have t: "unat (level1_addr b) mod 1024 = 0" "unat (level2_addr b) mod 256 = 0" "i < 256"
    "unat (level1_addr b) + 1024 * i < 4294967296" "unat (level2_addr b) + 256 * i < 4294967296"
    using assms by (auto simp: tables_laid_out_def Let_def)
  have small: "unat (of_nat (1024 * i) :: u32) = 1024 * i" "unat (of_nat (256 * i) :: u32) = 256 * i"
    using t(3) by (simp_all add: unat_of_nat take_bit_nat_eq_self del: of_nat_mult)
  show l1: "unat (level1_entry b i) = unat (level1_addr b) + 1024 * i" and l2: "unat (level2_entry b i) = unat (level2_addr b) + 256 * i"
    using t(4,5) small by (simp_all add: level1_entry_def level2_entry_def unat_add_small del: of_nat_mult)
  obtain m m' where "unat (level1_addr b) = 1024 * m" "unat (level2_addr b) = 256 * m'"
    using t(1,2) by (metis mod_0_imp_dvd dvdE)
  then have "unat (level1_entry b i) = 64 * (16 * m + 16 * i)" "unat (level2_entry b i) = 64 * (4 * m' + 4 * i)"
    using l1 l2 by simp_all
  then show "unat (level1_entry b i) mod 64 = 0" "unat (level2_entry b i) mod 64 = 0" by (simp_all only: mod_mult_self1_is_0)
qed

lemma walk_root:
  assumes "tables_laid_out b" "tables_ok b s" "i < SPARC_NB_PARTITIONS b" "mmu_regs s MMU_CTX_REG = of_nat i" "contexts_found b"
  shows "mmu_translate b s va = mmu_walk (table_word b s) (unat (level1_addr b) + 1024 * i) (unat va) mmu_levels"
proof -
  have i: "unat (of_nat i :: u32) = i"
    using assms(1,3) by (simp add: tables_laid_out_def Let_def unat_of_nat take_bit_nat_eq_self)
  obtain m where "unat (contexts_addr b) = 64 * m"
    using assms(5) unfolding contexts_found_def by (metis mod_0_imp_dvd dvdE)
  then have "64 * (unat (mmu_regs s MMU_CTXTBL_PTR) div 4) = unat (contexts_addr b)"
    using assms(2) by (simp add: tables_ok_def unat_shift)
  then have root: "table_word b s (64 * (unat (mmu_regs s MMU_CTXTBL_PTR) div 4) + 4 * unat (mmu_regs s MMU_CTX_REG)) =
      drop_bit 4 (level1_entry b i) OR MM_ET_PTD"
    using assms i by (simp add: table_word_context tables_ok_def)
  show ?thesis unfolding mmu_translate_def root
    using level_entries [OF assms(1,3)] by (simp add: table_entry)
qed

lemma walk_level1:
  assumes "tables_laid_out b" "i < SPARC_NB_PARTITIONS b"
  shows "mmu_walk (table_word b s) (unat (level1_addr b) + 1024 * i) va mmu_levels =
    (let e = mmu_level1_tab s i (va div 16777216 mod 256) in
      if entry_type e = 1 then mmu_walk (table_word b s) (entry_table e) va [(262144, 64), (4096, 64)]
      else if entry_type e = 2 then Some (16777216 * (entry_page e div 16777216) + va mod 16777216, entry_acc e) else None)"
  using table_word_level1 [OF assms, of "va div 16777216 mod 256" s] by (simp add: mmu_levels_def)

lemma walk_level2:
  assumes "tables_laid_out b" "i < SPARC_NB_PARTITIONS b"
  shows "mmu_walk (table_word b s) (unat (level2_entry b i)) va [(262144, 64), (4096, 64)] =
    (let e = mmu_level2_tab s i (va div 262144 mod 64) in
      if entry_type e = 1 then mmu_walk (table_word b s) (entry_table e) va [(4096, 64)]
      else if entry_type e = 2 then Some (262144 * (entry_page e div 262144) + va mod 262144, entry_acc e) else None)"
  using table_word_level2 [OF assms, of "va div 262144 mod 64" s] level_entries(3) [OF assms] by simp

lemma entry_0 [simp]: "entry_type 0 = 0"
  by (simp add: entry_type_def)

text \<open>The space of a partition: its page at address 0, the kernel for the supervisor, and nothing else.\<close>

definition in_space :: "sparc_board \<Rightarrow> sparc_state \<Rightarrow> nat \<Rightarrow> bool" where
  "in_space b s i \<longleftrightarrow> i < SPARC_NB_PARTITIONS b \<and> tables_ok b s \<and> has_space b s i \<and> mmu_regs s MMU_CTX_REG = of_nat i"

lemma own_page:
  assumes "tables_laid_out b" "contexts_found b" "in_space b s i" "unat va < 262144"
  shows "mmu_translate b s va = Some (unat (phys_base (spaces s i)) + unat va, 3)"
proof -
  have s: "tables_ok b s" "i < SPARC_NB_PARTITIONS b" "mmu_regs s MMU_CTX_REG = of_nat i" "has_space b s i"
    using assms(3) by (simp_all add: in_space_def)
  obtain m where "unat (phys_base (spaces s i)) = 262144 * m"
    using s(4) unfolding has_space_def by (metis mod_0_imp_dvd dvdE)
  then show ?thesis
    using walk_root [OF assms(1) s(1-3) assms(2), of va] walk_level1 [OF assms(1) s(2), of s "unat va"]
      walk_level2 [OF assms(1) s(2), of s "unat va"] level_entries [OF assms(1) s(2)] assms(4) s(4)
    by (simp add: has_space_def table_entry page_entry)
qed

lemma user_reaches_own_page:
  assumes l: "tables_laid_out b" and f: "contexts_found b" and sp: "in_space b s i"
  shows "user_reaches b s va = (if unat va < 262144 then Some (unat (phys_base (spaces s i)) + unat va) else None)"
proof -
  have i: "i < SPARC_NB_PARTITIONS b" and ok: "tables_ok b s" and hs: "has_space b s i" and cr: "mmu_regs s MMU_CTX_REG = of_nat i"
    using sp by (simp_all add: in_space_def)
  define v where "v = unat va"
  have v: "v < 4294967296" unfolding v_def by (rule unat_small32)
  have t: "mmu_translate b s va = mmu_walk (table_word b s) (unat (level1_addr b) + 1024 * i) v mmu_levels"
    unfolding v_def by (rule walk_root [OF l ok i cr f])
  note w1 = walk_level1 [OF l i, of s v] note w2 = walk_level2 [OF l i, of s v]
  have idx: "v div 16777216 mod 256 = v div 16777216" using v by simp
  consider "v < 262144" | "262144 \<le> v" "v < 16777216" | "16777216 \<le> v" "v div 16777216 = 64" | "16777216 \<le> v" "v div 16777216 \<noteq> 64"
    by linarith
  then show ?thesis
  proof cases
    case 1
    then have "mmu_translate b s va = Some (unat (phys_base (spaces s i)) + v, 3)"
      using own_page [OF l f sp, of va] by (simp add: v_def)
    then show ?thesis using 1 by (simp add: user_reaches_def v_def)
  next
    case 2
    have "v div 262144 mod 64 \<noteq> 0" using 2 by (simp add: div_less_mono div_eq_0_iff)
    moreover have "\<And>j. j < 64 \<Longrightarrow> j \<noteq> 0 \<Longrightarrow> mmu_level2_tab s i j = 0" using ok i unfolding tables_ok_def by blast
    ultimately have "mmu_level2_tab s i (v div 262144 mod 64) = 0" by simp
    then have "mmu_translate b s va = None"
      using t w1 w2 2 hs level_entries [OF l i] by (simp add: has_space_def table_entry)
    then show ?thesis using 2 by (simp add: user_reaches_def v_def)
  next
    case 3
    then have "mmu_level1_tab s i (v div 16777216 mod 256) = 0x0400009E" using ok i by (simp add: tables_ok_def)
    then have "\<exists>pa. mmu_translate b s va = Some (pa, 7)" using t w1 by (simp add: entry_type_def entry_acc_def)
    then show ?thesis using 3 by (auto simp: user_reaches_def v_def)
  next
    case 4
    then have "v div 16777216 \<noteq> 0" by simp
    moreover have "v div 16777216 < 256" using v by simp
    moreover have "\<And>j. j < 256 \<Longrightarrow> j \<noteq> 0 \<Longrightarrow> j \<noteq> 64 \<Longrightarrow> mmu_level1_tab s i j = 0" using ok i unfolding tables_ok_def by blast
    ultimately have "mmu_level1_tab s i (v div 16777216 mod 256) = 0" using 4 idx by simp
    then have "mmu_translate b s va = None" using t w1 by simp
    then show ?thesis using 4 by (simp add: user_reaches_def v_def)
  qed
qed

text \<open>The kernel reads and writes the words of a frame in that page.\<close>

lemma frame_word:
  assumes "tables_laid_out b" "contexts_found b" "in_space b s i" "mmu_regs s MMU_CTRL_REG = 1"
    and "unat k \<le> unat sp" "unat sp \<le> 262144" "0 < unat k" "unat sp mod 4 = 0" "unat k mod 4 = 0"
  shows "mmu_access b st (sp - k) s = Some (phys_base (spaces s i) + sp - k)"
proof -
  have d: "unat (sp - k) = unat sp - unat k" using assms(5) by (simp add: unat_sub word_le_nat_alt)
  moreover have "(unat sp - unat k) mod 4 = 0" using assms(8,9) by (simp add: mod_eq_0_iff_dvd dvd_diff_nat)
  ultimately have a: "unat (sp - k) mod 4 = 0" "unat (sp - k) < 262144" using assms(5-7) by simp_all
  have "(of_nat (unat (phys_base (spaces s i)) + unat (sp - k)) :: u32) = phys_base (spaces s i) + (sp - k)"
    by simp
  then show ?thesis
    using own_page [OF assms(1-3) a(2)] a(1) assms(4) by (simp add: mmu_access_def add_diff_eq)
qed

subsection \<open>The start of the kernel, and the spaces of the partitions\<close>

lemma arch_init_tables:
  "tables_ok b (snd (sparc_arch_init b s))" "heap_end (snd (sparc_arch_init b s)) = heap_end s"
  by (simp_all add: tables_ok_def sparc_arch_init_def sparc_syscalls_init_def sparc_event_register_def sparc_space_init_def
      sparc_space_switch_def sparc_tables_init_def psr_enable_traps_def psr_disable_interupt_def traps_init_def Let_def
      level1_entry_def sparc_consts)

lemma create_space_ok:
  assumes "unat addr mod 262144 = 0" and "unat sz \<le> 262144" and "i < SPARC_NB_PARTITIONS b" and "tables_ok b s"
  defines "s1 \<equiv> snd (sparc_create_space b i addr sz s)"
  shows "fst (sparc_create_space b i addr sz s) = POK_ERRNO_OK" and "tables_ok b s1" and "has_space b s1 i"
    and "phys_base (spaces s1 i) = addr" and "heap_end s1 = heap_end s"
    and "j \<noteq> i \<Longrightarrow> has_space b s1 j = has_space b s j" and "j \<noteq> i \<Longrightarrow> spaces s1 j = spaces s j"
proof -
  have a: "addr AND (SPARC_PAGE_SIZE - 1) = 0"
    using assms(1) by (metis unat_low18 unsigned_eq_0_iff)
  have z: "\<not> sz > SPARC_PARTITION_SIZE" using assms(2) by (simp add: word_less_nat_alt SPARC_PARTITION_SIZE_def SPARC_PAGE_SIZE_def)
  have idx: "mm_index1 SPARC_PARTITION_BASE_VADDR = 0" "mm_index2 SPARC_PARTITION_BASE_VADDR = 0" by (simp_all add: sparc_consts)
  note d = sparc_create_space_def Let_def idx a z s1_def
  show "fst (sparc_create_space b i addr sz s) = POK_ERRNO_OK" by (simp add: d)
  show "tables_ok b s1" using assms(4) by (auto simp: d tables_ok_def)
  show "has_space b s1 i" using assms(1) by (simp add: d has_space_def level2_entry_def MM_LVL2_ENTRIES_NBR_def)
  show "phys_base (spaces s1 i) = addr" "heap_end s1 = heap_end s" by (simp_all add: d)
  show "j \<noteq> i \<Longrightarrow> has_space b s1 j = has_space b s j" "j \<noteq> i \<Longrightarrow> spaces s1 j = spaces s j"
    by (simp_all add: d has_space_def)
qed

lemma mem_alloc_page:
  assumes "unat (heap_end s) + 524288 \<le> 4294967295" and "unat sz \<le> 262144" and "sparc_mem_alloc sz s = (a, s1)"
  shows "unat a mod 262144 = 0" and "unat (heap_end s) < unat a" and "unat a \<le> unat (heap_end s) + 262144"
    and "unat (heap_end s1) = unat a + unat sz" and "s1 = s\<lparr>heap_end := heap_end s1\<rparr>"
proof -
  have h: "unat (heap_end s + SPARC_PAGE_SIZE) = unat (heap_end s) + 262144"
    using assms(1) by (simp add: unat_add_small SPARC_PAGE_SIZE_def)
  have a: "a = (heap_end s + SPARC_PAGE_SIZE) AND NOT (SPARC_PAGE_SIZE - 1)" and s1: "s1 = s\<lparr>heap_end := a + sz\<rparr>"
    using assms(3) by (auto simp: sparc_mem_alloc_def Let_def)
  have u: "unat a = unat (heap_end s) + 262144 - (unat (heap_end s) + 262144) mod 262144"
    unfolding a using unat_page_down [of "heap_end s + SPARC_PAGE_SIZE"] h by simp
  have m: "(unat (heap_end s) + 262144) mod 262144 < 262144" by simp
  show "unat a mod 262144 = 0" unfolding u by (metis minus_mod_eq_mult_div mod_mult_self1_is_0)
  show "unat (heap_end s) < unat a" using u m by linarith
  show le: "unat a \<le> unat (heap_end s) + 262144" using u by linarith
  show "unat (heap_end s1) = unat a + unat sz" using s1 le assms(1,2) by (simp add: unat_add_small)
  show "s1 = s\<lparr>heap_end := heap_end s1\<rparr>" using s1 by simp
qed

text \<open>The partitions get their memory and their spaces one after the other.\<close>

fun sparc_setup_spaces :: "sparc_board \<Rightarrow> u32 list \<Rightarrow> nat \<Rightarrow> sparc_state \<Rightarrow> sparc_state" where
  "sparc_setup_spaces b [] i s = s"
| "sparc_setup_spaces b (sz # szs) i s =
     (case sparc_mem_alloc sz s of (a, s1) \<Rightarrow> sparc_setup_spaces b szs (Suc i) (snd (sparc_create_space b i a sz s1)))"

definition spaces_ok :: "sparc_board \<Rightarrow> nat \<Rightarrow> nat \<Rightarrow> sparc_state \<Rightarrow> bool" where
  "spaces_ok b h n s \<longleftrightarrow> tables_ok b s \<and> h \<le> unat (heap_end s) \<and>
     (\<forall>i<n. has_space b s i \<and> h < unat (phys_base (spaces s i)) \<and> unat (phys_base (spaces s i)) \<le> unat (heap_end s)) \<and>
     (\<forall>j<n. \<forall>i<j. unat (phys_base (spaces s i)) + 262144 \<le> unat (phys_base (spaces s j)))"

lemma next_page_behind:
  assumes "x mod 262144 = 0" "y mod 262144 = 0" "x < (y :: nat)"
  shows "x + 262144 \<le> y"
proof -
  obtain k m where "x = 262144 * k" "y = 262144 * m" using assms(1,2) by (metis mod_0_imp_dvd dvdE)
  then show ?thesis using assms(3) by simp
qed

lemma add_space:
  assumes ok: "spaces_ok b l n s" and n: "n < SPARC_NB_PARTITIONS b" and sz: "unat sz \<le> 262144"
    and h: "unat (heap_end s) + 524288 \<le> 4294967295" and al: "sparc_mem_alloc sz s = (a, s1)"
  defines "s2 \<equiv> snd (sparc_create_space b n a sz s1)"
  shows "spaces_ok b l (Suc n) s2" and "unat (heap_end s2) \<le> unat (heap_end s) + 524288"
    and "i < n \<Longrightarrow> spaces s2 i = spaces s i"
proof -
  note m = mem_alloc_page [OF h sz al]
  obtain h' where s1: "s1 = s\<lparr>heap_end := h'\<rparr>" using m(5) by blast
  have t: "tables_ok b s1" using ok by (simp add: s1 spaces_ok_def tables_ok_def)
  note c = create_space_ok [OF m(1) sz n t, folded s2_def]
  show "unat (heap_end s2) \<le> unat (heap_end s) + 524288" using c(5) m(3,4) sz by simp
  have same: "spaces s2 i = spaces s i" "has_space b s2 i = has_space b s i" if "i < n" for i
    using c(6,7) [of i] that by (simp_all add: s1 has_space_def)
  then show "i < n \<Longrightarrow> spaces s2 i = spaces s i" by blast
  have old: "unat (phys_base (spaces s2 i)) + 262144 \<le> unat a" "has_space b s2 i" if "i < n" for i
  proof -
    have o: "has_space b s i" "unat (phys_base (spaces s i)) \<le> unat (heap_end s)" using ok that by (simp_all add: spaces_ok_def)
    then show "has_space b s2 i" using same that by simp
    have "unat (phys_base (spaces s i)) < unat a" using o(2) m(2) by simp
    moreover have "unat (phys_base (spaces s i)) mod 262144 = 0" using o(1) by (simp add: has_space_def)
    ultimately show "unat (phys_base (spaces s2 i)) + 262144 \<le> unat a" using next_page_behind m(1) same that by simp
  qed
  have end2: "unat (heap_end s2) = unat a + unat sz" using c(5) m(4) by simp
  have low: "l \<le> unat (heap_end s2)" "l < unat a" using ok m(2) end2 by (simp_all add: spaces_ok_def)
  have "has_space b s2 i \<and> l < unat (phys_base (spaces s2 i)) \<and> unat (phys_base (spaces s2 i)) \<le> unat (heap_end s2)" if "i < Suc n" for i
  proof (cases "i = n")
    case True
    then show ?thesis using c(3,4) end2 low by simp
  next
    case False
    then have "i < n" using that by simp
    moreover from this have "l < unat (phys_base (spaces s2 i))" using ok same by (simp add: spaces_ok_def)
    ultimately show ?thesis using old [of i] end2 by simp
  qed
  moreover have "unat (phys_base (spaces s2 i)) + 262144 \<le> unat (phys_base (spaces s2 j))" if "j < Suc n" "i < j" for i j
  proof (cases "j = n")
    case True
    then show ?thesis using that old(1) [of i] c(4) by simp
  next
    case False
    then show ?thesis using that ok same by (simp add: spaces_ok_def)
  qed
  ultimately show "spaces_ok b l (Suc n) s2" using c(2) low(1) by (simp add: spaces_ok_def)
qed

lemma setup_spaces_ok:
  assumes "spaces_ok b l n s" and "n + length szs \<le> SPARC_NB_PARTITIONS b" and "\<forall>sz \<in> set szs. unat sz \<le> 262144"
    and "unat (heap_end s) + 524288 * length szs \<le> 4294967295"
  shows "spaces_ok b l (n + length szs) (sparc_setup_spaces b szs n s)"
  using assms
proof (induction szs arbitrary: n s)
  case (Cons sz szs)
  obtain a s1 where al: "sparc_mem_alloc sz s = (a, s1)" by (cases "sparc_mem_alloc sz s")
  have p: "n < SPARC_NB_PARTITIONS b" "unat sz \<le> 262144" "unat (heap_end s) + 524288 \<le> 4294967295" using Cons.prems by simp_all
  note add = add_space [OF Cons.prems(1) p al]
  have "spaces_ok b l (Suc n + length szs) (sparc_setup_spaces b szs (Suc n) (snd (sparc_create_space b n a sz s1)))"
    using add(2) Cons.prems by (intro Cons.IH [OF add(1)]) simp_all
  then show ?case by (simp add: al)
qed simp

text \<open>C14: The address spaces of the SPARC port are separate: after the start, with the partitions given memory of at most 256 KB
  and spaces in turn, as far as the addresses go, a program of a partition that is switched to reaches the page of 256 KB at address 0, which is the
  page of its partition, and no other address; the pages of different partitions do not overlap, and all are behind the
  end of the kernel. The tables are read the way the memory management unit does, and are where the linker puts them with
  the alignments the code asks for. For the table of contexts this is enough with sixteen partitions or a multiple of
  them; with other numbers the linker has to put it at a multiple of 64, which the code does not ask for.\<close>

theorem sparc_spaces_separate:
  assumes "tables_laid_out b" and "SPARC_NB_PARTITIONS b mod 16 = 0 \<or> contexts_found b"
    and "length szs \<le> SPARC_NB_PARTITIONS b" and "\<forall>sz \<in> set szs. unat sz \<le> 262144"
    and "unat (heap_end s0) + 524288 * length szs \<le> 4294967295"
  defines "s \<equiv> sparc_setup_spaces b szs 0 (snd (sparc_arch_init b s0))"
  shows "(\<forall>i < length szs. user_reaches b (snd (sparc_space_switch k i s)) va =
      (if unat va < 262144 then Some (unat (phys_base (spaces s i)) + unat va) else None)) \<and>
    (\<forall>i < length szs. unat (heap_end s0) < unat (phys_base (spaces s i))) \<and>
    (\<forall>j < length szs. \<forall>i < j. unat (phys_base (spaces s i)) + 262144 \<le> unat (phys_base (spaces s j)))"
proof -
  have f: "contexts_found b" using assms(1,2) sixteen_partitions_found [of b] by auto
  have "spaces_ok b (unat (heap_end s0)) 0 (snd (sparc_arch_init b s0))" by (simp add: spaces_ok_def arch_init_tables)
  moreover have "unat (heap_end (snd (sparc_arch_init b s0))) + 524288 * length szs \<le> 4294967295"
    unfolding arch_init_tables(2) by (rule assms(5))
  ultimately have ok: "spaces_ok b (unat (heap_end s0)) (length szs) s"
    using setup_spaces_ok [of b _ 0 "snd (sparc_arch_init b s0)" szs] assms(3,4) by (simp add: s_def)
  have "user_reaches b (snd (sparc_space_switch k i s)) va =
      (if unat va < 262144 then Some (unat (phys_base (spaces s i)) + unat va) else None)" if i: "i < length szs" for i
  proof -
    let ?t = "snd (sparc_space_switch k i s)"
    have "in_space b ?t i" using ok i assms(3)
      by (simp add: in_space_def spaces_ok_def tables_ok_def has_space_def sparc_space_switch_def MMU_CTX_REG_def MMU_CTXTBL_PTR_def)
    moreover have "spaces ?t = spaces s" by (simp add: sparc_space_switch_def)
    ultimately show ?thesis using user_reaches_own_page [OF assms(1) f, of ?t i va] by simp
  qed
  then show ?thesis using ok by (simp add: spaces_ok_def)
qed

definition demo_board :: sparc_board where
  "demo_board = \<lparr>SPARC_NB_PARTITIONS = 2, contexts_addr = 0x40010000, level1_addr = 0x40010400, level2_addr = 0x40010C00,
     sparc_idlestack = 0x40020000, SPARC_TIMER_FREQUENCY = 100000, core_syscall = (\<lambda>n args infos s. Some (n + 1, s)),
     sparc_sched = (\<lambda>s. Some s)\<rparr>"

definition demo_sparc :: sparc_state where
  "demo_sparc = \<lparr>spaces = (\<lambda>_. \<lparr>phys_base = 0, space_size = 0\<rparr>), mmu_contexts_tab = (\<lambda>_. 7), mmu_level1_tab = (\<lambda>_ _. 7),
     mmu_level2_tab = (\<lambda>_ _. 7), mmu_regs = (\<lambda>_. 0), sparc_mem = (\<lambda>_. 0), heap_end = 0x40030000, pok_arch_sp = 0,
     pok_sparc_isr = (\<lambda>_. None), psr = 0, sparc_kernel = demo_state\<rparr>"

lemma sparc_spaces_separate_witness:
  "user_reaches demo_board (snd (sparc_space_switch 0 1 (sparc_setup_spaces demo_board [131072, 200000] 0 (snd (sparc_arch_init demo_board demo_sparc))))) 16 =
     Some 0x40080010"
proof -
  have p: "tables_laid_out demo_board" "SPARC_NB_PARTITIONS demo_board mod 16 = 0 \<or> contexts_found demo_board" "length [131072, 200000 :: u32] \<le> SPARC_NB_PARTITIONS demo_board"
    "\<forall>sz \<in> set [131072, 200000 :: u32]. unat sz \<le> 262144"
    "unat (heap_end demo_sparc) + 524288 * length [131072, 200000 :: u32] \<le> 4294967295"
    by (simp_all add: demo_board_def demo_sparc_def tables_laid_out_def contexts_found_def)
  have "phys_base (spaces (sparc_setup_spaces demo_board [131072, 200000] 0 (snd (sparc_arch_init demo_board demo_sparc))) 1) = 0x40080000"
    using arch_init_tables(2) [of demo_board demo_sparc]
    by (simp add: sparc_mem_alloc_def sparc_create_space_def Let_def SPARC_PARTITION_SIZE_def SPARC_PAGE_SIZE_def demo_sparc_def)
  then show ?thesis
    using sparc_spaces_separate [OF p, of 0 16, THEN conjunct1, rule_format, of 1] by simp
qed

subsection \<open>Traps\<close>

lemma arch_init_handlers:
  "n < 256 \<Longrightarrow> pok_sparc_isr (snd (sparc_time_init b (snd (sparc_arch_init b s)))) n =
    (if n = 0x82 then Some H_pok_arch_sc_int else if n = 0x18 then Some H_timer_isr else None)"
  by (simp add: sparc_arch_init_def sparc_syscalls_init_def sparc_event_register_def sparc_space_init_def sparc_time_init_def
      sparc_space_switch_def sparc_tables_init_def psr_enable_traps_def psr_disable_interupt_def traps_init_def Let_def
      unmask_irq_def outw_def SPARC_TRAP_IRQ_BASE_def SPARC_TRAP_SYSCALL_BASE_def TIMER_IRQ_def)

lemma outw_apply [simp]: "inw a (outw x v s) = (if a = x then v else inw a s)"
  by (simp add: inw_def outw_def)

text \<open>Spaces and timer leave the rest alone.\<close>

lemma setup_spaces_rest [simp]:
  "pok_sparc_isr (sparc_setup_spaces b szs i s) = pok_sparc_isr s" "mmu_regs (sparc_setup_spaces b szs i s) = mmu_regs s"
  "sparc_mem (sparc_setup_spaces b szs i s) = sparc_mem s"
  by (induction b szs i s rule: sparc_setup_spaces.induct)
    (simp_all add: sparc_mem_alloc_def sparc_create_space_def Let_def)

lemma time_init_rest [simp]:
  "pok_sparc_isr (snd (sparc_time_init b s)) =
     (if pok_sparc_isr s 0x18 = None then (pok_sparc_isr s)(0x18 := Some H_timer_isr) else pok_sparc_isr s)"
  "mmu_regs (snd (sparc_time_init b s)) = mmu_regs s" "spaces (snd (sparc_time_init b s)) = spaces s"
  "in_space b' (snd (sparc_time_init b s)) i = in_space b' s i" "a < 0x80000000 \<Longrightarrow> inw a (snd (sparc_time_init b s)) = inw a s"
  by (auto simp: sparc_time_init_def sparc_event_register_def unmask_irq_def outw_def inw_def Let_def TIMER_IRQ_def SPARC_TRAP_IRQ_BASE_def
      in_space_def tables_ok_def has_space_def IRQMP_MASK0_def TIMER1_def)

lemma arch_init_rest [simp]:
  "mmu_regs (snd (sparc_arch_init b s)) MMU_CTRL_REG = 1" "mmu_regs (snd (sparc_arch_init b s)) MMU_CTX_REG = 0"
  "sparc_mem (snd (sparc_arch_init b s)) = sparc_mem s"
  by (simp_all add: sparc_arch_init_def sparc_syscalls_init_def sparc_event_register_def sparc_space_init_def sparc_space_switch_def
      sparc_tables_init_def psr_enable_traps_def psr_disable_interupt_def traps_init_def Let_def MMU_CTRL_REG_def MMU_CTX_REG_def)

text \<open>What the kernel writes by way of the frame leaves the tables.\<close>

lemma in_space_outw [simp]: "in_space b (outw a v s) i = in_space b s i" "spaces (outw a v s) = spaces s" "mmu_regs (outw a v s) = mmu_regs s"
  by (simp_all add: in_space_def tables_ok_def has_space_def outw_def)

lemma in_space_sp [simp]: "in_space b (s\<lparr>pok_arch_sp := sp\<rparr>) i = in_space b s i"
  by (simp add: in_space_def tables_ok_def has_space_def)

definition frame_inside :: "u32 \<Rightarrow> bool" where
  "frame_inside sp \<longleftrightarrow> 0x54 \<le> unat sp \<and> unat sp \<le> 262144 \<and> unat sp mod 4 = 0"

lemma frame_access:
  assumes "tables_laid_out b" "contexts_found b" "in_space b s i" "mmu_regs s MMU_CTRL_REG = 1" "frame_inside sp"
    and "k \<in> {0x20, 0x24, 0x28, 0x2c, 0x30, 0x34, 0x4c, 0x50}"
  shows "load_word b (sp - k) s = Some (inw (phys_base (spaces s i) + sp - k) s)"
    and "store_word b (sp - k) v s = Some (outw (phys_base (spaces s i) + sp - k) v s)"
proof -
  have "mmu_access b st (sp - k) s = Some (phys_base (spaces s i) + sp - k)" for st
    by (rule frame_word [OF assms(1-4)]) (use assms(5,6) in \<open>auto simp: frame_inside_def\<close>)
  then show "load_word b (sp - k) s = Some (inw (phys_base (spaces s i) + sp - k) s)"
    "store_word b (sp - k) v s = Some (outw (phys_base (spaces s i) + sp - k) v s)"
    by (simp_all add: load_word_def store_word_def)
qed



subsection \<open>Contexts\<close>

text \<open>Resetting the context of a kernel thread on the SPARC exchanges its number and its entry point: what comes out is
  the context of a thread whose entry point is the number of the thread and whose number is the entry point.\<close>

theorem sparc_context_reset_exchanges:
  "sparc_context_reset b stack_size stack_addr (snd (sparc_context_create b tid stack_size entry s)) =
     snd (sparc_context_create b entry stack_size tid s)"
  by (simp add: sparc_context_reset_def sparc_context_create_def Let_def sparc_offsets) (auto simp: outw_def fun_eq_iff)

end
