(* ===== verification/Pok_Ppc.thy ===== *)
theory Pok_Ppc
  imports Pok_Syscall
begin

text \<open>
  The port to the PowerPC (\<open>kernel/arch/ppc\<close>, board \<open>prep\<close>): the hashed page table that is filled by page faults, the
  contexts of threads, system calls, and the timer that counts down. The memory of the contexts is a function from
  addresses to words; the page table is an array of groups of eight entries. The readings of the time base are a
  parameter, and so are the system calls themselves and the scheduler. A loop on the spot is the value \<open>None\<close>.
\<close>

unbundle bit_operations_syntax

subsection \<open>The state\<close>

record ppc_pte_t =
  vsid_api :: u32
  rpn_flags :: u32

record ppc_space =
  ppc_phys_base :: u32
  ppc_size :: u32

record ppc_state =
  ppc_spaces :: "nat \<Rightarrow> ppc_space"
  pt_base :: u32
  pt_mask :: u32
  page_table :: "nat \<Rightarrow> nat \<Rightarrow> ppc_pte_t"
  reg_sdr1 :: u32
  reg_sr0 :: u32
  reg_msr :: u32
  reg_dec :: u32
  tb_reads :: nat
  time_last :: u64
  time_inter :: u32
  ppc_heap_end :: u32
  ppc_mem :: "u32 \<Rightarrow> u32"
  ppc_kernel :: kstate

record ppc_board =
  time_base :: "nat \<Rightarrow> u64"
  PPC_TIMER_FREQUENCY :: u32
  pok_arch_rfi :: u32
  pok_arch_thread_start :: u32
  PPC_USER_STACK_SIZE :: u32
  ppc_core_syscall :: "u32 \<Rightarrow> pok_syscall_args_t \<Rightarrow> pok_syscall_info_t \<Rightarrow> ppc_state \<Rightarrow> (u32 \<times> ppc_state) option"
  ppc_sched :: "ppc_state \<Rightarrow> ppc_state option"

subsection \<open>Constants\<close>

definition PPC_SR_KP :: u32 where "PPC_SR_KP = push_bit 29 1"
definition PPC_PTE_V :: u32 where "PPC_PTE_V = push_bit 31 1"
definition PPC_PTE_R :: u32 where "PPC_PTE_R = push_bit 8 1"
definition PPC_PTE_C :: u32 where "PPC_PTE_C = push_bit 7 1"
definition PPC_PTE_PP_RW :: u32 where "PPC_PTE_PP_RW = 2"
definition POK_PAGE_SIZE :: u32 where "POK_PAGE_SIZE = push_bit 12 1"
definition POK_PAGE_MASK :: u32 where "POK_PAGE_MASK = NOT (POK_PAGE_SIZE - 1)"
definition MSR_DR :: u32 where "MSR_DR = push_bit 4 1"
definition MSR_IR :: u32 where "MSR_IR = push_bit 5 1"
definition MSR_IP :: u32 where "MSR_IP = push_bit 6 1"
definition MSR_PR :: u32 where "MSR_PR = push_bit 14 1"
definition MSR_EE :: u32 where "MSR_EE = push_bit 15 1"
definition PPC_KERNEL_STACK_SIZE :: u32 where "PPC_KERNEL_STACK_SIZE = 8192"
definition BUS_FREQ :: u32 where "BUS_FREQ = 100 * 1000000"
definition FREQ_DIV :: u32 where "FREQ_DIV = 40"
definition SIZEOF_CONTEXT :: u32 where "SIZEOF_CONTEXT = 104"
definition SIZEOF_VOLATILE_CONTEXT :: u32 where "SIZEOF_VOLATILE_CONTEXT = 96"

subsection \<open>Address spaces\<close>

definition ppc_create_space :: "nat \<Rightarrow> u32 \<Rightarrow> u32 \<Rightarrow> ppc_state \<Rightarrow> pok_ret_t \<times> ppc_state" where
  "ppc_create_space partition_id addr sz s =
     (POK_ERRNO_OK, s\<lparr>ppc_spaces := (ppc_spaces s)(partition_id := \<lparr>ppc_phys_base = addr, ppc_size = sz\<rparr>)\<rparr>)"

definition ppc_space_switch :: "nat \<Rightarrow> nat \<Rightarrow> ppc_state \<Rightarrow> pok_ret_t \<times> ppc_state" where
  "ppc_space_switch old_partition_id new_partition_id s =
     (POK_ERRNO_OK, s\<lparr>reg_sr0 := PPC_SR_KP OR of_nat new_partition_id\<rparr>)"

definition ppc_space_base_vaddr :: "u32 \<Rightarrow> u32" where
  "ppc_space_base_vaddr addr = 0"

text \<open>The table is at address 0; it is not cleared.\<close>

definition ppc_space_init :: "ppc_state \<Rightarrow> ppc_state" where
  "ppc_space_init s = (let s1 = s\<lparr>pt_base := 0, pt_mask := 0x3ff\<rparr> in s1\<lparr>reg_sdr1 := pt_base s1 OR drop_bit 10 (pt_mask s1)\<rparr>)"

text \<open>An entry goes to the first free place of its group; without one the kernel loops.\<close>

definition pteg_of :: "ppc_state \<Rightarrow> u32 \<Rightarrow> u32 \<Rightarrow> nat" where
  "pteg_of s vsid vaddr = unat (((vsid AND 0x7ffff) XOR (drop_bit 12 vaddr AND 0xffff)) AND pt_mask s)"

definition pte_tag :: "u32 \<Rightarrow> u32 \<Rightarrow> u32" where
  "pte_tag vsid vaddr = PPC_PTE_V OR push_bit 7 vsid OR (drop_bit 22 vaddr AND 0x3f)"

definition pok_insert_pte :: "u32 \<Rightarrow> u32 \<Rightarrow> u32 \<Rightarrow> ppc_state \<Rightarrow> ppc_state option" where
  "pok_insert_pte vsid vaddr pte s =
     (let g = pteg_of s vsid vaddr in
      case find (\<lambda>i. (vsid_api (page_table s g i) AND PPC_PTE_V) = 0) [0..<8] of
        None \<Rightarrow> None
      | Some i \<Rightarrow> Some (s\<lparr>page_table := (page_table s)(g := (page_table s g)(i := \<lparr>vsid_api = pte_tag vsid vaddr, rpn_flags = pte\<rparr>))\<rparr>))"

definition page_fault :: "u32 \<Rightarrow> ppc_state \<Rightarrow> ppc_state option" where
  "page_fault addr s =
     (let p = pok_current_partition (ppc_kernel s); sp = ppc_spaces s p in
      if addr < ppc_size sp
      then let vaddr = addr AND POK_PAGE_MASK;
               v = ((ppc_phys_base sp + vaddr) AND POK_PAGE_MASK) OR PPC_PTE_R OR PPC_PTE_C OR PPC_PTE_PP_RW
           in pok_insert_pte (of_nat p) vaddr v s
      else None)"

definition pok_arch_isi_int :: "u32 \<Rightarrow> u32 \<Rightarrow> ppc_state \<Rightarrow> ppc_state option" where
  "pok_arch_isi_int pc msr s = (if (msr AND push_bit 30 1) \<noteq> 0 then page_fault pc s else None)"

definition pok_arch_dsi_int :: "u32 \<Rightarrow> u32 \<Rightarrow> ppc_state \<Rightarrow> ppc_state option" where
  "pok_arch_dsi_int dar dsisr s = (if (dsisr AND push_bit 30 1) \<noteq> 0 then page_fault dar s else None)"

subsection \<open>Memory and contexts\<close>

definition ppc_mem_alloc :: "u32 \<Rightarrow> ppc_state \<Rightarrow> u32 \<times> ppc_state" where
  "ppc_mem_alloc sz s = (let res = (ppc_heap_end s + 4095) AND NOT 4095 in (res, s\<lparr>ppc_heap_end := res + sz\<rparr>))"

definition stw :: "u32 \<Rightarrow> u32 \<Rightarrow> ppc_state \<Rightarrow> ppc_state" where
  "stw a v s = s\<lparr>ppc_mem := (ppc_mem s)(a := v)\<rparr>"

definition lwz :: "u32 \<Rightarrow> ppc_state \<Rightarrow> u32" where
  "lwz a s = ppc_mem s a"

text \<open>Clearing a structure: its words.\<close>

definition clear_words :: "u32 \<Rightarrow> u32 \<Rightarrow> ppc_state \<Rightarrow> ppc_state" where
  "clear_words a n s = s\<lparr>ppc_mem := (\<lambda>x. if x - a < n then 0 else ppc_mem s x)\<rparr>"

text \<open>The frame of a new thread: the last two words of one structure are the first two of the other. Offsets: \<open>sp\<close> 0,
  \<open>r3\<close> 20, \<open>r4\<close> 24, \<open>srr0\<close> 72 and \<open>srr1\<close> 76 of the one; \<open>sp\<close> 0, \<open>r14\<close> 20, \<open>r15\<close> 24, \<open>back_chain\<close> 96 and \<open>lr\<close> 100 of the other.\<close>

definition ppc_space_context_create :: "ppc_board \<Rightarrow> nat \<Rightarrow> u32 \<Rightarrow> u32 \<Rightarrow> u32 \<Rightarrow> u32 \<Rightarrow> ppc_state \<Rightarrow> u32 \<times> ppc_state" where
  "ppc_space_context_create b partition_id entry_rel stack_rel arg1 arg2 s =
     (case ppc_mem_alloc PPC_KERNEL_STACK_SIZE s of (stack_addr, s1) \<Rightarrow>
      let vctx = stack_addr + PPC_KERNEL_STACK_SIZE - SIZEOF_VOLATILE_CONTEXT;
          ctx = vctx - SIZEOF_CONTEXT + 8;
          s2 = clear_words vctx SIZEOF_VOLATILE_CONTEXT (clear_words ctx SIZEOF_CONTEXT s1);
          s3 = stw (vctx + 24) arg2 (stw (vctx + 20) arg1 s2);
          s4 = stw (vctx + 72) entry_rel (stw vctx (stack_rel - 12) s3);
          s5 = stw (vctx + 76) (MSR_EE OR MSR_IP OR MSR_DR OR MSR_IR OR MSR_PR) s4
      in (ctx, stw ctx vctx (stw (ctx + 100) (pok_arch_rfi b) s5)))"

definition thread_frame :: "ppc_board \<Rightarrow> u32 \<Rightarrow> u32 \<Rightarrow> u32 \<Rightarrow> ppc_state \<Rightarrow> ppc_state" where
  "thread_frame b sp entry tid s =
     stw sp (sp + 96) (stw (sp + 100) (pok_arch_thread_start b) (stw (sp + 24) tid (stw (sp + 20) entry (clear_words sp SIZEOF_CONTEXT s))))"

definition ppc_context_create :: "ppc_board \<Rightarrow> u32 \<Rightarrow> u32 \<Rightarrow> u32 \<Rightarrow> ppc_state \<Rightarrow> u32 \<times> ppc_state" where
  "ppc_context_create b tid stack_size entry s =
     (case ppc_mem_alloc stack_size s of (stack_addr, s1) \<Rightarrow>
      let sp = stack_addr + stack_size - SIZEOF_CONTEXT in (sp, thread_frame b sp entry tid s1))"

definition ppc_context_reset :: "ppc_board \<Rightarrow> u32 \<Rightarrow> u32 \<Rightarrow> ppc_state \<Rightarrow> u32 \<times> ppc_state" where
  "ppc_context_reset b stack_size stack_addr s =
     (let sp = stack_addr + stack_size - 4 - SIZEOF_CONTEXT; tid = lwz (sp + 24) s; entry = lwz (sp + 20) s
      in (0, thread_frame b sp entry tid s))"

subsection \<open>The machine state and system calls\<close>

definition ppc_arch_init :: "ppc_state \<Rightarrow> pok_ret_t \<times> ppc_state" where
  "ppc_arch_init s = (POK_ERRNO_OK, ppc_space_init (s\<lparr>reg_msr := MSR_IP\<rparr>))"

definition ppc_preempt_disable :: "ppc_state \<Rightarrow> pok_ret_t \<times> ppc_state" where
  "ppc_preempt_disable s = (POK_ERRNO_OK, s\<lparr>reg_msr := reg_msr s AND NOT MSR_EE\<rparr>)"

definition ppc_preempt_enable :: "ppc_state \<Rightarrow> pok_ret_t \<times> ppc_state" where
  "ppc_preempt_enable s = (POK_ERRNO_OK, s\<lparr>reg_msr := reg_msr s OR MSR_EE\<rparr>)"

definition ppc_event_register :: "nat \<Rightarrow> u32 \<Rightarrow> ppc_state \<Rightarrow> pok_ret_t \<times> ppc_state" where
  "ppc_event_register vector handler s = (POK_ERRNO_OK, s)"

definition ppc_thread_stack_addr :: "ppc_board \<Rightarrow> nat \<Rightarrow> u32 \<Rightarrow> ppc_state \<Rightarrow> u32" where
  "ppc_thread_stack_addr b partition_id local_thread_id s =
     p_size (pok_partitions (ppc_kernel s) partition_id) - 16 - local_thread_id * PPC_USER_STACK_SIZE b"

text \<open>The answer of the call is not returned by the function.\<close>

definition ppc_sc_int :: "ppc_board \<Rightarrow> u32 \<Rightarrow> u32 \<Rightarrow> u32 \<Rightarrow> u32 \<Rightarrow> u32 \<Rightarrow> u32 \<Rightarrow> ppc_state \<Rightarrow> ppc_state option" where
  "ppc_sc_int b n arg1 arg2 arg3 arg4 arg5 s =
     (let k = ppc_kernel s; part_id = pok_current_partition k;
          info = \<lparr>si_partition = part_id, si_thread = POK_SCHED_CURRENT_THREAD k, si_base_addr = p_base_addr (pok_partitions k part_id)\<rparr>;
          args = \<lparr>sa_nargs = 5, sa_arg1 = arg1, sa_arg2 = arg2, sa_arg3 = arg3, sa_arg4 = arg4, sa_arg5 = arg5\<rparr>
      in map_option snd (ppc_core_syscall b n args info s))"

subsection \<open>The timer\<close>

definition get_ppc_tb :: "ppc_board \<Rightarrow> ppc_state \<Rightarrow> u64 \<times> ppc_state" where
  "get_ppc_tb b s = (time_base b (tb_reads s), s\<lparr>tb_reads := Suc (tb_reads s)\<rparr>)"

text \<open>The difference of the times is cut to a signed number of 32 bits.\<close>

definition pok_arch_set_decr :: "ppc_board \<Rightarrow> ppc_state \<Rightarrow> pok_ret_t \<times> ppc_state" where
  "pok_arch_set_decr b s =
     (let time_new = time_last s + ucast (time_inter s) in
      case get_ppc_tb b s of (time_cur, s1) \<Rightarrow>
      let delta = ucast (time_new - time_cur) :: u32; s2 = s1\<lparr>time_last := time_new\<rparr>
      in if sint delta < 0 then (POK_ERRNO_EINVAL, s2) else (POK_ERRNO_OK, s2\<lparr>reg_dec := delta\<rparr>))"

partial_function (option) decr_loop :: "ppc_board \<Rightarrow> ppc_state \<Rightarrow> ppc_state option" where
  "decr_loop b s =
     (case pok_arch_set_decr b s of (err, s1) \<Rightarrow>
      let s2 = s1\<lparr>ppc_kernel := (ppc_kernel s1)\<lparr>pok_tick_counter := pok_tick_counter (ppc_kernel s1) + ucast FREQ_DIV\<rparr>\<rparr>
      in if err \<noteq> POK_ERRNO_OK then decr_loop b s2 else Some s2)"

definition pok_arch_decr_int :: "ppc_board \<Rightarrow> ppc_state \<Rightarrow> ppc_state option" where
  "pok_arch_decr_int b s = Option.bind (decr_loop b s) (ppc_sched b)"

definition ppc_time_init :: "ppc_board \<Rightarrow> ppc_state \<Rightarrow> pok_ret_t \<times> ppc_state" where
  "ppc_time_init b s =
     (let s1 = s\<lparr>time_inter := (BUS_FREQ * FREQ_DIV) div PPC_TIMER_FREQUENCY b\<rparr> in
      case get_ppc_tb b s1 of (t, s2) \<Rightarrow> (POK_ERRNO_OK, snd (pok_arch_set_decr b (s2\<lparr>time_last := t\<rparr>))))"

end
