(* ===== verification/Pok_Ppc_Mmu.thy ===== *)
theory Pok_Ppc_Mmu
  imports Pok_Ppc Pok_Words
begin

text \<open>
  What the hashed page table of the PowerPC port means to the processor: the search for an address in the groups of the
  table, the runs of the kernel in which partitions take turns and faults fill the table, and what a program reaches in
  them. Then the timer and the contexts.
\<close>

unbundle bit_operations_syntax

subsection \<open>The search in the table\<close>

text \<open>The identifier of the segment, and the two groups for an address; an entry of the second is marked by a bit.\<close>

definition segment_id :: "ppc_state \<Rightarrow> u32" where
  "segment_id s = reg_sr0 s AND 0xffffff"

definition first_group :: "ppc_state \<Rightarrow> u32 \<Rightarrow> nat" where
  "first_group s ea = unat (((segment_id s AND 0x7ffff) XOR (drop_bit 12 ea AND 0xffff)) AND 0x3ff)"

definition second_group :: "ppc_state \<Rightarrow> u32 \<Rightarrow> nat" where
  "second_group s ea = unat (NOT ((segment_id s AND 0x7ffff) XOR (drop_bit 12 ea AND 0xffff)) AND 0x3ff)"

definition search_group :: "ppc_state \<Rightarrow> nat \<Rightarrow> u32 \<Rightarrow> u32 option" where
  "search_group s g tag = map_option (\<lambda>i. rpn_flags (page_table s g i)) (find (\<lambda>i. vsid_api (page_table s g i) = tag) [0..<8])"

definition ppc_translate :: "ppc_state \<Rightarrow> u32 \<Rightarrow> u32 option" where
  "ppc_translate s ea =
     (let tag = PPC_PTE_V OR push_bit 7 (segment_id s) OR (drop_bit 22 ea AND 0x3f);
          page = (\<lambda>flags. (flags AND NOT 0xfff) OR (ea AND 0xfff)) in
      case search_group s (first_group s ea) tag of Some flags \<Rightarrow> Some (page flags)
      | None \<Rightarrow> map_option page (search_group s (second_group s ea) (tag OR 0x40)))"

subsection \<open>Tags and groups\<close>

lemma unat_tag:
  assumes "v < 16777216"
  shows "unat (pte_tag (of_nat v) ea) = 2147483648 + 128 * v + unat ea div 4194304 mod 64"
proof -
  have "push_bit 7 (of_nat v) = (of_nat (128 * v) :: u32)" by (simp add: push_bit_eq_mult)
  moreover have "unat (of_nat (128 * v) :: u32) = 128 * v"
    using assms by (simp add: unat_of_nat take_bit_nat_eq_self del: of_nat_mult)
  ultimately have v: "unat (push_bit 7 (of_nat v) :: u32) = 128 * v" by simp
  have a: "unat (drop_bit 22 ea AND 0x3f) = unat ea div 4194304 mod 64"
    using unat_and_mask [of "drop_bit 22 ea" 6] by (simp add: mask_eq_exp_minus_1 unat_shift)
  have h: "unat (PPC_PTE_V OR push_bit 7 (of_nat v)) = 2147483648 + 128 * v"
    using or_low_bits [of PPC_PTE_V 31 "push_bit 7 (of_nat v)"] v assms by (simp add: PPC_PTE_V_def)
  have "(2147483648 + 128 * v) mod 2 ^ 6 = 0" by simp
  then show ?thesis
    using or_low_bits [of "PPC_PTE_V OR push_bit 7 (of_nat v)" 6 "drop_bit 22 ea AND 0x3f"] h a
    unfolding pte_tag_def by (simp add: or.assoc)
qed

lemma xor_cancel: "a XOR b = a XOR c \<Longrightarrow> b = (c :: u32)"
proof -
  assume h: "a XOR b = a XOR c"
  have x: "a XOR (a XOR x) = x" for x by (simp add: xor.assoc [symmetric])
  have "b = a XOR (a XOR b)" by (rule x [symmetric])
  also have "\<dots> = a XOR (a XOR c)" by (simp only: h)
  also have "\<dots> = c" by (rule x)
  finally show "b = c" .
qed

lemma same_group_same_page:
  assumes "pteg_of s v ea = pteg_of s v ea'" and "pt_mask s = 0x3ff"
  shows "unat ea div 4096 mod 1024 = unat ea' div 4096 mod 1024"
proof -
  have g: "pteg_of s v e = unat (take_bit 10 v XOR take_bit 10 (drop_bit 12 e))" for e
  proof -
    have "((v AND 0x7ffff) XOR (drop_bit 12 e AND 0xffff)) AND 0x3ff = take_bit 10 (take_bit 19 v XOR take_bit 16 (drop_bit 12 e))"
      by (simp add: take_bit_eq_mask mask_eq_exp_minus_1)
    also have "\<dots> = take_bit 10 v XOR take_bit 10 (drop_bit 12 e)" by (simp add: take_bit_xor take_bit_take_bit)
    finally show ?thesis using assms(2) by (simp add: pteg_of_def)
  qed
  have "take_bit 10 v XOR take_bit 10 (drop_bit 12 ea) = take_bit 10 v XOR take_bit 10 (drop_bit 12 ea')"
    using assms(1) unfolding g by (simp add: unsigned_word_eqI)
  then have "take_bit 10 (drop_bit 12 ea) = take_bit 10 (drop_bit 12 ea')"
    by (rule xor_cancel)
  then have "unat (drop_bit 12 ea AND mask 10) = unat (drop_bit 12 ea' AND mask 10)" by (simp only: take_bit_eq_mask)
  then show ?thesis by (simp add: unat_and_mask unat_shift)
qed

text \<open>Tag and group of an address of the first segment determine the partition and the page.\<close>

lemma tag_group_unique:
  assumes "pte_tag (of_nat p) ea = pte_tag (of_nat p') ea'" and "pteg_of s (of_nat p) ea = pteg_of s (of_nat p') ea'"
    and "pt_mask s = 0x3ff" and "p < 16777216" "p' < 16777216" "unat ea < 268435456" "unat ea' < 268435456"
  shows "p = p'" and "unat ea div 4096 = unat ea' div 4096"
proof -
  have t: "128 * p + unat ea div 4194304 mod 64 = 128 * p' + unat ea' div 4194304 mod 64"
    using assms(1) unat_tag [OF assms(4), of ea] unat_tag [OF assms(5), of ea'] by simp
  have "(128 * q + unat e div 4194304 mod 64) div 128 = q" for q and e :: u32 by simp
  then show p: "p = p'" using t by metis
  then have h: "unat ea div 4194304 mod 64 = unat ea' div 4194304 mod 64" using t by simp
  have d: "unat e div 4194304 = unat e div 4096 div 1024" for e :: u32 by (simp add: div_mult2_eq [symmetric])
  have "unat ea div 4096 div 1024 < 64" "unat ea' div 4096 div 1024 < 64" using assms(6,7) by simp_all
  then have "unat ea div 4096 div 1024 = unat ea' div 4096 div 1024" using h unfolding d by simp
  moreover have "unat ea div 4096 mod 1024 = unat ea' div 4096 mod 1024"
    using same_group_same_page assms(2,3) p by blast
  ultimately show "unat ea div 4096 = unat ea' div 4096" by (metis div_mult_mod_eq)
qed

lemma tag_bits: "bit (pte_tag v ea) 31" "\<not> bit (pte_tag v ea) 6"
  by (simp_all add: pte_tag_def PPC_PTE_V_def bit_simps)

subsection \<open>Runs of the kernel\<close>

text \<open>The partitions take turns, and the current one has page faults.\<close>

inductive ppc_run :: "ppc_state \<Rightarrow> ppc_state \<Rightarrow> bool" for boot where
  run_boot: "ppc_run boot boot"
| run_switch: "ppc_run boot s \<Longrightarrow> p < 256 \<Longrightarrow>
    ppc_run boot (snd (ppc_space_switch old p (s\<lparr>ppc_kernel := (ppc_kernel s)\<lparr>pok_current_partition := p\<rparr>\<rparr>)))"
| run_isi: "ppc_run boot s \<Longrightarrow> pok_arch_isi_int pc msr s = Some s' \<Longrightarrow> ppc_run boot s'"
| run_dsi: "ppc_run boot s \<Longrightarrow> pok_arch_dsi_int dar dsisr s = Some s' \<Longrightarrow> ppc_run boot s'"

definition page_of :: "u32 \<Rightarrow> u32" where
  "page_of ea = ea AND NOT 0xfff"

text \<open>An entry that is not free maps a page of a partition to its place in the memory of the partition.\<close>

definition maps_page :: "ppc_state \<Rightarrow> nat \<Rightarrow> ppc_pte_t \<Rightarrow> bool" where
  "maps_page s g e \<longleftrightarrow> (\<exists>p ea. p < 256 \<and> ea < ppc_size (ppc_spaces s p) \<and> vsid_api e = pte_tag (of_nat p) ea \<and>
     pteg_of s (of_nat p) ea = g \<and> rpn_flags e AND NOT 0xfff = page_of (ppc_phys_base (ppc_spaces s p) + page_of ea))"

text \<open>The kernel does not clear the table: what was in it at the start stays, and only free places are filled.\<close>

definition in_use :: "ppc_pte_t \<Rightarrow> bool" where
  "in_use e \<longleftrightarrow> (vsid_api e AND PPC_PTE_V) \<noteq> 0"

definition table_ok :: "ppc_state \<Rightarrow> ppc_state \<Rightarrow> bool" where
  "table_ok boot s \<longleftrightarrow> pt_mask s = 0x3ff \<and>
     (\<forall>g i. (in_use (page_table boot g i) \<longrightarrow> page_table s g i = page_table boot g i) \<and>
       (in_use (page_table boot g i) \<or> \<not> in_use (page_table s g i) \<or> maps_page s g (page_table s g i)))"

definition segment_current :: "ppc_state \<Rightarrow> bool" where
  "segment_current s \<longleftrightarrow> pok_current_partition (ppc_kernel s) < 256 \<and>
     reg_sr0 s = PPC_SR_KP OR of_nat (pok_current_partition (ppc_kernel s))"

lemma page_mask: "POK_PAGE_MASK = NOT 0xfff"
  by (simp add: POK_PAGE_MASK_def POK_PAGE_SIZE_def)

lemma tag_of_page: "pte_tag v (page_of ea) = pte_tag v ea" "pteg_of s v (page_of ea) = pteg_of s v ea"
proof -
  have p: "page_of ea = ea AND NOT (mask 12)" by (simp add: page_of_def mask_eq_exp_minus_1)
  have "drop_bit 12 (page_of ea) = drop_bit 12 ea" by (rule bit_eqI) (auto simp: p bit_simps dest: bit_imp_le_length)
  moreover have "drop_bit 22 (page_of ea) = drop_bit 22 ea" by (rule bit_eqI) (auto simp: p bit_simps dest: bit_imp_le_length)
  ultimately show "pte_tag v (page_of ea) = pte_tag v ea" "pteg_of s v (page_of ea) = pteg_of s v ea"
    by (simp_all add: pte_tag_def pteg_of_def)
qed

lemma fault_flags: "((w AND NOT 0xfff) OR PPC_PTE_R OR PPC_PTE_C OR PPC_PTE_PP_RW) AND NOT 0xfff = (w AND NOT 0xfff :: u32)"
proof -
  have "PPC_PTE_R OR PPC_PTE_C OR PPC_PTE_PP_RW = (0x182 :: u32)" by (simp add: PPC_PTE_R_def PPC_PTE_C_def PPC_PTE_PP_RW_def)
  then have "(w AND NOT 0xfff) OR PPC_PTE_R OR PPC_PTE_C OR PPC_PTE_PP_RW = (w AND NOT 0xfff) OR 0x182" by (simp only: or.assoc)
  moreover have "((w AND NOT 0xfff) OR 0x182) AND NOT 0xfff = ((w AND NOT 0xfff) AND NOT 0xfff) OR (0x182 AND NOT 0xfff :: u32)"
    by (rule bit.conj_disj_distrib2)
  moreover have "(0x182 AND NOT 0xfff :: u32) = 0" by simp
  moreover have "(w AND NOT 0xfff) AND NOT 0xfff = w AND NOT 0xfff" by (simp only: and.assoc and.idem)
  ultimately show ?thesis by (simp only: or.right_neutral)
qed

lemma mask12: "(0xfff :: u32) = mask 12"
  by (simp add: mask_eq_exp_minus_1)

lemma unat_page: "unat (page_of ea) = unat ea - unat ea mod 4096" and unat_offset: "unat (ea AND 0xfff) = unat ea mod 4096"
  using unat_and_not_mask [of ea 12] unat_and_mask [of ea 12] by (simp_all add: page_of_def mask12)

lemma page_of_aligned:
  assumes "unat x mod 4096 = 0"
  shows "page_of x = x"
proof -
  have "unat (page_of x) = unat x" using assms by (simp add: unat_page)
  then show ?thesis by (rule unsigned_word_eqI)
qed

lemma page_aligned: "unat (page_of ea) mod 4096 = 0"
  unfolding unat_page by (metis minus_mod_eq_mult_div mod_mult_self1_is_0)

lemma sum_aligned: "unat (x :: u32) mod 4096 = 0 \<Longrightarrow> unat y mod 4096 = 0 \<Longrightarrow> unat (x + y) mod 4096 = 0"
proof -
  assume "unat x mod 4096 = 0" "unat y mod 4096 = 0"
  then have "4096 dvd unat x + unat y" by (simp add: mod_0_imp_dvd)
  moreover have "unat (x + y) mod 4096 = (unat x + unat y) mod 4096" by (simp add: unat_word_ariths mod_mod_cancel)
  ultimately show "unat (x + y) mod 4096 = 0" by simp
qed

lemma page_join:
  assumes "unat b mod 4096 = 0"
  shows "page_of (b + page_of ea) OR (ea AND 0xfff) = b + ea"
proof -
  have al: "unat (b + page_of ea) mod 4096 = 0" by (rule sum_aligned [OF assms page_aligned])
  then have "page_of (b + page_of ea) OR (ea AND 0xfff) = (b + page_of ea) + (ea AND 0xfff)"
    using or_low_add [of "b + page_of ea" 12 "ea AND 0xfff"] by (simp add: page_of_aligned unat_offset)
  also have "page_of ea + (ea AND 0xfff) = ea"
  proof -
    have "page_of ea + (ea AND 0xfff) = page_of ea OR (ea AND 0xfff)"
      using or_low_add [of "page_of ea" 12 "ea AND 0xfff"] page_aligned [of ea] by (simp add: unat_offset)
    also have "\<dots> = ea" by (rule bit_eqI) (auto simp: page_of_def mask12 bit_simps)
    finally show ?thesis .
  qed
  then have "(b + page_of ea) + (ea AND 0xfff) = b + ea" by (simp add: add.assoc)
  finally show ?thesis .
qed

lemma same_page:
  assumes "unat ea div 4096 = unat ea' div 4096"
  shows "page_of ea = page_of ea'"
proof -
  have "unat (page_of e) = 4096 * (unat e div 4096)" for e by (simp add: unat_page minus_mod_eq_mult_div)
  then have "unat (page_of ea) = unat (page_of ea')" using assms by simp
  then show ?thesis by (rule unsigned_word_eqI)
qed

subsection \<open>Faults keep the table\<close>

lemma insert_cases:
  assumes "pok_insert_pte vsid vaddr pte s = Some s'"
  obtains i where "i < 8" and "(vsid_api (page_table s (pteg_of s vsid vaddr) i) AND PPC_PTE_V) = 0"
    and "s' = s\<lparr>page_table := (page_table s)(pteg_of s vsid vaddr := (page_table s (pteg_of s vsid vaddr))(i :=
      \<lparr>vsid_api = pte_tag vsid vaddr, rpn_flags = pte\<rparr>))\<rparr>"
  using assms by (auto simp: pok_insert_pte_def Let_def find_Some_iff split: option.splits)

lemma fault_cases:
  assumes "page_fault ea s = Some s'"
  defines "p \<equiv> pok_current_partition (ppc_kernel s)"
  obtains g i e where "ea < ppc_size (ppc_spaces s p)" and "g = pteg_of s (of_nat p) ea" and "i < 8" and "\<not> in_use (page_table s g i)"
    and "vsid_api e = pte_tag (of_nat p) ea" and "rpn_flags e AND NOT 0xfff = page_of (ppc_phys_base (ppc_spaces s p) + page_of ea)"
    and "s' = s\<lparr>page_table := (page_table s)(g := (page_table s g)(i := e))\<rparr>"
proof -
  let ?sp = "ppc_spaces s p" let ?v = "((ppc_phys_base ?sp + page_of ea) AND NOT 0xfff) OR PPC_PTE_R OR PPC_PTE_C OR PPC_PTE_PP_RW"
  have ea: "ea < ppc_size ?sp" and "pok_insert_pte (of_nat p) (page_of ea) ?v s = Some s'"
    using assms(1) by (auto simp: page_fault_def p_def Let_def page_mask page_of_def split: if_splits)
  then obtain i where "i < 8" "\<not> in_use (page_table s (pteg_of s (of_nat p) ea) i)" "s' = s\<lparr>page_table := (page_table s)(pteg_of s (of_nat p) ea := (page_table s (pteg_of s (of_nat p) ea))(i :=
      \<lparr>vsid_api = pte_tag (of_nat p) ea, rpn_flags = ?v\<rparr>))\<rparr>"
    by (auto simp: tag_of_page in_use_def elim: insert_cases)
  then show ?thesis using ea fault_flags [of "ppc_phys_base ?sp + page_of ea"]
    by (intro that [of "pteg_of s (of_nat p) ea" i "\<lparr>vsid_api = pte_tag (of_nat p) ea, rpn_flags = ?v\<rparr>"]) (simp_all add: page_of_def)
qed

lemma fault_keeps:
  assumes "page_fault ea s = Some s'" and "table_ok boot s" and "pok_current_partition (ppc_kernel s) < 256"
  shows "table_ok boot s'"
proof -
  let ?p = "pok_current_partition (ppc_kernel s)"
  obtain g i e where f: "ea < ppc_size (ppc_spaces s ?p)" "g = pteg_of s (of_nat ?p) ea" "\<not> in_use (page_table s g i)"
     "vsid_api e = pte_tag (of_nat ?p) ea" "rpn_flags e AND NOT 0xfff = page_of (ppc_phys_base (ppc_spaces s ?p) + page_of ea)"
     "s' = s\<lparr>page_table := (page_table s)(g := (page_table s g)(i := e))\<rparr>"
    by (rule fault_cases [OF assms(1)])
  have same: "maps_page s' = maps_page s" by (simp add: f(6) maps_page_def pteg_of_def fun_eq_iff)
  have "maps_page s g e" using f(1,2,4,5) assms(3) unfolding maps_page_def by blast
  moreover have "\<not> in_use (page_table boot g i)" using assms(2) f(3) unfolding table_ok_def by metis
  moreover have "page_table s' = (page_table s)(g := (page_table s g)(i := e))" "pt_mask s' = pt_mask s" by (simp_all add: f(6))
  ultimately show ?thesis using assms(2) unfolding table_ok_def same by (simp add: fun_upd_def)
qed

subsection \<open>What a program reaches\<close>

definition spaces_fit :: "ppc_state \<Rightarrow> bool" where
  "spaces_fit s \<longleftrightarrow> (\<forall>p<256. unat (ppc_phys_base (ppc_spaces s p)) mod 4096 = 0 \<and> unat (ppc_size (ppc_spaces s p)) \<le> 268435456)"

lemma segment_id_current:
  assumes "segment_current s"
  shows "segment_id s = of_nat (pok_current_partition (ppc_kernel s))"
proof -
  let ?p = "pok_current_partition (ppc_kernel s)"
  have "unat (of_nat ?p AND mask 24 :: u32) = unat (of_nat ?p :: u32)"
    unfolding unat_and_mask using assms by (simp add: segment_current_def unat_of_nat take_bit_nat_eq_self)
  then have "of_nat ?p AND mask 24 = (of_nat ?p :: u32)" by (rule unsigned_word_eqI)
  then have n: "of_nat ?p AND 0xffffff = (of_nat ?p :: u32)" by (simp add: mask_eq_exp_minus_1)
  have "segment_id s = (PPC_SR_KP AND 0xffffff) OR (of_nat ?p AND 0xffffff)"
    using assms unfolding segment_id_def segment_current_def by (simp add: bit.conj_disj_distrib2)
  also have "PPC_SR_KP AND 0xffffff = 0" by (simp add: PPC_SR_KP_def)
  finally show ?thesis by (simp add: n)
qed

lemma search_Some:
  assumes "search_group s g tag = Some flags"
  obtains i where "i < 8" "vsid_api (page_table s g i) = tag" "flags = rpn_flags (page_table s g i)"
  using assms by (auto simp: search_group_def find_Some_iff)

lemma search_None: "search_group s g tag = None \<Longrightarrow> i < 8 \<Longrightarrow> vsid_api (page_table s g i) \<noteq> tag"
  by (auto simp: search_group_def find_None_iff)

lemma valid_tag:
  assumes "bit (w :: u32) 31"
  shows "(w AND PPC_PTE_V) \<noteq> 0"
proof
  assume z: "(w AND PPC_PTE_V) = 0"
  have "bit (w AND PPC_PTE_V) 31" using assms by (simp add: PPC_PTE_V_def bit_simps)
  then show False unfolding z by simp
qed

lemma tag_in_use: "vsid_api e = tag \<Longrightarrow> bit tag 31 \<Longrightarrow> in_use e"
  using valid_tag [of tag] by (simp add: in_use_def)

text \<open>A search finds what the kernel has written, or what a search in the table of the start finds.\<close>

lemma search_new_or_old:
  assumes ok: "table_ok boot s" and tag: "bit tag 31" and f: "search_group s g tag = Some flags"
  shows "(\<exists>i<8. vsid_api (page_table s g i) = tag \<and> flags = rpn_flags (page_table s g i) \<and> maps_page s g (page_table s g i)) \<or>
    search_group boot g tag = Some flags"
proof -
  obtain i where i: "i < 8" "vsid_api (page_table s g i) = tag" "\<And>j. j < i \<Longrightarrow> vsid_api (page_table s g j) \<noteq> tag"
      "flags = rpn_flags (page_table s g i)" using f by (auto simp: search_group_def find_Some_iff)
  show ?thesis
  proof (cases "in_use (page_table boot g i)")
    case False
    then have "maps_page s g (page_table s g i)" using ok tag_in_use [OF i(2) tag] unfolding table_ok_def by metis
    then show ?thesis using i by blast
  next
    case True
    then have same: "page_table s g i = page_table boot g i" using ok unfolding table_ok_def by metis
    have "vsid_api (page_table boot g j) \<noteq> tag" if "j < i" for j
    proof
      assume "vsid_api (page_table boot g j) = tag"
      then have "page_table s g j = page_table boot g j" using ok tag_in_use [OF _ tag] unfolding table_ok_def by metis
      then show False using i(3) [OF that] \<open>vsid_api (page_table boot g j) = tag\<close> by simp
    qed
    then have "find (\<lambda>i. vsid_api (page_table boot g i) = tag) [0..<8] = Some i"
      using i(1,2) by (auto simp: find_Some_iff same)
    then show ?thesis using i(4) by (simp add: search_group_def same)
  qed
qed

lemma search_none_before:
  assumes ok: "table_ok boot s" and tag: "bit tag 31" and f: "search_group s g tag = None"
  shows "search_group boot g tag = None"
proof (rule ccontr)
  assume "search_group boot g tag \<noteq> None"
  then obtain i where i: "i < 8" "vsid_api (page_table boot g i) = tag" by (auto elim: search_Some)
  then have "page_table s g i = page_table boot g i" using ok tag_in_use [OF _ tag] unfolding table_ok_def by metis
  then show False using search_None [OF f i(1)] i(2) by simp
qed

text \<open>What the table the kernel found at the start makes of an address of the running partition.\<close>

definition boot_translate :: "ppc_state \<Rightarrow> ppc_state \<Rightarrow> u32 \<Rightarrow> u32 option" where
  "boot_translate boot s ea = ppc_translate (boot\<lparr>reg_sr0 := reg_sr0 s\<rparr>) ea"

lemma boot_translate_cleared:
  assumes "\<forall>g i. \<not> in_use (page_table boot g i)"
  shows "boot_translate boot s ea = None"
proof -
  have "search_group (boot\<lparr>reg_sr0 := r\<rparr>) g tag = None" if "bit tag 31" for r g tag
    using assms tag_in_use [OF _ that] by (auto simp: search_group_def find_None_iff)
  moreover have "bit (PPC_PTE_V OR x OR y) 31" "bit (PPC_PTE_V OR x OR y OR z) 31" for x y z by (simp_all add: PPC_PTE_V_def bit_simps)
  ultimately show ?thesis by (simp add: boot_translate_def ppc_translate_def Let_def or.assoc)
qed

lemma translate_sound:
  assumes ok: "table_ok boot s" and seg: "segment_current s" and fit: "spaces_fit s" and ea: "unat ea < 268435456"
    and t: "ppc_translate s ea = Some pa"
  defines "p \<equiv> pok_current_partition (ppc_kernel s)"
  shows "page_of ea < ppc_size (ppc_spaces s p) \<and> pa = ppc_phys_base (ppc_spaces s p) + ea \<or> boot_translate boot s ea = Some pa"
proof -
  let ?b = "boot\<lparr>reg_sr0 := reg_sr0 s\<rparr>"
  have p: "p < 256" using seg by (simp add: segment_current_def p_def)
  have tag: "PPC_PTE_V OR push_bit 7 (segment_id s) OR (drop_bit 22 ea AND 0x3f) = pte_tag (of_nat p) ea"
    by (simp add: segment_id_current [OF seg] p_def pte_tag_def)
  have g: "first_group s ea = pteg_of s (of_nat p) ea"
    using ok by (simp add: first_group_def pteg_of_def segment_id_current [OF seg] p_def table_ok_def)
  have b: "segment_id ?b = segment_id s" "first_group ?b ea = first_group s ea" "second_group ?b ea = second_group s ea"
    "search_group ?b h x = search_group boot h x" for h x
    by (simp_all add: segment_id_def first_group_def second_group_def search_group_def)
  have bits: "bit (pte_tag (of_nat p) ea OR 0x40) 31" "bit (pte_tag (of_nat p) ea OR 0x40) 6" by (simp_all add: bit_simps tag_bits)
  show ?thesis
  proof (cases "search_group s (pteg_of s (of_nat p) ea) (pte_tag (of_nat p) ea)")
    case None
    then obtain flags where f: "search_group s (second_group s ea) (pte_tag (of_nat p) ea OR 0x40) = Some flags"
        "pa = (flags AND NOT 0xfff) OR (ea AND 0xfff)"
      using t unfolding ppc_translate_def Let_def tag g by auto
    have "\<not> maps_page s h (page_table s h i)" if "vsid_api (page_table s h i) = pte_tag (of_nat p) ea OR 0x40" for h i
      using that bits(2) tag_bits(2) unfolding maps_page_def by metis
    then have "search_group boot (second_group s ea) (pte_tag (of_nat p) ea OR 0x40) = Some flags"
      using search_new_or_old [OF ok bits(1) f(1)] by blast
    then have "boot_translate boot s ea = Some pa"
      using search_none_before [OF ok tag_bits(1) None] f(2) unfolding boot_translate_def ppc_translate_def Let_def b tag g by simp
    then show ?thesis ..
  next
    case (Some flags)
    have pa: "pa = (flags AND NOT 0xfff) OR (ea AND 0xfff)"
      using t Some unfolding ppc_translate_def Let_def tag g by simp
    from search_new_or_old [OF ok tag_bits(1) Some] show ?thesis
    proof
      assume "search_group boot (pteg_of s (of_nat p) ea) (pte_tag (of_nat p) ea) = Some flags"
      then have "boot_translate boot s ea = Some pa"
        using pa unfolding boot_translate_def ppc_translate_def Let_def b tag g by simp
      then show ?thesis ..
    next
      assume "\<exists>i<8. vsid_api (page_table s (pteg_of s (of_nat p) ea) i) = pte_tag (of_nat p) ea \<and>
        flags = rpn_flags (page_table s (pteg_of s (of_nat p) ea) i) \<and> maps_page s (pteg_of s (of_nat p) ea) (page_table s (pteg_of s (of_nat p) ea) i)"
      then obtain p' ea' where m: "p' < 256" "ea' < ppc_size (ppc_spaces s p')"
          "pte_tag (of_nat p) ea = pte_tag (of_nat p') ea'" "pteg_of s (of_nat p') ea' = pteg_of s (of_nat p) ea"
          "flags AND NOT 0xfff = page_of (ppc_phys_base (ppc_spaces s p') + page_of ea')"
        unfolding maps_page_def by metis
      have ea': "unat ea' < 268435456" using m(1,2) fit by (auto simp: spaces_fit_def word_less_nat_alt intro: less_le_trans)
      have mask: "pt_mask s = 0x3ff" using ok by (simp add: table_ok_def)
      have "p < 16777216" "p' < 16777216" using p m(1) by simp_all
      note u = tag_group_unique [OF m(3) m(4) [symmetric] mask this ea ea']
      have page: "page_of ea' = page_of ea" by (rule same_page [OF u(2) [symmetric]])
      have "pa = ppc_phys_base (ppc_spaces s p) + ea"
        using pa m(5) page_join fit p u(1) by (simp add: page spaces_fit_def)
      moreover have "unat (page_of ea) \<le> unat ea'" unfolding page [symmetric] unat_page by simp
      then have "page_of ea < ppc_size (ppc_spaces s p)" using m(2) u(1) by (simp add: word_less_nat_alt)
      ultimately show ?thesis by blast
    qed
  qed
qed

lemma run_keeps:
  assumes "ppc_run boot s" and "table_ok boot boot" and "segment_current boot"
  shows "table_ok boot s \<and> segment_current s \<and> ppc_spaces s = ppc_spaces boot"
  using assms(1)
proof induction
  case run_boot
  then show ?case using assms by simp
next
  case (run_switch s p old)
  let ?t = "snd (ppc_space_switch old p (s\<lparr>ppc_kernel := (ppc_kernel s)\<lparr>pok_current_partition := p\<rparr>\<rparr>))"
  have "maps_page ?t = maps_page s" by (simp add: maps_page_def ppc_space_switch_def pteg_of_def fun_eq_iff)
  then show ?case using run_switch by (auto simp: table_ok_def segment_current_def ppc_space_switch_def)
next
  case (run_isi s pc msr s')
  then have f: "page_fault pc s = Some s'" by (simp add: pok_arch_isi_int_def split: if_splits)
  then show ?case using run_isi fault_keeps [OF f] by (auto simp: segment_current_def elim!: fault_cases)
next
  case (run_dsi s dar dsisr s')
  then have f: "page_fault dar s = Some s'" by (simp add: pok_arch_dsi_int_def split: if_splits)
  then show ?case using run_dsi fault_keeps [OF f] by (auto simp: segment_current_def elim!: fault_cases)
qed

lemma run_fits: "ppc_run boot s \<Longrightarrow> table_ok boot boot \<Longrightarrow> segment_current boot \<Longrightarrow> spaces_fit boot \<Longrightarrow> spaces_fit s"
  using run_keeps [of boot s] by (simp add: spaces_fit_def)

lemma fault_translates:
  assumes f: "page_fault ea s = Some s'" and s': "table_ok boot s'" "segment_current s'" "spaces_fit s'" and ea: "unat ea < 268435456"
    and clear: "boot_translate boot s ea = None"
  shows "ppc_translate s' ea = Some (ppc_phys_base (ppc_spaces s (pok_current_partition (ppc_kernel s))) + ea)"
proof -
  let ?p = "pok_current_partition (ppc_kernel s)"
  obtain g i e where e: "g = pteg_of s (of_nat ?p) ea" "i < 8" "vsid_api e = pte_tag (of_nat ?p) ea"
     "s' = s\<lparr>page_table := (page_table s)(g := (page_table s g)(i := e))\<rparr>"
    by (rule fault_cases [OF f])
  have id: "segment_id s' = of_nat ?p" using segment_id_current [OF s'(2)] by (simp add: e(4))
  have "pt_mask s' = 0x3ff" using s'(1) by (simp add: table_ok_def)
  then have "first_group s' ea = pteg_of s' (of_nat ?p) ea" by (simp add: first_group_def pteg_of_def id)
  moreover have "pteg_of s' (of_nat ?p) ea = g" unfolding e(1) by (simp add: e(4) pteg_of_def)
  ultimately have "first_group s' ea = g" by simp
  moreover have "vsid_api (page_table s' g i) = pte_tag (of_nat ?p) ea" by (simp add: e(3,4))
  ultimately have "search_group s' (first_group s' ea) (pte_tag (of_nat ?p) ea) \<noteq> None" using search_None e(2) by metis
  then have "ppc_translate s' ea \<noteq> None" by (auto simp: ppc_translate_def Let_def id pte_tag_def split: option.splits)
  then obtain pa where pa: "ppc_translate s' ea = Some pa" by blast
  have "ppc_spaces s' = ppc_spaces s" "pok_current_partition (ppc_kernel s') = ?p" by (simp_all add: e(4))
  moreover have "boot_translate boot s' ea = None" using clear by (simp add: e(4) boot_translate_def)
  ultimately show ?thesis using translate_sound [OF s' ea pa] pa by simp
qed


definition demo_ppc :: ppc_state where
  "demo_ppc = \<lparr>ppc_spaces = (\<lambda>p. \<lparr>ppc_phys_base = 0x100000 + of_nat p * 0x20000, ppc_size = 0x20000\<rparr>), pt_base = 0, pt_mask = 0x3ff,
     page_table = (\<lambda>_ _. \<lparr>vsid_api = 0, rpn_flags = 0\<rparr>), reg_sdr1 = 0, reg_sr0 = PPC_SR_KP, reg_msr = 0, reg_dec = 0, tb_reads = 0,
     time_last = 0, time_inter = 0, ppc_heap_end = 0x200000, ppc_mem = (\<lambda>_. 0), ppc_kernel = demo_state\<rparr>"


subsection \<open>The timer\<close>

text \<open>One round: the deadline advances by an interval, and the loop ends when it is not in the past.\<close>

lemma cut_difference:
  assumes "unat (a :: u64) < unat b + 2147483648" and "unat b < unat a + 2147483648"
  shows "sint (ucast (a - b) :: u32) < 0 \<longleftrightarrow> unat a < unat b" and "unat b \<le> unat a \<Longrightarrow> unat (ucast (a - b) :: u32) = unat a - unat b"
proof -
  have a: "unat a < 18446744073709551616" "unat b < 18446744073709551616"
    by (rule order_less_le_trans [OF unsigned_less], simp)+
  have ge: "unat (ucast (a - b) :: u32) = unat a - unat b" if "unat b \<le> unat a"
  proof -
    have "unat (a - b) = unat a - unat b" using that by (simp add: unat_sub word_le_nat_alt)
    moreover have "unat a - unat b < 4294967296" using assms by simp
    ultimately show ?thesis by (simp add: unsigned_ucast_eq take_bit_nat_eq_self)
  qed
  have lt: "unat (ucast (a - b) :: u32) = 4294967296 - (unat b - unat a)" if "unat a < unat b"
  proof -
    have "unat (b - a) = unat b - unat a" using that by (simp add: unat_sub word_le_nat_alt)
    then have "unat (a - b) = 18446744073709551616 - (unat b - unat a)"
      using that a by (simp add: unat_sub_if_size word_size)
    moreover have "(18446744073709551616 - (unat b - unat a)) mod 4294967296 = 4294967296 - (unat b - unat a)"
    proof -
      have "18446744073709551616 - (unat b - unat a) = (4294967296 - (unat b - unat a)) + 4294967296 * 4294967295"
        using that assms by simp
      then show ?thesis using that assms by (simp only: mod_mult_self2) simp
    qed
    moreover have "unat (ucast (a - b) :: u32) = unat (a - b) mod 4294967296"
      by (simp add: unsigned_ucast_eq take_bit_eq_mod)
    ultimately show ?thesis by (simp only:)
  qed
  have s: "sint (w :: u32) < 0 \<longleftrightarrow> 2147483648 \<le> unat w" for w
  proof -
    have "sint w < 0 \<longleftrightarrow> bit w 31" using bit_last_iff [of w] by simp
    also have "\<dots> \<longleftrightarrow> odd (unat w div 2147483648)"
      using bit_unsigned_iff [where ?'a = nat and w = w and n = 31] by (simp add: bit_iff_odd)
    also have "\<dots> \<longleftrightarrow> 2147483648 \<le> unat w"
    proof (cases "2147483648 \<le> unat w")
      case True
      then have "unat w div 2147483648 = 1" using unat_small32 [of w] by (intro div_nat_eqI) simp_all
      then show ?thesis using True by simp
    qed simp
    finally show ?thesis .
  qed
  show "sint (ucast (a - b) :: u32) < 0 \<longleftrightarrow> unat a < unat b"
    using assms ge lt by (cases "unat b \<le> unat a") (auto simp: s)
  show "unat b \<le> unat a \<Longrightarrow> unat (ucast (a - b) :: u32) = unat a - unat b" by (rule ge)
qed

text \<open>The time base goes on while the loop catches up: in the next \<open>n\<close> readings it does not go back, and by at most \<open>d\<close> from
  one to the next, less than an interval; \<open>n\<close> is enough for what is late. The time that is late, as well as an interval,
  is within the 31 bits of the difference, and the readings are an interval below the end of the time base.\<close>

definition reading :: "ppc_board \<Rightarrow> ppc_state \<Rightarrow> nat \<Rightarrow> nat" where
  "reading b s k = unat (time_base b (tb_reads s + k))"

definition catches_up :: "ppc_board \<Rightarrow> nat \<Rightarrow> nat \<Rightarrow> ppc_state \<Rightarrow> bool" where
  "catches_up b d n s \<longleftrightarrow> d < unat (time_inter s) \<and> unat (time_inter s) < 2147483648 \<and>
     (\<forall>k<n. reading b s k \<le> reading b s (Suc k) \<and> reading b s (Suc k) \<le> reading b s k + d) \<and>
     (\<forall>k\<le>n. reading b s k + unat (time_inter s) < 18446744073709551616) \<and>
     unat (time_last s) \<le> reading b s 0 \<and> reading b s 0 < unat (time_last s) + 2147483648 \<and>
     reading b s 0 \<le> unat (time_last s) + unat (time_inter s) + n * (unat (time_inter s) - d)"

definition after_rounds :: "ppc_board \<Rightarrow> ppc_state \<Rightarrow> nat \<Rightarrow> ppc_state \<Rightarrow> bool" where
  "after_rounds b s m s' \<longleftrightarrow> 0 < m \<and> unat (time_last s') = unat (time_last s) + m * unat (time_inter s) \<and>
     pok_tick_counter (ppc_kernel s') = pok_tick_counter (ppc_kernel s) + 40 * of_nat m \<and> tb_reads s' = tb_reads s + m \<and>
     unat (time_base b (tb_reads s + m - 1)) + unat (reg_dec s') = unat (time_last s) + m * unat (time_inter s)"

lemma decr_round:
  assumes "catches_up b d n s"
  defines "t \<equiv> time_last s + ucast (time_inter s)" and "now \<equiv> time_base b (tb_reads s)"
  shows "unat t = unat (time_last s) + unat (time_inter s)"
    and "decr_loop b s = (let k = (ppc_kernel s)\<lparr>pok_tick_counter := pok_tick_counter (ppc_kernel s) + 40\<rparr>;
        s1 = s\<lparr>tb_reads := Suc (tb_reads s), time_last := t, ppc_kernel := k\<rparr>
      in if unat t < unat now then decr_loop b s1 else Some (s1\<lparr>reg_dec := ucast (t - now)\<rparr>))"
    and "unat now \<le> unat t \<Longrightarrow> unat (ucast (t - now) :: u32) = unat t - unat now"
proof -
  have i: "unat (ucast (time_inter s) :: u64) = unat (time_inter s)"
    by (simp add: unsigned_ucast_eq take_bit_nat_eq_self order_less_trans [OF unat_small32])
  have n: "unat now = reading b s 0" by (simp add: reading_def now_def)
  have "reading b s 0 + unat (time_inter s) < 18446744073709551616" "unat (time_last s) \<le> reading b s 0"
    using assms(1) unfolding catches_up_def by blast+
  then show t: "unat t = unat (time_last s) + unat (time_inter s)"
    using i by (simp add: t_def unat_word_ariths)
  have b: "unat t < unat now + 2147483648" "unat now < unat t + 2147483648" using assms(1) t unfolding n catches_up_def by linarith+
  note c = cut_difference [OF b]
  show "unat now \<le> unat t \<Longrightarrow> unat (ucast (t - now) :: u32) = unat t - unat now" by (rule c(2))
  show "decr_loop b s = (let k = (ppc_kernel s)\<lparr>pok_tick_counter := pok_tick_counter (ppc_kernel s) + 40\<rparr>;
        s1 = s\<lparr>tb_reads := Suc (tb_reads s), time_last := t, ppc_kernel := k\<rparr>
      in if unat t < unat now then decr_loop b s1 else Some (s1\<lparr>reg_dec := ucast (t - now)\<rparr>))"
    using c(1) by (subst decr_loop.simps)
      (simp add: pok_arch_set_decr_def get_ppc_tb_def Let_def t_def [symmetric] now_def [symmetric] FREQ_DIV_def)
qed

lemma catches_up_next:
  assumes "catches_up b d (Suc n) s" and "unat t = unat (time_last s) + unat (time_inter s)" "unat t < reading b s 0"
    and "s1 = s\<lparr>tb_reads := Suc (tb_reads s), time_last := t, ppc_kernel := k\<rparr>"
  shows "catches_up b d n s1"
proof -
  have r: "reading b s1 j = reading b s (Suc j)" for j by (simp add: reading_def assms(4))
  have "reading b s (Suc 0) \<le> reading b s 0 + d" "reading b s 0 \<le> reading b s (Suc 0)" "d < unat (time_inter s)"
    "reading b s 0 < unat (time_last s) + 2147483648"
    "reading b s 0 \<le> unat (time_last s) + unat (time_inter s) + (unat (time_inter s) - d + n * (unat (time_inter s) - d))"
    using assms(1) unfolding catches_up_def by auto
  moreover from this have "unat t \<le> reading b s (Suc 0)" "reading b s (Suc 0) < unat t + 2147483648"
    "reading b s (Suc 0) \<le> unat t + unat (time_inter s) + n * (unat (time_inter s) - d)"
    using assms(2,3) by linarith+
  ultimately show ?thesis using assms(1) unfolding catches_up_def r by (simp add: assms(4))
qed

lemma decr_loop_returns:
  "catches_up b d n s \<Longrightarrow> \<exists>m s'. decr_loop b s = Some s' \<and> after_rounds b s m s' \<and> m \<le> Suc n \<and>
     unat (time_last s') \<le> reading b s (m - 1) + unat (time_inter s)"
proof (induction n arbitrary: s)
  case 0
  define t now where "t = time_last s + ucast (time_inter s)" and "now = time_base b (tb_reads s)"
  note r = decr_round [OF 0, folded t_def now_def]
  have n: "reading b s 0 = unat now" by (simp add: reading_def now_def)
  have le: "unat now \<le> unat t" "unat t \<le> unat now + unat (time_inter s)" using 0 r(1) by (simp_all add: catches_up_def n)
  define s' where "s' = s\<lparr>tb_reads := Suc (tb_reads s), time_last := t,
    ppc_kernel := (ppc_kernel s)\<lparr>pok_tick_counter := pok_tick_counter (ppc_kernel s) + 40\<rparr>, reg_dec := ucast (t - now)\<rparr>"
  have "decr_loop b s = Some s'" using r(2) le(1) by (simp add: s'_def Let_def)
  moreover have "after_rounds b s 1 s'" using r(1,3) le by (simp add: after_rounds_def s'_def now_def [symmetric])
  ultimately show ?case using le(2) n by (intro exI [of _ 1] exI [of _ s']) (simp add: s'_def)
next
  case (Suc n)
  define t now where "t = time_last s + ucast (time_inter s)" and "now = time_base b (tb_reads s)"
  note r = decr_round [OF Suc.prems, folded t_def now_def]
  have n: "reading b s 0 = unat now" by (simp add: reading_def now_def)
  define s1 where "s1 = s\<lparr>tb_reads := Suc (tb_reads s), time_last := t,
    ppc_kernel := (ppc_kernel s)\<lparr>pok_tick_counter := pok_tick_counter (ppc_kernel s) + 40\<rparr>\<rparr>"
  show ?case
  proof (cases "unat t < unat now")
    case False
    then have "decr_loop b s = Some (s1\<lparr>reg_dec := ucast (t - now)\<rparr>)" using r(2) by (simp add: s1_def Let_def)
    moreover have "after_rounds b s 1 (s1\<lparr>reg_dec := ucast (t - now)\<rparr>)"
      using r(1,3) False by (simp add: after_rounds_def s1_def now_def [symmetric])
    moreover have "unat t \<le> reading b s 0 + unat (time_inter s)" using r(1) Suc.prems by (simp add: catches_up_def)
    ultimately show ?thesis by (intro exI [of _ 1] exI [of _ "s1\<lparr>reg_dec := ucast (t - now)\<rparr>"]) (simp add: s1_def)
  next
    case True
    then have step: "decr_loop b s = decr_loop b s1" using r(2) by (simp add: s1_def Let_def)
    have "catches_up b d n s1" using catches_up_next [OF Suc.prems r(1)] True n by (simp add: s1_def)
    from Suc.IH [OF this] obtain m s' where m: "decr_loop b s1 = Some s'" "after_rounds b s1 m s'" "m \<le> Suc n"
      "unat (time_last s') \<le> reading b s1 (m - 1) + unat (time_inter s1)" by blast
    moreover have "0 < m" using m(2) by (simp add: after_rounds_def)
    then have "reading b s1 (m - 1) = reading b s m" by (simp add: reading_def s1_def)
    moreover have "after_rounds b s (Suc m) s'" using m(2) r(1) by (simp add: after_rounds_def s1_def algebra_simps)
    ultimately show ?thesis using step by (intro exI [of _ "Suc m"] exI [of _ s']) (simp add: s1_def)
  qed
qed

text \<open>C24: The interrupt of the PowerPC timer returns, though the time base goes on while its loop runs, if it comes after the deadline,
  by less than two to the power of 31 ticks, and the loop takes less
  time for a pass than an interval has: it catches up after at most \<open>n + 1\<close> passes, where \<open>n\<close> is what was late divided by what
  a pass gains. The deadline advances by whole intervals until it is not in the past, and is then at most an interval
  ahead of the last reading; the clock of the kernel advances by 40 for each of them, so that none is lost, and the counter is
  set to the time that is left; then the scheduler runs.\<close>

theorem ppc_timer_catches_up:
  assumes "catches_up b d n s"
  shows "\<exists>m s'. 0 < m \<and> m \<le> Suc n \<and> pok_arch_decr_int b s = ppc_sched b s' \<and>
    unat (time_last s') = unat (time_last s) + m * unat (time_inter s) \<and>
    pok_tick_counter (ppc_kernel s') = pok_tick_counter (ppc_kernel s) + 40 * of_nat m \<and>
    reading b s (m - 1) + unat (reg_dec s') = unat (time_last s') \<and> unat (reg_dec s') \<le> unat (time_inter s)"
proof -
  obtain m s' where "decr_loop b s = Some s'" and r: "after_rounds b s m s'" "m \<le> Suc n"
    "unat (time_last s') \<le> reading b s (m - 1) + unat (time_inter s)" using decr_loop_returns [OF assms] by blast
  then have "pok_arch_decr_int b s = ppc_sched b s'" by (simp add: pok_arch_decr_int_def)
  moreover have m: "0 < m" using r(1) by (simp add: after_rounds_def)
  moreover have "reading b s (m - 1) + unat (reg_dec s') = unat (time_last s')" using r(1) m by (simp add: after_rounds_def reading_def)
  moreover from this have "unat (reg_dec s') \<le> unat (time_inter s)" using r(3) by linarith
  ultimately show ?thesis using r(1,2) by (intro exI [of _ m] exI [of _ s'] conjI) (assumption | simp add: after_rounds_def)+
qed

definition demo_ppc_board :: ppc_board where
  "demo_ppc_board = \<lparr>time_base = (\<lambda>k. 1000 + 10 * of_nat k), PPC_TIMER_FREQUENCY = 100000, pok_arch_rfi = 0x100, pok_arch_thread_start = 0x200,
     PPC_USER_STACK_SIZE = 8192, ppc_core_syscall = (\<lambda>n args infos s. Some (n, s)), ppc_sched = (\<lambda>s. Some s)\<rparr>"

text \<open>A clock that goes on by 10 with each reading, and 1000 late: four passes.\<close>

lemma ppc_timer_catches_up_witness:
  "\<exists>s'. pok_arch_decr_int demo_ppc_board (demo_ppc\<lparr>time_inter := 300\<rparr>) = Some s' \<and> unat (time_last s') = 1200 \<and>
     pok_tick_counter (ppc_kernel s') = 260 \<and> unat (reg_dec s') = 170"
proof -
  have r: "reading demo_ppc_board (demo_ppc\<lparr>time_inter := 300\<rparr>) k = 1000 + 10 * k" if "k \<le> 4" for k
  proof -
    have "(1000 + 10 * of_nat k :: u64) = of_nat (1000 + 10 * k)" by simp
    then have "unat (1000 + 10 * of_nat k :: u64) = 1000 + 10 * k"
      using that by (simp only: unat_of_nat) (simp add: take_bit_nat_eq_self)
    then show ?thesis by (simp add: reading_def demo_ppc_board_def demo_ppc_def)
  qed
  have "catches_up demo_ppc_board 10 3 (demo_ppc\<lparr>time_inter := 300\<rparr>)"
    unfolding catches_up_def by (simp add: r) (simp add: demo_ppc_def)
  from ppc_timer_catches_up [OF this] obtain m s' where m: "0 < m" "m \<le> 4" "pok_arch_decr_int demo_ppc_board (demo_ppc\<lparr>time_inter := 300\<rparr>) = Some s'"
    "unat (time_last s') = m * 300" "pok_tick_counter (ppc_kernel s') = 100 + 40 * of_nat m"
    "reading demo_ppc_board (demo_ppc\<lparr>time_inter := 300\<rparr>) (m - 1) + unat (reg_dec s') = unat (time_last s')"
    by (auto simp: demo_ppc_board_def demo_ppc_def)
  have last: "1000 + 10 * (m - 1) + unat (reg_dec s') = m * 300" using m r [of "m - 1"] by simp
  then have four: "m = 4" using m(1,2) by linarith
  show ?thesis using m last unfolding four by (intro exI [of _ s']) simp
qed

subsection \<open>Contexts\<close>

lemma lwz_stw [simp]: "lwz a (stw x v s) = (if a = x then v else lwz a s)"
  by (simp add: lwz_def stw_def)

lemma lwz_clear [simp]: "lwz a (clear_words x n s) = (if a - x < n then 0 else lwz a s)"
  by (simp add: lwz_def clear_words_def)

text \<open>Resetting the context of a kernel thread on the PowerPC looks for it four bytes below the place where it was made:
  what it leaves there is the frame of a thread whose entry point is 0, and whose number is the entry point of the thread
  that was to be reset.\<close>

theorem ppc_context_reset_loses_entry:
  "ppc_context_reset b n (fst (ppc_mem_alloc n s)) (snd (ppc_context_create b tid n entry s)) =
     (0, thread_frame b (fst (ppc_context_create b tid n entry s) - 4) 0 entry (snd (ppc_context_create b tid n entry s)))"
proof -
  define a where "a = fst (ppc_mem_alloc n s)"
  define sp where "sp = a + n - SIZEOF_CONTEXT"
  have c: "ppc_context_create b tid n entry s = (sp, thread_frame b sp entry tid (snd (ppc_mem_alloc n s)))"
    by (simp add: ppc_context_create_def a_def sp_def Let_def split: prod.split)
  have f: "a + n - 4 - SIZEOF_CONTEXT = sp - 4" by (simp add: sp_def)
  have r: "lwz (sp - 4 + 24) (thread_frame b sp entry tid t) = entry" "lwz (sp - 4 + 20) (thread_frame b sp entry tid t) = 0" for t
    by (simp_all add: thread_frame_def SIZEOF_CONTEXT_def)
  show ?thesis unfolding a_def [symmetric] c ppc_context_reset_def f Let_def fst_conv snd_conv r ..
qed

end
