(* ===== verification/Pok_Serial.thy ===== *)
theory Pok_Serial
  imports Pok_Words
begin

text \<open>
  The serial lines that are the consoles of the ports: \<open>kernel/arch/sparc/leon3/cons.c\<close> and \<open>kernel/arch/ppc/prep/cons.c\<close>.
  The readings of the status register are a parameter, numbered from the start; the writes to registers are a list of
  addresses and values. A wait that does not end is \<open>None\<close>.
\<close>

unbundle bit_operations_syntax

record serial_line =
  sl_reads :: nat
  sl_writes :: "(u32 \<times> u32) list"

definition sl_out :: "u32 \<Rightarrow> u32 \<Rightarrow> serial_line \<Rightarrow> serial_line" where
  "sl_out a v sl = sl\<lparr>sl_writes := sl_writes sl @ [(a, v)]\<rparr>"

partial_function (option) wait_status :: "u32 \<Rightarrow> (nat \<Rightarrow> u32) \<Rightarrow> nat \<Rightarrow> nat option" where
  "wait_status bits status n = (if (status n AND bits) = 0 then wait_status bits status (n + 1) else Some (n + 1))"

text \<open>One character: wait, then write. All characters in turn; the answer is 0.\<close>

definition write_char :: "u32 \<Rightarrow> u32 \<Rightarrow> (nat \<Rightarrow> u32) \<Rightarrow> u8 \<Rightarrow> serial_line \<Rightarrow> serial_line option" where
  "write_char bits port status a sl =
     map_option (\<lambda>n. sl_out port (ucast a) (sl\<lparr>sl_reads := n\<rparr>)) (wait_status bits status (sl_reads sl))"

fun write_chars :: "(u8 \<Rightarrow> serial_line \<Rightarrow> serial_line option) \<Rightarrow> (nat \<Rightarrow> u8) \<Rightarrow> nat \<Rightarrow> nat \<Rightarrow> serial_line \<Rightarrow> (u32 \<times> serial_line) option" where
  "write_chars write s i 0 sl = Some (0, sl)"
| "write_chars write s i (Suc n) sl = Option.bind (write (s i) sl) (write_chars write s (i + 1) n)"

subsection \<open>SPARC\<close>

definition UART1 :: u32 where "UART1 = 0x80000100"
definition UART_DATA_OFFSET :: u32 where "UART_DATA_OFFSET = 0"
definition UART_STAT_OFFSET :: u32 where "UART_STAT_OFFSET = 4"
definition UART_CTRL_OFFSET :: u32 where "UART_CTRL_OFFSET = 8"
definition UART_STATUS_THE :: u32 where "UART_STATUS_THE = 4"
definition UART_CTRL_TE :: u32 where "UART_CTRL_TE = 2"

definition sparc_write_serial :: "(nat \<Rightarrow> u32) \<Rightarrow> u8 \<Rightarrow> serial_line \<Rightarrow> serial_line option" where
  "sparc_write_serial = write_char UART_STATUS_THE (UART1 + UART_DATA_OFFSET)"

definition sparc_cons_write :: "(nat \<Rightarrow> u32) \<Rightarrow> (nat \<Rightarrow> u8) \<Rightarrow> u32 \<Rightarrow> serial_line \<Rightarrow> (u32 \<times> serial_line) option" where
  "sparc_cons_write status s len = write_chars (sparc_write_serial status) s 0 (unat len)"

definition sparc_cons_init :: "serial_line \<Rightarrow> int \<times> serial_line" where
  "sparc_cons_init sl = (0, sl_out (UART1 + UART_STAT_OFFSET) 0 (sl_out (UART1 + UART_CTRL_OFFSET) UART_CTRL_TE sl))"

subsection \<open>PowerPC\<close>

definition POK_PREP_IOBASE :: u32 where "POK_PREP_IOBASE = 0x80000000"
definition COM1 :: u32 where "COM1 = 0x3F8"

definition prep_outb :: "u32 \<Rightarrow> u8 \<Rightarrow> serial_line \<Rightarrow> serial_line" where
  "prep_outb port v = sl_out (POK_PREP_IOBASE + port) (ucast v)"

definition prep_write_serial :: "(nat \<Rightarrow> u32) \<Rightarrow> u8 \<Rightarrow> serial_line \<Rightarrow> serial_line option" where
  "prep_write_serial = write_char 0x20 (POK_PREP_IOBASE + COM1)"

definition prep_cons_write :: "(nat \<Rightarrow> u32) \<Rightarrow> (nat \<Rightarrow> u8) \<Rightarrow> u32 \<Rightarrow> serial_line \<Rightarrow> (u32 \<times> serial_line) option" where
  "prep_cons_write status s len = write_chars (prep_write_serial status) s 0 (unat len)"

definition prep_cons_init :: "serial_line \<Rightarrow> int \<times> serial_line" where
  "prep_cons_init sl =
     (0, prep_outb (COM1 + 4) 0x0B (prep_outb (COM1 + 2) 0xC7 (prep_outb (COM1 + 3) 0x03 (prep_outb (COM1 + 1) 0x00
       (prep_outb (COM1 + 0) 0x03 (prep_outb (COM1 + 3) 0x80 (prep_outb (COM1 + 1) 0x00 sl)))))))"

subsection \<open>Everything is written\<close>

text \<open>The line is free again and again.\<close>

definition often_free :: "u32 \<Rightarrow> (nat \<Rightarrow> u32) \<Rightarrow> bool" where
  "often_free bits status \<longleftrightarrow> (\<forall>n. \<exists>m\<ge>n. (status m AND bits) \<noteq> 0)"

lemma wait_returns:
  assumes "often_free bits status"
  shows "\<exists>m>n. wait_status bits status n = Some m"
proof -
  have "n \<le> k \<Longrightarrow> (status k AND bits) \<noteq> 0 \<Longrightarrow> \<exists>m>n. wait_status bits status n = Some m" for k
  proof (induction "k - n" arbitrary: n)
    case 0
    then show ?case by (subst wait_status.simps) simp
  next
    case (Suc d)
    show ?case
    proof (cases "(status n AND bits) = 0")
      case True
      then have "n + 1 \<le> k" using Suc.prems by (metis Suc_eq_plus1 le_neq_implies_less Suc_leI)
      then obtain m where "m > n + 1" "wait_status bits status (n + 1) = Some m" using Suc by (metis Suc_eq_plus1 diff_Suc_Suc diff_diff_left diff_Suc_1)
      then show ?thesis using True by (subst wait_status.simps) auto
    next
      case False
      then show ?thesis by (subst wait_status.simps) simp
    qed
  qed
  then show ?thesis using assms unfolding often_free_def by blast
qed

lemma wait_never:
  assumes "wait_status bits status n = Some m"
  shows "\<not> (\<forall>k. status k = 0)"
proof (rule wait_status.raw_induct [where P = "\<lambda>bits status n m. \<not> (\<forall>k. status k = 0)", OF _ assms])
  fix f bits status n and m :: nat
  assume IH: "\<And>bits (status :: nat \<Rightarrow> u32) n (m :: nat). f bits status n = Some m \<Longrightarrow> \<not> (\<forall>k. status k = 0)"
    and body: "(if (status n AND bits) = 0 then f bits status (n + 1) else Some (n + 1)) = Some m"
  show "\<not> (\<forall>k. status k = 0)"
  proof
    assume "\<forall>k. status k = 0"
    then show False using body IH [of bits status "n + 1" m] by simp
  qed
qed

lemma write_chars_all:
  assumes "often_free bits status"
  shows "\<exists>sl'. write_chars (write_char bits port status) s i n sl = Some (0, sl') \<and>
    sl_writes sl' = sl_writes sl @ map (\<lambda>k. (port, ucast (s k))) [i..<i + n]"
proof (induction n arbitrary: i sl)
  case (Suc n)
  obtain m where m: "wait_status bits status (sl_reads sl) = Some m" using wait_returns [OF assms] by blast
  define sl1 where "sl1 = sl_out port (ucast (s i)) (sl\<lparr>sl_reads := m\<rparr>)"
  obtain sl' where "write_chars (write_char bits port status) s (i + 1) n sl1 = Some (0, sl')"
    "sl_writes sl' = sl_writes sl1 @ map (\<lambda>k. (port, ucast (s k))) [i + 1..<i + 1 + n]" using Suc.IH by blast
  moreover have "[i..<i + Suc n] = i # [i + 1..<i + 1 + n]" by (simp add: upt_conv_Cons)
  moreover have "write_char bits port status (s i) sl = Some sl1" using m by (simp add: write_char_def sl1_def)
  moreover have "sl_writes sl1 = sl_writes sl @ [(port, ucast (s i))]" by (simp add: sl1_def sl_out_def)
  ultimately show ?case by (intro exI [of _ sl']) (simp del: upt_Suc)
qed simp

text \<open>On the SPARC and on the PowerPC, a write to the console returns, with every character written to the data register of the
  line in order, if the line becomes free again and again; if it never does, a write of anything does not return.\<close>

theorem serial_write_returns:
  "(often_free 4 status \<longrightarrow> (\<exists>sl'. sparc_cons_write status s len sl = Some (0, sl') \<and>
      sl_writes sl' = sl_writes sl @ map (\<lambda>k. (0x80000100, ucast (s k))) [0..<unat len])) \<and>
   (often_free 0x20 status \<longrightarrow> (\<exists>sl'. prep_cons_write status s len sl = Some (0, sl') \<and>
      sl_writes sl' = sl_writes sl @ map (\<lambda>k. (0x800003F8, ucast (s k))) [0..<unat len])) \<and>
   (0 < len \<and> (\<forall>n. status n = 0) \<longrightarrow> sparc_cons_write status s len sl = None \<and> prep_cons_write status s len sl = None)"
proof (intro conjI impI)
  assume "often_free 4 status"
  from write_chars_all [OF this, of "0x80000100" s 0 "unat len" sl]
  show "\<exists>sl'. sparc_cons_write status s len sl = Some (0, sl') \<and> sl_writes sl' = sl_writes sl @ map (\<lambda>k. (0x80000100, ucast (s k))) [0..<unat len]"
    by (simp add: sparc_cons_write_def sparc_write_serial_def UART_STATUS_THE_def UART1_def UART_DATA_OFFSET_def)
next
  assume "often_free 0x20 status"
  from write_chars_all [OF this, of "0x800003F8" s 0 "unat len" sl]
  show "\<exists>sl'. prep_cons_write status s len sl = Some (0, sl') \<and> sl_writes sl' = sl_writes sl @ map (\<lambda>k. (0x800003F8, ucast (s k))) [0..<unat len]"
    by (simp add: prep_cons_write_def prep_write_serial_def POK_PREP_IOBASE_def COM1_def)
next
  assume a: "0 < len \<and> (\<forall>n. status n = 0)"
  then have "wait_status bits status n = Some m \<Longrightarrow> False" for bits n m by (blast dest: wait_never)
  then have "wait_status bits status n = None" for bits n by (metis option.exhaust)
  then have "write_chars (write_char bits port status) s i (Suc n) sl = None" for bits port i n by (simp add: write_char_def)
  moreover obtain n where "unat len = Suc n" using a by (metis gr0_implies_Suc unat_gt_0 word_neq_0_conv)
  ultimately show "sparc_cons_write status s len sl = None" "prep_cons_write status s len sl = None"
    by (simp_all add: sparc_cons_write_def sparc_write_serial_def prep_cons_write_def prep_write_serial_def)
qed

lemma serial_write_returns_witness:
  "\<exists>sl'. sparc_cons_write (\<lambda>n. if n mod 2 = 1 then 4 else 0) (\<lambda>k. 65) 2 \<lparr>sl_reads = 0, sl_writes = []\<rparr> = Some (0, sl') \<and>
     sl_writes sl' = [(0x80000100, 65), (0x80000100, 65)]"
proof -
  have "\<exists>m\<ge>n. m mod 2 = 1" for n :: nat by (rule exI [of _ "2 * n + 1"]) simp
  then have "often_free 4 (\<lambda>n. if n mod 2 = 1 then 4 else 0)" unfolding often_free_def by fastforce
  then show ?thesis
    using serial_write_returns [of "\<lambda>n. if n mod 2 = 1 then 4 else 0" "\<lambda>k. 65" 2 "\<lparr>sl_reads = 0, sl_writes = []\<rparr>", THEN conjunct1]
    by (simp add: upt_rec)
qed

end
