(* ===== verification/Pok_User_Printf.thy ===== *)
theory Pok_User_Printf
  imports Complex_Main Pok_Printf
begin

text \<open>
  Formatted output of the programs (\<open>libpok/libc/stdio/printf.c\<close>): the kernel's code with a conversion for floating-point
  numbers; each block of the list that is written is one system call. The operations on floating-point numbers are the
  processor's, and parameters: the conversions from and to integers, subtraction and multiplication.
\<close>

subsection \<open>Floating-point numbers\<close>

record 'd fpu =
  fpu_to_int :: "'d \<Rightarrow> u32"
  fpu_of_int :: "u32 \<Rightarrow> 'd"
  fpu_sub :: "'d \<Rightarrow> 'd \<Rightarrow> 'd"
  fpu_mul :: "'d \<Rightarrow> 'd \<Rightarrow> 'd"
  fpu_to_ulong :: "'d \<Rightarrow> u32"

definition DOUBLE_PRECISION :: nat where "DOUBLE_PRECISION = 6"

fun print_decimals :: "'d fpu \<Rightarrow> 'd \<Rightarrow> u32 \<Rightarrow> nat \<Rightarrow> u32 \<Rightarrow> int \<Rightarrow> s_file \<Rightarrow> (int \<times> s_file) option" where
  "print_decimals fp v fl 0 decimal res f = Some (res, f)"
| "print_decimals fp v fl (Suc n) decimal res f = do {
     let fractional = fpu_to_ulong fp (fpu_mul fp (fpu_sub fp v (fpu_of_int fp fl)) (fpu_of_int fp decimal)) mod 10;
     (k, f1) \<leftarrow> my_printnbr_base (ucast fractional) 10 f;
     print_decimals fp v fl n (decimal * 10) (res + k) f1
   }"

definition print_float :: "'d fpu \<Rightarrow> 'd \<Rightarrow> s_file \<Rightarrow> (int \<times> s_file) option" where
  "print_float fp v f = do {
     let fl = fpu_to_int fp v;
     (res, f1) \<leftarrow> my_printnbr_base (scast fl) 10 f;
     print_decimals fp v fl DOUBLE_PRECISION 10 res (my_putc 46 f1)
   }"

subsection \<open>Conversions and the loop over the format\<close>

datatype 'd user_arg = Plain u_arg | Dbl 'd

datatype 'd user_va = VA va_arg | VA_double 'd

definition user_known :: "u8 \<Rightarrow> bool" where
  "user_known ch = (known_conversion ch \<or> ch = 102)"

definition user_conversion_arg :: "u8 \<Rightarrow> integer_size_t \<Rightarrow> 'd user_va list \<Rightarrow> ('d user_arg \<times> 'd user_va list) option" where
  "user_conversion_arg ch sz args =
     (case args of
        VA a # rest \<Rightarrow> if ch = 102 then None else map_option (\<lambda>(arg, _). (Plain arg, rest)) (conversion_arg ch sz [a])
      | VA_double d # rest \<Rightarrow> if ch = 102 then Some (Dbl d, rest) else None
      | [] \<Rightarrow> None)"

definition user_special_char :: "'d fpu \<Rightarrow> u8 \<Rightarrow> 'd user_arg \<Rightarrow> s_file \<Rightarrow> (int \<times> s_file) option" where
  "user_special_char fp fmt arg f =
     (case arg of Dbl v \<Rightarrow> if fmt = 102 then print_float fp v f else None | Plain a \<Rightarrow> if fmt = 102 then None else special_char fmt a f)"

partial_function (option) user_vprintf_loop ::
  "'d fpu \<Rightarrow> bool \<Rightarrow> (nat \<Rightarrow> u8) \<Rightarrow> nat \<Rightarrow> 'd user_va list \<Rightarrow> int \<Rightarrow> s_file \<Rightarrow> (int \<times> s_file) option" where
  "user_vprintf_loop fp asserts fmt i args count f =
     (if fmt i = 0 then Some (count, f)
      else if fmt i = 37
      then if fmt (i + 1) = 0 then Some (count, f)
           else if fmt (i + 1) \<noteq> 37
           then let (sz, j) = check_size_modifier fmt (i + 1)
                in if user_known (fmt j)
                   then do {
                     (arg, args') \<leftarrow> user_conversion_arg (fmt j) sz args;
                     (n, f') \<leftarrow> user_special_char fp (fmt j) arg f;
                     user_vprintf_loop fp asserts fmt (j + 1) args' (count + n) f'
                   }
                   else if asserts then None
                   else user_vprintf_loop fp asserts fmt (j + 1) args (count + 1) (my_putc (fmt j) f)
           else user_vprintf_loop fp asserts fmt (i + 2) args (count + 1) (my_putc (fmt (i + 1)) f)
      else user_vprintf_loop fp asserts fmt (i + 1) args (count + 1) (my_putc (fmt i) f))"

definition user_vprintf :: "'d fpu \<Rightarrow> bool \<Rightarrow> (nat \<Rightarrow> u8) \<Rightarrow> 'd user_va list \<Rightarrow> (int \<times> u8 list list) option" where
  "user_vprintf fp asserts fmt args = do {
     (count, f) \<leftarrow> user_vprintf_loop fp asserts fmt 0 args 0 \<lparr>f_buff = (\<lambda>_. 0), f_pos = 0, f_written = []\<rparr>;
     Some (count, f_written (close_buffered_output f))
   }"

subsection \<open>The same text as in the kernel\<close>

lemma user_conversion_plain:
  "known_conversion ch \<Longrightarrow> user_conversion_arg ch sz (map VA args) = map_option (\<lambda>(a, r). (Plain a, map VA r)) (conversion_arg ch sz args)"
  by (cases args)
    (auto simp: user_conversion_arg_def conversion_arg_def known_conversion_def signed_arg_def unsigned_arg_def va_int_def va_llong_def va_ptr_def
      split: integer_size_t.splits va_arg.splits)

lemma loop_as_kernel:
  assumes "vprintf_loop asserts fmt i args count f = Some r"
  shows "(\<forall>k. fmt k \<noteq> 102) \<longrightarrow> user_vprintf_loop fp asserts fmt i (map VA args) count f = Some r"
proof (rule vprintf_loop.raw_induct [where P = "\<lambda>asserts fmt i args count f r. (\<forall>k. fmt k \<noteq> 102) \<longrightarrow>
    user_vprintf_loop fp asserts fmt i (map VA args) count f = Some r", OF _ assms], intro impI)
  fix g asserts and fmt :: "nat \<Rightarrow> u8" and i args count f and r :: "int \<times> s_file"
  assume IH: "\<And>asserts fmt i args count f r. g asserts fmt i args count f = Some r \<Longrightarrow> (\<forall>k. fmt k \<noteq> 102) \<longrightarrow>
      user_vprintf_loop fp asserts fmt i (map VA args) count f = Some r"
    and body: "(if fmt i = 0 then Some (count, f)
      else if fmt i = 37
      then if fmt (i + 1) = 0 then Some (count, f)
           else if fmt (i + 1) \<noteq> 37
           then let (sz, j) = check_size_modifier fmt (i + 1)
                in if known_conversion (fmt j)
                   then do {
                     (arg, args') \<leftarrow> conversion_arg (fmt j) sz args;
                     (n, f') \<leftarrow> special_char (fmt j) arg f;
                     g asserts fmt (j + 1) args' (count + n) f'
                   }
                   else if asserts then None
                   else g asserts fmt (j + 1) args (count + 1) (my_putc (fmt j) f)
           else g asserts fmt (i + 2) args (count + 1) (my_putc (fmt (i + 1)) f)
      else g asserts fmt (i + 1) args (count + 1) (my_putc (fmt i) f)) = Some r"
    and no: "\<forall>k. fmt k \<noteq> 102"
  show "user_vprintf_loop fp asserts fmt i (map VA args) count f = Some r"
    using body no
    by (subst user_vprintf_loop.simps)
      (auto simp: Let_def user_known_def user_conversion_plain user_special_char_def IH [THEN mp] split: if_splits prod.splits Option.bind_splits)
qed

lemma kernel_as_loop:
  assumes "user_vprintf_loop fp asserts fmt i uargs count f = Some r"
  shows "\<forall>args. uargs = map VA args \<and> (\<forall>k. fmt k \<noteq> 102) \<longrightarrow> vprintf_loop asserts fmt i args count f = Some r"
proof (rule user_vprintf_loop.raw_induct [where P = "\<lambda>fp asserts fmt i uargs count f r. \<forall>args. uargs = map VA args \<and> (\<forall>k. fmt k \<noteq> 102) \<longrightarrow>
    vprintf_loop asserts fmt i args count f = Some r", OF _ assms], intro allI impI)
  fix g :: "'a fpu \<Rightarrow> bool \<Rightarrow> (nat \<Rightarrow> u8) \<Rightarrow> nat \<Rightarrow> 'a user_va list \<Rightarrow> int \<Rightarrow> s_file \<Rightarrow> (int \<times> s_file) option"
    and fp asserts and fmt :: "nat \<Rightarrow> u8" and i uargs args count f and r :: "int \<times> s_file"
  assume IH: "\<And>fp asserts fmt i uargs count f r. g fp asserts fmt i uargs count f = Some r \<Longrightarrow>
      \<forall>args. uargs = map VA args \<and> (\<forall>k. fmt k \<noteq> 102) \<longrightarrow> vprintf_loop asserts fmt i args count f = Some r"
    and body: "(if fmt i = 0 then Some (count, f)
      else if fmt i = 37
      then if fmt (i + 1) = 0 then Some (count, f)
           else if fmt (i + 1) \<noteq> 37
           then let (sz, j) = check_size_modifier fmt (i + 1)
                in if user_known (fmt j)
                   then do {
                     (arg, args') \<leftarrow> user_conversion_arg (fmt j) sz uargs;
                     (n, f') \<leftarrow> user_special_char fp (fmt j) arg f;
                     g fp asserts fmt (j + 1) args' (count + n) f'
                   }
                   else if asserts then None
                   else g fp asserts fmt (j + 1) uargs (count + 1) (my_putc (fmt j) f)
           else g fp asserts fmt (i + 2) uargs (count + 1) (my_putc (fmt (i + 1)) f)
      else g fp asserts fmt (i + 1) uargs (count + 1) (my_putc (fmt i) f)) = Some r"
    and plain: "uargs = map VA args \<and> (\<forall>k. fmt k \<noteq> 102)"
  show "vprintf_loop asserts fmt i args count f = Some r"
    using body plain
    by (subst vprintf_loop.simps)
      (auto simp: Let_def user_known_def user_conversion_plain user_special_char_def IH [rule_format] split: if_splits prod.splits Option.bind_splits)
qed

lemma loops_agree:
  "\<forall>k. fmt k \<noteq> 102 \<Longrightarrow> user_vprintf_loop fp asserts fmt i (map VA args) count f = vprintf_loop asserts fmt i args count f"
  using loop_as_kernel [of asserts fmt i args count f _ fp] kernel_as_loop [of fp asserts fmt i "map VA args" count f]
  by (metis option.exhaust)

text \<open>The text of a floating-point number: its integer part, extended to 64 bits, a point, and six digits. The count goes up for
  each zero only, and for the integer part by one less than its digits.\<close>

lemma one_digit: "d < 10 \<Longrightarrow> number_text 10 d = [digit_chars d]"
  by (auto simp: number_text_def digits_of.simps digit_chars_def)

definition scaled :: "'d fpu \<Rightarrow> 'd \<Rightarrow> u32 \<Rightarrow> 'd" where
  "scaled fp v decimal = fpu_mul fp (fpu_sub fp v (fpu_of_int fp (fpu_to_int fp v))) (fpu_of_int fp decimal)"

definition decimal_of :: "'d fpu \<Rightarrow> 'd \<Rightarrow> u32 \<Rightarrow> nat" where
  "decimal_of fp v decimal = unat (fpu_to_ulong fp (scaled fp v decimal) mod 10)"

lemma decimals_text:
  "file_ok f \<Longrightarrow> \<exists>f'. print_decimals fp v (fpu_to_int fp v) n decimal res f =
      Some (res + (\<Sum>k<n. of_bool (decimal_of fp v (decimal * 10 ^ k) = 0)), f') \<and> file_ok f' \<and>
    file_text f' = file_text f @ map (\<lambda>k. digit_chars (decimal_of fp v (decimal * 10 ^ k))) [0..<n]"
proof (induction n arbitrary: decimal res f)
  case (Suc n)
  define d where "d = decimal_of fp v decimal"
  have u: "unat (ucast (fpu_to_ulong fp (scaled fp v decimal) mod 10) :: u64) = d"
    by (simp add: d_def decimal_of_def unsigned_ucast_eq take_bit_nat_eq_self order_less_trans [OF unsigned_less])
  have "d < 10" using unat_mod [of "fpu_to_ulong fp (scaled fp v decimal)" 10] by (simp add: d_def decimal_of_def)
  have "(ucast (fpu_to_ulong fp (scaled fp v decimal) mod 10) :: u64) = 0 \<longleftrightarrow> d = 0"
    unfolding u [symmetric] by (rule unat_eq_0 [symmetric])
  then obtain g where g: "my_printnbr_base (ucast (fpu_to_ulong fp (scaled fp v decimal) mod 10)) 10 f = Some (of_bool (d = 0), g)"
    "file_ok g" "file_text g = file_text f @ [digit_chars d]"
    using printnbr_text [OF Suc.prems, of 10 "ucast (fpu_to_ulong fp (scaled fp v decimal) mod 10)"] one_digit [OF \<open>d < 10\<close>]
    by (auto simp: u)
  have shift: "decimal * 10 * 10 ^ k = decimal * 10 ^ Suc k" for k by simp
  have sum: "of_bool (d = 0) + (\<Sum>k<n. of_bool (decimal_of fp v (decimal * 10 ^ Suc k) = 0)) =
      ((\<Sum>k<Suc n. of_bool (decimal_of fp v (decimal * 10 ^ k) = 0)) :: int)"
    by (subst sum.lessThan_Suc_shift) (simp add: d_def)
  have list: "map (\<lambda>k. digit_chars (decimal_of fp v (decimal * 10 ^ k))) [0..<Suc n] =
      digit_chars d # map (\<lambda>k. digit_chars (decimal_of fp v (decimal * 10 ^ Suc k))) [0..<n]"
    by (simp add: upt_conv_Cons d_def map_Suc_upt [symmetric] comp_def del: upt_Suc)
  from Suc.IH [OF g(2), of "decimal * 10" "res + of_bool (d = 0)"] show ?case
    unfolding shift list sum [symmetric] using g by (auto simp: add.assoc scaled_def [symmetric])
qed simp

definition float_text :: "'d fpu \<Rightarrow> 'd \<Rightarrow> u8 list" where
  "float_text fp v = number_text 10 (unat (scast (fpu_to_int fp v) :: u64)) @ [46] @ map (\<lambda>k. digit_chars (decimal_of fp v (10 * 10 ^ k))) [0..<6]"

definition float_count :: "'d fpu \<Rightarrow> 'd \<Rightarrow> int" where
  "float_count fp v = int (length (number_text 10 (unat (scast (fpu_to_int fp v) :: u64)))) - of_bool ((scast (fpu_to_int fp v) :: u64) \<noteq> 0) +
     (\<Sum>k<6. of_bool (decimal_of fp v (10 * 10 ^ k) = 0))"

lemma print_float_text:
  assumes "file_ok f"
  shows "\<exists>f'. print_float fp v f = Some (float_count fp v, f') \<and> file_ok f' \<and> file_text f' = file_text f @ float_text fp v"
proof -
  obtain g where g: "my_printnbr_base (scast (fpu_to_int fp v)) 10 f =
      Some (int (length (number_text 10 (unat (scast (fpu_to_int fp v) :: u64)))) - of_bool ((scast (fpu_to_int fp v) :: u64) \<noteq> 0), g)"
    "file_ok g" "file_text g = file_text f @ number_text 10 (unat (scast (fpu_to_int fp v) :: u64))"
    using printnbr_text [OF assms, of 10 "scast (fpu_to_int fp v)"] by auto
  have h: "file_ok (my_putc 46 g)" "file_text (my_putc 46 g) = file_text g @ [46]" using g(2) by simp_all
  define zeros where "zeros = (\<Sum>k<6. of_bool (decimal_of fp v (10 * 10 ^ k) = 0) :: int)"
  obtain g' where "print_decimals fp v (fpu_to_int fp v) 6 10 r (my_putc 46 g) = Some (r + zeros, g')" "file_ok g'"
    "file_text g' = file_text (my_putc 46 g) @ map (\<lambda>k. digit_chars (decimal_of fp v (10 * 10 ^ k))) [0..<6]"
    if "r = int (length (number_text 10 (unat (scast (fpu_to_int fp v) :: u64)))) - of_bool ((scast (fpu_to_int fp v) :: u64) \<noteq> 0)" for r
    using decimals_text [OF h(1), of fp v 6 10] unfolding zeros_def [symmetric] by blast
  note dec = this [OF refl]
  show ?thesis
    using g(1,3) dec h(2) by (auto simp: print_float_def DOUBLE_PRECISION_def float_count_def float_text_def zeros_def)
qed

definition float_format :: "nat \<Rightarrow> u8" where
  "float_format i = (if i = 0 then 37 else if i = 1 then 102 else 0)"

subsection \<open>The digits of the number\<close>

text \<open>Operations that are exact on a number, of which \<open>val\<close> is the value: the conversions cut off what is behind the point, the
  difference from the integer part is exact (so it is in binary arithmetic), and so are the products with the powers of
  ten up to a million, as for a number with up to 33 binary digits behind the point.\<close>

definition fpu_exact :: "'d fpu \<Rightarrow> ('d \<Rightarrow> real) \<Rightarrow> 'd \<Rightarrow> bool" where
  "fpu_exact fp val v \<longleftrightarrow>
     sint (fpu_to_int fp v) = (if 0 \<le> val v then \<lfloor>val v\<rfloor> else \<lceil>val v\<rceil>) \<and>
     (\<forall>k<6. val (scaled fp v (10 * 10 ^ k)) = (val v - of_int (sint (fpu_to_int fp v))) * 10 ^ (k + 1)) \<and>
     (\<forall>x. 0 \<le> val x \<and> val x < 4294967296 \<longrightarrow> fpu_to_ulong fp x = of_int \<lfloor>val x\<rfloor>)"

lemma exact_decimal:
  assumes ex: "fpu_exact fp val v" and x: "0 \<le> val v" and k: "k < 6"
  shows "decimal_of fp v (10 * 10 ^ k) = nat (\<lfloor>val v * 10 ^ (k + 1)\<rfloor> mod 10)"
proof -
  let ?p = "10 ^ (k + 1) :: int" and ?y = "val (scaled fp v (10 * 10 ^ k))"
  have y: "?y = (val v - of_int \<lfloor>val v\<rfloor>) * 10 ^ (k + 1)" 
  proof -
    have s: "sint (fpu_to_int fp v) = \<lfloor>val v\<rfloor>" using ex x by (simp add: fpu_exact_def)
    have "?y = (val v - of_int (sint (fpu_to_int fp v))) * 10 ^ (k + 1)" using ex k unfolding fpu_exact_def by blast
    then show ?thesis unfolding s .
  qed
  have small: "(10 :: real) ^ (k + 1) \<le> 10 ^ 6" using k by (intro power_increasing) simp_all
  have f: "0 \<le> val v - of_int \<lfloor>val v\<rfloor>" "val v - of_int \<lfloor>val v\<rfloor> < 1" by linarith+
  have y0: "0 \<le> ?y" unfolding y using f by simp
  have "?y < 1 * 10 ^ (k + 1)" unfolding y using f(2) by (intro mult_strict_right_mono) simp_all
  then have y1: "?y < 1000000" using small by simp
  then have ul: "fpu_to_ulong fp (scaled fp v (10 * 10 ^ k)) = of_int \<lfloor>?y\<rfloor>" using ex y0 by (simp add: fpu_exact_def)
  have "val v * 10 ^ (k + 1) = ?y + of_int (\<lfloor>val v\<rfloor> * ?p)" unfolding y by (simp add: algebra_simps)
  then have "\<lfloor>val v * 10 ^ (k + 1)\<rfloor> = \<lfloor>?y\<rfloor> + \<lfloor>val v\<rfloor> * ?p" by (simp only: floor_add_int)
  then have m: "\<lfloor>val v * 10 ^ (k + 1)\<rfloor> mod 10 = \<lfloor>?y\<rfloor> mod 10" by (simp add: mod_add_eq [symmetric] mult.assoc)
  define n where "n = nat \<lfloor>?y\<rfloor>"
  have n: "\<lfloor>?y\<rfloor> = int n" "n < 1000000" using y0 y1 by (auto simp: n_def floor_less_iff nat_less_iff)
  have "decimal_of fp v (10 * 10 ^ k) = unat ((of_nat n :: u32) mod 10)" unfolding decimal_of_def ul n(1) by simp
  also have "\<dots> = n mod 10" using n(2) by (simp add: unat_mod unat_of_nat take_bit_nat_eq_self)
  finally show ?thesis unfolding m n(1) by (simp add: nat_mod_distrib)
qed

lemma exact_integer_part:
  assumes ex: "fpu_exact fp val v"
  shows "0 \<le> val v \<Longrightarrow> unat (scast (fpu_to_int fp v) :: u64) = nat \<lfloor>val v\<rfloor>"
    and "val v \<le> -1 \<Longrightarrow> unat (scast (fpu_to_int fp v) :: u64) = 18446744073709551616 - nat \<lfloor>- val v\<rfloor>"
proof -
  let ?z = "sint (fpu_to_int fp v)"
  have u: "unat (scast (fpu_to_int fp v) :: u64) = nat (?z mod 18446744073709551616)"
  proof -
    have e: "(scast (fpu_to_int fp v) :: u64) = word_of_int ?z" by (rule of_int_sint [symmetric])
    show ?thesis unfolding e unat_eq_nat_uint uint_word_of_int by simp
  qed
  have r: "-2147483648 \<le> ?z" "?z < 2147483648" using sint_greater_eq [of "fpu_to_int fp v"] sint_less [of "fpu_to_int fp v"] by simp_all
  show "unat (scast (fpu_to_int fp v) :: u64) = nat \<lfloor>val v\<rfloor>" if "0 \<le> val v"
  proof -
    have "?z = \<lfloor>val v\<rfloor>" "0 \<le> \<lfloor>val v\<rfloor>" using ex that by (simp_all add: fpu_exact_def)
    then show ?thesis using u r by simp
  qed
  show "unat (scast (fpu_to_int fp v) :: u64) = 18446744073709551616 - nat \<lfloor>- val v\<rfloor>" if "val v \<le> -1"
  proof -
    have z: "?z = - \<lfloor>- val v\<rfloor>" "1 \<le> \<lfloor>- val v\<rfloor>" using ex that by (simp_all add: fpu_exact_def ceiling_def le_floor_iff)
    then have "(18446744073709551616 + ?z) mod 18446744073709551616 = 18446744073709551616 + ?z"
      using r by (intro mod_pos_pos_trivial) linarith+
    then have "?z mod 18446744073709551616 = 18446744073709551616 + ?z" by simp
    then show ?thesis using u z by (simp add: nat_diff_distrib)
  qed
qed


text \<open>Exact operations: two and a half, minus one and a half, and a format without \<open>f\<close>.\<close>

definition demo_fpu :: "real fpu" where
  "demo_fpu = \<lparr>fpu_to_int = (\<lambda>v. of_int (if 0 \<le> v then \<lfloor>v\<rfloor> else \<lceil>v\<rceil>)), fpu_of_int = (\<lambda>w. of_int (sint w)),
     fpu_sub = (\<lambda>x y. x - y), fpu_mul = (\<lambda>x y. x * y), fpu_to_ulong = (\<lambda>v. of_int \<lfloor>v\<rfloor>)\<rparr>"

lemma ten_powers: "k < 6 \<Longrightarrow> sint (10 * 10 ^ k :: u32) = 10 ^ (k + 1)"
proof -
  assume "k < 6"
  then have "k \<in> {0, 1, 2, 3, 4, 5}" by auto
  then show ?thesis by auto
qed

lemma demo_fpu_exact:
  assumes "\<bar>v\<bar> < 1000"
  shows "fpu_exact demo_fpu (\<lambda>v. v) v"
proof -
  let ?z = "if 0 \<le> v then \<lfloor>v\<rfloor> else \<lceil>v\<rceil>"
  have "-1000 \<le> ?z" "?z \<le> 1000" using assms by (auto simp: le_floor_iff floor_le_iff le_ceiling_iff ceiling_le_iff)
  then have i: "sint (fpu_to_int demo_fpu v) = ?z" by (simp only: demo_fpu_def fpu.simps) (simp only: sint_sbintrunc', rule signed_take_bit_int_eq_self, simp_all)
  have "scaled demo_fpu v (10 * 10 ^ k) = (v - of_int (sint (fpu_to_int demo_fpu v))) * 10 ^ (k + 1)" if "k < 6" for k
    unfolding ten_powers [OF that, symmetric] by (simp only: scaled_def demo_fpu_def fpu.simps ten_powers [OF that]) simp
  then have "\<forall>k<6. scaled demo_fpu v (10 * 10 ^ k) = (v - of_int (sint (fpu_to_int demo_fpu v))) * 10 ^ (k + 1)" by blast
  moreover have "\<forall>x. 0 \<le> x \<and> x < 4294967296 \<longrightarrow> fpu_to_ulong demo_fpu x = of_int \<lfloor>x\<rfloor>" by (simp add: demo_fpu_def)
  ultimately show ?thesis using i unfolding fpu_exact_def by blast
qed


end
