(* ===== verification/Pok_Cbc.thy ===== *)
theory Pok_Cbc
  imports Pok_Words
begin

text \<open>
  Chaining of blocks as the ciphers of the user library have it (\<open>DES_ncbc_encrypt\<close>, \<open>DES_ede3_cbc_encrypt\<close>,
  \<open>BF_cbc_encrypt\<close>: the same code over different blocks), and the words in the order of bytes of either. The locale
  \<open>cbc_mode\<close> is what chaining needs of a cipher and of the reading and writing of its blocks. Memory seen through a
  pointer is a function from the offset to the byte; the buffers for input and output do not overlap.
\<close>

unbundle bit_operations_syntax

type_synonym bytes = "nat \<Rightarrow> u8"

subsection \<open>Words in memory\<close>

text \<open>The most significant byte first.\<close>

definition n2l :: "bytes \<Rightarrow> nat \<Rightarrow> u32" where
  "n2l c i = push_bit 24 (ucast (c i)) OR push_bit 16 (ucast (c (i + 1))) OR push_bit 8 (ucast (c (i + 2))) OR ucast (c (i + 3))"

definition l2n :: "u32 \<Rightarrow> nat \<Rightarrow> bytes \<Rightarrow> bytes" where
  "l2n l i c = c(i := ucast (drop_bit 24 l), i + 1 := ucast (drop_bit 16 l), i + 2 := ucast (drop_bit 8 l), i + 3 := ucast l)"

text \<open>The least significant byte first.\<close>

definition c2l :: "bytes \<Rightarrow> nat \<Rightarrow> u32" where
  "c2l c i = ucast (c i) OR push_bit 8 (ucast (c (i + 1))) OR push_bit 16 (ucast (c (i + 2))) OR push_bit 24 (ucast (c (i + 3)))"

definition l2c :: "u32 \<Rightarrow> nat \<Rightarrow> bytes \<Rightarrow> bytes" where
  "l2c l i c = c(i := ucast l, i + 1 := ucast (drop_bit 8 l), i + 2 := ucast (drop_bit 16 l), i + 3 := ucast (drop_bit 24 l))"

text \<open>Up to eight bytes as two words, and back: the cases of a switch that fall through.\<close>

definition upto_byte :: "int \<Rightarrow> nat \<Rightarrow> bytes \<Rightarrow> nat \<Rightarrow> u32" where
  "upto_byte n k c i = (if int k \<le> n \<and> n \<le> 8 then ucast (c (i + (k - 1))) else 0)"

definition n2ln :: "bytes \<Rightarrow> nat \<Rightarrow> int \<Rightarrow> u32 \<times> u32" where
  "n2ln c i n =
     (let b = (\<lambda>k. upto_byte n k c i)
      in (b 4 OR push_bit 8 (b 3) OR push_bit 16 (b 2) OR push_bit 24 (b 1),
          b 8 OR push_bit 8 (b 7) OR push_bit 16 (b 6) OR push_bit 24 (b 5)))"

definition c2ln :: "bytes \<Rightarrow> nat \<Rightarrow> int \<Rightarrow> u32 \<times> u32" where
  "c2ln c i n =
     (let b = (\<lambda>k. upto_byte n k c i)
      in (push_bit 24 (b 4) OR push_bit 16 (b 3) OR push_bit 8 (b 2) OR b 1,
          push_bit 24 (b 8) OR push_bit 16 (b 7) OR push_bit 8 (b 6) OR b 5))"

definition put_upto :: "int \<Rightarrow> nat \<Rightarrow> u8 \<Rightarrow> nat \<Rightarrow> bytes \<Rightarrow> bytes" where
  "put_upto n k v i c = (if int k \<le> n \<and> n \<le> 8 then c(i + (k - 1) := v) else c)"

definition l2nn :: "u32 \<Rightarrow> u32 \<Rightarrow> nat \<Rightarrow> int \<Rightarrow> bytes \<Rightarrow> bytes" where
  "l2nn l1 l2 i n c =
     (let p = (\<lambda>k v. put_upto n k v i)
      in p 1 (ucast (drop_bit 24 l1)) (p 2 (ucast (drop_bit 16 l1)) (p 3 (ucast (drop_bit 8 l1)) (p 4 (ucast l1)
        (p 5 (ucast (drop_bit 24 l2)) (p 6 (ucast (drop_bit 16 l2)) (p 7 (ucast (drop_bit 8 l2)) (p 8 (ucast l2) c))))))))"

definition l2cn :: "u32 \<Rightarrow> u32 \<Rightarrow> nat \<Rightarrow> int \<Rightarrow> bytes \<Rightarrow> bytes" where
  "l2cn l1 l2 i n c =
     (let p = (\<lambda>k v. put_upto n k v i)
      in p 1 (ucast l1) (p 2 (ucast (drop_bit 8 l1)) (p 3 (ucast (drop_bit 16 l1)) (p 4 (ucast (drop_bit 24 l1))
        (p 5 (ucast l2) (p 6 (ucast (drop_bit 8 l2)) (p 7 (ucast (drop_bit 16 l2)) (p 8 (ucast (drop_bit 24 l2)) c))))))))"

subsection \<open>Chaining\<close>

text \<open>How a block is read and written: whole words, and the last bytes of a message.\<close>

record block_io =
  ld :: "bytes \<Rightarrow> nat \<Rightarrow> u32"
  st :: "u32 \<Rightarrow> nat \<Rightarrow> bytes \<Rightarrow> bytes"
  ldn :: "bytes \<Rightarrow> nat \<Rightarrow> int \<Rightarrow> u32 \<times> u32"
  stn :: "u32 \<Rightarrow> u32 \<Rightarrow> nat \<Rightarrow> int \<Rightarrow> bytes \<Rightarrow> bytes"

definition net_io :: block_io where "net_io = \<lparr>ld = n2l, st = l2n, ldn = n2ln, stn = l2nn\<rparr>"
definition chr_io :: block_io where "chr_io = \<lparr>ld = c2l, st = l2c, ldn = c2ln, stn = l2cn\<rparr>"

definition ld_block :: "block_io \<Rightarrow> bytes \<Rightarrow> nat \<Rightarrow> u32 \<times> u32" where
  "ld_block io c i = (ld io c i, ld io c (i + 4))"

definition st_block :: "block_io \<Rightarrow> u32 \<times> u32 \<Rightarrow> nat \<Rightarrow> bytes \<Rightarrow> bytes" where
  "st_block io x i c = st io (snd x) (i + 4) (st io (fst x) i c)"

definition xor_block :: "u32 \<times> u32 \<Rightarrow> u32 \<times> u32 \<Rightarrow> u32 \<times> u32" where
  "xor_block x y = (fst x XOR fst y, snd x XOR snd y)"

text \<open>The loops over whole blocks: the output, the length that is left less eight, the offset, and the last block.\<close>

function enc_loop :: "block_io \<Rightarrow> (u32 \<times> u32 \<Rightarrow> u32 \<times> u32) \<Rightarrow> bytes \<Rightarrow> bytes \<Rightarrow> int \<Rightarrow> nat \<Rightarrow> u32 \<times> u32 \<Rightarrow> bytes \<times> int \<times> nat \<times> (u32 \<times> u32)" where
  "enc_loop io E inp out l i tout =
     (if l \<ge> 0 then let tout' = E (xor_block (ld_block io inp i) tout) in enc_loop io E inp (st_block io tout' i out) (l - 8) (i + 8) tout'
      else (out, l, i, tout))"
  by pat_completeness auto
termination by (relation "measure (\<lambda>(io, E, inp, out, l, i, tout). nat (l + 8))") auto

function dec_loop :: "block_io \<Rightarrow> (u32 \<times> u32 \<Rightarrow> u32 \<times> u32) \<Rightarrow> bytes \<Rightarrow> bytes \<Rightarrow> int \<Rightarrow> nat \<Rightarrow> u32 \<times> u32 \<Rightarrow> bytes \<times> int \<times> nat \<times> (u32 \<times> u32)" where
  "dec_loop io D inp out l i xor0 =
     (if l \<ge> 0 then let tin = ld_block io inp i in dec_loop io D inp (st_block io (xor_block (D tin) xor0) i out) (l - 8) (i + 8) tin
      else (out, l, i, xor0))"
  by pat_completeness auto
termination by (relation "measure (\<lambda>(io, D, inp, out, l, i, xor0). nat (l + 8))") auto

declare enc_loop.simps [simp del] dec_loop.simps [simp del]

text \<open>The output and the vector for the next message.\<close>

definition cbc_encrypt :: "block_io \<Rightarrow> (u32 \<times> u32 \<Rightarrow> u32 \<times> u32) \<Rightarrow> bytes \<Rightarrow> bytes \<Rightarrow> int \<Rightarrow> bytes \<Rightarrow> bytes \<times> bytes" where
  "cbc_encrypt io E inp out len iv =
     (case enc_loop io E inp out (len - 8) 0 (ld_block io iv 0) of (out', l, i, tout) \<Rightarrow>
      if l \<noteq> - 8 then let tout' = E (xor_block (ldn io inp i (l + 8)) tout) in (st_block io tout' i out', st_block io tout' 0 iv)
      else (out', st_block io tout 0 iv))"

definition cbc_decrypt :: "block_io \<Rightarrow> (u32 \<times> u32 \<Rightarrow> u32 \<times> u32) \<Rightarrow> bytes \<Rightarrow> bytes \<Rightarrow> int \<Rightarrow> bytes \<Rightarrow> bytes \<times> bytes" where
  "cbc_decrypt io D inp out len iv =
     (case dec_loop io D inp out (len - 8) 0 (ld_block io iv 0) of (out', l, i, xor0) \<Rightarrow>
      if l \<noteq> - 8 then let tin = ld_block io inp i; t = xor_block (D tin) xor0
        in (stn io (fst t) (snd t) i (l + 8) out', st_block io tin 0 iv)
      else (out', st_block io xor0 0 iv))"

subsection \<open>What chaining needs\<close>

definition padded :: "bytes \<Rightarrow> nat \<Rightarrow> int \<Rightarrow> bytes" where
  "padded c i n = (\<lambda>k. if int k < n then c (i + k) else 0)"

locale block_layout =
  fixes io :: block_io
  assumes ld_st: "ld io (st io w i c) i = w"
    and ld_same: "(\<And>k. k < 4 \<Longrightarrow> a (i + k) = c (j + k)) \<Longrightarrow> ld io a i = ld io c j"
    and st_ld: "k < 4 \<Longrightarrow> st io (ld io a j) i c (i + k) = a (j + k)"
    and st_frame: "k < i \<or> i + 4 \<le> k \<Longrightarrow> st io w i c k = c k"
    and ldn_pads: "0 < n \<Longrightarrow> n < 8 \<Longrightarrow> ldn io a i n = ld_block io (padded a i n) 0"
    and stn_cuts: "0 < n \<Longrightarrow> n < 8 \<Longrightarrow> stn io u v i n c k = (if i \<le> k \<and> int k < int i + n then st_block io (u, v) i c k else c k)"
begin

lemma block_frame: "k < i \<or> i + 8 \<le> k \<Longrightarrow> st_block io x i c k = c k"
  by (auto simp: st_block_def st_frame)

lemma block_back: "i \<le> k \<Longrightarrow> k < i + 8 \<Longrightarrow> st_block io (ld_block io a j) i c k = a (j + (k - i))"
proof -
  assume k: "i \<le> k" "k < i + 8"
  show ?thesis
  proof (cases "k < i + 4")
    case True
    then obtain d where "k = i + d" "d < 4" using k(1) by (metis le_iff_add nat_add_left_cancel_less)
    then show ?thesis by (simp add: st_block_def ld_block_def st_frame st_ld)
  next
    case False
    then obtain d where "k = i + 4 + d" "d < 4" using k(2) by (metis le_iff_add nat_add_left_cancel_less not_less add.assoc numeral_Bit0)
    then show ?thesis using st_ld [of d a "j + 4" "i + 4"] by (simp add: st_block_def ld_block_def add.assoc)
  qed
qed

lemma block_same: "(\<And>k. k < 8 \<Longrightarrow> a (i + k) = c (j + k)) \<Longrightarrow> ld_block io a i = ld_block io c j"
  unfolding ld_block_def
  by (intro arg_cong2 [of _ _ _ _ Pair] ld_same) (auto simp: add.assoc)

lemma block_read: "ld_block io (st_block io x i c) i = x"
proof -
  have "ld io (st io (snd x) (i + 4) (st io (fst x) i c)) i = ld io (st io (fst x) i c) i"
    by (rule ld_same) (simp add: st_frame)
  then show ?thesis by (simp add: ld_block_def st_block_def ld_st)
qed

end

lemma xor_back [simp]: "xor_block (xor_block x y) y = x"
  by (simp add: xor_block_def xor.assoc)

locale cbc_mode = block_layout +
  fixes E D :: "u32 \<times> u32 \<Rightarrow> u32 \<times> u32"
  assumes inverse: "D (E x) = x"
begin

lemma enc_keeps:
  "enc_loop io E inp out l i t = (c, l', i', t') \<Longrightarrow> - 8 \<le> l \<Longrightarrow>
   (\<forall>k<i. c k = out k) \<and> - 8 \<le> l' \<and> l' < 0 \<and> i \<le> i' \<and> int i' + l' = int i + l"
proof (induction "nat (l + 8)" arbitrary: out l i t rule: less_induct)
  case less
  show ?case
  proof (cases "0 \<le> l")
    case True
    define t1 where "t1 = E (xor_block (ld_block io inp i) t)"
    have "enc_loop io E inp (st_block io t1 i out) (l - 8) (i + 8) t1 = (c, l', i', t')"
      using less.prems(1) True by (simp add: enc_loop.simps [of io E inp out l] t1_def Let_def)
    then have "(\<forall>k<i + 8. c k = st_block io t1 i out k) \<and> - 8 \<le> l' \<and> l' < 0 \<and> i + 8 \<le> i' \<and> int i' + l' = int (i + 8) + (l - 8)"
      using True by (intro less.hyps) simp_all
    then show ?thesis by (auto simp: block_frame)
  next
    case False
    then show ?thesis using less.prems by (simp add: enc_loop.simps [of io E inp out l])
  qed
qed

text \<open>Decryption, of any memory that has the blocks of the encryption, goes the same way and puts the input back.\<close>

lemma dec_follows_enc:
  "enc_loop io E inp out l i t = (c, l', i', t') \<Longrightarrow> - 8 \<le> l \<Longrightarrow> (\<And>k. k < i' \<Longrightarrow> a k = c k) \<Longrightarrow>
   dec_loop io D a dst l i t = ((\<lambda>k. if i \<le> k \<and> k < i' then inp k else dst k), l', i', t')"
proof (induction "nat (l + 8)" arbitrary: out dst l i t rule: less_induct)
  case less
  show ?case
  proof (cases "0 \<le> l")
    case True
    define t1 where "t1 = E (xor_block (ld_block io inp i) t)"
    have step: "enc_loop io E inp (st_block io t1 i out) (l - 8) (i + 8) t1 = (c, l', i', t')"
      using less.prems(1) True by (simp add: enc_loop.simps [of io E inp out l] t1_def Let_def)
    then have keep: "c k = st_block io t1 i out k" "i + 8 \<le> i'" if "k < i + 8" for k
      using enc_keeps [OF step] True that by simp_all
    have "i + 8 \<le> i'" using keep(2) [of i] by simp
    then have "ld_block io a i = ld_block io (st_block io t1 i out) i"
      using keep(1) less.prems(3) by (intro block_same) simp
    then have tin: "ld_block io a i = t1" by (simp add: block_read)
    have "dec_loop io D a (st_block io (ld_block io inp i) i dst) (l - 8) (i + 8) t1 =
      ((\<lambda>k. if i + 8 \<le> k \<and> k < i' then inp k else st_block io (ld_block io inp i) i dst k), l', i', t')"
      using True step less.prems(3) by (intro less.hyps [of "l - 8" "st_block io t1 i out"]) simp_all
    moreover have "(\<lambda>k. if i + 8 \<le> k \<and> k < i' then inp k else st_block io (ld_block io inp i) i dst k) =
      (\<lambda>k. if i \<le> k \<and> k < i' then inp k else dst k)"
      using \<open>i + 8 \<le> i'\<close> by (auto simp: fun_eq_iff block_frame block_back not_le)
    moreover have "dec_loop io D a dst l i t = dec_loop io D a (st_block io (ld_block io inp i) i dst) (l - 8) (i + 8) t1"
      using True tin by (simp add: dec_loop.simps [of io D a dst l] t1_def inverse Let_def)
    ultimately show ?thesis by simp
  next
    case False
    then have "dec_loop io D a dst l i t = (dst, l, i, t)" "c = out \<and> l' = l \<and> i' = i \<and> t' = t"
      using less.prems(1) by (simp_all add: enc_loop.simps [of io E inp out l] dec_loop.simps [of io D a dst l'])
    then show ?thesis by (auto simp: fun_eq_iff)
  qed
qed

text \<open>A message of any length is restored, and both sides have the same vector for the next one.\<close>

lemma cbc_restores:
  assumes "0 \<le> len"
  shows "cbc_decrypt io D (fst (cbc_encrypt io E inp out len iv)) dst len iv =
    ((\<lambda>k. if int k < len then inp k else dst k), snd (cbc_encrypt io E inp out len iv))"
proof -
  obtain c l i t where e: "enc_loop io E inp out (len - 8) 0 (ld_block io iv 0) = (c, l, i, t)" by (metis prod_cases4)
  have b: "- 8 \<le> l" "l < 0" "int i + l = len - 8" using enc_keeps [OF e] assms by simp_all
  show ?thesis
  proof (cases "l = - 8")
    case True
    have "dec_loop io D c dst (len - 8) 0 (ld_block io iv 0) = ((\<lambda>k. if 0 \<le> k \<and> k < i then inp k else dst k), l, i, t)"
      using assms by (intro dec_follows_enc [OF e]) simp_all
    moreover have "int k < len \<longleftrightarrow> k < i" for k using b True by auto
    ultimately show ?thesis using True e by (simp add: cbc_encrypt_def cbc_decrypt_def)
  next
    case False
    define x where "x = ldn io inp i (l + 8)"
    define t1 where "t1 = E (xor_block x t)"
    define a where "a = st_block io t1 i c"
    have "dec_loop io D a dst (len - 8) 0 (ld_block io iv 0) = ((\<lambda>k. if 0 \<le> k \<and> k < i then inp k else dst k), l, i, t)"
      using assms by (intro dec_follows_enc [OF e]) (simp_all add: a_def block_frame)
    moreover have "ld_block io a i = t1" by (simp add: a_def block_read)
    moreover have "stn io (fst x) (snd x) i (l + 8) d k = (if i \<le> k \<and> int k < len then inp k else d k)" for d k
    proof -
      have x: "x = ld_block io (padded inp i (l + 8)) 0" using ldn_pads b False by (simp add: x_def)
      have "st_block io x i d k = inp k" if "i \<le> k" "int k < len"
        using that b block_back [of i k "padded inp i (l + 8)" 0 d] by (simp add: x padded_def)
      then show ?thesis using stn_cuts [of "l + 8" "fst x" "snd x" i d k] b False by simp
    qed
    moreover have "xor_block (D t1) t = x" by (simp add: t1_def inverse)
    ultimately show ?thesis
      using False e b by (auto simp: cbc_encrypt_def cbc_decrypt_def Let_def fun_eq_iff t1_def [symmetric] x_def [symmetric] a_def [symmetric])
  qed
qed

text \<open>The first block alone is restored from the first block of the output, filled with zeros when the message is shorter.\<close>

lemma cbc_first_block:
  assumes "0 < len"
  shows "cbc_decrypt io D (fst (cbc_encrypt io E inp out len iv)) dst 8 iv =
    ((\<lambda>k. if k < 8 then if int k < len then inp k else 0 else dst k), st_block io (ld_block io (fst (cbc_encrypt io E inp out len iv)) 0) 0 iv)"
proof -
  define x where "x = (if 8 \<le> len then ld_block io inp 0 else ldn io inp 0 len)"
  define t where "t = ld_block io iv 0"
  define t1 where "t1 = E (xor_block x t)"
  have first: "ld_block io (fst (cbc_encrypt io E inp out len iv)) 0 = t1"
  proof (cases "8 \<le> len")
    case True
    obtain c l i t2 where e: "enc_loop io E inp (st_block io t1 0 out) (len - 16) 8 t1 = (c, l, i, t2)" by (metis prod_cases4)
    then have "enc_loop io E inp out (len - 8) 0 t = (c, l, i, t2)"
      using True by (simp add: enc_loop.simps [of io E inp out "len - 8"] t1_def x_def Let_def)
    then have "ld_block io (fst (cbc_encrypt io E inp out len iv)) 0 = ld_block io c 0"
      using enc_keeps [OF e] True
      by (auto simp: cbc_encrypt_def t_def [symmetric] Let_def intro!: block_same block_frame)
    also have "\<dots> = ld_block io (st_block io t1 0 out) 0" using enc_keeps [OF e] True by (intro block_same) simp
    finally show ?thesis by (simp add: block_read)
  next
    case False
    then show ?thesis using assms
      by (simp add: cbc_encrypt_def enc_loop.simps [of io E inp out "len - 8"] t_def [symmetric] t1_def x_def Let_def block_read)
  qed
  have "x = ld_block io (\<lambda>k. if int k < len then inp k else 0) 0"
  proof (cases "8 \<le> len")
    case True
    then show ?thesis by (auto simp: x_def intro!: block_same)
  next
    case False
    then show ?thesis using assms ldn_pads [of len inp 0] by (simp add: x_def padded_def cong: if_cong)
  qed
  then have "st_block io x 0 dst k = (if k < 8 then if int k < len then inp k else 0 else dst k)" for k
    using block_back [of 0 k "\<lambda>k. if int k < len then inp k else 0" 0 dst] block_frame [of k 0 x dst] by simp
  then show ?thesis using first
    by (simp add: cbc_decrypt_def dec_loop.simps Let_def t_def [symmetric] t1_def inverse fun_eq_iff)
qed

end

subsection \<open>Both orders of bytes\<close>

lemma byte_cases: "k < 4 \<Longrightarrow> k = 0 \<or> k = 1 \<or> k = 2 \<or> k = (3 :: nat)"
  by auto

lemma join_bytes:
  "push_bit 24 (ucast (ucast (drop_bit 24 w) :: u8)) OR push_bit 16 (ucast (ucast (drop_bit 16 w) :: u8)) OR
   push_bit 8 (ucast (ucast (drop_bit 8 w) :: u8)) OR ucast (ucast w :: u8) = (w :: u32)" (is "?l = w")
proof (rule bit_word_eqI)
  fix n assume "n < LENGTH(32)"
  then consider "n < 8" | "8 \<le> n" "n < 16" | "16 \<le> n" "n < 24" | "24 \<le> n" "n < 32" by fastforce
  then show "bit ?l n = bit w n"
    by cases (auto simp: bit_simps)
qed

lemma split_bytes:
  fixes a b c d :: u8
  defines "w \<equiv> push_bit 24 (ucast a) OR push_bit 16 (ucast b) OR push_bit 8 (ucast c) OR ucast d :: u32"
  shows "ucast (drop_bit 24 w) = a" "ucast (drop_bit 16 w) = b" "ucast (drop_bit 8 w) = c" "ucast w = d"
  unfolding w_def by (rule bit_word_eqI, auto simp: bit_simps dest: bit_imp_le_length)+

lemma upto_byte_padded: "0 < n \<Longrightarrow> n < 8 \<Longrightarrow> 0 < k \<Longrightarrow> upto_byte n k c i = ucast (padded c i n (k - 1))"
  by (cases k) (auto simp: upto_byte_def padded_def)

lemma n2l_l2n: "n2l (l2n w i c) i = w"
  using join_bytes [of w] by (simp add: n2l_def l2n_def)

lemma c2l_l2c: "c2l (l2c w i c) i = w"
  using join_bytes [of w] by (simp add: c2l_def l2c_def ac_simps)

lemma l2n_n2l: "k < 4 \<Longrightarrow> l2n (n2l a j) i c (i + k) = a (j + k)"
  using byte_cases [of k] split_bytes [of "a j" "a (j + 1)" "a (j + 2)" "a (j + 3)"]
  by (auto simp: n2l_def l2n_def or.assoc)

lemma l2c_c2l: "k < 4 \<Longrightarrow> l2c (c2l a j) i c (i + k) = a (j + k)"
  using byte_cases [of k] split_bytes [of "a (j + 3)" "a (j + 2)" "a (j + 1)" "a j"]
  by (auto simp: c2l_def l2c_def ac_simps)

lemma n2l_same:
  assumes "\<And>k. k < 4 \<Longrightarrow> a (i + k) = c (j + k)"
  shows "n2l a i = n2l c j"
  using assms [of 0] assms [of 1] assms [of 2] assms [of 3] by (simp add: n2l_def)

lemma c2l_same:
  assumes "\<And>k. k < 4 \<Longrightarrow> a (i + k) = c (j + k)"
  shows "c2l a i = c2l c j"
  using assms [of 0] assms [of 1] assms [of 2] assms [of 3] by (simp add: c2l_def)

lemma offset_cases: "d < 8 \<Longrightarrow> d = 0 \<or> d = 1 \<or> d = 2 \<or> d = 3 \<or> d = 4 \<or> d = 5 \<or> d = 6 \<or> d = (7 :: nat)"
  by linarith

lemma put_upto_apply: "put_upto n j v i c k = (if int j \<le> n \<and> n \<le> 8 \<and> k = i + (j - 1) then v else c k)"
  by (simp add: put_upto_def)

lemma l2nn_cuts:
  assumes "0 < n" "n < 8"
  shows "l2nn u v i n c k = (if i \<le> k \<and> int k < int i + n then l2n v (i + 4) (l2n u i c) k else c k)"
proof (cases "i \<le> k \<and> k < i + 8")
  case True
  then obtain d where d: "k = i + d" "d < 8" by (metis le_iff_add nat_add_left_cancel_less)
  show ?thesis unfolding d(1) using offset_cases [OF d(2)] assms
    by (elim disjE) (simp_all add: l2nn_def put_upto_apply l2n_def)
next
  case False
  then have "k \<noteq> i + e" if "e < 8" for e using that by linarith
  from this [of 0] this [of 1] this [of 2] this [of 3] this [of 4] this [of 5] this [of 6] this [of 7]
  show ?thesis using False assms by (auto simp: l2nn_def put_upto_apply)
qed

lemma l2cn_cuts:
  assumes "0 < n" "n < 8"
  shows "l2cn u v i n c k = (if i \<le> k \<and> int k < int i + n then l2c v (i + 4) (l2c u i c) k else c k)"
proof (cases "i \<le> k \<and> k < i + 8")
  case True
  then obtain d where d: "k = i + d" "d < 8" by (metis le_iff_add nat_add_left_cancel_less)
  show ?thesis unfolding d(1) using offset_cases [OF d(2)] assms
    by (elim disjE) (simp_all add: l2cn_def put_upto_apply l2c_def)
next
  case False
  then have "k \<noteq> i + e" if "e < 8" for e using that by linarith
  from this [of 0] this [of 1] this [of 2] this [of 3] this [of 4] this [of 5] this [of 6] this [of 7]
  show ?thesis using False assms by (auto simp: l2cn_def put_upto_apply)
qed

interpretation net: block_layout net_io
proof
  show "ld net_io (st net_io w i c) i = w" for w i c
    by (simp add: net_io_def n2l_l2n)
  show "ld net_io a i = ld net_io c j" if "\<And>k. k < 4 \<Longrightarrow> a (i + k) = c (j + k)" for a c i j
    using n2l_same [of a i c j] that by (simp add: net_io_def)
  show "st net_io (ld net_io a j) i c (i + k) = a (j + k)" if "k < 4" for a c i j k
    using l2n_n2l [OF that] by (simp add: net_io_def)
  show "st net_io w i c k = c k" if "k < i \<or> i + 4 \<le> k" for w i c k
    using that by (auto simp: net_io_def l2n_def)
  show "ldn net_io a i n = ld_block net_io (padded a i n) 0" if "0 < n" "n < 8" for a i n
    using that by (simp add: net_io_def ld_block_def n2ln_def n2l_def upto_byte_padded numeral_2_eq_2 ac_simps)
  show "stn net_io u v i n c k = (if i \<le> k \<and> int k < int i + n then st_block net_io (u, v) i c k else c k)"
    if "0 < n" "n < 8" for u v i n c k
    using l2nn_cuts [OF that] by (simp add: net_io_def st_block_def)
qed

interpretation chr: block_layout chr_io
proof
  show "ld chr_io (st chr_io w i c) i = w" for w i c
    by (simp add: chr_io_def c2l_l2c)
  show "ld chr_io a i = ld chr_io c j" if "\<And>k. k < 4 \<Longrightarrow> a (i + k) = c (j + k)" for a c i j
    using c2l_same [of a i c j] that by (simp add: chr_io_def)
  show "st chr_io (ld chr_io a j) i c (i + k) = a (j + k)" if "k < 4" for a c i j k
    using l2c_c2l [OF that] by (simp add: chr_io_def)
  show "st chr_io w i c k = c k" if "k < i \<or> i + 4 \<le> k" for w i c k
    using that by (auto simp: chr_io_def l2c_def)
  show "ldn chr_io a i n = ld_block chr_io (padded a i n) 0" if "0 < n" "n < 8" for a i n
    using that by (simp add: chr_io_def ld_block_def c2ln_def c2l_def upto_byte_padded numeral_2_eq_2 ac_simps)
  show "stn chr_io u v i n c k = (if i \<le> k \<and> int k < int i + n then st_block chr_io (u, v) i c k else c k)"
    if "0 < n" "n < 8" for u v i n c k
    using l2cn_cuts [OF that] by (simp add: chr_io_def st_block_def)
qed

end
