(* ===== verification/Pok_Blowfish.thy ===== *)
theory Pok_Blowfish
  imports Pok_Cbc Pok_Cipher_Tables
begin

text \<open>
  Blowfish (\<open>libpok/protocols/blowfish\<close>): its sixteen rounds, single and chained blocks, the schedule of a key, and the
  protocol for messages that encrypts one block. A key is an array of words, the eighteen of the rounds and then the four
  tables of 256, as the code goes through the structure when \<open>BF_PTR2\<close> is defined.
\<close>

unbundle bit_operations_syntax

subsection \<open>Rounds\<close>

type_synonym BF_KEY = "nat \<Rightarrow> u32"

definition BF_ROUNDS :: nat where "BF_ROUNDS = 16"

definition bf_mix :: "u32 \<Rightarrow> BF_KEY \<Rightarrow> u32" where
  "bf_mix r key =
     (let t = key (BF_ROUNDS + 2 + 0 + unat (drop_bit 24 r AND 0xff));
          t1 = t + key (BF_ROUNDS + 2 + 256 + unat (drop_bit 16 r AND 0xff));
          t2 = t1 XOR key (BF_ROUNDS + 2 + 512 + unat (drop_bit 8 r AND 0xff))
      in t2 + key (BF_ROUNDS + 2 + 768 + unat (r AND 0xff)))"

definition BF_ENC :: "u32 \<Rightarrow> u32 \<Rightarrow> BF_KEY \<Rightarrow> nat \<Rightarrow> u32" where
  "BF_ENC ll r key i = ll XOR key i XOR bf_mix r key"

text \<open>The rounds are written out in the code, two for each number here.\<close>

definition bf_round :: "BF_KEY \<Rightarrow> nat \<Rightarrow> u32 \<times> u32 \<Rightarrow> u32 \<times> u32" where
  "bf_round key i lr = (case lr of (l, r) \<Rightarrow> let r1 = BF_ENC r l key i in (BF_ENC l r1 key (i + 1), r1))"

definition bf_unround :: "BF_KEY \<Rightarrow> nat \<Rightarrow> u32 \<times> u32 \<Rightarrow> u32 \<times> u32" where
  "bf_unround key i lr = (case lr of (l, r) \<Rightarrow> let r1 = BF_ENC r l key (i + 1) in (BF_ENC l r1 key i, r1))"

definition BF_encrypt :: "u32 \<times> u32 \<Rightarrow> BF_KEY \<Rightarrow> u32 \<times> u32" where
  "BF_encrypt d key =
     (case fold (bf_round key) [1, 3, 5, 7, 9, 11, 13, 15] (fst d XOR key 0, snd d) of (l, r) \<Rightarrow>
      (r XOR key (BF_ROUNDS + 1), l))"

definition BF_decrypt :: "u32 \<times> u32 \<Rightarrow> BF_KEY \<Rightarrow> u32 \<times> u32" where
  "BF_decrypt d key =
     (case fold (bf_unround key) [15, 13, 11, 9, 7, 5, 3, 1] (fst d XOR key (BF_ROUNDS + 1), snd d) of (l, r) \<Rightarrow>
      (r XOR key 0, l))"

definition BF_ecb_encrypt :: "bytes \<Rightarrow> bytes \<Rightarrow> BF_KEY \<Rightarrow> bool \<Rightarrow> bytes" where
  "BF_ecb_encrypt inp out key encrypt =
     (let d = (n2l inp 0, n2l inp 4); e = (if encrypt then BF_encrypt d key else BF_decrypt d key)
      in l2n (snd e) 4 (l2n (fst e) 0 out))"

definition BF_cbc_encrypt :: "bytes \<Rightarrow> bytes \<Rightarrow> int \<Rightarrow> BF_KEY \<Rightarrow> bytes \<Rightarrow> bool \<Rightarrow> bytes \<times> bytes" where
  "BF_cbc_encrypt inp out len schedule ivec encrypt =
     (if encrypt then cbc_encrypt net_io (\<lambda>d. BF_encrypt d schedule) inp out len ivec
      else cbc_decrypt net_io (\<lambda>d. BF_decrypt d schedule) inp out len ivec)"

subsection \<open>The schedule of a key\<close>

definition bf_init :: BF_KEY where
  "bf_init i = (if i < BF_ROUNDS + 2 then bf_init_P ! i else bf_init_S ! (i - (BF_ROUNDS + 2)))"

text \<open>The bytes of the key are taken in a circle; \<open>d\<close> is the index of the next.\<close>

definition next_index :: "int \<Rightarrow> nat \<Rightarrow> nat" where
  "next_index len d = (if int (d + 1) \<ge> len then 0 else d + 1)"

definition key_word :: "int \<Rightarrow> bytes \<Rightarrow> nat \<Rightarrow> u32 \<times> nat" where
  "key_word len data d =
     (let ri = ucast (data d); d1 = next_index len d;
          ri1 = push_bit 8 ri OR ucast (data d1); d2 = next_index len d1;
          ri2 = push_bit 8 ri1 OR ucast (data d2); d3 = next_index len d2
      in (push_bit 8 ri2 OR ucast (data d3), next_index len d3))"

definition mix_key :: "int \<Rightarrow> bytes \<Rightarrow> nat \<Rightarrow> BF_KEY \<times> nat \<Rightarrow> BF_KEY \<times> nat" where
  "mix_key len data i kd =
     (case kd of (key, d) \<Rightarrow> case key_word len data d of (ri, d') \<Rightarrow> (key(i := key i XOR ri), d'))"

text \<open>Two words are replaced by the encryption of the last two, under the key as it is then.\<close>

definition replace_words :: "nat \<Rightarrow> nat \<Rightarrow> BF_KEY \<times> (u32 \<times> u32) \<Rightarrow> BF_KEY \<times> (u32 \<times> u32)" where
  "replace_words base k kd = (case kd of (key, d) \<Rightarrow>
     let e = BF_encrypt d key; i = base + 2 * k in (key(i := fst e, i + 1 := snd e), e))"

definition BF_set_key :: "int \<Rightarrow> bytes \<Rightarrow> BF_KEY" where
  "BF_set_key len data =
     (let len' = (if len > int ((BF_ROUNDS + 2) * 4) then int ((BF_ROUNDS + 2) * 4) else len);
          key = fst (fold (mix_key len' data) [0..<BF_ROUNDS + 2] (bf_init, 0));
          kd1 = fold (replace_words 0) [0..<(BF_ROUNDS + 2) div 2] (key, (0, 0));
          kd2 = fold (replace_words (BF_ROUNDS + 2)) [0..<4 * 256 div 2] kd1
      in fst kd2)"

subsection \<open>The protocol\<close>

definition POK_BLOWFISH_KEY :: bytes where
  "POK_BLOWFISH_KEY i =
     [0x01, 0x23, 0x45, 0x67, 0x89, 0xab, 0xcd, 0xef, 0xf0, 0xe1, 0xd2, 0xc3, 0xb4, 0xa5, 0x96, 0x87] ! i"

text \<open>What is written to the output, and the size that is reported. The size that is given is not used.\<close>

definition pok_protocols_blowfish_marshall :: "bytes \<Rightarrow> bytes \<Rightarrow> u32 \<Rightarrow> bytes \<Rightarrow> bytes \<times> u32" where
  "pok_protocols_blowfish_marshall cbc_key uncrypted_data uncrypted_size crypted_data =
     (BF_ecb_encrypt uncrypted_data crypted_data (BF_set_key 16 cbc_key) True, 8)"

definition pok_protocols_blowfish_unmarshall :: "bytes \<Rightarrow> bytes \<Rightarrow> u32 \<Rightarrow> bytes \<Rightarrow> bytes \<times> u32" where
  "pok_protocols_blowfish_unmarshall cbc_key crypted_data crypted_size uncrypted_data =
     (BF_ecb_encrypt crypted_data uncrypted_data (BF_set_key 16 cbc_key) False, 8)"

subsection \<open>Decryption undoes encryption\<close>

text \<open>A round backwards, on exchanged halves, undoes a round.\<close>

lemma enc_twice [simp]: "BF_ENC (BF_ENC ll r key i) r key i = ll"
  by (simp add: BF_ENC_def xor.assoc xor.left_commute)

lemma unround_round: "bf_unround key i (prod.swap (bf_round key i lr)) = prod.swap lr"
  by (simp add: bf_unround_def bf_round_def Let_def split: prod.split)

lemma unrounds_rounds:
  "fold (bf_unround key) (rev is) (prod.swap (fold (bf_round key) is lr)) = prod.swap lr"
proof (induction "is" arbitrary: lr)
  case (Cons i "is")
  have "fold (bf_unround key) (rev is) (prod.swap (fold (bf_round key) is (bf_round key i lr))) = prod.swap (bf_round key i lr)"
    by (rule Cons.IH)
  then show ?case by (simp add: unround_round)
qed simp

lemma BF_decrypt_encrypt: "BF_decrypt (BF_encrypt d key) key = d"
proof -
  define lr where "lr = (fst d XOR key 0, snd d)"
  obtain l r where e: "fold (bf_round key) [1, 3, 5, 7, 9, 11, 13, 15] lr = (l, r)" by fastforce
  have "fold (bf_unround key) [15, 13, 11, 9, 7, 5, 3, 1] (r, l) = prod.swap lr"
    using unrounds_rounds [of key "[1, 3, 5, 7, 9, 11, 13, 15]" lr] unfolding e by simp
  then show ?thesis
    unfolding BF_encrypt_def BF_decrypt_def lr_def [symmetric] e by (simp add: xor.assoc) (simp add: lr_def xor.assoc)
qed

interpretation bf: cbc_mode net_io "\<lambda>d. BF_encrypt d key" "\<lambda>d. BF_decrypt d key" for key
  by unfold_locales (rule BF_decrypt_encrypt)

text \<open>C27: Chaining with Blowfish restores a message of any length, under any key and vector: of the output no byte behind the
  length is written, and both sides have the same vector for the next message.\<close>

theorem blowfish_cbc_roundtrip:
  assumes "0 \<le> len"
  shows "BF_cbc_encrypt (fst (BF_cbc_encrypt inp out len key ivec True)) dst len key ivec False =
    ((\<lambda>k. if int k < len then inp k else dst k), snd (BF_cbc_encrypt inp out len key ivec True))"
  using bf.cbc_restores [OF assms] by (simp add: BF_cbc_encrypt_def)

lemma blowfish_cbc_roundtrip_witness:
  "fst (BF_cbc_encrypt (fst (BF_cbc_encrypt of_nat (\<lambda>_. 0) 13 bf_init (\<lambda>_. 7) True)) (\<lambda>_. 0) 13 bf_init (\<lambda>_. 7) False) 12 = 12"
  using blowfish_cbc_roundtrip [of 13 of_nat "\<lambda>_. 0" bf_init "\<lambda>_. 7" "\<lambda>_. 0"] by simp

text \<open>A message of the Blowfish protocol arrives as its first eight bytes, whatever its length is; the length of both sides
  is reported as eight.\<close>

theorem blowfish_first_eight_bytes:
  "pok_protocols_blowfish_unmarshall cbc_key (fst (pok_protocols_blowfish_marshall cbc_key data n out)) m dst =
     ((\<lambda>k. if k < 8 then data k else dst k), 8) \<and> snd (pok_protocols_blowfish_marshall cbc_key data n out) = 8"
proof -
  let ?key = "BF_set_key 16 cbc_key"
  have b: "BF_ecb_encrypt a o' ?key e = st_block net_io ((if e then BF_encrypt else BF_decrypt) (ld_block net_io a 0) ?key) 0 o'" for a o' e
    by (simp add: BF_ecb_encrypt_def st_block_def ld_block_def net_io_def Let_def)
  have "st_block net_io (ld_block net_io data 0) 0 dst k = (if k < 8 then data k else dst k)" for k
    using net.block_back [of 0 k data 0 dst] net.block_frame [of k 0 "ld_block net_io data 0" dst] by simp
  then show ?thesis
    by (simp add: pok_protocols_blowfish_unmarshall_def pok_protocols_blowfish_marshall_def b net.block_read BF_decrypt_encrypt fun_eq_iff)
qed

end
