(* ===== verification/Pok_Des.thy ===== *)
theory Pok_Des
  imports Pok_Cbc Pok_Cipher_Tables Pok_User_Libc
begin

text \<open>
  DES (\<open>libpok/protocols/des\<close>): its permutations and rounds, the triple form, chaining, the schedule of a key with the
  checks of its parity and against weak keys, and the protocol for messages. A schedule is the array of its thirty-two words.
\<close>

unbundle bit_operations_syntax

subsection \<open>Permutations\<close>

type_synonym DES_key_schedule = "nat \<Rightarrow> u32"

definition ROTATE :: "u32 \<Rightarrow> nat \<Rightarrow> u32" where
  "ROTATE a n = word_rotr n a"

text \<open>The bits of \<open>a\<close> that the mask selects change places with bits of \<open>b\<close>.\<close>

definition PERM_OP :: "nat \<Rightarrow> u32 \<Rightarrow> u32 \<times> u32 \<Rightarrow> u32 \<times> u32" where
  "PERM_OP n m ab = (case ab of (a, b) \<Rightarrow> let t = (drop_bit n a XOR b) AND m in (a XOR push_bit n t, b XOR t))"

text \<open>The same with the arguments the other way round.\<close>

definition PERM_OP' :: "nat \<Rightarrow> u32 \<Rightarrow> u32 \<times> u32 \<Rightarrow> u32 \<times> u32" where
  "PERM_OP' n m ab = prod.swap (PERM_OP n m (prod.swap ab))"

definition IP :: "u32 \<times> u32 \<Rightarrow> u32 \<times> u32" where
  "IP lr = PERM_OP' 1 0x55555555 (PERM_OP 8 0x00ff00ff (PERM_OP' 2 0x33333333 (PERM_OP 16 0x0000ffff (PERM_OP' 4 0x0f0f0f0f lr))))"

definition FP :: "u32 \<times> u32 \<Rightarrow> u32 \<times> u32" where
  "FP lr = PERM_OP 4 0x0f0f0f0f (PERM_OP' 16 0x0000ffff (PERM_OP 2 0x33333333 (PERM_OP' 8 0x00ff00ff (PERM_OP 1 0x55555555 lr))))"

subsection \<open>Rounds\<close>

definition sp_entry :: "nat \<Rightarrow> nat \<Rightarrow> u32 \<Rightarrow> u32" where
  "sp_entry k n x = DES_SPtrans ! k ! unat (drop_bit n x AND 0x3f)"

definition des_mix :: "u32 \<Rightarrow> DES_key_schedule \<Rightarrow> nat \<Rightarrow> u32" where
  "des_mix r s i =
     (let u = r XOR s i; t = ROTATE (r XOR s (i + 1)) 4
      in sp_entry 0 2 u XOR sp_entry 2 10 u XOR sp_entry 4 18 u XOR sp_entry 6 26 u XOR
         sp_entry 1 2 t XOR sp_entry 3 10 t XOR sp_entry 5 18 t XOR sp_entry 7 26 t)"

definition D_ENCRYPT :: "u32 \<Rightarrow> u32 \<Rightarrow> DES_key_schedule \<Rightarrow> nat \<Rightarrow> u32" where
  "D_ENCRYPT ll r s i = ll XOR des_mix r s i"

text \<open>Two rounds; a pass of the loop in the code has four.\<close>

definition des_turn :: "DES_key_schedule \<Rightarrow> nat \<Rightarrow> u32 \<times> u32 \<Rightarrow> u32 \<times> u32" where
  "des_turn s i lr = (case lr of (l, r) \<Rightarrow> let l1 = D_ENCRYPT l r s i in (l1, D_ENCRYPT r l1 s (i + 2)))"

definition des_unturn :: "DES_key_schedule \<Rightarrow> nat \<Rightarrow> u32 \<times> u32 \<Rightarrow> u32 \<times> u32" where
  "des_unturn s i lr = (case lr of (l, r) \<Rightarrow> let l1 = D_ENCRYPT l r s (i + 2) in (l1, D_ENCRYPT r l1 s i))"

definition des_rounds :: "DES_key_schedule \<Rightarrow> bool \<Rightarrow> u32 \<times> u32 \<Rightarrow> u32 \<times> u32" where
  "des_rounds s enc lr =
     (if enc then fold (des_turn s) [0, 4, 8, 12, 16, 20, 24, 28] lr else fold (des_unturn s) [28, 24, 20, 16, 12, 8, 4, 0] lr)"

definition DES_encrypt2 :: "u32 \<times> u32 \<Rightarrow> DES_key_schedule \<Rightarrow> bool \<Rightarrow> u32 \<times> u32" where
  "DES_encrypt2 d ks enc =
     (case des_rounds ks enc (ROTATE (snd d) 29, ROTATE (fst d) 29) of (l, r) \<Rightarrow> (ROTATE l 3, ROTATE r 3))"

text \<open>The words are \<open>r\<close> and \<open>l\<close> in the order of the data; the permutations take them in that order.\<close>

definition DES_encrypt1 :: "u32 \<times> u32 \<Rightarrow> DES_key_schedule \<Rightarrow> bool \<Rightarrow> u32 \<times> u32" where
  "DES_encrypt1 d ks enc =
     (case IP d of (r, l) \<Rightarrow> case des_rounds ks enc (ROTATE l 29, ROTATE r 29) of (l1, r1) \<Rightarrow>
      case FP (ROTATE r1 3, ROTATE l1 3) of (r2, l2) \<Rightarrow> (l2, r2))"

definition DES_encrypt3 :: "u32 \<times> u32 \<Rightarrow> DES_key_schedule \<Rightarrow> DES_key_schedule \<Rightarrow> DES_key_schedule \<Rightarrow> u32 \<times> u32" where
  "DES_encrypt3 d ks1 ks2 ks3 =
     (case DES_encrypt2 (DES_encrypt2 (DES_encrypt2 (IP d) ks1 True) ks2 False) ks3 True of (l, r) \<Rightarrow>
      case FP (r, l) of (r1, l1) \<Rightarrow> (l1, r1))"

definition DES_decrypt3 :: "u32 \<times> u32 \<Rightarrow> DES_key_schedule \<Rightarrow> DES_key_schedule \<Rightarrow> DES_key_schedule \<Rightarrow> u32 \<times> u32" where
  "DES_decrypt3 d ks1 ks2 ks3 =
     (case DES_encrypt2 (DES_encrypt2 (DES_encrypt2 (IP d) ks3 False) ks2 True) ks1 False of (l, r) \<Rightarrow>
      case FP (r, l) of (r1, l1) \<Rightarrow> (l1, r1))"

definition DES_ncbc_encrypt :: "bytes \<Rightarrow> bytes \<Rightarrow> int \<Rightarrow> DES_key_schedule \<Rightarrow> bytes \<Rightarrow> bool \<Rightarrow> bytes \<times> bytes" where
  "DES_ncbc_encrypt inp out len schedule ivec enc =
     (if enc then cbc_encrypt chr_io (\<lambda>d. DES_encrypt1 d schedule True) inp out len ivec
      else cbc_decrypt chr_io (\<lambda>d. DES_encrypt1 d schedule False) inp out len ivec)"

definition DES_ede3_cbc_encrypt ::
  "bytes \<Rightarrow> bytes \<Rightarrow> int \<Rightarrow> DES_key_schedule \<Rightarrow> DES_key_schedule \<Rightarrow> DES_key_schedule \<Rightarrow> bytes \<Rightarrow> bool \<Rightarrow> bytes \<times> bytes" where
  "DES_ede3_cbc_encrypt inp out len ks1 ks2 ks3 ivec enc =
     (if enc then cbc_encrypt chr_io (\<lambda>d. DES_encrypt3 d ks1 ks2 ks3) inp out len ivec
      else cbc_decrypt chr_io (\<lambda>d. DES_decrypt3 d ks1 ks2 ks3) inp out len ivec)"

subsection \<open>Keys\<close>

definition DES_set_odd_parity :: "bytes \<Rightarrow> bytes" where
  "DES_set_odd_parity key = (\<lambda>i. if i < 8 then odd_parity ! unat (key i) else key i)"

definition DES_check_key_parity :: "bytes \<Rightarrow> bool" where
  "DES_check_key_parity key = list_all (\<lambda>i. key i = odd_parity ! unat (key i)) [0..<8]"

text \<open>The weak keys are sixteen rows of eight bytes; \<open>behind\<close> is the memory that follows them. The comparison is that of the
  library.\<close>

definition weak_keys :: "bytes \<Rightarrow> bytes" where
  "weak_keys behind i = (if i < 128 then weak_key_bytes ! i else behind (i - 128))"

definition DES_is_weak_key :: "bytes \<Rightarrow> bytes \<Rightarrow> bool" where
  "DES_is_weak_key behind key = list_ex (\<lambda>i. user_memcmp (\<lambda>k. weak_keys behind (8 * i + k)) key 8 = 0) [0..<16]"

definition HPERM_OP :: "u32 \<Rightarrow> u32 \<Rightarrow> u32" where
  "HPERM_OP m a = (let t = (push_bit 18 a XOR a) AND m in a XOR t XOR drop_bit 18 t)"

text \<open>The first permutation of the key.\<close>

definition key_halves :: "bytes \<Rightarrow> u32 \<times> u32" where
  "key_halves key =
     (case PERM_OP 4 0x0f0f0f0f (c2l key 4, c2l key 0) of (d, c) \<Rightarrow>
      case PERM_OP 1 0x55555555 (HPERM_OP 0xcccc0000 d, HPERM_OP 0xcccc0000 c) of (d, c) \<Rightarrow>
      case PERM_OP 8 0x00ff00ff (c, d) of (c, d) \<Rightarrow>
      case PERM_OP 1 0x55555555 (d, c) of (d, c) \<Rightarrow>
      (c AND 0x0fffffff,
       push_bit 16 (d AND 0xff) OR (d AND 0xff00) OR drop_bit 16 (d AND 0xff0000) OR drop_bit 4 (c AND 0xf0000000)))"

definition shifts2 :: "bool list" where
  "shifts2 = [False, False, True, True, True, True, True, True, False, True, True, True, True, True, True, False]"

definition half_shift :: "bool \<Rightarrow> u32 \<Rightarrow> u32" where
  "half_shift two x =
     ((if two then drop_bit 2 x OR push_bit 26 x else drop_bit 1 x OR push_bit 27 x) AND 0x0fffffff)"

definition skb :: "nat \<Rightarrow> u32 \<Rightarrow> u32" where
  "skb k x = des_skb ! k ! unat x"

definition schedule_step :: "nat \<Rightarrow> (u32 \<times> u32) \<times> DES_key_schedule \<Rightarrow> (u32 \<times> u32) \<times> DES_key_schedule" where
  "schedule_step i cdk = (case cdk of ((c0, d0), sched) \<Rightarrow>
     let c = half_shift (shifts2 ! i) c0; d = half_shift (shifts2 ! i) d0;
         s = skb 0 (c AND 0x3f) OR skb 1 ((drop_bit 6 c AND 0x03) OR (drop_bit 7 c AND 0x3c)) OR
             skb 2 ((drop_bit 13 c AND 0x0f) OR (drop_bit 14 c AND 0x30)) OR
             skb 3 ((drop_bit 20 c AND 0x01) OR (drop_bit 21 c AND 0x06) OR (drop_bit 22 c AND 0x38));
         t = skb 4 (d AND 0x3f) OR skb 5 ((drop_bit 7 d AND 0x03) OR (drop_bit 8 d AND 0x3c)) OR
             skb 6 (drop_bit 15 d AND 0x3f) OR skb 7 ((drop_bit 21 d AND 0x0f) OR (drop_bit 22 d AND 0x30))
     in ((c, d), sched(2 * i := ROTATE (push_bit 16 t OR (s AND 0xffff)) 30,
                       2 * i + 1 := ROTATE (drop_bit 16 s OR (t AND 0xffff0000)) 26)))"

definition DES_set_key_unchecked :: "bytes \<Rightarrow> DES_key_schedule \<Rightarrow> DES_key_schedule" where
  "DES_set_key_unchecked key sched = snd (fold schedule_step [0..<16] (key_halves key, sched))"

text \<open>The answer, and the schedule, which is not written when the key is refused.\<close>

definition DES_set_key_checked :: "bytes \<Rightarrow> bytes \<Rightarrow> DES_key_schedule \<Rightarrow> int \<times> DES_key_schedule" where
  "DES_set_key_checked behind key sched =
     (if \<not> DES_check_key_parity key then (- 1, sched)
      else if DES_is_weak_key behind key then (- 2, sched)
      else (0, DES_set_key_unchecked key sched))"

definition DES_set_key :: "bool \<Rightarrow> bytes \<Rightarrow> bytes \<Rightarrow> DES_key_schedule \<Rightarrow> int \<times> DES_key_schedule" where
  "DES_set_key check_key behind key sched =
     (if check_key then DES_set_key_checked behind key sched else (0, DES_set_key_unchecked key sched))"

definition DES_key_sched :: "bool \<Rightarrow> bytes \<Rightarrow> bytes \<Rightarrow> DES_key_schedule \<Rightarrow> int \<times> DES_key_schedule" where
  "DES_key_sched check_key behind key sched = DES_set_key check_key behind key sched"

subsection \<open>The protocol\<close>

definition POK_PROTOCOLS_DES_KEY :: bytes where
  "POK_PROTOCOLS_DES_KEY i = [0x01, 0x23, 0x45, 0x67, 0x89, 0xab, 0xcd, 0xef] ! i"

definition POK_PROTOCOLS_DES_INIT :: bytes where
  "POK_PROTOCOLS_DES_INIT i = [0xfe, 0xdc, 0xba, 0x98, 0x76, 0x54, 0x32, 0x10] ! i"

text \<open>The parts of a deployment: the key with the memory behind it, the vector, and the memory behind the weak keys. The
  schedule is on the stack; \<open>sched\<close> is what was there before.\<close>

record des_setup =
  cbc_key :: bytes
  initVector :: bytes
  behind_weak_keys :: bytes

definition pok_protocols_des_init :: "int \<Rightarrow> int" where
  "pok_protocols_des_init is_init = (if is_init = 1 then is_init else 1)"

definition pok_protocols_des_marshall :: "des_setup \<Rightarrow> DES_key_schedule \<Rightarrow> bytes \<Rightarrow> u32 \<Rightarrow> bytes \<Rightarrow> bytes \<times> u32" where
  "pok_protocols_des_marshall ds sched uncrypted_data uncrypted_size crypted_data =
     (let schedule = snd (DES_set_key_checked (behind_weak_keys ds) (cbc_key ds) sched)
      in (fst (DES_ncbc_encrypt uncrypted_data crypted_data (sint uncrypted_size) schedule (initVector ds) True), 8))"

definition pok_protocols_des_unmarshall :: "des_setup \<Rightarrow> DES_key_schedule \<Rightarrow> bytes \<Rightarrow> u32 \<Rightarrow> bytes \<Rightarrow> bytes \<times> u32" where
  "pok_protocols_des_unmarshall ds sched crypted_data crypted_size uncrypted_data =
     (let schedule = snd (DES_set_key_checked (behind_weak_keys ds) (cbc_key ds) sched)
      in (fst (DES_ncbc_encrypt crypted_data uncrypted_data (sint crypted_size) schedule (initVector ds) False), 8))"

subsection \<open>Decryption undoes encryption\<close>

text \<open>A permutation of this form undoes itself when the mask leaves room for the shift.\<close>

lemma shift_back: "drop_bit (32 - n) m = 0 \<Longrightarrow> n \<le> 32 \<Longrightarrow> drop_bit n (push_bit n (x AND m)) = (x AND m :: u32)"
proof (rule bit_word_eqI)
  fix k assume m: "drop_bit (32 - n) m = 0" "n \<le> 32" and k: "k < LENGTH(32)"
  have "\<not> bit m k" if "32 \<le> n + k"
  proof -
    have "32 - n + (k - (32 - n)) = k" using that m(2) by simp
    then show ?thesis using arg_cong [OF m(1), of "\<lambda>w. bit w (k - (32 - n))"] by (simp add: bit_drop_bit_eq)
  qed
  then have "bit m k \<Longrightarrow> n + k < 32" by (metis not_le)
  then show "bit (drop_bit n (push_bit n (x AND m))) k = bit (x AND m) k"
    by (auto simp: bit_drop_bit_eq bit_push_bit_iff bit_and_iff add.commute)
qed

lemma PERM_OP_twice: "drop_bit (32 - n) m = 0 \<Longrightarrow> n \<le> 32 \<Longrightarrow> PERM_OP n m (PERM_OP n m ab) = ab"
proof -
  assume m: "drop_bit (32 - n) m = 0" "n \<le> 32"
  obtain a b where ab: "ab = (a, b)" by fastforce
  define t where "t = (drop_bit n a XOR b) AND m"
  have shifted: "drop_bit n (push_bit n t) = t" unfolding t_def by (rule shift_back [OF m])
  have "((p XOR t) XOR (b XOR t)) AND m = (p XOR b) AND m" for p by (simp add: ac_simps)
  then have "(drop_bit n (a XOR push_bit n t) XOR (b XOR t)) AND m = t" unfolding drop_bit_xor shifted by (simp only: t_def)
  then have "PERM_OP n m (a XOR push_bit n t, b XOR t) = (a, b)"
    unfolding PERM_OP_def Let_def prod.case by (simp only: xor.assoc xor_self_eq xor.right_neutral)
  then show ?thesis by (simp add: ab PERM_OP_def [of n m "(a, b)"] t_def Let_def)
qed

lemma perms_twice [simp]:
  "PERM_OP 4 0x0f0f0f0f (PERM_OP 4 0x0f0f0f0f x) = x" "PERM_OP 16 0x0000ffff (PERM_OP 16 0x0000ffff x) = x"
  "PERM_OP 2 0x33333333 (PERM_OP 2 0x33333333 x) = x" "PERM_OP 8 0x00ff00ff (PERM_OP 8 0x00ff00ff x) = x"
  "PERM_OP (Suc 0) 0x55555555 (PERM_OP (Suc 0) 0x55555555 x) = x"
  by (rule PERM_OP_twice; simp)+

text \<open>The last permutation, on words in the other order, is the inverse of the first.\<close>

lemma IP_FP: "IP (prod.swap (FP x)) = prod.swap x"
  by (simp add: IP_def FP_def PERM_OP'_def)

lemma rotations [simp]: "ROTATE (ROTATE x 3) 29 = x" "ROTATE (ROTATE x 29) 3 = x"
  by (rule bit_word_eqI, simp add: ROTATE_def bit_word_rotr_iff mod_simps)+

lemma D_ENCRYPT_twice [simp]: "D_ENCRYPT (D_ENCRYPT ll r s i) r s i = ll"
  by (simp add: D_ENCRYPT_def xor.assoc)

lemma unturn_turn: "des_unturn s i (prod.swap (des_turn s i lr)) = prod.swap lr"
  and turn_unturn: "des_turn s i (prod.swap (des_unturn s i lr)) = prod.swap lr"
  by (simp_all add: des_turn_def des_unturn_def Let_def split: prod.split)

lemma fold_undone:
  assumes "\<And>i x. g i (prod.swap (f i x)) = prod.swap x"
  shows "fold g (rev is) (prod.swap (fold f is x)) = prod.swap x"
proof (induction "is" arbitrary: x)
  case (Cons i "is")
  have "fold g (rev is) (prod.swap (fold f is (f i x))) = prod.swap (f i x)" by (rule Cons.IH)
  then show ?case by (simp add: assms)
qed simp

lemma rounds_undone: "des_rounds s (\<not> enc) (prod.swap (des_rounds s enc x)) = prod.swap x"
  using fold_undone [of "des_unturn s" "des_turn s" "[0, 4, 8, 12, 16, 20, 24, 28]" x, OF unturn_turn]
    fold_undone [of "des_turn s" "des_unturn s" "[28, 24, 20, 16, 12, 8, 4, 0]" x, OF turn_unturn]
  by (cases enc) (simp_all add: des_rounds_def)

lemma DES_encrypt2_undone: "DES_encrypt2 (DES_encrypt2 d ks enc) ks (\<not> enc) = d"
proof -
  obtain l r where e: "des_rounds ks enc (ROTATE (snd d) 29, ROTATE (fst d) 29) = (l, r)" by fastforce
  then have "des_rounds ks (\<not> enc) (r, l) = (ROTATE (fst d) 29, ROTATE (snd d) 29)"
    using rounds_undone [of ks enc "(ROTATE (snd d) 29, ROTATE (fst d) 29)"] by simp
  then show ?thesis using e by (simp add: DES_encrypt2_def)
qed

lemma DES_encrypt1_undone: "DES_encrypt1 (DES_encrypt1 d ks True) ks False = d"
proof -
  obtain r l where ip: "IP d = (r, l)" by fastforce
  obtain l1 r1 where e: "des_rounds ks True (ROTATE l 29, ROTATE r 29) = (l1, r1)" by fastforce
  obtain r2 l2 where fp: "FP (ROTATE r1 3, ROTATE l1 3) = (r2, l2)" by fastforce
  have "des_rounds ks False (r1, l1) = (ROTATE r 29, ROTATE l 29)"
    using rounds_undone [of ks True "(ROTATE l 29, ROTATE r 29)"] e by simp
  moreover have "IP (l2, r2) = (ROTATE l1 3, ROTATE r1 3)" using IP_FP [of "(ROTATE r1 3, ROTATE l1 3)"] fp by simp
  moreover have "prod.swap (FP (l, r)) = d"
  proof -
    have "FP (prod.swap (IP d)) = prod.swap d" by (simp add: IP_def FP_def PERM_OP'_def)
    then show ?thesis by (simp add: ip)
  qed
  ultimately show ?thesis using ip e fp by (auto simp: DES_encrypt1_def split: prod.splits)
qed

lemma DES_decrypt3_undoes: "DES_decrypt3 (DES_encrypt3 d k1 k2 k3) k1 k2 k3 = d"
proof -
  obtain l r where e: "DES_encrypt2 (DES_encrypt2 (DES_encrypt2 (IP d) k1 True) k2 False) k3 True = (l, r)" by fastforce
  obtain r1 l1 where fp: "FP (r, l) = (r1, l1)" by fastforce
  have "IP (l1, r1) = (l, r)" using IP_FP [of "(r, l)"] fp by simp
  moreover have "DES_encrypt2 (DES_encrypt2 (DES_encrypt2 (l, r) k3 False) k2 True) k1 False = IP d"
    using DES_encrypt2_undone [of _ _ True] DES_encrypt2_undone [of _ _ False] unfolding e [symmetric] by simp
  moreover have "FP (prod.swap (IP d)) = prod.swap d" by (simp add: IP_def FP_def PERM_OP'_def)
  ultimately show ?thesis using e fp by (cases "IP d", cases d) (auto simp: DES_encrypt3_def DES_decrypt3_def)
qed

interpretation des: cbc_mode chr_io "\<lambda>d. DES_encrypt1 d ks True" "\<lambda>d. DES_encrypt1 d ks False" for ks
  by unfold_locales (rule DES_encrypt1_undone)

interpretation des3: cbc_mode chr_io "\<lambda>d. DES_encrypt3 d k1 k2 k3" "\<lambda>d. DES_decrypt3 d k1 k2 k3" for k1 k2 k3
  by unfold_locales (rule DES_decrypt3_undoes)

end
