(* ===== verification/Pok_Protocols.thy ===== *)
theory Pok_Protocols
  imports Pok_Blowfish Pok_Des "HOL-Library.Signed_Division"
begin

text \<open>
  The protocols that encode messages: the cipher of Caesar (\<open>libpok/protocols/ceasar/ceasar.c\<close>), and what arrives of a message
  with it and with DES; the checks of the keys of DES.
\<close>

subsection \<open>The cipher of Caesar\<close>

text \<open>The remainder of C has the sign of the number that is divided.\<close>

definition pok_protocols_ceasar_marshall :: "bytes \<Rightarrow> u32 \<Rightarrow> bytes \<Rightarrow> bytes \<times> u32" where
  "pok_protocols_ceasar_marshall uncrypted uncrypted_size crypted =
     (fold (\<lambda>tmp out. out(tmp := word_of_int ((uint (uncrypted tmp) + 4) smod 255))) [0..<unat uncrypted_size] crypted, uncrypted_size)"

definition pok_protocols_ceasar_unmarshall :: "bytes \<Rightarrow> u32 \<Rightarrow> bytes \<Rightarrow> bytes \<times> u32" where
  "pok_protocols_ceasar_unmarshall crypted crypted_size uncrypted =
     (fold (\<lambda>tmp out. out(tmp := word_of_int ((uint (crypted tmp) - 4) smod 255))) [0..<unat crypted_size] uncrypted, crypted_size)"

lemma fold_bytes: "fold (\<lambda>tmp out. out(tmp := f tmp)) [0..<n] c = (\<lambda>k. if k < n then f k else c k)"
  by (induction n) auto

lemma byte_shifted_back:
  "word_of_int ((uint (word_of_int ((uint b + 4) smod 255) :: u8) - 4) smod 255) = b + of_bool (250 < (b :: u8))"
proof -
  have all: "\<forall>n \<in> set [0..<256]. word_of_int ((uint (word_of_int ((uint (of_nat n :: u8) + 4) smod 255) :: u8) - 4) smod 255) =
      (of_nat n :: u8) + of_bool (250 < (of_nat n :: u8))" by code_simp
  have "unat b < 256" by (rule order_less_le_trans [OF unsigned_less]) simp
  then show ?thesis using all [rule_format, of "unat b"] by simp
qed

text \<open>C40: A message that is encoded and decoded with the cipher of Caesar comes back with its length, and with its bytes up
  to 250; each greater byte comes back one too high, 255 as 0.\<close>

theorem ceasar_roundtrip:
  "pok_protocols_ceasar_unmarshall (fst (pok_protocols_ceasar_marshall data n out)) (snd (pok_protocols_ceasar_marshall data n out)) dst =
     ((\<lambda>k. if k < unat n then data k + of_bool (250 < data k) else dst k), n)"
  by (simp add: pok_protocols_ceasar_unmarshall_def pok_protocols_ceasar_marshall_def fold_bytes byte_shifted_back cong: if_cong)

subsection \<open>Keys of DES\<close>

lemma memcmp_zero: "user_memcmp v1 v2 n = 0 \<longleftrightarrow> (\<forall>i<unat n. word_at v1 i = word_at v2 i)"
  by (auto simp: user_memcmp_def memcmp_loop_cases)

lemma weak_iff:
  "DES_is_weak_key behind key \<longleftrightarrow> (\<exists>i<16. \<forall>w<8. word_at (\<lambda>k. weak_keys behind (8 * i + k)) w = word_at key w)"
  by (auto simp: DES_is_weak_key_def memcmp_zero list_ex_iff)

lemma weak_row: "i < 16 \<Longrightarrow> w < 2 \<Longrightarrow> word_at (\<lambda>k. weak_keys behind (8 * i + k)) w = word_at (\<lambda>k. weak_key_bytes ! (8 * i + k)) w"
  by (simp add: word_at_def weak_keys_def)

text \<open>The weak keys differ in their first eight bytes.\<close>

definition weak_word :: "nat \<Rightarrow> nat \<Rightarrow> u32" where
  "weak_word i w = word_at (\<lambda>k. weak_key_bytes ! (8 * i + k)) w"

lemma weak_rows_distinct: "\<forall>i \<in> set [0..<16]. \<forall>j \<in> set [0..<16]. weak_word i 0 = weak_word j 0 \<and> weak_word i 1 = weak_word j 1 \<longrightarrow> i = j"
  by code_simp

lemma weak_rows_odd: "\<forall>k \<in> set [0..<128]. weak_key_bytes ! k = odd_parity ! unat (weak_key_bytes ! k)"
  by code_simp

lemma byte_parity: "(b :: u8) = odd_parity ! unat b \<longleftrightarrow> odd (length (filter (bit b) [0..<8]))"
proof -
  have all: "\<forall>n \<in> set [0..<256]. (of_nat n :: u8) = odd_parity ! n \<longleftrightarrow> odd (length (filter (bit (of_nat n :: u8)) [0..<8]))"
    by code_simp
  have "unat b < 256" by (rule order_less_le_trans [OF unsigned_less]) simp
  then show ?thesis using all [rule_format, of "unat b"] by simp
qed

text \<open>C39: The checks of the keys of DES: a key with a byte of even parity is refused, and the schedule left as it was, so that
  the protocol encrypts with what was on the stack; and each of the sixteen weak keys is accepted, unless the memory behind
  it continues like the table, because the comparison goes over thirty-two bytes instead of eight.\<close>

theorem des_weak_keys_accepted:
  "(i < 16 \<and> (\<forall>k<8. key k = weak_key_bytes ! (8 * i + k)) \<and> word_at key 2 \<noteq> word_at (\<lambda>k. weak_keys behind (8 * i + k)) 2 \<longrightarrow>
      DES_set_key_checked behind key sched = (0, DES_set_key_unchecked key sched)) \<and>
   (k < 8 \<and> even (length (filter (bit (key k)) [0..<8])) \<longrightarrow> DES_set_key_checked behind key sched = (- 1, sched)) \<and>
   (fst (DES_set_key_checked (behind_weak_keys ds) (cbc_key ds) sched) \<noteq> 0 \<longrightarrow>
      pok_protocols_des_marshall ds sched data n out = (fst (DES_ncbc_encrypt data out (sint n) sched (initVector ds) True), 8))"
proof (intro conjI impI)
  assume a: "i < 16 \<and> (\<forall>k<8. key k = weak_key_bytes ! (8 * i + k)) \<and> word_at key 2 \<noteq> word_at (\<lambda>k. weak_keys behind (8 * i + k)) 2"
  have "DES_check_key_parity key" using a weak_rows_odd by (auto simp: DES_check_key_parity_def list_all_iff)
  moreover have "\<not> DES_is_weak_key behind key"
  proof
    assume "DES_is_weak_key behind key"
    then obtain j where j: "j < 16" "\<And>w. w < 8 \<Longrightarrow> word_at (\<lambda>k. weak_keys behind (8 * j + k)) w = word_at key w"
      by (auto simp: weak_iff)
    have "word_at key w = weak_word i w" if "w < 2" for w
      using a that by (simp add: word_at_def weak_word_def)
    then have "weak_word j w = weak_word i w" if "w < 2" for w
      using j(2) [of w] weak_row [OF j(1) that, of behind] that by (simp add: weak_word_def)
    from this [of 0] this [of 1] have "j = i" using weak_rows_distinct j(1) a by simp
    then show False using j(2) [of 2] a by simp
  qed
  ultimately show "DES_set_key_checked behind key sched = (0, DES_set_key_unchecked key sched)"
    by (simp add: DES_set_key_checked_def)
next
  assume a: "k < 8 \<and> even (length (filter (bit (key k)) [0..<8]))"
  have "key k \<noteq> odd_parity ! unat (key k)" using a byte_parity by blast
  then show "DES_set_key_checked behind key sched = (- 1, sched)"
    using a by (auto simp: DES_set_key_checked_def DES_check_key_parity_def list_all_iff)
next
  assume "fst (DES_set_key_checked (behind_weak_keys ds) (cbc_key ds) sched) \<noteq> 0"
  then have "snd (DES_set_key_checked (behind_weak_keys ds) (cbc_key ds) sched) = sched"
    by (auto simp: DES_set_key_checked_def split: if_splits)
  then show "pok_protocols_des_marshall ds sched data n out = (fst (DES_ncbc_encrypt data out (sint n) sched (initVector ds) True), 8)"
    by (simp add: pok_protocols_des_marshall_def)
qed

lemma des_weak_keys_accepted_witness:
  "fst (DES_set_key_checked (\<lambda>_. 0) (\<lambda>k. if k < 8 then 1 else 0) (\<lambda>_. 5)) = 0"
proof -
  have "\<forall>k<8. (if k < 8 then 1 else 0) = weak_key_bytes ! (8 * 0 + k)" by code_simp
  moreover have "word_at (\<lambda>k. if k < 8 then 1 else 0) 2 \<noteq> word_at (\<lambda>k. weak_keys (\<lambda>_. 0) (8 * 0 + k)) 2" by code_simp
  ultimately show ?thesis
    using des_weak_keys_accepted [of 0 "\<lambda>k. if k < 8 then 1 else 0" "\<lambda>_. 0" "\<lambda>_. 5"] by simp
qed

subsection \<open>Messages with DES\<close>

text \<open>The schedule of a key does not depend on what was there before, and the rounds use its thirty-two words only.\<close>

lemma schedule_fresh:
  "fst (fold schedule_step is (cd, s1)) = fst (fold schedule_step is (cd, s2)) \<and>
   (\<forall>k. s1 k = s2 k \<or> k div 2 \<in> set is \<longrightarrow> snd (fold schedule_step is (cd, s1)) k = snd (fold schedule_step is (cd, s2)) k)"
proof (induction "is" arbitrary: cd s1 s2)
  case (Cons i "is")
  obtain cd' x y where st: "schedule_step i (cd, s) = (cd', s(2 * i := x, 2 * i + 1 := y))" for s
    by (cases cd) (simp add: schedule_step_def Let_def)
  define t where "t s = s(2 * i := x, 2 * i + 1 := y)" for s :: DES_key_schedule
  have "t s1 k = t s2 k" if "s1 k = s2 k \<or> k div 2 = i" for k
  proof -
    have "k div 2 = i \<Longrightarrow> k = 2 * i \<or> k = 2 * i + 1" by auto
    then show ?thesis using that by (auto simp: t_def)
  qed
  then show ?case using Cons.IH [of cd' "t s1" "t s2"] by (auto simp: st [folded t_def])
qed simp

lemma set_key_fresh: "i < 32 \<Longrightarrow> DES_set_key_unchecked key s1 i = DES_set_key_unchecked key s2 i"
  using schedule_fresh [of "[0..<16]" "key_halves key" s1 s2] by (simp add: DES_set_key_unchecked_def)

lemma DES_encrypt1_cong:
  assumes "\<And>i. i < 32 \<Longrightarrow> s1 i = s2 i"
  shows "DES_encrypt1 d s1 enc = DES_encrypt1 d s2 enc"
proof -
  have m: "des_mix r s1 i = des_mix r s2 i" if "i < 31" for r i using assms that by (simp add: des_mix_def)
  have turns: "des_turn s1 i = des_turn s2 i" "des_unturn s1 i = des_unturn s2 i" if "i < 29" for i
    using that by (auto simp: fun_eq_iff des_turn_def des_unturn_def D_ENCRYPT_def m)
  have "des_rounds s1 e x = des_rounds s2 e x" for e x by (simp add: des_rounds_def turns)
  then show ?thesis by (simp add: DES_encrypt1_def)
qed

text \<open>C28: With a key that is accepted, a message of the DES protocol arrives as its first eight bytes, filled up with zeros when it
  is shorter, whatever is on the stacks of sender and receiver; the length of both sides is reported as eight.\<close>

theorem des_message_first_block:
  assumes "fst (DES_set_key_checked (behind_weak_keys ds) (cbc_key ds) junk) = 0" and "0 < sint n"
    and "crypted = pok_protocols_des_marshall ds stack1 data n out"
  shows "pok_protocols_des_unmarshall ds stack2 (fst crypted) (snd crypted) dst =
    ((\<lambda>k. if k < 8 then if int k < sint n then data k else 0 else dst k), 8)"
proof -
  define key where "key = DES_set_key_unchecked (cbc_key ds) (\<lambda>_. 0)"
  have "snd (DES_set_key_checked (behind_weak_keys ds) (cbc_key ds) s) = DES_set_key_unchecked (cbc_key ds) s" for s
    using assms(1) by (auto simp: DES_set_key_checked_def split: if_splits)
  moreover have "DES_encrypt1 d (DES_set_key_unchecked (cbc_key ds) s) enc = DES_encrypt1 d key enc" for d s enc
    unfolding key_def by (rule DES_encrypt1_cong) (rule set_key_fresh)
  moreover have "sint (8 :: u32) = 8" by simp
  ultimately show ?thesis
    using des.cbc_first_block [OF assms(2), of key data out "initVector ds" dst]
    by (simp add: assms(3) pok_protocols_des_marshall_def pok_protocols_des_unmarshall_def DES_ncbc_encrypt_def)
qed

definition demo_des :: des_setup where
  "demo_des = \<lparr>cbc_key = POK_PROTOCOLS_DES_KEY, initVector = POK_PROTOCOLS_DES_INIT, behind_weak_keys = (\<lambda>_. 0)\<rparr>"

lemma des_message_first_block_witness:
  "fst (pok_protocols_des_unmarshall demo_des (\<lambda>_. 3) (fst (pok_protocols_des_marshall demo_des (\<lambda>_. 9) of_nat 6 (\<lambda>_. 1))) 8 (\<lambda>_. 2)) 5 = 5"
proof -
  have "\<forall>k \<in> set [0..<8]. POK_PROTOCOLS_DES_KEY k = odd_parity ! unat (POK_PROTOCOLS_DES_KEY k)" by code_simp
  then have "DES_check_key_parity POK_PROTOCOLS_DES_KEY" by (simp add: DES_check_key_parity_def list_all_iff)
  moreover have "\<not> DES_is_weak_key (\<lambda>_. 0) POK_PROTOCOLS_DES_KEY"
  proof
    assume "DES_is_weak_key (\<lambda>_. 0) POK_PROTOCOLS_DES_KEY"
    then obtain j where "j < 16" "weak_word j 0 = word_at POK_PROTOCOLS_DES_KEY 0"
      using weak_row [of _ 0] by (fastforce simp: weak_iff weak_word_def)
    moreover have "\<forall>j \<in> set [0..<16]. weak_word j 0 \<noteq> word_at POK_PROTOCOLS_DES_KEY 0" by code_simp
    ultimately show False by simp
  qed
  ultimately have "fst (DES_set_key_checked (behind_weak_keys demo_des) (cbc_key demo_des) (\<lambda>_. 0)) = 0"
    by (simp add: demo_des_def DES_set_key_checked_def)
  from des_message_first_block [where data = of_nat and n = 6 and out = "\<lambda>_. 1" and ?stack1.0 = "\<lambda>_. 9" and ?stack2.0 = "\<lambda>_. 3"
      and dst = "\<lambda>_. 2", OF this _ refl] show ?thesis
    by (simp add: pok_protocols_des_marshall_def)
qed

text \<open>C26: Chaining with DES, and with DES three times under three keys, restores a message of any length, and both sides have the same
  vector for the next message.\<close>

theorem des_cbc_roundtrip:
  assumes "0 \<le> len"
  shows "DES_ncbc_encrypt (fst (DES_ncbc_encrypt inp out len ks ivec True)) dst len ks ivec False =
      ((\<lambda>k. if int k < len then inp k else dst k), snd (DES_ncbc_encrypt inp out len ks ivec True)) \<and>
    DES_ede3_cbc_encrypt (fst (DES_ede3_cbc_encrypt inp out len k1 k2 k3 ivec True)) dst len k1 k2 k3 ivec False =
      ((\<lambda>k. if int k < len then inp k else dst k), snd (DES_ede3_cbc_encrypt inp out len k1 k2 k3 ivec True))"
  using des.cbc_restores [OF assms] des3.cbc_restores [OF assms] by (simp add: DES_ncbc_encrypt_def DES_ede3_cbc_encrypt_def)

lemma des_cbc_roundtrip_witness:
  "fst (DES_ncbc_encrypt (fst (DES_ncbc_encrypt of_nat (\<lambda>_. 0) 21 (\<lambda>_. 6) (\<lambda>_. 7) True)) (\<lambda>_. 0) 21 (\<lambda>_. 6) (\<lambda>_. 7) False) 20 = 20"
  using des_cbc_roundtrip [of 21 of_nat "\<lambda>_. 0" "\<lambda>_. 6" "\<lambda>_. 7" "\<lambda>_. 0"] by simp

end
